(* ===== verification/Prelude.thy ===== *)
theory Prelude
  imports Complex_Main "HOL-Library.AList" "HOL-Library.Multiset"
begin

text \<open>
  Shared vocabulary of the development: Python values as HOL values, insertion-ordered
  dictionaries, bounded deques, rounding, stable descending sorts, and the generic lemmas
  about them that the component theories use through the simplifier.

  Conventions. A Python \<open>float\<close> is an exact rational (\<open>pyfloat\<close>): comparisons, sums and
  products are the mathematical ones and binary rounding error is not modelled. A call of
  \<open>time.time()\<close> is an argument \<open>now\<close> of the operation. A \<open>dict\<close> is an association list with
  distinct keys, in insertion order, because the code iterates over its dictionaries and
  takes their length. An exception is the left injection of a sum.
\<close>

type_synonym pyfloat = rat
type_synonym ('k, 'v) dict = "('k \<times> 'v) list"

named_theorems dict_simps \<open>lookups, keys and lengths of dictionaries\<close>

section \<open>Dictionaries\<close>

abbreviation dict_get :: "('k, 'v) dict \<Rightarrow> 'k \<Rightarrow> 'v option" where
  "dict_get d \<equiv> map_of d"

abbreviation dict_set :: "'k \<Rightarrow> 'v \<Rightarrow> ('k, 'v) dict \<Rightarrow> ('k, 'v) dict" where
  "dict_set k v d \<equiv> AList.update k v d"

abbreviation dict_pop :: "'k \<Rightarrow> ('k, 'v) dict \<Rightarrow> ('k, 'v) dict" where
  "dict_pop k d \<equiv> AList.delete k d"

definition dict_ok :: "('k, 'v) dict \<Rightarrow> bool" where
  "dict_ok d \<longleftrightarrow> distinct (map fst d)"

definition dict_get_or :: "('k, 'v) dict \<Rightarrow> 'k \<Rightarrow> 'v \<Rightarrow> 'v" where
  "dict_get_or d k dflt = (case map_of d k of None \<Rightarrow> dflt | Some v \<Rightarrow> v)"

definition dict_has :: "('k, 'v) dict \<Rightarrow> 'k \<Rightarrow> bool" where
  "dict_has d k \<longleftrightarrow> map_of d k \<noteq> None"

lemma dict_get_set [simp, dict_simps]:
  "dict_get (dict_set k v d) k' = (if k' = k then Some v else dict_get d k')"
  by (simp add: update_conv')

lemma dict_get_pop [simp, dict_simps]:
  "dict_get (dict_pop k d) k' = (if k' = k then None else dict_get d k')"
  by (simp add: delete_conv')

lemma dict_get_or_set [simp, dict_simps]:
  "dict_get_or (dict_set k v d) k' x = (if k' = k then v else dict_get_or d k' x)"
  by (simp add: dict_get_or_def)

lemma dict_get_or_pop [simp, dict_simps]:
  "dict_get_or (dict_pop k d) k' x = (if k' = k then x else dict_get_or d k' x)"
  by (simp add: dict_get_or_def)

lemma dict_ok_Nil [simp]: "dict_ok []"
  by (simp add: dict_ok_def)

lemma dict_ok_set [simp, intro]: "dict_ok d \<Longrightarrow> dict_ok (dict_set k v d)"
  by (simp add: dict_ok_def distinct_update)

lemma dict_ok_pop [simp, intro]: "dict_ok d \<Longrightarrow> dict_ok (dict_pop k d)"
  by (simp add: dict_ok_def distinct_delete)

lemma dict_ok_filter [simp, intro]: "dict_ok d \<Longrightarrow> dict_ok (filter P d)"
  by (simp add: dict_ok_def distinct_map_filter)

lemma dict_ok_getI: "dict_ok d \<Longrightarrow> (k, v) \<in> set d \<Longrightarrow> dict_get d k = Some v"
  by (simp add: dict_ok_def)

lemma dict_get_in: "dict_get d k = Some v \<Longrightarrow> (k, v) \<in> set d"
  by (rule map_of_SomeD)

lemma dict_get_iff: "dict_ok d \<Longrightarrow> dict_get d k = Some v \<longleftrightarrow> (k, v) \<in> set d"
  by (simp add: dict_ok_def)

lemma dict_has_keys: "dict_has d k \<longleftrightarrow> k \<in> fst ` set d"
  by (simp add: dict_has_def map_of_eq_None_iff)

lemma length_dict_set:
  "length (dict_set k v d) = (if dict_has d k then length d else Suc (length d))"
  by (induction d) (auto simp: dict_has_def)

lemma length_dict_pop_le [simp]: "length (dict_pop k d) \<le> length d"
  by (simp add: AList.delete_eq)

lemma length_dict_pop_less: "dict_has d k \<Longrightarrow> length (dict_pop k d) < length d"
proof (induction d)
  case (Cons p d)
  then show ?case
    by (auto simp: dict_has_def AList.delete_eq split: if_splits intro: le_imp_less_Suc)
qed (simp add: dict_has_def)

lemma dict_set_keys: "fst ` set (dict_set k v d) = insert k (fst ` set d)"
  by (simp add: dom_update)

lemma dict_pop_absent: "dict_get d k = None \<Longrightarrow> dict_pop k d = d"
  by (induction d) (auto simp: AList.delete_eq split: if_splits)

lemma dict_pop_set_neq [simp]:
  "k \<noteq> k' \<Longrightarrow> dict_pop k (dict_set k' v d) = dict_set k' v (dict_pop k d)"
  by (induction d) (auto simp: AList.delete_eq)

lemma dict_pop_set_same [simp]: "dict_pop k (dict_set k v d) = dict_pop k d"
  by (induction d) (auto simp: AList.delete_eq)

lemma set_dict_pop: "set (dict_pop k d) = {p \<in> set d. fst p \<noteq> k}"
  by (auto simp: AList.delete_eq)

lemma in_dict_set_neq:
  "k' \<noteq> k \<Longrightarrow> (k', w) \<in> set (dict_set k v d) \<longleftrightarrow> (k', w) \<in> set d"
  by (induction d) auto

lemma in_dict_set:
  "dict_ok d \<Longrightarrow> (k', w) \<in> set (dict_set k v d) \<longleftrightarrow>
     (if k' = k then w = v else (k', w) \<in> set d)"
  using dict_get_iff [of "dict_set k v d" k' w] dict_get_iff [of d k' w] by auto

lemma dict_get_filter:
  "dict_ok d \<Longrightarrow> dict_get (filter (\<lambda>(k, v). P v) d) k =
     (case dict_get d k of Some v \<Rightarrow> (if P v then Some v else None) | None \<Rightarrow> None)"
proof (induction d)
  case (Cons p d)
  obtain a v where p: "p = (a, v)" by (cases p)
  with Cons.prems have "dict_get d a = None" "dict_ok d"
    by (simp_all add: dict_ok_def map_of_eq_None_iff)
  then show ?case using Cons.IH p by (cases "k = a") simp_all
qed simp

lemma dict_get_fold_pop: "dict_get (fold dict_pop ks d) k = (if k \<in> set ks then None else dict_get d k)"
  by (induction ks arbitrary: d) auto

lemma dict_ok_fold_pop [simp]: "dict_ok d \<Longrightarrow> dict_ok (fold dict_pop ks d)"
  by (induction ks arbitrary: d) auto

lemma list_all_dict_pop: "list_all P d \<Longrightarrow> list_all P (dict_pop k d)"
  by (auto simp: list_all_iff AList.delete_eq)

lemma list_all_dict_set:
  "list_all P d \<Longrightarrow> P (k, v) \<Longrightarrow> list_all P (dict_set k v d)"
  by (induction d) auto

lemma dict_has_set [simp]: "dict_has (dict_set k v d) k' \<longleftrightarrow> k' = k \<or> dict_has d k'"
  by (simp add: dict_has_def)

lemma dict_set_twice [simp]: "dict_set k v (dict_set k w d) = dict_set k v d"
  by (induction d) auto

section \<open>Slices, bounded deques, selection\<close>

text \<open>Python's \<open>xs[-n:]\<close> for a positive \<open>n\<close>, and \<open>deque(maxlen=n).append\<close>.\<close>

definition last_n :: "nat \<Rightarrow> 'a list \<Rightarrow> 'a list" where
  "last_n n xs = drop (length xs - n) xs"

definition push_bounded :: "nat \<Rightarrow> 'a list \<Rightarrow> 'a \<Rightarrow> 'a list" where
  "push_bounded n xs x = last_n n (xs @ [x])"

lemma length_last_n [simp]: "length (last_n n xs) = min n (length xs)"
  by (simp add: last_n_def)

lemma set_last_n: "set (last_n n xs) \<subseteq> set xs"
  by (simp add: last_n_def set_drop_subset)

lemma length_push_bounded [simp]: "length (push_bounded n xs x) = min n (Suc (length xs))"
  by (simp add: push_bounded_def)

lemma set_push_bounded: "set (push_bounded n xs x) \<subseteq> insert x (set xs)"
  using set_last_n [of n "xs @ [x]"] by (auto simp: push_bounded_def)

lemma last_push_bounded [simp]: "0 < n \<Longrightarrow> last (push_bounded n xs x) = x"
  by (simp add: push_bounded_def last_n_def)

lemma length_filter_mono:
  "(\<And>x. x \<in> set xs \<Longrightarrow> P x \<Longrightarrow> Q x) \<Longrightarrow> length (filter P xs) \<le> length (filter Q xs)"
  by (induction xs) (auto simp: le_SucI)

text \<open>Stable sorting by a descending key: \<open>sorted(xs, key=f, reverse=True)\<close> keeps the order
  of equal keys.\<close>

definition sort_desc :: "('a \<Rightarrow> pyfloat) \<Rightarrow> 'a list \<Rightarrow> 'a list" where
  "sort_desc f xs = sort_key (\<lambda>x. - f x) xs"

lemma set_sort_desc [simp]: "set (sort_desc f xs) = set xs"
  by (simp add: sort_desc_def)

lemma length_sort_desc [simp]: "length (sort_desc f xs) = length xs"
  by (simp add: sort_desc_def)

lemma mset_sort_desc [simp]: "mset (sort_desc f xs) = mset xs"
  by (simp add: sort_desc_def)

lemma sort_desc_eq_Nil [simp]: "sort_desc f xs = [] \<longleftrightarrow> xs = []"
  by (metis length_0_conv length_sort_desc)

lemma distinct_sort_desc [simp]: "distinct (sort_desc f xs) \<longleftrightarrow> distinct xs"
  by (simp add: sort_desc_def)

lemma sorted_sort_desc: "sorted_wrt (\<lambda>a b. f b \<le> f a) (sort_desc f xs)"
proof -
  have "sorted_wrt (\<le>) (map (\<lambda>x. - f x) (sort_desc f xs))"
    by (simp add: sort_desc_def)
  then show ?thesis by (simp add: sorted_wrt_map)
qed

lemma hd_sort_desc: "x \<in> set xs \<Longrightarrow> f x \<le> f (hd (sort_desc f xs))"
proof -
  assume x: "x \<in> set xs"
  obtain y ys where s: "sort_desc f xs = y # ys"
    using x by (metis list.exhaust list.set_cases sort_desc_eq_Nil list.distinct(1))
  have "x = y \<or> x \<in> set ys" using x s set_sort_desc [of f xs] by auto
  then show ?thesis using sorted_sort_desc [of f xs] s by auto
qed

section \<open>Python's \<open>int\<close>, \<open>round\<close> and arithmetic on rationals\<close>

text \<open>\<open>int(x)\<close> truncates towards zero; \<open>round(x, n)\<close> rounds half to even.\<close>

definition py_int :: "pyfloat \<Rightarrow> int" where
  "py_int x = (if 0 \<le> x then \<lfloor>x\<rfloor> else \<lceil>x\<rceil>)"

definition round_even :: "pyfloat \<Rightarrow> int" where
  "round_even x =
     (let f = \<lfloor>x\<rfloor>; r = x - of_int f
      in if r < 1 / 2 then f else if 1 / 2 < r then f + 1 else if even f then f else f + 1)"

definition py_round :: "nat \<Rightarrow> pyfloat \<Rightarrow> pyfloat" where
  "py_round n x = of_int (round_even (x * 10 ^ n)) / 10 ^ n"

lemma round_even_cases: "round_even x = \<lfloor>x\<rfloor> \<or> round_even x = \<lfloor>x\<rfloor> + 1"
  by (simp add: round_even_def Let_def)

lemma round_even_near: "\<bar>of_int (round_even x) - x\<bar> \<le> 1 / 2"
proof -
  have fl: "of_int \<lfloor>x\<rfloor> \<le> x" and fu: "x < of_int \<lfloor>x\<rfloor> + 1"
    by (simp, linarith)
  consider "round_even x = \<lfloor>x\<rfloor>" "x - of_int \<lfloor>x\<rfloor> \<le> 1 / 2"
    | "round_even x = \<lfloor>x\<rfloor> + 1" "1 / 2 \<le> x - of_int \<lfloor>x\<rfloor>"
    by (fastforce simp: round_even_def Let_def split: if_splits)
  then show ?thesis using fl fu by cases auto
qed

lemma round_even_of_int [simp]: "round_even (of_int k) = k"
  by (simp add: round_even_def)

lemma round_even_mono: "x \<le> y \<Longrightarrow> round_even x \<le> round_even y"
proof -
  assume le: "x \<le> y"
  then have fl: "\<lfloor>x\<rfloor> \<le> \<lfloor>y\<rfloor>" by (rule floor_mono)
  show ?thesis
  proof (cases "\<lfloor>x\<rfloor> = \<lfloor>y\<rfloor>")
    case True
    with le show ?thesis by (auto simp: round_even_def Let_def)
  next
    case False
    with fl show ?thesis using round_even_cases [of x] round_even_cases [of y] by linarith
  qed
qed

lemma py_round_mono: "x \<le> y \<Longrightarrow> py_round n x \<le> py_round n y"
  by (simp add: py_round_def divide_right_mono round_even_mono)

lemma py_round_of_int [simp]: "py_round n (of_int k) = of_int k"
proof -
  have "(of_int k :: rat) * 10 ^ n = of_int (k * 10 ^ n)" by simp
  then show ?thesis unfolding py_round_def by (simp only: round_even_of_int) simp
qed

lemma py_round_0 [simp]: "py_round n 0 = 0"
  using py_round_of_int [of n 0] by simp

lemma py_round_numeral [simp]: "py_round n (numeral w) = numeral w"
  using py_round_of_int [of n "numeral w"] by simp

lemma py_round_nonneg: "0 \<le> x \<Longrightarrow> 0 \<le> py_round n x"
  using py_round_mono [of 0 x n] by simp

lemma py_round_le_of_int: "x \<le> of_int k \<Longrightarrow> py_round n x \<le> of_int k"
  using py_round_mono [of x "of_int k" n] by simp

lemma py_round_close: "\<bar>py_round n x - x\<bar> \<le> 1 / (2 * 10 ^ n)"
proof -
  let ?r = "of_int (round_even (x * 10 ^ n)) :: rat" and ?p = "(10 :: rat) ^ n"
  have p: "0 < ?p" by simp
  have "\<bar>?r - x * ?p\<bar> \<le> 1 / 2"
    by (rule round_even_near)
  then have "\<bar>?r - x * ?p\<bar> / ?p \<le> (1 / 2) / ?p"
    using p by (intro divide_right_mono) auto
  then have "\<bar>(?r - x * ?p) / ?p\<bar> \<le> (1 / 2) / ?p"
    using p by simp
  moreover have "(?r - x * ?p) / ?p = py_round n x - x"
    using p by (simp add: py_round_def diff_divide_distrib)
  ultimately show ?thesis by simp
qed

section \<open>Strings\<close>

text \<open>
  \<open>str.lower\<close>, \<open>str.upper\<close> and \<open>str.isdigit\<close> on the ASCII range, \<open>str.startswith\<close>, and
  \<open>str.split\<close> with a one-character separator.
\<close>

definition lower_char :: "char \<Rightarrow> char" where
  "lower_char c = (if of_char c \<in> {65..90 :: nat} then char_of (of_char c + 32 :: nat) else c)"

definition upper_char :: "char \<Rightarrow> char" where
  "upper_char c = (if of_char c \<in> {97..122 :: nat} then char_of (of_char c - 32 :: nat) else c)"

definition py_lower :: "string \<Rightarrow> string" where
  "py_lower s = map lower_char s"

definition py_upper :: "string \<Rightarrow> string" where
  "py_upper s = map upper_char s"

definition is_digit :: "char \<Rightarrow> bool" where
  "is_digit c \<longleftrightarrow> of_char c \<in> {48..57 :: nat}"

text \<open>White space and \<open>str.strip\<close>.\<close>

definition is_space :: "char \<Rightarrow> bool" where
  "is_space c \<longleftrightarrow> of_char c \<in> {9, 10, 11, 12, 13, 28, 29, 30, 31, 32 :: nat}"

definition py_strip :: "string \<Rightarrow> string" where
  "py_strip s = rev (dropWhile is_space (rev (dropWhile is_space s)))"

fun starts_with :: "string \<Rightarrow> string \<Rightarrow> bool" where
  "starts_with [] s = True"
| "starts_with (c # p) [] = False"
| "starts_with (c # p) (d # s) = (c = d \<and> starts_with p s)"

fun split_on :: "char \<Rightarrow> string \<Rightarrow> string list" where
  "split_on c [] = [[]]"
| "split_on c (d # s) =
     (if d = c then [] # split_on c s
      else (case split_on c s of [] \<Rightarrow> [[d]] | w # ws \<Rightarrow> (d # w) # ws))"

fun join_with :: "string \<Rightarrow> string list \<Rightarrow> string" where
  "join_with sep [] = []"
| "join_with sep [w] = w"
| "join_with sep (w # v # ws) = w @ sep @ join_with sep (v # ws)"

text \<open>\<open>str.partition\<close> with a one-character separator, and what \<open>$\<close> of a regular expression ignores.\<close>

definition partition_at :: "char \<Rightarrow> string \<Rightarrow> string \<times> string" where
  "partition_at c s = (takeWhile (\<lambda>d. d \<noteq> c) s, tl (dropWhile (\<lambda>d. d \<noteq> c) s))"

definition without_newline :: "string \<Rightarrow> string option" where
  "without_newline p = (if p \<noteq> '''' \<and> last p = CHR 0x0A then Some (butlast p) else None)"

lemma without_newline_Some: "without_newline p = Some q \<longleftrightarrow> p = q @ [CHR 0x0A]"
  by (cases p rule: rev_cases) (auto simp: without_newline_def)

lemma lower_char_idem [simp]: "lower_char (lower_char c) = lower_char c"
proof (cases "of_char c \<in> {65..90 :: nat}")
  case True
  then have b: "of_char c + 32 < (256 :: nat)" by simp
  have "of_char (char_of (of_char c + 32 :: nat)) = (of_char c + 32 :: nat)"
    using b by simp
  with True show ?thesis by (simp add: lower_char_def)
next
  case False
  then have "lower_char c = c" unfolding lower_char_def by (rule if_not_P)
  then show ?thesis by simp
qed

lemma py_lower_idem [simp]: "py_lower (py_lower s) = py_lower s"
  by (simp add: py_lower_def)

lemma upper_char_idem [simp]: "upper_char (upper_char c) = upper_char c"
proof (cases "of_char c \<in> {97..122 :: nat}")
  case True
  then have b: "of_char c - 32 < (256 :: nat)" by (simp add: less_diff_conv2)
  have "of_char (char_of (of_char c - 32 :: nat)) = (of_char c - 32 :: nat)"
    using b by simp
  moreover have "of_char c - 32 < (97 :: nat)" using True by auto
  ultimately show ?thesis using True by (simp add: upper_char_def)
next
  case False
  then have "upper_char c = c" unfolding upper_char_def by (rule if_not_P)
  then show ?thesis by simp
qed

lemma py_upper_idem [simp]: "py_upper (py_upper s) = py_upper s"
  by (simp add: py_upper_def)

lemma starts_with_append: "starts_with p s \<longleftrightarrow> (\<exists>r. s = p @ r)"
  by (induction p s rule: starts_with.induct) auto

lemma split_on_not_Nil [simp]: "split_on c s \<noteq> []"
  by (induction s) (auto split: list.splits)

lemma split_on_no_sep: "w \<in> set (split_on c s) \<Longrightarrow> c \<notin> set w"
  by (induction s arbitrary: w) (auto split: if_splits list.splits)

lemma join_split: "join_with [c] (split_on c s) = s"
proof (induction s)
  case (Cons d s)
  then show ?case by (cases "split_on c s" rule: list.exhaust; cases "tl (split_on c s)") auto
qed simp

lemma split_on_no_sep_id: "c \<notin> set s \<Longrightarrow> split_on c s = [s]"
  by (induction s) auto

lemma split_on_append: "c \<notin> set w \<Longrightarrow> split_on c (w @ c # s) = w # split_on c s"
  by (induction w) auto

lemma split_join:
  "ws \<noteq> [] \<Longrightarrow> \<forall>w \<in> set ws. c \<notin> set w \<Longrightarrow> split_on c (join_with [c] ws) = ws"
proof (induction "[c]" ws rule: join_with.induct)
  case (2 w)
  then show ?case by (simp add: split_on_no_sep_id)
next
  case (3 w v ws)
  then show ?case by (simp add: split_on_append)
qed simp

section \<open>Sums, results\<close>

lemma sum_list_rat_nonneg: "(\<And>x. x \<in> set xs \<Longrightarrow> 0 \<le> x) \<Longrightarrow> 0 \<le> sum_list (xs :: rat list)"
  by (induction xs) auto

lemma sum_list_div: "sum_list (map (\<lambda>x. f x / c) xs) = sum_list (map f xs) / (c :: rat)"
  by (induction xs) (simp_all add: add_divide_distrib)

lemma member_le_sum_list_rat:
  "(\<And>x. x \<in> set xs \<Longrightarrow> 0 \<le> x) \<Longrightarrow> y \<in> set xs \<Longrightarrow> y \<le> sum_list (xs :: rat list)"
  by (induction xs) (force simp: sum_list_rat_nonneg add_increasing)+

definition bind_result :: "'e + 'a \<Rightarrow> ('a \<Rightarrow> 'e + 'b) \<Rightarrow> 'e + 'b" where
  "bind_result r f = (case r of Inl e \<Rightarrow> Inl e | Inr a \<Rightarrow> f a)"

lemma bind_result_simps [simp]:
  "bind_result (Inl e) f = Inl e" "bind_result (Inr a) f = f a"
  by (simp_all add: bind_result_def)

lemma bind_result_eq_Inr:
  "bind_result r f = Inr b \<longleftrightarrow> (\<exists>a. r = Inr a \<and> f a = Inr b)"
  by (cases r) auto

fun is_ok :: "'e + 'a \<Rightarrow> bool" where
  "is_ok (Inl e) = False"
| "is_ok (Inr a) = True"


section \<open>Substrings and extremal elements\<close>

text \<open>\<open>p in s\<close> on strings, and \<open>max(xs, key=f)\<close> and \<open>min(xs, key=f)\<close> on a list that is not empty:
  both return the first of the elements with the extremal key.\<close>

fun contains_str :: "string \<Rightarrow> string \<Rightarrow> bool" where
  "contains_str p [] \<longleftrightarrow> p = []"
| "contains_str p (c # s) \<longleftrightarrow> starts_with p (c # s) \<or> contains_str p s"

lemma contains_str_iff: "contains_str p s \<longleftrightarrow> (\<exists>u v. s = u @ p @ v)"
proof (induction s)
  case (Cons c s)
  have "(\<exists>u v. c # s = u @ p @ v) \<longleftrightarrow> (\<exists>v. c # s = p @ v) \<or> (\<exists>u v. s = u @ p @ v)"
    by (metis append_Cons append_Nil list.inject neq_Nil_conv)
  with Cons show ?case by (simp add: starts_with_append)
qed auto

definition max_by :: "('a \<Rightarrow> 'b :: linorder) \<Rightarrow> 'a list \<Rightarrow> 'a" where
  "max_by f xs = fold (\<lambda>y b. if f b < f y then y else b) (tl xs) (hd xs)"

definition min_by :: "('a \<Rightarrow> 'b :: linorder) \<Rightarrow> 'a list \<Rightarrow> 'a" where
  "min_by f xs = fold (\<lambda>y b. if f y < f b then y else b) (tl xs) (hd xs)"

lemma fold_max_by:
  "fold (\<lambda>y b. if f b < f y then y else b) xs x \<in> insert x (set xs) \<and>
   (\<forall>y \<in> insert x (set xs). f y \<le> f (fold (\<lambda>y b. if f b < f y then y else b) xs x))"
  for f :: "'a \<Rightarrow> 'b :: linorder"
proof (induction xs arbitrary: x)
  case (Cons y xs)
  show ?case using Cons [of "if f x < f y then y else x"] by (auto split: if_splits intro: order_trans)
qed simp

lemma fold_min_by:
  "fold (\<lambda>y b. if f y < f b then y else b) xs x \<in> insert x (set xs) \<and>
   (\<forall>y \<in> insert x (set xs). f (fold (\<lambda>y b. if f y < f b then y else b) xs x) \<le> f y)"
  for f :: "'a \<Rightarrow> 'b :: linorder"
proof (induction xs arbitrary: x)
  case (Cons y xs)
  show ?case using Cons [of "if f y < f x then y else x"] by (auto split: if_splits intro: order_trans)
qed simp

lemma max_by_in: "xs \<noteq> [] \<Longrightarrow> max_by f xs \<in> set xs"
  using fold_max_by [where f = f and xs = "tl xs" and x = "hd xs"] by (cases xs) (auto simp: max_by_def)

lemma max_by_ge: "y \<in> set xs \<Longrightarrow> f y \<le> f (max_by f xs)"
  using fold_max_by [where f = f and xs = "tl xs" and x = "hd xs"] by (cases xs) (auto simp: max_by_def)

lemma min_by_in: "xs \<noteq> [] \<Longrightarrow> min_by f xs \<in> set xs"
  using fold_min_by [where f = f and xs = "tl xs" and x = "hd xs"] by (cases xs) (auto simp: min_by_def)

lemma min_by_le: "y \<in> set xs \<Longrightarrow> f (min_by f xs) \<le> f y"
  using fold_min_by [where f = f and xs = "tl xs" and x = "hd xs"] by (cases xs) (auto simp: min_by_def)

text \<open>Grouping: \<open>d.setdefault(k, []).append(v)\<close> over a list.\<close>

definition group_by :: "('a \<Rightarrow> 'k) \<Rightarrow> 'a list \<Rightarrow> ('k, 'a list) dict" where
  "group_by f xs = fold (\<lambda>x d. dict_set (f x) (dict_get_or d (f x) [] @ [x]) d) xs []"

lemma group_by_snoc:
  "group_by f (xs @ [x]) = dict_set (f x) (dict_get_or (group_by f xs) (f x) [] @ [x]) (group_by f xs)"
  by (simp add: group_by_def)

lemma group_by_Nil [simp]: "group_by f [] = []"
  by (simp add: group_by_def)

lemma dict_get_group_by:
  "dict_get (group_by f xs) k = (if k \<in> f ` set xs then Some (filter (\<lambda>x. f x = k) xs) else None)"
proof (induction xs rule: rev_induct)
  case (snoc x xs)
  have "filter (\<lambda>y. f y = f x) xs = []" if "f x \<notin> f ` set xs"
    using that by (simp add: filter_empty_conv) (metis imageI)
  with snoc show ?case by (auto simp: group_by_snoc dict_get_or_def)
qed simp

lemma dict_ok_group_by [simp]: "dict_ok (group_by f xs)"
  by (induction xs rule: rev_induct) (simp_all add: group_by_snoc)

lemma group_by_eq_Nil [simp]: "group_by f xs = [] \<longleftrightarrow> xs = []"
  by (cases xs rule: rev_cases) (simp_all add: group_by_snoc)


section \<open>Counting the values of a dict\<close>

definition count_vals :: "('v \<Rightarrow> bool) \<Rightarrow> ('k, 'v) dict \<Rightarrow> nat" where
  "count_vals P d = length (filter P (map snd d))"

lemma count_vals_Nil [simp]: "count_vals P [] = 0"
  by (simp add: count_vals_def)

lemma count_vals_new: "dict_get d k = None \<Longrightarrow> count_vals P (dict_set k v d) = count_vals P d + of_bool (P v)"
  by (induction d) (auto simp: count_vals_def split: if_splits)

lemma count_vals_over:
  "dict_get d k = Some w \<Longrightarrow> count_vals P (dict_set k v d) + of_bool (P w) = count_vals P d + of_bool (P v)"
  by (induction d) (auto simp: count_vals_def split: if_splits)

lemma count_vals_le: "dict_get d k = Some w \<Longrightarrow> (P v \<Longrightarrow> P w) \<Longrightarrow> count_vals P (dict_set k v d) \<le> count_vals P d"
  using count_vals_over [of d k w P v] by (cases "P v"; cases "P w") simp_all


section \<open>The first element of a sorted list\<close>

lemma hd_sort_min:
  fixes f :: "'a \<Rightarrow> 'b :: linorder"
  assumes "xs \<noteq> []"
  shows "hd (sort_key f xs) \<in> set xs" "x \<in> set xs \<Longrightarrow> f (hd (sort_key f xs)) \<le> f x"
proof -
  have ne: "sort_key f xs \<noteq> []" using assms by (metis set_empty set_sort)
  then show "hd (sort_key f xs) \<in> set xs" using hd_in_set [OF ne] by simp
  show "f (hd (sort_key f xs)) \<le> f x" if "x \<in> set xs"
  proof -
    have "sorted (map f (sort_key f xs))" "x \<in> set (sort_key f xs)" using that by simp_all
    then show ?thesis using ne by (cases "sort_key f xs") auto
  qed
qed

lemma sort_key_ConsD:
  fixes f :: "'a \<Rightarrow> 'b :: linorder"
  assumes "sort_key f xs = x # ys"
  shows "x \<in> set xs" "y \<in> set xs \<Longrightarrow> f x \<le> f y"
proof -
  have ne: "xs \<noteq> []" and hd: "hd (sort_key f xs) = x" using assms by auto
  show "x \<in> set xs" "y \<in> set xs \<Longrightarrow> f x \<le> f y" using hd_sort_min(1) [OF ne, of f] hd_sort_min(2) [OF ne, of y f] hd by auto
qed

section \<open>Dicts that file records under their own key\<close>

definition filed :: "('v \<Rightarrow> 'k) \<Rightarrow> ('k, 'v) dict \<Rightarrow> bool" where
  "filed key d \<longleftrightarrow> dict_ok d \<and> (\<forall>k v. dict_get d k = Some v \<longrightarrow> key v = k)"

lemma filed_Nil [simp]: "filed key []"
  by (simp add: filed_def)

lemma filed_list: "filed key d \<longleftrightarrow> dict_ok d \<and> list_all (\<lambda>(k, v). key v = k) d"
  by (auto simp: filed_def list_all_iff dict_ok_getI dest: dict_get_in)

lemma filedD: "filed key d \<Longrightarrow> dict_get d k = Some v \<Longrightarrow> key v = k"
  by (simp add: filed_def)

lemma filed_set [intro]: "filed key d \<Longrightarrow> key v = k \<Longrightarrow> filed key (dict_set k v d)"
  by (simp add: filed_def)

lemma filed_pop [intro]: "filed key d \<Longrightarrow> filed key (dict_pop k d)"
  by (simp add: filed_def)

lemma filed_fold_pop [intro]: "filed key d \<Longrightarrow> filed key (fold dict_pop ks d)"
  by (simp add: filed_def dict_get_fold_pop)

lemma filed_values: "filed key d \<Longrightarrow> v \<in> set (map snd d) \<longleftrightarrow> dict_get d (key v) = Some v"
  by (auto simp: filed_def dict_get_iff) force

lemma filed_find:
  assumes "filed key d" and "find P (map snd d) = Some v"
  shows "dict_get d (key v) = Some v" and "P v"
proof -
  have "v \<in> set (map snd d) \<and> P v" using assms(2) unfolding find_Some_iff by (metis nth_mem)
  then show "dict_get d (key v) = Some v" "P v" using filed_values [OF assms(1), of v] by blast+
qed

lemma filed_find_None:
  assumes "filed key d" and "find P (map snd d) = None" and "dict_get d k = Some v"
  shows "\<not> P v"
proof -
  have "v \<in> set (map snd d)" using dict_get_in [OF assms(3)] by force
  then show ?thesis using assms(2) unfolding find_None_iff by blast
qed

lemma filed_drop:
  assumes "filed key d"
  shows "dict_get (fold dict_pop (map key (sort_key f (filter P (map snd d)))) d) k =
    (case dict_get d k of Some v \<Rightarrow> if P v then None else Some v | None \<Rightarrow> None)"
proof (cases "dict_get d k")
  case (Some v)
  have "k \<in> key ` {v \<in> set (map snd d). P v} \<longleftrightarrow> P v"
  proof
    assume "k \<in> key ` {v \<in> set (map snd d). P v}"
    then obtain w where "key w = k" "dict_get d (key w) = Some w" "P w" using filed_values [OF assms] by auto
    then show "P v" using Some by simp
  next
    assume "P v"
    moreover have "v \<in> set (map snd d)" using dict_get_in [OF Some] by force
    moreover have "key v = k" using filedD [OF assms Some] .
    ultimately show "k \<in> key ` {v \<in> set (map snd d). P v}" by blast
  qed
  then show ?thesis using Some by (simp add: dict_get_fold_pop)
qed (simp add: dict_get_fold_pop)

end
