(* ===== verification/Interfaces.thy ===== *)
theory Interfaces
  imports Prelude
begin

text \<open>
  The contracts several components share, as locales: a keyed store (every in-memory
  repository and registry), a checked transition table (the plugin and the
  subscription life cycles), and a store of revocable credentials (API keys, service
  accounts, sessions). Each client lemma is proved once here, over the laws; the
  component theories interpret the locales on their own operations.
\<close>

section \<open>Keyed stores\<close>

text \<open>
  The repositories file a record under a key the record itself carries
  (\<open>self._jobs[job.id] = job\<close>), so \<open>store\<close> takes the record alone and \<open>key\<close> reads its key.
\<close>

locale keyed_store =
  fixes lookup :: "'s \<Rightarrow> 'k \<Rightarrow> 'v option"
    and store :: "'v \<Rightarrow> 's \<Rightarrow> 's"
    and discard :: "'k \<Rightarrow> 's \<Rightarrow> 's"
    and key :: "'v \<Rightarrow> 'k"
  assumes lookup_store: "lookup (store v s) k = (if k = key v then Some v else lookup s k)"
    and lookup_discard: "lookup (discard k s) k' = (if k' = k then None else lookup s k')"
begin

definition keyed :: "'s \<Rightarrow> bool" where
  "keyed s \<longleftrightarrow> (\<forall>k v. lookup s k = Some v \<longrightarrow> key v = k)"

lemma keyed_store: "keyed s \<Longrightarrow> keyed (store v s)"
  by (simp add: keyed_def lookup_store)

lemma keyed_discard: "keyed s \<Longrightarrow> keyed (discard k s)"
  by (simp add: keyed_def lookup_discard)

lemma keyedD: "keyed s \<Longrightarrow> lookup s k = Some v \<Longrightarrow> key v = k"
  by (simp add: keyed_def)

lemma store_store: "key v = key w \<Longrightarrow> lookup (store v (store w s)) = lookup (store v s)"
  by (rule ext) (simp add: lookup_store)

lemma store_commute:
  "key v \<noteq> key w \<Longrightarrow> lookup (store v (store w s)) = lookup (store w (store v s))"
  by (rule ext) (simp add: lookup_store)

lemma discard_store: "lookup s (key v) = None \<Longrightarrow> lookup (discard (key v) (store v s)) = lookup s"
  by (rule ext) (simp add: lookup_store lookup_discard)

lemma store_same: "lookup s (key v) = Some v \<Longrightarrow> lookup (store v s) = lookup s"
  by (rule ext) (simp add: lookup_store)

lemma lookup_fold_store:
  "lookup (fold store vs s) k =
     (case find (\<lambda>v. key v = k) (rev vs) of None \<Rightarrow> lookup s k | Some v \<Rightarrow> Some v)"
  by (induction vs arbitrary: s rule: rev_induct) (auto simp: lookup_store)

lemma lookup_fold_discard:
  "lookup (fold discard ks s) k = (if k \<in> set ks then None else lookup s k)"
  by (induction ks arbitrary: s) (auto simp: lookup_discard)

end

section \<open>Checked transition tables\<close>

text \<open>
  A state machine whose operation moves an object to a wanted status when the table allows it
  and raises otherwise. \<open>cur\<close> reads the status of the object, \<open>fire\<close> is the operation.
\<close>

locale transition_table =
  fixes allowed :: "'q \<Rightarrow> 'q set"
    and cur :: "'s \<Rightarrow> 'q"
    and fire :: "'q \<Rightarrow> 's \<Rightarrow> 'e + 's"
  assumes fire_allowed: "t \<in> allowed (cur s) \<Longrightarrow> \<exists>s'. fire t s = Inr s' \<and> cur s' = t"
    and fire_refused: "t \<notin> allowed (cur s) \<Longrightarrow> \<exists>e. fire t s = Inl e"
begin

lemma fire_Inr: "fire t s = Inr s' \<Longrightarrow> t \<in> allowed (cur s) \<and> cur s' = t"
  using fire_allowed [of t s] fire_refused [of t s] by (cases "t \<in> allowed (cur s)") auto

fun fire_all :: "'q list \<Rightarrow> 's \<Rightarrow> 'e + 's" where
  "fire_all [] s = Inr s"
| "fire_all (t # ts) s = bind_result (fire t s) (fire_all ts)"

fun path :: "'q \<Rightarrow> 'q list \<Rightarrow> bool" where
  "path q [] = True"
| "path q (t # ts) = (t \<in> allowed q \<and> path t ts)"

lemma fire_all_path: "is_ok (fire_all ts s) \<longleftrightarrow> path (cur s) ts"
proof (induction ts arbitrary: s)
  case (Cons t ts)
  show ?case
  proof (cases "t \<in> allowed (cur s)")
    case True
    then obtain s' where "fire t s = Inr s'" "cur s' = t" using fire_allowed by blast
    with True Cons.IH [of s'] show ?thesis by simp
  next
    case False
    then obtain e where "fire t s = Inl e" using fire_refused by blast
    with False show ?thesis by simp
  qed
qed simp

lemma fire_all_last: "fire_all ts s = Inr s' \<Longrightarrow> cur s' = last (cur s # ts)"
proof (induction ts arbitrary: s)
  case (Cons t ts)
  from Cons.prems obtain s1 where s1: "fire t s = Inr s1" "fire_all ts s1 = Inr s'"
    by (auto simp: bind_result_eq_Inr)
  with Cons.IH [of s1] fire_Inr [OF s1(1)] show ?case by auto
qed simp

lemma terminal_stuck: "allowed (cur s) = {} \<Longrightarrow> ts \<noteq> [] \<Longrightarrow> \<not> is_ok (fire_all ts s)"
  unfolding fire_all_path by (cases ts) auto

lemma path_append: "path q (us @ vs) \<longleftrightarrow> path q us \<and> path (last (q # us)) vs"
  by (induction us arbitrary: q) auto

lemma path_terminal: "allowed t = {} \<Longrightarrow> path q (us @ t # vs) \<Longrightarrow> vs = []"
  by (cases vs) (auto simp: path_append)

text \<open>A set of statuses that can only be left through a status of \<open>gate\<close>.\<close>

lemma path_gated:
  assumes closed: "\<And>q t. q \<in> I \<Longrightarrow> t \<in> allowed q \<Longrightarrow> t \<in> I \<or> t \<in> gate"
  shows "q \<in> I \<Longrightarrow> path q ts \<Longrightarrow> set ts \<inter> gate = {} \<Longrightarrow> last (q # ts) \<in> I"
proof (induction ts arbitrary: q)
  case (Cons t ts)
  then show ?case using closed [of q t] Cons.IH [of t] by auto
qed simp

lemma fire_all_gated:
  assumes "\<And>q t. q \<in> I \<Longrightarrow> t \<in> allowed q \<Longrightarrow> t \<in> I \<or> t \<in> gate"
    and "cur s \<in> I" "fire_all ts s = Inr s'" "cur s' \<notin> I"
  shows "\<exists>t \<in> set ts. t \<in> gate"
proof (rule ccontr)
  assume no: "\<not> (\<exists>t \<in> set ts. t \<in> gate)"
  have "path (cur s) ts" using assms(3) fire_all_path [of ts s] by simp
  with assms(1,2) no have "last (cur s # ts) \<in> I" by (intro path_gated [of I gate]) auto
  with assms(3,4) fire_all_last [of ts s s'] show False by simp
qed

end

section \<open>Revocable credentials\<close>

text \<open>
  A store of credentials (API keys, service accounts, sessions) that are presented by a secret or
  an id, its \<open>tag\<close>, and can be revoked. \<open>accept\<close> says that presenting a tag succeeds, \<open>step\<close> is
  any state-changing operation and \<open>issues\<close> the tag that an operation gives to a new credential.
  The laws: only a live credential is accepted, and an operation neither changes the tag of a
  credential nor takes a revocation back.
\<close>

locale revocable =
  fixes okay :: "'s \<Rightarrow> bool"
    and creds :: "'s \<Rightarrow> 'c list"
    and tag :: "'c \<Rightarrow> string"
    and dead :: "'c \<Rightarrow> bool"
    and accept :: "string \<Rightarrow> 's \<Rightarrow> bool"
    and step :: "'op \<Rightarrow> 's \<Rightarrow> 's"
    and issues :: "'op \<Rightarrow> string option"
  assumes step_okay: "okay s \<Longrightarrow> okay (step op s)"
    and accept_live: "okay s \<Longrightarrow> accept h s \<Longrightarrow> \<exists>c \<in> set (creds s). tag c = h \<and> \<not> dead c"
    and step_creds: "okay s \<Longrightarrow> c' \<in> set (creds (step op s)) \<Longrightarrow>
      issues op = Some (tag c') \<or> (\<exists>c \<in> set (creds s). tag c = tag c' \<and> (dead c \<longrightarrow> dead c'))"
begin

definition all_dead :: "string \<Rightarrow> 's \<Rightarrow> bool" where
  "all_dead h s \<longleftrightarrow> (\<forall>c \<in> set (creds s). tag c = h \<longrightarrow> dead c)"

lemma all_dead_step: "okay s \<Longrightarrow> all_dead h s \<Longrightarrow> issues op \<noteq> Some h \<Longrightarrow> all_dead h (step op s)"
  unfolding all_dead_def using step_creds by (metis option.inject)

lemma all_dead_run:
  "okay s \<Longrightarrow> all_dead h s \<Longrightarrow> list_all (\<lambda>op. issues op \<noteq> Some h) ops \<Longrightarrow>
    okay (fold step ops s) \<and> all_dead h (fold step ops s)"
  by (induction ops arbitrary: s) (simp_all add: all_dead_step step_okay)

lemma never_accepted:
  assumes "okay s" and "all_dead h s" and "list_all (\<lambda>op. issues op \<noteq> Some h) ops"
  shows "\<not> accept h (fold step ops s)"
  using accept_live [of "fold step ops s" h] all_dead_run [OF assms] by (auto simp: all_dead_def)

end

end
