(* ===== verification/Breaker.thy ===== *)
theory Breaker
  imports Interfaces "HOL-Library.Sublist"
begin

text \<open>
  Provider failure handling, \<^verbatim>\<open>app/providers/manager.py\<close>: the circuit breaker, and the
  provider manager's state around it (registered providers, last health results, the set
  of disabled providers, one breaker per provider).

  The breaker's property \<open>is_open\<close> mutates the breaker (it moves an expired open breaker to
  half-open), so every query that reads it returns the new state. A provider is its
  \<open>name\<close> attribute; what its \<open>health_check\<close> coroutine returns is the argument \<open>probe\<close>, with
  \<open>None\<close> when it raises or times out.
\<close>

section \<open>The circuit breaker\<close>

datatype breaker_state = Closed | Open | Half_Open

record circuit_breaker =
  failure_threshold :: int
  recovery_timeout :: pyfloat
  failure_count :: int
  cb_state :: breaker_state
  last_failure_time :: pyfloat
  half_open_successes :: int

definition new_breaker :: "int \<Rightarrow> pyfloat \<Rightarrow> circuit_breaker" where
  "new_breaker threshold timeout =
     \<lparr>failure_threshold = threshold, recovery_timeout = timeout, failure_count = 0,
      cb_state = Closed, last_failure_time = 0, half_open_successes = 0\<rparr>"

definition is_open :: "pyfloat \<Rightarrow> circuit_breaker \<Rightarrow> bool \<times> circuit_breaker" where
  "is_open now cb =
     (if cb_state cb = Open
      then (if now - last_failure_time cb > recovery_timeout cb
            then (False, cb\<lparr>cb_state := Half_Open, half_open_successes := 0\<rparr>)
            else (True, cb))
      else (False, cb))"

definition record_success :: "circuit_breaker \<Rightarrow> circuit_breaker" where
  "record_success cb =
     (if cb_state cb = Half_Open
      then (let cb1 = cb\<lparr>half_open_successes := half_open_successes cb + 1\<rparr>
            in if half_open_successes cb1 \<ge> 3
               then cb1\<lparr>cb_state := Closed, failure_count := 0\<rparr> else cb1)
      else if cb_state cb = Closed then cb\<lparr>failure_count := 0\<rparr> else cb)"

definition record_failure :: "pyfloat \<Rightarrow> circuit_breaker \<Rightarrow> circuit_breaker" where
  "record_failure now cb =
     (let cb1 = cb\<lparr>failure_count := failure_count cb + 1, last_failure_time := now\<rparr>
      in if failure_count cb1 \<ge> failure_threshold cb1 then cb1\<lparr>cb_state := Open\<rparr> else cb1)"

definition breaker_reset :: "circuit_breaker \<Rightarrow> circuit_breaker" where
  "breaker_reset cb = cb\<lparr>cb_state := Closed, failure_count := 0, half_open_successes := 0\<rparr>"

lemmas breaker_defs =
  new_breaker_def is_open_def record_success_def record_failure_def breaker_reset_def Let_def

subsection \<open>Invariant\<close>

text \<open>A closed breaker is below its threshold; an open or half-open one has reached it.\<close>

definition breaker_inv :: "circuit_breaker \<Rightarrow> bool" where
  "breaker_inv cb \<longleftrightarrow> 0 < failure_threshold cb \<and> 0 \<le> failure_count cb \<and>
     (cb_state cb = Closed \<longleftrightarrow> failure_count cb < failure_threshold cb)"

lemma breaker_inv_new: "0 < n \<Longrightarrow> breaker_inv (new_breaker n t)"
  by (simp add: breaker_inv_def new_breaker_def)

lemma breaker_inv_is_open: "breaker_inv cb \<Longrightarrow> breaker_inv (snd (is_open now cb))"
  by (auto simp: breaker_inv_def is_open_def)

lemma breaker_inv_success: "breaker_inv cb \<Longrightarrow> breaker_inv (record_success cb)"
  by (auto simp: breaker_inv_def record_success_def Let_def)

lemma breaker_inv_failure: "breaker_inv cb \<Longrightarrow> breaker_inv (record_failure now cb)"
  by (auto simp: breaker_inv_def record_failure_def Let_def)

lemma breaker_inv_reset: "breaker_inv cb \<Longrightarrow> breaker_inv (breaker_reset cb)"
  by (auto simp: breaker_inv_def breaker_reset_def)

lemmas breaker_inv_ops =
  breaker_inv_is_open breaker_inv_success breaker_inv_failure breaker_inv_reset

text \<open>One failure of a half-open trial re-opens the breaker at once.\<close>

lemma half_open_failure_reopens:
  "breaker_inv cb \<Longrightarrow> cb_state cb = Half_Open \<Longrightarrow> cb_state (record_failure now cb) = Open"
  by (auto simp: breaker_inv_def record_failure_def Let_def)

lemma open_query:
  "fst (is_open now cb) \<longleftrightarrow> cb_state cb = Open \<and> now - last_failure_time cb \<le> recovery_timeout cb"
  by (auto simp: is_open_def)

lemma failure_then_open:
  "0 \<le> recovery_timeout cb \<Longrightarrow>
   fst (is_open now (record_failure now cb)) \<longleftrightarrow> cb_state (record_failure now cb) = Open"
  by (auto simp: open_query record_failure_def Let_def)

subsection \<open>When the breaker trips\<close>

datatype call_outcome = Success | Failure pyfloat

fun is_failure :: "call_outcome \<Rightarrow> bool" where
  "is_failure Success = False"
| "is_failure (Failure t) = True"

fun observe :: "call_outcome \<Rightarrow> circuit_breaker \<Rightarrow> circuit_breaker" where
  "observe Success cb = record_success cb"
| "observe (Failure t) cb = record_failure t cb"

definition observe_all :: "call_outcome list \<Rightarrow> circuit_breaker \<Rightarrow> circuit_breaker" where
  "observe_all evs cb = fold observe evs cb"

lemma observe_all_simps [simp]:
  "observe_all [] cb = cb" "observe_all (e # es) cb = observe_all es (observe e cb)"
  by (simp_all add: observe_all_def)

text \<open>What tripping means, without the breaker: a counter of failures in a row.\<close>

fun trips :: "nat \<Rightarrow> nat \<Rightarrow> bool list \<Rightarrow> bool" where
  "trips n k [] = False"
| "trips n k (False # bs) = trips n 0 bs"
| "trips n k (True # bs) = (n \<le> Suc k \<or> trips n (Suc k) bs)"

lemma sublist_replicate_True_False:
  assumes "k < n"
  shows "sublist (replicate n True) (replicate k True @ False # bs) \<longleftrightarrow>
         sublist (replicate n True) bs"
proof
  assume "sublist (replicate n True) (replicate k True @ False # bs)"
  then consider "sublist (replicate n True) (replicate k True)"
    | "sublist (replicate n True) (False # bs)"
    | xs1 xs2 where "replicate n True = xs1 @ xs2" "suffix xs1 (replicate k True)"
        "prefix xs2 (False # bs)"
    by (auto simp: sublist_append)
  then show "sublist (replicate n True) bs"
  proof cases
    case 1
    then have "n \<le> k" using sublist_length_le by fastforce
    with assms show ?thesis by simp
  next
    case 2
    with assms show ?thesis
      by (cases n) (auto simp: sublist_Cons_right)
  next
    case 3
    have "set xs2 \<subseteq> {True}" using 3(1) by (metis Un_subset_iff set_append set_replicate_conv_if subset_refl empty_subsetI)
    with 3(3) have "xs2 = []" by (cases xs2) auto
    with 3(1,2) have "n \<le> k" by (metis append_Nil2 length_replicate suffix_length_le)
    with assms show ?thesis by simp
  qed
next
  assume "sublist (replicate n True) bs"
  then show "sublist (replicate n True) (replicate k True @ False # bs)"
    by (simp add: sublist_append sublist_Cons_right)
qed

lemma trips_sublist:
  "k < n \<Longrightarrow> trips n k bs \<longleftrightarrow> sublist (replicate n True) (replicate k True @ bs)"
proof (induction n k bs rule: trips.induct)
  case (1 n k)
  then have "\<not> sublist (replicate n True) (replicate k True)"
    using sublist_length_le by fastforce
  then show ?case by simp
next
  case (2 n k bs)
  then show ?case by (simp add: sublist_replicate_True_False)
next
  case (3 n k bs)
  have shift: "replicate k True @ True # bs = replicate (Suc k) True @ bs"
    by (simp add: replicate_app_Cons_same)
  show ?case
  proof (cases "n = Suc k")
    case True
    then show ?thesis by (simp only: shift) simp
  next
    case False
    with "3.prems" have "Suc k < n" by simp
    with "3.IH" show ?thesis by (simp only: shift trips.simps) simp
  qed
qed

lemma observe_open [simp]: "cb_state cb = Open \<Longrightarrow> cb_state (observe e cb) = Open"
  by (cases e) (simp_all add: record_success_def record_failure_def Let_def)

lemma observe_all_open: "cb_state cb = Open \<Longrightarrow> cb_state (observe_all es cb) = Open"
  by (induction es arbitrary: cb) auto

lemma observe_all_trips:
  "cb_state cb = Closed \<Longrightarrow> failure_count cb = int k \<Longrightarrow> failure_threshold cb = int n \<Longrightarrow> k < n \<Longrightarrow>
   cb_state (observe_all es cb) = Open \<longleftrightarrow> trips n k (map is_failure es)"
proof (induction es arbitrary: cb k)
  case (Cons e es)
  show ?case
  proof (cases e)
    case Success
    with Cons show ?thesis by (simp add: record_success_def)
  next
    case (Failure t)
    show ?thesis
    proof (cases "n \<le> Suc k")
      case True
      with Cons.prems Failure have "cb_state (observe e cb) = Open"
        by (simp add: record_failure_def Let_def)
      then show ?thesis using True Failure by (simp add: observe_all_open)
    next
      case False
      with Cons.prems Failure Cons.IH [of "observe e cb" "Suc k"] show ?thesis
        by (simp add: record_failure_def Let_def)
    qed
  qed
qed simp

subsection \<open>Recovery\<close>

lemma half_open_after_timeout:
  assumes "cb_state cb = Open" "now - last_failure_time cb > recovery_timeout cb"
  shows "fst (is_open now cb) = False" "cb_state (snd (is_open now cb)) = Half_Open"
    "half_open_successes (snd (is_open now cb)) = 0"
  using assms by (simp_all add: is_open_def)

lemma three_successes_close:
  assumes "cb_state cb = Half_Open" "half_open_successes cb = 0"
  shows "cb_state (record_success (record_success cb)) = Half_Open"
    "cb_state (record_success (record_success (record_success cb))) = Closed"
    "failure_count (record_success (record_success (record_success cb))) = 0"
  using assms by (simp_all add: record_success_def Let_def)

section \<open>Properties of the breaker\<close>

text \<open>
  C4. A new breaker with threshold \<open>n + 1\<close> is open after a sequence of reported call outcomes
  exactly when some \<open>n + 1\<close> consecutive ones are failures: a success in between resets the
  count, and an open breaker stays open until it is queried after its recovery timeout.
\<close>

theorem breaker_trips_iff:
  "cb_state (observe_all evs (new_breaker (int (Suc n)) timeout)) = Open \<longleftrightarrow>
     sublist (replicate (Suc n) True) (map is_failure evs)"
proof -
  have "cb_state (observe_all evs (new_breaker (int (Suc n)) timeout)) = Open \<longleftrightarrow>
      trips (Suc n) 0 (map is_failure evs)"
    by (rule observe_all_trips) (simp_all add: new_breaker_def)
  then show ?thesis by (simp add: trips_sublist)
qed

text \<open>
  The recovery protocol. Once the recovery timeout has passed, the first query of an open
  breaker lets the call through and starts a trial; the trial closes the breaker (with the
  failure count cleared) exactly when three successes are reported before any failure, and a
  failure during the trial re-opens it at once.
\<close>

theorem breaker_recovery:
  assumes inv: "breaker_inv cb" and opn: "cb_state cb = Open"
    and late: "now - last_failure_time cb > recovery_timeout cb"
  shows "fst (is_open now cb) = False \<and>
    (let trial = snd (is_open now cb) in
       cb_state trial = Half_Open \<and>
       cb_state (record_success (record_success trial)) = Half_Open \<and>
       record_success (record_success (record_success trial)) =
         cb\<lparr>cb_state := Closed, failure_count := 0, half_open_successes := 3\<rparr> \<and>
       cb_state (record_failure t trial) = Open \<and>
       cb_state (record_failure t (record_success trial)) = Open \<and>
       cb_state (record_failure t (record_success (record_success trial))) = Open)"
proof -
  define trial where "trial = cb\<lparr>cb_state := Half_Open, half_open_successes := 0\<rparr>"
  have q: "is_open now cb = (False, trial)"
    using opn late by (simp add: is_open_def trial_def)
  have inv': "breaker_inv trial"
    using breaker_inv_is_open [OF inv, of now] q by simp
  have one: "cb_state trial = Half_Open" "cb_state (record_success trial) = Half_Open"
    "cb_state (record_success (record_success trial)) = Half_Open"
    by (simp_all add: trial_def record_success_def Let_def)
  have closed: "record_success (record_success (record_success trial)) =
      cb\<lparr>cb_state := Closed, failure_count := 0, half_open_successes := 3\<rparr>"
    by (simp add: trial_def record_success_def Let_def)
  show ?thesis
    using one closed half_open_failure_reopens breaker_inv_success inv' q by (simp add: Let_def)
qed

lemma breaker_recovery_witness:
  "cb_state (snd (is_open 100 (record_failure 10 (new_breaker 1 60)))) = Half_Open"
  using breaker_recovery [of "record_failure 10 (new_breaker 1 60)" 100]
  by (simp add: breaker_inv_def record_failure_def new_breaker_def Let_def)

end
