(* ===== verification/Manager.thy ===== *)
theory Manager
  imports Breaker
begin

text \<open>
  The provider manager of \<^verbatim>\<open>app/providers/manager.py\<close>: registered providers, last health
  results, the set of disabled providers and one circuit breaker per provider.

  A provider is its \<open>name\<close> attribute. What its \<open>health_check\<close> coroutine does is a \<open>probe\<close>
  argument: a status with the measured latency, or an exception (a timeout included). Which
  configured providers can be constructed is the argument \<open>mk\<close> (the class registry and
  the constructor call: \<open>None\<close> for an unknown class or a constructor that raises). Queries
  that read \<open>is_open\<close> return the manager with the breaker they may have moved to half-open.
  Prometheus gauges and log lines are left out.
\<close>

section \<open>State\<close>

datatype provider_status = HEALTHY | UNHEALTHY | UNKNOWN | DEGRADED

record health_response =
  h_status :: provider_status
  h_provider :: string
  h_latency :: "pyfloat option"
  h_error :: "string option"

datatype probe = Responds provider_status pyfloat | Raises string pyfloat

record provider_config =
  pc_name :: string
  pc_enabled :: bool

record manager =
  pm_providers :: "(string, string) dict"
  pm_health :: "(string, health_response) dict"
  pm_disabled :: "string set"
  pm_breakers :: "(string, circuit_breaker) dict"

definition new_manager :: manager where
  "new_manager = \<lparr>pm_providers = [], pm_health = [], pm_disabled = {}, pm_breakers = []\<rparr>"

definition PROVIDER_ALIASES :: "(string, string) dict" where
  "PROVIDER_ALIASES = [(''gemini'', ''google'')]"

section \<open>Operations\<close>

definition resolve_name :: "string \<Rightarrow> string" where
  "resolve_name name = dict_get_or PROVIDER_ALIASES (py_lower name) (py_lower name)"

definition manager_get :: "string \<Rightarrow> manager \<Rightarrow> string option" where
  "manager_get name m = dict_get (pm_providers m) (resolve_name name)"

definition is_circuit_open :: "pyfloat \<Rightarrow> string \<Rightarrow> manager \<Rightarrow> bool \<times> manager" where
  "is_circuit_open now name m =
     (case dict_get (pm_breakers m) name of
        None \<Rightarrow> (False, m)
      | Some cb \<Rightarrow> (let (b, cb') = is_open now cb
                    in (b, m\<lparr>pm_breakers := dict_set name cb' (pm_breakers m)\<rparr>)))"

definition get_circuit_state :: "string \<Rightarrow> manager \<Rightarrow> breaker_state" where
  "get_circuit_state name m =
     (case dict_get (pm_breakers m) name of None \<Rightarrow> Closed | Some cb \<Rightarrow> cb_state cb)"

definition health_ok :: "string \<Rightarrow> manager \<Rightarrow> bool" where
  "health_ok name m =
     (case dict_get (pm_health m) name of None \<Rightarrow> False | Some h \<Rightarrow> h_status h = HEALTHY)"

fun get_healthy_loop ::
  "pyfloat \<Rightarrow> (string \<times> string) list \<Rightarrow> manager \<Rightarrow> string list \<times> manager" where
  "get_healthy_loop now [] m = ([], m)"
| "get_healthy_loop now ((key, pname) # ps) m =
     (if health_ok key m
      then (let (opn, m1) = is_circuit_open now key m;
                (rest, m2) = get_healthy_loop now ps m1
            in (if opn then rest else pname # rest, m2))
      else get_healthy_loop now ps m)"

definition get_healthy :: "pyfloat \<Rightarrow> manager \<Rightarrow> string list \<times> manager" where
  "get_healthy now m = get_healthy_loop now (pm_providers m) m"

definition is_healthy :: "pyfloat \<Rightarrow> string \<Rightarrow> manager \<Rightarrow> bool \<times> manager" where
  "is_healthy now name m =
     (if health_ok (resolve_name name) m
      then (let (opn, m') = is_circuit_open now (resolve_name name) m in (\<not> opn, m'))
      else (False, m))"

definition is_disabled :: "string \<Rightarrow> manager \<Rightarrow> bool" where
  "is_disabled name m \<longleftrightarrow> resolve_name name \<in> pm_disabled m"

definition get_failure_rate :: "string \<Rightarrow> manager \<Rightarrow> pyfloat" where
  "get_failure_rate name m =
     (case dict_get (pm_breakers m) (resolve_name name) of
        None \<Rightarrow> 0
      | Some cb \<Rightarrow> (if failure_count cb > 0 then of_int (failure_count cb) / 5 else 0))"

definition get_provider_latency :: "string \<Rightarrow> manager \<Rightarrow> pyfloat option" where
  "get_provider_latency name m =
     (case dict_get (pm_health m) (resolve_name name) of None \<Rightarrow> None | Some h \<Rightarrow> h_latency h)"

definition track_failure :: "pyfloat \<Rightarrow> string \<Rightarrow> manager \<Rightarrow> manager" where
  "track_failure now name m =
     (let cb = (case dict_get (pm_breakers m) name of None \<Rightarrow> new_breaker 5 60 | Some cb \<Rightarrow> cb);
          (opn, cb') = is_open now (record_failure now cb);
          m' = m\<lparr>pm_breakers := dict_set name cb' (pm_breakers m)\<rparr>
      in if opn then m'\<lparr>pm_disabled := insert name (pm_disabled m')\<rparr> else m')"

definition enable_provider :: "string \<Rightarrow> manager \<Rightarrow> manager" where
  "enable_provider name m =
     (let resolved = resolve_name name;
          m1 = m\<lparr>pm_disabled := pm_disabled m - {resolved}\<rparr>
      in case dict_get (pm_breakers m1) resolved of
           None \<Rightarrow> m1
         | Some cb \<Rightarrow> m1\<lparr>pm_breakers := dict_set resolved (breaker_reset cb) (pm_breakers m1)\<rparr>)"

subsection \<open>Health checks\<close>

fun check_one :: "string \<Rightarrow> probe \<Rightarrow> health_response" where
  "check_one pname (Responds st lat) =
     \<lparr>h_status = st, h_provider = pname, h_latency = Some lat, h_error = None\<rparr>"
| "check_one pname (Raises msg lat) =
     \<lparr>h_status = UNHEALTHY, h_provider = pname, h_latency = Some lat, h_error = Some msg\<rparr>"

fun check_targets :: "pyfloat \<Rightarrow> string list \<Rightarrow> manager \<Rightarrow> string list \<times> manager" where
  "check_targets now [] m = ([], m)"
| "check_targets now (p # ps) m =
     (let (opn, m1) = is_circuit_open now p m; (ts, m2) = check_targets now ps m1
      in (if opn then ts else p # ts, m2))"

definition apply_health :: "pyfloat \<Rightarrow> (string \<Rightarrow> probe) \<Rightarrow> string \<Rightarrow> manager \<Rightarrow> manager" where
  "apply_health now probes p m =
     (let h = check_one p (probes p);
          m1 = m\<lparr>pm_health := dict_set p h (pm_health m)\<rparr>
      in if h_status h = HEALTHY
         then (let m2 = (case dict_get (pm_breakers m1) p of
                           None \<Rightarrow> m1
                         | Some cb \<Rightarrow> m1\<lparr>pm_breakers := dict_set p (record_success cb) (pm_breakers m1)\<rparr>)
               in m2\<lparr>pm_disabled := pm_disabled m2 - {p}\<rparr>)
         else track_failure now p m1)"

definition check_health ::
  "pyfloat \<Rightarrow> pyfloat \<Rightarrow> (string \<Rightarrow> probe) \<Rightarrow> string \<Rightarrow> manager \<Rightarrow>
   (string, health_response) dict \<times> manager" where
  "check_health now later probes name m =
     (let providers = (if name \<noteq> '''' then
                         (case dict_get (pm_providers m) (resolve_name name) of
                            None \<Rightarrow> [] | Some p \<Rightarrow> [p])
                       else map snd (pm_providers m));
          (targets, m1) = check_targets now providers m
      in (fold (\<lambda>p. dict_set p (check_one p (probes p))) targets [],
          fold (apply_health later probes) targets m1))"

definition recover_one :: "(string \<Rightarrow> probe) \<Rightarrow> string \<Rightarrow> manager \<Rightarrow> manager" where
  "recover_one probes name m =
     (case dict_get (pm_providers m) name of
        None \<Rightarrow> m\<lparr>pm_disabled := pm_disabled m - {name}\<rparr>
      | Some pname \<Rightarrow>
          (case probes pname of
             Raises msg lat \<Rightarrow> m
           | Responds st lat \<Rightarrow>
               (if st = HEALTHY
                then (let m1 = m\<lparr>pm_disabled := pm_disabled m - {name},
                                 pm_health := dict_set name
                                   \<lparr>h_status = st, h_provider = pname, h_latency = Some lat,
                                    h_error = None\<rparr> (pm_health m)\<rparr>
                      in case dict_get (pm_breakers m1) name of
                           None \<Rightarrow> m1
                         | Some cb \<Rightarrow>
                             m1\<lparr>pm_breakers := dict_set name (breaker_reset cb) (pm_breakers m1)\<rparr>)
                else m)))"

definition recovery_check :: "(string \<Rightarrow> probe) \<Rightarrow> string list \<Rightarrow> manager \<Rightarrow> manager" where
  "recovery_check probes order m = fold (recover_one probes) order m"

subsection \<open>Loading\<close>

definition load_provider ::
  "(provider_config \<Rightarrow> string option) \<Rightarrow> (string \<Rightarrow> probe) \<Rightarrow> provider_config \<Rightarrow> manager \<Rightarrow> manager" where
  "load_provider mk probes cfg m =
     (case mk cfg of
        None \<Rightarrow> m
      | Some pname \<Rightarrow>
          (let m1 = m\<lparr>pm_providers := dict_set (pc_name cfg) pname (pm_providers m)\<rparr>;
               h = (case probes pname of
                      Responds st lat \<Rightarrow>
                        \<lparr>h_status = st, h_provider = pname, h_latency = Some lat, h_error = None\<rparr>
                    | Raises msg lat \<Rightarrow>
                        \<lparr>h_status = UNKNOWN, h_provider = pc_name cfg, h_latency = None,
                         h_error = Some msg\<rparr>)
           in m1\<lparr>pm_health := dict_set (pc_name cfg) h (pm_health m1)\<rparr>))"

definition reload ::
  "(provider_config \<Rightarrow> string option) \<Rightarrow> (string \<Rightarrow> probe) \<Rightarrow> provider_config list \<Rightarrow> manager \<Rightarrow> manager" where
  "reload mk probes cfgs m =
     fold (load_provider mk probes) (filter pc_enabled cfgs) (m\<lparr>pm_providers := [], pm_health := []\<rparr>)"

definition reload_from_yaml ::
  "(provider_config \<Rightarrow> string option) \<Rightarrow> provider_config list option \<Rightarrow> manager \<Rightarrow> manager" where
  "reload_from_yaml mk yaml m =
     (case yaml of
        None \<Rightarrow> m
      | Some cfgs \<Rightarrow>
          fold (\<lambda>cfg m. case mk cfg of
                          None \<Rightarrow> m
                        | Some pname \<Rightarrow> m\<lparr>pm_providers := dict_set (pc_name cfg) pname (pm_providers m)\<rparr>)
               (filter pc_enabled cfgs) (m\<lparr>pm_providers := [], pm_health := []\<rparr>))"

definition manager_close :: "manager \<Rightarrow> manager" where
  "manager_close m = m\<lparr>pm_providers := [], pm_health := [], pm_disabled := {}, pm_breakers := []\<rparr>"

section \<open>The manager's invariant\<close>

text \<open>
  Every breaker satisfies its own invariant and has the manager's threshold 5 and timeout 60,
  and a disabled provider has a breaker that is not closed.
\<close>

definition pm_inv :: "manager \<Rightarrow> bool" where
  "pm_inv m \<longleftrightarrow>
     (\<forall>p cb. dict_get (pm_breakers m) p = Some cb \<longrightarrow>
        breaker_inv cb \<and> failure_threshold cb = 5 \<and> recovery_timeout cb = 60) \<and>
     (\<forall>p \<in> pm_disabled m. \<exists>cb. dict_get (pm_breakers m) p = Some cb \<and> cb_state cb \<noteq> Closed)"

lemma breaker_params [simp]:
  "failure_threshold (snd (is_open now cb)) = failure_threshold cb"
  "recovery_timeout (snd (is_open now cb)) = recovery_timeout cb"
  "failure_threshold (record_success cb) = failure_threshold cb"
  "recovery_timeout (record_success cb) = recovery_timeout cb"
  "failure_threshold (record_failure now cb) = failure_threshold cb"
  "recovery_timeout (record_failure now cb) = recovery_timeout cb"
  "failure_threshold (breaker_reset cb) = failure_threshold cb"
  "recovery_timeout (breaker_reset cb) = recovery_timeout cb"
  by (simp_all add: breaker_defs)

lemma is_open_not_closed:
  "cb_state cb \<noteq> Closed \<Longrightarrow> cb_state (snd (is_open now cb)) \<noteq> Closed"
  by (simp add: is_open_def)

lemma is_open_True_state: "fst (is_open now cb) \<Longrightarrow> cb_state (snd (is_open now cb)) = Open"
  by (auto simp: is_open_def split: if_splits)

lemma pm_inv_breakerD:
  "pm_inv m \<Longrightarrow> dict_get (pm_breakers m) p = Some cb \<Longrightarrow>
   breaker_inv cb \<and> failure_threshold cb = 5 \<and> recovery_timeout cb = 60"
  by (simp add: pm_inv_def)

text \<open>Replacing one breaker, and possibly changing whether its provider is disabled.\<close>

lemma pm_inv_update:
  assumes inv: "pm_inv m"
    and cb: "breaker_inv cb" "failure_threshold cb = 5" "recovery_timeout cb = 60"
    and dis: "D \<subseteq> insert p (pm_disabled m)" "p \<in> D \<Longrightarrow> cb_state cb \<noteq> Closed"
    and eqs: "pm_breakers m' = dict_set p cb (pm_breakers m)" "pm_disabled m' = D"
  shows "pm_inv m'"
  using assms by (auto simp: pm_inv_def)

lemma pm_inv_is_circuit_open: "pm_inv m \<Longrightarrow> pm_inv (snd (is_circuit_open now name m))"
proof (cases "dict_get (pm_breakers m) name")
  case (Some cb)
  assume inv: "pm_inv m"
  have m': "snd (is_circuit_open now name m) =
      m\<lparr>pm_breakers := dict_set name (snd (is_open now cb)) (pm_breakers m)\<rparr>"
    using Some by (simp add: is_circuit_open_def case_prod_beta)
  have "cb_state (snd (is_open now cb)) \<noteq> Closed" if "name \<in> pm_disabled m"
    using that inv Some is_open_not_closed [of cb now] by (fastforce simp: pm_inv_def)
  then show ?thesis
    unfolding m' using pm_inv_breakerD [OF inv Some]
    by (intro pm_inv_update [OF inv, where cb = "snd (is_open now cb)" and p = name])
      (simp_all add: breaker_inv_is_open subset_insertI)
qed (simp add: is_circuit_open_def)

lemma pm_inv_get_healthy_loop: "pm_inv m \<Longrightarrow> pm_inv (snd (get_healthy_loop now ps m))"
  by (induction ps arbitrary: m)
    (auto simp: Let_def case_prod_beta pm_inv_is_circuit_open simp del: split_paired_All)

lemma pm_inv_check_targets: "pm_inv m \<Longrightarrow> pm_inv (snd (check_targets now ps m))"
  by (induction ps arbitrary: m) (auto simp: Let_def case_prod_beta pm_inv_is_circuit_open)

lemma pm_inv_track_failure: "pm_inv m \<Longrightarrow> pm_inv (track_failure now p m)"
proof -
  assume inv: "pm_inv m"
  define cb where
    "cb = (case dict_get (pm_breakers m) p of None \<Rightarrow> new_breaker 5 60 | Some cb \<Rightarrow> cb)"
  have cb: "breaker_inv cb \<and> failure_threshold cb = 5 \<and> recovery_timeout cb = 60"
    using pm_inv_breakerD [OF inv] breaker_inv_new [of 5 60]
    by (auto simp: cb_def new_breaker_def split: option.splits)
  have still: "cb_state (snd (is_open now (record_failure now cb))) \<noteq> Closed"
    if "p \<in> pm_disabled m"
  proof -
    have "cb_state cb \<noteq> Closed" using that inv by (fastforce simp: pm_inv_def cb_def)
    then have "cb_state (record_failure now cb) \<noteq> Closed" by (simp add: record_failure_def Let_def)
    then show ?thesis by (rule is_open_not_closed)
  qed
  show ?thesis
    using cb still is_open_True_state [of now "record_failure now cb"]
    by (intro pm_inv_update [OF inv, where cb = "snd (is_open now (record_failure now cb))" and p = p])
      (auto simp: track_failure_def Let_def case_prod_beta cb_def [symmetric] breaker_inv_ops
        split: if_splits)
qed

lemma pm_inv_health [simp]: "pm_inv (m\<lparr>pm_health := h\<rparr>) = pm_inv m"
  and pm_inv_providers [simp]: "pm_inv (m\<lparr>pm_providers := ps\<rparr>) = pm_inv m"
  by (simp_all add: pm_inv_def)

lemma pm_inv_discard: "pm_inv m \<Longrightarrow> pm_inv (m\<lparr>pm_disabled := pm_disabled m - A\<rparr>)"
  by (simp add: pm_inv_def)

lemma pm_inv_apply_health: "pm_inv m \<Longrightarrow> pm_inv (apply_health now probes p m)"
proof -
  assume inv: "pm_inv m"
  show ?thesis
  proof (cases "h_status (check_one p (probes p)) = HEALTHY")
    case False
    with inv show ?thesis by (simp add: apply_health_def Let_def pm_inv_track_failure)
  next
    case ok: True
    show ?thesis
    proof (cases "dict_get (pm_breakers m) p")
      case None
      with ok inv pm_inv_discard [OF inv, of "{p}"] show ?thesis
        by (simp add: apply_health_def Let_def pm_inv_def)
    next
      case (Some cb)
      show ?thesis using ok Some pm_inv_breakerD [OF inv Some]
        by (intro pm_inv_update [OF inv, where cb = "record_success cb" and p = p])
          (auto simp: apply_health_def Let_def breaker_inv_success)
    qed
  qed
qed

lemma pm_inv_fold: "(\<And>x m. pm_inv m \<Longrightarrow> pm_inv (f x m)) \<Longrightarrow> pm_inv m \<Longrightarrow> pm_inv (fold f xs m)"
  by (induction xs arbitrary: m) auto

lemma pm_inv_check_health: "pm_inv m \<Longrightarrow> pm_inv (snd (check_health now later probes name m))"
  by (simp add: check_health_def Let_def case_prod_beta pm_inv_fold pm_inv_apply_health
      pm_inv_check_targets)

lemma pm_inv_reset:
  assumes inv: "pm_inv m"
  shows "pm_inv (case dict_get (pm_breakers m) p of
      None \<Rightarrow> m\<lparr>pm_disabled := pm_disabled m - {p}\<rparr>
    | Some cb \<Rightarrow> m\<lparr>pm_disabled := pm_disabled m - {p},
        pm_breakers := dict_set p (breaker_reset cb) (pm_breakers m)\<rparr>)"
proof (cases "dict_get (pm_breakers m) p")
  case (Some cb)
  then show ?thesis using pm_inv_breakerD [OF inv Some]
    by (intro pm_inv_update [OF inv, where cb = "breaker_reset cb" and p = p])
      (auto simp: breaker_inv_reset)
qed (simp add: pm_inv_discard inv)

lemma pm_inv_enable: "pm_inv m \<Longrightarrow> pm_inv (enable_provider name m)"
  using pm_inv_reset [of m "resolve_name name"]
  by (simp add: enable_provider_def Let_def split: option.splits)

lemma recover_one_healthy:
  "dict_get (pm_providers m) name = Some pname \<Longrightarrow> probes pname = Responds HEALTHY lat \<Longrightarrow>
   recover_one probes name m =
     (case dict_get (pm_breakers m) name of
        None \<Rightarrow> m\<lparr>pm_disabled := pm_disabled m - {name}\<rparr>
      | Some cb \<Rightarrow> m\<lparr>pm_disabled := pm_disabled m - {name},
          pm_breakers := dict_set name (breaker_reset cb) (pm_breakers m)\<rparr>)
     \<lparr>pm_health := dict_set name (check_one pname (Responds HEALTHY lat)) (pm_health m)\<rparr>"
  by (simp add: recover_one_def Let_def split: option.split)

lemma recover_one_cases:
  obtains (gone) "recover_one probes name m = m\<lparr>pm_disabled := pm_disabled m - {name}\<rparr>"
      "dict_get (pm_providers m) name = None"
  | (same) "recover_one probes name m = m"
  | (healthy) pname lat where "dict_get (pm_providers m) name = Some pname"
      "probes pname = Responds HEALTHY lat"
proof (cases "dict_get (pm_providers m) name")
  case None
  then show ?thesis by (intro gone) (simp_all add: recover_one_def)
next
  case (Some pname)
  then show ?thesis
    using same healthy
    by (cases "probes pname"; cases "\<exists>lat. probes pname = Responds HEALTHY lat")
      (auto simp: recover_one_def)
qed

lemma pm_inv_recover_one: "pm_inv m \<Longrightarrow> pm_inv (recover_one probes name m)"
  by (cases rule: recover_one_cases [of probes name m])
    (simp_all add: pm_inv_discard recover_one_healthy pm_inv_reset)

lemma pm_inv_load_provider: "pm_inv m \<Longrightarrow> pm_inv (load_provider mk probes cfg m)"
  by (simp add: load_provider_def Let_def split: option.splits)

lemma pm_inv_reload: "pm_inv m \<Longrightarrow> pm_inv (reload mk probes cfgs m)"
  by (simp add: reload_def pm_inv_fold pm_inv_load_provider)

lemma pm_inv_reload_from_yaml: "pm_inv m \<Longrightarrow> pm_inv (reload_from_yaml mk yaml m)"
  by (auto simp: reload_from_yaml_def intro!: pm_inv_fold split: option.splits)

section \<open>The manager as a transition system\<close>

inductive pm_step :: "manager \<Rightarrow> manager \<Rightarrow> bool" where
  step_reload: "pm_step m (reload mk probes cfgs m)"
| step_reload_yaml: "pm_step m (reload_from_yaml mk yaml m)"
| step_check_health: "pm_step m (snd (check_health now later probes name m))"
| step_recovery: "set order = pm_disabled m \<Longrightarrow> pm_step m (recovery_check probes order m)"
| step_circuit_query: "pm_step m (snd (is_circuit_open now name m))"
| step_healthy_query: "pm_step m (snd (is_healthy now name m))"
| step_get_healthy: "pm_step m (snd (get_healthy now m))"
| step_enable: "pm_step m (enable_provider name m)"
| step_close: "pm_step m (manager_close m)"

inductive pm_reachable :: "manager \<Rightarrow> bool" where
  pm_init: "pm_reachable new_manager"
| pm_next: "pm_reachable m \<Longrightarrow> pm_step m m' \<Longrightarrow> pm_reachable m'"

lemma pm_step_inv: "pm_step m m' \<Longrightarrow> pm_inv m \<Longrightarrow> pm_inv m'"
proof (induction rule: pm_step.induct)
  case (step_healthy_query m now name)
  then show ?case
    by (simp add: is_healthy_def Let_def case_prod_beta pm_inv_is_circuit_open)
next
  case (step_recovery order m probes)
  then show ?case by (simp add: recovery_check_def pm_inv_fold pm_inv_recover_one)
next
  case (step_close m)
  then show ?case by (simp add: manager_close_def pm_inv_def)
qed (simp_all add: pm_inv_reload pm_inv_reload_from_yaml pm_inv_check_health
    pm_inv_is_circuit_open get_healthy_def pm_inv_get_healthy_loop pm_inv_enable)

section \<open>What the queries and the recovery pass compute\<close>

lemma circuit_open_stable:
  "fst (is_circuit_open now q (snd (is_circuit_open now p m))) = fst (is_circuit_open now q m)"
  by (auto simp: is_circuit_open_def is_open_def case_prod_beta split: option.splits)

lemma check_targets_filter:
  "fst (check_targets now ps m) = filter (\<lambda>p. \<not> fst (is_circuit_open now p m)) ps"
  by (induction ps arbitrary: m)
    (simp_all add: Let_def case_prod_beta circuit_open_stable)

lemma health_ok_circuit [simp]: "health_ok k (snd (is_circuit_open now p m)) = health_ok k m"
  by (simp add: health_ok_def is_circuit_open_def case_prod_beta split: option.split)

lemma get_healthy_loop_filter:
  "fst (get_healthy_loop now ps m) =
     map snd (filter (\<lambda>(k, p). health_ok k m \<and> \<not> fst (is_circuit_open now k m)) ps)"
proof (induction ps arbitrary: m)
  case (Cons kp ps)
  then show ?case
    by (cases kp) (simp add: Let_def case_prod_beta circuit_open_stable)
qed simp

text \<open>A disabled provider is given up by the recovery pass when it is no longer registered,
  and recovered when its probe answers healthy.\<close>

definition recovers :: "(string \<Rightarrow> probe) \<Rightarrow> manager \<Rightarrow> string \<Rightarrow> bool" where
  "recovers probes m name =
     (case dict_get (pm_providers m) name of
        None \<Rightarrow> False
      | Some pname \<Rightarrow> (case probes pname of Responds st lat \<Rightarrow> st = HEALTHY | Raises msg lat \<Rightarrow> False))"

lemma recovers_iff:
  "recovers probes m name \<longleftrightarrow>
     (\<exists>pname lat. dict_get (pm_providers m) name = Some pname \<and> probes pname = Responds HEALTHY lat)"
  by (auto simp: recovers_def split: option.splits probe.splits)

lemma recover_one_providers [simp]: "pm_providers (recover_one probes name m) = pm_providers m"
  by (cases rule: recover_one_cases [of probes name m])
    (auto simp: recover_one_healthy split: option.splits)

lemma recovers_recover_one [simp]:
  "recovers probes (recover_one probes name m) = recovers probes m"
  by (rule ext) (simp add: recovers_iff)

lemma recover_one_effect:
  "pm_disabled (recover_one probes name m) =
     (if recovers probes m name \<or> dict_get (pm_providers m) name = None
      then pm_disabled m - {name} else pm_disabled m)"
  "get_circuit_state q (recover_one probes name m) =
     (if recovers probes m name \<and> q = name then Closed else get_circuit_state q m)"
  "health_ok q (recover_one probes name m) =
     ((recovers probes m name \<and> q = name) \<or> health_ok q m)"
  unfolding recovers_def get_circuit_state_def health_ok_def recover_one_def Let_def
  by (auto simp: breaker_reset_def split: option.splits probe.splits)

lemma recovery_check_simps [simp]:
  "recovery_check probes [] m = m"
  "recovery_check probes (p # order) m = recovery_check probes order (recover_one probes p m)"
  by (simp_all add: recovery_check_def)

lemma recovery_check_effect:
  "pm_disabled (recovery_check probes order m) =
     pm_disabled m - {p \<in> set order. recovers probes m p \<or> dict_get (pm_providers m) p = None}"
  "get_circuit_state q (recovery_check probes order m) =
     (if q \<in> set order \<and> recovers probes m q then Closed else get_circuit_state q m)"
  "health_ok q (recovery_check probes order m) =
     ((q \<in> set order \<and> recovers probes m q) \<or> health_ok q m)"
  by (induction order arbitrary: m) (auto simp: recover_one_effect)

section \<open>Properties of the manager\<close>

text \<open>
  In every state the manager can reach by loading, health checks, recovery passes,
  queries and administration, a disabled provider has a circuit breaker that is open or
  half-open (never closed), and every breaker is at or above its threshold of five failures
  exactly when it is not closed.
\<close>

theorem manager_invariant:
  assumes "pm_reachable m"
  shows "pm_inv m"
  using assms
proof (induction rule: pm_reachable.induct)
  case pm_init
  show ?case by (simp add: new_manager_def pm_inv_def)
next
  case (pm_next m m')
  then show ?case by (blast intro: pm_step_inv)
qed

lemma manager_invariant_witness:
  "pm_inv (enable_provider ''Gemini'' (reload (\<lambda>c. Some (pc_name c)) (\<lambda>p. Responds HEALTHY 1)
     [\<lparr>pc_name = ''google'', pc_enabled = True\<rparr>] new_manager))"
  by (rule manager_invariant, rule pm_next [OF _ step_enable], rule pm_next [OF _ step_reload],
      rule pm_init)

text \<open>
  A health check probes exactly the registered providers whose circuit is not open at the
  time of the check, and \<open>get_healthy\<close> returns, in registration order, exactly the providers
  whose last health result is healthy and whose circuit is not open, although both loops
  mutate the breakers they read.
\<close>

theorem health_queries_exact:
  "fst (check_targets now (map snd (pm_providers m)) m) =
     filter (\<lambda>p. \<not> fst (is_circuit_open now p m)) (map snd (pm_providers m)) \<and>
   fst (get_healthy now m) =
     map snd (filter (\<lambda>(k, p). health_ok k m \<and> \<not> fst (is_circuit_open now k m)) (pm_providers m))"
  by (simp_all add: check_targets_filter get_healthy_def get_healthy_loop_filter)

text \<open>
  C14. One recovery pass over the disabled providers, in any order, re-enables exactly those
  whose probe answers healthy or that are no longer registered; a recovered provider has a
  closed circuit and a healthy status, and no other circuit changes.
\<close>

theorem recovery_pass:
  assumes "set order = pm_disabled m"
  shows "pm_disabled (recovery_check probes order m) =
           {p \<in> pm_disabled m. dict_get (pm_providers m) p \<noteq> None \<and> \<not> recovers probes m p} \<and>
         get_circuit_state q (recovery_check probes order m) =
           (if q \<in> pm_disabled m \<and> recovers probes m q then Closed else get_circuit_state q m) \<and>
         health_ok q (recovery_check probes order m) =
           ((q \<in> pm_disabled m \<and> recovers probes m q) \<or> health_ok q m)"
  using assms by (auto simp: recovery_check_effect)

lemma recovery_pass_witness:
  "pm_disabled (recovery_check (\<lambda>p. Responds HEALTHY 1) [''groq'']
     (new_manager\<lparr>pm_providers := [(''groq'', ''groq'')], pm_disabled := {''groq''}\<rparr>)) = {}"
  using recovery_pass [of "[''groq'']"
      "new_manager\<lparr>pm_providers := [(''groq'', ''groq'')], pm_disabled := {''groq''}\<rparr>"]
  by (simp add: recovers_def)

end
