(* ===== verification/Metrics.thy ===== *)
theory Metrics
  imports Interfaces
begin

text \<open>
  Per-provider statistics and what is derived from them: \<open>ProviderMetrics\<close> of
  \<^verbatim>\<open>app/router.py\<close> with its storage snapshot, the reputation and trend scores of
  \<^verbatim>\<open>app/reputation.py\<close>, and the token accounting of \<^verbatim>\<open>app/costs.py\<close>.

  \<open>avg_latency\<close> is an option: \<open>None\<close> is Python's \<open>float('inf')\<close> for a provider without a
  success. The factor \<open>decay ** elapsed\<close> of \<open>apply_aging\<close>, a real power, is an argument.
\<close>

section \<open>Provider metrics\<close>

definition HISTORY_SIZE :: nat where "HISTORY_SIZE = 100"
definition ROLLING_WINDOW :: nat where "ROLLING_WINDOW = 100"
definition EWMA_ALPHA :: pyfloat where "EWMA_ALPHA = 3 / 10"

record provider_metrics =
  mt_name :: string
  mt_total :: int
  mt_successes :: int
  mt_failures :: int
  mt_total_latency :: pyfloat
  mt_last_latency :: pyfloat
  mt_consec_failures :: int
  mt_consec_success :: int
  mt_ewma :: pyfloat
  mt_total_cost :: pyfloat
  mt_prompt_tokens :: int
  mt_completion_tokens :: int
  mt_last_failure_time :: pyfloat
  mt_last_success_time :: pyfloat
  mt_start_time :: pyfloat
  mt_latency_history :: "pyfloat list"
  mt_request_history :: "bool list"

definition new_metrics :: "string \<Rightarrow> pyfloat \<Rightarrow> provider_metrics" where
  "new_metrics name now =
     \<lparr>mt_name = name, mt_total = 0, mt_successes = 0, mt_failures = 0, mt_total_latency = 0,
      mt_last_latency = 0, mt_consec_failures = 0, mt_consec_success = 0, mt_ewma = 0,
      mt_total_cost = 0, mt_prompt_tokens = 0, mt_completion_tokens = 0,
      mt_last_failure_time = 0, mt_last_success_time = 0, mt_start_time = now,
      mt_latency_history = [], mt_request_history = []\<rparr>"

definition success_rate :: "provider_metrics \<Rightarrow> pyfloat" where
  "success_rate m = (if mt_total m = 0 then 1 else of_int (mt_successes m) / of_int (mt_total m))"

definition failure_rate :: "provider_metrics \<Rightarrow> pyfloat" where
  "failure_rate m = (if mt_total m = 0 then 0 else of_int (mt_failures m) / of_int (mt_total m))"

definition avg_latency :: "provider_metrics \<Rightarrow> pyfloat option" where
  "avg_latency m =
     (if mt_successes m = 0 then None else Some (mt_total_latency m / of_int (mt_successes m)))"

definition avg_cost :: "provider_metrics \<Rightarrow> pyfloat" where
  "avg_cost m = (if mt_total m = 0 then 0 else mt_total_cost m / of_int (mt_total m))"

definition count_true :: "bool list \<Rightarrow> nat" where
  "count_true bs = length (filter (\<lambda>b. b) bs)"

definition rolling_success_rate :: "provider_metrics \<Rightarrow> pyfloat" where
  "rolling_success_rate m =
     (if mt_request_history m = [] then 1
      else of_nat (count_true (mt_request_history m)) / of_nat (length (mt_request_history m)))"

definition rolling_failure_rate :: "provider_metrics \<Rightarrow> pyfloat" where
  "rolling_failure_rate m = 1 - rolling_success_rate m"

definition rolling_throughput :: "pyfloat \<Rightarrow> provider_metrics \<Rightarrow> pyfloat" where
  "rolling_throughput now m =
     (if mt_request_history m = [] then 0
      else let elapsed = now - mt_start_time m
           in if elapsed \<le> 0 then 0 else of_nat (length (mt_request_history m)) / elapsed)"

text \<open>The index \<open>max(0, min(len - 1, int(len * q)))\<close> of both percentile properties.\<close>

definition percentile_index :: "pyfloat \<Rightarrow> nat \<Rightarrow> nat" where
  "percentile_index q n = nat (max 0 (min (int n - 1) (py_int (of_nat n * q))))"

definition latency_percentile :: "pyfloat \<Rightarrow> provider_metrics \<Rightarrow> pyfloat" where
  "latency_percentile q m =
     (if length (mt_latency_history m) < 2 then (if mt_ewma m > 0 then mt_ewma m else 0)
      else let sorted_lats = sort (mt_latency_history m)
           in sorted_lats ! percentile_index q (length sorted_lats))"

definition p95_latency :: "provider_metrics \<Rightarrow> pyfloat" where
  "p95_latency m = latency_percentile (95 / 100) m"

definition p99_latency :: "provider_metrics \<Rightarrow> pyfloat" where
  "p99_latency m = latency_percentile (99 / 100) m"

definition uptime_seconds :: "pyfloat \<Rightarrow> provider_metrics \<Rightarrow> pyfloat" where
  "uptime_seconds now m = now - mt_start_time m"

definition metrics_success ::
  "pyfloat \<Rightarrow> pyfloat \<Rightarrow> pyfloat \<Rightarrow> int \<Rightarrow> int \<Rightarrow> provider_metrics \<Rightarrow> provider_metrics" where
  "metrics_success now latency cost pt ct m =
     m\<lparr>mt_total := mt_total m + 1,
       mt_successes := mt_successes m + 1,
       mt_total_latency := mt_total_latency m + latency,
       mt_last_latency := latency,
       mt_consec_failures := 0,
       mt_consec_success := mt_consec_success m + 1,
       mt_last_success_time := now,
       mt_total_cost := mt_total_cost m + cost,
       mt_prompt_tokens := mt_prompt_tokens m + pt,
       mt_completion_tokens := mt_completion_tokens m + ct,
       mt_ewma := (if mt_ewma m = 0 then latency
                   else EWMA_ALPHA * latency + (1 - EWMA_ALPHA) * mt_ewma m),
       mt_latency_history := push_bounded HISTORY_SIZE (mt_latency_history m) latency,
       mt_request_history := push_bounded ROLLING_WINDOW (mt_request_history m) True\<rparr>"

definition metrics_failure :: "pyfloat \<Rightarrow> pyfloat \<Rightarrow> provider_metrics \<Rightarrow> provider_metrics" where
  "metrics_failure now latency m =
     m\<lparr>mt_total := mt_total m + 1,
       mt_failures := mt_failures m + 1,
       mt_last_latency := latency,
       mt_consec_failures := mt_consec_failures m + 1,
       mt_consec_success := 0,
       mt_last_failure_time := now,
       mt_latency_history := push_bounded HISTORY_SIZE (mt_latency_history m) latency,
       mt_request_history := push_bounded ROLLING_WINDOW (mt_request_history m) False\<rparr>"

subsection \<open>Snapshots for storage\<close>

record provider_stats =
  ps_name :: string
  ps_total :: int
  ps_successes :: int
  ps_failures :: int
  ps_total_latency :: pyfloat
  ps_ewma :: pyfloat
  ps_total_cost :: pyfloat
  ps_prompt_tokens :: int
  ps_completion_tokens :: int
  ps_uptime :: pyfloat
  ps_first_seen :: pyfloat
  ps_last_seen :: pyfloat
  ps_consec_failures :: int
  ps_consec_success :: int

definition to_storage :: "pyfloat \<Rightarrow> provider_metrics \<Rightarrow> provider_stats" where
  "to_storage now m =
     \<lparr>ps_name = mt_name m, ps_total = mt_total m, ps_successes = mt_successes m,
      ps_failures = mt_failures m, ps_total_latency = mt_total_latency m, ps_ewma = mt_ewma m,
      ps_total_cost = mt_total_cost m, ps_prompt_tokens = mt_prompt_tokens m,
      ps_completion_tokens = mt_completion_tokens m, ps_uptime = uptime_seconds now m,
      ps_first_seen = mt_start_time m, ps_last_seen = now,
      ps_consec_failures = mt_consec_failures m, ps_consec_success = mt_consec_success m\<rparr>"

definition from_storage :: "pyfloat \<Rightarrow> provider_stats \<Rightarrow> provider_metrics" where
  "from_storage now s =
     (new_metrics (ps_name s) now)
       \<lparr>mt_total := ps_total s, mt_successes := ps_successes s, mt_failures := ps_failures s,
        mt_total_latency := ps_total_latency s, mt_ewma := ps_ewma s,
        mt_total_cost := ps_total_cost s, mt_prompt_tokens := ps_prompt_tokens s,
        mt_completion_tokens := ps_completion_tokens s,
        mt_start_time := (if ps_first_seen s > 0 then ps_first_seen s else now),
        mt_consec_failures := ps_consec_failures s, mt_consec_success := ps_consec_success s\<rparr>"

definition apply_aging :: "pyfloat \<Rightarrow> pyfloat \<Rightarrow> provider_stats \<Rightarrow> provider_stats" where
  "apply_aging factor now s =
     (if now - ps_last_seen s \<le> 0 then s
      else s\<lparr>ps_total_latency := ps_total_latency s * factor,
             ps_ewma := ps_ewma s * factor,
             ps_total_cost := ps_total_cost s * factor,
             ps_prompt_tokens := py_int (of_int (ps_prompt_tokens s) * factor),
             ps_completion_tokens := py_int (of_int (ps_completion_tokens s) * factor),
             ps_total := py_int (of_int (ps_total s) * factor),
             ps_successes := py_int (of_int (ps_successes s) * factor),
             ps_failures := py_int (of_int (ps_failures s) * factor)\<rparr>)"

section \<open>Invariants of the metrics\<close>

definition metrics_inv :: "provider_metrics \<Rightarrow> bool" where
  "metrics_inv m \<longleftrightarrow>
     0 \<le> mt_successes m \<and> 0 \<le> mt_failures m \<and> mt_total m = mt_successes m + mt_failures m \<and>
     0 \<le> mt_consec_success m \<and> mt_consec_success m \<le> mt_successes m \<and>
     0 \<le> mt_consec_failures m \<and> mt_consec_failures m \<le> mt_failures m \<and>
     (mt_consec_success m = 0 \<or> mt_consec_failures m = 0) \<and>
     length (mt_latency_history m) \<le> HISTORY_SIZE \<and> length (mt_request_history m) \<le> ROLLING_WINDOW"

lemma metrics_total [simp]:
  "mt_total (metrics_success now l c pt ct m) = mt_total m + 1"
  "mt_total (metrics_failure now l m) = mt_total m + 1"
  "mt_name (metrics_success now l c pt ct m) = mt_name m"
  "mt_name (metrics_failure now l m) = mt_name m"
  by (simp_all add: metrics_success_def metrics_failure_def)

lemma metrics_inv_new: "metrics_inv (new_metrics name now)"
  by (simp add: metrics_inv_def new_metrics_def)

lemma metrics_inv_success: "metrics_inv m \<Longrightarrow> metrics_inv (metrics_success now l c pt ct m)"
  by (auto simp: metrics_inv_def metrics_success_def)

lemma metrics_inv_failure: "metrics_inv m \<Longrightarrow> metrics_inv (metrics_failure now l m)"
  by (auto simp: metrics_inv_def metrics_failure_def)

lemma metrics_rates:
  assumes "metrics_inv m"
  shows "0 \<le> success_rate m" "success_rate m \<le> 1" "success_rate m + failure_rate m = 1"
proof -
  have "(of_int (mt_successes m) + of_int (mt_failures m) :: rat) = of_int (mt_total m)"
    using assms by (simp add: metrics_inv_def)
  then show "success_rate m + failure_rate m = 1"
    by (simp add: success_rate_def failure_rate_def add_divide_distrib [symmetric])
  show "0 \<le> success_rate m" "success_rate m \<le> 1"
    using assms by (auto simp: success_rate_def metrics_inv_def divide_le_eq)
qed

lemma count_true_le: "count_true bs \<le> length bs"
  by (simp add: count_true_def)

lemma rolling_rates: "0 \<le> rolling_success_rate m" "rolling_success_rate m \<le> 1"
  using count_true_le [of "mt_request_history m"]
  by (auto simp: rolling_success_rate_def divide_le_eq)

lemma percentile_index_less: "0 < n \<Longrightarrow> percentile_index q n < n"
  by (auto simp: percentile_index_def)

lemma latency_percentile_member:
  assumes "2 \<le> length (mt_latency_history m)"
  shows "latency_percentile q m \<in> set (mt_latency_history m)"
proof -
  have "percentile_index q (length (mt_latency_history m)) < length (mt_latency_history m)"
    using assms by (intro percentile_index_less) linarith
  then have "sort (mt_latency_history m) ! percentile_index q (length (mt_latency_history m))
      \<in> set (sort (mt_latency_history m))"
    by (intro nth_mem) simp
  with assms show ?thesis by (simp add: latency_percentile_def Let_def)
qed

lemma percentile_index_mono: "q \<le> r \<Longrightarrow> 0 \<le> q \<Longrightarrow> percentile_index q n \<le> percentile_index r n"
proof -
  assume "q \<le> r" "0 \<le> q"
  then have "\<lfloor>of_nat n * q\<rfloor> \<le> \<lfloor>of_nat n * r\<rfloor>"
    by (intro floor_mono mult_left_mono) auto
  with \<open>q \<le> r\<close> \<open>0 \<le> q\<close> show ?thesis
    by (auto simp: percentile_index_def py_int_def)
qed

lemma latency_percentile_mono:
  assumes "q \<le> r" "0 \<le> q"
  shows "latency_percentile q m \<le> latency_percentile r m"
proof (cases "length (mt_latency_history m) < 2")
  case False
  then have "percentile_index r (length (mt_latency_history m)) < length (mt_latency_history m)"
    by (intro percentile_index_less) linarith
  with False show ?thesis
    using percentile_index_mono [OF assms]
    by (simp add: latency_percentile_def Let_def sorted_nth_mono)
qed (simp add: latency_percentile_def)

lemma ewma_between:
  assumes "lo \<le> latency" "latency \<le> hi" "mt_ewma m = 0 \<or> (lo \<le> mt_ewma m \<and> mt_ewma m \<le> hi)"
  shows "lo \<le> mt_ewma (metrics_success now latency c pt ct m) \<and>
         mt_ewma (metrics_success now latency c pt ct m) \<le> hi"
  using assms by (auto simp: metrics_success_def EWMA_ALPHA_def)

subsection \<open>Runs of recorded requests\<close>

datatype request_event = Served pyfloat pyfloat pyfloat int int | Failed pyfloat pyfloat

fun record_event :: "request_event \<Rightarrow> provider_metrics \<Rightarrow> provider_metrics" where
  "record_event (Served now l c pt ct) m = metrics_success now l c pt ct m"
| "record_event (Failed now l) m = metrics_failure now l m"

fun event_ok :: "request_event \<Rightarrow> bool" where
  "event_ok (Served now l c pt ct) = True"
| "event_ok (Failed now l) = False"

lemma push_bounded_last_n:
  "push_bounded n (last_n n xs) x = last_n n (xs @ [x])"
  by (cases "n \<le> length xs") (auto simp: push_bounded_def last_n_def Suc_diff_le)

lemma metrics_run_inv:
  "metrics_inv m \<Longrightarrow> metrics_inv (fold record_event evs m)"
proof (induction evs arbitrary: m)
  case (Cons e evs)
  then show ?case by (cases e) (simp_all add: metrics_inv_success metrics_inv_failure)
qed simp

definition run_metrics :: "string \<Rightarrow> pyfloat \<Rightarrow> request_event list \<Rightarrow> provider_metrics" where
  "run_metrics name now evs = fold record_event evs (new_metrics name now)"

lemma run_metrics_simps [simp]:
  "run_metrics name now [] = new_metrics name now"
  "run_metrics name now (evs @ [e]) = record_event e (run_metrics name now evs)"
  by (simp_all add: run_metrics_def)

lemma run_metrics_counts:
  "mt_total (run_metrics name now evs) = int (length evs)"
  "mt_successes (run_metrics name now evs) = int (count_true (map event_ok evs))"
proof (induction evs rule: rev_induct)
  case (snoc e evs)
  {
    case 1
    show ?case using snoc.IH(1) by (cases e) (simp_all add: metrics_success_def metrics_failure_def)
  next
    case 2
    show ?case using snoc.IH(2)
      by (cases e) (simp_all add: metrics_success_def metrics_failure_def count_true_def)
  }
qed (simp_all add: new_metrics_def count_true_def)

lemma run_metrics_history:
  "mt_request_history (run_metrics name now evs) = last_n ROLLING_WINDOW (map event_ok evs)"
proof (induction evs rule: rev_induct)
  case (snoc e evs)
  then show ?case
    by (cases e) (simp_all add: metrics_success_def metrics_failure_def push_bounded_last_n)
qed (simp add: new_metrics_def last_n_def)

lemma run_metrics_inv: "metrics_inv (run_metrics name now evs)"
  by (simp add: run_metrics_def metrics_run_inv metrics_inv_new)

section \<open>Aging of stored statistics\<close>

lemma py_int_nonneg: "0 \<le> x \<Longrightarrow> 0 \<le> py_int x"
  by (simp add: py_int_def)

lemma aging_counts:
  fixes now :: pyfloat
  assumes f: "0 \<le> factor" "factor \<le> 1"
    and s: "0 \<le> ps_successes s" "0 \<le> ps_failures s" "ps_successes s + ps_failures s \<le> ps_total s"
  defines "s' \<equiv> apply_aging factor now s"
  shows "0 \<le> ps_successes s'" "0 \<le> ps_failures s'" "ps_successes s' + ps_failures s' \<le> ps_total s'"
    "ps_total s' \<le> ps_total s"
proof -
  have nn: "0 \<le> of_int (ps_successes s) * factor" "0 \<le> of_int (ps_failures s) * factor"
    "0 \<le> of_int (ps_total s) * factor"
    using f s by simp_all
  then show "0 \<le> ps_successes s'" "0 \<le> ps_failures s'"
    using s by (simp_all add: s'_def apply_aging_def py_int_nonneg)
  have "(of_int (ps_successes s) + of_int (ps_failures s)) * factor \<le> of_int (ps_total s) * factor"
    using s(3) f(1) by (intro mult_right_mono) (simp_all flip: of_int_add)
  moreover have "(of_int \<lfloor>of_int (ps_successes s) * factor\<rfloor> :: rat) \<le> of_int (ps_successes s) * factor"
    "(of_int \<lfloor>of_int (ps_failures s) * factor\<rfloor> :: rat) \<le> of_int (ps_failures s) * factor"
    by simp_all
  ultimately have "\<lfloor>of_int (ps_successes s) * factor\<rfloor> + \<lfloor>of_int (ps_failures s) * factor\<rfloor>
      \<le> \<lfloor>of_int (ps_total s) * factor\<rfloor>"
    by (simp add: le_floor_iff distrib_right) linarith
  then show "ps_successes s' + ps_failures s' \<le> ps_total s'"
    using s nn by (simp add: s'_def apply_aging_def py_int_def)
  have "of_int (ps_total s) * factor \<le> of_int (ps_total s)"
    using f s by (intro mult_left_le) auto
  then have "\<lfloor>of_int (ps_total s) * factor\<rfloor> \<le> ps_total s"
    by (simp add: floor_le_iff)
  then show "ps_total s' \<le> ps_total s"
    using nn by (simp add: s'_def apply_aging_def py_int_def)
qed

end
