(* ===== verification/Reputation.thy ===== *)
theory Reputation
  imports Metrics
begin

text \<open>
  Scores derived from provider statistics: trend and reputation (\<^verbatim>\<open>app/reputation.py\<close>), the
  rolling-window live benchmark (\<^verbatim>\<open>app/benchmark/live.py\<close>) and token costs
  (\<^verbatim>\<open>app/costs.py\<close>).
\<close>

section \<open>Trend\<close>

datatype trend = IMPROVING | STABLE | DEGRADING

record trend_data =
  td_trend :: trend
  td_short :: pyfloat
  td_long :: pyfloat
  td_delta :: pyfloat

definition SHORT_WINDOW :: nat where "SHORT_WINDOW = 20"

definition error_rate :: "bool list \<Rightarrow> pyfloat" where
  "error_rate bs = (if bs = [] then 0 else of_nat (length (filter Not bs)) / of_nat (length bs))"

definition compute_trend :: "bool list \<Rightarrow> trend_data" where
  "compute_trend history =
     (if history = [] then \<lparr>td_trend = STABLE, td_short = 0, td_long = 0, td_delta = 0\<rparr>
      else
        let short_items = (if length history \<ge> SHORT_WINDOW then last_n SHORT_WINDOW history
                           else history);
            s = error_rate short_items; l = error_rate history
        in if length short_items < 5 \<or> length history < 10
           then \<lparr>td_trend = STABLE, td_short = s, td_long = l, td_delta = 0\<rparr>
           else if s < l * (8 / 10)
           then \<lparr>td_trend = IMPROVING, td_short = s, td_long = l, td_delta = min 15 ((l - s) * 50)\<rparr>
           else if s > l * (12 / 10)
           then \<lparr>td_trend = DEGRADING, td_short = s, td_long = l,
                 td_delta = - min 30 ((s - l) * 50)\<rparr>
           else \<lparr>td_trend = STABLE, td_short = s, td_long = l, td_delta = 0\<rparr>)"

lemma error_rate_bounds: "0 \<le> error_rate bs \<and> error_rate bs \<le> 1"
  by (auto simp: error_rate_def divide_le_eq)

lemma compute_trend_bounds: "- 30 \<le> td_delta (compute_trend h) \<and> td_delta (compute_trend h) \<le> 15"
  using error_rate_bounds [of h] error_rate_bounds [of "last_n SHORT_WINDOW h"]
  by (auto simp: compute_trend_def Let_def)

lemma compute_trend_sign:
  "(td_trend (compute_trend h) = IMPROVING \<longleftrightarrow> 0 < td_delta (compute_trend h)) \<and>
   (td_trend (compute_trend h) = DEGRADING \<longleftrightarrow> td_delta (compute_trend h) < 0)"
  using error_rate_bounds [of h] error_rate_bounds [of "last_n SHORT_WINDOW h"]
  by (auto simp: compute_trend_def Let_def)

section \<open>Reputation\<close>

definition latency_score :: "pyfloat \<Rightarrow> pyfloat" where
  "latency_score ewma = (if ewma \<le> 0 then 100 else max 0 (100 - ewma / 5))"

definition compute_reputation ::
  "pyfloat \<Rightarrow> pyfloat \<Rightarrow> pyfloat \<Rightarrow> pyfloat \<Rightarrow> int \<Rightarrow> int \<Rightarrow> pyfloat" where
  "compute_reputation sr ewma cost uptime consec_success consec_failure =
     (let sr_score = sr * 100;
          lat_score = latency_score ewma;
          uptime_hours = uptime / 3600;
          uptime_score = min 100 (uptime_hours * (6 / 10));
          cost_score = (if cost \<le> 0 then 100 else max 0 (100 - cost * 2000));
          consistency = consec_success - consec_failure * 2;
          consistency_score = max 0 (min 100 (50 + of_int consistency * 5));
          total = sr_score * (35 / 100) + lat_score * (25 / 100) + uptime_score * (15 / 100)
                + cost_score * (10 / 100) + consistency_score * (10 / 100)
      in py_round 2 total)"

lemma latency_score_bounds: "0 \<le> latency_score e \<and> latency_score e \<le> 100"
  by (auto simp: latency_score_def)

lemma latency_score_antimono: "e \<le> e' \<Longrightarrow> latency_score e' \<le> latency_score e"
  by (auto simp: latency_score_def)

lemma compute_reputation_bounds:
  assumes "0 \<le> sr" "sr \<le> 1" "0 \<le> uptime"
  shows "0 \<le> compute_reputation sr ewma cost uptime cs cf \<and>
         compute_reputation sr ewma cost uptime cs cf \<le> 95"
proof -
  define u where "u = min 100 (uptime / 3600 * (6 / 10))"
  define c where "c = (if cost \<le> 0 then 100 else max 0 (100 - cost * 2000))"
  define k :: rat where "k = max 0 (min 100 (50 + of_int (cs - cf * 2) * 5))"
  define total where "total = sr * 100 * (35 / 100) + latency_score ewma * (25 / 100)
      + u * (15 / 100) + c * (10 / 100) + k * (10 / 100)"
  have rep: "compute_reputation sr ewma cost uptime cs cf = py_round 2 total"
    unfolding compute_reputation_def total_def u_def c_def k_def by (simp only: Let_def)
  have b: "0 \<le> u" "u \<le> 100" "0 \<le> c" "c \<le> 100" "0 \<le> k" "k \<le> 100"
    using assms by (auto simp: u_def c_def k_def)
  have "0 \<le> total"
    using assms b latency_score_bounds [of ewma] by (simp add: total_def)
  moreover have "total \<le> 95"
    using assms b latency_score_bounds [of ewma] by (simp add: total_def)
  ultimately show ?thesis
    unfolding rep using py_round_nonneg py_round_le_of_int [of total 95 2] by simp
qed

lemma compute_reputation_mono:
  assumes "sr \<le> sr'" "ewma' \<le> ewma" "uptime \<le> uptime'" "cost' \<le> cost" "cs \<le> cs'" "cf' \<le> cf"
  shows "compute_reputation sr ewma cost uptime cs cf \<le>
         compute_reputation sr' ewma' cost' uptime' cs' cf'"
  unfolding compute_reputation_def Let_def
proof (intro py_round_mono add_mono mult_right_mono)
  show "min 100 (uptime / 3600 * (6 / 10)) \<le> min 100 (uptime' / 3600 * (6 / 10))"
    using assms(3) by (intro min.mono mult_right_mono divide_right_mono) auto
  show "(if cost \<le> 0 then 100 else max 0 (100 - cost * 2000)) \<le>
        (if cost' \<le> 0 then 100 else max 0 (100 - cost' * 2000))"
    using assms(4) by auto
  have "cs - cf * 2 \<le> cs' - cf' * 2" using assms(5,6) by linarith
  then have "(of_int (cs - cf * 2) :: rat) \<le> of_int (cs' - cf' * 2)" by (simp only: of_int_le_iff)
  then show "max 0 (min 100 (50 + of_int (cs - cf * 2) * 5)) \<le>
        max 0 (min 100 (50 + (of_int (cs' - cf' * 2) :: rat) * 5))"
    by (intro max.mono min.mono add_left_mono mult_right_mono) auto
qed (use assms in \<open>simp_all add: latency_score_antimono\<close>)

definition circuit_breaker_multiplier :: "string option \<Rightarrow> pyfloat" where
  "circuit_breaker_multiplier state =
     (case state of
        None \<Rightarrow> 1
      | Some s \<Rightarrow>
          (if s = '''' then 1
           else if py_lower s = ''closed'' then 1
           else if py_lower s = ''half-open'' then 4 / 10
           else if py_lower s = ''open'' then 0
           else 1))"

lemma circuit_breaker_multiplier_range: "circuit_breaker_multiplier st \<in> {0, 4 / 10, 1}"
  by (auto simp: circuit_breaker_multiplier_def split: option.splits)

section \<open>Live benchmark\<close>

definition MAX_RECORDS :: nat where "MAX_RECORDS = 200000"

record request_record =
  rr_timestamp :: pyfloat
  rr_latency :: pyfloat
  rr_first_token :: pyfloat
  rr_tokens :: int
  rr_success :: bool
  rr_timeout :: bool
  rr_model :: string

record window_snapshot =
  ws_requests :: int
  ws_successes :: int
  ws_failures :: int
  ws_timeouts :: int
  ws_avg_latency :: pyfloat
  ws_p50 :: pyfloat
  ws_p95 :: pyfloat
  ws_p99 :: pyfloat
  ws_min_latency :: pyfloat
  ws_max_latency :: pyfloat
  ws_avg_first_token :: pyfloat
  ws_tokens_per_sec :: pyfloat
  ws_throughput :: pyfloat
  ws_failure_rate :: pyfloat
  ws_timeout_rate :: pyfloat
  ws_total_tokens :: int

definition empty_snapshot :: window_snapshot where
  "empty_snapshot =
     \<lparr>ws_requests = 0, ws_successes = 0, ws_failures = 0, ws_timeouts = 0, ws_avg_latency = 0,
      ws_p50 = 0, ws_p95 = 0, ws_p99 = 0, ws_min_latency = 0, ws_max_latency = 0,
      ws_avg_first_token = 0, ws_tokens_per_sec = 0, ws_throughput = 0, ws_failure_rate = 0,
      ws_timeout_rate = 0, ws_total_tokens = 0\<rparr>"

definition percentile :: "pyfloat list \<Rightarrow> pyfloat \<Rightarrow> pyfloat" where
  "percentile sorted_vals pct =
     (if sorted_vals = [] then 0
      else sorted_vals ! percentile_index (pct / 100) (length sorted_vals))"

definition compute_window :: "pyfloat \<Rightarrow> request_record list \<Rightarrow> pyfloat \<Rightarrow> window_snapshot" where
  "compute_window now records window_start =
     (let windowed = filter (\<lambda>r. rr_timestamp r \<ge> window_start) records
      in if windowed = [] then empty_snapshot
         else
           let n = length windowed;
               successes = length (filter rr_success windowed);
               failures = length (filter (\<lambda>r. \<not> rr_success r \<and> \<not> rr_timeout r) windowed);
               timeouts = length (filter rr_timeout windowed);
               total_tokens = sum_list (map rr_tokens windowed);
               latencies = map rr_latency windowed;
               ftl = filter (\<lambda>x. x > 0) (map rr_first_token windowed);
               avg_lat = sum_list latencies / of_nat n;
               avg_ftl = (if ftl = [] then 0 else sum_list ftl / of_nat (length ftl));
               sorted_lat = sort latencies;
               elapsed = now - window_start;
               duration = max elapsed (Max (set latencies) / 1000)
           in \<lparr>ws_requests = int n, ws_successes = int successes, ws_failures = int failures,
               ws_timeouts = int timeouts,
               ws_avg_latency = py_round 2 avg_lat,
               ws_p50 = py_round 2 (percentile sorted_lat 50),
               ws_p95 = py_round 2 (percentile sorted_lat 95),
               ws_p99 = py_round 2 (percentile sorted_lat 99),
               ws_min_latency = py_round 2 (Min (set latencies)),
               ws_max_latency = py_round 2 (Max (set latencies)),
               ws_avg_first_token = py_round 2 avg_ftl,
               ws_tokens_per_sec = (if duration > 0 then py_round 2 (of_int total_tokens / duration) else 0),
               ws_throughput = (if duration > 0 then py_round 2 (of_nat n / duration) else 0),
               ws_failure_rate = py_round 4 (of_nat failures / of_nat n),
               ws_timeout_rate = py_round 4 (of_nat timeouts / of_nat n),
               ws_total_tokens = total_tokens\<rparr>)"

definition benchmark_record ::
  "pyfloat \<Rightarrow> pyfloat \<Rightarrow> pyfloat \<Rightarrow> int \<Rightarrow> bool \<Rightarrow> bool \<Rightarrow> string \<Rightarrow>
   request_record list \<Rightarrow> request_record list" where
  "benchmark_record now latency first_token tokens success timeout model records =
     push_bounded MAX_RECORDS records
       \<lparr>rr_timestamp = now, rr_latency = latency, rr_first_token = first_token,
        rr_tokens = tokens, rr_success = success, rr_timeout = timeout, rr_model = model\<rparr>"

definition snapshot_score :: "window_snapshot \<Rightarrow> pyfloat" where
  "snapshot_score s5 =
     (let lat = max 0 (100 - ws_avg_latency s5 / 10);
          reliability = (1 - ws_failure_rate s5 - ws_timeout_rate s5) * 100;
          throughput = min 100 (ws_tokens_per_sec s5 * 5)
      in py_round 2 (lat * (40 / 100) + reliability * (35 / 100) + throughput * (25 / 100)))"

definition get_aggregated_score :: "pyfloat \<Rightarrow> request_record list \<Rightarrow> pyfloat" where
  "get_aggregated_score now records =
     (let s5 = compute_window now records (now - 300)
      in if ws_requests s5 < 5
         then (let s1 = compute_window now records (now - 60)
               in if ws_requests s1 \<ge> 3 then snapshot_score s1 else 50)
         else snapshot_score s5)"

subsection \<open>The benchmark score is a percentage\<close>

text \<open>
  Failure and timeout rate are rounded separately, and the code subtracts both from 1. Rounding
  half to even keeps the sum at most 1: if both were rounded up, the two fractional parts
  would be exactly one half each, and then one of the two integer parts is even.
\<close>

lemma round_even_up: "round_even x = \<lfloor>x\<rfloor> + 1 \<Longrightarrow> 1 / 2 \<le> x - of_int \<lfloor>x\<rfloor>"
  by (auto simp: round_even_def Let_def split: if_splits)

lemma round_even_half:
  "x - of_int \<lfloor>x\<rfloor> = 1 / 2 \<Longrightarrow> round_even x = (if even \<lfloor>x\<rfloor> then \<lfloor>x\<rfloor> else \<lfloor>x\<rfloor> + 1)"
  by (simp add: round_even_def Let_def)

lemma round_even_add_le:
  assumes "x + y \<le> of_int N" "even N"
  shows "round_even x + round_even y \<le> N"
proof -
  let ?p = "x - of_int \<lfloor>x\<rfloor>" and ?q = "y - of_int \<lfloor>y\<rfloor>"
  have p: "0 \<le> ?p" "?p < 1" and q: "0 \<le> ?q" "?q < 1"
    by (simp_all, linarith+)
  have sum: "of_int (\<lfloor>x\<rfloor> + \<lfloor>y\<rfloor>) + ?p + ?q \<le> (of_int N :: rat)"
    using assms(1) by simp
  then have le: "\<lfloor>x\<rfloor> + \<lfloor>y\<rfloor> \<le> N"
  proof -
    have "(of_int (\<lfloor>x\<rfloor> + \<lfloor>y\<rfloor>) :: rat) \<le> of_int N" using sum p q by linarith
    then show ?thesis by (simp only: of_int_le_iff)
  qed
  show ?thesis
  proof (rule ccontr)
    assume "\<not> ?thesis"
    then have big: "N < round_even x + round_even y" by simp
    have "\<not> (\<lfloor>x\<rfloor> + \<lfloor>y\<rfloor> \<le> N - 2)"
      using big round_even_cases [of x] round_even_cases [of y] by linarith
    then have "\<lfloor>x\<rfloor> + \<lfloor>y\<rfloor> = N \<or> \<lfloor>x\<rfloor> + \<lfloor>y\<rfloor> = N - 1" using le by linarith
    then show False
    proof
      assume eq: "\<lfloor>x\<rfloor> + \<lfloor>y\<rfloor> = N"
      then have "?p + ?q \<le> 0" using sum unfolding eq by linarith
      then have "?p = 0" "?q = 0" using p q by linarith+
      then have "round_even x = \<lfloor>x\<rfloor>" "round_even y = \<lfloor>y\<rfloor>"
        using round_even_up [of x] round_even_up [of y] round_even_cases [of x] round_even_cases [of y]
        by fastforce+
      with eq big show False by simp
    next
      assume eq: "\<lfloor>x\<rfloor> + \<lfloor>y\<rfloor> = N - 1"
      then have up: "round_even x = \<lfloor>x\<rfloor> + 1" "round_even y = \<lfloor>y\<rfloor> + 1"
        using big round_even_cases [of x] round_even_cases [of y] by linarith+
      have "?p + ?q \<le> 1" using sum eq by simp
      then have "?p = 1 / 2" "?q = 1 / 2" using round_even_up [OF up(1)] round_even_up [OF up(2)] by linarith+
      then have "odd \<lfloor>x\<rfloor>" "odd \<lfloor>y\<rfloor>" using up round_even_half [of x] round_even_half [of y]
        by (auto split: if_splits)
      then have "even (\<lfloor>x\<rfloor> + \<lfloor>y\<rfloor>)" by simp
      with eq assms(2) show False by simp
    qed
  qed
qed

lemma py_round4_add_le:
  assumes "x + y \<le> 1"
  shows "py_round 4 x + py_round 4 y \<le> 1"
proof -
  have "x * 10 ^ 4 + y * 10 ^ 4 \<le> of_int 10000" using assms by simp
  then have "round_even (x * 10 ^ 4) + round_even (y * 10 ^ 4) \<le> 10000"
    by (rule round_even_add_le) simp
  then have "(of_int (round_even (x * 10 ^ 4) + round_even (y * 10 ^ 4)) :: rat) \<le> of_int 10000"
    by (simp only: of_int_le_iff)
  then show ?thesis by (simp add: py_round_def)
qed

definition snapshot_ok :: "window_snapshot \<Rightarrow> bool" where
  "snapshot_ok s \<longleftrightarrow> 0 \<le> ws_avg_latency s \<and> 0 \<le> ws_tokens_per_sec s \<and>
     0 \<le> ws_failure_rate s \<and> 0 \<le> ws_timeout_rate s \<and> ws_failure_rate s + ws_timeout_rate s \<le> 1"

lemma failures_timeouts_le:
  "length (filter (\<lambda>r. \<not> rr_success r \<and> \<not> rr_timeout r) rs) + length (filter rr_timeout rs) \<le> length rs"
  by (induction rs) auto

lemma compute_window_ok:
  assumes "list_all (\<lambda>r. 0 \<le> rr_latency r \<and> 0 \<le> rr_tokens r) records"
  shows "snapshot_ok (compute_window now records window_start)"
proof (cases "filter (\<lambda>r. rr_timestamp r \<ge> window_start) records = []")
  case True
  then show ?thesis by (simp add: compute_window_def empty_snapshot_def snapshot_ok_def)
next
  case False
  define w where "w = filter (\<lambda>r. rr_timestamp r \<ge> window_start) records"
  define f where "f = length (filter (\<lambda>r. \<not> rr_success r \<and> \<not> rr_timeout r) w)"
  define t where "t = length (filter rr_timeout w)"
  have n: "0 < length w" using False by (simp add: w_def)
  have "of_nat f / of_nat (length w) + of_nat t / of_nat (length w) \<le> (1 :: rat)"
    using failures_timeouts_le [of w] n
    by (simp add: f_def t_def add_divide_distrib [symmetric] divide_le_eq flip: of_nat_add)
  then have rates: "py_round 4 (of_nat f / of_nat (length w)) + py_round 4 (of_nat t / of_nat (length w)) \<le> 1"
    by (rule py_round4_add_le)
  have lat: "0 \<le> sum_list (map rr_latency w)"
    using assms by (intro sum_list_rat_nonneg) (auto simp: w_def list_all_iff)
  have tok: "0 \<le> sum_list (map rr_tokens w)"
    using assms by (intro sum_list_nonneg) (auto simp: w_def list_all_iff)
  show ?thesis
    using n rates lat tok
    by (simp add: compute_window_def Let_def w_def [symmetric] f_def [symmetric] t_def [symmetric]
        snapshot_ok_def py_round_nonneg)
qed

lemma snapshot_score_bounds:
  assumes "snapshot_ok s"
  shows "0 \<le> snapshot_score s \<and> snapshot_score s \<le> 100"
proof -
  define l where "l = max 0 (100 - ws_avg_latency s / 10)"
  define r where "r = (1 - ws_failure_rate s - ws_timeout_rate s) * 100"
  define t where "t = min 100 (ws_tokens_per_sec s * 5)"
  have b: "0 \<le> l" "l \<le> 100" "0 \<le> r" "r \<le> 100" "0 \<le> t" "t \<le> 100"
    using assms by (auto simp: l_def r_def t_def snapshot_ok_def)
  have s: "snapshot_score s = py_round 2 (l * (40 / 100) + r * (35 / 100) + t * (25 / 100))"
    unfolding snapshot_score_def l_def r_def t_def by (simp only: Let_def)
  have "0 \<le> l * (40 / 100) + r * (35 / 100) + t * (25 / 100)"
    "l * (40 / 100) + r * (35 / 100) + t * (25 / 100) \<le> of_int 100" using b by simp_all
  then show ?thesis unfolding s using py_round_nonneg py_round_le_of_int [of _ 100 2] by fastforce
qed

lemma aggregated_score_bounds:
  assumes "list_all (\<lambda>r. 0 \<le> rr_latency r \<and> 0 \<le> rr_tokens r) records"
  shows "0 \<le> get_aggregated_score now records \<and> get_aggregated_score now records \<le> 100"
  using snapshot_score_bounds [OF compute_window_ok [OF assms]]
  by (simp add: get_aggregated_score_def Let_def)

subsection \<open>The registry of benchmarks\<close>

type_synonym live_benchmark = "(string, request_record list) dict"

definition get_or_create :: "string \<Rightarrow> live_benchmark \<Rightarrow> request_record list \<times> live_benchmark" where
  "get_or_create name lb =
     (case dict_get lb name of
        Some rs \<Rightarrow> (rs, lb)
      | None \<Rightarrow> ([], dict_set name [] lb))"

definition live_record ::
  "pyfloat \<Rightarrow> string \<Rightarrow> pyfloat \<Rightarrow> pyfloat \<Rightarrow> int \<Rightarrow> bool \<Rightarrow> bool \<Rightarrow> string \<Rightarrow>
   live_benchmark \<Rightarrow> live_benchmark" where
  "live_record now provider latency first_token tokens success timeout model lb =
     (let (rs, lb1) = get_or_create provider lb
      in dict_set provider (benchmark_record now latency first_token tokens success timeout model rs) lb1)"

definition get_ranking :: "pyfloat \<Rightarrow> live_benchmark \<Rightarrow> (string \<times> pyfloat \<times> nat) list" where
  "get_ranking now lb =
     sort_desc (\<lambda>(name, score, cnt). score)
       (map (\<lambda>(name, rs). (name, get_aggregated_score now rs, length rs)) lb)"

definition get_fastest :: "pyfloat \<Rightarrow> live_benchmark \<Rightarrow> string option" where
  "get_fastest now lb = (case get_ranking now lb of [] \<Rightarrow> None | (name, score, cnt) # _ \<Rightarrow> Some name)"

definition live_reset :: "live_benchmark \<Rightarrow> live_benchmark" where
  "live_reset lb = map (\<lambda>(name, rs). (name, [])) lb"

lemma get_fastest_Some:
  assumes "get_fastest now lb = Some name"
  obtains rs where "(name, rs) \<in> set lb"
    "\<And>n rs'. (n, rs') \<in> set lb \<Longrightarrow> get_aggregated_score now rs' \<le> get_aggregated_score now rs"
proof -
  let ?f = "\<lambda>(name :: string, score :: pyfloat, cnt :: nat). score"
  let ?entries = "map (\<lambda>(name, rs). (name, get_aggregated_score now rs, length rs)) lb"
  obtain score cnt rest where r: "get_ranking now lb = (name, score, cnt) # rest"
    using assms by (auto simp: get_fastest_def split: list.splits)
  have "(name, score, cnt) \<in> set (get_ranking now lb)" by (simp add: r)
  then obtain rs where rs: "(name, rs) \<in> set lb" "score = get_aggregated_score now rs"
    by (auto simp: get_ranking_def)
  have "get_aggregated_score now rs' \<le> score" if "(n, rs') \<in> set lb" for n rs'
  proof -
    have "(n, get_aggregated_score now rs', length rs') \<in> set ?entries" using that by force
    from hd_sort_desc [OF this, of ?f] show ?thesis using r by (simp add: get_ranking_def)
  qed
  with rs show thesis using that by blast
qed

section \<open>Token accounting\<close>

type_synonym pricing = "pyfloat \<times> pyfloat"

definition PROVIDER_COST_PER_1K :: "(string, pricing) dict" where
  "PROVIDER_COST_PER_1K =
     [(''openai'', (1 / 100, 3 / 100)), (''anthropic'', (8 / 1000, 24 / 1000)),
      (''google'', (25 / 10000, 1 / 100)), (''mistral'', (2 / 1000, 6 / 1000)),
      (''groq'', (5 / 10000, 1 / 1000)), (''openrouter'', (1 / 1000, 3 / 1000)),
      (''ollama'', (0, 0))]"

definition MODEL_COST_OVERRIDES :: "(string, pricing) dict" where
  "MODEL_COST_OVERRIDES =
     [(''gpt-4o'', (1 / 100, 3 / 100)), (''gpt-4o-mini'', (25 / 10000, 75 / 10000)),
      (''claude-3-5-sonnet-20241022'', (3 / 1000, 15 / 1000)),
      (''claude-3-5-haiku-20241022'', (1 / 1000, 5 / 1000)),
      (''gemini-1.5-pro'', (125 / 100000, 5 / 1000)),
      (''gemini-1.5-flash'', (25 / 100000, 1 / 1000))]"

text \<open>\<open>model.split("/")[-1]\<close>: the part after the last slash.\<close>

definition strip_prefix :: "string \<Rightarrow> string" where
  "strip_prefix model = last (split_on (CHR ''/'') model)"

definition estimate_cost :: "string \<Rightarrow> string \<Rightarrow> int \<Rightarrow> int \<Rightarrow> int \<Rightarrow> pyfloat" where
  "estimate_cost provider model pt ct cache =
     (let (pp, cp) = (case dict_get MODEL_COST_OVERRIDES (strip_prefix model) of
                        Some p \<Rightarrow> p
                      | None \<Rightarrow> dict_get_or PROVIDER_COST_PER_1K provider (1 / 100, 3 / 100));
          effective_prompt = max 0 (of_int pt - of_int cache * (5 / 10));
          prompt_cost = (effective_prompt / 1000) * pp;
          completion_cost = (of_int ct / 1000) * cp
      in py_round 8 (prompt_cost + completion_cost))"

record cost_stats =
  cs_prompt :: int
  cs_completion :: int
  cs_cache :: int
  cs_reasoning :: int
  cs_total :: int
  cs_cost :: pyfloat
  cs_requests :: int

definition zero_cost_stats :: cost_stats where
  "zero_cost_stats = \<lparr>cs_prompt = 0, cs_completion = 0, cs_cache = 0, cs_reasoning = 0,
     cs_total = 0, cs_cost = 0, cs_requests = 0\<rparr>"

record accounting =
  ta_providers :: "(string, cost_stats) dict"
  ta_prompt :: int
  ta_completion :: int
  ta_cache :: int
  ta_reasoning :: int
  ta_total :: int
  ta_cost :: pyfloat

definition new_accounting :: accounting where
  "new_accounting = \<lparr>ta_providers = [], ta_prompt = 0, ta_completion = 0, ta_cache = 0,
     ta_reasoning = 0, ta_total = 0, ta_cost = 0\<rparr>"

definition add_usage :: "int \<Rightarrow> int \<Rightarrow> int \<Rightarrow> int \<Rightarrow> int \<Rightarrow> pyfloat \<Rightarrow> cost_stats \<Rightarrow> cost_stats" where
  "add_usage pt ct cache reason tokens cost ps =
     ps\<lparr>cs_prompt := cs_prompt ps + pt, cs_completion := cs_completion ps + ct,
        cs_cache := cs_cache ps + cache, cs_reasoning := cs_reasoning ps + reason,
        cs_total := cs_total ps + tokens, cs_cost := cs_cost ps + cost,
        cs_requests := cs_requests ps + 1\<rparr>"

definition record_usage ::
  "string \<Rightarrow> string \<Rightarrow> int \<Rightarrow> int \<Rightarrow> int \<Rightarrow> int \<Rightarrow> accounting \<Rightarrow> pyfloat \<times> accounting" where
  "record_usage provider model pt ct cache reason ta =
     (let tokens = pt + ct + cache + reason;
          cost = estimate_cost provider model pt ct cache;
          ps = dict_get_or (ta_providers ta) provider zero_cost_stats
      in (cost,
          ta\<lparr>ta_providers := dict_set provider (add_usage pt ct cache reason tokens cost ps) (ta_providers ta),
             ta_prompt := ta_prompt ta + pt, ta_completion := ta_completion ta + ct,
             ta_cache := ta_cache ta + cache, ta_reasoning := ta_reasoning ta + reason,
             ta_total := ta_total ta + tokens, ta_cost := ta_cost ta + cost\<rparr>))"

definition accounting_reset :: "accounting \<Rightarrow> accounting" where
  "accounting_reset ta = new_accounting"

lemma pricing_nonneg:
  "dict_get MODEL_COST_OVERRIDES k = Some (pp, cp) \<Longrightarrow> 0 \<le> pp \<and> 0 \<le> cp"
  "dict_get_or PROVIDER_COST_PER_1K k (1 / 100, 3 / 100) = (pp, cp) \<Longrightarrow> 0 \<le> pp \<and> 0 \<le> cp"
  by (auto simp: MODEL_COST_OVERRIDES_def PROVIDER_COST_PER_1K_def dict_get_or_def split: if_splits)

lemma estimate_cost_nonneg: "0 \<le> ct \<Longrightarrow> 0 \<le> estimate_cost provider model pt ct cache"
proof -
  assume ct: "0 \<le> ct"
  obtain pp cp where p: "(case dict_get MODEL_COST_OVERRIDES (strip_prefix model) of
      Some p \<Rightarrow> p | None \<Rightarrow> dict_get_or PROVIDER_COST_PER_1K provider (1 / 100, 3 / 100)) = (pp, cp)"
    by (meson surj_pair)
  then have "0 \<le> pp \<and> 0 \<le> cp"
    using pricing_nonneg by (auto split: option.splits)
  with ct p show ?thesis
    unfolding estimate_cost_def Let_def p by (auto intro!: py_round_nonneg add_nonneg_nonneg mult_nonneg_nonneg)
qed

text \<open>The totals are the sums of the per-provider statistics.\<close>

definition accounting_inv :: "accounting \<Rightarrow> bool" where
  "accounting_inv ta \<longleftrightarrow> dict_ok (ta_providers ta) \<and>
     ta_prompt ta = (\<Sum>p\<leftarrow>ta_providers ta. cs_prompt (snd p)) \<and>
     ta_completion ta = (\<Sum>p\<leftarrow>ta_providers ta. cs_completion (snd p)) \<and>
     ta_cache ta = (\<Sum>p\<leftarrow>ta_providers ta. cs_cache (snd p)) \<and>
     ta_reasoning ta = (\<Sum>p\<leftarrow>ta_providers ta. cs_reasoning (snd p)) \<and>
     ta_total ta = ta_prompt ta + ta_completion ta + ta_cache ta + ta_reasoning ta \<and>
     ta_total ta = (\<Sum>p\<leftarrow>ta_providers ta. cs_total (snd p)) \<and>
     ta_cost ta = (\<Sum>p\<leftarrow>ta_providers ta. cs_cost (snd p))"

lemma sum_dict_set:
  fixes f :: "'v \<Rightarrow> 'b::ab_group_add"
  assumes "dict_ok d"
  shows "(\<Sum>p\<leftarrow>dict_set k v d. f (snd p)) =
         (\<Sum>p\<leftarrow>d. f (snd p)) - (case dict_get d k of None \<Rightarrow> 0 | Some w \<Rightarrow> f w) + f v"
  using assms
proof (induction d)
  case (Cons p d)
  show ?case
  proof (cases "fst p = k")
    case True
    then show ?thesis using Cons.prems by (cases p) simp
  next
    case False
    have "dict_ok d" using Cons.prems by (simp add: dict_ok_def)
    with Cons.IH False show ?thesis by (cases p) (simp add: algebra_simps)
  qed
qed simp

lemma sum_dict_set_add:
  fixes f :: "'v \<Rightarrow> 'b::ab_group_add"
  assumes "dict_ok d" "f v = f (dict_get_or d k z) + x" "f z = 0"
  shows "(\<Sum>p\<leftarrow>dict_set k v d. f (snd p)) = (\<Sum>p\<leftarrow>d. f (snd p)) + x"
  using assms by (simp add: sum_dict_set dict_get_or_def split: option.splits)

lemma accounting_inv_record:
  assumes inv: "accounting_inv ta"
  shows "accounting_inv (snd (record_usage provider model pt ct cache reason ta))"
proof -
  let ?ps = "dict_get_or (ta_providers ta) provider zero_cost_stats"
  let ?total = "pt + ct + cache + reason" and ?cost = "estimate_cost provider model pt ct cache"
  let ?d = "dict_set provider (add_usage pt ct cache reason ?total ?cost ?ps) (ta_providers ta)"
  have ok: "dict_ok (ta_providers ta)" using inv by (simp add: accounting_inv_def)
  have "(\<Sum>p\<leftarrow>?d. cs_prompt (snd p)) = (\<Sum>p\<leftarrow>ta_providers ta. cs_prompt (snd p)) + pt"
    "(\<Sum>p\<leftarrow>?d. cs_completion (snd p)) = (\<Sum>p\<leftarrow>ta_providers ta. cs_completion (snd p)) + ct"
    "(\<Sum>p\<leftarrow>?d. cs_cache (snd p)) = (\<Sum>p\<leftarrow>ta_providers ta. cs_cache (snd p)) + cache"
    "(\<Sum>p\<leftarrow>?d. cs_reasoning (snd p)) = (\<Sum>p\<leftarrow>ta_providers ta. cs_reasoning (snd p)) + reason"
    "(\<Sum>p\<leftarrow>?d. cs_total (snd p)) = (\<Sum>p\<leftarrow>ta_providers ta. cs_total (snd p)) + ?total"
    "(\<Sum>p\<leftarrow>?d. cs_cost (snd p)) = (\<Sum>p\<leftarrow>ta_providers ta. cs_cost (snd p)) + ?cost"
    by (rule sum_dict_set_add [OF ok, where z = zero_cost_stats];
        simp add: add_usage_def zero_cost_stats_def)+
  with inv ok show ?thesis
    by (simp add: accounting_inv_def record_usage_def Let_def)
qed

lemma accounting_inv_new: "accounting_inv new_accounting"
  by (simp add: accounting_inv_def new_accounting_def)

section \<open>Properties\<close>

text \<open>
  The statistics of a provider after any sequence of recorded requests: the totals count
  the requests and the successes, the rolling window is the last hundred outcomes, success and
  failure rate are complementary and within \<open>0..1\<close>, and at most one of the two streak counters
  is non-zero.
\<close>

theorem metrics_after_run:
  "let m = run_metrics name now evs in
     metrics_inv m \<and> mt_total m = int (length evs) \<and>
     mt_successes m = int (count_true (map event_ok evs)) \<and>
     mt_request_history m = last_n 100 (map event_ok evs) \<and>
     success_rate m + failure_rate m = 1 \<and> 0 \<le> success_rate m \<and> success_rate m \<le> 1 \<and>
     p95_latency m \<le> p99_latency m"
  using metrics_rates [OF run_metrics_inv [of name now evs]] run_metrics_inv
    run_metrics_counts run_metrics_history [of name now evs]
  by (simp add: Let_def ROLLING_WINDOW_def p95_latency_def p99_latency_def latency_percentile_mono)

text \<open>
  Reputation lies between 0 and 95 for any success rate in \<open>0..1\<close> and non-negative uptime,
  and it is monotone: it never decreases when the success rate, the uptime or the success
  streak grows, nor when the latency, the cost or the failure streak shrinks. The upper end
  100 of the documented range is not reached, since the trend weight 0.05 is never added.
\<close>

theorem reputation_bounded_monotone:
  assumes "0 \<le> sr" "sr \<le> sr'" "sr' \<le> 1" "0 \<le> uptime" "uptime \<le> uptime'" "ewma' \<le> ewma"
    "cost' \<le> cost" "cs \<le> cs'" "cf' \<le> cf"
  shows "0 \<le> compute_reputation sr ewma cost uptime cs cf \<and>
         compute_reputation sr ewma cost uptime cs cf
           \<le> compute_reputation sr' ewma' cost' uptime' cs' cf' \<and>
         compute_reputation sr' ewma' cost' uptime' cs' cf' \<le> 95"
  using assms compute_reputation_mono compute_reputation_bounds [of sr uptime ewma cost cs cf]
    compute_reputation_bounds [of sr' uptime' ewma' cost' cs' cf']
  by simp

lemma reputation_bounded_monotone_witness:
  "compute_reputation (1 / 2) 100 0 3600 1 2 \<le> compute_reputation 1 50 0 7200 3 0"
  using reputation_bounded_monotone [of "1 / 2" 1 3600 7200 50 100 0 0 1 3 0 2] by simp

text \<open>
  The live benchmark score used for routing is a percentage: with non-negative recorded
  latencies and token counts it lies in \<open>0..100\<close>, although failure and timeout rates are
  rounded separately before both are subtracted from 1.
\<close>

theorem benchmark_score_bounds:
  "list_all (\<lambda>r. 0 \<le> rr_latency r \<and> 0 \<le> rr_tokens r) records \<Longrightarrow>
   0 \<le> get_aggregated_score now records \<and> get_aggregated_score now records \<le> 100"
  by (rule aggregated_score_bounds)

lemma benchmark_score_bounds_witness:
  "0 \<le> get_aggregated_score 10 [\<lparr>rr_timestamp = 5, rr_latency = 20, rr_first_token = 1,
     rr_tokens = 7, rr_success = False, rr_timeout = False, rr_model = ''m''\<rparr>]"
  using benchmark_score_bounds [of "[\<lparr>rr_timestamp = 5, rr_latency = 20, rr_first_token = 1,
     rr_tokens = 7, rr_success = False, rr_timeout = False, rr_model = ''m''\<rparr>]" 10] by simp

end
