(* ===== verification/Capability.thy ===== *)
theory Capability
  imports Reputation "HOL-Library.List_Lexorder" "HOL-Library.Char_ord"
begin

text \<open>
  The capability registry of \<^verbatim>\<open>app/capability_registry.py\<close>: entries keyed by
  \<open>provider::model\<close>, lookups with the fall-back to any provider that lists the model, and the
  candidate filter. The parsed YAML document is an argument; the file watcher thread is left
  out (it only calls \<open>reload\<close>).
\<close>

section \<open>Entries\<close>

record model_capability =
  mc_provider :: string
  mc_model :: string
  mc_context_window :: int
  mc_streaming :: bool
  mc_tools :: bool
  mc_vision :: bool
  mc_json_mode :: bool
  mc_embeddings :: bool
  mc_reasoning :: bool
  mc_thinking :: bool
  mc_image_generation :: bool
  mc_function_calling :: bool

definition capability_has :: "model_capability \<Rightarrow> string \<Rightarrow> bool" where
  "capability_has mc capability =
     (if capability = ''streaming'' then mc_streaming mc
      else if capability = ''tools'' then mc_tools mc
      else if capability = ''vision'' then mc_vision mc
      else if capability = ''json_mode'' then mc_json_mode mc
      else if capability = ''embeddings'' then mc_embeddings mc
      else if capability = ''reasoning'' then mc_reasoning mc
      else if capability = ''thinking'' then mc_thinking mc
      else if capability = ''image_generation'' then mc_image_generation mc
      else if capability = ''function_calling'' then mc_function_calling mc
      else False)"

type_synonym capability_registry = "(string, model_capability) dict"

definition registry_key :: "string \<Rightarrow> string \<Rightarrow> string" where
  "registry_key provider model = provider @ ''::'' @ model"

record raw_model =
  raw_provider :: "string option"
  raw_model_name :: "string option"
  raw_context_window :: "int option"
  raw_flags :: "(string, bool) dict"

definition raw_flag :: "raw_model \<Rightarrow> string \<Rightarrow> bool" where
  "raw_flag item f = dict_get_or (raw_flags item) (''supports_'' @ f) False"

definition load_entry :: "raw_model \<Rightarrow> capability_registry \<Rightarrow> capability_registry" where
  "load_entry item entries =
     (let prov = py_strip (case raw_provider item of None \<Rightarrow> '''' | Some p \<Rightarrow> p);
          mdl = py_strip (case raw_model_name item of None \<Rightarrow> '''' | Some m \<Rightarrow> m)
      in if prov = '''' \<or> mdl = '''' then entries
         else dict_set (registry_key prov mdl)
           \<lparr>mc_provider = prov, mc_model = mdl,
            mc_context_window = (case raw_context_window item of None \<Rightarrow> 4096 | Some w \<Rightarrow> w),
            mc_streaming = raw_flag item ''streaming'', mc_tools = raw_flag item ''tools'',
            mc_vision = raw_flag item ''vision'', mc_json_mode = raw_flag item ''json_mode'',
            mc_embeddings = raw_flag item ''embeddings'', mc_reasoning = raw_flag item ''reasoning'',
            mc_thinking = raw_flag item ''thinking'',
            mc_image_generation = raw_flag item ''image_generation'',
            mc_function_calling = raw_flag item ''function_calling''\<rparr> entries)"

definition registry_load :: "raw_model list option \<Rightarrow> capability_registry" where
  "registry_load file = (case file of None \<Rightarrow> [] | Some items \<Rightarrow> fold load_entry items [])"

text \<open>\<open>reload\<close>: a document that cannot be parsed (\<open>Inl\<close>) leaves the entries as they were.\<close>

definition registry_reload ::
  "string + raw_model list option \<Rightarrow> capability_registry \<Rightarrow> bool \<times> capability_registry" where
  "registry_reload doc entries =
     (case doc of Inl err \<Rightarrow> (False, entries) | Inr file \<Rightarrow> (True, registry_load file))"

section \<open>Lookups\<close>

definition registry_get :: "string \<Rightarrow> string \<Rightarrow> capability_registry \<Rightarrow> model_capability option" where
  "registry_get provider model entries =
     dict_get entries (registry_key provider (strip_prefix model))"

definition get_by_model :: "string \<Rightarrow> capability_registry \<Rightarrow> model_capability option" where
  "get_by_model model entries =
     List.find (\<lambda>cap. mc_model cap = strip_prefix model) (map snd entries)"

definition registry_lookup :: "string \<Rightarrow> string \<Rightarrow> capability_registry \<Rightarrow> model_capability option" where
  "registry_lookup provider model entries =
     (case registry_get provider model entries of
        None \<Rightarrow> get_by_model model entries
      | Some cap \<Rightarrow> Some cap)"

definition has_capability :: "string \<Rightarrow> string \<Rightarrow> string \<Rightarrow> capability_registry \<Rightarrow> bool" where
  "has_capability provider model capability entries =
     (case registry_lookup provider model entries of
        None \<Rightarrow> True
      | Some cap \<Rightarrow> capability_has cap capability)"

definition get_context_window :: "string \<Rightarrow> string \<Rightarrow> capability_registry \<Rightarrow> int option" where
  "get_context_window provider model entries =
     map_option mc_context_window (registry_lookup provider model entries)"

fun supports_all :: "string \<Rightarrow> string \<Rightarrow> string list \<Rightarrow> capability_registry \<Rightarrow> bool" where
  "supports_all provider model [] entries = True"
| "supports_all provider model (cap # caps) entries =
     (if \<not> has_capability provider model cap entries then False
      else supports_all provider model caps entries)"

definition filter_candidates ::
  "(string \<times> string) list \<Rightarrow> string list \<Rightarrow> capability_registry \<Rightarrow> (string \<times> string) list" where
  "filter_candidates candidates required entries =
     (if required = [] then candidates
      else filter (\<lambda>(p, m). supports_all p m required entries) candidates)"

definition get_providers :: "capability_registry \<Rightarrow> string list" where
  "get_providers entries = sort (remdups (map (mc_provider \<circ> snd) entries))"

definition get_models_by_provider :: "string \<Rightarrow> capability_registry \<Rightarrow> model_capability list" where
  "get_models_by_provider provider entries = filter (\<lambda>c. mc_provider c = provider) (map snd entries)"

section \<open>The registry's invariant and its lookups\<close>

definition registry_ok :: "capability_registry \<Rightarrow> bool" where
  "registry_ok entries \<longleftrightarrow> dict_ok entries \<and>
     (\<forall>(k, c) \<in> set entries. k = registry_key (mc_provider c) (mc_model c) \<and>
        mc_provider c \<noteq> '''' \<and> mc_model c \<noteq> '''')"

lemma registry_ok_load_entry: "registry_ok entries \<Longrightarrow> registry_ok (load_entry item entries)"
  by (auto simp: registry_ok_def load_entry_def Let_def in_dict_set split: if_splits)

lemma registry_ok_load: "registry_ok (registry_load file)"
proof -
  have "registry_ok (fold load_entry items entries)" if "registry_ok entries" for items entries
    using that by (induction items arbitrary: entries) (auto simp: registry_ok_load_entry)
  moreover have "registry_ok []" by (simp add: registry_ok_def)
  ultimately show ?thesis by (simp add: registry_load_def split: option.splits)
qed

lemma supports_all_iff:
  "supports_all provider model caps entries \<longleftrightarrow>
     (\<forall>c \<in> set caps. has_capability provider model c entries)"
  by (induction caps) auto

lemma filter_candidates_iff:
  "(p, m) \<in> set (filter_candidates cands required entries) \<longleftrightarrow>
     (p, m) \<in> set cands \<and> (\<forall>c \<in> set required. has_capability p m c entries)"
  by (auto simp: filter_candidates_def supports_all_iff)

lemma get_by_model_model: "get_by_model m entries = Some c \<Longrightarrow> mc_model c = strip_prefix m"
  by (auto simp: get_by_model_def find_Some_iff)

lemma strip_prefix_no_slash: "CHR ''/'' \<notin> set (strip_prefix model)"
  unfolding strip_prefix_def by (rule split_on_no_sep [OF last_in_set]) simp

lemma strip_prefix_idem [simp]: "strip_prefix (strip_prefix model) = strip_prefix model"
proof -
  have "split_on (CHR ''/'') (strip_prefix model) = [strip_prefix model]"
    by (rule split_on_no_sep_id) (rule strip_prefix_no_slash)
  then show ?thesis by (simp add: strip_prefix_def [of "strip_prefix model"])
qed

lemma strip_prefix_qualified:
  assumes "CHR ''/'' \<notin> set m"
  shows "strip_prefix (vendor @ ''/'' @ m) = m"
proof -
  have "last (split_on (CHR ''/'') (v @ CHR ''/'' # m)) = m" for v
  proof (induction v)
    case Nil
    then show ?case using assms by (simp add: split_on_no_sep_id)
  next
    case (Cons d v)
    obtain w ws where s: "split_on (CHR ''/'') (v @ CHR ''/'' # m) = w # ws"
      by (meson neq_Nil_conv split_on_not_Nil)
    have "ws \<noteq> []"
    proof
      assume "ws = []"
      then have "CHR ''/'' \<notin> set w" using s split_on_no_sep by (metis list.set_intros(1))
      moreover have "join_with ''/'' (split_on (CHR ''/'') (v @ CHR ''/'' # m)) = v @ CHR ''/'' # m"
        by (rule join_split)
      ultimately show False using s \<open>ws = []\<close> by simp
    qed
    with Cons s show ?case by auto
  qed
  then show ?thesis by (simp add: strip_prefix_def)
qed

lemma registry_lookup_model:
  assumes "registry_ok entries" "registry_lookup p m entries = Some c" "CHR '':'' \<notin> set (mc_provider c @ p)"
  shows "mc_model c = strip_prefix m"
proof (cases "registry_get p m entries")
  case None
  with assms(2) show ?thesis by (simp add: registry_lookup_def get_by_model_model)
next
  case (Some c')
  then have c': "c' = c" using assms(2) by (simp add: registry_lookup_def)
  have "(registry_key p (strip_prefix m), c) \<in> set entries"
    using Some c' by (auto simp: registry_get_def intro: dict_get_in)
  then have "registry_key p (strip_prefix m) = registry_key (mc_provider c) (mc_model c)"
    using assms(1) by (auto simp: registry_ok_def)
  then have "p @ CHR '':'' # CHR '':'' # strip_prefix m
      = mc_provider c @ CHR '':'' # CHR '':'' # mc_model c"
    by (simp add: registry_key_def)
  then have "split_on (CHR '':'') (p @ CHR '':'' # CHR '':'' # strip_prefix m)
      = split_on (CHR '':'') (mc_provider c @ CHR '':'' # CHR '':'' # mc_model c)" by simp
  moreover have "join_with '':'' (split_on (CHR '':'') x) = x" for x by (rule join_split)
  ultimately show ?thesis
    using assms(3) by (simp add: split_on_append) (metis join_split)
qed

end
