(* ===== verification/Engine.thy ===== *)
theory Engine
  imports Manager Capability
begin

text \<open>
  The adaptive routing engine of \<^verbatim>\<open>app/routing.py\<close>: the reputation snapshot, the
  multi-dimensional score of one candidate, and the ranking of a candidate list.

  \<open>float('inf')\<close> (time since an event that never happened) is \<open>None\<close>. The set of required
  capabilities is the list of its elements in iteration order. \<open>build_reputation\<close> registers
  the provider with the live benchmark when it is new, so the ranking returns that registry.
\<close>

section \<open>Modes, contexts, snapshots\<close>

datatype optimization_mode = QUALITY | BALANCED | CHEAPEST | FASTEST

record weights =
  w_latency :: pyfloat
  w_reliability :: pyfloat
  w_cost :: pyfloat
  w_config :: pyfloat
  w_preference :: pyfloat
  w_context :: pyfloat
  w_recency :: pyfloat

fun MODE_WEIGHTS :: "optimization_mode \<Rightarrow> weights" where
  "MODE_WEIGHTS QUALITY = \<lparr>w_latency = 20 / 100, w_reliability = 35 / 100, w_cost = 5 / 100,
     w_config = 10 / 100, w_preference = 10 / 100, w_context = 15 / 100, w_recency = 5 / 100\<rparr>"
| "MODE_WEIGHTS BALANCED = \<lparr>w_latency = 25 / 100, w_reliability = 25 / 100, w_cost = 15 / 100,
     w_config = 10 / 100, w_preference = 10 / 100, w_context = 10 / 100, w_recency = 5 / 100\<rparr>"
| "MODE_WEIGHTS CHEAPEST = \<lparr>w_latency = 10 / 100, w_reliability = 15 / 100, w_cost = 40 / 100,
     w_config = 10 / 100, w_preference = 10 / 100, w_context = 10 / 100, w_recency = 5 / 100\<rparr>"
| "MODE_WEIGHTS FASTEST = \<lparr>w_latency = 40 / 100, w_reliability = 20 / 100, w_cost = 5 / 100,
     w_config = 10 / 100, w_preference = 10 / 100, w_context = 10 / 100, w_recency = 5 / 100\<rparr>"

definition PERFECT_COST :: pyfloat where "PERFECT_COST = 4 / 100"

record routing_context =
  rc_task :: string
  rc_prompt_tokens :: int
  rc_mode :: optimization_mode
  rc_preference :: "string option"
  rc_retry_attempt :: int
  rc_required :: "string list"

record provider_reputation =
  rp_success_rate :: pyfloat
  rp_avg_latency :: pyfloat
  rp_ewma :: pyfloat
  rp_avg_cost :: pyfloat
  rp_consec_success :: int
  rp_consec_failure :: int
  rp_rolling_success :: pyfloat
  rp_rolling_failure :: pyfloat
  rp_recent_error :: pyfloat
  rp_total_requests :: int
  rp_uptime :: pyfloat
  rp_last_failure_ago :: "pyfloat option"
  rp_last_success_ago :: "pyfloat option"
  rp_reputation :: pyfloat
  rp_trend_delta :: pyfloat
  rp_multiplier :: pyfloat
  rp_benchmark :: pyfloat

definition default_reputation :: provider_reputation where
  "default_reputation =
     \<lparr>rp_success_rate = 0, rp_avg_latency = 0, rp_ewma = 0, rp_avg_cost = 0, rp_consec_success = 0,
      rp_consec_failure = 0, rp_rolling_success = 1, rp_rolling_failure = 0, rp_recent_error = 0,
      rp_total_requests = 0, rp_uptime = 0, rp_last_failure_ago = Some 0, rp_last_success_ago = Some 0,
      rp_reputation = 50, rp_trend_delta = 0, rp_multiplier = 1, rp_benchmark = 50\<rparr>"

definition build_reputation ::
  "provider_metrics \<Rightarrow> pyfloat \<Rightarrow> string option \<Rightarrow> live_benchmark \<Rightarrow> provider_reputation \<times> live_benchmark" where
  "build_reputation m now circuit lb =
     (let trend = compute_trend (mt_request_history m);
          rep_score = compute_reputation (success_rate m) (mt_ewma m) (avg_cost m)
            (uptime_seconds now m) (mt_consec_success m) (mt_consec_failures m);
          (bench, lb') = (if mt_name m = '''' then (50, lb)
                          else let (rs, lb1) = get_or_create (mt_name m) lb
                               in (get_aggregated_score now rs, lb1))
      in (\<lparr>rp_success_rate = success_rate m,
           rp_avg_latency = (case avg_latency m of None \<Rightarrow> 0 | Some l \<Rightarrow> l),
           rp_ewma = mt_ewma m,
           rp_avg_cost = avg_cost m,
           rp_consec_success = mt_consec_success m,
           rp_consec_failure = mt_consec_failures m,
           rp_rolling_success = rolling_success_rate m,
           rp_rolling_failure = rolling_failure_rate m,
           rp_recent_error = 1 - rolling_success_rate m,
           rp_total_requests = mt_total m,
           rp_uptime = uptime_seconds now m,
           rp_last_failure_ago = (if mt_last_failure_time m > 0 then Some (now - mt_last_failure_time m) else None),
           rp_last_success_ago = (if mt_last_success_time m > 0 then Some (now - mt_last_success_time m) else None),
           rp_reputation = rep_score,
           rp_trend_delta = td_delta trend,
           rp_multiplier = circuit_breaker_multiplier circuit,
           rp_benchmark = bench\<rparr>, lb'))"

section \<open>Scoring\<close>

definition get_model_context_window :: "string \<Rightarrow> string \<Rightarrow> capability_registry \<Rightarrow> int option" where
  "get_model_context_window model provider entries =
     (let model_key = strip_prefix model;
          by_model = map_option mc_context_window (get_by_model model_key entries)
      in if provider \<noteq> ''''
         then (case get_context_window provider model_key entries of
                 Some ctx \<Rightarrow> Some ctx
               | None \<Rightarrow> by_model)
         else by_model)"

definition get_model_cost :: "string \<Rightarrow> string \<Rightarrow> pyfloat" where
  "get_model_cost provider model =
     (let (pp, cp) = (case dict_get MODEL_COST_OVERRIDES (strip_prefix model) of
                        Some p \<Rightarrow> p
                      | None \<Rightarrow> dict_get_or PROVIDER_COST_PER_1K provider (1 / 100, 3 / 100))
      in pp + cp)"

definition context_score :: "int option \<Rightarrow> int \<Rightarrow> pyfloat" where
  "context_score ctx_window tokens =
     (case ctx_window of
        None \<Rightarrow> 50
      | Some w \<Rightarrow>
          (if w \<noteq> 0 \<and> tokens > w then - 5000
           else if w \<noteq> 0 then max 0 (100 - of_int tokens / of_int w * 100)
           else 50))"

definition missing_capabilities :: "string \<Rightarrow> string \<Rightarrow> string list \<Rightarrow> capability_registry \<Rightarrow> nat" where
  "missing_capabilities provider model required entries =
     length (filter (\<lambda>c. \<not> has_capability provider model c entries) required)"

definition raw_score ::
  "optimization_mode \<Rightarrow> string \<Rightarrow> string \<Rightarrow> provider_reputation \<Rightarrow> int \<Rightarrow> routing_context \<Rightarrow>
   capability_registry \<Rightarrow> pyfloat" where
  "raw_score mode provider model rep base_score ctx entries =
     (let w = MODE_WEIGHTS mode;
          lat = latency_score (rp_ewma rep);
          reliability = rp_rolling_success rep * 100;
          cost = get_model_cost provider model;
          cost_score = max 0 (100 - (cost / PERFECT_COST) * 100);
          config = of_int base_score;
          pref = (case rc_preference ctx of
                    None \<Rightarrow> 0
                  | Some u \<Rightarrow> (if u \<noteq> '''' \<and> py_lower u = py_lower provider then 100 else 0));
          ctx_score = context_score (get_model_context_window model '''' entries) (rc_prompt_tokens ctx);
          consec_bonus = min (of_int (rp_consec_success rep) * 5) 25;
          consec_penalty = min (of_int (rp_consec_failure rep) * 10) 100;
          recency = consec_bonus - consec_penalty;
          failure_penalty = rp_rolling_failure rep * (- 100);
          retry_penalty = of_int (rc_retry_attempt ctx) * (- 50);
          capability_penalty = - 50000 * of_nat (missing_capabilities provider model (rc_required ctx) entries)
      in lat * w_latency w + reliability * w_reliability w + cost_score * w_cost w
         + config * w_config w + pref * w_preference w + ctx_score * w_context w
         + recency * w_recency w + rp_reputation rep * (10 / 100) + rp_trend_delta rep
         + rp_benchmark rep * (5 / 100) + failure_penalty + retry_penalty + capability_penalty)"

definition score_provider ::
  "optimization_mode \<Rightarrow> string \<Rightarrow> string \<Rightarrow> provider_reputation \<Rightarrow> provider_status option \<Rightarrow> int \<Rightarrow>
   routing_context \<Rightarrow> capability_registry \<Rightarrow> pyfloat" where
  "score_provider mode provider model rep health base_score ctx entries =
     (if health \<noteq> None \<and> health \<noteq> Some HEALTHY then - 99999
      else raw_score mode provider model rep base_score ctx entries * rp_multiplier rep)"

section \<open>Ranking\<close>

fun state_name :: "breaker_state \<Rightarrow> string" where
  "state_name Closed = ''closed''"
| "state_name Open = ''open''"
| "state_name Half_Open = ''half-open''"

definition get_health_status :: "string \<Rightarrow> manager \<Rightarrow> provider_status option" where
  "get_health_status provider pm =
     map_option h_status (dict_get (pm_health pm) (if provider = '''' then provider else py_lower provider))"

definition score_candidate ::
  "optimization_mode \<Rightarrow> pyfloat \<Rightarrow> (string, provider_metrics) dict \<Rightarrow> manager \<Rightarrow> routing_context \<Rightarrow>
   capability_registry \<Rightarrow> string \<times> string \<Rightarrow> live_benchmark \<Rightarrow> (pyfloat \<times> string \<times> string) \<times> live_benchmark" where
  "score_candidate mode now metrics pm ctx entries cand lb =
     (let (provider, model) = cand;
          cb = get_circuit_state provider pm;
          (rep, lb') = (case dict_get metrics provider of
                          None \<Rightarrow> (default_reputation, lb)
                        | Some m \<Rightarrow> build_reputation m now (Some (state_name cb)) lb)
      in ((score_provider mode provider model rep (get_health_status provider pm) 0 ctx entries,
           provider, model), lb'))"

fun score_all ::
  "optimization_mode \<Rightarrow> pyfloat \<Rightarrow> (string, provider_metrics) dict \<Rightarrow> manager \<Rightarrow> routing_context \<Rightarrow>
   capability_registry \<Rightarrow> (string \<times> string) list \<Rightarrow> live_benchmark \<Rightarrow>
   (pyfloat \<times> string \<times> string) list \<times> live_benchmark" where
  "score_all mode now metrics pm ctx entries [] lb = ([], lb)"
| "score_all mode now metrics pm ctx entries (c # cs) lb =
     (let (s, lb1) = score_candidate mode now metrics pm ctx entries c lb;
          (ss, lb2) = score_all mode now metrics pm ctx entries cs lb1
      in (s # ss, lb2))"

definition rank_providers ::
  "optimization_mode \<Rightarrow> pyfloat \<Rightarrow> (string, provider_metrics) dict \<Rightarrow> manager \<Rightarrow> routing_context \<Rightarrow>
   capability_registry \<Rightarrow> (string \<times> string) list \<Rightarrow> live_benchmark \<Rightarrow>
   (pyfloat \<times> string \<times> string) list \<times> live_benchmark" where
  "rank_providers mode now metrics pm ctx entries candidates lb =
     (let (scored, lb') = score_all mode now metrics pm ctx entries candidates lb
      in (sort_desc fst scored, lb'))"

section \<open>The ranking is a stable descending sort of the candidates\<close>

lemma get_or_create_records [simp]:
  "fst (get_or_create n lb) = dict_get_or lb n []"
  "dict_get_or (snd (get_or_create n lb)) k [] = dict_get_or lb k []"
  by (auto simp: get_or_create_def dict_get_or_def split: option.splits)

text \<open>Registering empty benchmarks on the way does not change any score.\<close>

lemma build_reputation_cong:
  "(\<And>k. dict_get_or lb k [] = dict_get_or lb' k []) \<Longrightarrow>
   fst (build_reputation m now st lb) = fst (build_reputation m now st lb')"
  by (simp add: build_reputation_def Let_def case_prod_beta)

lemma build_reputation_lb:
  "dict_get_or (snd (build_reputation m now st lb)) k [] = dict_get_or lb k []"
  by (simp add: build_reputation_def Let_def case_prod_beta)

definition candidate_score ::
  "optimization_mode \<Rightarrow> pyfloat \<Rightarrow> (string, provider_metrics) dict \<Rightarrow> manager \<Rightarrow> routing_context \<Rightarrow>
   capability_registry \<Rightarrow> live_benchmark \<Rightarrow> string \<times> string \<Rightarrow> pyfloat" where
  "candidate_score mode now metrics pm ctx entries lb c =
     fst (fst (score_candidate mode now metrics pm ctx entries c lb))"

lemma score_candidate_pair:
  "snd (fst (score_candidate mode now metrics pm ctx entries c lb)) = c"
  by (simp add: score_candidate_def Let_def case_prod_beta)

lemma score_candidate_lb:
  "dict_get_or (snd (score_candidate mode now metrics pm ctx entries c lb)) k [] = dict_get_or lb k []"
  by (simp add: score_candidate_def Let_def case_prod_beta build_reputation_lb split: option.splits)

lemma candidate_score_cong:
  assumes "\<And>k. dict_get_or lb k [] = dict_get_or lb' k []"
  shows "candidate_score mode now metrics pm ctx entries lb c
       = candidate_score mode now metrics pm ctx entries lb' c"
  using build_reputation_cong [OF assms]
  by (simp add: candidate_score_def score_candidate_def Let_def case_prod_beta split: option.split)

lemma score_all_map:
  "fst (score_all mode now metrics pm ctx entries cs lb) =
     map (\<lambda>c. (candidate_score mode now metrics pm ctx entries lb c, c)) cs"
proof (induction cs arbitrary: lb)
  case (Cons c cs)
  have "candidate_score mode now metrics pm ctx entries
      (snd (score_candidate mode now metrics pm ctx entries c lb)) d
    = candidate_score mode now metrics pm ctx entries lb d" for d
    by (rule candidate_score_cong) (rule score_candidate_lb)
  then show ?case
    by (simp add: Let_def case_prod_beta Cons.IH prod_eq_iff score_candidate_pair)
      (simp add: candidate_score_def)
qed simp

lemma sort_desc_map: "sort_desc fst (map (\<lambda>c. (f c, c)) cs) = map (\<lambda>c. (f c, c)) (sort_desc f cs)"
proof -
  have ins: "insort_key (\<lambda>x. - fst x) (f c, c) (map (\<lambda>c. (f c, c)) xs) =
      map (\<lambda>c. (f c, c)) (insort_key (\<lambda>x. - f x) c xs)" for c xs
    by (induction xs) auto
  show ?thesis
    unfolding sort_desc_def sort_key_def by (induction cs) (simp_all add: ins)
qed

lemma rank_providers_sort:
  "map snd (fst (rank_providers mode now metrics pm ctx entries cs lb)) =
     sort_desc (candidate_score mode now metrics pm ctx entries lb) cs"
  by (simp add: rank_providers_def Let_def case_prod_beta score_all_map sort_desc_map comp_def)

section \<open>Score tiers\<close>

text \<open>A snapshot as \<open>build_reputation\<close> produces it.\<close>

definition reputation_ok :: "provider_reputation \<Rightarrow> bool" where
  "reputation_ok r \<longleftrightarrow>
     0 \<le> rp_rolling_success r \<and> rp_rolling_success r \<le> 1 \<and>
     rp_rolling_failure r = 1 - rp_rolling_success r \<and>
     0 \<le> rp_consec_success r \<and> 0 \<le> rp_consec_failure r \<and>
     0 \<le> rp_reputation r \<and> rp_reputation r \<le> 100 \<and>
     - 30 \<le> rp_trend_delta r \<and> rp_trend_delta r \<le> 15 \<and>
     0 \<le> rp_benchmark r \<and> rp_benchmark r \<le> 100 \<and>
     rp_multiplier r \<in> {0, 4 / 10, 1}"

lemma default_reputation_ok: "reputation_ok default_reputation"
  by (simp add: reputation_ok_def default_reputation_def)

lemma build_reputation_ok:
  assumes "metrics_inv m" "mt_start_time m \<le> now"
    and "list_all (\<lambda>r. 0 \<le> rr_latency r \<and> 0 \<le> rr_tokens r) (dict_get_or lb (mt_name m) [])"
  shows "reputation_ok (fst (build_reputation m now st lb))"
proof -
  have rep: "0 \<le> compute_reputation (success_rate m) (mt_ewma m) (avg_cost m)
      (uptime_seconds now m) (mt_consec_success m) (mt_consec_failures m) \<and>
    compute_reputation (success_rate m) (mt_ewma m) (avg_cost m)
      (uptime_seconds now m) (mt_consec_success m) (mt_consec_failures m) \<le> 95"
    using assms(2) metrics_rates [OF assms(1)]
    by (intro compute_reputation_bounds) (simp_all add: uptime_seconds_def)
  show ?thesis
    using rep assms(1) rolling_rates [of m] compute_trend_bounds [of "mt_request_history m"]
      aggregated_score_bounds [OF assms(3)] circuit_breaker_multiplier_range [of st]
    by (auto simp: reputation_ok_def build_reputation_def Let_def case_prod_beta
        rolling_failure_rate_def metrics_inv_def)
qed

lemma mode_weights_sum:
  "w_latency (MODE_WEIGHTS m) + w_reliability (MODE_WEIGHTS m) + w_cost (MODE_WEIGHTS m) +
   w_config (MODE_WEIGHTS m) + w_preference (MODE_WEIGHTS m) + w_context (MODE_WEIGHTS m) +
   w_recency (MODE_WEIGHTS m) = 1"
  by (cases m) simp_all

lemma mode_weights_bounds:
  "0 \<le> w_latency (MODE_WEIGHTS m)" "0 \<le> w_reliability (MODE_WEIGHTS m)" "0 \<le> w_cost (MODE_WEIGHTS m)"
  "0 \<le> w_preference (MODE_WEIGHTS m)" "10 / 100 \<le> w_context (MODE_WEIGHTS m)"
  "w_config (MODE_WEIGHTS m) = 10 / 100" "w_recency (MODE_WEIGHTS m) = 5 / 100"
  by (cases m; simp)+

text \<open>The seven weighted dimensions of the score, with each bounded part named.\<close>

lemma weighted_sum_bounds:
  fixes l r c p :: pyfloat and mode :: optimization_mode
  assumes "0 \<le> l" "l \<le> 100" "0 \<le> r" "r \<le> 100" "0 \<le> c" "c \<le> 100" "0 \<le> p" "p \<le> 100"
  defines "w \<equiv> MODE_WEIGHTS mode"
  shows "0 \<le> l * w_latency w + r * w_reliability w + c * w_cost w + p * w_preference w"
    "l * w_latency w + r * w_reliability w + c * w_cost w + p * w_preference w
       \<le> 100 * (w_latency w + w_reliability w + w_cost w + w_preference w)"
proof -
  have "x * y \<le> 100 * y" if "x \<le> 100" "0 \<le> y" for x y :: pyfloat
    using that by (rule mult_right_mono)
  note le = this
  show "0 \<le> l * w_latency w + r * w_reliability w + c * w_cost w + p * w_preference w"
    using assms(1,3,5,7) mode_weights_bounds [of mode] by (simp add: w_def)
  show "l * w_latency w + r * w_reliability w + c * w_cost w + p * w_preference w
       \<le> 100 * (w_latency w + w_reliability w + w_cost w + w_preference w)"
    unfolding distrib_left w_def
    by (intro add_mono le assms(2,4,6,8) mode_weights_bounds)
qed

lemma cost_score_bounds:
  "0 \<le> max 0 (100 - (get_model_cost p m / PERFECT_COST) * 100)"
  "max 0 (100 - (get_model_cost p m / PERFECT_COST) * 100) \<le> 100"
proof -
  obtain pp cp where "(case dict_get MODEL_COST_OVERRIDES (strip_prefix m) of
      Some p \<Rightarrow> p | None \<Rightarrow> dict_get_or PROVIDER_COST_PER_1K p (1 / 100, 3 / 100)) = (pp, cp)"
    by (meson surj_pair)
  then have "0 \<le> get_model_cost p m"
    unfolding get_model_cost_def using pricing_nonneg by (auto simp: Let_def split: option.splits)
  then show "max 0 (100 - (get_model_cost p m / PERFECT_COST) * 100) \<le> 100"
    by (simp add: PERFECT_COST_def)
qed simp

lemma raw_score_decompose:
  assumes "reputation_ok rep"
  obtains base where
    "raw_score mode p m rep 0 ctx entries =
       base + context_score (get_model_context_window m '''' entries) (rc_prompt_tokens ctx)
                * w_context (MODE_WEIGHTS mode)
       + of_int (rc_retry_attempt ctx) * (- 50)
       - 50000 * of_nat (missing_capabilities p m (rc_required ctx) entries)"
    "- 135 \<le> base" "base \<le> 132"
proof -
  define w where "w = MODE_WEIGHTS mode"
  define cs where "cs = max 0 (100 - (get_model_cost p m / PERFECT_COST) * 100)"
  define pref :: rat where "pref = (case rc_preference ctx of None \<Rightarrow> 0
    | Some u \<Rightarrow> (if u \<noteq> '''' \<and> py_lower u = py_lower p then 100 else 0))"
  define rec :: rat where "rec = min (of_int (rp_consec_success rep) * 5) 25
    - min (of_int (rp_consec_failure rep) * 10) 100"
  define main where "main = latency_score (rp_ewma rep) * w_latency w
    + rp_rolling_success rep * 100 * w_reliability w + cs * w_cost w + pref * w_preference w"
  define base where "base = main + rec * w_recency w + rp_reputation rep * (10 / 100)
    + rp_trend_delta rep + rp_benchmark rep * (5 / 100) + rp_rolling_failure rep * (- 100)"
  have pb: "0 \<le> pref" "pref \<le> 100" by (auto simp: pref_def split: option.splits)
  have mb: "0 \<le> main" "main \<le> 100 * (w_latency w + w_reliability w + w_cost w + w_preference w)"
    using weighted_sum_bounds [of "latency_score (rp_ewma rep)" "rp_rolling_success rep * 100" cs pref mode]
      latency_score_bounds [of "rp_ewma rep"] assms cost_score_bounds [of p m] pb
    by (simp_all add: main_def w_def cs_def reputation_ok_def)
  have "w_latency w + w_reliability w + w_cost w + w_preference w \<le> 85 / 100"
    using mode_weights_sum [of mode] mode_weights_bounds [of mode] by (simp add: w_def)
  then have "100 * (w_latency w + w_reliability w + w_cost w + w_preference w) \<le> 85" by simp
  with mb(2) have mb': "main \<le> 85" by (rule order_trans)
  have rb: "- 100 \<le> rec" "rec \<le> 25"
    using assms by (auto simp: rec_def reputation_ok_def)
  have rec: "rec * w_recency w = rec / 20"
    unfolding w_def mode_weights_bounds by simp
  have ok: "0 \<le> rp_rolling_success rep" "rp_rolling_success rep \<le> 1"
    "rp_rolling_failure rep = 1 - rp_rolling_success rep" "0 \<le> rp_reputation rep"
    "rp_reputation rep \<le> 100" "- 30 \<le> rp_trend_delta rep" "rp_trend_delta rep \<le> 15"
    "0 \<le> rp_benchmark rep" "rp_benchmark rep \<le> 100"
    using assms by (simp_all add: reputation_ok_def)
  have b: "- 135 \<le> base" "base \<le> 132"
    unfolding base_def rec ok(3) using mb(1) mb' rb ok by (simp_all add: field_simps)
  have eq: "raw_score mode p m rep 0 ctx entries =
       base + context_score (get_model_context_window m '''' entries) (rc_prompt_tokens ctx)
                * w_context (MODE_WEIGHTS mode)
       + of_int (rc_retry_attempt ctx) * (- 50)
       - 50000 * of_nat (missing_capabilities p m (rc_required ctx) entries)"
    unfolding raw_score_def Let_def base_def main_def w_def cs_def pref_def rec_def
    by (simp add: algebra_simps)
  show thesis by (rule that [OF eq b])
qed

text \<open>A candidate is suitable when no required capability is missing and the prompt fits the
  known context window of the model.\<close>

definition fits_context :: "int option \<Rightarrow> int \<Rightarrow> bool" where
  "fits_context win tokens \<longleftrightarrow> (case win of None \<Rightarrow> True | Some w \<Rightarrow> w = 0 \<or> tokens \<le> w)"

definition suitable :: "string \<Rightarrow> string \<Rightarrow> routing_context \<Rightarrow> capability_registry \<Rightarrow> bool" where
  "suitable p m ctx entries \<longleftrightarrow>
     missing_capabilities p m (rc_required ctx) entries = 0 \<and>
     fits_context (get_model_context_window m '''' entries) (rc_prompt_tokens ctx)"

lemma context_score_overflow: "\<not> fits_context win tokens \<Longrightarrow> context_score win tokens = - 5000"
  by (auto simp: fits_context_def context_score_def split: option.splits)

lemma context_score_fits:
  assumes "fits_context win tokens" "0 \<le> tokens"
  shows "0 \<le> context_score win tokens \<and> context_score win tokens \<le> 100"
  using assms by (auto simp: fits_context_def context_score_def split: option.splits)

lemma mode_context_weight: "w_context (MODE_WEIGHTS mode) \<in> {10 / 100, 15 / 100}"
  by (cases mode) simp_all

lemma raw_score_suitable:
  assumes "reputation_ok rep" "suitable p m ctx entries" "0 \<le> rc_prompt_tokens ctx" "rc_retry_attempt ctx = 0"
  shows "- 135 \<le> raw_score mode p m rep 0 ctx entries"
proof -
  let ?c = "context_score (get_model_context_window m '''' entries) (rc_prompt_tokens ctx)"
  have c: "0 \<le> ?c * w_context (MODE_WEIGHTS mode)"
    using context_score_fits assms(2,3) mode_context_weight [of mode]
    by (intro mult_nonneg_nonneg) (auto simp: suitable_def)
  have m: "missing_capabilities p m (rc_required ctx) entries = 0"
    using assms(2) by (simp add: suitable_def)
  obtain base where "raw_score mode p m rep 0 ctx entries = base + ?c * w_context (MODE_WEIGHTS mode)"
    "- 135 \<le> base"
    using raw_score_decompose [OF assms(1), of mode p m ctx entries] assms(4) m by auto
  with c show ?thesis by linarith
qed

lemma raw_score_unsuitable:
  assumes "reputation_ok rep" "\<not> suitable p m ctx entries" "0 \<le> rc_prompt_tokens ctx" "rc_retry_attempt ctx = 0"
  shows "raw_score mode p m rep 0 ctx entries \<le> - 368"
proof -
  let ?w = "w_context (MODE_WEIGHTS mode)"
  let ?win = "get_model_context_window m '''' entries"
  let ?c = "context_score ?win (rc_prompt_tokens ctx) * ?w"
  let ?miss = "of_nat (missing_capabilities p m (rc_required ctx) entries) :: rat"
  have low: "?c - 50000 * ?miss \<le> - 500"
  proof (cases "fits_context ?win (rc_prompt_tokens ctx)")
    case True
    have "?c \<le> 100 * (15 / 100)"
      using context_score_fits [OF True assms(3)] mode_context_weight [of mode] by (intro mult_mono) auto
    moreover have "1 \<le> ?miss" using True assms(2) by (simp add: suitable_def)
    ultimately show ?thesis by simp
  next
    case False
    then have "?c \<le> - 500"
      using mode_context_weight [of mode] by (auto simp: context_score_overflow)
    moreover have "0 \<le> ?miss" by simp
    ultimately show ?thesis by linarith
  qed
  obtain base where "raw_score mode p m rep 0 ctx entries = base + ?c - 50000 * ?miss" "base \<le> 132"
    using raw_score_decompose [OF assms(1), of mode p m ctx entries] assms(4) by auto
  with low show ?thesis by linarith
qed

lemma scaled_bounds:
  fixes x k :: pyfloat
  assumes "k \<in> {4 / 10, 1}"
  shows "- 135 \<le> x \<Longrightarrow> - 135 \<le> x * k" "x \<le> - 368 \<Longrightarrow> x * k < - 135"
proof -
  from assms consider "k = 2 / 5" | "k = 1" by auto
  note cases = this
  show "- 135 \<le> x \<Longrightarrow> - 135 \<le> x * k" by (rule cases; hypsubst) simp_all
  show "x \<le> - 368 \<Longrightarrow> x * k < - 135" by (rule cases; hypsubst) simp_all
qed

section \<open>Properties\<close>

text \<open>
  C3. Ranking: the result is a permutation of the candidates, in descending order of score, with
  equal scores in the order of the candidate list (\<open>sort_desc\<close> is the stable sort); each score
  is that of the candidate on its own, whatever was scored before it.
\<close>

theorem rank_providers_correct:
  "map snd (fst (rank_providers mode now metrics pm ctx entries cs lb)) =
     sort_desc (candidate_score mode now metrics pm ctx entries lb) cs \<and>
   sorted_wrt (\<lambda>a b. fst b \<le> fst a) (fst (rank_providers mode now metrics pm ctx entries cs lb)) \<and>
   mset (map snd (fst (rank_providers mode now metrics pm ctx entries cs lb))) = mset cs"
proof -
  have "sorted_wrt (\<lambda>a b. fst b \<le> fst a) (fst (rank_providers mode now metrics pm ctx entries cs lb))"
    using sorted_sort_desc [of fst "fst (score_all mode now metrics pm ctx entries cs lb)"]
    by (simp add: rank_providers_def Let_def case_prod_beta)
  then show ?thesis
    using rank_providers_sort [of mode now metrics pm ctx entries cs lb] by simp
qed

text \<open>
  Score tiers: among healthy candidates whose circuit is not open, on the first attempt, a
  candidate that lacks a required capability or whose context window is too small for the
  prompt scores strictly below every candidate that has neither defect, in every
  optimization mode and whatever their statistics are.
\<close>

theorem suitable_candidates_first:
  assumes "reputation_ok rep" "reputation_ok rep'" "rp_multiplier rep \<noteq> 0" "rp_multiplier rep' \<noteq> 0"
    and "h \<in> {None, Some HEALTHY}" "h' \<in> {None, Some HEALTHY}"
    and "0 \<le> rc_prompt_tokens ctx" "rc_retry_attempt ctx = 0"
    and "suitable p m ctx entries" "\<not> suitable p' m' ctx entries"
  shows "score_provider mode p' m' rep' h' 0 ctx entries < score_provider mode p m rep h 0 ctx entries"
proof -
  have mult: "rp_multiplier rep \<in> {4 / 10, 1}" "rp_multiplier rep' \<in> {4 / 10, 1}"
    using assms(1-4) by (auto simp: reputation_ok_def)
  have "- 135 \<le> raw_score mode p m rep 0 ctx entries"
    using assms by (intro raw_score_suitable) auto
  then have "- 135 \<le> raw_score mode p m rep 0 ctx entries * rp_multiplier rep"
    by (rule scaled_bounds(1) [OF mult(1)])
  moreover have "raw_score mode p' m' rep' 0 ctx entries \<le> - 368"
    using assms by (intro raw_score_unsuitable) auto
  then have "raw_score mode p' m' rep' 0 ctx entries * rp_multiplier rep' < - 135"
    by (rule scaled_bounds(2) [OF mult(2)])
  ultimately show ?thesis using assms(5,6) by (auto simp: score_provider_def)
qed

definition sample_context :: routing_context where
  "sample_context = \<lparr>rc_task = ''chat'', rc_prompt_tokens = 5000, rc_mode = BALANCED,
     rc_preference = None, rc_retry_attempt = 0, rc_required = [''vision'']\<rparr>"

definition sample_registry :: capability_registry where
  "sample_registry = fold load_entry
     [\<lparr>raw_provider = Some ''groq'', raw_model_name = Some ''llama'', raw_context_window = Some 8192,
       raw_flags = []\<rparr>] []"

lemma sample_unsuitable: "\<not> suitable ''groq'' ''llama'' sample_context sample_registry"
  by (simp add: suitable_def sample_context_def sample_registry_def missing_capabilities_def
      has_capability_def registry_lookup_def registry_get_def load_entry_def py_strip_def is_space_def
      registry_key_def strip_prefix_def raw_flag_def dict_get_or_def capability_has_def Let_def)

lemma sample_suitable: "suitable ''openai'' ''gpt-4o'' sample_context sample_registry"
  by (simp add: suitable_def sample_context_def sample_registry_def missing_capabilities_def
      has_capability_def registry_lookup_def registry_get_def load_entry_def py_strip_def is_space_def
      registry_key_def strip_prefix_def get_by_model_def get_model_context_window_def fits_context_def
      Let_def)

lemma suitable_candidates_first_witness:
  "score_provider BALANCED ''groq'' ''llama'' default_reputation None 0 sample_context sample_registry
     < score_provider BALANCED ''openai'' ''gpt-4o'' default_reputation None 0 sample_context sample_registry"
  using suitable_candidates_first [OF default_reputation_ok default_reputation_ok, of None None
      sample_context "''openai''" "''gpt-4o''" sample_registry "''groq''" "''llama''" BALANCED]
    sample_suitable sample_unsuitable
  by (simp add: default_reputation_def sample_context_def)

text \<open>
  An open circuit multiplies the score by zero instead of excluding the candidate, so a
  healthy-looking provider with an open circuit scores exactly 0, whatever its other data are,
  and is ranked above a provider with a closed circuit whose score is negative.
\<close>

theorem open_circuit_can_outrank:
  "score_provider mode p m (rep\<lparr>rp_multiplier := circuit_breaker_multiplier (Some (state_name Open))\<rparr>)
     (Some HEALTHY) b ctx entries = 0 \<and>
   (\<exists>rep'. reputation_ok rep' \<and> rp_multiplier rep' = circuit_breaker_multiplier (Some (state_name Closed)) \<and>
      score_provider mode ''custom'' ''m'' rep' (Some HEALTHY) 0 (sample_context\<lparr>rc_required := []\<rparr>) [] < 0)"
proof (intro conjI exI)
  let ?rep = "default_reputation\<lparr>rp_rolling_success := 0, rp_rolling_failure := 1, rp_ewma := 500,
    rp_reputation := 0, rp_trend_delta := - 30, rp_benchmark := 0\<rparr>"
  show "score_provider mode p m (rep\<lparr>rp_multiplier := circuit_breaker_multiplier (Some (state_name Open))\<rparr>)
     (Some HEALTHY) b ctx entries = 0"
    by (simp add: score_provider_def circuit_breaker_multiplier_def py_lower_def lower_char_def)
  show "reputation_ok ?rep" by (simp add: reputation_ok_def default_reputation_def)
  show "rp_multiplier ?rep = circuit_breaker_multiplier (Some (state_name Closed))"
    by (simp add: default_reputation_def circuit_breaker_multiplier_def py_lower_def lower_char_def)
  show "score_provider mode ''custom'' ''m'' ?rep (Some HEALTHY) 0 (sample_context\<lparr>rc_required := []\<rparr>) [] < 0"
    by (cases mode) (simp_all add: score_provider_def raw_score_def Let_def latency_score_def
        default_reputation_def sample_context_def context_score_def get_model_context_window_def
        get_by_model_def strip_prefix_def missing_capabilities_def get_model_cost_def
        MODEL_COST_OVERRIDES_def PROVIDER_COST_PER_1K_def dict_get_or_def PERFECT_COST_def)
qed

end
