(* ===== verification/Traffic.thy ===== *)
theory Traffic
  imports Capability
begin

text \<open>
  Adaptive traffic distribution, \<^verbatim>\<open>app/traffic_distribution.py\<close>: scores to weights with the
  starvation floor and the canary cap, the weighted random pick, and selection with its
  cached weights.

  The objects the code mutates in place are the elements of one list, so a pass over them is
  a map; the canary cap, whose step on one element changes the others, is a fold over the
  positions. The results of \<open>random.random()\<close> and of the index drawn by \<open>random.choice\<close> are
  arguments. The rebalancing thread is left out: it calls \<open>rebuild_weights\<close> like
  \<open>force_rebalance\<close>.
\<close>

section \<open>Configuration and weights\<close>

definition MIN_WEIGHT :: pyfloat where "MIN_WEIGHT = 1 / 100"

record canary_config =
  cn_provider :: string
  cn_model :: string
  cn_max_share :: pyfloat

record ab_test =
  ab_name :: string
  ab_control :: "string \<times> string"
  ab_variant :: "string \<times> string"
  ab_split :: pyfloat

record shadow_config =
  sh_provider :: string
  sh_model :: string

record traffic_config =
  tc_enabled :: bool
  tc_interval :: pyfloat
  tc_canary :: "canary_config option"
  tc_ab_tests :: "ab_test list"
  tc_shadow :: "shadow_config option"

record provider_weight =
  pw_provider :: string
  pw_model :: string
  pw_score :: pyfloat
  pw_weight :: pyfloat
  pw_canary :: bool
  pw_shadow :: bool
  pw_assigned :: int

definition is_canary :: "traffic_config \<Rightarrow> string \<Rightarrow> string \<Rightarrow> bool" where
  "is_canary cfg p m =
     (case tc_canary cfg of None \<Rightarrow> False | Some c \<Rightarrow> cn_provider c = p \<and> cn_model c = m)"

definition is_shadow :: "traffic_config \<Rightarrow> string \<Rightarrow> string \<Rightarrow> bool" where
  "is_shadow cfg p m =
     (case tc_shadow cfg of None \<Rightarrow> False | Some s \<Rightarrow> sh_provider s = p \<and> sh_model s = m)"

definition wsum :: "provider_weight list \<Rightarrow> pyfloat" where
  "wsum ws = sum_list (map pw_weight ws)"

definition normalize :: "provider_weight list \<Rightarrow> provider_weight list" where
  "normalize ws =
     (if wsum ws > 0 then map (\<lambda>w. w\<lparr>pw_weight := pw_weight w / wsum ws\<rparr>) ws else ws)"

definition raise_floor :: "provider_weight \<Rightarrow> provider_weight" where
  "raise_floor w =
     (if \<not> pw_shadow w \<and> pw_weight w < MIN_WEIGHT then w\<lparr>pw_weight := MIN_WEIGHT\<rparr> else w)"

definition floor_deficit :: "provider_weight list \<Rightarrow> pyfloat" where
  "floor_deficit ws =
     sum_list (map (\<lambda>w. MIN_WEIGHT - pw_weight w)
       (filter (\<lambda>w. \<not> pw_shadow w \<and> pw_weight w < MIN_WEIGHT) ws))"

definition above_floor :: "provider_weight \<Rightarrow> bool" where
  "above_floor w \<longleftrightarrow> \<not> pw_shadow w \<and> pw_weight w > MIN_WEIGHT"

definition floor_excess :: "provider_weight list \<Rightarrow> pyfloat" where
  "floor_excess ws = sum_list (map (\<lambda>w. pw_weight w - MIN_WEIGHT) (filter above_floor ws))"

definition reduce_above :: "pyfloat \<Rightarrow> provider_weight \<Rightarrow> provider_weight" where
  "reduce_above ratio w =
     (if above_floor w then w\<lparr>pw_weight := pw_weight w - (pw_weight w - MIN_WEIGHT) * ratio\<rparr> else w)"

definition floor_pass :: "provider_weight list \<Rightarrow> provider_weight list" where
  "floor_pass v =
     (let deficit = floor_deficit v; raised = map raise_floor v
      in if deficit > 0 \<and> filter above_floor raised \<noteq> []
         then (let excess = floor_excess raised;
                   ratio = (if excess > 0 then min 1 (deficit / excess) else 0)
               in map (reduce_above ratio) raised)
         else raised)"

definition apply_starvation_floor :: "provider_weight list \<Rightarrow> provider_weight list" where
  "apply_starvation_floor ws =
     (if wsum ws \<le> 0
      then (if filter (\<lambda>w. \<not> pw_shadow w) ws \<noteq> []
            then map (\<lambda>w. w\<lparr>pw_weight := 1 / of_nat (length ws)\<rparr>) ws else ws)
      else normalize (floor_pass (map (\<lambda>w. w\<lparr>pw_weight := pw_weight w / wsum ws\<rparr>) ws)))"

definition cap_eligible :: "provider_weight \<Rightarrow> bool" where
  "cap_eligible w \<longleftrightarrow> \<not> pw_canary w \<and> \<not> pw_shadow w"

definition cap_at :: "pyfloat \<Rightarrow> nat \<Rightarrow> provider_weight list \<Rightarrow> provider_weight list" where
  "cap_at share i ws =
     (let pw = ws ! i
      in if pw_canary pw \<and> pw_weight pw > share
         then (let excess = pw_weight pw - share;
                   ws1 = ws[i := pw\<lparr>pw_weight := share\<rparr>];
                   n = length (filter cap_eligible ws1)
               in if n > 0
                  then map (\<lambda>w. if cap_eligible w
                                 then w\<lparr>pw_weight := pw_weight w + excess / of_nat n\<rparr> else w) ws1
                  else ws1)
         else ws)"

definition apply_canary_cap :: "traffic_config \<Rightarrow> provider_weight list \<Rightarrow> provider_weight list" where
  "apply_canary_cap cfg ws =
     (case tc_canary cfg of
        None \<Rightarrow> ws
      | Some c \<Rightarrow> fold (cap_at (cn_max_share c)) [0..<length ws] ws)"

definition initial_weights :: "traffic_config \<Rightarrow> (pyfloat \<times> string \<times> string) list \<Rightarrow> provider_weight list" where
  "initial_weights cfg scored =
     (let scores = map fst scored; min_s = Min (set scores); max_s = Max (set scores);
          score_range = max_s - min_s
      in map (\<lambda>(s, p, m).
           \<lparr>pw_provider = p, pw_model = m, pw_score = s,
            pw_weight = (if score_range = 0 then 1 else (s - min_s) / score_range),
            pw_canary = is_canary cfg p m, pw_shadow = is_shadow cfg p m, pw_assigned = 0\<rparr>) scored)"

definition compute_weights :: "traffic_config \<Rightarrow> (pyfloat \<times> string \<times> string) list \<Rightarrow> provider_weight list" where
  "compute_weights cfg scored =
     (if scored = [] then []
      else normalize (apply_canary_cap cfg (apply_starvation_floor (initial_weights cfg scored))))"

section \<open>Selection\<close>

record traffic =
  td_config :: traffic_config
  td_weights :: "(string, provider_weight) dict"
  td_last_rebalance :: pyfloat
  td_history :: "(string, int) dict"
  td_total :: int

record selection =
  sl_provider :: string
  sl_model :: string
  sl_score :: pyfloat
  sl_weight :: pyfloat
  sl_ab_test :: string
  sl_is_variant :: bool
  sl_shadow :: "(string \<times> string) option"

definition new_traffic :: "traffic_config \<Rightarrow> traffic" where
  "new_traffic cfg = \<lparr>td_config = cfg, td_weights = [], td_last_rebalance = 0, td_history = [], td_total = 0\<rparr>"

definition rebuild_weights :: "pyfloat \<Rightarrow> (pyfloat \<times> string \<times> string) list \<Rightarrow> traffic \<Rightarrow> traffic" where
  "rebuild_weights now scored td =
     td\<lparr>td_weights := fold (\<lambda>pw. dict_set (registry_key (pw_provider pw) (pw_model pw)) pw)
           (compute_weights (td_config td) scored) [],
        td_last_rebalance := now\<rparr>"

definition needs_rebalance :: "pyfloat \<Rightarrow> traffic \<Rightarrow> bool" where
  "needs_rebalance now td \<longleftrightarrow> now - td_last_rebalance td > tc_interval (td_config td)"

definition force_rebalance :: "pyfloat \<Rightarrow> (pyfloat \<times> string \<times> string) list \<Rightarrow> traffic \<Rightarrow> traffic" where
  "force_rebalance now scored td = (if scored = [] then td else rebuild_weights now scored td)"

fun pick_loop :: "pyfloat \<Rightarrow> pyfloat \<Rightarrow> provider_weight list \<Rightarrow> provider_weight option" where
  "pick_loop r cumulative [] = None"
| "pick_loop r cumulative (pw # ws) =
     (if r \<le> cumulative + pw_weight pw then Some pw else pick_loop r (cumulative + pw_weight pw) ws)"

definition weighted_pick :: "pyfloat \<Rightarrow> nat \<Rightarrow> provider_weight list \<Rightarrow> provider_weight option" where
  "weighted_pick u choice ws =
     (if ws = [] then None
      else if wsum ws \<le> 0 then Some (ws ! (choice mod length ws))
      else case pick_loop (u * wsum ws) 0 ws of
             Some pw \<Rightarrow> Some pw
           | None \<Rightarrow> Some (last ws))"

definition check_ab_test :: "pyfloat \<Rightarrow> traffic_config \<Rightarrow> (string \<times> bool \<times> string \<times> string) option" where
  "check_ab_test u cfg =
     (case tc_ab_tests cfg of
        [] \<Rightarrow> None
      | ab # _ \<Rightarrow> (if u < ab_split ab then Some (ab_name ab, True, ab_variant ab)
                   else Some (ab_name ab, False, ab_control ab)))"

definition best_weight :: "(pyfloat \<times> string \<times> string) list \<Rightarrow> provider_weight" where
  "best_weight scored =
     (let (s, p, m) = hd scored
      in \<lparr>pw_provider = p, pw_model = m, pw_score = s, pw_weight = 1, pw_canary = False,
          pw_shadow = False, pw_assigned = 0\<rparr>)"

definition pick_weight :: "pyfloat \<Rightarrow> nat \<Rightarrow> (pyfloat \<times> string \<times> string) list \<Rightarrow> traffic \<Rightarrow> provider_weight" where
  "pick_weight u choice scored td =
     (let ws = map snd (td_weights td); best = best_weight scored
      in if tc_enabled (td_config td) \<and> ws \<noteq> []
         then (case weighted_pick u choice ws of Some pw \<Rightarrow> pw | None \<Rightarrow> best)
         else (case List.find (\<lambda>w. registry_key (pw_provider w) (pw_model w) =
                                   registry_key (pw_provider best) (pw_model best)) ws of
                 Some pw \<Rightarrow> pw
               | None \<Rightarrow> best))"

definition count_selection :: "provider_weight \<Rightarrow> traffic \<Rightarrow> traffic" where
  "count_selection pw td =
     (let key = registry_key (pw_provider pw) (pw_model pw)
      in td\<lparr>td_history := dict_set (pw_provider pw) (dict_get_or (td_history td) (pw_provider pw) 0 + 1) (td_history td),
            td_total := td_total td + 1,
            td_weights := (if dict_get (td_weights td) key = Some pw
                           then dict_set key (pw\<lparr>pw_assigned := pw_assigned pw + 1\<rparr>) (td_weights td)
                           else td_weights td)\<rparr>)"

definition refresh :: "pyfloat \<Rightarrow> (pyfloat \<times> string \<times> string) list \<Rightarrow> traffic \<Rightarrow> traffic" where
  "refresh now scored td =
     (let td1 = (if needs_rebalance now td then rebuild_weights now scored td else td)
      in if td_weights td1 = [] then rebuild_weights now scored td1 else td1)"

definition select ::
  "pyfloat \<Rightarrow> pyfloat \<Rightarrow> pyfloat \<Rightarrow> nat \<Rightarrow> (pyfloat \<times> string \<times> string) list \<Rightarrow> traffic \<Rightarrow>
   selection option \<times> traffic" where
  "select now u_ab u choice scored td =
     (if scored = [] then (None, td)
      else
        let td1 = refresh now scored td;
            ab = check_ab_test u_ab (td_config td1);
            pw = pick_weight u choice scored td1;
            td2 = count_selection pw td1;
            res = \<lparr>sl_provider = pw_provider pw, sl_model = pw_model pw, sl_score = pw_score pw,
                   sl_weight = pw_weight pw, sl_ab_test = '''', sl_is_variant = False, sl_shadow = None\<rparr>;
            res1 = (case ab of
                      None \<Rightarrow> res
                    | Some (name, variant, p, m) \<Rightarrow>
                        (let r = res\<lparr>sl_ab_test := name, sl_is_variant := variant\<rparr>
                         in if variant then r\<lparr>sl_provider := p, sl_model := m\<rparr> else r));
            res2 = (case tc_shadow (td_config td1) of
                      None \<Rightarrow> res1
                    | Some s \<Rightarrow> res1\<lparr>sl_shadow := Some (sh_provider s, sh_model s)\<rparr>)
        in (Some res2, td2))"

definition reset_stats :: "traffic \<Rightarrow> traffic" where
  "reset_stats td =
     td\<lparr>td_history := [], td_total := 0,
        td_weights := map (\<lambda>(k, pw). (k, pw\<lparr>pw_assigned := 0\<rparr>)) (td_weights td)\<rparr>"

section \<open>Weights: sums and bounds\<close>

definition nonneg :: "provider_weight list \<Rightarrow> bool" where
  "nonneg ws \<longleftrightarrow> (\<forall>w \<in> set ws. 0 \<le> pw_weight w)"

lemma wsum_simps [simp]: "wsum [] = 0" "wsum (w # ws) = pw_weight w + wsum ws"
  by (simp_all add: wsum_def)

lemma wsum_nonneg: "nonneg ws \<Longrightarrow> 0 \<le> wsum ws"
  by (induction ws) (auto simp: nonneg_def)

lemma member_le_wsum: "nonneg ws \<Longrightarrow> w \<in> set ws \<Longrightarrow> pw_weight w \<le> wsum ws"
  unfolding wsum_def nonneg_def by (rule member_le_sum_list_rat) auto

lemma wsum_scale: "wsum (map (\<lambda>w. w\<lparr>pw_weight := pw_weight w / c\<rparr>) ws) = wsum ws / c"
  by (induction ws) (simp_all add: add_divide_distrib)

lemma wsum_normalize: "0 < wsum ws \<Longrightarrow> wsum (normalize ws) = 1"
  by (simp add: normalize_def wsum_scale)

lemma normalize_unit: "wsum ws = 1 \<Longrightarrow> normalize ws = ws"
  by (simp add: normalize_def)

lemma nonneg_normalize: "nonneg ws \<Longrightarrow> nonneg (normalize ws)"
  by (auto simp: nonneg_def normalize_def)

lemma wsum_raise: "wsum (map raise_floor ws) = wsum ws + floor_deficit ws"
  by (induction ws) (auto simp: raise_floor_def floor_deficit_def)

lemma wsum_reduce: "wsum (map (reduce_above k) ws) = wsum ws - floor_excess ws * k"
  by (induction ws) (auto simp: reduce_above_def floor_excess_def algebra_simps)

lemma raise_floor_ge: "\<not> pw_shadow w \<Longrightarrow> MIN_WEIGHT \<le> pw_weight (raise_floor w)"
  by (auto simp: raise_floor_def)

lemma reduce_above_ge:
  assumes "k \<le> 1" "MIN_WEIGHT \<le> pw_weight w"
  shows "MIN_WEIGHT \<le> pw_weight (reduce_above k w)"
proof -
  have "(pw_weight w - MIN_WEIGHT) * k \<le> (pw_weight w - MIN_WEIGHT) * 1"
    using assms by (intro mult_left_mono) auto
  then show ?thesis using assms(2) by (simp add: reduce_above_def)
qed

lemma shadow_floor [simp]:
  "pw_shadow (raise_floor w) = pw_shadow w" "pw_shadow (reduce_above k w) = pw_shadow w"
  "pw_canary (raise_floor w) = pw_canary w" "pw_canary (reduce_above k w) = pw_canary w"
  by (simp_all add: raise_floor_def reduce_above_def)

lemma shadow_keeps [simp]:
  "pw_shadow w \<Longrightarrow> raise_floor w = w" "pw_shadow w \<Longrightarrow> reduce_above k w = w"
  by (simp_all add: raise_floor_def reduce_above_def above_floor_def)

lemma floor_deficit_nonneg: "0 \<le> floor_deficit ws"
  unfolding floor_deficit_def by (rule sum_list_rat_nonneg) auto

lemma floor_excess_nonneg: "0 \<le> floor_excess ws"
  unfolding floor_excess_def by (rule sum_list_rat_nonneg) (auto simp: above_floor_def)

lemma floor_excess_pos: "filter above_floor ws \<noteq> [] \<Longrightarrow> 0 < floor_excess ws"
proof (induction ws)
  case (Cons w ws)
  show ?case
  proof (cases "above_floor w")
    case True
    then have "floor_excess (w # ws) = pw_weight w - MIN_WEIGHT + floor_excess ws"
      by (simp add: floor_excess_def)
    moreover have "0 < pw_weight w - MIN_WEIGHT" using True by (simp add: above_floor_def)
    ultimately show ?thesis using floor_excess_nonneg [of ws] by linarith
  next
    case False
    with Cons show ?thesis by (simp add: floor_excess_def)
  qed
qed simp

text \<open>What the raised weights have above the floor, less what was added below it: without a
  shadow candidate this is the total less one floor per candidate.\<close>

lemma excess_minus_deficit:
  "\<forall>w \<in> set ws. \<not> pw_shadow w \<Longrightarrow>
   floor_excess (map raise_floor ws) - floor_deficit ws = wsum ws - of_nat (length ws) * MIN_WEIGHT"
  by (induction ws)
    (auto simp: floor_excess_def floor_deficit_def raise_floor_def above_floor_def algebra_simps)

lemma floor_pass_sum:
  "wsum (floor_pass v) = wsum v + max 0 (floor_deficit v - floor_excess (map raise_floor v))"
proof -
  let ?d = "floor_deficit v" and ?r = "map raise_floor v"
  let ?e = "floor_excess ?r"
  show ?thesis
  proof (cases "0 < ?d \<and> filter above_floor ?r \<noteq> []")
    case True
    then have e: "0 < ?e" using floor_excess_pos by blast
    have "?e * min 1 (?d / ?e) = min ?e ?d"
      using e by (cases "?d \<le> ?e") (auto simp: min_def field_simps)
    then have "wsum (map (reduce_above (min 1 (?d / ?e))) ?r) = wsum v + max 0 (?d - ?e)"
      unfolding wsum_reduce wsum_raise by (simp add: min_def max_def)
    then show ?thesis using True e by (simp add: floor_pass_def Let_def)
  next
    case False
    then have "?d = 0 \<or> ?e = 0"
      using floor_deficit_nonneg [of v] by (auto simp: floor_excess_def)
    with False show ?thesis
      using floor_deficit_nonneg [of v] floor_excess_nonneg [of ?r]
      by (auto simp: floor_pass_def Let_def wsum_raise)
  qed
qed

lemma floor_pass_cases:
  obtains "floor_pass v = map raise_floor v"
  | k where "0 \<le> k" "k \<le> 1" "floor_pass v = map (\<lambda>w. reduce_above k (raise_floor w)) v"
proof (cases "floor_deficit v > 0 \<and> filter above_floor (map raise_floor v) \<noteq> []")
  case True
  let ?e = "floor_excess (map raise_floor v)"
  have "0 \<le> (if 0 < ?e then min 1 (floor_deficit v / ?e) else 0)"
    using floor_deficit_nonneg [of v] floor_excess_nonneg [of "map raise_floor v"] by auto
  moreover have "(if 0 < ?e then min 1 (floor_deficit v / ?e) else 0) \<le> 1" by simp
  moreover have "floor_pass v =
      map (\<lambda>w. reduce_above (if 0 < ?e then min 1 (floor_deficit v / ?e) else 0) (raise_floor w)) v"
    using True by (simp add: floor_pass_def Let_def)
  ultimately show thesis by (rule that(2))
next
  case False
  then show thesis by (intro that(1)) (auto simp: floor_pass_def Let_def)
qed

lemma floor_pass_ge:
  assumes "w \<in> set (floor_pass v)" "\<not> pw_shadow w"
  shows "MIN_WEIGHT \<le> pw_weight w"
  using assms
  by (cases rule: floor_pass_cases [of v]) (auto intro!: reduce_above_ge raise_floor_ge)

lemma nonneg_floor_pass:
  assumes "nonneg v"
  shows "nonneg (floor_pass v)"
  unfolding nonneg_def
proof
  fix w assume w: "w \<in> set (floor_pass v)"
  show "0 \<le> pw_weight w"
  proof (cases "pw_shadow w")
    case True
    then have "w \<in> set v"
      using w by (cases rule: floor_pass_cases [of v]) auto
    with assms show ?thesis by (simp add: nonneg_def)
  next
    case False
    with w have "MIN_WEIGHT \<le> pw_weight w" by (rule floor_pass_ge)
    then show ?thesis by (simp add: MIN_WEIGHT_def)
  qed
qed

definition flags :: "provider_weight list \<Rightarrow> (bool \<times> bool) list" where
  "flags ws = map (\<lambda>w. (pw_canary w, pw_shadow w)) ws"

lemma flags_normalize [simp]: "flags (normalize ws) = flags ws"
  by (simp add: flags_def normalize_def comp_def)

lemma flags_floor_pass [simp]: "flags (floor_pass v) = flags v"
  by (cases rule: floor_pass_cases [of v]) (auto simp: flags_def)

lemma flags_starvation [simp]: "flags (apply_starvation_floor ws) = flags ws"
proof -
  have "flags (map (\<lambda>w. w\<lparr>pw_weight := f w\<rparr>) ws) = flags ws" for f by (simp add: flags_def)
  then show ?thesis by (simp add: apply_starvation_floor_def)
qed

lemma starvation_floor_ok:
  assumes "nonneg ws" "0 < wsum ws"
  shows "wsum (apply_starvation_floor ws) = 1" "nonneg (apply_starvation_floor ws)"
proof -
  let ?v = "map (\<lambda>w. w\<lparr>pw_weight := pw_weight w / wsum ws\<rparr>) ws"
  have one: "wsum ?v = 1" using assms(2) by (simp add: wsum_scale)
  have nn: "nonneg ?v" using assms by (auto simp: nonneg_def)
  have "0 < wsum (floor_pass ?v)" using one by (simp add: floor_pass_sum)
  then show "wsum (apply_starvation_floor ws) = 1" "nonneg (apply_starvation_floor ws)"
    using assms(2) nn
    by (simp_all add: apply_starvation_floor_def wsum_normalize nonneg_normalize nonneg_floor_pass)
qed

text \<open>Without a shadow candidate and with at most a hundred candidates the floor is met
  exactly: raising the low weights is paid for in full by the others.\<close>

lemma starvation_floor_met:
  assumes "nonneg ws" "0 < wsum ws" "\<forall>w \<in> set ws. \<not> pw_shadow w" "length ws \<le> 100"
    and "w \<in> set (apply_starvation_floor ws)"
  shows "MIN_WEIGHT \<le> pw_weight w"
proof -
  let ?v = "map (\<lambda>w. w\<lparr>pw_weight := pw_weight w / wsum ws\<rparr>) ws"
  have one: "wsum ?v = 1" using assms(2) by (simp add: wsum_scale)
  have "(of_nat (length ws) :: rat) \<le> of_nat 100" using assms(4) by (rule of_nat_mono)
  then have "of_nat (length ws) * MIN_WEIGHT \<le> 1" by (simp add: MIN_WEIGHT_def)
  then have "floor_deficit ?v - floor_excess (map raise_floor ?v) \<le> 0"
    using excess_minus_deficit [of ?v] one assms(3) by simp
  then have "wsum (floor_pass ?v) = 1" using one by (simp add: floor_pass_sum)
  then have "apply_starvation_floor ws = floor_pass ?v"
    using assms(2) by (simp add: apply_starvation_floor_def normalize_unit)
  moreover have "\<not> pw_shadow w"
  proof -
    have "snd ` set (flags (apply_starvation_floor ws)) = pw_shadow ` set (apply_starvation_floor ws)"
      by (force simp: flags_def)
    moreover have "snd ` set (flags ws) = pw_shadow ` set ws" by (force simp: flags_def)
    ultimately have "pw_shadow w \<in> pw_shadow ` set ws"
      using assms(5) by (metis flags_starvation imageI)
    with assms(3) show ?thesis by auto
  qed
  ultimately show ?thesis using assms(5) floor_pass_ge by metis
qed

section \<open>The canary cap\<close>

lemma wsum_list_update:
  "i < length ws \<Longrightarrow> wsum (ws[i := x]) = wsum ws - pw_weight (ws ! i) + pw_weight x"
proof (induction ws arbitrary: i)
  case (Cons w ws)
  then show ?case by (cases i) auto
qed simp

lemma wsum_add_eligible:
  "wsum (map (\<lambda>w. if P w then w\<lparr>pw_weight := pw_weight w + e\<rparr> else w) ws) =
     wsum ws + e * of_nat (length (filter P ws))"
  by (induction ws) (simp_all add: algebra_simps)

lemma flags_cap_at [simp]: "i < length ws \<Longrightarrow> flags (cap_at share i ws) = flags ws"
  by (rule nth_equalityI)
    (auto simp: cap_at_def Let_def flags_def nth_list_update)

lemma length_cap_at [simp]: "length (cap_at share i ws) = length ws"
  by (simp add: cap_at_def Let_def)

definition has_eligible :: "provider_weight list \<Rightarrow> bool" where
  "has_eligible ws \<longleftrightarrow> (False, False) \<in> set (flags ws)"

lemma has_eligible_filter: "has_eligible ws \<longleftrightarrow> filter cap_eligible ws \<noteq> []"
  by (force simp: has_eligible_def flags_def cap_eligible_def filter_empty_conv)

lemma cap_at_sum:
  assumes "i < length ws" "has_eligible ws"
  shows "wsum (cap_at share i ws) = wsum ws"
proof (cases "pw_canary (ws ! i) \<and> pw_weight (ws ! i) > share")
  case True
  let ?ws1 = "ws[i := (ws ! i)\<lparr>pw_weight := share\<rparr>]"
  have "flags ?ws1 = flags ws" using assms(1) by (simp add: flags_def map_update list_update_same_conv)
  then have "filter cap_eligible ?ws1 \<noteq> []"
    using assms(2) has_eligible_filter [of ?ws1] by (simp add: has_eligible_def)
  then have n: "0 < length (filter cap_eligible ?ws1)" by simp
  with True assms(1) show ?thesis
    by (simp add: cap_at_def Let_def wsum_add_eligible wsum_list_update)
next
  case False
  then show ?thesis by (auto simp: cap_at_def Let_def)
qed

lemma cap_at_canary:
  assumes "i < length ws" "j < length ws" "pw_canary (ws ! j)"
  shows "pw_weight (cap_at share i ws ! j) = (if j = i then min share (pw_weight (ws ! j)) else pw_weight (ws ! j))"
  using assms by (auto simp: cap_at_def Let_def cap_eligible_def nth_list_update)

lemma cap_at_ge:
  assumes "i < length ws" "j < length ws" "\<not> pw_canary (ws ! j)"
  shows "pw_weight (ws ! j) \<le> pw_weight (cap_at share i ws ! j)"
  using assms by (auto simp: cap_at_def Let_def nth_list_update)

text \<open>The state of the cap loop after the first \<open>k\<close> positions: flags and (with an eligible
  candidate) the sum are kept, canaries below \<open>k\<close> are cut, other candidates only gain.\<close>

definition capped :: "pyfloat \<Rightarrow> nat \<Rightarrow> provider_weight list \<Rightarrow> provider_weight list \<Rightarrow> bool" where
  "capped share k ws r \<longleftrightarrow>
     length r = length ws \<and> flags r = flags ws \<and> (has_eligible ws \<longrightarrow> wsum r = wsum ws) \<and>
     (\<forall>j < length ws. pw_canary (ws ! j) \<longrightarrow>
        pw_weight (r ! j) = (if j < k then min share (pw_weight (ws ! j)) else pw_weight (ws ! j))) \<and>
     (\<forall>j < length ws. \<not> pw_canary (ws ! j) \<longrightarrow> pw_weight (ws ! j) \<le> pw_weight (r ! j))"

lemma flags_nth:
  assumes "flags r = flags ws" "j < length ws"
  shows "pw_canary (r ! j) = pw_canary (ws ! j)"
proof -
  have len: "length r = length ws" using assms(1) by (metis flags_def length_map)
  show ?thesis using arg_cong [OF assms(1), of "\<lambda>f. f ! j"] assms(2) len by (simp add: flags_def)
qed

lemma capped_step:
  assumes c: "capped share k ws r" and k: "k < length ws"
  shows "capped share (Suc k) ws (cap_at share k r)"
proof -
  have len: "length r = length ws" and fl: "flags r = flags ws" using c by (simp_all add: capped_def)
  have kr: "k < length r" using k len by simp
  have canary: "pw_weight (cap_at share k r ! j) =
      (if j < Suc k then min share (pw_weight (ws ! j)) else pw_weight (ws ! j))"
    if "j < length ws" "pw_canary (ws ! j)" for j
    using cap_at_canary [OF kr, of j share] that len flags_nth [OF fl that(1)] c
    by (auto simp: capped_def)
  have other: "pw_weight (ws ! j) \<le> pw_weight (cap_at share k r ! j)"
    if "j < length ws" "\<not> pw_canary (ws ! j)" for j
    using cap_at_ge [OF kr, of j share] that len flags_nth [OF fl that(1)] c
    by (fastforce simp: capped_def)
  have "has_eligible ws \<Longrightarrow> wsum (cap_at share k r) = wsum ws"
    using cap_at_sum [OF kr] c fl by (simp add: has_eligible_def capped_def)
  with canary other len fl kr show ?thesis by (simp add: capped_def)
qed

lemma capped_fold: "k \<le> length ws \<Longrightarrow> capped share k ws (fold (cap_at share) [0..<k] ws)"
proof (induction k)
  case (Suc k)
  then show ?case using capped_step [of share k ws "fold (cap_at share) [0..<k] ws"] by simp
qed (simp add: capped_def)

section \<open>The computed weights\<close>

lemma initial_weights_ok:
  assumes "scored \<noteq> []"
  shows "nonneg (initial_weights cfg scored)" "0 < wsum (initial_weights cfg scored)"
    "length (initial_weights cfg scored) = length scored"
proof -
  let ?S = "set (map fst scored)"
  have fin: "finite ?S" "?S \<noteq> {}" using assms by simp_all
  have range: "0 \<le> Max ?S - Min ?S" using fin by simp
  show nn: "nonneg (initial_weights cfg scored)"
    unfolding nonneg_def
  proof
    fix w assume "w \<in> set (initial_weights cfg scored)"
    then obtain s p m where w: "(s, p, m) \<in> set scored"
      "pw_weight w = (if Max ?S - Min ?S = 0 then 1 else (s - Min ?S) / (Max ?S - Min ?S))"
      by (auto simp: initial_weights_def Let_def)
    from w(1) have "s \<in> ?S" by force
    then have "Min ?S \<le> s" by (rule Min_le [OF fin(1)])
    with range show "0 \<le> pw_weight w" unfolding w(2) by simp
  qed
  have "Max ?S \<in> ?S" using fin by (rule Max_in)
  then obtain p m where mx: "(Max ?S, p, m) \<in> set scored" by auto
  define w where "w = (\<lambda>(s, p, m).
     \<lparr>pw_provider = p, pw_model = m, pw_score = s,
      pw_weight = (if Max ?S - Min ?S = 0 then 1 else (s - Min ?S) / (Max ?S - Min ?S)),
      pw_canary = is_canary cfg p m, pw_shadow = is_shadow cfg p m, pw_assigned = 0\<rparr>) (Max ?S, p, m)"
  have "w \<in> set (initial_weights cfg scored)"
    using mx unfolding w_def initial_weights_def Let_def set_map by (rule imageI)
  moreover have "pw_weight w = 1" by (simp add: w_def)
  ultimately have "1 \<le> wsum (initial_weights cfg scored)" using member_le_wsum [OF nn] by fastforce
  then show "0 < wsum (initial_weights cfg scored)" by simp
  show "length (initial_weights cfg scored) = length scored" by (simp add: initial_weights_def Let_def)
qed

lemma flags_initial:
  "flags (initial_weights cfg scored) = map (\<lambda>(s, p, m). (is_canary cfg p m, is_shadow cfg p m)) scored"
  by (auto simp: flags_def initial_weights_def Let_def)

definition share_ok :: "traffic_config \<Rightarrow> bool" where
  "share_ok cfg = (case tc_canary cfg of None \<Rightarrow> True | Some c \<Rightarrow> 0 < cn_max_share c)"

lemma canary_cap_ok:
  assumes "nonneg ws" "0 < wsum ws" "share_ok cfg"
  shows "nonneg (apply_canary_cap cfg ws)" "0 < wsum (apply_canary_cap cfg ws)"
proof -
  have "nonneg (apply_canary_cap cfg ws) \<and> 0 < wsum (apply_canary_cap cfg ws)"
  proof (cases "tc_canary cfg")
    case None
    with assms show ?thesis by (simp add: apply_canary_cap_def)
  next
    case (Some c)
    define r where "r = apply_canary_cap cfg ws"
    have c: "capped (cn_max_share c) (length ws) ws r"
      using capped_fold [of "length ws" ws "cn_max_share c"] Some by (simp add: r_def apply_canary_cap_def)
    have low: "min (cn_max_share c) (pw_weight (ws ! j)) \<le> pw_weight (r ! j)" if "j < length ws" for j
      using c that by (cases "pw_canary (ws ! j)") (auto simp: capped_def min.coboundedI2)
    have share: "0 < cn_max_share c" using assms(3) Some by (simp add: share_ok_def)
    have nn: "nonneg r" unfolding nonneg_def
    proof
      fix w assume "w \<in> set r"
      then obtain j where j: "j < length ws" "w = r ! j" using c by (auto simp: capped_def in_set_conv_nth)
      have "0 \<le> pw_weight (ws ! j)" using assms(1) j(1) by (simp add: nonneg_def)
      then show "0 \<le> pw_weight w" using low [OF j(1)] share j(2) by auto
    qed
    obtain w where "w \<in> set ws" "0 < pw_weight w"
    proof (rule ccontr)
      assume "\<not> thesis"
      then have "\<forall>w \<in> set ws. pw_weight w \<le> 0" using that by force
      then have "wsum ws \<le> 0" by (induction ws) auto
      with assms(2) show False by simp
    qed
    then obtain j where j: "j < length ws" "0 < pw_weight (ws ! j)" by (auto simp: in_set_conv_nth)
    have "r ! j \<in> set r" using c j(1) by (simp add: capped_def)
    then have "pw_weight (r ! j) \<le> wsum r" using nn by (rule member_le_wsum [rotated])
    then show ?thesis using nn low [OF j(1)] share j(2) by (auto simp: r_def)
  qed
  then show "nonneg (apply_canary_cap cfg ws)" "0 < wsum (apply_canary_cap cfg ws)" by simp_all
qed

lemma compute_weights_sum:
  assumes "scored \<noteq> []" "share_ok cfg"
  shows "wsum (compute_weights cfg scored) = 1" "nonneg (compute_weights cfg scored)"
proof -
  have s: "nonneg (apply_starvation_floor (initial_weights cfg scored))"
    "0 < wsum (apply_starvation_floor (initial_weights cfg scored))"
    using starvation_floor_ok initial_weights_ok [OF assms(1)] by simp_all
  show "wsum (compute_weights cfg scored) = 1" "nonneg (compute_weights cfg scored)"
    using canary_cap_ok [OF s assms(2)] assms(1)
    by (simp_all add: compute_weights_def wsum_normalize nonneg_normalize)
qed

text \<open>With an eligible candidate the cap keeps the sum, so the final normalisation is the
  identity and the caps are met exactly.\<close>

lemma compute_weights_capped:
  assumes "scored \<noteq> []" "tc_canary cfg = Some c" "(s, p, m) \<in> set scored" "\<not> is_canary cfg p m" "\<not> is_shadow cfg p m"
  shows "capped (cn_max_share c) (length scored) (apply_starvation_floor (initial_weights cfg scored))
           (compute_weights cfg scored)"
proof -
  let ?ws = "apply_starvation_floor (initial_weights cfg scored)"
  have len: "length ?ws = length scored"
    using arg_cong [OF flags_starvation, of length "initial_weights cfg scored"] initial_weights_ok(3) [OF assms(1)]
    by (simp add: flags_def)
  have one: "wsum ?ws = 1" using starvation_floor_ok(1) initial_weights_ok [OF assms(1)] by simp
  have el: "has_eligible ?ws"
    using assms(3-5) by (force simp: has_eligible_def flags_initial)
  have cap: "capped (cn_max_share c) (length scored) ?ws (apply_canary_cap cfg ?ws)"
    using capped_fold [of "length ?ws" ?ws "cn_max_share c"] assms(2) len by (simp add: apply_canary_cap_def)
  then have "wsum (apply_canary_cap cfg ?ws) = 1" using el one by (simp add: capped_def)
  then have "compute_weights cfg scored = apply_canary_cap cfg ?ws"
    using assms(1) by (simp add: compute_weights_def normalize_unit)
  with cap show ?thesis by simp
qed

section \<open>Candidates keep their identity\<close>

definition ids :: "provider_weight list \<Rightarrow> (string \<times> string) list" where
  "ids ws = map (\<lambda>w. (pw_provider w, pw_model w)) ws"

lemma ids_map_weight [simp]: "ids (map (\<lambda>w. w\<lparr>pw_weight := f w\<rparr>) ws) = ids ws"
  by (simp add: ids_def)

lemma ids_normalize [simp]: "ids (normalize ws) = ids ws"
  by (simp add: normalize_def)

lemma ids_floor_pass [simp]: "ids (floor_pass v) = ids v"
  by (cases rule: floor_pass_cases [of v]) (auto simp: ids_def raise_floor_def reduce_above_def)

lemma ids_starvation [simp]: "ids (apply_starvation_floor ws) = ids ws"
  by (simp add: apply_starvation_floor_def)

lemma ids_cap_at: "i < length ws \<Longrightarrow> ids (cap_at share i ws) = ids ws"
  by (rule nth_equalityI) (auto simp: cap_at_def Let_def ids_def nth_list_update)

lemma ids_cap_fold: "k \<le> length ws \<Longrightarrow> ids (fold (cap_at share) [0..<k] ws) = ids ws"
proof (induction k)
  case (Suc k)
  have "length (fold (cap_at share) [0..<k] ws) = length ws"
    using capped_fold [of k ws share] Suc.prems by (simp add: capped_def)
  with Suc show ?case by (simp add: ids_cap_at)
qed simp

lemma ids_compute_weights: "ids (compute_weights cfg scored) = map snd scored"
proof -
  have "ids (initial_weights cfg scored) = map snd scored"
    by (auto simp: ids_def initial_weights_def Let_def)
  then show ?thesis
    by (auto simp: compute_weights_def apply_canary_cap_def ids_cap_fold ids_def [of "[]"] split: option.splits)
qed

lemma values_fold_dict_set:
  "snd ` set (fold (\<lambda>x. dict_set (k x) x) xs d) \<subseteq> set xs \<union> snd ` set d"
proof (induction xs arbitrary: d)
  case (Cons x xs)
  have "snd ` set (dict_set (k x) x d) \<subseteq> insert x (snd ` set d)"
    by (induction d) (auto split: if_splits)
  then have "set xs \<union> snd ` set (dict_set (k x) x d) \<subseteq> set (x # xs) \<union> snd ` set d"
    by auto
  with Cons [of "dict_set (k x) x d"]
  have "snd ` set (fold (\<lambda>x. dict_set (k x) x) xs (dict_set (k x) x d)) \<subseteq> set (x # xs) \<union> snd ` set d"
    by (rule order_trans)
  then show ?case by simp
qed simp

lemma fold_dict_set_not_Nil: "xs \<noteq> [] \<Longrightarrow> fold (\<lambda>x. dict_set (k x) x) xs d \<noteq> []"
proof (induction xs rule: rev_induct)
  case (snoc x xs)
  have "dict_set (k x) x d' \<noteq> []" for d' :: "('b \<times> 'a) list" by (cases d') auto
  then show ?case by simp
qed simp

lemma rebuild_members:
  assumes "scored \<noteq> []"
  shows "td_weights (rebuild_weights now scored td) \<noteq> []"
    "pw \<in> snd ` set (td_weights (rebuild_weights now scored td)) \<Longrightarrow>
       (pw_provider pw, pw_model pw) \<in> set (map snd scored)"
proof -
  have "ids (compute_weights (td_config td) scored) \<noteq> []"
    using assms by (simp add: ids_compute_weights)
  then have "compute_weights (td_config td) scored \<noteq> []" by (auto simp: ids_def)
  then show "td_weights (rebuild_weights now scored td) \<noteq> []"
    by (simp add: rebuild_weights_def fold_dict_set_not_Nil)
  assume "pw \<in> snd ` set (td_weights (rebuild_weights now scored td))"
  then have "pw \<in> set (compute_weights (td_config td) scored)"
    using values_fold_dict_set
      [of "\<lambda>pw. registry_key (pw_provider pw) (pw_model pw)" "compute_weights (td_config td) scored" "[]"]
    by (auto simp: rebuild_weights_def)
  then have "(pw_provider pw, pw_model pw) \<in> set (ids (compute_weights (td_config td) scored))"
    by (auto simp: ids_def)
  then show "(pw_provider pw, pw_model pw) \<in> set (map snd scored)"
    by (simp only: ids_compute_weights)
qed

section \<open>The weighted pick\<close>

lemma pick_loop_Some:
  "pick_loop r c ws = Some pw \<Longrightarrow>
   \<exists>i < length ws. pw = ws ! i \<and> r \<le> c + wsum (take (Suc i) ws) \<and>
     (\<forall>j < i. c + wsum (take (Suc j) ws) < r)"
proof (induction r c ws rule: pick_loop.induct)
  case (2 r c w ws)
  show ?case
  proof (cases "r \<le> c + pw_weight w")
    case True
    with 2 show ?thesis by (intro exI [of _ 0]) simp
  next
    case False
    with 2 obtain i where i: "i < length ws" "pw = ws ! i"
      "r \<le> c + pw_weight w + wsum (take (Suc i) ws)"
      "\<forall>j < i. c + pw_weight w + wsum (take (Suc j) ws) < r" by auto
    have "c + wsum (take (Suc j) (w # ws)) < r" if "j < Suc i" for j
      using that i(4) False by (cases j) (auto simp: add.assoc)
    with i show ?thesis by (intro exI [of _ "Suc i"]) (simp add: add.assoc)
  qed
qed simp

lemma pick_loop_None: "pick_loop r c ws = None \<Longrightarrow> ws = [] \<or> c + wsum ws < r"
proof (induction r c ws rule: pick_loop.induct)
  case (2 r c w ws)
  then show ?case by (cases "ws = []") (auto split: if_splits simp: add.assoc)
qed simp

lemma pick_loop_member: "pick_loop r c ws = Some pw \<Longrightarrow> pw \<in> set ws"
  by (induction r c ws rule: pick_loop.induct) (auto split: if_splits)

lemma weighted_pick_member: "weighted_pick u k ws = Some pw \<Longrightarrow> pw \<in> set ws"
  by (auto simp: weighted_pick_def dest: pick_loop_member split: if_splits option.splits)

lemma weighted_pick_total: "ws \<noteq> [] \<Longrightarrow> \<exists>pw. weighted_pick u k ws = Some pw"
  by (auto simp: weighted_pick_def split: option.splits)

lemma pick_weight_member:
  assumes "tc_enabled (td_config td)" "td_weights td \<noteq> []"
  shows "pick_weight u k scored td \<in> snd ` set (td_weights td)"
proof -
  have ne: "map snd (td_weights td) \<noteq> []" using assms(2) by simp
  then obtain pw where pw: "weighted_pick u k (map snd (td_weights td)) = Some pw"
    using weighted_pick_total by blast
  then have "pw \<in> snd ` set (td_weights td)" using weighted_pick_member by fastforce
  then show ?thesis using assms pw by (simp add: pick_weight_def Let_def)
qed

section \<open>Properties\<close>

text \<open>
  Traffic weights: for a non-empty candidate list and a positive canary share, the computed
  weights are non-negative and sum to 1, one per candidate in the candidates' order. Without
  shadow and canary configuration and with at most a hundred candidates, every candidate gets
  at least the minimum share of one percent.
\<close>

theorem traffic_weights_distribution:
  assumes "scored \<noteq> []" "share_ok cfg"
  shows "wsum (compute_weights cfg scored) = 1 \<and> nonneg (compute_weights cfg scored) \<and>
     ids (compute_weights cfg scored) = map snd scored \<and>
     (tc_shadow cfg = None \<and> tc_canary cfg = None \<and> length scored \<le> 100 \<longrightarrow>
        list_all (\<lambda>w. MIN_WEIGHT \<le> pw_weight w) (compute_weights cfg scored))"
proof -
  have "MIN_WEIGHT \<le> pw_weight w"
    if "tc_shadow cfg = None" "tc_canary cfg = None" "length scored \<le> 100" "w \<in> set (compute_weights cfg scored)" for w
  proof -
    have ns: "\<forall>w \<in> set (initial_weights cfg scored). \<not> pw_shadow w"
      using that(1) by (auto simp: initial_weights_def is_shadow_def Let_def)
    have "compute_weights cfg scored = apply_starvation_floor (initial_weights cfg scored)"
      using assms(1) that(2) starvation_floor_ok(1) initial_weights_ok [OF assms(1)]
      by (simp add: compute_weights_def apply_canary_cap_def normalize_unit)
    with that(3,4) ns initial_weights_ok [OF assms(1), of cfg] show ?thesis
      by (intro starvation_floor_met [of "initial_weights cfg scored"]) simp_all
  qed
  then show ?thesis
    using compute_weights_sum [OF assms] ids_compute_weights by (simp add: list_all_iff)
qed

definition plain_config :: traffic_config where
  "plain_config = \<lparr>tc_enabled = True, tc_interval = 60, tc_canary = None, tc_ab_tests = [], tc_shadow = None\<rparr>"

lemma traffic_weights_distribution_witness:
  "wsum (compute_weights plain_config [(80, ''openai'', ''gpt-4o''), (20, ''groq'', ''llama'')]) = 1"
  using traffic_weights_distribution
    [of "[(80, ''openai'', ''gpt-4o''), (20, ''groq'', ''llama'')]" plain_config]
  by (simp add: share_ok_def plain_config_def)

text \<open>
  The canary cap: when some candidate is neither canary nor shadow, the final weight of
  every canary candidate is at most its configured maximal traffic share, and no other
  candidate loses weight through the cap.
\<close>

theorem canary_share_capped:
  assumes "tc_canary cfg = Some c" "(s, p, m) \<in> set scored" "\<not> is_canary cfg p m" "\<not> is_shadow cfg p m"
    and "j < length scored"
  shows "(pw_canary (compute_weights cfg scored ! j) \<longrightarrow>
            pw_weight (compute_weights cfg scored ! j) \<le> cn_max_share c) \<and>
         (\<not> pw_canary (compute_weights cfg scored ! j) \<longrightarrow>
            pw_weight (apply_starvation_floor (initial_weights cfg scored) ! j)
              \<le> pw_weight (compute_weights cfg scored ! j))"
proof -
  let ?ws = "apply_starvation_floor (initial_weights cfg scored)"
  have ne: "scored \<noteq> []" using assms(5) by auto
  have cap: "capped (cn_max_share c) (length scored) ?ws (compute_weights cfg scored)"
    using compute_weights_capped [OF ne assms(1-4)] .
  have fl: "flags (compute_weights cfg scored) = flags ?ws" using cap by (simp add: capped_def)
  have len: "length ?ws = length scored"
    using initial_weights_ok(3) [OF ne, of cfg] arg_cong [OF flags_starvation, of length "initial_weights cfg scored"]
    by (simp add: flags_def)
  then have "pw_canary (compute_weights cfg scored ! j) = pw_canary (?ws ! j)"
    using flags_nth [OF fl] assms(5) by simp
  with cap assms(5) len show ?thesis by (simp add: capped_def)
qed

definition canary_sample :: traffic_config where
  "canary_sample = plain_config\<lparr>tc_canary := Some \<lparr>cn_provider = ''new'', cn_model = ''x'', cn_max_share = 5 / 100\<rparr>\<rparr>"

lemma canary_share_capped_witness:
  "(let w = compute_weights canary_sample [(90, ''new'', ''x''), (80, ''openai'', ''gpt-4o'')] ! 0
    in if pw_canary w then pw_weight w else 5 / 100) \<le> 5 / 100"
  using canary_share_capped [of canary_sample _ 80 "''openai''" "''gpt-4o''"
      "[(90, ''new'', ''x''), (80, ''openai'', ''gpt-4o'')]" 0]
  by (auto simp: canary_sample_def plain_config_def is_canary_def is_shadow_def Let_def)

text \<open>
  The weighted pick returns the candidate whose cumulative weight interval contains the
  random point: for a draw \<open>u < 1\<close> and a positive total, it is the first candidate \<open>i\<close> with
  \<open>u * total \<le> w\<^sub>0 + \<dots> + w\<^sub>i\<close>. So each candidate is hit by an interval of draws as long as its
  share of the total.
\<close>

theorem weighted_pick_interval:
  assumes "0 < wsum ws" "u < 1"
  shows "\<exists>i < length ws. weighted_pick u k ws = Some (ws ! i) \<and>
           u * wsum ws \<le> wsum (take (Suc i) ws) \<and> (\<forall>j < i. wsum (take (Suc j) ws) < u * wsum ws)"
proof -
  have ne: "ws \<noteq> []" using assms(1) by auto
  have "u * wsum ws < 1 * wsum ws" using assms by (intro mult_strict_right_mono)
  then have "pick_loop (u * wsum ws) 0 ws \<noteq> None"
    using pick_loop_None [of "u * wsum ws" 0 ws] ne by auto
  then obtain pw where pw: "pick_loop (u * wsum ws) 0 ws = Some pw" by auto
  then have "weighted_pick u k ws = Some pw" using ne assms(1) by (simp add: weighted_pick_def)
  with pick_loop_Some [OF pw] show ?thesis by auto
qed

lemma weighted_pick_interval_witness:
  "\<exists>i < 1. weighted_pick (1 / 2) 0 [best_weight [(1, ''p'', ''m'')]] = Some ([best_weight [(1, ''p'', ''m'')]] ! i)"
  using weighted_pick_interval [of "[best_weight [(1, ''p'', ''m'')]]" "1 / 2" 0]
  by (auto simp: best_weight_def)

text \<open>
  Between two rebalances the enabled selection does not depend on the candidates of the
  request at all: it draws from the weights cached for an earlier request, so two requests
  with different (non-empty) candidate lists get the same selection from the same state.
\<close>

theorem selection_ignores_candidates:
  assumes "\<not> needs_rebalance now td" "td_weights td \<noteq> []" "tc_enabled (td_config td)"
    and "scored \<noteq> []" "scored' \<noteq> []"
  shows "select now u_ab u k scored td = select now u_ab u k scored' td"
proof -
  have r: "refresh now sc td = td" for sc using assms(1,2) by (simp add: refresh_def)
  obtain pw where "weighted_pick u k (map snd (td_weights td)) = Some pw"
    using weighted_pick_total [of "map snd (td_weights td)"] assms(2) by auto
  then have "pick_weight u k sc td = pw" for sc using assms(2,3) by (simp add: pick_weight_def Let_def)
  then show ?thesis using assms(4,5) by (simp add: select_def r)
qed

lemma selection_ignores_candidates_witness:
  "let td = (new_traffic plain_config)\<lparr>td_weights := [(''groq::llama'', best_weight [(1, ''groq'', ''llama'')])],
              td_last_rebalance := 100\<rparr>
   in select 130 0 (1 / 2) 0 [(9, ''openai'', ''gpt-4o'')] td = select 130 0 (1 / 2) 0 [(9, ''google'', ''gemini'')] td"
  unfolding Let_def
  by (rule selection_ignores_candidates) (simp_all add: needs_rebalance_def new_traffic_def plain_config_def)

text \<open>
  A selection that rebalances first, with no A/B test configured, returns one of the
  request's candidates and counts it.
\<close>

theorem fresh_selection_is_candidate:
  assumes "needs_rebalance now td" "tc_enabled (td_config td)" "tc_ab_tests (td_config td) = []" "scored \<noteq> []"
  shows "\<exists>res td'. select now u_ab u k scored td = (Some res, td') \<and>
           (sl_provider res, sl_model res) \<in> set (map snd scored) \<and> td_total td' = td_total td + 1"
proof -
  let ?td = "rebuild_weights now scored td"
  have r: "refresh now scored td = ?td"
    using assms(1) rebuild_members(1) [OF assms(4)] by (simp add: refresh_def)
  have cfg: "td_config ?td = td_config td" by (simp add: rebuild_weights_def)
  have "pick_weight u k scored ?td \<in> snd ` set (td_weights ?td)"
    using assms(2) rebuild_members(1) [OF assms(4)] cfg by (intro pick_weight_member) simp_all
  then have "(pw_provider (pick_weight u k scored ?td), pw_model (pick_weight u k scored ?td)) \<in> set (map snd scored)"
    by (rule rebuild_members(2) [OF assms(4)])
  then show ?thesis
    using assms(3,4)
    by (auto simp: select_def r cfg check_ab_test_def count_selection_def rebuild_weights_def Let_def
        split: option.splits)
qed

lemma fresh_selection_is_candidate_witness:
  "\<exists>res td'. select 100 0 (1 / 2) 0 [(9, ''openai'', ''gpt-4o'')] (new_traffic plain_config) = (Some res, td') \<and>
     (sl_provider res, sl_model res) \<in> set (map snd [(9 :: pyfloat, ''openai'', ''gpt-4o'')]) \<and>
     td_total td' = td_total (new_traffic plain_config) + 1"
  by (rule fresh_selection_is_candidate) (simp_all add: needs_rebalance_def new_traffic_def plain_config_def)

end
