(* ===== verification/Router.thy ===== *)
theory Router
  imports Engine Traffic
begin

text \<open>
  Request handling of \<^verbatim>\<open>app/router.py\<close> (retries, fail-over, routing of a chat request,
  embeddings, persistence of the metrics) with the hook pipeline of
  \<^verbatim>\<open>app/plugin/pipeline.py\<close>.

  What a provider answers to the \<open>n\<close>-th attempt of a call is an argument (\<open>calls\<close>), as are the
  measured latencies, the classified task, the configured candidates, the token estimate and
  the plugins' hooks (\<open>None\<close> for a hook that is missing, raises or returns no \<open>HookResult\<close>).
  Assigning \<open>response.metadata\<close> is Pydantic's \<open>__setattr__\<close> and so an argument too: it may
  refuse. Events, logs, Prometheus counters and \<open>app.stats\<close> are left out.
\<close>

section \<open>Errors and retries\<close>

datatype provider_exn =
    Rate_Limit_Error | Timeout_Error | Unavailable_Error | Auth_Error
  | Provider_Error int
  | Network_Error string
  | Builtin_Timeout
  | Other_Exception string

fun exn_status :: "provider_exn \<Rightarrow> int option" where
  "exn_status Rate_Limit_Error = Some 429"
| "exn_status Timeout_Error = Some 504"
| "exn_status Unavailable_Error = Some 503"
| "exn_status Auth_Error = Some 401"
| "exn_status (Provider_Error code) = Some code"
| "exn_status (Network_Error s) = None"
| "exn_status Builtin_Timeout = None"
| "exn_status (Other_Exception s) = None"

definition RETRYABLE_CODES :: "int list" where
  "RETRYABLE_CODES = [429, 500, 502, 503, 504]"

definition is_retryable :: "provider_exn \<Rightarrow> bool" where
  "is_retryable e =
     (if e \<in> {Rate_Limit_Error, Timeout_Error, Unavailable_Error} then True
      else case exn_status e of Some code \<Rightarrow> code \<in> set RETRYABLE_CODES | None \<Rightarrow> True)"

definition is_non_retryable :: "provider_exn \<Rightarrow> bool" where
  "is_non_retryable e =
     (if e = Auth_Error then True
      else case exn_status e of Some code \<Rightarrow> code \<in> set [400, 401, 403, 404, 422] | None \<Rightarrow> False)"

datatype 'a call_result = Returned 'a | Raised provider_exn | Raise_None_TypeError

text \<open>\<open>attempt\<close> runs from 0; \<open>last\<close> is \<open>last_error\<close>. The second component lists the delays slept.\<close>

function retry_loop ::
  "(nat \<Rightarrow> provider_exn + 'a) \<Rightarrow> (nat \<Rightarrow> pyfloat) \<Rightarrow> nat \<Rightarrow> pyfloat \<Rightarrow> nat \<Rightarrow> provider_exn option \<Rightarrow>
   'a call_result \<times> pyfloat list" where
  "retry_loop calls jitter max_retries base_delay attempt lst =
     (if attempt < max_retries
      then (case calls attempt of
              Inr a \<Rightarrow> (Returned a, [])
            | Inl e \<Rightarrow>
                (if is_non_retryable e then (Raised e, [])
                 else if \<not> is_retryable e then (Raised e, [])
                 else
                   let slept = (if attempt < max_retries - 1
                                then [base_delay * 2 ^ attempt + jitter attempt] else []);
                       (r, ds) = retry_loop calls jitter max_retries base_delay (attempt + 1) (Some e)
                   in (r, slept @ ds)))
      else (case lst of Some e \<Rightarrow> (Raised e, []) | None \<Rightarrow> (Raise_None_TypeError, [])))"
  by pat_completeness auto
termination
  by (relation "measure (\<lambda>(calls, jitter, max_retries, base_delay, attempt, lst). max_retries - attempt)") auto

declare retry_loop.simps [simp del]

definition retry_with_backoff ::
  "(nat \<Rightarrow> provider_exn + 'a) \<Rightarrow> (nat \<Rightarrow> pyfloat) \<Rightarrow> nat \<Rightarrow> pyfloat \<Rightarrow> 'a call_result \<times> pyfloat list" where
  "retry_with_backoff calls jitter max_retries base_delay =
     retry_loop calls jitter max_retries base_delay 0 None"

text \<open>The specification of the loop: an outcome is final unless it is a retryable error.\<close>

definition try_again :: "provider_exn + 'a \<Rightarrow> bool" where
  "try_again r = (case r of Inl e \<Rightarrow> is_retryable e \<and> \<not> is_non_retryable e | Inr a \<Rightarrow> False)"

fun as_result :: "provider_exn + 'a \<Rightarrow> 'a call_result" where
  "as_result (Inr a) = Returned a"
| "as_result (Inl e) = Raised e"

lemma retry_loop_final:
  "attempt < n \<Longrightarrow> \<not> try_again (calls attempt) \<Longrightarrow>
   retry_loop calls jitter n base attempt lst = (as_result (calls attempt), [])"
  by (subst retry_loop.simps) (auto simp: try_again_def split: sum.splits)

lemma retry_loop_again:
  "attempt < n \<Longrightarrow> calls attempt = Inl e \<Longrightarrow> try_again (calls attempt) \<Longrightarrow>
   retry_loop calls jitter n base attempt lst =
     (let (r, ds) = retry_loop calls jitter n base (Suc attempt) (Some e)
      in (r, (if Suc attempt < n then [base * 2 ^ attempt + jitter attempt] else []) @ ds))"
  by (subst retry_loop.simps) (auto simp: try_again_def Let_def case_prod_beta)

lemma retry_loop_end:
  "\<not> attempt < n \<Longrightarrow> retry_loop calls jitter n base attempt (Some e) = (Raised e, [])"
  by (subst retry_loop.simps) simp

lemma retry_loop_first_final:
  "attempt \<le> i \<Longrightarrow> i < n \<Longrightarrow> \<forall>j. attempt \<le> j \<and> j < i \<longrightarrow> try_again (calls j) \<Longrightarrow> \<not> try_again (calls i) \<Longrightarrow>
   retry_loop calls jitter n base attempt lst =
     (as_result (calls i), map (\<lambda>k. base * 2 ^ k + jitter k) [attempt..<i])"
proof (induction "i - attempt" arbitrary: attempt lst)
  case 0
  then show ?case by (simp add: retry_loop_final)
next
  case (Suc d)
  then have again: "try_again (calls attempt)" and less: "attempt < i" by auto
  then obtain e where e: "calls attempt = Inl e" by (auto simp: try_again_def split: sum.splits)
  have "retry_loop calls jitter n base (Suc attempt) (Some e) =
      (as_result (calls i), map (\<lambda>k. base * 2 ^ k + jitter k) [Suc attempt..<i])"
    using Suc less by (intro Suc.hyps) auto
  then show ?case
    using retry_loop_again [of attempt n calls e] e again less Suc.prems(2) by (simp add: upt_conv_Cons)
qed

lemma retry_loop_exhausted:
  "attempt < n \<Longrightarrow> \<forall>j. attempt \<le> j \<and> j < n \<longrightarrow> try_again (calls j) \<Longrightarrow>
   retry_loop calls jitter n base attempt lst =
     (as_result (calls (n - 1)), map (\<lambda>k. base * 2 ^ k + jitter k) [attempt..<n - 1])"
proof (induction "n - attempt" arbitrary: attempt lst)
  case (Suc d)
  then have again: "try_again (calls attempt)" by auto
  then obtain e where e: "calls attempt = Inl e" by (auto simp: try_again_def split: sum.splits)
  show ?case
  proof (cases "Suc attempt < n")
    case True
    then have "retry_loop calls jitter n base (Suc attempt) (Some e) =
        (as_result (calls (n - 1)), map (\<lambda>k. base * 2 ^ k + jitter k) [Suc attempt..<n - 1])"
      using Suc by (intro Suc.hyps) auto
    then show ?thesis
      using retry_loop_again [of attempt n calls e] e again True Suc.prems(1) by (simp add: upt_conv_Cons less_diff_conv)
  next
    case False
    then have n: "n = Suc attempt" using Suc.prems(1) by simp
    show ?thesis using retry_loop_again [of attempt n calls e] e again e by (simp add: n retry_loop_end)
  qed
qed simp

section \<open>Hook pipeline\<close>

record message =
  ms_content :: string
  ms_tool_calls :: bool

record chat_request =
  cr_model :: string
  cr_messages :: "message list"
  cr_stream :: bool
  cr_opt_mode :: string
  cr_required :: "string list"
  cr_preferred :: "string option"

record usage =
  us_prompt :: int
  us_completion :: int
  us_total :: int
  us_cache :: int
  us_reasoning :: int

record chat_response =
  rs_content :: string
  rs_usage :: "usage option"
  rs_metadata :: "(string, string) dict"

record hook_result =
  hr_cancel :: bool
  hr_reason :: string
  hr_request :: "chat_request option"
  hr_response :: "chat_response option"
  hr_metadata :: "(string, string) dict"

definition empty_hook :: hook_result where
  "empty_hook = \<lparr>hr_cancel = False, hr_reason = '''', hr_request = None, hr_response = None, hr_metadata = []\<rparr>"

lemma empty_hook_simps [simp]:
  "hr_cancel empty_hook = False" "hr_request empty_hook = None"
  by (simp_all add: empty_hook_def)

definition run_hook :: "hook_result option \<Rightarrow> hook_result" where
  "run_hook r = (case r of None \<Rightarrow> empty_hook | Some h \<Rightarrow> h)"

definition dict_update :: "(string, string) dict \<Rightarrow> (string, string) dict \<Rightarrow> (string, string) dict" where
  "dict_update new d = fold (\<lambda>(k, v). dict_set k v) new d"

definition merge_hook :: "hook_result \<Rightarrow> hook_result \<Rightarrow> hook_result" where
  "merge_hook r agg =
     agg\<lparr>hr_request := (case hr_request r of None \<Rightarrow> hr_request agg | Some q \<Rightarrow> Some q),
         hr_response := (case hr_response r of None \<Rightarrow> hr_response agg | Some q \<Rightarrow> Some q),
         hr_metadata := dict_update (hr_metadata r) (hr_metadata agg)\<rparr>"

fun hook_chain :: "hook_result option list \<Rightarrow> hook_result \<Rightarrow> hook_result" where
  "hook_chain [] agg = agg"
| "hook_chain (p # ps) agg =
     (let r = run_hook p in if hr_cancel r then r else hook_chain ps (merge_hook r agg))"

record plugin =
  pl_before_request :: "chat_request \<Rightarrow> hook_result option"
  pl_before_route :: "chat_request \<Rightarrow> hook_result option"
  pl_after_route :: "chat_request \<Rightarrow> (string \<times> string) list \<Rightarrow> hook_result option"
  pl_before_provider :: "chat_request \<Rightarrow> string \<Rightarrow> string \<Rightarrow> hook_result option"
  pl_before_response :: "chat_request \<Rightarrow> chat_response \<Rightarrow> hook_result option"

definition execute_before_request :: "plugin list \<Rightarrow> chat_request \<Rightarrow> hook_result" where
  "execute_before_request ps rq = hook_chain (map (\<lambda>p. pl_before_request p rq) ps) empty_hook"

definition execute_before_route :: "plugin list \<Rightarrow> chat_request \<Rightarrow> hook_result" where
  "execute_before_route ps rq = hook_chain (map (\<lambda>p. pl_before_route p rq) ps) empty_hook"

definition execute_after_route :: "plugin list \<Rightarrow> chat_request \<Rightarrow> (string \<times> string) list \<Rightarrow> hook_result" where
  "execute_after_route ps rq routes = hook_chain (map (\<lambda>p. pl_after_route p rq routes) ps) empty_hook"

definition execute_before_provider :: "plugin list \<Rightarrow> chat_request \<Rightarrow> string \<Rightarrow> string \<Rightarrow> hook_result" where
  "execute_before_provider ps rq provider model =
     hook_chain (map (\<lambda>p. pl_before_provider p rq provider model) ps) empty_hook"

definition execute_before_response :: "plugin list \<Rightarrow> chat_request \<Rightarrow> chat_response \<Rightarrow> hook_result" where
  "execute_before_response ps rq rsp = hook_chain (map (\<lambda>p. pl_before_response p rq rsp) ps) empty_hook"

lemma hook_chain_cancel_iff:
  "hr_cancel agg = False \<Longrightarrow> hr_cancel (hook_chain ps agg) \<longleftrightarrow> (\<exists>p \<in> set ps. hr_cancel (run_hook p))"
  by (induction ps arbitrary: agg) (auto simp: Let_def merge_hook_def)

lemma hook_chain_first_cancel:
  "hr_cancel (run_hook p) \<Longrightarrow> \<forall>q \<in> set ps. \<not> hr_cancel (run_hook q) \<Longrightarrow>
   hook_chain (ps @ p # qs) agg = run_hook p"
  by (induction ps arbitrary: agg) (auto simp: Let_def)

lemma hook_chain_request:
  assumes "\<forall>p \<in> set ps. \<not> hr_cancel (run_hook p)"
  shows "hr_request (hook_chain ps agg) =
    (case filter (\<lambda>r. r \<noteq> None) (map (hr_request \<circ> run_hook) ps) of
       [] \<Rightarrow> hr_request agg | rs \<Rightarrow> last rs)"
  using assms
  by (induction ps arbitrary: agg) (auto simp: Let_def merge_hook_def split: option.splits list.splits)

section \<open>Router state and one provider attempt\<close>

record router =
  rt_metrics :: "(string, provider_metrics) dict"
  rt_accounting :: accounting
  rt_live :: live_benchmark
  rt_mode :: optimization_mode
  rt_traffic :: traffic

record env =
  env_now :: pyfloat
  env_calls :: "string \<Rightarrow> chat_request \<Rightarrow> nat \<Rightarrow> provider_exn + chat_response"
  env_jitter :: "nat \<Rightarrow> pyfloat"
  env_latency :: "string \<Rightarrow> string \<Rightarrow> pyfloat"
  env_plugins :: "plugin list"

definition metrics_of :: "pyfloat \<Rightarrow> string \<Rightarrow> router \<Rightarrow> provider_metrics" where
  "metrics_of now p rt =
     (case dict_get (rt_metrics rt) p of Some m \<Rightarrow> m | None \<Rightarrow> new_metrics '''' now)"

definition is_timeout :: "provider_exn \<Rightarrow> bool" where
  "is_timeout e \<longleftrightarrow> e = Builtin_Timeout \<or> e = Timeout_Error"

definition record_ok :: "env \<Rightarrow> string \<Rightarrow> string \<Rightarrow> chat_response \<Rightarrow> router \<Rightarrow> router" where
  "record_ok env p model rsp rt =
     (let u = (case rs_usage rsp of
                 Some u \<Rightarrow> u
               | None \<Rightarrow> \<lparr>us_prompt = 0, us_completion = 0, us_total = 0, us_cache = 0, us_reasoning = 0\<rparr>);
          latency = env_latency env p model;
          cost = estimate_cost p model (us_prompt u) (us_completion u) (us_cache u);
          m = metrics_success (env_now env) latency cost (us_prompt u) (us_completion u)
                (metrics_of (env_now env) p rt)
      in rt\<lparr>rt_metrics := dict_set p m (rt_metrics rt),
            rt_accounting := snd (record_usage p model (us_prompt u) (us_completion u) (us_cache u)
                                    (us_reasoning u) (rt_accounting rt)),
            rt_live := live_record (env_now env) p latency 0 (us_total u) True False model (rt_live rt)\<rparr>)"

definition record_error :: "env \<Rightarrow> string \<Rightarrow> string \<Rightarrow> bool \<Rightarrow> router \<Rightarrow> router" where
  "record_error env p model timeout rt =
     (let latency = env_latency env p model;
          m = metrics_failure (env_now env) latency (metrics_of (env_now env) p rt)
      in rt\<lparr>rt_metrics := dict_set p m (rt_metrics rt),
            rt_live := live_record (env_now env) p latency 0 0 False timeout model (rt_live rt)\<rparr>)"

definition touch_metrics :: "env \<Rightarrow> string \<Rightarrow> router \<Rightarrow> router" where
  "touch_metrics env p rt =
     rt\<lparr>rt_metrics := dict_set p (metrics_of (env_now env) p rt) (rt_metrics rt)\<rparr>"

definition try_provider ::
  "env \<Rightarrow> manager \<Rightarrow> string \<Rightarrow> string \<Rightarrow> chat_request \<Rightarrow> router \<Rightarrow> chat_response option \<times> router" where
  "try_provider env pm p model rq rt =
     (case manager_get p pm of
        None \<Rightarrow> (None, rt)
      | Some pname \<Rightarrow>
          (let rt1 = touch_metrics env p rt;
               hook = execute_before_provider (env_plugins env) rq p model
           in if hr_cancel hook then (None, rt1)
              else
                let rq1 = (case hr_request hook of None \<Rightarrow> rq | Some q \<Rightarrow> q);
                    rq2 = rq1\<lparr>cr_model := model\<rparr>
                in case fst (retry_with_backoff (env_calls env pname rq2) (env_jitter env) 3 1) of
                     Returned rsp \<Rightarrow> (Some rsp, record_ok env p model rsp rt1)
                   | Raised e \<Rightarrow> (None, record_error env p model (is_timeout e) rt1)
                   | Raise_None_TypeError \<Rightarrow> (None, record_error env p model False rt1)))"

section \<open>Routing a chat request\<close>

datatype router_error =
    Cancelled_By_Plugin string
  | No_Healthy_Provider string
  | All_Providers_Failed string "(string \<times> string) list"
  | Attribute_Error string

fun str_contains :: "string \<Rightarrow> string \<Rightarrow> bool" where
  "str_contains sub [] = (sub = [])"
| "str_contains sub (c # s) = (starts_with sub (c # s) \<or> str_contains sub s)"

definition set_add :: "'a \<Rightarrow> 'a list \<Rightarrow> 'a list" where
  "set_add x xs = (if x \<in> set xs then xs else xs @ [x])"

definition detect_message :: "message \<Rightarrow> string list \<Rightarrow> string list" where
  "detect_message msg required =
     (let r1 = (if str_contains ''data:image/'' (ms_content msg) \<or> str_contains ''![image]'' (ms_content msg)
                then set_add ''vision'' required else required)
      in if ms_tool_calls msg then set_add ''function_calling'' (set_add ''tools'' r1) else r1)"

definition detect_required_capabilities :: "chat_request \<Rightarrow> string list" where
  "detect_required_capabilities rq =
     fold detect_message (cr_messages rq) (if cr_stream rq then [''streaming''] else [])"

definition get_optimization_mode :: "chat_request \<Rightarrow> optimization_mode" where
  "get_optimization_mode rq =
     (let s = py_lower (cr_opt_mode rq)
      in if s = ''quality'' then QUALITY else if s = ''cheapest'' then CHEAPEST
         else if s = ''fastest'' then FASTEST else BALANCED)"

definition get_provider_configs ::
  "(string \<times> string) option \<Rightarrow> (string \<times> string) list \<Rightarrow> (string \<times> string) list" where
  "get_provider_configs primary fallbacks =
     (case primary of None \<Rightarrow> [] | Some c \<Rightarrow> [c]) @ fallbacks"

definition is_provider_available :: "manager \<Rightarrow> string \<Rightarrow> bool" where
  "is_provider_available pm p =
     (if \<not> dict_has (pm_providers pm) p then False
      else if is_disabled p pm then False
      else get_health_status p pm \<noteq> Some UNHEALTHY)"

definition available_candidates :: "manager \<Rightarrow> (string \<times> string) list \<Rightarrow> (string \<times> string) list" where
  "available_candidates pm candidates =
     (let available = filter (\<lambda>(p, m). is_provider_available pm p) candidates
      in if available = [] then candidates else available)"

definition providers_to_try ::
  "selection option \<Rightarrow> (string \<times> string) list \<Rightarrow> (string \<times> string) list" where
  "providers_to_try selected ranked =
     (case selected of
        None \<Rightarrow> ranked
      | Some s \<Rightarrow>
          (sl_provider s, sl_model s) # filter (\<lambda>c. c \<noteq> (sl_provider s, sl_model s)) ranked)"

fun failover ::
  "env \<Rightarrow> manager \<Rightarrow> (string \<times> string) list \<Rightarrow> chat_request \<Rightarrow> router \<Rightarrow>
   (chat_response \<times> string \<times> string) option \<times> router" where
  "failover env pm [] rq rt = (None, rt)"
| "failover env pm ((p, m) # rest) rq rt =
     (case try_provider env pm p m rq rt of
        (Some rsp, rt1) \<Rightarrow> (Some (rsp, p, m), rt1)
      | (None, rt1) \<Rightarrow> failover env pm rest rq rt1)"

definition finish_response ::
  "env \<Rightarrow> (chat_response \<Rightarrow> (string, string) dict \<Rightarrow> string + chat_response) \<Rightarrow> string \<Rightarrow>
   string \<Rightarrow> chat_request \<Rightarrow> chat_response \<Rightarrow> router_error + chat_response" where
  "finish_response env set_metadata request_id task rq rsp =
     (case set_metadata rsp [(''request_id'', request_id), (''task'', task)] of
        Inl err \<Rightarrow> Inl (Attribute_Error err)
      | Inr rsp1 \<Rightarrow>
          (let hook = execute_before_response (env_plugins env) rq rsp1
           in if hr_cancel hook then Inl (Cancelled_By_Plugin (hr_reason hook))
              else
                let rsp2 = (case hr_response hook of None \<Rightarrow> rsp1 | Some r \<Rightarrow> r)
                in Inr (rsp2\<lparr>rs_metadata := dict_update (hr_metadata hook) (rs_metadata rsp2)\<rparr>)))"

record chat_args =
  ca_request_id :: string
  ca_task :: string
  ca_primary :: "(string \<times> string) option"
  ca_fallbacks :: "(string \<times> string) list"
  ca_entries :: capability_registry
  ca_estimate :: "string \<Rightarrow> string \<Rightarrow> string \<Rightarrow> int"
  ca_u_ab :: pyfloat
  ca_u :: pyfloat
  ca_choice :: nat

definition estimate_prompt_tokens :: "(string \<Rightarrow> string \<Rightarrow> string \<Rightarrow> int) \<Rightarrow> string \<Rightarrow> string \<Rightarrow> string \<Rightarrow> int" where
  "estimate_prompt_tokens est txt model provider =
     (if model \<noteq> '''' then est txt model provider else max 1 (int (length txt) div 4))"

definition route ::
  "env \<Rightarrow> chat_args \<Rightarrow> manager \<Rightarrow> string list \<Rightarrow> (string \<times> string) list \<Rightarrow> chat_request \<Rightarrow> router \<Rightarrow>
   (string \<times> string) list \<times> router" where
  "route env a pm required available rq rt =
     (let full_prompt = join_with '' '' (map ms_content (cr_messages rq));
          (ph, mh) = hd available;
          ctx = \<lparr>rc_task = ca_task a,
                 rc_prompt_tokens = estimate_prompt_tokens (ca_estimate a)
                   (if full_prompt \<noteq> '''' then full_prompt else ca_task a) mh ph,
                 rc_mode = BALANCED, rc_preference = cr_preferred rq, rc_retry_attempt = 0,
                 rc_required = required\<rparr>;
          (scored, lb) = rank_providers (rt_mode rt) (env_now env) (rt_metrics rt) pm ctx (ca_entries a)
                           available (rt_live rt);
          (sel, td) = select (env_now env) (ca_u_ab a) (ca_u a) (ca_choice a) scored (rt_traffic rt)
      in (providers_to_try sel (map snd scored), rt\<lparr>rt_live := lb, rt_traffic := td\<rparr>))"

definition chat ::
  "env \<Rightarrow> (chat_response \<Rightarrow> (string, string) dict \<Rightarrow> string + chat_response) \<Rightarrow> chat_args \<Rightarrow> manager \<Rightarrow>
   chat_request \<Rightarrow> router \<Rightarrow> (router_error + chat_response) \<times> router" where
  "chat env set_metadata a pm rq rt =
     (let rt1 = rt\<lparr>rt_mode := get_optimization_mode rq\<rparr>;
          required = fold set_add (cr_required rq) (detect_required_capabilities rq);
          h1 = execute_before_request (env_plugins env) rq
      in if hr_cancel h1 then (Inl (Cancelled_By_Plugin (hr_reason h1)), rt1)
         else
           let rq1 = (case hr_request h1 of None \<Rightarrow> rq | Some q \<Rightarrow> q);
               h2 = execute_before_route (env_plugins env) rq1
           in if hr_cancel h2 then (Inl (Cancelled_By_Plugin (hr_reason h2)), rt1)
              else
                let rq2 = (case hr_request h2 of None \<Rightarrow> rq1 | Some q \<Rightarrow> q);
                    candidates = get_provider_configs (ca_primary a) (ca_fallbacks a);
                    available = available_candidates pm candidates
                in if available = [] then (Inl (No_Healthy_Provider (ca_task a)), rt1)
                   else
                     let (tries, rt2) = route env a pm required available rq2 rt1;
                         h3 = execute_after_route (env_plugins env) rq2 tries
                     in if hr_cancel h3 then (Inl (Cancelled_By_Plugin (hr_reason h3)), rt2)
                        else
                          case failover env pm tries rq2 rt2 of
                            (None, rt3) \<Rightarrow> (Inl (All_Providers_Failed (ca_task a) tries), rt3)
                          | (Some (rsp, p, m), rt3) \<Rightarrow>
                              (finish_response env set_metadata (ca_request_id a) (ca_task a) rq2 rsp, rt3))"

fun embeddings ::
  "(string \<Rightarrow> string \<Rightarrow> 'r option) \<Rightarrow> manager \<Rightarrow> (string \<times> string) list \<Rightarrow> 'r option" where
  "embeddings call pm [] = None"
| "embeddings call pm ((p, m) # rest) =
     (case manager_get p pm of
        None \<Rightarrow> embeddings call pm rest
      | Some pname \<Rightarrow> (case call pname m of Some r \<Rightarrow> Some r | None \<Rightarrow> embeddings call pm rest))"

section \<open>Persistence of the metrics\<close>

text \<open>The storage backend keeps one snapshot per name (\<open>INSERT ... ON CONFLICT(name) DO UPDATE\<close>).\<close>

definition persist_all_metrics :: "pyfloat \<Rightarrow> router \<Rightarrow> (string, provider_stats) dict \<Rightarrow> (string, provider_stats) dict" where
  "persist_all_metrics now rt db =
     fold (\<lambda>(p, m). dict_set (mt_name m) (to_storage now m)) (rt_metrics rt) db"

definition load_persisted_metrics :: "pyfloat \<Rightarrow> (string, provider_stats) dict \<Rightarrow> router \<Rightarrow> router" where
  "load_persisted_metrics now db rt =
     fold (\<lambda>(k, s) rt. if ps_name s \<noteq> ''''
                        then rt\<lparr>rt_metrics := dict_set (ps_name s) (from_storage now s) (rt_metrics rt)\<rparr>
                        else rt) db rt"

section \<open>Fail-over\<close>

text \<open>What one attempt answers depends on the provider, the hooks and the calls only, not on
  the statistics the router keeps.\<close>

definition attempt_response :: "env \<Rightarrow> manager \<Rightarrow> chat_request \<Rightarrow> string \<times> string \<Rightarrow> chat_response option" where
  "attempt_response env pm rq c =
     (case manager_get (fst c) pm of
        None \<Rightarrow> None
      | Some pname \<Rightarrow>
          (let hook = execute_before_provider (env_plugins env) rq (fst c) (snd c)
           in if hr_cancel hook then None
              else case fst (retry_with_backoff
                        (env_calls env pname ((case hr_request hook of None \<Rightarrow> rq | Some q \<Rightarrow> q)\<lparr>cr_model := snd c\<rparr>))
                        (env_jitter env) 3 1) of
                     Returned rsp \<Rightarrow> Some rsp
                   | _ \<Rightarrow> None))"

lemma try_provider_response: "fst (try_provider env pm p m rq rt) = attempt_response env pm rq (p, m)"
  by (simp add: try_provider_def attempt_response_def Let_def split: option.splits call_result.splits)

definition called :: "env \<Rightarrow> manager \<Rightarrow> chat_request \<Rightarrow> string \<times> string \<Rightarrow> bool" where
  "called env pm rq c \<longleftrightarrow> manager_get (fst c) pm \<noteq> None \<and>
     \<not> hr_cancel (execute_before_provider (env_plugins env) rq (fst c) (snd c))"

lemma metrics_of_update:
  "rt_metrics rt' = dict_set p m (rt_metrics rt) \<Longrightarrow>
   metrics_of now q rt' = (if q = p then m else metrics_of now q rt)"
  by (simp add: metrics_of_def)

lemma total_touch:
  "mt_total (metrics_of (env_now env) q (touch_metrics env p rt)) = mt_total (metrics_of (env_now env) q rt)"
  by (subst metrics_of_update [of _ p "metrics_of (env_now env) p rt" rt]) (simp_all add: touch_metrics_def)

lemma total_ok:
  "mt_total (metrics_of (env_now env) q (record_ok env p model rsp rt)) =
     mt_total (metrics_of (env_now env) q rt) + (if p = q then 1 else 0)"
  unfolding record_ok_def Let_def
  by (subst metrics_of_update [where rt = rt]) auto

lemma total_error:
  "mt_total (metrics_of (env_now env) q (record_error env p model b rt)) =
     mt_total (metrics_of (env_now env) q rt) + (if p = q then 1 else 0)"
  unfolding record_error_def Let_def
  by (subst metrics_of_update [where rt = rt]) auto

lemma try_provider_total:
  "mt_total (metrics_of (env_now env) q (snd (try_provider env pm p m rq rt))) =
     mt_total (metrics_of (env_now env) q rt) + (if p = q \<and> called env pm rq (p, m) then 1 else 0)"
  by (simp add: try_provider_def called_def total_touch total_ok total_error Let_def
      split: option.split call_result.split)

definition tried :: "env \<Rightarrow> manager \<Rightarrow> chat_request \<Rightarrow> (string \<times> string) list \<Rightarrow> (string \<times> string) list" where
  "tried env pm rq tries =
     (let failed = takeWhile (\<lambda>c. attempt_response env pm rq c = None) tries
      in take (Suc (length failed)) tries)"

lemma tried_simps [simp]:
  "tried env pm rq [] = []"
  "tried env pm rq (c # cs) = c # (if attempt_response env pm rq c = None then tried env pm rq cs else [])"
  by (simp_all add: tried_def Let_def)

lemma failover_response:
  "fst (failover env pm tries rq rt) =
     (case List.find (\<lambda>c. attempt_response env pm rq c \<noteq> None) tries of
        None \<Rightarrow> None
      | Some c \<Rightarrow> Some (the (attempt_response env pm rq c), c))"
proof (induction tries arbitrary: rt)
  case (Cons c tries)
  obtain p m where c: "c = (p, m)" by (cases c)
  show ?case
    using Cons try_provider_response [of env pm p m rq rt]
    by (cases "try_provider env pm p m rq rt"; cases "fst (try_provider env pm p m rq rt)") (auto simp: c)
qed simp

lemma failover_total:
  "mt_total (metrics_of (env_now env) q (snd (failover env pm tries rq rt))) =
     mt_total (metrics_of (env_now env) q rt) +
     int (length (filter (\<lambda>c. fst c = q \<and> called env pm rq c) (tried env pm rq tries)))"
proof (induction tries arbitrary: rt)
  case (Cons c tries)
  obtain p m where c: "c = (p, m)" by (cases c)
  obtain r rt1 where t: "try_provider env pm p m rq rt = (r, rt1)" by (meson surj_pair)
  have r: "attempt_response env pm rq (p, m) = r"
    using try_provider_response [of env pm p m rq rt] t by simp
  have tot: "mt_total (metrics_of (env_now env) q rt1) =
      mt_total (metrics_of (env_now env) q rt) + (if p = q \<and> called env pm rq (p, m) then 1 else 0)"
    using try_provider_total [of env q pm p m rq rt] t by simp
  show ?case using Cons.IH [of rt1] tot by (cases r) (auto simp: c t r)
qed simp

lemma providers_to_try_set:
  "set ranked \<subseteq> set (providers_to_try sel ranked)"
  by (auto simp: providers_to_try_def split: option.splits)

lemma route_tries:
  assumes "available \<noteq> []"
  shows "set available \<subseteq> set (fst (route env a pm required available rq rt))"
proof -
  obtain ph mh where hd: "hd available = (ph, mh)" by (meson surj_pair)
  define ctx where "ctx = \<lparr>rc_task = ca_task a, rc_prompt_tokens = estimate_prompt_tokens (ca_estimate a)
      (if join_with '' '' (map ms_content (cr_messages rq)) \<noteq> '''' then join_with '' '' (map ms_content (cr_messages rq))
       else ca_task a) mh ph, rc_mode = BALANCED, rc_preference = cr_preferred rq, rc_retry_attempt = 0,
       rc_required = required\<rparr>"
  define scored where "scored = fst (rank_providers (rt_mode rt) (env_now env) (rt_metrics rt) pm ctx
      (ca_entries a) available (rt_live rt))"
  have "set (map snd scored) = set available"
    unfolding scored_def rank_providers_sort by simp
  moreover have "fst (route env a pm required available rq rt) =
      providers_to_try (fst (select (env_now env) (ca_u_ab a) (ca_u a) (ca_choice a) scored (rt_traffic rt)))
        (map snd scored)"
    by (simp add: route_def hd Let_def case_prod_beta scored_def ctx_def)
  ultimately show ?thesis using providers_to_try_set by metis
qed

section \<open>Names of the recorded metrics\<close>

definition unnamed :: "router \<Rightarrow> bool" where
  "unnamed rt \<longleftrightarrow> (\<forall>(p, m) \<in> set (rt_metrics rt). mt_name m = '''')"

lemma unnamed_list_all: "unnamed rt \<longleftrightarrow> list_all (\<lambda>x. mt_name (snd x) = '''') (rt_metrics rt)"
  by (auto simp: unnamed_def list_all_iff)

lemma list_all_values_set:
  "list_all (\<lambda>x. P (snd x)) d \<Longrightarrow> P v \<Longrightarrow> list_all (\<lambda>x. P (snd x)) (dict_set k v d)"
  by (induction d) auto

lemma unnamed_metrics_of: "unnamed rt \<Longrightarrow> mt_name (metrics_of now p rt) = ''''"
  unfolding metrics_of_def
  by (cases "dict_get (rt_metrics rt) p")
    (auto simp: unnamed_list_all new_metrics_def list_all_iff dest!: dict_get_in)

lemma unnamed_update:
  assumes "unnamed rt" "mt_name m = ''''" "rt_metrics rt' = dict_set p m (rt_metrics rt)"
  shows "unnamed rt'"
  using assms list_all_values_set [where P = "\<lambda>m. mt_name m = []"] by (simp add: unnamed_list_all)

lemma unnamed_try_provider:
  assumes u: "unnamed rt"
  shows "unnamed (snd (try_provider env pm p m rq rt))"
proof -
  have t: "unnamed (touch_metrics env p rt)"
    by (rule unnamed_update [OF u unnamed_metrics_of [OF u]]) (simp add: touch_metrics_def)
  have ok: "unnamed (record_ok env p m rsp (touch_metrics env p rt))" for rsp
    by (rule unnamed_update [OF t]) (simp_all add: record_ok_def Let_def unnamed_metrics_of [OF t])
  have err: "unnamed (record_error env p m b (touch_metrics env p rt))" for b
    by (rule unnamed_update [OF t]) (simp_all add: record_error_def Let_def unnamed_metrics_of [OF t])
  show ?thesis using u t ok err
    by (simp add: try_provider_def Let_def split: option.split call_result.split)
qed

lemma unnamed_failover: "unnamed rt \<Longrightarrow> unnamed (snd (failover env pm tries rq rt))"
proof (induction tries arbitrary: rt)
  case (Cons c tries)
  obtain p m where c: "c = (p, m)" by (cases c)
  have "unnamed (snd (try_provider env pm p m rq rt))" using Cons.prems by (rule unnamed_try_provider)
  then show ?case using Cons.IH by (auto simp: c split: prod.split option.split)
qed simp

lemma rt_metrics_route [simp]:
  "rt_metrics (snd (route env a pm required available rq rt)) = rt_metrics rt"
  by (simp add: route_def Let_def case_prod_beta)

lemma unnamed_chat: "unnamed rt \<Longrightarrow> unnamed (snd (chat env set_metadata a pm rq rt))"
  by (auto simp: chat_def Let_def case_prod_beta unnamed_def [of "_\<lparr>rt_mode := _\<rparr>"] unnamed_def [of "snd (route _ _ _ _ _ _ _)"]
      unnamed_def [of rt] intro!: unnamed_failover split: option.splits)

section \<open>Properties\<close>

text \<open>
  C15. Retries with \<open>k + 1\<close> attempts: the result is that of the first attempt that is final (a
  success, or an error that must not be retried), or of the last attempt when all are
  retryable errors; between the attempts the delays are \<open>base * 2\<^sup>j\<close> plus jitter, and there is
  none after the last one. An error is retried exactly when it has no HTTP status or one of
  429, 500, 502, 503 and 504.
\<close>

theorem retry_correct:
  "retry_with_backoff calls jitter (Suc k) base =
     (let i = min (length (takeWhile try_again (map calls [0..<Suc k]))) k
      in (as_result (calls i), map (\<lambda>j. base * 2 ^ j + jitter j) [0..<i])) \<and>
   (try_again (Inl e) \<longleftrightarrow>
      (case exn_status e of None \<Rightarrow> True | Some c \<Rightarrow> c \<in> {429, 500, 502, 503, 504}))"
proof
  let ?outs = "map calls [0..<Suc k]"
  define i where "i = length (takeWhile try_again ?outs)"
  have before: "try_again (calls j)" if "j < i" for j
  proof -
    have "j < length ?outs" using that length_takeWhile_le [of try_again ?outs] by (simp add: i_def)
    then have "takeWhile try_again ?outs ! j = calls j"
      using that takeWhile_nth [of j try_again ?outs] by (simp add: i_def del: upt_Suc)
    moreover have "takeWhile try_again ?outs ! j \<in> set (takeWhile try_again ?outs)"
      using that by (simp add: i_def)
    ultimately show ?thesis using set_takeWhileD by metis
  qed
  show "retry_with_backoff calls jitter (Suc k) base =
     (let i = min (length (takeWhile try_again ?outs)) k
      in (as_result (calls i), map (\<lambda>j. base * 2 ^ j + jitter j) [0..<i]))"
  proof (cases "i \<le> k")
    case True
    then have "\<not> try_again (calls i)"
      using nth_length_takeWhile [of try_again ?outs] by (simp add: i_def del: upt_Suc)
    then have "retry_loop calls jitter (Suc k) base 0 None =
        (as_result (calls i), map (\<lambda>j. base * 2 ^ j + jitter j) [0..<i])"
      using True before by (intro retry_loop_first_final) auto
    with True show ?thesis by (simp add: retry_with_backoff_def i_def Let_def min_absorb1 del: upt_Suc)
  next
    case False
    then have "retry_loop calls jitter (Suc k) base 0 None =
        (as_result (calls (Suc k - 1)), map (\<lambda>j. base * 2 ^ j + jitter j) [0..<Suc k - 1])"
      using before by (intro retry_loop_exhausted) auto
    with False show ?thesis by (simp add: retry_with_backoff_def i_def Let_def min_absorb2 del: upt_Suc)
  qed
  show "try_again (Inl e) \<longleftrightarrow>
      (case exn_status e of None \<Rightarrow> True | Some c \<Rightarrow> c \<in> {429, 500, 502, 503, 504})"
    by (cases e) (auto simp: try_again_def is_retryable_def is_non_retryable_def RETRYABLE_CODES_def)
qed

text \<open>
  C16. The hook chain: the chain is cancelled exactly when some enabled plugin's hook cancels,
  and otherwise the request handed on is the one of the last plugin that supplied one (every
  plugin sees the original request, earlier modifications are replaced, not composed).
\<close>

theorem hook_chain_semantics:
  "(hr_cancel (hook_chain ps empty_hook) \<longleftrightarrow> list_ex (\<lambda>p. hr_cancel (run_hook p)) ps) \<and>
   (if list_ex (\<lambda>p. hr_cancel (run_hook p)) ps
    then hook_chain ps empty_hook = run_hook (hd (dropWhile (\<lambda>p. \<not> hr_cancel (run_hook p)) ps))
    else hr_request (hook_chain ps empty_hook) =
      (case filter (\<lambda>r. r \<noteq> None) (map (hr_request \<circ> run_hook) ps) of [] \<Rightarrow> None | rs \<Rightarrow> last rs))"
proof -
  have "hook_chain ps empty_hook = run_hook (hd (dropWhile (\<lambda>p. \<not> hr_cancel (run_hook p)) ps))"
    if ex: "list_ex (\<lambda>p. hr_cancel (run_hook p)) ps"
  proof -
    obtain xs p qs where ps: "ps = xs @ p # qs" "hr_cancel (run_hook p)" "\<forall>q \<in> set xs. \<not> hr_cancel (run_hook q)"
      using ex split_list_first_prop [of ps "\<lambda>p. hr_cancel (run_hook p)"] unfolding list_ex_iff by blast
    then show ?thesis using hook_chain_first_cancel [OF ps(2,3)] by (simp add: dropWhile_append3)
  qed
  moreover have "hr_request (hook_chain ps empty_hook) =
      (case filter (\<lambda>r. r \<noteq> None) (map (hr_request \<circ> run_hook) ps) of [] \<Rightarrow> None | rs \<Rightarrow> last rs)"
    if "\<not> list_ex (\<lambda>p. hr_cancel (run_hook p)) ps"
    using hook_chain_request [of ps empty_hook] that by (simp add: list_ex_iff split: list.split)
  ultimately show ?thesis
    using hook_chain_cancel_iff [of empty_hook ps] by (simp add: list_ex_iff)
qed



definition sample_env :: env where
  "sample_env = \<lparr>env_now = 10, env_calls = (\<lambda>p rq n. Inr \<lparr>rs_content = ''hi'', rs_usage = None, rs_metadata = []\<rparr>),
     env_jitter = (\<lambda>n. 0), env_latency = (\<lambda>p m. 5), env_plugins = []\<rparr>"

definition sample_manager :: manager where
  "sample_manager = new_manager\<lparr>pm_providers := [(''groq'', ''groq'')]\<rparr>"

definition sample_args :: chat_args where
  "sample_args = \<lparr>ca_request_id = ''r1'', ca_task = ''chat'', ca_primary = Some (''groq'', ''llama''), ca_fallbacks = [], ca_entries = [],
     ca_estimate = (\<lambda>t m p. 1), ca_u_ab = 0, ca_u = 0, ca_choice = 0\<rparr>"

definition sample_request :: chat_request where
  "sample_request = \<lparr>cr_model = ''x'', cr_messages = [], cr_stream = False, cr_opt_mode = '''', cr_required = [], cr_preferred = None\<rparr>"

definition fresh_router :: "traffic_config \<Rightarrow> router" where
  "fresh_router cfg = \<lparr>rt_metrics = [], rt_accounting = new_accounting, rt_live = [], rt_mode = BALANCED,
     rt_traffic = new_traffic cfg\<rparr>"


text \<open>
  The response class declares no \<open>metadata\<close> field. If assigning it is refused for every
  response, as Pydantic does for undeclared fields, then \<open>chat\<close> returns no response at all,
  even when a provider has answered.
\<close>

theorem chat_fails_without_metadata_field:
  assumes "\<And>rsp md. \<exists>err. set_metadata rsp md = Inl err"
  shows "\<exists>err. fst (chat env set_metadata a pm rq rt) = Inl err"
proof -
  have "\<exists>err. finish_response env set_metadata i t q rsp = Inl err" for i t q rsp
    using assms [of rsp "[(''request_id'', i), (''task'', t)]"] by (auto simp: finish_response_def)
  then show ?thesis
    by (auto simp: chat_def Let_def case_prod_beta split: option.split)
qed

lemma chat_fails_without_metadata_field_witness:
  "\<exists>err. fst (chat sample_env (\<lambda>r md. Inl ''no field metadata'') sample_args sample_manager sample_request
     (fresh_router plain_config)) = Inl err"
  by (rule chat_fails_without_metadata_field) simp

text \<open>The states of a router that starts without metrics and serves chat requests.\<close>

inductive router_reachable :: "router \<Rightarrow> bool" where
  router_init: "router_reachable (fresh_router cfg)"
| router_chat: "router_reachable rt \<Longrightarrow> router_reachable (snd (chat env set_metadata a pm rq rt))"

lemma router_reachable_unnamed: "router_reachable rt \<Longrightarrow> unnamed rt"
proof (induction rule: router_reachable.induct)
  case (router_init cfg)
  then show ?case by (simp add: unnamed_def fresh_router_def)
next
  case (router_chat rt env set_metadata a pm rq)
  then show ?case by (rule_tac unnamed_chat)
qed

lemma persist_unnamed:
  assumes "list_all (\<lambda>x. mt_name (snd x) = '''') ms" "list_all (\<lambda>x. ps_name (snd x) = '''') db"
  shows "list_all (\<lambda>x. ps_name (snd x) = '''')
    (fold (\<lambda>(p, m). dict_set (mt_name m) (to_storage now m)) ms db)"
  using assms
proof (induction ms arbitrary: db)
  case (Cons x ms)
  obtain p m where x: "x = (p, m)" by (cases x)
  have "ps_name (to_storage now m) = ''''" using Cons.prems(1) by (simp add: x to_storage_def)
  then have "list_all (\<lambda>x. ps_name (snd x) = '''') (dict_set (mt_name m) (to_storage now m) db)"
    by (rule list_all_values_set [where P = "\<lambda>s. ps_name s = ''''", OF Cons.prems(2)])
  with Cons show ?case by (simp add: x)
qed simp

lemma load_unnamed:
  "list_all (\<lambda>x. ps_name (snd x) = '''') db \<Longrightarrow> load_persisted_metrics now db rt = rt"
  unfolding load_persisted_metrics_def by (induction db arbitrary: rt) auto

lemma build_reputation_unnamed:
  "mt_name m = [] \<Longrightarrow> rp_benchmark (fst (build_reputation m now st lb)) = 50"
  by (simp add: build_reputation_def Let_def)

text \<open>
  The metrics a router records carry no provider name: after any sequence of chat requests
  the statistics it persists are all skipped when they are loaded again, so nothing is
  restored, and the live benchmark never enters a score (it counts with its default 50).
\<close>

theorem recorded_metrics_not_restored:
  assumes "router_reachable rt"
  shows "load_persisted_metrics later (persist_all_metrics now rt []) rt0 = rt0 \<and>
         list_all (\<lambda>x. rp_benchmark (fst (build_reputation (snd x) now st lb)) = 50) (rt_metrics rt)"
proof -
  have u: "list_all (\<lambda>x. mt_name (snd x) = '''') (rt_metrics rt)"
    using router_reachable_unnamed [OF assms] by (simp add: unnamed_list_all)
  then have "list_all (\<lambda>x. rp_benchmark (fst (build_reputation (snd x) now st lb)) = 50) (rt_metrics rt)"
    by (rule list.pred_mono_strong) (rule build_reputation_unnamed)
  then show ?thesis
    using load_unnamed persist_unnamed [OF u] by (simp add: persist_all_metrics_def)
qed

lemma recorded_metrics_not_restored_witness:
  "load_persisted_metrics 20 (persist_all_metrics 10
     (snd (chat sample_env (\<lambda>r md. Inr r) sample_args sample_manager sample_request (fresh_router plain_config))) [])
     (fresh_router plain_config) = fresh_router plain_config"
  using recorded_metrics_not_restored [OF router_chat [OF router_init]] by blast

end
