(* ===== verification/Limiters.thy ===== *)
theory Limiters
  imports Interfaces
begin

text \<open>
  The rate limiters of \<^verbatim>\<open>app/gateway/ratelimit.py\<close>: token bucket, leaky bucket, sliding and
  fixed window behind one strategy interface, and the registry of per-key policies.

  The interface is the locale \<open>rate_limit_strategy\<close>: checks of one key see and change the
  state of that key only. It is interpreted on each of the four strategies. A check reads
  the clock once (\<open>now\<close>); costs are natural numbers; rates and windows are positive, as the
  divisions of the code require. The per-key containers a strategy keeps side by side (for
  the token bucket \<open>_tokens\<close> and \<open>_updated\<close>) are filled and dropped together and form one
  dictionary of pairs here.
\<close>

section \<open>Decisions and the strategy interface\<close>

record decision =
  dc_allowed :: bool
  dc_strategy :: string
  dc_key :: string
  dc_limit :: int
  dc_remaining :: int
  dc_retry_after :: pyfloat
  dc_reset_at :: pyfloat

type_synonym 's checker = "pyfloat \<Rightarrow> string \<Rightarrow> nat \<Rightarrow> 's \<Rightarrow> decision \<times> 's"
type_synonym check_call = "pyfloat \<times> string \<times> nat"

fun run_checks :: "'s checker \<Rightarrow> check_call list \<Rightarrow> 's \<Rightarrow> (check_call \<times> decision) list \<times> 's" where
  "run_checks check [] s = ([], s)"
| "run_checks check ((now, key, cost) # cs) s =
     (let (d, s1) = check now key cost s; (ds, s2) = run_checks check cs s1
      in (((now, key, cost), d) # ds, s2))"

definition call_key :: "check_call \<Rightarrow> string" where
  "call_key c = fst (snd c)"

locale rate_limit_strategy =
  fixes check :: "'s checker"
    and reset :: "string \<Rightarrow> 's \<Rightarrow> 's"
    and view :: "'s \<Rightarrow> string \<Rightarrow> 'v option"
    and inv :: "'s \<Rightarrow> bool"
    and capacity :: int
  assumes check_local: "view s key = view s' key \<Longrightarrow>
      fst (check now key cost s) = fst (check now key cost s') \<and>
      view (snd (check now key cost s)) key = view (snd (check now key cost s')) key"
    and check_other: "key' \<noteq> key \<Longrightarrow> view (snd (check now key cost s)) key' = view s key'"
    and reset_view: "view (reset key s) key' = (if key' = key then None else view s key')"
    and check_inv: "inv s \<Longrightarrow> inv (snd (check now key cost s))"
    and reset_inv: "inv s \<Longrightarrow> inv (reset key s)"
    and remaining: "inv s \<Longrightarrow> 0 \<le> dc_remaining (fst (check now key cost s)) \<and>
      dc_remaining (fst (check now key cost s)) \<le> max 0 capacity"
begin

lemma run_inv: "inv s \<Longrightarrow> inv (snd (run_checks check calls s))"
proof (induction calls arbitrary: s)
  case (Cons c calls)
  then show ?case by (cases c) (simp add: Let_def case_prod_beta check_inv)
qed simp

lemma run_remaining:
  "inv s \<Longrightarrow> list_all (\<lambda>(c, d). 0 \<le> dc_remaining d \<and> dc_remaining d \<le> max 0 capacity)
     (fst (run_checks check calls s))"
proof (induction calls arbitrary: s)
  case (Cons c calls)
  then show ?case by (cases c) (simp add: Let_def case_prod_beta check_inv remaining)
qed simp

text \<open>The decisions for one key are those of the run restricted to that key.\<close>

lemma run_key_cong:
  "view s key = view s' key \<Longrightarrow>
   filter (\<lambda>x. call_key (fst x) = key) (fst (run_checks check calls s)) =
   fst (run_checks check (filter (\<lambda>c. call_key c = key) calls) s')"
proof (induction calls arbitrary: s s')
  case (Cons c calls)
  obtain now k cost where c: "c = (now, k, cost)" by (cases c)
  show ?case
  proof (cases "k = key")
    case True
    from check_local [OF Cons.prems, of now cost] True Cons.IH show ?thesis
      by (simp add: c call_key_def Let_def case_prod_beta)
  next
    case False
    then have "view (snd (check now k cost s)) key = view s' key"
      using check_other [of key k now cost s] Cons.prems by simp
    with Cons.IH False show ?thesis by (simp add: c call_key_def Let_def case_prod_beta)
  qed
qed simp

lemma run_key_independent:
  "filter (\<lambda>x. call_key (fst x) = key) (fst (run_checks check calls s)) =
   fst (run_checks check (filter (\<lambda>c. call_key c = key) calls) s)"
  by (rule run_key_cong) simp

lemma reset_check: "fst (check now key cost (reset key s)) = fst (check now key cost (reset key s'))"
  using check_local [of "reset key s" key "reset key s'" now cost] by (simp add: reset_view)

end

section \<open>Token bucket\<close>

record token_bucket =
  tb_rate :: pyfloat
  tb_burst :: int
  tb_initial :: "pyfloat option"

type_synonym tb_state = "(string, pyfloat \<times> pyfloat) dict"

definition tb_default :: "token_bucket \<Rightarrow> pyfloat" where
  "tb_default tb = (case tb_initial tb of None \<Rightarrow> of_int (tb_burst tb) | Some x \<Rightarrow> x)"

definition tb_refill :: "token_bucket \<Rightarrow> string \<Rightarrow> pyfloat \<Rightarrow> tb_state \<Rightarrow> pyfloat \<times> tb_state" where
  "tb_refill tb key now s =
     (let (tokens, updated) = dict_get_or s key (tb_default tb, now);
          elapsed = now - updated;
          tokens' = min (of_int (tb_burst tb)) (tokens + elapsed * tb_rate tb)
      in (tokens', dict_set key (tokens', now) s))"

definition tb_check :: "token_bucket \<Rightarrow> tb_state checker" where
  "tb_check tb now key cost s =
     (let (tokens, s1) = tb_refill tb key now s
      in if of_nat cost \<le> tokens
         then (\<lparr>dc_allowed = True, dc_strategy = ''token_bucket'', dc_key = key, dc_limit = tb_burst tb,
                dc_remaining = py_int (min (of_int (tb_burst tb)) (tokens - of_nat cost)),
                dc_retry_after = 0,
                dc_reset_at = now + (of_int (tb_burst tb) - tokens + of_nat cost) / tb_rate tb\<rparr>,
               dict_set key (tokens - of_nat cost, now) s1)
         else (\<lparr>dc_allowed = False, dc_strategy = ''token_bucket'', dc_key = key, dc_limit = tb_burst tb,
                dc_remaining = 0, dc_retry_after = (of_nat cost - tokens) / tb_rate tb,
                dc_reset_at = now + (of_nat cost - tokens) / tb_rate tb\<rparr>, s1))"

definition tb_reset :: "string \<Rightarrow> tb_state \<Rightarrow> tb_state" where
  "tb_reset key s = dict_pop key s"

definition tb_status :: "token_bucket \<Rightarrow> pyfloat \<Rightarrow> string \<Rightarrow> tb_state \<Rightarrow> (pyfloat \<times> int) \<times> tb_state" where
  "tb_status tb now key s =
     (let (tokens, s1) = tb_refill tb key now s
      in ((tokens, py_int (min (of_int (tb_burst tb)) tokens)), s1))"

lemma dict_get_or_cong: "dict_get d k = dict_get d' k \<Longrightarrow> dict_get_or d k x = dict_get_or d' k x"
  by (simp add: dict_get_or_def)

interpretation tb: rate_limit_strategy "tb_check tb" tb_reset map_of "\<lambda>_. True" "tb_burst tb"
proof
  fix s s' :: tb_state and key now cost
  assume "dict_get s key = dict_get s' key"
  then have "dict_get_or s key x = dict_get_or s' key x" for x by (rule dict_get_or_cong)
  then show "fst (tb_check tb now key cost s) = fst (tb_check tb now key cost s') \<and>
      dict_get (snd (tb_check tb now key cost s)) key = dict_get (snd (tb_check tb now key cost s')) key"
    by (simp add: tb_check_def tb_refill_def Let_def case_prod_beta)
next
  fix key now cost and s :: tb_state
  show "0 \<le> dc_remaining (fst (tb_check tb now key cost s)) \<and>
      dc_remaining (fst (tb_check tb now key cost s)) \<le> max 0 (tb_burst tb)"
    by (auto simp: tb_check_def tb_refill_def Let_def case_prod_beta py_int_def le_floor_iff floor_le_iff)
qed (simp_all add: tb_check_def tb_refill_def tb_reset_def Let_def case_prod_beta)

section \<open>Leaky bucket\<close>

record leaky_bucket =
  lb_rate :: pyfloat
  lb_capacity :: int

type_synonym lb_state = "(string, pyfloat list \<times> pyfloat) dict"

definition lb_drain :: "leaky_bucket \<Rightarrow> string \<Rightarrow> pyfloat \<Rightarrow> lb_state \<Rightarrow> lb_state" where
  "lb_drain lb key now s =
     (let (queue, last_drip) = dict_get_or s key ([], now);
          elapsed = now - last_drip;
          drip_count = py_int (elapsed * lb_rate lb)
      in if drip_count \<le> 0 then dict_set key (queue, last_drip) s
         else dict_set key (drop (min (nat drip_count) (length queue)) queue, now) s)"

definition lb_check :: "leaky_bucket \<Rightarrow> lb_state checker" where
  "lb_check lb now key cost s =
     (let s1 = lb_drain lb key now s;
          (queue, last_drip) = dict_get_or s1 key ([], now)
      in if int (length queue + cost) \<le> lb_capacity lb
         then (let queue' = queue @ replicate cost now
               in (\<lparr>dc_allowed = True, dc_strategy = ''leaky_bucket'', dc_key = key,
                    dc_limit = lb_capacity lb, dc_remaining = lb_capacity lb - int (length queue'),
                    dc_retry_after = 0, dc_reset_at = now + of_nat (length queue') / lb_rate lb\<rparr>,
                   dict_set key (queue', last_drip) s1))
         else (let oldest = (if queue = [] then now else hd queue);
                   over = of_int (int (length queue + cost) - lb_capacity lb)
               in (\<lparr>dc_allowed = False, dc_strategy = ''leaky_bucket'', dc_key = key,
                    dc_limit = lb_capacity lb, dc_remaining = 0, dc_retry_after = over / lb_rate lb,
                    dc_reset_at = oldest + over / lb_rate lb\<rparr>, s1)))"

definition lb_reset :: "string \<Rightarrow> lb_state \<Rightarrow> lb_state" where
  "lb_reset key s = dict_pop key s"

interpretation lb: rate_limit_strategy "lb_check lb" lb_reset map_of "\<lambda>_. True" "lb_capacity lb"
proof
  fix s s' :: lb_state and key now cost
  assume "dict_get s key = dict_get s' key"
  then have "dict_get_or s key x = dict_get_or s' key x" for x by (rule dict_get_or_cong)
  then show "fst (lb_check lb now key cost s) = fst (lb_check lb now key cost s') \<and>
      dict_get (snd (lb_check lb now key cost s)) key = dict_get (snd (lb_check lb now key cost s')) key"
    by (simp add: lb_check_def lb_drain_def Let_def case_prod_beta)
qed (auto simp: lb_check_def lb_drain_def lb_reset_def Let_def case_prod_beta)

section \<open>Sliding window\<close>

record sliding_window =
  sw_limit :: int
  sw_window :: pyfloat

type_synonym sw_state = "(string, pyfloat list) dict"

definition sw_prune :: "sliding_window \<Rightarrow> string \<Rightarrow> pyfloat \<Rightarrow> sw_state \<Rightarrow> sw_state" where
  "sw_prune sw key now s =
     dict_set key (dropWhile (\<lambda>t. t < now - sw_window sw) (dict_get_or s key [])) s"

definition sw_check :: "sliding_window \<Rightarrow> sw_state checker" where
  "sw_check sw now key cost s =
     (let s1 = sw_prune sw key now s;
          window = dict_get_or s1 key []
      in if int (length window + cost) \<le> sw_limit sw
         then (let window' = window @ replicate cost now
               in (\<lparr>dc_allowed = True, dc_strategy = ''sliding_window'', dc_key = key,
                    dc_limit = sw_limit sw, dc_remaining = sw_limit sw - int (length window'),
                    dc_retry_after = 0,
                    dc_reset_at = (if window' = [] then now else hd window') + sw_window sw\<rparr>,
                   dict_set key window' s1))
         else (let oldest = (if window = [] then now else hd window)
               in (\<lparr>dc_allowed = False, dc_strategy = ''sliding_window'', dc_key = key,
                    dc_limit = sw_limit sw, dc_remaining = 0,
                    dc_retry_after = oldest + sw_window sw - now, dc_reset_at = oldest + sw_window sw\<rparr>,
                   s1)))"

definition sw_reset :: "string \<Rightarrow> sw_state \<Rightarrow> sw_state" where
  "sw_reset key s = dict_pop key s"

definition sw_status :: "sliding_window \<Rightarrow> pyfloat \<Rightarrow> string \<Rightarrow> sw_state \<Rightarrow> (nat \<times> int) \<times> sw_state" where
  "sw_status sw now key s =
     (let s1 = sw_prune sw key now s; used = length (dict_get_or s1 key [])
      in ((used, max 0 (sw_limit sw - int used)), s1))"

interpretation sw: rate_limit_strategy "sw_check sw" sw_reset map_of "\<lambda>_. True" "sw_limit sw"
proof
  fix s s' :: sw_state and key now cost
  assume "dict_get s key = dict_get s' key"
  then have "dict_get_or s key x = dict_get_or s' key x" for x by (rule dict_get_or_cong)
  then show "fst (sw_check sw now key cost s) = fst (sw_check sw now key cost s') \<and>
      dict_get (snd (sw_check sw now key cost s)) key = dict_get (snd (sw_check sw now key cost s')) key"
    by (simp add: sw_check_def sw_prune_def Let_def)
qed (auto simp: sw_check_def sw_prune_def sw_reset_def Let_def)

section \<open>Fixed window\<close>

record fixed_window =
  fw_limit :: int
  fw_window :: pyfloat

type_synonym fw_state = "(string, (int, int) dict) dict"

definition fw_bucket :: "fixed_window \<Rightarrow> pyfloat \<Rightarrow> int" where
  "fw_bucket fw now = \<lfloor>now / fw_window fw\<rfloor>"

definition fw_check :: "fixed_window \<Rightarrow> fw_state checker" where
  "fw_check fw now key cost s =
     (let bucket = fw_bucket fw now;
          counts0 = dict_get_or s key [];
          counts = (if dict_has counts0 bucket then counts0 else [(bucket, 0)]);
          used = dict_get_or counts bucket 0;
          reset_at = of_int (bucket + 1) * fw_window fw
      in if used + int cost \<le> fw_limit fw
         then (\<lparr>dc_allowed = True, dc_strategy = ''fixed_window'', dc_key = key, dc_limit = fw_limit fw,
                dc_remaining = fw_limit fw - (used + int cost), dc_retry_after = 0, dc_reset_at = reset_at\<rparr>,
               dict_set key (dict_set bucket (used + int cost) counts) s)
         else (\<lparr>dc_allowed = False, dc_strategy = ''fixed_window'', dc_key = key, dc_limit = fw_limit fw,
                dc_remaining = 0, dc_retry_after = reset_at - now, dc_reset_at = reset_at\<rparr>,
               dict_set key counts s))"

definition fw_reset :: "string \<Rightarrow> fw_state \<Rightarrow> fw_state" where
  "fw_reset key s = dict_pop key s"

text \<open>Counters are never negative.\<close>

definition fw_nonneg :: "fw_state \<Rightarrow> bool" where
  "fw_nonneg s \<longleftrightarrow>
     (\<forall>key counts b n. dict_get s key = Some counts \<longrightarrow> dict_get counts b = Some n \<longrightarrow> 0 \<le> n)"

lemma fw_nonneg_set:
  "fw_nonneg s \<Longrightarrow> (\<And>b n. dict_get counts b = Some n \<Longrightarrow> 0 \<le> n) \<Longrightarrow> fw_nonneg (dict_set key counts s)"
  by (auto simp: fw_nonneg_def)

lemma fw_used_nonneg:
  assumes "fw_nonneg s"
  shows "0 \<le> dict_get_or (dict_get_or s key []) b 0"
  using assms by (auto simp: fw_nonneg_def dict_get_or_def split: option.splits)

interpretation fw: rate_limit_strategy "fw_check fw" fw_reset map_of fw_nonneg "fw_limit fw"
proof
  fix s s' :: fw_state and key now cost
  assume "dict_get s key = dict_get s' key"
  then have "dict_get_or s key x = dict_get_or s' key x" for x by (rule dict_get_or_cong)
  then show "fst (fw_check fw now key cost s) = fst (fw_check fw now key cost s') \<and>
      dict_get (snd (fw_check fw now key cost s)) key = dict_get (snd (fw_check fw now key cost s')) key"
    by (simp add: fw_check_def Let_def)
next
  fix s :: fw_state and key now cost
  assume nn: "fw_nonneg s"
  let ?b = "fw_bucket fw now" and ?c0 = "dict_get_or s key []"
  define counts where "counts = (if dict_has ?c0 ?b then ?c0 else [(?b, 0)])"
  have c: "0 \<le> n" if "dict_get counts b = Some n" for b n
    using that nn by (auto simp: counts_def fw_nonneg_def dict_get_or_def split: if_splits option.splits)
  have u: "0 \<le> dict_get_or counts ?b 0"
    using c by (auto simp: dict_get_or_def split: option.splits)
  show "fw_nonneg (snd (fw_check fw now key cost s))"
    using nn c u by (auto simp: fw_check_def Let_def counts_def [symmetric] intro!: fw_nonneg_set split: if_splits)
  show "0 \<le> dc_remaining (fst (fw_check fw now key cost s)) \<and>
      dc_remaining (fst (fw_check fw now key cost s)) \<le> max 0 (fw_limit fw)"
    using u by (auto simp: fw_check_def Let_def counts_def [symmetric])
next
  fix s :: fw_state and key
  assume "fw_nonneg s"
  then show "fw_nonneg (fw_reset key s)" by (auto simp: fw_nonneg_def fw_reset_def)
qed (simp_all add: fw_check_def fw_reset_def Let_def)

section \<open>Admission bounds\<close>

text \<open>What a run admits for a key: the units (one per unit of cost) with the time of their check.\<close>

fun admitted_units :: "string \<Rightarrow> (check_call \<times> decision) list \<Rightarrow> pyfloat list" where
  "admitted_units key [] = []"
| "admitted_units key (((now, k, cost), d) # rest) =
     (if k = key \<and> dc_allowed d then replicate cost now else []) @ admitted_units key rest"

definition timely :: "pyfloat \<Rightarrow> check_call list \<Rightarrow> bool" where
  "timely t0 calls \<longleftrightarrow> sorted (t0 # map fst calls)"

lemma timely_Cons: "timely t0 ((now, k, c) # calls) \<longleftrightarrow> t0 \<le> now \<and> timely now calls"
  by (auto simp: timely_def)

subsection \<open>Sliding window\<close>

text \<open>
  The state of a key against the units \<open>H\<close> admitted so far, up to time \<open>t\<close>: the deque holds the
  units of the window that ends at \<open>t\<close>, possibly with older ones in front that the next check
  prunes, and no window of the configured length holds more than the limit.
\<close>

definition sw_ok :: "sliding_window \<Rightarrow> pyfloat \<Rightarrow> pyfloat list \<Rightarrow> pyfloat list \<Rightarrow> bool" where
  "sw_ok sw t H q \<longleftrightarrow>
     sorted H \<and> (\<forall>x \<in> set H. x \<le> t) \<and>
     (\<forall>now \<ge> t. dropWhile (\<lambda>x. x < now - sw_window sw) q = filter (\<lambda>x. now - sw_window sw \<le> x) H) \<and>
     (\<forall>a. int (length (filter (\<lambda>x. a \<le> x \<and> x \<le> a + sw_window sw) H)) \<le> max 0 (sw_limit sw))"

lemma dropWhile_sorted: "sorted xs \<Longrightarrow> dropWhile (\<lambda>x. x < c) xs = filter (\<lambda>x. c \<le> x) xs"
proof (induction xs)
  case (Cons x xs)
  show ?case
  proof (cases "x < c")
    case True
    with Cons show ?thesis by simp
  next
    case False
    then have "\<forall>y \<in> set xs. c \<le> y" using Cons.prems by auto
    with False show ?thesis by simp
  qed
qed simp

lemma sw_ok_Nil: "sw_ok sw t [] []"
  by (simp add: sw_ok_def)

lemma sw_ok_later: "sw_ok sw t H q \<Longrightarrow> t \<le> t' \<Longrightarrow> sw_ok sw t' H q"
  by (fastforce simp: sw_ok_def)

lemma sw_ok_pruned:
  assumes "sw_ok sw t H q" "t \<le> now"
  shows "sw_ok sw now H (filter (\<lambda>x. now - sw_window sw \<le> x) H)"
proof -
  have s: "sorted H" using assms by (simp add: sw_ok_def)
  have "dropWhile (\<lambda>x. x < now' - sw_window sw) (filter (\<lambda>x. now - sw_window sw \<le> x) H) =
      filter (\<lambda>x. now' - sw_window sw \<le> x) H" if "now \<le> now'" for now'
    using that s by (subst dropWhile_sorted) (auto simp: sorted_wrt_filter intro!: filter_cong)
  then show ?thesis using sw_ok_later [OF assms] by (simp add: sw_ok_def)
qed

lemma sw_ok_admit:
  assumes ok: "sw_ok sw t H q" and now: "t \<le> now" and w: "0 \<le> sw_window sw"
    and fits: "int (length (filter (\<lambda>x. now - sw_window sw \<le> x) H) + cost) \<le> sw_limit sw"
  shows "sw_ok sw now (H @ replicate cost now) (filter (\<lambda>x. now - sw_window sw \<le> x) H @ replicate cost now)"
proof -
  let ?W = "sw_window sw" and ?q = "filter (\<lambda>x. now - sw_window sw \<le> x) H"
  have H: "sorted H" "\<forall>x \<in> set H. x \<le> now" using sw_ok_later [OF ok now] by (simp_all add: sw_ok_def)
  have s: "sorted (H @ replicate cost now)" using H by (auto simp: sorted_append)
  have sq: "sorted (?q @ replicate cost now)" using H by (auto simp: sorted_append sorted_wrt_filter)
  have drop: "dropWhile (\<lambda>x. x < now' - ?W) (?q @ replicate cost now) =
      filter (\<lambda>x. now' - ?W \<le> x) (H @ replicate cost now)" if "now \<le> now'" for now'
    using that sq by (subst dropWhile_sorted) (auto intro!: filter_cong)
  have count: "int (length (filter (\<lambda>x. a \<le> x \<and> x \<le> a + ?W) (H @ replicate cost now))) \<le> max 0 (sw_limit sw)" for a
  proof (cases "a \<le> now \<and> now \<le> a + ?W")
    case True
    then have "length (filter (\<lambda>x. a \<le> x \<and> x \<le> a + ?W) H) \<le> length ?q"
      by (intro length_filter_mono) auto
    with True fits show ?thesis by simp
  next
    case False
    then have "filter (\<lambda>x. a \<le> x \<and> x \<le> a + ?W) (replicate cost now) = []" by (auto simp: filter_empty_conv)
    with ok show ?thesis by (simp add: sw_ok_def)
  qed
  show ?thesis unfolding sw_ok_def using s H(2) drop count by auto
qed

lemma sw_check_step:
  assumes ok: "sw_ok sw t H (dict_get_or s key [])" and now: "t \<le> now" and w: "0 \<le> sw_window sw"
  shows "sw_ok sw now (H @ admitted_units key [((now, key, cost), fst (sw_check sw now key cost s))])
           (dict_get_or (snd (sw_check sw now key cost s)) key [])"
proof -
  let ?q = "filter (\<lambda>x. now - sw_window sw \<le> x) H"
  have q: "dict_get_or (sw_prune sw key now s) key [] = ?q"
    using ok now by (simp add: sw_prune_def sw_ok_def)
  show ?thesis
  proof (cases "int (length ?q + cost) \<le> sw_limit sw")
    case True
    then show ?thesis using sw_ok_admit [OF ok now w True] by (simp add: sw_check_def Let_def q)
  next
    case False
    then show ?thesis using sw_ok_pruned [OF ok now] by (simp add: sw_check_def Let_def q)
  qed
qed

lemma sw_check_other: "k \<noteq> key \<Longrightarrow> dict_get_or (snd (sw_check sw now key cost s)) k [] = dict_get_or s k []"
  using sw.check_other [of k key sw now cost s] by (simp add: dict_get_or_def)

lemma admitted_units_append: "admitted_units key (xs @ ys) = admitted_units key xs @ admitted_units key ys"
  by (induction key xs rule: admitted_units.induct) auto

lemma sw_run_ok:
  "sw_ok sw t H (dict_get_or s key []) \<Longrightarrow> timely t calls \<Longrightarrow> 0 \<le> sw_window sw \<Longrightarrow>
   \<exists>t' q. sw_ok sw t' (H @ admitted_units key (fst (run_checks (sw_check sw) calls s))) q"
proof (induction calls arbitrary: s t H)
  case Nil
  then show ?case by auto
next
  case (Cons c calls)
  obtain now k cost where c: "c = (now, k, cost)" by (cases c)
  have t: "t \<le> now" "timely now calls" using Cons.prems(2) by (auto simp: c timely_Cons)
  obtain d s1 where d: "sw_check sw now k cost s = (d, s1)" by (meson surj_pair)
  define H' where "H' = H @ admitted_units key [((now, k, cost), d)]"
  have "sw_ok sw now H' (dict_get_or s1 key [])"
  proof (cases "k = key")
    case True
    then show ?thesis
      using sw_check_step [OF _ t(1) Cons.prems(3), of H s key cost] Cons.prems(1) d by (simp add: H'_def)
  next
    case False
    then show ?thesis
      using sw_ok_later [OF Cons.prems(1) t(1)] sw_check_other [of key k sw now cost s] d by (simp add: H'_def)
  qed
  from Cons.IH [OF this t(2) Cons.prems(3)] show ?case
    by (simp add: c d Let_def case_prod_beta H'_def)
qed

subsection \<open>Token bucket\<close>

text \<open>Tokens spent and tokens left never exceed the initial fill plus what has flowed in.\<close>

definition tb_level :: "token_bucket \<Rightarrow> pyfloat \<Rightarrow> tb_state \<Rightarrow> string \<Rightarrow> pyfloat" where
  "tb_level tb t s key =
     (let (tokens, updated) = dict_get_or s key (tb_default tb, t) in tokens + (t - updated) * tb_rate tb)"

lemma tb_check_level:
  assumes "t \<le> now" "0 \<le> tb_rate tb"
  shows "tb_level tb now (snd (tb_check tb now k cost s)) key
       + of_nat (length (admitted_units key [((now, k, cost), fst (tb_check tb now k cost s))]))
       \<le> tb_level tb t s key + (now - t) * tb_rate tb"
proof -
  have flow: "0 \<le> (now - t) * tb_rate tb" using assms by simp
  obtain tokens updated where g: "dict_get_or s key (tb_default tb, t) = (tokens, updated)" by (meson surj_pair)
  show ?thesis
  proof (cases "dict_get s key")
    case None
    then show ?thesis using flow
      by (auto simp: tb_level_def tb_check_def tb_refill_def dict_get_or_def Let_def case_prod_beta)
  next
    case (Some p)
    then obtain tk up where p: "dict_get s key = Some (tk, up)" by (cases p) auto
    have eq: "tk + (now - up) * tb_rate tb = tk + (t - up) * tb_rate tb + (now - t) * tb_rate tb"
      by (simp add: algebra_simps)
    show ?thesis using p eq
      by (auto simp: tb_level_def tb_check_def tb_refill_def dict_get_or_def Let_def case_prod_beta)
  qed
qed

definition tb_ok :: "token_bucket \<Rightarrow> pyfloat \<Rightarrow> tb_state \<Rightarrow> string \<Rightarrow> bool" where
  "tb_ok tb t s key \<longleftrightarrow>
     (case dict_get s key of None \<Rightarrow> 0 \<le> tb_default tb | Some (tokens, updated) \<Rightarrow> 0 \<le> tokens \<and> updated \<le> t)"

lemma tb_ok_level: "tb_ok tb t s key \<Longrightarrow> 0 \<le> tb_rate tb \<Longrightarrow> 0 \<le> tb_level tb t s key"
  by (auto simp: tb_ok_def tb_level_def dict_get_or_def split: option.splits)

lemma tb_check_ok:
  assumes ok: "tb_ok tb t s key" and t: "t \<le> now" and pos: "0 \<le> tb_rate tb" "0 \<le> tb_burst tb"
  shows "tb_ok tb now (snd (tb_check tb now k cost s)) key"
proof (cases "k = key")
  case False
  then have "dict_get (snd (tb_check tb now k cost s)) key = dict_get s key"
    using tb.check_other [of key k tb now cost s] by simp
  then show ?thesis using ok t by (auto simp: tb_ok_def split: option.splits)
next
  case True
  have "0 \<le> fst (tb_refill tb key now s)"
  proof (cases "dict_get s key")
    case None
    then show ?thesis using ok pos by (simp add: tb_refill_def tb_ok_def dict_get_or_def Let_def)
  next
    case (Some p)
    obtain tk up where p: "p = (tk, up)" by (cases p)
    have "0 \<le> (now - up) * tb_rate tb" using ok t pos Some p by (simp add: tb_ok_def)
    then show ?thesis using ok pos Some p by (simp add: tb_refill_def tb_ok_def dict_get_or_def Let_def)
  qed
  then show ?thesis using True
    by (simp add: tb_ok_def tb_check_def tb_refill_def Let_def case_prod_beta)
qed

lemma tb_run_ok:
  assumes pos: "0 \<le> tb_rate tb" "0 \<le> tb_burst tb"
  shows "timely t calls \<Longrightarrow> tb_ok tb t s key \<Longrightarrow>
    tb_ok tb (last (t # map fst calls)) (snd (run_checks (tb_check tb) calls s)) key"
proof (induction calls arbitrary: s t)
  case (Cons c calls)
  obtain now k cost where c: "c = (now, k, cost)" by (cases c)
  have t: "t \<le> now" "timely now calls" using Cons.prems by (auto simp: c timely_Cons)
  have "tb_ok tb now (snd (tb_check tb now k cost s)) key"
    using Cons.prems(2) t(1) pos by (rule tb_check_ok)
  from Cons.IH [OF t(2) this] show ?case by (simp add: c Let_def case_prod_beta)
qed simp

lemma tb_run_level:
  assumes "0 \<le> tb_rate tb"
  shows "timely t calls \<Longrightarrow>
    tb_level tb (last (t # map fst calls)) (snd (run_checks (tb_check tb) calls s)) key +
      of_nat (length (admitted_units key (fst (run_checks (tb_check tb) calls s))))
      \<le> tb_level tb t s key + (last (t # map fst calls) - t) * tb_rate tb"
proof (induction calls arbitrary: s t)
  case (Cons c calls)
  obtain now k cost where c: "c = (now, k, cost)" by (cases c)
  have t: "t \<le> now" "timely now calls" using Cons.prems by (auto simp: c timely_Cons)
  obtain d s1 where d: "tb_check tb now k cost s = (d, s1)" by (meson surj_pair)
  let ?last = "last (now # map fst calls)"
  have "tb_level tb now s1 key + of_nat (length (admitted_units key [((now, k, cost), d)]))
      \<le> tb_level tb t s key + (now - t) * tb_rate tb"
    using tb_check_level [OF t(1) assms, of k cost s key] d by simp
  moreover have "(?last - t) * tb_rate tb = (?last - now) * tb_rate tb + (now - t) * tb_rate tb"
    by (simp add: algebra_simps)
  ultimately show ?case
    using Cons.IH [OF t(2), of s1] by (simp add: c d Let_def case_prod_beta)
qed simp

subsection \<open>Fixed window\<close>

text \<open>The units admitted to the current bucket of a key are its counter.\<close>

definition fw_ok :: "fixed_window \<Rightarrow> int \<Rightarrow> pyfloat list \<Rightarrow> (int, int) dict \<Rightarrow> bool" where
  "fw_ok fw b H counts \<longleftrightarrow>
     (\<forall>x \<in> set H. fw_bucket fw x \<le> b) \<and>
     (\<forall>b' n. b \<le> b' \<longrightarrow> dict_get counts b' = Some n \<longrightarrow>
        n = int (length (filter (\<lambda>x. fw_bucket fw x = b') H))) \<and>
     (\<forall>b'. dict_get counts b' = None \<longrightarrow> b \<le> b' \<longrightarrow> filter (\<lambda>x. fw_bucket fw x = b') H = []) \<and>
     (\<forall>b'. int (length (filter (\<lambda>x. fw_bucket fw x = b') H)) \<le> max 0 (fw_limit fw))"

lemma fw_bucket_mono: "0 < fw_window fw \<Longrightarrow> x \<le> y \<Longrightarrow> fw_bucket fw x \<le> fw_bucket fw y"
  by (simp add: fw_bucket_def floor_mono divide_right_mono)

lemma fw_ok_Nil: "fw_ok fw b [] []"
  by (simp add: fw_ok_def)

lemma fw_ok_later: "fw_ok fw b H counts \<Longrightarrow> b \<le> b' \<Longrightarrow> fw_ok fw b' H counts"
  by (fastforce simp: fw_ok_def)

lemma fw_check_step:
  assumes ok: "fw_ok fw b H (dict_get_or s key [])" and now: "b \<le> fw_bucket fw now"
  shows "fw_ok fw (fw_bucket fw now)
           (H @ admitted_units key [((now, key, cost), fst (fw_check fw now key cost s))])
           (dict_get_or (snd (fw_check fw now key cost s)) key [])"
proof -
  let ?b = "fw_bucket fw now" and ?c0 = "dict_get_or s key []"
  define counts where "counts = (if dict_has ?c0 ?b then ?c0 else [(?b, 0)])"
  define used where "used = dict_get_or counts ?b 0"
  let ?n = "\<lambda>b'. length (filter (\<lambda>x. fw_bucket fw x = b') H)"
  have gt: "filter (\<lambda>x. fw_bucket fw x = b') H = []" if "?b < b'" for b'
    using ok now that by (fastforce simp: fw_ok_def filter_empty_conv)
  have u: "used = int (?n ?b)" and c: "fw_ok fw ?b H counts"
    using ok now gt by (auto simp: used_def counts_def fw_ok_def dict_has_def dict_get_or_def split: option.splits)
  have adm: "filter (\<lambda>x. fw_bucket fw x = b') (replicate cost now) = (if b' = ?b then replicate cost now else [])" for b'
    by (auto simp: filter_empty_conv)
  show ?thesis
  proof (cases "used + int cost \<le> fw_limit fw")
    case True
    then show ?thesis
      using c u by (auto simp: fw_check_def Let_def counts_def [symmetric] used_def [symmetric] fw_ok_def adm)
  next
    case False
    then show ?thesis
      using c by (simp add: fw_check_def Let_def counts_def [symmetric] used_def [symmetric])
  qed
qed

lemma fw_check_other: "k \<noteq> key \<Longrightarrow> dict_get_or (snd (fw_check fw now key cost s)) k [] = dict_get_or s k []"
  using fw.check_other [of k key fw now cost s] by (simp add: dict_get_or_def)

lemma fw_run_ok:
  "fw_ok fw (fw_bucket fw t) H (dict_get_or s key []) \<Longrightarrow> timely t calls \<Longrightarrow> 0 < fw_window fw \<Longrightarrow>
   \<exists>b' c'. fw_ok fw b' (H @ admitted_units key (fst (run_checks (fw_check fw) calls s))) c'"
proof (induction calls arbitrary: s t H)
  case Nil
  then show ?case by auto
next
  case (Cons c calls)
  obtain now k cost where c: "c = (now, k, cost)" by (cases c)
  have t: "t \<le> now" "timely now calls" using Cons.prems(2) by (auto simp: c timely_Cons)
  have b: "fw_bucket fw t \<le> fw_bucket fw now" using t(1) Cons.prems(3) by (simp add: fw_bucket_mono)
  obtain d s1 where d: "fw_check fw now k cost s = (d, s1)" by (meson surj_pair)
  define H' where "H' = H @ admitted_units key [((now, k, cost), d)]"
  have "fw_ok fw (fw_bucket fw now) H' (dict_get_or s1 key [])"
  proof (cases "k = key")
    case True
    then show ?thesis
      using fw_check_step [OF _ b, of H s key cost] Cons.prems(1) d by (simp add: H'_def)
  next
    case False
    then show ?thesis
      using fw_ok_later [OF Cons.prems(1) b] fw_check_other [of key k fw now cost s] d by (simp add: H'_def)
  qed
  from Cons.IH [OF this t(2) Cons.prems(3)] show ?case
    by (simp add: c d Let_def case_prod_beta H'_def)
qed

subsection \<open>Leaky bucket\<close>

text \<open>Units admitted, less those still queued, have dripped out at the configured rate.\<close>

definition lb_queue :: "lb_state \<Rightarrow> string \<Rightarrow> nat" where
  "lb_queue s key = (case dict_get s key of None \<Rightarrow> 0 | Some (q, _) \<Rightarrow> length q)"

definition lb_credit :: "leaky_bucket \<Rightarrow> pyfloat \<Rightarrow> lb_state \<Rightarrow> string \<Rightarrow> pyfloat" where
  "lb_credit lb t s key =
     (case dict_get s key of None \<Rightarrow> 0 | Some (_, last_drip) \<Rightarrow> lb_rate lb * (t - last_drip))"

definition lb_ok :: "leaky_bucket \<Rightarrow> pyfloat \<Rightarrow> lb_state \<Rightarrow> string \<Rightarrow> bool" where
  "lb_ok lb t s key \<longleftrightarrow> int (lb_queue s key) \<le> max 0 (lb_capacity lb) \<and> 0 \<le> lb_credit lb t s key"

lemma lb_drain_effect:
  assumes "t \<le> now" "0 \<le> lb_rate lb" "lb_ok lb t s key"
  shows "of_nat (lb_queue s key) + lb_credit lb now (lb_drain lb key now s) key
       \<le> of_nat (lb_queue (lb_drain lb key now s) key) + lb_credit lb t s key + lb_rate lb * (now - t)"
    "0 \<le> lb_credit lb now (lb_drain lb key now s) key"
    "lb_queue (lb_drain lb key now s) key \<le> lb_queue s key"
proof -
  have flow: "0 \<le> lb_rate lb * (now - t)" using assms by simp
  have "of_nat (lb_queue s key) + lb_credit lb now (lb_drain lb key now s) key
       \<le> of_nat (lb_queue (lb_drain lb key now s) key) + lb_credit lb t s key + lb_rate lb * (now - t) \<and>
    0 \<le> lb_credit lb now (lb_drain lb key now s) key \<and>
    lb_queue (lb_drain lb key now s) key \<le> lb_queue s key"
  proof (cases "dict_get s key")
    case None
    then show ?thesis using flow
      by (simp add: lb_drain_def lb_queue_def lb_credit_def dict_get_or_def py_int_def)
  next
    case (Some p)
    obtain q ld where p: "dict_get s key = Some (q, ld)" using Some by (cases p) auto
    let ?drip = "py_int ((now - ld) * lb_rate lb)"
    have cr: "0 \<le> lb_rate lb * (t - ld)" using assms(3) p by (simp add: lb_ok_def lb_credit_def)
    have split: "lb_rate lb * (now - ld) = lb_rate lb * (t - ld) + lb_rate lb * (now - t)"
      by (simp add: algebra_simps)
    then have pos: "0 \<le> (now - ld) * lb_rate lb" using cr flow by (simp add: mult.commute)
    then have "of_int ?drip \<le> (now - ld) * lb_rate lb" by (simp add: py_int_def)
    moreover have "(of_nat (nat ?drip) :: rat) = of_int ?drip" using pos by (simp add: py_int_def)
    moreover have "(of_nat (min (nat ?drip) (length q)) :: rat) \<le> of_nat (nat ?drip)" by simp
    ultimately have drop: "of_nat (min (nat ?drip) (length q)) \<le> lb_rate lb * (now - ld)"
      by (simp only: mult.commute)
    have len: "(of_nat (length q - min (nat ?drip) (length q)) :: rat)
        = of_nat (length q) - of_nat (min (nat ?drip) (length q))" by (rule of_nat_diff) simp
    show ?thesis
    proof (cases "?drip \<le> 0")
      case True
      then show ?thesis using p cr flow split
        by (simp add: lb_drain_def lb_queue_def lb_credit_def dict_get_or_def)
    next
      case False
      then show ?thesis using p drop len split
        by (simp add: lb_drain_def lb_queue_def lb_credit_def dict_get_or_def)
    qed
  qed
  then show "of_nat (lb_queue s key) + lb_credit lb now (lb_drain lb key now s) key
       \<le> of_nat (lb_queue (lb_drain lb key now s) key) + lb_credit lb t s key + lb_rate lb * (now - t)"
    "0 \<le> lb_credit lb now (lb_drain lb key now s) key"
    "lb_queue (lb_drain lb key now s) key \<le> lb_queue s key" by blast+
qed

lemma lb_check_same:
  fixes cost :: nat
  assumes "t \<le> now" "0 \<le> lb_rate lb" "lb_ok lb t s key"
  defines "s' \<equiv> snd (lb_check lb now key cost s)"
  shows "lb_ok lb now s' key"
    "of_nat (length (admitted_units key [((now, key, cost), fst (lb_check lb now key cost s))]))
       + of_nat (lb_queue s key) + lb_credit lb now s' key
       \<le> of_nat (lb_queue s' key) + lb_credit lb t s key + lb_rate lb * (now - t)"
proof -
  let ?s1 = "lb_drain lb key now s"
  note d = lb_drain_effect [OF assms(1-3)]
  have "dict_get ?s1 key \<noteq> None" by (simp add: lb_drain_def Let_def case_prod_beta)
  then obtain q ld where p: "dict_get ?s1 key = Some (q, ld)" by auto
  have q: "lb_queue ?s1 key = length q" using p by (simp add: lb_queue_def)
  have cap: "int (length q) \<le> max 0 (lb_capacity lb)" using d(3) q assms(3) by (simp add: lb_ok_def)
  have "lb_ok lb now s' key \<and>
    of_nat (length (admitted_units key [((now, key, cost), fst (lb_check lb now key cost s))]))
       + of_nat (lb_queue s key) + lb_credit lb now s' key
       \<le> of_nat (lb_queue s' key) + lb_credit lb t s key + lb_rate lb * (now - t)"
  proof (cases "int (length q + cost) \<le> lb_capacity lb")
    case True
    then show ?thesis using d p q
      by (simp add: s'_def lb_check_def Let_def dict_get_or_def lb_ok_def lb_queue_def lb_credit_def)
  next
    case False
    then show ?thesis using d p q cap
      by (simp add: s'_def lb_check_def Let_def dict_get_or_def lb_ok_def lb_queue_def lb_credit_def)
  qed
  then show "lb_ok lb now s' key"
    "of_nat (length (admitted_units key [((now, key, cost), fst (lb_check lb now key cost s))]))
       + of_nat (lb_queue s key) + lb_credit lb now s' key
       \<le> of_nat (lb_queue s' key) + lb_credit lb t s key + lb_rate lb * (now - t)" by blast+
qed

lemma lb_check_other:
  assumes "k \<noteq> key" "t \<le> now" "0 \<le> lb_rate lb" "lb_ok lb t s key"
  shows "lb_ok lb now (snd (lb_check lb now k cost s)) key"
    "lb_queue (snd (lb_check lb now k cost s)) key = lb_queue s key"
    "lb_credit lb now (snd (lb_check lb now k cost s)) key \<le> lb_credit lb t s key + lb_rate lb * (now - t)"
proof -
  have same: "dict_get (snd (lb_check lb now k cost s)) key = dict_get s key"
    using lb.check_other [of key k lb now cost s] assms(1) by simp
  have flow: "0 \<le> lb_rate lb * (now - t)" using assms by simp
  have cr: "lb_credit lb now s key = (if dict_get s key = None then 0 else lb_credit lb t s key + lb_rate lb * (now - t))"
    by (auto simp: lb_credit_def algebra_simps split: option.splits)
  have eqs: "lb_queue (snd (lb_check lb now k cost s)) key = lb_queue s key"
    "lb_credit lb now (snd (lb_check lb now k cost s)) key = lb_credit lb now s key"
    using same by (simp_all add: lb_queue_def lb_credit_def)
  show "lb_queue (snd (lb_check lb now k cost s)) key = lb_queue s key" by (rule eqs(1))
  show "lb_ok lb now (snd (lb_check lb now k cost s)) key"
    using assms(4) flow cr eqs by (auto simp: lb_ok_def)
  show "lb_credit lb now (snd (lb_check lb now k cost s)) key \<le> lb_credit lb t s key + lb_rate lb * (now - t)"
    using eqs cr flow assms(4) by (auto simp: lb_ok_def)
qed

lemma lb_run_bound:
  assumes rate: "0 \<le> lb_rate lb"
  shows "timely t calls \<Longrightarrow> list_all (\<lambda>c. fst c \<le> tend) calls \<Longrightarrow> t \<le> tend \<Longrightarrow> lb_ok lb t s key \<Longrightarrow>
    of_nat (length (admitted_units key (fst (run_checks (lb_check lb) calls s)))) + of_nat (lb_queue s key)
      \<le> of_int (max 0 (lb_capacity lb)) + lb_credit lb t s key + lb_rate lb * (tend - t)"
proof (induction calls arbitrary: s t)
  case Nil
  have "(of_nat (lb_queue s key) :: rat) \<le> of_int (max 0 (lb_capacity lb))"
    using Nil.prems(4) unfolding lb_ok_def by (metis of_int_le_iff of_int_of_nat_eq)
  moreover have "0 \<le> lb_rate lb * (tend - t)" using rate Nil.prems(3) by simp
  ultimately show ?case using Nil.prems(4) by (simp add: lb_ok_def)
next
  case (Cons c calls)
  obtain now k cost where c: "c = (now, k, cost)" by (cases c)
  have t: "t \<le> now" "timely now calls" "now \<le> tend" using Cons.prems by (auto simp: c timely_Cons)
  obtain d s1 where d: "lb_check lb now k cost s = (d, s1)" by (meson surj_pair)
  have step: "lb_ok lb now s1 key \<and>
      of_nat (length (admitted_units key [((now, k, cost), d)])) + of_nat (lb_queue s key) + lb_credit lb now s1 key
        \<le> of_nat (lb_queue s1 key) + lb_credit lb t s key + lb_rate lb * (now - t)"
  proof (cases "k = key")
    case True
    then show ?thesis using lb_check_same [OF t(1) rate Cons.prems(4), of cost] d by simp
  next
    case False
    then show ?thesis using lb_check_other [OF False t(1) rate Cons.prems(4), of cost] d by simp
  qed
  have "lb_rate lb * (tend - t) = lb_rate lb * (tend - now) + lb_rate lb * (now - t)" by (simp add: algebra_simps)
  then show ?case
    using Cons.IH [OF t(2) _ t(3), of s1] step Cons.prems(2)
    by (simp add: c d Let_def case_prod_beta)
qed

section \<open>Properties\<close>

text \<open>
  Keys are independent in all four strategies: in any interleaving of checks, the decisions
  for a key are those of the run restricted to that key, and the remaining quota a decision
  reports lies between 0 and the limit.
\<close>

theorem limiter_keys_independent:
  "filter (\<lambda>x. call_key (fst x) = key) (fst (run_checks (tb_check tb) calls ts)) =
     fst (run_checks (tb_check tb) (filter (\<lambda>c. call_key c = key) calls) ts) \<and>
   filter (\<lambda>x. call_key (fst x) = key) (fst (run_checks (lb_check lb) calls ls)) =
     fst (run_checks (lb_check lb) (filter (\<lambda>c. call_key c = key) calls) ls) \<and>
   filter (\<lambda>x. call_key (fst x) = key) (fst (run_checks (sw_check sw) calls ss)) =
     fst (run_checks (sw_check sw) (filter (\<lambda>c. call_key c = key) calls) ss) \<and>
   filter (\<lambda>x. call_key (fst x) = key) (fst (run_checks (fw_check fw) calls fs)) =
     fst (run_checks (fw_check fw) (filter (\<lambda>c. call_key c = key) calls) fs) \<and>
   list_all (\<lambda>(c, d). 0 \<le> dc_remaining d \<and> dc_remaining d \<le> max 0 (fw_limit fw))
     (fst (run_checks (fw_check fw) calls []))"
proof (intro conjI)
  have "fw_nonneg []" by (simp add: fw_nonneg_def)
  then show "list_all (\<lambda>(c, d). 0 \<le> dc_remaining d \<and> dc_remaining d \<le> max 0 (fw_limit fw))
     (fst (run_checks (fw_check fw) calls []))" by (rule fw.run_remaining)
qed (rule tb.run_key_independent lb.run_key_independent sw.run_key_independent fw.run_key_independent)+

text \<open>
  C5. Sliding window: with a clock that does not run backwards, no interval of the window's
  length, wherever it starts, contains more admitted units of a key than the limit.
\<close>

theorem sliding_window_bound:
  assumes "timely t calls" "0 \<le> sw_window sw"
  shows "int (length (filter (\<lambda>x. a \<le> x \<and> x \<le> a + sw_window sw)
           (admitted_units key (fst (run_checks (sw_check sw) calls []))))) \<le> max 0 (sw_limit sw)"
proof -
  obtain t' q where "sw_ok sw t' (admitted_units key (fst (run_checks (sw_check sw) calls []))) q"
    using sw_run_ok [of sw t "[]" "[]" key calls] assms by (auto simp: sw_ok_Nil dict_get_or_def)
  then show ?thesis unfolding sw_ok_def by blast
qed

lemma sliding_window_bound_witness:
  "int (length (filter (\<lambda>x. 0 \<le> x \<and> x \<le> 0 + 60)
     (admitted_units ''k'' (fst (run_checks (sw_check \<lparr>sw_limit = 1, sw_window = 60\<rparr>)
        [(10, ''k'', 1), (20, ''k'', 1)] []))))) \<le> max 0 1"
  using sliding_window_bound [of 0 "[(10, ''k'', 1), (20, ''k'', 1)]" "\<lparr>sw_limit = 1, sw_window = 60\<rparr>" 0 "''k''"]
  by (simp add: timely_def)


definition sample_bucket :: token_bucket where
  "sample_bucket = \<lparr>tb_rate = 2, tb_burst = 30, tb_initial = None\<rparr>"


text \<open>
  Fixed window: with a clock that does not run backwards, at most the limit is admitted for
  a key within one aligned window.
\<close>

theorem fixed_window_bound:
  assumes "timely t calls" "0 < fw_window fw"
  shows "int (length (filter (\<lambda>x. fw_bucket fw x = b)
           (admitted_units key (fst (run_checks (fw_check fw) calls []))))) \<le> max 0 (fw_limit fw)"
proof -
  obtain b' c' where "fw_ok fw b' (admitted_units key (fst (run_checks (fw_check fw) calls []))) c'"
    using fw_run_ok [of fw t "[]" "[]" key calls] assms by (auto simp: fw_ok_Nil dict_get_or_def)
  then show ?thesis unfolding fw_ok_def by blast
qed

lemma fixed_window_bound_witness:
  "int (length (filter (\<lambda>x. fw_bucket \<lparr>fw_limit = 1, fw_window = 60\<rparr> x = 0)
     (admitted_units [] (fst (run_checks (fw_check \<lparr>fw_limit = 1, fw_window = 60\<rparr>) [(10, [], 1), (20, [], 1)] []))))) \<le> max 0 1"
  using fixed_window_bound [of 0 "[(10, [], 1), (20, [], 1)]" "\<lparr>fw_limit = 1, fw_window = 60\<rparr>" 0 "[]"]
  by (simp add: timely_def)

text \<open>
  Leaky bucket: over any period the units admitted for a key are at most the capacity plus
  the leak rate times the length of the period.
\<close>

theorem leaky_bucket_bound:
  assumes "timely t0 calls" "list_all (\<lambda>c. fst c \<le> t1) calls" "t0 \<le> t1" "0 \<le> lb_rate lb"
  shows "of_nat (length (admitted_units key (fst (run_checks (lb_check lb) calls []))))
           \<le> of_int (max 0 (lb_capacity lb)) + lb_rate lb * (t1 - t0)"
proof -
  have "lb_ok lb t0 [] key" by (simp add: lb_ok_def lb_queue_def lb_credit_def)
  from lb_run_bound [OF assms(4,1,2,3) this] show ?thesis by (simp add: lb_queue_def lb_credit_def)
qed

lemma leaky_bucket_bound_witness:
  "of_nat (length (admitted_units [] (fst (run_checks (lb_check \<lparr>lb_rate = 1, lb_capacity = 5\<rparr>) [(1, [], 4), (2, [], 4)] []))))
     \<le> of_int (max 0 5) + (1 :: pyfloat) * (2 - 0)"
  using leaky_bucket_bound [of 0 "[(1, [], 4), (2, [], 4)]" 2 "\<lparr>lb_rate = 1, lb_capacity = 5\<rparr>" "[]"]
  by (simp add: timely_def)

end
