(* ===== verification/Quota.thy ===== *)
theory Quota
  imports Limiters
begin

text \<open>
  The clients of the rate limit strategies and the quota accounts: the policy registry
  \<open>RateLimiter\<close> of \<^verbatim>\<open>app/gateway/ratelimit.py\<close>, the router's own limiter
  \<^verbatim>\<open>app/rate_limit.py\<close> (compared with the gateway's strategies), and \<open>QuotaManager\<close> of
  \<^verbatim>\<open>app/gateway/quota.py\<close>.
\<close>

section \<open>Policies and limiters per key\<close>

record gateway_config =
  gc_strategy :: string
  gc_rpm :: int
  gc_burst :: int
  gc_quotas :: "(string, int) dict"

datatype limiter =
    Token_Bucket token_bucket tb_state
  | Leaky_Bucket leaky_bucket lb_state
  | Sliding_Window sliding_window sw_state
  | Fixed_Window fixed_window fw_state

record overrides =
  ov_rate :: "pyfloat option"
  ov_burst :: "int option"
  ov_initial :: "pyfloat option"
  ov_capacity :: "int option"
  ov_limit :: "int option"
  ov_window :: "pyfloat option"

record policy =
  po_strategy :: string
  po_limit :: "int option"
  po_window :: "pyfloat option"
  po_overrides :: overrides

datatype limiter_error = Unknown_Strategy string | Rate_Limit_Exceeded decision

definition default_to :: "'a option \<Rightarrow> 'a \<Rightarrow> 'a" where
  "default_to opt d = (case opt of None \<Rightarrow> d | Some x \<Rightarrow> x)"

definition create_rate_limit_strategy ::
  "string \<Rightarrow> gateway_config \<Rightarrow> overrides \<Rightarrow> limiter_error + limiter" where
  "create_rate_limit_strategy strategy cfg ov =
     (if strategy = ''token_bucket'' then
        Inr (Token_Bucket \<lparr>tb_rate = default_to (ov_rate ov) (of_int (gc_rpm cfg) / 60),
               tb_burst = default_to (ov_burst ov) (gc_burst cfg), tb_initial = ov_initial ov\<rparr> [])
      else if strategy = ''leaky_bucket'' then
        Inr (Leaky_Bucket \<lparr>lb_rate = default_to (ov_rate ov) (of_int (gc_rpm cfg) / 60),
               lb_capacity = default_to (ov_capacity ov) (gc_burst cfg)\<rparr> [])
      else if strategy = ''sliding_window'' then
        Inr (Sliding_Window \<lparr>sw_limit = default_to (ov_limit ov) (gc_rpm cfg),
               sw_window = default_to (ov_window ov) 60\<rparr> [])
      else if strategy = ''fixed_window'' then
        Inr (Fixed_Window \<lparr>fw_limit = default_to (ov_limit ov) (gc_rpm cfg),
               fw_window = default_to (ov_window ov) 60\<rparr> [])
      else Inl (Unknown_Strategy strategy))"

fun limiter_check :: "pyfloat \<Rightarrow> string \<Rightarrow> nat \<Rightarrow> limiter \<Rightarrow> decision \<times> limiter" where
  "limiter_check now key cost (Token_Bucket tb s) = map_prod id (Token_Bucket tb) (tb_check tb now key cost s)"
| "limiter_check now key cost (Leaky_Bucket lb s) = map_prod id (Leaky_Bucket lb) (lb_check lb now key cost s)"
| "limiter_check now key cost (Sliding_Window sw s) = map_prod id (Sliding_Window sw) (sw_check sw now key cost s)"
| "limiter_check now key cost (Fixed_Window fw s) = map_prod id (Fixed_Window fw) (fw_check fw now key cost s)"

fun limiter_reset :: "string \<Rightarrow> limiter \<Rightarrow> limiter" where
  "limiter_reset key (Token_Bucket tb s) = Token_Bucket tb (tb_reset key s)"
| "limiter_reset key (Leaky_Bucket lb s) = Leaky_Bucket lb (lb_reset key s)"
| "limiter_reset key (Sliding_Window sw s) = Sliding_Window sw (sw_reset key s)"
| "limiter_reset key (Fixed_Window fw s) = Fixed_Window fw (fw_reset key s)"

fun strategy_keys :: "limiter \<Rightarrow> string list" where
  "strategy_keys (Token_Bucket tb s) = map fst s"
| "strategy_keys (Leaky_Bucket lb s) = map fst s"
| "strategy_keys (Sliding_Window sw s) = map fst s"
| "strategy_keys (Fixed_Window fw s) = map fst s"

record rate_limiter =
  rl_config :: gateway_config
  rl_policies :: "(string, policy) dict"
  rl_limiters :: "(string, limiter) dict"

definition no_overrides :: overrides where
  "no_overrides = \<lparr>ov_rate = None, ov_burst = None, ov_initial = None, ov_capacity = None,
     ov_limit = None, ov_window = None\<rparr>"

definition set_policy ::
  "string \<Rightarrow> string option \<Rightarrow> int option \<Rightarrow> pyfloat option \<Rightarrow> overrides \<Rightarrow> rate_limiter \<Rightarrow> rate_limiter" where
  "set_policy key strategy limit window ov rl =
     rl\<lparr>rl_policies := dict_set key
          \<lparr>po_strategy = (case strategy of Some s \<Rightarrow> (if s = '''' then gc_strategy (rl_config rl) else s)
                          | None \<Rightarrow> gc_strategy (rl_config rl)),
           po_limit = limit, po_window = window, po_overrides = ov\<rparr> (rl_policies rl),
        rl_limiters := dict_pop key (rl_limiters rl)\<rparr>"

text \<open>\<open>policy.get("limit") or default\<close>: a limit of 0 counts as absent here.\<close>

definition limit_or_burst :: "policy \<Rightarrow> gateway_config \<Rightarrow> int" where
  "limit_or_burst p cfg =
     (case po_limit p of Some n \<Rightarrow> (if n = 0 then gc_burst cfg else n) | None \<Rightarrow> gc_burst cfg)"

definition set_default :: "'a option \<Rightarrow> 'a \<Rightarrow> 'a option" where
  "set_default opt d = (case opt of None \<Rightarrow> Some d | Some x \<Rightarrow> Some x)"

definition build_limiter :: "gateway_config \<Rightarrow> policy \<Rightarrow> limiter_error + limiter" where
  "build_limiter cfg p =
     (let ov0 = po_overrides p;
          ov1 = (case po_limit p of None \<Rightarrow> ov0 | Some n \<Rightarrow> ov0\<lparr>ov_limit := set_default (ov_limit ov0) n\<rparr>);
          ov2 = (case po_window p of None \<Rightarrow> ov1 | Some w \<Rightarrow> ov1\<lparr>ov_window := set_default (ov_window ov1) w\<rparr>);
          ov3 = (if po_strategy p = ''token_bucket''
                 then ov2\<lparr>ov_burst := set_default (ov_burst ov2) (limit_or_burst p cfg)\<rparr> else ov2);
          ov4 = (if po_strategy p = ''leaky_bucket''
                 then ov3\<lparr>ov_capacity := set_default (ov_capacity ov3) (limit_or_burst p cfg)\<rparr> else ov3)
      in create_rate_limit_strategy (po_strategy p) cfg ov4)"

definition limiter_for :: "string \<Rightarrow> rate_limiter \<Rightarrow> limiter_error + limiter \<times> rate_limiter" where
  "limiter_for key rl =
     (case dict_get (rl_limiters rl) key of
        Some l \<Rightarrow> Inr (l, rl)
      | None \<Rightarrow>
          (let p = (case dict_get (rl_policies rl) key of
                      Some p \<Rightarrow> p
                    | None \<Rightarrow> \<lparr>po_strategy = gc_strategy (rl_config rl), po_limit = None, po_window = None,
                               po_overrides = no_overrides\<rparr>)
           in case build_limiter (rl_config rl) p of
                Inl e \<Rightarrow> Inl e
              | Inr l \<Rightarrow> Inr (l, rl\<lparr>rl_limiters := dict_set key l (rl_limiters rl)\<rparr>)))"

definition registry_check ::
  "pyfloat \<Rightarrow> string \<Rightarrow> nat \<Rightarrow> rate_limiter \<Rightarrow> limiter_error + decision \<times> rate_limiter" where
  "registry_check now key cost rl =
     (case limiter_for key rl of
        Inl e \<Rightarrow> Inl e
      | Inr (l, rl1) \<Rightarrow>
          (let (d, l') = limiter_check now key cost l
           in Inr (d, rl1\<lparr>rl_limiters := dict_set key l' (rl_limiters rl1)\<rparr>)))"

text \<open>A denial raises after the strategy has updated its state.\<close>

definition enforce ::
  "pyfloat \<Rightarrow> string \<Rightarrow> nat \<Rightarrow> rate_limiter \<Rightarrow> (limiter_error + decision) \<times> rate_limiter" where
  "enforce now key cost rl =
     (case registry_check now key cost rl of
        Inl e \<Rightarrow> (Inl e, rl)
      | Inr (d, rl1) \<Rightarrow> (if dc_allowed d then Inr d else Inl (Rate_Limit_Exceeded d), rl1))"

definition registry_reset :: "string \<Rightarrow> rate_limiter \<Rightarrow> rate_limiter" where
  "registry_reset key rl =
     (case dict_get (rl_limiters rl) key of
        None \<Rightarrow> rl
      | Some l \<Rightarrow> rl\<lparr>rl_limiters := dict_set key (limiter_reset key l) (rl_limiters rl)\<rparr>)"

definition reset_all :: "rate_limiter \<Rightarrow> rate_limiter" where
  "reset_all rl =
     rl\<lparr>rl_limiters := map (\<lambda>(k, l). (k, fold limiter_reset (strategy_keys l) l)) (rl_limiters rl)\<rparr>"

section \<open>The router's own limiter\<close>

record simple_bucket =
  sb_rate :: pyfloat
  sb_burst :: int
  sb_tokens :: pyfloat
  sb_last_update :: pyfloat

definition consume :: "pyfloat \<Rightarrow> nat \<Rightarrow> simple_bucket \<Rightarrow> bool \<times> simple_bucket" where
  "consume now n sb =
     (let tokens = min (of_int (sb_burst sb)) (sb_tokens sb + (now - sb_last_update sb) * sb_rate sb);
          sb1 = sb\<lparr>sb_tokens := tokens, sb_last_update := now\<rparr>
      in if of_nat n \<le> tokens then (True, sb1\<lparr>sb_tokens := tokens - of_nat n\<rparr>) else (False, sb1))"

definition get_wait_time :: "nat \<Rightarrow> simple_bucket \<Rightarrow> pyfloat" where
  "get_wait_time n sb =
     (if of_nat n \<le> sb_tokens sb then 0 else (of_nat n - sb_tokens sb) / sb_rate sb)"

record limit_info =
  li_allowed :: bool
  li_remaining :: int
  li_reset_time :: pyfloat
  li_retry_after :: "int option"

datatype index_error = Index_Error

definition cleanup_old :: "sliding_window \<Rightarrow> string \<Rightarrow> pyfloat \<Rightarrow> sw_state \<Rightarrow> sw_state" where
  "cleanup_old sw key now s =
     dict_set key (dropWhile (\<lambda>t. t < now - sw_window sw) (dict_get_or s key [])) s"

definition is_allowed ::
  "sliding_window \<Rightarrow> pyfloat \<Rightarrow> string \<Rightarrow> nat \<Rightarrow> sw_state \<Rightarrow> (index_error + limit_info) \<times> sw_state" where
  "is_allowed sw now key cost s =
     (let s1 = cleanup_old sw key now s; window = dict_get_or s1 key []
      in if int (length window + cost) \<le> sw_limit sw
         then (let window' = window @ replicate cost now
               in (Inr \<lparr>li_allowed = True, li_remaining = sw_limit sw - int (length window'),
                        li_reset_time = (if window' = [] then now else hd window') + sw_window sw,
                        li_retry_after = None\<rparr>,
                   dict_set key window' s1))
         else if window = [] then (Inl Index_Error, s1)
         else (Inr \<lparr>li_allowed = False, li_remaining = 0, li_reset_time = hd window + sw_window sw,
                    li_retry_after = Some (py_int (hd window + sw_window sw - now) + 1)\<rparr>, s1))"

section \<open>Quotas\<close>

definition QUOTA_BUCKET_NAMES :: "string list" where
  "QUOTA_BUCKET_NAMES = [''requests'', ''tokens'', ''storage'', ''embeddings'', ''mcp_calls'']"

record quota =
  qm_config :: gateway_config
  qm_usage :: "(string \<times> string, int) dict"
  qm_limits :: "(string \<times> string, int) dict"
  qm_scopes :: "(string, string list) dict"

record consumption =
  qc_bucket :: string
  qc_used :: int
  qc_limit :: int
  qc_remaining :: int

datatype quota_error = Quota_Exceeded string int int | Unknown_Bucket string

text \<open>\<open>BUCKET_KEYS\<close> names the configuration field per bucket; an unknown bucket uses the limit of
  requests.\<close>

definition default_limit :: "gateway_config \<Rightarrow> string \<Rightarrow> int" where
  "default_limit cfg bucket =
     dict_get_or (gc_quotas cfg) (if bucket \<in> set QUOTA_BUCKET_NAMES then bucket else ''requests'') 100000"

definition limit_for :: "string \<Rightarrow> string \<Rightarrow> quota \<Rightarrow> int" where
  "limit_for scope bucket q = dict_get_or (qm_limits q) (scope, bucket) (default_limit (qm_config q) bucket)"

definition quota_usage :: "string \<Rightarrow> string \<Rightarrow> quota \<Rightarrow> int" where
  "quota_usage scope bucket q = dict_get_or (qm_usage q) (scope, bucket) 0"

definition add_scope :: "string \<Rightarrow> string \<Rightarrow> quota \<Rightarrow> quota" where
  "add_scope scope bucket q =
     (let bs = dict_get_or (qm_scopes q) scope []
      in q\<lparr>qm_scopes := dict_set scope (if bucket \<in> set bs then bs else bs @ [bucket]) (qm_scopes q)\<rparr>)"

definition set_limit :: "string \<Rightarrow> string \<Rightarrow> int \<Rightarrow> quota \<Rightarrow> quota_error + quota" where
  "set_limit scope bucket limit q =
     (if bucket \<notin> set QUOTA_BUCKET_NAMES then Inl (Unknown_Bucket bucket)
      else Inr (add_scope scope bucket (q\<lparr>qm_limits := dict_set (scope, bucket) limit (qm_limits q)\<rparr>)))"

definition quota_check :: "string \<Rightarrow> string \<Rightarrow> int \<Rightarrow> quota \<Rightarrow> quota_error + consumption \<times> quota" where
  "quota_check scope bucket amount q =
     (let limit = limit_for scope bucket q; used = quota_usage scope bucket q
      in if used + amount > limit then Inl (Quota_Exceeded bucket limit used)
         else Inr (\<lparr>qc_bucket = bucket, qc_used = used + amount, qc_limit = limit,
                    qc_remaining = limit - used - amount\<rparr>,
                   add_scope scope bucket (q\<lparr>qm_usage := dict_set (scope, bucket) (used + amount) (qm_usage q)\<rparr>)))"

definition refund :: "string \<Rightarrow> string \<Rightarrow> int \<Rightarrow> quota \<Rightarrow> consumption \<times> quota" where
  "refund scope bucket amount q =
     (let used = max 0 (quota_usage scope bucket q - amount); limit = limit_for scope bucket q
      in (\<lparr>qc_bucket = bucket, qc_used = used, qc_limit = limit, qc_remaining = max 0 (limit - used)\<rparr>,
          q\<lparr>qm_usage := dict_set (scope, bucket) used (qm_usage q)\<rparr>))"

definition quota_reset :: "string option \<Rightarrow> string option \<Rightarrow> quota \<Rightarrow> quota" where
  "quota_reset scope bucket q =
     (case scope of
        None \<Rightarrow> q\<lparr>qm_usage := []\<rparr>
      | Some sc \<Rightarrow>
          (case bucket of
             None \<Rightarrow> q\<lparr>qm_usage := filter (\<lambda>(k, v). fst k \<noteq> sc) (qm_usage q)\<rparr>
           | Some b \<Rightarrow> q\<lparr>qm_usage := dict_pop (sc, b) (qm_usage q)\<rparr>))"

subsection \<open>Quota operations as a run\<close>

datatype quota_op = Q_Check string string nat | Q_Refund string string nat | Q_Reset "string option" "string option"

fun quota_exec :: "quota_op \<Rightarrow> quota \<Rightarrow> quota" where
  "quota_exec (Q_Check sc b n) q = (case quota_check sc b (int n) q of Inl e \<Rightarrow> q | Inr (c, q') \<Rightarrow> q')"
| "quota_exec (Q_Refund sc b n) q = snd (refund sc b (int n) q)"
| "quota_exec (Q_Reset sc b) q = quota_reset sc b q"

definition quota_inv :: "quota \<Rightarrow> bool" where
  "quota_inv q \<longleftrightarrow> (\<forall>sc b. 0 \<le> quota_usage sc b q \<and> quota_usage sc b q \<le> max 0 (limit_for sc b q))"

lemma quota_fields [simp]:
  "qm_limits (add_scope sc b q) = qm_limits q" "qm_config (add_scope sc b q) = qm_config q"
  "qm_usage (add_scope sc b q) = qm_usage q"
  by (simp_all add: add_scope_def Let_def)

lemma quota_usage_set:
  "quota_usage sc b (q\<lparr>qm_usage := dict_set (sc', b') n u\<rparr>) =
     (if sc = sc' \<and> b = b' then n else quota_usage sc b (q\<lparr>qm_usage := u\<rparr>))"
  by (simp add: quota_usage_def)

lemma dict_get_filter_fst:
  "dict_get (filter (\<lambda>(k, v). fst k \<noteq> sc) d) (a, b) = (if a = sc then None else dict_get d (a, b))"
  by (induction d) auto

lemma quota_inv_update:
  assumes "quota_inv q" "0 \<le> n" "n \<le> max 0 (limit_for sc b q)"
    and "qm_usage q' = dict_set (sc, b) n (qm_usage q)" "qm_limits q' = qm_limits q" "qm_config q' = qm_config q"
  shows "quota_inv q'"
  unfolding quota_inv_def
proof (intro allI)
  fix sc' b'
  have "limit_for sc' b' q' = limit_for sc' b' q" using assms(5,6) by (simp add: limit_for_def)
  moreover have "quota_usage sc' b' q' = (if (sc', b') = (sc, b) then n else quota_usage sc' b' q)"
    using assms(4) by (simp add: quota_usage_def)
  ultimately show "0 \<le> quota_usage sc' b' q' \<and> quota_usage sc' b' q' \<le> max 0 (limit_for sc' b' q')"
    using assms(1-3) by (auto simp: quota_inv_def)
qed

lemma quota_inv_exec: "quota_inv q \<Longrightarrow> quota_inv (quota_exec op q)"
proof (induction op)
  case (Q_Check sc b n)
  have "0 \<le> quota_usage sc b q" using Q_Check by (simp add: quota_inv_def)
  then show ?case
    using Q_Check by (auto simp: quota_check_def Let_def intro!: quota_inv_update [of q "quota_usage sc b q + int n" sc b])
next
  case (Q_Refund sc b n)
  then have "0 \<le> quota_usage sc b q" "quota_usage sc b q \<le> max 0 (limit_for sc b q)"
    by (simp_all add: quota_inv_def)
  with Q_Refund show ?case
    by (auto simp: refund_def Let_def intro!: quota_inv_update [of q "max 0 (quota_usage sc b q - int n)" sc b])
next
  case (Q_Reset sc b)
  have "limit_for sc' b' (quota_reset sc b q) = limit_for sc' b' q" for sc' b'
    by (simp add: quota_reset_def limit_for_def split: option.splits)
  moreover have "quota_usage sc' b' (quota_reset sc b q) \<in> {0, quota_usage sc' b' q}" for sc' b'
    by (auto simp: quota_reset_def quota_usage_def dict_get_or_def dict_get_filter_fst split: option.splits)
  ultimately show ?case using Q_Reset unfolding quota_exec.simps quota_inv_def
    by (metis insertE max.cobounded1 order_refl singletonD)
qed

section \<open>Properties\<close>

text \<open>
  The router's own sliding window limiter agrees with the gateway's: the same window state,
  the same verdict and remaining count. The only difference is a request that costs more than
  the whole limit on an empty window, where it raises \<open>IndexError\<close> instead of denying.
\<close>

theorem router_limiter_agrees:
  "snd (is_allowed sw now key cost s) = snd (sw_check sw now key cost s) \<and>
   (case fst (is_allowed sw now key cost s) of
      Inr i \<Rightarrow> li_allowed i = dc_allowed (fst (sw_check sw now key cost s)) \<and>
               li_remaining i = dc_remaining (fst (sw_check sw now key cost s)) \<and>
               li_reset_time i = dc_reset_at (fst (sw_check sw now key cost s))
    | Inl e \<Rightarrow> \<not> dc_allowed (fst (sw_check sw now key cost s))) \<and>
   (fst (is_allowed sw now key cost s) = Inl Index_Error \<longleftrightarrow>
      int cost > sw_limit sw \<and> dropWhile (\<lambda>t. t < now - sw_window sw) (dict_get_or s key []) = [])"
proof -
  define w where "w = dropWhile (\<lambda>t. t < now - sw_window sw) (dict_get_or s key [])"
  show ?thesis
    unfolding is_allowed_def sw_check_def cleanup_old_def sw_prune_def Let_def w_def [symmetric]
    by (cases "w = []") auto
qed



text \<open>
  A policy limit of 0 is honoured by the window strategies, which then deny every request,
  but means "use the default burst" for the two buckets, which go on admitting requests.
\<close>

theorem zero_limit_policy:
  "0 < gc_burst (rl_config rl) \<Longrightarrow> 0 < gc_rpm (rl_config rl) \<Longrightarrow>
   (\<exists>d rl'. registry_check now key 1 (set_policy key (Some ''token_bucket'') (Some 0) None no_overrides rl) = Inr (d, rl') \<and>
      dc_allowed d \<and> dc_limit d = gc_burst (rl_config rl)) \<and>
   (\<exists>d rl'. registry_check now key 1 (set_policy key (Some ''sliding_window'') (Some 0) None no_overrides rl) = Inr (d, rl') \<and>
      \<not> dc_allowed d)"
  by (auto simp: registry_check_def limiter_for_def set_policy_def build_limiter_def limit_or_burst_def
      set_default_def default_to_def no_overrides_def create_rate_limit_strategy_def tb_check_def tb_refill_def
      tb_default_def sw_check_def sw_prune_def dict_get_or_def Let_def)

lemma zero_limit_policy_witness:
  "\<exists>d rl'. registry_check 5 ''k'' 1 (set_policy ''k'' (Some ''token_bucket'') (Some 0) None no_overrides
       \<lparr>rl_config = \<lparr>gc_strategy = ''token_bucket'', gc_rpm = 120, gc_burst = 30, gc_quotas = []\<rparr>,
        rl_policies = [], rl_limiters = []\<rparr>) = Inr (d, rl') \<and> dc_allowed d \<and> dc_limit d = 30"
  using zero_limit_policy [of "\<lparr>rl_config = \<lparr>gc_strategy = ''token_bucket'', gc_rpm = 120, gc_burst = 30, gc_quotas = []\<rparr>,
        rl_policies = [], rl_limiters = []\<rparr>" 5 "''k''"] by simp

end
