(* ===== verification/Caches.thy ===== *)
theory Caches
  imports Interfaces
begin

text \<open>
  The two caches: the LRU cache with expiry of \<^verbatim>\<open>app/cache.py\<close> (and its manager), and the
  gateway's response cache \<^verbatim>\<open>app/gateway/cache.py\<close>.

  The \<open>OrderedDict\<close> of the LRU cache is a dictionary in order of use, least recent first.
  Keys are the strings \<open>_make_key\<close> produces; the hash it applies to other keys is not modelled.
  The cleanup timer is left out; its pass is \<open>cleanup_expired\<close>.
\<close>

section \<open>The LRU cache with expiry\<close>

record 'v cache_entry =
  ce_value :: 'v
  ce_created :: pyfloat
  ce_expires :: "pyfloat option"
  ce_ttl :: int

record 'v ttl_cache =
  tt_max_size :: nat
  tt_default_ttl :: int
  tt_entries :: "(string, 'v cache_entry) dict"
  tt_hits :: nat
  tt_misses :: nat
  tt_evictions :: nat

definition new_cache :: "nat \<Rightarrow> int \<Rightarrow> 'v ttl_cache" where
  "new_cache max_size default_ttl =
     \<lparr>tt_max_size = max_size, tt_default_ttl = default_ttl, tt_entries = [], tt_hits = 0,
      tt_misses = 0, tt_evictions = 0\<rparr>"

text \<open>\<open>entry.expires_at and entry.expires_at < now\<close>: no expiry time, or 0, never expires.\<close>

definition entry_expired :: "pyfloat \<Rightarrow> 'v cache_entry \<Rightarrow> bool" where
  "entry_expired now e = (case ce_expires e of None \<Rightarrow> False | Some t \<Rightarrow> t \<noteq> 0 \<and> t < now)"

definition cleanup_expired :: "pyfloat \<Rightarrow> 'v ttl_cache \<Rightarrow> nat \<times> 'v ttl_cache" where
  "cleanup_expired now c =
     (let keep = filter (\<lambda>(k, e). \<not> entry_expired now e) (tt_entries c);
          removed = length (tt_entries c) - length keep
      in (removed, c\<lparr>tt_entries := keep, tt_evictions := tt_evictions c + removed\<rparr>))"

definition move_to_end :: "string \<Rightarrow> 'v cache_entry \<Rightarrow> (string, 'v cache_entry) dict \<Rightarrow> (string, 'v cache_entry) dict" where
  "move_to_end k e d = dict_pop k d @ [(k, e)]"

definition cache_get :: "pyfloat \<Rightarrow> string \<Rightarrow> 'v ttl_cache \<Rightarrow> 'v option \<times> 'v ttl_cache" where
  "cache_get now k c =
     (case dict_get (tt_entries c) k of
        None \<Rightarrow> (None, c\<lparr>tt_misses := tt_misses c + 1\<rparr>)
      | Some e \<Rightarrow>
          (if entry_expired now e
           then (None, c\<lparr>tt_entries := dict_pop k (tt_entries c), tt_evictions := tt_evictions c + 1,
                         tt_misses := tt_misses c + 1\<rparr>)
           else (Some (ce_value e),
                 c\<lparr>tt_entries := move_to_end k e (tt_entries c), tt_hits := tt_hits c + 1\<rparr>)))"

datatype cache_error = Empty_Popitem

definition cache_set :: "pyfloat \<Rightarrow> string \<Rightarrow> 'v \<Rightarrow> int option \<Rightarrow> 'v ttl_cache \<Rightarrow> cache_error + 'v ttl_cache" where
  "cache_set now k v ttl c =
     (let t = (case ttl of None \<Rightarrow> tt_default_ttl c | Some n \<Rightarrow> (if n = 0 then tt_default_ttl c else n));
          expires = (if t > 0 then Some (now + of_int t) else None);
          d1 = dict_pop k (tt_entries c);
          entry = \<lparr>ce_value = v, ce_created = now, ce_expires = expires, ce_ttl = t\<rparr>
      in if length d1 \<ge> tt_max_size c
         then (case d1 of
                 [] \<Rightarrow> Inl Empty_Popitem
               | _ # d2 \<Rightarrow> Inr (c\<lparr>tt_entries := d2 @ [(k, entry)], tt_evictions := tt_evictions c + 1\<rparr>))
         else Inr (c\<lparr>tt_entries := d1 @ [(k, entry)]\<rparr>))"

definition cache_delete :: "string \<Rightarrow> 'v ttl_cache \<Rightarrow> bool \<times> 'v ttl_cache" where
  "cache_delete k c =
     (if dict_has (tt_entries c) k then (True, c\<lparr>tt_entries := dict_pop k (tt_entries c)\<rparr>) else (False, c))"

definition cache_clear :: "'v ttl_cache \<Rightarrow> 'v ttl_cache" where
  "cache_clear c = c\<lparr>tt_entries := [], tt_hits := 0, tt_misses := 0, tt_evictions := 0\<rparr>"

definition hit_rate :: "'v ttl_cache \<Rightarrow> pyfloat" where
  "hit_rate c =
     (let n = tt_hits c + tt_misses c in if n > 0 then of_nat (tt_hits c) / of_nat n else 0)"

definition get_cache :: "string \<Rightarrow> nat \<Rightarrow> int \<Rightarrow> (string, 'v ttl_cache) dict \<Rightarrow> 'v ttl_cache \<times> (string, 'v ttl_cache) dict" where
  "get_cache name max_size default_ttl cs =
     (case dict_get cs name of
        Some c \<Rightarrow> (c, cs)
      | None \<Rightarrow> (let c = new_cache max_size default_ttl in (c, dict_set name c cs)))"

definition clear_all :: "(string, 'v ttl_cache) dict \<Rightarrow> (string, 'v ttl_cache) dict" where
  "clear_all cs = map (\<lambda>(n, c). (n, cache_clear c)) cs"

section \<open>Invariant\<close>

definition cache_inv :: "'v ttl_cache \<Rightarrow> bool" where
  "cache_inv c \<longleftrightarrow> dict_ok (tt_entries c) \<and> length (tt_entries c) \<le> tt_max_size c"

lemma dict_ok_snoc: "dict_ok (dict_pop k d) \<Longrightarrow> dict_ok (dict_pop k d @ [(k, v)])"
  by (auto simp: dict_ok_def AList.delete_eq)

lemma length_move_to_end: "dict_has d k \<Longrightarrow> length (move_to_end k e d) \<le> length d"
  using length_dict_pop_less [of d k] by (simp add: move_to_end_def)

lemma cache_inv_get: "cache_inv c \<Longrightarrow> cache_inv (snd (cache_get now k c))"
  using length_dict_pop_le [of k "tt_entries c"] length_move_to_end [of "tt_entries c" k]
  by (auto simp: cache_inv_def cache_get_def move_to_end_def dict_ok_snoc dict_has_def
      simp del: length_dict_pop_le split: option.splits)

lemma cache_inv_set:
  assumes "cache_inv c" "cache_set now k v ttl c = Inr c'"
  shows "cache_inv c'" "tt_max_size c' = tt_max_size c"
proof -
  let ?d = "dict_pop k (tt_entries c)"
  have ok: "dict_ok ?d" "length ?d \<le> tt_max_size c"
    using assms(1) length_dict_pop_le [of k "tt_entries c"] by (auto simp: cache_inv_def simp del: length_dict_pop_le)
  have k: "k \<notin> fst ` set ?d" by (auto simp: AList.delete_eq)
  show "cache_inv c'" "tt_max_size c' = tt_max_size c"
    using assms(2) ok k
    by (auto simp: cache_set_def cache_inv_def dict_ok_def Let_def split: if_splits list.splits)
qed

lemma cache_set_total: "0 < tt_max_size c \<Longrightarrow> \<exists>c'. cache_set now k v ttl c = Inr c'"
  by (auto simp: cache_set_def Let_def split: list.splits)

section \<open>The least recently used order\<close>

text \<open>
  The specification: the keys in the order of their last use. A cache of size \<open>n\<close> holds
  exactly the last \<open>n\<close> of them.
\<close>

definition touch :: "string \<Rightarrow> string list \<Rightarrow> string list" where
  "touch k ks = filter (\<lambda>x. x \<noteq> k) ks @ [k]"

datatype 'v cache_op = C_Set string 'v | C_Get string

fun cache_exec :: "pyfloat \<times> 'v cache_op \<Rightarrow> 'v ttl_cache \<Rightarrow> 'v ttl_cache" where
  "cache_exec (now, C_Set k v) c = (case cache_set now k v None c of Inl e \<Rightarrow> c | Inr c' \<Rightarrow> c')"
| "cache_exec (now, C_Get k) c = snd (cache_get now k c)"

fun recency :: "nat \<Rightarrow> (pyfloat \<times> 'v cache_op) list \<Rightarrow> string list \<Rightarrow> string list" where
  "recency n [] ks = ks"
| "recency n ((now, C_Set k v) # ops) ks = recency n ops (touch k ks)"
| "recency n ((now, C_Get k) # ops) ks = recency n ops (if k \<in> set (last_n n ks) then touch k ks else ks)"

lemma distinct_touch: "distinct ks \<Longrightarrow> distinct (touch k ks)"
  by (auto simp: touch_def)

lemma last_n_append_drop: "last_n n (xs @ ys) = (if n \<le> length ys then last_n n ys else last_n (n - length ys) xs @ ys)"
  by (auto simp: last_n_def)

lemma split_last_n: "ks = take (length ks - n) ks @ last_n n ks"
  by (simp add: last_n_def)

lemma length_filter_neq: "distinct l \<Longrightarrow> k \<in> set l \<Longrightarrow> Suc (length (filter (\<lambda>x. x \<noteq> k) l)) = length l"
proof (induction l)
  case (Cons x l)
  show ?case
  proof (cases "x = k")
    case True
    then have "filter (\<lambda>x. x \<noteq> k) l = l" using Cons.prems(1) by (auto intro: filter_True)
    with True show ?thesis by simp
  next
    case False
    with Cons show ?thesis by simp
  qed
qed simp

lemma touch_in_last:
  assumes "distinct ks" "k \<in> set (last_n n ks)"
  shows "last_n n (touch k ks) = touch k (last_n n ks)"
proof -
  let ?pre = "take (length ks - n) ks" and ?l = "last_n n ks"
  have "k \<notin> set ?pre"
    using assms split_last_n [of ks n] by (metis distinct_append disjoint_iff)
  then have pre: "filter (\<lambda>x. x \<noteq> k) ?pre = ?pre" by (auto intro: filter_True)
  have len: "length (touch k ?l) = length ?l"
    using length_filter_neq [of ?l k] assms by (simp add: touch_def last_n_def)
  have "touch k ks = ?pre @ touch k ?l"
    by (subst split_last_n [of ks n]) (simp add: touch_def pre)
  moreover have "last_n n (?pre @ touch k ?l) = touch k ?l"
  proof (cases "n \<le> length ks")
    case True
    then have "length (touch k ?l) = n" using len by simp
    then show ?thesis by (simp add: last_n_append_drop) (simp add: last_n_def)
  next
    case False
    then have "?pre = []" by simp
    then show ?thesis using False len by (simp add: last_n_def)
  qed
  ultimately show ?thesis by simp
qed

lemma touch_not_in_last:
  assumes "distinct ks" "k \<notin> set (last_n (Suc m) ks)"
  shows "last_n (Suc m) (touch k ks) =
    (if Suc m \<le> length (last_n (Suc m) ks) then tl (last_n (Suc m) ks) else last_n (Suc m) ks) @ [k]"
proof -
  let ?pre = "take (length ks - Suc m) ks" and ?l = "last_n (Suc m) ks"
  have "filter (\<lambda>x. x \<noteq> k) ?l = ?l" using assms(2) by (auto intro: filter_True)
  then have t: "touch k ks = filter (\<lambda>x. x \<noteq> k) ?pre @ ?l @ [k]"
    by (subst split_last_n [of ks "Suc m"]) (simp add: touch_def)
  show ?thesis
  proof (cases "Suc m \<le> length ks")
    case True
    then have len: "length ?l = Suc m" by simp
    have "last_n (Suc m) (filter (\<lambda>x. x \<noteq> k) ?pre @ ?l @ [k]) = last_n (Suc m) (?l @ [k])"
      using len by (simp add: last_n_append_drop)
    also have "\<dots> = tl ?l @ [k]" using len by (simp add: last_n_def drop_Suc tl_drop)
    finally show ?thesis using len t by simp
  next
    case False
    then have "?pre = []" "length ?l = length ks" by simp_all
    with t False show ?thesis by (simp add: last_n_def)
  qed
qed

lemma map_fst_dict_pop: "map fst (dict_pop k d) = filter (\<lambda>x. x \<noteq> k) (map fst d)"
  by (induction d) (auto simp: AList.delete_eq)

text \<open>The simulation relation, while no entry has expired.\<close>

definition lru_sim :: "pyfloat \<Rightarrow> 'v ttl_cache \<Rightarrow> string list \<Rightarrow> bool" where
  "lru_sim tend c ks \<longleftrightarrow> distinct ks \<and> map fst (tt_entries c) = last_n (tt_max_size c) ks \<and>
     list_all (\<lambda>x. \<not> entry_expired tend (snd x)) (tt_entries c)"

lemma entry_expired_mono: "entry_expired now e \<Longrightarrow> now \<le> tend \<Longrightarrow> entry_expired tend e"
  by (auto simp: entry_expired_def split: option.splits)

lemma lru_sim_get:
  assumes sim: "lru_sim tend c ks" and now: "now \<le> tend"
  shows "lru_sim tend (snd (cache_get now k c)) (if k \<in> set (last_n (tt_max_size c) ks) then touch k ks else ks)"
    "tt_max_size (snd (cache_get now k c)) = tt_max_size c" "tt_default_ttl (snd (cache_get now k c)) = tt_default_ttl c"
proof -
  have keys: "map fst (tt_entries c) = last_n (tt_max_size c) ks" and d: "distinct ks"
    and fresh: "list_all (\<lambda>x. \<not> entry_expired tend (snd x)) (tt_entries c)"
    using sim by (simp_all add: lru_sim_def)
  have mem: "k \<in> set (last_n (tt_max_size c) ks) \<longleftrightarrow> dict_get (tt_entries c) k \<noteq> None"
    by (simp add: keys [symmetric] map_of_eq_None_iff)
  have "lru_sim tend (snd (cache_get now k c)) (if k \<in> set (last_n (tt_max_size c) ks) then touch k ks else ks) \<and>
    tt_max_size (snd (cache_get now k c)) = tt_max_size c \<and> tt_default_ttl (snd (cache_get now k c)) = tt_default_ttl c"
  proof (cases "dict_get (tt_entries c) k")
    case None
    then show ?thesis using sim mem by (simp add: cache_get_def lru_sim_def)
  next
    case (Some e)
    have "\<not> entry_expired tend e" using fresh dict_get_in [OF Some] by (fastforce simp: list_all_iff)
    moreover then have "\<not> entry_expired now e" using entry_expired_mono now by blast
    ultimately show ?thesis
      using Some mem d fresh touch_in_last [OF d, of k "tt_max_size c"] keys
      by (simp add: cache_get_def lru_sim_def move_to_end_def map_fst_dict_pop touch_def list_all_dict_pop distinct_touch)
  qed
  then show "lru_sim tend (snd (cache_get now k c)) (if k \<in> set (last_n (tt_max_size c) ks) then touch k ks else ks)"
    "tt_max_size (snd (cache_get now k c)) = tt_max_size c" "tt_default_ttl (snd (cache_get now k c)) = tt_default_ttl c"
    by blast+
qed

lemma lru_sim_set:
  assumes sim: "lru_sim tend c ks" and size: "tt_max_size c = Suc m"
    and ttl: "0 < tt_default_ttl c" "tend \<le> now + of_int (tt_default_ttl c)"
  shows "\<exists>c'. cache_set now k v None c = Inr c' \<and> lru_sim tend c' (touch k ks) \<and>
           tt_max_size c' = tt_max_size c \<and> tt_default_ttl c' = tt_default_ttl c"
proof -
  define e where "e = \<lparr>ce_value = v, ce_created = now, ce_expires = Some (now + of_int (tt_default_ttl c)),
    ce_ttl = tt_default_ttl c\<rparr>"
  have e: "\<not> entry_expired tend e" using ttl(2) by (simp add: e_def entry_expired_def)
  have keys: "map fst (tt_entries c) = last_n (Suc m) ks" and d: "distinct ks"
    and fresh: "list_all (\<lambda>x. \<not> entry_expired tend (snd x)) (tt_entries c)"
    using sim size by (simp_all add: lru_sim_def)
  let ?d1 = "dict_pop k (tt_entries c)"
  have d1: "map fst ?d1 = filter (\<lambda>x. x \<noteq> k) (last_n (Suc m) ks)" by (simp add: map_fst_dict_pop keys)
  have f1: "list_all (\<lambda>x. \<not> entry_expired tend (snd x)) ?d1" using fresh by (rule list_all_dict_pop)
  define d' where "d' = (if Suc m \<le> length ?d1 then tl ?d1 else ?d1) @ [(k, e)]"
  have "map fst d' = last_n (Suc m) (touch k ks)"
  proof (cases "k \<in> set (last_n (Suc m) ks)")
    case True
    have "Suc (length ?d1) = length (last_n (Suc m) ks)"
      using length_filter_neq [of "last_n (Suc m) ks" k] d True arg_cong [OF d1, of length] by (simp add: last_n_def)
    then have "\<not> Suc m \<le> length ?d1" by simp
    then show ?thesis
      using touch_in_last [OF d True] d1 by (simp add: d'_def touch_def)
  next
    case False
    then have "filter (\<lambda>x. x \<noteq> k) (last_n (Suc m) ks) = last_n (Suc m) ks" by (auto intro: filter_True)
    then have "map fst ?d1 = last_n (Suc m) ks" using d1 by simp
    moreover from this have "length ?d1 = length (last_n (Suc m) ks)" by (metis length_map)
    ultimately show ?thesis
      using touch_not_in_last [OF d False] by (simp add: d'_def map_tl)
  qed
  moreover have "list_all (\<lambda>x. \<not> entry_expired tend (snd x)) d'"
    using f1 e by (cases ?d1) (auto simp: d'_def)
  moreover have "\<exists>ev. cache_set now k v None c = Inr (c\<lparr>tt_entries := d', tt_evictions := ev\<rparr>)"
    using size ttl(1)
    by (cases ?d1) (auto simp: cache_set_def d'_def e_def Let_def intro: exI [of _ "tt_evictions c"])
  ultimately show ?thesis using d size by (auto simp: lru_sim_def distinct_touch)
qed

lemma lru_run:
  "lru_sim tend c ks \<Longrightarrow> tt_max_size c = Suc m \<Longrightarrow> 0 < tt_default_ttl c \<Longrightarrow>
   list_all (\<lambda>(now, op). now \<le> tend \<and> tend \<le> now + of_int (tt_default_ttl c)) ops \<Longrightarrow>
   lru_sim tend (fold cache_exec ops c) (recency (Suc m) ops ks) \<and> tt_max_size (fold cache_exec ops c) = Suc m"
proof (induction ops arbitrary: c ks)
  case (Cons x ops)
  obtain now op where x: "x = (now, op)" by (cases x)
  show ?case
  proof (cases op)
    case (C_Set k v)
    obtain c' where c': "cache_set now k v None c = Inr c'" "lru_sim tend c' (touch k ks)"
      "tt_max_size c' = Suc m" "tt_default_ttl c' = tt_default_ttl c"
      using lru_sim_set [OF Cons.prems(1,2,3), of now k v] Cons.prems(2,4) x by auto
    then show ?thesis using Cons.IH [OF c'(2,3)] Cons.prems(3,4) by (simp add: x C_Set)
  next
    case (C_Get k)
    have g: "lru_sim tend (snd (cache_get now k c)) (if k \<in> set (last_n (Suc m) ks) then touch k ks else ks)"
      using lru_sim_get(1) [OF Cons.prems(1), of now k] Cons.prems(2,4) x by auto
    show ?thesis
      using Cons.IH [OF g] Cons.prems lru_sim_get(2,3) [OF Cons.prems(1), of now k] by (simp add: x C_Get)
  qed
qed simp

section \<open>The gateway's response cache\<close>

record 'v gw_entry =
  ge_response :: 'v
  ge_stored_at :: pyfloat
  ge_ttl :: pyfloat

record 'v response_cache =
  rcx_max_entries :: nat
  rcx_default_ttl :: pyfloat
  rcx_entries :: "(string, 'v gw_entry) dict"

definition gw_expired :: "pyfloat \<Rightarrow> 'v gw_entry \<Rightarrow> bool" where
  "gw_expired now e \<longleftrightarrow> now - ge_stored_at e > ge_ttl e"

definition gw_get :: "pyfloat \<Rightarrow> string \<Rightarrow> 'v response_cache \<Rightarrow> 'v option \<times> 'v response_cache" where
  "gw_get now k c =
     (case dict_get (rcx_entries c) k of
        None \<Rightarrow> (None, c)
      | Some e \<Rightarrow>
          (if gw_expired now e then (None, c\<lparr>rcx_entries := dict_pop k (rcx_entries c)\<rparr>)
           else (Some (ge_response e), c)))"

fun oldest_key :: "(string, 'v gw_entry) dict \<Rightarrow> (string \<times> pyfloat) option \<Rightarrow> (string \<times> pyfloat) option" where
  "oldest_key [] best = best"
| "oldest_key ((k, e) # d) best =
     (case best of
        None \<Rightarrow> oldest_key d (Some (k, ge_stored_at e))
      | Some (bk, bt) \<Rightarrow> oldest_key d (if ge_stored_at e < bt then Some (k, ge_stored_at e) else best))"

definition evict_oldest :: "(string, 'v gw_entry) dict \<Rightarrow> (string, 'v gw_entry) dict" where
  "evict_oldest d = (case oldest_key d None of None \<Rightarrow> d | Some (k, t) \<Rightarrow> dict_pop k d)"

definition gw_set :: "pyfloat \<Rightarrow> string \<Rightarrow> 'v \<Rightarrow> pyfloat option \<Rightarrow> 'v response_cache \<Rightarrow> 'v response_cache" where
  "gw_set now k v ttl c =
     (let t = (case ttl of Some x \<Rightarrow> x | None \<Rightarrow> rcx_default_ttl c);
          d = (if length (rcx_entries c) \<ge> rcx_max_entries c \<and> \<not> dict_has (rcx_entries c) k
               then evict_oldest (rcx_entries c) else rcx_entries c)
      in c\<lparr>rcx_entries := dict_set k \<lparr>ge_response = v, ge_stored_at = now, ge_ttl = t\<rparr> d\<rparr>)"

definition gw_invalidate :: "string \<Rightarrow> 'v response_cache \<Rightarrow> bool \<times> 'v response_cache" where
  "gw_invalidate k c = (dict_has (rcx_entries c) k, c\<lparr>rcx_entries := dict_pop k (rcx_entries c)\<rparr>)"

definition gw_invalidate_prefix :: "string \<Rightarrow> 'v response_cache \<Rightarrow> nat \<times> 'v response_cache" where
  "gw_invalidate_prefix prefix c =
     (let ks = filter (starts_with prefix) (map fst (rcx_entries c))
      in (length ks, c\<lparr>rcx_entries := fold dict_pop ks (rcx_entries c)\<rparr>))"

definition gw_prune :: "pyfloat \<Rightarrow> 'v response_cache \<Rightarrow> nat \<times> 'v response_cache" where
  "gw_prune now c =
     (let ks = map fst (filter (\<lambda>(k, e). gw_expired now e) (rcx_entries c))
      in (length ks, c\<lparr>rcx_entries := fold dict_pop ks (rcx_entries c)\<rparr>))"

definition gw_clear :: "'v response_cache \<Rightarrow> 'v response_cache" where
  "gw_clear c = c\<lparr>rcx_entries := []\<rparr>"

lemma oldest_key_min:
  "oldest_key d best = Some (k, t) \<Longrightarrow>
   (best = Some (k, t) \<or> (\<exists>e. (k, e) \<in> set d \<and> t = ge_stored_at e)) \<and>
   (\<forall>(k', e) \<in> set d. t \<le> ge_stored_at e) \<and> (\<forall>bk bt. best = Some (bk, bt) \<longrightarrow> t \<le> bt)"
proof (induction d best rule: oldest_key.induct)
  case (2 k' e d best)
  show ?case
  proof (cases best)
    case None
    with 2 show ?thesis by auto
  next
    case (Some b)
    obtain bk bt where b: "b = (bk, bt)" by (cases b)
    show ?thesis
    proof (cases "ge_stored_at e < bt")
      case True
      with 2(2) [OF Some b [symmetric]] 2(3) Some b show ?thesis by auto
    next
      case False
      with 2(2) [OF Some b [symmetric]] 2(3) Some b show ?thesis by auto
    qed
  qed
qed auto

lemma oldest_key_None: "oldest_key d best = None \<longleftrightarrow> d = [] \<and> best = None"
  by (induction d best rule: oldest_key.induct) (auto split: option.splits)

lemma length_evict_oldest:
  assumes "d \<noteq> []"
  shows "length (evict_oldest d) < length d"
proof -
  obtain k t where o: "oldest_key d None = Some (k, t)"
    using assms oldest_key_None [of d None] by auto
  then have "dict_has d k" using oldest_key_min [OF o] by (force simp: dict_has_keys)
  then show ?thesis using o by (simp add: evict_oldest_def length_dict_pop_less)
qed

section \<open>Properties\<close>



text \<open>
  Reading back a cached value: a \<open>set\<close> on a cache of positive size succeeds, keeps the size
  bound, and a \<open>get\<close> of that key returns the value up to and including its expiry time and
  nothing after it.
\<close>

theorem cache_read_back:
  assumes "cache_inv c" "0 < tt_max_size c" "0 < n" "0 \<le> now"
  shows "\<exists>c'. cache_set now k v (Some n) c = Inr c' \<and> cache_inv c' \<and>
           fst (cache_get later k c') = (if later \<le> now + of_int n then Some v else None)"
proof -
  obtain c' where c': "cache_set now k v (Some n) c = Inr c'" using cache_set_total [OF assms(2)] by blast
  have k: "\<forall>e. (k, e) \<notin> set (dict_pop k (tt_entries c))" by (simp add: set_dict_pop)
  have "dict_get (tt_entries c') k = Some \<lparr>ce_value = v, ce_created = now, ce_expires = Some (now + of_int n), ce_ttl = n\<rparr>"
    using c' k assms(3)
    by (auto simp: cache_set_def Let_def map_of_append map_add_Some_iff split: if_splits list.splits prod.splits
        dest!: map_of_SomeD)
  moreover have "now + of_int n \<noteq> (0 :: pyfloat)" using assms(3,4) by (metis add_nonneg_pos less_irrefl of_int_0_less_iff)
  ultimately have "fst (cache_get later k c') = (if later \<le> now + of_int n then Some v else None)"
    by (auto simp: cache_get_def entry_expired_def)
  with c' cache_inv_set(1) [OF assms(1) c'] show ?thesis by blast
qed

lemma cache_read_back_witness:
  "\<exists>c'. cache_set 0 ''k'' True (Some 10) (new_cache 2 300) = Inr c' \<and> cache_inv c' \<and>
     fst (cache_get 5 ''k'' c') = (if 5 \<le> (0 :: pyfloat) + of_int 10 then Some True else None)"
  by (rule cache_read_back) (simp_all add: cache_inv_def new_cache_def)

text \<open>
  The response cache: a \<open>set\<close> never lets it grow beyond its maximum (one entry for a
  maximum of 0), the entry it evicts is one with the smallest storage time, and \<open>get\<close> returns
  exactly the unexpired entry of the key.
\<close>

theorem response_cache_bounded:
  "length (rcx_entries c) \<le> max 1 (rcx_max_entries c) \<Longrightarrow>
   length (rcx_entries (gw_set now k v ttl c)) \<le> max 1 (rcx_max_entries c) \<and>
   (oldest_key (rcx_entries c) None = Some (ok, t) \<longrightarrow>
      evict_oldest (rcx_entries c) = dict_pop ok (rcx_entries c) \<and>
      list_all (\<lambda>(k', e). t \<le> ge_stored_at e) (rcx_entries c)) \<and>
   fst (gw_get now k c) = (case dict_get (rcx_entries c) k of
       None \<Rightarrow> None | Some e \<Rightarrow> (if now - ge_stored_at e \<le> ge_ttl e then Some (ge_response e) else None))"
proof (intro conjI impI)
  assume size: "length (rcx_entries c) \<le> max 1 (rcx_max_entries c)"
  let ?d = "rcx_entries c"
  show "length (rcx_entries (gw_set now k v ttl c)) \<le> max 1 (rcx_max_entries c)"
  proof (cases "dict_has ?d k")
    case True
    then show ?thesis using size by (simp add: gw_set_def Let_def length_dict_set)
  next
    case new: False
    show ?thesis
    proof (cases "rcx_max_entries c \<le> length ?d \<and> ?d \<noteq> []")
      case True
      then have "length (evict_oldest ?d) < length ?d" by (simp add: length_evict_oldest)
      moreover have "length (dict_set k x (evict_oldest ?d)) \<le> Suc (length (evict_oldest ?d))" for x
        by (simp add: length_dict_set)
      ultimately show ?thesis using True new size
        by (simp add: gw_set_def Let_def) (meson le_trans less_eq_Suc_le)
    next
      case False
      then show ?thesis using new size
        by (auto simp: gw_set_def Let_def length_dict_set evict_oldest_def)
    qed
  qed
next
  assume o: "oldest_key (rcx_entries c) None = Some (ok, t)"
  then show "evict_oldest (rcx_entries c) = dict_pop ok (rcx_entries c)" by (simp add: evict_oldest_def)
  show "list_all (\<lambda>(k', e). t \<le> ge_stored_at e) (rcx_entries c)"
    using oldest_key_min [OF o] by (auto simp: list_all_iff)
qed (auto simp: gw_get_def gw_expired_def split: option.splits)

lemma response_cache_bounded_witness:
  "length (rcx_entries (gw_set 5 ''b'' (2 :: nat) None
     \<lparr>rcx_max_entries = 1, rcx_default_ttl = 60,
      rcx_entries = [(''a'', \<lparr>ge_response = 1, ge_stored_at = 0, ge_ttl = 60\<rparr>)]\<rparr>)) \<le> max 1 1"
  using response_cache_bounded [of "\<lparr>rcx_max_entries = 1, rcx_default_ttl = 60,
      rcx_entries = [(''a'', \<lparr>ge_response = 1, ge_stored_at = 0, ge_ttl = 60\<rparr>)]\<rparr>" 5 "''b''" "2 :: nat" None "''a''" 0]
  by simp

end
