(* ===== verification/Cluster.thy ===== *)
theory Cluster
  imports Interfaces "HOL-Library.List_Lexorder" "HOL-Library.Char_ord" "HOL-Library.Product_Lexorder"
begin

text \<open>
  The in-memory repositories of the cluster (\<open>app/cluster/repository.py\<close>) and the data they
  hold (\<open>app/cluster/models.py\<close>): members with their heartbeats, jobs with their runs, leases,
  backups. Each method runs under the store's lock, so an operation is one function from store
  to store. \<open>update(id, **changes)\<close> is given its keyword arguments as a list of changes in
  call order; a name that is no attribute raises after the changes before it have been made.
\<close>

section \<open>Members\<close>

datatype node_role = LEADER | FOLLOWER | STANDBY

datatype node_state =
  JOINING | JOINED | HEALTHY | DEGRADED | SUSPECTED | FAILED | LEAVING | LEFT

record node_info =
  nd_id :: string
  nd_name :: string
  nd_address :: string
  nd_port :: int
  nd_role :: node_role
  nd_state :: node_state
  nd_region :: string
  nd_zone :: string
  nd_labels :: "(string, string) dict"
  nd_version :: string
  nd_capacity :: int
  nd_leader_epoch :: int
  nd_joined_at :: pyfloat
  nd_last_seen :: pyfloat

definition new_node :: "pyfloat \<Rightarrow> string \<Rightarrow> string \<Rightarrow> string \<Rightarrow> int \<Rightarrow> node_info" where
  "new_node now i nm addr port =
     \<lparr>nd_id = i, nd_name = nm, nd_address = addr, nd_port = port, nd_role = FOLLOWER,
      nd_state = JOINING, nd_region = ''default'', nd_zone = ''default'', nd_labels = [],
      nd_version = ''1.0.0'', nd_capacity = 1, nd_leader_epoch = 0, nd_joined_at = now,
      nd_last_seen = now\<rparr>"

record heartbeat =
  hb_node :: string
  hb_timestamp :: pyfloat
  hb_state :: node_state
  hb_load :: pyfloat

datatype store_error = KeyError string | AttributeError string

record node_store =
  ns_nodes :: "(string, node_info) dict"
  ns_history :: "node_info list"
  ns_heartbeats :: "(string, heartbeat) dict"

definition empty_nodes :: node_store where
  "empty_nodes = \<lparr>ns_nodes = [], ns_history = [], ns_heartbeats = []\<rparr>"

definition ns_register :: "node_info \<Rightarrow> node_store \<Rightarrow> node_store" where
  "ns_register node s = s\<lparr>ns_nodes := dict_set (nd_id node) node (ns_nodes s)\<rparr>"

definition ns_get :: "node_store \<Rightarrow> string \<Rightarrow> node_info option" where
  "ns_get s i = dict_get (ns_nodes s) i"

definition ns_require :: "node_store \<Rightarrow> string \<Rightarrow> store_error + node_info" where
  "ns_require s i = (case ns_get s i of None \<Rightarrow> Inl (KeyError i) | Some node \<Rightarrow> Inr node)"

datatype node_change =
  Set_role node_role
| Set_state node_state
| Set_capacity int
| Set_version string
| Set_leader_epoch int
| Set_last_seen pyfloat
| No_attribute string

fun change_node :: "node_change list \<Rightarrow> node_info \<Rightarrow> node_info \<times> store_error option" where
  "change_node [] n = (n, None)"
| "change_node (Set_role r # cs) n = change_node cs (n\<lparr>nd_role := r\<rparr>)"
| "change_node (Set_state st # cs) n = change_node cs (n\<lparr>nd_state := st\<rparr>)"
| "change_node (Set_capacity c # cs) n = change_node cs (n\<lparr>nd_capacity := c\<rparr>)"
| "change_node (Set_version v # cs) n = change_node cs (n\<lparr>nd_version := v\<rparr>)"
| "change_node (Set_leader_epoch e # cs) n = change_node cs (n\<lparr>nd_leader_epoch := e\<rparr>)"
| "change_node (Set_last_seen t # cs) n = change_node cs (n\<lparr>nd_last_seen := t\<rparr>)"
| "change_node (No_attribute a # cs) n = (n, Some (AttributeError a))"

definition ns_update ::
  "string \<Rightarrow> node_change list \<Rightarrow> node_store \<Rightarrow> node_store \<times> (store_error + node_info)" where
  "ns_update i cs s =
     (case dict_get (ns_nodes s) i of
        None \<Rightarrow> (s, Inl (KeyError i))
      | Some node \<Rightarrow>
          (case change_node cs node of (node', err) \<Rightarrow>
             (s\<lparr>ns_nodes := dict_set i node' (ns_nodes s)\<rparr>,
              case err of None \<Rightarrow> Inr node' | Some e \<Rightarrow> Inl e)))"

definition ns_remove :: "string \<Rightarrow> node_store \<Rightarrow> node_store" where
  "ns_remove i s =
     (case dict_get (ns_nodes s) i of
        None \<Rightarrow> s
      | Some node \<Rightarrow> s\<lparr>ns_nodes := dict_pop i (ns_nodes s), ns_history := ns_history s @ [node]\<rparr>)"

definition ns_all :: "node_store \<Rightarrow> node_info list" where
  "ns_all s = sort_key nd_id (map snd (ns_nodes s))"

definition ns_by_state :: "node_store \<Rightarrow> node_state \<Rightarrow> node_info list" where
  "ns_by_state s st = filter (\<lambda>n. nd_state n = st) (ns_all s)"

definition ns_alive :: "node_store \<Rightarrow> node_info list" where
  "ns_alive s = filter (\<lambda>n. nd_state n \<notin> {FAILED, LEFT, LEAVING}) (ns_all s)"

definition ns_mark :: "string \<Rightarrow> node_state \<Rightarrow> node_store \<Rightarrow> node_store \<times> (store_error + node_info)"
where
  "ns_mark i st s = ns_update i [Set_state st] s"

definition see_node ::
  "string \<Rightarrow> pyfloat \<Rightarrow> node_state \<Rightarrow> (string, node_info) dict \<Rightarrow> (string, node_info) dict" where
  "see_node i t st d =
     (case dict_get d i of
        None \<Rightarrow> d
      | Some node \<Rightarrow> dict_set i (node\<lparr>nd_last_seen := t, nd_state := st\<rparr>) d)"

definition ns_touch :: "pyfloat \<Rightarrow> string \<Rightarrow> pyfloat \<Rightarrow> node_store \<Rightarrow> node_store" where
  "ns_touch now i load s =
     s\<lparr>ns_nodes := see_node i now HEALTHY (ns_nodes s),
       ns_heartbeats := dict_set i
         \<lparr>hb_node = i, hb_timestamp = now, hb_state = HEALTHY, hb_load = load\<rparr> (ns_heartbeats s)\<rparr>"

definition ns_record_heartbeat :: "heartbeat \<Rightarrow> node_store \<Rightarrow> node_store" where
  "ns_record_heartbeat hb s =
     s\<lparr>ns_nodes := see_node (hb_node hb) (hb_timestamp hb) (hb_state hb) (ns_nodes s),
       ns_heartbeats := dict_set (hb_node hb) hb (ns_heartbeats s)\<rparr>"

definition ns_last_heartbeat :: "node_store \<Rightarrow> string \<Rightarrow> heartbeat option" where
  "ns_last_heartbeat s i = dict_get (ns_heartbeats s) i"

text \<open>\<open>max(xs, key=f)\<close> keeps the first of equal maxima.\<close>

fun max_by :: "('a \<Rightarrow> int) \<Rightarrow> 'a \<Rightarrow> 'a list \<Rightarrow> 'a" where
  "max_by f best [] = best"
| "max_by f best (x # xs) = max_by f (if f best < f x then x else best) xs"

definition ns_leader :: "node_store \<Rightarrow> node_info option" where
  "ns_leader s =
     (case filter (\<lambda>n. nd_role n = LEADER) (ns_all s) of
        [] \<Rightarrow> None
      | n # ns \<Rightarrow> Some (max_by nd_leader_epoch n ns))"

definition demote :: "node_info \<Rightarrow> node_info" where
  "demote n = n\<lparr>nd_role := FOLLOWER, nd_leader_epoch := 0\<rparr>"

definition ns_set_leader :: "string \<Rightarrow> int option \<Rightarrow> node_store \<Rightarrow> node_store" where
  "ns_set_leader i epoch s =
     (let d = map (\<lambda>(k, n). (k, demote n)) (ns_nodes s)
      in s\<lparr>ns_nodes :=
           (case dict_get d i of
              None \<Rightarrow> d
            | Some n \<Rightarrow>
                dict_set i (n\<lparr>nd_role := LEADER,
                  nd_leader_epoch := (case epoch of Some e \<Rightarrow> e | None \<Rightarrow> nd_leader_epoch n + 1)\<rparr>) d)\<rparr>)"

definition ns_next_epoch :: "node_store \<Rightarrow> int" where
  "ns_next_epoch s =
     (case map (nd_leader_epoch \<circ> snd) (ns_nodes s) of [] \<Rightarrow> 0 | e # es \<Rightarrow> fold max es e) + 1"

subsection \<open>The member table\<close>

definition nodes_ok :: "node_store \<Rightarrow> bool" where
  "nodes_ok s \<longleftrightarrow> dict_ok (ns_nodes s) \<and> (\<forall>(k, n) \<in> set (ns_nodes s). nd_id n = k)"

interpretation members: keyed_store ns_get ns_register ns_remove nd_id
  by unfold_locales
    (auto simp: ns_get_def ns_register_def ns_remove_def split: option.splits)

lemma nodes_ok_empty [simp]: "nodes_ok empty_nodes"
  by (simp add: nodes_ok_def empty_nodes_def)

lemma nodes_ok_replace:
  "nodes_ok s \<Longrightarrow> nd_id n = i \<Longrightarrow> nodes_ok (s\<lparr>ns_nodes := dict_set i n (ns_nodes s)\<rparr>)"
  by (auto simp: nodes_ok_def in_dict_set split: if_splits)

lemma nodes_ok_register [intro]: "nodes_ok s \<Longrightarrow> nodes_ok (ns_register n s)"
  by (simp add: ns_register_def nodes_ok_replace)

lemma nodes_ok_remove [intro]: "nodes_ok s \<Longrightarrow> nodes_ok (ns_remove i s)"
  by (auto simp: nodes_ok_def ns_remove_def set_dict_pop split: option.splits)

lemma nodes_ok_id: "nodes_ok s \<Longrightarrow> dict_get (ns_nodes s) i = Some n \<Longrightarrow> nd_id n = i"
  by (auto simp: nodes_ok_def dest: map_of_SomeD)

lemma change_node_id: "nd_id (fst (change_node cs n)) = nd_id n"
  by (induction cs n rule: change_node.induct) simp_all

lemma nodes_ok_update [intro]: "nodes_ok s \<Longrightarrow> nodes_ok (fst (ns_update i cs s))"
  using change_node_id [of cs "the (dict_get (ns_nodes s) i)"]
  by (auto simp: ns_update_def nodes_ok_id intro!: nodes_ok_replace split: option.splits prod.splits)

lemma see_node_get:
  "dict_get (see_node i t st d) k =
     (if k = i then map_option (\<lambda>n. n\<lparr>nd_last_seen := t, nd_state := st\<rparr>) (dict_get d i)
      else dict_get d k)"
  by (simp add: see_node_def split: option.splits)

lemma nodes_ok_heartbeats:
  "nodes_ok (s\<lparr>ns_nodes := d, ns_heartbeats := h\<rparr>) = nodes_ok (s\<lparr>ns_nodes := d\<rparr>)"
  by (simp add: nodes_ok_def)

lemma nodes_ok_see:
  "nodes_ok s \<Longrightarrow> nodes_ok (s\<lparr>ns_nodes := see_node i t st (ns_nodes s), ns_heartbeats := h\<rparr>)"
  using nodes_ok_id [of s i]
  by (auto simp: see_node_def nodes_ok_heartbeats intro!: nodes_ok_replace split: option.splits)

lemma nodes_ok_touch [intro]: "nodes_ok s \<Longrightarrow> nodes_ok (ns_touch now i load s)"
  by (simp add: ns_touch_def nodes_ok_see)

lemma nodes_ok_heartbeat [intro]: "nodes_ok s \<Longrightarrow> nodes_ok (ns_record_heartbeat hb s)"
  by (simp add: ns_record_heartbeat_def nodes_ok_see)

lemma in_ns_all: "nodes_ok s \<Longrightarrow> n \<in> set (ns_all s) \<longleftrightarrow> ns_get s (nd_id n) = Some n"
  by (force simp: nodes_ok_def ns_all_def ns_get_def dict_get_iff)

lemma distinct_map_sort_key: "distinct (map f (sort_key g xs)) \<longleftrightarrow> distinct (map f xs)"
  by (rule mset_eq_imp_distinct_iff) (simp add: mset_map)

lemma distinct_ns_all: "nodes_ok s \<Longrightarrow> distinct (map nd_id (ns_all s))"
proof -
  assume ok: "nodes_ok s"
  then have "map (nd_id \<circ> snd) (ns_nodes s) = map fst (ns_nodes s)"
    by (auto simp: nodes_ok_def)
  moreover from ok have "distinct (map fst (ns_nodes s))" by (simp add: nodes_ok_def dict_ok_def)
  ultimately have "distinct (map nd_id (map snd (ns_nodes s)))" by (simp only: map_map)
  then show ?thesis by (simp only: ns_all_def distinct_map_sort_key)
qed

lemma ns_update_get:
  "ns_get (fst (ns_update i cs s)) k =
     (if k = i then map_option (\<lambda>n. fst (change_node cs n)) (ns_get s i) else ns_get s k)"
  by (auto simp: ns_update_def ns_get_def split: option.splits prod.splits)

lemma ns_mark_get:
  "ns_get (fst (ns_mark i st s)) k =
     (if k = i then map_option (\<lambda>n. n\<lparr>nd_state := st\<rparr>) (ns_get s i) else ns_get s k)"
  by (simp add: ns_mark_def ns_update_get)

lemma nodes_ok_mark [intro]: "nodes_ok s \<Longrightarrow> nodes_ok (fst (ns_mark i st s))"
  by (simp add: ns_mark_def nodes_ok_update)

subsection \<open>One leader\<close>

lemma map_of_demote: "map_of (map (\<lambda>(k, n). (k, f n)) d) i = map_option f (map_of d i)"
  by (induction d) auto

lemma ns_set_leader_get:
  "ns_get (ns_set_leader i epoch s) k =
     (if k = i
      then map_option (\<lambda>n. n\<lparr>nd_role := LEADER,
             nd_leader_epoch := (case epoch of Some e \<Rightarrow> e | None \<Rightarrow> 1)\<rparr>) (ns_get s i)
      else map_option demote (ns_get s k))"
  by (cases "map_of (ns_nodes s) i"; cases epoch)
    (simp_all add: ns_set_leader_def ns_get_def Let_def map_of_demote demote_def [of "the _"],
     simp_all add: demote_def)

lemma nodes_ok_set_leader [intro]: "nodes_ok s \<Longrightarrow> nodes_ok (ns_set_leader i epoch s)"
proof -
  assume ok: "nodes_ok s"
  define t where "t = s\<lparr>ns_nodes := map (\<lambda>(k, n). (k, demote n)) (ns_nodes s)\<rparr>"
  have t: "nodes_ok t"
    using ok by (auto simp: nodes_ok_def dict_ok_def demote_def case_prod_beta comp_def t_def)
  have "ns_set_leader i epoch s = (case dict_get (ns_nodes t) i of None \<Rightarrow> t | Some n \<Rightarrow>
      t\<lparr>ns_nodes := dict_set i (n\<lparr>nd_role := LEADER,
        nd_leader_epoch := (case epoch of Some e \<Rightarrow> e | None \<Rightarrow> nd_leader_epoch n + 1)\<rparr>) (ns_nodes t)\<rparr>)"
    by (simp add: ns_set_leader_def t_def Let_def split: option.splits)
  then show ?thesis using t nodes_ok_id [OF t] by (simp add: nodes_ok_replace split: option.splits)
qed

definition crown :: "int option \<Rightarrow> node_info \<Rightarrow> node_info" where
  "crown epoch n = n\<lparr>nd_role := LEADER, nd_leader_epoch := (case epoch of Some e \<Rightarrow> e | None \<Rightarrow> 1)\<rparr>"

lemma leaders_after_set_leader:
  assumes ok: "nodes_ok s"
  shows "{n \<in> set (ns_all (ns_set_leader i epoch s)). nd_role n = LEADER} =
    set_option (map_option (crown epoch) (ns_get s i))"
proof -
  have "n \<in> set (ns_all (ns_set_leader i epoch s)) \<and> nd_role n = LEADER \<longleftrightarrow>
      map_option (crown epoch) (ns_get s i) = Some n" for n
  proof (cases "nd_id n = i")
    case True
    then show ?thesis
      by (auto simp: in_ns_all [OF nodes_ok_set_leader [OF ok]] ns_set_leader_get crown_def)
  next
    case False
    then have "map_option (crown epoch) (ns_get s i) \<noteq> Some n"
      using nodes_ok_id [OF ok] by (auto simp: ns_get_def crown_def)
    with False show ?thesis
      by (auto simp: in_ns_all [OF nodes_ok_set_leader [OF ok]] ns_set_leader_get demote_def)
  qed
  then show ?thesis by (auto simp: set_eq_iff elem_set)
qed

lemma ns_leader_after_set_leader:
  assumes ok: "nodes_ok s"
  shows "ns_leader (ns_set_leader i epoch s) = map_option (crown epoch) (ns_get s i)"
proof -
  let ?L = "filter (\<lambda>n. nd_role n = LEADER) (ns_all (ns_set_leader i epoch s))"
  have "distinct ?L"
    using distinct_ns_all [OF nodes_ok_set_leader [OF ok]] by (simp add: distinct_map)
  then have "length ?L = card (set ?L)" by (rule distinct_card [symmetric])
  moreover have s: "set ?L = set_option (map_option (crown epoch) (ns_get s i))"
    using leaders_after_set_leader [OF ok, of i epoch] by simp
  ultimately show ?thesis
  proof (cases "ns_get s i")
    case (Some n)
    with \<open>length ?L = card (set ?L)\<close> s have "length ?L = 1" "set ?L = {crown epoch n}" by simp_all
    then have "?L = [crown epoch n]" by (cases ?L) auto
    then show ?thesis using Some by (simp add: ns_leader_def)
  qed (simp add: ns_leader_def)
qed


section \<open>Jobs and their runs\<close>

datatype job_type = RECURRING | DELAYED | CRON | SINGLETON | FAILOVER

datatype job_state = PENDING | SCHEDULED | RUNNING | SUCCEEDED | JOB_FAILED | CANCELLED | REASSIGNED

text \<open>The payload is opaque to the cluster; of the metadata the code reads integers.\<close>

record job_spec =
  jb_name :: string
  jb_type :: job_type
  jb_id :: string
  jb_interval :: pyfloat
  jb_delay :: pyfloat
  jb_cron :: string
  jb_singleton :: bool
  jb_failover :: bool
  jb_owner :: "string option"
  jb_payload :: string
  jb_metadata :: "(string, int) dict"
  jb_priority :: int
  jb_timeout :: pyfloat
  jb_last_run :: pyfloat
  jb_next_run :: pyfloat
  jb_created_at :: pyfloat

definition new_job :: "pyfloat \<Rightarrow> string \<Rightarrow> job_type \<Rightarrow> string \<Rightarrow> job_spec" where
  "new_job now nm ty i =
     \<lparr>jb_name = nm, jb_type = ty, jb_id = i, jb_interval = 60, jb_delay = 0, jb_cron = [],
      jb_singleton = False, jb_failover = False, jb_owner = None, jb_payload = [],
      jb_metadata = [], jb_priority = 0, jb_timeout = 30, jb_last_run = 0, jb_next_run = 0,
      jb_created_at = now\<rparr>"

record job_run =
  run_id :: string
  run_job_id :: string
  run_job_name :: string
  run_node_id :: string
  run_state :: job_state
  run_started_at :: pyfloat
  run_finished_at :: pyfloat
  run_result :: "string option"
  run_error :: string
  run_attempts :: int

record job_store =
  js_jobs :: "(string, job_spec) dict"
  js_runs :: "(string, job_run) dict"

definition empty_jobs :: job_store where
  "empty_jobs = \<lparr>js_jobs = [], js_runs = []\<rparr>"

definition js_add :: "job_spec \<Rightarrow> job_store \<Rightarrow> job_store" where
  "js_add job s = s\<lparr>js_jobs := dict_set (jb_id job) job (js_jobs s)\<rparr>"

definition js_get :: "job_store \<Rightarrow> string \<Rightarrow> job_spec option" where
  "js_get s i = dict_get (js_jobs s) i"

definition js_require :: "job_store \<Rightarrow> string \<Rightarrow> store_error + job_spec" where
  "js_require s i = (case js_get s i of None \<Rightarrow> Inl (KeyError i) | Some job \<Rightarrow> Inr job)"

definition js_remove :: "string \<Rightarrow> job_store \<Rightarrow> job_store \<times> bool" where
  "js_remove i s = (s\<lparr>js_jobs := dict_pop i (js_jobs s)\<rparr>, dict_has (js_jobs s) i)"

definition js_all :: "job_store \<Rightarrow> job_spec list" where
  "js_all s = sort_key (\<lambda>j. (jb_priority j, jb_created_at j)) (map snd (js_jobs s))"

definition js_due :: "pyfloat \<Rightarrow> job_store \<Rightarrow> job_spec list" where
  "js_due now s = filter (\<lambda>j. 0 < jb_next_run j \<and> jb_next_run j \<le> now) (js_all s)"

definition js_by_owner :: "string \<Rightarrow> job_store \<Rightarrow> job_spec list" where
  "js_by_owner n s = filter (\<lambda>j. jb_owner j = Some n) (js_all s)"

definition js_orphaned :: "job_store \<Rightarrow> job_spec list" where
  "js_orphaned s = filter (\<lambda>j. jb_failover j \<and> jb_owner j = None) (js_all s)"

definition js_claim :: "string \<Rightarrow> string \<Rightarrow> job_store \<Rightarrow> job_store \<times> bool" where
  "js_claim i n s =
     (case dict_get (js_jobs s) i of
        None \<Rightarrow> (s, False)
      | Some job \<Rightarrow>
          if jb_owner job \<noteq> None \<and> jb_owner job \<noteq> Some n then (s, False)
          else (s\<lparr>js_jobs := dict_set i (job\<lparr>jb_owner := Some n\<rparr>) (js_jobs s)\<rparr>, True))"

datatype job_change =
  Set_owner "string option"
| Set_last_run pyfloat
| Set_next_run pyfloat
| No_job_attribute string

fun change_job :: "job_change list \<Rightarrow> job_spec \<Rightarrow> job_spec \<times> store_error option" where
  "change_job [] j = (j, None)"
| "change_job (Set_owner n # cs) j = change_job cs (j\<lparr>jb_owner := n\<rparr>)"
| "change_job (Set_last_run t # cs) j = change_job cs (j\<lparr>jb_last_run := t\<rparr>)"
| "change_job (Set_next_run t # cs) j = change_job cs (j\<lparr>jb_next_run := t\<rparr>)"
| "change_job (No_job_attribute a # cs) j = (j, Some (AttributeError a))"

definition js_update ::
  "string \<Rightarrow> job_change list \<Rightarrow> job_store \<Rightarrow> job_store \<times> (store_error + job_spec)" where
  "js_update i cs s =
     (case dict_get (js_jobs s) i of
        None \<Rightarrow> (s, Inl (KeyError i))
      | Some job \<Rightarrow>
          (case change_job cs job of (job', err) \<Rightarrow>
             (s\<lparr>js_jobs := dict_set i job' (js_jobs s)\<rparr>,
              case err of None \<Rightarrow> Inr job' | Some e \<Rightarrow> Inl e)))"

definition js_add_run :: "job_run \<Rightarrow> job_store \<Rightarrow> job_store" where
  "js_add_run r s = s\<lparr>js_runs := dict_set (run_id r) r (js_runs s)\<rparr>"

definition js_get_run :: "job_store \<Rightarrow> string \<Rightarrow> job_run option" where
  "js_get_run s i = dict_get (js_runs s) i"

definition js_list_runs :: "string option \<Rightarrow> nat \<Rightarrow> job_store \<Rightarrow> job_run list" where
  "js_list_runs job limit s =
     take limit (sort_desc run_started_at
       (case job of
          Some i \<Rightarrow> filter (\<lambda>r. run_job_id r = i) (map snd (js_runs s))
        | None \<Rightarrow> map snd (js_runs s)))"

section \<open>Leases\<close>

type_synonym lease_store = "(string, string \<times> pyfloat) dict"

definition ls_acquire ::
  "pyfloat \<Rightarrow> string \<Rightarrow> string \<Rightarrow> pyfloat \<Rightarrow> lease_store \<Rightarrow> lease_store \<times> bool" where
  "ls_acquire now nm holder ttl s =
     (case dict_get s nm of
        Some (h, expires) \<Rightarrow>
          if h \<noteq> holder \<and> now < expires then (s, False)
          else (dict_set nm (holder, now + ttl) s, True)
      | None \<Rightarrow> (dict_set nm (holder, now + ttl) s, True))"

definition ls_renew ::
  "pyfloat \<Rightarrow> string \<Rightarrow> string \<Rightarrow> pyfloat \<Rightarrow> lease_store \<Rightarrow> lease_store \<times> bool" where
  "ls_renew now nm holder ttl s =
     (case dict_get s nm of
        None \<Rightarrow> (s, False)
      | Some (h, expires) \<Rightarrow>
          if h \<noteq> holder then (s, False)
          else if expires \<le> now then (s, False)
          else (dict_set nm (holder, now + ttl) s, True))"

definition ls_release :: "string \<Rightarrow> string \<Rightarrow> lease_store \<Rightarrow> lease_store \<times> bool" where
  "ls_release nm holder s =
     (case dict_get s nm of
        None \<Rightarrow> (s, False)
      | Some (h, expires) \<Rightarrow> if h \<noteq> holder then (s, False) else (dict_pop nm s, True))"

definition ls_get ::
  "pyfloat \<Rightarrow> string \<Rightarrow> lease_store \<Rightarrow> lease_store \<times> (string \<times> pyfloat) option" where
  "ls_get now nm s =
     (case dict_get s nm of
        None \<Rightarrow> (s, None)
      | Some (holder, expires) \<Rightarrow>
          if expires \<le> now then (dict_pop nm s, None) else (s, Some (holder, expires)))"

section \<open>Backups\<close>

datatype backup_status = BACKUP_PENDING | BACKUP_OK | BACKUP_FAILED

record backup_record =
  bk_id :: string
  bk_name :: string
  bk_created_at :: pyfloat
  bk_size :: int
  bk_checksum :: string
  bk_entries :: int
  bk_status :: backup_status
  bk_metadata :: "(string, string) dict"
  bk_data :: "(string, string) dict"
  bk_restored_at :: "pyfloat option"

type_synonym backup_store = "(string, backup_record) dict"

definition bs_save :: "backup_record \<Rightarrow> backup_store \<Rightarrow> backup_store" where
  "bs_save r s = dict_set (bk_id r) r s"

definition bs_get :: "backup_store \<Rightarrow> string \<Rightarrow> backup_record option" where
  "bs_get s i = dict_get s i"

definition bs_require :: "backup_store \<Rightarrow> string \<Rightarrow> store_error + backup_record" where
  "bs_require s i = (case bs_get s i of None \<Rightarrow> Inl (KeyError i) | Some r \<Rightarrow> Inr r)"

definition bs_list :: "backup_store \<Rightarrow> backup_record list" where
  "bs_list s = sort_desc bk_created_at (map snd s)"

definition bs_remove :: "string \<Rightarrow> backup_store \<Rightarrow> backup_store \<times> bool" where
  "bs_remove i s = (dict_pop i s, dict_has s i)"

interpretation job_table: keyed_store js_get js_add "\<lambda>i s. fst (js_remove i s)" jb_id
  by unfold_locales (auto simp: js_get_def js_add_def js_remove_def)

interpretation backup_table: keyed_store bs_get bs_save "\<lambda>i s. fst (bs_remove i s)" bk_id
  by unfold_locales (auto simp: bs_get_def bs_save_def bs_remove_def)

subsection \<open>The job table\<close>

definition jobs_ok :: "job_store \<Rightarrow> bool" where
  "jobs_ok s \<longleftrightarrow> dict_ok (js_jobs s) \<and> (\<forall>(k, j) \<in> set (js_jobs s). jb_id j = k)"

lemma jobs_ok_empty [simp]: "jobs_ok empty_jobs"
  by (simp add: jobs_ok_def empty_jobs_def)

lemma jobs_ok_replace:
  "jobs_ok s \<Longrightarrow> jb_id j = i \<Longrightarrow> jobs_ok (s\<lparr>js_jobs := dict_set i j (js_jobs s)\<rparr>)"
  by (auto simp: jobs_ok_def in_dict_set split: if_splits)

lemma jobs_ok_add [intro]: "jobs_ok s \<Longrightarrow> jobs_ok (js_add j s)"
  by (simp add: js_add_def jobs_ok_replace)

lemma jobs_ok_remove [intro]: "jobs_ok s \<Longrightarrow> jobs_ok (fst (js_remove i s))"
  by (auto simp: jobs_ok_def js_remove_def set_dict_pop)

lemma jobs_ok_id: "jobs_ok s \<Longrightarrow> js_get s i = Some j \<Longrightarrow> jb_id j = i"
  by (auto simp: jobs_ok_def js_get_def dest: map_of_SomeD)

lemma change_job_id: "jb_id (fst (change_job cs j)) = jb_id j"
  by (induction cs j rule: change_job.induct) simp_all

lemma change_job_id': "change_job cs j = (j', err) \<Longrightarrow> jb_id j' = jb_id j"
  using change_job_id [of cs j] by simp

lemma jobs_ok_update [intro]: "jobs_ok s \<Longrightarrow> jobs_ok (fst (js_update i cs s))"
  using jobs_ok_id [of s i]
  by (auto simp: js_update_def js_get_def dest: change_job_id' intro!: jobs_ok_replace
      split: option.splits prod.splits)

lemma jobs_ok_claim [intro]: "jobs_ok s \<Longrightarrow> jobs_ok (fst (js_claim i n s))"
  using jobs_ok_id [of s i]
  by (auto simp: js_claim_def js_get_def intro!: jobs_ok_replace split: option.splits)

lemma in_js_all: "jobs_ok s \<Longrightarrow> j \<in> set (js_all s) \<longleftrightarrow> js_get s (jb_id j) = Some j"
  by (force simp: jobs_ok_def js_all_def js_get_def dict_get_iff)

lemma distinct_js_all: "jobs_ok s \<Longrightarrow> distinct (map jb_id (js_all s))"
proof -
  assume ok: "jobs_ok s"
  then have "map (jb_id \<circ> snd) (js_jobs s) = map fst (js_jobs s)"
    by (auto simp: jobs_ok_def)
  moreover from ok have "distinct (map fst (js_jobs s))" by (simp add: jobs_ok_def dict_ok_def)
  ultimately have "distinct (map jb_id (map snd (js_jobs s)))" by (simp only: map_map)
  then show ?thesis by (simp only: js_all_def distinct_map_sort_key)
qed

lemma js_update_get:
  "js_get (fst (js_update i cs s)) k =
     (if k = i then map_option (\<lambda>j. fst (change_job cs j)) (js_get s i) else js_get s k)"
  by (auto simp: js_update_def js_get_def split: option.splits prod.splits)

lemma js_claim_get:
  "js_get (fst (js_claim i n s)) k =
     (if k = i \<and> snd (js_claim i n s) then map_option (\<lambda>j. j\<lparr>jb_owner := Some n\<rparr>) (js_get s i)
      else js_get s k)"
  by (auto simp: js_claim_def js_get_def split: option.splits)

lemma js_claim_iff:
  "snd (js_claim i n s) \<longleftrightarrow> (\<exists>j. js_get s i = Some j \<and> (jb_owner j = None \<or> jb_owner j = Some n))"
  by (auto simp: js_claim_def js_get_def split: option.splits)

end
