(* ===== verification/Election.thy ===== *)
theory Election
  imports Cluster
begin

text \<open>
  Leader election (\<open>app/cluster/election.py\<close>): the elector's belief about the leader and its
  notification of observers, and the three strategies: a TTL lease in the cluster's own lease
  store, a key of a key-value client, and a Kubernetes lease object. The key-value client and
  the Kubernetes transport are injected into the code and are parameters here. The events of a
  cluster are interleavings of the electors' whole \<open>elect\<close> and \<open>step_down\<close> calls, which each
  elector runs under its lock.
\<close>

section \<open>The elector\<close>

record elector =
  el_node :: string
  el_node_epoch :: int
  el_leader :: "string option"
  el_epoch :: int
  el_notified :: "(string option \<times> int) list"

definition new_elector :: "string \<Rightarrow> int \<Rightarrow> elector" where
  "new_elector node node_epoch =
     \<lparr>el_node = node, el_node_epoch = node_epoch, el_leader = None, el_epoch = 0, el_notified = []\<rparr>"

definition is_leader :: "elector \<Rightarrow> bool" where
  "is_leader e \<longleftrightarrow> el_leader e = Some (el_node e)"

definition leader_changed :: "string option \<Rightarrow> int \<Rightarrow> elector \<Rightarrow> elector" where
  "leader_changed leader epoch e =
     (if leader = el_leader e \<and> epoch = el_epoch e then e
      else e\<lparr>el_leader := leader, el_epoch := epoch,
             el_notified := el_notified e @ [(leader, epoch)]\<rparr>)"

section \<open>Lease election\<close>

definition lease_name :: string where
  "lease_name = ''cluster-leader''"

definition lease_try_acquire ::
  "pyfloat \<Rightarrow> pyfloat \<Rightarrow> elector \<times> lease_store \<Rightarrow> (elector \<times> lease_store) \<times> bool" where
  "lease_try_acquire now ttl = (\<lambda>(e, s).
     case ls_acquire now lease_name (el_node e) ttl s of (s', acquired) \<Rightarrow>
       if acquired then ((leader_changed (Some (el_node e)) (el_node_epoch e + 1) e, s'), True)
       else ((e, s'), False))"

definition lease_acquire_or_renew ::
  "pyfloat \<Rightarrow> pyfloat \<Rightarrow> elector \<times> lease_store \<Rightarrow> (elector \<times> lease_store) \<times> bool" where
  "lease_acquire_or_renew now ttl = (\<lambda>(e, s).
     if is_leader e then
       (case ls_renew now lease_name (el_node e) ttl s of (s', ok) \<Rightarrow> ((e, s'), ok))
     else
       (case lease_try_acquire now ttl (e, s) of ((e', s'), acquired) \<Rightarrow>
          if acquired then ((e', s'), True)
          else (case ls_get now lease_name s' of (s'', holder) \<Rightarrow>
                  (case holder of
                     None \<Rightarrow> ((e', s''), False)
                   | Some (h, expires) \<Rightarrow>
                       ((leader_changed (Some h) (el_epoch e') e', s''), False)))))"

definition lease_elect ::
  "pyfloat \<Rightarrow> pyfloat \<Rightarrow> elector \<times> lease_store \<Rightarrow> (elector \<times> lease_store) \<times> bool" where
  "lease_elect now ttl es = lease_acquire_or_renew now ttl es"

definition lease_step_down :: "elector \<times> lease_store \<Rightarrow> (elector \<times> lease_store) \<times> bool" where
  "lease_step_down = (\<lambda>(e, s).
     case ls_release lease_name (el_node e) s of (s', released) \<Rightarrow>
       ((if released then leader_changed None (el_epoch e) e else e, s'), released))"

text \<open>Several electors over one lease store.\<close>

datatype election_act = Elect | Step_down

type_synonym election_event = "pyfloat \<times> string \<times> election_act"
type_synonym electors = "(string \<Rightarrow> elector) \<times> lease_store"

definition election_step :: "pyfloat \<Rightarrow> election_event \<Rightarrow> electors \<Rightarrow> electors \<times> bool" where
  "election_step ttl = (\<lambda>(now, i, act) (es, s).
     case (case act of Elect \<Rightarrow> lease_elect now ttl (es i, s) | Step_down \<Rightarrow> lease_step_down (es i, s))
     of ((e', s'), r) \<Rightarrow> ((es(i := e'), s'), r))"

fun election_run :: "pyfloat \<Rightarrow> election_event list \<Rightarrow> electors \<Rightarrow> electors \<times> bool list" where
  "election_run ttl [] c = (c, [])"
| "election_run ttl (ev # evs) c =
     (case election_step ttl ev c of (c', r) \<Rightarrow>
        (case election_run ttl evs c' of (c'', rs) \<Rightarrow> (c'', r # rs)))"

section \<open>Election through a key-value client\<close>

record 'k kv_client =
  kv_set_nx :: "string \<Rightarrow> string \<Rightarrow> pyfloat \<Rightarrow> 'k \<Rightarrow> 'k \<times> bool"
  kv_get :: "string \<Rightarrow> 'k \<Rightarrow> string option"
  kv_delete :: "string \<Rightarrow> 'k \<Rightarrow> 'k \<times> bool"
  kv_expire :: "string \<Rightarrow> pyfloat \<Rightarrow> 'k \<Rightarrow> 'k \<times> bool"

definition leader_key :: string where
  "leader_key = ''cluster:leader''"

definition redis_elect ::
  "'k kv_client \<Rightarrow> pyfloat \<Rightarrow> elector \<times> 'k \<Rightarrow> (elector \<times> 'k) \<times> bool" where
  "redis_elect kv ttl = (\<lambda>(e, k).
     if is_leader e then
       (case kv_expire kv leader_key ttl k of (k', renewed) \<Rightarrow>
          if renewed then ((e, k'), True)
          else ((leader_changed None (el_epoch e) e, k'), False))
     else
       (case kv_set_nx kv leader_key (el_node e) ttl k of (k', acquired) \<Rightarrow>
          if acquired then ((leader_changed (Some (el_node e)) (el_node_epoch e + 1) e, k'), True)
          else (case kv_get kv leader_key k' of
                  None \<Rightarrow> ((e, k'), False)
                | Some h \<Rightarrow> ((leader_changed (Some h) (el_epoch e) e, k'), False))))"

definition redis_step_down ::
  "'k kv_client \<Rightarrow> elector \<times> 'k \<Rightarrow> (elector \<times> 'k) \<times> bool" where
  "redis_step_down kv = (\<lambda>(e, k).
     if \<not> is_leader e then ((e, k), False)
     else (case kv_delete kv leader_key k of (k', deleted) \<Rightarrow>
             ((if deleted then leader_changed None (el_epoch e) e else e, k'), deleted)))"

section \<open>Election through Kubernetes leases\<close>

text \<open>Of the lease object the code reads the holder; it writes the times (printed
  to whole seconds, kept here as numbers) and never reads them.\<close>

record k8s_lease =
  kl_holder :: "string option"
  kl_duration :: int
  kl_acquire_time :: pyfloat
  kl_renew_time :: pyfloat
  kl_transitions :: int

record 'w k8s_transport =
  k8s_get :: "'w \<Rightarrow> 'w \<times> (string + k8s_lease option)"
  k8s_put :: "k8s_lease \<Rightarrow> 'w \<Rightarrow> 'w \<times> string option"
  k8s_post :: "k8s_lease \<Rightarrow> 'w \<Rightarrow> 'w \<times> string option"
  k8s_delete :: "'w \<Rightarrow> 'w \<times> string option"

datatype election_error = ElectionError string | TransportError string

definition renewed_lease :: "int \<Rightarrow> pyfloat \<Rightarrow> string \<Rightarrow> int \<Rightarrow> k8s_lease" where
  "renewed_lease duration now holder epoch =
     \<lparr>kl_holder = Some holder, kl_duration = duration, kl_acquire_time = now,
      kl_renew_time = now, kl_transitions = epoch\<rparr>"

definition k8s_elect ::
  "'w k8s_transport \<Rightarrow> int \<Rightarrow> pyfloat \<Rightarrow> elector \<times> 'w \<Rightarrow> (elector \<times> 'w) \<times> (election_error + bool)" where
  "k8s_elect tr duration now = (\<lambda>(e, w).
     case k8s_get tr w of
       (w1, Inl err) \<Rightarrow> ((e, w1), Inr False)
     | (w1, Inr lease) \<Rightarrow>
         (case Option.bind lease kl_holder of
            Some h \<Rightarrow>
              if h = el_node e then
                (case k8s_put tr (renewed_lease duration now (el_node e) (el_epoch e)) w1 of
                   (w2, Some err) \<Rightarrow> ((e, w2), Inl (TransportError err))
                 | (w2, None) \<Rightarrow> ((leader_changed (Some (el_node e)) (el_epoch e) e, w2), Inr True))
              else ((leader_changed (Some h) (el_epoch e) e, w1), Inr False)
          | None \<Rightarrow>
              (case k8s_post tr (renewed_lease duration now (el_node e) (el_epoch e + 1)) w1 of
                 (w2, Some err) \<Rightarrow> ((e, w2), Inl (ElectionError err))
               | (w2, None) \<Rightarrow>
                   ((leader_changed (Some (el_node e)) (el_epoch e + 1) e, w2), Inr True))))"

definition k8s_step_down ::
  "'w k8s_transport \<Rightarrow> elector \<times> 'w \<Rightarrow> (elector \<times> 'w) \<times> (election_error + bool)" where
  "k8s_step_down tr = (\<lambda>(e, w).
     if \<not> is_leader e then ((e, w), Inr False)
     else (case k8s_delete tr w of
             (w1, Some err) \<Rightarrow> ((e, w1), Inl (ElectionError err))
           | (w1, None) \<Rightarrow> ((leader_changed None (el_epoch e) e, w1), Inr True)))"

section \<open>What holds of the elections\<close>

lemma leader_changed_simps [simp]:
  "el_node (leader_changed l ep e) = el_node e"
  "el_node_epoch (leader_changed l ep e) = el_node_epoch e"
  "el_leader (leader_changed l ep e) = l"
  "el_epoch (leader_changed l ep e) = ep"
  by (simp_all add: leader_changed_def)

lemmas lease_defs = ls_acquire_def ls_renew_def ls_release_def ls_get_def
lemmas lease_election_defs = lease_elect_def lease_acquire_or_renew_def lease_try_acquire_def
  lease_step_down_def is_leader_def lease_defs

lemma election_step_node [simp]:
  "el_node (fst (fst (election_step ttl ev c)) j) = el_node (fst c j)"
  by (auto simp: election_step_def lease_election_defs split: prod.splits option.splits if_splits election_act.splits)

text \<open>An elector that is told it leads holds the lease for the whole term, and believes it.\<close>

lemma lease_elect_wins:
  assumes "lease_elect now ttl (e, s) = ((e', s'), True)"
  shows "dict_get s' lease_name = Some (el_node e, now + ttl) \<and> is_leader e'"
  using assms by (auto simp: lease_election_defs split: prod.splits option.splits if_splits)

lemma lease_elect_iff:
  "snd (lease_elect now ttl (e, s)) \<longleftrightarrow>
     (case dict_get s lease_name of
        None \<Rightarrow> \<not> is_leader e
      | Some (h, expires) \<Rightarrow>
          if is_leader e then h = el_node e \<and> now < expires else h = el_node e \<or> expires \<le> now)"
  by (auto simp: lease_election_defs split: prod.splits option.splits)

text \<open>While a lease runs, no act of another elector succeeds or touches it.\<close>

lemma election_step_held:
  assumes "dict_get s lease_name = Some (a, expires)" "el_node (es i) \<noteq> a" "now < expires"
    and "election_step ttl (now, i, act) (es, s) = ((es', s'), r)"
  shows "s' = s \<and> \<not> r \<and> (\<forall>j. j \<noteq> i \<longrightarrow> es' j = es j)"
  using assms
  by (auto simp: election_step_def lease_election_defs
      split: prod.splits option.splits if_splits election_act.splits)

lemma election_run_held:
  assumes "dict_get s lease_name = Some (a, expires)" "\<And>j. el_node (es j) = j"
    and "\<And>t i act. (t, i, act) \<in> set evs \<Longrightarrow> i \<noteq> a \<and> t < expires"
    and "election_run ttl evs (es, s) = ((es', s'), rs)"
  shows "s' = s \<and> True \<notin> set rs \<and> es' a = es a"
  using assms
proof (induction evs arbitrary: es rs)
  case (Cons ev evs)
  obtain now i act where ev: "ev = (now, i, act)" by (cases ev)
  obtain es1 s1 r where step: "election_step ttl ev (es, s) = ((es1, s1), r)"
    by (metis surj_pair)
  from Cons.prems(3) [of now i act] ev have i: "i \<noteq> a" "now < expires" by auto
  have held: "s1 = s \<and> \<not> r \<and> (\<forall>j. j \<noteq> i \<longrightarrow> es1 j = es j)"
    using election_step_held [OF Cons.prems(1) _ i(2)] i(1) Cons.prems(2) step ev by metis
  have nodes: "el_node (es1 j) = j" for j
    using election_step_node [of ttl ev "(es, s)" j] step Cons.prems(2) by simp
  from Cons.prems(4) step held obtain rs' where
    run: "election_run ttl evs (es1, s) = ((es', s'), rs')" and rs: "rs = r # rs'"
    by (auto split: prod.splits)
  have "s' = s \<and> True \<notin> set rs' \<and> es' a = es1 a"
    using Cons.IH [OF Cons.prems(1) nodes _ run] Cons.prems(3) by auto
  with held i(1) rs show ?case by auto
qed simp

text \<open>
  C6. One leader per term: when a node's lease election succeeds at time t, the node believes
  it leads, and whatever elections and resignations the other nodes run before the lease's
  expiry t + ttl, in any number and order, every one of them fails and the lease stays with the
  node.
\<close>

theorem lease_election_exclusive:
  fixes t ttl :: pyfloat
  assumes "\<And>j. el_node (es j) = j"
    and "election_step ttl (t, a, Elect) (es, s) = (c1, True)"
    and "\<And>now i act. (now, i, act) \<in> set evs \<Longrightarrow> i \<noteq> a \<and> now < t + ttl"
    and "election_run ttl evs c1 = ((es', s'), rs)"
  shows "is_leader (es' a) \<and> True \<notin> set rs \<and> dict_get s' lease_name = Some (a, t + ttl)"
proof -
  obtain es1 s1 where c1: "c1 = (es1, s1)" by (cases c1)
  from assms(2) c1 obtain e1 where
    elect: "lease_elect t ttl (es a, s) = ((e1, s1), True)" and es1: "es1 = es(a := e1)"
    by (auto simp: election_step_def split: prod.splits)
  from lease_elect_wins [OF elect] assms(1)
  have held: "dict_get s1 lease_name = Some (a, t + ttl)" and lead: "is_leader (es1 a)"
    by (simp_all add: es1)
  have nodes: "el_node (es1 j) = j" for j
    using election_step_node [of ttl "(t, a, Elect)" "(es, s)" j] assms(1,2) c1 by simp
  from election_run_held [OF held nodes] assms(3,4) c1
  have "s' = s1 \<and> True \<notin> set rs \<and> es' a = es1 a" by blast
  with held lead show ?thesis by simp
qed

theorem lease_election_exclusive_witness:
  "let es = (\<lambda>i. new_elector i 0);
       c1 = fst (election_step 15 (100, ''a'', Elect) (es, []));
       run = election_run 15 [(101, ''b'', Elect), (110, ''b'', Step_down), (114, ''c'', Elect)] c1
   in is_leader (fst (fst run) ''a'') \<and> snd run = [False, False, False]
      \<and> dict_get (snd (fst run)) lease_name = Some (''a'', 115)"
proof -
  let ?es = "\<lambda>i. new_elector i 0"
  let ?evs = "[(101, ''b'', Elect), (110, ''b'', Step_down), (114, ''c'', Elect)]"
  let ?c1 = "fst (election_step 15 (100, ''a'', Elect) (?es, []))"
  let ?run = "election_run 15 ?evs ?c1"
  have step: "election_step 15 (100, ''a'', Elect) (?es, []) = (?c1, True)"
    by (simp add: election_step_def lease_election_defs new_elector_def)
  have "is_leader (fst (fst ?run) ''a'') \<and> True \<notin> set (snd ?run)
      \<and> dict_get (snd (fst ?run)) lease_name = Some (''a'', 100 + 15)"
    by (rule lease_election_exclusive [OF _ step, of ?evs]) (auto simp: new_elector_def)
  moreover have "length (snd ?run) = 3"
    by (simp add: case_prod_beta)
  ultimately show ?thesis
    by (auto simp: Let_def case_prod_beta)
qed

subsection \<open>A leader whose lease has run out\<close>

definition lease_lost :: "pyfloat \<Rightarrow> string \<Rightarrow> lease_store \<Rightarrow> bool" where
  "lease_lost t a s \<longleftrightarrow>
     (case dict_get s lease_name of None \<Rightarrow> True | Some (h, expires) \<Rightarrow> h \<noteq> a \<or> expires \<le> t)"

lemma election_step_lost:
  assumes "lease_lost t a s" "is_leader (es a)" "\<And>j. el_node (es j) = j" "t \<le> now"
    and "(i, act) \<noteq> (a, Step_down)"
    and "election_step ttl (now, i, act) (es, s) = ((es', s'), r)"
  shows "lease_lost t a s' \<and> es' a = es a \<and> (i = a \<longrightarrow> \<not> r)"
  using assms
  by (cases "i = a"; cases act)
    (auto simp: election_step_def lease_election_defs lease_lost_def
      split: prod.splits option.splits if_splits)

lemma election_run_lost:
  assumes "lease_lost t a s" "is_leader (es a)" "\<And>j. el_node (es j) = j"
    and "\<And>now i act. (now, i, act) \<in> set evs \<Longrightarrow> t \<le> now \<and> (i, act) \<noteq> (a, Step_down)"
    and "election_run ttl evs (es, s) = ((es', s'), rs)"
  shows "es' a = es a \<and> (\<forall>((now, i, act), r) \<in> set (zip evs rs). i = a \<longrightarrow> \<not> r)"
  using assms
proof (induction evs arbitrary: es s rs)
  case (Cons ev evs)
  obtain now i act where ev: "ev = (now, i, act)" by (cases ev)
  obtain es1 s1 r where step: "election_step ttl (now, i, act) (es, s) = ((es1, s1), r)"
    by (metis surj_pair)
  from Cons.prems(4) [of now i act] ev have i: "t \<le> now" "(i, act) \<noteq> (a, Step_down)" by auto
  from election_step_lost [OF Cons.prems(1-3) i step]
  have one: "lease_lost t a s1" "es1 a = es a" "i = a \<longrightarrow> \<not> r" by auto
  have nodes: "el_node (es1 j) = j" for j
    using election_step_node [of ttl "(now, i, act)" "(es, s)" j] step Cons.prems(3) by simp
  from Cons.prems(5) step ev obtain rs' where
    run: "election_run ttl evs (es1, s1) = ((es', s'), rs')" and rs: "rs = r # rs'"
    by (auto split: prod.splits)
  have lead: "is_leader (es1 a)" using one(2) Cons.prems(2) by simp
  have "t \<le> now \<and> (i, act) \<noteq> (a, Step_down)" if "(now, i, act) \<in> set evs" for now i act
    using Cons.prems(4) [of now i act] that by simp
  from Cons.IH [OF one(1) lead nodes this run]
  have "es' a = es1 a \<and> (\<forall>((now, i, act), r) \<in> set (zip evs rs'). i = a \<longrightarrow> \<not> r)" .
  with one rs ev show ?case by auto
qed simp

text \<open>
  A leader that misses its renewal is stuck: once a node that believes it leads has lost
  its lease (it expired, or another node took it), every later election it runs fails, in any
  interleaving with the other nodes, and it goes on believing that it leads and notifies
  nobody, until it resigns. Its own renewal is the only thing it tries.
\<close>

theorem lost_leader_keeps_believing:
  assumes "\<And>j. el_node (es j) = j" and "is_leader (es a)" and "lease_lost t a s"
    and "\<And>now i act. (now, i, act) \<in> set evs \<Longrightarrow> t \<le> now \<and> (i, act) \<noteq> (a, Step_down)"
    and "election_run ttl evs (es, s) = ((es', s'), rs)"
  shows "is_leader (es' a) \<and> el_notified (es' a) = el_notified (es a)
    \<and> (\<forall>((now, i, act), r) \<in> set (zip evs rs). i = a \<longrightarrow> \<not> r)"
  using election_run_lost [OF assms(3,2,1,4,5)] assms(2) by simp

theorem lost_leader_keeps_believing_witness:
  "let c = fst (election_step 15 (100, ''a'', Elect) (\<lambda>i. new_elector i 0, []));
       run = election_run 15 [(120, ''b'', Elect), (121, ''a'', Elect), (122, ''a'', Elect)] c
   in is_leader (fst (fst run) ''a'') \<and> is_leader (fst (fst run) ''b'')
      \<and> snd run = [True, False, False]"
proof -
  let ?c = "fst (election_step 15 (100, ''a'', Elect) (\<lambda>i. new_elector i 0, []))"
  let ?evs = "[(120, ''b'', Elect), (121, ''a'', Elect), (122, ''a'', Elect)] :: election_event list"
  let ?run = "election_run 15 ?evs ?c"
  have c: "?c = ((\<lambda>i. new_elector i 0)(''a'' := leader_changed (Some ''a'') 1 (new_elector ''a'' 0)),
      [(lease_name, ''a'', 115)])"
    by (simp add: election_step_def lease_election_defs new_elector_def)
  have "is_leader (fst (fst ?run) ''a'') \<and> el_notified (fst (fst ?run) ''a'') = el_notified (fst ?c ''a'')
    \<and> (\<forall>((now, i, act), r) \<in> set (zip ?evs (snd ?run)). i = ''a'' \<longrightarrow> \<not> r)"
  proof (rule lost_leader_keeps_believing [where t = 115 and a = "''a''" and es = "fst ?c" and es' = "fst (fst ?run)"])
    show "election_run 15 ?evs (fst ?c, snd ?c) = ((fst (fst ?run), snd (fst ?run)), snd ?run)"
      by (simp only: prod.collapse)
    show "el_node (fst ?c j) = j" for j
      by (simp add: c new_elector_def)
    show "is_leader (fst ?c ''a'')" "lease_lost 115 ''a'' (snd ?c)"
      by (simp_all only: c, simp_all add: lease_lost_def is_leader_def new_elector_def)
  qed auto
  moreover have "snd ?run = [True, False, False] \<and> is_leader (fst (fst ?run) ''b'')"
    by (simp add: c election_step_def lease_election_defs new_elector_def leader_changed_def)
  ultimately show ?thesis by (simp add: Let_def)
qed

subsection \<open>The key-value and Kubernetes strategies\<close>

text \<open>
  Election through a key-value client, for any client whose set-if-absent and expire behave
  as documented (set-if-absent succeeds when the key is absent, expire when it is present):
  a node that does not believe it leads wins exactly when no leader key exists, and a node that
  believes it leads is confirmed exactly when some leader key exists, whoever wrote it. The
  renewal does not look at the value of the key.
\<close>

theorem redis_elect_exact:
  assumes set_nx: "\<And>key v tt k. snd (kv_set_nx kv key v tt k) \<longleftrightarrow> kv_get kv key k = None"
    and expire: "\<And>key tt k. snd (kv_expire kv key tt k) \<longleftrightarrow> kv_get kv key k \<noteq> None"
  shows "snd (redis_elect kv ttl (e, k)) \<longleftrightarrow> (is_leader e \<longleftrightarrow> kv_get kv leader_key k \<noteq> None)"
    (is ?result)
  using set_nx [of leader_key "el_node e" ttl k] expire [of leader_key ttl k]
  by (auto simp: redis_elect_def split: prod.splits option.splits)

text \<open>A client over a dictionary, with the clock standing still.\<close>

definition dict_kv :: "(string, string) dict kv_client" where
  "dict_kv = \<lparr>kv_set_nx = (\<lambda>key v ttl d. if dict_has d key then (d, False) else (dict_set key v d, True)),
     kv_get = (\<lambda>key d. dict_get d key),
     kv_delete = (\<lambda>key d. (dict_pop key d, dict_has d key)),
     kv_expire = (\<lambda>key ttl d. (d, dict_has d key))\<rparr>"

theorem redis_elect_exact_witness:
  "let a = leader_changed (Some ''a'') 1 (new_elector ''a'' 0)
   in snd (redis_elect dict_kv 15 (a, [(leader_key, ''b'')]))
      \<and> is_leader (fst (fst (redis_elect dict_kv 15 (a, [(leader_key, ''b'')]))))"
proof -
  let ?a = "leader_changed (Some ''a'') 1 (new_elector ''a'' 0)"
  have "snd (redis_elect dict_kv 15 (?a, [(leader_key, ''b'')])) \<longleftrightarrow>
      (is_leader ?a \<longleftrightarrow> kv_get dict_kv leader_key [(leader_key, ''b'')] \<noteq> None)"
    by (rule redis_elect_exact) (simp_all add: dict_kv_def dict_has_def)
  moreover have "is_leader ?a" by (simp add: is_leader_def new_elector_def)
  ultimately show ?thesis
    by (simp add: Let_def dict_kv_def redis_elect_def dict_has_def)
qed

text \<open>
  A Kubernetes lease is never taken over: while the transport returns a lease with a holder
  other than the node, however old its renewal time, the election fails and writes nothing.
\<close>

lemma k8s_elect_foreign:
  assumes "k8s_get tr w = (w1, Inr (Some lease))" "kl_holder lease = Some h" "h \<noteq> el_node e"
  shows "k8s_elect tr duration now (e, w) = ((leader_changed (Some h) (el_epoch e) e, w1), Inr False)"
  using assms by (simp add: k8s_elect_def)

lemma k8s_elect_read_error:
  "k8s_get tr w = (w1, Inl err) \<Longrightarrow> k8s_elect tr duration now (e, w) = ((e, w1), Inr False)"
  by (simp add: k8s_elect_def)

lemma k8s_elect_free:
  assumes "k8s_get tr w = (w1, Inr lease)" "Option.bind lease kl_holder = None"
    and "k8s_post tr (renewed_lease duration now (el_node e) (el_epoch e + 1)) w1 = (w2, None)"
  shows "k8s_elect tr duration now (e, w) =
    ((leader_changed (Some (el_node e)) (el_epoch e + 1) e, w2), Inr True)"
  using assms by (simp add: k8s_elect_def)

end
