(* ===== verification/Failover.thy ===== *)
theory Failover
  imports Cluster
begin

text \<open>
  Health monitoring of the members (\<open>app/cluster/health.py\<close>) and the reassignment of a failed
  member's work (\<open>app/cluster/failover.py\<close>). The monitor assesses every member from its last
  heartbeat and calls its observers for each change of state; the failover manager is such an
  observer. Custom checks and observers may raise, which the code catches: they return a sum or
  an optional error here. Metric counters and log lines are not part of the state.
\<close>

section \<open>Health monitor\<close>

type_synonym health_check = "node_info \<Rightarrow> string + bool"
type_synonym 'w health_observer = "string \<Rightarrow> node_state \<Rightarrow> node_state \<Rightarrow> 'w \<Rightarrow> 'w \<times> string option"
type_synonym transition = "string \<times> node_state \<times> node_state"

record health_report =
  hr_node_id :: string
  hr_healthy :: bool
  hr_last_seen :: pyfloat
  hr_checks :: "(string, bool) dict"
  hr_checked_at :: pyfloat

definition register_check ::
  "string \<Rightarrow> health_check \<Rightarrow> (string, health_check) dict \<Rightarrow> (string, health_check) dict" where
  "register_check nm check checks = dict_set nm check checks"

definition last_seen :: "node_store \<Rightarrow> string \<Rightarrow> pyfloat" where
  "last_seen s i = (case ns_get s i of Some n \<Rightarrow> nd_last_seen n | None \<Rightarrow> 0)"

definition is_stale :: "pyfloat \<Rightarrow> pyfloat \<Rightarrow> node_store \<Rightarrow> string \<Rightarrow> bool" where
  "is_stale timeout now s i \<longleftrightarrow> timeout < now - last_seen s i"

fun run_check :: "health_check \<Rightarrow> node_info \<Rightarrow> bool" where
  "run_check check n = (case check n of Inl e \<Rightarrow> False | Inr b \<Rightarrow> b)"

definition node_check ::
  "pyfloat \<Rightarrow> (string, health_check) dict \<Rightarrow> node_store \<Rightarrow> node_info \<Rightarrow> pyfloat \<Rightarrow> health_report" where
  "node_check timeout checks s n now =
     (let results = fold (\<lambda>(nm, check) d. dict_set nm (run_check check n) d) checks
            [(''registered'', True), (''heartbeat_fresh'', now - last_seen s (nd_id n) \<le> timeout)]
      in \<lparr>hr_node_id = nd_id n, hr_healthy = (\<forall>(nm, ok) \<in> set results. ok),
          hr_last_seen = last_seen s (nd_id n), hr_checks = results, hr_checked_at = now\<rparr>)"

definition healthy_nodes ::
  "pyfloat \<Rightarrow> (string, health_check) dict \<Rightarrow> node_store \<Rightarrow> pyfloat \<Rightarrow> node_info list" where
  "healthy_nodes timeout checks s now =
     filter (\<lambda>n. hr_healthy (node_check timeout checks s n now) \<and> nd_state n \<noteq> FAILED) (ns_all s)"

definition assess :: "pyfloat \<Rightarrow> pyfloat \<Rightarrow> node_store \<Rightarrow> node_info \<Rightarrow> node_state" where
  "assess timeout now s n =
     (if nd_state n \<in> {LEFT, LEAVING, FAILED} then nd_state n
      else if timeout < now - last_seen s (nd_id n)
           then (if nd_state n = HEALTHY then FAILED else SUSPECTED)
           else HEALTHY)"

fun evaluate_nodes ::
  "pyfloat \<Rightarrow> pyfloat \<Rightarrow> node_info list \<Rightarrow> node_store \<Rightarrow> node_store \<times> transition list" where
  "evaluate_nodes timeout now [] s = (s, [])"
| "evaluate_nodes timeout now (n # ns) s =
     (let new_state = assess timeout now s n
      in if nd_state n \<in> {LEFT, LEAVING, FAILED} \<or> new_state = nd_state n
         then evaluate_nodes timeout now ns s
         else (case evaluate_nodes timeout now ns (fst (ns_mark (nd_id n) new_state s)) of
                 (s', trs) \<Rightarrow> (s', (nd_id n, nd_state n, new_state) # trs)))"

fun notify_all :: "'w health_observer list \<Rightarrow> transition \<Rightarrow> 'w \<Rightarrow> 'w" where
  "notify_all [] tr w = w"
| "notify_all (ob # obs) (i, p, st) w = notify_all obs (i, p, st) (fst (ob i p st w))"

definition evaluate :: "pyfloat \<Rightarrow> pyfloat \<Rightarrow> node_store \<Rightarrow> node_store \<times> transition list" where
  "evaluate timeout now s = evaluate_nodes timeout now (ns_all s) s"

section \<open>Failover\<close>

datatype rebalance_reason = NODE_FAILED | ORPHANED_JOB | LEADER_LOST | MANUAL | REBALANCE

record failover_record =
  fr_node_id :: string
  fr_reason :: rebalance_reason
  fr_jobs_reassigned :: nat
  fr_timestamp :: pyfloat

record failover_world =
  fw_nodes :: node_store
  fw_jobs :: job_store
  fw_history :: "failover_record list"

fun release_jobs :: "job_spec list \<Rightarrow> job_store \<Rightarrow> job_store \<times> nat" where
  "release_jobs [] js = (js, 0)"
| "release_jobs (j # rest) js =
     (if \<not> jb_failover j then release_jobs rest js
      else (case release_jobs rest (fst (js_update (jb_id j) [Set_owner None] js)) of
              (js', c) \<Rightarrow> (js', Suc c)))"

definition reassign ::
  "pyfloat \<Rightarrow> string \<Rightarrow> rebalance_reason \<Rightarrow> failover_world \<Rightarrow> failover_world \<times> nat" where
  "reassign now i reason w =
     (case ns_get (fw_nodes w) i of
        None \<Rightarrow> (w, 0)
      | Some n \<Rightarrow>
          (case release_jobs (js_by_owner i (fw_jobs w)) (fw_jobs w) of (js', c) \<Rightarrow>
             (w\<lparr>fw_jobs := js', fw_history := fw_history w @
                 [\<lparr>fr_node_id = i, fr_reason = reason, fr_jobs_reassigned = c, fr_timestamp = now\<rparr>]\<rparr>,
              c)))"

definition on_health_change :: "pyfloat \<Rightarrow> failover_world health_observer" where
  "on_health_change now i previous new_state w =
     (if new_state \<noteq> FAILED then (w, None) else (fst (reassign now i NODE_FAILED w), None))"

text \<open>One pass of the monitor with the failover manager subscribed to it.\<close>

definition monitor_pass ::
  "pyfloat \<Rightarrow> pyfloat \<Rightarrow> failover_world \<Rightarrow> failover_world \<times> transition list" where
  "monitor_pass timeout now w =
     (case evaluate timeout now (fw_nodes w) of (s', trs) \<Rightarrow>
        (fold (notify_all [on_health_change now]) trs (w\<lparr>fw_nodes := s'\<rparr>), trs))"

text \<open>Successive claims of one job by the given nodes.\<close>

fun claim_all :: "string \<Rightarrow> string list \<Rightarrow> job_store \<Rightarrow> job_store \<times> bool list" where
  "claim_all i [] js = (js, [])"
| "claim_all i (n # ns) js =
     (case js_claim i n js of (js1, r) \<Rightarrow> (case claim_all i ns js1 of (js2, rs) \<Rightarrow> (js2, r # rs)))"

section \<open>The monitor's pass\<close>

lemma last_seen_mark [simp]: "last_seen (fst (ns_mark i st s)) k = last_seen s k"
  by (auto simp: last_seen_def ns_mark_get split: option.splits)

lemma assess_mark [simp]: "assess timeout now (fst (ns_mark i st s)) n = assess timeout now s n"
  by (simp add: assess_def)

lemma evaluate_nodes_Cons:
  "evaluate_nodes timeout now (n # ns) s =
     (let st = assess timeout now s n
      in if st = nd_state n then evaluate_nodes timeout now ns s
         else (case evaluate_nodes timeout now ns (fst (ns_mark (nd_id n) st s)) of
                 (s', trs) \<Rightarrow> (s', (nd_id n, nd_state n, st) # trs)))"
proof -
  have "nd_state n \<in> {LEFT, LEAVING, FAILED} \<Longrightarrow> assess timeout now s n = nd_state n"
    by (simp add: assess_def)
  then show ?thesis by (auto simp: Let_def)
qed

declare evaluate_nodes.simps(2) [simp del]

lemma evaluate_nodes_get:
  assumes "distinct (map nd_id ns)" "\<And>n. n \<in> set ns \<Longrightarrow> ns_get s (nd_id n) = Some n"
  shows "ns_get (fst (evaluate_nodes timeout now ns s)) k =
     (if k \<in> nd_id ` set ns then map_option (\<lambda>n. n\<lparr>nd_state := assess timeout now s n\<rparr>) (ns_get s k)
      else ns_get s k)"
  using assms
proof (induction ns arbitrary: s)
  case (Cons n ns)
  let ?st = "assess timeout now s n" and ?s1 = "fst (ns_mark (nd_id n) (assess timeout now s n) s)"
  have n: "ns_get s (nd_id n) = Some n" using Cons.prems(2) by simp
  have keep: "?st = nd_state n \<Longrightarrow> n\<lparr>nd_state := ?st\<rparr> = n" by simp
  have s1: "ns_get ?s1 (nd_id m) = Some m" if "m \<in> set ns" for m
  proof -
    from Cons.prems(1) have "nd_id n \<notin> nd_id ` set ns" by simp
    moreover from that have "nd_id m \<in> nd_id ` set ns" by (rule imageI)
    ultimately have "nd_id m \<noteq> nd_id n" by metis
    then show ?thesis using Cons.prems(2) that by (simp add: ns_mark_get)
  qed
  show ?case
  proof (cases "?st = nd_state n")
    case True
    then have "evaluate_nodes timeout now (n # ns) s = evaluate_nodes timeout now ns s"
      by (simp add: evaluate_nodes_Cons)
    then show ?thesis using Cons True n keep by auto
  next
    case False
    then have "fst (evaluate_nodes timeout now (n # ns) s) = fst (evaluate_nodes timeout now ns ?s1)"
      by (simp add: evaluate_nodes_Cons Let_def split: prod.splits)
    moreover have "ns_get (fst (evaluate_nodes timeout now ns ?s1)) k =
        (if k \<in> nd_id ` set ns then map_option (\<lambda>m. m\<lparr>nd_state := assess timeout now s m\<rparr>) (ns_get ?s1 k)
         else ns_get ?s1 k)"
      using Cons.IH [of ?s1] s1 Cons.prems(1) by simp
    moreover have "nd_id n \<notin> nd_id ` set ns" using Cons.prems(1) by simp
    ultimately show ?thesis using n by (auto simp: ns_mark_get)
  qed
qed simp

lemma evaluate_nodes_transitions:
  "snd (evaluate_nodes timeout now ns s) =
     map (\<lambda>n. (nd_id n, nd_state n, assess timeout now s n))
       (filter (\<lambda>n. assess timeout now s n \<noteq> nd_state n) ns)"
proof (induction ns arbitrary: s)
  case (Cons n ns)
  show ?case
  proof (cases "assess timeout now s n = nd_state n")
    case False
    then show ?thesis by (simp add: evaluate_nodes_Cons Let_def case_prod_beta Cons.IH)
  qed (simp add: evaluate_nodes_Cons Cons.IH)
qed simp

lemma evaluate_get:
  "nodes_ok s \<Longrightarrow> ns_get (fst (evaluate timeout now s)) i =
     map_option (\<lambda>n. n\<lparr>nd_state := assess timeout now s n\<rparr>) (ns_get s i)"
proof -
  assume ok: "nodes_ok s"
  have "ns_get s i = None" if "i \<notin> nd_id ` set (ns_all s)"
  proof (rule ccontr)
    assume "ns_get s i \<noteq> None"
    then obtain n where n: "ns_get s i = Some n" by blast
    then have "nd_id n = i" using nodes_ok_id [OF ok] by (simp add: ns_get_def)
    with n in_ns_all [OF ok, of n] that show False by auto
  qed
  moreover have "ns_get (fst (evaluate timeout now s)) i =
     (if i \<in> nd_id ` set (ns_all s) then map_option (\<lambda>n. n\<lparr>nd_state := assess timeout now s n\<rparr>) (ns_get s i)
      else ns_get s i)"
    unfolding evaluate_def using in_ns_all [OF ok]
    by (intro evaluate_nodes_get distinct_ns_all ok) simp
  ultimately show ?thesis by simp
qed

text \<open>
  The monitor's pass: a member that has left, is leaving or has failed keeps its state;
  any other whose last heartbeat is more than the timeout ago goes from healthy to failed, and
  from every other state only to suspected; all others become healthy. Nothing else of any
  member changes, and the observers are told exactly the changes, in the order of the ids.
\<close>

theorem health_pass_exact:
  fixes timeout now :: pyfloat
  assumes "nodes_ok s"
  shows "let verdict = (\<lambda>n :: node_info.
           if nd_state n \<in> {LEFT, LEAVING, FAILED} then nd_state n
           else if now - nd_last_seen n \<le> timeout then HEALTHY
           else if nd_state n = HEALTHY then FAILED else SUSPECTED)
         in (\<forall>i. ns_get (fst (evaluate timeout now s)) i =
               map_option (\<lambda>n. n\<lparr>nd_state := verdict n\<rparr>) (ns_get s i))
            \<and> snd (evaluate timeout now s) =
               map (\<lambda>n. (nd_id n, nd_state n, verdict n))
                 (filter (\<lambda>n. verdict n \<noteq> nd_state n) (ns_all s))"
proof -
  define verdict where "verdict = (\<lambda>n :: node_info.
           if nd_state n \<in> {LEFT, LEAVING, FAILED} then nd_state n
           else if now - nd_last_seen n \<le> timeout then HEALTHY
           else if nd_state n = HEALTHY then FAILED else SUSPECTED)"
  have v: "assess timeout now s n = verdict n" if "ns_get s (nd_id n) = Some n" for n
    using that by (auto simp: assess_def verdict_def last_seen_def)
  have "assess timeout now s n = verdict n" if "ns_get s i = Some n" for i n
    using v [of n] that nodes_ok_id [OF assms, of i n] by (simp add: ns_get_def)
  then have "ns_get (fst (evaluate timeout now s)) i =
      map_option (\<lambda>n. n\<lparr>nd_state := verdict n\<rparr>) (ns_get s i)" for i
    unfolding evaluate_get [OF assms] by (cases "ns_get s i") simp_all
  moreover have "snd (evaluate timeout now s) = map (\<lambda>n. (nd_id n, nd_state n, verdict n))
      (filter (\<lambda>n. verdict n \<noteq> nd_state n) (ns_all s))"
    unfolding evaluate_def evaluate_nodes_transitions using v in_ns_all [OF assms]
    by (intro map_cong filter_cong) auto
  ultimately show ?thesis unfolding Let_def verdict_def by blast
qed

theorem health_pass_exact_witness:
  "let old = (new_node 100 ''a'' ''a'' ''h1'' 80)\<lparr>nd_state := HEALTHY\<rparr>;
       s = ns_register (new_node 100 ''b'' ''b'' ''h2'' 80) (ns_register old empty_nodes)
   in map_option nd_state (ns_get (fst (evaluate 30 131 s)) ''a'') = Some FAILED
      \<and> map_option nd_state (ns_get (fst (evaluate 30 131 s)) ''b'') = Some SUSPECTED"
proof -
  let ?old = "(new_node 100 ''a'' ''a'' ''h1'' 80)\<lparr>nd_state := HEALTHY\<rparr>"
  let ?s = "ns_register (new_node 100 ''b'' ''b'' ''h2'' 80) (ns_register ?old empty_nodes)"
  have ok: "nodes_ok ?s" by (intro nodes_ok_register nodes_ok_empty)
  show ?thesis
    using health_pass_exact [OF ok, where timeout = 30 and now = 131]
    by (simp add: Let_def members.lookup_store new_node_def)
qed

section \<open>Handing over a failed member's jobs\<close>

lemma release_jobs_get:
  "js_get (fst (release_jobs jbs js)) k =
     (if \<exists>j \<in> set jbs. jb_id j = k \<and> jb_failover j
      then map_option (\<lambda>j. j\<lparr>jb_owner := None\<rparr>) (js_get js k) else js_get js k)"
  by (induction jbs arbitrary: js)
    (auto simp: js_update_get case_prod_beta option.map_comp comp_def)

lemma release_jobs_ok: "jobs_ok js \<Longrightarrow> jobs_ok (fst (release_jobs jbs js))"
  by (induction jbs arbitrary: js) (auto simp: case_prod_beta)

lemma release_jobs_count: "snd (release_jobs jbs js) = length (filter jb_failover jbs)"
  by (induction jbs arbitrary: js) (auto simp: case_prod_beta)

definition disown :: "string set \<Rightarrow> job_spec \<Rightarrow> job_spec" where
  "disown F j = (if jb_failover j \<and> jb_owner j \<in> Some ` F then j\<lparr>jb_owner := None\<rparr> else j)"

lemma disown_empty: "disown {} = (\<lambda>j. j)"
  by (rule ext) (simp add: disown_def)

lemma disown_union: "disown G (disown F j) = disown (F \<union> G) j"
  by (auto simp: disown_def)

lemma reassign_get:
  assumes "jobs_ok (fw_jobs w)" "ns_get (fw_nodes w) a \<noteq> None"
  shows "js_get (fw_jobs (fst (reassign now a r w))) k = map_option (disown {a}) (js_get (fw_jobs w) k)"
proof -
  have "(\<exists>j \<in> set (js_by_owner a (fw_jobs w)). jb_id j = k \<and> jb_failover j) \<longleftrightarrow>
      (\<exists>j. js_get (fw_jobs w) k = Some j \<and> jb_owner j = Some a \<and> jb_failover j)"
    using in_js_all [OF assms(1)] jobs_ok_id [OF assms(1)] by (auto simp: js_by_owner_def)
  then show ?thesis
    using assms(2)
    by (cases "js_get (fw_jobs w) k")
      (auto simp: reassign_def release_jobs_get disown_def case_prod_beta)
qed

lemma reassign_nodes [simp]: "fw_nodes (fst (reassign now a r w)) = fw_nodes w"
  by (simp add: reassign_def split: option.splits prod.splits)

lemma reassign_ok: "jobs_ok (fw_jobs w) \<Longrightarrow> jobs_ok (fw_jobs (fst (reassign now a r w)))"
  using release_jobs_ok [of "fw_jobs w" "js_by_owner a (fw_jobs w)"]
  by (auto simp: reassign_def split: option.splits prod.splits)

lemma notify_failover:
  assumes "jobs_ok (fw_jobs w)" "\<And>i p st. (i, p, st) \<in> set trs \<Longrightarrow> ns_get (fw_nodes w) i \<noteq> None"
  shows "js_get (fw_jobs (fold (notify_all [on_health_change now]) trs w)) k =
      map_option (disown {i. \<exists>p. (i, p, FAILED) \<in> set trs}) (js_get (fw_jobs w) k)
    \<and> jobs_ok (fw_jobs (fold (notify_all [on_health_change now]) trs w))"
  using assms
proof (induction trs arbitrary: w)
  case Nil
  then show ?case by (simp add: disown_empty option.map_ident)
next
  case (Cons tr trs)
  obtain i p st where tr: "tr = (i, p, st)" by (cases tr)
  define w1 where "w1 = notify_all [on_health_change now] tr w"
  have ok1: "jobs_ok (fw_jobs w1)"
    using Cons.prems(1) by (simp add: w1_def tr on_health_change_def reassign_ok)
  have n1: "fw_nodes w1 = fw_nodes w" by (simp add: w1_def tr on_health_change_def)
  have g1: "js_get (fw_jobs w1) k =
      map_option (disown (if st = FAILED then {i} else {})) (js_get (fw_jobs w) k)"
  proof (cases "st = FAILED")
    case True
    then show ?thesis
      using reassign_get [OF Cons.prems(1), of i] Cons.prems(2) [of i p st]
      by (simp add: w1_def tr on_health_change_def)
  qed (simp add: w1_def tr on_health_change_def disown_empty option.map_ident)
  have "{j. \<exists>q. (j, q, FAILED) \<in> set (tr # trs)} =
      (if st = FAILED then {i} else {}) \<union> {j. \<exists>q. (j, q, FAILED) \<in> set trs}"
    by (auto simp: tr)
  moreover have "js_get (fw_jobs (fold (notify_all [on_health_change now]) trs w1)) k =
      map_option (disown {j. \<exists>q. (j, q, FAILED) \<in> set trs}) (js_get (fw_jobs w1) k)
    \<and> jobs_ok (fw_jobs (fold (notify_all [on_health_change now]) trs w1))"
    using Cons.prems(2) by (intro Cons.IH ok1) (auto simp: n1)
  ultimately show ?case
    by (simp add: w1_def [symmetric] g1 option.map_comp comp_def disown_union)
qed

lemma claim_all_owned:
  assumes "js_get js i = Some j" "jb_owner j = Some b"
  shows "snd (claim_all i ns js) = map (\<lambda>n. n = b) ns
    \<and> map_option jb_owner (js_get (fst (claim_all i ns js)) i) = Some (Some b)"
  using assms
proof (induction ns arbitrary: js j)
  case (Cons n ns)
  let ?js = "fst (js_claim i n js)"
  have r: "snd (js_claim i n js) \<longleftrightarrow> n = b" using Cons.prems by (auto simp: js_claim_iff)
  obtain j' where "js_get ?js i = Some j'" "jb_owner j' = Some b"
    using Cons.prems r by (cases "n = b") (simp_all add: js_claim_get)
  from Cons.IH [OF this] show ?case by (simp add: case_prod_beta r)
qed simp

text \<open>
  Failover of a member's jobs: when the monitor finds a healthy member silent for more than
  the timeout, the same pass frees exactly its failover jobs (no other job changes unless its
  owner failed in the same pass), and afterwards, of any sequence of nodes claiming such a job,
  the first one gets it and only its own claims succeed.
\<close>

theorem failover_hands_over:
  fixes timeout now :: pyfloat
  assumes "nodes_ok (fw_nodes w)" "jobs_ok (fw_jobs w)"
    and "ns_get (fw_nodes w) a = Some n" "nd_state n = HEALTHY" "timeout < now - nd_last_seen n"
    and "js_get (fw_jobs w) i = Some j" "jb_owner j = Some a"
  shows "let w' = fst (monitor_pass timeout now w); after = claim_all i (b # bs) (fw_jobs w')
         in if jb_failover j
            then js_get (fw_jobs w') i = Some (j\<lparr>jb_owner := None\<rparr>)
              \<and> snd after = map (\<lambda>c. c = b) (b # bs)
              \<and> map_option jb_owner (js_get (fst after) i) = Some (Some b)
            else js_get (fw_jobs w') i = Some j"
proof -
  let ?s = "fw_nodes w"
  let ?trs = "snd (evaluate timeout now ?s)"
  let ?w1 = "w\<lparr>fw_nodes := fst (evaluate timeout now ?s)\<rparr>"
  let ?w' = "fst (monitor_pass timeout now w)"
  have ida: "nd_id n = a" using nodes_ok_id [OF assms(1)] assms(3) by (simp add: ns_get_def)
  have "assess timeout now ?s n = FAILED" using assms(3-5) ida by (simp add: assess_def last_seen_def)
  moreover have "n \<in> set (ns_all ?s)" using in_ns_all [OF assms(1), of n] ida assms(3) by simp
  ultimately have failed: "(a, HEALTHY, FAILED) \<in> set ?trs"
    using assms(4) ida by (force simp: evaluate_def evaluate_nodes_transitions)
  have present: "ns_get (fw_nodes ?w1) k \<noteq> None" if "(k, p, st) \<in> set ?trs" for k p st
    using that in_ns_all [OF assms(1)] evaluate_get [OF assms(1), of timeout now k]
    by (auto simp: evaluate_def evaluate_nodes_transitions)
  have "?w' = fold (notify_all [on_health_change now]) ?trs ?w1"
    by (simp add: monitor_pass_def case_prod_beta)
  with notify_failover [of ?w1 ?trs now i, OF _ present] assms(2,6)
  have get: "js_get (fw_jobs ?w') i = Some (disown {i. \<exists>p. (i, p, FAILED) \<in> set ?trs} j)" by simp
  show ?thesis
  proof (cases "jb_failover j")
    case True
    with get failed assms(7) have freed: "js_get (fw_jobs ?w') i = Some (j\<lparr>jb_owner := None\<rparr>)"
      by (auto simp: disown_def)
    then have "snd (js_claim i b (fw_jobs ?w'))" by (simp add: js_claim_iff)
    moreover from this freed have "js_get (fst (js_claim i b (fw_jobs ?w'))) i = Some (j\<lparr>jb_owner := Some b\<rparr>)"
      by (simp add: js_claim_get)
    ultimately show ?thesis
      using True freed claim_all_owned [of "fst (js_claim i b (fw_jobs ?w'))" i _ b bs]
      by (simp add: Let_def case_prod_beta)
  next
    case False
    then show ?thesis using get by (simp add: disown_def)
  qed
qed

theorem failover_hands_over_witness:
  "let n = (new_node 100 ''a'' ''a'' ''h1'' 80)\<lparr>nd_state := HEALTHY\<rparr>;
       j = (new_job 90 ''sync'' FAILOVER ''j1'')\<lparr>jb_failover := True, jb_owner := Some ''a''\<rparr>;
       w = \<lparr>fw_nodes = ns_register n empty_nodes, fw_jobs = js_add j empty_jobs, fw_history = []\<rparr>;
       w' = fst (monitor_pass 30 131 w)
   in js_get (fw_jobs w') ''j1'' = Some (j\<lparr>jb_owner := None\<rparr>)
      \<and> snd (claim_all ''j1'' [''b'', ''c'', ''b''] (fw_jobs w')) = [True, False, True]"
proof -
  let ?n = "(new_node 100 ''a'' ''a'' ''h1'' 80)\<lparr>nd_state := HEALTHY\<rparr>"
  let ?j = "(new_job 90 ''sync'' FAILOVER ''j1'')\<lparr>jb_failover := True, jb_owner := Some ''a''\<rparr>"
  let ?w = "\<lparr>fw_nodes = ns_register ?n empty_nodes, fw_jobs = js_add ?j empty_jobs, fw_history = []\<rparr>"
  have a: "nd_id ?n = ''a''" "jb_id ?j = ''j1''" by (simp_all add: new_node_def new_job_def)
  show ?thesis
    using failover_hands_over [of ?w "''a''" ?n 30 131 "''j1''" ?j "''b''" "[''c'', ''b'']"]
    by (simp add: Let_def nodes_ok_register jobs_ok_add members.lookup_store job_table.lookup_store a,
        simp add: new_node_def new_job_def)
qed

end
