(* ===== verification/Decimal.thy ===== *)
theory Decimal
  imports Prelude
begin

text \<open>
  Decimal notation: \<open>str(n)\<close> and \<open>f"{n:0wd}"\<close> of a natural number, the value of a string of
  digits, and that reading undoes printing.
\<close>

definition digit_char :: "nat \<Rightarrow> char" where
  "digit_char d = char_of (48 + d)"

definition char_digit :: "char \<Rightarrow> nat" where
  "char_digit c = of_char c - 48"

fun show_nat :: "nat \<Rightarrow> string" where
  "show_nat n = (if n < 10 then [digit_char n] else show_nat (n div 10) @ [digit_char (n mod 10)])"

declare show_nat.simps [simp del]

definition show_padded :: "nat \<Rightarrow> nat \<Rightarrow> string" where
  "show_padded w n = replicate (w - length (show_nat n)) (CHR ''0'') @ show_nat n"

definition digits_val :: "string \<Rightarrow> nat" where
  "digits_val s = fold (\<lambda>c a. a * 10 + char_digit c) s 0"

definition all_digits :: "string \<Rightarrow> bool" where
  "all_digits s \<longleftrightarrow> s \<noteq> '''' \<and> list_all is_digit s"

text \<open>
  \<open>int(s)\<close>: white space around an optional sign and digits, single underscores between digits;
  \<open>None\<close> is the \<open>ValueError\<close>. \<open>str(n)\<close> of an integer.
\<close>

fun digits_value :: "int \<Rightarrow> string \<Rightarrow> int option" where
  "digits_value acc [] = None"
| "digits_value acc [c] = (if is_digit c then Some (acc * 10 + of_char c - 48) else None)"
| "digits_value acc (c # d # s) =
     (if \<not> is_digit c then None
      else if d = CHR ''_'' then digits_value (acc * 10 + of_char c - 48) s
      else digits_value (acc * 10 + of_char c - 48) (d # s))"

definition int_of_str :: "string \<Rightarrow> int option" where
  "int_of_str s =
     (case py_strip s of
        [] \<Rightarrow> None
      | c # t \<Rightarrow> if c = CHR ''-'' then map_option uminus (digits_value 0 t)
                 else if c = CHR ''+'' then digits_value 0 t
                 else digits_value 0 (c # t))"

definition show_int :: "int \<Rightarrow> string" where
  "show_int k = (if k < 0 then CHR ''-'' # show_nat (nat (- k)) else show_nat (nat k))"

lemma of_char_digit_char: "d < 10 \<Longrightarrow> of_char (digit_char d) = (48 + d :: nat)"
  by (simp add: digit_char_def)

lemma char_digit_digit_char [simp]: "d < 10 \<Longrightarrow> char_digit (digit_char d) = d"
  by (simp add: char_digit_def of_char_digit_char)

lemma is_digit_digit_char [simp]: "d < 10 \<Longrightarrow> is_digit (digit_char d)"
  by (simp add: is_digit_def of_char_digit_char)

lemma digits_val_Nil [simp]: "digits_val [] = 0"
  by (simp add: digits_val_def)

lemma digits_val_snoc [simp]: "digits_val (s @ [c]) = digits_val s * 10 + char_digit c"
  by (simp add: digits_val_def)

lemma digits_val_show [simp]: "digits_val (show_nat n) = n"
proof (induction n rule: show_nat.induct)
  case (1 n)
  show ?case
  proof (cases "n < 10")
    case True
    then show ?thesis using digits_val_snoc [of "[]" "digit_char n"] by (subst show_nat.simps) simp
  next
    case False
    with 1 show ?thesis by (subst show_nat.simps) simp
  qed
qed

lemma show_nat_digits: "all_digits (show_nat n)"
proof (induction n rule: show_nat.induct)
  case (1 n)
  then show ?case by (subst show_nat.simps) (auto simp: all_digits_def)
qed

lemma show_nat_not_Nil [simp]: "show_nat n \<noteq> []"
  using show_nat_digits [of n] by (simp add: all_digits_def)

lemma show_nat_inj [simp]: "show_nat m = show_nat n \<longleftrightarrow> m = n"
  by (metis digits_val_show)

lemma char_digit_0 [simp]: "char_digit (CHR ''0'') = 0"
  by (simp add: char_digit_def)

lemma digit_char_0 [simp]: "digit_char 0 = CHR ''0''"
  by code_simp

lemma funpow_times_zero [simp]: "((\<lambda>a. a * 10) ^^ k) 0 = (0 :: nat)"
  by (induction k) simp_all

lemma digits_val_padded [simp]: "digits_val (show_padded w n) = n"
  using digits_val_show [of n] by (simp add: digits_val_def show_padded_def)

lemma show_padded_inj [simp]: "show_padded w m = show_padded w n \<longleftrightarrow> m = n"
  by (metis digits_val_padded)

lemma show_padded_digits: "all_digits (show_padded w n)"
  using show_nat_digits [of n]
  by (auto simp: all_digits_def show_padded_def list_all_iff is_digit_def)

text \<open>Without leading zeros, printing undoes reading.\<close>

definition canonical_digits :: "string \<Rightarrow> bool" where
  "canonical_digits s \<longleftrightarrow> all_digits s \<and> (hd s = CHR ''0'' \<longrightarrow> s = ''0'')"

lemma digit_char_char_digit: "is_digit c \<Longrightarrow> digit_char (char_digit c) = c"
  by (simp add: is_digit_def digit_char_def char_digit_def)

lemma char_digit_less: "is_digit c \<Longrightarrow> char_digit c < 10"
  by (auto simp: is_digit_def char_digit_def)

lemma digits_val_pos: "all_digits s \<Longrightarrow> hd s \<noteq> CHR ''0'' \<Longrightarrow> 0 < digits_val s"
proof (induction s rule: rev_induct)
  case (snoc c s)
  show ?case
  proof (cases "s = []")
    case True
    with snoc.prems have "char_digit c \<noteq> 0"
      using digit_char_char_digit [of c] digit_char_0
      by (metis all_digits_def append_Nil list.sel(1) list.pred_inject(2))
    with True digits_val_snoc [of "[]" c] show ?thesis by simp
  next
    case False
    with snoc show ?thesis by (simp add: all_digits_def)
  qed
qed (simp add: all_digits_def)

lemma show_digits_val: "canonical_digits s \<Longrightarrow> show_nat (digits_val s) = s"
proof (induction s rule: rev_induct)
  case (snoc c s)
  then have c: "is_digit c" by (simp add: canonical_digits_def all_digits_def)
  show ?case
  proof (cases "s = []")
    case True
    then show ?thesis
      using c digits_val_snoc [of "[]" c] char_digit_less [OF c] digit_char_char_digit [OF c]
      by (simp add: show_nat.simps)
  next
    case False
    with snoc.prems have s: "canonical_digits s" "all_digits s" "hd s \<noteq> CHR ''0''"
      by (auto simp: canonical_digits_def all_digits_def)
    then have "0 < digits_val s" by (intro digits_val_pos)
    then show ?thesis
      using snoc.IH [OF s(1)] char_digit_less [OF c] digit_char_char_digit [OF c]
      by (subst show_nat.simps) simp
  qed
qed (simp add: canonical_digits_def all_digits_def)

end
