(* ===== verification/Cron.thy ===== *)
theory Cron
  imports Decimal
begin

text \<open>
  Cron expressions (\<open>CronExpression\<close> of \<open>app/cluster/scheduler.py\<close>): the parser and the search for
  the next matching minute. A \<open>datetime\<close> is kept as the proleptic Gregorian day number of
  Python's \<open>toordinal\<close> with the time of day; month, day of month and weekday are computed from
  the day number the way the standard library does. The end of the calendar in the year 9999 and
  time zones are not modelled.
\<close>

section \<open>Dates\<close>

record datetime =
  dt_day :: int
  dt_hour :: int
  dt_minute :: int
  dt_second :: int
  dt_micro :: int

definition days_before_month :: "int list" where
  "days_before_month = [0, 0, 31, 59, 90, 120, 151, 181, 212, 243, 273, 304, 334]"

definition days_in_month :: "int list" where
  "days_in_month = [0, 31, 28, 31, 30, 31, 30, 31, 31, 30, 31, 30, 31]"

text \<open>\<open>date.fromordinal\<close>: month and day of a day number.\<close>

definition month_day :: "int \<Rightarrow> int \<times> int" where
  "month_day ordinal =
     (let n = ordinal - 1; n = n mod 146097;
          n100 = n div 36524; n = n mod 36524;
          n4 = n div 1461; n = n mod 1461;
          n1 = n div 365; n = n mod 365
      in if n1 = 4 \<or> n100 = 4 then (12, 31)
         else
           let leap = (n1 = 3 \<and> (n4 \<noteq> 24 \<or> n100 = 3));
               month = (n + 50) div 32;
               preceding = days_before_month ! nat month + (if 2 < month \<and> leap then 1 else 0)
           in if n < preceding
              then (month - 1,
                    n - (preceding - (days_in_month ! nat (month - 1) +
                           (if month - 1 = 2 \<and> leap then 1 else 0))) + 1)
              else (month, n - preceding + 1))"

definition dt_month :: "datetime \<Rightarrow> int" where "dt_month d = fst (month_day (dt_day d))"

definition dt_dom :: "datetime \<Rightarrow> int" where "dt_dom d = snd (month_day (dt_day d))"

definition dt_weekday :: "datetime \<Rightarrow> int" where "dt_weekday d = (dt_day d + 6) mod 7"

text \<open>The number of a minute, and the minute with a number (seconds zero).\<close>

definition minute_index :: "datetime \<Rightarrow> int" where
  "minute_index d = dt_day d * 1440 + dt_hour d * 60 + dt_minute d"

definition of_index :: "int \<Rightarrow> datetime" where
  "of_index i = \<lparr>dt_day = i div 1440, dt_hour = i mod 1440 div 60, dt_minute = i mod 60,
                 dt_second = 0, dt_micro = 0\<rparr>"

definition valid_dt :: "datetime \<Rightarrow> bool" where
  "valid_dt d \<longleftrightarrow> 0 \<le> dt_hour d \<and> dt_hour d < 24 \<and> 0 \<le> dt_minute d \<and> dt_minute d < 60"

section \<open>Parsing\<close>

datatype cron_error =
  Field_count nat | Bad_int string | Step_not_positive string | Out_of_range int | Bad_token string
| Empty_set | No_future_match string

text \<open>\<open>str.split()\<close>: the maximal runs of non-space characters.\<close>

fun py_split_aux :: "string \<Rightarrow> string \<Rightarrow> string list" where
  "py_split_aux w [] = (if w = [] then [] else [w])"
| "py_split_aux w (c # s) =
     (if is_space c then (if w = [] then py_split_aux [] s else w # py_split_aux [] s)
      else py_split_aux (w @ [c]) s)"

definition py_split :: "string \<Rightarrow> string list" where
  "py_split s = py_split_aux [] s"

text \<open>\<open>int(s)\<close> of a piece without white space.\<close>

definition parse_int :: "string \<Rightarrow> cron_error + int" where
  "parse_int s =
     (let r = (case s of
                 [] \<Rightarrow> None
               | c # t \<Rightarrow> if c = CHR ''-'' then map_option uminus (digits_value 0 t)
                          else if c = CHR ''+'' then digits_value 0 t
                          else digits_value 0 s)
      in case r of None \<Rightarrow> Inl (Bad_int s) | Some v \<Rightarrow> Inr v)"

text \<open>\<open>range(start, stop, step)\<close> for a positive step.\<close>

definition py_range :: "int \<Rightarrow> int \<Rightarrow> int \<Rightarrow> int list" where
  "py_range start stop step =
     map (\<lambda>k. start + int k * step) [0..<nat ((stop - start + step - 1) div step)]"

definition parse_piece :: "int \<Rightarrow> int \<Rightarrow> string \<Rightarrow> cron_error + int list" where
  "parse_piece low high piece =
     (if CHR ''/'' \<in> set piece then
        (let (base, step_raw) = partition_at (CHR ''/'') piece
         in bind_result (parse_int step_raw) (\<lambda>step.
              if step \<le> 0 then Inl (Step_not_positive piece)
              else if base = ''*'' then Inr (py_range low (high + 1) step)
              else if CHR ''-'' \<in> set base then
                (let (start, stop) = partition_at (CHR ''-'') base
                 in bind_result (parse_int start) (\<lambda>a.
                      bind_result (parse_int stop) (\<lambda>b. Inr (py_range a (b + 1) step))))
              else bind_result (parse_int base) (\<lambda>a. Inr (py_range a (high + 1) step))))
      else if CHR ''-'' \<in> set piece then
        (let (start, stop) = partition_at (CHR ''-'') piece
         in bind_result (parse_int start) (\<lambda>a.
              bind_result (parse_int stop) (\<lambda>b. Inr (py_range a (b + 1) 1))))
      else if piece \<noteq> [] \<and> list_all is_digit piece then
        bind_result (parse_int piece) (\<lambda>v. if v < low \<or> high < v then Inl (Out_of_range v) else Inr [v])
      else Inl (Bad_token piece))"

fun parse_pieces :: "int \<Rightarrow> int \<Rightarrow> string list \<Rightarrow> cron_error + int list" where
  "parse_pieces low high [] = Inr []"
| "parse_pieces low high (p # ps) =
     bind_result (parse_piece low high p) (\<lambda>vs.
       bind_result (parse_pieces low high ps) (\<lambda>ws. Inr (vs @ ws)))"

definition parse_field :: "int \<times> int \<Rightarrow> string \<Rightarrow> cron_error + int list" where
  "parse_field = (\<lambda>(low, high) raw.
     if raw = ''*'' then Inr (py_range low (high + 1) 1)
     else bind_result (parse_pieces low high (split_on (CHR '','') raw)) (\<lambda>vs.
            if vs = [] then Inl Empty_set else Inr vs))"

record cron =
  cron_minutes :: "int list"
  cron_hours :: "int list"
  cron_doms :: "int list"
  cron_months :: "int list"
  cron_dows :: "int list"

definition cron_parse :: "string \<Rightarrow> cron_error + cron" where
  "cron_parse expression =
     (case py_split expression of
        [m, h, d, mon, w] \<Rightarrow>
          bind_result (parse_field (0, 59) m) (\<lambda>ms.
          bind_result (parse_field (0, 23) h) (\<lambda>hs.
          bind_result (parse_field (1, 31) d) (\<lambda>ds.
          bind_result (parse_field (1, 12) mon) (\<lambda>mons.
          bind_result (parse_field (0, 6) w) (\<lambda>ws.
            Inr \<lparr>cron_minutes = ms, cron_hours = hs, cron_doms = ds, cron_months = mons,
                 cron_dows = ws\<rparr>)))))
      | parts \<Rightarrow> Inl (Field_count (length parts)))"

section \<open>Matching\<close>

definition day_matches :: "cron \<Rightarrow> datetime \<Rightarrow> bool" where
  "day_matches c d =
     (let dom_matches = dt_dom d \<in> set (cron_doms c);
          dow_matches = dt_weekday d \<in> set (cron_dows c);
          dom_restricted = set (cron_doms c) \<noteq> set (py_range 1 32 1);
          dow_restricted = set (cron_dows c) \<noteq> set (py_range 0 7 1)
      in if dom_restricted \<and> dow_restricted then dom_matches \<or> dow_matches
         else dom_matches \<and> dow_matches)"

definition cron_matches :: "cron \<Rightarrow> datetime \<Rightarrow> bool" where
  "cron_matches c d \<longleftrightarrow>
     dt_minute d \<in> set (cron_minutes c) \<and> dt_hour d \<in> set (cron_hours c) \<and> day_matches c d
     \<and> dt_month d \<in> set (cron_months c)"

text \<open>The scan through the minutes of an hour: at most 60 steps, stopping at minute 59.\<close>

fun scan_minutes :: "nat \<Rightarrow> int list \<Rightarrow> int \<Rightarrow> int option" where
  "scan_minutes 0 ms m = None"
| "scan_minutes (Suc n) ms m =
     (if m \<in> set ms then Some m else if m = 59 then None else scan_minutes n ms (m + 1))"

definition next_day :: "datetime \<Rightarrow> datetime" where
  "next_day d = d\<lparr>dt_day := dt_day d + 1, dt_hour := 0, dt_minute := 0\<rparr>"

definition next_hour :: "datetime \<Rightarrow> datetime" where
  "next_hour d =
     (if dt_hour d = 23 then d\<lparr>dt_day := dt_day d + 1, dt_hour := 0, dt_minute := 0\<rparr>
      else d\<lparr>dt_hour := dt_hour d + 1, dt_minute := 0\<rparr>)"

definition next_minute :: "datetime \<Rightarrow> datetime" where
  "next_minute d = (if dt_minute d = 59 then next_hour d else d\<lparr>dt_minute := dt_minute d + 1\<rparr>)"

fun search :: "nat \<Rightarrow> cron \<Rightarrow> datetime \<Rightarrow> datetime option" where
  "search n c d =
     (if n = 0 then None
      else if dt_month d \<notin> set (cron_months c) \<or> \<not> day_matches c d
           then search (n - 1) c (next_day d)
      else case (if dt_hour d \<in> set (cron_hours c) then scan_minutes 60 (cron_minutes c) (dt_minute d)
                 else None) of
             Some m \<Rightarrow> Some (d\<lparr>dt_minute := m\<rparr>)
           | None \<Rightarrow> search (n - 1) c (next_hour d))"

definition next_after :: "string \<Rightarrow> cron \<Rightarrow> datetime \<Rightarrow> cron_error + datetime" where
  "next_after expression c d =
     (let d0 = d\<lparr>dt_second := 0, dt_micro := 0\<rparr>;
          candidate = (if dt_second d \<noteq> 0 \<or> dt_micro d \<noteq> 0 then next_minute d0 else d0)
      in case search (366 * 24 * 60) c candidate of
           None \<Rightarrow> Inl (No_future_match expression)
         | Some r \<Rightarrow> Inr r)"

section \<open>The search finds the next matching minute\<close>

declare search.simps [simp del]

definition matches_at :: "cron \<Rightarrow> int \<Rightarrow> bool" where
  "matches_at c i = cron_matches c (of_index i)"

lemma valid_of_index [simp]: "valid_dt (of_index i)"
  by (auto simp: valid_dt_def of_index_def)

lemma index_of_index [simp]: "minute_index (of_index i) = i"
proof -
  have "i mod 1440 div 60 * 60 + i mod 60 = i mod 1440"
    using div_mult_mod_eq [of "i mod 1440" 60] mod_mod_cancel [of 60 1440 i] by simp
  then show ?thesis
    using div_mult_mod_eq [of i 1440] by (simp add: minute_index_def of_index_def add.assoc)
qed

text \<open>The fields of the minutes from \<open>d\<close> to the end of its hour and of its day.\<close>

lemma same_day:
  assumes "valid_dt d" "minute_index d \<le> i" "i < minute_index (next_day d)"
  shows "dt_day (of_index i) = dt_day d"
proof -
  have "i div 1440 = dt_day d"
    using assms by (intro int_div_pos_eq [of i 1440 "dt_day d" "i - dt_day d * 1440"])
      (auto simp: valid_dt_def minute_index_def next_day_def)
  then show ?thesis by (simp add: of_index_def)
qed

lemma next_hour_index:
  "valid_dt d \<Longrightarrow> minute_index (next_hour d) = dt_day d * 1440 + dt_hour d * 60 + 60"
  by (auto simp: minute_index_def next_hour_def)

lemma next_day_index: "minute_index (next_day d) = dt_day d * 1440 + 1440"
  by (simp add: minute_index_def next_day_def)

lemma next_hour_le_day: "valid_dt d \<Longrightarrow> minute_index (next_hour d) \<le> minute_index (next_day d)"
  by (auto simp: next_hour_index next_day_index valid_dt_def)

lemma split_index:
  fixes h r day :: int
  assumes "0 \<le> h" "h < 24" "0 \<le> r" "r < 60"
  shows "(day * 1440 + h * 60 + r) mod 1440 div 60 = h" "(day * 1440 + h * 60 + r) mod 60 = r"
proof -
  have "(day * 1440 + h * 60 + r) mod 1440 = h * 60 + r"
    using assms by (intro int_mod_pos_eq [of _ _ day]) auto
  moreover have "(h * 60 + r) div 60 = h"
    using assms by (intro int_div_pos_eq) auto
  ultimately show "(day * 1440 + h * 60 + r) mod 1440 div 60 = h" by simp
  show "(day * 1440 + h * 60 + r) mod 60 = r"
    using assms by (intro int_mod_pos_eq [of _ _ "day * 24 + h"]) auto
qed

lemma same_hour:
  assumes "valid_dt d" "minute_index d \<le> i" "i < minute_index (next_hour d)"
  shows "dt_day (of_index i) = dt_day d \<and> dt_hour (of_index i) = dt_hour d
    \<and> dt_minute (of_index i) = dt_minute d + (i - minute_index d)"
proof -
  let ?r = "dt_minute d + (i - minute_index d)"
  have day: "dt_day (of_index i) = dt_day d"
    using assms next_hour_le_day [OF assms(1)] by (intro same_day) auto
  have i: "i = dt_day d * 1440 + dt_hour d * 60 + ?r" by (simp add: minute_index_def)
  have r: "0 \<le> ?r" "?r < 60"
    using assms(1,2) assms(3) [unfolded next_hour_index [OF assms(1)]]
    by (auto simp: valid_dt_def minute_index_def)
  note split = split_index [of "dt_hour d" ?r "dt_day d", folded i]
  with day r assms(1) show ?thesis by (simp add: of_index_def valid_dt_def)
qed

lemma day_fields:
  "dt_day d = dt_day e \<Longrightarrow> dt_month d = dt_month e \<and> day_matches c d = day_matches c e"
  by (simp add: dt_month_def day_matches_def dt_dom_def dt_weekday_def)

lemma skip_day:
  assumes "valid_dt d" "dt_month d \<notin> set (cron_months c) \<or> \<not> day_matches c d"
    and "minute_index d \<le> i" "i < minute_index (next_day d)"
  shows "\<not> matches_at c i"
  using assms day_fields [OF same_day [OF assms(1,3,4)], of c]
  by (auto simp: matches_at_def cron_matches_def)

lemma scan_minutes_Some:
  "scan_minutes n ms m = Some k \<Longrightarrow> m \<le> k \<and> k \<in> set ms \<and> (\<forall>j. m \<le> j \<and> j < k \<longrightarrow> j \<notin> set ms)
     \<and> (m \<le> 59 \<longrightarrow> k \<le> 59)"
proof (induction n arbitrary: m)
  case (Suc n)
  show ?case
  proof (cases "m \<in> set ms")
    case False
    with Suc.prems have ne: "m \<noteq> 59" and rest: "scan_minutes n ms (m + 1) = Some k"
      by (auto split: if_splits)
    from Suc.IH [OF rest] have ih: "m + 1 \<le> k" "k \<in> set ms"
      "\<And>j. m + 1 \<le> j \<Longrightarrow> j < k \<Longrightarrow> j \<notin> set ms" "m + 1 \<le> 59 \<longrightarrow> k \<le> 59" by auto
    have "j \<notin> set ms" if "m \<le> j" "j < k" for j using ih(3) [of j] that False by (cases "j = m") auto
    with ih ne show ?thesis by auto
  qed (use Suc.prems in auto)
qed simp

lemma scan_minutes_None:
  "scan_minutes n ms m = None \<Longrightarrow> m \<le> j \<Longrightarrow> j \<le> 59 \<Longrightarrow> 60 - m \<le> int n \<Longrightarrow> j \<notin> set ms"
proof (induction n arbitrary: m)
  case (Suc n)
  then have m: "m \<notin> set ms" and rest: "m = 59 \<or> scan_minutes n ms (m + 1) = None"
    by (auto split: if_splits)
  show ?case
  proof (cases "j = m")
    case False
    with rest Suc.prems have "scan_minutes n ms (m + 1) = None" "m + 1 \<le> j" by auto
    from Suc.IH [OF this] Suc.prems show ?thesis by simp
  qed (use m in simp)
qed auto

lemma skip_hour:
  assumes "valid_dt d"
    and "(if dt_hour d \<in> set (cron_hours c) then scan_minutes 60 (cron_minutes c) (dt_minute d) else None) = None"
    and "minute_index d \<le> i" "i < minute_index (next_hour d)"
  shows "\<not> matches_at c i"
proof (cases "dt_hour d \<in> set (cron_hours c)")
  case True
  note same_hour [OF assms(1,3,4)]
  moreover have "dt_minute d + (i - minute_index d) \<notin> set (cron_minutes c)"
    using assms(1-3) assms(4) [unfolded next_hour_index [OF assms(1)]] True
    by (intro scan_minutes_None [of 60 "cron_minutes c" "dt_minute d"])
      (auto simp: minute_index_def valid_dt_def)
  ultimately show ?thesis by (simp add: matches_at_def cron_matches_def)
next
  case False
  with same_hour [OF assms(1,3,4)] show ?thesis by (simp add: matches_at_def cron_matches_def)
qed

lemma valid_next: "valid_dt d \<Longrightarrow> valid_dt (next_day d)" "valid_dt d \<Longrightarrow> valid_dt (next_hour d)"
  by (auto simp: valid_dt_def next_day_def next_hour_def)

lemma search_Some:
  assumes "valid_dt d" "search n c d = Some r"
  shows "valid_dt r \<and> cron_matches c r \<and> minute_index d \<le> minute_index r
    \<and> (\<forall>i. minute_index d \<le> i \<and> i < minute_index r \<longrightarrow> \<not> matches_at c i)"
  using assms
proof (induction n c d rule: search.induct)
  case (1 n c d)
  let ?scan = "if dt_hour d \<in> set (cron_hours c) then scan_minutes 60 (cron_minutes c) (dt_minute d) else None"
  note eq = search.simps [of n c d]
  from "1.prems"(2) eq have n: "n \<noteq> 0" by (intro notI) simp
  consider (day) "dt_month d \<notin> set (cron_months c) \<or> \<not> day_matches c d"
    | (found) m where "\<not> (dt_month d \<notin> set (cron_months c) \<or> \<not> day_matches c d)" "?scan = Some m"
    | (hour) "\<not> (dt_month d \<notin> set (cron_months c) \<or> \<not> day_matches c d)" "?scan = None"
    by fastforce
  then show ?case
  proof cases
    case day
    with eq n "1.prems"(2) have s: "search (n - 1) c (next_day d) = Some r" by simp
    have le: "minute_index d \<le> minute_index (next_day d)"
      using "1.prems"(1) by (simp add: minute_index_def next_day_def valid_dt_def)
    from "1.IH"(1) [OF n day valid_next(1) [OF "1.prems"(1)] s] skip_day [OF "1.prems"(1) day] le
    show ?thesis by (meson le_less_linear order.trans)
  next
    case found
    with eq n "1.prems"(2) have r: "r = d\<lparr>dt_minute := m\<rparr>" by simp
    from found(2) have h: "dt_hour d \<in> set (cron_hours c)"
      and scan: "scan_minutes 60 (cron_minutes c) (dt_minute d) = Some m" by (auto split: if_splits)
    have m: "dt_minute d \<le> m" "m \<in> set (cron_minutes c)" "m \<le> 59"
      "\<And>j. dt_minute d \<le> j \<Longrightarrow> j < m \<Longrightarrow> j \<notin> set (cron_minutes c)"
      using scan_minutes_Some [OF scan] "1.prems"(1) by (auto simp: valid_dt_def)
    have "\<not> matches_at c i" if i: "minute_index d \<le> i" "i < minute_index r" for i
    proof -
      have "i < minute_index (next_hour d)"
        using i(2) m(3) "1.prems"(1) by (simp add: r next_hour_index) (simp add: minute_index_def)
      from same_hour [OF "1.prems"(1) i(1) this] m(4) [of "dt_minute d + (i - minute_index d)"] i
      show ?thesis by (auto simp: matches_at_def cron_matches_def r minute_index_def)
    qed
    moreover have "cron_matches c r"
      using found(1) h m(2) day_fields [of r d c] by (simp add: cron_matches_def r)
    ultimately show ?thesis
      using m "1.prems"(1) by (auto simp: r valid_dt_def minute_index_def)
  next
    case hour
    with eq n "1.prems"(2) have s: "search (n - 1) c (next_hour d) = Some r" by simp
    have le: "minute_index d \<le> minute_index (next_hour d)"
      using "1.prems"(1) by (simp add: next_hour_index) (simp add: minute_index_def valid_dt_def)
    from "1.IH"(2) [OF n hour valid_next(2) [OF "1.prems"(1)] s] skip_hour [OF "1.prems"(1) hour(2)] le
    show ?thesis by (meson le_less_linear order.trans)
  qed
qed

lemma search_None:
  assumes "valid_dt d" "search n c d = None"
    and "minute_index d \<le> i" "i < minute_index d - dt_minute d + 60 * int n"
  shows "\<not> matches_at c i"
  using assms
proof (induction n c d rule: search.induct)
  case (1 n c d)
  let ?scan = "if dt_hour d \<in> set (cron_hours c) then scan_minutes 60 (cron_minutes c) (dt_minute d) else None"
  let ?day = "dt_month d \<notin> set (cron_months c) \<or> \<not> day_matches c d"
  note eq = search.simps [of n c d]
  have n: "n \<noteq> 0" using "1.prems" by (auto simp: valid_dt_def)
  then have n1: "60 * int (n - 1) = 60 * int n - 60" by (simp add: of_nat_diff)
  note v = "1.prems"(1)
  show ?case
  proof (cases ?day)
    case True
    with eq n "1.prems"(2) have s: "search (n - 1) c (next_day d) = None" by simp
    show ?thesis
    proof (cases "i < minute_index (next_day d)")
      case False
      have "minute_index d - dt_minute d + 60 \<le> minute_index (next_day d)"
        using v by (simp add: next_day_index) (simp add: minute_index_def valid_dt_def)
      moreover have "dt_minute (next_day d) = 0" by (simp add: next_day_def)
      ultimately show ?thesis
        using False "1.prems"(4) n1 by (intro "1.IH"(1) [OF n True valid_next(1) [OF v] s]) auto
    qed (use skip_day [OF v True] "1.prems"(3) in blast)
  next
    case False
    with eq n "1.prems"(2) have scan: "?scan = None" and s: "search (n - 1) c (next_hour d) = None"
      by (auto split: option.splits if_splits)
    show ?thesis
    proof (cases "i < minute_index (next_hour d)")
      case later: False
      have "minute_index d - dt_minute d + 60 = minute_index (next_hour d)"
        using v by (simp add: next_hour_index) (simp add: minute_index_def)
      moreover have "dt_minute (next_hour d) = 0" by (simp add: next_hour_def)
      ultimately show ?thesis
        using later "1.prems"(4) n1 by (intro "1.IH"(2) [OF n False scan valid_next(2) [OF v] s]) auto
    qed (use skip_hour [OF v scan] "1.prems"(3) in blast)
  qed
qed


definition start_index :: "datetime \<Rightarrow> int" where
  "start_index d = minute_index d + (if dt_second d \<noteq> 0 \<or> dt_micro d \<noteq> 0 then 1 else 0)"

lemma next_minute_index: "valid_dt d \<Longrightarrow> minute_index (next_minute d) = minute_index d + 1"
  using next_hour_index [of d] by (auto simp: next_minute_def minute_index_def)

lemma valid_next_minute: "valid_dt d \<Longrightarrow> valid_dt (next_minute d)"
  using valid_next(2) [of d] by (auto simp: next_minute_def valid_dt_def)


definition leap_day :: cron where
  "leap_day = \<lparr>cron_minutes = [30], cron_hours = [2], cron_doms = [29], cron_months = [2],
     cron_dows = py_range 0 7 1\<rparr>"


section \<open>What the parser accepts\<close>

lemma set_py_range_1: "set (py_range a (b + 1) 1) = {a..b}"
proof -
  have "x \<in> (\<lambda>k. a + int k) ` {0..<nat (1 + (b - a))}" if "a \<le> x" "x \<le> b" for x
    using that by (intro image_eqI [of _ _ "nat (x - a)"]) auto
  then show ?thesis by (auto simp: py_range_def)
qed

lemma parse_field_star: "parse_field (low, high) ''*'' = Inr vs \<Longrightarrow> set vs = {low..high}"
  using set_py_range_1 [of low high] by (auto simp: parse_field_def)

lemma parse_pieces_bounds:
  assumes "parse_pieces low high ps = Inr vs" "\<And>p. p \<in> set ps \<Longrightarrow> list_all is_digit p"
  shows "set vs \<subseteq> {low..high}"
proof -
  have "set ws \<subseteq> {low..high}" if "list_all is_digit p" "parse_piece low high p = Inr ws" for p ws
  proof -
    have "CHR ''/'' \<notin> set p" "CHR ''-'' \<notin> set p"
      using that(1) by (auto simp: list_all_iff is_digit_def)
    with that show ?thesis by (auto simp: parse_piece_def bind_result_eq_Inr split: if_splits)
  qed
  note piece = this
  from assms show ?thesis
  proof (induction ps arbitrary: vs)
    case (Cons p ps)
    then obtain us ws where "parse_piece low high p = Inr us" "parse_pieces low high ps = Inr ws"
      "vs = us @ ws" by (auto simp: bind_result_eq_Inr)
    with piece [of p us] Cons.IH [of ws] Cons.prems(2) show ?case by simp
  qed simp
qed

text \<open>A list of plain numbers is checked against the bounds of its field; a range is not.\<close>

lemma parse_range_unchecked:
  "parse_field (0, 59) ''70-80'' = Inr (py_range 70 81 1)"
  by code_simp

text \<open>The search may return the time it is given.\<close>

lemma next_after_not_strict:
  assumes "valid_dt d" "cron_matches c d" "dt_second d = 0" "dt_micro d = 0"
  shows "next_after expression c d = Inr d"
proof -
  have "scan_minutes 60 (cron_minutes c) (dt_minute d) = Some (dt_minute d)"
    using assms(2) by (simp add: cron_matches_def eval_nat_numeral)
  then have "search (366 * 24 * 60) c d = Some d"
    using assms(2) by (subst search.simps) (simp add: cron_matches_def)
  then show ?thesis using assms(3,4) by (cases d) (simp add: next_after_def)
qed

end
