(* ===== verification/Scheduler.thy ===== *)
theory Scheduler
  imports Cluster Cron
begin

text \<open>
  The distributed scheduler (\<open>DistributedScheduler\<close> of \<open>app/cluster/scheduler.py\<close>) over the job
  store and the cron expressions. A tick claims the due jobs and creates a task for each; a task
  executes later, and its execution has two steps, because the handler is awaited in between:
  the registration of the run, and its end with the outcome of the handler. Handlers are
  parameters, as is the conversion between time stamps and local calendar times. The leadership
  check is the argument \<open>leading\<close>. The limit on concurrent handlers only delays them.
\<close>

section \<open>State\<close>

record clock =
  ck_datetime :: "pyfloat \<Rightarrow> datetime"
  ck_timestamp :: "datetime \<Rightarrow> pyfloat"

datatype outcome = Done "string option" | Raises string | Times_out | Task_cancelled

datatype sched_error = SchedulerError | JobNotFoundError string | ValueError cron_error
  | Store_error store_error | CancelledError

record scheduler =
  sc_store :: job_store
  sc_handlers :: "(string, string \<Rightarrow> outcome) dict"
  sc_tasks :: "string list"
  sc_paused :: bool
  sc_node :: string
  sc_last_tick :: pyfloat
  sc_executed :: nat

definition new_scheduler :: "job_store \<Rightarrow> (string, string \<Rightarrow> outcome) dict \<Rightarrow> scheduler" where
  "new_scheduler store handlers =
     \<lparr>sc_store = store, sc_handlers = handlers, sc_tasks = [], sc_paused = False,
      sc_node = ''local'', sc_last_tick = 0, sc_executed = 0\<rparr>"

definition register_handler :: "string \<Rightarrow> (string \<Rightarrow> outcome) \<Rightarrow> scheduler \<Rightarrow> scheduler" where
  "register_handler nm h s = s\<lparr>sc_handlers := dict_set nm h (sc_handlers s)\<rparr>"

definition unregister_handler :: "string \<Rightarrow> scheduler \<Rightarrow> scheduler \<times> bool" where
  "unregister_handler nm s =
     (s\<lparr>sc_handlers := dict_pop nm (sc_handlers s)\<rparr>, dict_has (sc_handlers s) nm)"

section \<open>Jobs\<close>

definition next_cron :: "clock \<Rightarrow> string \<Rightarrow> pyfloat \<Rightarrow> sched_error + pyfloat" where
  "next_cron clk expr now =
     (case bind_result (cron_parse expr) (\<lambda>c. next_after expr c (ck_datetime clk now)) of
        Inl e \<Rightarrow> Inl (ValueError e)
      | Inr d \<Rightarrow> Inr (ck_timestamp clk d))"

definition add_job :: "clock \<Rightarrow> pyfloat \<Rightarrow> job_spec \<Rightarrow> scheduler \<Rightarrow> scheduler \<times> (sched_error + job_spec)"
where
  "add_job clk now spec s =
     (if jb_type spec = CRON \<and> jb_cron spec = [] then (s, Inl SchedulerError)
      else
        case (if jb_type spec = DELAYED then Inr (now + jb_delay spec)
              else if jb_type spec = CRON then next_cron clk (jb_cron spec) now
              else Inr (now + jb_interval spec)) of
          Inl e \<Rightarrow> (s, Inl e)
        | Inr t \<Rightarrow>
            (let spec' = spec\<lparr>jb_next_run := t\<rparr>
             in (s\<lparr>sc_store := js_add spec' (sc_store s)\<rparr>, Inr spec')))"

text \<open>The keyword arguments of \<open>schedule\<close> that decide the type of the job.\<close>

definition infer_type :: "string \<Rightarrow> pyfloat \<Rightarrow> bool \<Rightarrow> bool \<Rightarrow> job_type" where
  "infer_type expr delay singleton failover =
     (if expr \<noteq> [] then CRON else if delay \<noteq> 0 then DELAYED
      else if singleton then SINGLETON else if failover then FAILOVER else RECURRING)"

definition schedule ::
  "clock \<Rightarrow> pyfloat \<Rightarrow> (string \<Rightarrow> outcome) \<Rightarrow> job_type option \<Rightarrow> job_spec \<Rightarrow> scheduler \<Rightarrow>
   scheduler \<times> (sched_error + job_spec)" where
  "schedule clk now h ty spec s =
     (let ty' = (case ty of
                   Some t \<Rightarrow> t
                 | None \<Rightarrow> infer_type (jb_cron spec) (jb_delay spec) (jb_singleton spec) (jb_failover spec))
      in add_job clk now (spec\<lparr>jb_type := ty'\<rparr>) (register_handler (jb_name spec) h s))"

definition remove_job :: "string \<Rightarrow> scheduler \<Rightarrow> scheduler \<times> bool" where
  "remove_job i s =
     (case js_remove i (sc_store s) of (st, r) \<Rightarrow> (s\<lparr>sc_store := st\<rparr>, r))"

definition get_job :: "string \<Rightarrow> scheduler \<Rightarrow> sched_error + job_spec" where
  "get_job i s =
     (case js_get (sc_store s) i of None \<Rightarrow> Inl (JobNotFoundError i) | Some j \<Rightarrow> Inr j)"

section \<open>Ticks\<close>

text \<open>\<open>job.owner and job.owner != self._node_id\<close>\<close>

definition owned_elsewhere :: "string \<Rightarrow> job_spec \<Rightarrow> bool" where
  "owned_elsewhere node j \<longleftrightarrow>
     (case jb_owner j of None \<Rightarrow> False | Some n \<Rightarrow> n \<noteq> [] \<and> n \<noteq> node)"

definition claim_job :: "bool \<Rightarrow> job_spec \<Rightarrow> scheduler \<Rightarrow> scheduler \<times> bool" where
  "claim_job leading j s =
     (if jb_singleton j \<and> \<not> leading then (s, False)
      else if owned_elsewhere (sc_node s) j \<and> \<not> jb_failover j then (s, False)
      else
        let (st, ok) = (if jb_failover j
                        then (if owned_elsewhere (sc_node s) j then (sc_store s, False)
                              else js_claim (jb_id j) (sc_node s) (sc_store s))
                        else (sc_store s, True))
        in if \<not> ok then (s\<lparr>sc_store := st\<rparr>, False)
           else (s\<lparr>sc_store := fst (js_update (jb_id j) [Set_owner (Some (sc_node s))] st),
                   sc_tasks := sc_tasks s @ [jb_id j]\<rparr>, True))"

fun claim_jobs :: "bool \<Rightarrow> job_spec list \<Rightarrow> scheduler \<Rightarrow> scheduler \<times> nat" where
  "claim_jobs leading [] s = (s, 0)"
| "claim_jobs leading (j # js) s =
     (case claim_job leading j s of (s1, r) \<Rightarrow>
        (case claim_jobs leading js s1 of (s2, n) \<Rightarrow> (s2, if r then Suc n else n)))"

definition tick :: "bool \<Rightarrow> pyfloat \<Rightarrow> scheduler \<Rightarrow> scheduler \<times> nat" where
  "tick leading now s =
     (case claim_jobs leading (js_due now (sc_store s)) (s\<lparr>sc_last_tick := now\<rparr>) of
        (s1, started) \<Rightarrow> (s1\<lparr>sc_executed := sc_executed s1 + started\<rparr>, started))"

section \<open>Executing a job\<close>

text \<open>Up to the call of the handler: count the attempt, register the run.\<close>

definition attempts_of :: "job_spec \<Rightarrow> int" where
  "attempts_of j = dict_get_or (jb_metadata j) ''_attempts'' 0"

definition count_attempt :: "job_spec \<Rightarrow> job_spec" where
  "count_attempt j = j\<lparr>jb_metadata := dict_set ''_attempts'' (attempts_of j + 1) (jb_metadata j)\<rparr>"

definition execute_start ::
  "pyfloat \<Rightarrow> string \<Rightarrow> string \<Rightarrow> scheduler \<Rightarrow> sched_error + scheduler \<times> job_run" where
  "execute_start now rid i s =
     (case js_get (sc_store s) i of
        None \<Rightarrow> Inl (Store_error (KeyError i))
      | Some j \<Rightarrow>
          (let run = \<lparr>run_id = rid, run_job_id = jb_id j, run_job_name = jb_name j,
                      run_node_id = sc_node s, run_state = RUNNING, run_started_at = now,
                      run_finished_at = 0, run_result = None, run_error = [],
                      run_attempts = attempts_of j + 1\<rparr>
           in Inr (s\<lparr>sc_store := js_add_run run (js_add (count_attempt j) (sc_store s))\<rparr>, run)))"

definition retry_next :: "clock \<Rightarrow> pyfloat \<Rightarrow> job_spec \<Rightarrow> sched_error + pyfloat" where
  "retry_next clk now j =
     (if jb_type j = CRON then next_cron clk (jb_cron j) now else Inr (now + jb_interval j))"

definition update_job ::
  "string \<Rightarrow> job_change list \<Rightarrow> scheduler \<Rightarrow> scheduler \<times> (sched_error + unit)" where
  "update_job i cs s =
     (case js_update i cs (sc_store s) of (st, r) \<Rightarrow>
        (s\<lparr>sc_store := st\<rparr>, case r of Inl e \<Rightarrow> Inl (Store_error e) | Inr j \<Rightarrow> Inr ()))"

definition save_run :: "job_run \<Rightarrow> scheduler \<Rightarrow> scheduler" where
  "save_run run s = s\<lparr>sc_store := js_add_run run (sc_store s)\<rparr>"

definition fail_job ::
  "clock \<Rightarrow> pyfloat \<Rightarrow> job_spec \<Rightarrow> job_run \<Rightarrow> string \<Rightarrow> scheduler \<Rightarrow>
   scheduler \<times> (sched_error + job_run)" where
  "fail_job clk now j run err s =
     (let run1 = run\<lparr>run_state := JOB_FAILED, run_error := err, run_finished_at := now\<rparr>;
          s1 = save_run run1 s;
          retries = dict_get_or (jb_metadata j) ''retries'' 0
      in if run_attempts run \<le> retries then
           (case retry_next clk now j of
              Inl e \<Rightarrow> (s1, Inl e)
            | Inr t \<Rightarrow>
                (case update_job (jb_id j) [Set_owner None, Set_next_run t] s1 of
                   (s2, Inl e) \<Rightarrow> (s2, Inl e)
                 | (s2, Inr u) \<Rightarrow>
                     (let run2 = run1\<lparr>run_state := PENDING\<rparr> in (save_run run2 s2, Inr run2))))
         else
           (case update_job (jb_id j) [Set_owner None, Set_next_run 0] s1 of
              (s2, Inl e) \<Rightarrow> (s2, Inl e)
            | (s2, Inr u) \<Rightarrow> (s2, Inr run1)))"

definition finish_success ::
  "clock \<Rightarrow> pyfloat \<Rightarrow> job_spec \<Rightarrow> scheduler \<Rightarrow> scheduler \<times> (sched_error + unit)" where
  "finish_success clk now j s =
     (if jb_type j = DELAYED then
        (case update_job (jb_id j) [Set_last_run now, Set_next_run 0] s of
           (s1, Inl e) \<Rightarrow> (s1, Inl e)
         | (s1, Inr u) \<Rightarrow> (fst (remove_job (jb_id j) s1), Inr ()))
      else if jb_type j = CRON then
        (case next_cron clk (jb_cron j) now of
           Inl e \<Rightarrow> (s, Inl e)
         | Inr t \<Rightarrow> update_job (jb_id j) [Set_last_run now, Set_next_run t] s)
      else update_job (jb_id j) [Set_last_run now, Set_next_run (now + jb_interval j)] s)"

text \<open>From the handler's outcome on; \<open>j\<close> is the job object the execution read at its start.\<close>

definition execute_end ::
  "clock \<Rightarrow> pyfloat \<Rightarrow> job_spec \<Rightarrow> job_run \<Rightarrow> outcome \<Rightarrow> scheduler \<Rightarrow>
   scheduler \<times> (sched_error + job_run)" where
  "execute_end clk now j run out s =
     (case out of
        Task_cancelled \<Rightarrow>
          (let run1 = run\<lparr>run_state := JOB_FAILED, run_error := ''cancelled'', run_finished_at := now\<rparr>;
               s1 = save_run run1 s
           in case retry_next clk now j of
                Inl e \<Rightarrow> (s1, Inl e)
              | Inr t \<Rightarrow>
                  (case update_job (jb_id j) [Set_owner None, Set_next_run t] s1 of
                     (s2, Inl e) \<Rightarrow> (s2, Inl e)
                   | (s2, Inr u) \<Rightarrow> (s2, Inl CancelledError)))
      | Times_out \<Rightarrow> fail_job clk now j run ''timed out'' s
      | Raises err \<Rightarrow> fail_job clk now j run err s
      | Done result \<Rightarrow>
          (let run1 = run\<lparr>run_result := result, run_state := SUCCEEDED, run_finished_at := now\<rparr>
           in case finish_success clk now j (save_run run1 s) of
                (s2, Inl e) \<Rightarrow> (s2, Inl e)
              | (s2, Inr u) \<Rightarrow> (s2, Inr run1)))"

text \<open>The whole execution, when nothing else happens while the handler runs.\<close>

definition execute ::
  "clock \<Rightarrow> pyfloat \<Rightarrow> pyfloat \<Rightarrow> string \<Rightarrow> string \<Rightarrow> scheduler \<Rightarrow> scheduler \<times> (sched_error + job_run)"
where
  "execute clk now now' rid i s =
     (case execute_start now rid i s of
        Inl e \<Rightarrow> (s, Inl e)
      | Inr (s1, run) \<Rightarrow>
          (case js_get (sc_store s1) i of
             None \<Rightarrow> (s1, Inl (Store_error (KeyError i)))
           | Some j \<Rightarrow>
               (case dict_get (sc_handlers s1) (jb_name j) of
                  None \<Rightarrow> fail_job clk now' j run ''no handler registered'' s1
                | Some h \<Rightarrow> execute_end clk now' j run (h (jb_payload j)) s1)))"

definition run_now ::
  "clock \<Rightarrow> pyfloat \<Rightarrow> pyfloat \<Rightarrow> string \<Rightarrow> string \<Rightarrow> scheduler \<Rightarrow> scheduler \<times> (sched_error + job_run)"
where
  "run_now clk now now' rid i s =
     (case get_job i s of
        Inl e \<Rightarrow> (s, Inl e)
      | Inr j \<Rightarrow> execute clk now now' rid (jb_id j) s)"

section \<open>What a tick starts\<close>

definition claimable :: "bool \<Rightarrow> string \<Rightarrow> job_spec \<Rightarrow> bool" where
  "claimable leading node j \<longleftrightarrow>
     (jb_singleton j \<longrightarrow> leading) \<and>
     (case jb_owner j of None \<Rightarrow> True | Some n \<Rightarrow> n = node \<or> n = [] \<and> \<not> jb_failover j)"

lemma claim_job_exact:
  fixes leading :: bool
  assumes "js_get (sc_store s) (jb_id j) = Some j"
  defines "s' \<equiv> fst (claim_job leading j s)"
  shows "snd (claim_job leading j s) = claimable leading (sc_node s) j"
    and "sc_tasks s' = sc_tasks s @ (if claimable leading (sc_node s) j then [jb_id j] else [])"
    and "js_get (sc_store s') k = (if k = jb_id j \<and> claimable leading (sc_node s) j
           then Some (j\<lparr>jb_owner := Some (sc_node s)\<rparr>) else js_get (sc_store s) k)"
    and "sc_node s' = sc_node s" "sc_executed s' = sc_executed s" "sc_last_tick s' = sc_last_tick s"
  using assms(1)
  by (auto simp: s'_def claim_job_def claimable_def owned_elsewhere_def js_claim_iff js_claim_get
      js_update_get case_prod_beta split: if_splits option.splits)

lemma claim_jobs_exact:
  fixes leading :: bool
  assumes "distinct (map jb_id js)" "\<And>j. j \<in> set js \<Longrightarrow> js_get (sc_store s) (jb_id j) = Some j"
  defines "s' \<equiv> fst (claim_jobs leading js s)" and "ok \<equiv> claimable leading (sc_node s)"
  shows "snd (claim_jobs leading js s) = length (filter ok js)
    \<and> sc_tasks s' = sc_tasks s @ map jb_id (filter ok js)
    \<and> (\<forall>k. js_get (sc_store s') k =
         (if k \<in> jb_id ` set (filter ok js)
          then map_option (\<lambda>j. j\<lparr>jb_owner := Some (sc_node s)\<rparr>) (js_get (sc_store s) k)
          else js_get (sc_store s) k))
    \<and> sc_node s' = sc_node s \<and> sc_executed s' = sc_executed s \<and> sc_last_tick s' = sc_last_tick s"
  unfolding s'_def ok_def using assms(1,2)
proof (induction js arbitrary: s)
  case (Cons j js)
  let ?s1 = "fst (claim_job leading j s)"
  have j: "js_get (sc_store s) (jb_id j) = Some j" using Cons.prems(2) by simp
  note one = claim_job_exact [OF j, of leading]
  have "js_get (sc_store ?s1) (jb_id i) = Some i" if "i \<in> set js" for i
  proof -
    from Cons.prems(1) that have "jb_id i \<noteq> jb_id j" by (metis distinct.simps(2) image_eqI list.set_map list.simps(9))
    with that Cons.prems(2) show ?thesis by (simp add: one(3))
  qed
  from Cons.IH [OF _ this] Cons.prems(1)
  have ih: "snd (claim_jobs leading js ?s1) = length (filter (claimable leading (sc_node s)) js)"
    "sc_tasks (fst (claim_jobs leading js ?s1)) = sc_tasks ?s1 @ map jb_id (filter (claimable leading (sc_node s)) js)"
    "\<And>k. js_get (sc_store (fst (claim_jobs leading js ?s1))) k =
         (if k \<in> jb_id ` set (filter (claimable leading (sc_node s)) js)
          then map_option (\<lambda>j. j\<lparr>jb_owner := Some (sc_node s)\<rparr>) (js_get (sc_store ?s1) k)
          else js_get (sc_store ?s1) k)"
    "sc_node (fst (claim_jobs leading js ?s1)) = sc_node s"
    "sc_executed (fst (claim_jobs leading js ?s1)) = sc_executed s"
    "sc_last_tick (fst (claim_jobs leading js ?s1)) = sc_last_tick s"
    by (simp_all add: one(4-6))
  have eq: "claim_jobs leading (j # js) s = (fst (claim_jobs leading js ?s1),
      if claimable leading (sc_node s) j then Suc (snd (claim_jobs leading js ?s1))
      else snd (claim_jobs leading js ?s1))"
    by (simp add: case_prod_beta one(1))
  have "jb_id j \<notin> jb_id ` set js" using Cons.prems(1) by simp
  then show ?case
    unfolding eq using ih one(2,3) j by (auto split: if_splits)
qed simp

lemma tick_exact:
  fixes leading :: bool and now :: pyfloat
  assumes "jobs_ok (sc_store s)"
  defines "s' \<equiv> fst (tick leading now s)"
    and "started \<equiv> filter (claimable leading (sc_node s)) (js_due now (sc_store s))"
  shows "snd (tick leading now s) = length started"
    and "sc_tasks s' = sc_tasks s @ map jb_id started"
    and "js_get (sc_store s') k =
         (if k \<in> jb_id ` set started
          then map_option (\<lambda>j. j\<lparr>jb_owner := Some (sc_node s)\<rparr>) (js_get (sc_store s) k)
          else js_get (sc_store s) k)"
    and "sc_executed s' = sc_executed s + length started" "sc_node s' = sc_node s"
proof -
  have d: "distinct (map jb_id (js_due now (sc_store s)))"
    using distinct_js_all [OF assms(1)] by (simp add: js_due_def distinct_map_filter)
  have g: "js_get (sc_store (s\<lparr>sc_last_tick := now\<rparr>)) (jb_id j) = Some j"
    if "j \<in> set (js_due now (sc_store s))" for j
    using that in_js_all [OF assms(1), of j] by (simp add: js_due_def)
  note exact = claim_jobs_exact [OF d g, of leading]
  show "snd (tick leading now s) = length started"
    and "sc_tasks s' = sc_tasks s @ map jb_id started"
    and "js_get (sc_store s') k =
         (if k \<in> jb_id ` set started
          then map_option (\<lambda>j. j\<lparr>jb_owner := Some (sc_node s)\<rparr>) (js_get (sc_store s) k)
          else js_get (sc_store s) k)"
    and "sc_executed s' = sc_executed s + length started" "sc_node s' = sc_node s"
    using exact by (simp_all add: s'_def started_def tick_def case_prod_beta)
qed

lemma jobs_ok_claim_job: "jobs_ok (sc_store s) \<Longrightarrow> jobs_ok (sc_store (fst (claim_job leading j s)))"
  by (auto simp: claim_job_def Let_def case_prod_beta)

lemma jobs_ok_claim_jobs:
  "jobs_ok (sc_store s) \<Longrightarrow> jobs_ok (sc_store (fst (claim_jobs leading js s)))"
  by (induction js arbitrary: s) (simp_all add: case_prod_beta jobs_ok_claim_job)

lemma jobs_ok_tick: "jobs_ok (sc_store s) \<Longrightarrow> jobs_ok (sc_store (fst (tick leading now s)))"
  using jobs_ok_claim_jobs [of "s\<lparr>sc_last_tick := now\<rparr>"] by (simp add: tick_def case_prod_beta)

lemma js_due_get:
  "jobs_ok st \<Longrightarrow> js_get st i = Some j \<Longrightarrow> j \<in> set (js_due now st) \<longleftrightarrow> 0 < jb_next_run j \<and> jb_next_run j \<le> now"
  using in_js_all [of st j] jobs_ok_id [of st i j] by (auto simp: js_due_def)

text \<open>
  A tick starts exactly the due jobs it may start: one task, in order of priority and
  age, for each job whose next run lies in (0, now], that is no singleton unless the node leads,
  and that no other node owns. Those jobs are now owned by the node; no other job changes, and
  the count returned and added to the statistics is their number.
\<close>

theorem tick_starts_exactly:
  assumes "jobs_ok (sc_store s)"
  shows "let may = (\<lambda>j :: job_spec. (jb_singleton j \<longrightarrow> leading) \<and>
              (jb_owner j = None \<or> jb_owner j = Some (sc_node s) \<or> jb_owner j = Some [] \<and> \<not> jb_failover j));
            started = filter may (js_due now (sc_store s)); s' = fst (tick leading now s)
         in sc_tasks s' = sc_tasks s @ map jb_id started
          \<and> snd (tick leading now s) = length started
          \<and> sc_executed s' = sc_executed s + length started
          \<and> (\<forall>i. js_get (sc_store s') i =
               map_option (\<lambda>j. if may j \<and> 0 < jb_next_run j \<and> jb_next_run j \<le> now
                               then j\<lparr>jb_owner := Some (sc_node s)\<rparr> else j) (js_get (sc_store s) i))"
proof -
  define may where "may = (\<lambda>j :: job_spec. (jb_singleton j \<longrightarrow> leading) \<and>
      (jb_owner j = None \<or> jb_owner j = Some (sc_node s) \<or> jb_owner j = Some [] \<and> \<not> jb_failover j))"
  have may: "may = claimable leading (sc_node s)"
    by (rule ext) (auto simp: may_def claimable_def split: option.splits)
  note exact = tick_exact [OF assms, of leading now, folded may]
  have "js_get (sc_store (fst (tick leading now s))) i =
      map_option (\<lambda>j. if may j \<and> 0 < jb_next_run j \<and> jb_next_run j \<le> now
                     then j\<lparr>jb_owner := Some (sc_node s)\<rparr> else j) (js_get (sc_store s) i)" for i
  proof (cases "js_get (sc_store s) i")
    case (Some j)
    have "j' = j" if "j' \<in> set (js_due now (sc_store s))" "jb_id j' = i" for j'
      using in_js_all [OF assms, of j'] that Some by (simp add: js_due_def)
    then have "i \<in> jb_id ` set (filter may (js_due now (sc_store s))) \<longleftrightarrow> may j \<and> j \<in> set (js_due now (sc_store s))"
      using jobs_ok_id [OF assms Some] by auto
    then show ?thesis using Some js_due_get [OF assms Some] by (simp add: exact(3))
  qed (simp add: exact(3))
  with exact(1,2,4) show ?thesis unfolding Let_def may_def by blast
qed

theorem tick_starts_exactly_witness:
  "let j = (new_job 90 ''sync'' SINGLETON ''j1'')\<lparr>jb_singleton := True, jb_next_run := 100\<rparr>;
       s = new_scheduler (js_add j empty_jobs) []
   in sc_tasks (fst (tick True 101 s)) = [''j1''] \<and> snd (tick True 101 s) = 1
      \<and> sc_tasks (fst (tick False 101 s)) = []"
proof -
  let ?j = "(new_job 90 ''sync'' SINGLETON ''j1'')\<lparr>jb_singleton := True, jb_next_run := 100\<rparr>"
  let ?s = "new_scheduler (js_add ?j empty_jobs) []"
  have ok: "jobs_ok (sc_store ?s)" by (simp add: new_scheduler_def jobs_ok_add)
  have due: "js_due 101 (sc_store ?s) = [?j]"
    by (simp add: js_due_def js_all_def new_scheduler_def js_add_def empty_jobs_def new_job_def)
  show ?thesis
    using tick_starts_exactly [OF ok, of True 101] tick_starts_exactly [OF ok, of False 101]
    by (simp add: due Let_def) (simp add: new_scheduler_def new_job_def)
qed

section \<open>Jobs that run longer than the tick interval\<close>

definition ticks :: "bool \<Rightarrow> pyfloat list \<Rightarrow> scheduler \<Rightarrow> scheduler" where
  "ticks leading tms s = fold (\<lambda>now s. fst (tick leading now s)) tms s"

lemma count_list_distinct: "distinct xs \<Longrightarrow> count_list xs x = (if x \<in> set xs then 1 else 0)"
  by (induction xs) auto

text \<open>
  A claimed job is started again: claiming does not move a job's next run, so every further
  tick at or after that time starts it once more, for as long as the execution started first has
  not ended. (Executions end in separate steps.)
\<close>

theorem due_job_restarted_every_tick:
  assumes "jobs_ok (sc_store s)" "js_get (sc_store s) i = Some j"
    and "0 < jb_next_run j" "claimable leading (sc_node s) j"
    and "\<And>now. now \<in> set tms \<Longrightarrow> jb_next_run j \<le> now"
  shows "count_list (sc_tasks (ticks leading tms s)) i = count_list (sc_tasks s) i + length tms"
  using assms
proof (induction tms arbitrary: s j)
  case (Cons now tms)
  let ?s = "fst (tick leading now s)" and ?j = "j\<lparr>jb_owner := Some (sc_node s)\<rparr>"
  let ?st = "filter (claimable leading (sc_node s)) (js_due now (sc_store s))"
  note ok = Cons.prems(1) and get = Cons.prems(2)
  note exact = tick_exact [OF ok, of leading now]
  have j: "j \<in> set ?st" using js_due_get [OF ok get] Cons.prems(3-5) by simp
  have id: "jb_id j = i" using jobs_ok_id [OF ok get] .
  have in_st: "i \<in> jb_id ` set ?st" using j id by blast
  have "distinct (map jb_id ?st)"
    using distinct_js_all [OF ok] by (simp add: js_due_def distinct_map_filter)
  with in_st have "count_list (map jb_id ?st) i = 1" by (simp add: count_list_distinct)
  then have c: "count_list (sc_tasks ?s) i = count_list (sc_tasks s) i + 1"
    by (simp add: exact(2))
  have "js_get (sc_store ?s) i = Some ?j"
    using in_st get exact(3) [of i] by simp
  moreover have "claimable leading (sc_node ?s) ?j"
    using Cons.prems(4) exact(5) by (simp add: claimable_def)
  ultimately have "count_list (sc_tasks (ticks leading tms ?s)) i = count_list (sc_tasks ?s) i + length tms"
    using Cons.prems(3,5) by (intro Cons.IH [where j = ?j, OF jobs_ok_tick [OF ok]]) auto
  with c show ?case by (simp add: ticks_def)
qed (simp add: ticks_def)

theorem due_job_restarted_every_tick_witness:
  "let j = (new_job 90 ''report'' RECURRING ''j1'')\<lparr>jb_next_run := 100\<rparr>;
       s = new_scheduler (js_add j empty_jobs) []
   in count_list (sc_tasks (ticks True [100, 101, 102] s)) ''j1'' = 3"
proof -
  let ?j = "(new_job 90 ''report'' RECURRING ''j1'')\<lparr>jb_next_run := 100\<rparr>"
  let ?s = "new_scheduler (js_add ?j empty_jobs) []"
  have "count_list (sc_tasks (ticks True [100, 101, 102] ?s)) ''j1'' =
      count_list (sc_tasks ?s) ''j1'' + length [100, 101, 102 :: pyfloat]"
    by (rule due_job_restarted_every_tick [where j = ?j])
      (auto simp: new_scheduler_def jobs_ok_add job_table.lookup_store claimable_def new_job_def)
  then show ?thesis by (simp add: new_scheduler_def)
qed


section \<open>The retry budget\<close>

definition execute_with ::
  "clock \<Rightarrow> pyfloat \<Rightarrow> pyfloat \<Rightarrow> string \<Rightarrow> string \<Rightarrow> outcome \<Rightarrow> scheduler \<Rightarrow>
   scheduler \<times> (sched_error + job_run)" where
  "execute_with clk now now' rid i out s =
     (case execute_start now rid i s of
        Inl e \<Rightarrow> (s, Inl e)
      | Inr (s1, run) \<Rightarrow>
          (case js_get (sc_store s1) i of
             None \<Rightarrow> (s1, Inl (Store_error (KeyError i)))
           | Some j \<Rightarrow> execute_end clk now' j run out s1))"

text \<open>With a registered handler, an execution is one with that handler's outcome.\<close>

lemma execute_handler:
  assumes "js_get (sc_store s) i = Some j" "jb_id j = i" "dict_get (sc_handlers s) (jb_name j) = Some h"
  shows "execute clk now now' rid i s = execute_with clk now now' rid i (h (jb_payload j)) s"
  using assms
  by (simp add: execute_def execute_with_def execute_start_def js_get_def js_add_def js_add_run_def
      count_attempt_def Let_def)

lemma js_get_add_run [simp]: "js_get (js_add_run r st) i = js_get st i"
  by (simp add: js_get_def js_add_run_def)

lemma js_get_save_run [simp]: "js_get (sc_store (save_run q s)) i = js_get (sc_store s) i"
  by (simp add: save_run_def)

lemma execute_start_get:
  assumes "js_get (sc_store s) i = Some j" "jb_id j = i" "execute_start now rid i s = Inr (s1, run)"
  shows "js_get (sc_store s1) i = Some (count_attempt j)" "run_attempts run = attempts_of j + 1"
  using assms by (auto simp: execute_start_def Let_def job_table.lookup_store count_attempt_def)

lemma update_job_get:
  assumes "js_get (sc_store s) i = Some j" "snd (change_job cs j) = None"
  shows "update_job i cs s = (s\<lparr>sc_store := fst (js_update i cs (sc_store s))\<rparr>, Inr ())"
  using assms by (auto simp: update_job_def js_update_def js_get_def split: prod.splits)

definition repeating :: "job_spec \<Rightarrow> bool" where
  "repeating j \<longleftrightarrow> jb_type j \<noteq> DELAYED \<and> jb_type j \<noteq> CRON"

lemma execute_with_get:
  assumes "js_get (sc_store s) i = Some j" "jb_id j = i" "repeating j"
  shows "js_get (sc_store (fst (execute_with clk now now' rid i (Done r) s))) i =
      Some ((count_attempt j)\<lparr>jb_last_run := now', jb_next_run := now' + jb_interval j\<rparr>)" (is ?succeeds)
    and "js_get (sc_store (fst (execute_with clk now now' rid i (Raises err) s))) i =
      Some ((count_attempt j)\<lparr>jb_owner := None, jb_next_run :=
        (if attempts_of j + 1 \<le> dict_get_or (jb_metadata j) ''retries'' 0 then now' + jb_interval j else 0)\<rparr>)"
      (is ?fails)
proof -
  obtain s1 run where st: "execute_start now rid i s = Inr (s1, run)"
    using assms(1) by (simp add: execute_start_def Let_def)
  note g = execute_start_get [OF assms(1,2) st]
  have g': "js_get (sc_store (save_run q s1)) i = Some (count_attempt j)" for q
    using g(1) by simp
  have c: "jb_id (count_attempt j) = i" "jb_type (count_attempt j) = jb_type j"
    "jb_interval (count_attempt j) = jb_interval j"
    "dict_get_or (jb_metadata (count_attempt j)) ''retries'' 0 = dict_get_or (jb_metadata j) ''retries'' 0"
    using assms(2) by (simp_all add: count_attempt_def)
  show ?succeeds
    using assms(3) c g'
    by (simp add: execute_with_def st g(1) execute_end_def Let_def finish_success_def repeating_def
        update_job_get [OF g'] js_update_get)
  show ?fails
    using assms(3) c g' g(2)
    by (simp add: execute_with_def st g(1) execute_end_def Let_def fail_job_def retry_next_def
        repeating_def update_job_get [OF g'] js_update_get)
qed

lemma attempts_count [simp]:
  "attempts_of ((count_attempt j)\<lparr>jb_last_run := a, jb_next_run := b\<rparr>) = attempts_of j + 1"
  by (simp add: attempts_of_def count_attempt_def)

fun successes :: "clock \<Rightarrow> string \<Rightarrow> (pyfloat \<times> pyfloat \<times> string \<times> string option) list \<Rightarrow> scheduler \<Rightarrow> scheduler"
where
  "successes clk i [] s = s"
| "successes clk i ((now, now', rid, r) # rest) s =
     successes clk i rest (fst (execute_with clk now now' rid i (Done r) s))"

lemma successes_get:
  assumes "js_get (sc_store s) i = Some j" "jb_id j = i" "repeating j"
  shows "\<exists>j'. js_get (sc_store (successes clk i runs s)) i = Some j' \<and> jb_id j' = i \<and> repeating j'
    \<and> attempts_of j' = attempts_of j + int (length runs) \<and> jb_interval j' = jb_interval j
    \<and> dict_get_or (jb_metadata j') ''retries'' 0 = dict_get_or (jb_metadata j) ''retries'' 0"
  using assms
proof (induction runs arbitrary: s j)
  case (Cons r runs)
  obtain now now' rid res where r: "r = (now, now', rid, res)" by (cases r)
  let ?s = "fst (execute_with clk now now' rid i (Done res) s)"
  let ?j = "(count_attempt j)\<lparr>jb_last_run := now', jb_next_run := now' + jb_interval j\<rparr>"
  have "js_get (sc_store ?s) i = Some ?j" using execute_with_get(1) [OF Cons.prems] .
  moreover have "jb_id ?j = i" "repeating ?j"
    using Cons.prems(2,3) by (simp_all add: count_attempt_def repeating_def)
  ultimately have "\<exists>j'. js_get (sc_store (successes clk i runs ?s)) i = Some j' \<and> jb_id j' = i \<and> repeating j'
    \<and> attempts_of j' = attempts_of ?j + int (length runs) \<and> jb_interval j' = jb_interval ?j
    \<and> dict_get_or (jb_metadata j') ''retries'' 0 = dict_get_or (jb_metadata ?j) ''retries'' 0"
    by (rule Cons.IH)
  moreover have "jb_interval ?j = jb_interval j"
    "dict_get_or (jb_metadata ?j) ''retries'' 0 = dict_get_or (jb_metadata j) ''retries'' 0"
    by (simp_all add: count_attempt_def)
  ultimately show ?case by (simp add: r add.assoc add.commute [of 1])
qed simp

text \<open>
  The retry budget of a repeating job is spent by its successes: every execution counts as
  an attempt and nothing resets the count, so after n successful runs a failing run is retried
  only if the attempts so far, n and the failing run together are within the job's retries;
  otherwise the job is given no next run and no tick starts it again.
\<close>

theorem retry_budget_spent_by_successes:
  assumes "js_get (sc_store s) i = Some j" "jb_id j = i" "repeating j"
  shows "let s' = fst (execute_with clk now now' rid i (Raises err) (successes clk i runs s));
             allowed = dict_get_or (jb_metadata j) ''retries'' 0
         in (\<exists>j'. js_get (sc_store s') i = Some j' \<and> jb_owner j' = None
              \<and> jb_next_run j' = (if attempts_of j + int (length runs) + 1 \<le> allowed
                                   then now' + jb_interval j else 0))"
proof -
  obtain j1 where j1: "js_get (sc_store (successes clk i runs s)) i = Some j1" "jb_id j1 = i" "repeating j1"
    "attempts_of j1 = attempts_of j + int (length runs)" "jb_interval j1 = jb_interval j"
    "dict_get_or (jb_metadata j1) ''retries'' 0 = dict_get_or (jb_metadata j) ''retries'' 0"
    using successes_get [OF assms] by blast
  show ?thesis using execute_with_get(2) [OF j1(1-3)] j1(4-6) by (simp add: Let_def)
qed

theorem retry_budget_spent_by_successes_witness:
  "let j = (new_job 90 ''sync'' RECURRING ''j1'')\<lparr>jb_metadata := [(''retries'', 1)], jb_next_run := 100\<rparr>;
       s = new_scheduler (js_add j empty_jobs) [];
       clk = \<lparr>ck_datetime = \<lambda>t. of_index 0, ck_timestamp = \<lambda>d. 0\<rparr>;
       s' = fst (execute_with clk 160 161 ''r2'' ''j1'' (Raises ''boom'')
              (successes clk ''j1'' [(100, 101, ''r1'', None)] s))
   in map_option jb_next_run (js_get (sc_store s') ''j1'') = Some 0"
proof -
  let ?j = "(new_job 90 ''sync'' RECURRING ''j1'')\<lparr>jb_metadata := [(''retries'', 1)], jb_next_run := 100\<rparr>"
  let ?s = "new_scheduler (js_add ?j empty_jobs) []"
  have j: "js_get (sc_store ?s) ''j1'' = Some ?j" "jb_id ?j = ''j1''" "repeating ?j"
    by (simp_all add: new_scheduler_def job_table.lookup_store new_job_def repeating_def)
  show ?thesis
    using retry_budget_spent_by_successes [OF j, of "\<lparr>ck_datetime = \<lambda>t. of_index 0, ck_timestamp = \<lambda>d. 0\<rparr>"
        160 161 "''r2''" "''boom''" "[(100, 101, ''r1'', None)]"]
    by (auto simp: Let_def dict_get_or_def attempts_of_def new_job_def)
qed


section \<open>Interleavings of ticks and executions\<close>

text \<open>
  The steps of a scheduler between two suspensions of its tasks. An execution that has begun may
  end at any later time, after other steps; the job object it holds is the one it began with.
\<close>

inductive sched_step :: "clock \<Rightarrow> scheduler \<Rightarrow> scheduler \<Rightarrow> bool" for clk where
  step_tick: "sched_step clk s (fst (tick leading now s))"
| step_add: "sched_step clk s (fst (add_job clk now spec s))"
| step_remove: "sched_step clk s (fst (remove_job i s))"
| step_handler: "sched_step clk s (register_handler nm h s)"
| step_begin: "execute_start now rid i s = Inr (s', run) \<Longrightarrow> sched_step clk s s'"
| step_end: "sched_step clk s (fst (execute_end clk now j run out s))"

inductive_cases sched_stepE: "sched_step clk s s'"

inductive sched_reachable :: "clock \<Rightarrow> scheduler \<Rightarrow> bool" for clk where
  reach_new: "sched_reachable clk (new_scheduler empty_jobs hs)"
| reach_step: "sched_reachable clk s \<Longrightarrow> sched_step clk s s' \<Longrightarrow> sched_reachable clk s'"

definition sched_inv :: "scheduler \<Rightarrow> bool" where
  "sched_inv s \<longleftrightarrow> jobs_ok (sc_store s) \<and> length (sc_tasks s) = sc_executed s"

lemma jobs_ok_add_run [simp]: "jobs_ok (js_add_run r st) = jobs_ok st"
  by (simp add: jobs_ok_def js_add_run_def)

lemma sched_inv_tick: "sched_inv s \<Longrightarrow> sched_inv (fst (tick leading now s))"
  using tick_exact(2,4) [of s leading now] jobs_ok_tick [of s leading now] by (simp add: sched_inv_def)

lemma sched_inv_add: "sched_inv s \<Longrightarrow> sched_inv (fst (add_job clk now spec s))"
  by (auto simp: sched_inv_def add_job_def Let_def split: sum.splits)

lemma sched_inv_handler: "sched_inv s \<Longrightarrow> sched_inv (register_handler nm h s)"
  by (simp add: sched_inv_def register_handler_def)

lemma sched_inv_remove: "sched_inv s \<Longrightarrow> sched_inv (fst (remove_job i s))"
  using jobs_ok_remove [of "sc_store s" i] by (simp add: sched_inv_def remove_job_def case_prod_beta)

lemma sched_inv_update: "sched_inv s \<Longrightarrow> sched_inv (fst (update_job i cs s))"
  using jobs_ok_update [of "sc_store s" i cs] by (simp add: sched_inv_def update_job_def case_prod_beta)

lemma sched_inv_save_run [simp]: "sched_inv (save_run r s) = sched_inv s"
  by (simp add: sched_inv_def save_run_def)

lemma sched_inv_update': "update_job i cs s = (s', r) \<Longrightarrow> sched_inv s \<Longrightarrow> sched_inv s'"
  using sched_inv_update [of s i cs] by simp

lemma sched_inv_start: "sched_inv s \<Longrightarrow> execute_start now rid i s = Inr (s', run) \<Longrightarrow> sched_inv s'"
  by (auto simp: sched_inv_def execute_start_def Let_def split: option.splits)

lemma sched_inv_fail: "sched_inv s \<Longrightarrow> sched_inv (fst (fail_job clk now j run err s))"
  by (auto simp: fail_job_def Let_def dest: sched_inv_update' split: prod.splits sum.splits)

lemma sched_inv_success: "sched_inv s \<Longrightarrow> sched_inv (fst (finish_success clk now j s))"
  by (auto simp: finish_success_def dest: sched_inv_update' intro: sched_inv_remove sched_inv_update
      split: prod.splits sum.splits)

lemma sched_inv_end: "sched_inv s \<Longrightarrow> sched_inv (fst (execute_end clk now j run out s))"
proof (cases out)
  case (Done r)
  assume "sched_inv s"
  then have "sched_inv (save_run q s)" for q by simp
  from sched_inv_success [OF this] show ?thesis
    by (auto simp: execute_end_def Done Let_def split: prod.splits sum.splits)
      (metis fst_conv)+
qed (auto simp: execute_end_def Let_def sched_inv_fail dest: sched_inv_update' split: prod.splits sum.splits)

text \<open>
  However ticks, executions and job management interleave, the job table stays well formed and
  the tasks ever created are exactly the executions counted: no task is ever taken out of the
  scheduler's task set again.
\<close>

lemma sched_reachable_inv: "sched_reachable clk s \<Longrightarrow> sched_inv s"
proof (induction rule: sched_reachable.induct)
  case (reach_new hs)
  then show ?case by (simp add: sched_inv_def new_scheduler_def)
next
  case (reach_step s s')
  from reach_step(2,3) show ?case
    by (elim sched_stepE)
      (auto intro: sched_inv_tick sched_inv_add sched_inv_remove sched_inv_handler sched_inv_start
        sched_inv_end)
qed

end
