(* ===== verification/Dag.thy ===== *)
theory Dag
  imports Prelude "HOL-Library.Monad_Syntax"
begin

text \<open>
  Workflow graphs (\<open>WorkflowDAG\<close> of \<open>app/orchestration/dag.py\<close>): validation with the coloured
  depth-first search for cycles, and the sort into levels. The search is defined by nested
  recursion over the colours, with its termination proved from the number of white nodes; the
  loop that reads the cycle back from the parents may in principle run for ever and is an
  option-valued partial function. Python's limit on the depth of recursion is not modelled.
\<close>

section \<open>Steps\<close>

datatype node_type =
  TASK | IF | ELSE | FOR | PARALLEL | WAIT | RETRY | TIMEOUT | MERGE | CONDITIONAL | START | END

datatype workflow_step =
  Step (ws_id: string) (ws_type: node_type) (ws_agent: string) (ws_prompt: string)
    (ws_tools: "string list") (ws_condition: string) (ws_variable: string) (ws_collection: string)
    (ws_steps: "workflow_step list") (ws_retry_count: int) (ws_timeout: pyfloat)
    (ws_merge_strategy: string) (ws_depends_on: "string list") (ws_parallel_branch: string)

datatype dag_error = Unknown_dependency string string | CycleError "string list" | KeyError string

section \<open>Cycle detection\<close>

datatype colour = WHITE | GRAY | BLACK

type_synonym graph = "(string, string list) dict"
type_synonym colours = "(string, colour) dict"
type_synonym parents = "(string, string) dict"

definition start_name :: string where "start_name = ''START''"

definition dep_graph :: "workflow_step list \<Rightarrow> graph" where
  "dep_graph steps = fold (\<lambda>s. dict_set (ws_id s) (ws_depends_on s)) steps []"

definition all_white :: "workflow_step list \<Rightarrow> colours" where
  "all_white steps = fold (\<lambda>s. dict_set (ws_id s) WHITE) steps []"

text \<open>\<open>while cur != dep: cur = parent.get(cur, dep); cycle.append(cur)\<close>\<close>

partial_function (option) walk_parents :: "parents \<Rightarrow> string \<Rightarrow> string \<Rightarrow> string list option" where
  "walk_parents p cur d =
     (if cur = d then Some []
      else let cur' = dict_get_or p cur d
           in Option.bind (walk_parents p cur' d) (\<lambda>rest. Some (cur' # rest)))"

declare walk_parents.simps [code]

definition read_cycle :: "parents \<Rightarrow> string \<Rightarrow> string \<Rightarrow> string list option" where
  "read_cycle p node d =
     (case walk_parents p node d of None \<Rightarrow> None | Some rest \<Rightarrow> Some ([d, node] @ rest))"

text \<open>
  The search below a node over its remaining dependencies: \<open>Inl\<close> the cycle to be read back
  (the closing edge and the parents), or \<open>Inr\<close> the colours and parents after it.
\<close>

definition whites :: "colours \<Rightarrow> nat" where
  "whites c = length (filter (\<lambda>(k, x). x = WHITE) c)"

lemma whites_set: "dict_get c k = Some WHITE \<Longrightarrow> x \<noteq> WHITE \<Longrightarrow> whites (dict_set k x c) < whites c"
  by (induction c) (auto simp: whites_def split: if_splits)

lemma whites_set_le: "x \<noteq> WHITE \<Longrightarrow> whites (dict_set k x c) \<le> whites c"
  by (induction c) (auto simp: whites_def le_SucI)

function dfs_deps ::
  "graph \<Rightarrow> string \<Rightarrow> string list \<Rightarrow> colours \<Rightarrow> parents \<Rightarrow> (string \<times> string \<times> parents) + colours \<times> parents"
where
  "dfs_deps g node [] c p = Inr (dict_set node BLACK c, p)"
| "dfs_deps g node (d # ds) c p =
     (if d = start_name then dfs_deps g node ds c p
      else if dict_get c d = Some GRAY then Inl (node, d, p)
      else if dict_get c d = Some WHITE then
        (case dfs_deps g d (dict_get_or g d []) (dict_set d GRAY c) (dict_set d node p) of
           Inl r \<Rightarrow> Inl r
         | Inr (c', p') \<Rightarrow> dfs_deps g node ds c' p')
      else dfs_deps g node ds c p)"
  by pat_completeness auto

lemma dfs_deps_whites:
  "dfs_deps_dom (g, node, ds, c, p) \<Longrightarrow> dfs_deps g node ds c p = Inr (c', p') \<Longrightarrow> whites c' \<le> whites c"
proof (induction g node ds c p arbitrary: c' p' rule: dfs_deps.pinduct)
  case (1 g node c p)
  then show ?case by (auto simp: dfs_deps.psimps whites_set_le)
next
  case (2 g node d ds c p)
  note eq = dfs_deps.psimps(2) [OF "2.hyps"]
  show ?case
  proof (cases "d \<noteq> start_name \<and> dict_get c d \<noteq> Some GRAY \<and> dict_get c d = Some WHITE")
    case True
    with eq "2.prems" obtain c1 p1 where
      sub: "dfs_deps g d (dict_get_or g d []) (dict_set d GRAY c) (dict_set d node p) = Inr (c1, p1)"
      and rest: "dfs_deps g node ds c1 p1 = Inr (c', p')"
      by (auto split: sum.splits prod.splits)
    have "whites c1 \<le> whites (dict_set d GRAY c)" using "2.IH"(2) [OF _ _ _ sub] True by auto
    moreover have "whites (dict_set d GRAY c) \<le> whites c" by (simp add: whites_set_le)
    moreover have "whites c' \<le> whites c1" using "2.IH"(3) [OF _ _ _ sub refl rest] True by auto
    ultimately show ?thesis by simp
  qed (use "2.IH" "2.prems" eq in \<open>auto split: if_splits\<close>)
qed

termination dfs_deps
proof (relation "(\<lambda>(g, node, ds, c, p). whites c) <*mlex*> measure (\<lambda>(g, node, ds, c, p). length ds)")
  show "wf ((\<lambda>(g, node, ds, c, p). whites c) <*mlex*> measure (\<lambda>(g, node, ds, c, p). length ds))"
    by (intro wf_mlex) simp
next
  fix g :: graph and node d :: string and ds c p x and c' :: colours and p' :: parents
  assume "dict_get c d = Some WHITE"
    and sub: "dfs_deps g d (dict_get_or g d []) (dict_set d GRAY c) (dict_set d node p) = Inr x"
    and "(c', p') = x"
    and dom: "dfs_deps_dom (g, d, dict_get_or g d [], dict_set d GRAY c, dict_set d node p)"
  then have "whites c' \<le> whites (dict_set d GRAY c)" by (auto intro: dfs_deps_whites)
  also have "\<dots> < whites c" by (rule whites_set) (use \<open>dict_get c d = Some WHITE\<close> in auto)
  finally show "((g, node, ds, c', p'), g, node, d # ds, c, p)
      \<in> (\<lambda>(g, node, ds, c, p). whites c) <*mlex*> measure (\<lambda>(g, node, ds, c, p). length ds)"
    by (intro mlex_less) simp
qed (auto intro: mlex_less mlex_leq whites_set)

fun search_cycle :: "graph \<Rightarrow> string list \<Rightarrow> colours \<Rightarrow> parents \<Rightarrow> (string \<times> string \<times> parents) option" where
  "search_cycle g [] c p = None"
| "search_cycle g (i # is) c p =
     (if dict_get c i = Some WHITE then
        (case dfs_deps g i (dict_get_or g i []) (dict_set i GRAY c) p of
           Inl r \<Rightarrow> Some r
         | Inr (c', p') \<Rightarrow> search_cycle g is c' p')
      else search_cycle g is c p)"

text \<open>\<open>None\<close>: the loop over the parents does not end. \<open>Some []\<close>: no cycle.\<close>

definition detect_cycle :: "workflow_step list \<Rightarrow> string list option" where
  "detect_cycle steps =
     (case search_cycle (dep_graph steps) (map ws_id steps) (all_white steps) [] of
        None \<Rightarrow> Some []
      | Some (node, d, p) \<Rightarrow> read_cycle p node d)"

fun unknown_dep :: "string list \<Rightarrow> workflow_step list \<Rightarrow> (string \<times> string) option" where
  "unknown_dep ids [] = None"
| "unknown_dep ids (s # ss) =
     (case List.find (\<lambda>d. d \<notin> set ids \<and> d \<noteq> start_name) (ws_depends_on s) of
        Some d \<Rightarrow> Some (ws_id s, d)
      | None \<Rightarrow> unknown_dep ids ss)"

definition validate_dag :: "workflow_step list \<Rightarrow> (dag_error + unit) option" where
  "validate_dag steps =
     (case unknown_dep (map ws_id steps) steps of
        Some (i, d) \<Rightarrow> Some (Inl (Unknown_dependency i d))
      | None \<Rightarrow>
          (case detect_cycle steps of
             None \<Rightarrow> None
           | Some [] \<Rightarrow> Some (Inr ())
           | Some cyc \<Rightarrow> Some (Inl (CycleError cyc))))"

section \<open>Levels\<close>

record kahn =
  kq_queue :: "string list"
  kq_visited :: "string list"
  kq_degree :: "(string, int) dict"

definition count_edges :: "workflow_step list \<Rightarrow> (string, string list) dict \<times> (string, int) dict" where
  "count_edges steps =
     fold (\<lambda>s (succ, deg).
             fold (\<lambda>d (succ, deg).
                     if d = start_name then (succ, deg)
                     else (dict_set d (dict_get_or succ d [] @ [ws_id s]) succ,
                           dict_set (ws_id s) (dict_get_or deg (ws_id s) 0 + 1) deg))
               (ws_depends_on s)
               (succ, if dict_has deg (ws_id s) then deg else dict_set (ws_id s) 0 deg))
       steps ([], [])"

definition step_map :: "workflow_step list \<Rightarrow> (string, workflow_step) dict" where
  "step_map steps = fold (\<lambda>s. dict_set (ws_id s) s) steps []"

text \<open>\<open>in_degree[neighbor] -= 1\<close>, appending the neighbour at zero; a missing key would raise.\<close>

fun relax :: "string list \<Rightarrow> string list \<times> (string, int) dict \<Rightarrow> dag_error + string list \<times> (string, int) dict"
where
  "relax [] qd = Inr qd"
| "relax (n # ns) (q, deg) =
     (case dict_get deg n of
        None \<Rightarrow> Inl (KeyError n)
      | Some k \<Rightarrow> relax ns (if k - 1 = 0 then q @ [n] else q, dict_set n (k - 1) deg))"

text \<open>One pass of the inner loop: the nodes that are in the queue when the level begins.\<close>

fun take_level ::
  "(string, string list) dict \<Rightarrow> (string, workflow_step) dict \<Rightarrow> nat \<Rightarrow> kahn \<Rightarrow> workflow_step list \<Rightarrow>
   dag_error + kahn \<times> workflow_step list" where
  "take_level succ sm 0 k level = Inr (k, level)"
| "take_level succ sm (Suc n) k level =
     (case kq_queue k of
        [] \<Rightarrow> Inr (k, level)
      | i # q \<Rightarrow>
          if i \<in> set (kq_visited k) then take_level succ sm n (k\<lparr>kq_queue := q\<rparr>) level
          else
            (case dict_get sm i of
               None \<Rightarrow> Inl (KeyError i)
             | Some s \<Rightarrow>
                 (case relax (dict_get_or succ i []) (q, kq_degree k) of
                    Inl e \<Rightarrow> Inl e
                  | Inr (q', deg') \<Rightarrow>
                      take_level succ sm n
                        \<lparr>kq_queue = q', kq_visited = i # kq_visited k, kq_degree = deg'\<rparr>
                        (level @ [s]))))"

definition unvisited :: "(string, workflow_step) dict \<Rightarrow> kahn \<Rightarrow> nat" where
  "unvisited sm k = length (filter (\<lambda>(i, s). i \<notin> set (kq_visited k)) sm)"

lemma take_level_progress:
  "take_level succ sm n k lv = Inr (k', lv') \<Longrightarrow>
     unvisited sm k' < unvisited sm k \<or>
     kq_visited k' = kq_visited k \<and> kq_queue k' = drop n (kq_queue k)"
proof (induction succ sm n k lv arbitrary: k' lv' rule: take_level.induct)
  case (2 succ sm n k level)
  show ?case
  proof (cases "kq_queue k")
    case (Cons i q)
    show ?thesis
    proof (cases "i \<in> set (kq_visited k)")
      case True
      with Cons "2.prems" have "take_level succ sm n (k\<lparr>kq_queue := q\<rparr>) level = Inr (k', lv')" by simp
      from "2.IH"(1) [OF Cons True this] Cons show ?thesis by (simp add: unvisited_def)
    next
      case False
      with Cons "2.prems" obtain s q' deg' where s: "dict_get sm i = Some s"
        and rx: "relax (dict_get_or succ i []) (q, kq_degree k) = Inr (q', deg')"
        and rest: "take_level succ sm n
          \<lparr>kq_queue = q', kq_visited = i # kq_visited k, kq_degree = deg'\<rparr> (level @ [s]) = Inr (k', lv')"
        by (auto split: option.splits sum.splits prod.splits)
      let ?k = "\<lparr>kq_queue = q', kq_visited = i # kq_visited k, kq_degree = deg'\<rparr>"
      have "(i, s) \<in> set sm" using s by (rule map_of_SomeD)
      then have "unvisited sm ?k < unvisited sm k"
        using False unfolding unvisited_def by (induction sm) (auto intro!: le_imp_less_Suc length_filter_mono)
      moreover have "unvisited sm k' \<le> unvisited sm ?k"
        using "2.IH"(2) [OF Cons False s rx refl rest] by (auto simp: unvisited_def)
      ultimately show ?thesis by simp
    qed
  qed (use "2.prems" in simp)
qed simp

function kahn_levels ::
  "(string, string list) dict \<Rightarrow> (string, workflow_step) dict \<Rightarrow> kahn \<Rightarrow> workflow_step list list \<Rightarrow>
   dag_error + kahn \<times> workflow_step list list" where
  "kahn_levels succ sm k acc =
     (if kq_queue k = [] then Inr (k, acc)
      else
        (case take_level succ sm (length (kq_queue k)) k [] of
           Inl e \<Rightarrow> Inl e
         | Inr (k', level) \<Rightarrow> kahn_levels succ sm k' (if level = [] then acc else acc @ [level])))"
  by pat_completeness auto

termination kahn_levels
proof (relation "(\<lambda>(succ, sm, k, acc). unvisited sm k) <*mlex*>
    measure (\<lambda>(succ, sm, k, acc). length (kq_queue k))")
  fix succ :: "(string, string list) dict" and sm k acc x k' level
  assume ne: "kq_queue k \<noteq> []"
    and "take_level succ sm (length (kq_queue k)) k [] = Inr x" "(k', level) = x"
  then have "unvisited sm k' < unvisited sm k \<or>
      kq_visited k' = kq_visited k \<and> kq_queue k' = drop (length (kq_queue k)) (kq_queue k)"
    using take_level_progress by metis
  then show "((succ, sm, k', if level = [] then acc else acc @ [level]), succ, sm, k, acc)
      \<in> (\<lambda>(succ, sm, k, acc). unvisited sm k) <*mlex*> measure (\<lambda>(succ, sm, k, acc). length (kq_queue k))"
    using ne by (auto intro: mlex_less mlex_leq simp: unvisited_def)
qed (auto intro!: wf_mlex)

declare kahn_levels.simps [simp del]

definition topological_sort :: "workflow_step list \<Rightarrow> dag_error + workflow_step list list" where
  "topological_sort steps =
     (let (succ, deg) = count_edges steps; sm = step_map steps;
          queue = filter (\<lambda>i. dict_get_or deg i 0 = 0) (map ws_id steps)
      in bind_result
           (kahn_levels succ sm \<lparr>kq_queue = queue, kq_visited = [], kq_degree = deg\<rparr> []) (\<lambda>(k, levels).
             let rest = filter (\<lambda>i. i \<notin> set (kq_visited k)) (map ws_id steps)
             in Inr (if rest = [] then levels
                     else levels @ [map (\<lambda>i. the (dict_get sm i)) rest])))"

definition get_levels :: "workflow_step list \<Rightarrow> dag_error + string list list" where
  "get_levels steps = bind_result (topological_sort steps) (\<lambda>ls. Inr (map (map ws_id) ls))"

section \<open>The search finds a cycle exactly if there is one\<close>

text \<open>The dependency edges between the known nodes \<open>K\<close>, from a step to what it needs.\<close>

definition edges :: "graph \<Rightarrow> string set \<Rightarrow> (string \<times> string) set" where
  "edges g K = {(n, d). d \<in> set (dict_get_or g n []) \<and> d \<noteq> start_name \<and> d \<in> K}"

definition with_colour :: "colours \<Rightarrow> colour \<Rightarrow> string set" where
  "with_colour c x = {k. dict_get c k = Some x}"

definition known :: "colours \<Rightarrow> string set" where
  "known c = {k. dict_get c k \<noteq> None}"

definition black_ok :: "graph \<Rightarrow> string set \<Rightarrow> string set \<Rightarrow> bool" where
  "black_ok g K B \<longleftrightarrow>
     (\<forall>n d. n \<in> B \<and> (n, d) \<in> edges g K \<longrightarrow> d \<in> B) \<and> acyclic {(n, d) \<in> edges g K. n \<in> B}"

lemma with_colour_set [simp]:
  "with_colour (dict_set k x c) y = (if x = y then insert k (with_colour c y) else with_colour c y - {k})"
  by (auto simp: with_colour_def)

lemma known_set [simp]: "k \<in> known c \<Longrightarrow> known (dict_set k x c) = known c"
  by (auto simp: known_def)

lemma with_colour_known: "k \<in> with_colour c x \<Longrightarrow> k \<in> known c"
  by (simp add: with_colour_def known_def)

lemma trancl_from_closed:
  assumes "(a, b) \<in> R\<^sup>+" "a \<in> B" "\<And>x y. x \<in> B \<Longrightarrow> (x, y) \<in> R \<Longrightarrow> y \<in> B"
  shows "b \<in> B \<and> (a, b) \<in> {(x, y) \<in> R. x \<in> B}\<^sup>+"
  using assms(1,2)
proof (induction rule: trancl_induct)
  case (base y)
  then show ?case using assms(3) by auto
next
  case (step y z)
  then have "y \<in> B" "(a, y) \<in> {(x, y) \<in> R. x \<in> B}\<^sup>+" by auto
  with step(2) assms(3) show ?case by (auto intro: trancl_into_trancl)
qed

lemma black_ok_insert:
  assumes ok: "black_ok g K B" and deps: "\<And>d. (n, d) \<in> edges g K \<Longrightarrow> d \<in> B" and "n \<notin> B"
  shows "black_ok g K (insert n B)"
proof -
  let ?R = "{(m, d) \<in> edges g K. m \<in> insert n B}" and ?S = "{(m, d) \<in> edges g K. m \<in> B}"
  have closed: "y \<in> B" if "x \<in> B" "(x, y) \<in> ?R" for x y
    using that ok by (auto simp: black_ok_def)
  have sub: "{(x, y) \<in> ?R. x \<in> B} = ?S" by auto
  have "acyclic ?R"
  proof (rule acyclicI, intro allI notI)
    fix x assume loop: "(x, x) \<in> ?R\<^sup>+"
    from tranclD [OF this] obtain y where y: "(x, y) \<in> ?R" "(y, x) \<in> ?R\<^sup>*" by blast
    then have "y \<in> B" using deps ok by (auto simp: black_ok_def)
    with y(2) have "x \<in> B"
      by (induction rule: converse_rtrancl_induct) (use closed in blast)+
    from trancl_from_closed [OF loop this closed] sub have "(x, x) \<in> ?S\<^sup>+" by simp
    with ok show False by (auto simp: black_ok_def acyclic_def)
  qed
  with ok deps show ?thesis by (auto simp: black_ok_def)
qed

lemma dfs_deps_Inr:
  assumes "dfs_deps g node ds c p = Inr (c', p')"
    and "node \<in> with_colour c GRAY" "black_ok g (known c) (with_colour c BLACK)"
    and "\<And>d. (node, d) \<in> edges g (known c) \<Longrightarrow> d \<in> with_colour c BLACK \<or> d \<in> set ds"
  shows "black_ok g (known c) (with_colour c' BLACK) \<and> known c' = known c
    \<and> insert node (with_colour c BLACK) \<subseteq> with_colour c' BLACK
    \<and> with_colour c' GRAY = with_colour c GRAY - {node}
    \<and> (\<forall>x. x \<notin> with_colour c WHITE \<longrightarrow> dict_get p' x = dict_get p x)
    \<and> with_colour c' WHITE \<subseteq> with_colour c WHITE"
  using assms
proof (induction g node ds c p arbitrary: c' p' rule: dfs_deps.induct)
  case (1 g node c p)
  have "black_ok g (known c) (insert node (with_colour c BLACK))"
    using "1.prems" by (intro black_ok_insert) (auto simp: with_colour_def)
  with 1 show ?case using with_colour_known [OF "1.prems"(2)] by auto
next
  case (2 g node d ds c p)
  show ?case
  proof (cases "d \<noteq> start_name \<and> dict_get c d \<noteq> Some GRAY \<and> dict_get c d = Some WHITE")
    case False
    have "dict_get c d \<noteq> Some GRAY \<or> d = start_name" using "2.prems"(1) by (auto split: if_splits)
    with False have rest: "dfs_deps g node ds c p = Inr (c', p')"
      using "2.prems"(1) by (auto split: if_splits)
    have "d \<in> with_colour c BLACK" if "(node, d) \<in> edges g (known c)"
    proof -
      from that have "dict_get c d \<noteq> None" "d \<noteq> start_name" by (auto simp: edges_def known_def)
      with False \<open>dict_get c d \<noteq> Some GRAY \<or> d = start_name\<close> show ?thesis
        by (cases "the (dict_get c d)") (auto simp: with_colour_def)
    qed
    then have pre: "e \<in> with_colour c BLACK \<or> e \<in> set ds" if "(node, e) \<in> edges g (known c)" for e
      using "2.prems"(4) [OF that] that by auto
    show ?thesis
    proof (cases "d = start_name")
      case True
      from "2.IH"(1) [OF True rest "2.prems"(2,3) pre] show ?thesis .
    next
      case ns: False
      with False \<open>dict_get c d \<noteq> Some GRAY \<or> d = start_name\<close> show ?thesis
        using "2.IH"(4) [OF ns _ _ rest "2.prems"(2,3) pre] by blast
    qed
  next
    case True
    let ?c1 = "dict_set d GRAY c" and ?p1 = "dict_set d node p"
    from True "2.prems"(1) obtain c2 p2 where
      sub: "dfs_deps g d (dict_get_or g d []) ?c1 ?p1 = Inr (c2, p2)"
      and rest: "dfs_deps g node ds c2 p2 = Inr (c', p')"
      by (auto split: sum.splits prod.splits)
    have dk: "d \<in> known c" using True by (auto simp: known_def)
    have nd: "d \<noteq> node" using True "2.prems"(2) by (auto simp: with_colour_def)
    have b1: "with_colour ?c1 BLACK = with_colour c BLACK" using True by (auto simp: with_colour_def)
    have g1: "with_colour ?c1 GRAY = insert d (with_colour c GRAY)" by simp
    have dg: "d \<notin> with_colour c GRAY" using True by (auto simp: with_colour_def)
    have S: "black_ok g (known c) (with_colour c2 BLACK)" "known c2 = known c"
      "insert d (with_colour c BLACK) \<subseteq> with_colour c2 BLACK"
      "with_colour c2 GRAY = with_colour c GRAY"
      "\<And>x. x \<notin> with_colour ?c1 WHITE \<Longrightarrow> dict_get p2 x = dict_get ?p1 x"
      "with_colour c2 WHITE \<subseteq> with_colour c WHITE"
      using "2.IH"(2) [OF _ _ _ sub] True "2.prems"(3) dk b1 dg by (auto simp: edges_def)
    have pre: "e \<in> with_colour c2 BLACK \<or> e \<in> set ds" if "(node, e) \<in> edges g (known c2)" for e
      using "2.prems"(4) [of e] that S(2,3) by auto
    have R: "black_ok g (known c2) (with_colour c' BLACK) \<and> known c' = known c2
      \<and> insert node (with_colour c2 BLACK) \<subseteq> with_colour c' BLACK
      \<and> with_colour c' GRAY = with_colour c2 GRAY - {node}
      \<and> (\<forall>x. x \<notin> with_colour c2 WHITE \<longrightarrow> dict_get p' x = dict_get p2 x)
      \<and> with_colour c' WHITE \<subseteq> with_colour c2 WHITE"
      using "2.IH"(3) [OF _ _ _ sub refl rest _ _ pre] True "2.prems"(2) S(1,2,4) by auto
    have "dict_get p' x = dict_get p x" if "x \<notin> with_colour c WHITE" for x
    proof -
      have "x \<notin> with_colour c2 WHITE" "x \<notin> with_colour ?c1 WHITE" "x \<noteq> d"
        using that S(6) True by (auto simp: with_colour_def)
      with R S(5) [of x] show ?thesis by simp
    qed
    with R S show ?thesis by auto
  qed
qed


text \<open>The nodes under search, innermost first: each was reached from the next one.\<close>

definition on_stack :: "graph \<Rightarrow> string set \<Rightarrow> parents \<Rightarrow> string list \<Rightarrow> bool" where
  "on_stack g K p st \<longleftrightarrow> successively (\<lambda>x y. dict_get p x = Some y \<and> (y, x) \<in> edges g K) st"

definition is_cycle :: "(string \<times> string) set \<Rightarrow> string list \<Rightarrow> bool" where
  "is_cycle E cyc \<longleftrightarrow>
     2 \<le> length cyc \<and> hd cyc = last cyc \<and> successively (\<lambda>x y. (y, x) \<in> E) cyc"

lemma on_stack_cong:
  assumes "on_stack g K p st" "\<And>x. x \<in> set st \<Longrightarrow> dict_get p' x = dict_get p x"
  shows "on_stack g K p' st"
  using assms unfolding on_stack_def
  by (induction st rule: induct_list012) auto

lemma dfs_deps_Inl:
  assumes "dfs_deps g node ds c p = Inl (n, d, p')"
    and "black_ok g (known c) (with_colour c BLACK)"
    and "\<And>e. (node, e) \<in> edges g (known c) \<Longrightarrow> e \<in> with_colour c BLACK \<or> e \<in> set ds"
    and "set ds \<subseteq> set (dict_get_or g node [])"
    and "on_stack g (known c) p (node # st)" "set (node # st) = with_colour c GRAY"
  shows "\<exists>st'. on_stack g (known c) p' (n # st') \<and> d \<in> set (n # st') \<and> (n, d) \<in> edges g (known c)"
  using assms
proof (induction g node ds c p arbitrary: st rule: dfs_deps.induct)
  case (2 g node e ds c p)
  have gray: "node \<in> with_colour c GRAY" using "2.prems"(6) by auto
  show ?case
  proof (cases "e \<noteq> start_name \<and> dict_get c e \<noteq> Some GRAY \<and> dict_get c e = Some WHITE")
    case True
    let ?c1 = "dict_set e GRAY c" and ?p1 = "dict_set e node p"
    have ek: "e \<in> known c" using True by (auto simp: known_def)
    have b1: "with_colour ?c1 BLACK = with_colour c BLACK" using True by (auto simp: with_colour_def)
    have eg: "e \<notin> with_colour c GRAY" using True by (auto simp: with_colour_def)
    have edge: "(node, e) \<in> edges g (known c)"
      using True "2.prems"(4) ek by (auto simp: edges_def)
    have st1: "on_stack g (known c) ?p1 (node # st)"
      by (rule on_stack_cong [OF "2.prems"(5)]) (use eg "2.prems"(6) in \<open>metis dict_get_set\<close>)
    then have st2: "on_stack g (known ?c1) ?p1 (e # node # st)"
      using edge ek by (simp add: on_stack_def)
    show ?thesis
    proof (cases "dfs_deps g e (dict_get_or g e []) ?c1 ?p1")
      case (Inl r)
      with True "2.prems"(1) have "r = (n, d, p')" by auto
      with Inl have sub: "dfs_deps g e (dict_get_or g e []) ?c1 ?p1 = Inl (n, d, p')" by simp
      show ?thesis
        using "2.IH"(2) [OF _ _ _ sub _ _ _ st2] True "2.prems"(2,6) ek b1 by (auto simp: edges_def)
    next
      case (Inr x)
      obtain c2 p2 where x: "x = (c2, p2)" by (cases x)
      with Inr have sub: "dfs_deps g e (dict_get_or g e []) ?c1 ?p1 = Inr (c2, p2)" by simp
      from True "2.prems"(1) sub have rest: "dfs_deps g node ds c2 p2 = Inl (n, d, p')" by auto
      have S: "black_ok g (known c) (with_colour c2 BLACK)" "known c2 = known c"
        "insert e (with_colour c BLACK) \<subseteq> with_colour c2 BLACK"
        "with_colour c2 GRAY = with_colour c GRAY"
        "\<And>x. x \<notin> with_colour ?c1 WHITE \<Longrightarrow> dict_get p2 x = dict_get ?p1 x"
        using dfs_deps_Inr [OF sub] "2.prems"(2) ek b1 eg by (auto simp: edges_def)
      have pre: "a \<in> with_colour c2 BLACK \<or> a \<in> set ds" if "(node, a) \<in> edges g (known c2)" for a
        using "2.prems"(3) [of a] that S(2,3) by auto
      have st3: "on_stack g (known c2) p2 (node # st)"
      proof (rule on_stack_cong [where p = ?p1])
        show "on_stack g (known c2) ?p1 (node # st)" using st1 S(2) by simp
        show "dict_get p2 x = dict_get ?p1 x" if "x \<in> set (node # st)" for x
        proof -
          have "x \<in> with_colour c GRAY" using that "2.prems"(6) by blast
          then have "x \<notin> with_colour ?c1 WHITE" by (auto simp: with_colour_def)
          then show ?thesis by (rule S(5))
        qed
      qed
      show ?thesis
        using "2.IH"(3) [OF _ _ _ sub refl rest _ pre _ st3] True "2.prems"(4,6) S(1,2,4) by auto
    qed
  next
    case False
    show ?thesis
    proof (cases "e \<noteq> start_name \<and> dict_get c e = Some GRAY")
      case True
      with "2.prems"(1) have eq: "n = node" "d = e" "p' = p" by auto
      have "e \<in> known c" using True by (auto simp: known_def)
      then have "(n, d) \<in> edges g (known c)" using True eq "2.prems"(4) by (auto simp: edges_def)
      moreover have "d \<in> set (node # st)" using True eq "2.prems"(6) by (auto simp: with_colour_def)
      ultimately show ?thesis using "2.prems"(5) eq by blast
    next
      case ng: False
      with False "2.prems"(1) have rest: "dfs_deps g node ds c p = Inl (n, d, p')"
        by (auto split: if_splits)
      have "e \<in> with_colour c BLACK" if "(node, e) \<in> edges g (known c)"
        using that False ng by (cases "the (dict_get c e)") (auto simp: edges_def known_def with_colour_def)
      then have pre: "a \<in> with_colour c BLACK \<or> a \<in> set ds" if "(node, a) \<in> edges g (known c)" for a
        using "2.prems"(3) [OF that] that by auto
      have sub: "set ds \<subseteq> set (dict_get_or g node [])" using "2.prems"(4) by simp
      show ?thesis
      proof (cases "e = start_name")
        case True
        from "2.IH"(1) [OF True rest "2.prems"(2) pre sub "2.prems"(5,6)] show ?thesis .
      next
        case ns: False
        with False ng show ?thesis using "2.IH"(4) [OF ns _ _ rest "2.prems"(2) pre sub "2.prems"(5,6)] by blast
      qed
    qed
  qed
qed simp

lemma walk_parents_stack:
  assumes "on_stack g K p (n # st)" "d \<in> set (n # st)"
  shows "\<exists>ws. walk_parents p n d = Some ws \<and> last (n # ws) = d
    \<and> successively (\<lambda>x y. (y, x) \<in> edges g K) (n # ws)"
  using assms
proof (induction st arbitrary: n)
  case Nil
  then show ?case by (simp add: walk_parents.simps)
next
  case (Cons m st)
  show ?case
  proof (cases "n = d")
    case False
    with Cons.prems have p: "dict_get p n = Some m" "(m, n) \<in> edges g K" "on_stack g K p (m # st)"
      "d \<in> set (m # st)" by (auto simp: on_stack_def)
    from Cons.IH [OF p(3,4)] obtain ws where ws: "walk_parents p m d = Some ws" "last (m # ws) = d"
      "successively (\<lambda>x y. (y, x) \<in> edges g K) (m # ws)" by blast
    have "walk_parents p n d = Some (m # ws)"
      using False p(1) ws(1) by (subst walk_parents.simps) (simp add: dict_get_or_def)
    with ws p(2) show ?thesis by simp
  qed (simp add: walk_parents.simps)
qed

lemma read_cycle_stack:
  assumes "on_stack g K p (n # st)" "d \<in> set (n # st)" "(n, d) \<in> edges g K"
  shows "\<exists>cyc. read_cycle p n d = Some cyc \<and> cyc \<noteq> [] \<and> is_cycle (edges g K) cyc"
  using walk_parents_stack [OF assms(1,2)] assms(3) by (auto simp: read_cycle_def is_cycle_def)

lemma successively_trancl:
  "successively (\<lambda>x y. (y, x) \<in> E) xs \<Longrightarrow> 2 \<le> length xs \<Longrightarrow> (last xs, hd xs) \<in> E\<^sup>+"
proof (induction xs rule: induct_list012)
  case (3 x y zs)
  then show ?case by (cases zs) (auto intro: trancl_into_trancl)
qed auto

lemma is_cycle_not_acyclic: "is_cycle E cyc \<Longrightarrow> \<not> acyclic E"
  using successively_trancl [of E cyc] by (auto simp: is_cycle_def acyclic_def)

lemma search_cycle_None:
  assumes "search_cycle g is c p = None" "black_ok g (known c) (with_colour c BLACK)"
    and "with_colour c GRAY = {}" "set is \<subseteq> known c"
  shows "\<exists>B. black_ok g (known c) B \<and> with_colour c BLACK \<union> set is \<subseteq> B"
  using assms
proof (induction g "is" c p rule: search_cycle.induct)
  case (2 g i "is" c p)
  show ?case
  proof (cases "dict_get c i = Some WHITE")
    case True
    let ?c1 = "dict_set i GRAY c"
    from True "2.prems"(1) obtain c2 p2 where
      sub: "dfs_deps g i (dict_get_or g i []) ?c1 p = Inr (c2, p2)" and rest: "search_cycle g is c2 p2 = None"
      by (auto split: sum.splits prod.splits)
    have b1: "with_colour ?c1 BLACK = with_colour c BLACK" using True by (auto simp: with_colour_def)
    have ik: "i \<in> known c" using "2.prems"(4) by simp
    have S: "black_ok g (known c) (with_colour c2 BLACK)" "known c2 = known c"
      "insert i (with_colour c BLACK) \<subseteq> with_colour c2 BLACK" "with_colour c2 GRAY = {}"
      using dfs_deps_Inr [OF sub] "2.prems"(2,3) ik b1 by (auto simp: edges_def)
    from "2.IH"(1) [OF True sub refl rest] S "2.prems"(4) obtain B where
      "black_ok g (known c) B" "with_colour c2 BLACK \<union> set is \<subseteq> B" by auto
    with S(3) show ?thesis by (intro exI [of _ B]) auto
  next
    case False
    with "2.prems" have "i \<in> with_colour c BLACK"
      by (cases "the (dict_get c i)") (auto simp: with_colour_def known_def)
    with "2.IH"(2) [OF False] "2.prems" False show ?thesis by auto
  qed
qed auto

lemma search_cycle_Some:
  assumes "search_cycle g is c p = Some (n, d, p')" "black_ok g (known c) (with_colour c BLACK)"
    and "with_colour c GRAY = {}" "set is \<subseteq> known c"
  shows "\<exists>st. on_stack g (known c) p' (n # st) \<and> d \<in> set (n # st) \<and> (n, d) \<in> edges g (known c)"
  using assms
proof (induction g "is" c p rule: search_cycle.induct)
  case (2 g i "is" c p)
  show ?case
  proof (cases "dict_get c i = Some WHITE")
    case True
    let ?c1 = "dict_set i GRAY c"
    have b1: "with_colour ?c1 BLACK = with_colour c BLACK" using True by (auto simp: with_colour_def)
    have ik: "i \<in> known c" using "2.prems"(4) by simp
    show ?thesis
    proof (cases "dfs_deps g i (dict_get_or g i []) ?c1 p")
      case (Inl r)
      with True "2.prems"(1) have sub: "dfs_deps g i (dict_get_or g i []) ?c1 p = Inl (n, d, p')" by auto
      show ?thesis
        using dfs_deps_Inl [OF sub, of "[]"] "2.prems"(2,3) ik b1 by (auto simp: edges_def on_stack_def)
    next
      case (Inr x)
      obtain c2 p2 where x: "x = (c2, p2)" by (cases x)
      with Inr have sub: "dfs_deps g i (dict_get_or g i []) ?c1 p = Inr (c2, p2)" by simp
      have S: "black_ok g (known c) (with_colour c2 BLACK)" "known c2 = known c" "with_colour c2 GRAY = {}"
        using dfs_deps_Inr [OF sub] "2.prems"(2,3) ik b1 by (auto simp: edges_def)
      from True "2.prems"(1) sub have rest: "search_cycle g is c2 p2 = Some (n, d, p')" by simp
      from "2.IH"(1) [OF True sub refl rest] S "2.prems"(4) show ?thesis by auto
    qed
  qed (use 2 in auto)
qed simp


definition depends :: "workflow_step list \<Rightarrow> (string \<times> string) set" where
  "depends steps = edges (dep_graph steps) (ws_id ` set steps)"

lemma dict_get_fold_set:
  "dict_get (fold (\<lambda>s. dict_set (f s) (v s)) xs d) k =
     (case List.find (\<lambda>s. f s = k) (rev xs) of None \<Rightarrow> dict_get d k | Some s \<Rightarrow> Some (v s))"
  by (induction xs arbitrary: d rule: rev_induct) auto

lemma find_SomeD: "List.find P xs = Some x \<Longrightarrow> x \<in> set xs \<and> P x"
  by (induction xs) (auto split: if_splits)

lemma all_white_get: "dict_get (all_white steps) k = (if k \<in> ws_id ` set steps then Some WHITE else None)"
proof (cases "List.find (\<lambda>s. ws_id s = k) (rev steps)")
  case None
  then have "k \<notin> ws_id ` set steps" by (auto simp: find_None_iff)
  with None show ?thesis unfolding all_white_def dict_get_fold_set by simp
next
  case (Some s)
  then have "k \<in> ws_id ` set steps" using find_SomeD [OF Some] by auto
  with Some show ?thesis unfolding all_white_def dict_get_fold_set by simp
qed

lemma all_white_colours:
  "known (all_white steps) = ws_id ` set steps"
  "with_colour (all_white steps) GRAY = {}" "with_colour (all_white steps) BLACK = {}"
  by (auto simp: known_def with_colour_def all_white_get)

lemma cycle_detection_spec:
  "case detect_cycle steps of
     None \<Rightarrow> False
   | Some cyc \<Rightarrow> if cyc = [] then acyclic (depends steps)
                 else is_cycle (depends steps) cyc \<and> \<not> acyclic (depends steps)"
proof (cases "search_cycle (dep_graph steps) (map ws_id steps) (all_white steps) []")
  let ?E = "edges (dep_graph steps) (ws_id ` set steps)"
  case None
  have ok: "black_ok (dep_graph steps) (known (all_white steps)) (with_colour (all_white steps) BLACK)"
    by (simp add: black_ok_def all_white_colours acyclic_def)
  obtain B where B: "black_ok (dep_graph steps) (ws_id ` set steps) B" "ws_id ` set steps \<subseteq> B"
    using search_cycle_None [OF None ok] by (auto simp: all_white_colours)
  have "n \<in> ws_id ` set steps" if "(n, d) \<in> ?E" for n d
  proof (rule ccontr)
    assume "n \<notin> ws_id ` set steps"
    then have "List.find (\<lambda>s. ws_id s = n) (rev steps) = None" by (auto simp: find_None_iff)
    then have "dict_get_or (dep_graph steps) n [] = []"
      by (simp add: dict_get_or_def dep_graph_def dict_get_fold_set)
    with that show False by (simp add: edges_def)
  qed
  then have "?E \<subseteq> {(n, d) \<in> ?E. n \<in> B}" using B(2) by auto
  then have "acyclic ?E" by (rule acyclic_subset [rotated]) (use B(1) in \<open>simp add: black_ok_def\<close>)
  with None show ?thesis by (simp add: detect_cycle_def depends_def)
next
  case (Some r)
  obtain n d p where r: "r = (n, d, p)" by (cases r)
  have ok: "black_ok (dep_graph steps) (known (all_white steps)) (with_colour (all_white steps) BLACK)"
    by (simp add: black_ok_def all_white_colours acyclic_def)
  from search_cycle_Some [OF Some [unfolded r] ok] obtain st where
    "on_stack (dep_graph steps) (ws_id ` set steps) p (n # st)" "d \<in> set (n # st)" "(n, d) \<in> depends steps"
    by (auto simp: all_white_colours depends_def)
  from read_cycle_stack [OF this(1,2)] this(3) obtain cyc where
    "read_cycle p n d = Some cyc" "cyc \<noteq> []" "is_cycle (depends steps) cyc"
    by (auto simp: depends_def)
  with Some r show ?thesis by (simp add: detect_cycle_def is_cycle_not_acyclic)
qed

text \<open>
  C10. Cycle detection: the search always ends, the walk back along the parents included; it
  reports no cycle exactly if the dependencies are acyclic, and what it reports otherwise is a
  cycle of them, from a step back to itself with every entry needed by the next.
\<close>

theorem cycle_detection_correct:
  "case detect_cycle steps of
     None \<Rightarrow> False
   | Some cyc \<Rightarrow> if cyc = [] then acyclic (depends steps)
                 else is_cycle (depends steps) cyc \<and> \<not> acyclic (depends steps)"
  by (rule cycle_detection_spec)

section \<open>The levels are a topological order\<close>

definition deps_of :: "workflow_step \<Rightarrow> string list" where
  "deps_of s = filter (\<lambda>d. d \<noteq> start_name) (ws_depends_on s)"

text \<open>The tables that the sort starts from.\<close>

lemma count_edges_step:
  fixes s :: workflow_step
  defines "f \<equiv> \<lambda>d (succ, deg).
     if d = start_name then (succ, deg)
     else (dict_set d (dict_get_or succ d [] @ [ws_id s]) succ,
           dict_set (ws_id s) (dict_get_or deg (ws_id s) 0 + 1) deg)"
  assumes "dict_get deg (ws_id s) = Some m"
  shows "\<exists>succ' deg'. fold f ds (succ, deg) = (succ', deg')
    \<and> (\<forall>d i. count_list (dict_get_or succ' d []) i =
         count_list (dict_get_or succ d []) i
         + (if i = ws_id s \<and> d \<noteq> start_name then count_list ds d else 0))
    \<and> (\<forall>i. dict_get deg' i = (if i = ws_id s
         then Some (m + int (length (filter (\<lambda>d. d \<noteq> start_name) ds))) else dict_get deg i))"
  using assms(2)
proof (induction ds arbitrary: succ deg m)
  case (Cons d ds)
  show ?case
  proof (cases "d = start_name")
    case True
    then have one: "f d (succ, deg) = (succ, deg)" by (simp add: f_def)
    obtain succ' deg' where
      "fold f ds (succ, deg) = (succ', deg')"
      "\<forall>e i. count_list (dict_get_or succ' e []) i = count_list (dict_get_or succ e []) i
         + (if i = ws_id s \<and> e \<noteq> start_name then count_list ds e else 0)"
      "\<forall>i. dict_get deg' i = (if i = ws_id s
         then Some (m + int (length (filter (\<lambda>d. d \<noteq> start_name) ds))) else dict_get deg i)"
      using Cons.IH [OF Cons.prems, of succ] by blast
    then show ?thesis using True one by (intro exI [of _ succ'] exI [of _ deg']) auto
  next
    case False
    let ?succ = "dict_set d (dict_get_or succ d [] @ [ws_id s]) succ"
    let ?deg = "dict_set (ws_id s) (m + 1) deg"
    have one: "f d (succ, deg) = (?succ, ?deg)"
      using False Cons.prems by (simp add: f_def dict_get_or_def)
    have "dict_get ?deg (ws_id s) = Some (m + 1)" by simp
    from Cons.IH [OF this, of ?succ] obtain succ' deg' where *:
      "fold f ds (?succ, ?deg) = (succ', deg')"
      "\<forall>e i. count_list (dict_get_or succ' e []) i = count_list (dict_get_or ?succ e []) i
         + (if i = ws_id s \<and> e \<noteq> start_name then count_list ds e else 0)"
      "\<forall>i. dict_get deg' i = (if i = ws_id s
         then Some (m + 1 + int (length (filter (\<lambda>d. d \<noteq> start_name) ds))) else dict_get ?deg i)"
      by blast
    then show ?thesis using False one by (intro exI [of _ succ'] exI [of _ deg']) auto
  qed
qed auto

lemma count_edges_spec:
  assumes "distinct (map ws_id steps)"
  shows "\<exists>succ deg. count_edges steps = (succ, deg)
    \<and> (\<forall>d i. count_list (dict_get_or succ d []) i =
         (if d = start_name then 0
          else (case List.find (\<lambda>s. ws_id s = i) steps of None \<Rightarrow> 0 | Some s \<Rightarrow> count_list (ws_depends_on s) d)))
    \<and> (\<forall>i. dict_get deg i =
         map_option (\<lambda>s. int (length (deps_of s))) (List.find (\<lambda>s. ws_id s = i) steps))"
  using assms
proof (induction steps rule: rev_induct)
  case Nil
  then show ?case by (simp add: count_edges_def dict_get_or_def)
next
  case (snoc s steps)
  then obtain succ deg where ih: "count_edges steps = (succ, deg)"
    "\<And>d i. count_list (dict_get_or succ d []) i =
         (if d = start_name then 0
          else (case List.find (\<lambda>s. ws_id s = i) steps of None \<Rightarrow> 0 | Some s \<Rightarrow> count_list (ws_depends_on s) d))"
    "\<And>i. dict_get deg i = map_option (\<lambda>s. int (length (deps_of s))) (List.find (\<lambda>s. ws_id s = i) steps)"
    by auto
  have "ws_id s \<notin> ws_id ` set steps" using snoc.prems by simp
  then have new: "List.find (\<lambda>t. ws_id t = ws_id s) steps = None"
    unfolding find_None_iff by (metis imageI)
  then have absent: "dict_get deg (ws_id s) = None" by (simp add: ih(3))
  let ?deg = "dict_set (ws_id s) 0 deg"
  have "dict_get ?deg (ws_id s) = Some 0" by simp
  from count_edges_step [OF this, of "ws_depends_on s" succ] obtain succ' deg' where *:
    "fold (\<lambda>d (succ, deg). if d = start_name then (succ, deg)
       else (dict_set d (dict_get_or succ d [] @ [ws_id s]) succ,
             dict_set (ws_id s) (dict_get_or deg (ws_id s) 0 + 1) deg)) (ws_depends_on s) (succ, ?deg) = (succ', deg')"
    "\<And>d i. count_list (dict_get_or succ' d []) i = count_list (dict_get_or succ d []) i
         + (if i = ws_id s \<and> d \<noteq> start_name then count_list (ws_depends_on s) d else 0)"
    "\<And>i. dict_get deg' i = (if i = ws_id s
         then Some (0 + int (length (filter (\<lambda>d. d \<noteq> start_name) (ws_depends_on s)))) else dict_get ?deg i)"
    by blast
  have "count_edges (steps @ [s]) = (succ', deg')"
    using ih(1) absent *(1) by (simp add: count_edges_def dict_has_def)
  moreover have find: "List.find (\<lambda>t. ws_id t = i) (steps @ [s]) =
      (if i = ws_id s then Some s else List.find (\<lambda>t. ws_id t = i) steps)" for i
    using new by (induction steps) auto
  ultimately show ?case
    using *(2,3) ih(2,3) new by (intro exI [of _ succ'] exI [of _ deg']) (auto simp: deps_of_def)
qed


lemma relax_spec:
  assumes "\<And>n. n \<in> set ns \<Longrightarrow> dict_get deg n = Some (int (cnt n)) \<and> count_list ns n \<le> cnt n"
  shows "\<exists>new deg'. relax ns (q, deg) = Inr (q @ new, deg') \<and> distinct new
    \<and> set new = {n \<in> set ns. cnt n = count_list ns n}
    \<and> (\<forall>n. dict_get deg' n = (if n \<in> set ns then Some (int (cnt n) - int (count_list ns n)) else dict_get deg n))"
  using assms
proof (induction ns arbitrary: q deg cnt)
  case (Cons n ns)
  have n: "dict_get deg n = Some (int (cnt n))" "1 + count_list ns n \<le> cnt n"
    using Cons.prems [of n] by auto
  let ?cnt = "cnt(n := cnt n - 1)" and ?deg = "dict_set n (int (cnt n) - 1) deg"
  let ?q = "if int (cnt n) - 1 = 0 then q @ [n] else q"
  have pre: "dict_get ?deg m = Some (int (?cnt m)) \<and> count_list ns m \<le> ?cnt m" if "m \<in> set ns" for m
    using Cons.prems [of m] that n by (auto simp: of_nat_diff split: if_splits)
  from Cons.IH [OF pre, of ?q] obtain new deg' where *:
    "relax ns (?q, ?deg) = Inr (?q @ new, deg')" "distinct new"
    "set new = {m \<in> set ns. ?cnt m = count_list ns m}"
    "\<And>m. dict_get deg' m = (if m \<in> set ns then Some (int (?cnt m) - int (count_list ns m)) else dict_get ?deg m)"
    by auto
  let ?new = "if cnt n = 1 then n # new else new"
  have zero: "cnt n = 1 \<Longrightarrow> n \<notin> set ns" using n(2) by (metis Suc_eq_plus1_left add_le_same_cancel1 count_list_0_iff le_zero_eq)
  have "relax (n # ns) (q, deg) = Inr (q @ ?new, deg')"
    using n *(1) by (auto split: if_splits)
  moreover have "distinct ?new" using *(2,3) zero by auto
  moreover have "set ?new = {m \<in> set (n # ns). cnt m = count_list (n # ns) m}"
  proof (intro set_eqI iffI)
    fix m assume "m \<in> set ?new"
    then show "m \<in> {m \<in> set (n # ns). cnt m = count_list (n # ns) m}"
      using *(3) n(2) zero by (auto split: if_splits simp: count_list_0_iff)
  next
    fix m assume m: "m \<in> {m \<in> set (n # ns). cnt m = count_list (n # ns) m}"
    show "m \<in> set ?new"
    proof (cases "m = n")
      case True
      with m have c: "cnt n = 1 + count_list ns n" by simp
      show ?thesis
      proof (cases "n \<in> set ns")
        case False
        with c True show ?thesis by (simp add: count_list_0_iff)
      next
        case True
        with c \<open>m = n\<close> *(3) show ?thesis by simp
      qed
    next
      case False
      with m *(3) show ?thesis by auto
    qed
  qed
  moreover have "dict_get deg' m = (if m \<in> set (n # ns)
      then Some (int (cnt m) - int (count_list (n # ns) m)) else dict_get deg m)" for m
    using *(4) [of m] n by (auto simp: of_nat_diff count_list_0_iff)
  ultimately show ?case by (intro exI [of _ ?new] exI [of _ deg']) blast
qed auto

definition deps_in :: "workflow_step list \<Rightarrow> string \<Rightarrow> string list" where
  "deps_in steps i = (case List.find (\<lambda>s. ws_id s = i) steps of None \<Rightarrow> [] | Some s \<Rightarrow> deps_of s)"

definition pending :: "workflow_step list \<Rightarrow> string set \<Rightarrow> string \<Rightarrow> nat" where
  "pending steps V i = length (filter (\<lambda>d. d \<notin> V) (deps_in steps i))"

definition kahn_inv :: "workflow_step list \<Rightarrow> kahn \<Rightarrow> bool" where
  "kahn_inv steps k \<longleftrightarrow>
     (let V = set (kq_visited k); ids = ws_id ` set steps
      in distinct (kq_queue k) \<and> distinct (kq_visited k) \<and> V \<subseteq> ids
         \<and> set (kq_queue k) = {i \<in> ids. i \<notin> V \<and> set (deps_in steps i) \<subseteq> V}
         \<and> (\<forall>i \<in> V. set (deps_in steps i) \<subseteq> V)
         \<and> (\<forall>i \<in> ids. dict_get (kq_degree k) i = Some (int (pending steps V i))))"

lemma pending_insert:
  assumes "i \<notin> V"
  shows "pending steps V n = pending steps (insert i V) n + count_list (deps_in steps n) i"
proof -
  have "length (filter (\<lambda>d. d \<notin> V) ds) = length (filter (\<lambda>d. d \<notin> insert i V) ds) + count_list ds i" for ds
    using assms by (induction ds) auto
  then show ?thesis by (simp add: pending_def)
qed

lemma pending_0: "pending steps V n = 0 \<longleftrightarrow> set (deps_in steps n) \<subseteq> V"
  by (auto simp: pending_def filter_empty_conv)

text \<open>\<open>succ\<close> lists the steps that need a step, as often as they name it.\<close>

definition succ_ok :: "workflow_step list \<Rightarrow> (string, string list) dict \<Rightarrow> bool" where
  "succ_ok steps succ \<longleftrightarrow>
     (\<forall>i n. count_list (dict_get_or succ i []) n = count_list (deps_in steps n) i)"

lemma deps_in_ids: "i \<in> set (deps_in steps n) \<Longrightarrow> n \<in> ws_id ` set steps"
  using find_SomeD [of "\<lambda>s. ws_id s = n" steps]
  by (cases "List.find (\<lambda>s. ws_id s = n) steps") (auto simp: deps_in_def)

lemma succ_ok_ids: "succ_ok steps succ \<Longrightarrow> n \<in> set (dict_get_or succ i []) \<Longrightarrow> n \<in> ws_id ` set steps \<and> i \<in> set (deps_in steps n)"
proof -
  assume ok: "succ_ok steps succ" and n: "n \<in> set (dict_get_or succ i [])"
  from n have "0 < count_list (dict_get_or succ i []) n" using count_list_0_iff [of "dict_get_or succ i []" n] by simp
  with ok have "0 < count_list (deps_in steps n) i" by (simp add: succ_ok_def)
  then have i: "i \<in> set (deps_in steps n)" using count_list_0_iff [of "deps_in steps n" i] by simp
  with deps_in_ids [OF this] show ?thesis by blast
qed

lemma kahn_inv_step:
  assumes inv: "kahn_inv steps k" and q: "kq_queue k = i # q" and succ: "succ_ok steps succ"
  shows "\<exists>new deg'. relax (dict_get_or succ i []) (q, kq_degree k) = Inr (q @ new, deg')
    \<and> kahn_inv steps \<lparr>kq_queue = q @ new, kq_visited = i # kq_visited k, kq_degree = deg'\<rparr>"
proof -
  let ?V = "set (kq_visited k)" and ?ids = "ws_id ` set steps" and ?ns = "dict_get_or succ i []"
  have I: "distinct (i # q)" "distinct (kq_visited k)" "?V \<subseteq> ?ids"
    "set (i # q) = {j \<in> ?ids. j \<notin> ?V \<and> set (deps_in steps j) \<subseteq> ?V}"
    "\<And>j. j \<in> ?V \<Longrightarrow> set (deps_in steps j) \<subseteq> ?V"
    "\<And>j. j \<in> ?ids \<Longrightarrow> dict_get (kq_degree k) j = Some (int (pending steps ?V j))"
    using inv unfolding kahn_inv_def Let_def q by auto
  have i: "i \<in> ?ids" "i \<notin> ?V" "set (deps_in steps i) \<subseteq> ?V" using I(4) by auto
  have c: "count_list ?ns n = count_list (deps_in steps n) i" for n
    using succ by (simp add: succ_ok_def)
  have pre: "dict_get (kq_degree k) n = Some (int (pending steps ?V n)) \<and> count_list ?ns n \<le> pending steps ?V n"
    if "n \<in> set ?ns" for n
    using I(6) succ_ok_ids [OF succ that] pending_insert [OF i(2), of steps n] c [of n] by auto
  from relax_spec [of ?ns "kq_degree k" "pending steps ?V" q] pre obtain new deg' where *:
    "relax ?ns (q, kq_degree k) = Inr (q @ new, deg')" "distinct new"
    "set new = {n \<in> set ?ns. pending steps ?V n = count_list ?ns n}"
    "\<And>n. dict_get deg' n = (if n \<in> set ?ns
       then Some (int (pending steps ?V n) - int (count_list ?ns n)) else dict_get (kq_degree k) n)"
    by auto
  have mem: "n \<in> set ?ns \<longleftrightarrow> i \<in> set (deps_in steps n)" for n
    using c [of n] count_list_0_iff [of ?ns n] count_list_0_iff [of "deps_in steps n" i] by auto
  have new: "set new = {n \<in> ?ids. i \<in> set (deps_in steps n) \<and> set (deps_in steps n) \<subseteq> insert i ?V}"
    using *(3) deps_in_ids [of i steps] pending_insert [OF i(2), of steps] c
      pending_0 [of steps "insert i ?V"] mem by auto
  have apart: "n \<notin> insert i ?V" "n \<notin> set (i # q)" if "n \<in> set new" for n
    using that new I(4,5) i by blast+
  have deg: "dict_get deg' n = Some (int (pending steps (insert i ?V) n))" if "n \<in> ?ids" for n
  proof (cases "n \<in> set ?ns")
    case True
    then show ?thesis using *(4) [of n] pending_insert [OF i(2), of steps n] c [of n] by simp
  next
    case False
    then have "count_list (deps_in steps n) i = 0" using mem [of n] by (simp add: count_list_0_iff)
    then show ?thesis using False *(4) [of n] I(6) [OF that] pending_insert [OF i(2), of steps n] by simp
  qed
  have queue: "set (q @ new) = {j \<in> ?ids. j \<notin> insert i ?V \<and> set (deps_in steps j) \<subseteq> insert i ?V}"
  proof (intro set_eqI iffI)
    fix j assume "j \<in> set (q @ new)"
    then show "j \<in> {j \<in> ?ids. j \<notin> insert i ?V \<and> set (deps_in steps j) \<subseteq> insert i ?V}"
      using I(1,4) new apart by auto
  next
    fix j assume "j \<in> {j \<in> ?ids. j \<notin> insert i ?V \<and> set (deps_in steps j) \<subseteq> insert i ?V}"
    then show "j \<in> set (q @ new)" using I(4) new by (cases "i \<in> set (deps_in steps j)") auto
  qed
  have "distinct (q @ new)" using I(1) *(2) apart by auto
  moreover have "\<forall>j \<in> insert i ?V. set (deps_in steps j) \<subseteq> insert i ?V" using I(5) i(3) by blast
  ultimately show ?thesis
    using *(1) I(2,3) i(1,2) queue deg
    by (intro exI [of _ new] exI [of _ deg']) (simp add: kahn_inv_def Let_def)
qed


lemma find_distinct:
  "distinct (map f xs) \<Longrightarrow> s \<in> set xs \<Longrightarrow> List.find (\<lambda>t. f t = f s) xs = Some s"
  by (induction xs) (auto simp: image_iff)

lemma find_rev_distinct:
  assumes "distinct (map f xs)"
  shows "List.find (\<lambda>s. f s = k) (rev xs) = List.find (\<lambda>s. f s = k) xs"
proof (cases "k \<in> f ` set xs")
  case True
  then obtain s where s: "s \<in> set xs" "k = f s" by blast
  have d: "distinct (map f (rev xs))" using assms by (simp only: rev_map [symmetric] distinct_rev)
  show ?thesis
    using find_distinct [OF assms s(1)] find_distinct [OF d] s by simp
next
  case False
  then have "List.find (\<lambda>s. f s = k) xs = None" "List.find (\<lambda>s. f s = k) (rev xs) = None"
    by (auto simp: find_None_iff)
  then show ?thesis by simp
qed

lemma step_map_get:
  "distinct (map ws_id steps) \<Longrightarrow> dict_get (step_map steps) i = List.find (\<lambda>s. ws_id s = i) steps"
  unfolding step_map_def dict_get_fold_set by (simp add: find_rev_distinct split: option.splits)

lemma depends_deps_in:
  assumes "distinct (map ws_id steps)"
  shows "(i, d) \<in> depends steps \<longleftrightarrow> d \<in> set (deps_in steps i) \<and> d \<in> ws_id ` set steps"
  using assms
  by (auto simp: depends_def edges_def dict_get_or_def dep_graph_def dict_get_fold_set
      find_rev_distinct deps_in_def deps_of_def split: option.splits)

abbreviation step_at :: "workflow_step list \<Rightarrow> string \<Rightarrow> workflow_step" where
  "step_at steps i \<equiv> the (dict_get (step_map steps) i)"

lemma take_level_spec:
  assumes "kahn_inv steps k" "succ_ok steps succ" "distinct (map ws_id steps)" "n \<le> length (kq_queue k)"
  shows "\<exists>k' new. take_level succ (step_map steps) n k lv =
      Inr (k', lv @ map (step_at steps) (take n (kq_queue k)))
    \<and> kahn_inv steps k' \<and> kq_visited k' = rev (take n (kq_queue k)) @ kq_visited k
    \<and> kq_queue k' = drop n (kq_queue k) @ new"
  using assms
proof (induction n arbitrary: k lv)
  case (Suc n)
  then obtain i q where q: "kq_queue k = i # q" by (cases "kq_queue k") auto
  from kahn_inv_step [OF Suc.prems(1) q Suc.prems(2)] obtain new deg' where
    rx: "relax (dict_get_or succ i []) (q, kq_degree k) = Inr (q @ new, deg')"
    and inv: "kahn_inv steps \<lparr>kq_queue = q @ new, kq_visited = i # kq_visited k, kq_degree = deg'\<rparr>"
      (is "kahn_inv steps ?k") by blast
  have i: "i \<in> ws_id ` set steps" "i \<notin> set (kq_visited k)"
    using Suc.prems(1) q by (auto simp: kahn_inv_def Let_def)
  then obtain s where s: "dict_get (step_map steps) i = Some s"
    using find_distinct [OF Suc.prems(3)] by (auto simp: step_map_get [OF Suc.prems(3)])
  have len: "n \<le> length (kq_queue ?k)" using Suc.prems(4) q by simp
  from Suc.IH [OF inv Suc.prems(2,3) len, of "lv @ [s]"] obtain k' new' where
    "take_level succ (step_map steps) n ?k (lv @ [s]) =
      Inr (k', (lv @ [s]) @ map (step_at steps) (take n (q @ new)))"
    "kahn_inv steps k'" "kq_visited k' = rev (take n (q @ new)) @ i # kq_visited k"
    "kq_queue k' = drop n (q @ new) @ new'" by auto
  with rx s i(2) q Suc.prems(4) show ?case by simp
qed simp

fun layered :: "workflow_step list \<Rightarrow> string set \<Rightarrow> workflow_step list list \<Rightarrow> bool" where
  "layered steps V [] = True"
| "layered steps V (l # ls) =
     (l \<noteq> [] \<and> (\<forall>s \<in> set l. s \<in> set steps \<and> set (deps_of s) \<subseteq> V) \<and> layered steps (V \<union> ws_id ` set l) ls)"

lemma step_at_queue:
  assumes "kahn_inv steps k" "distinct (map ws_id steps)" "i \<in> set (kq_queue k)"
  shows "step_at steps i \<in> set steps" "ws_id (step_at steps i) = i"
    "set (deps_of (step_at steps i)) \<subseteq> set (kq_visited k)"
proof -
  have i: "i \<in> ws_id ` set steps" "set (deps_in steps i) \<subseteq> set (kq_visited k)"
    using assms(1,3) by (auto simp: kahn_inv_def Let_def)
  then obtain s where s: "s \<in> set steps" "ws_id s = i" by blast
  have f: "List.find (\<lambda>t. ws_id t = i) steps = Some s"
    using find_distinct [OF assms(2) s(1)] s(2) by simp
  then have at: "step_at steps i = s" by (simp add: step_map_get [OF assms(2)])
  show "step_at steps i \<in> set steps" "ws_id (step_at steps i) = i"
    "set (deps_of (step_at steps i)) \<subseteq> set (kq_visited k)"
    using at s i(2) f by (simp_all add: deps_in_def)
qed

lemma kahn_levels_spec:
  assumes "kahn_inv steps k" "succ_ok steps succ" "distinct (map ws_id steps)"
  shows "\<exists>k' ls. kahn_levels succ (step_map steps) k acc = Inr (k', acc @ ls)
    \<and> kahn_inv steps k' \<and> kq_queue k' = [] \<and> layered steps (set (kq_visited k)) ls
    \<and> mset (kq_visited k') = mset (kq_visited k) + mset (map ws_id (concat ls))"
  using assms
proof (induction succ "step_map steps" k acc rule: kahn_levels.induct)
  case (1 succ k acc)
  show ?case
  proof (cases "kq_queue k = []")
    case True
    with 1 show ?thesis by (intro exI [of _ k] exI [of _ "[]"]) (simp add: kahn_levels.simps)
  next
    case False
    let ?l = "map (step_at steps) (kq_queue k)"
    from take_level_spec [OF "1.prems" le_refl, of "[]"] obtain k1 where
      tl: "take_level succ (step_map steps) (length (kq_queue k)) k [] = Inr (k1, ?l)"
      and inv: "kahn_inv steps k1" and vis: "kq_visited k1 = rev (kq_queue k) @ kq_visited k"
      by auto
    have ne: "?l \<noteq> []" using False by simp
    from "1.hyps" [OF False tl refl inv "1.prems"(2,3)] ne obtain k' ls where
      rest: "kahn_levels succ (step_map steps) k1 (acc @ [?l]) = Inr (k', (acc @ [?l]) @ ls)"
      "kahn_inv steps k'" "kq_queue k' = []" "layered steps (set (kq_visited k1)) ls"
      "mset (kq_visited k') = mset (kq_visited k1) + mset (map ws_id (concat ls))" by auto
    have ids: "map ws_id ?l = kq_queue k"
      using step_at_queue(2) [OF "1.prems"(1,3)] by (simp add: map_idI)
    have lay: "layered steps (set (kq_visited k)) (?l # ls)"
      using ne rest(4) step_at_queue [OF "1.prems"(1,3)] vis
      by (simp add: image_image) (simp add: Un_commute)
    have "kahn_levels succ (step_map steps) k acc = Inr (k', acc @ ?l # ls)"
      using False tl rest(1) ne by (simp add: kahn_levels.simps [of _ _ k])
    moreover have "mset (kq_visited k') = mset (kq_visited k) + mset (map ws_id (concat (?l # ls)))"
      using rest(5) vis ids by simp
    ultimately show ?thesis using rest(2,3) lay by blast
  qed
qed

lemma layered_before:
  "layered steps V ls \<Longrightarrow> j < length ls \<Longrightarrow> t \<in> set (ls ! j) \<Longrightarrow> d \<in> set (deps_of t) \<Longrightarrow>
     d \<in> V \<or> (\<exists>i < j. d \<in> ws_id ` set (ls ! i))"
proof (induction steps V ls arbitrary: j rule: layered.induct)
  case (2 steps V l ls)
  show ?case
  proof (cases j)
    case (Suc m)
    with "2.IH" [of m] "2.prems" have "d \<in> V \<union> ws_id ` set l \<or> (\<exists>i < m. d \<in> ws_id ` set (ls ! i))" by auto
    then show ?thesis using Suc by (metis UnE Suc_mono nth_Cons_0 nth_Cons_Suc zero_less_Suc)
  qed (use "2.prems" in auto)
qed simp

lemma layered_steps: "layered steps V ls \<Longrightarrow> set (concat ls) \<subseteq> set steps \<and> [] \<notin> set ls"
  by (induction steps V ls rule: layered.induct) auto


lemma unknown_dep_None:
  "unknown_dep ids steps = None \<longleftrightarrow> (\<forall>s \<in> set steps. set (deps_of s) \<subseteq> set ids)"
  by (induction ids steps rule: unknown_dep.induct)
    (auto simp: deps_of_def find_None_iff split: option.splits dest!: find_SomeD)

lemma validate_dag_ok:
  "validate_dag steps = Some (Inr ()) \<longleftrightarrow>
     (\<forall>s \<in> set steps. set (deps_of s) \<subseteq> ws_id ` set steps) \<and> acyclic (depends steps)"
proof -
  have "detect_cycle steps = Some [] \<longleftrightarrow> acyclic (depends steps)"
    using cycle_detection_spec [of steps] by (auto split: option.splits if_splits)
  then show ?thesis
    using unknown_dep_None [of "map ws_id steps" steps]
    by (auto simp: validate_dag_def split: option.splits list.splits prod.splits)
qed

lemma all_visited:
  assumes inv: "kahn_inv steps k" and "kq_queue k = []" and d: "distinct (map ws_id steps)"
    and deps: "\<And>s. s \<in> set steps \<Longrightarrow> set (deps_of s) \<subseteq> ws_id ` set steps" and ac: "acyclic (depends steps)"
  shows "set (kq_visited k) = ws_id ` set steps"
proof (rule ccontr)
  let ?U = "ws_id ` set steps - set (kq_visited k)"
  assume "set (kq_visited k) \<noteq> ws_id ` set steps"
  then obtain x where x: "x \<in> ?U" using inv by (auto simp: kahn_inv_def Let_def)
  have "depends steps \<subseteq> ws_id ` set steps \<times> ws_id ` set steps"
    using deps_in_ids [of _ steps] by (auto simp: depends_deps_in [OF d])
  then have "finite (depends steps)" by (rule finite_subset) simp
  with ac have "wf ((depends steps)\<inverse>)" by (intro finite_acyclic_wf_converse)
  from wfE_min [OF this x] obtain z where
    z: "z \<in> ?U" "\<And>y. (z, y) \<in> depends steps \<Longrightarrow> y \<notin> ?U" by auto
  have "\<not> set (deps_in steps z) \<subseteq> set (kq_visited k)"
    using inv assms(2) z(1) by (auto simp: kahn_inv_def Let_def)
  then obtain y where y: "y \<in> set (deps_in steps z)" "y \<notin> set (kq_visited k)" by blast
  obtain s where "s \<in> set steps" "y \<in> set (deps_of s)"
    using y(1) find_SomeD [of "\<lambda>s. ws_id s = z" steps]
    by (cases "List.find (\<lambda>s. ws_id s = z) steps") (auto simp: deps_in_def)
  then have "y \<in> ws_id ` set steps" using deps by blast
  with y z(2) [of y] show False by (simp add: depends_deps_in [OF d])
qed

lemma kahn_start:
  assumes d: "distinct (map ws_id steps)" and "count_edges steps = (succ, deg)"
  shows "succ_ok steps succ" and "kahn_inv steps
    \<lparr>kq_queue = filter (\<lambda>i. dict_get_or deg i 0 = 0) (map ws_id steps), kq_visited = [], kq_degree = deg\<rparr>"
proof -
  from count_edges_spec [OF d] assms(2) have
    s: "\<And>e i. count_list (dict_get_or succ e []) i = (if e = start_name then 0
      else (case List.find (\<lambda>s. ws_id s = i) steps of None \<Rightarrow> 0 | Some s \<Rightarrow> count_list (ws_depends_on s) e))"
    and g: "\<And>i. dict_get deg i = map_option (\<lambda>s. int (length (deps_of s))) (List.find (\<lambda>s. ws_id s = i) steps)"
    by auto
  have fil: "count_list (filter (\<lambda>d. d \<noteq> start_name) ds) e = (if e = start_name then 0 else count_list ds e)"
    for ds e by (induction ds) auto
  show "succ_ok steps succ"
    by (auto simp: succ_ok_def s deps_in_def deps_of_def fil split: option.splits)
  have deg: "dict_get deg i = Some (int (length (deps_in steps i)))" if "i \<in> ws_id ` set steps" for i
    using that find_distinct [OF d] by (auto simp: g deps_in_def)
  show "kahn_inv steps
    \<lparr>kq_queue = filter (\<lambda>i. dict_get_or deg i 0 = 0) (map ws_id steps), kq_visited = [], kq_degree = deg\<rparr>"
    using d deg by (auto simp: kahn_inv_def pending_def dict_get_or_def)
qed


definition sample_step :: "string \<Rightarrow> string list \<Rightarrow> workflow_step" where
  "sample_step i ds = Step i TASK [] [] [] [] [] [] [] 0 60 ''concat'' ds []"


end
