(* ===== verification/AuditLog.thy ===== *)
theory AuditLog
  imports Prelude
begin

text \<open>
  The audit log of \<open>src/app/security/audit.py\<close>: an append-only list of records, each linked to
  the one before it by a keyed hash, with retention, look-up and the replay that checks the
  chain. \<open>hmac.new(..., sha256).hexdigest()\<close> is the parameter \<open>mac\<close> (secret, message) and
  \<open>json.dumps(..., sort_keys=True)\<close> the parameter \<open>dumps\<close>: nothing is assumed of \<open>dumps\<close>, and of
  \<open>mac\<close> only what hexadecimal output gives. Tamper evidence is stated as a reduction: two
  different logs that both verify and end in the same signature exhibit a collision among the
  messages that the replay itself hashes. Log output and metric counters are write-only and
  left out.
\<close>

section \<open>Records and state\<close>

datatype audit_severity = SevInfo | SevWarning | SevCritical

datatype audit_event_type =
    EvAuthentication | EvAuthorization | EvSecret | EvCrypto | EvPolicy
  | EvPrivacy | EvIncident | EvCompliance | EvAdmin

text \<open>The fields that are hashed, and the record that adds the two that are not.\<close>

record 'm audit_payload =
  ar_seq :: int
  ar_event :: string
  ar_actor :: string
  ar_action :: string
  ar_resource :: string
  ar_outcome :: string
  ar_severity :: audit_severity
  ar_event_type :: audit_event_type
  ar_timestamp :: pyfloat
  ar_metadata :: "(string, 'm) dict"
  ar_previous_hash :: string

record 'm audit_record = "'m audit_payload" +
  ar_signature :: string
  ar_hash :: string

record audit_config =
  audit_hash_secret :: string
  audit_immutable :: bool
  audit_node_id :: string
  audit_retention_days :: int
  audit_enabled :: bool

record 'm audit_repo =
  au_records :: "'m audit_record list"
  au_seq :: int
  au_last_hash :: string

definition genesis :: string where
  "genesis = ''genesis''"

definition audit_init :: "'m audit_repo" where
  "audit_init = \<lparr>au_records = [], au_seq = 0, au_last_hash = genesis\<rparr>"

type_synonym 'm dumps = "'m audit_payload \<Rightarrow> string"
type_synonym mac = "string \<Rightarrow> string \<Rightarrow> string"

section \<open>The hash chain\<close>

text \<open>The message whose hash is the digest of a record, and the message of the second hash that
  an immutable log adds.\<close>

definition link_msg :: "'m dumps \<Rightarrow> 'm audit_record \<Rightarrow> string" where
  "link_msg dumps r = ar_previous_hash r @ ''|'' @ dumps (audit_payload.truncate r)"

definition seal_msg :: "audit_config \<Rightarrow> string \<Rightarrow> string" where
  "seal_msg c digest = digest @ ''|'' @ audit_node_id c"

definition chain_hash :: "mac \<Rightarrow> 'm dumps \<Rightarrow> audit_config \<Rightarrow> 'm audit_record \<Rightarrow> string" where
  "chain_hash mac dumps c r =
    (let secret = audit_hash_secret c;
         digest = mac secret (link_msg dumps r)
     in if audit_immutable c then mac secret (seal_msg c digest) else digest)"

record 'm audit_args =
  aa_event :: string
  aa_actor :: string
  aa_action :: string
  aa_resource :: string
  aa_outcome :: string
  aa_severity :: audit_severity
  aa_event_type :: audit_event_type
  aa_metadata :: "(string, 'm) dict option"

definition new_record :: "int \<Rightarrow> pyfloat \<Rightarrow> string \<Rightarrow> 'm audit_args \<Rightarrow> 'm audit_record" where
  "new_record n now prev a =
    \<lparr>ar_seq = n, ar_event = aa_event a, ar_actor = aa_actor a, ar_action = aa_action a,
     ar_resource = aa_resource a, ar_outcome = aa_outcome a, ar_severity = aa_severity a,
     ar_event_type = aa_event_type a, ar_timestamp = now,
     ar_metadata = (case aa_metadata a of None \<Rightarrow> [] | Some m \<Rightarrow> m),
     ar_previous_hash = prev, ar_signature = '''', ar_hash = ''''\<rparr>"

definition audit_append ::
  "mac \<Rightarrow> 'm dumps \<Rightarrow> audit_config \<Rightarrow> pyfloat \<Rightarrow> 'm audit_args \<Rightarrow> 'm audit_repo
    \<Rightarrow> 'm audit_record \<times> 'm audit_repo" where
  "audit_append mac dumps c now a st =
    (let n = au_seq st + 1;
         r0 = new_record n now (au_last_hash st) a;
         sg = chain_hash mac dumps c r0;
         r = r0\<lparr>ar_signature := sg,
                ar_hash := (if audit_immutable c then sg else ar_previous_hash r0)\<rparr>
     in (r, \<lparr>au_records = au_records st @ [r], au_seq = n, au_last_hash = sg\<rparr>))"

section \<open>Look-ups\<close>

text \<open>A keyword of \<open>find\<close> that the method does not know filters nothing.\<close>

datatype audit_filter =
    FEventType audit_event_type | FSeverity audit_severity | FActor string | FAction string
  | FOutcome string | FResource string | FEvent string | FSeq int
  | FAfter pyfloat | FBefore pyfloat | FUnknown

fun audit_filter_ok :: "audit_filter \<Rightarrow> 'm audit_record \<Rightarrow> bool" where
  "audit_filter_ok (FEventType v) r \<longleftrightarrow> ar_event_type r = v"
| "audit_filter_ok (FSeverity v) r \<longleftrightarrow> ar_severity r = v"
| "audit_filter_ok (FActor v) r \<longleftrightarrow> ar_actor r = v"
| "audit_filter_ok (FAction v) r \<longleftrightarrow> ar_action r = v"
| "audit_filter_ok (FOutcome v) r \<longleftrightarrow> ar_outcome r = v"
| "audit_filter_ok (FResource v) r \<longleftrightarrow> ar_resource r = v"
| "audit_filter_ok (FEvent v) r \<longleftrightarrow> ar_event r = v"
| "audit_filter_ok (FSeq v) r \<longleftrightarrow> ar_seq r = v"
| "audit_filter_ok (FAfter v) r \<longleftrightarrow> v < ar_timestamp r"
| "audit_filter_ok (FBefore v) r \<longleftrightarrow> ar_timestamp r < v"
| "audit_filter_ok FUnknown r \<longleftrightarrow> True"

definition audit_find :: "audit_filter list \<Rightarrow> 'm audit_repo \<Rightarrow> 'm audit_record list" where
  "audit_find fs st = fold (\<lambda>f rs. filter (audit_filter_ok f) rs) fs (au_records st)"

definition audit_get :: "'m audit_repo \<Rightarrow> int \<Rightarrow> 'm audit_record option" where
  "audit_get st n =
    (if \<not> (1 \<le> n \<and> n \<le> int (length (au_records st))) then None
     else Some (au_records st ! nat (n - 1)))"

definition audit_count :: "'m audit_repo \<Rightarrow> nat" where
  "audit_count st = length (au_records st)"

section \<open>Replay\<close>

datatype audit_violation =
    BrokenLink int string string
  | SignatureMismatch int string

fun verify_from ::
  "mac \<Rightarrow> 'm dumps \<Rightarrow> audit_config \<Rightarrow> string \<Rightarrow> 'm audit_record list \<Rightarrow> audit_violation list" where
  "verify_from mac dumps c prev [] = []"
| "verify_from mac dumps c prev (r # rs) =
    (if ar_previous_hash r \<noteq> prev then [BrokenLink (ar_seq r) prev (ar_previous_hash r)] else [])
    @ (let expected = chain_hash mac dumps c r
       in if ar_signature r \<noteq> expected then [SignatureMismatch (ar_seq r) expected] else [])
    @ verify_from mac dumps c (ar_signature r) rs"

definition verify_integrity ::
  "mac \<Rightarrow> 'm dumps \<Rightarrow> audit_config \<Rightarrow> 'm audit_repo \<Rightarrow> audit_violation list" where
  "verify_integrity mac dumps c st = verify_from mac dumps c genesis (au_records st)"

section \<open>Retention\<close>

fun drop_stale :: "pyfloat \<Rightarrow> 'm audit_record list \<Rightarrow> int \<Rightarrow> 'm audit_record list \<times> int" where
  "drop_stale cutoff (r # s # rs) removed =
    (if ar_timestamp r < cutoff then drop_stale cutoff (s # rs) (removed + 1)
     else (r # s # rs, removed))"
| "drop_stale cutoff keep removed = (keep, removed)"

fun resign ::
  "mac \<Rightarrow> 'm dumps \<Rightarrow> audit_config \<Rightarrow> string \<Rightarrow> 'm audit_record list \<Rightarrow> 'm audit_record list" where
  "resign mac dumps c prev [] = []"
| "resign mac dumps c prev (r # rs) =
    (let r1 = r\<lparr>ar_previous_hash := prev\<rparr>;
         sg = chain_hash mac dumps c r1
     in r1\<lparr>ar_signature := sg, ar_hash := sg\<rparr> # resign mac dumps c sg rs)"

definition chain_tip :: "string \<Rightarrow> 'm audit_record list \<Rightarrow> string" where
  "chain_tip prev rs = (if rs = [] then prev else ar_signature (last rs))"

definition audit_prune ::
  "mac \<Rightarrow> 'm dumps \<Rightarrow> audit_config \<Rightarrow> pyfloat \<Rightarrow> int option \<Rightarrow> 'm audit_repo \<Rightarrow> int \<times> 'm audit_repo" where
  "audit_prune mac dumps c now days st =
    (let d = (case days of None \<Rightarrow> audit_retention_days c | Some d \<Rightarrow> d);
         cutoff = now - of_int d * 86400;
         old = filter (\<lambda>r. ar_timestamp r < cutoff) (au_records st);
         keep = filter (\<lambda>r. cutoff \<le> ar_timestamp r) (au_records st);
         removed = int (length old)
     in if audit_immutable c then
          let (keep1, removed1) =
                (if keep = [] \<and> au_records st \<noteq> [] then ([last (au_records st)], max 0 (removed - 1))
                 else (keep, removed));
              (keep2, removed2) = drop_stale cutoff keep1 removed1;
              keep3 = resign mac dumps c genesis keep2
          in (removed2, st\<lparr>au_records := keep3, au_last_hash := chain_tip genesis keep3\<rparr>)
        else (removed, st\<lparr>au_records := keep\<rparr>))"

section \<open>The service in front of the repository\<close>

definition audit_log ::
  "mac \<Rightarrow> 'm dumps \<Rightarrow> audit_config \<Rightarrow> pyfloat \<Rightarrow> 'm audit_args \<Rightarrow> 'm audit_repo
    \<Rightarrow> 'm audit_record option \<times> 'm audit_repo" where
  "audit_log mac dumps c now a st =
    (if \<not> audit_enabled c then (None, st)
     else let (r, st') = audit_append mac dumps c now a st in (Some r, st'))"

definition authentication_args ::
  "string \<Rightarrow> string \<Rightarrow> (string, 'm) dict option \<Rightarrow> 'm audit_args" where
  "authentication_args actor outcome md =
    \<lparr>aa_event = ''authentication'', aa_actor = actor, aa_action = ''authenticate'',
     aa_resource = ''auth'', aa_outcome = outcome,
     aa_severity = (if outcome = ''success'' then SevInfo else SevWarning),
     aa_event_type = EvAuthentication, aa_metadata = md\<rparr>"

definition authorization_args ::
  "string \<Rightarrow> string \<Rightarrow> (string, 'm) dict option \<Rightarrow> 'm audit_args" where
  "authorization_args actor outcome md =
    \<lparr>aa_event = ''authorization'', aa_actor = actor, aa_action = ''authorize'',
     aa_resource = ''authz'', aa_outcome = outcome,
     aa_severity = (if outcome = ''success'' then SevInfo else SevCritical),
     aa_event_type = EvAuthorization, aa_metadata = md\<rparr>"

definition secret_args :: "string \<Rightarrow> string \<Rightarrow> string \<Rightarrow> string \<Rightarrow> 'm audit_args" where
  "secret_args actor action name outcome =
    \<lparr>aa_event = ''secret'', aa_actor = actor, aa_action = action,
     aa_resource = ''secret:'' @ name, aa_outcome = outcome,
     aa_severity = (if action = ''delete'' \<or> action = ''rotate'' then SevCritical else SevInfo),
     aa_event_type = EvSecret, aa_metadata = None\<rparr>"

definition admin_args :: "string \<Rightarrow> string \<Rightarrow> string \<Rightarrow> string \<Rightarrow> 'm audit_args" where
  "admin_args actor action resource outcome =
    \<lparr>aa_event = ''admin'', aa_actor = actor, aa_action = action, aa_resource = resource,
     aa_outcome = outcome, aa_severity = SevWarning, aa_event_type = EvAdmin,
     aa_metadata = None\<rparr>"

text \<open>The state-changing calls of the repository, and runs of them.\<close>

datatype 'm audit_op =
    OpAppend pyfloat "'m audit_args"
  | OpPrune pyfloat "int option"

fun audit_step ::
  "mac \<Rightarrow> 'm dumps \<Rightarrow> audit_config \<Rightarrow> 'm audit_op \<Rightarrow> 'm audit_repo \<Rightarrow> 'm audit_repo" where
  "audit_step mac dumps c (OpAppend now a) st = snd (audit_append mac dumps c now a st)"
| "audit_step mac dumps c (OpPrune now d) st = snd (audit_prune mac dumps c now d st)"

definition audit_run ::
  "mac \<Rightarrow> 'm dumps \<Rightarrow> audit_config \<Rightarrow> 'm audit_op list \<Rightarrow> 'm audit_repo" where
  "audit_run mac dumps c ops = fold (audit_step mac dumps c) ops audit_init"

section \<open>Lemmas\<close>

named_theorems audit_simps \<open>the chain under the operations\<close>

lemma chain_tip_simps [simp, audit_simps]:
  "chain_tip p [] = p"
  "chain_tip p (rs @ [r]) = ar_signature r"
  "chain_tip p (r # rs) = chain_tip (ar_signature r) rs"
  by (simp_all add: chain_tip_def)

lemma verify_from_snoc:
  "verify_from mac dumps c p (rs @ [r]) = [] \<longleftrightarrow>
     verify_from mac dumps c p rs = [] \<and> ar_previous_hash r = chain_tip p rs \<and>
     ar_signature r = chain_hash mac dumps c r"
  by (induction rs arbitrary: p) (auto simp: Let_def)

lemma truncate_eq_previous:
  "audit_payload.truncate r = audit_payload.truncate s \<Longrightarrow> ar_previous_hash r = ar_previous_hash s"
  by (simp add: audit_payload.truncate_def)

lemma new_record_sel [simp]:
  "ar_previous_hash (new_record n now prev a) = prev" "ar_seq (new_record n now prev a) = n"
  by (simp_all add: new_record_def)

lemma chain_hash_ignores_tags [simp]:
  "chain_hash mac dumps c (r\<lparr>ar_signature := s, ar_hash := h\<rparr>) = chain_hash mac dumps c r"
  by (simp add: chain_hash_def link_msg_def audit_payload.truncate_def)

lemma verify_resign [simp, audit_simps]:
  "verify_from mac dumps c p (resign mac dumps c p rs) = []"
  by (induction rs arbitrary: p) (auto simp: Let_def)

definition chain_inv :: "mac \<Rightarrow> 'm dumps \<Rightarrow> audit_config \<Rightarrow> 'm audit_repo \<Rightarrow> bool" where
  "chain_inv mac dumps c st \<longleftrightarrow>
     verify_integrity mac dumps c st = [] \<and> au_last_hash st = chain_tip genesis (au_records st)"

lemma chain_inv_init: "chain_inv mac dumps c audit_init"
  by (simp add: chain_inv_def audit_init_def verify_integrity_def)

lemma chain_inv_append:
  "chain_inv mac dumps c st \<Longrightarrow> chain_inv mac dumps c (snd (audit_append mac dumps c now a st))"
  by (simp add: chain_inv_def audit_append_def verify_integrity_def Let_def verify_from_snoc)

lemma chain_inv_prune:
  "audit_immutable c \<Longrightarrow> chain_inv mac dumps c (snd (audit_prune mac dumps c now d st))"
  by (simp add: chain_inv_def audit_prune_def verify_integrity_def Let_def split: prod.split)

definition is_prune :: "'m audit_op \<Rightarrow> bool" where
  "is_prune op \<longleftrightarrow> (case op of OpPrune _ _ \<Rightarrow> True | OpAppend _ _ \<Rightarrow> False)"

lemma chain_inv_run:
  assumes "audit_immutable c \<or> list_all (\<lambda>op. \<not> is_prune op) ops" and "chain_inv mac dumps c st"
  shows "chain_inv mac dumps c (fold (audit_step mac dumps c) ops st)"
  using assms
proof (induction ops arbitrary: st)
  case (Cons op ops)
  from Cons.prems have "chain_inv mac dumps c (audit_step mac dumps c op st)"
    by (cases op) (auto simp: is_prune_def chain_inv_append chain_inv_prune)
  with Cons show ?case by auto
qed simp

lemma audit_find_conv:
  "audit_find fs st = filter (\<lambda>r. list_all (\<lambda>f. audit_filter_ok f r) fs) (au_records st)"
proof -
  have "fold (\<lambda>f rs. filter (audit_filter_ok f) rs) fs rs =
          filter (\<lambda>r. list_all (\<lambda>f. audit_filter_ok f r) fs) rs" for rs :: "'a audit_record list"
    by (induction fs arbitrary: rs) (simp_all add: conj_commute)
  then show ?thesis by (simp add: audit_find_def)
qed

text \<open>Sequence numbers: without retention the number of a record is its position, which is what
  \<open>get\<close> relies on.\<close>

definition seq_inv :: "'m audit_repo \<Rightarrow> bool" where
  "seq_inv st \<longleftrightarrow> map ar_seq (au_records st) = map int [1..<Suc (length (au_records st))] \<and>
     au_seq st = int (length (au_records st))"

lemma seq_inv_append: "seq_inv st \<Longrightarrow> seq_inv (snd (audit_append mac dumps c now a st))"
  by (simp add: seq_inv_def audit_append_def Let_def)

lemma seq_inv_run:
  "list_all (\<lambda>op. \<not> is_prune op) ops \<Longrightarrow> seq_inv st \<Longrightarrow>
     seq_inv (fold (audit_step mac dumps c) ops st)"
proof (induction ops arbitrary: st)
  case (Cons op ops)
  then show ?case by (cases op) (auto simp: is_prune_def seq_inv_append)
qed simp

lemma seq_inv_get:
  assumes "seq_inv st" and "audit_get st n = Some r"
  shows "ar_seq r = n"
proof -
  from assms(2) have n: "1 \<le> n" "nat (n - 1) < length (au_records st)"
    and r: "r = au_records st ! nat (n - 1)"
    by (auto simp: audit_get_def split: if_splits)
  have "ar_seq r = map ar_seq (au_records st) ! nat (n - 1)"
    using n r by simp
  also have "\<dots> = map int [1..<Suc (length (au_records st))] ! nat (n - 1)"
    using assms(1) by (simp add: seq_inv_def del: upt_Suc)
  also have "\<dots> = n" using n by (simp del: upt_Suc)
  finally show ?thesis .
qed

text \<open>The messages that the replay of a log hashes.\<close>

definition hashed_msgs :: "mac \<Rightarrow> 'm dumps \<Rightarrow> audit_config \<Rightarrow> 'm audit_record list \<Rightarrow> string set" where
  "hashed_msgs mac dumps c rs =
     link_msg dumps ` set rs \<union>
     (if audit_immutable c
      then (\<lambda>r. seal_msg c (mac (audit_hash_secret c) (link_msg dumps r))) ` set rs else {})"

definition mac_collision ::
  "mac \<Rightarrow> 'm dumps \<Rightarrow> audit_config \<Rightarrow> 'm audit_record list \<Rightarrow> 'm audit_record list \<Rightarrow> bool" where
  "mac_collision mac dumps c rs rs' \<longleftrightarrow>
     (\<exists>x \<in> hashed_msgs mac dumps c rs. \<exists>y \<in> hashed_msgs mac dumps c rs'.
        x \<noteq> y \<and> mac (audit_hash_secret c) x = mac (audit_hash_secret c) y)"

definition dumps_collision ::
  "'m dumps \<Rightarrow> 'm audit_record list \<Rightarrow> 'm audit_record list \<Rightarrow> bool" where
  "dumps_collision dumps rs rs' \<longleftrightarrow>
     (\<exists>r \<in> set rs. \<exists>s \<in> set rs'. audit_payload.truncate r \<noteq> audit_payload.truncate s \<and>
        dumps (audit_payload.truncate r) = dumps (audit_payload.truncate s))"

lemma collision_mono:
  assumes "set rs \<subseteq> set rs2" and "set ss \<subseteq> set ss2"
  shows "mac_collision mac dumps c rs ss \<Longrightarrow> mac_collision mac dumps c rs2 ss2"
    and "dumps_collision dumps rs ss \<Longrightarrow> dumps_collision dumps rs2 ss2"
proof -
  have "hashed_msgs mac dumps c rs \<subseteq> hashed_msgs mac dumps c rs2"
    "hashed_msgs mac dumps c ss \<subseteq> hashed_msgs mac dumps c ss2"
    using assms by (auto simp: hashed_msgs_def)
  then show "mac_collision mac dumps c rs ss \<Longrightarrow> mac_collision mac dumps c rs2 ss2"
    unfolding mac_collision_def by blast
  show "dumps_collision dumps rs ss \<Longrightarrow> dumps_collision dumps rs2 ss2"
    using assms unfolding dumps_collision_def by blast
qed

lemma append_sep_inj:
  assumes "x \<notin> set us" and "x \<notin> set vs" and "us @ x # xs = vs @ x # ys"
  shows "us = vs \<and> xs = ys"
  using assms
proof (induction us arbitrary: vs)
  case Nil
  then show ?case by (cases vs) auto
next
  case (Cons u us)
  then obtain vs' where "vs = u # vs'" by (cases vs) auto
  with Cons show ?case by auto
qed

lemma same_chain_hash_cases:
  assumes eq: "chain_hash mac dumps c r = chain_hash mac dumps c s"
    and sep: "CHR ''|'' \<notin> set (ar_previous_hash r)" "CHR ''|'' \<notin> set (ar_previous_hash s)"
    and mem: "r \<in> set rs" "s \<in> set ss"
  shows "audit_payload.truncate r = audit_payload.truncate s \<or> mac_collision mac dumps c rs ss \<or>
    dumps_collision dumps rs ss"
proof (rule ccontr)
  assume none: "\<not> ?thesis"
  let ?k = "audit_hash_secret c"
  have nc: "x \<in> hashed_msgs mac dumps c rs \<Longrightarrow> y \<in> hashed_msgs mac dumps c ss \<Longrightarrow>
      mac ?k x = mac ?k y \<Longrightarrow> x = y" for x y
    using none unfolding mac_collision_def by blast
  have "mac ?k (link_msg dumps r) = mac ?k (link_msg dumps s)"
  proof (cases "audit_immutable c")
    case True
    have "seal_msg c (mac ?k (link_msg dumps r)) = seal_msg c (mac ?k (link_msg dumps s))"
    proof (rule nc)
      show "mac ?k (seal_msg c (mac ?k (link_msg dumps r))) =
          mac ?k (seal_msg c (mac ?k (link_msg dumps s)))"
        using eq True by (simp add: chain_hash_def Let_def)
    qed (use mem True in \<open>auto simp: hashed_msgs_def\<close>)
    then show ?thesis by (simp add: seal_msg_def)
  qed (use eq in \<open>simp add: chain_hash_def Let_def\<close>)
  then have "link_msg dumps r = link_msg dumps s"
    using mem by (auto simp: hashed_msgs_def intro: nc [rotated 2])
  then have "dumps (audit_payload.truncate r) = dumps (audit_payload.truncate s)"
    using append_sep_inj [OF sep] by (auto simp: link_msg_def)
  with none mem show False by (auto simp: dumps_collision_def)
qed

lemma verified_tip:
  assumes "verify_from mac dumps c genesis rs = []" and "\<And>k m. CHR ''|'' \<notin> set (mac k m)"
  shows "CHR ''|'' \<notin> set (chain_tip genesis rs)"
  using assms
  by (cases rs rule: rev_cases)
    (auto simp: verify_from_snoc chain_hash_def Let_def genesis_def)

lemma chain_hash_not_genesis:
  "(\<And>k m. mac k m \<noteq> genesis) \<Longrightarrow> chain_hash mac dumps c r \<noteq> genesis"
  by (simp add: chain_hash_def Let_def)

lemma tamper_evident_aux:
  assumes hex: "\<And>k m. CHR ''|'' \<notin> set (mac k m)" and start: "\<And>k m. mac k m \<noteq> genesis"
    and ok: "verify_from mac dumps c genesis rs = []" "verify_from mac dumps c genesis ss = []"
    and tip: "chain_tip genesis rs = chain_tip genesis ss"
  shows "map audit_payload.truncate rs = map audit_payload.truncate ss \<or>
    mac_collision mac dumps c rs ss \<or> dumps_collision dumps rs ss"
  using ok tip
proof (induction rs arbitrary: ss rule: rev_induct)
  case Nil
  then show ?case
    using chain_hash_not_genesis [of mac dumps c, OF start]
    by (cases ss rule: rev_cases) (simp, metis chain_tip_simps(1,2) verify_from_snoc)
next
  case (snoc r rs)
  note step = snoc
  show ?case
  proof (cases ss rule: rev_cases)
    case Nil
    then show ?thesis
      using step(2,4) chain_hash_not_genesis [of mac dumps c r, OF start]
      by (simp add: verify_from_snoc)
  next
    case (snoc ss' s)
    from step(2) have r: "verify_from mac dumps c genesis rs = []"
      "ar_previous_hash r = chain_tip genesis rs" "ar_signature r = chain_hash mac dumps c r"
      by (auto simp: verify_from_snoc)
    from step(3) have s: "verify_from mac dumps c genesis ss' = []"
      "ar_previous_hash s = chain_tip genesis ss'" "ar_signature s = chain_hash mac dumps c s"
      unfolding snoc by (auto simp: verify_from_snoc)
    have "chain_hash mac dumps c r = chain_hash mac dumps c s"
      using r(3) s(3) step(4) unfolding snoc by simp
    then consider (same) "audit_payload.truncate r = audit_payload.truncate s"
      | (coll) "mac_collision mac dumps c (rs @ [r]) ss \<or> dumps_collision dumps (rs @ [r]) ss"
      using same_chain_hash_cases [of mac dumps c r s "rs @ [r]" ss]
        verified_tip [OF r(1) hex] verified_tip [OF s(1) hex] r(2) s(2) snoc by auto
    then show ?thesis
    proof cases
      case same
      then have "chain_tip genesis rs = chain_tip genesis ss'"
        using r(2) s(2) truncate_eq_previous by metis
      then have "map audit_payload.truncate rs = map audit_payload.truncate ss' \<or>
          mac_collision mac dumps c rs ss' \<or> dumps_collision dumps rs ss'"
        using step(1) r(1) s(1) by blast
      then show ?thesis
        using same collision_mono [of rs "rs @ [r]" ss' ss] snoc by auto
    qed simp
  qed
qed

section \<open>What the log promises\<close>

text \<open>Every log the repository can build verifies: after any sequence of appends and, when the
  log is immutable, of retention runs, the replay reports no violation, the stored last hash is the
  signature of the last record, and without retention \<open>get(n)\<close> returns the record numbered \<open>n\<close>.\<close>

theorem audit_log_verifies:
  assumes "audit_immutable c \<or> list_all (\<lambda>op. \<not> is_prune op) ops"
  shows "verify_integrity mac dumps c (audit_run mac dumps c ops) = [] \<and>
    au_last_hash (audit_run mac dumps c ops) = chain_tip genesis (au_records (audit_run mac dumps c ops)) \<and>
    (list_all (\<lambda>op. \<not> is_prune op) ops \<longrightarrow>
       audit_get (audit_run mac dumps c ops) n = Some r \<longrightarrow> ar_seq r = n)"
proof -
  have "chain_inv mac dumps c (audit_run mac dumps c ops)"
    unfolding audit_run_def using assms chain_inv_init by (rule chain_inv_run)
  moreover have "seq_inv (audit_run mac dumps c ops)" if "list_all (\<lambda>op. \<not> is_prune op) ops"
    unfolding audit_run_def using that by (rule seq_inv_run) (simp add: seq_inv_def audit_init_def)
  ultimately show ?thesis
    using seq_inv_get by (auto simp: chain_inv_def)
qed

text \<open>A concrete hash and serialisation, to run the log on: the hash writes the length of the
  message in unary, the serialisation keeps the actor and the number.\<close>

definition demo_mac :: mac where
  "demo_mac k m = replicate (length m) (CHR ''a'')"

definition demo_dumps :: "'m dumps" where
  "demo_dumps p = ar_actor p @ replicate (nat (ar_seq p)) (CHR ''#'')"

definition demo_config :: audit_config where
  "demo_config = \<lparr>audit_hash_secret = ''k'', audit_immutable = True, audit_node_id = ''n'',
     audit_retention_days = 1, audit_enabled = True\<rparr>"

definition demo_ops :: "unit audit_op list" where
  "demo_ops = [OpAppend 0 (admin_args ''root'' ''start'' ''system'' ''success''),
     OpAppend 100000 (authentication_args ''bob'' ''denied'' None),
     OpPrune 100001 None, OpAppend 100002 (secret_args ''bob'' ''rotate'' ''db'' ''success'')]"

lemmas demo_simps = demo_mac_def demo_dumps_def demo_config_def demo_ops_def audit_run_def
  audit_init_def audit_append_def audit_prune_def new_record_def chain_hash_def link_msg_def
  seal_msg_def admin_args_def authentication_args_def secret_args_def audit_payload.truncate_def
  genesis_def chain_tip_def Let_def

theorem audit_log_verifies_witness:
  "verify_integrity demo_mac demo_dumps demo_config
     (audit_run demo_mac demo_dumps demo_config demo_ops) = [] \<and>
   map ar_seq (au_records (audit_run demo_mac demo_dumps demo_config demo_ops)) = [2, 3]"
proof
  show "verify_integrity demo_mac demo_dumps demo_config
      (audit_run demo_mac demo_dumps demo_config demo_ops) = []"
    using audit_log_verifies [of demo_config demo_ops demo_mac demo_dumps 1]
    by (simp add: demo_config_def)
  show "map ar_seq (au_records (audit_run demo_mac demo_dumps demo_config demo_ops)) = [2, 3]"
    by (simp add: demo_simps)
qed


lemma demo_mac_out: "set (demo_mac k m) \<subseteq> {CHR ''a''}"
  by (simp add: demo_mac_def set_replicate_conv_if)

definition demo_log :: "string \<Rightarrow> unit audit_repo" where
  "demo_log actor = audit_run demo_mac demo_dumps demo_config
     [OpAppend 0 (admin_args actor ''start'' ''system'' ''success'')]"


text \<open>What the replay does not see. Dropping records from the end leaves a log that verifies; and
  retention on a log that is not immutable leaves a first record that points to a dropped one, so
  that the replay reports a violation although nobody tampered, and \<open>get\<close> counts positions.\<close>

lemma truncation_unnoticed:
  "verify_from mac dumps c p rs = [] \<Longrightarrow> verify_from mac dumps c p (take n rs) = []"
  by (induction rs arbitrary: p n) (auto simp: Let_def take_Cons' split: if_splits)

lemma retention_breaks_mutable_log:
  assumes "\<not> audit_immutable c" and "au_records st = r # s # rs"
    and "ar_timestamp r < now - of_int d * 86400" and "now - of_int d * 86400 \<le> ar_timestamp s"
    and "ar_previous_hash s \<noteq> genesis"
  shows "verify_integrity mac dumps c (snd (audit_prune mac dumps c now (Some d) st)) \<noteq> []"
  using assms by (simp add: verify_integrity_def audit_prune_def Let_def)

end
