(* ===== verification/Orchestration.thy ===== *)
theory Orchestration
  imports Reputation
begin

text \<open>
  The bookkeeping of \<open>src/app/orchestration\<close>: the spending budget of a run (\<open>budget.py\<close>), the
  human approval of workflow steps (\<open>approval.py\<close>) over the key-value store of
  \<open>src/app/memory/store.py\<close>, and the vote among the answers of several providers
  (\<open>consensus.py\<close>). The answers themselves are a parameter: they come from the router.
\<close>

section \<open>Budget\<close>

record budget_entry =
  be_prompt_tokens :: int
  be_completion_tokens :: int
  be_total_tokens :: int
  be_total_cost :: pyfloat
  be_max_latency_ms :: pyfloat

record budget =
  bd_max_cost :: pyfloat
  bd_max_tokens :: int
  bd_max_latency :: pyfloat
  bd_entries :: "budget_entry list"

definition budget_init :: "pyfloat option \<Rightarrow> int option \<Rightarrow> pyfloat option \<Rightarrow> budget" where
  "budget_init cost tokens latency =
    \<lparr>bd_max_cost = (case cost of None \<Rightarrow> 10 | Some c \<Rightarrow> c),
     bd_max_tokens = (case tokens of None \<Rightarrow> 1000000 | Some t \<Rightarrow> t),
     bd_max_latency = (case latency of None \<Rightarrow> 60000 | Some l \<Rightarrow> l), bd_entries = []\<rparr>"

definition total_cost :: "budget \<Rightarrow> pyfloat" where
  "total_cost b = sum_list (map be_total_cost (bd_entries b))"

definition total_tokens :: "budget \<Rightarrow> int" where
  "total_tokens b = sum_list (map be_total_tokens (bd_entries b))"

definition remaining_budget :: "budget \<Rightarrow> pyfloat" where
  "remaining_budget b = max 0 (bd_max_cost b - total_cost b)"

definition remaining_tokens :: "budget \<Rightarrow> int" where
  "remaining_tokens b = max 0 (bd_max_tokens b - total_tokens b)"

text \<open>The three counters of a provider's \<open>Usage\<close> may be missing; a missing one counts as zero.\<close>

type_synonym usage = "int option \<times> int option \<times> int option"

definition budget_record :: "usage \<Rightarrow> pyfloat \<Rightarrow> pyfloat \<Rightarrow> budget \<Rightarrow> budget" where
  "budget_record u cost latency b =
    (case u of (p, c, t) \<Rightarrow>
      b\<lparr>bd_entries := bd_entries b @
        [\<lparr>be_prompt_tokens = (case p of None \<Rightarrow> 0 | Some n \<Rightarrow> n),
          be_completion_tokens = (case c of None \<Rightarrow> 0 | Some n \<Rightarrow> n),
          be_total_tokens = (case t of None \<Rightarrow> 0 | Some n \<Rightarrow> n),
          be_total_cost = cost, be_max_latency_ms = max 0 latency\<rparr>]\<rparr>)"

datatype budget_refusal =
    TokenBudgetExhausted int int
  | CostBudgetExhausted pyfloat pyfloat
  | LatencyLimitExceeded pyfloat pyfloat

definition check_limits :: "int \<Rightarrow> pyfloat \<Rightarrow> budget \<Rightarrow> budget_refusal option" where
  "check_limits est_tokens est_cost b =
    (if remaining_tokens b < est_tokens then Some (TokenBudgetExhausted (total_tokens b) (bd_max_tokens b))
     else if remaining_budget b < est_cost then Some (CostBudgetExhausted (total_cost b) (bd_max_cost b))
     else let max_latency = (if bd_entries b = [] then 0
                             else be_max_latency_ms (max_by be_max_latency_ms (bd_entries b)))
          in if bd_max_latency b < max_latency
             then Some (LatencyLimitExceeded max_latency (bd_max_latency b)) else None)"

text \<open>The suggestion looks for the name of a tier in the decimal notation of the last cost;
  \<open>str\<close> of a float is the parameter \<open>show_float\<close>.\<close>

definition tiers :: "string list" where
  "tiers = [''gpt4'', ''claude'', ''gemma'', ''qwen'', ''ollama'']"

fun tier_after :: "string \<Rightarrow> string list \<Rightarrow> string" where
  "tier_after s (t # u # ts) = (if contains_str t s then u else tier_after s (u # ts))"
| "tier_after s _ = ''''"

definition get_downgrade_suggestion :: "(pyfloat \<Rightarrow> string) \<Rightarrow> budget \<Rightarrow> string" where
  "get_downgrade_suggestion show_float b =
    (if bd_entries b = [] then ''''
     else let current = last (bd_entries b)
          in if 0 < be_total_cost current \<and> remaining_budget b < be_total_cost current * 2
             then tier_after (show_float (be_total_cost current)) tiers else '''')"

definition budget_reset :: "budget \<Rightarrow> budget" where
  "budget_reset b = b\<lparr>bd_entries := []\<rparr>"

text \<open>A caller that asks before it spends: a request is run only if its estimate is admitted, and
  what it used is recorded.\<close>

record spend =
  sp_est_tokens :: int
  sp_est_cost :: pyfloat
  sp_usage :: usage
  sp_cost :: pyfloat
  sp_latency :: pyfloat

definition guarded_spend :: "spend \<Rightarrow> budget \<Rightarrow> budget" where
  "guarded_spend s b =
    (case check_limits (sp_est_tokens s) (sp_est_cost s) b of
       None \<Rightarrow> budget_record (sp_usage s) (sp_cost s) (sp_latency s) b
     | Some _ \<Rightarrow> b)"

definition within_estimate :: "spend \<Rightarrow> bool" where
  "within_estimate s \<longleftrightarrow> 0 \<le> sp_est_tokens s \<and> 0 \<le> sp_est_cost s \<and> sp_cost s \<le> sp_est_cost s \<and>
     (case sp_usage s of (_, _, t) \<Rightarrow> (case t of None \<Rightarrow> True | Some n \<Rightarrow> n \<le> sp_est_tokens s))"

definition budget_inv :: "budget \<Rightarrow> bool" where
  "budget_inv b \<longleftrightarrow> total_cost b \<le> bd_max_cost b \<and> total_tokens b \<le> bd_max_tokens b"

lemma totals_record:
  "total_cost (budget_record (p, c, t) cost l b) = total_cost b + cost"
  "total_tokens (budget_record (p, c, t) cost l b) = total_tokens b + (case t of None \<Rightarrow> 0 | Some n \<Rightarrow> n)"
  "bd_max_cost (budget_record (p, c, t) cost l b) = bd_max_cost b"
  "bd_max_tokens (budget_record (p, c, t) cost l b) = bd_max_tokens b"
  by (simp_all add: total_cost_def total_tokens_def budget_record_def)

lemma check_limits_None:
  "check_limits n c b = None \<Longrightarrow> n \<le> remaining_tokens b \<and> c \<le> remaining_budget b"
  by (auto simp: check_limits_def Let_def split: if_splits)

lemma guarded_spend_limits [simp]:
  "bd_max_cost (guarded_spend s b) = bd_max_cost b" "bd_max_tokens (guarded_spend s b) = bd_max_tokens b"
  by (simp_all add: guarded_spend_def budget_record_def split: option.split prod.split)

lemma guarded_spend_inv:
  assumes "budget_inv b" and "within_estimate s"
  shows "budget_inv (guarded_spend s b)"
proof (cases "check_limits (sp_est_tokens s) (sp_est_cost s) b")
  case None
  obtain p c t where u: "sp_usage s = (p, c, t)" by (cases "sp_usage s") auto
  have "sp_est_tokens s \<le> bd_max_tokens b - total_tokens b"
    "sp_est_cost s \<le> bd_max_cost b - total_cost b"
    using check_limits_None [OF None] assms
    by (auto simp: budget_inv_def remaining_tokens_def remaining_budget_def within_estimate_def)
  then have "total_cost b + sp_cost s \<le> bd_max_cost b"
    "total_tokens b + (case t of None \<Rightarrow> 0 | Some n \<Rightarrow> n) \<le> bd_max_tokens b"
    using assms u by (auto simp: within_estimate_def budget_inv_def split: option.splits)
  then show ?thesis
    using None u by (simp add: guarded_spend_def budget_inv_def totals_record)
qed (use assms in \<open>simp add: guarded_spend_def\<close>)

text \<open>C38. A caller that asks before it spends and keeps to its estimates never exceeds the budget:
  after any sequence of requests the recorded cost and tokens are within the configured limits.\<close>

theorem budget_never_overspent:
  assumes "0 \<le> bd_max_cost (budget_init cost tokens latency)"
    and "0 \<le> bd_max_tokens (budget_init cost tokens latency)"
    and "list_all within_estimate reqs"
  shows "let b = fold guarded_spend reqs (budget_init cost tokens latency) in
    total_cost b \<le> bd_max_cost b \<and> total_tokens b \<le> bd_max_tokens b"
proof -
  have "budget_inv (fold guarded_spend reqs b)" if "budget_inv b" for b
    using that assms(3) by (induction reqs arbitrary: b) (auto simp: guarded_spend_inv)
  moreover have "budget_inv (budget_init cost tokens latency)"
    using assms(1,2) by (simp add: budget_inv_def total_cost_def total_tokens_def budget_init_def)
  ultimately show ?thesis by (simp add: budget_inv_def Let_def)
qed

definition demo_spends :: "spend list" where
  "demo_spends =
    [\<lparr>sp_est_tokens = 60, sp_est_cost = 2, sp_usage = (Some 10, Some 40, Some 50), sp_cost = 2, sp_latency = 9\<rparr>,
     \<lparr>sp_est_tokens = 60, sp_est_cost = 1, sp_usage = (None, None, Some 60), sp_cost = 1, sp_latency = 7\<rparr>,
     \<lparr>sp_est_tokens = 50, sp_est_cost = 1, sp_usage = (None, None, None), sp_cost = 1, sp_latency = 7\<rparr>]"

theorem budget_never_overspent_witness:
  "let b = fold guarded_spend demo_spends (budget_init (Some 3) (Some 100) None) in
    total_cost b \<le> bd_max_cost b \<and> total_tokens b \<le> bd_max_tokens b \<and> length (bd_entries b) = 2"
proof -
  let ?b = "fold guarded_spend demo_spends (budget_init (Some 3) (Some 100) None)"
  have "length (bd_entries ?b) = 2"
    by (simp add: demo_spends_def guarded_spend_def budget_init_def check_limits_def budget_record_def
        remaining_tokens_def remaining_budget_def total_tokens_def total_cost_def max_by_def)
  with budget_never_overspent [of "Some 3" "Some 100" None demo_spends] show ?thesis
    by (simp add: budget_init_def demo_spends_def within_estimate_def Let_def)
qed

text \<open>The suggestion is always empty: no decimal notation of a number holds the name of a tier.\<close>

lemma tier_after_numeral:
  assumes "set s \<subseteq> set ''0123456789.e+-infa''"
  shows "tier_after s tiers = ''''"
proof -
  have "\<not> contains_str t s" if "t \<in> {''gpt4'', ''claude'', ''gemma'', ''qwen''}" for t
    using that assms by (auto simp: contains_str_iff)
  then show ?thesis by (simp add: tiers_def)
qed

lemma downgrade_suggestion_empty:
  "(\<And>x. set (show_float x) \<subseteq> set ''0123456789.e+-infa'') \<Longrightarrow> get_downgrade_suggestion show_float b = ''''"
  by (simp add: get_downgrade_suggestion_def tier_after_numeral Let_def)


section \<open>The key-value store\<close>

text \<open>\<open>SQLiteStore\<close>: rows of a value and an expiry time, zero meaning never. Reading an expired row
  deletes it. The JSON round trip of a value is the identity.\<close>

type_synonym 'v sqlite_store = "(string, 'v \<times> pyfloat) dict"

definition store_get :: "pyfloat \<Rightarrow> string \<Rightarrow> 'v sqlite_store \<Rightarrow> 'v option \<times> 'v sqlite_store" where
  "store_get now k st =
    (case dict_get st k of
       None \<Rightarrow> (None, st)
     | Some (v, expires) \<Rightarrow>
         if expires \<noteq> 0 \<and> expires < now then (None, dict_pop k st) else (Some v, st))"

definition store_set :: "pyfloat \<Rightarrow> string \<Rightarrow> 'v \<Rightarrow> pyfloat \<Rightarrow> 'v sqlite_store \<Rightarrow> 'v sqlite_store" where
  "store_set now k v ttl st = dict_set k (v, if 0 < ttl then now + ttl else 0) st"

definition store_delete :: "string \<Rightarrow> 'v sqlite_store \<Rightarrow> 'v sqlite_store" where
  "store_delete k st = dict_pop k st"

definition store_prune_expired :: "pyfloat \<Rightarrow> 'v sqlite_store \<Rightarrow> nat \<times> 'v sqlite_store" where
  "store_prune_expired now st =
    (let live = filter (\<lambda>(k, v, e). \<not> (0 < e \<and> e \<le> now)) st
     in (length st - length live, live))"

lemma store_get_set:
  "fst (store_get now' k' (store_set now k v ttl st)) =
    (if k' = k then (if 0 < ttl \<and> now + ttl \<noteq> 0 \<and> now + ttl < now' then None else Some v)
     else fst (store_get now' k' st))"
  by (simp add: store_get_def store_set_def split: option.split prod.split)

lemma store_get_delete [simp]:
  "fst (store_get now k' (store_delete k st)) = (if k' = k then None else fst (store_get now k' st))"
  by (simp add: store_get_def store_delete_def split: option.split)

lemma store_get_twice: "fst (store_get now k (snd (store_get now k' st))) = fst (store_get now k st)"
  by (auto simp: store_get_def split: option.split)

section \<open>Approval checkpoints\<close>

record 'c checkpoint =
  cp_id :: string
  cp_workflow_id :: string
  cp_step_id :: string
  cp_prompt :: string
  cp_context :: "'c option"
  cp_status :: string
  cp_created_at :: pyfloat
  cp_decided_at :: pyfloat
  cp_decided_by :: string
  cp_notes :: string

text \<open>What is written to the store: a description when a checkpoint is created, which a decision
  replaces.\<close>

datatype 'c approval_doc =
    CreatedDoc string string string string "'c option" string pyfloat
  | DecidedDoc string string pyfloat string string

fun doc_status :: "'c approval_doc \<Rightarrow> string" where
  "doc_status (CreatedDoc _ _ _ _ _ s _) = s"
| "doc_status (DecidedDoc _ s _ _ _) = s"

record 'c approvals =
  ap_pending :: "(string, 'c checkpoint) dict"
  ap_store :: "'c approval_doc sqlite_store"

definition ap_key :: "string \<Rightarrow> string" where
  "ap_key cid = ''approval:'' @ cid"

definition create_checkpoint ::
  "pyfloat \<Rightarrow> string \<Rightarrow> string \<Rightarrow> string \<Rightarrow> string \<Rightarrow> 'c option \<Rightarrow> 'c approvals \<Rightarrow> 'c approvals" where
  "create_checkpoint now cid wid step prompt ctx am =
    am\<lparr>ap_pending := dict_set cid
         \<lparr>cp_id = cid, cp_workflow_id = wid, cp_step_id = step, cp_prompt = prompt, cp_context = ctx,
          cp_status = ''pending'', cp_created_at = now, cp_decided_at = 0, cp_decided_by = '''',
          cp_notes = ''''\<rparr> (ap_pending am),
       ap_store := store_set now (ap_key cid)
         (CreatedDoc cid wid step prompt ctx ''pending'' now) 0 (ap_store am)\<rparr>"

definition decide ::
  "string \<Rightarrow> pyfloat \<Rightarrow> string \<Rightarrow> string \<Rightarrow> string \<Rightarrow> 'c approvals \<Rightarrow> bool \<times> 'c approvals" where
  "decide verdict now cid user ns am =
    (case dict_get (ap_pending am) cid of
       None \<Rightarrow> (False, am)
     | Some cp \<Rightarrow>
         if cp_status cp \<noteq> ''pending'' then (False, am)
         else (True, am\<lparr>ap_pending := dict_set cid
                 (cp\<lparr>cp_status := verdict, cp_decided_at := now, cp_decided_by := user,
                     cp_notes := ns\<rparr>) (ap_pending am),
                ap_store := store_set now (ap_key cid) (DecidedDoc cid verdict now user ns) 0
                  (ap_store am)\<rparr>))"

definition approve ::
  "pyfloat \<Rightarrow> string \<Rightarrow> string \<Rightarrow> string \<Rightarrow> 'c approvals \<Rightarrow> bool \<times> 'c approvals" where
  "approve = decide ''approved''"

definition reject ::
  "pyfloat \<Rightarrow> string \<Rightarrow> string \<Rightarrow> string \<Rightarrow> 'c approvals \<Rightarrow> bool \<times> 'c approvals" where
  "reject = decide ''rejected''"

definition get_status :: "pyfloat \<Rightarrow> string \<Rightarrow> 'c approvals \<Rightarrow> string" where
  "get_status now cid am =
    (case dict_get (ap_pending am) cid of
       Some cp \<Rightarrow> cp_status cp
     | None \<Rightarrow> (case fst (store_get now (ap_key cid) (ap_store am)) of
                 Some d \<Rightarrow> doc_status d | None \<Rightarrow> ''unknown''))"

definition list_pending :: "'c approvals \<Rightarrow> 'c checkpoint list" where
  "list_pending am = filter (\<lambda>cp. cp_status cp = ''pending'') (map snd (ap_pending am))"

definition clean_completed :: "'c approvals \<Rightarrow> nat \<times> 'c approvals" where
  "clean_completed am =
    (let live = filter (\<lambda>(k, cp). cp_status cp = ''pending'') (ap_pending am)
     in (length (ap_pending am) - length live, am\<lparr>ap_pending := live\<rparr>))"

text \<open>Polling for a decision: one poll per element, the time and the manager as found then. The
  loop tests the time first and sleeps after each poll.\<close>

fun wait_for_decision ::
  "pyfloat \<Rightarrow> pyfloat \<Rightarrow> string \<Rightarrow> (pyfloat \<times> 'c approvals) list \<Rightarrow> string option" where
  "wait_for_decision start timeout cid [] = None"
| "wait_for_decision start timeout cid ((now, am) # polls) =
    (if now - start < timeout then
       let status = get_status now cid am
       in if status \<in> {''approved'', ''rejected''} then Some status
          else wait_for_decision start timeout cid polls
     else Some ''timeout'')"

datatype 'c approval_op =
    ACreate pyfloat string string string string "'c option"
  | AApprove pyfloat string string string
  | AReject pyfloat string string string
  | AClean

fun approval_step :: "'c approval_op \<Rightarrow> 'c approvals \<Rightarrow> 'c approvals" where
  "approval_step (ACreate now cid wid step prompt ctx) am = create_checkpoint now cid wid step prompt ctx am"
| "approval_step (AApprove now cid user ns) am = snd (approve now cid user ns am)"
| "approval_step (AReject now cid user ns) am = snd (reject now cid user ns am)"
| "approval_step AClean am = snd (clean_completed am)"

fun creates :: "string \<Rightarrow> 'c approval_op \<Rightarrow> bool" where
  "creates cid (ACreate now c wid step prompt ctx) \<longleftrightarrow> c = cid"
| "creates cid _ \<longleftrightarrow> False"

definition approvals_init :: "'c approvals" where
  "approvals_init = \<lparr>ap_pending = [], ap_store = []\<rparr>"

text \<open>The dictionary of pending checkpoints and the store agree on every checkpoint that the
  dictionary holds, and no stored row expires.\<close>

definition approvals_inv :: "'c approvals \<Rightarrow> bool" where
  "approvals_inv am \<longleftrightarrow> dict_ok (ap_pending am) \<and>
    (\<forall>cid cp. dict_get (ap_pending am) cid = Some cp \<longrightarrow>
       (\<exists>d. dict_get (ap_store am) (ap_key cid) = Some (d, 0) \<and> doc_status d = cp_status cp)) \<and>
    (\<forall>k d e. dict_get (ap_store am) k = Some (d, e) \<longrightarrow> e = 0)"

lemma ap_key_inj [simp]: "ap_key x = ap_key y \<longleftrightarrow> x = y"
  by (simp add: ap_key_def)

lemma approvals_inv_init: "approvals_inv approvals_init"
  by (simp add: approvals_inv_def approvals_init_def)

lemma approvals_inv_create:
  "approvals_inv am \<Longrightarrow> approvals_inv (create_checkpoint now cid wid step prompt ctx am)"
  by (auto simp: approvals_inv_def create_checkpoint_def store_set_def)

lemma approvals_inv_decide: "approvals_inv am \<Longrightarrow> approvals_inv (snd (decide v now cid user ns am))"
  by (auto simp: approvals_inv_def decide_def store_set_def split: option.split)

lemma approvals_inv_clean: "approvals_inv am \<Longrightarrow> approvals_inv (snd (clean_completed am))"
  by (auto simp: approvals_inv_def clean_completed_def Let_def dict_get_filter
      split: option.splits if_splits)

lemma approvals_inv_step: "approvals_inv am \<Longrightarrow> approvals_inv (approval_step op am)"
  by (cases op)
    (auto simp: approve_def reject_def
       intro: approvals_inv_create approvals_inv_decide approvals_inv_clean)

text \<open>Under the invariant the status is the one in the store, whatever the time.\<close>

lemma get_status_store:
  "approvals_inv am \<Longrightarrow> get_status now cid am =
    (case dict_get (ap_store am) (ap_key cid) of Some (d, _) \<Rightarrow> doc_status d | None \<Rightarrow> ''unknown'')"
  by (fastforce simp: approvals_inv_def get_status_def store_get_def split: option.split)

lemma get_status_time: "approvals_inv am \<Longrightarrow> get_status now cid am = get_status now' cid am"
  by (simp add: get_status_store)

lemma decided_stays_step:
  assumes inv: "approvals_inv am" and st: "get_status now cid am \<in> {''approved'', ''rejected''}"
    and "\<not> creates cid op"
  shows "get_status now cid (approval_step op am) = get_status now cid am"
proof -
  have keep: "get_status now cid (snd (decide v t c user ns am)) = get_status now cid am" for v t c user ns
  proof (cases "c = cid")
    case True
    with st show ?thesis by (auto simp: decide_def get_status_def split: option.split)
  next
    case False
    then show ?thesis
      by (simp add: decide_def get_status_def store_get_set split: option.split)
  qed
  show ?thesis
  proof (cases op)
    case (ACreate t c wid step prompt ctx)
    then show ?thesis
      using assms(3) by (simp add: create_checkpoint_def get_status_def store_get_set split: option.split)
  next
    case AClean
    have "ap_store (snd (clean_completed am)) = ap_store am"
      by (simp add: clean_completed_def Let_def)
    then show ?thesis
      using AClean inv approvals_inv_clean [OF inv] by (simp add: get_status_store)
  qed (simp_all add: approve_def reject_def keep)
qed

text \<open>A decision is final: once a checkpoint is approved or rejected, no sequence of approvals,
  rejections, clean-ups and new checkpoints with other ids changes the status that is read back,
  and a second decision is refused.\<close>

theorem approval_final:
  assumes "get_status now cid (fold approval_step ops approvals_init) \<in> {''approved'', ''rejected''}"
    and "list_all (\<lambda>op. \<not> creates cid op) later"
  shows "get_status now' cid (fold approval_step later (fold approval_step ops approvals_init)) =
      get_status now cid (fold approval_step ops approvals_init) \<and>
    \<not> fst (decide v t cid user ns (fold approval_step later (fold approval_step ops approvals_init)))"
proof -
  let ?am = "fold approval_step ops approvals_init"
  have inv: "approvals_inv (fold approval_step xs am)" if "approvals_inv am" for xs and am :: "'a approvals"
    using that by (induction xs arbitrary: am) (auto intro: approvals_inv_step)
  have "get_status now cid (fold approval_step xs am) = get_status now cid am"
    if "approvals_inv am" "get_status now cid am \<in> {''approved'', ''rejected''}"
      "list_all (\<lambda>op. \<not> creates cid op) xs" for xs and am :: "'a approvals"
    using that
  proof (induction xs arbitrary: am)
    case (Cons op xs)
    then show ?case
      using decided_stays_step [of am now cid op] approvals_inv_step [of am op] by simp
  qed simp
  then have same: "get_status now cid (fold approval_step later ?am) = get_status now cid ?am"
    using assms inv [OF approvals_inv_init] by blast
  then have st: "get_status now' cid (fold approval_step later ?am) = get_status now cid ?am"
    using get_status_time inv [OF inv [OF approvals_inv_init]] by metis
  moreover have "\<not> fst (decide v t cid user ns (fold approval_step later ?am))"
    using st assms(1) by (auto simp: decide_def get_status_def split: option.splits)
  ultimately show ?thesis by blast
qed

definition demo_approvals :: "unit approval_op list" where
  "demo_approvals = [ACreate 1 ''c1'' ''w'' ''s'' ''ok?'' None, AApprove 2 ''c1'' ''ann'' '''']"

theorem approval_final_witness:
  "get_status 9 ''c1''
     (fold approval_step [AClean, AReject 5 ''c1'' ''bob'' '''']
       (fold approval_step demo_approvals approvals_init)) = ''approved''"
proof -
  have "get_status 2 ''c1'' (fold approval_step demo_approvals approvals_init) = ''approved''"
    by (simp add: demo_approvals_def approvals_init_def create_checkpoint_def approve_def decide_def
        get_status_def)
  then show ?thesis
    using approval_final [of 2 "''c1''" demo_approvals "[AClean, AReject 5 ''c1'' ''bob'' '''']" 9]
    by simp
qed


section \<open>Voting among providers\<close>

record vote_score =
  vs_quality :: pyfloat
  vs_cost :: pyfloat
  vs_latency :: pyfloat
  vs_reliability :: pyfloat
  vs_overall :: pyfloat

definition score_quality :: "string \<Rightarrow> pyfloat" where
  "score_quality content =
    (if content = '''' then 0
     else let n = length content
     in if n < 10 then 2 / 10
        else if n < 50 then 5 / 10
        else if 10000 < n then 8 / 10
        else let s0 = 6 / 10;
                 s1 = (if list_ex (\<lambda>w. contains_str w (py_lower content))
                            [''therefore'', ''because'', ''however'', ''conclusion''] then s0 + 1 / 10 else s0);
                 s2 = (if list_ex (\<lambda>c. c \<in> set content) [CHR ''.'', CHR ''!'', CHR ''?''] then s1 + 1 / 10 else s1);
                 s3 = (if list_ex (\<lambda>w. contains_str w (py_lower content))
                            [''example'', ''for instance'', ''specifically''] then s2 + 1 / 10 else s2)
             in min s3 1)"

definition score_cost :: "string \<Rightarrow> string \<Rightarrow> pyfloat" where
  "score_cost provider model =
    (let cost_info = estimate_cost provider model 100 100 0
     in if cost_info \<le> 0 then 1 else max 0 (1 - cost_info / (1 / 100)))"

definition score_latency :: "pyfloat \<Rightarrow> pyfloat" where
  "score_latency ms =
    (if ms \<le> 0 then 5 / 10 else if ms < 500 then 1 else if ms < 2000 then 8 / 10
     else if ms < 5000 then 5 / 10 else if ms < 10000 then 3 / 10 else 1 / 10)"

definition score_reliability :: "(string, pyfloat) dict \<Rightarrow> string \<Rightarrow> pyfloat" where
  "score_reliability rates provider = dict_get_or rates provider (8 / 10)"

definition score_response ::
  "(string, pyfloat) dict \<Rightarrow> string \<Rightarrow> pyfloat \<Rightarrow> string \<Rightarrow> string \<Rightarrow> vote_score" where
  "score_response rates content ms provider model =
    (let quality = score_quality content; cost = score_cost provider model;
         latency = score_latency ms; reliability = score_reliability rates provider
     in \<lparr>vs_quality = quality, vs_cost = cost, vs_latency = latency, vs_reliability = reliability,
         vs_overall = quality * (35 / 100) + cost * (15 / 100) + latency * (25 / 100) + reliability * (25 / 100)\<rparr>)"

definition no_score :: vote_score where
  "no_score = \<lparr>vs_quality = 0, vs_cost = 0, vs_latency = 0, vs_reliability = 0, vs_overall = 0\<rparr>"

type_synonym vote = "string \<times> string \<times> string \<times> vote_score"

definition choose_winner :: "vote list \<Rightarrow> vote" where
  "choose_winner votes =
    (if votes = [] then ('''', '''', '''', no_score)
     else hd (sort_desc (\<lambda>(_, _, _, s). vs_overall s) votes))"

text \<open>An answer is a provider, a model, a content and a latency; a provider that fails has none.\<close>

type_synonym answer = "string \<times> string \<times> string \<times> pyfloat"

record consensus_result =
  cr_provider :: string
  cr_model :: string
  cr_content :: string
  cr_strategy :: string
  cr_scores :: "(string, pyfloat) dict"
  cr_votes :: nat
  cr_total_votes :: nat

datatype consensus_error = UnknownStrategy string

definition valid_responses :: "answer option list \<Rightarrow> answer list" where
  "valid_responses results = filter (\<lambda>(_, _, content, _). content \<noteq> '''') (List.map_filter id results)"

definition score_of :: "(string, pyfloat) dict \<Rightarrow> answer \<Rightarrow> vote_score" where
  "score_of rates a = (case a of (p, m, content, ms) \<Rightarrow> score_response rates content ms p m)"

definition simplified :: "answer \<Rightarrow> string" where
  "simplified a = (case a of (_, _, content, _) \<Rightarrow> py_lower (take 100 content))"

definition answer_result :: "string \<Rightarrow> (string, pyfloat) dict \<Rightarrow> nat \<Rightarrow> nat \<Rightarrow> answer \<Rightarrow> consensus_result" where
  "answer_result strategy scores votes total_votes a =
    (case a of (p, m, content, _) \<Rightarrow>
      \<lparr>cr_provider = p, cr_model = m, cr_content = content, cr_strategy = strategy,
       cr_scores = scores, cr_votes = votes, cr_total_votes = total_votes\<rparr>)"

definition score_dict :: "vote_score \<Rightarrow> (string, pyfloat) dict" where
  "score_dict s = [(''quality'', vs_quality s), (''cost'', vs_cost s), (''latency'', vs_latency s),
     (''reliability'', vs_reliability s), (''overall'', vs_overall s)]"

definition run_consensus ::
  "(string, pyfloat) dict \<Rightarrow> string list \<Rightarrow> answer option list \<Rightarrow> string
    \<Rightarrow> consensus_error + consensus_result" where
  "run_consensus rates providers results strategy =
    (let valid = valid_responses results; n = length providers
     in if valid = [] then Inr (answer_result strategy [] 0 0 ('''', '''', '''', 0))
        else if strategy = ''first_success'' then Inr (answer_result strategy [] 1 n (hd valid))
        else if strategy = ''best_latency'' then
          let best = min_by (\<lambda>(_, _, _, ms). ms) valid
          in Inr (answer_result strategy [(''latency_ms'', snd (snd (snd best)))] 1 n best)
        else if strategy \<in> {''weighted_score'', ''highest_confidence'', ''best_quality''} then
          let best = (if strategy = ''weighted_score'' then max_by (\<lambda>a. vs_overall (score_of rates a)) valid
                      else max_by (\<lambda>a. vs_quality (score_of rates a)) valid)
          in Inr (answer_result strategy (score_dict (score_of rates best)) 1 n best)
        else if strategy = ''majority_vote'' then
          let winner = max_by length (map snd (group_by simplified valid))
          in Inr (answer_result strategy [] (length winner) (length valid) (hd winner))
        else Inl (UnknownStrategy strategy))"

lemma score_quality_bounds: "0 \<le> score_quality c" "score_quality c \<le> 1"
  by (auto simp: score_quality_def Let_def)

lemma score_cost_bounds: "0 \<le> score_cost p m" "score_cost p m \<le> 1"
  by (auto simp: score_cost_def Let_def)

lemma score_latency_bounds: "0 \<le> score_latency x" "score_latency x \<le> 1"
  by (auto simp: score_latency_def)

lemma score_latency_antimono: "0 < x \<Longrightarrow> x \<le> y \<Longrightarrow> score_latency y \<le> score_latency x"
  by (auto simp: score_latency_def)

definition rates_ok :: "(string, pyfloat) dict \<Rightarrow> bool" where
  "rates_ok rates \<longleftrightarrow> list_all (\<lambda>(_, r). 0 \<le> r \<and> r \<le> 1) rates"

lemma score_reliability_bounds:
  assumes "rates_ok rates"
  shows "0 \<le> score_reliability rates p" "score_reliability rates p \<le> 1"
proof -
  have "0 \<le> r \<and> r \<le> 1" if "dict_get rates p = Some r" for r
    using assms dict_get_in [OF that] by (auto simp: rates_ok_def list_all_iff)
  then show "0 \<le> score_reliability rates p" "score_reliability rates p \<le> 1"
    by (auto simp: score_reliability_def dict_get_or_def split: option.split)
qed

lemma overall_bounds:
  assumes "rates_ok rates"
  shows "0 \<le> vs_overall (score_response rates c x p m) \<and> vs_overall (score_response rates c x p m) \<le> 1"
  using score_quality_bounds [of c] score_cost_bounds [of p m] score_latency_bounds [of x]
    score_reliability_bounds [OF assms, of p]
  by (simp add: score_response_def Let_def)

text \<open>Every score of a response is between nought and one, so the weights of the vote make the
  overall score one too, and the winner of a vote has the best overall score.\<close>

theorem vote_scores_bounded:
  assumes "rates_ok rates"
  shows "0 \<le> vs_overall (score_response rates content ms p m) \<and>
    vs_overall (score_response rates content ms p m) \<le> 1 \<and>
    (v \<in> set votes \<longrightarrow>
      choose_winner votes \<in> set votes \<and>
      vs_overall (snd (snd (snd v))) \<le> vs_overall (snd (snd (snd (choose_winner votes)))))"
proof -
  have "choose_winner votes \<in> set votes" if "v \<in> set votes"
    using that hd_in_set [of "sort_desc (\<lambda>(_, _, _, s). vs_overall s) votes"]
    by (auto simp: choose_winner_def)
  moreover have "vs_overall (snd (snd (snd v))) \<le> vs_overall (snd (snd (snd (choose_winner votes))))"
    if "v \<in> set votes"
    using hd_sort_desc [OF that, of "\<lambda>(_, _, _, s). vs_overall s"] that
    by (auto simp: choose_winner_def case_prod_unfold)
  ultimately show ?thesis using overall_bounds [OF assms] by blast
qed

lemma winner_group:
  assumes "valid \<noteq> []"
  defines "w \<equiv> max_by length (map snd (group_by simplified valid))"
  shows "w = filter (\<lambda>a. simplified a = simplified (hd w)) valid" and "w \<noteq> []"
    and "set w \<subseteq> set valid"
    and "a \<in> set valid \<Longrightarrow> length (filter (\<lambda>b. simplified b = simplified a) valid) \<le> length w"
proof -
  have "w \<in> set (map snd (group_by simplified valid))"
    unfolding w_def using assms(1) by (intro max_by_in) simp
  then obtain k where "(k, w) \<in> set (group_by simplified valid)" by auto
  then have "dict_get (group_by simplified valid) k = Some w"
    by (simp add: dict_ok_getI)
  then have k: "k \<in> simplified ` set valid" "w = filter (\<lambda>a. simplified a = k) valid"
    by (auto simp: dict_get_group_by split: if_splits)
  then show "w \<noteq> []" and "set w \<subseteq> set valid" by (auto simp: filter_empty_conv)
  then have "simplified (hd w) = k" using k(2) hd_in_set [of w] by auto
  with k(2) show "w = filter (\<lambda>a. simplified a = simplified (hd w)) valid" by simp
  assume "a \<in> set valid"
  then have "(simplified a, filter (\<lambda>b. simplified b = simplified a) valid) \<in> set (group_by simplified valid)"
    by (intro dict_get_in) (simp add: dict_get_group_by)
  then have "filter (\<lambda>b. simplified b = simplified a) valid \<in> set (map snd (group_by simplified valid))"
    by force
  then show "length (filter (\<lambda>b. simplified b = simplified a) valid) \<le> length w"
    unfolding w_def by (rule max_by_ge)
qed

text \<open>A majority vote returns an answer that some provider gave, counts the providers that gave
  the same answer (its first hundred characters, ignoring case), and no other answer has more votes.\<close>

theorem majority_vote_wins:
  assumes "valid_responses results \<noteq> []"
  shows "\<exists>r a. run_consensus rates providers results ''majority_vote'' = Inr r \<and>
    a \<in> set (valid_responses results) \<and> (cr_provider r, cr_model r, cr_content r) = (fst a, fst (snd a), fst (snd (snd a))) \<and>
    cr_votes r = length (filter (\<lambda>b. simplified b = simplified a) (valid_responses results)) \<and>
    cr_total_votes r = length (valid_responses results) \<and>
    (\<forall>b \<in> set (valid_responses results).
       length (filter (\<lambda>c. simplified c = simplified b) (valid_responses results)) \<le> cr_votes r)"
proof -
  let ?v = "valid_responses results"
  let ?w = "max_by length (map snd (group_by simplified ?v))"
  note w = winner_group [OF assms]
  have hd: "hd ?w \<in> set ?v"
    using hd_in_set [OF w(2)] w(3) by blast
  have "run_consensus rates providers results ''majority_vote'' =
      Inr (answer_result ''majority_vote'' [] (length ?w) (length ?v) (hd ?w))"
    using assms by (simp add: run_consensus_def Let_def)
  moreover have "length ?w = length (filter (\<lambda>b. simplified b = simplified (hd ?w)) ?v)"
    using w(1) by metis
  moreover have "cr_votes (answer_result s d n k a) = n" "cr_total_votes (answer_result s d n k a) = k"
    "cr_provider (answer_result s d n k a) = fst a" "cr_model (answer_result s d n k a) = fst (snd a)"
    "cr_content (answer_result s d n k a) = fst (snd (snd a))" for s d n k a
    by (simp_all add: answer_result_def case_prod_unfold)
  ultimately show ?thesis
    using hd w(4) by metis
qed

definition demo_answers :: "answer option list" where
  "demo_answers = [Some (''a'', ''m'', ''Yes'', 5), None, Some (''b'', ''m'', ''no'', 1), Some (''c'', ''m'', ''YES'', 9)]"

lemma demo_answers_result:
  "(case run_consensus [] [''a'', ''x'', ''b'', ''c''] demo_answers ''majority_vote'' of
      Inl e \<Rightarrow> ('''', 0, 0) | Inr r \<Rightarrow> (cr_content r, cr_votes r, cr_total_votes r)) = (''Yes'', 2, 3)"
  by code_simp

theorem majority_vote_wins_witness:
  "\<exists>r. run_consensus [] [''a'', ''x'', ''b'', ''c''] demo_answers ''majority_vote'' = Inr r \<and>
     cr_content r = ''Yes'' \<and> cr_votes r = 2 \<and> cr_total_votes r = 3"
proof -
  have "valid_responses demo_answers \<noteq> []"
    by (simp add: demo_answers_def valid_responses_def List.map_filter_def)
  from majority_vote_wins [OF this, of "[]" "[''a'', ''x'', ''b'', ''c'']"] show ?thesis
    using demo_answers_result by auto
qed

end
