(* ===== verification/Effects.thy ===== *)
theory Effects
  imports Prelude
begin

text \<open>
  Programs that change a state and may raise. An exception of Python keeps every change made
  before it was raised, so a program returns the new state in both cases. The second half is a
  small calculus for such programs: a triple states what holds after a normal return and what
  holds when the program raises, and its rules follow the structure of the program.
\<close>

type_synonym ('s, 'e, 'a) prog = "'s \<Rightarrow> ('e + 'a) \<times> 's"

definition ret :: "'a \<Rightarrow> ('s, 'e, 'a) prog" where
  "ret a s = (Inr a, s)"

definition throw :: "'e \<Rightarrow> ('s, 'e, 'a) prog" where
  "throw e s = (Inl e, s)"

definition andthen :: "('s, 'e, 'a) prog \<Rightarrow> ('a \<Rightarrow> ('s, 'e, 'b) prog) \<Rightarrow> ('s, 'e, 'b) prog" where
  "andthen m f s = (case m s of (Inl e, s') \<Rightarrow> (Inl e, s') | (Inr a, s') \<Rightarrow> f a s')"

definition gets :: "('s \<Rightarrow> 'a) \<Rightarrow> ('s, 'e, 'a) prog" where
  "gets f s = (Inr (f s), s)"

definition modify :: "('s \<Rightarrow> 's) \<Rightarrow> ('s, 'e, unit) prog" where
  "modify f s = (Inr (), f s)"

definition require :: "bool \<Rightarrow> 'e \<Rightarrow> ('s, 'e, unit) prog" where
  "require b e = (if b then ret () else throw e)"

definition lift_result :: "'e + 'a \<Rightarrow> ('s, 'e, 'a) prog" where
  "lift_result r s = (r, s)"

definition fetch :: "'e \<Rightarrow> ('s \<Rightarrow> 'a option) \<Rightarrow> ('s, 'e, 'a) prog" where
  "fetch e f s = (case f s of None \<Rightarrow> (Inl e, s) | Some a \<Rightarrow> (Inr a, s))"

text \<open>\<open>try ... except\<close>, and \<open>try ... except: handler; raise\<close>.\<close>

definition attempt :: "('s, 'e, 'a) prog \<Rightarrow> ('e \<Rightarrow> ('s, 'e, 'a) prog) \<Rightarrow> ('s, 'e, 'a) prog" where
  "attempt m h s = (case m s of (Inl e, s') \<Rightarrow> h e s' | (Inr a, s') \<Rightarrow> (Inr a, s'))"

text \<open>\<open>try: m finally: f\<close>.\<close>

definition always :: "('s, 'e, 'a) prog \<Rightarrow> ('s, 'e, unit) prog \<Rightarrow> ('s, 'e, 'a) prog" where
  "always m f s = (case m s of (r, s') \<Rightarrow> (case f s' of (Inl e, s'') \<Rightarrow> (Inl e, s'') | (Inr _, s'') \<Rightarrow> (r, s'')))"

definition final_state :: "('s, 'e, 'a) prog \<Rightarrow> 's \<Rightarrow> 's" where
  "final_state m s = snd (m s)"

definition succeeds :: "('s, 'e, 'a) prog \<Rightarrow> 's \<Rightarrow> bool" where
  "succeeds m s \<longleftrightarrow> is_ok (fst (m s))"

named_theorems prog_simps \<open>running programs\<close>

lemma run_simps [simp, prog_simps]:
  "ret a s = (Inr a, s)" "throw e s = (Inl e, s)" "gets f s = (Inr (f s), s)"
  "modify g s = (Inr (), g s)" "lift_result r s = (r, s)"
  by (simp_all add: ret_def throw_def gets_def modify_def lift_result_def)

lemma andthen_simps [simp, prog_simps]:
  "m s = (Inl e, s') \<Longrightarrow> andthen m f s = (Inl e, s')"
  "m s = (Inr a, s') \<Longrightarrow> andthen m f s = f a s'"
  by (simp_all add: andthen_def)

lemma require_run [simp, prog_simps]:
  "require b e s = (if b then Inr () else Inl e, s)"
  by (simp add: require_def)

lemma fetch_run [prog_simps]:
  "f s = None \<Longrightarrow> fetch e f s = (Inl e, s)" "f s = Some a \<Longrightarrow> fetch e f s = (Inr a, s)"
  by (simp_all add: fetch_def)

lemma andthen_assoc: "andthen (andthen m g) f = andthen m (\<lambda>x. andthen (g x) f)"
  by (auto simp: andthen_def split: sum.split prod.split intro!: ext)

lemma andthen_left:
  "andthen (ret a) f = f a" "andthen (throw e) h = throw e"
  "andthen (if c then m else n) k = (if c then andthen m k else andthen n k)"
  by (auto simp: andthen_def intro!: ext)

lemma andthen_ret: "andthen m ret = m"
  by (auto simp: andthen_def split: sum.split prod.split intro!: ext)

lemma lift_result_cases: "lift_result (Inl e) = throw e" "lift_result (Inr a) = ret a"
  by (auto intro!: ext)

lemmas andthen_norm = andthen_assoc andthen_left

lemma is_ok_fstD: "is_ok (fst r) \<Longrightarrow> \<exists>a s. r = (Inr a, s)"
  by (cases r; cases "fst r") auto

section \<open>Triples\<close>

definition triple ::
  "('s \<Rightarrow> bool) \<Rightarrow> ('s, 'e, 'a) prog \<Rightarrow> ('a \<Rightarrow> 's \<Rightarrow> bool) \<Rightarrow> ('e \<Rightarrow> 's \<Rightarrow> bool) \<Rightarrow> bool" where
  "triple P m Q E \<longleftrightarrow>
     (\<forall>s. P s \<longrightarrow> (case m s of (Inl e, s') \<Rightarrow> E e s' | (Inr a, s') \<Rightarrow> Q a s'))"

abbreviation keeps :: "('s \<Rightarrow> bool) \<Rightarrow> ('s, 'e, 'a) prog \<Rightarrow> bool" where
  "keeps I m \<equiv> triple I m (\<lambda>_. I) (\<lambda>_. I)"

lemma tripleI:
  assumes "\<And>s a s'. P s \<Longrightarrow> m s = (Inr a, s') \<Longrightarrow> Q a s'"
    and "\<And>s e s'. P s \<Longrightarrow> m s = (Inl e, s') \<Longrightarrow> E e s'"
  shows "triple P m Q E"
  unfolding triple_def using assms by (auto split: sum.split prod.split)

lemma tripleD:
  assumes "triple P m Q E" and "P s"
  shows "m s = (Inr a, s') \<Longrightarrow> Q a s'" and "m s = (Inl e, s') \<Longrightarrow> E e s'"
  using assms unfolding triple_def by (auto split: sum.splits prod.splits)

lemma keepsD: "keeps I m \<Longrightarrow> I s \<Longrightarrow> I (final_state m s)"
  unfolding triple_def final_state_def by (cases "m s") (auto split: sum.splits)

lemma triple_weaken:
  assumes "triple P' m Q' E'"
    and "\<And>s. P s \<Longrightarrow> P' s" and "\<And>a s. Q' a s \<Longrightarrow> Q a s" and "\<And>e s. E' e s \<Longrightarrow> E e s"
  shows "triple P m Q E"
  using assms unfolding triple_def by (fastforce split: sum.splits prod.splits)

lemma triple_andthen:
  assumes "triple P m R E" and "\<And>a. triple (R a) (f a) Q E"
  shows "triple P (andthen m f) Q E"
  using assms unfolding triple_def andthen_def by (fastforce split: sum.splits prod.splits)

lemma triple_attempt:
  assumes "triple P m Q F" and "\<And>e. triple (F e) (h e) Q E"
  shows "triple P (attempt m h) Q E"
  using assms unfolding triple_def attempt_def by (fastforce split: sum.splits prod.splits)

lemma triple_basic:
  "(\<And>s. P s \<Longrightarrow> Q a s) \<Longrightarrow> triple P (ret a) Q E"
  "(\<And>s. P s \<Longrightarrow> E e s) \<Longrightarrow> triple P (throw e) Q' E"
  "(\<And>s. P s \<Longrightarrow> R (f s) s) \<Longrightarrow> triple P (gets f) R E"
  "(\<And>s. P s \<Longrightarrow> S () (g s)) \<Longrightarrow> triple P (modify g) S E"
  by (simp_all add: triple_def)

lemma triple_require:
  "(\<And>s. P s \<Longrightarrow> b \<Longrightarrow> Q () s) \<Longrightarrow> (\<And>s. P s \<Longrightarrow> \<not> b \<Longrightarrow> E e s) \<Longrightarrow> triple P (require b e) Q E"
  by (simp add: triple_def)

lemma triple_lift_result:
  "(\<And>s a. P s \<Longrightarrow> r = Inr a \<Longrightarrow> Q a s) \<Longrightarrow> (\<And>s e. P s \<Longrightarrow> r = Inl e \<Longrightarrow> E e s) \<Longrightarrow>
    triple P (lift_result r) Q E"
  by (auto simp: triple_def split: sum.split)

lemma triple_fetch:
  "(\<And>s a. P s \<Longrightarrow> f s = Some a \<Longrightarrow> Q a s) \<Longrightarrow> (\<And>s. P s \<Longrightarrow> f s = None \<Longrightarrow> E e s) \<Longrightarrow>
    triple P (fetch e f) Q E"
  by (auto simp: triple_def fetch_def split: option.split)

lemma triple_if:
  "(b \<Longrightarrow> triple P m Q E) \<Longrightarrow> (\<not> b \<Longrightarrow> triple P n Q E) \<Longrightarrow> triple P (if b then m else n) Q E"
  by simp

lemma triple_option:
  "(x = None \<Longrightarrow> triple P m Q E) \<Longrightarrow> (\<And>a. x = Some a \<Longrightarrow> triple P (f a) Q E) \<Longrightarrow>
    triple P (case x of None \<Rightarrow> m | Some a \<Rightarrow> f a) Q E"
  by (cases x) simp_all

lemma triple_prod: "(\<And>a b. triple P (f a b) Q E) \<Longrightarrow> triple P (case p of (a, b) \<Rightarrow> f a b) Q E"
  by (cases p) simp

lemma triple_pre: "(\<And>s. P s \<Longrightarrow> P' s) \<Longrightarrow> triple P' m Q E \<Longrightarrow> triple P m Q E"
  by (erule triple_weaken) auto

lemma triple_pure: "(c \<Longrightarrow> triple P m Q E) \<Longrightarrow> triple (\<lambda>s. c \<and> P s) m Q E"
  by (simp add: triple_def)

text \<open>A list of programs run one after the other, whatever each of them raises.\<close>

definition run_all :: "('s, 'e, 'a) prog list \<Rightarrow> 's \<Rightarrow> 's" where
  "run_all ms s = fold final_state ms s"

lemma run_all_keeps:
  "(\<And>m. m \<in> set ms \<Longrightarrow> keeps I m) \<Longrightarrow> I s \<Longrightarrow> I (run_all ms s)"
  unfolding run_all_def
  by (induction ms arbitrary: s) (auto intro: keepsD)


section \<open>A program on a part of the state\<close>

definition zoom :: "('s \<Rightarrow> 't) \<Rightarrow> ('t \<Rightarrow> 's \<Rightarrow> 's) \<Rightarrow> ('t, 'e, 'a) prog \<Rightarrow> ('s, 'e, 'a) prog" where
  "zoom get put m s = (case m (get s) of (r, t) \<Rightarrow> (r, put t s))"

lemma zoom_run [prog_simps]: "m (get s) = (r, t) \<Longrightarrow> zoom get put m s = (r, put t s)"
  by (simp add: zoom_def)

lemma fst_zoom [simp]: "fst (zoom get put m s) = fst (m (get s))"
  by (simp add: zoom_def split: prod.split)

lemma snd_zoom [simp]: "snd (zoom get put m s) = put (snd (m (get s))) s"
  by (simp add: zoom_def split: prod.split)


section \<open>Strongest postconditions\<close>

text \<open>
  Rules that follow a program step by step and keep what each step has found out: after a read the
  precondition records the value, after a write it describes the state before it.
\<close>

lemma sp_fetch:
  "(\<And>a. triple (\<lambda>s. P s \<and> f s = Some a) (g a) Q E) \<Longrightarrow> (\<And>s. P s \<Longrightarrow> f s = None \<Longrightarrow> E e s) \<Longrightarrow>
    triple P (andthen (fetch e f) g) Q E"
  unfolding triple_def andthen_def fetch_def by (auto split: option.split)

lemma sp_require:
  "triple (\<lambda>s. P s \<and> b) (g ()) Q E \<Longrightarrow> (\<And>s. P s \<Longrightarrow> \<not> b \<Longrightarrow> E e s) \<Longrightarrow> triple P (andthen (require b e) g) Q E"
  unfolding triple_def andthen_def by auto

lemma sp_gets: "(\<And>a. triple (\<lambda>s. P s \<and> f s = a) (g a) Q E) \<Longrightarrow> triple P (andthen (gets f) g) Q E"
  unfolding triple_def andthen_def by auto

lemma sp_gets_pair:
  "(\<And>a b. triple (\<lambda>s. P s \<and> f s = (a, b)) (g a b) Q E) \<Longrightarrow> triple P (andthen (gets f) (\<lambda>(a, b). g a b)) Q E"
  by (rule sp_gets) (simp split: prod.split)

lemma sp_lift:
  "(\<And>a. r = Inr a \<Longrightarrow> triple P (g a) Q E) \<Longrightarrow> (\<And>s e. P s \<Longrightarrow> r = Inl e \<Longrightarrow> E e s) \<Longrightarrow>
    triple P (andthen (lift_result r) g) Q E"
  unfolding triple_def andthen_def by (cases r) auto

lemma sp_modify:
  "triple (\<lambda>s'. \<exists>s. P s \<and> s' = h s) (g ()) Q E \<Longrightarrow> triple P (andthen (modify h) g) Q E"
  unfolding triple_def andthen_def by auto

lemma sp_ret: "(\<And>s. P s \<Longrightarrow> Q a s) \<Longrightarrow> triple P (ret a) Q E"
  by (rule triple_basic)

lemma sp_throw: "(\<And>s. P s \<Longrightarrow> E e s) \<Longrightarrow> triple P (throw e) Q E"
  by (rule triple_basic)

lemma sp_lift_end:
  "(\<And>s a. P s \<Longrightarrow> r = Inr a \<Longrightarrow> Q a s) \<Longrightarrow> (\<And>s e. P s \<Longrightarrow> r = Inl e \<Longrightarrow> E e s) \<Longrightarrow> triple P (lift_result r) Q E"
  by (rule triple_lift_result)

lemma sp_call:
  "triple P m R E \<Longrightarrow> (\<And>a. triple (R a) (g a) Q E) \<Longrightarrow> triple P (andthen m g) Q E"
  by (rule triple_andthen)

lemma sp_pure:
  "(\<And>P. keeps P m) \<Longrightarrow> (\<And>a. triple P (g a) Q E) \<Longrightarrow> (\<And>e s. P s \<Longrightarrow> E e s) \<Longrightarrow> triple P (andthen m g) Q E"
  by (rule triple_andthen [of P m "\<lambda>_. P"], rule triple_weaken [of P m "\<lambda>_. P" "\<lambda>_. P"]) auto

lemma sp_option:
  "(x = None \<Longrightarrow> triple P (andthen m g) Q E) \<Longrightarrow> (\<And>a. x = Some a \<Longrightarrow> triple P (andthen (f a) g) Q E) \<Longrightarrow>
    triple P (andthen (case x of None \<Rightarrow> m | Some a \<Rightarrow> f a) g) Q E"
  by (cases x) simp_all

lemma sp_assoc: "triple P (andthen m (\<lambda>a. andthen (f a) g)) Q E \<Longrightarrow> triple P (andthen (andthen m f) g) Q E"
  by (simp add: andthen_norm)

lemma sp_ret_then: "triple P (g a) Q E \<Longrightarrow> triple P (andthen (ret a) g) Q E"
  by (simp add: triple_def andthen_def ret_def)

lemmas sp_rules = sp_fetch sp_require sp_gets_pair sp_gets sp_lift sp_modify sp_ret sp_throw sp_lift_end triple_if triple_option


section \<open>Parts of the state that a program leaves alone\<close>

definition unchanged :: "('s \<Rightarrow> 't) \<Rightarrow> ('s, 'e, 'a) prog \<Rightarrow> bool" where
  "unchanged f m \<longleftrightarrow> (\<forall>s. f (snd (m s)) = f s)"

named_theorems unchanged_rules \<open>parts of the state that programs leave alone\<close>

lemma unchangedD: "unchanged f m \<Longrightarrow> m s = (r, s') \<Longrightarrow> f s' = f s"
  unfolding unchanged_def by (metis snd_conv)

lemma unchanged_triple: "unchanged f m \<Longrightarrow> triple (\<lambda>s. P (f s)) m (\<lambda>_ s. P (f s)) (\<lambda>_ s. P (f s))"
  unfolding unchanged_def triple_def by (auto split: sum.split prod.split) (metis snd_conv)+

lemma unchanged_basic [unchanged_rules, simp]:
  "unchanged f (ret a)" "unchanged f (throw e)" "unchanged f (gets h)" "unchanged f (require b e)"
  "unchanged f (lift_result r)" "unchanged f (fetch e' g)"
  by (simp_all add: unchanged_def fetch_def split: option.split)

lemma unchanged_modify: "(\<And>s. f (h s) = f s) \<Longrightarrow> unchanged f (modify h)"
  by (simp add: unchanged_def)

lemma unchanged_andthen [unchanged_rules]:
  "unchanged f m \<Longrightarrow> (\<And>a. unchanged f (g a)) \<Longrightarrow> unchanged f (andthen m g)"
  unfolding unchanged_def andthen_def by (auto split: sum.split prod.split) (metis snd_conv)+

lemma unchanged_attempt [unchanged_rules]:
  "unchanged f m \<Longrightarrow> (\<And>e. unchanged f (h e)) \<Longrightarrow> unchanged f (attempt m h)"
  unfolding unchanged_def attempt_def by (auto split: sum.split prod.split) (metis snd_conv)+

lemma unchanged_always [unchanged_rules]:
  "unchanged f m \<Longrightarrow> unchanged f n \<Longrightarrow> unchanged f (always m n)"
  unfolding unchanged_def always_def by (auto split: sum.split prod.split) (metis snd_conv)+

lemma unchanged_if [unchanged_rules]: "unchanged f m \<Longrightarrow> unchanged f n \<Longrightarrow> unchanged f (if b then m else n)"
  by simp

lemma unchanged_option [unchanged_rules]:
  "unchanged f m \<Longrightarrow> (\<And>a. unchanged f (g a)) \<Longrightarrow> unchanged f (case x of None \<Rightarrow> m | Some a \<Rightarrow> g a)"
  by (cases x) simp_all

lemma unchanged_prod [unchanged_rules]: "(\<And>a b. unchanged f (g a b)) \<Longrightarrow> unchanged f (case p of (a, b) \<Rightarrow> g a b)"
  by (cases p) simp

section \<open>Invariants\<close>

lemma keeps_andthen: "keeps I m \<Longrightarrow> (\<And>a. keeps I (g a)) \<Longrightarrow> keeps I (andthen m g)"
  by (rule triple_andthen)

lemma keeps_attempt: "keeps I m \<Longrightarrow> (\<And>e. keeps I (h e)) \<Longrightarrow> keeps I (attempt m h)"
  by (rule triple_attempt)

lemma keeps_if: "keeps I m \<Longrightarrow> keeps I n \<Longrightarrow> keeps I (if b then m else n)"
  by simp

lemma keeps_option: "keeps I m \<Longrightarrow> (\<And>a. keeps I (g a)) \<Longrightarrow> keeps I (case x of None \<Rightarrow> m | Some a \<Rightarrow> g a)"
  by (cases x) simp_all

lemma keeps_prod: "(\<And>a b. keeps I (k a b)) \<Longrightarrow> keeps I (case p of (a, b) \<Rightarrow> k a b)"
  by (cases p) simp

lemma keeps_state: "keeps I m \<longleftrightarrow> (\<forall>s. I s \<longrightarrow> I (snd (m s)))"
  unfolding triple_def by (auto split: sum.split prod.split) (metis snd_conv sum.exhaust surj_pair)+

lemma keeps_always: "keeps I m \<Longrightarrow> keeps I n \<Longrightarrow> keeps I (always m n)"
  unfolding keeps_state always_def by (auto split: sum.split prod.split)

lemmas keeps_rules = keeps_andthen keeps_attempt keeps_always keeps_if keeps_option keeps_prod

text \<open>A program whose result does not matter.\<close>

definition void :: "('s, 'e, 'a) prog \<Rightarrow> ('s, 'e, unit) prog" where
  "void m = andthen m (\<lambda>_. ret ())"

lemma final_void [simp]: "final_state (void m) s = final_state m s"
  by (simp add: final_state_def void_def andthen_def split: prod.split sum.split)

lemma keeps_void: "keeps I m \<Longrightarrow> keeps I (void m)"
  unfolding void_def by (intro keeps_andthen) (simp_all add: keeps_state)

lemma unchanged_void [unchanged_rules]: "unchanged f m \<Longrightarrow> unchanged f (void m)"
  unfolding void_def by (intro unchanged_rules)

end
