(* ===== verification/Lifecycle.thy ===== *)
theory Lifecycle
  imports Interfaces
begin

text \<open>
  The two checked state machines of the program: the life cycle of plugins
  (\<open>app/plugins/lifecycle.py\<close>), kept per plugin name in one table, and the life cycle of
  subscriptions (\<open>app/billing/lifecycle.py\<close>), a state object per status over the subscription
  record. Both interpret the transition table interface.
\<close>

section \<open>Plugins\<close>

datatype plugin_status =
  P_DRAFT | P_INSTALLING | P_INSTALLED | P_VERIFYING | P_VERIFIED | P_ENABLING | P_ENABLED
| P_DISABLED | P_UPDATING | P_ROLLING_BACK | P_ROLLED_BACK | P_UNINSTALLING | P_UNINSTALLED
| P_FAILED

fun valid_transitions :: "plugin_status \<Rightarrow> plugin_status set" where
  "valid_transitions P_DRAFT = {P_INSTALLING, P_FAILED}"
| "valid_transitions P_INSTALLING = {P_INSTALLED, P_FAILED}"
| "valid_transitions P_INSTALLED = {P_VERIFYING, P_UNINSTALLING, P_FAILED}"
| "valid_transitions P_VERIFYING = {P_VERIFIED, P_FAILED}"
| "valid_transitions P_VERIFIED = {P_ENABLING, P_DISABLED, P_UPDATING, P_UNINSTALLING, P_FAILED}"
| "valid_transitions P_ENABLING = {P_ENABLED, P_FAILED}"
| "valid_transitions P_ENABLED = {P_DISABLED, P_UPDATING, P_UNINSTALLING}"
| "valid_transitions P_DISABLED = {P_ENABLING, P_UPDATING, P_UNINSTALLING}"
| "valid_transitions P_UPDATING = {P_ENABLED, P_DISABLED, P_ROLLING_BACK, P_FAILED}"
| "valid_transitions P_ROLLING_BACK = {P_ENABLED, P_DISABLED, P_ROLLED_BACK, P_FAILED}"
| "valid_transitions P_ROLLED_BACK = {P_ENABLING, P_DISABLED, P_UNINSTALLING, P_UPDATING}"
| "valid_transitions P_UNINSTALLING = {P_UNINSTALLED, P_FAILED}"
| "valid_transitions P_UNINSTALLED = {}"
| "valid_transitions P_FAILED = {P_UNINSTALLING, P_INSTALLING}"

type_synonym plugin_states = "(string, plugin_status) dict"

datatype lifecycle_error = PluginLifecycleError string plugin_status plugin_status

definition lc_initialize :: "string \<Rightarrow> plugin_status \<Rightarrow> plugin_states \<Rightarrow> plugin_states" where
  "lc_initialize nm st s = dict_set nm st s"

definition lc_state :: "plugin_states \<Rightarrow> string \<Rightarrow> plugin_status" where
  "lc_state s nm = dict_get_or s nm P_DRAFT"

definition lc_is_installed :: "plugin_states \<Rightarrow> string \<Rightarrow> bool" where
  "lc_is_installed s nm \<longleftrightarrow>
     lc_state s nm \<in> {P_INSTALLED, P_ENABLED, P_DISABLED, P_VERIFIED, P_ROLLED_BACK}"

definition lc_is_enabled :: "plugin_states \<Rightarrow> string \<Rightarrow> bool" where
  "lc_is_enabled s nm \<longleftrightarrow> lc_state s nm = P_ENABLED"

definition lc_can_transition :: "plugin_states \<Rightarrow> string \<Rightarrow> plugin_status \<Rightarrow> bool" where
  "lc_can_transition s nm st \<longleftrightarrow> st \<in> valid_transitions (lc_state s nm)"

definition lc_transition ::
  "string \<Rightarrow> plugin_status \<Rightarrow> plugin_states \<Rightarrow> lifecycle_error + plugin_states" where
  "lc_transition nm st s =
     (let current = lc_state s nm
      in if st \<notin> valid_transitions current then Inl (PluginLifecycleError nm current st)
         else Inr (dict_set nm st s))"

definition lc_drop :: "string \<Rightarrow> plugin_states \<Rightarrow> plugin_states" where
  "lc_drop nm s = dict_pop nm s"

text \<open>The transitions of one plugin, one after the other, ending with the first that raises.\<close>

fun lc_run :: "string \<Rightarrow> plugin_status list \<Rightarrow> plugin_states \<Rightarrow> lifecycle_error + plugin_states" where
  "lc_run nm [] s = Inr s"
| "lc_run nm (st # sts) s = bind_result (lc_transition nm st s) (lc_run nm sts)"

section \<open>Subscriptions\<close>

datatype subscription_status = S_TRIAL | S_ACTIVE | S_PAST_DUE | S_PAUSED | S_CANCELLED

record subscription =
  sub_id :: string
  sub_tenant_id :: string
  sub_plan_id :: string
  sub_status :: subscription_status
  sub_interval :: string
  sub_seats :: int
  sub_price :: pyfloat
  sub_started_at :: pyfloat
  sub_period_start :: pyfloat
  sub_period_end :: pyfloat
  sub_trial_end :: pyfloat
  sub_grace_end :: pyfloat
  sub_cancel_at_period_end :: bool
  sub_cancelled_at :: pyfloat
  sub_auto_renew :: bool
  sub_provider :: string
  sub_provider_subscription_id :: string
  sub_coupon_code :: string
  sub_metadata :: "(string, string) dict"
  sub_created_at :: pyfloat
  sub_updated_at :: pyfloat

fun allowed_targets :: "subscription_status \<Rightarrow> subscription_status set" where
  "allowed_targets S_TRIAL = {S_ACTIVE, S_PAST_DUE, S_PAUSED, S_CANCELLED}"
| "allowed_targets S_ACTIVE = {S_PAST_DUE, S_PAUSED, S_CANCELLED, S_TRIAL}"
| "allowed_targets S_PAST_DUE = {S_ACTIVE, S_CANCELLED, S_PAUSED}"
| "allowed_targets S_PAUSED = {S_ACTIVE, S_CANCELLED}"
| "allowed_targets S_CANCELLED = {S_ACTIVE}"

text \<open>The exceptions of the billing package; \<open>BillingError\<close> is the base class raised as such, and
  \<open>ValueErrorB\<close> the built-in exception of an unknown enumeration value.\<close>

datatype billing_error =
    InvalidTransitionError subscription_status subscription_status
  | PlanNotFoundError string
  | SubscriptionNotFoundError string
  | SubscriptionAlreadyExistsError string
  | InvoiceNotFoundError string
  | InvoiceAlreadyPaidError string
  | InvoiceError string
  | PaymentFailedError string
  | PaymentError string
  | ProviderConfigurationError string
  | CouponNotFoundError string
  | CouponExpiredError string
  | CouponExhaustedError string
  | CouponInvalidError string string
  | UsageRecordingError string
  | WebhookVerificationError string
  | WebhookEventError string
  | BillingError string
  | ValueErrorB string

definition sub_can_transition :: "subscription_status \<Rightarrow> subscription_status \<Rightarrow> bool" where
  "sub_can_transition st target \<longleftrightarrow> target \<in> allowed_targets st"

definition sub_transition :: "subscription_status \<Rightarrow> subscription \<Rightarrow> billing_error + subscription" where
  "sub_transition target sub =
     (if \<not> sub_can_transition (sub_status sub) target
      then Inl (InvalidTransitionError (sub_status sub) target)
      else Inr (sub\<lparr>sub_status := target\<rparr>))"

section \<open>The tables at work\<close>

interpretation plugin_machine:
  transition_table valid_transitions "\<lambda>s. lc_state s nm" "lc_transition nm" for nm
  by unfold_locales (auto simp: lc_transition_def lc_state_def Let_def)

interpretation subscription_machine: transition_table allowed_targets sub_status sub_transition
  by unfold_locales (auto simp: sub_transition_def sub_can_transition_def)

lemma lc_run_fire_all: "lc_run nm sts s = plugin_machine.fire_all nm sts s"
proof (induction sts arbitrary: s)
  case (Cons st sts)
  then have "lc_run nm sts = plugin_machine.fire_all nm sts" by (rule ext)
  then show ?case by simp
qed simp

lemma lc_run_other: "lc_run nm sts s = Inr s' \<Longrightarrow> nm' \<noteq> nm \<Longrightarrow> lc_state s' nm' = lc_state s nm'"
  by (induction sts arbitrary: s)
    (auto simp: bind_result_eq_Inr lc_transition_def lc_state_def Let_def split: if_splits)

text \<open>The statuses a plugin can be in without having been verified since it was last outside.\<close>

definition unverified :: "plugin_status set" where
  "unverified = {P_DRAFT, P_INSTALLING, P_INSTALLED, P_VERIFYING, P_UNINSTALLING, P_UNINSTALLED, P_FAILED}"

lemma unverified_gated: "q \<in> unverified \<Longrightarrow> t \<in> valid_transitions q \<Longrightarrow> t \<in> unverified \<or> t \<in> {P_VERIFIED}"
  by (cases q) (auto simp: unverified_def)

text \<open>
  No plugin is enabled unverified: if a plugin that is a draft, or has failed, or is being
  uninstalled is enabled after some sequence of accepted transitions, then verification was
  passed within that sequence, the plugin was not uninstalled within it, and the states of all
  other plugins are as before.
\<close>

theorem plugin_enabled_only_verified:
  assumes "lc_state s nm \<in> {P_DRAFT, P_FAILED, P_INSTALLING, P_UNINSTALLING}"
    and "lc_run nm sts s = Inr s'" and "lc_is_enabled s' nm"
  shows "P_VERIFIED \<in> set sts \<and> (\<forall>nm'. nm' \<noteq> nm \<longrightarrow> lc_state s' nm' = lc_state s nm')
    \<and> P_UNINSTALLED \<notin> set sts"
proof -
  have run: "plugin_machine.fire_all nm sts s = Inr s'" using assms(2) by (simp add: lc_run_fire_all)
  have "lc_state s nm \<in> unverified" "lc_state s' nm \<notin> unverified"
    using assms(1,3) by (auto simp: unverified_def lc_is_enabled_def)
  from plugin_machine.fire_all_gated [OF unverified_gated this(1) run this(2)]
  have "P_VERIFIED \<in> set sts" by simp
  moreover have "P_UNINSTALLED \<notin> set sts"
  proof
    assume "P_UNINSTALLED \<in> set sts"
    then obtain us vs where sts: "sts = us @ P_UNINSTALLED # vs" by (auto simp: in_set_conv_decomp)
    have path: "plugin_machine.path (lc_state s nm) sts"
      using run plugin_machine.fire_all_path [of nm sts s] by simp
    with plugin_machine.path_terminal [of P_UNINSTALLED _ us vs] sts have "vs = []" by simp
    with sts have "last (lc_state s nm # sts) = P_UNINSTALLED" by simp
    with plugin_machine.fire_all_last [OF run] assms(3) show False by (simp add: lc_is_enabled_def)
  qed
  ultimately show ?thesis using lc_run_other [OF assms(2)] by blast
qed

theorem plugin_enabled_only_verified_witness:
  "let sts = [P_INSTALLING, P_INSTALLED, P_VERIFYING, P_VERIFIED, P_ENABLING, P_ENABLED]
   in lc_run ''p'' sts [] = Inr [(''p'', P_ENABLED)] \<and> P_VERIFIED \<in> set sts"
proof -
  let ?sts = "[P_INSTALLING, P_INSTALLED, P_VERIFYING, P_VERIFIED, P_ENABLING, P_ENABLED]"
  have run: "lc_run ''p'' ?sts [] = Inr [(''p'', P_ENABLED)]"
    by (simp add: lc_transition_def lc_state_def dict_get_or_def)
  have "P_VERIFIED \<in> set ?sts"
    using plugin_enabled_only_verified [OF _ run]
    by (simp add: lc_state_def lc_is_enabled_def dict_get_or_def)
  with run show ?thesis by simp
qed

text \<open>The statuses from which a failure cannot be recorded.\<close>

lemma failed_not_allowed:
  "{q. P_FAILED \<notin> valid_transitions q} =
     {P_ENABLED, P_DISABLED, P_ROLLED_BACK, P_UNINSTALLED, P_FAILED}"
proof (rule set_eqI)
  fix q
  show "q \<in> {q. P_FAILED \<notin> valid_transitions q} \<longleftrightarrow>
      q \<in> {P_ENABLED, P_DISABLED, P_ROLLED_BACK, P_UNINSTALLED, P_FAILED}"
    by (cases q) simp_all
qed

text \<open>Every subscription status can be reached again from every other one.\<close>

lemma subscription_live: "\<exists>ts. is_ok (subscription_machine.fire_all (ts @ [S_ACTIVE]) sub)
    \<or> sub_status sub = S_ACTIVE"
  by (cases "sub_status sub") (auto simp: subscription_machine.fire_all_path intro: exI [of _ "[]"])

lemma subscription_paused_exits:
  "sub_status sub = S_PAUSED \<Longrightarrow> sub_transition target sub = Inr sub' \<Longrightarrow>
     target \<in> {S_ACTIVE, S_CANCELLED} \<and> sub' = sub\<lparr>sub_status := target\<rparr>"
  by (auto simp: sub_transition_def sub_can_transition_def split: if_splits)

end
