(* ===== verification/Billing.thy ===== *)
theory Billing
  imports Effects Decimal Lifecycle "HOL-Library.List_Lexorder" "HOL-Library.Char_ord"
begin

text \<open>
  The services of \<open>src/app/billing\<close> below the manager: plans and pricing strategies
  (\<open>plans.py\<close>), coupons (\<open>coupons.py\<close>), taxes (\<open>taxation.py\<close>), usage metering (\<open>usage.py\<close>),
  invoices (\<open>invoicing.py\<close>), payment providers (\<open>providers.py\<close>) and the in-memory repositories
  (\<open>repository.py\<close>). Operations are programs over the record \<open>billing\<close> that holds all
  repositories. A fresh id or reference is an argument, and so is the HTTP status that a payment
  provider answers with.
\<close>

section \<open>Data\<close>

datatype plan_tier = T_FREE | T_STARTER | T_PROFESSIONAL | T_TEAM | T_ENTERPRISE | T_CUSTOM

text \<open>The price tiers of a plan are the list that its \<open>limits\<close> may hold under the key \<open>tiers\<close>; the
  unit rates are the numeric entries of its \<open>metadata\<close>.\<close>

record price_tier =
  ti_threshold :: int
  ti_price :: pyfloat
  ti_dimension :: string

record plan =
  pl_id :: string
  pl_name :: string
  pl_tier :: plan_tier
  pl_price_monthly :: pyfloat
  pl_price_annual :: pyfloat
  pl_limits :: "(string, int) dict"
  pl_tiers :: "price_tier list"
  pl_features :: "string list"
  pl_supports_trial :: bool
  pl_is_custom :: bool
  pl_pricing_strategy :: string
  pl_rates :: "(string, pyfloat) dict"

definition price_for :: "plan \<Rightarrow> string \<Rightarrow> pyfloat" where
  "price_for p interval = (if interval = ''annual'' then pl_price_annual p else pl_price_monthly p)"

datatype usage_category =
    U_TOKENS | U_API_REQUESTS | U_VECTOR_STORAGE | U_EMBEDDINGS
  | U_MCP_CALLS | U_PLUGINS | U_UPLOADS | U_ACTIVE_USERS

fun category_value :: "usage_category \<Rightarrow> string" where
  "category_value U_TOKENS = ''tokens''"
| "category_value U_API_REQUESTS = ''api_requests''"
| "category_value U_VECTOR_STORAGE = ''vector_storage''"
| "category_value U_EMBEDDINGS = ''embeddings''"
| "category_value U_MCP_CALLS = ''mcp_calls''"
| "category_value U_PLUGINS = ''plugins''"
| "category_value U_UPLOADS = ''uploads''"
| "category_value U_ACTIVE_USERS = ''active_users''"

definition categories :: "usage_category list" where
  "categories = [U_TOKENS, U_API_REQUESTS, U_VECTOR_STORAGE, U_EMBEDDINGS, U_MCP_CALLS, U_PLUGINS,
     U_UPLOADS, U_ACTIVE_USERS]"

definition category_of :: "string \<Rightarrow> usage_category option" where
  "category_of s = find (\<lambda>c. category_value c = s) categories"

record usage_record =
  ur_tenant_id :: string
  ur_category :: usage_category
  ur_amount :: int
  ur_recorded_at :: pyfloat

record usage_meter =
  um_category :: usage_category
  um_unit :: string
  um_limit :: int
  um_used :: int
  um_overage :: bool

datatype coupon_type = CT_PERCENT | CT_FIXED_AMOUNT | CT_TRIAL_EXTENSION

record coupon =
  co_code :: string
  co_type :: coupon_type
  co_value :: pyfloat
  co_max_redemptions :: int
  co_redemptions :: int
  co_expires_at :: pyfloat
  co_applies_to :: "string list"

datatype invoice_status = I_DRAFT | I_PENDING | I_PAID | I_OVERDUE | I_VOID

record invoice_line =
  il_description :: string
  il_quantity :: int
  il_unit_amount :: pyfloat
  il_category :: string

definition line_amount :: "invoice_line \<Rightarrow> pyfloat" where
  "line_amount l = py_round 4 (of_int (il_quantity l) * il_unit_amount l)"

record invoice =
  in_id :: string
  in_number :: string
  in_tenant_id :: string
  in_subscription_id :: string
  in_lines :: "invoice_line list"
  in_subtotal :: pyfloat
  in_discount :: pyfloat
  in_tax :: pyfloat
  in_total :: pyfloat
  in_currency :: string
  in_status :: invoice_status
  in_period_start :: pyfloat
  in_period_end :: pyfloat
  in_due_at :: pyfloat
  in_paid_at :: pyfloat
  in_coupon_code :: string

datatype payment_status = PS_PENDING | PS_COMPLETED | PS_FAILED | PS_REFUNDED

record payment =
  py_id :: string
  py_tenant_id :: string
  py_invoice_id :: string
  py_amount :: pyfloat
  py_provider :: string
  py_method :: string
  py_status :: payment_status
  py_reference :: string

record billing_config =
  bc_currency :: string
  bc_tax_rate :: pyfloat
  bc_default_provider :: string
  bc_default_interval :: string
  bc_trial_days :: int
  bc_grace_days :: int
  bc_invoice_prefix :: string
  bc_invoice_due_days :: int
  bc_default_free_plan :: string
  bc_prorate_changes :: bool
  bc_auto_renew :: bool
  bc_secrets :: "(string, string) dict"

definition default_billing_config :: billing_config where
  "default_billing_config = \<lparr>bc_currency = ''USD'', bc_tax_rate = 0, bc_default_provider = ''manual'',
     bc_default_interval = ''monthly'', bc_trial_days = 14, bc_grace_days = 3,
     bc_invoice_prefix = ''AIR-'', bc_invoice_due_days = 7, bc_default_free_plan = ''free'',
     bc_prorate_changes = True, bc_auto_renew = True, bc_secrets = []\<rparr>"

text \<open>The repositories, the plan catalogue, the tax table; what the observers were told last of each
  tenant (the plan whose limits were synchronised), the published events and the ids of the
  webhook events already seen.\<close>

record billing =
  bl_subs :: "(string, subscription) dict"
  bl_invoices :: "(string, invoice) dict"
  bl_payments :: "(string, payment) dict"
  bl_coupons :: "(string, coupon) dict"
  bl_usage :: "usage_record list"
  bl_plans :: "(string, plan) dict"
  bl_taxes :: "(string, pyfloat) dict"
  bl_synced :: "(string, string) dict"
  bl_events :: "(string \<times> string) list"
  bl_webhooks :: "string list"

type_synonym 'a bill = "(billing, billing_error, 'a) prog"

section \<open>Plans and prices\<close>

definition plan_limits :: "int \<Rightarrow> int \<Rightarrow> int \<Rightarrow> int \<Rightarrow> int \<Rightarrow> int \<Rightarrow> int \<Rightarrow> int \<Rightarrow> (string, int) dict" where
  "plan_limits tokens requests storage embeddings mcp plugins uploads users =
    [(''tokens'', tokens), (''api_requests'', requests), (''vector_storage'', storage),
     (''embeddings'', embeddings), (''mcp_calls'', mcp), (''plugins'', plugins),
     (''uploads'', uploads), (''active_users'', users)]"

definition catalog_plan ::
  "string \<Rightarrow> string \<Rightarrow> plan_tier \<Rightarrow> pyfloat \<Rightarrow> pyfloat \<Rightarrow> bool \<Rightarrow> bool \<Rightarrow> (string, int) dict \<Rightarrow> string list \<Rightarrow> plan" where
  "catalog_plan i nm tier monthly annual trial custom lims feats =
    \<lparr>pl_id = i, pl_name = nm, pl_tier = tier, pl_price_monthly = monthly, pl_price_annual = annual,
     pl_limits = lims, pl_tiers = [], pl_features = feats, pl_supports_trial = trial,
     pl_is_custom = custom, pl_pricing_strategy = ''flat'', pl_rates = []\<rparr>"

definition default_plans :: "(string, plan) dict" where
  "default_plans =
    [(''free'', catalog_plan ''free'' ''Free'' T_FREE 0 0 False False
        (plan_limits 100000 1000 100 5000 50 1 20 1)
        [''1 active user'', ''1 plugin'', ''Community support'']),
     (''starter'', catalog_plan ''starter'' ''Starter'' T_STARTER 29 290 True False
        (plan_limits 2000000 50000 2000 100000 500 3 200 5)
        [''5 users'', ''3 plugins'', ''MCP access'']),
     (''professional'', catalog_plan ''professional'' ''Professional'' T_PROFESSIONAL 99 990 True False
        (plan_limits 10000000 250000 20000 500000 2000 10 1000 20)
        [''20 users'', ''10 plugins'', ''Webhooks'']),
     (''team'', catalog_plan ''team'' ''Team'' T_TEAM 299 2990 True False
        (plan_limits 50000000 1000000 100000 2000000 10000 25 5000 100)
        [''100 users'', ''25 plugins'', ''SSO'', ''Audit logs'']),
     (''enterprise'', catalog_plan ''enterprise'' ''Enterprise'' T_ENTERPRISE 999 9990 True False
        (plan_limits 200000000 5000000 500000 10000000 50000 100 25000 500)
        [''500 users'', ''100 plugins'', ''Dedicated support'', ''SLA'']),
     (''custom'', catalog_plan ''custom'' ''Custom'' T_CUSTOM 0 0 False True
        (plan_limits 0 0 0 0 0 0 0 0)
        [''Tailored limits'', ''Custom contract''])]"

definition plan_get :: "string \<Rightarrow> plan bill" where
  "plan_get pid = fetch (PlanNotFoundError pid) (\<lambda>b. dict_get (bl_plans b) pid)"

definition plan_register :: "plan \<Rightarrow> plan bill" where
  "plan_register p = andthen (modify (\<lambda>b. b\<lparr>bl_plans := dict_set (pl_id p) p (bl_plans b)\<rparr>)) (\<lambda>_. ret p)"

definition plan_remove :: "string \<Rightarrow> bool bill" where
  "plan_remove pid =
    andthen (gets (\<lambda>b. dict_has (bl_plans b) pid)) (\<lambda>there.
      if there then andthen (modify (\<lambda>b. b\<lparr>bl_plans := dict_pop pid (bl_plans b)\<rparr>)) (\<lambda>_. ret True)
      else ret False)"

definition flat_price :: "plan \<Rightarrow> (string, int) dict \<Rightarrow> int \<Rightarrow> string \<Rightarrow> pyfloat" where
  "flat_price p usage seats interval = price_for p interval * of_int (max 1 seats)"

definition per_seat_price :: "plan \<Rightarrow> (string, int) dict \<Rightarrow> int \<Rightarrow> string \<Rightarrow> pyfloat" where
  "per_seat_price p usage seats interval = price_for p interval * of_int (max 1 seats)"

definition tiered_price :: "plan \<Rightarrow> (string, int) dict \<Rightarrow> int \<Rightarrow> string \<Rightarrow> pyfloat" where
  "tiered_price p usage seats interval =
    py_round 4 (fold (\<lambda>t acc. if ti_threshold t < dict_get_or usage (ti_dimension t) 0
                              then acc + ti_price t else acc)
                  (pl_tiers p) (price_for p interval * of_int (max 1 seats)))"

definition usage_price :: "plan \<Rightarrow> (string, int) dict \<Rightarrow> int \<Rightarrow> string \<Rightarrow> pyfloat" where
  "usage_price p usage seats interval =
    py_round 4 (fold (\<lambda>(dim, included) acc.
        if starts_with ''_'' dim \<or> dim = ''tiers'' then acc
        else let used = dict_get_or usage dim 0; rate = dict_get_or (pl_rates p) (dim @ ''_rate'') 0
             in if rate \<noteq> 0 \<and> included < used then acc + of_int (used - included) * rate else acc)
      (pl_limits p) (price_for p interval * of_int (max 1 seats)))"

definition strategy_price :: "string \<Rightarrow> plan \<Rightarrow> (string, int) dict \<Rightarrow> int \<Rightarrow> string \<Rightarrow> pyfloat" where
  "strategy_price nm =
    (if nm = ''per_seat'' then per_seat_price else if nm = ''tiered'' then tiered_price
     else if nm = ''usage'' then usage_price else flat_price)"

definition engine_price ::
  "string \<Rightarrow> (string, int) dict \<Rightarrow> int \<Rightarrow> string \<Rightarrow> string option \<Rightarrow> pyfloat bill" where
  "engine_price pid usage seats interval strategy =
    andthen (plan_get pid) (\<lambda>p.
      let nm = (case strategy of Some s \<Rightarrow> if s = '''' then pl_pricing_strategy p else s
                | None \<Rightarrow> pl_pricing_strategy p)
      in ret (py_round 4 (strategy_price nm p usage seats interval)))"

definition create_custom_plan ::
  "string \<Rightarrow> string \<Rightarrow> pyfloat \<Rightarrow> (string, int) dict \<Rightarrow> string list \<Rightarrow> string \<Rightarrow> plan bill" where
  "create_custom_plan pid nm price lims feats strategy =
    plan_register \<lparr>pl_id = pid, pl_name = nm, pl_tier = T_CUSTOM, pl_price_monthly = price,
      pl_price_annual = price * 10,
      pl_limits = (if lims = [] then plan_limits 0 0 0 0 0 0 0 0 else lims), pl_tiers = [],
      pl_features = feats, pl_supports_trial = False, pl_is_custom = True,
      pl_pricing_strategy = strategy, pl_rates = []\<rparr>"

section \<open>Coupons\<close>

definition coupon_type_of :: "string \<Rightarrow> coupon_type option" where
  "coupon_type_of s = (if s = ''percent'' then Some CT_PERCENT
     else if s = ''fixed_amount'' then Some CT_FIXED_AMOUNT
     else if s = ''trial_extension'' then Some CT_TRIAL_EXTENSION else None)"

definition coupon_create ::
  "string \<Rightarrow> string \<Rightarrow> pyfloat \<Rightarrow> int \<Rightarrow> pyfloat \<Rightarrow> string list \<Rightarrow> coupon bill" where
  "coupon_create code typ val max_red expires applies =
    andthen (fetch (ValueErrorB typ) (\<lambda>_. coupon_type_of typ)) (\<lambda>t.
      let c = \<lparr>co_code = py_upper code, co_type = t, co_value = val, co_max_redemptions = max_red,
               co_redemptions = 0, co_expires_at = expires, co_applies_to = applies\<rparr>
      in andthen (modify (\<lambda>b. b\<lparr>bl_coupons := dict_set (py_upper (co_code c)) c (bl_coupons b)\<rparr>))
           (\<lambda>_. ret c))"

definition coupon_get :: "string \<Rightarrow> coupon bill" where
  "coupon_get code = fetch (CouponNotFoundError code) (\<lambda>b. dict_get (bl_coupons b) (py_upper code))"

definition coupon_validate :: "pyfloat \<Rightarrow> string \<Rightarrow> string \<Rightarrow> coupon bill" where
  "coupon_validate now code pid =
    andthen (coupon_get code) (\<lambda>c.
      if co_expires_at c \<noteq> 0 \<and> co_expires_at c < now then throw (CouponExpiredError code)
      else if co_max_redemptions c \<noteq> 0 \<and> co_max_redemptions c \<le> co_redemptions c
        then throw (CouponExhaustedError code)
      else if pid \<noteq> '''' \<and> co_applies_to c \<noteq> [] \<and> pid \<notin> set (co_applies_to c)
        then throw (CouponInvalidError code pid)
      else ret c)"

definition coupon_update :: "coupon \<Rightarrow> coupon bill" where
  "coupon_update c =
    andthen (fetch (CouponNotFoundError (co_code c)) (\<lambda>b. dict_get (bl_coupons b) (py_upper (co_code c)))) (\<lambda>_.
    andthen (modify (\<lambda>b. b\<lparr>bl_coupons := dict_set (py_upper (co_code c)) c (bl_coupons b)\<rparr>)) (\<lambda>_. ret c))"

text \<open>The redemption counter is raised on the stored object itself, then the object is written back.\<close>

definition coupon_redeem :: "pyfloat \<Rightarrow> string \<Rightarrow> string \<Rightarrow> coupon bill" where
  "coupon_redeem now code pid =
    andthen (coupon_validate now code pid) (\<lambda>c.
      let c' = c\<lparr>co_redemptions := co_redemptions c + 1\<rparr>
      in andthen (modify (\<lambda>b. b\<lparr>bl_coupons := dict_set (py_upper code) c' (bl_coupons b)\<rparr>))
           (\<lambda>_. coupon_update c'))"

definition coupon_amount :: "coupon \<Rightarrow> pyfloat \<Rightarrow> pyfloat" where
  "coupon_amount c subtotal =
    (case co_type c of
       CT_PERCENT \<Rightarrow> py_round 4 (subtotal * co_value c / 100)
     | CT_FIXED_AMOUNT \<Rightarrow> min subtotal (co_value c)
     | CT_TRIAL_EXTENSION \<Rightarrow> 0)"

definition coupon_discount :: "pyfloat \<Rightarrow> string \<Rightarrow> pyfloat \<Rightarrow> string \<Rightarrow> pyfloat bill" where
  "coupon_discount now code subtotal pid =
    andthen (coupon_validate now code pid) (\<lambda>c. ret (coupon_amount c subtotal))"

definition coupon_delete :: "string \<Rightarrow> bool bill" where
  "coupon_delete code =
    andthen (gets (\<lambda>b. dict_has (bl_coupons b) (py_upper code))) (\<lambda>there.
      if there then andthen (modify (\<lambda>b. b\<lparr>bl_coupons := dict_pop (py_upper code) (bl_coupons b)\<rparr>))
                      (\<lambda>_. ret True)
      else ret False)"

section \<open>Taxes\<close>

definition default_jurisdictions :: "(string, pyfloat) dict" where
  "default_jurisdictions =
    [(''US'', 0), (''GB'', 2 / 10), (''DE'', 19 / 100), (''SG'', 9 / 100), (''ID'', 11 / 100)]"

definition register_jurisdiction :: "string \<Rightarrow> pyfloat \<Rightarrow> unit bill" where
  "register_jurisdiction code rate =
    modify (\<lambda>b. b\<lparr>bl_taxes := dict_set (py_upper code) rate (bl_taxes b)\<rparr>)"

definition rate_for :: "billing_config \<Rightarrow> (string, pyfloat) dict \<Rightarrow> string \<Rightarrow> pyfloat" where
  "rate_for cfg taxes country =
    (if country \<noteq> '''' then dict_get_or taxes (py_upper country) (bc_tax_rate cfg) else bc_tax_rate cfg)"

definition tax_amount :: "billing_config \<Rightarrow> (string, pyfloat) dict \<Rightarrow> pyfloat \<Rightarrow> string \<Rightarrow> pyfloat" where
  "tax_amount cfg taxes subtotal country = py_round 4 (subtotal * rate_for cfg taxes country)"

section \<open>Usage\<close>

text \<open>A category may be given as its name; an explicit time of zero counts as absent.\<close>

definition usage_add :: "pyfloat \<Rightarrow> string \<Rightarrow> string \<Rightarrow> int \<Rightarrow> pyfloat option \<Rightarrow> usage_record bill" where
  "usage_add now tenant category amount t0 =
    andthen (fetch (UsageRecordingError category) (\<lambda>_. category_of category)) (\<lambda>c.
    andthen (require (0 \<le> amount) (UsageRecordingError ''negative'')) (\<lambda>_.
      let r = \<lparr>ur_tenant_id = tenant, ur_category = c, ur_amount = amount,
               ur_recorded_at = (case t0 of Some t \<Rightarrow> if t = 0 then now else t | None \<Rightarrow> now)\<rparr>
      in andthen (modify (\<lambda>b. b\<lparr>bl_usage := bl_usage b @ [r]\<rparr>)) (\<lambda>_. ret r)))"

definition usage_of :: "usage_record list \<Rightarrow> string \<Rightarrow> string \<Rightarrow> pyfloat \<Rightarrow> int" where
  "usage_of rs tenant category since =
    fold (\<lambda>r acc. if ur_tenant_id r = tenant \<and> category_value (ur_category r) = category \<and>
                     since \<le> ur_recorded_at r then acc + ur_amount r else acc) rs 0"

definition usage_by_category :: "usage_record list \<Rightarrow> string \<Rightarrow> pyfloat \<Rightarrow> (string, int) dict" where
  "usage_by_category rs tenant since =
    fold (\<lambda>r d. if ur_tenant_id r = tenant \<and> since \<le> ur_recorded_at r
                then dict_set (category_value (ur_category r))
                       (dict_get_or d (category_value (ur_category r)) 0 + ur_amount r) d
                else d) rs []"

definition usage_snapshot ::
  "usage_record list \<Rightarrow> string \<Rightarrow> (string, int) dict \<Rightarrow> pyfloat \<Rightarrow> usage_meter list" where
  "usage_snapshot rs tenant lims since =
    (let usage = usage_by_category rs tenant since
     in map (\<lambda>c. let used = dict_get_or usage (category_value c) 0; lim = dict_get_or lims (category_value c) 0
                 in \<lparr>um_category = c, um_unit = category_value c, um_limit = lim, um_used = used,
                     um_overage = (0 < lim \<and> lim < used)\<rparr>) categories)"

definition usage_reset :: "string \<Rightarrow> string \<Rightarrow> unit bill" where
  "usage_reset tenant category =
    modify (\<lambda>b. b\<lparr>bl_usage := filter (\<lambda>r. \<not> (ur_tenant_id r = tenant \<and>
      (category = '''' \<or> category_value (ur_category r) = category))) (bl_usage b)\<rparr>)"

definition period_usage :: "usage_record list \<Rightarrow> string \<Rightarrow> pyfloat \<Rightarrow> pyfloat \<Rightarrow> (string, int) dict" where
  "period_usage rs tenant period_start period_end = usage_by_category rs tenant period_start"


section \<open>Repositories\<close>

definition put_sub :: "subscription \<Rightarrow> unit bill" where
  "put_sub s = modify (\<lambda>b. b\<lparr>bl_subs := dict_set (sub_id s) s (bl_subs b)\<rparr>)"

definition sub_get :: "string \<Rightarrow> subscription bill" where
  "sub_get sid = fetch (SubscriptionNotFoundError sid) (\<lambda>b. dict_get (bl_subs b) sid)"

definition sub_update :: "subscription \<Rightarrow> unit bill" where
  "sub_update s = andthen (sub_get (sub_id s)) (\<lambda>_. put_sub s)"

definition sub_delete :: "string \<Rightarrow> bool bill" where
  "sub_delete sid =
    andthen (gets (\<lambda>b. dict_has (bl_subs b) sid)) (\<lambda>there.
      if there then andthen (modify (\<lambda>b. b\<lparr>bl_subs := dict_pop sid (bl_subs b)\<rparr>)) (\<lambda>_. ret True)
      else ret False)"

definition by_tenant :: "(string, subscription) dict \<Rightarrow> string \<Rightarrow> subscription option" where
  "by_tenant subs tenant = find (\<lambda>s. sub_tenant_id s = tenant) (map snd subs)"

definition put_invoice :: "invoice \<Rightarrow> unit bill" where
  "put_invoice i = modify (\<lambda>b. b\<lparr>bl_invoices := dict_set (in_id i) i (bl_invoices b)\<rparr>)"

definition invoice_get :: "string \<Rightarrow> invoice bill" where
  "invoice_get iid = fetch (InvoiceNotFoundError iid) (\<lambda>b. dict_get (bl_invoices b) iid)"

definition invoice_update :: "invoice \<Rightarrow> invoice bill" where
  "invoice_update i = andthen (invoice_get (in_id i)) (\<lambda>_. andthen (put_invoice i) (\<lambda>_. ret i))"

definition invoice_list :: "billing \<Rightarrow> string \<Rightarrow> invoice list" where
  "invoice_list b tenant =
    (let is = map snd (bl_invoices b)
     in if tenant = '''' then is else filter (\<lambda>i. in_tenant_id i = tenant) is)"

definition put_payment :: "payment \<Rightarrow> unit bill" where
  "put_payment p = modify (\<lambda>b. b\<lparr>bl_payments := dict_set (py_id p) p (bl_payments b)\<rparr>)"

definition payment_get :: "string \<Rightarrow> payment bill" where
  "payment_get pid = fetch (BillingError pid) (\<lambda>b. dict_get (bl_payments b) pid)"

definition payment_update :: "payment \<Rightarrow> unit bill" where
  "payment_update p = andthen (payment_get (py_id p)) (\<lambda>_. put_payment p)"

section \<open>Invoices\<close>

definition invoice_number :: "billing_config \<Rightarrow> nat \<Rightarrow> string" where
  "invoice_number cfg cnt = bc_invoice_prefix cfg @ show_padded 4 (max 1 (cnt + 1))"

definition create_draft ::
  "billing_config \<Rightarrow> string \<Rightarrow> string \<Rightarrow> subscription \<Rightarrow> pyfloat \<Rightarrow> pyfloat \<Rightarrow> invoice bill" where
  "create_draft cfg iid tenant sub period_start period_end =
    andthen (gets (\<lambda>b. length (bl_invoices b))) (\<lambda>cnt.
      let i = \<lparr>in_id = iid, in_number = invoice_number cfg cnt, in_tenant_id = tenant,
               in_subscription_id = sub_id sub, in_lines = [], in_subtotal = 0, in_discount = 0,
               in_tax = 0, in_total = 0, in_currency = bc_currency cfg, in_status = I_DRAFT,
               in_period_start = period_start, in_period_end = period_end,
               in_due_at = period_end + of_int (bc_invoice_due_days cfg) * 86400,
               in_paid_at = 0, in_coupon_code = ''''\<rparr>
      in andthen (put_invoice i) (\<lambda>_. ret i))"

definition plan_line :: "plan \<Rightarrow> subscription \<Rightarrow> invoice_line" where
  "plan_line p sub = \<lparr>il_description = pl_name p @ '' subscription ('' @ sub_interval sub @ '')'',
     il_quantity = sub_seats sub, il_unit_amount = py_round 4 (price_for p (sub_interval sub)),
     il_category = ''''\<rparr>"

definition usage_lines :: "(string, int) dict \<Rightarrow> invoice_line list" where
  "usage_lines usage =
    map (\<lambda>(c, used). \<lparr>il_description = c @ '' usage'', il_quantity = used, il_unit_amount = 0, il_category = c\<rparr>)
      (filter (\<lambda>(c, used). 0 < used) (sort_key fst usage))"

definition invoice_subtotal :: "plan \<Rightarrow> subscription \<Rightarrow> (string, int) dict \<Rightarrow> pyfloat" where
  "invoice_subtotal p sub usage =
    price_for p (sub_interval sub) * of_int (sub_seats sub) + sum_list (map line_amount (usage_lines usage))"

text \<open>The invoice object is filled in place, so what was set before a coupon is refused stays.\<close>

definition invoice_build ::
  "billing_config \<Rightarrow> pyfloat \<Rightarrow> invoice \<Rightarrow> plan \<Rightarrow> subscription \<Rightarrow> (string, int) dict \<Rightarrow> string \<Rightarrow> string
    \<Rightarrow> pyfloat option \<Rightarrow> invoice bill" where
  "invoice_build cfg now i p sub usage coupon country tax_rate =
    (let subtotal = invoice_subtotal p sub usage;
         i1 = i\<lparr>in_lines := plan_line p sub # usage_lines usage, in_subtotal := py_round 4 subtotal,
                in_discount := 0, in_coupon_code := ''''\<rparr>
     in andthen (put_invoice i1) (\<lambda>_.
        andthen (if coupon \<noteq> '''' then
                   andthen (coupon_discount now coupon subtotal (pl_id p)) (\<lambda>d.
                     ret (i1\<lparr>in_discount := py_round 4 d, in_coupon_code := py_upper coupon\<rparr>))
                 else ret i1) (\<lambda>i2.
        andthen (gets bl_taxes) (\<lambda>taxes.
          let taxable = subtotal - in_discount i2;
              tax = (case tax_rate of Some r \<Rightarrow> py_round 4 (taxable * r)
                     | None \<Rightarrow> tax_amount cfg taxes taxable country)
          in invoice_update (i2\<lparr>in_tax := tax, in_total := py_round 4 (taxable + tax),
                               in_status := I_PENDING\<rparr>)))))"

definition invoice_itemize :: "billing_config \<Rightarrow> invoice \<Rightarrow> invoice_line list \<Rightarrow> invoice bill" where
  "invoice_itemize cfg i lines =
    andthen (gets bl_taxes) (\<lambda>taxes.
      let subtotal = py_round 4 (sum_list (map line_amount lines)); tax = tax_amount cfg taxes subtotal ''''
      in invoice_update (i\<lparr>in_lines := lines, in_subtotal := subtotal, in_tax := tax,
           in_total := py_round 4 (subtotal + tax)\<rparr>))"

definition invoice_void :: "string \<Rightarrow> invoice bill" where
  "invoice_void iid =
    andthen (invoice_get iid) (\<lambda>i.
    andthen (require (in_status i \<noteq> I_PAID) (InvoiceError iid)) (\<lambda>_.
      invoice_update (i\<lparr>in_status := I_VOID\<rparr>)))"

definition invoice_mark_paid :: "pyfloat \<Rightarrow> string \<Rightarrow> invoice bill" where
  "invoice_mark_paid now iid =
    andthen (invoice_get iid) (\<lambda>i. invoice_update (i\<lparr>in_status := I_PAID, in_paid_at := now\<rparr>))"

section \<open>Payment providers\<close>

definition provider_names :: "string list" where
  "provider_names = [''stripe'', ''paddle'', ''lemonsqueezy'', ''midtrans'', ''xendit'', ''paypal'', ''manual'']"

definition provider_for :: "string \<Rightarrow> unit bill" where
  "provider_for nm = require (nm \<in> set provider_names) (ProviderConfigurationError nm)"

definition provider_configured :: "billing_config \<Rightarrow> string \<Rightarrow> bool" where
  "provider_configured cfg nm \<longleftrightarrow> nm = ''manual'' \<or> dict_get_or (bc_secrets cfg) nm '''' \<noteq> ''''"

text \<open>What a provider makes of the HTTP status of its answer: the status of the payment and the
  prefix of its reference, or the exception.\<close>

definition charge_outcome :: "string \<Rightarrow> int \<Rightarrow> billing_error + payment_status \<times> string" where
  "charge_outcome nm http =
    (if nm = ''stripe'' then
       if http = 402 then Inl (PaymentFailedError nm) else if http = 0 then Inl (PaymentError nm)
       else Inr (PS_COMPLETED, ''ch_'')
     else if nm = ''paddle'' then
       if http \<noteq> 200 then Inl (PaymentFailedError nm) else Inr (PS_COMPLETED, ''pd_'')
     else if nm = ''lemonsqueezy'' then
       if http \<noteq> 200 then Inl (PaymentFailedError nm) else Inr (PS_COMPLETED, ''ls_'')
     else if nm = ''midtrans'' then
       if http \<notin> {200, 201} then Inl (PaymentFailedError nm) else Inr (PS_PENDING, ''mt_'')
     else if nm = ''xendit'' then
       if http \<noteq> 200 then Inl (PaymentFailedError nm) else Inr (PS_PENDING, ''xd_'')
     else if nm = ''paypal'' then
       if http \<noteq> 201 then Inl (PaymentFailedError nm) else Inr (PS_COMPLETED, ''pp_'')
     else Inr (PS_PENDING, ''inv_''))"

definition provider_charge ::
  "billing_config \<Rightarrow> string \<Rightarrow> int \<Rightarrow> string \<Rightarrow> string \<Rightarrow> string \<Rightarrow> pyfloat \<Rightarrow> string \<Rightarrow> string
    \<Rightarrow> billing_error + payment" where
  "provider_charge cfg nm http pid ref tenant amount iid meth =
    (if \<not> provider_configured cfg nm then Inl (ProviderConfigurationError nm)
     else bind_result (charge_outcome nm http) (\<lambda>(st, prefix).
       Inr \<lparr>py_id = pid, py_tenant_id = tenant, py_invoice_id = iid, py_amount = amount, py_provider = nm,
            py_method = (if nm = ''manual'' \<and> meth = '''' then ''bank_transfer'' else meth),
            py_status = st, py_reference = prefix @ ref\<rparr>))"

definition provider_refund :: "billing_config \<Rightarrow> int \<Rightarrow> payment \<Rightarrow> billing_error + payment" where
  "provider_refund cfg http p =
    (if \<not> provider_configured cfg (py_provider p) then Inl (ProviderConfigurationError (py_provider p))
     else if py_provider p = ''stripe'' \<and> http \<noteq> 200 then Inl (PaymentError (py_provider p))
     else Inr (p\<lparr>py_status := PS_REFUNDED\<rparr>))"

definition verify_hmac :: "(string \<Rightarrow> string \<Rightarrow> string) \<Rightarrow> string \<Rightarrow> string \<Rightarrow> string \<Rightarrow> bool" where
  "verify_hmac mac secret payload signature \<longleftrightarrow>
     secret \<noteq> '''' \<and> signature \<noteq> '''' \<and> mac secret payload = signature"


section \<open>Metering\<close>

lemma category_roundtrip: "category_of (category_value c) = Some c"
  by (cases c) (simp_all add: category_of_def categories_def)

lemma category_value_inj [simp]: "category_value c = category_value d \<longleftrightarrow> c = d"
  by (metis category_roundtrip option.inject)

lemma category_of_Some: "category_of s = Some c \<Longrightarrow> s = category_value c"
  by (auto simp: category_of_def find_Some_iff)

lemma usage_fold_start:
  "fold (\<lambda>r acc. if P r then acc + ur_amount r else acc) rs a =
     a + sum_list (map ur_amount (filter P rs))"
  by (induction rs arbitrary: a) auto

lemma usage_of_conv:
  "usage_of rs tenant c since = sum_list (map ur_amount
     (filter (\<lambda>r. ur_tenant_id r = tenant \<and> category_value (ur_category r) = c \<and> since \<le> ur_recorded_at r) rs))"
  unfolding usage_of_def by (subst usage_fold_start) simp

lemma usage_by_category_snoc:
  "usage_by_category (rs @ [r]) tenant since =
    (if ur_tenant_id r = tenant \<and> since \<le> ur_recorded_at r
     then dict_set (category_value (ur_category r))
            (dict_get_or (usage_by_category rs tenant since) (category_value (ur_category r)) 0 + ur_amount r)
            (usage_by_category rs tenant since)
     else usage_by_category rs tenant since)"
  by (simp add: usage_by_category_def)

lemma usage_by_category_agrees:
  "dict_get_or (usage_by_category rs tenant since) c 0 = usage_of rs tenant c since"
proof (induction rs rule: rev_induct)
  case Nil
  show ?case by (simp add: usage_by_category_def usage_of_def dict_get_or_def)
next
  case (snoc r rs)
  then show ?case by (auto simp: usage_by_category_snoc usage_of_conv)
qed

lemma usage_of_nonneg:
  "list_all (\<lambda>r. 0 \<le> ur_amount r) rs \<Longrightarrow> 0 \<le> usage_of rs tenant c since"
  unfolding usage_of_conv by (induction rs) auto

section \<open>Amounts with four decimals\<close>

definition dec4 :: "pyfloat \<Rightarrow> bool" where
  "dec4 x \<longleftrightarrow> x * 10 ^ 4 \<in> \<int>"

lemma py_round_dec4: "dec4 x \<Longrightarrow> py_round 4 x = x"
  by (auto simp: dec4_def py_round_def elim!: Ints_cases)

lemma dec4_round [simp, intro]: "dec4 (py_round 4 x)"
  by (simp add: dec4_def py_round_def)

lemma dec4_arith [intro]:
  "dec4 x \<Longrightarrow> dec4 y \<Longrightarrow> dec4 (x + y)" "dec4 x \<Longrightarrow> dec4 y \<Longrightarrow> dec4 (x - y)"
  "dec4 x \<Longrightarrow> dec4 (x * of_int k)" "dec4 x \<Longrightarrow> dec4 y \<Longrightarrow> dec4 (min x y)" "dec4 0"
proof -
  show "dec4 (x * of_int k)" if "dec4 x"
    using Ints_mult [of "x * 10 ^ 4" "of_int k"] that by (simp add: dec4_def mult.assoc mult.commute [of "of_int k"])
qed (auto simp: dec4_def distrib_right left_diff_distrib min_def)

lemma py_round_idem [simp]: "py_round 4 (py_round 4 x) = py_round 4 x"
  by (rule py_round_dec4) simp

lemma py_round_between: "0 \<le> x \<Longrightarrow> x \<le> y \<Longrightarrow> dec4 y \<Longrightarrow> 0 \<le> py_round 4 x \<and> py_round 4 x \<le> y"
  using py_round_mono [of x y 4] py_round_nonneg [of x 4] by (simp add: py_round_dec4)

section \<open>Invoice arithmetic\<close>

lemma usage_lines_free: "l \<in> set (usage_lines usage) \<Longrightarrow> line_amount l = 0"
  by (auto simp: usage_lines_def line_amount_def)

lemma invoice_subtotal_plan:
  "invoice_subtotal p sub usage = price_for p (sub_interval sub) * of_int (sub_seats sub)"
proof -
  have "sum_list (map line_amount (usage_lines usage)) = sum_list (map (\<lambda>_. 0) (usage_lines usage))"
    by (rule arg_cong [where f = sum_list]) (simp add: usage_lines_free)
  then show ?thesis by (simp add: invoice_subtotal_def)
qed

definition coupon_ok :: "coupon \<Rightarrow> bool" where
  "coupon_ok c \<longleftrightarrow> 0 \<le> co_value c \<and> (co_type c = CT_PERCENT \<longrightarrow> co_value c \<le> 100)"

lemma coupon_amount_bounds:
  assumes "coupon_ok c" and "0 \<le> x" and "dec4 x"
  shows "0 \<le> py_round 4 (coupon_amount c x) \<and> py_round 4 (coupon_amount c x) \<le> x"
proof (cases "co_type c")
  case CT_PERCENT
  then have "0 \<le> x * co_value c / 100" "x * co_value c / 100 \<le> x"
    using assms mult_left_mono [of "co_value c" 100 x] by (auto simp: coupon_ok_def)
  with CT_PERCENT assms(3) show ?thesis
    by (simp add: coupon_amount_def py_round_between)
next
  case CT_FIXED_AMOUNT
  then show ?thesis
    using assms py_round_between [of "min x (co_value c)" x] by (simp add: coupon_amount_def coupon_ok_def)
qed (use assms in \<open>simp add: coupon_amount_def\<close>)

lemma coupon_validate_run:
  "coupon_validate now code pid b = (Inr c, b') \<Longrightarrow>
     b' = b \<and> dict_get (bl_coupons b) (py_upper code) = Some c \<and>
     (co_max_redemptions c \<noteq> 0 \<longrightarrow> co_redemptions c < co_max_redemptions c)"
  by (auto simp: coupon_validate_def coupon_get_def andthen_def fetch_def
      split: option.splits if_splits)

lemma coupon_validate_state: "snd (coupon_validate now code pid b) = b"
  by (simp add: coupon_validate_def coupon_get_def andthen_def fetch_def split: option.split)

lemma coupon_discount_run:
  "coupon_discount now code x pid b = (Inr d, b') \<Longrightarrow>
     b' = b \<and> (\<exists>c. dict_get (bl_coupons b) (py_upper code) = Some c \<and> d = coupon_amount c x)"
  using coupon_validate_run [of now code pid b]
  by (auto simp: coupon_discount_def andthen_def split: sum.splits prod.splits)

definition taxes_ok :: "billing_config \<Rightarrow> (string, pyfloat) dict \<Rightarrow> bool" where
  "taxes_ok cfg taxes \<longleftrightarrow> 0 \<le> bc_tax_rate cfg \<and> list_all (\<lambda>(_, r). 0 \<le> r) taxes"

lemma rate_for_nonneg: "taxes_ok cfg taxes \<Longrightarrow> 0 \<le> rate_for cfg taxes country"
  by (auto simp: taxes_ok_def rate_for_def dict_get_or_def list_all_iff dest!: dict_get_in split: option.split)


lemma invoice_update_run:
  "invoice_update i b =
    (if dict_has (bl_invoices b) (in_id i)
     then (Inr i, b\<lparr>bl_invoices := dict_set (in_id i) i (bl_invoices b)\<rparr>)
     else (Inl (InvoiceNotFoundError (in_id i)), b))"
  by (simp add: invoice_update_def invoice_get_def andthen_def fetch_def put_invoice_def dict_has_def
      split: option.split)

lemma put_invoice_run [simp]:
  "put_invoice i b = (Inr (), b\<lparr>bl_invoices := dict_set (in_id i) i (bl_invoices b)\<rparr>)"
  by (simp add: put_invoice_def)

lemma invoice_build_run:
  assumes "invoice_build cfg now i p sub usage coupon country tax_rate b = (Inr i', b')"
  shows "\<exists>d. (if coupon = '''' then d = 0
              else \<exists>c. dict_get (bl_coupons b) (py_upper coupon) = Some c \<and>
                       d = py_round 4 (coupon_amount c (invoice_subtotal p sub usage))) \<and>
    in_id i' = in_id i \<and> in_subtotal i' = py_round 4 (invoice_subtotal p sub usage) \<and> in_discount i' = d \<and>
    in_tax i' = (case tax_rate of Some r \<Rightarrow> py_round 4 ((invoice_subtotal p sub usage - d) * r)
                 | None \<Rightarrow> tax_amount cfg (bl_taxes b) (invoice_subtotal p sub usage - d) country) \<and>
    in_total i' = py_round 4 (invoice_subtotal p sub usage - d + in_tax i') \<and> in_status i' = I_PENDING \<and>
    b' = b\<lparr>bl_invoices := dict_set (in_id i) i' (bl_invoices b)\<rparr>"
proof (cases "coupon = ''''")
  case True
  with assms show ?thesis
    by (cases tax_rate) (auto simp: invoice_build_def Let_def invoice_update_run)
next
  case False
  let ?i1 = "i\<lparr>in_lines := plan_line p sub # usage_lines usage,
    in_subtotal := py_round 4 (invoice_subtotal p sub usage), in_discount := 0, in_coupon_code := ''''\<rparr>"
  let ?b1 = "b\<lparr>bl_invoices := dict_set (in_id i) ?i1 (bl_invoices b)\<rparr>"
  from False assms obtain d b2 where
    d: "coupon_discount now coupon (invoice_subtotal p sub usage) (pl_id p) ?b1 = (Inr d, b2)"
    by (auto simp: invoice_build_def Let_def andthen_def split: sum.splits prod.splits)
  with coupon_discount_run [OF d] False assms show ?thesis
    by (cases tax_rate) (auto simp: invoice_build_def Let_def invoice_update_run andthen_def)
qed

text \<open>An invoice adds up. For a plan whose price has four decimals, a coupon that takes off at
  most the whole price and a tax rate that is not negative, the invoice that is built has the plan's
  price times the seats as its subtotal, whatever the usage; the discount lies between nought and
  the subtotal, the tax is not negative, and the total is exactly subtotal minus discount plus tax.
  The invoice is pending and stored under its id.\<close>

theorem invoice_adds_up:
  assumes build: "invoice_build cfg now i p sub usage coupon country tax_rate b = (Inr i', b')"
    and price: "0 \<le> price_for p (sub_interval sub)" "dec4 (price_for p (sub_interval sub))" "0 \<le> sub_seats sub"
    and coupons: "list_all (\<lambda>(_, c). coupon_ok c) (bl_coupons b)"
    and rate: "case tax_rate of Some r \<Rightarrow> 0 \<le> r | None \<Rightarrow> taxes_ok cfg (bl_taxes b)"
  shows "in_subtotal i' = price_for p (sub_interval sub) * of_int (sub_seats sub) \<and>
    0 \<le> in_discount i' \<and> in_discount i' \<le> in_subtotal i' \<and> 0 \<le> in_tax i' \<and>
    in_total i' = in_subtotal i' - in_discount i' + in_tax i' \<and> in_status i' = I_PENDING \<and>
    dict_get (bl_invoices b') (in_id i) = Some i'"
proof -
  let ?s = "price_for p (sub_interval sub) * of_int (sub_seats sub)"
  have s: "0 \<le> ?s" "dec4 ?s" "py_round 4 ?s = ?s" using price by (auto intro: py_round_dec4)
  from invoice_build_run [OF build] obtain d where
    d: "if coupon = '''' then d = 0 else \<exists>c. dict_get (bl_coupons b) (py_upper coupon) = Some c \<and>
          d = py_round 4 (coupon_amount c ?s)"
    and i': "in_subtotal i' = py_round 4 ?s" "in_discount i' = d"
      "in_tax i' = (case tax_rate of Some r \<Rightarrow> py_round 4 ((?s - d) * r)
                    | None \<Rightarrow> tax_amount cfg (bl_taxes b) (?s - d) country)"
      "in_total i' = py_round 4 (?s - d + in_tax i')" "in_status i' = I_PENDING"
      "b' = b\<lparr>bl_invoices := dict_set (in_id i) i' (bl_invoices b)\<rparr>"
    unfolding invoice_subtotal_plan by blast
  have "coupon_ok c" if "dict_get (bl_coupons b) k = Some c" for k c
    using coupons dict_get_in [OF that] by (auto simp: list_all_iff)
  with d s have bounds: "0 \<le> d \<and> d \<le> ?s" "dec4 d"
    using coupon_amount_bounds by (auto split: if_splits)
  have tax: "0 \<le> in_tax i'" "dec4 (in_tax i')"
    using rate bounds(1) rate_for_nonneg [of cfg "bl_taxes b" country]
    by (auto simp: i'(3) tax_amount_def intro!: py_round_nonneg split: option.splits)
  have "py_round 4 (?s - d + in_tax i') = ?s - d + in_tax i'"
    using s(2) bounds(2) tax(2) by (intro py_round_dec4) auto
  with i' s(3) bounds(1) tax(1) show ?thesis by simp
qed

definition empty_billing :: billing where
  "empty_billing = \<lparr>bl_subs = [], bl_invoices = [], bl_payments = [], bl_coupons = [], bl_usage = [],
     bl_plans = default_plans, bl_taxes = default_jurisdictions, bl_synced = [], bl_events = [],
     bl_webhooks = []\<rparr>"

definition demo_sub :: subscription where
  "demo_sub = \<lparr>sub_id = ''s1'', sub_tenant_id = ''t1'', sub_plan_id = ''starter'', sub_status = S_ACTIVE,
     sub_interval = ''monthly'', sub_seats = 3, sub_price = 87, sub_started_at = 0, sub_period_start = 0,
     sub_period_end = 2592000, sub_trial_end = 0, sub_grace_end = 0, sub_cancel_at_period_end = False,
     sub_cancelled_at = 0, sub_auto_renew = True, sub_provider = ''manual'',
     sub_provider_subscription_id = '''', sub_coupon_code = '''', sub_metadata = [], sub_created_at = 0,
     sub_updated_at = 0\<rparr>"

definition demo_coupon :: coupon where
  "demo_coupon = \<lparr>co_code = ''HALF'', co_type = CT_PERCENT, co_value = 50, co_max_redemptions = 1,
     co_redemptions = 0, co_expires_at = 0, co_applies_to = []\<rparr>"

definition demo_build :: "(billing_error + invoice) \<times> billing" where
  "demo_build =
    (let p = snd (default_plans ! 1); b = empty_billing\<lparr>bl_coupons := [(''HALF'', demo_coupon)]\<rparr>
     in andthen (create_draft default_billing_config ''i1'' ''t1'' demo_sub 0 2592000) (\<lambda>i.
          invoice_build default_billing_config 5 i p demo_sub [(''tokens'', 7)] ''half'' ''DE'' None) b)"

lemma upper_half: "py_upper ''half'' = ''HALF''"
  by code_simp

lemma demo_build_ok: "is_ok (fst demo_build)"
  by (simp add: demo_build_def Let_def create_draft_def invoice_build_def invoice_update_run
      coupon_discount_def coupon_validate_def coupon_get_def fetch_def upper_half demo_coupon_def)

theorem invoice_adds_up_witness:
  "\<exists>i b. demo_build = (Inr i, b) \<and> in_subtotal i = 87 \<and>
     in_total i = in_subtotal i - in_discount i + in_tax i \<and> dict_get (bl_invoices b) ''i1'' = Some i"
proof -
  let ?p = "snd (default_plans ! 1)"
  let ?b0 = "empty_billing\<lparr>bl_coupons := [(''HALF'', demo_coupon)]\<rparr>"
  obtain d b1 where d: "create_draft default_billing_config ''i1'' ''t1'' demo_sub 0 2592000 ?b0 = (Inr d, b1)"
      "in_id d = ''i1''" "bl_coupons b1 = bl_coupons ?b0" "bl_taxes b1 = default_jurisdictions"
    by (simp add: create_draft_def Let_def empty_billing_def)
  obtain i b where i: "demo_build = (Inr i, b)"
    using is_ok_fstD [OF demo_build_ok] by blast
  with d(1) have "invoice_build default_billing_config 5 d ?p demo_sub [(''tokens'', 7)] ''half'' ''DE'' None b1 = (Inr i, b)"
    by (simp add: demo_build_def Let_def)
  from invoice_adds_up [OF this] d(2-) have "in_subtotal i = 87 \<and>
      in_total i = in_subtotal i - in_discount i + in_tax i \<and> dict_get (bl_invoices b) ''i1'' = Some i"
    by (simp add: default_plans_def catalog_plan_def price_for_def demo_sub_def dec4_def coupon_ok_def
        demo_coupon_def taxes_ok_def default_jurisdictions_def default_billing_config_def)
  with i show ?thesis by blast
qed

text \<open>Redeeming never takes a coupon past its limit.\<close>

definition redemptions_ok :: "billing \<Rightarrow> bool" where
  "redemptions_ok b \<longleftrightarrow>
    list_all (\<lambda>(k, c). k = py_upper (co_code c) \<and> 0 \<le> co_redemptions c \<and>
       (0 < co_max_redemptions c \<longrightarrow> co_redemptions c \<le> co_max_redemptions c)) (bl_coupons b)"

lemma redemptions_ok_redeem:
  assumes "redemptions_ok b"
  shows "redemptions_ok (final_state (coupon_redeem now code pid) b)"
proof (cases "coupon_validate now code pid b")
  case (Pair r b')
  have b': "b' = b" using coupon_validate_state [of now code pid b] Pair by simp
  show ?thesis
  proof (cases r)
    case (Inl e)
    with Pair b' assms show ?thesis
      by (simp add: final_state_def coupon_redeem_def andthen_def)
  next
    case (Inr c)
    then have c: "dict_get (bl_coupons b) (py_upper code) = Some c"
      "co_max_redemptions c \<noteq> 0 \<longrightarrow> co_redemptions c < co_max_redemptions c"
      using coupon_validate_run [of now code pid b c b'] Pair by auto
    then have k: "py_upper code = py_upper (co_code c)" "0 \<le> co_redemptions c"
      using assms dict_get_in [OF c(1)] by (auto simp: redemptions_ok_def list_all_iff)
    with assms c(2) show ?thesis
      using Inr Pair b' unfolding redemptions_ok_def
      by (auto simp: final_state_def coupon_redeem_def coupon_update_def andthen_def fetch_def Let_def
          intro!: list_all_dict_set)
  qed
qed

text \<open>Numbers of invoices are different for different numbers of stored invoices.\<close>

lemma invoice_number_inj: "invoice_number cfg m = invoice_number cfg n \<longleftrightarrow> m = n"
  by (simp add: invoice_number_def)

interpretation subscriptions: keyed_store "\<lambda>b. dict_get (bl_subs b)" "\<lambda>s. final_state (put_sub s)"
  "\<lambda>k. final_state (sub_delete k)" sub_id
  by unfold_locales
    (auto simp: final_state_def put_sub_def sub_delete_def andthen_def dict_has_def dict_pop_absent)

text \<open>Prices. The flat and the per-seat strategy agree; a usage strategy never charges less than
  the flat one when its rates are not negative.\<close>

lemma flat_per_seat: "flat_price = per_seat_price"
  by (intro ext) (simp add: flat_price_def per_seat_price_def)

lemma usage_price_ge_flat:
  assumes "list_all (\<lambda>(_, r). 0 \<le> r) (pl_rates p)" and "dec4 (price_for p interval)"
  shows "flat_price p usage seats interval \<le> usage_price p usage seats interval"
proof -
  have rate: "0 \<le> dict_get_or (pl_rates p) k 0" for k
    using assms(1) by (auto simp: dict_get_or_def list_all_iff dest!: dict_get_in split: option.split)
  have "a \<le> fold (\<lambda>(dim, included) acc.
        if starts_with ''_'' dim \<or> dim = ''tiers'' then acc
        else let used = dict_get_or usage dim 0; r = dict_get_or (pl_rates p) (dim @ ''_rate'') 0
             in if r \<noteq> 0 \<and> included < used then acc + of_int (used - included) * r else acc) ls a"
    (is "a \<le> fold ?f ls a") for ls and a :: pyfloat
  proof (induction ls arbitrary: a)
    case (Cons x ls)
    have "a \<le> ?f x a"
      using rate by (auto simp: Let_def split: prod.split)
    also have "\<dots> \<le> fold ?f ls (?f x a)" by (rule Cons)
    finally show ?case by simp
  qed simp
  then have "py_round 4 (flat_price p usage seats interval) \<le> usage_price p usage seats interval"
    unfolding usage_price_def flat_price_def by (rule py_round_mono)
  moreover have "dec4 (flat_price p usage seats interval)"
    using assms(2) dec4_arith(3) [of "price_for p interval" "max 1 seats"] by (simp add: flat_price_def)
  ultimately show ?thesis by (simp add: py_round_dec4)
qed

end
