(* ===== verification/Subscriptions.thy ===== *)
theory Subscriptions
  imports Billing
begin

text \<open>
  The billing manager (\<open>src/app/billing/manager.py\<close>) and its webhook handler (\<open>webhooks.py\<close>):
  the life of a subscription from creation to cancellation, plan changes with their proration,
  invoices, payments and refunds. A subscription that an operation has fetched is the object the
  repository holds, so every assignment to it is written through at once, before the next call
  that may raise. Observers are reduced to traces: the plan last synchronised for each tenant and
  the list of published events.
\<close>

section \<open>Steps the operations share\<close>

definition publish :: "string \<Rightarrow> subscription \<Rightarrow> unit bill" where
  "publish ev s = modify (\<lambda>b. b\<lparr>bl_events := bl_events b @ [(ev, sub_id s)]\<rparr>)"

definition apply_quota :: "string \<Rightarrow> plan \<Rightarrow> unit bill" where
  "apply_quota tenant p = modify (\<lambda>b. b\<lparr>bl_synced := dict_set tenant (pl_id p) (bl_synced b)\<rparr>)"

definition transition :: "subscription \<Rightarrow> subscription_status \<Rightarrow> subscription bill" where
  "transition s target =
    andthen (lift_result (sub_transition target s)) (\<lambda>s'. andthen (put_sub s') (\<lambda>_. ret s'))"

definition period_seconds :: "string \<Rightarrow> pyfloat" where
  "period_seconds interval = (if interval = ''annual'' then 366 * 86400 else 30 * 86400)"

definition enforce_grace :: "pyfloat \<Rightarrow> subscription \<Rightarrow> subscription bill" where
  "enforce_grace now s =
    (if sub_status s = S_PAST_DUE \<and> sub_grace_end s \<noteq> 0 \<and> sub_grace_end s < now then
       andthen (transition s S_CANCELLED) (\<lambda>s1.
         let s2 = s1\<lparr>sub_updated_at := now\<rparr> in andthen (sub_update s2) (\<lambda>_. ret s2))
     else ret s)"

definition get_sub :: "pyfloat \<Rightarrow> string \<Rightarrow> subscription bill" where
  "get_sub now sid = andthen (sub_get sid) (\<lambda>s. enforce_grace now s)"

definition get_sub_by_tenant :: "pyfloat \<Rightarrow> string \<Rightarrow> subscription option bill" where
  "get_sub_by_tenant now tenant =
    andthen (gets (\<lambda>b. by_tenant (bl_subs b) tenant)) (\<lambda>found.
      case found of None \<Rightarrow> ret None
      | Some s \<Rightarrow> andthen (enforce_grace now s) (\<lambda>s'. ret (Some s')))"

definition sync_quota :: "billing_config \<Rightarrow> pyfloat \<Rightarrow> string \<Rightarrow> unit bill" where
  "sync_quota cfg now sid =
    andthen (get_sub now sid) (\<lambda>s.
    andthen (plan_get (if sub_status s \<in> {S_CANCELLED, S_PAUSED} then bc_default_free_plan cfg
                       else sub_plan_id s)) (\<lambda>p.
    andthen (apply_quota (sub_tenant_id s) p) (\<lambda>_. publish ''quota.synced'' s)))"

section \<open>Subscriptions\<close>

definition new_subscription ::
  "billing_config \<Rightarrow> pyfloat \<Rightarrow> string \<Rightarrow> string \<Rightarrow> string \<Rightarrow> plan \<Rightarrow> string \<Rightarrow> int \<Rightarrow> pyfloat \<Rightarrow> string \<Rightarrow> string
    \<Rightarrow> bool option \<Rightarrow> int \<Rightarrow> subscription option \<Rightarrow> subscription" where
  "new_subscription cfg now sid tenant pid p interval seats price coupon provider auto_renew days existing =
    (let trial = (pl_supports_trial p \<and> 0 < days)
     in \<lparr>sub_id = (case existing of None \<Rightarrow> sid | Some e \<Rightarrow> sub_id e), sub_tenant_id = tenant,
         sub_plan_id = pid, sub_status = (if trial then S_TRIAL else S_ACTIVE),
         sub_interval = interval, sub_seats = max 1 seats, sub_price = price, sub_started_at = now,
         sub_period_start = now, sub_period_end = now + period_seconds interval,
         sub_trial_end = (if trial then now + of_int days * 86400 else 0), sub_grace_end = 0,
         sub_cancel_at_period_end = False, sub_cancelled_at = 0,
         sub_auto_renew = (case auto_renew of None \<Rightarrow> bc_auto_renew cfg | Some x \<Rightarrow> x),
         sub_provider = provider, sub_provider_subscription_id = '''',
         sub_coupon_code = (if coupon \<noteq> '''' then py_upper coupon else ''''), sub_metadata = [],
         sub_created_at = (case existing of None \<Rightarrow> now | Some e \<Rightarrow> sub_created_at e),
         sub_updated_at = now\<rparr>)"

definition create_subscription ::
  "billing_config \<Rightarrow> pyfloat \<Rightarrow> string \<Rightarrow> string \<Rightarrow> string \<Rightarrow> string \<Rightarrow> int \<Rightarrow> string \<Rightarrow> string
    \<Rightarrow> bool option \<Rightarrow> int option \<Rightarrow> subscription bill" where
  "create_subscription cfg now sid tenant pid interval seats coupon provider auto_renew trial_days =
    (let interval' = (if interval = '''' then bc_default_interval cfg else interval);
         provider' = (if provider = '''' then bc_default_provider cfg else provider);
         days = (case trial_days of None \<Rightarrow> bc_trial_days cfg | Some d \<Rightarrow> d)
     in andthen (plan_get pid) (\<lambda>p.
        andthen (gets (\<lambda>b. by_tenant (bl_subs b) tenant)) (\<lambda>existing.
        andthen (require (case existing of None \<Rightarrow> True | Some e \<Rightarrow> sub_status e = S_CANCELLED)
                  (SubscriptionAlreadyExistsError tenant)) (\<lambda>_.
        andthen (engine_price pid [] seats interval' None) (\<lambda>price.
        andthen (if coupon \<noteq> '''' then andthen (coupon_redeem now coupon pid) (\<lambda>_. ret ()) else ret ()) (\<lambda>_.
          let s = new_subscription cfg now sid tenant pid p interval' seats price coupon provider'
                    auto_renew days existing
          in andthen (put_sub s) (\<lambda>_.
             andthen (publish ''subscription.created'' s) (\<lambda>_.
             andthen (sync_quota cfg now (sub_id s)) (\<lambda>_. ret s)))))))))"

definition proration_delta :: "pyfloat \<Rightarrow> subscription \<Rightarrow> plan \<Rightarrow> plan \<Rightarrow> int \<Rightarrow> pyfloat" where
  "proration_delta now s previous target seats =
    (let remaining = max 0 ((sub_period_end s - now) / period_seconds (sub_interval s))
     in (price_for target (sub_interval s) - price_for previous (sub_interval s)) * of_int seats * remaining)"

definition proration_invoice ::
  "billing_config \<Rightarrow> pyfloat \<Rightarrow> string \<Rightarrow> subscription \<Rightarrow> plan \<Rightarrow> plan \<Rightarrow> int \<Rightarrow> unit bill" where
  "proration_invoice cfg now iid s previous target seats =
    (if \<not> bc_prorate_changes cfg then ret ()
     else let delta = proration_delta now s previous target seats
     in andthen (create_draft cfg iid (sub_tenant_id s) s now (sub_period_end s)) (\<lambda>i.
        andthen (gets bl_taxes) (\<lambda>taxes.
          let tax = py_round 4 (delta * rate_for cfg taxes '''')
          in andthen (invoice_update (i\<lparr>
               in_lines := [\<lparr>il_description = ''Plan change proration ('' @ pl_id previous @ '' -> '' @ pl_id target @ '')'',
                             il_quantity = 1, il_unit_amount = py_round 4 delta, il_category = ''''\<rparr>],
               in_subtotal := py_round 4 delta, in_discount := 0, in_tax := tax,
               in_total := py_round 4 (delta + tax), in_status := I_PENDING\<rparr>)) (\<lambda>_. ret ()))))"

definition change_plan ::
  "billing_config \<Rightarrow> pyfloat \<Rightarrow> string \<Rightarrow> string \<Rightarrow> string \<Rightarrow> int option \<Rightarrow> bool option \<Rightarrow> subscription bill" where
  "change_plan cfg now iid sid pid seats prorate =
    andthen (get_sub now sid) (\<lambda>s.
    andthen (plan_get pid) (\<lambda>p.
    andthen (require (sub_status s \<noteq> S_CANCELLED) (BillingError sid)) (\<lambda>_.
    andthen (plan_get (sub_plan_id s)) (\<lambda>previous.
      let n = (case seats of Some k \<Rightarrow> if k = 0 then sub_seats s else k | None \<Rightarrow> sub_seats s);
          s1 = s\<lparr>sub_plan_id := pid, sub_seats := n\<rparr>
      in andthen (if (case prorate of Some x \<Rightarrow> x | None \<Rightarrow> bc_prorate_changes cfg)
                  then proration_invoice cfg now iid s previous p n else ret ()) (\<lambda>_.
         andthen (put_sub s1) (\<lambda>_.
         andthen (engine_price pid [] n (sub_interval s) None) (\<lambda>price.
           let s2 = s1\<lparr>sub_price := price, sub_updated_at := now\<rparr>
           in andthen (sub_update s2) (\<lambda>_.
              andthen (publish ''subscription.updated'' s2) (\<lambda>_.
              andthen (sync_quota cfg now sid) (\<lambda>_. ret s2))))))))))"

definition cancel_subscription ::
  "billing_config \<Rightarrow> pyfloat \<Rightarrow> string \<Rightarrow> bool \<Rightarrow> subscription bill" where
  "cancel_subscription cfg now sid at_period_end =
    andthen (get_sub now sid) (\<lambda>s.
      if sub_status s = S_CANCELLED then ret s
      else if at_period_end \<and> sub_status s = S_ACTIVE then
        let s1 = s\<lparr>sub_cancel_at_period_end := True\<rparr> in andthen (sub_update s1) (\<lambda>_. ret s1)
      else
        andthen (transition s S_CANCELLED) (\<lambda>s1.
          let s2 = s1\<lparr>sub_cancelled_at := now, sub_cancel_at_period_end := False\<rparr>
          in andthen (sub_update s2) (\<lambda>_.
             andthen (plan_get (bc_default_free_plan cfg)) (\<lambda>free.
             andthen (apply_quota (sub_tenant_id s2) free) (\<lambda>_.
             andthen (plan_get (sub_plan_id s2)) (\<lambda>_.
             andthen (publish ''subscription.cancelled'' s2) (\<lambda>_. ret s2)))))))"

definition resume_subscription ::
  "billing_config \<Rightarrow> pyfloat \<Rightarrow> string \<Rightarrow> string \<Rightarrow> subscription bill" where
  "resume_subscription cfg now sid pid =
    andthen (get_sub now sid) (\<lambda>s.
    andthen (if sub_status s = S_CANCELLED then
               andthen (transition s S_ACTIVE) (\<lambda>s1.
                 let s2 = s1\<lparr>sub_cancelled_at := 0\<rparr> in andthen (put_sub s2) (\<lambda>_. ret s2))
             else if sub_status s = S_PAUSED then transition s S_ACTIVE
             else throw (BillingError sid)) (\<lambda>s1.
    andthen (if pid \<noteq> '''' then
               andthen (plan_get pid) (\<lambda>p.
               andthen (put_sub (s1\<lparr>sub_plan_id := pid\<rparr>)) (\<lambda>_.
               andthen (engine_price pid [] (sub_seats s1) (sub_interval s1) None) (\<lambda>price.
                 ret (s1\<lparr>sub_plan_id := pid, sub_price := price\<rparr>))))
             else andthen (plan_get (sub_plan_id s1)) (\<lambda>_. ret s1)) (\<lambda>s2.
      let s3 = s2\<lparr>sub_period_start := now, sub_period_end := now + period_seconds (sub_interval s2),
                  sub_updated_at := now\<rparr>
      in andthen (sub_update s3) (\<lambda>_.
         andthen (publish ''subscription.resumed'' s3) (\<lambda>_.
         andthen (sync_quota cfg now sid) (\<lambda>_. ret s3))))))"

definition pause_subscription :: "pyfloat \<Rightarrow> string \<Rightarrow> subscription bill" where
  "pause_subscription now sid =
    andthen (get_sub now sid) (\<lambda>s.
    andthen (transition s S_PAUSED) (\<lambda>s1.
      let s2 = s1\<lparr>sub_updated_at := now\<rparr>
      in andthen (put_sub s2) (\<lambda>_.
         andthen (plan_get (sub_plan_id s2)) (\<lambda>_.
         andthen (sub_update s2) (\<lambda>_.
         andthen (publish ''subscription.paused'' s2) (\<lambda>_. ret s2))))))"

definition convert_trial :: "billing_config \<Rightarrow> pyfloat \<Rightarrow> string \<Rightarrow> subscription bill" where
  "convert_trial cfg now sid =
    andthen (get_sub now sid) (\<lambda>s.
      if sub_status s \<noteq> S_TRIAL then ret s
      else andthen (transition s S_ACTIVE) (\<lambda>s1.
        let s2 = s1\<lparr>sub_trial_end := 0, sub_updated_at := now\<rparr>
        in andthen (sub_update s2) (\<lambda>_. andthen (sync_quota cfg now sid) (\<lambda>_. ret s2))))"

definition mark_past_due :: "billing_config \<Rightarrow> pyfloat \<Rightarrow> string \<Rightarrow> subscription bill" where
  "mark_past_due cfg now sid =
    andthen (get_sub now sid) (\<lambda>s.
    andthen (transition s S_PAST_DUE) (\<lambda>s1.
      let s2 = s1\<lparr>sub_grace_end := now + of_int (bc_grace_days cfg) * 86400, sub_updated_at := now\<rparr>
      in andthen (sub_update s2) (\<lambda>_. andthen (publish ''invoice.overdue'' s2) (\<lambda>_. ret s2))))"

section \<open>Invoices and payments\<close>

definition generate_invoice ::
  "billing_config \<Rightarrow> pyfloat \<Rightarrow> string \<Rightarrow> string \<Rightarrow> string \<Rightarrow> string \<Rightarrow> pyfloat option \<Rightarrow> invoice bill" where
  "generate_invoice cfg now iid sid coupon country tax_rate =
    andthen (get_sub now sid) (\<lambda>s.
    andthen (plan_get (sub_plan_id s)) (\<lambda>p.
    andthen (create_draft cfg iid (sub_tenant_id s) s (sub_period_start s) (sub_period_end s)) (\<lambda>i.
    andthen (gets (\<lambda>b. usage_by_category (bl_usage b) (sub_tenant_id s) (sub_period_start s))) (\<lambda>usage.
    andthen (invoice_build cfg now i p s usage (if coupon = '''' then sub_coupon_code s else coupon)
               country tax_rate) (\<lambda>i'.
    andthen (publish ''invoice.created'' s) (\<lambda>_. ret i'))))))"

definition payment_record ::
  "string \<Rightarrow> string \<Rightarrow> string \<Rightarrow> pyfloat \<Rightarrow> string \<Rightarrow> string \<Rightarrow> payment_status \<Rightarrow> string \<Rightarrow> payment" where
  "payment_record pid tenant iid amount provider meth st ref =
    \<lparr>py_id = pid, py_tenant_id = tenant, py_invoice_id = iid, py_amount = amount,
     py_provider = provider, py_method = meth, py_status = st, py_reference = ref\<rparr>"

definition take_payment ::
  "billing_config \<Rightarrow> pyfloat \<Rightarrow> int \<Rightarrow> string \<Rightarrow> string \<Rightarrow> invoice \<Rightarrow> subscription \<Rightarrow> string \<Rightarrow> string
    \<Rightarrow> pyfloat \<Rightarrow> bool \<Rightarrow> payment bill" where
  "take_payment cfg now http pid ref i s provider meth amount external =
    (if external then
       ret (payment_record pid (in_tenant_id i) (in_id i) amount provider meth PS_COMPLETED (''ext_'' @ ref))
     else case provider_charge cfg provider http pid ref (in_tenant_id i) amount (in_id i) meth of
         Inr p \<Rightarrow> ret p
       | Inl (PaymentFailedError x) \<Rightarrow>
           andthen (put_payment (payment_record pid (in_tenant_id i) (in_id i) amount provider meth PS_FAILED '''')) (\<lambda>_.
           andthen (if sub_status s = S_ACTIVE
                    then andthen (mark_past_due cfg now (sub_id s)) (\<lambda>_. ret ()) else ret ()) (\<lambda>_.
             throw (PaymentFailedError x)))
       | Inl e \<Rightarrow> throw e)"

definition settle_payment :: "billing_config \<Rightarrow> pyfloat \<Rightarrow> string \<Rightarrow> subscription \<Rightarrow> unit bill" where
  "settle_payment cfg now iid s =
    andthen (invoice_mark_paid now iid) (\<lambda>_.
    andthen (if sub_status s = S_TRIAL then andthen (convert_trial cfg now (sub_id s)) (\<lambda>_. ret ())
             else if sub_status s = S_PAST_DUE then
               andthen (transition s S_ACTIVE) (\<lambda>s1. sub_update (s1\<lparr>sub_updated_at := now\<rparr>))
             else ret ()) (\<lambda>_.
    andthen (publish ''invoice.paid'' s) (\<lambda>_.
    andthen (plan_get (sub_plan_id s)) (\<lambda>_. ret ()))))"

definition record_payment ::
  "billing_config \<Rightarrow> pyfloat \<Rightarrow> int \<Rightarrow> string \<Rightarrow> string \<Rightarrow> string \<Rightarrow> string \<Rightarrow> string \<Rightarrow> pyfloat option
    \<Rightarrow> bool \<Rightarrow> payment bill" where
  "record_payment cfg now http pid ref iid provider meth amount external =
    andthen (invoice_get iid) (\<lambda>i.
    andthen (require (in_status i \<noteq> I_PAID) (InvoiceAlreadyPaidError iid)) (\<lambda>_.
    andthen (require (in_status i \<noteq> I_VOID) (BillingError iid)) (\<lambda>_.
    andthen (sub_get (in_subscription_id i)) (\<lambda>s.
      let nm = (if provider \<noteq> '''' then provider
                else if sub_provider s \<noteq> '''' then sub_provider s else bc_default_provider cfg);
          amt = (case amount of Some a \<Rightarrow> a | None \<Rightarrow> in_total i)
      in andthen (provider_for nm) (\<lambda>_.
         andthen (take_payment cfg now http pid ref i s nm meth amt external) (\<lambda>p.
         andthen (put_payment p) (\<lambda>_.
         andthen (if py_status p = PS_COMPLETED then settle_payment cfg now iid s
                  else if py_status p = PS_FAILED then
                    andthen (if sub_status s = S_ACTIVE
                             then andthen (mark_past_due cfg now (sub_id s)) (\<lambda>_. ret ()) else ret ())
                      (\<lambda>_. publish ''payment.recorded'' s)
                  else publish ''payment.recorded'' s) (\<lambda>_. ret p))))))))"

definition refund_payment :: "billing_config \<Rightarrow> int \<Rightarrow> string \<Rightarrow> payment bill" where
  "refund_payment cfg http pid =
    andthen (payment_get pid) (\<lambda>p.
    andthen (provider_for (py_provider p)) (\<lambda>_.
    andthen (lift_result (provider_refund cfg http p)) (\<lambda>p'.
    andthen (payment_update p') (\<lambda>_. ret p'))))"

section \<open>Webhooks\<close>

record webhook_payload =
  wp_type :: string
  wp_event :: string
  wp_id :: string
  wp_raw :: string
  wp_invoice_id :: string
  wp_subscription_id :: string
  wp_plan_id :: string

datatype webhook_result = WDuplicate | WProcessed "billing_error option"

definition webhook_events :: "string list" where
  "webhook_events = [''payment.succeeded'', ''payment.failed'', ''invoice.payment_failed'',
     ''invoice.overdue'', ''subscription.updated'', ''subscription.deleted'', ''subscription.resumed'']"

text \<open>Accepting an event: the signature is checked when a provider is named, an event whose id was
  seen is reported as a duplicate, and the id is noted before the event type is looked up.\<close>

definition webhook_accept ::
  "(string \<Rightarrow> string \<Rightarrow> string) \<Rightarrow> billing_config \<Rightarrow> string \<Rightarrow> string \<Rightarrow> webhook_payload \<Rightarrow> string option bill" where
  "webhook_accept mac cfg provider signature w =
    (let ev = (if wp_type w \<noteq> '''' then wp_type w else wp_event w)
     in andthen (if provider \<noteq> '''' then provider_for provider else ret ()) (\<lambda>_.
        andthen (require (ev \<noteq> '''') (WebhookEventError ''missing'')) (\<lambda>_.
        andthen (require (provider = '''' \<or>
                   verify_hmac mac (dict_get_or (bc_secrets cfg) provider '''') (wp_raw w) signature)
                 (WebhookVerificationError provider)) (\<lambda>_.
        andthen (gets (\<lambda>b. wp_id w \<noteq> '''' \<and> wp_id w \<in> set (bl_webhooks b))) (\<lambda>dup.
          if dup then ret None
          else andthen (modify (\<lambda>b. b\<lparr>bl_webhooks := List.insert (wp_id w) (bl_webhooks b)\<rparr>)) (\<lambda>_.
               andthen (require (ev \<in> set webhook_events) (WebhookEventError ev)) (\<lambda>_. ret (Some ev)))))))) "

definition webhook_dispatch ::
  "billing_config \<Rightarrow> pyfloat \<Rightarrow> string \<Rightarrow> string \<Rightarrow> string \<Rightarrow> string \<Rightarrow> webhook_payload \<Rightarrow> string \<Rightarrow> unit bill" where
  "webhook_dispatch cfg now iid pid ref provider w ev =
    (if ev = ''payment.succeeded'' then
       if wp_invoice_id w \<noteq> ''''
       then andthen (record_payment cfg now 0 pid ref (wp_invoice_id w) provider ''card'' None True) (\<lambda>_. ret ())
       else ret ()
     else if ev \<in> {''invoice.payment_failed'', ''payment.failed''} then
       if wp_subscription_id w \<noteq> '''' then andthen (mark_past_due cfg now (wp_subscription_id w)) (\<lambda>_. ret ())
       else ret ()
     else if ev = ''subscription.deleted'' then
       if wp_subscription_id w \<noteq> ''''
       then andthen (cancel_subscription cfg now (wp_subscription_id w) False) (\<lambda>_. ret ()) else ret ()
     else if ev = ''subscription.resumed'' then
       if wp_subscription_id w \<noteq> ''''
       then andthen (resume_subscription cfg now (wp_subscription_id w) '''') (\<lambda>_. ret ()) else ret ()
     else if ev = ''subscription.updated'' then
       if wp_subscription_id w \<noteq> '''' \<and> wp_plan_id w \<noteq> ''''
       then andthen (change_plan cfg now iid (wp_subscription_id w) (wp_plan_id w) None None) (\<lambda>_. ret ())
       else ret ()
     else ret ())"

definition handle_webhook ::
  "(string \<Rightarrow> string \<Rightarrow> string) \<Rightarrow> billing_config \<Rightarrow> pyfloat \<Rightarrow> string \<Rightarrow> string \<Rightarrow> string \<Rightarrow> string \<Rightarrow> string
    \<Rightarrow> webhook_payload \<Rightarrow> webhook_result bill" where
  "handle_webhook mac cfg now iid pid ref provider signature w =
    andthen (webhook_accept mac cfg provider signature w) (\<lambda>r.
      case r of None \<Rightarrow> ret WDuplicate
      | Some ev \<Rightarrow> attempt (andthen (webhook_dispatch cfg now iid pid ref provider w ev)
                             (\<lambda>_. ret (WProcessed None)))
                   (\<lambda>e. ret (WProcessed (Some e))))"


section \<open>The invariant\<close>

definition subs_ok :: "billing \<Rightarrow> bool" where
  "subs_ok b \<longleftrightarrow> dict_ok (bl_subs b) \<and> list_all (\<lambda>(k, s). sub_id s = k) (bl_subs b) \<and>
     distinct (map (\<lambda>p. sub_tenant_id (snd p)) (bl_subs b))"

definition numbers_ok :: "billing_config \<Rightarrow> billing \<Rightarrow> bool" where
  "numbers_ok cfg b \<longleftrightarrow> map (\<lambda>p. in_number (snd p)) (bl_invoices b) =
     map (invoice_number cfg) [0..<length (bl_invoices b)] \<and>
     list_all (\<lambda>(k, i). in_id i = k) (bl_invoices b)"

definition completed :: "string \<Rightarrow> billing \<Rightarrow> nat" where
  "completed iid b =
     length (filter (\<lambda>(k, p). py_invoice_id p = iid \<and> py_status p = PS_COMPLETED) (bl_payments b))"

definition settled_limit :: "string \<Rightarrow> billing \<Rightarrow> nat" where
  "settled_limit iid b =
     (case dict_get (bl_invoices b) iid of Some i \<Rightarrow> (if in_status i = I_PAID then 1 else 0) | None \<Rightarrow> 0)"

definition payments_ok :: "billing \<Rightarrow> bool" where
  "payments_ok b \<longleftrightarrow> (\<forall>iid. completed iid b \<le> settled_limit iid b)"

definition billing_inv :: "billing_config \<Rightarrow> billing \<Rightarrow> bool" where
  "billing_inv cfg b \<longleftrightarrow> subs_ok b \<and> numbers_ok cfg b \<and> payments_ok b \<and> redemptions_ok b"

text \<open>Assertions between the steps of an operation: the invariant, a fact on the subscriptions and a
  fact on the invoices.\<close>

definition at_step ::
  "billing_config \<Rightarrow> ((string, subscription) dict \<Rightarrow> bool) \<Rightarrow> ((string, invoice) dict \<Rightarrow> bool) \<Rightarrow> billing \<Rightarrow> bool" where
  "at_step cfg F G b \<longleftrightarrow> billing_inv cfg b \<and> F (bl_subs b) \<and> G (bl_invoices b)"

definition owned :: "string \<Rightarrow> string \<Rightarrow> (string, subscription) dict \<Rightarrow> bool" where
  "owned sid tenant d \<longleftrightarrow> (\<exists>s. dict_get d sid = Some s \<and> sub_tenant_id s = tenant)"

definition fresh :: "string \<Rightarrow> (string, invoice) dict \<Rightarrow> bool" where
  "fresh iid d \<longleftrightarrow> dict_get d iid = None"

definition unpaid :: "string \<Rightarrow> string \<Rightarrow> (string, invoice) dict \<Rightarrow> bool" where
  "unpaid iid number d \<longleftrightarrow> (\<exists>i. dict_get d iid = Some i \<and> in_number i = number \<and> in_status i \<noteq> I_PAID)"

definition safe :: "billing_config \<Rightarrow> (billing \<Rightarrow> bool) \<Rightarrow> 'a bill \<Rightarrow> bool" where
  "safe cfg P m \<longleftrightarrow> triple P m (\<lambda>_. billing_inv cfg) (\<lambda>_. billing_inv cfg)"

lemma at_stepD: "at_step cfg F G b \<Longrightarrow> billing_inv cfg b"
  by (simp add: at_step_def)

lemma map_dict_set_same:
  assumes "dict_get d k = Some w" and "f w = f v"
  shows "map (\<lambda>p. f (snd p)) (dict_set k v d) = map (\<lambda>p. f (snd p)) d"
  using assms by (induction d) (auto split: if_splits)

lemma dict_set_fresh: "dict_get d k = None \<Longrightarrow> dict_set k v d = d @ [(k, v)]"
  by (induction d) auto

lemma subs_ok_put_owned:
  assumes "subs_ok b" and "owned (sub_id s) (sub_tenant_id s) (bl_subs b)"
  shows "subs_ok (b\<lparr>bl_subs := dict_set (sub_id s) s (bl_subs b)\<rparr>)"
proof -
  from assms(2) obtain w where "dict_get (bl_subs b) (sub_id s) = Some w" "sub_tenant_id w = sub_tenant_id s"
    by (auto simp: owned_def)
  then have "map (\<lambda>p. sub_tenant_id (snd p)) (dict_set (sub_id s) s (bl_subs b)) =
      map (\<lambda>p. sub_tenant_id (snd p)) (bl_subs b)"
    by (rule map_dict_set_same)
  with assms(1) show ?thesis by (auto simp: subs_ok_def intro: list_all_dict_set)
qed

lemma by_tenant_None: "by_tenant d tenant = None \<Longrightarrow> tenant \<notin> sub_tenant_id ` snd ` set d"
  by (auto simp: by_tenant_def find_None_iff image_iff)

lemma by_tenant_Some:
  "by_tenant d tenant = Some s \<Longrightarrow> \<exists>k. (k, s) \<in> set d \<and> sub_tenant_id s = tenant"
  by (auto simp: by_tenant_def find_Some_iff) (metis nth_mem prod.collapse)

lemma snd_dict_set: "snd ` set (dict_set k v d) \<subseteq> insert v (snd ` set d)"
  by (induction d) auto

lemma distinct_tenants_set:
  assumes "distinct (map (\<lambda>p. sub_tenant_id (snd p)) d)" and "sub_tenant_id v \<notin> sub_tenant_id ` snd ` set d"
  shows "distinct (map (\<lambda>p. sub_tenant_id (snd p)) (dict_set k v d))"
  using assms
proof (induction d)
  case (Cons p d)
  have "sub_tenant_id (snd p) \<notin> sub_tenant_id ` snd ` set (dict_set k v d)"
    using Cons.prems image_mono [OF snd_dict_set, of sub_tenant_id k v d] by (auto simp: image_image)
  with Cons show ?case by (cases p) (auto simp: image_image)
qed simp

lemma subs_ok_put_new:
  assumes "subs_ok b" and "by_tenant (bl_subs b) (sub_tenant_id s) = None"
  shows "subs_ok (b\<lparr>bl_subs := dict_set (sub_id s) s (bl_subs b)\<rparr>)"
  using assms by_tenant_None [OF assms(2)]
  by (auto simp: subs_ok_def intro!: list_all_dict_set distinct_tenants_set)

lemma numbers_ok_draft:
  assumes "numbers_ok cfg b" and "fresh (in_id i) (bl_invoices b)"
    and "in_number i = invoice_number cfg (length (bl_invoices b))"
  shows "numbers_ok cfg (b\<lparr>bl_invoices := dict_set (in_id i) i (bl_invoices b)\<rparr>)"
  using assms by (auto simp: numbers_ok_def fresh_def dict_set_fresh)

lemma numbers_ok_put:
  assumes "numbers_ok cfg b" and "dict_get (bl_invoices b) (in_id i) = Some j" and "in_number j = in_number i"
  shows "numbers_ok cfg (b\<lparr>bl_invoices := dict_set (in_id i) i (bl_invoices b)\<rparr>)"
  using assms map_dict_set_same [OF assms(2), of in_number i]
  by (auto simp: numbers_ok_def length_dict_set dict_has_def intro: list_all_dict_set)

lemma payments_ok_invoice:
  assumes "payments_ok b"
    and "\<And>j. dict_get (bl_invoices b) (in_id i) = Some j \<Longrightarrow> in_status j = I_PAID \<Longrightarrow> in_status i = I_PAID"
  shows "payments_ok (b\<lparr>bl_invoices := dict_set (in_id i) i (bl_invoices b)\<rparr>)"
  unfolding payments_ok_def
proof
  fix iid
  have "completed iid b \<le> settled_limit iid b" using assms(1) by (simp add: payments_ok_def)
  moreover have "settled_limit iid b \<le>
      settled_limit iid (b\<lparr>bl_invoices := dict_set (in_id i) i (bl_invoices b)\<rparr>)"
    using assms(2) by (auto simp: settled_limit_def split: option.split)
  ultimately show "completed iid (b\<lparr>bl_invoices := dict_set (in_id i) i (bl_invoices b)\<rparr>) \<le>
      settled_limit iid (b\<lparr>bl_invoices := dict_set (in_id i) i (bl_invoices b)\<rparr>)"
    by (simp add: completed_def)
qed

lemma length_filter_dict_set:
  "length (filter (\<lambda>(k, v). P v) (dict_set k v d)) \<le> length (filter (\<lambda>(k, v). P v) d) + (if P v then 1 else 0)"
  by (induction d) auto

lemma completed_put:
  "completed iid (b\<lparr>bl_payments := dict_set k p (bl_payments b)\<rparr>) \<le>
     completed iid b + (if py_invoice_id p = iid \<and> py_status p = PS_COMPLETED then 1 else 0)"
  unfolding completed_def
  using length_filter_dict_set [of "\<lambda>p. py_invoice_id p = iid \<and> py_status p = PS_COMPLETED" k p "bl_payments b"]
  by simp

lemma payments_ok_put:
  assumes "payments_ok b" and "py_status p \<noteq> PS_COMPLETED"
  shows "payments_ok (b\<lparr>bl_payments := dict_set k p (bl_payments b)\<rparr>)"
  unfolding payments_ok_def
proof
  fix iid
  show "completed iid (b\<lparr>bl_payments := dict_set k p (bl_payments b)\<rparr>) \<le>
      settled_limit iid (b\<lparr>bl_payments := dict_set k p (bl_payments b)\<rparr>)"
    using completed_put [where iid = iid and b = b and k = k and p = p] assms by (auto simp: payments_ok_def settled_limit_def intro: order_trans)
qed

lemma payments_ok_settle:
  assumes "payments_ok b" and "dict_get (bl_invoices b) (in_id i) = Some j" and "in_status j \<noteq> I_PAID"
    and "in_status i = I_PAID" and "py_invoice_id p = in_id i"
  shows "payments_ok (b\<lparr>bl_payments := dict_set k p (bl_payments b),
     bl_invoices := dict_set (in_id i) i (bl_invoices b)\<rparr>)" (is "payments_ok ?b")
  unfolding payments_ok_def
proof
  fix iid
  have old: "completed iid b \<le> settled_limit iid b" using assms(1) by (simp add: payments_ok_def)
  have "completed iid ?b = completed iid (b\<lparr>bl_payments := dict_set k p (bl_payments b)\<rparr>)"
    by (simp add: completed_def)
  also have "\<dots> \<le> completed iid b + (if py_invoice_id p = iid \<and> py_status p = PS_COMPLETED then 1 else 0)"
    by (rule completed_put)
  also have "\<dots> \<le> settled_limit iid ?b"
    using old assms(2-5) by (auto simp: settled_limit_def split: option.splits if_splits)
  finally show "completed iid ?b \<le> settled_limit iid ?b" .
qed


section \<open>Rules for safe programs\<close>

definition frame :: "'a bill \<Rightarrow> bool" where
  "frame m \<longleftrightarrow> (\<forall>b. let b' = snd (m b) in bl_subs b' = bl_subs b \<and> bl_invoices b' = bl_invoices b \<and>
     bl_payments b' = bl_payments b \<and> bl_coupons b' = bl_coupons b)"

lemma billing_inv_frame:
  assumes "bl_subs b' = bl_subs b" "bl_invoices b' = bl_invoices b" "bl_payments b' = bl_payments b"
    "bl_coupons b' = bl_coupons b"
  shows "billing_inv cfg b' = billing_inv cfg b"
  using assms by (simp add: billing_inv_def subs_ok_def numbers_ok_def payments_ok_def redemptions_ok_def
      completed_def settled_limit_def)

lemma at_step_frame:
  assumes "bl_subs b' = bl_subs b" "bl_invoices b' = bl_invoices b" "bl_payments b' = bl_payments b"
    "bl_coupons b' = bl_coupons b"
  shows "at_step cfg F G b' = at_step cfg F G b"
  using billing_inv_frame [OF assms] assms by (simp add: at_step_def)

lemma frame_prims:
  "frame (plan_get pid)" "frame (ret a)" "frame (throw e)" "frame (gets g)" "frame (require c e')"
  "frame (engine_price pid usage seats interval strategy)" "frame (provider_for nm)"
  "frame (publish ev s)" "frame (apply_quota tenant p)" "frame (lift_result r)"
  "frame (coupon_discount now code x pid)" "frame (payment_get yid)" "frame (invoice_get iid)"
  "frame (modify (\<lambda>b. b\<lparr>bl_webhooks := h b\<rparr>))"
  by (simp_all add: frame_def plan_get_def fetch_def engine_price_def provider_for_def publish_def
      apply_quota_def coupon_discount_def coupon_validate_def coupon_get_def payment_get_def
      invoice_get_def andthen_def Let_def split: option.split sum.split)

lemma frame_sub_get: "frame (sub_get sid)"
  by (simp add: frame_def sub_get_def fetch_def Let_def split: option.split)

lemma safe_frame:
  assumes "frame m" and "\<And>a. safe cfg (at_step cfg F G) (f a)"
  shows "safe cfg (at_step cfg F G) (andthen m f)"
  unfolding safe_def
proof (rule triple_andthen)
  have same: "at_step cfg F G b' = at_step cfg F G b" if "m b = (r, b')" for b b' r
    using assms(1) that unfolding frame_def
    by (intro at_step_frame) (metis (no_types, lifting) snd_conv)+
  show "triple (at_step cfg F G) m (\<lambda>_. at_step cfg F G) (\<lambda>_. billing_inv cfg)"
    by (rule tripleI) (use same at_stepD in blast)+
  show "triple (at_step cfg F G) (f a) (\<lambda>_. billing_inv cfg) (\<lambda>_. billing_inv cfg)" for a
    using assms(2) by (simp add: safe_def)
qed

lemma safe_final: "safe cfg (at_step cfg F G) (ret a)" "safe cfg (at_step cfg F G) (throw e)"
  by (auto simp: safe_def triple_def at_stepD)

lemma safe_frame_end: "frame m \<Longrightarrow> safe cfg (at_step cfg F G) m"
  by (rule safe_frame [where f = ret, unfolded andthen_ret]) (simp_all add: safe_final)

lemma safe_if:
  "(c \<Longrightarrow> safe cfg P m) \<Longrightarrow> (\<not> c \<Longrightarrow> safe cfg P n) \<Longrightarrow> safe cfg P (if c then m else n)"
  by simp

lemma safe_call:
  assumes "safe cfg (at_step cfg (\<lambda>_. True) (\<lambda>_. True)) m"
    and "\<And>a. safe cfg (at_step cfg (\<lambda>_. True) (\<lambda>_. True)) (f a)"
  shows "safe cfg (at_step cfg F G) (andthen m f)"
  unfolding safe_def
proof (rule triple_andthen)
  show "triple (at_step cfg F G) m (\<lambda>_. billing_inv cfg) (\<lambda>_. billing_inv cfg)"
    using assms(1) unfolding safe_def by (rule triple_weaken) (auto simp: at_step_def)
  show "triple (billing_inv cfg) (f a) (\<lambda>_. billing_inv cfg) (\<lambda>_. billing_inv cfg)" for a
    using assms(2) [of a] unfolding safe_def by (rule triple_weaken) (auto simp: at_step_def)
qed

lemma safe_weaken: "safe cfg (at_step cfg (\<lambda>_. True) (\<lambda>_. True)) m \<Longrightarrow> safe cfg (at_step cfg F G) m"
  unfolding safe_def by (erule triple_weaken) (auto simp: at_step_def)

text \<open>Steps on subscriptions.\<close>

lemma put_sub_step:
  assumes "at_step cfg (owned sid tenant) G b" and "sub_id s = sid" and "sub_tenant_id s = tenant"
  shows "at_step cfg (owned sid tenant) G (b\<lparr>bl_subs := dict_set (sub_id s) s (bl_subs b)\<rparr>)"
proof -
  have "subs_ok (b\<lparr>bl_subs := dict_set (sub_id s) s (bl_subs b)\<rparr>)"
    using assms subs_ok_put_owned [of b s] by (simp add: at_step_def billing_inv_def)
  with assms show ?thesis
    by (simp add: at_step_def billing_inv_def numbers_ok_def payments_ok_def redemptions_ok_def
        completed_def settled_limit_def owned_def)
qed

lemma safe_put_sub:
  assumes "sub_id s = sid" and "sub_tenant_id s = tenant"
    and "safe cfg (at_step cfg (owned sid tenant) G) (f ())"
  shows "safe cfg (at_step cfg (owned sid tenant) G) (andthen (put_sub s) f)"
  unfolding safe_def
proof (rule triple_andthen)
  show "triple (at_step cfg (owned sid tenant) G) (put_sub s)
      (\<lambda>_. at_step cfg (owned sid tenant) G) (\<lambda>_. billing_inv cfg)"
    using put_sub_step [of cfg sid tenant G _ s] assms(1,2) by (auto simp: triple_def put_sub_def)
qed (use assms(3) in \<open>simp add: safe_def\<close>)

lemma safe_sub_update:
  assumes "sub_id s = sid" and "sub_tenant_id s = tenant"
    and "safe cfg (at_step cfg (owned sid tenant) G) (f ())"
  shows "safe cfg (at_step cfg (owned sid tenant) G) (andthen (sub_update s) f)"
proof -
  have "andthen (sub_update s) f = andthen (sub_get (sub_id s)) (\<lambda>_. andthen (put_sub s) f)"
    by (simp add: sub_update_def andthen_norm)
  moreover have "safe cfg (at_step cfg (owned sid tenant) G) (andthen (put_sub s) f)"
    using assms by (intro safe_put_sub)
  ultimately show ?thesis by (simp add: safe_frame frame_sub_get)
qed

lemma safe_sub_update_end:
  assumes "sub_id s = sid" and "sub_tenant_id s = tenant"
  shows "safe cfg (at_step cfg (owned sid tenant) G) (sub_update s)"
  by (rule safe_sub_update [where f = ret, unfolded andthen_ret]) (simp_all add: safe_final assms)

lemma safe_transition:
  assumes "sub_id s = sid" and "sub_tenant_id s = tenant"
    and "\<And>s'. sub_id s' = sid \<Longrightarrow> sub_tenant_id s' = tenant \<Longrightarrow> safe cfg (at_step cfg (owned sid tenant) G) (f s')"
  shows "safe cfg (at_step cfg (owned sid tenant) G) (andthen (transition s target) f)"
proof -
  have eq: "andthen (transition s target) f =
      (case sub_transition target s of Inl e \<Rightarrow> throw e | Inr s' \<Rightarrow> andthen (put_sub s') (\<lambda>_. f s'))"
    by (auto simp: transition_def andthen_norm split: sum.split intro!: ext)
  show ?thesis
  proof (cases "sub_transition target s")
    case (Inr s')
    then have s': "sub_id s' = sid" "sub_tenant_id s' = tenant"
      using assms(1,2) by (auto simp: sub_transition_def split: if_splits)
    with Inr show ?thesis using safe_put_sub [OF s'] assms(3) [OF s'] by (simp add: eq)
  qed (simp add: eq safe_final)
qed

lemma safe_transition_end:
  "sub_id s = sid \<Longrightarrow> sub_tenant_id s = tenant \<Longrightarrow>
     safe cfg (at_step cfg (owned sid tenant) G) (transition s target)"
  by (rule safe_transition [where f = ret, unfolded andthen_ret]) (simp_all add: safe_final)


lemma safe_sub_get:
  assumes "\<And>s. safe cfg (at_step cfg (owned (sub_id s) (sub_tenant_id s)) G) (f s)"
  shows "safe cfg (at_step cfg F G) (andthen (sub_get sid) f)"
  unfolding safe_def
proof (rule triple_andthen)
  have "sub_id s = sid" if "subs_ok b" "dict_get (bl_subs b) sid = Some s" for b s
    using that dict_get_in [OF that(2)] by (auto simp: subs_ok_def list_all_iff)
  then show "triple (at_step cfg F G) (sub_get sid)
      (\<lambda>s. at_step cfg (owned (sub_id s) (sub_tenant_id s)) G) (\<lambda>_. billing_inv cfg)"
    unfolding sub_get_def
    by (intro triple_fetch) (auto simp: at_step_def owned_def billing_inv_def)
  show "triple (at_step cfg (owned (sub_id s) (sub_tenant_id s)) G) (f s)
      (\<lambda>_. billing_inv cfg) (\<lambda>_. billing_inv cfg)" for s
    using assms [of s] by (simp add: safe_def)
qed

lemma safe_enforce_grace:
  assumes "\<And>s'. sub_id s' = sub_id s \<Longrightarrow> sub_tenant_id s' = sub_tenant_id s \<Longrightarrow>
      safe cfg (at_step cfg (owned (sub_id s) (sub_tenant_id s)) G) (f s')"
  shows "safe cfg (at_step cfg (owned (sub_id s) (sub_tenant_id s)) G) (andthen (enforce_grace now s) f)"
  unfolding enforce_grace_def andthen_norm Let_def
  by (intro safe_if safe_transition safe_sub_update assms) simp_all

lemma safe_get_sub:
  assumes "\<And>s. safe cfg (at_step cfg (owned (sub_id s) (sub_tenant_id s)) G) (f s)"
  shows "safe cfg (at_step cfg F G) (andthen (get_sub now sid) f)"
  unfolding get_sub_def andthen_norm
proof (intro safe_sub_get safe_enforce_grace)
  show "safe cfg (at_step cfg (owned (sub_id s) (sub_tenant_id s)) G) (f s')"
    if "sub_id s' = sub_id s" "sub_tenant_id s' = sub_tenant_id s" for s s'
    using assms [of s'] that by simp
qed

text \<open>Steps on invoices.\<close>

lemma put_invoice_step:
  assumes "at_step cfg F (unpaid iid number) b" and "in_id i = iid" and "in_number i = number"
    and "in_status i \<noteq> I_PAID"
  shows "at_step cfg F (unpaid iid number) (b\<lparr>bl_invoices := dict_set (in_id i) i (bl_invoices b)\<rparr>)"
proof -
  from assms obtain j where j: "dict_get (bl_invoices b) (in_id i) = Some j" "in_number j = in_number i"
      "in_status j \<noteq> I_PAID"
    by (auto simp: at_step_def unpaid_def)
  have inv: "billing_inv cfg b" using assms(1) by (rule at_stepD)
  then have "numbers_ok cfg (b\<lparr>bl_invoices := dict_set (in_id i) i (bl_invoices b)\<rparr>)"
    using numbers_ok_put j(1,2) by (auto simp: billing_inv_def)
  moreover have "payments_ok (b\<lparr>bl_invoices := dict_set (in_id i) i (bl_invoices b)\<rparr>)"
    using inv j by (intro payments_ok_invoice) (auto simp: billing_inv_def)
  ultimately show ?thesis
    using assms inv by (simp add: at_step_def billing_inv_def subs_ok_def redemptions_ok_def unpaid_def)
qed

lemma safe_put_invoice:
  assumes "in_id i = iid" and "in_number i = number" and "in_status i \<noteq> I_PAID"
    and "safe cfg (at_step cfg F (unpaid iid number)) (f ())"
  shows "safe cfg (at_step cfg F (unpaid iid number)) (andthen (put_invoice i) f)"
  unfolding safe_def
proof (rule triple_andthen)
  show "triple (at_step cfg F (unpaid iid number)) (put_invoice i)
      (\<lambda>_. at_step cfg F (unpaid iid number)) (\<lambda>_. billing_inv cfg)"
    using put_invoice_step [of cfg F iid number _ i] assms(1-3) by (auto simp: triple_def)
qed (use assms(4) in \<open>simp add: safe_def\<close>)

lemma safe_invoice_update:
  assumes "in_id i = iid" and "in_number i = number" and "in_status i \<noteq> I_PAID"
    and "safe cfg (at_step cfg F (unpaid iid number)) (f i)"
  shows "safe cfg (at_step cfg F (unpaid iid number)) (andthen (invoice_update i) f)"
  unfolding invoice_update_def andthen_norm
  using assms by (intro safe_frame frame_prims safe_put_invoice) simp_all

lemma safe_invoice_update_end:
  "in_id i = iid \<Longrightarrow> in_number i = number \<Longrightarrow> in_status i \<noteq> I_PAID \<Longrightarrow>
     safe cfg (at_step cfg F (unpaid iid number)) (invoice_update i)"
  by (rule safe_invoice_update [where f = ret, unfolded andthen_ret]) (simp_all add: safe_final)

lemma safe_create_draft:
  assumes "\<And>i. in_id i = iid \<Longrightarrow> in_status i = I_DRAFT \<Longrightarrow>
      safe cfg (at_step cfg F (unpaid iid (in_number i))) (f i)"
  shows "safe cfg (at_step cfg F (fresh iid)) (andthen (create_draft cfg iid tenant sub ps pe) f)"
  unfolding safe_def
proof (rule triple_andthen)
  show "triple (at_step cfg F (fresh iid)) (create_draft cfg iid tenant sub ps pe)
      (\<lambda>i b. in_id i = iid \<and> in_status i = I_DRAFT \<and> at_step cfg F (unpaid iid (in_number i)) b)
      (\<lambda>_. billing_inv cfg)"
  proof (rule tripleI)
    fix b i b'
    assume at: "at_step cfg F (fresh iid) b" and run: "create_draft cfg iid tenant sub ps pe b = (Inr i, b')"
    from run have i: "in_id i = iid" "in_status i = I_DRAFT"
        "in_number i = invoice_number cfg (length (bl_invoices b))"
        and b': "b' = b\<lparr>bl_invoices := dict_set (in_id i) i (bl_invoices b)\<rparr>"
      by (auto simp: create_draft_def Let_def)
    have inv: "billing_inv cfg b" and fr: "fresh (in_id i) (bl_invoices b)"
      using at i(1) by (auto simp: at_step_def)
    then have "numbers_ok cfg b'" unfolding b'
      using i(3) by (intro numbers_ok_draft) (auto simp: billing_inv_def)
    moreover have "payments_ok b'" unfolding b'
      using inv fr by (intro payments_ok_invoice) (auto simp: billing_inv_def fresh_def)
    ultimately show "in_id i = iid \<and> in_status i = I_DRAFT \<and> at_step cfg F (unpaid iid (in_number i)) b'"
      using at i inv b'
      by (simp add: at_step_def billing_inv_def subs_ok_def redemptions_ok_def unpaid_def)
  next
    fix b e b'
    assume "create_draft cfg iid tenant sub ps pe b = (Inl e, b')"
    then show "billing_inv cfg b'" by (simp add: create_draft_def Let_def)
  qed
  show "triple (\<lambda>b. in_id i = iid \<and> in_status i = I_DRAFT \<and> at_step cfg F (unpaid iid (in_number i)) b) (f i)
      (\<lambda>_. billing_inv cfg) (\<lambda>_. billing_inv cfg)" for i
    using assms [of i] unfolding safe_def by (intro triple_pure) auto
qed

text \<open>Coupons and payments.\<close>

lemma at_step_coupons:
  assumes "at_step cfg F G b" and "redemptions_ok (b\<lparr>bl_coupons := d\<rparr>)"
  shows "at_step cfg F G (b\<lparr>bl_coupons := d\<rparr>)"
  using assms by (simp add: at_step_def billing_inv_def subs_ok_def numbers_ok_def payments_ok_def
      completed_def settled_limit_def)

lemma coupon_redeem_state:
  "\<exists>d. final_state (coupon_redeem now code pid) b = b\<lparr>bl_coupons := d\<rparr>"
proof (cases "coupon_validate now code pid b")
  case (Pair r b')
  then have "b' = b" using coupon_validate_state [of now code pid b] by simp
  show ?thesis
  proof (cases r)
    case (Inl e)
    with Pair \<open>b' = b\<close> have "final_state (coupon_redeem now code pid) b = b\<lparr>bl_coupons := bl_coupons b\<rparr>"
      by (simp add: final_state_def coupon_redeem_def)
    then show ?thesis by blast
  next
    case (Inr c)
    show ?thesis
      unfolding final_state_def coupon_redeem_def coupon_update_def Let_def
      using Inr Pair \<open>b' = b\<close> by (simp add: fetch_def andthen_def split: option.split) blast
  qed
qed

lemma safe_coupon_redeem:
  assumes "\<And>c. safe cfg (at_step cfg F G) (f c)"
  shows "safe cfg (at_step cfg F G) (andthen (coupon_redeem now code pid) f)"
  unfolding safe_def
proof (rule triple_andthen)
  have "at_step cfg F G (final_state (coupon_redeem now code pid) b)" if "at_step cfg F G b" for b
    using redemptions_ok_redeem [of b now code pid] coupon_redeem_state [of now code pid b] that
      at_step_coupons [of cfg F G b]
    by (auto simp: at_step_def billing_inv_def)
  then show "triple (at_step cfg F G) (coupon_redeem now code pid) (\<lambda>_. at_step cfg F G) (\<lambda>_. billing_inv cfg)"
    by (intro tripleI) (metis final_state_def snd_conv at_stepD)+
  show "triple (at_step cfg F G) (f c) (\<lambda>_. billing_inv cfg) (\<lambda>_. billing_inv cfg)" for c
    using assms by (simp add: safe_def)
qed

lemma safe_put_payment:
  assumes "py_status p \<noteq> PS_COMPLETED" and "safe cfg (at_step cfg F G) (f ())"
  shows "safe cfg (at_step cfg F G) (andthen (put_payment p) f)"
  unfolding safe_def
proof (rule triple_andthen)
  have "at_step cfg F G (b\<lparr>bl_payments := dict_set (py_id p) p (bl_payments b)\<rparr>)" if "at_step cfg F G b" for b
    using that payments_ok_put [of b p "py_id p"] assms(1)
    by (simp add: at_step_def billing_inv_def subs_ok_def numbers_ok_def redemptions_ok_def)
  then show "triple (at_step cfg F G) (put_payment p) (\<lambda>_. at_step cfg F G) (\<lambda>_. billing_inv cfg)"
    by (simp add: triple_def put_payment_def)
qed (use assms(2) in \<open>simp add: safe_def\<close>)


section \<open>The operations are safe\<close>

lemmas safe_steps = frame_prims [THEN safe_frame]
lemmas safe_ends = frame_prims [THEN safe_frame_end]

lemma safe_gets_tenant:
  assumes "\<And>e. safe cfg (at_step cfg (\<lambda>d. by_tenant d tenant = e) G) (f e)"
  shows "safe cfg (at_step cfg F G) (andthen (gets (\<lambda>b. by_tenant (bl_subs b) tenant)) f)"
  unfolding safe_def
proof (rule triple_andthen)
  show "triple (at_step cfg F G) (gets (\<lambda>b. by_tenant (bl_subs b) tenant))
      (\<lambda>e. at_step cfg (\<lambda>d. by_tenant d tenant = e) G) (\<lambda>_. billing_inv cfg)"
    by (intro triple_basic) (simp add: at_step_def)
  show "triple (at_step cfg (\<lambda>d. by_tenant d tenant = e) G) (f e) (\<lambda>_. billing_inv cfg) (\<lambda>_. billing_inv cfg)" for e
    using assms [of e] by (simp add: safe_def)
qed

lemma safe_put_sub_tenant:
  assumes "sub_tenant_id s = tenant" and "case e of None \<Rightarrow> True | Some x \<Rightarrow> sub_id s = sub_id x"
    and "safe cfg (at_step cfg (\<lambda>_. True) G) (f ())"
  shows "safe cfg (at_step cfg (\<lambda>d. by_tenant d tenant = e) G) (andthen (put_sub s) f)"
  unfolding safe_def
proof (rule triple_andthen)
  have "subs_ok (b\<lparr>bl_subs := dict_set (sub_id s) s (bl_subs b)\<rparr>)"
    if ok: "subs_ok b" and e: "by_tenant (bl_subs b) tenant = e" for b
  proof (cases e)
    case None
    then show ?thesis using subs_ok_put_new [OF ok, of s] e assms(1) by simp
  next
    case (Some x)
    then obtain k where k: "(k, x) \<in> set (bl_subs b)" "sub_tenant_id x = tenant"
      using by_tenant_Some e by blast
    then have "k = sub_id s" "dict_get (bl_subs b) k = Some x"
      using ok assms(2) Some by (auto simp: subs_ok_def list_all_iff dict_ok_getI)
    then have "owned (sub_id s) (sub_tenant_id s) (bl_subs b)"
      using k(2) assms(1) by (auto simp: owned_def)
    with ok show ?thesis by (rule subs_ok_put_owned)
  qed
  then show "triple (at_step cfg (\<lambda>d. by_tenant d tenant = e) G) (put_sub s)
      (\<lambda>_. at_step cfg (\<lambda>_. True) G) (\<lambda>_. billing_inv cfg)"
    by (auto simp: triple_def put_sub_def at_step_def billing_inv_def numbers_ok_def payments_ok_def
        redemptions_ok_def completed_def settled_limit_def)
qed (use assms(3) in \<open>simp add: safe_def\<close>)

lemma safe_sync_quota: "safe cfg (at_step cfg F G) (sync_quota cfg now sid)"
  unfolding sync_quota_def by (intro safe_get_sub safe_steps safe_ends)

lemma new_subscription_sel [simp]:
  "sub_tenant_id (new_subscription cfg now sid tenant pid p interval seats price coupon provider ar days e) = tenant"
  "sub_id (new_subscription cfg now sid tenant pid p interval seats price coupon provider ar days e) =
     (case e of None \<Rightarrow> sid | Some x \<Rightarrow> sub_id x)"
  by (simp_all add: new_subscription_def Let_def)

lemma safe_create_subscription:
  "safe cfg (at_step cfg F G)
     (create_subscription cfg now sid tenant pid interval seats coupon provider auto_renew trial_days)"
  unfolding create_subscription_def Let_def andthen_norm
  by (intro safe_gets_tenant safe_if safe_coupon_redeem safe_put_sub_tenant
      safe_call [OF safe_sync_quota] safe_steps safe_ends) (auto split: option.split)

lemma safe_proration:
  assumes "safe cfg (at_step cfg F (\<lambda>_. True)) (f ())"
  shows "safe cfg (at_step cfg F (fresh iid)) (andthen (proration_invoice cfg now iid s previous target seats) f)"
proof -
  have drop: "safe cfg (at_step cfg F G) (f ())" for G
    using assms unfolding safe_def by (rule triple_weaken) (auto simp: at_step_def)
  show ?thesis
    unfolding proration_invoice_def Let_def andthen_norm
    by (intro safe_if safe_create_draft safe_invoice_update safe_steps drop) simp_all
qed

lemma safe_drop_fresh:
  "safe cfg (at_step cfg F (\<lambda>_. True)) m \<Longrightarrow> safe cfg (at_step cfg F G) m"
  unfolding safe_def by (erule triple_weaken) (auto simp: at_step_def)

lemma safe_change_plan: "safe cfg (at_step cfg F (fresh iid)) (change_plan cfg now iid sid pid seats prorate)"
  unfolding change_plan_def Let_def andthen_norm
  by (intro safe_get_sub safe_if safe_proration safe_put_sub safe_sub_update
      safe_call [OF safe_sync_quota] safe_steps safe_ends) simp_all

lemma safe_cancel: "safe cfg (at_step cfg F G) (cancel_subscription cfg now sid at_end)"
  unfolding cancel_subscription_def Let_def andthen_norm
  by (intro safe_get_sub safe_if safe_transition safe_sub_update safe_steps safe_ends) simp_all

lemma safe_resume: "safe cfg (at_step cfg F G) (resume_subscription cfg now sid pid)"
  unfolding resume_subscription_def Let_def andthen_norm
  by (intro safe_get_sub safe_if safe_transition safe_put_sub safe_sub_update
      safe_call [OF safe_sync_quota] safe_steps safe_ends) simp_all

lemma safe_pause: "safe cfg (at_step cfg F G) (pause_subscription now sid)"
  unfolding pause_subscription_def Let_def andthen_norm
  by (intro safe_get_sub safe_transition safe_put_sub safe_sub_update safe_steps safe_ends) simp_all

lemma safe_convert_trial: "safe cfg (at_step cfg F G) (convert_trial cfg now sid)"
  unfolding convert_trial_def Let_def andthen_norm
  by (intro safe_get_sub safe_if safe_transition safe_sub_update
      safe_call [OF safe_sync_quota] safe_steps safe_ends) simp_all

lemma safe_mark_past_due: "safe cfg (at_step cfg F G) (mark_past_due cfg now sid)"
  unfolding mark_past_due_def Let_def andthen_norm
  by (intro safe_get_sub safe_transition safe_sub_update safe_steps safe_ends) simp_all

lemma safe_invoice_build:
  assumes "in_id i = iid" and "in_status i = I_DRAFT"
    and "\<And>j. safe cfg (at_step cfg F (unpaid iid (in_number i))) (f j)"
  shows "safe cfg (at_step cfg F (unpaid iid (in_number i)))
    (andthen (invoice_build cfg now i p sub usage coupon country tax_rate) f)"
  unfolding invoice_build_def Let_def andthen_norm
  using assms by (intro safe_put_invoice safe_if safe_invoice_update safe_steps) simp_all

lemma safe_generate_invoice:
  "safe cfg (at_step cfg F (fresh iid)) (generate_invoice cfg now iid sid coupon country tax_rate)"
  unfolding generate_invoice_def Let_def andthen_norm
  by (intro safe_get_sub safe_create_draft safe_invoice_build safe_steps safe_ends) simp_all

lemma safe_require:
  "(c \<Longrightarrow> safe cfg (at_step cfg F G) (f ())) \<Longrightarrow> safe cfg (at_step cfg F G) (andthen (require c e) f)"
  by (cases c) (simp_all add: require_def andthen_norm safe_final)

lemma safe_invoice_get:
  assumes "\<And>i. in_id i = iid \<Longrightarrow> safe cfg (at_step cfg F (\<lambda>d. dict_get d iid = Some i)) (f i)"
  shows "safe cfg (at_step cfg F G) (andthen (invoice_get iid) f)"
  unfolding safe_def
proof (rule triple_andthen)
  have "in_id i = iid" if "numbers_ok cfg b" "dict_get (bl_invoices b) iid = Some i" for b i
    using that dict_get_in [OF that(2)] by (auto simp: numbers_ok_def list_all_iff)
  then show "triple (at_step cfg F G) (invoice_get iid)
     (\<lambda>i b. in_id i = iid \<and> at_step cfg F (\<lambda>d. dict_get d iid = Some i) b) (\<lambda>_. billing_inv cfg)"
    unfolding invoice_get_def by (intro triple_fetch) (auto simp: at_step_def billing_inv_def)
  show "triple (\<lambda>b. in_id i = iid \<and> at_step cfg F (\<lambda>d. dict_get d iid = Some i) b) (f i)
      (\<lambda>_. billing_inv cfg) (\<lambda>_. billing_inv cfg)" for i
    using assms [of i] unfolding safe_def by (rule triple_pure)
qed

lemma safe_as_unpaid:
  "in_status i \<noteq> I_PAID \<Longrightarrow> safe cfg (at_step cfg F (unpaid iid (in_number i))) m \<Longrightarrow>
     safe cfg (at_step cfg F (\<lambda>d. dict_get d iid = Some i)) m"
  unfolding safe_def by (erule triple_weaken) (auto simp: at_step_def unpaid_def)

lemma safe_void: "safe cfg (at_step cfg F G) (invoice_void iid)"
  unfolding invoice_void_def
  by (intro safe_invoice_get safe_require safe_as_unpaid safe_invoice_update_end) simp_all

text \<open>Paying: the completed payment and the paid invoice are written together.\<close>

lemma safe_put_paid:
  assumes "py_invoice_id p = iid"
    and "\<And>i. safe cfg (at_step cfg F (\<lambda>_. True)) (f i)"
  shows "safe cfg (at_step cfg F (unpaid iid number))
    (andthen (put_payment p) (\<lambda>_. andthen (invoice_mark_paid now iid) f))"
proof -
  have "triple (at_step cfg F (unpaid iid number))
      (andthen (put_payment p) (\<lambda>_. invoice_mark_paid now iid))
      (\<lambda>_. at_step cfg F (\<lambda>_. True)) (\<lambda>_. billing_inv cfg)"
    unfolding triple_def
  proof (intro allI impI)
    fix b
    assume at: "at_step cfg F (unpaid iid number) b"
    then obtain j where j: "dict_get (bl_invoices b) iid = Some j" "in_status j \<noteq> I_PAID"
      by (auto simp: at_step_def unpaid_def)
    then have id: "in_id j = iid"
      using at dict_get_in [OF j(1)] by (auto simp: at_step_def billing_inv_def numbers_ok_def list_all_iff)
    let ?i = "j\<lparr>in_status := I_PAID, in_paid_at := now\<rparr>"
    let ?b = "b\<lparr>bl_payments := dict_set (py_id p) p (bl_payments b),
      bl_invoices := dict_set (in_id ?i) ?i (bl_invoices b)\<rparr>"
    have run: "andthen (put_payment p) (\<lambda>_. invoice_mark_paid now iid) b = (Inr ?i, ?b)"
      using j(1) id
      by (simp add: put_payment_def invoice_mark_paid_def invoice_get_def invoice_update_run fetch_def
          dict_has_def andthen_def)
    have "payments_ok ?b"
      using at j id assms(1) by (intro payments_ok_settle) (auto simp: at_step_def billing_inv_def)
    moreover have "numbers_ok cfg (b\<lparr>bl_invoices := dict_set (in_id ?i) ?i (bl_invoices b)\<rparr>)"
      using at j id by (intro numbers_ok_put) (auto simp: at_step_def billing_inv_def)
    ultimately have "at_step cfg F (\<lambda>_. True) ?b"
      using at by (simp add: at_step_def billing_inv_def subs_ok_def redemptions_ok_def numbers_ok_def)
    with run show "case andthen (put_payment p) (\<lambda>_. invoice_mark_paid now iid) b of
        (Inl e, b') \<Rightarrow> billing_inv cfg b' | (Inr a, b') \<Rightarrow> at_step cfg F (\<lambda>_. True) b'"
      by simp
  qed
  then have "triple (at_step cfg F (unpaid iid number))
      (andthen (andthen (put_payment p) (\<lambda>_. invoice_mark_paid now iid)) f)
      (\<lambda>_. billing_inv cfg) (\<lambda>_. billing_inv cfg)"
    by (rule triple_andthen) (use assms(2) in \<open>simp add: safe_def\<close>)
  then show ?thesis by (simp add: safe_def andthen_assoc)
qed

lemma safe_settle:
  assumes "py_invoice_id p = iid" and "sub_id s = sid" and "sub_tenant_id s = tenant"
    and "\<And>F G. safe cfg (at_step cfg F G) (f ())"
  shows "safe cfg (at_step cfg (owned sid tenant) (unpaid iid number))
    (andthen (put_payment p) (\<lambda>_. andthen (settle_payment cfg now iid s) f))"
  unfolding settle_payment_def Let_def andthen_norm
  using assms by (intro safe_put_paid safe_if safe_transition safe_sub_update
      safe_call [OF safe_convert_trial] safe_steps) simp_all

lemma provider_charge_sel:
  "provider_charge cfg nm http pid ref tenant amount iid meth = Inr p \<Longrightarrow> py_invoice_id p = iid"
  by (auto simp: provider_charge_def bind_result_eq_Inr split: if_splits)

lemma safe_take_payment:
  assumes "\<And>p. py_invoice_id p = in_id i \<Longrightarrow> safe cfg (at_step cfg F G) (f p)"
  shows "safe cfg (at_step cfg F G)
    (andthen (take_payment cfg now http pid ref i s provider meth amount external) f)"
proof (cases "external")
  case True
  then show ?thesis
    unfolding take_payment_def using assms by (simp add: andthen_norm payment_record_def)
next
  case False
  show ?thesis
  proof (cases "provider_charge cfg provider http pid ref (in_tenant_id i) amount (in_id i) meth")
    case (Inr p)
    with False show ?thesis
      unfolding take_payment_def using assms [OF provider_charge_sel [OF Inr]] by (simp add: andthen_norm)
  next
    case (Inl e)
    show ?thesis
    proof (cases "\<exists>x. e = PaymentFailedError x")
      case True
      then obtain x where e: "e = PaymentFailedError x" by blast
      have eq: "take_payment cfg now http pid ref i s provider meth amount external =
          andthen (put_payment (payment_record pid (in_tenant_id i) (in_id i) amount provider meth PS_FAILED '''')) (\<lambda>_.
          andthen (if sub_status s = S_ACTIVE
                   then andthen (mark_past_due cfg now (sub_id s)) (\<lambda>_. ret ()) else ret ()) (\<lambda>_.
            throw (PaymentFailedError x)))"
        using False Inl e unfolding take_payment_def by simp
      show ?thesis
        unfolding eq andthen_norm
        by (intro safe_put_payment safe_if safe_call [OF safe_mark_past_due] safe_final)
          (simp add: payment_record_def)
    next
      case other: False
      then have "take_payment cfg now http pid ref i s provider meth amount external = throw e"
        using False Inl unfolding take_payment_def by (cases e) auto
      then show ?thesis by (simp add: andthen_norm safe_final)
    qed
  qed
qed

lemma andthen_if_right:
  "andthen m (\<lambda>x. if c then f x else g x) = (if c then andthen m f else andthen m g)"
  by simp

lemma safe_record_payment:
  "safe cfg (at_step cfg F G) (record_payment cfg now http pid ref iid provider meth amount external)"
  unfolding record_payment_def Let_def andthen_norm andthen_if_right
  by (intro safe_invoice_get safe_require safe_as_unpaid safe_sub_get safe_take_payment safe_if
      safe_settle safe_put_payment safe_call [OF safe_mark_past_due] safe_steps safe_ends) simp_all

lemma safe_refund: "safe cfg (at_step cfg F G) (refund_payment cfg http pid)"
proof -
  have "py_status p' = PS_REFUNDED" if "provider_refund cfg http p = Inr p'" for p p'
    using that by (auto simp: provider_refund_def split: if_splits)
  then have lift: "safe cfg (at_step cfg F G) (andthen (lift_result (provider_refund cfg http p))
      (\<lambda>p'. andthen (payment_update p') (\<lambda>_. ret p')))" for p
    unfolding payment_update_def andthen_norm
    by (cases "provider_refund cfg http p")
      (auto simp: lift_result_cases andthen_norm safe_final intro!: safe_steps safe_put_payment)
  show ?thesis
    unfolding refund_payment_def by (intro safe_steps lift)
qed

lemma safe_webhook_dispatch:
  "safe cfg (at_step cfg F (fresh iid)) (webhook_dispatch cfg now iid pid ref provider w ev)"
  unfolding webhook_dispatch_def
  by (intro safe_if safe_call [OF safe_mark_past_due] safe_call [OF safe_record_payment]
      safe_call [OF safe_cancel] safe_call [OF safe_resume] safe_ends)
    (auto simp: safe_def intro!: triple_andthen [OF safe_change_plan [unfolded safe_def]] triple_basic)

lemma safe_attempt:
  "safe cfg P m \<Longrightarrow> (\<And>e. safe cfg (billing_inv cfg) (h e)) \<Longrightarrow> safe cfg P (attempt m h)"
  unfolding safe_def by (rule triple_attempt)

lemma safe_handle_webhook:
  "safe cfg (at_step cfg F (fresh iid)) (handle_webhook mac cfg now iid pid ref provider signature w)"
proof -
  have run: "safe cfg (at_step cfg F (fresh iid))
      (case r of None \<Rightarrow> ret WDuplicate
       | Some ev \<Rightarrow> attempt (andthen (webhook_dispatch cfg now iid pid ref provider w ev) (\<lambda>_. ret (WProcessed None)))
                     (\<lambda>e. ret (WProcessed (Some e))))" for r
  proof (cases r)
    case (Some ev)
    have "safe cfg (at_step cfg F (fresh iid))
        (andthen (webhook_dispatch cfg now iid pid ref provider w ev) (\<lambda>_. ret (WProcessed None)))"
      using safe_webhook_dispatch [of cfg F iid now pid ref provider w ev]
      by (auto simp: safe_def intro!: triple_andthen triple_basic)
    moreover have "safe cfg (billing_inv cfg) (ret (WProcessed (Some e)))" for e
      by (simp add: safe_def triple_def)
    ultimately have "safe cfg (at_step cfg F (fresh iid))
        (attempt (andthen (webhook_dispatch cfg now iid pid ref provider w ev) (\<lambda>_. ret (WProcessed None)))
          (\<lambda>e. ret (WProcessed (Some e))))"
      by (rule safe_attempt)
    with Some show ?thesis by simp
  qed (simp add: safe_final)
  show ?thesis
    unfolding handle_webhook_def webhook_accept_def Let_def andthen_norm
    by (intro safe_if safe_steps run)
qed

lemma safe_coupon_create: "safe cfg (at_step cfg F G) (coupon_create code typ val max_red expires applies)"
  unfolding safe_def
proof (rule triple_weaken [of "at_step cfg F G" _ "\<lambda>_. at_step cfg F G" "\<lambda>_. at_step cfg F G"])
  have "redemptions_ok (b\<lparr>bl_coupons := dict_set k c (bl_coupons b)\<rparr>)"
    if "at_step cfg F G b" "co_redemptions c = 0" "k = py_upper (co_code c)" for b c k
    using that by (auto simp: redemptions_ok_def at_step_def billing_inv_def intro!: list_all_dict_set)
  then have step: "at_step cfg F G (b\<lparr>bl_coupons := dict_set k c (bl_coupons b)\<rparr>)"
    if "at_step cfg F G b" "co_redemptions c = 0" "k = py_upper (co_code c)" for b c k
    using that by (intro at_step_coupons) auto
  show "keeps (at_step cfg F G) (coupon_create code typ val max_red expires applies)"
    unfolding coupon_create_def Let_def
    by (intro triple_andthen [OF triple_fetch] triple_andthen [OF triple_basic(4)] triple_basic(1))
      (auto intro!: step)
qed (auto simp: at_step_def)


section \<open>Runs of the manager\<close>

datatype billing_op =
    BCreate pyfloat string string string string int string string "bool option" "int option"
  | BChange pyfloat string string string "int option" "bool option"
  | BCancel pyfloat string bool
  | BResume pyfloat string string
  | BPause pyfloat string
  | BTrial pyfloat string
  | BPastDue pyfloat string
  | BInvoice pyfloat string string string string "pyfloat option"
  | BPay pyfloat int string string string string string "pyfloat option" bool
  | BRefund int string
  | BVoid string
  | BCoupon string string pyfloat int pyfloat "string list"
  | BWebhook pyfloat string string string string string webhook_payload

fun bill_step :: "(string \<Rightarrow> string \<Rightarrow> string) \<Rightarrow> billing_config \<Rightarrow> billing_op \<Rightarrow> billing \<Rightarrow> billing" where
  "bill_step mac cfg (BCreate now sid tenant pid interval seats coupon provider ar days) =
     final_state (create_subscription cfg now sid tenant pid interval seats coupon provider ar days)"
| "bill_step mac cfg (BChange now iid sid pid seats prorate) = final_state (change_plan cfg now iid sid pid seats prorate)"
| "bill_step mac cfg (BCancel now sid at_end) = final_state (cancel_subscription cfg now sid at_end)"
| "bill_step mac cfg (BResume now sid pid) = final_state (resume_subscription cfg now sid pid)"
| "bill_step mac cfg (BPause now sid) = final_state (pause_subscription now sid)"
| "bill_step mac cfg (BTrial now sid) = final_state (convert_trial cfg now sid)"
| "bill_step mac cfg (BPastDue now sid) = final_state (mark_past_due cfg now sid)"
| "bill_step mac cfg (BInvoice now iid sid coupon country rate) =
     final_state (generate_invoice cfg now iid sid coupon country rate)"
| "bill_step mac cfg (BPay now http pid ref iid provider meth amount external) =
     final_state (record_payment cfg now http pid ref iid provider meth amount external)"
| "bill_step mac cfg (BRefund http pid) = final_state (refund_payment cfg http pid)"
| "bill_step mac cfg (BVoid iid) = final_state (invoice_void iid)"
| "bill_step mac cfg (BCoupon code typ val max_red expires applies) =
     final_state (coupon_create code typ val max_red expires applies)"
| "bill_step mac cfg (BWebhook now iid pid ref provider sig w) =
     final_state (handle_webhook mac cfg now iid pid ref provider sig w)"

text \<open>The id that an operation gives to a new invoice is not in use: it is random.\<close>

fun new_invoice :: "billing_op \<Rightarrow> string option" where
  "new_invoice (BChange now iid sid pid seats prorate) = Some iid"
| "new_invoice (BInvoice now iid sid coupon country rate) = Some iid"
| "new_invoice (BWebhook now iid pid ref provider sig w) = Some iid"
| "new_invoice _ = None"

definition op_fresh :: "billing_op \<Rightarrow> billing \<Rightarrow> bool" where
  "op_fresh op b \<longleftrightarrow> (case new_invoice op of None \<Rightarrow> True | Some iid \<Rightarrow> fresh iid (bl_invoices b))"

fun fresh_run :: "(string \<Rightarrow> string \<Rightarrow> string) \<Rightarrow> billing_config \<Rightarrow> billing_op list \<Rightarrow> billing \<Rightarrow> bool" where
  "fresh_run mac cfg [] b \<longleftrightarrow> True"
| "fresh_run mac cfg (op # ops) b \<longleftrightarrow> op_fresh op b \<and> fresh_run mac cfg ops (bill_step mac cfg op b)"

definition bill_run :: "(string \<Rightarrow> string \<Rightarrow> string) \<Rightarrow> billing_config \<Rightarrow> billing_op list \<Rightarrow> billing \<Rightarrow> billing" where
  "bill_run mac cfg ops b = fold (bill_step mac cfg) ops b"

lemma safe_final_state:
  "safe cfg (at_step cfg F G) m \<Longrightarrow> billing_inv cfg b \<Longrightarrow> F (bl_subs b) \<Longrightarrow> G (bl_invoices b) \<Longrightarrow>
     billing_inv cfg (final_state m b)"
  unfolding safe_def triple_def final_state_def at_step_def
  by (cases "m b"; cases "fst (m b)") (auto split: sum.splits)

lemma safe_anytime:
  "safe cfg (at_step cfg (\<lambda>_. True) (\<lambda>_. True)) m \<Longrightarrow> billing_inv cfg b \<Longrightarrow> billing_inv cfg (final_state m b)"
  by (rule safe_final_state [where F = "\<lambda>_. True" and G = "\<lambda>_. True"]) auto

lemma safe_when_fresh:
  "safe cfg (at_step cfg (\<lambda>_. True) (fresh iid)) m \<Longrightarrow> billing_inv cfg b \<Longrightarrow> fresh iid (bl_invoices b) \<Longrightarrow>
     billing_inv cfg (final_state m b)"
  by (rule safe_final_state [where F = "\<lambda>_. True" and G = "fresh iid"]) auto

lemmas safe_ops = safe_create_subscription safe_cancel safe_resume safe_pause safe_convert_trial
  safe_mark_past_due safe_record_payment safe_refund safe_void safe_coupon_create

lemmas safe_invoicing_ops = safe_change_plan safe_generate_invoice safe_handle_webhook

lemma bill_step_inv:
  assumes "billing_inv cfg b" and "op_fresh op b"
  shows "billing_inv cfg (bill_step mac cfg op b)"
  using assms
  by (cases op)
    (simp_all add: op_fresh_def safe_ops [THEN safe_anytime] safe_invoicing_ops [THEN safe_when_fresh])

lemma bill_run_inv:
  "billing_inv cfg b \<Longrightarrow> fresh_run mac cfg ops b \<Longrightarrow> billing_inv cfg (bill_run mac cfg ops b)"
  unfolding bill_run_def by (induction ops arbitrary: b) (auto simp: bill_step_inv)

lemma billing_inv_empty: "billing_inv cfg empty_billing"
  by (simp add: billing_inv_def subs_ok_def numbers_ok_def payments_ok_def redemptions_ok_def
      completed_def empty_billing_def)


section \<open>What the manager guarantees\<close>

text \<open>After any run of the manager, whatever the calls raise, no tenant has two subscriptions and
  every subscription is stored under its own id; no limited coupon was redeemed more often than its
  limit.\<close>

theorem one_subscription_per_tenant:
  assumes "fresh_run mac cfg ops empty_billing"
  shows "let b = bill_run mac cfg ops empty_billing in
    distinct (map (\<lambda>p. sub_tenant_id (snd p)) (bl_subs b)) \<and>
    list_all (\<lambda>(k, s). sub_id s = k) (bl_subs b) \<and>
    list_all (\<lambda>(k, c). co_max_redemptions c \<le> 0 \<or> co_redemptions c \<le> co_max_redemptions c) (bl_coupons b)"
proof -
  have "billing_inv cfg (bill_run mac cfg ops empty_billing)"
    using billing_inv_empty assms by (rule bill_run_inv)
  then show ?thesis
    by (fastforce simp: billing_inv_def subs_ok_def redemptions_ok_def Let_def list_all_iff)
qed

text \<open>C8. After any run of the manager no invoice has been settled twice: it has at most one completed
  payment, and none unless it is marked as paid. The numbers of the invoices are the consecutive
  numbers from one, so no two invoices share a number.\<close>

theorem invoice_settled_once:
  assumes "fresh_run mac cfg ops empty_billing"
  shows "let b = bill_run mac cfg ops empty_billing in
    completed iid b \<le> 1 \<and>
    (completed iid b = 1 \<longrightarrow> (\<exists>i. dict_get (bl_invoices b) iid = Some i \<and> in_status i = I_PAID)) \<and>
    map (\<lambda>p. in_number (snd p)) (bl_invoices b) = map (invoice_number cfg) [0..<length (bl_invoices b)] \<and>
    distinct (map (\<lambda>p. in_number (snd p)) (bl_invoices b))"
proof -
  let ?b = "bill_run mac cfg ops empty_billing"
  have inv: "billing_inv cfg ?b" using billing_inv_empty assms by (rule bill_run_inv)
  then have le: "completed iid ?b \<le> settled_limit iid ?b"
    by (simp add: billing_inv_def payments_ok_def)
  have nums: "map (\<lambda>p. in_number (snd p)) (bl_invoices ?b) = map (invoice_number cfg) [0..<length (bl_invoices ?b)]"
    using inv by (simp add: billing_inv_def numbers_ok_def)
  have "completed iid ?b \<le> 1 \<and>
      (completed iid ?b = 1 \<longrightarrow> (\<exists>i. dict_get (bl_invoices ?b) iid = Some i \<and> in_status i = I_PAID))"
    using le by (auto simp: settled_limit_def split: option.splits if_splits)
  moreover have "distinct (map (\<lambda>p. in_number (snd p)) (bl_invoices ?b))"
    unfolding nums by (simp add: distinct_map inj_on_def invoice_number_inj)
  ultimately show ?thesis using nums by (simp add: Let_def)
qed

definition demo_run :: "billing_op list" where
  "demo_run = [BCreate 0 ''s1'' ''t1'' ''starter'' '''' 2 '''' '''' None (Some 0),
     BCreate 1 ''s2'' ''t1'' ''team'' '''' 1 '''' '''' None None,
     BInvoice 2 ''i1'' ''s1'' '''' '''' None,
     BPay 3 0 ''p1'' ''r1'' ''i1'' '''' ''card'' None True,
     BPay 4 0 ''p2'' ''r2'' ''i1'' '''' ''card'' None True]"

lemmas billing_run_simps = bill_run_def demo_run_def create_subscription_def generate_invoice_def
  record_payment_def take_payment_def settle_payment_def payment_record_def put_payment_def
  invoice_mark_paid_def invoice_get_def invoice_update_run invoice_build_def create_draft_def
  get_sub_def sub_get_def sub_update_def put_sub_def enforce_grace_def sync_quota_def apply_quota_def publish_def
  plan_get_def engine_price_def provider_for_def provider_names_def by_tenant_def new_subscription_def
  empty_billing_def default_plans_def catalog_plan_def default_billing_config_def fetch_def final_state_def
  Let_def dict_has_def usage_by_category_def

lemma demo_run_fresh: "fresh_run mac default_billing_config demo_run empty_billing"
  by (simp add: billing_run_simps op_fresh_def fresh_def)

lemma demo_run_result:
  "map fst (bl_subs (bill_run mac default_billing_config demo_run empty_billing)) = [''s1'']"
  "map fst (bl_payments (bill_run mac default_billing_config demo_run empty_billing)) = [''p1'']"
  by (simp_all add: billing_run_simps)


theorem one_subscription_per_tenant_witness:
  "let b = bill_run (\<lambda>k m. m) default_billing_config demo_run empty_billing in
    map fst (bl_subs b) = [''s1''] \<and> distinct (map (\<lambda>p. sub_tenant_id (snd p)) (bl_subs b))"
  using one_subscription_per_tenant [OF demo_run_fresh] demo_run_result(1) by (simp add: Let_def)

theorem invoice_settled_once_witness:
  "let b = bill_run (\<lambda>k m. m) default_billing_config demo_run empty_billing in
    map fst (bl_payments b) = [''p1''] \<and> completed ''i1'' b \<le> 1"
  using invoice_settled_once [OF demo_run_fresh] demo_run_result(2) by (simp add: Let_def)

text \<open>An event that was accepted is not acted upon again: a second delivery under the same id
  changes nothing.\<close>

theorem webhook_idempotent:
  assumes "wp_id w \<noteq> ''''" and "handle_webhook mac cfg now iid pid ref provider sig w b = (Inr r, b')"
    and "bl_webhooks b'' = bl_webhooks (final_state (webhook_accept mac cfg provider sig w) b)"
  shows "handle_webhook mac cfg now' iid' pid' ref' provider sig w b'' = (Inr WDuplicate, b'')"
proof -
  obtain r1 b1 where acc: "webhook_accept mac cfg provider sig w b = (Inr r1, b1)"
    using assms(2) by (auto simp: handle_webhook_def andthen_def split: sum.splits prod.splits)
  then have ok: "provider = '''' \<or> provider \<in> set provider_names"
      "(if wp_type w \<noteq> '''' then wp_type w else wp_event w) \<noteq> ''''"
      "provider = '''' \<or> verify_hmac mac (dict_get_or (bc_secrets cfg) provider '''') (wp_raw w) sig"
      "wp_id w \<in> set (bl_webhooks b1)"
    using assms(1)
    by (auto simp: webhook_accept_def Let_def provider_for_def andthen_def split: if_splits)
  then have "webhook_accept mac cfg provider sig w b'' = (Inr None, b'')"
    using assms(1,3) acc
    by (auto simp: webhook_accept_def Let_def provider_for_def final_state_def andthen_def)
  then show ?thesis by (simp add: handle_webhook_def)
qed

section \<open>Where the code falls short of its intent\<close>

text \<open>A resume with an unknown plan raises, but the cancelled subscription is active afterwards,
  and its quotas are not synchronised.\<close>

theorem resume_unknown_plan_activates:
  assumes "dict_get (bl_subs b) sid = Some s" and "sub_id s = sid" and "sub_status s = S_CANCELLED"
    and "pid \<noteq> ''''" and "dict_get (bl_plans b) pid = None"
  shows "\<exists>b'. resume_subscription cfg now sid pid b = (Inl (PlanNotFoundError pid), b') \<and>
    (\<exists>s'. dict_get (bl_subs b') sid = Some s' \<and> sub_status s' = S_ACTIVE) \<and> bl_synced b' = bl_synced b"
  using assms
  by (simp add: resume_subscription_def get_sub_def sub_get_def fetch_def enforce_grace_def transition_def
      sub_transition_def sub_can_transition_def put_sub_def plan_get_def Let_def andthen_def)

definition cancelled_billing :: billing where
  "cancelled_billing = empty_billing\<lparr>bl_subs := [(''s1'', demo_sub\<lparr>sub_status := S_CANCELLED\<rparr>)]\<rparr>"

theorem resume_unknown_plan_activates_witness:
  "\<exists>b. resume_subscription default_billing_config 9 ''s1'' ''gold'' cancelled_billing =
      (Inl (PlanNotFoundError ''gold''), b) \<and>
    (\<exists>s. dict_get (bl_subs b) ''s1'' = Some s \<and> sub_status s = S_ACTIVE)"
proof -
  have "\<exists>b. resume_subscription default_billing_config 9 ''s1'' ''gold'' cancelled_billing =
        (Inl (PlanNotFoundError ''gold''), b) \<and>
      (\<exists>s. dict_get (bl_subs b) ''s1'' = Some s \<and> sub_status s = S_ACTIVE) \<and>
      bl_synced b = bl_synced cancelled_billing"
    by (rule resume_unknown_plan_activates [where s = "demo_sub\<lparr>sub_status := S_CANCELLED\<rparr>"])
      (simp_all add: cancelled_billing_def empty_billing_def demo_sub_def default_plans_def)
  then show ?thesis by blast
qed

text \<open>The last redemption of a coupon makes the invoices of the subscription that redeemed it fail:
  the coupon is validated again, as if it were to be redeemed again, and the draft stays behind.\<close>

lemma exhausted_coupon_blocks_invoice:
  assumes "dict_get (bl_subs b) sid = Some s" and "sub_id s = sid" and "sub_status s = S_ACTIVE"
    and "dict_get (bl_plans b) (sub_plan_id s) = Some p" and "sub_coupon_code s \<noteq> ''''"
    and "dict_get (bl_coupons b) (py_upper (sub_coupon_code s)) = Some c" and "co_expires_at c = 0"
    and "0 < co_max_redemptions c" and "co_max_redemptions c \<le> co_redemptions c"
  shows "fst (generate_invoice cfg now iid sid '''' country rate b) =
      Inl (CouponExhaustedError (sub_coupon_code s)) \<and>
    dict_has (bl_invoices (final_state (generate_invoice cfg now iid sid '''' country rate) b)) iid"
  using assms
  by (simp add: generate_invoice_def get_sub_def sub_get_def fetch_def enforce_grace_def plan_get_def
      create_draft_def invoice_build_def coupon_discount_def coupon_validate_def coupon_get_def
      final_state_def Let_def andthen_def)

text \<open>A subscription that is cancelled because its grace period is over keeps the limits of the paid
  plan, while a cancellation by request synchronises the free plan.\<close>

lemma grace_cancellation_keeps_quota:
  assumes "dict_get (bl_subs b) sid = Some s" and "sub_id s = sid" and "sub_status s = S_PAST_DUE"
    and "sub_grace_end s \<noteq> 0" and "sub_grace_end s < now"
  shows "\<exists>s'. get_sub now sid b = (Inr s', b\<lparr>bl_subs := dict_set sid s' (bl_subs b)\<rparr>) \<and>
    sub_status s' = S_CANCELLED"
  using assms
  by (simp add: get_sub_def sub_get_def fetch_def enforce_grace_def transition_def sub_transition_def
      sub_can_transition_def put_sub_def sub_update_def Let_def andthen_def)

text \<open>A payment of any amount settles the invoice.\<close>

lemma any_amount_settles:
  assumes "dict_get (bl_invoices b) iid = Some i" and "in_id i = iid" and "in_status i = I_PENDING"
    and "dict_get (bl_subs b) (in_subscription_id i) = Some s" and "sub_status s = S_ACTIVE"
    and "dict_get (bl_plans b) (sub_plan_id s) = Some p" and "provider \<in> set provider_names"
  shows "\<exists>i'. dict_get (bl_invoices (final_state
      (record_payment cfg now http pid ref iid provider meth (Some amount) True) b)) iid = Some i' \<and>
    in_status i' = I_PAID"
proof -
  have "provider \<noteq> ''''" using assms(7) by (auto simp: provider_names_def)
  with assms show ?thesis
    by (simp add: record_payment_def invoice_get_def fetch_def sub_get_def provider_for_def
        take_payment_def payment_record_def put_payment_def settle_payment_def invoice_mark_paid_def
        invoice_update_run dict_has_def publish_def plan_get_def final_state_def Let_def andthen_def)
qed


lemma proration_antisym: "proration_delta now s q p n = - proration_delta now s p q n"
  by (simp add: proration_delta_def Let_def algebra_simps)

end
