(* ===== verification/Credentials.thy ===== *)
theory Credentials
  imports Effects Interfaces Decimal
begin

text \<open>
  The static side of \<open>src/app/auth\<close>: role-based permissions (\<open>rbac.py\<close>), password hashes
  (\<open>hashing.py\<close>), the local provider with its lockout (\<open>providers/local.py\<close>), API keys
  (\<open>api_keys.py\<close>) and service accounts (\<open>service_accounts.py\<close>). SHA-256 and PBKDF2 are the
  parameters \<open>sha\<close> and \<open>kdf\<close>; random values and the time are arguments.
\<close>

datatype auth_error =
    InvalidCredentials string
  | AccountLocked pyfloat
  | AccountInactive string
  | InvalidToken string
  | TokenExpired
  | TokenRevoked
  | SessionExpired string
  | SessionLimit int
  | APIKeyErr string
  | ServiceAccountErr string
  | PermissionDenied string string
  | AuthenticationFailed string
  | ProviderNotFound string
  | PyError string

record auth_config =
  ac_access_token_ttl :: int
  ac_refresh_token_ttl :: int
  ac_max_key_history :: int
  ac_session_idle_timeout :: int
  ac_session_absolute_timeout :: int
  ac_max_concurrent_sessions :: int
  ac_evict_oldest_on_limit :: bool
  ac_password_min_length :: nat
  ac_password_hash_iterations :: nat
  ac_max_login_attempts :: int
  ac_lockout_seconds :: int
  ac_mfa_enabled :: bool
  ac_api_key_ttl_default :: int
  ac_service_account_ttl_default :: int
  ac_require_auth :: bool
  ac_public_paths :: "string list"

definition default_auth_config :: auth_config where
  "default_auth_config = \<lparr>ac_access_token_ttl = 900, ac_refresh_token_ttl = 604800,
     ac_max_key_history = 5, ac_session_idle_timeout = 1800, ac_session_absolute_timeout = 86400,
     ac_max_concurrent_sessions = 5, ac_evict_oldest_on_limit = True, ac_password_min_length = 8,
     ac_password_hash_iterations = 100000, ac_max_login_attempts = 5, ac_lockout_seconds = 300,
     ac_mfa_enabled = False, ac_api_key_ttl_default = 2592000, ac_service_account_ttl_default = 2592000,
     ac_require_auth = True, ac_public_paths = [''/health'', ''/metrics'']\<rparr>"

section \<open>Roles and permissions\<close>

record principal =
  pr_user_id :: string
  pr_tenant_id :: string
  pr_roles :: "string list"
  pr_scopes :: "string list"
  pr_method :: string
  pr_username :: string
  pr_service :: bool

record permission_policy =
  pp_roles :: "(string, string list) dict"
  pp_deny :: "string list"

definition default_roles :: "(string, string list) dict" where
  "default_roles = [(''admin'', [''*'']),
     (''operator'', [''read:*'', ''write:*'', ''manage:keys'', ''manage:sa'', ''manage:sessions'']),
     (''viewer'', [''read:*'']), (''billing'', [''read:*'', ''billing:manage''])]"

definition register_role :: "string \<Rightarrow> string list \<Rightarrow> permission_policy \<Rightarrow> permission_policy" where
  "register_role nm perms pol = pol\<lparr>pp_roles := dict_set nm perms (pp_roles pol)\<rparr>"

definition permissions_for :: "permission_policy \<Rightarrow> string list \<Rightarrow> string set" where
  "permissions_for pol roles = fold (\<lambda>r merged. merged \<union> set (dict_get_or (pp_roles pol) r [])) roles {}"

definition namespace_of :: "string \<Rightarrow> string" where
  "namespace_of perm = hd (split_on (CHR '':'') perm)"

definition policy_check :: "permission_policy \<Rightarrow> principal \<Rightarrow> string \<Rightarrow> string option \<Rightarrow> bool" where
  "policy_check pol pr perm tenant =
    (if pr_tenant_id pr \<noteq> '''' \<and> (case tenant of None \<Rightarrow> False | Some t \<Rightarrow> t \<noteq> '''' \<and> pr_tenant_id pr \<noteq> t)
     then False
     else if perm \<in> set (pp_deny pol) then False
     else let perms = permissions_for pol (pr_roles pr)
     in if ''*'' \<in> perms then True
        else if perm \<in> perms then True
        else namespace_of perm @ '':*'' \<in> perms)"

definition policy_enforce ::
  "permission_policy \<Rightarrow> principal \<Rightarrow> string \<Rightarrow> string option \<Rightarrow> auth_error + unit" where
  "policy_enforce pol pr perm tenant =
    (if \<not> policy_check pol pr perm tenant then Inl (PermissionDenied perm (pr_user_id pr)) else Inr ())"

definition scopes_allow :: "principal \<Rightarrow> string \<Rightarrow> bool" where
  "scopes_allow pr perm \<longleftrightarrow> (if ''*'' \<in> set (pr_scopes pr) then True else perm \<in> set (pr_scopes pr))"

lemma permissions_for_conv:
  "permissions_for pol roles = (\<Union>r \<in> set roles. set (dict_get_or (pp_roles pol) r []))"
proof -
  have "fold (\<lambda>r merged. merged \<union> set (dict_get_or (pp_roles pol) r [])) roles acc =
      acc \<union> (\<Union>r \<in> set roles. set (dict_get_or (pp_roles pol) r []))" for acc
    by (induction roles arbitrary: acc) auto
  then show ?thesis by (simp add: permissions_for_def)
qed

text \<open>The permission check grants exactly what the roles grant: a permission is allowed if and only
  if the tenants do not differ, the permission is not denied, and some role of the principal holds
  everything, the permission itself, or the wildcard of its namespace.\<close>

theorem policy_check_exact:
  "policy_check pol pr perm tenant \<longleftrightarrow>
     (pr_tenant_id pr = '''' \<or> tenant = None \<or> tenant = Some '''' \<or> tenant = Some (pr_tenant_id pr)) \<and>
     perm \<notin> set (pp_deny pol) \<and>
     (\<exists>role \<in> set (pr_roles pr). \<exists>grant \<in> set (dict_get_or (pp_roles pol) role []).
        grant = ''*'' \<or> grant = perm \<or> grant = namespace_of perm @ '':*'')"
  by (auto simp: policy_check_def permissions_for_conv Let_def split: option.splits)

section \<open>Passwords\<close>

definition hex_digit :: "nat \<Rightarrow> char" where
  "hex_digit n = char_of (if n < 10 then 48 + n else 87 + n)"

definition hex_value :: "char \<Rightarrow> nat option" where
  "hex_value c = (let n = of_char c :: nat in
     if 48 \<le> n \<and> n \<le> 57 then Some (n - 48)
     else if 97 \<le> n \<and> n \<le> 102 then Some (n - 87)
     else if 65 \<le> n \<and> n \<le> 70 then Some (n - 55) else None)"

fun hex_bytes :: "nat list \<Rightarrow> string" where
  "hex_bytes [] = []"
| "hex_bytes (b # bs) = hex_digit (b div 16) # hex_digit (b mod 16) # hex_bytes bs"

text \<open>\<open>bytes.fromhex\<close>, without the white space that it skips between bytes. The iteration count of a
  stored hash is read as plain digits, the only notation that is ever written.\<close>

fun from_hex :: "string \<Rightarrow> nat list option" where
  "from_hex [] = Some []"
| "from_hex [c] = None"
| "from_hex (c # d # s) =
    (case (hex_value c, hex_value d, from_hex s) of
       (Some h, Some l, Some bs) \<Rightarrow> Some ((16 * h + l) # bs) | _ \<Rightarrow> None)"

definition hash_password ::
  "(string \<Rightarrow> nat list \<Rightarrow> nat \<Rightarrow> nat list) \<Rightarrow> nat list \<Rightarrow> string \<Rightarrow> nat \<Rightarrow> string" where
  "hash_password kdf salt password iterations =
    ''pbkdf2_sha256$'' @ show_nat iterations @ ''$'' @ hex_bytes salt @ ''$'' @
      hex_bytes (kdf password salt iterations)"

definition verify_password ::
  "(string \<Rightarrow> nat list \<Rightarrow> nat \<Rightarrow> nat list) \<Rightarrow> string \<Rightarrow> string \<Rightarrow> bool" where
  "verify_password kdf password stored =
    (case split_on (CHR ''$'') stored of
       [_, iterations, salt_hex, digest_hex] \<Rightarrow>
         (if all_digits iterations then
            (case (from_hex salt_hex, from_hex digest_hex) of
               (Some salt, Some expected) \<Rightarrow> kdf password salt (digits_val iterations) = expected
             | _ \<Rightarrow> False)
          else False)
     | _ \<Rightarrow> False)"

definition is_upper :: "char \<Rightarrow> bool" where
  "is_upper c \<longleftrightarrow> of_char c \<in> {65..90 :: nat}"

definition is_lower :: "char \<Rightarrow> bool" where
  "is_lower c \<longleftrightarrow> of_char c \<in> {97..122 :: nat}"

definition is_strong_password :: "auth_config \<Rightarrow> string \<Rightarrow> bool" where
  "is_strong_password cfg password =
    (if length password < ac_password_min_length cfg then False
     else list_ex is_upper password \<and> list_ex is_lower password \<and> list_ex is_digit password \<and>
       (ac_mfa_enabled cfg \<or> list_ex (\<lambda>c. c \<in> set ''!@#$%^&*()-_=+[]{};:,.<>?/'') password))"

lemma hex_value_digit: "n < 16 \<Longrightarrow> hex_value (hex_digit n) = Some n"
  by (simp add: hex_value_def hex_digit_def Let_def)

lemma hex_digit_not_dollar: "n < 16 \<Longrightarrow> hex_digit n \<noteq> CHR ''$''"
proof
  assume "n < 16" and "hex_digit n = CHR ''$''"
  then have "hex_value (CHR ''$'') = Some n" using hex_value_digit by metis
  then show False by (simp add: hex_value_def)
qed

lemma high_nibble: "b < 256 \<Longrightarrow> b div 16 < (16 :: nat)"
  by (simp add: less_mult_imp_div_less)

lemma from_hex_bytes: "list_all (\<lambda>b. b < 256) bs \<Longrightarrow> from_hex (hex_bytes bs) = Some bs"
  by (induction bs) (simp_all add: hex_value_digit high_nibble)

lemma hex_bytes_no_dollar: "list_all (\<lambda>b. b < 256) bs \<Longrightarrow> CHR ''$'' \<notin> set (hex_bytes bs)"
  by (induction bs) (simp_all add: hex_digit_not_dollar [symmetric] high_nibble)

lemma show_nat_no_dollar: "CHR ''$'' \<notin> set (show_nat n)"
  using show_nat_digits [of n] by (auto simp: all_digits_def list_all_iff is_digit_def)

text \<open>A stored password hash verifies exactly the password: the password it was made from is
  accepted, and another password is accepted only if the key derivation maps both to the same bytes
  under the same salt.\<close>

theorem verify_hash_password:
  assumes "\<And>p s n. list_all (\<lambda>b. b < 256) (kdf p s n)" and "list_all (\<lambda>b. b < 256) salt"
  shows "verify_password kdf guess (hash_password kdf salt password n) \<longleftrightarrow>
    kdf guess salt n = kdf password salt n"
proof -
  have "split_on (CHR ''$'') (hash_password kdf salt password n) =
      [''pbkdf2_sha256'', show_nat n, hex_bytes salt, hex_bytes (kdf password salt n)]"
    using assms hex_bytes_no_dollar
    by (simp add: hash_password_def split_on_append split_on_no_sep_id show_nat_no_dollar)
  then show ?thesis
    using assms show_nat_digits by (auto simp: verify_password_def from_hex_bytes)
qed

definition demo_kdf :: "string \<Rightarrow> nat list \<Rightarrow> nat \<Rightarrow> nat list" where
  "demo_kdf p s n = map (\<lambda>c. of_char c) p"

theorem verify_hash_password_witness:
  "verify_password demo_kdf ''pw'' (hash_password demo_kdf [1, 255] ''pw'' 1000) \<and>
   \<not> verify_password demo_kdf ''pq'' (hash_password demo_kdf [1, 255] ''pw'' 1000)"
proof -
  have "list_all (\<lambda>b. b < 256) (demo_kdf p s n)" for p s n
    by (simp add: demo_kdf_def list_all_iff)
  then show ?thesis
    using verify_hash_password [of demo_kdf "[1, 255]" "''pw''" "''pw''" 1000]
      verify_hash_password [of demo_kdf "[1, 255]" "''pq''" "''pw''" 1000]
    by (simp add: demo_kdf_def)
qed


section \<open>Users and the local provider\<close>

datatype user_status = US_ACTIVE | US_SUSPENDED | US_LOCKED | US_DISABLED

record user =
  us_id :: string
  us_username :: string
  us_email :: string
  us_password_hash :: string
  us_status :: user_status
  us_roles :: "string list"
  us_tenant_id :: string
  us_mfa_secret :: string
  us_failed_attempts :: int
  us_locked_until :: pyfloat
  us_created_at :: pyfloat
  us_updated_at :: pyfloat

definition is_locked :: "pyfloat \<Rightarrow> user \<Rightarrow> bool" where
  "is_locked now u \<longleftrightarrow> us_status u = US_LOCKED \<and> now < us_locked_until u"

type_synonym users = "(string, user) dict"
type_synonym 'a users_prog = "(users, auth_error, 'a) prog"

definition user_create :: "user \<Rightarrow> user users_prog" where
  "user_create u =
    andthen (gets (\<lambda>d. dict_has d (us_id u))) (\<lambda>there.
    andthen (require (\<not> there) (InvalidCredentials ''User already exists'')) (\<lambda>_.
    andthen (modify (dict_set (us_id u) u)) (\<lambda>_. ret u)))"

definition user_get :: "string \<Rightarrow> user users_prog" where
  "user_get uid = fetch (InvalidCredentials ''User not found'') (\<lambda>d. dict_get d uid)"

definition username_matches :: "string \<Rightarrow> string \<Rightarrow> user \<Rightarrow> bool" where
  "username_matches nm tenant u \<longleftrightarrow> us_username u = nm \<and> (tenant = '''' \<or> us_tenant_id u = tenant)"

definition find_user :: "string \<Rightarrow> string \<Rightarrow> users \<Rightarrow> user option" where
  "find_user nm tenant d = find (username_matches nm tenant) (map snd d)"

definition user_update :: "pyfloat \<Rightarrow> user \<Rightarrow> user users_prog" where
  "user_update now u =
    andthen (user_get (us_id u)) (\<lambda>_.
      let u' = u\<lparr>us_updated_at := now\<rparr> in andthen (modify (dict_set (us_id u) u')) (\<lambda>_. ret u'))"

definition user_delete :: "string \<Rightarrow> bool users_prog" where
  "user_delete uid = andthen (gets (\<lambda>d. dict_has d uid)) (\<lambda>there. andthen (modify (dict_pop uid)) (\<lambda>_. ret there))"

definition register_user ::
  "(string \<Rightarrow> nat list \<Rightarrow> nat \<Rightarrow> nat list) \<Rightarrow> auth_config \<Rightarrow> pyfloat \<Rightarrow> string \<Rightarrow> nat list \<Rightarrow> string \<Rightarrow> string
    \<Rightarrow> string \<Rightarrow> string \<Rightarrow> string list \<Rightarrow> string \<Rightarrow> user users_prog" where
  "register_user kdf cfg now uid salt username password tenant email roles mfa =
    andthen (require (is_strong_password cfg password) (InvalidCredentials ''Password does not meet policy'')) (\<lambda>_.
      user_create \<lparr>us_id = uid, us_username = username, us_email = email,
        us_password_hash = hash_password kdf salt password (ac_password_hash_iterations cfg),
        us_status = US_ACTIVE, us_roles = (if roles = [] then [''viewer''] else roles), us_tenant_id = tenant,
        us_mfa_secret = mfa, us_failed_attempts = 0, us_locked_until = 0, us_created_at = now,
        us_updated_at = now\<rparr>)"

definition change_password ::
  "(string \<Rightarrow> nat list \<Rightarrow> nat \<Rightarrow> nat list) \<Rightarrow> auth_config \<Rightarrow> pyfloat \<Rightarrow> nat list \<Rightarrow> string \<Rightarrow> string \<Rightarrow> string
    \<Rightarrow> bool users_prog" where
  "change_password kdf cfg now salt uid old_password new_password =
    andthen (user_get uid) (\<lambda>u.
    andthen (require (verify_password kdf old_password (us_password_hash u))
              (InvalidCredentials ''Current password is incorrect'')) (\<lambda>_.
    andthen (require (is_strong_password cfg new_password)
              (InvalidCredentials ''New password does not meet policy'')) (\<lambda>_.
    andthen (user_update now (u\<lparr>us_password_hash :=
               hash_password kdf salt new_password (ac_password_hash_iterations cfg)\<rparr>)) (\<lambda>_. ret True))))"

text \<open>A failed attempt and the reset after a success, on the user; both are followed by an update.\<close>

definition note_failure :: "auth_config \<Rightarrow> pyfloat \<Rightarrow> user \<Rightarrow> user" where
  "note_failure cfg now u =
    (let u1 = u\<lparr>us_failed_attempts := us_failed_attempts u + 1\<rparr>
     in if ac_max_login_attempts cfg \<le> us_failed_attempts u1
        then u1\<lparr>us_locked_until := now + of_int (ac_lockout_seconds cfg), us_status := US_LOCKED\<rparr>
        else u1)"

definition reset_failures :: "pyfloat \<Rightarrow> user \<Rightarrow> unit users_prog" where
  "reset_failures now u =
    (if us_failed_attempts u \<noteq> 0 then
       andthen (user_update now (u\<lparr>us_failed_attempts := 0, us_locked_until := 0,
           us_status := (if us_status u = US_LOCKED then US_ACTIVE else us_status u)\<rparr>)) (\<lambda>_. ret ())
     else ret ())"

record provider_user =
  pu_id :: string
  pu_username :: string
  pu_email :: string
  pu_roles :: "string list"
  pu_tenant_id :: string

definition local_authenticate ::
  "(string \<Rightarrow> nat list \<Rightarrow> nat \<Rightarrow> nat list) \<Rightarrow> auth_config \<Rightarrow> pyfloat \<Rightarrow> string \<Rightarrow> string \<Rightarrow> string
    \<Rightarrow> provider_user users_prog" where
  "local_authenticate kdf cfg now username password tenant =
    andthen (require (username \<noteq> '''' \<and> password \<noteq> '''') (InvalidCredentials ''Missing credentials'')) (\<lambda>_.
    andthen (fetch (InvalidCredentials ''User not found'') (find_user username tenant)) (\<lambda>u.
    andthen (require (\<not> is_locked now u) (AccountLocked (us_locked_until u))) (\<lambda>_.
    andthen (require (us_status u \<notin> {US_SUSPENDED, US_DISABLED}) (AccountInactive username)) (\<lambda>_.
      if \<not> verify_password kdf password (us_password_hash u) then
        andthen (user_update now (note_failure cfg now u)) (\<lambda>_. throw (InvalidCredentials ''Invalid password''))
      else
        andthen (reset_failures now u) (\<lambda>_.
          ret \<lparr>pu_id = us_id u, pu_username = us_username u, pu_email = us_email u, pu_roles = us_roles u,
               pu_tenant_id = (if us_tenant_id u \<noteq> '''' then us_tenant_id u else tenant)\<rparr>)))))"

text \<open>A series of attempts on one account, and how many of them had their password looked at and
  found wrong.\<close>

fun attempts ::
  "(string \<Rightarrow> nat list \<Rightarrow> nat \<Rightarrow> nat list) \<Rightarrow> auth_config \<Rightarrow> string \<Rightarrow> string \<Rightarrow> (pyfloat \<times> string) list \<Rightarrow> users
    \<Rightarrow> (auth_error + provider_user) list" where
  "attempts kdf cfg username tenant [] d = []"
| "attempts kdf cfg username tenant ((now, pw) # rest) d =
    (case local_authenticate kdf cfg now username pw tenant d of
       (r, d') \<Rightarrow> r # attempts kdf cfg username tenant rest d')"

definition wrong_guesses :: "(auth_error + provider_user) list \<Rightarrow> nat" where
  "wrong_guesses rs = length (filter (\<lambda>r. r = Inl (InvalidCredentials ''Invalid password'')) rs)"

definition users_ok :: "users \<Rightarrow> bool" where
  "users_ok d \<longleftrightarrow> dict_ok d \<and> list_all (\<lambda>(k, u). us_id u = k) d"

lemma find_dict_set:
  assumes "find P (map snd d) = Some u" and "dict_get d k = Some u" and "dict_ok d" and "P v"
    and "\<And>k' w. (k', w) \<in> set d \<Longrightarrow> w = u \<Longrightarrow> k' = k"
  shows "find P (map snd (dict_set k v d)) = Some v"
  using assms
proof (induction d)
  case (Cons p d)
  obtain a w where p: "p = (a, w)" by (cases p)
  show ?case
  proof (cases "a = k")
    case False
    have "w \<noteq> u" using Cons.prems(5) [of a w] False p by auto
    then have "\<not> P w" using Cons.prems(1) p by (auto split: if_splits)
    moreover have "find P (map snd (dict_set k v d)) = Some v"
    proof (rule Cons.IH)
      show "find P (map snd d) = Some u" using Cons.prems(1) \<open>\<not> P w\<close> p by simp
      show "dict_get d k = Some u" using Cons.prems(2) False p by simp
      show "dict_ok d" using Cons.prems(3) by (simp add: dict_ok_def)
      show "k' = k" if "(k', w) \<in> set d" "w = u" for k' w using Cons.prems(5) that by simp
    qed (rule Cons.prems(4))
    ultimately show ?thesis using False p by simp
  qed (use p Cons.prems(4) in simp)
qed simp

lemma find_user_update:
  assumes ok: "users_ok d" and u: "find_user nm tenant d = Some u" and v: "us_id v = us_id u"
      "username_matches nm tenant v"
  shows "users_ok (dict_set (us_id u) v d)" and "find_user nm tenant (dict_set (us_id u) v d) = Some v"
    and "dict_get d (us_id u) = Some u"
proof -
  from u obtain k where k: "(k, u) \<in> set d"
    by (auto simp: find_user_def find_Some_iff) (metis nth_mem prod.collapse)
  with ok have id: "us_id u = k" "dict_get d k = Some u" by (auto simp: users_ok_def list_all_iff dict_ok_getI)
  then show "dict_get d (us_id u) = Some u" by simp
  have key: "k' = k" if "(k', w) \<in> set d" "w = u" for k' w
    using ok that id by (auto simp: users_ok_def list_all_iff)
  show "users_ok (dict_set (us_id u) v d)"
    using ok v(1) by (auto simp: users_ok_def intro!: list_all_dict_set)
  show "find_user nm tenant (dict_set (us_id u) v d) = Some v"
    unfolding find_user_def
    by (rule find_dict_set [where u = u])
      (use u id ok v key in \<open>auto simp: find_user_def users_ok_def\<close>)
qed

lemma note_failure_sel [simp]:
  "us_id (note_failure cfg now u) = us_id u"
  "us_password_hash (note_failure cfg now u) = us_password_hash u"
  "username_matches nm tenant (note_failure cfg now u) = username_matches nm tenant u"
  "us_failed_attempts (note_failure cfg now u) = us_failed_attempts u + 1"
  by (simp_all add: note_failure_def username_matches_def Let_def)

lemma username_matches_update [simp]:
  "username_matches nm tenant (u\<lparr>us_updated_at := t\<rparr>) = username_matches nm tenant u"
  by (simp add: username_matches_def)

lemma local_wrong_password:
  assumes "users_ok d" and "find_user nm tenant d = Some u" and "nm \<noteq> ''''" and "pw \<noteq> ''''"
    and "\<not> is_locked now u" and "us_status u \<notin> {US_SUSPENDED, US_DISABLED}"
    and "\<not> verify_password kdf pw (us_password_hash u)"
  shows "\<exists>u' d'. local_authenticate kdf cfg now nm pw tenant d = (Inl (InvalidCredentials ''Invalid password''), d') \<and>
    u' = (note_failure cfg now u)\<lparr>us_updated_at := now\<rparr> \<and> users_ok d' \<and> find_user nm tenant d' = Some u'"
proof -
  let ?u = "(note_failure cfg now u)\<lparr>us_updated_at := now\<rparr>"
  have m: "username_matches nm tenant u" using assms(2) by (auto simp: find_user_def find_Some_iff)
  note upd = find_user_update [OF assms(1,2), of ?u]
  have "local_authenticate kdf cfg now nm pw tenant d =
      (Inl (InvalidCredentials ''Invalid password''), dict_set (us_id u) ?u d)"
    using assms upd(3) m
    by (simp add: local_authenticate_def user_update_def user_get_def fetch_def andthen_def Let_def)
  with upd m show ?thesis by simp
qed


lemma locked_refused:
  assumes "find_user nm tenant d = Some u" and "us_status u = US_LOCKED" and "nm \<noteq> ''''"
    and "list_all (\<lambda>(t, pw). pw \<noteq> '''' \<and> t < us_locked_until u) tries"
  shows "attempts kdf cfg nm tenant tries d = map (\<lambda>_. Inl (AccountLocked (us_locked_until u))) tries"
  using assms(4)
proof (induction tries)
  case (Cons x tries)
  obtain t pw where x: "x = (t, pw)" by (cases x)
  with Cons.prems have "local_authenticate kdf cfg t nm pw tenant d = (Inl (AccountLocked (us_locked_until u)), d)"
    using assms(1-3) by (simp add: local_authenticate_def fetch_def is_locked_def andthen_def)
  with Cons x show ?case by simp
qed simp

lemma guessing_aux:
  assumes "users_ok d" and "find_user nm tenant d = Some u" and "us_status u = US_ACTIVE" and "nm \<noteq> ''''"
    and "us_failed_attempts u < ac_max_login_attempts cfg"
    and "list_all (\<lambda>(t, pw). pw \<noteq> '''' \<and> \<not> verify_password kdf pw (us_password_hash u) \<and>
           start \<le> t \<and> t < start + of_int (ac_lockout_seconds cfg)) tries"
    and "pw' \<noteq> ''''" and "t' < start + of_int (ac_lockout_seconds cfg)"
  shows "int (wrong_guesses (attempts kdf cfg nm tenant tries d)) \<le> ac_max_login_attempts cfg - us_failed_attempts u \<and>
    (ac_max_login_attempts cfg - us_failed_attempts u \<le> int (length tries) \<longrightarrow>
      (\<exists>until. last (attempts kdf cfg nm tenant (tries @ [(t', pw')]) d) = Inl (AccountLocked until)))"
  using assms(1-6)
proof (induction tries arbitrary: d u)
  case Nil
  then show ?case by (simp add: wrong_guesses_def)
next
  case (Cons x tries)
  obtain t pw where x: "x = (t, pw)" by (cases x)
  let ?u = "(note_failure cfg t u)\<lparr>us_updated_at := t\<rparr>"
  have "\<not> is_locked t u" using Cons.prems(3) by (simp add: is_locked_def)
  then obtain d' where d': "local_authenticate kdf cfg t nm pw tenant d = (Inl (InvalidCredentials ''Invalid password''), d')"
      "users_ok d'" "find_user nm tenant d' = Some ?u"
    using local_wrong_password [of d nm tenant u pw t kdf cfg] Cons.prems x by auto
  show ?case
  proof (cases "ac_max_login_attempts cfg \<le> us_failed_attempts u + 1")
    case True
    then have u': "us_status ?u = US_LOCKED" "us_locked_until ?u = t + of_int (ac_lockout_seconds cfg)"
      by (simp_all add: note_failure_def Let_def)
    have "list_all (\<lambda>(t, pw). pw \<noteq> '''' \<and> t < us_locked_until ?u) (tries @ [(t', pw')])"
      using Cons.prems(6) assms(7,8) x u'(2) by (auto simp: list_all_iff)
    note refused = locked_refused [OF d'(3) u'(1) Cons.prems(4) this]
    have "list_all (\<lambda>(t, pw). pw \<noteq> '''' \<and> t < us_locked_until ?u) tries"
      using Cons.prems(6) x u'(2) by (auto simp: list_all_iff)
    then have "wrong_guesses (attempts kdf cfg nm tenant tries d') = 0"
      using locked_refused [OF d'(3) u'(1) Cons.prems(4), of tries kdf cfg]
      by (simp add: wrong_guesses_def filter_empty_conv)
    with refused d'(1) x Cons.prems(5) show ?thesis by (auto simp: wrong_guesses_def)
  next
    case False
    then have u': "us_status ?u = US_ACTIVE" "us_failed_attempts ?u = us_failed_attempts u + 1"
        "us_password_hash ?u = us_password_hash u"
      using Cons.prems(3) by (simp_all add: note_failure_def Let_def)
    have ne: "attempts kdf cfg nm tenant (tries @ [(t', pw')]) d' \<noteq> []"
      by (cases tries) (auto split: prod.splits)
    have tail: "list_all (\<lambda>(t, pw). pw \<noteq> '''' \<and> \<not> verify_password kdf pw (us_password_hash ?u) \<and>
           start \<le> t \<and> t < start + of_int (ac_lockout_seconds cfg)) tries"
      using Cons.prems(6) u'(3) by simp
    have lt: "us_failed_attempts ?u < ac_max_login_attempts cfg" using False u'(2) by simp
    from Cons.IH [OF d'(2,3) u'(1) Cons.prems(4) lt tail] d'(1) x u'(2) ne
    show ?thesis by (auto simp: wrong_guesses_def)
  qed
qed

text \<open>The lockout bounds guessing. Within one lockout period at most as many wrong passwords for
  an account are looked at as attempts are left; once they are used up every further attempt in that
  period is refused as locked, with whatever password.\<close>

theorem lockout_limits_guessing:
  assumes "users_ok d" and "find_user nm tenant d = Some u" and "us_status u = US_ACTIVE" and "nm \<noteq> ''''"
    and "us_failed_attempts u < ac_max_login_attempts cfg"
    and "list_all (\<lambda>(t, pw). pw \<noteq> '''' \<and> \<not> verify_password kdf pw (us_password_hash u) \<and>
           start \<le> t \<and> t < start + of_int (ac_lockout_seconds cfg)) tries"
    and "pw' \<noteq> ''''" and "t' < start + of_int (ac_lockout_seconds cfg)"
  shows "int (wrong_guesses (attempts kdf cfg nm tenant tries d)) \<le> ac_max_login_attempts cfg - us_failed_attempts u \<and>
    (ac_max_login_attempts cfg - us_failed_attempts u \<le> int (length tries) \<longrightarrow>
      (\<exists>until. last (attempts kdf cfg nm tenant (tries @ [(t', pw')]) d) = Inl (AccountLocked until)))"
  using assms by (rule guessing_aux)

definition demo_user :: user where
  "demo_user = \<lparr>us_id = ''u1'', us_username = ''ann'', us_email = '''', us_password_hash = '''',
     us_status = US_ACTIVE, us_roles = [''viewer''], us_tenant_id = '''', us_mfa_secret = '''',
     us_failed_attempts = 3, us_locked_until = 0, us_created_at = 0, us_updated_at = 0\<rparr>"

theorem lockout_limits_guessing_witness:
  "\<exists>until. last (attempts demo_kdf default_auth_config ''ann'' '''' ([(1, ''a''), (2, ''b'')] @ [(9, ''c'')])
     [(''u1'', demo_user)]) = Inl (AccountLocked until)"
proof -
  have "int (wrong_guesses (attempts demo_kdf default_auth_config ''ann'' '''' [(1, ''a''), (2, ''b'')] [(''u1'', demo_user)]))
      \<le> ac_max_login_attempts default_auth_config - us_failed_attempts demo_user \<and>
    (ac_max_login_attempts default_auth_config - us_failed_attempts demo_user \<le> int (length [(1 :: pyfloat, ''a''), (2, ''b'')]) \<longrightarrow>
      (\<exists>until. last (attempts demo_kdf default_auth_config ''ann'' '''' ([(1, ''a''), (2, ''b'')] @ [(9, ''c'')])
         [(''u1'', demo_user)]) = Inl (AccountLocked until)))"
    by (rule lockout_limits_guessing [where start = 0])
      (simp_all add: users_ok_def dict_ok_def find_user_def username_matches_def demo_user_def
        default_auth_config_def verify_password_def)
  then show ?thesis by (simp add: default_auth_config_def demo_user_def)
qed


section \<open>API keys\<close>

record api_key =
  ak_id :: string
  ak_tenant_id :: string
  ak_name :: string
  ak_key_prefix :: string
  ak_key_hash :: string
  ak_scopes :: "string list"
  ak_user_id :: string
  ak_expires_at :: pyfloat
  ak_revoked :: bool
  ak_usage_count :: int
  ak_last_used_at :: pyfloat

type_synonym key_store = "(string, api_key) dict"
type_synonym 'a key_prog = "(key_store, auth_error, 'a) prog"

definition key_hash :: "(string \<Rightarrow> string) \<Rightarrow> string \<Rightarrow> string" where
  "key_hash sha raw = sha (''apikey:'' @ raw)"

definition key_expired :: "pyfloat \<Rightarrow> api_key \<Rightarrow> bool" where
  "key_expired now k \<longleftrightarrow> ak_expires_at k \<noteq> 0 \<and> ak_expires_at k < now"

definition put_key :: "api_key \<Rightarrow> unit key_prog" where
  "put_key k = modify (dict_set (ak_id k) k)"

definition key_by_hash :: "string \<Rightarrow> key_store \<Rightarrow> api_key option" where
  "key_by_hash h d = find (\<lambda>k. ak_key_hash k = h) (map snd d)"

definition key_generate ::
  "(string \<Rightarrow> string) \<Rightarrow> auth_config \<Rightarrow> pyfloat \<Rightarrow> string \<Rightarrow> string \<Rightarrow> string \<Rightarrow> string \<Rightarrow> string list \<Rightarrow> int option
    \<Rightarrow> string \<Rightarrow> (api_key \<times> string) key_prog" where
  "key_generate sha cfg now kid hex tenant nm scopes ttl uid =
    (let raw = ''ak_'' @ hex;
         k = \<lparr>ak_id = kid, ak_tenant_id = tenant, ak_name = nm, ak_key_prefix = take 10 raw,
              ak_key_hash = key_hash sha raw, ak_scopes = scopes, ak_user_id = uid,
              ak_expires_at = now + of_int (case ttl of Some t \<Rightarrow> t | None \<Rightarrow> ac_api_key_ttl_default cfg),
              ak_revoked = False, ak_usage_count = 0, ak_last_used_at = 0\<rparr>
     in andthen (put_key k) (\<lambda>_. ret (k, raw)))"

definition key_authenticate ::
  "(string \<Rightarrow> string) \<Rightarrow> pyfloat \<Rightarrow> string \<Rightarrow> string list \<Rightarrow> api_key key_prog" where
  "key_authenticate sha now raw required =
    andthen (fetch (APIKeyErr ''Invalid API key'') (key_by_hash (key_hash sha raw))) (\<lambda>k.
    andthen (require (\<not> ak_revoked k) (APIKeyErr ''API key revoked'')) (\<lambda>_.
    andthen (require (\<not> key_expired now k) (APIKeyErr ''API key expired'')) (\<lambda>_.
    andthen (require (set required \<subseteq> set (ak_scopes k)) (APIKeyErr ''API key missing scopes'')) (\<lambda>_.
      let k' = k\<lparr>ak_usage_count := ak_usage_count k + 1, ak_last_used_at := now\<rparr>
      in andthen (put_key k') (\<lambda>_. ret k')))))"

definition key_revoke :: "string \<Rightarrow> bool key_prog" where
  "key_revoke kid =
    andthen (fetch (APIKeyErr ''API key not found'') (\<lambda>d. dict_get d kid)) (\<lambda>k.
    andthen (put_key (k\<lparr>ak_revoked := True\<rparr>)) (\<lambda>_. ret True))"

definition remaining_ttl :: "pyfloat \<Rightarrow> pyfloat \<Rightarrow> int option" where
  "remaining_ttl now expires =
    (if expires \<noteq> 0 then let r = py_int (expires - now) in if 0 < r then Some r else None else None)"

definition key_rotate ::
  "(string \<Rightarrow> string) \<Rightarrow> auth_config \<Rightarrow> pyfloat \<Rightarrow> string \<Rightarrow> string \<Rightarrow> string \<Rightarrow> (api_key \<times> string) key_prog" where
  "key_rotate sha cfg now kid new_id hex =
    andthen (fetch (APIKeyErr ''API key not found'') (\<lambda>d. dict_get d kid)) (\<lambda>k.
      key_generate sha cfg now new_id hex (ak_tenant_id k) (ak_name k) (ak_scopes k)
        (remaining_ttl now (ak_expires_at k)) (ak_user_id k))"

datatype key_op =
    KGenerate pyfloat string string string string "string list" "int option" string
  | KAuthenticate pyfloat string "string list"
  | KRevoke string
  | KRotate pyfloat string string string

fun key_step :: "(string \<Rightarrow> string) \<Rightarrow> auth_config \<Rightarrow> key_op \<Rightarrow> key_store \<Rightarrow> key_store" where
  "key_step sha cfg (KGenerate now kid hex tenant nm scopes ttl uid) d =
     final_state (key_generate sha cfg now kid hex tenant nm scopes ttl uid) d"
| "key_step sha cfg (KAuthenticate now raw required) d = final_state (key_authenticate sha now raw required) d"
| "key_step sha cfg (KRevoke kid) d = final_state (key_revoke kid) d"
| "key_step sha cfg (KRotate now kid new_id hex) d = final_state (key_rotate sha cfg now kid new_id hex) d"

fun key_issues :: "(string \<Rightarrow> string) \<Rightarrow> key_op \<Rightarrow> string option" where
  "key_issues sha (KGenerate now kid hex tenant nm scopes ttl uid) = Some (key_hash sha (''ak_'' @ hex))"
| "key_issues sha (KRotate now kid new_id hex) = Some (key_hash sha (''ak_'' @ hex))"
| "key_issues sha _ = None"

text \<open>An operation that leaves the store alone or writes one record, which is newly issued or made
  from a stored one, keeps tags and revocations.\<close>

lemma in_snd_dict_set: "v' \<in> snd ` set (dict_set k v d) \<Longrightarrow> v' = v \<or> v' \<in> snd ` set d"
  by (induction d) (auto split: if_splits)

lemma one_write_creds:
  assumes "d' = d \<or> (\<exists>i v. d' = dict_set i v d \<and>
      (issue = Some (t v) \<or> (\<exists>w \<in> snd ` set d. t w = t v \<and> (r w \<longrightarrow> r v))))"
    and "v' \<in> set (map snd d')"
  shows "issue = Some (t v') \<or> (\<exists>w \<in> set (map snd d). t w = t v' \<and> (r w \<longrightarrow> r v'))"
proof -
  have v': "v' \<in> snd ` set d'" using assms(2) by (simp add: image_image)
  from assms(1) consider "d' = d" | i v where "d' = dict_set i v d"
      "issue = Some (t v) \<or> (\<exists>w \<in> snd ` set d. t w = t v \<and> (r w \<longrightarrow> r v))" by blast
  then show ?thesis
  proof cases
    case 1
    with v' show ?thesis unfolding set_map by blast
  next
    case (2 i v)
    with v' have "v' = v \<or> v' \<in> snd ` set d" using in_snd_dict_set by metis
    with 2(2) show ?thesis unfolding set_map by blast
  qed
qed

lemma key_generate_writes:
  "\<exists>v. final_state (key_generate sha cfg now kid hex tenant nm scopes ttl uid) d = dict_set kid v d \<and>
     ak_key_hash v = key_hash sha (''ak_'' @ hex)"
  by (rule exI, rule conjI) (simp add: final_state_def key_generate_def put_key_def Let_def, simp)

lemma key_by_hash_in: "key_by_hash h d = Some k \<Longrightarrow> k \<in> snd ` set d \<and> ak_key_hash k = h"
  by (auto simp: key_by_hash_def find_Some_iff)

lemma key_step_creds:
  assumes "k' \<in> set (map snd (key_step sha cfg op d))"
  shows "key_issues sha op = Some (ak_key_hash k') \<or>
    (\<exists>k \<in> set (map snd d). ak_key_hash k = ak_key_hash k' \<and> (ak_revoked k \<longrightarrow> ak_revoked k'))"
proof (rule one_write_creds [OF _ assms])
  let ?P = "\<lambda>d'. d' = d \<or> (\<exists>i v. d' = dict_set i v d \<and> (key_issues sha op = Some (ak_key_hash v) \<or>
      (\<exists>w \<in> snd ` set d. ak_key_hash w = ak_key_hash v \<and> (ak_revoked w \<longrightarrow> ak_revoked v))))"
  show "?P (key_step sha cfg op d)"
  proof (cases op)
    case (KGenerate now kid hex tenant nm scopes ttl uid)
    from key_generate_writes [of sha cfg now kid hex tenant nm scopes ttl uid d] obtain v
      where "key_step sha cfg op d = dict_set kid v d" "key_issues sha op = Some (ak_key_hash v)"
      unfolding KGenerate by auto
    then show ?thesis by blast
  next
    case (KAuthenticate now raw required)
    show ?thesis
    proof (cases "key_by_hash (key_hash sha raw) d")
      case (Some k)
      have k: "k \<in> snd ` set d" using key_by_hash_in [OF Some] by simp
      let ?k = "k\<lparr>ak_usage_count := ak_usage_count k + 1, ak_last_used_at := now\<rparr>"
      have "key_step sha cfg op d = d \<or> key_step sha cfg op d = dict_set (ak_id k) ?k d"
        using KAuthenticate Some
        by (simp add: final_state_def key_authenticate_def put_key_def andthen_def fetch_def Let_def)
      moreover have "\<exists>w \<in> snd ` set d. ak_key_hash w = ak_key_hash ?k \<and> (ak_revoked w \<longrightarrow> ak_revoked ?k)"
        using k by (intro bexI [of _ k]) simp_all
      ultimately show ?thesis by blast
    qed (simp add: KAuthenticate final_state_def key_authenticate_def fetch_def)
  next
    case (KRevoke kid)
    show ?thesis
    proof (cases "dict_get d kid")
      case (Some k)
      have k: "k \<in> snd ` set d" using dict_get_in [OF Some] by force
      have "key_step sha cfg op d = dict_set (ak_id k) (k\<lparr>ak_revoked := True\<rparr>) d"
        using KRevoke Some by (simp add: final_state_def key_revoke_def put_key_def fetch_def andthen_def)
      moreover have "\<exists>w \<in> snd ` set d. ak_key_hash w = ak_key_hash (k\<lparr>ak_revoked := True\<rparr>) \<and>
          (ak_revoked w \<longrightarrow> ak_revoked (k\<lparr>ak_revoked := True\<rparr>))"
        using k by (intro bexI [of _ k]) simp_all
      ultimately show ?thesis by blast
    qed (simp add: KRevoke final_state_def key_revoke_def fetch_def)
  next
    case (KRotate now kid new_id hex)
    show ?thesis
    proof (cases "dict_get d kid")
      case (Some k)
      have "key_step sha cfg op d = final_state (key_generate sha cfg now new_id hex (ak_tenant_id k)
          (ak_name k) (ak_scopes k) (remaining_ttl now (ak_expires_at k)) (ak_user_id k)) d"
        using Some by (simp add: KRotate final_state_def key_rotate_def fetch_def andthen_def)
      moreover obtain v where "final_state (key_generate sha cfg now new_id hex (ak_tenant_id k)
          (ak_name k) (ak_scopes k) (remaining_ttl now (ak_expires_at k)) (ak_user_id k)) d = dict_set new_id v d"
          "ak_key_hash v = key_hash sha (''ak_'' @ hex)"
        using key_generate_writes by blast
      ultimately have "key_step sha cfg op d = dict_set new_id v d \<and> key_issues sha op = Some (ak_key_hash v)"
        unfolding KRotate by simp
      then show ?thesis by blast
    qed (simp add: KRotate final_state_def key_rotate_def fetch_def)
  qed
qed

definition key_accepted :: "(string \<Rightarrow> string) \<Rightarrow> string \<Rightarrow> key_store \<Rightarrow> bool" where
  "key_accepted sha h d \<longleftrightarrow>
     (\<exists>now raw required. key_hash sha raw = h \<and> succeeds (key_authenticate sha now raw required) d)"

lemma key_accepted_live:
  assumes "key_accepted sha h d"
  shows "\<exists>k \<in> set (map snd d). ak_key_hash k = h \<and> \<not> ak_revoked k"
proof -
  from assms obtain now raw required where h: "key_hash sha raw = h"
    and ok: "is_ok (fst (key_authenticate sha now raw required d))"
    by (auto simp: key_accepted_def succeeds_def)
  then obtain k where "key_by_hash h d = Some k" "\<not> ak_revoked k"
    by (auto simp: key_authenticate_def fetch_def andthen_def split: option.splits if_splits)
  with key_by_hash_in [of h d k] show ?thesis unfolding set_map by blast
qed

interpretation api_keys: revocable "\<lambda>_. True" "map snd" ak_key_hash ak_revoked "key_accepted sha"
  "key_step sha cfg" "key_issues sha" for sha :: "string \<Rightarrow> string" and cfg
  by unfold_locales (rule TrueI, erule key_accepted_live, erule key_step_creds)

definition keys_ok :: "key_store \<Rightarrow> bool" where
  "keys_ok d \<longleftrightarrow> dict_ok d \<and> list_all (\<lambda>(i, k). ak_id k = i) d \<and> distinct (map (ak_key_hash \<circ> snd) d)"

lemma revoke_kills_hash:
  assumes "keys_ok d" and "dict_get d kid = Some k"
  shows "api_keys.all_dead (ak_key_hash k) (final_state (key_revoke kid) d)"
proof -
  have k: "(kid, k) \<in> set d" using dict_get_in [OF assms(2)] .
  then have id: "ak_id k = kid" using assms(1) by (auto simp: keys_ok_def list_all_iff)
  have ok: "dict_ok d" using assms(1) by (simp add: keys_ok_def)
  have only: "i = kid" if "(i, v) \<in> set d" "ak_key_hash v = ak_key_hash k" for i v
    using assms(1) k that inj_onD [of "ak_key_hash \<circ> snd" "set d" "(i, v)" "(kid, k)"]
    by (simp add: keys_ok_def distinct_map)
  have "final_state (key_revoke kid) d = dict_set kid (k\<lparr>ak_revoked := True\<rparr>) d"
    using assms(2) id by (simp add: final_state_def key_revoke_def put_key_def fetch_def andthen_def)
  then show ?thesis
    using only by (auto simp: api_keys.all_dead_def in_dict_set [OF ok] split: if_splits)
qed

text \<open>C35. Once an API key is revoked, no sequence of operations of the key manager makes it
  authenticate again, at any time and for any required scopes, unless an operation issues a key
  with the same hash.\<close>

theorem revoked_key_never_authenticates:
  assumes "keys_ok d" and "dict_get d kid = Some k" and "key_hash sha raw = ak_key_hash k"
    and "list_all (\<lambda>op. key_issues sha op \<noteq> Some (ak_key_hash k)) ops"
  shows "\<not> succeeds (key_authenticate sha now raw required)
    (fold (key_step sha cfg) ops (final_state (key_revoke kid) d))"
  using api_keys.never_accepted [OF TrueI revoke_kills_hash [OF assms(1,2)] assms(4)] assms(3)
  unfolding key_accepted_def by blast

definition demo_key :: api_key where
  "demo_key = \<lparr>ak_id = ''k1'', ak_tenant_id = ''t'', ak_name = ''ci'', ak_key_prefix = ''ak_1'',
     ak_key_hash = ''apikey:ak_1'', ak_scopes = [''read''], ak_user_id = '''', ak_expires_at = 50,
     ak_revoked = False, ak_usage_count = 0, ak_last_used_at = 0\<rparr>"

theorem revoked_key_never_authenticates_witness:
  "\<not> succeeds (key_authenticate id 3 ''ak_1'' [])
     (fold (key_step id default_auth_config)
       [KRotate 1 ''k1'' ''k2'' ''2'', KAuthenticate 2 ''ak_2'' []]
       (final_state (key_revoke ''k1'') [(''k1'', demo_key)]))"
  by (rule revoked_key_never_authenticates [where k = demo_key])
    (simp_all add: keys_ok_def dict_ok_def demo_key_def key_hash_def)

text \<open>Rotation issues a new key and leaves the old one as it was: it still authenticates.\<close>

lemma rotated_key_still_authenticates:
  "succeeds (key_authenticate id 3 ''ak_1'' [])
     (final_state (key_rotate id default_auth_config 1 ''k1'' ''k2'' ''2'') [(''k1'', demo_key)])"
  by (simp add: succeeds_def final_state_def key_rotate_def key_generate_def key_authenticate_def
      put_key_def fetch_def andthen_def Let_def demo_key_def key_hash_def key_by_hash_def key_expired_def
      remaining_ttl_def default_auth_config_def)



section \<open>Service accounts\<close>

record service_account =
  sa_id :: string
  sa_tenant_id :: string
  sa_name :: string
  sa_token_hash :: string
  sa_scopes :: "string list"
  sa_description :: string
  sa_expires_at :: pyfloat
  sa_revoked :: bool
  sa_usage_count :: int
  sa_last_used_at :: pyfloat

type_synonym account_store = "(string, service_account) dict"
type_synonym 'a account_prog = "(account_store, auth_error, 'a) prog"

definition account_hash :: "(string \<Rightarrow> string) \<Rightarrow> string \<Rightarrow> string" where
  "account_hash sha raw = sha (''sa:'' @ raw)"

definition account_expired :: "pyfloat \<Rightarrow> service_account \<Rightarrow> bool" where
  "account_expired now a \<longleftrightarrow> sa_expires_at a \<noteq> 0 \<and> sa_expires_at a < now"

definition put_account :: "service_account \<Rightarrow> unit account_prog" where
  "put_account a = modify (dict_set (sa_id a) a)"

definition account_by_hash :: "string \<Rightarrow> account_store \<Rightarrow> service_account option" where
  "account_by_hash h d = find (\<lambda>a. sa_token_hash a = h) (map snd d)"

definition account_create ::
  "(string \<Rightarrow> string) \<Rightarrow> auth_config \<Rightarrow> pyfloat \<Rightarrow> string \<Rightarrow> string \<Rightarrow> string \<Rightarrow> string \<Rightarrow> string list \<Rightarrow> string
    \<Rightarrow> int option \<Rightarrow> (service_account \<times> string) account_prog" where
  "account_create sha cfg now aid hex tenant nm scopes descr ttl =
    (let raw = ''sa_'' @ hex;
         a = \<lparr>sa_id = aid, sa_tenant_id = tenant, sa_name = nm, sa_token_hash = account_hash sha raw,
              sa_scopes = scopes, sa_description = descr,
              sa_expires_at = now + of_int (case ttl of Some t \<Rightarrow> t | None \<Rightarrow> ac_service_account_ttl_default cfg),
              sa_revoked = False, sa_usage_count = 0, sa_last_used_at = 0\<rparr>
     in andthen (put_account a) (\<lambda>_. ret (a, raw)))"

definition account_authenticate ::
  "(string \<Rightarrow> string) \<Rightarrow> pyfloat \<Rightarrow> string \<Rightarrow> string list \<Rightarrow> service_account account_prog" where
  "account_authenticate sha now raw required =
    andthen (fetch (ServiceAccountErr ''Invalid service account token'')
      (account_by_hash (account_hash sha raw))) (\<lambda>a.
    andthen (require (\<not> sa_revoked a) (ServiceAccountErr ''Service account revoked'')) (\<lambda>_.
    andthen (require (\<not> account_expired now a) (ServiceAccountErr ''Service account expired'')) (\<lambda>_.
    andthen (require (set required \<subseteq> set (sa_scopes a))
      (ServiceAccountErr ''Service account missing scopes'')) (\<lambda>_.
      let a' = a\<lparr>sa_usage_count := sa_usage_count a + 1, sa_last_used_at := now\<rparr>
      in andthen (put_account a') (\<lambda>_. ret a')))))"

definition account_revoke :: "string \<Rightarrow> bool account_prog" where
  "account_revoke aid =
    andthen (fetch (ServiceAccountErr ''Service account not found'') (\<lambda>d. dict_get d aid)) (\<lambda>a.
    andthen (put_account (a\<lparr>sa_revoked := True\<rparr>)) (\<lambda>_. ret True))"

definition account_rotate ::
  "(string \<Rightarrow> string) \<Rightarrow> auth_config \<Rightarrow> pyfloat \<Rightarrow> string \<Rightarrow> string \<Rightarrow> string
    \<Rightarrow> (service_account \<times> string) account_prog" where
  "account_rotate sha cfg now aid new_id hex =
    andthen (fetch (ServiceAccountErr ''Service account not found'') (\<lambda>d. dict_get d aid)) (\<lambda>a.
      account_create sha cfg now new_id hex (sa_tenant_id a) (sa_name a) (sa_scopes a) (sa_description a)
        (remaining_ttl now (sa_expires_at a)))"

datatype account_op =
    ACreate pyfloat string string string string "string list" string "int option"
  | AAuthenticate pyfloat string "string list"
  | ARevoke string
  | ARotate pyfloat string string string

fun account_step :: "(string \<Rightarrow> string) \<Rightarrow> auth_config \<Rightarrow> account_op \<Rightarrow> account_store \<Rightarrow> account_store" where
  "account_step sha cfg (ACreate now aid hex tenant nm scopes descr ttl) d =
     final_state (account_create sha cfg now aid hex tenant nm scopes descr ttl) d"
| "account_step sha cfg (AAuthenticate now raw required) d =
     final_state (account_authenticate sha now raw required) d"
| "account_step sha cfg (ARevoke aid) d = final_state (account_revoke aid) d"
| "account_step sha cfg (ARotate now aid new_id hex) d =
     final_state (account_rotate sha cfg now aid new_id hex) d"

fun account_issues :: "(string \<Rightarrow> string) \<Rightarrow> account_op \<Rightarrow> string option" where
  "account_issues sha (ACreate now aid hex tenant nm scopes descr ttl) = Some (account_hash sha (''sa_'' @ hex))"
| "account_issues sha (ARotate now aid new_id hex) = Some (account_hash sha (''sa_'' @ hex))"
| "account_issues sha _ = None"

lemma account_by_hash_in: "account_by_hash h d = Some a \<Longrightarrow> a \<in> snd ` set d \<and> sa_token_hash a = h"
  by (auto simp: account_by_hash_def find_Some_iff)

lemma account_create_writes:
  "\<exists>v. final_state (account_create sha cfg now aid hex tenant nm scopes descr ttl) d = dict_set aid v d \<and>
     sa_token_hash v = account_hash sha (''sa_'' @ hex)"
  by (rule exI, rule conjI) (simp add: final_state_def account_create_def put_account_def Let_def, simp)

lemma account_step_creds:
  assumes "a' \<in> set (map snd (account_step sha cfg op d))"
  shows "account_issues sha op = Some (sa_token_hash a') \<or>
    (\<exists>a \<in> set (map snd d). sa_token_hash a = sa_token_hash a' \<and> (sa_revoked a \<longrightarrow> sa_revoked a'))"
proof (rule one_write_creds [OF _ assms])
  let ?P = "\<lambda>d'. d' = d \<or> (\<exists>i v. d' = dict_set i v d \<and> (account_issues sha op = Some (sa_token_hash v) \<or>
      (\<exists>w \<in> snd ` set d. sa_token_hash w = sa_token_hash v \<and> (sa_revoked w \<longrightarrow> sa_revoked v))))"
  show "?P (account_step sha cfg op d)"
  proof (cases op)
    case (ACreate now aid hex tenant nm scopes descr ttl)
    from account_create_writes [of sha cfg now aid hex tenant nm scopes descr ttl d] obtain v
      where "account_step sha cfg op d = dict_set aid v d" "account_issues sha op = Some (sa_token_hash v)"
      unfolding ACreate by auto
    then show ?thesis by blast
  next
    case (AAuthenticate now raw required)
    show ?thesis
    proof (cases "account_by_hash (account_hash sha raw) d")
      case (Some a)
      let ?a = "a\<lparr>sa_usage_count := sa_usage_count a + 1, sa_last_used_at := now\<rparr>"
      have "account_step sha cfg op d = d \<or> account_step sha cfg op d = dict_set (sa_id a) ?a d"
        using AAuthenticate Some
        by (simp add: final_state_def account_authenticate_def put_account_def andthen_def fetch_def Let_def)
      moreover have "\<exists>w \<in> snd ` set d. sa_token_hash w = sa_token_hash ?a \<and> (sa_revoked w \<longrightarrow> sa_revoked ?a)"
        using account_by_hash_in [OF Some] by (intro bexI [of _ a]) simp_all
      ultimately show ?thesis by blast
    qed (simp add: AAuthenticate final_state_def account_authenticate_def fetch_def)
  next
    case (ARevoke aid)
    show ?thesis
    proof (cases "dict_get d aid")
      case (Some a)
      let ?a = "a\<lparr>sa_revoked := True\<rparr>"
      have a: "a \<in> snd ` set d" using dict_get_in [OF Some] by force
      have "account_step sha cfg op d = dict_set (sa_id a) ?a d"
        using ARevoke Some by (simp add: final_state_def account_revoke_def put_account_def fetch_def andthen_def)
      moreover have "\<exists>w \<in> snd ` set d. sa_token_hash w = sa_token_hash ?a \<and> (sa_revoked w \<longrightarrow> sa_revoked ?a)"
        using a by (intro bexI [of _ a]) simp_all
      ultimately show ?thesis by blast
    qed (simp add: ARevoke final_state_def account_revoke_def fetch_def)
  next
    case (ARotate now aid new_id hex)
    show ?thesis
    proof (cases "dict_get d aid")
      case (Some a)
      let ?m = "account_create sha cfg now new_id hex (sa_tenant_id a) (sa_name a) (sa_scopes a)
          (sa_description a) (remaining_ttl now (sa_expires_at a))"
      have "account_step sha cfg op d = final_state ?m d"
        using Some by (simp add: ARotate final_state_def account_rotate_def fetch_def andthen_def)
      moreover obtain v where "final_state ?m d = dict_set new_id v d"
          "sa_token_hash v = account_hash sha (''sa_'' @ hex)"
        using account_create_writes by blast
      ultimately have "account_step sha cfg op d = dict_set new_id v d \<and>
          account_issues sha op = Some (sa_token_hash v)"
        unfolding ARotate by simp
      then show ?thesis by blast
    qed (simp add: ARotate final_state_def account_rotate_def fetch_def)
  qed
qed

definition account_accepted :: "(string \<Rightarrow> string) \<Rightarrow> string \<Rightarrow> account_store \<Rightarrow> bool" where
  "account_accepted sha h d \<longleftrightarrow>
     (\<exists>now raw required. account_hash sha raw = h \<and> succeeds (account_authenticate sha now raw required) d)"

lemma account_accepted_live:
  assumes "account_accepted sha h d"
  shows "\<exists>a \<in> set (map snd d). sa_token_hash a = h \<and> \<not> sa_revoked a"
proof -
  from assms obtain now raw required where "account_hash sha raw = h"
    and "is_ok (fst (account_authenticate sha now raw required d))"
    by (auto simp: account_accepted_def succeeds_def)
  then obtain a where "account_by_hash h d = Some a" "\<not> sa_revoked a"
    by (auto simp: account_authenticate_def fetch_def andthen_def split: option.splits if_splits)
  with account_by_hash_in [of h d a] show ?thesis unfolding set_map by blast
qed

interpretation accounts: revocable "\<lambda>_. True" "map snd" sa_token_hash sa_revoked "account_accepted sha"
  "account_step sha cfg" "account_issues sha" for sha :: "string \<Rightarrow> string" and cfg
  by unfold_locales (rule TrueI, erule account_accepted_live, erule account_step_creds)

text \<open>The same holds of service accounts: with every account of a token hash revoked, no run of
  the account manager that does not issue that hash makes the token authenticate.\<close>

lemma revoked_account_never_authenticates:
  assumes "list_all (\<lambda>(i, a). sa_token_hash a = account_hash sha raw \<longrightarrow> sa_revoked a) d"
    and "list_all (\<lambda>op. account_issues sha op \<noteq> Some (account_hash sha raw)) ops"
  shows "\<not> succeeds (account_authenticate sha now raw required) (fold (account_step sha cfg) ops d)"
proof -
  have "accounts.all_dead (account_hash sha raw) d"
    using assms(1) by (auto simp: accounts.all_dead_def list_all_iff)
  from accounts.never_accepted [OF TrueI this assms(2)] show ?thesis
    unfolding account_accepted_def by blast
qed

end
