(* ===== verification/Sessions.thy ===== *)
theory Sessions
  imports Credentials
begin

text \<open>
  Login sessions (\<open>src/app/auth/sessions.py\<close> with the session repository of
  \<open>repository.py\<close>): creation under a limit of concurrent sessions with eviction of the oldest
  ones, idle and absolute timeouts, revocation. Two results: whatever is done, no user has more
  active sessions than the limit, and a revoked session never validates again.
\<close>

record session =
  se_id :: string
  se_user_id :: string
  se_tenant_id :: string
  se_device :: string
  se_created_at :: pyfloat
  se_last_active :: pyfloat
  se_expires_at :: pyfloat
  se_refresh_jti :: string
  se_revoked :: bool

type_synonym session_store = "(string, session) dict"
type_synonym 'a session_prog = "(session_store, auth_error, 'a) prog"

definition active_of :: "string \<Rightarrow> session \<Rightarrow> bool" where
  "active_of uid s \<longleftrightarrow> se_user_id s = uid \<and> \<not> se_revoked s"

definition list_for_user :: "string \<Rightarrow> session_store \<Rightarrow> session list" where
  "list_for_user uid d = filter (active_of uid) (map snd d)"

definition count_active :: "string \<Rightarrow> session_store \<Rightarrow> nat" where
  "count_active uid d = count_vals (active_of uid) d"

definition repo_update :: "session \<Rightarrow> session_store \<Rightarrow> session_store" where
  "repo_update s d = (if dict_has d (se_id s) then dict_set (se_id s) s d else d)"

definition delete_for_user :: "string \<Rightarrow> session_store \<Rightarrow> nat \<times> session_store" where
  "delete_for_user uid d =
    (let ids = map fst (filter (\<lambda>(i, s). se_user_id s = uid) d)
     in (length ids, fold dict_pop ids d))"

definition evict :: "session list \<Rightarrow> session_store \<Rightarrow> session_store" where
  "evict ss d = fold (\<lambda>s. repo_update (s\<lparr>se_revoked := True\<rparr>)) ss d"

definition session_create ::
  "auth_config \<Rightarrow> pyfloat \<Rightarrow> string \<Rightarrow> string \<Rightarrow> string \<Rightarrow> string \<Rightarrow> string \<Rightarrow> session session_prog" where
  "session_create cfg now sid uid tenant device jti =
    andthen (gets (\<lambda>d. (int (count_active uid d), sort_key se_created_at (list_for_user uid d)))) (\<lambda>(active, oldest).
    andthen (if ac_max_concurrent_sessions cfg \<le> active
             then if ac_evict_oldest_on_limit cfg
                  then modify (evict (take (nat (active - ac_max_concurrent_sessions cfg + 1)) oldest))
                  else throw (SessionLimit (ac_max_concurrent_sessions cfg))
             else ret ()) (\<lambda>_.
      let s = \<lparr>se_id = sid, se_user_id = uid, se_tenant_id = tenant, se_device = device,
               se_created_at = now, se_last_active = now,
               se_expires_at = now + of_int (ac_session_absolute_timeout cfg),
               se_refresh_jti = jti, se_revoked = False\<rparr>
      in andthen (modify (dict_set sid s)) (\<lambda>_. ret s)))"

definition session_get :: "string \<Rightarrow> session session_prog" where
  "session_get sid = fetch (SessionExpired ''Session not found'') (\<lambda>d. dict_get d sid)"

definition put_session :: "session \<Rightarrow> session session_prog" where
  "put_session s = andthen (modify (repo_update s)) (\<lambda>_. ret s)"

definition session_touch :: "auth_config \<Rightarrow> pyfloat \<Rightarrow> string \<Rightarrow> session session_prog" where
  "session_touch cfg now sid =
    andthen (session_get sid) (\<lambda>s.
      if se_last_active s \<noteq> 0 \<and> of_int (ac_session_idle_timeout cfg) < now - se_last_active s
      then andthen (put_session (s\<lparr>se_expires_at := now, se_revoked := True\<rparr>)) (\<lambda>_.
             throw (SessionExpired ''Session idle timeout exceeded''))
      else put_session (s\<lparr>se_last_active := now\<rparr>))"

definition session_validate :: "pyfloat \<Rightarrow> string \<Rightarrow> session session_prog" where
  "session_validate now sid =
    andthen (session_get sid) (\<lambda>s.
      if se_revoked s then throw (SessionExpired ''Session revoked'')
      else if se_expires_at s \<noteq> 0 \<and> se_expires_at s < now
      then andthen (put_session (s\<lparr>se_revoked := True\<rparr>)) (\<lambda>_. throw (SessionExpired ''Session expired''))
      else ret s)"

definition session_revoke :: "string \<Rightarrow> bool session_prog" where
  "session_revoke sid =
    andthen (session_get sid) (\<lambda>s.
    andthen (put_session (s\<lparr>se_revoked := True\<rparr>)) (\<lambda>_. ret True))"

definition session_revoke_all :: "string \<Rightarrow> nat session_prog" where
  "session_revoke_all uid =
    andthen (gets (list_for_user uid)) (\<lambda>ss.
    andthen (modify (evict ss)) (\<lambda>_. ret (length ss)))"

text \<open>The authentication manager also records the id of the last refresh token in a session.\<close>

definition session_set_jti :: "string \<Rightarrow> string \<Rightarrow> session session_prog" where
  "session_set_jti sid jti = andthen (session_get sid) (\<lambda>s. put_session (s\<lparr>se_refresh_jti := jti\<rparr>))"

datatype session_op =
    SCreate pyfloat string string string string string
  | STouch pyfloat string
  | SValidate pyfloat string
  | SRevoke string
  | SRevokeAll string
  | SSetJti string string

fun session_step :: "auth_config \<Rightarrow> session_op \<Rightarrow> session_store \<Rightarrow> session_store" where
  "session_step cfg (SCreate now sid uid tenant device jti) d =
     final_state (session_create cfg now sid uid tenant device jti) d"
| "session_step cfg (STouch now sid) d = final_state (session_touch cfg now sid) d"
| "session_step cfg (SValidate now sid) d = final_state (session_validate now sid) d"
| "session_step cfg (SRevoke sid) d = final_state (session_revoke sid) d"
| "session_step cfg (SRevokeAll uid) d = final_state (session_revoke_all uid) d"
| "session_step cfg (SSetJti sid jti) d = final_state (session_set_jti sid jti) d"

section \<open>How an operation changes the store\<close>

definition keyed :: "session_store \<Rightarrow> bool" where
  "keyed d \<longleftrightarrow> dict_ok d \<and> list_all (\<lambda>(i, s). se_id s = i) d"

lemma keyed_get: "keyed d \<Longrightarrow> dict_get d sid = Some s \<Longrightarrow> se_id s = sid"
  using dict_get_in [of d sid s] by (auto simp: keyed_def list_all_iff)

lemma keyed_set: "keyed d \<Longrightarrow> se_id s = sid \<Longrightarrow> keyed (dict_set sid s d)"
  unfolding keyed_def using list_all_dict_set [of "\<lambda>(i, s). se_id s = i" d sid s] by simp

lemma keyed_list_for_user:
  "keyed d \<Longrightarrow> s \<in> set (list_for_user uid d) \<Longrightarrow> dict_get d (se_id s) = Some s \<and> active_of uid s"
  by (auto simp: list_for_user_def keyed_def list_all_iff intro!: dict_ok_getI)

text \<open>An update: some stored session is replaced by one with the same id that is no less revoked
  and has the same user.\<close>

inductive updated :: "session_store \<Rightarrow> session_store \<Rightarrow> bool" where
  updated_refl: "updated d d"
| updated_step: "updated d d' \<Longrightarrow> dict_get d' sid = Some s \<Longrightarrow> se_id s' = sid \<Longrightarrow>
    se_user_id s' = se_user_id s \<Longrightarrow> (se_revoked s \<longrightarrow> se_revoked s') \<Longrightarrow> updated d (dict_set sid s' d')"

lemma updated_one:
  "dict_get d sid = Some s \<Longrightarrow> se_id s' = sid \<Longrightarrow> se_user_id s' = se_user_id s \<Longrightarrow>
    (se_revoked s \<longrightarrow> se_revoked s') \<Longrightarrow> updated d (dict_set sid s' d)"
  by (rule updated_step [OF updated_refl])

lemma updated_keyed: "updated d d' \<Longrightarrow> keyed d \<Longrightarrow> keyed d'"
  by (induction rule: updated.induct) (auto intro: keyed_set)

lemma updated_count: "updated d d' \<Longrightarrow> count_active uid d' \<le> count_active uid d"
proof (induction rule: updated.induct)
  case (updated_step d d' sid s s')
  then have "count_vals (active_of uid) (dict_set sid s' d') \<le> count_vals (active_of uid) d'"
    by (intro count_vals_le) (auto simp: active_of_def)
  with updated_step.IH show ?case by (simp add: count_active_def)
qed simp

lemma updated_get:
  "updated d d' \<Longrightarrow> dict_get d' i = Some s' \<Longrightarrow>
    \<exists>s. dict_get d i = Some s \<and> (se_revoked s \<longrightarrow> se_revoked s')"
proof (induction arbitrary: s' rule: updated.induct)
  case (updated_step d d' sid s t)
  then show ?case by (cases "i = sid") fastforce+
qed simp

lemma repo_update_in: "dict_get d (se_id s) = Some t \<Longrightarrow> repo_update s d = dict_set (se_id s) s d"
  by (simp add: repo_update_def dict_has_def)

lemma evict_updated:
  assumes "keyed d" and "distinct (map se_id ss)"
    and "\<And>s. s \<in> set ss \<Longrightarrow> dict_get d (se_id s) = Some s \<and> active_of uid s"
  shows "(updated d0 d \<longrightarrow> updated d0 (evict ss d)) \<and>
    count_active uid (evict ss d) + length ss = count_active uid d"
  using assms
proof (induction ss arbitrary: d)
  case (Cons s ss)
  let ?s = "s\<lparr>se_revoked := True\<rparr>"
  let ?d = "dict_set (se_id s) ?s d"
  have s: "dict_get d (se_id s) = Some s" "active_of uid s" using Cons.prems(3) [of s] by simp_all
  have e: "evict (s # ss) d = evict ss ?d" using s by (simp add: evict_def repo_update_in)
  have neq: "se_id t \<noteq> se_id s" if "t \<in> set ss" for t
    using Cons.prems(2) imageI [OF that, of se_id] by auto
  have ih: "(updated d0 ?d \<longrightarrow> updated d0 (evict ss ?d)) \<and>
      count_active uid (evict ss ?d) + length ss = count_active uid ?d"
    by (rule Cons.IH) (use Cons.prems neq keyed_set [of d ?s "se_id s"] in auto)
  have "count_active uid ?d + 1 = count_active uid d"
    using count_vals_over [OF s(1), of "active_of uid" ?s] s(2) by (simp add: count_active_def active_of_def)
  moreover have "updated d0 d \<Longrightarrow> updated d0 ?d" using s by (auto intro!: updated_step)
  ultimately show ?case unfolding e using ih by auto
qed (simp add: evict_def)

lemma keyed_distinct: "keyed d \<Longrightarrow> distinct (map se_id (list_for_user uid d))"
proof -
  assume d: "keyed d"
  then have "map (se_id \<circ> snd) d = map fst d" by (auto simp: keyed_def list_all_iff)
  with d have "distinct (map se_id (map snd d))" unfolding map_map keyed_def dict_ok_def by (simp only:)
  then show ?thesis unfolding list_for_user_def by (rule distinct_map_filter)
qed

lemma evict_oldest:
  assumes "keyed d"
  shows "(updated d0 d \<longrightarrow> updated d0 (evict (take n (sort_key se_created_at (list_for_user uid d))) d)) \<and>
    count_active uid (evict (take n (sort_key se_created_at (list_for_user uid d))) d) + min n (count_active uid d) =
      count_active uid d"
proof -
  let ?l = "list_for_user uid d"
  let ?ss = "take n (sort_key se_created_at ?l)"
  have "distinct (map se_id ?l)" using assms by (rule keyed_distinct)
  then have "distinct ?l" and inj: "inj_on se_id (set ?l)" by (simp_all add: distinct_map)
  moreover have sub: "set ?ss \<subseteq> set ?l" using set_take_subset [of n "sort_key se_created_at ?l"] by simp
  ultimately have "distinct (map se_id ?ss)" by (auto simp: distinct_map intro: inj_on_subset)
  then have *: "(updated d0 d \<longrightarrow> updated d0 (evict ?ss d)) \<and>
      count_active uid (evict ?ss d) + length ?ss = count_active uid d"
    using assms sub by (intro evict_updated) (auto dest!: keyed_list_for_user)
  have "length ?ss = min n (count_active uid d)"
    by (simp add: count_active_def count_vals_def list_for_user_def min.commute)
  with * show ?thesis by simp
qed

section \<open>The limit of concurrent sessions\<close>

lemma put_session_updated:
  assumes "keyed d" and "dict_get d sid = Some s" and "se_id s' = se_id s" and "se_user_id s' = se_user_id s"
    and "se_revoked s \<longrightarrow> se_revoked s'"
  shows "updated d (snd (put_session s' d))"
proof -
  have "se_id s = sid" using assms(1,2) by (rule keyed_get)
  with assms show ?thesis
    by (simp add: put_session_def repo_update_in updated_one)
qed

fun creates :: "session_op \<Rightarrow> string option" where
  "creates (SCreate now sid uid tenant device jti) = Some sid"
| "creates _ = None"

lemma other_steps_update:
  assumes "keyed d" and "creates op = None"
  shows "updated d (session_step cfg op d)"
proof (cases op)
  case (STouch now sid)
  then show ?thesis using assms(1)
    by (cases "dict_get d sid")
      (auto simp: final_state_def session_touch_def session_get_def fetch_def andthen_def
        put_session_def intro: updated_refl put_session_updated [unfolded put_session_def, simplified])
next
  case (SValidate now sid)
  then show ?thesis using assms(1)
    by (cases "dict_get d sid")
      (auto simp: final_state_def session_validate_def session_get_def fetch_def andthen_def
        put_session_def intro: updated_refl put_session_updated [unfolded put_session_def, simplified])
next
  case (SRevoke sid)
  then show ?thesis using assms(1)
    by (cases "dict_get d sid")
      (auto simp: final_state_def session_revoke_def session_get_def fetch_def andthen_def
        put_session_def intro: updated_refl put_session_updated [unfolded put_session_def, simplified])
next
  case (SSetJti sid jti)
  then show ?thesis using assms(1)
    by (cases "dict_get d sid")
      (auto simp: final_state_def session_set_jti_def session_get_def fetch_def andthen_def
        put_session_def intro: updated_refl put_session_updated [unfolded put_session_def, simplified])
next
  case (SRevokeAll uid)
  have "updated d (evict (list_for_user uid d) d)"
    using evict_updated [OF assms(1) keyed_distinct [OF assms(1)], of uid uid d]
      keyed_list_for_user [OF assms(1)] updated_refl by blast
  then show ?thesis by (simp add: SRevokeAll final_state_def session_revoke_all_def)
qed (use assms(2) in simp)


lemma create_step:
  assumes "keyed d"
  shows "session_step cfg (SCreate now sid uid tenant device jti) d = d \<or>
    (\<exists>d' s. updated d d' \<and> session_step cfg (SCreate now sid uid tenant device jti) d = dict_set sid s d' \<and>
       se_id s = sid \<and> se_user_id s = uid \<and>
       int (count_active uid d') + 1 \<le> max 1 (ac_max_concurrent_sessions cfg))"
proof -
  let ?lim = "ac_max_concurrent_sessions cfg"
  let ?a = "count_active uid d"
  let ?n = "nat (int ?a - ?lim + 1)"
  let ?s = "\<lparr>se_id = sid, se_user_id = uid, se_tenant_id = tenant, se_device = device, se_created_at = now,
      se_last_active = now, se_expires_at = now + of_int (ac_session_absolute_timeout cfg),
      se_refresh_jti = jti, se_revoked = False\<rparr>"
  let ?e = "evict (take ?n (sort_key se_created_at (list_for_user uid d))) d"
  consider "int ?a < ?lim" | "?lim \<le> int ?a" "ac_evict_oldest_on_limit cfg"
    | "?lim \<le> int ?a" "\<not> ac_evict_oldest_on_limit cfg" by linarith
  then show ?thesis
  proof cases
    case 1
    then have "session_step cfg (SCreate now sid uid tenant device jti) d = dict_set sid ?s d"
      by (simp add: final_state_def session_create_def Let_def)
    moreover have "int ?a + 1 \<le> max 1 ?lim" using 1 by simp
    ultimately show ?thesis using updated_refl
      by (intro disjI2 exI [of _ d] exI [of _ ?s]) simp
  next
    case 2
    then have step: "session_step cfg (SCreate now sid uid tenant device jti) d = dict_set sid ?s ?e"
      by (simp add: final_state_def session_create_def Let_def)
    have e: "updated d ?e" "count_active uid ?e + min ?n ?a = ?a"
      using evict_oldest [OF assms, of d ?n uid] updated_refl by blast+
    have "int (count_active uid ?e) + 1 \<le> max 1 ?lim" using e(2) 2(1) by linarith
    with step e(1) show ?thesis by (intro disjI2 exI [of _ ?e] exI [of _ ?s]) simp
  qed (simp add: final_state_def session_create_def)
qed

definition within_limit :: "auth_config \<Rightarrow> session_store \<Rightarrow> bool" where
  "within_limit cfg d \<longleftrightarrow> (\<forall>uid. int (count_active uid d) \<le> max 1 (ac_max_concurrent_sessions cfg))"

lemma session_step_inv:
  assumes "keyed d" and "within_limit cfg d" and "\<And>sid. creates op = Some sid \<Longrightarrow> dict_get d sid = None"
  shows "keyed (session_step cfg op d) \<and> within_limit cfg (session_step cfg op d)"
proof (cases "creates op")
  case None
  have u: "updated d (session_step cfg op d)" by (rule other_steps_update [OF assms(1) None])
  have "within_limit cfg (session_step cfg op d)"
    unfolding within_limit_def
  proof
    fix uid
    show "int (count_active uid (session_step cfg op d)) \<le> max 1 (ac_max_concurrent_sessions cfg)"
      using updated_count [OF u, of uid] assms(2) unfolding within_limit_def
      by (meson of_nat_mono order_trans)
  qed
  with updated_keyed [OF u assms(1)] show ?thesis by simp
next
  case (Some sid)
  then obtain now uid tenant device jti where op: "op = SCreate now sid uid tenant device jti"
    by (cases op) auto
  have none: "dict_get d sid = None" using assms(3) Some by simp
  from create_step [OF assms(1), of cfg now sid uid tenant device jti] show ?thesis
  proof (elim disjE exE conjE)
    fix d' s
    assume u: "updated d d'" and st: "session_step cfg (SCreate now sid uid tenant device jti) d = dict_set sid s d'"
      and s: "se_id s = sid" "se_user_id s = uid"
      and le: "int (count_active uid d') + 1 \<le> max 1 (ac_max_concurrent_sessions cfg)"
    have none': "dict_get d' sid = None"
      using updated_get [OF u, of sid] none by (cases "dict_get d' sid") auto
    have "int (count_active v (dict_set sid s d')) \<le> max 1 (ac_max_concurrent_sessions cfg)" for v
    proof (cases "v = uid")
      case True
      then show ?thesis using le by (simp add: count_active_def count_vals_new [OF none'])
    next
      case False
      then have "count_active v (dict_set sid s d') = count_active v d'"
        using s by (simp add: count_active_def count_vals_new [OF none'] active_of_def)
      moreover have "int (count_active v d') \<le> max 1 (ac_max_concurrent_sessions cfg)"
        using updated_count [OF u, of v] assms(2) unfolding within_limit_def by (meson of_nat_mono order_trans)
      ultimately show ?thesis by simp
    qed
    then show ?thesis
      using keyed_set [OF updated_keyed [OF u assms(1)] s(1)] unfolding op st within_limit_def by simp
  qed (use assms op in \<open>simp only:\<close>)
qed

text \<open>Session ids are random: a run never creates an id that is still stored.\<close>

fun fresh_ids :: "auth_config \<Rightarrow> session_op list \<Rightarrow> session_store \<Rightarrow> bool" where
  "fresh_ids cfg [] d = True"
| "fresh_ids cfg (op # ops) d =
     ((case creates op of None \<Rightarrow> True | Some sid \<Rightarrow> \<not> dict_has d sid) \<and> fresh_ids cfg ops (session_step cfg op d))"

lemma session_run_inv:
  "keyed d \<Longrightarrow> within_limit cfg d \<Longrightarrow> fresh_ids cfg ops d \<Longrightarrow>
    keyed (fold (session_step cfg) ops d) \<and> within_limit cfg (fold (session_step cfg) ops d)"
proof (induction ops arbitrary: d)
  case (Cons op ops)
  have "keyed (session_step cfg op d) \<and> within_limit cfg (session_step cfg op d)"
    using Cons.prems by (intro session_step_inv) (auto simp: dict_has_def)
  then show ?case using Cons by simp
qed simp


definition demo_session_ops :: "session_op list" where
  "demo_session_ops = [SCreate 1 ''s1'' ''u'' ''t'' ''d'' '''', SCreate 2 ''s2'' ''u'' ''t'' ''d'' '''',
     STouch 3 ''s1'', SCreate 4 ''s3'' ''u'' ''t'' ''d'' '''']"


section \<open>Revoked sessions\<close>

text \<open>A store in which creation finds its id taken is left out: ids are fresh. The invariant is that
  the store is keyed by the ids of its sessions.\<close>

definition session_accepted :: "string \<Rightarrow> session_store \<Rightarrow> bool" where
  "session_accepted sid d \<longleftrightarrow> (\<exists>now. succeeds (session_validate now sid) d)"

lemma step_keeps_keyed:
  assumes "keyed d"
  shows "keyed (session_step cfg op d)"
proof (cases "creates op")
  case None
  show ?thesis by (rule updated_keyed [OF other_steps_update [OF assms None] assms])
next
  case (Some sid)
  then obtain now uid tenant device jti where op: "op = SCreate now sid uid tenant device jti"
    by (cases op) auto
  show ?thesis unfolding op
    using create_step [OF assms, of cfg now sid uid tenant device jti] assms keyed_set updated_keyed by metis
qed

lemma session_step_creds:
  assumes "keyed d" and "p \<in> set (session_step cfg op d)"
  shows "creates op = Some (fst p) \<or> (\<exists>q \<in> set d. fst q = fst p \<and> (se_revoked (snd q) \<longrightarrow> se_revoked (snd p)))"
proof -
  obtain i s' where p: "p = (i, s')" by (cases p)
  have via: "\<exists>q \<in> set d. fst q = fst p \<and> (se_revoked (snd q) \<longrightarrow> se_revoked (snd p))"
    if u: "updated d d'" and mem: "p \<in> set d'" for d'
  proof -
    have "dict_ok d'" using updated_keyed [OF u assms(1)] by (simp add: keyed_def)
    then have "dict_get d' i = Some s'" using mem p by (simp add: dict_ok_getI)
    from updated_get [OF u this] obtain s where s: "dict_get d i = Some s" "se_revoked s \<longrightarrow> se_revoked s'" by blast
    with dict_get_in [OF s(1)] p show ?thesis by (intro bexI [of _ "(i, s)"]) simp_all
  qed
  show ?thesis
  proof (cases "creates op")
    case None
    show ?thesis using via [OF other_steps_update [OF assms(1) None] assms(2)] by simp
  next
    case (Some sid)
    then obtain now uid tenant device jti where op: "op = SCreate now sid uid tenant device jti"
      by (cases op) auto
    from create_step [OF assms(1), of cfg now sid uid tenant device jti] show ?thesis
    proof (elim disjE exE conjE)
      fix d' s
      assume u: "updated d d'" and st: "session_step cfg (SCreate now sid uid tenant device jti) d = dict_set sid s d'"
      then show ?thesis
        using via [OF u] assms(2) in_dict_set_neq [of i sid s'] Some unfolding op st p
        by (cases "i = sid") simp_all
    qed (use via [OF updated_refl] assms(2) op in \<open>simp only: simp_thms\<close>)
  qed
qed

lemma session_accepted_live:
  assumes "session_accepted sid d"
  shows "\<exists>p \<in> set d. fst p = sid \<and> \<not> se_revoked (snd p)"
proof -
  from assms obtain s where "dict_get d sid = Some s" "\<not> se_revoked s"
    by (auto simp: session_accepted_def succeeds_def session_validate_def session_get_def fetch_def andthen_def
        split: option.splits if_splits)
  then show ?thesis by (intro bexI [of _ "(sid, s)"]) (simp_all add: dict_get_in)
qed

interpretation sessions: revocable keyed "\<lambda>d. d" fst "se_revoked \<circ> snd" session_accepted
  "session_step cfg" creates for cfg
proof (unfold_locales, goal_cases)
  case (1 s op)
  then show ?case by (rule step_keeps_keyed)
next
  case (2 s h)
  then show ?case using session_accepted_live [of h s] by simp
next
  case (3 s c' op)
  then show ?case using session_step_creds [of s c' cfg op] by auto
qed

lemma revoked_session_never_validates:
  assumes "keyed d" and "dict_get d sid = Some s" and "se_revoked s"
    and "list_all (\<lambda>op. creates op \<noteq> Some sid) ops"
  shows "\<not> succeeds (session_validate now sid) (fold (session_step cfg) ops d)"
proof -
  have "sessions.all_dead sid d"
    using assms(1-3) by (auto simp: sessions.all_dead_def keyed_def dest: dict_ok_getI)
  from sessions.never_accepted [OF assms(1) this assms(4)] show ?thesis
    unfolding session_accepted_def by blast
qed

end
