(* ===== verification/Base64.thy ===== *)
theory Base64
  imports Prelude
begin

text \<open>
  The base64url transport of tokens (\<open>_b64url_encode\<close> and \<open>_b64url_decode\<close> of
  \<open>src/app/auth/tokens.py\<close>) with the parts of Python's \<open>base64\<close> module that they call. A byte
  string is a list of characters. The decoder is the lenient one of the standard library: it
  skips characters outside the alphabet, and the first complete padding ends the input.
\<close>

definition b64_char :: "nat \<Rightarrow> char" where
  "b64_char n = char_of
    (if n < 26 then n + 65 else if n < 52 then n + 71 else if n < 62 then n - 4
     else if n = 62 then 45 else 95)"

definition b64_value :: "char \<Rightarrow> nat option" where
  "b64_value c = (let n = of_char c :: nat in
     if 65 \<le> n \<and> n \<le> 90 then Some (n - 65)
     else if 97 \<le> n \<and> n \<le> 122 then Some (n - 71)
     else if 48 \<le> n \<and> n \<le> 57 then Some (n + 4)
     else if n = 45 \<or> n = 43 then Some 62
     else if n = 95 \<or> n = 47 then Some 63 else None)"

fun sextets :: "nat list \<Rightarrow> nat list" where
  "sextets [] = []"
| "sextets [a] = [a div 4, a mod 4 * 16]"
| "sextets [a, b] = [a div 4, a mod 4 * 16 + b div 16, b mod 16 * 4]"
| "sextets (a # b # c # bs) =
     a div 4 # (a mod 4 * 16 + b div 16) # (b mod 16 * 4 + c div 64) # c mod 64 # sextets bs"

definition padding :: "nat \<Rightarrow> string" where
  "padding n = replicate (nat (- int n mod 4)) (CHR ''='')"

definition urlsafe_b64encode :: "string \<Rightarrow> string" where
  "urlsafe_b64encode data = (let s = map b64_char (sextets (map of_char data)) in s @ padding (length s))"

definition b64url_encode :: "string \<Rightarrow> string" where
  "b64url_encode data = rev (dropWhile (\<lambda>c. c = CHR ''='') (rev (urlsafe_b64encode data)))"

text \<open>\<open>binascii.a2b_base64\<close>: \<open>q\<close> is the position in the group of four, \<open>l\<close> the bits left over and
  \<open>pads\<close> the padding characters seen in a row.\<close>

fun a2b_base64 :: "nat \<Rightarrow> nat \<Rightarrow> nat \<Rightarrow> string \<Rightarrow> nat list option" where
  "a2b_base64 q l pads [] = (if q = 0 then Some [] else None)"
| "a2b_base64 q l pads (c # s) =
    (if c = CHR ''='' then
       if 2 \<le> q \<and> 4 \<le> q + (pads + 1) then Some []
       else a2b_base64 q l (if 2 \<le> q then pads + 1 else pads) s
     else case b64_value c of
       None \<Rightarrow> a2b_base64 q l pads s
     | Some v \<Rightarrow>
         if q = 0 then a2b_base64 1 v 0 s
         else if q = 1 then map_option (Cons (l * 4 + v div 16)) (a2b_base64 2 (v mod 16) 0 s)
         else if q = 2 then map_option (Cons (l * 16 + v div 4)) (a2b_base64 3 (v mod 4) 0 s)
         else map_option (Cons (l * 64 + v)) (a2b_base64 0 0 0 s))"

definition is_ascii :: "string \<Rightarrow> bool" where
  "is_ascii s \<longleftrightarrow> list_all (\<lambda>c. of_char c < (128 :: nat)) s"

definition b64url_decode :: "string \<Rightarrow> string option" where
  "b64url_decode s =
    (if is_ascii s then map_option (map char_of) (a2b_base64 0 0 0 (s @ padding (length s))) else None)"

lemma of_char_less [simp]: "(of_char c :: nat) < 256"
proof -
  have "(of_char c :: nat) = of_char c mod 256" by simp
  then show ?thesis by (metis mod_less_divisor zero_less_numeral)
qed

lemma sextets_less: "\<forall>b \<in> set bs. b < 256 \<Longrightarrow> n \<in> set (sextets bs) \<Longrightarrow> n < 64"
  by (induction bs rule: sextets.induct) auto

lemma b64_char_code:
  assumes "n < 64"
  shows "(of_char (b64_char n) :: nat) =
    (if n < 26 then n + 65 else if n < 52 then n + 71 else if n < 62 then n - 4
     else if n = 62 then 45 else 95)"
  using assms by (simp add: b64_char_def)

lemma b64_value_char:
  assumes "n < 64"
  shows "b64_value (b64_char n) = Some n"
  using assms unfolding b64_value_def b64_char_code [OF assms] Let_def by auto

lemma b64_char_plain:
  assumes "n < 64"
  shows "b64_char n \<noteq> CHR ''=''" and "b64_char n \<noteq> CHR ''.''" and "of_char (b64_char n) < (128 :: nat)"
proof -
  note code = b64_char_code [OF assms]
  show "of_char (b64_char n) < (128 :: nat)" unfolding code using assms by auto
  have "of_char (b64_char n) \<noteq> (61 :: nat)" "of_char (b64_char n) \<noteq> (46 :: nat)"
    unfolding code using assms by auto
  then show "b64_char n \<noteq> CHR ''=''" "b64_char n \<noteq> CHR ''.''" by auto
qed


lemma b64url_encode_conv: "b64url_encode data = map b64_char (sextets (map of_char data))"
proof -
  let ?s = "map b64_char (sextets (map of_char data))"
  have "CHR ''='' \<notin> set ?s"
  proof
    assume "CHR ''='' \<in> set ?s"
    then obtain n where "n \<in> set (sextets (map of_char data))" "CHR ''='' = b64_char n" by auto
    moreover have "n < 64" using calculation(1) by (rule sextets_less [rotated]) auto
    ultimately show False using b64_char_plain(1) by metis
  qed
  then have "dropWhile (\<lambda>c. c = CHR ''='') (rev ?s) = rev ?s"
    unfolding dropWhile_eq_self_iff by (metis hd_in_set set_rev)
  moreover have "dropWhile (\<lambda>c. c = CHR ''='') (replicate k (CHR ''='') @ xs) = dropWhile (\<lambda>c. c = CHR ''='') xs"
    for k xs by (induction k) auto
  ultimately show ?thesis
    by (simp add: b64url_encode_def urlsafe_b64encode_def padding_def Let_def)
qed

lemma b64url_encode_chars:
  "c \<in> set (b64url_encode data) \<Longrightarrow> c \<noteq> CHR ''.'' \<and> of_char c < (128 :: nat)"
  using b64_char_plain sextets_less [of "map of_char data"] by (auto simp: b64url_encode_conv)

lemma padding_shift: "padding (Suc (Suc (Suc (Suc n)))) = padding n"
proof -
  have "- int (Suc (Suc (Suc (Suc n)))) = - int n + (- 1) * 4" by simp
  then have "- int (Suc (Suc (Suc (Suc n)))) mod 4 = (- int n + (- 1) * 4) mod 4" by (simp only:)
  also have "\<dots> = - int n mod 4" by (rule mod_mult_self1)
  finally show ?thesis by (simp only: padding_def)
qed

lemma a2b_char:
  assumes "n < 64"
  shows "a2b_base64 0 l p (b64_char n # s) = a2b_base64 1 n 0 s"
    and "a2b_base64 1 l p (b64_char n # s) = map_option (Cons (l * 4 + n div 16)) (a2b_base64 2 (n mod 16) 0 s)"
    and "a2b_base64 2 l p (b64_char n # s) = map_option (Cons (l * 16 + n div 4)) (a2b_base64 3 (n mod 4) 0 s)"
    and "a2b_base64 3 l p (b64_char n # s) = map_option (Cons (l * 64 + n)) (a2b_base64 0 0 0 s)"
  using b64_char_plain(1) [OF assms] by (simp_all add: b64_value_char [OF assms])

lemma a2b_quad:
  assumes "a < 64" and "b < 64" and "c < 64" and "d < 64"
  shows "a2b_base64 0 l p (b64_char a # b64_char b # b64_char c # b64_char d # s) =
    map_option (\<lambda>r. (a * 4 + b div 16) # (b mod 16 * 16 + c div 4) # (c mod 4 * 64 + d) # r) (a2b_base64 0 0 0 s)"
  unfolding a2b_char [OF assms(1)] a2b_char [OF assms(2)] a2b_char [OF assms(3)] a2b_char [OF assms(4)]
  by (simp add: option.map_comp comp_def)

lemma a2b_sextets:
  "\<forall>b \<in> set bs. b < 256 \<Longrightarrow>
    a2b_base64 0 l p (map b64_char (sextets bs) @ padding (length (sextets bs))) = Some bs"
proof (induction bs arbitrary: l p rule: sextets.induct)
  case (2 a)
  then have "a div 4 < 64" "a mod 4 * 16 < 64" by auto
  note char = a2b_char [OF this(1)] a2b_char [OF this(2)]
  show ?case unfolding sextets.simps list.map append.simps char by (simp add: padding_def numeral_2_eq_2)
next
  case (3 a b)
  then have "a div 4 < 64" "a mod 4 * 16 + b div 16 < 64" "b mod 16 * 4 < 64" by auto
  note char = a2b_char [OF this(1)] a2b_char [OF this(2)] a2b_char [OF this(3)]
  have "(a mod 4 * 16 + b div 16) div 16 = a mod 4" "(a mod 4 * 16 + b div 16) mod 16 = b div 16"
    using 3 by auto
  then show ?case unfolding sextets.simps list.map append.simps char by (simp add: padding_def)
next
  case (4 a b c bs)
  then have "a div 4 < 64" "a mod 4 * 16 + b div 16 < 64" "b mod 16 * 4 + c div 64 < 64" "c mod 64 < 64"
    by auto
  note quad = a2b_quad [OF this]
  have tail: "a2b_base64 0 0 0 (map b64_char (sextets bs) @ padding (length (sextets bs))) = Some bs"
    using 4 by simp
  have "(a mod 4 * 16 + b div 16) div 16 = a mod 4" "(a mod 4 * 16 + b div 16) mod 16 = b div 16"
    "(b mod 16 * 4 + c div 64) div 4 = b mod 16" "(b mod 16 * 4 + c div 64) mod 4 = c div 64"
    using 4(2) by auto
  moreover have "padding (length (sextets (a # b # c # bs))) = padding (length (sextets bs))"
    by (simp add: padding_shift)
  ultimately show ?case unfolding sextets.simps list.map append.simps quad by (simp add: tail)
qed (simp add: padding_def)

lemma b64url_decode_encode: "b64url_decode (b64url_encode data) = Some data"
proof -
  have "is_ascii (b64url_encode data)"
    using b64url_encode_chars by (simp add: is_ascii_def list_all_iff)
  moreover have "a2b_base64 0 0 0 (b64url_encode data @ padding (length (b64url_encode data))) =
      Some (map of_char data)"
    unfolding b64url_encode_conv length_map by (rule a2b_sextets) simp
  ultimately show ?thesis by (simp add: b64url_decode_def comp_def)
qed

text \<open>Every byte string survives the base64url transport of tokens: the decoder returns it although
  the encoder drops the padding, and the text in between has no dot, so it can be framed with dots.\<close>

theorem b64url_round_trip:
  "b64url_decode (b64url_encode data) = Some data \<and> CHR ''.'' \<notin> set (b64url_encode data)"
  using b64url_decode_encode b64url_encode_chars by blast

end
