(* ===== verification/Json.thy ===== *)
theory Json
  imports Prelude
begin

text \<open>Values of \<open>json.loads\<close>, as they are passed around and stored.\<close>

datatype json =
    JNull
  | JBool bool
  | JNum pyfloat
  | JStr string
  | JList "json list"
  | JObj "(string \<times> json) list"

end
