(* ===== verification/Tokens.thy ===== *)
theory Tokens
  imports Credentials Base64 "HOL-Library.Countable" Json
begin

text \<open>
  Signed tokens (\<open>src/app/auth/tokens.py\<close>): the store of signing keys, the denylist and the
  manager that issues, parses, validates, revokes and rotates tokens. HMAC-SHA256, the JSON
  module, the derivation of key ids and Python's conversions \<open>str\<close> and \<open>float\<close> of JSON values
  that are not already of that type are the fields of \<open>token_env\<close>; the codec law that the round trip
  needs is a hypothesis of its theorem. Base64 and the framing of a token are computed.
\<close>

record token_env =
  te_mac :: "string \<Rightarrow> string \<Rightarrow> string"
  te_dumps :: "json \<Rightarrow> string"
  te_loads :: "string \<Rightarrow> json option"
  te_kid :: "string \<Rightarrow> pyfloat \<Rightarrow> string"
  te_str :: "json \<Rightarrow> string"
  te_float :: "string \<Rightarrow> pyfloat option"

section \<open>Signing keys\<close>

record signing_key =
  sk_kid :: string
  sk_key :: string
  sk_created_at :: pyfloat

definition new_key :: "token_env \<Rightarrow> pyfloat \<Rightarrow> string \<Rightarrow> signing_key" where
  "new_key te now secret = \<lparr>sk_kid = te_kid te secret now, sk_key = secret, sk_created_at = now\<rparr>"

definition key_history :: "auth_config \<Rightarrow> nat" where
  "key_history cfg = nat (max (ac_max_key_history cfg) 1)"

definition keys_init :: "token_env \<Rightarrow> pyfloat \<Rightarrow> string \<Rightarrow> signing_key list" where
  "keys_init te now secret = [new_key te now secret]"

fun trim_keys :: "nat \<Rightarrow> signing_key list \<Rightarrow> signing_key list" where
  "trim_keys n ks = (if n < length ks then trim_keys n (butlast ks) else ks)"

definition keys_rotate :: "token_env \<Rightarrow> auth_config \<Rightarrow> pyfloat \<Rightarrow> string \<Rightarrow> signing_key list \<Rightarrow> signing_key list" where
  "keys_rotate te cfg now secret ks = trim_keys (key_history cfg) (new_key te now secret # ks)"

definition should_rotate :: "int \<Rightarrow> pyfloat \<Rightarrow> signing_key list \<Rightarrow> bool" where
  "should_rotate rotation_seconds now ks \<longleftrightarrow> of_int rotation_seconds \<le> now - sk_created_at (hd ks)"

definition keys_get :: "json \<Rightarrow> signing_key list \<Rightarrow> string option" where
  "keys_get kid ks = map_option sk_key (find (\<lambda>e. JStr (sk_kid e) = kid) ks)"

section \<open>The denylist\<close>

type_synonym denylist = "(string, pyfloat) dict"

definition deny :: "string \<Rightarrow> pyfloat \<Rightarrow> denylist \<Rightarrow> denylist" where
  "deny jti until d = dict_set jti until d"

definition is_revoked :: "string \<Rightarrow> pyfloat \<Rightarrow> denylist \<Rightarrow> bool \<times> denylist" where
  "is_revoked jti now d = (let d' = filter (\<lambda>(j, until). \<not> until < now) d in (dict_has d' jti, d'))"

section \<open>Claims\<close>

record token_claims =
  tc_sub :: string
  tc_tenant_id :: string
  tc_roles :: "json list"
  tc_type :: string
  tc_jti :: string
  tc_session_id :: string
  tc_iat :: pyfloat
  tc_exp :: pyfloat

definition json_get :: "(string \<times> json) list \<Rightarrow> string \<Rightarrow> json \<Rightarrow> json" where
  "json_get p k dflt = dict_get_or p k dflt"

fun json_str :: "token_env \<Rightarrow> json \<Rightarrow> string" where
  "json_str te (JStr s) = s"
| "json_str te j = te_str te j"

fun json_float :: "token_env \<Rightarrow> json \<Rightarrow> auth_error + pyfloat" where
  "json_float te (JNum r) = Inr r"
| "json_float te (JBool b) = Inr (of_bool b)"
| "json_float te (JStr s) = (case te_float te s of None \<Rightarrow> Inl (PyError ''ValueError'') | Some r \<Rightarrow> Inr r)"
| "json_float te _ = Inl (PyError ''TypeError'')"

fun json_list :: "json \<Rightarrow> auth_error + json list" where
  "json_list (JList js) = Inr js"
| "json_list (JStr s) = Inr (map (\<lambda>c. JStr [c]) s)"
| "json_list (JObj kvs) = Inr (map (JStr \<circ> fst) kvs)"
| "json_list _ = Inl (PyError ''TypeError'')"

definition claims_from_dict :: "token_env \<Rightarrow> (string \<times> json) list \<Rightarrow> auth_error + token_claims" where
  "claims_from_dict te p =
    bind_result (json_list (json_get p ''roles'' (JList []))) (\<lambda>roles.
    bind_result (json_float te (json_get p ''iat'' (JNum 0))) (\<lambda>iat.
    bind_result (json_float te (json_get p ''exp'' (JNum 0))) (\<lambda>exp.
      Inr \<lparr>tc_sub = json_str te (json_get p ''sub'' (JStr '''')),
           tc_tenant_id = json_str te (json_get p ''tenant_id'' (JStr '''')), tc_roles = roles,
           tc_type = json_str te (json_get p ''type'' (JStr ''access'')),
           tc_jti = json_str te (json_get p ''jti'' (JStr '''')),
           tc_session_id = json_str te (json_get p ''sid'' (JStr '''')), tc_iat = iat, tc_exp = exp\<rparr>)))"

section \<open>The token manager\<close>

record jwt =
  jw_keys :: "signing_key list"
  jw_denylist :: denylist

type_synonym 'a jwt_prog = "(jwt, auth_error, 'a) prog"

definition encode_part :: "token_env \<Rightarrow> json \<Rightarrow> string" where
  "encode_part te j = b64url_encode (te_dumps te j)"

definition decode_part :: "token_env \<Rightarrow> string \<Rightarrow> json option" where
  "decode_part te s = Option.bind (b64url_decode s) (te_loads te)"

definition sign :: "token_env \<Rightarrow> string \<Rightarrow> string \<Rightarrow> string \<Rightarrow> string" where
  "sign te header body key = b64url_encode (te_mac te key (header @ ''.'' @ body))"

text \<open>The claims as \<open>issue\<close> writes them: a time or id that is missing is filled in.\<close>

definition filled :: "auth_config \<Rightarrow> pyfloat \<Rightarrow> string \<Rightarrow> token_claims \<Rightarrow> token_claims" where
  "filled cfg now fresh c =
    (let iat = (if tc_iat c \<noteq> 0 then tc_iat c else now)
     in c\<lparr>tc_iat := iat, tc_exp := (if tc_exp c \<noteq> 0 then tc_exp c else iat + of_int (ac_access_token_ttl cfg)),
          tc_jti := (if tc_jti c \<noteq> '''' then tc_jti c else fresh)\<rparr>)"

definition claims_dict :: "token_claims \<Rightarrow> (string \<times> json) list" where
  "claims_dict c =
    [(''sub'', JStr (tc_sub c)), (''type'', JStr (tc_type c)), (''jti'', JStr (tc_jti c)),
     (''sid'', JStr (tc_session_id c)), (''tenant_id'', JStr (tc_tenant_id c)), (''roles'', JList (tc_roles c)),
     (''iat'', JNum (tc_iat c)), (''exp'', JNum (tc_exp c))]"

definition issue :: "token_env \<Rightarrow> auth_config \<Rightarrow> pyfloat \<Rightarrow> string \<Rightarrow> token_claims \<Rightarrow> string jwt_prog" where
  "issue te cfg now fresh c =
    andthen (gets (\<lambda>s. hd (jw_keys s))) (\<lambda>k.
      let header = encode_part te (JObj [(''alg'', JStr ''HS256''), (''typ'', JStr ''JWT''), (''kid'', JStr (sk_kid k))]);
          payload = encode_part te (JObj (claims_dict (filled cfg now fresh c)))
      in ret (header @ ''.'' @ payload @ ''.'' @ sign te header payload (sk_key k)))"

fun as_object :: "json option \<Rightarrow> (string \<times> json) list option" where
  "as_object (Some (JObj p)) = Some p"
| "as_object _ = None"

definition check_signature ::
  "token_env \<Rightarrow> signing_key list \<Rightarrow> string \<Rightarrow> string \<Rightarrow> string \<Rightarrow> (string \<times> json) list \<Rightarrow> auth_error + unit" where
  "check_signature te ks header_raw body_raw signature header =
    (case keys_get (json_get header ''kid'' (JStr '''')) ks of
       None \<Rightarrow> Inl (InvalidToken ''Unknown signing key'')
     | Some key \<Rightarrow>
         if \<not> is_ascii signature then Inl (PyError ''TypeError'')
         else if sign te header_raw body_raw key \<noteq> signature then Inl (InvalidToken ''Invalid signature'')
         else Inr ())"

definition parse_parts ::
  "token_env \<Rightarrow> signing_key list \<Rightarrow> string \<Rightarrow> string \<Rightarrow> string \<Rightarrow> auth_error + (string \<times> json) list" where
  "parse_parts te ks header_raw body_raw signature =
    (if decode_part te header_raw = None then Inl (InvalidToken ''Malformed token'')
     else case as_object (decode_part te body_raw) of
       None \<Rightarrow> Inl (InvalidToken ''Malformed token'')
     | Some payload \<Rightarrow>
         (case as_object (decode_part te header_raw) of
            None \<Rightarrow> Inl (PyError ''AttributeError'')
          | Some header \<Rightarrow>
              bind_result (check_signature te ks header_raw body_raw signature header) (\<lambda>_. Inr payload)))"

definition parse_token :: "token_env \<Rightarrow> signing_key list \<Rightarrow> string \<Rightarrow> auth_error + (string \<times> json) list" where
  "parse_token te ks token =
    (case split_on (CHR ''.'') token of
       [header_raw, body_raw, signature] \<Rightarrow> parse_parts te ks header_raw body_raw signature
     | _ \<Rightarrow> Inl (InvalidToken ''Malformed token''))"

definition read_claims :: "token_env \<Rightarrow> string \<Rightarrow> token_claims jwt_prog" where
  "read_claims te token =
    andthen (gets jw_keys) (\<lambda>ks. lift_result (bind_result (parse_token te ks token) (claims_from_dict te)))"

definition check_denylist :: "string \<Rightarrow> pyfloat \<Rightarrow> bool jwt_prog" where
  "check_denylist jti now =
    andthen (gets (\<lambda>s. is_revoked jti now (jw_denylist s))) (\<lambda>(revoked, d).
    andthen (modify (jw_denylist_update (\<lambda>_. d))) (\<lambda>_. ret revoked))"

definition token_validate :: "token_env \<Rightarrow> pyfloat \<Rightarrow> string \<Rightarrow> string \<Rightarrow> token_claims jwt_prog" where
  "token_validate te now token ty =
    andthen (read_claims te token) (\<lambda>c.
    andthen (require (tc_type c = ty) (InvalidToken (''Expected '' @ ty @ '' token''))) (\<lambda>_.
    andthen (require (\<not> tc_exp c \<le> now) TokenExpired) (\<lambda>_.
    andthen (check_denylist (tc_jti c) now) (\<lambda>revoked.
    andthen (require (\<not> revoked) TokenRevoked) (\<lambda>_. ret c)))))"

record token_pair =
  tp_access_token :: string
  tp_refresh_token :: string
  tp_access_jti :: string
  tp_refresh_jti :: string
  tp_expires_in :: int

definition issue_pair ::
  "token_env \<Rightarrow> auth_config \<Rightarrow> pyfloat \<Rightarrow> string \<Rightarrow> string \<Rightarrow> string \<Rightarrow> string \<Rightarrow> json list \<Rightarrow> string
    \<Rightarrow> token_pair jwt_prog" where
  "issue_pair te cfg now access_jti refresh_jti uid tenant roles sid =
    (let ac = \<lparr>tc_sub = uid, tc_tenant_id = tenant, tc_roles = roles, tc_type = ''access'', tc_jti = access_jti,
               tc_session_id = sid, tc_iat = now, tc_exp = now + of_int (ac_access_token_ttl cfg)\<rparr>;
         rc = \<lparr>tc_sub = uid, tc_tenant_id = tenant, tc_roles = roles, tc_type = ''refresh'', tc_jti = refresh_jti,
               tc_session_id = sid, tc_iat = now, tc_exp = now + of_int (ac_refresh_token_ttl cfg)\<rparr>
     in andthen (issue te cfg now access_jti ac) (\<lambda>access.
        andthen (issue te cfg now refresh_jti rc) (\<lambda>refresh.
          ret \<lparr>tp_access_token = access, tp_refresh_token = refresh, tp_access_jti = access_jti,
               tp_refresh_jti = refresh_jti, tp_expires_in = ac_access_token_ttl cfg\<rparr>)))"

definition deny_claims :: "token_claims \<Rightarrow> unit jwt_prog" where
  "deny_claims c = modify (\<lambda>s. s\<lparr>jw_denylist := deny (tc_jti c) (tc_exp c) (jw_denylist s)\<rparr>)"

definition revoke_token :: "token_env \<Rightarrow> string \<Rightarrow> string jwt_prog" where
  "revoke_token te token =
    andthen (read_claims te token) (\<lambda>c. andthen (deny_claims c) (\<lambda>_. ret (tc_jti c)))"

definition rotate_pair ::
  "token_env \<Rightarrow> auth_config \<Rightarrow> pyfloat \<Rightarrow> string \<Rightarrow> string \<Rightarrow> string \<Rightarrow> string \<Rightarrow> token_pair jwt_prog" where
  "rotate_pair te cfg now access_jti refresh_jti token sid =
    andthen (token_validate te now token ''refresh'') (\<lambda>c.
    andthen (deny_claims c) (\<lambda>_.
      issue_pair te cfg now access_jti refresh_jti (tc_sub c) (tc_tenant_id c) (tc_roles c) sid))"

definition rotate_keys :: "token_env \<Rightarrow> auth_config \<Rightarrow> pyfloat \<Rightarrow> string \<Rightarrow> string jwt_prog" where
  "rotate_keys te cfg now secret =
    andthen (modify (jw_keys_update (keys_rotate te cfg now secret))) (\<lambda>_. gets (\<lambda>s. sk_kid (hd (jw_keys s))))"


section \<open>A token survives the rotation of keys\<close>

declare trim_keys.simps [simp del]

lemma trim_keys_take: "trim_keys n ks = take n ks"
proof (induction n ks rule: trim_keys.induct)
  case (1 n ks)
  show ?case
    by (subst trim_keys.simps) (use 1 in \<open>auto simp: take_butlast\<close>)
qed

lemma keys_get_skip:
  "\<forall>e \<in> set new. sk_kid e \<noteq> sk_kid k \<Longrightarrow> keys_get (JStr (sk_kid k)) (new @ k # ks) = Some (sk_key k)"
  by (induction new) (auto simp: keys_get_def)

lemma encode_part_plain: "CHR ''.'' \<notin> set (encode_part te j)" "CHR ''.'' \<notin> set (sign te h b key)"
  "is_ascii (sign te h b key)"
  using b64url_encode_chars by (auto simp: encode_part_def sign_def is_ascii_def list_all_iff)

lemma decode_encode_part: "te_loads te (te_dumps te j) = Some j \<Longrightarrow> decode_part te (encode_part te j) = Some j"
  by (simp add: decode_part_def encode_part_def b64url_decode_encode)


lemma claims_dict_from: "claims_from_dict te (claims_dict c) = Inr c"
  by (simp add: claims_from_dict_def claims_dict_def json_get_def dict_get_or_def)

definition codec_ok :: "token_env \<Rightarrow> bool" where
  "codec_ok te \<longleftrightarrow> (\<forall>kvs. te_loads te (te_dumps te (JObj kvs)) = Some (JObj kvs))"

lemma parse_issued:
  assumes "codec_ok te" and "jw_keys s = k # ks" and "issue te cfg now fresh c s = (Inr token, s')"
    and "keys_get (JStr (sk_kid k)) ks' = Some (sk_key k)"
  shows "bind_result (parse_token te ks' token) (claims_from_dict te) = Inr (filled cfg now fresh c)"
proof -
  let ?h = "encode_part te (JObj [(''alg'', JStr ''HS256''), (''typ'', JStr ''JWT''), (''kid'', JStr (sk_kid k))])"
  let ?b = "encode_part te (JObj (claims_dict (filled cfg now fresh c)))"
  have token: "token = ?h @ ''.'' @ ?b @ ''.'' @ sign te ?h ?b (sk_key k)"
    using assms(2,3) by (simp add: issue_def Let_def)
  have "split_on (CHR ''.'') token = [?h, ?b, sign te ?h ?b (sk_key k)]"
    unfolding token by (simp add: split_on_append split_on_no_sep_id encode_part_plain)
  then have "parse_token te ks' token = Inr (claims_dict (filled cfg now fresh c))"
    using assms(1,4)
    by (simp add: parse_token_def parse_parts_def check_signature_def decode_encode_part codec_ok_def json_get_def
        dict_get_or_def encode_part_plain)
  then show ?thesis by (simp add: claims_dict_from)
qed

fun rotations :: "token_env \<Rightarrow> auth_config \<Rightarrow> (pyfloat \<times> string) list \<Rightarrow> jwt \<Rightarrow> jwt" where
  "rotations te cfg [] s = s"
| "rotations te cfg ((now, secret) # rest) s =
     rotations te cfg rest (final_state (rotate_keys te cfg now secret) s)"

lemma rotations_keys:
  assumes "length new + length rots < key_history cfg" and "jw_keys s = take (key_history cfg) (new @ k # ks)"
    and "\<forall>e \<in> set new. sk_kid e \<noteq> sk_kid k"
    and "list_all (\<lambda>(t, secret). te_kid te secret t \<noteq> sk_kid k) rots"
  shows "keys_get (JStr (sk_kid k)) (jw_keys (rotations te cfg rots s)) = Some (sk_key k) \<and>
    jw_denylist (rotations te cfg rots s) = jw_denylist s"
  using assms
proof (induction rots arbitrary: new s)
  case Nil
  then obtain n where "key_history cfg - length new = Suc n" by (auto dest: less_imp_Suc_add)
  then have "jw_keys s = new @ k # take n ks" using Nil(2,3) by simp
  then show ?case using Nil by (simp add: keys_get_skip)
next
  case (Cons r rots)
  obtain t secret where r: "r = (t, secret)" by (cases r)
  let ?s = "final_state (rotate_keys te cfg t secret) s"
  have "jw_keys ?s = take (key_history cfg) (new_key te t secret # take (key_history cfg) (new @ k # ks))"
    using Cons.prems(2) by (simp add: final_state_def rotate_keys_def keys_rotate_def trim_keys_take)
  also have "\<dots> = take (key_history cfg) ((new_key te t secret # new) @ k # ks)"
    by (cases "key_history cfg") (simp_all add: min_def)
  finally have "keys_get (JStr (sk_kid k)) (jw_keys (rotations te cfg rots ?s)) = Some (sk_key k) \<and>
      jw_denylist (rotations te cfg rots ?s) = jw_denylist ?s"
    using Cons.prems r by (intro Cons.IH [of "new_key te t secret # new"]) (auto simp: new_key_def)
  then show ?case by (simp add: r final_state_def rotate_keys_def)
qed

text \<open>C18. A token that was issued validates to the very claims it was issued for, as long as it has not
  expired and its id is not on the denylist, also after any number of key rotations below the
  length of the key history.\<close>

theorem token_survives_rotations:
  assumes "codec_ok te" and "jw_keys s = k # ks" and "length (k # ks) \<le> key_history cfg"
    and "issue te cfg now fresh c s = (Inr token, s')"
    and "length rots < key_history cfg" and "list_all (\<lambda>(t, secret). te_kid te secret t \<noteq> sk_kid k) rots"
    and "later < tc_exp (filled cfg now fresh c)" and "\<not> dict_has (jw_denylist s) (tc_jti (filled cfg now fresh c))"
  shows "fst (token_validate te later token (tc_type c) (rotations te cfg rots s')) = Inr (filled cfg now fresh c)"
proof -
  let ?c = "filled cfg now fresh c" and ?r = "rotations te cfg rots s'"
  have s': "s' = s" using assms(4) by (simp add: issue_def Let_def)
  have "keys_get (JStr (sk_kid k)) (jw_keys ?r) = Some (sk_key k) \<and> jw_denylist ?r = jw_denylist s"
    using rotations_keys [of "[]" rots cfg s k ks te] assms(2,3,5,6) s' by simp
  moreover from this have "read_claims te token ?r = (Inr ?c, ?r)"
    using parse_issued [OF assms(1,2,4)] by (simp add: read_claims_def)
  moreover have "\<not> dict_has (filter (\<lambda>(j, until). \<not> until < later) (jw_denylist s)) (tc_jti ?c)"
    using assms(8) by (auto simp: dict_has_keys)
  moreover have "tc_type ?c = tc_type c" by (simp add: filled_def Let_def)
  ultimately show ?thesis
    using assms(7) by (simp add: token_validate_def check_denylist_def is_revoked_def)
qed


text \<open>An environment with a codec that inverts, for the instances of these theorems: JSON values are
  countable.\<close>

instance json :: countable
  by countable_datatype

definition demo_env :: token_env where
  "demo_env = \<lparr>te_mac = (\<lambda>key msg. key @ msg), te_dumps = (\<lambda>j. replicate (to_nat j) (CHR ''x'')),
     te_loads = (\<lambda>s. Some (from_nat (length s))), te_kid = (\<lambda>secret t. secret), te_str = (\<lambda>_. ''''),
     te_float = (\<lambda>_. None)\<rparr>"

lemma demo_codec: "codec_ok demo_env"
  by (simp add: codec_ok_def demo_env_def)

definition demo_jwt :: jwt where
  "demo_jwt = \<lparr>jw_keys = [\<lparr>sk_kid = ''k0'', sk_key = ''k0'', sk_created_at = 0\<rparr>], jw_denylist = [(''other'', 9)]\<rparr>"

definition demo_claims :: token_claims where
  "demo_claims = \<lparr>tc_sub = ''u'', tc_tenant_id = ''t'', tc_roles = [JStr ''admin''], tc_type = ''refresh'',
     tc_jti = '''', tc_session_id = ''s1'', tc_iat = 0, tc_exp = 100\<rparr>"

definition demo_token :: string where
  "demo_token = (case fst (issue demo_env default_auth_config 5 ''j1'' demo_claims demo_jwt) of Inr t \<Rightarrow> t | Inl _ \<Rightarrow> '''')"

lemma demo_issue: "issue demo_env default_auth_config 5 ''j1'' demo_claims demo_jwt = (Inr demo_token, demo_jwt)"
  by (simp add: demo_token_def issue_def Let_def)

theorem token_survives_rotations_witness:
  "fst (token_validate demo_env 50 demo_token ''refresh''
     (rotations demo_env default_auth_config [(6, ''k1''), (7, ''k2'')] demo_jwt)) =
   Inr (demo_claims\<lparr>tc_iat := 5, tc_jti := ''j1''\<rparr>)"
proof -
  have "fst (token_validate demo_env 50 demo_token (tc_type demo_claims)
     (rotations demo_env default_auth_config [(6, ''k1''), (7, ''k2'')] demo_jwt)) =
     Inr (filled default_auth_config 5 ''j1'' demo_claims)"
    by (rule token_survives_rotations [OF demo_codec _ _ demo_issue,
          where k = "\<lparr>sk_kid = ''k0'', sk_key = ''k0'', sk_created_at = 0\<rparr>" and ks = "[]"])
      (simp_all add: demo_jwt_def demo_env_def demo_claims_def key_history_def default_auth_config_def
        filled_def dict_has_def)
  then show ?thesis by (simp add: filled_def demo_claims_def)
qed

section \<open>Revoked and used tokens\<close>

datatype token_op =
    TIssue pyfloat string token_claims
  | TValidate pyfloat string string
  | TPair pyfloat string string string string "json list" string
  | TRevoke string
  | TRotatePair pyfloat string string string string
  | TRotateKeys pyfloat string

fun token_step :: "token_env \<Rightarrow> auth_config \<Rightarrow> token_op \<Rightarrow> jwt \<Rightarrow> jwt" where
  "token_step te cfg (TIssue now fresh c) s = final_state (issue te cfg now fresh c) s"
| "token_step te cfg (TValidate now token ty) s = final_state (token_validate te now token ty) s"
| "token_step te cfg (TPair now aj rj uid tenant roles sid) s =
     final_state (issue_pair te cfg now aj rj uid tenant roles sid) s"
| "token_step te cfg (TRevoke token) s = final_state (revoke_token te token) s"
| "token_step te cfg (TRotatePair now aj rj token sid) s = final_state (rotate_pair te cfg now aj rj token sid) s"
| "token_step te cfg (TRotateKeys now secret) s = final_state (rotate_keys te cfg now secret) s"

text \<open>The claims written in a token, whoever signed it.\<close>

definition unsigned_claims :: "token_env \<Rightarrow> string \<Rightarrow> token_claims option" where
  "unsigned_claims te token =
    (case split_on (CHR ''.'') token of
       [h, b, sg] \<Rightarrow>
         (case as_object (decode_part te b) of
            Some p \<Rightarrow> (case claims_from_dict te p of Inr c \<Rightarrow> Some c | Inl _ \<Rightarrow> None)
          | None \<Rightarrow> None)
     | _ \<Rightarrow> None)"

lemma parse_token_body:
  assumes "parse_token te ks token = Inr p"
  obtains h b sg where "split_on (CHR ''.'') token = [h, b, sg]" "as_object (decode_part te b) = Some p"
proof -
  from assms obtain h b sg where sp: "split_on (CHR ''.'') token = [h, b, sg]"
    and pp: "parse_parts te ks h b sg = Inr p"
    unfolding parse_token_def by (auto split: list.splits)
  then have "as_object (decode_part te b) = Some p"
    unfolding parse_parts_def by (auto simp: bind_result_eq_Inr split: if_splits option.splits)
  with sp that show ?thesis by blast
qed

lemma read_claims_unsigned:
  assumes "read_claims te token s = (Inr c, s')"
  shows "unsigned_claims te token = Some c" and "s' = s"
proof -
  have "read_claims te token s = (bind_result (parse_token te (jw_keys s) token) (claims_from_dict te), s)"
    by (simp add: read_claims_def)
  then have "(bind_result (parse_token te (jw_keys s) token) (claims_from_dict te), s) = (Inr c, s')"
    using assms by metis
  then have r: "bind_result (parse_token te (jw_keys s) token) (claims_from_dict te) = Inr c" and st: "s' = s"
    by blast+
  show "s' = s" by (fact st)
  from r obtain p where p: "parse_token te (jw_keys s) token = Inr p" "claims_from_dict te p = Inr c"
    unfolding bind_result_eq_Inr by blast
  from p(1) obtain h b sg where "split_on (CHR ''.'') token = [h, b, sg]" "as_object (decode_part te b) = Some p"
    by (rule parse_token_body)
  with p(2) show "unsigned_claims te token = Some c" by (simp add: unsigned_claims_def)
qed

lemma read_claims_state: "snd (read_claims te token s) = s"
  by (simp add: read_claims_def)

lemma validate_unsigned:
  assumes "token_validate te now token ty s = (Inr c, s')"
  shows "unsigned_claims te token = Some c"
proof -
  obtain r u where rd: "read_claims te token s = (r, u)" by fastforce
  with assms obtain c2 where r: "r = Inr c2" by (cases r) (auto simp: token_validate_def)
  with rd assms have "c2 = c"
    by (auto simp: token_validate_def check_denylist_def case_prod_beta andthen_def split: if_splits)
  then show ?thesis using read_claims_unsigned(1) [of te token s c2 u] rd r by simp
qed

text \<open>A token id stays denied: its entry is there with an end no earlier than the expiry of the token,
  or the token has expired.\<close>

definition denied :: "string \<Rightarrow> pyfloat \<Rightarrow> pyfloat \<Rightarrow> jwt \<Rightarrow> bool" where
  "denied jti expiry now s \<longleftrightarrow> expiry < now \<or> (\<exists>u. dict_get (jw_denylist s) jti = Some u \<and> expiry \<le> u)"

fun op_ok :: "token_env \<Rightarrow> string \<Rightarrow> pyfloat \<Rightarrow> pyfloat \<Rightarrow> token_op \<Rightarrow> bool" where
  "op_ok te jti expiry now (TValidate t token ty) = (t \<le> now)"
| "op_ok te jti expiry now (TRotatePair t aj rj token sid) =
     (t \<le> now \<and> (case unsigned_claims te token of Some c \<Rightarrow> tc_jti c = jti \<longrightarrow> expiry \<le> tc_exp c | None \<Rightarrow> True))"
| "op_ok te jti expiry now (TRevoke token) =
     (case unsigned_claims te token of Some c \<Rightarrow> tc_jti c = jti \<longrightarrow> expiry \<le> tc_exp c | None \<Rightarrow> True)"
| "op_ok te jti expiry now _ = True"


lemma denied_purge:
  assumes "denied jti expiry now s" and "t \<le> now" and "dict_ok (jw_denylist s)"
  shows "denied jti expiry now (s\<lparr>jw_denylist := snd (is_revoked j t (jw_denylist s))\<rparr>)"
  using assms by (auto simp: denied_def is_revoked_def Let_def dict_get_filter)

lemma denied_deny:
  "denied jti expiry now s \<Longrightarrow> tc_jti c = jti \<longrightarrow> expiry \<le> tc_exp c \<Longrightarrow>
    denied jti expiry now (s\<lparr>jw_denylist := deny (tc_jti c) (tc_exp c) (jw_denylist s)\<rparr>)"
  by (auto simp: denied_def deny_def)

definition keeps_denied :: "string \<Rightarrow> pyfloat \<Rightarrow> pyfloat \<Rightarrow> jwt \<Rightarrow> bool" where
  "keeps_denied jti expiry now s \<longleftrightarrow> dict_ok (jw_denylist s) \<and> denied jti expiry now s"

lemma issue_state: "snd (issue te cfg now fresh c s) = s" "snd (issue_pair te cfg now aj rj uid tenant roles sid s) = s"
  by (simp_all add: issue_def issue_pair_def Let_def)

lemma read_claims_keeps: "triple P (read_claims te token) (\<lambda>c s. P s \<and> unsigned_claims te token = Some c) (\<lambda>_. P)"
proof (rule tripleI)
  fix s c s'
  assume "P s" "read_claims te token s = (Inr c, s')"
  with read_claims_unsigned [OF this(2)] show "P s' \<and> unsigned_claims te token = Some c" by simp
next
  fix s e s'
  assume "P s" "read_claims te token s = (Inl e, s')"
  with read_claims_state [of te token s] show "P s'" by simp
qed

lemma check_denylist_keeps: "t \<le> now \<Longrightarrow> keeps (keeps_denied jti expiry now) (check_denylist j t)"
  by (rule tripleI)
    (auto simp: check_denylist_def keeps_denied_def is_revoked_def Let_def
      dest!: denied_purge [of jti expiry now _ t j, unfolded is_revoked_def Let_def snd_conv])


lemma validate_keeps:
  assumes "t \<le> now"
  shows "triple (keeps_denied jti expiry now) (token_validate te t token ty)
    (\<lambda>c s. unsigned_claims te token = Some c \<and> keeps_denied jti expiry now s) (\<lambda>_. keeps_denied jti expiry now)"
proof -
  let ?I = "keeps_denied jti expiry now"
  have body: "triple ?I (andthen (check_denylist (tc_jti c) t) (\<lambda>revoked.
      andthen (require (\<not> revoked) TokenRevoked) (\<lambda>_. ret c)))
      (\<lambda>a s. a = c \<and> ?I s) (\<lambda>_. ?I)" for c
    by (rule triple_andthen [OF check_denylist_keeps [OF assms]])
      (auto intro!: triple_andthen [where R = "\<lambda>_. ?I"] triple_require triple_basic)
  show ?thesis unfolding token_validate_def
  proof (rule triple_andthen [OF read_claims_keeps])
    fix c :: token_claims
    have "triple ?I (andthen (require (tc_type c = ty) (InvalidToken (''Expected '' @ ty @ '' token''))) (\<lambda>_.
        andthen (require (\<not> tc_exp c \<le> t) TokenExpired) (\<lambda>_.
        andthen (check_denylist (tc_jti c) t) (\<lambda>revoked.
        andthen (require (\<not> revoked) TokenRevoked) (\<lambda>_. ret c))))) (\<lambda>a s. a = c \<and> ?I s) (\<lambda>_. ?I)"
      by (rule triple_andthen [where R = "\<lambda>_. ?I"], simp add: triple_require,
          rule triple_andthen [where R = "\<lambda>_. ?I"], simp add: triple_require, rule body)
    then show "triple (\<lambda>s. ?I s \<and> unsigned_claims te token = Some c)
        (andthen (require (tc_type c = ty) (InvalidToken (''Expected '' @ ty @ '' token''))) (\<lambda>_.
        andthen (require (\<not> tc_exp c \<le> t) TokenExpired) (\<lambda>_.
        andthen (check_denylist (tc_jti c) t) (\<lambda>revoked.
        andthen (require (\<not> revoked) TokenRevoked) (\<lambda>_. ret c)))))
        (\<lambda>a s. unsigned_claims te token = Some a \<and> ?I s) (\<lambda>_. ?I)"
      unfolding triple_def by (fastforce split: sum.splits prod.splits)
  qed
qed

lemma deny_claims_keeps:
  "tc_jti c = jti \<longrightarrow> expiry \<le> tc_exp c \<Longrightarrow> keeps (keeps_denied jti expiry now) (deny_claims c)"
  unfolding deny_claims_def keeps_denied_def
  by (rule triple_basic) (simp add: denied_deny, simp add: deny_def)

lemma issue_pair_keeps: "keeps I (issue_pair te cfg t aj rj uid tenant roles sid)"
  using issue_state(2) [of te cfg t aj rj uid tenant roles sid] by (auto intro!: tripleI dest!: arg_cong [of _ _ snd])

lemma token_step_keeps:
  assumes "op_ok te jti expiry now op" and "keeps_denied jti expiry now s"
  shows "keeps_denied jti expiry now (token_step te cfg op s)"
proof (cases op)
  case (TIssue t fresh c)
  then show ?thesis using assms(2) by (simp add: final_state_def issue_state)
next
  case (TValidate t token ty)
  have "keeps (keeps_denied jti expiry now) (token_validate te t token ty)"
    by (rule triple_weaken [OF validate_keeps]) (use assms(1) TValidate in auto)
  from keepsD [OF this assms(2)] show ?thesis by (simp add: TValidate)
next
  case (TPair t aj rj uid tenant roles sid)
  then show ?thesis using assms(2) by (simp add: final_state_def issue_state)
next
  case (TRevoke token)
  have "keeps (keeps_denied jti expiry now) (revoke_token te token)"
    unfolding revoke_token_def
  proof (rule triple_andthen [OF read_claims_keeps])
    fix c :: token_claims
    show "triple (\<lambda>s. keeps_denied jti expiry now s \<and> unsigned_claims te token = Some c)
        (andthen (deny_claims c) (\<lambda>_. ret (tc_jti c))) (\<lambda>_. keeps_denied jti expiry now) (\<lambda>_. keeps_denied jti expiry now)"
      unfolding conj_commute [of "keeps_denied jti expiry now _"]
      by (rule triple_pure, rule triple_andthen [OF deny_claims_keeps])
        (use assms(1) TRevoke in \<open>auto intro!: triple_basic\<close>)
  qed
  from keepsD [OF this assms(2)] show ?thesis by (simp add: TRevoke)
next
  case (TRotatePair t aj rj token sid)
  have "t \<le> now" using assms(1) TRotatePair by simp
  have "keeps (keeps_denied jti expiry now) (rotate_pair te cfg t aj rj token sid)"
    unfolding rotate_pair_def
    by (rule triple_andthen [OF validate_keeps [OF \<open>t \<le> now\<close>]], rule triple_pure,
        rule triple_andthen [OF deny_claims_keeps issue_pair_keeps])
      (use assms(1) TRotatePair in auto)
  from keepsD [OF this assms(2)] show ?thesis by (simp add: TRotatePair)
next
  case (TRotateKeys t secret)
  then show ?thesis using assms(2)
    by (simp add: final_state_def rotate_keys_def keeps_denied_def denied_def)
qed

lemma token_run_keeps:
  "list_all (op_ok te jti expiry now) ops \<Longrightarrow> keeps_denied jti expiry now s \<Longrightarrow>
    keeps_denied jti expiry now (fold (token_step te cfg) ops s)"
  by (induction ops arbitrary: s) (simp_all add: token_step_keeps)

lemma denied_fails:
  assumes "keeps_denied (tc_jti c) (tc_exp c) now s" and "unsigned_claims te token = Some c"
  shows "\<not> succeeds (token_validate te now token ty) s"
proof
  assume "succeeds (token_validate te now token ty) s"
  then obtain a s' where run: "token_validate te now token ty s = (Inr a, s')"
    unfolding succeeds_def using is_ok_fstD by blast
  show False
  proof (cases "read_claims te token s")
    case (Pair r s1)
    show False
    proof (cases r)
      case (Inr c')
      note rd = Pair [unfolded Inr]
      have "c' = c" "s1 = s" using read_claims_unsigned [OF rd] assms(2) by simp_all
      with rd run have "\<not> tc_exp c \<le> now" "\<not> fst (is_revoked (tc_jti c) now (jw_denylist s))"
        by (auto simp: token_validate_def check_denylist_def case_prod_beta andthen_def split: if_splits)
      with assms(1) show False
        by (auto simp: keeps_denied_def denied_def is_revoked_def Let_def dict_has_def dict_get_filter
            split: option.splits if_splits)
    qed (use run Pair in \<open>simp add: token_validate_def\<close>)
  qed
qed

lemma revoked_token_never_validates:
  assumes "dict_ok (jw_denylist s)" and "revoke_token te token s = (Inr jti, s')"
    and "unsigned_claims te token = Some c" and "list_all (op_ok te (tc_jti c) (tc_exp c) now) ops"
  shows "\<not> succeeds (token_validate te now token ty) (fold (token_step te cfg) ops s')"
proof (rule denied_fails [OF token_run_keeps [OF assms(4)] assms(3)])
  obtain c' s1 where rd: "read_claims te token s = (Inr c', s1)"
    using assms(2) by (auto simp: revoke_token_def andthen_def split: prod.splits sum.splits)
  have "c' = c" "s1 = s" using read_claims_unsigned [OF rd] assms(3) by simp_all
  with rd assms(2) have "s' = s\<lparr>jw_denylist := deny (tc_jti c) (tc_exp c) (jw_denylist s)\<rparr>"
    by (auto simp: revoke_token_def deny_claims_def)
  with assms(1) show "keeps_denied (tc_jti c) (tc_exp c) now s'"
    by (simp add: keeps_denied_def denied_def deny_def)
qed



lemma demo_read:
  "read_claims demo_env demo_token demo_jwt = (Inr (filled default_auth_config 5 ''j1'' demo_claims), demo_jwt)"
  by (simp add: read_claims_def parse_issued [OF demo_codec _ demo_issue] demo_jwt_def keys_get_def)

lemma demo_validate:
  "token_validate demo_env 50 demo_token ''refresh'' demo_jwt =
     (Inr (filled default_auth_config 5 ''j1'' demo_claims), demo_jwt\<lparr>jw_denylist := []\<rparr>)"
  using demo_read
  by (simp add: token_validate_def check_denylist_def is_revoked_def dict_has_def filled_def demo_claims_def
      Let_def) (simp add: demo_jwt_def)

lemma demo_rotate:
  "\<exists>pair. rotate_pair demo_env default_auth_config 50 ''a'' ''b'' demo_token ''s1'' demo_jwt =
    (Inr pair, demo_jwt\<lparr>jw_denylist := [(''j1'', 100)]\<rparr>)"
  using demo_validate
  by (simp add: rotate_pair_def deny_claims_def deny_def issue_pair_def issue_def Let_def filled_def demo_claims_def)


section \<open>Malformed tokens\<close>

text \<open>A token whose header is JSON but no object is not answered with the token error that every other
  malformed token gets: the attribute access on it raises.\<close>

lemma header_not_object_raises:
  assumes "decode_part te h = Some (JList js)" and "as_object (decode_part te b) = Some p"
    and "CHR ''.'' \<notin> set h" and "CHR ''.'' \<notin> set b" and "CHR ''.'' \<notin> set sg"
  shows "parse_token te ks (h @ ''.'' @ b @ ''.'' @ sg) = Inl (PyError ''AttributeError'')"
  using assms by (simp add: parse_token_def parse_parts_def split_on_append split_on_no_sep_id)

end
