(* ===== verification/Authn.thy ===== *)
theory Authn
  imports Sessions Tokens
begin

text \<open>
  The authentication manager (\<open>src/app/auth/manager.py\<close>), which composes users, sessions, tokens,
  API keys and service accounts, and the decision of the middleware (\<open>middleware.py\<close>) to forward
  a request. Log-in providers other than the local one, the tenant manager and the HMAC of
  one-time codes are fields of \<open>auth_env\<close>.
\<close>

record auth_env =
  ae_config :: auth_config
  ae_tokens :: token_env
  ae_sha :: "string \<Rightarrow> string"
  ae_kdf :: "string \<Rightarrow> nat list \<Rightarrow> nat \<Rightarrow> nat list"
  ae_totp_mac :: "string \<Rightarrow> nat \<Rightarrow> nat list"
  ae_tenants :: "(string \<Rightarrow> bool) option"
  ae_providers :: "string \<Rightarrow> (string \<Rightarrow> string \<Rightarrow> string \<Rightarrow> auth_error + provider_user) option"
  ae_policy :: permission_policy
  ae_required :: "(string \<times> string) list"

record auth_state =
  as_users :: users
  as_sessions :: session_store
  as_tokens :: jwt
  as_keys :: key_store
  as_accounts :: account_store

type_synonym 'a auth_prog = "(auth_state, auth_error, 'a) prog"

abbreviation on_users :: "'a users_prog \<Rightarrow> 'a auth_prog" where
  "on_users \<equiv> zoom as_users (\<lambda>u s. s\<lparr>as_users := u\<rparr>)"

abbreviation on_sessions :: "'a session_prog \<Rightarrow> 'a auth_prog" where
  "on_sessions \<equiv> zoom as_sessions (\<lambda>u s. s\<lparr>as_sessions := u\<rparr>)"

abbreviation on_tokens :: "'a jwt_prog \<Rightarrow> 'a auth_prog" where
  "on_tokens \<equiv> zoom as_tokens (\<lambda>u s. s\<lparr>as_tokens := u\<rparr>)"

abbreviation on_keys :: "'a key_prog \<Rightarrow> 'a auth_prog" where
  "on_keys \<equiv> zoom as_keys (\<lambda>u s. s\<lparr>as_keys := u\<rparr>)"

abbreviation on_accounts :: "'a account_prog \<Rightarrow> 'a auth_prog" where
  "on_accounts \<equiv> zoom as_accounts (\<lambda>u s. s\<lparr>as_accounts := u\<rparr>)"

section \<open>Logging in\<close>

text \<open>\<open>_totp_code\<close>: RFC 4226 truncation of the HMAC of the 30-second counter, six digits.\<close>

definition be32 :: "nat list \<Rightarrow> nat" where
  "be32 bs = fold (\<lambda>b acc. acc * 256 + b) bs 0"

definition totp_code :: "(string \<Rightarrow> nat \<Rightarrow> nat list) \<Rightarrow> string \<Rightarrow> pyfloat \<Rightarrow> string" where
  "totp_code mac secret now =
    (let digest = mac secret (nat \<lfloor>now / 30\<rfloor>);
         offset = last digest mod 16;
         code = be32 (take 4 (drop offset digest)) mod 2 ^ 31 mod 1000000
     in show_padded 6 code)"

definition check_tenant :: "auth_env \<Rightarrow> string \<Rightarrow> unit auth_prog" where
  "check_tenant env tenant =
    (if tenant = '''' then ret ()
     else case ae_tenants env of
       None \<Rightarrow> ret ()
     | Some active \<Rightarrow> require (active tenant) (AuthenticationFailed ''Tenant not available''))"

definition resolve_mfa :: "auth_env \<Rightarrow> pyfloat \<Rightarrow> user \<Rightarrow> string option \<Rightarrow> bool" where
  "resolve_mfa env now u mfa_code =
    (if \<not> ac_mfa_enabled (ae_config env) \<or> us_mfa_secret u = '''' then True
     else case mfa_code of
       None \<Rightarrow> False
     | Some code \<Rightarrow> if code = '''' then False else totp_code (ae_totp_mac env) (us_mfa_secret u) now = code)"

record fresh_values =
  fv_sid :: string
  fv_access_jti :: string
  fv_refresh_jti :: string

definition issue_principal_tokens ::
  "auth_env \<Rightarrow> pyfloat \<Rightarrow> fresh_values \<Rightarrow> provider_user \<Rightarrow> string \<Rightarrow> (token_pair \<times> session) auth_prog" where
  "issue_principal_tokens env now fv pu device =
    andthen (on_sessions (session_create (ae_config env) now (fv_sid fv) (pu_id pu) (pu_tenant_id pu) device '''')) (\<lambda>s.
    andthen (on_tokens (issue_pair (ae_tokens env) (ae_config env) now (fv_access_jti fv) (fv_refresh_jti fv)
        (pu_id pu) (pu_tenant_id pu) (map JStr (pu_roles pu)) (se_id s))) (\<lambda>pair.
    andthen (on_sessions (session_set_jti (se_id s) (tp_refresh_jti pair))) (\<lambda>s'. ret (pair, s'))))"

definition reconcile_provider_user :: "pyfloat \<Rightarrow> provider_user \<Rightarrow> user users_prog" where
  "reconcile_provider_user now pu =
    andthen (gets (\<lambda>d. dict_get d (pu_id pu))) (\<lambda>existing.
      case existing of
        Some u \<Rightarrow>
          if us_status u \<in> {US_SUSPENDED, US_DISABLED} then throw (AccountInactive (us_username u)) else ret u
      | None \<Rightarrow>
          user_create \<lparr>us_id = pu_id pu, us_username = pu_username pu, us_email = pu_email pu, us_password_hash = '''',
            us_status = US_ACTIVE, us_roles = (if pu_roles pu = [] then [''viewer''] else pu_roles pu),
            us_tenant_id = pu_tenant_id pu, us_mfa_secret = '''', us_failed_attempts = 0, us_locked_until = 0,
            us_created_at = now, us_updated_at = now\<rparr>)"

definition provider_authenticate ::
  "auth_env \<Rightarrow> pyfloat \<Rightarrow> string \<Rightarrow> string \<Rightarrow> string \<Rightarrow> string \<Rightarrow> provider_user auth_prog" where
  "provider_authenticate env now provider username password tenant =
    (if provider = ''local''
     then on_users (local_authenticate (ae_kdf env) (ae_config env) now username password tenant)
     else case ae_providers env provider of
       None \<Rightarrow> throw (ProviderNotFound provider)
     | Some auth \<Rightarrow> lift_result (auth username password tenant))"

record auth_result =
  ar_user :: user
  ar_token_pair :: "token_pair option"
  ar_session :: "session option"
  ar_mfa_required :: bool
  ar_method :: string
  ar_principal :: "principal option"

definition login ::
  "auth_env \<Rightarrow> pyfloat \<Rightarrow> fresh_values \<Rightarrow> string \<Rightarrow> string \<Rightarrow> string \<Rightarrow> string \<Rightarrow> string option \<Rightarrow> string
    \<Rightarrow> auth_result auth_prog" where
  "login env now fv username password tenant device mfa_code provider =
    andthen (check_tenant env tenant) (\<lambda>_.
    andthen (provider_authenticate env now provider username password tenant) (\<lambda>pu.
    andthen (if provider = ''local'' then on_users (user_get (pu_id pu))
             else on_users (reconcile_provider_user now pu)) (\<lambda>u.
      if \<not> resolve_mfa env now u mfa_code
      then ret \<lparr>ar_user = u, ar_token_pair = None, ar_session = None, ar_mfa_required = True,
                ar_method = provider, ar_principal = None\<rparr>
      else
        andthen (issue_principal_tokens env now fv pu device) (\<lambda>(pair, s).
          ret \<lparr>ar_user = u, ar_token_pair = Some pair, ar_session = Some s, ar_mfa_required = False,
               ar_method = provider,
               ar_principal = Some \<lparr>pr_user_id = pu_id pu, pr_tenant_id = pu_tenant_id pu, pr_roles = pu_roles pu,
                 pr_scopes = [], pr_method = provider, pr_username = pu_username pu, pr_service = False\<rparr>\<rparr>))))"

definition login_with ::
  "auth_env \<Rightarrow> pyfloat \<Rightarrow> fresh_values \<Rightarrow> string \<Rightarrow> string \<Rightarrow> string \<Rightarrow> string \<Rightarrow> string \<Rightarrow> auth_result auth_prog" where
  "login_with env now fv provider username password tenant device =
    andthen (provider_authenticate env now provider username password tenant) (\<lambda>pu0.
      let tid = (if pu_tenant_id pu0 \<noteq> '''' then pu_tenant_id pu0 else tenant);
          pu = pu0\<lparr>pu_tenant_id := tid\<rparr>
      in andthen (check_tenant env tid) (\<lambda>_.
         andthen (on_users (reconcile_provider_user now pu)) (\<lambda>u.
         andthen (issue_principal_tokens env now fv pu device) (\<lambda>(pair, s).
           ret \<lparr>ar_user = u, ar_token_pair = Some pair, ar_session = Some s, ar_mfa_required = False,
                ar_method = provider,
                ar_principal = Some \<lparr>pr_user_id = us_id u, pr_tenant_id = us_tenant_id u, pr_roles = us_roles u,
                  pr_scopes = [], pr_method = provider, pr_username = us_username u, pr_service = False\<rparr>\<rparr>))))"

section \<open>Tokens and sessions together\<close>

definition logout :: "auth_env \<Rightarrow> pyfloat \<Rightarrow> string \<Rightarrow> string auth_prog" where
  "logout env now refresh_token =
    andthen (on_tokens (token_validate (ae_tokens env) now refresh_token ''refresh'')) (\<lambda>c.
    andthen (on_tokens (deny_claims c)) (\<lambda>_.
    andthen (if tc_session_id c \<noteq> ''''
             then attempt (andthen (on_sessions (session_revoke (tc_session_id c))) (\<lambda>_. ret ()))
                    (\<lambda>e. case e of SessionExpired _ \<Rightarrow> ret () | _ \<Rightarrow> throw e)
             else ret ()) (\<lambda>_. ret (tc_jti c))))"

definition auth_refresh :: "auth_env \<Rightarrow> pyfloat \<Rightarrow> fresh_values \<Rightarrow> string \<Rightarrow> token_pair auth_prog" where
  "auth_refresh env now fv refresh_token =
    andthen (on_tokens (token_validate (ae_tokens env) now refresh_token ''refresh'')) (\<lambda>c.
      if tc_session_id c \<noteq> '''' then
        andthen (on_sessions (session_validate now (tc_session_id c))) (\<lambda>_.
        andthen (on_sessions (session_touch (ae_config env) now (tc_session_id c))) (\<lambda>s.
        andthen (on_tokens (rotate_pair (ae_tokens env) (ae_config env) now (fv_access_jti fv) (fv_refresh_jti fv)
            refresh_token (se_id s))) (\<lambda>pair.
        andthen (on_sessions (session_set_jti (se_id s) (tp_refresh_jti pair))) (\<lambda>_. ret pair))))
      else on_tokens (rotate_pair (ae_tokens env) (ae_config env) now (fv_access_jti fv) (fv_refresh_jti fv)
             refresh_token ''''))"

text \<open>A role in a token that is not a string names no role of the policy.\<close>

fun string_roles :: "json list \<Rightarrow> string list" where
  "string_roles [] = []"
| "string_roles (JStr r # js) = r # string_roles js"
| "string_roles (j # js) = string_roles js"

definition auth_validate :: "auth_env \<Rightarrow> pyfloat \<Rightarrow> string \<Rightarrow> principal auth_prog" where
  "auth_validate env now token =
    andthen (on_tokens (token_validate (ae_tokens env) now token ''access'')) (\<lambda>c.
    andthen (if tc_session_id c \<noteq> ''''
             then andthen (on_sessions (session_validate now (tc_session_id c))) (\<lambda>_. ret ())
             else ret ()) (\<lambda>_.
      ret \<lparr>pr_user_id = tc_sub c, pr_tenant_id = tc_tenant_id c, pr_roles = string_roles (tc_roles c),
           pr_scopes = [], pr_method = ''token'', pr_username = '''', pr_service = False\<rparr>))"

definition partition_space :: "string \<Rightarrow> string \<times> string" where
  "partition_space s = (takeWhile (\<lambda>c. c \<noteq> CHR '' '') s, drop 1 (dropWhile (\<lambda>c. c \<noteq> CHR '' '') s))"

definition header_value :: "(string \<times> string) list \<Rightarrow> string \<Rightarrow> string" where
  "header_value headers k = dict_get_or (rev (map (\<lambda>(h, v). (py_lower h, v)) headers)) k ''''"

definition authenticate_credential ::
  "auth_env \<Rightarrow> pyfloat \<Rightarrow> (string \<times> string) list \<Rightarrow> string option \<Rightarrow> principal auth_prog" where
  "authenticate_credential env now headers authorization =
    (let auth = (case authorization of Some a \<Rightarrow> a | None \<Rightarrow> header_value headers ''authorization'')
     in if auth = '''' then throw (InvalidCredentials ''Missing Authorization header'')
     else let (raw_scheme, rest) = partition_space auth; scheme = py_lower raw_scheme; credential = py_strip rest
     in if scheme = ''bearer'' then auth_validate env now credential
     else if scheme \<in> {''apikey'', ''x-api-key'', ''token''} then
       andthen (on_keys (key_authenticate (ae_sha env) now credential [])) (\<lambda>k.
         ret \<lparr>pr_user_id = (if ak_user_id k \<noteq> '''' then ak_user_id k else ''apikey:'' @ ak_id k),
              pr_tenant_id = ak_tenant_id k, pr_roles = [], pr_scopes = ak_scopes k, pr_method = ''apikey'',
              pr_username = '''', pr_service = True\<rparr>)
     else if scheme = ''service'' then
       andthen (on_accounts (account_authenticate (ae_sha env) now credential [])) (\<lambda>a.
         ret \<lparr>pr_user_id = ''sa:'' @ sa_id a, pr_tenant_id = sa_tenant_id a, pr_roles = [],
              pr_scopes = sa_scopes a, pr_method = ''service_account'', pr_username = '''', pr_service = True\<rparr>)
     else throw (InvalidCredentials (''Unsupported auth scheme '' @ scheme)))"


section \<open>The middleware\<close>

datatype verdict = Forward | Respond nat string

definition under_prefix :: "string \<Rightarrow> string \<Rightarrow> bool" where
  "under_prefix prefix path \<longleftrightarrow> path = prefix \<or> starts_with (prefix @ ''/'') path"

definition is_public :: "auth_config \<Rightarrow> string \<Rightarrow> bool" where
  "is_public cfg path \<longleftrightarrow>
    (if \<not> ac_require_auth cfg then True else list_ex (\<lambda>prefix. under_prefix prefix path) (ac_public_paths cfg))"

definition require_permission :: "auth_env \<Rightarrow> principal \<Rightarrow> string \<Rightarrow> auth_error + unit" where
  "require_permission env pr path =
    (case find (\<lambda>(prefix, perm). under_prefix prefix path) (ae_required env) of
       None \<Rightarrow> Inr ()
     | Some (prefix, perm) \<Rightarrow> policy_enforce (ae_policy env) pr perm None)"

fun auth_failure :: "auth_error \<Rightarrow> verdict" where
  "auth_failure TokenExpired = Respond 401 ''token expired''"
| "auth_failure (PermissionDenied perm uid) = Respond 403 (''Permission '' @ perm @ '' denied for user '' @ uid)"
| "auth_failure (InvalidToken m) = Respond 401 ''unauthorized''"
| "auth_failure TokenRevoked = Respond 401 ''unauthorized''"
| "auth_failure (InvalidCredentials m) = Respond 401 ''unauthorized''"
| "auth_failure (APIKeyErr m) = Respond 401 ''unauthorized''"
| "auth_failure (ServiceAccountErr m) = Respond 401 ''unauthorized''"
| "auth_failure _ = Respond 500 ''authentication error''"

definition middleware ::
  "auth_env \<Rightarrow> pyfloat \<Rightarrow> string \<Rightarrow> (string \<times> string) list \<Rightarrow> string \<Rightarrow> auth_state \<Rightarrow> verdict \<times> auth_state" where
  "middleware env now scope_type headers path s =
    (if scope_type \<noteq> ''http'' then (Forward, s)
     else if is_public (ae_config env) path then (Forward, s)
     else case authenticate_credential env now headers None s of
       (Inl e, s') \<Rightarrow> (auth_failure e, s')
     | (Inr pr, s') \<Rightarrow>
         (case require_permission env pr path of
            Inl e \<Rightarrow> (case e of PermissionDenied perm uid \<Rightarrow> Respond 403 (''permission denied: '' @ perm) | _ \<Rightarrow> Forward, s')
          | Inr _ \<Rightarrow> (Forward, s')))"

lemma auth_failure_responds: "auth_failure e \<noteq> Forward"
  by (cases e) simp_all

text \<open>C36. An HTTP request to a path that is not public is forwarded exactly when its credential
  authenticates and the first permission rule that covers the path, if there is one, is granted to
  the principal.\<close>

theorem middleware_forwards_exactly:
  "fst (middleware env now ''http'' headers path s) = Forward \<longleftrightarrow>
     is_public (ae_config env) path \<or>
     (\<exists>pr s'. authenticate_credential env now headers None s = (Inr pr, s') \<and>
        (case find (\<lambda>(prefix, perm). under_prefix prefix path) (ae_required env) of
           None \<Rightarrow> True | Some (prefix, perm) \<Rightarrow> policy_check (ae_policy env) pr perm None))"
proof (cases "is_public (ae_config env) path")
  case False
  show ?thesis
  proof (cases "authenticate_credential env now headers None s")
    case (Pair r s')
    then show ?thesis
      using False auth_failure_responds
      by (cases r) (auto simp: middleware_def require_permission_def policy_enforce_def split: option.splits)
  qed
qed (simp add: middleware_def)

section \<open>The manager uses sessions only through their operations\<close>

definition session_effect :: "auth_config \<Rightarrow> string set \<Rightarrow> 'a auth_prog \<Rightarrow> bool" where
  "session_effect cfg ids m \<longleftrightarrow>
    (\<forall>s. \<exists>ops. as_sessions (snd (m s)) = fold (session_step cfg) ops (as_sessions s) \<and>
       (\<forall>op \<in> set ops. creates op \<in> insert None (Some ` ids)))"

named_theorems session_rules \<open>programs of the manager as runs of session operations\<close>

lemma effect_none [session_rules]:
  "session_effect cfg ids (ret a)" "session_effect cfg ids (throw e)"
  "session_effect cfg ids (require b e)" "session_effect cfg ids (lift_result r)"
  "session_effect cfg ids (on_users mu)" "session_effect cfg ids (on_tokens mt)"
  "session_effect cfg ids (on_keys mk)" "session_effect cfg ids (on_accounts ma)"
  unfolding session_effect_def by (auto intro!: exI [of _ "[]"])

lemma effect_one:
  assumes "\<And>d. snd (m d) = session_step cfg op d" and "creates op \<in> insert None (Some ` ids)"
  shows "session_effect cfg ids (on_sessions m)"
  unfolding session_effect_def using assms by (auto intro!: exI [of _ "[op]"])

lemma effect_sessions [session_rules]:
  "sid \<in> ids \<Longrightarrow> session_effect cfg ids (on_sessions (session_create cfg now sid uid tenant device jti))"
  "session_effect cfg ids (on_sessions (session_touch cfg now sid'))"
  "session_effect cfg ids (on_sessions (session_validate now sid'))"
  "session_effect cfg ids (on_sessions (session_revoke sid'))"
  "session_effect cfg ids (on_sessions (session_revoke_all uid))"
  "session_effect cfg ids (on_sessions (session_set_jti sid' jti))"
  by (rule effect_one [of _ _ "SCreate now sid uid tenant device jti"], simp_all add: final_state_def)
    (rule effect_one [of _ _ "STouch now sid'"] effect_one [of _ _ "SValidate now sid'"]
       effect_one [of _ _ "SRevoke sid'"] effect_one [of _ _ "SRevokeAll uid"]
       effect_one [of _ _ "SSetJti sid' jti"], simp_all add: final_state_def)+

lemma effect_andthen [session_rules]:
  assumes "session_effect cfg ids m" and "\<And>a. session_effect cfg ids (f a)"
  shows "session_effect cfg ids (andthen m f)"
  unfolding session_effect_def
proof
  fix s
  obtain ops where 1: "as_sessions (snd (m s)) = fold (session_step cfg) ops (as_sessions s)"
      "\<forall>op \<in> set ops. creates op \<in> insert None (Some ` ids)"
    using assms(1) unfolding session_effect_def by blast
  show "\<exists>ops. as_sessions (snd (andthen m f s)) = fold (session_step cfg) ops (as_sessions s) \<and>
      (\<forall>op \<in> set ops. creates op \<in> insert None (Some ` ids))"
  proof (cases "m s")
    case (Pair r s1)
    show ?thesis
    proof (cases r)
      case (Inl e)
      then show ?thesis using 1 Pair by (intro exI [of _ ops]) simp
    next
      case (Inr a)
      obtain ops2 where 2: "as_sessions (snd (f a s1)) = fold (session_step cfg) ops2 (as_sessions s1)"
          "\<forall>op \<in> set ops2. creates op \<in> insert None (Some ` ids)"
        using assms(2) [of a] unfolding session_effect_def by blast
      then show ?thesis using 1 Pair Inr by (intro exI [of _ "ops @ ops2"]) auto
    qed
  qed
qed

lemma effect_attempt [session_rules]:
  assumes "session_effect cfg ids m" and "\<And>e. h e = ret () \<or> h e = throw e"
  shows "session_effect cfg ids (attempt m h)"
proof -
  have "snd (attempt m h s) = snd (m s)" for s
    using assms(2) by (auto simp: attempt_def split: prod.split sum.split) (metis run_simps(1,2) snd_conv)
  with assms(1) show ?thesis unfolding session_effect_def by simp
qed

lemma effect_if [session_rules]:
  "(b \<Longrightarrow> session_effect cfg ids m) \<Longrightarrow> (\<not> b \<Longrightarrow> session_effect cfg ids n) \<Longrightarrow>
    session_effect cfg ids (if b then m else n)"
  by simp


lemma effect_check_tenant [session_rules]: "session_effect cfg ids (check_tenant env tenant)"
  by (auto simp: check_tenant_def effect_none split: option.split)

lemma effect_provider [session_rules]:
  "session_effect cfg ids (provider_authenticate env now provider username password tenant)"
  by (auto simp: provider_authenticate_def effect_none split: option.split)

lemma effect_issue [session_rules]:
  "fv_sid fv \<in> ids \<Longrightarrow> session_effect (ae_config env) ids (issue_principal_tokens env now fv pu device)"
  unfolding issue_principal_tokens_def by (intro session_rules)

lemma effect_login:
  assumes "fv_sid fv \<in> ids"
  shows "session_effect (ae_config env) ids (login env now fv username password tenant device mfa_code provider)"
    and "session_effect (ae_config env) ids (login_with env now fv provider username password tenant device)"
  unfolding login_def login_with_def Let_def case_prod_beta by (intro session_rules assms)+

lemma effect_logout:
  "session_effect (ae_config env) ids (logout env now token)"
  unfolding logout_def by (intro session_rules) (auto split: auth_error.split)

lemma effect_refresh: "session_effect (ae_config env) ids (auth_refresh env now fv token)"
  unfolding auth_refresh_def by (intro session_rules)

lemma effect_validate: "session_effect (ae_config env) ids (auth_validate env now token)"
  unfolding auth_validate_def by (intro session_rules)

lemma effect_authenticate:
  "session_effect (ae_config env) ids (authenticate_credential env now headers authorization)"
  unfolding authenticate_credential_def Let_def case_prod_beta by (intro session_rules effect_validate)

datatype auth_op =
    ALogin pyfloat fresh_values string string string string "string option" string
  | ALoginWith pyfloat fresh_values string string string string string
  | ALogout pyfloat string
  | ARefresh pyfloat fresh_values string
  | ACredential pyfloat "(string \<times> string) list" "string option"
  | ARevokeSession string
  | ARevokeAll string
  | ARotateKeys pyfloat string

fun auth_step :: "auth_env \<Rightarrow> auth_op \<Rightarrow> auth_state \<Rightarrow> auth_state" where
  "auth_step env (ALogin now fv username password tenant device mfa provider) s =
     final_state (login env now fv username password tenant device mfa provider) s"
| "auth_step env (ALoginWith now fv provider username password tenant device) s =
     final_state (login_with env now fv provider username password tenant device) s"
| "auth_step env (ALogout now token) s = final_state (logout env now token) s"
| "auth_step env (ARefresh now fv token) s = final_state (auth_refresh env now fv token) s"
| "auth_step env (ACredential now headers authorization) s =
     final_state (authenticate_credential env now headers authorization) s"
| "auth_step env (ARevokeSession sid) s = final_state (on_sessions (session_revoke sid)) s"
| "auth_step env (ARevokeAll uid) s = final_state (on_sessions (session_revoke_all uid)) s"
| "auth_step env (ARotateKeys now secret) s =
     final_state (on_tokens (rotate_keys (ae_tokens env) (ae_config env) now secret)) s"

fun new_session :: "auth_op \<Rightarrow> string option" where
  "new_session (ALogin now fv username password tenant device mfa provider) = Some (fv_sid fv)"
| "new_session (ALoginWith now fv provider username password tenant device) = Some (fv_sid fv)"
| "new_session _ = None"

lemma auth_step_sessions:
  "\<exists>ops. as_sessions (auth_step env op s) = fold (session_step (ae_config env)) ops (as_sessions s) \<and>
     (\<forall>sop \<in> set ops. creates sop \<in> {None, new_session op})"
proof -
  have "\<exists>m :: unit auth_prog. auth_step env op s = snd (m s) \<and>
      session_effect (ae_config env) (set_option (new_session op)) m"
  proof -
    have drop: "\<exists>m' :: unit auth_prog. snd (m s) = snd (m' s) \<and> session_effect (ae_config env) ids m'"
      if "session_effect (ae_config env) ids m" for ids and m :: "'x auth_prog"
      using that by (intro exI [of _ "\<lambda>s. (Inr (), snd (m s))"]) (simp add: session_effect_def)
    show ?thesis
      by (cases op; simp only: auth_step.simps final_state_def new_session.simps option.set;
          rule drop; intro effect_login effect_logout effect_refresh effect_authenticate session_rules) simp_all
  qed
  then show ?thesis unfolding session_effect_def by (cases "new_session op") fastforce+
qed

lemma auth_run_sessions:
  "\<exists>sops. as_sessions (fold (auth_step env) ops s) = fold (session_step (ae_config env)) sops (as_sessions s) \<and>
     (\<forall>sop \<in> set sops. creates sop \<in> insert None (new_session ` set ops))"
proof (induction ops arbitrary: s)
  case (Cons op ops)
  obtain o1 where 1: "as_sessions (auth_step env op s) = fold (session_step (ae_config env)) o1 (as_sessions s)"
      "\<forall>sop \<in> set o1. creates sop \<in> {None, new_session op}" using auth_step_sessions by blast
  obtain o2 where 2: "as_sessions (fold (auth_step env) ops (auth_step env op s)) =
      fold (session_step (ae_config env)) o2 (as_sessions (auth_step env op s))"
      "\<forall>sop \<in> set o2. creates sop \<in> insert None (new_session ` set ops)" using Cons.IH by blast
  from 1 2 show ?case by (intro exI [of _ "o1 @ o2"]) auto
qed (auto intro: exI [of _ "[]"])


section \<open>Logging out\<close>

lemma logout_revokes:
  assumes "logout env now token s = (Inr jti, s')" and "keyed (as_sessions s)"
    and "unsigned_claims (ae_tokens env) token = Some c" and "tc_session_id c = sid" and "sid \<noteq> ''''"
    and "dict_has (as_sessions s) sid"
  shows "\<exists>x. dict_get (as_sessions s') sid = Some x \<and> se_revoked x" and "keyed (as_sessions s')"
proof -
  let ?v = "token_validate (ae_tokens env) now token ''refresh'' (as_tokens s)"
  obtain x where x: "dict_get (as_sessions s) sid = Some x" using assms(6) by (auto simp: dict_has_def)
  obtain c' t where v: "?v = (Inr c', t)"
    using assms(1) by (cases ?v; cases "fst ?v") (auto simp: logout_def zoom_def)
  have "c' = c" using validate_unsigned [OF v] assms(3) by simp
  have id: "se_id x = sid" using keyed_get [OF assms(2) x] .
  have "as_sessions s' = dict_set sid (x\<lparr>se_revoked := True\<rparr>) (as_sessions s)"
    using assms(1,4,5) v \<open>c' = c\<close> x id
    by (auto simp: logout_def zoom_def deny_claims_def attempt_def session_revoke_def session_get_def fetch_def
        put_session_def andthen_def repo_update_def dict_has_def)
  with assms(2) id show "\<exists>x. dict_get (as_sessions s') sid = Some x \<and> se_revoked x" "keyed (as_sessions s')"
    by (auto intro: keyed_set)
qed

lemma dead_session_rejected:
  assumes "\<not> succeeds (session_validate now sid) (as_sessions s)" and "sid \<noteq> ''''"
    and "unsigned_claims (ae_tokens env) token = Some c" and "tc_session_id c = sid"
  shows "\<not> succeeds (auth_validate env now token) s"
proof
  let ?v = "token_validate (ae_tokens env) now token ''access'' (as_tokens s)"
  assume ok: "succeeds (auth_validate env now token) s"
  then obtain c' t where v: "?v = (Inr c', t)"
    by (cases ?v; cases "fst ?v") (auto simp: succeeds_def auth_validate_def zoom_def)
  have "c' = c" using validate_unsigned [OF v] assms(3) by simp
  with ok v assms show False
    by (auto simp: succeeds_def auth_validate_def zoom_def andthen_def split: prod.splits sum.splits)
qed

text \<open>C7. Logging out ends the session: after a successful log-out with a refresh token of a stored
  session, no token that belongs to the session is accepted any more, at any time and after any
  operations of the manager (logins, refreshes, rotations of keys), unless a login draws the same
  session id.\<close>

theorem logout_ends_session:
  assumes "keyed (as_sessions s)" and "logout env t refresh_token s = (Inr jti, s')"
    and "unsigned_claims (ae_tokens env) refresh_token = Some c" and "tc_session_id c \<noteq> ''''"
    and "dict_has (as_sessions s) (tc_session_id c)"
    and "unsigned_claims (ae_tokens env) token = Some c'" and "tc_session_id c' = tc_session_id c"
    and "list_all (\<lambda>op. new_session op \<noteq> Some (tc_session_id c)) ops"
  shows "\<not> succeeds (auth_validate env now token) (fold (auth_step env) ops s')"
proof (rule dead_session_rejected [OF _ assms(4,6,7)])
  obtain x where x: "dict_get (as_sessions s') (tc_session_id c) = Some x" "se_revoked x"
    and k: "keyed (as_sessions s')"
    using logout_revokes [OF assms(2,1,3) refl assms(4,5)] by blast
  obtain sops where sops: "as_sessions (fold (auth_step env) ops s') =
      fold (session_step (ae_config env)) sops (as_sessions s')"
      "\<forall>sop \<in> set sops. creates sop \<in> insert None (new_session ` set ops)" using auth_run_sessions by blast
  have "list_all (\<lambda>sop. creates sop \<noteq> Some (tc_session_id c)) sops"
    using sops(2) assms(8) unfolding list_all_iff by (metis imageE insertE option.distinct(1))
  then show "\<not> succeeds (session_validate now (tc_session_id c)) (as_sessions (fold (auth_step env) ops s'))"
    unfolding sops(1) by (rule revoked_session_never_validates [OF k x])
qed


definition demo_auth_env :: auth_env where
  "demo_auth_env = \<lparr>ae_config = default_auth_config, ae_tokens = demo_env, ae_sha = id, ae_kdf = demo_kdf,
     ae_totp_mac = (\<lambda>_ _. replicate 20 0), ae_tenants = None, ae_providers = (\<lambda>_. None),
     ae_policy = \<lparr>pp_roles = default_roles, pp_deny = []\<rparr>, ae_required = []\<rparr>"

definition demo_session :: session where
  "demo_session = \<lparr>se_id = ''s1'', se_user_id = ''u'', se_tenant_id = ''t'', se_device = ''d'', se_created_at = 5,
     se_last_active = 5, se_expires_at = 1000, se_refresh_jti = ''j1'', se_revoked = False\<rparr>"

definition demo_auth_state :: auth_state where
  "demo_auth_state = \<lparr>as_users = [], as_sessions = [(''s1'', demo_session)], as_tokens = demo_jwt, as_keys = [],
     as_accounts = []\<rparr>"

definition demo_access :: string where
  "demo_access = (case fst (issue demo_env default_auth_config 5 ''j2'' (demo_claims\<lparr>tc_type := ''access''\<rparr>) demo_jwt)
     of Inr t \<Rightarrow> t | Inl _ \<Rightarrow> '''')"

lemma demo_access_claims:
  "unsigned_claims demo_env demo_access =
    Some (filled default_auth_config 5 ''j2'' (demo_claims\<lparr>tc_type := ''access''\<rparr>))"
proof (rule read_claims_unsigned(1))
  have "issue demo_env default_auth_config 5 ''j2'' (demo_claims\<lparr>tc_type := ''access''\<rparr>) demo_jwt =
      (Inr demo_access, demo_jwt)"
    by (simp add: demo_access_def issue_def Let_def)
  from parse_issued [OF demo_codec _ this] show "read_claims demo_env demo_access demo_jwt =
      (Inr (filled default_auth_config 5 ''j2'' (demo_claims\<lparr>tc_type := ''access''\<rparr>)), demo_jwt)"
    by (simp add: read_claims_def demo_jwt_def keys_get_def)
qed

lemma demo_logout:
  "\<exists>s'. logout demo_auth_env 50 demo_token demo_auth_state = (Inr ''j1'', s')"
  by (simp add: logout_def zoom_def demo_auth_env_def demo_auth_state_def demo_validate deny_claims_def
      attempt_def session_revoke_def session_get_def fetch_def put_session_def andthen_def filled_def demo_claims_def
      Let_def)

theorem logout_ends_session_witness:
  "\<not> succeeds (auth_validate demo_auth_env 60 demo_access)
     (fold (auth_step demo_auth_env) [ARotateKeys 55 ''k9'', ARefresh 56 (fresh_values.make ''s2'' ''a'' ''b'') demo_token]
       (snd (logout demo_auth_env 50 demo_token demo_auth_state)))"
proof -
  obtain s' where s': "logout demo_auth_env 50 demo_token demo_auth_state = (Inr ''j1'', s')"
    using demo_logout by blast
  have "\<not> succeeds (auth_validate demo_auth_env 60 demo_access)
     (fold (auth_step demo_auth_env) [ARotateKeys 55 ''k9'', ARefresh 56 (fresh_values.make ''s2'' ''a'' ''b'') demo_token] s')"
    by (rule logout_ends_session [OF _ s', where c = "filled default_auth_config 5 ''j1'' demo_claims"
          and c' = "filled default_auth_config 5 ''j2'' (demo_claims\<lparr>tc_type := ''access''\<rparr>)"])
      (simp_all add: demo_auth_env_def demo_access_claims read_claims_unsigned(1) [OF demo_read],
       simp_all add: demo_auth_state_def demo_session_def keyed_def dict_ok_def filled_def demo_claims_def
         dict_has_def Let_def)
  then show ?thesis using s' by simp
qed

text \<open>The middleware answers 500, not 401, to a token whose session was revoked or expired: the error of
  the session is not among those it maps to 401.\<close>

lemma dead_session_answered_500: "auth_failure (SessionExpired m) = Respond 500 ''authentication error''"
  by simp

text \<open>A principal that comes from an API key or a service account has no roles, so a path with a permission
  rule is closed to it whatever its scopes are.\<close>

lemma scopes_never_open_a_path:
  assumes "pr_roles pr = []"
  shows "\<not> policy_check pol pr perm None"
  using assms by (simp add: policy_check_def permissions_for_def)

end
