(* ===== verification/Organization.thy ===== *)
theory Organization
  imports Credentials
begin

text \<open>
  Organizations (\<open>src/app/organization\<close>): repositories, the access guard, members, ownership,
  invitations, teams, workspaces and projects, over one database record. The text of metadata and
  the audit events, log lines and counters are left out; ids and invitation tokens are arguments,
  as the code draws them at random.
\<close>

datatype org_error =
    OrgNotFound string
  | OrgAlreadyExists string
  | OrgLimit string
  | OrgArchived string
  | WorkspaceNotFound string
  | WorkspaceAlreadyExists string
  | WorkspaceLimit string
  | WorkspaceArchived string
  | TeamNotFound string
  | TeamLimit string
  | MemberNotFound string string
  | MemberAlreadyExists string string
  | MemberLimit string
  | MemberRoleErr string
  | ProjectNotFound string
  | ProjectAlreadyExists string
  | InvitationNotFound string
  | InvitationExpired string
  | InvitationAlreadyAccepted string
  | InvitationLimit string
  | OwnershipTransferErr string
  | IsolationErr string
  | OrgPermissionDenied string string
  | OrgValueError string

datatype org_status = OS_ACTIVE | OS_ARCHIVED | OS_SUSPENDED
datatype ws_status = WS_ACTIVE | WS_ARCHIVED
datatype member_role = MR_OWNER | MR_ADMIN | MR_MEMBER | MR_VIEWER
datatype member_status = MS_ACTIVE | MS_SUSPENDED | MS_INVITED
datatype invitation_status = IS_PENDING | IS_ACCEPTED | IS_REVOKED | IS_EXPIRED

record organization =
  og_id :: string
  og_tenant_id :: string
  og_name :: string
  og_slug :: string
  og_owner_user_id :: string
  og_description :: string
  og_plan :: string
  og_status :: org_status
  og_created_at :: pyfloat
  og_updated_at :: pyfloat

record workspace =
  ws_id :: string
  ws_organization_id :: string
  ws_tenant_id :: string
  ws_name :: string
  ws_slug :: string
  ws_owner_user_id :: string
  ws_description :: string
  ws_status :: ws_status
  ws_created_at :: pyfloat
  ws_updated_at :: pyfloat

record team =
  tm_id :: string
  tm_organization_id :: string
  tm_tenant_id :: string
  tm_name :: string
  tm_description :: string
  tm_created_at :: pyfloat
  tm_updated_at :: pyfloat

record org_member =
  mb_id :: string
  mb_organization_id :: string
  mb_tenant_id :: string
  mb_user_id :: string
  mb_role :: member_role
  mb_status :: member_status
  mb_created_at :: pyfloat
  mb_updated_at :: pyfloat

record project =
  pj_id :: string
  pj_workspace_id :: string
  pj_organization_id :: string
  pj_tenant_id :: string
  pj_name :: string
  pj_description :: string
  pj_created_at :: pyfloat
  pj_updated_at :: pyfloat

record invitation =
  iv_id :: string
  iv_organization_id :: string
  iv_tenant_id :: string
  iv_email :: string
  iv_role :: member_role
  iv_invited_by :: string
  iv_token :: string
  iv_status :: invitation_status
  iv_expires_at :: pyfloat
  iv_created_at :: pyfloat
  iv_accepted_at :: pyfloat
  iv_accepted_by :: string

record org_config =
  oc_org_name_max :: nat
  oc_org_slug_max :: nat
  oc_ws_name_max :: nat
  oc_ws_slug_max :: nat
  oc_team_name_max :: nat
  oc_project_name_max :: nat
  oc_max_orgs :: nat
  oc_max_workspaces :: nat
  oc_max_teams :: nat
  oc_max_members :: nat
  oc_max_projects :: nat
  oc_max_invitations :: nat
  oc_invitation_ttl :: int

definition default_org_config :: org_config where
  "default_org_config = \<lparr>oc_org_name_max = 80, oc_org_slug_max = 64, oc_ws_name_max = 80, oc_ws_slug_max = 64,
     oc_team_name_max = 60, oc_project_name_max = 80, oc_max_orgs = 50, oc_max_workspaces = 100,
     oc_max_teams = 200, oc_max_members = 500, oc_max_projects = 500, oc_max_invitations = 50,
     oc_invitation_ttl = 7 * 24 * 3600\<rparr>"

section \<open>Slugs\<close>

definition slug_char :: "char \<Rightarrow> bool" where
  "slug_char c \<longleftrightarrow> of_char c \<in> {97..122 :: nat} \<or> of_char c \<in> {48..57 :: nat}"

text \<open>\<open>re.sub(r"[^a-z0-9]+", "-", s)\<close>: each maximal run of other characters becomes one dash.\<close>

fun dash_runs :: "bool \<Rightarrow> string \<Rightarrow> string" where
  "dash_runs in_run [] = []"
| "dash_runs in_run (c # s) =
     (if slug_char c then c # dash_runs False s
      else if in_run then dash_runs True s else CHR ''-'' # dash_runs True s)"

definition rstrip_dash :: "string \<Rightarrow> string" where
  "rstrip_dash s = rev (dropWhile (\<lambda>c. c = CHR ''-'') (rev s))"

definition make_slug :: "string \<Rightarrow> nat \<Rightarrow> string" where
  "make_slug nm max_length =
    (let slug = rstrip_dash (dropWhile (\<lambda>c. c = CHR ''-'') (dash_runs False (py_lower nm)));
         cut = take max_length slug
     in rstrip_dash (if cut = '''' then ''item'' else cut))"

text \<open>\<open>SLUG_PATTERN\<close>: letters, digits and dashes, with a letter or digit at both ends.\<close>

definition valid_slug :: "string \<Rightarrow> bool" where
  "valid_slug s \<longleftrightarrow> s \<noteq> '''' \<and> slug_char (hd s) \<and> slug_char (last s) \<and>
     list_all (\<lambda>c. slug_char c \<or> c = CHR ''-'') s"

lemma dash_runs_chars: "list_all (\<lambda>c. slug_char c \<or> c = CHR ''-'') (dash_runs b s)"
  by (induction s arbitrary: b) simp_all

lemma rstrip_dash_prefix: "\<exists>t. s = rstrip_dash s @ t"
proof -
  have "s = rev (takeWhile (\<lambda>c. c = CHR ''-'') (rev s) @ dropWhile (\<lambda>c. c = CHR ''-'') (rev s))" by simp
  then show ?thesis unfolding rstrip_dash_def rev_append by metis
qed

lemma rstrip_dash_last: "rstrip_dash s \<noteq> [] \<Longrightarrow> last (rstrip_dash s) \<noteq> CHR ''-''"
  using hd_dropWhile [of "\<lambda>c. c = CHR ''-''" "rev s"] by (simp add: rstrip_dash_def last_rev)

lemma rstrip_dash_nonempty: "s \<noteq> [] \<Longrightarrow> hd s \<noteq> CHR ''-'' \<Longrightarrow> rstrip_dash s \<noteq> []"
  unfolding rstrip_dash_def rev_is_Nil_conv dropWhile_eq_Nil_conv set_rev using hd_in_set by blast

text \<open>What starts with a letter or digit and has no other characters than these and dashes is a valid
  slug once its trailing dashes are cut off.\<close>

lemma valid_slug_rstrip:
  assumes "s \<noteq> []" and "hd s \<noteq> CHR ''-''" and "list_all (\<lambda>c. slug_char c \<or> c = CHR ''-'') s"
  shows "valid_slug (rstrip_dash s)"
proof -
  obtain t where t: "s = rstrip_dash s @ t" using rstrip_dash_prefix by blast
  have ne: "rstrip_dash s \<noteq> []" using rstrip_dash_nonempty assms(1,2) by blast
  have chars: "list_all (\<lambda>c. slug_char c \<or> c = CHR ''-'') (rstrip_dash s)" using assms(3) by (subst (asm) t) simp
  have "hd (rstrip_dash s) = hd s" by (subst (2) t) (simp add: ne)
  with assms(2) chars ne rstrip_dash_last [OF ne] show ?thesis
    using hd_in_set [OF ne] last_in_set [OF ne] by (auto simp: valid_slug_def list_all_iff)
qed

text \<open>C40. A slug made from a name, whatever the name and the limit are, matches the pattern of slugs; it
  keeps to the limit unless it is the default \<open>item\<close>.\<close>

theorem make_slug_valid:
  "valid_slug (make_slug nm n) \<and> (length (make_slug nm n) \<le> n \<or> make_slug nm n = ''item'')"
proof -
  define slug where "slug = rstrip_dash (dropWhile (\<lambda>c. c = CHR ''-'') (dash_runs False (py_lower nm)))"
  define body where "body = dropWhile (\<lambda>c. c = CHR ''-'') (dash_runs False (py_lower nm))"
  obtain t where t: "body = slug @ t" using rstrip_dash_prefix [of body] unfolding slug_def body_def by blast
  have "list_all (\<lambda>c. slug_char c \<or> c = CHR ''-'') body"
    using dash_runs_chars [of False "py_lower nm"] by (auto simp: body_def list_all_iff dest: set_dropWhileD)
  then have chars: "list_all (\<lambda>c. slug_char c \<or> c = CHR ''-'') slug" by (simp add: t)
  have hd: "hd slug \<noteq> CHR ''-''" if "slug \<noteq> []"
  proof -
    have "body \<noteq> []" "hd slug = hd body" using that by (simp_all add: t)
    then show ?thesis using hd_dropWhile [of "\<lambda>c. c = CHR ''-''" "dash_runs False (py_lower nm)"] by (simp add: body_def)
  qed
  show ?thesis
  proof (cases "take n slug = []")
    case True
    then have "make_slug nm n = ''item''" by (simp add: make_slug_def slug_def rstrip_dash_def)
    moreover have "valid_slug ''item''" by code_simp
    ultimately show ?thesis by simp
  next
    case False
    then have "make_slug nm n = rstrip_dash (take n slug)" by (simp add: make_slug_def slug_def)
    moreover have "valid_slug (rstrip_dash (take n slug))"
      using False hd chars by (intro valid_slug_rstrip) (auto simp: list_all_iff dest: in_set_takeD)
    moreover have "length (rstrip_dash (take n slug)) \<le> length (take n slug)"
      using rstrip_dash_prefix [of "take n slug"] by (metis le_add1 length_append)
    ultimately show ?thesis by simp
  qed
qed

section \<open>The database\<close>

record org_db =
  od_orgs :: "(string, organization) dict"
  od_workspaces :: "(string, workspace) dict"
  od_teams :: "(string, team) dict"
  od_members :: "(string, org_member) dict"
  od_projects :: "(string, project) dict"
  od_invitations :: "(string, invitation) dict"

definition empty_db :: org_db where
  "empty_db = \<lparr>od_orgs = [], od_workspaces = [], od_teams = [], od_members = [], od_projects = [], od_invitations = []\<rparr>"

type_synonym 'a org_prog = "(org_db, org_error, 'a) prog"

text \<open>\<open>create\<close> and \<open>update\<close> of the repositories file an item under its id.\<close>

definition put_org :: "organization \<Rightarrow> unit org_prog" where
  "put_org o' = modify (\<lambda>s. s\<lparr>od_orgs := dict_set (og_id o') o' (od_orgs s)\<rparr>)"

definition put_ws :: "workspace \<Rightarrow> unit org_prog" where
  "put_ws w = modify (\<lambda>s. s\<lparr>od_workspaces := dict_set (ws_id w) w (od_workspaces s)\<rparr>)"

definition put_team :: "team \<Rightarrow> unit org_prog" where
  "put_team t = modify (\<lambda>s. s\<lparr>od_teams := dict_set (tm_id t) t (od_teams s)\<rparr>)"

definition put_member :: "org_member \<Rightarrow> unit org_prog" where
  "put_member m = modify (\<lambda>s. s\<lparr>od_members := dict_set (mb_id m) m (od_members s)\<rparr>)"

definition put_project :: "project \<Rightarrow> unit org_prog" where
  "put_project p = modify (\<lambda>s. s\<lparr>od_projects := dict_set (pj_id p) p (od_projects s)\<rparr>)"

definition put_invitation :: "invitation \<Rightarrow> unit org_prog" where
  "put_invitation i = modify (\<lambda>s. s\<lparr>od_invitations := dict_set (iv_id i) i (od_invitations s)\<rparr>)"

definition org_by_slug :: "string \<Rightarrow> string \<Rightarrow> org_db \<Rightarrow> organization option" where
  "org_by_slug slug tenant s = find (\<lambda>o'. og_slug o' = slug \<and> og_tenant_id o' = tenant) (map snd (od_orgs s))"

definition orgs_of_tenant :: "string \<Rightarrow> org_db \<Rightarrow> organization list" where
  "orgs_of_tenant tenant s = sort_key og_created_at (filter (\<lambda>o'. og_tenant_id o' = tenant) (map snd (od_orgs s)))"

definition ws_by_slug :: "string \<Rightarrow> string \<Rightarrow> org_db \<Rightarrow> workspace option" where
  "ws_by_slug slug oid s = find (\<lambda>w. ws_slug w = slug \<and> ws_organization_id w = oid) (map snd (od_workspaces s))"

definition ws_of_org :: "string \<Rightarrow> org_db \<Rightarrow> workspace list" where
  "ws_of_org oid s = sort_key ws_created_at (filter (\<lambda>w. ws_organization_id w = oid) (map snd (od_workspaces s)))"

definition teams_of_org :: "string \<Rightarrow> org_db \<Rightarrow> team list" where
  "teams_of_org oid s = sort_key tm_created_at (filter (\<lambda>t. tm_organization_id t = oid) (map snd (od_teams s)))"

definition member_by_user :: "string \<Rightarrow> string \<Rightarrow> org_db \<Rightarrow> org_member option" where
  "member_by_user oid uid s =
    find (\<lambda>m. mb_organization_id m = oid \<and> mb_user_id m = uid) (map snd (od_members s))"

definition members_of_org :: "string \<Rightarrow> org_db \<Rightarrow> org_member list" where
  "members_of_org oid s = sort_key mb_created_at (filter (\<lambda>m. mb_organization_id m = oid) (map snd (od_members s)))"

definition delete_members :: "string \<Rightarrow> org_db \<Rightarrow> org_db" where
  "delete_members oid s =
    s\<lparr>od_members := fold dict_pop (map fst (filter (\<lambda>(i, m). mb_organization_id m = oid) (od_members s))) (od_members s)\<rparr>"

definition project_by_name :: "string \<Rightarrow> string \<Rightarrow> org_db \<Rightarrow> project option" where
  "project_by_name wid nm s = find (\<lambda>p. pj_workspace_id p = wid \<and> pj_name p = nm) (map snd (od_projects s))"

definition projects_of_ws :: "string \<Rightarrow> org_db \<Rightarrow> project list" where
  "projects_of_ws wid s = sort_key pj_created_at (filter (\<lambda>p. pj_workspace_id p = wid) (map snd (od_projects s)))"

definition invitation_by_token :: "string \<Rightarrow> org_db \<Rightarrow> invitation option" where
  "invitation_by_token tok s = find (\<lambda>i. iv_token i = tok) (map snd (od_invitations s))"

definition invitations_of_org :: "string \<Rightarrow> invitation_status option \<Rightarrow> org_db \<Rightarrow> invitation list" where
  "invitations_of_org oid st s = sort_key iv_created_at
    (filter (\<lambda>i. iv_organization_id i = oid \<and> (case st of None \<Rightarrow> True | Some x \<Rightarrow> iv_status i = x))
      (map snd (od_invitations s)))"

section \<open>The access guard\<close>

type_synonym role_permissions = "(string, string list) dict"

definition org_role_permissions :: role_permissions where
  "org_role_permissions =
    [(''owner'', [''*'']),
     (''admin'', [''org:view'', ''org:update'', ''org:manage_members'', ''org:manage_teams'', ''org:manage_invitations'',
        ''org:manage_workspaces'', ''workspace:create'', ''workspace:view'', ''workspace:update'',
        ''workspace:archive'', ''workspace:delete'', ''workspace:clone'', ''workspace:transfer'',
        ''project:create'', ''project:view'', ''project:update'', ''project:delete'', ''team:create'',
        ''team:update'', ''team:delete'', ''team:view'']),
     (''member'', [''org:view'', ''workspace:view'', ''workspace:create_project'', ''project:create'',
        ''project:view'', ''project:update'', ''team:view'']),
     (''viewer'', [''org:view'', ''workspace:view'', ''project:view'', ''team:view''])]"

fun role_value :: "member_role \<Rightarrow> string" where
  "role_value MR_OWNER = ''owner''"
| "role_value MR_ADMIN = ''admin''"
| "role_value MR_MEMBER = ''member''"
| "role_value MR_VIEWER = ''viewer''"

definition validate_member_role :: "string \<Rightarrow> org_error + member_role" where
  "validate_member_role role =
    (if role = ''owner'' then Inr MR_OWNER else if role = ''admin'' then Inr MR_ADMIN
     else if role = ''member'' then Inr MR_MEMBER else if role = ''viewer'' then Inr MR_VIEWER
     else Inl (MemberRoleErr (''Invalid member role '' @ role)))"

definition member_allowed :: "role_permissions \<Rightarrow> org_member \<Rightarrow> string \<Rightarrow> bool" where
  "member_allowed rp m perm =
    (if mb_status m \<noteq> MS_ACTIVE then False
     else let perms = set (dict_get_or rp (role_value (mb_role m)) [])
     in if ''*'' \<in> perms then True
        else if perm \<in> perms then True
        else namespace_of perm @ '':*'' \<in> perms)"

definition guard_require :: "role_permissions \<Rightarrow> principal \<Rightarrow> org_member \<Rightarrow> string \<Rightarrow> org_error + unit" where
  "guard_require rp pr m perm =
    (if pr_tenant_id pr \<noteq> '''' \<and> mb_tenant_id m \<noteq> '''' \<and> pr_tenant_id pr \<noteq> mb_tenant_id m
     then Inl (IsolationErr (pr_tenant_id pr))
     else if pr_user_id pr \<noteq> mb_user_id m then Inl (OrgPermissionDenied ''org:access'' (pr_user_id pr))
     else if \<not> member_allowed rp m perm then Inl (OrgPermissionDenied perm (mb_user_id m))
     else Inr ())"

definition assert_tenant :: "string \<Rightarrow> string \<Rightarrow> org_error + unit" where
  "assert_tenant entity tenant =
    (if entity \<noteq> '''' \<and> tenant \<noteq> '''' \<and> entity \<noteq> tenant then Inl (IsolationErr entity) else Inr ())"


section \<open>Members\<close>

definition member_get_org :: "string \<Rightarrow> string \<Rightarrow> organization org_prog" where
  "member_get_org oid tenant =
    andthen (fetch (OrgNotFound oid) (\<lambda>s. dict_get (od_orgs s) oid)) (\<lambda>org.
    andthen (lift_result (assert_tenant (og_tenant_id org) tenant)) (\<lambda>_. ret org))"

text \<open>The check of the acting principal, when there is one.\<close>

definition check_actor :: "role_permissions \<Rightarrow> string \<Rightarrow> principal option \<Rightarrow> unit org_prog" where
  "check_actor rp oid actor =
    (case actor of
       None \<Rightarrow> ret ()
     | Some pr \<Rightarrow>
         andthen (fetch (MemberNotFound oid (pr_user_id pr)) (member_by_user oid (pr_user_id pr))) (\<lambda>m.
           lift_result (guard_require rp pr m ''org:manage_members'')))"

definition add_member ::
  "role_permissions \<Rightarrow> org_config \<Rightarrow> pyfloat \<Rightarrow> string \<Rightarrow> string \<Rightarrow> string \<Rightarrow> string \<Rightarrow> string \<Rightarrow> principal option
    \<Rightarrow> org_member org_prog" where
  "add_member rp cfg now mid oid uid tenant role actor =
    andthen (member_get_org oid tenant) (\<lambda>org.
    andthen (lift_result (assert_tenant (og_tenant_id org) tenant)) (\<lambda>_.
    andthen (require (og_status org = OS_ACTIVE) (OrgArchived oid)) (\<lambda>_.
    andthen (lift_result (validate_member_role role)) (\<lambda>r.
    andthen (require (\<not> (r = MR_OWNER \<and> actor \<noteq> None))
      (MemberRoleErr ''Owner role can only be assigned via transfer of ownership'')) (\<lambda>_.
    andthen (gets (\<lambda>s. (member_by_user oid uid s, length (members_of_org oid s)))) (\<lambda>(existing, n).
    andthen (require (existing = None) (MemberAlreadyExists oid uid)) (\<lambda>_.
    andthen (require (n < oc_max_members cfg) (MemberLimit oid)) (\<lambda>_.
    andthen (check_actor rp oid actor) (\<lambda>_.
      let m = \<lparr>mb_id = mid, mb_organization_id = oid, mb_tenant_id = og_tenant_id org, mb_user_id = uid,
               mb_role = r, mb_status = MS_ACTIVE, mb_created_at = now, mb_updated_at = now\<rparr>
      in andthen (put_member m) (\<lambda>_. ret m))))))))))"

definition remove_member ::
  "role_permissions \<Rightarrow> string \<Rightarrow> string \<Rightarrow> string \<Rightarrow> principal option \<Rightarrow> bool org_prog" where
  "remove_member rp oid uid tenant actor =
    andthen (member_get_org oid tenant) (\<lambda>_.
    andthen (fetch (MemberNotFound oid uid) (member_by_user oid uid)) (\<lambda>m.
    andthen (require (mb_role m \<noteq> MR_OWNER) (MemberRoleErr ''The organization owner cannot be removed'')) (\<lambda>_.
    andthen (check_actor rp oid actor) (\<lambda>_.
    andthen (gets (\<lambda>s. dict_has (od_members s) (mb_id m))) (\<lambda>there.
    andthen (modify (\<lambda>s. s\<lparr>od_members := dict_pop (mb_id m) (od_members s)\<rparr>)) (\<lambda>_. ret there))))))"

definition set_role ::
  "role_permissions \<Rightarrow> pyfloat \<Rightarrow> string \<Rightarrow> string \<Rightarrow> string \<Rightarrow> string \<Rightarrow> principal option \<Rightarrow> org_member org_prog" where
  "set_role rp now oid uid role tenant actor =
    andthen (member_get_org oid tenant) (\<lambda>_.
    andthen (lift_result (validate_member_role role)) (\<lambda>r.
    andthen (fetch (MemberNotFound oid uid) (member_by_user oid uid)) (\<lambda>m.
    andthen (require (mb_role m \<noteq> MR_OWNER)
      (MemberRoleErr ''The organization owner role cannot be changed directly'')) (\<lambda>_.
    andthen (require (r \<noteq> MR_OWNER)
      (MemberRoleErr ''Owner role can only be assigned via transfer of ownership'')) (\<lambda>_.
    andthen (check_actor rp oid actor) (\<lambda>_.
      let m' = m\<lparr>mb_role := r, mb_updated_at := now\<rparr>
      in andthen (put_member m') (\<lambda>_. ret m')))))))"

definition require_member_permission ::
  "role_permissions \<Rightarrow> principal \<Rightarrow> string \<Rightarrow> string \<Rightarrow> string \<Rightarrow> org_member org_prog" where
  "require_member_permission rp pr oid perm tenant =
    andthen (member_get_org oid tenant) (\<lambda>org.
    andthen (fetch (MemberNotFound (og_id org) (pr_user_id pr)) (member_by_user (og_id org) (pr_user_id pr))) (\<lambda>m.
    andthen (lift_result (guard_require rp pr m perm)) (\<lambda>_. ret m)))"

section \<open>Organizations\<close>

definition org_get :: "string \<Rightarrow> string \<Rightarrow> organization org_prog" where
  "org_get tenant oid =
    andthen (fetch (OrgNotFound oid) (\<lambda>s. dict_get (od_orgs s) oid)) (\<lambda>org.
    andthen (require (og_tenant_id org = tenant) (OrgNotFound oid)) (\<lambda>_. ret org))"

definition org_create ::
  "role_permissions \<Rightarrow> org_config \<Rightarrow> pyfloat \<Rightarrow> string \<Rightarrow> string \<Rightarrow> string \<Rightarrow> string \<Rightarrow> string \<Rightarrow> string \<Rightarrow> string
    \<Rightarrow> string \<Rightarrow> organization org_prog" where
  "org_create rp cfg now oid mid tenant nm owner descr slug plan =
    andthen (require (length nm \<le> oc_org_name_max cfg) (OrgValueError ''Organization name'')) (\<lambda>_.
    andthen (gets (\<lambda>s. length (orgs_of_tenant tenant s))) (\<lambda>n.
    andthen (require (n < oc_max_orgs cfg) (OrgLimit tenant)) (\<lambda>_.
      let sl = (if slug \<noteq> '''' then slug else make_slug nm (oc_org_slug_max cfg)) in
    andthen (gets (org_by_slug sl tenant)) (\<lambda>existing.
    andthen (require (existing = None) (OrgAlreadyExists sl)) (\<lambda>_.
      let org = \<lparr>og_id = oid, og_tenant_id = tenant, og_name = nm, og_slug = sl, og_owner_user_id = owner,
                 og_description = descr, og_plan = plan, og_status = OS_ACTIVE, og_created_at = now,
                 og_updated_at = now\<rparr> in
    andthen (put_org org) (\<lambda>_.
    andthen (add_member rp cfg now mid oid owner tenant ''owner'' None) (\<lambda>_. ret org)))))))"

text \<open>The fields are set one after the other on the stored object, so those before a rejected one stay
  set.\<close>

fun org_set_fields :: "string \<Rightarrow> string \<Rightarrow> (string \<times> string) list \<Rightarrow> unit org_prog" where
  "org_set_fields tenant oid [] = ret ()"
| "org_set_fields tenant oid ((k, v) # rest) =
    andthen (require (k \<in> {''name'', ''description'', ''slug'', ''plan'', ''metadata''})
      (OrgValueError (''Unknown organization field '' @ k))) (\<lambda>_.
    andthen (gets (org_by_slug v tenant)) (\<lambda>existing.
    andthen (require (\<not> (k = ''slug'' \<and> (case existing of None \<Rightarrow> False | Some e \<Rightarrow> og_id e \<noteq> oid)))
      (OrgAlreadyExists v)) (\<lambda>_.
    andthen (fetch (OrgNotFound oid) (\<lambda>s. dict_get (od_orgs s) oid)) (\<lambda>org.
    andthen (put_org (if k = ''name'' then org\<lparr>og_name := v\<rparr>
               else if k = ''description'' then org\<lparr>og_description := v\<rparr>
               else if k = ''slug'' then org\<lparr>og_slug := v\<rparr>
               else if k = ''plan'' then org\<lparr>og_plan := v\<rparr> else org)) (\<lambda>_.
      org_set_fields tenant oid rest)))))"

definition org_update ::
  "pyfloat \<Rightarrow> string \<Rightarrow> string \<Rightarrow> (string \<times> string) list \<Rightarrow> organization org_prog" where
  "org_update now tenant oid changes =
    andthen (org_get tenant oid) (\<lambda>_.
    andthen (org_set_fields tenant oid changes) (\<lambda>_.
    andthen (fetch (OrgNotFound oid) (\<lambda>s. dict_get (od_orgs s) oid)) (\<lambda>org.
      let org' = org\<lparr>og_updated_at := now\<rparr> in andthen (put_org org') (\<lambda>_. ret org'))))"

definition drop_projects :: "string \<Rightarrow> org_db \<Rightarrow> org_db" where
  "drop_projects wid s = s\<lparr>od_projects := fold dict_pop (map pj_id (projects_of_ws wid s)) (od_projects s)\<rparr>"

definition drop_workspace :: "string \<Rightarrow> org_db \<Rightarrow> org_db" where
  "drop_workspace wid s = (let s' = drop_projects wid s in s'\<lparr>od_workspaces := dict_pop wid (od_workspaces s')\<rparr>)"

definition org_delete :: "string \<Rightarrow> string \<Rightarrow> bool org_prog" where
  "org_delete tenant oid =
    andthen (org_get tenant oid) (\<lambda>_.
    andthen (modify (\<lambda>s. fold drop_workspace (map ws_id (ws_of_org oid s)) s)) (\<lambda>_.
    andthen (modify (\<lambda>s. s\<lparr>od_teams := fold dict_pop (map tm_id (teams_of_org oid s)) (od_teams s)\<rparr>)) (\<lambda>_.
    andthen (modify (delete_members oid)) (\<lambda>_.
    andthen (modify (\<lambda>s. s\<lparr>od_invitations :=
        fold dict_pop (map iv_id (invitations_of_org oid None s)) (od_invitations s)\<rparr>)) (\<lambda>_.
    andthen (gets (\<lambda>s. dict_has (od_orgs s) oid)) (\<lambda>there.
    andthen (modify (\<lambda>s. s\<lparr>od_orgs := dict_pop oid (od_orgs s)\<rparr>)) (\<lambda>_. ret there)))))))"

definition org_archive :: "pyfloat \<Rightarrow> string \<Rightarrow> string \<Rightarrow> organization org_prog" where
  "org_archive now tenant oid =
    andthen (org_get tenant oid) (\<lambda>org.
      if og_status org = OS_ARCHIVED then ret org
      else let org' = org\<lparr>og_status := OS_ARCHIVED, og_updated_at := now\<rparr> in andthen (put_org org') (\<lambda>_. ret org'))"

definition org_restore :: "pyfloat \<Rightarrow> string \<Rightarrow> string \<Rightarrow> organization org_prog" where
  "org_restore now tenant oid =
    andthen (org_get tenant oid) (\<lambda>org.
      if og_status org = OS_ACTIVE then ret org
      else let org' = org\<lparr>og_status := OS_ACTIVE, og_updated_at := now\<rparr> in andthen (put_org org') (\<lambda>_. ret org'))"

definition transfer_ownership ::
  "role_permissions \<Rightarrow> pyfloat \<Rightarrow> principal \<Rightarrow> string \<Rightarrow> string \<Rightarrow> string \<Rightarrow> organization org_prog" where
  "transfer_ownership rp now pr oid new_owner tenant =
    andthen (org_get tenant oid) (\<lambda>org.
      if new_owner = og_owner_user_id org then ret org
      else
        andthen (fetch (OwnershipTransferErr (pr_user_id pr)) (member_by_user oid (pr_user_id pr))) (\<lambda>am.
        andthen (lift_result (guard_require rp pr am ''org:transfer'')) (\<lambda>_.
        andthen (fetch (OwnershipTransferErr new_owner) (member_by_user oid new_owner)) (\<lambda>nm.
          if mb_role nm = MR_OWNER then ret org
          else
            andthen (gets (member_by_user oid (og_owner_user_id org))) (\<lambda>old.
            andthen (case old of None \<Rightarrow> ret () | Some m \<Rightarrow> put_member (m\<lparr>mb_role := MR_ADMIN\<rparr>)) (\<lambda>_.
            andthen (put_member (nm\<lparr>mb_role := MR_OWNER\<rparr>)) (\<lambda>_.
              let org' = org\<lparr>og_owner_user_id := new_owner, og_updated_at := now\<rparr>
              in andthen (put_org org') (\<lambda>_. ret org'))))))))"


section \<open>Invitations\<close>

definition invitation_expired :: "pyfloat \<Rightarrow> invitation \<Rightarrow> bool" where
  "invitation_expired now i \<longleftrightarrow> iv_expires_at i \<noteq> 0 \<and> iv_expires_at i < now"

definition strict_get_org :: "string \<Rightarrow> string \<Rightarrow> organization org_prog" where
  "strict_get_org oid tenant =
    andthen (fetch (OrgNotFound oid) (\<lambda>s. dict_get (od_orgs s) oid)) (\<lambda>org.
    andthen (require (og_tenant_id org = tenant) (OrgNotFound oid)) (\<lambda>_. ret org))"

definition invitation_create ::
  "org_config \<Rightarrow> pyfloat \<Rightarrow> string \<Rightarrow> string \<Rightarrow> string \<Rightarrow> string \<Rightarrow> string \<Rightarrow> string \<Rightarrow> string \<Rightarrow> int option
    \<Rightarrow> invitation org_prog" where
  "invitation_create cfg now iid tok oid email role tenant invited_by ttl =
    andthen (strict_get_org oid tenant) (\<lambda>org.
    andthen (require (og_status org = OS_ACTIVE) (OrgArchived oid)) (\<lambda>_.
    andthen (lift_result (validate_member_role role)) (\<lambda>r.
    andthen (require (r \<noteq> MR_OWNER) (OrgValueError ''Owner invitations are not allowed'')) (\<lambda>_.
    andthen (require (CHR ''@'' \<in> set email) (OrgValueError ''Invalid email'')) (\<lambda>_.
    andthen (gets (\<lambda>s. length (invitations_of_org oid (Some IS_PENDING) s))) (\<lambda>pending.
    andthen (require (pending < oc_max_invitations cfg) (InvitationLimit oid)) (\<lambda>_.
      let i = \<lparr>iv_id = iid, iv_organization_id = oid, iv_tenant_id = og_tenant_id org, iv_email = email, iv_role = r,
               iv_invited_by = invited_by, iv_token = tok, iv_status = IS_PENDING,
               iv_expires_at = now + of_int (case ttl of Some t \<Rightarrow> t | None \<Rightarrow> oc_invitation_ttl cfg),
               iv_created_at = now, iv_accepted_at = 0, iv_accepted_by = ''''\<rparr>
      in andthen (put_invitation i) (\<lambda>_. ret i))))))))"

definition invitation_accept ::
  "role_permissions \<Rightarrow> org_config \<Rightarrow> pyfloat \<Rightarrow> string \<Rightarrow> string \<Rightarrow> string \<Rightarrow> invitation org_prog" where
  "invitation_accept rp cfg now mid tok uid =
    andthen (fetch (InvitationNotFound tok) (invitation_by_token tok)) (\<lambda>i.
    andthen (require (iv_status i \<noteq> IS_ACCEPTED) (InvitationAlreadyAccepted tok)) (\<lambda>_.
    andthen (require (iv_status i \<noteq> IS_REVOKED) (InvitationNotFound tok)) (\<lambda>_.
      if iv_status i = IS_EXPIRED \<or> invitation_expired now i
      then andthen (if iv_status i = IS_PENDING then put_invitation (i\<lparr>iv_status := IS_EXPIRED\<rparr>) else ret ()) (\<lambda>_.
             throw (InvitationExpired tok))
      else let i' = i\<lparr>iv_status := IS_ACCEPTED, iv_accepted_at := now, iv_accepted_by := uid\<rparr> in
        andthen (put_invitation i') (\<lambda>_.
        andthen (gets (member_by_user (iv_organization_id i) uid)) (\<lambda>existing.
        andthen (if existing = None
                 then andthen (add_member rp cfg now mid (iv_organization_id i) uid (iv_tenant_id i)
                        (role_value (iv_role i)) None) (\<lambda>_. ret ())
                 else ret ()) (\<lambda>_. ret i'))))))"

definition invitation_revoke :: "string \<Rightarrow> string \<Rightarrow> bool org_prog" where
  "invitation_revoke tok tenant =
    andthen (fetch (InvitationNotFound tok) (invitation_by_token tok)) (\<lambda>i.
    andthen (strict_get_org (iv_organization_id i) tenant) (\<lambda>_.
    andthen (require (iv_status i = IS_PENDING) (InvitationNotFound tok)) (\<lambda>_.
    andthen (put_invitation (i\<lparr>iv_status := IS_REVOKED\<rparr>)) (\<lambda>_. ret True))))"

section \<open>Teams\<close>

definition team_create :: "org_config \<Rightarrow> pyfloat \<Rightarrow> string \<Rightarrow> string \<Rightarrow> string \<Rightarrow> string \<Rightarrow> string \<Rightarrow> team org_prog" where
  "team_create cfg now tid oid nm tenant descr =
    andthen (strict_get_org oid tenant) (\<lambda>org.
    andthen (require (length nm \<le> oc_team_name_max cfg) (OrgValueError ''Team name'')) (\<lambda>_.
    andthen (gets (\<lambda>s. length (teams_of_org oid s))) (\<lambda>n.
    andthen (require (n < oc_max_teams cfg) (TeamLimit oid)) (\<lambda>_.
      let t = \<lparr>tm_id = tid, tm_organization_id = oid, tm_tenant_id = og_tenant_id org, tm_name = nm,
               tm_description = descr, tm_created_at = now, tm_updated_at = now\<rparr>
      in andthen (put_team t) (\<lambda>_. ret t)))))"

definition team_get :: "string \<Rightarrow> string \<Rightarrow> string \<Rightarrow> team org_prog" where
  "team_get oid tid tenant =
    andthen (strict_get_org oid tenant) (\<lambda>_.
    andthen (fetch (TeamNotFound tid) (\<lambda>s. dict_get (od_teams s) tid)) (\<lambda>t.
    andthen (require (tm_organization_id t = oid) (TeamNotFound tid)) (\<lambda>_. ret t)))"

fun team_set_fields :: "team \<Rightarrow> (string \<times> string) list \<Rightarrow> team org_prog" where
  "team_set_fields t [] = ret t"
| "team_set_fields t ((k, v) # rest) =
    andthen (require (k \<in> {''name'', ''description''}) (OrgValueError (''Unknown team field '' @ k))) (\<lambda>_.
      let t' = (if k = ''name'' then t\<lparr>tm_name := v\<rparr> else t\<lparr>tm_description := v\<rparr>)
      in andthen (put_team t') (\<lambda>_. team_set_fields t' rest))"

definition team_update :: "pyfloat \<Rightarrow> string \<Rightarrow> string \<Rightarrow> string \<Rightarrow> (string \<times> string) list \<Rightarrow> team org_prog" where
  "team_update now oid tid tenant changes =
    andthen (team_get oid tid tenant) (\<lambda>t.
    andthen (team_set_fields t changes) (\<lambda>t'.
      let t'' = t'\<lparr>tm_updated_at := now\<rparr> in andthen (put_team t'') (\<lambda>_. ret t'')))"

definition team_delete :: "string \<Rightarrow> string \<Rightarrow> string \<Rightarrow> bool org_prog" where
  "team_delete oid tid tenant =
    andthen (team_get oid tid tenant) (\<lambda>_.
    andthen (modify (\<lambda>s. s\<lparr>od_teams := dict_pop tid (od_teams s)\<rparr>)) (\<lambda>_. ret True))"

section \<open>Workspaces\<close>

definition ws_create ::
  "org_config \<Rightarrow> pyfloat \<Rightarrow> string \<Rightarrow> string \<Rightarrow> string \<Rightarrow> string \<Rightarrow> string \<Rightarrow> string \<Rightarrow> string \<Rightarrow> workspace org_prog" where
  "ws_create cfg now wid oid nm owner tenant descr slug =
    andthen (org_get tenant oid) (\<lambda>org.
    andthen (require (og_status org = OS_ACTIVE) (OrgArchived oid)) (\<lambda>_.
    andthen (require (length nm \<le> oc_ws_name_max cfg) (OrgValueError ''Workspace name'')) (\<lambda>_.
      let sl = (if slug \<noteq> '''' then slug else make_slug nm (oc_ws_slug_max cfg)) in
    andthen (gets (\<lambda>s. (ws_by_slug sl oid s, length (ws_of_org oid s)))) (\<lambda>(existing, n).
    andthen (require (existing = None) (WorkspaceAlreadyExists sl)) (\<lambda>_.
    andthen (require (n < oc_max_workspaces cfg) (WorkspaceLimit oid)) (\<lambda>_.
      let w = \<lparr>ws_id = wid, ws_organization_id = oid, ws_tenant_id = og_tenant_id org, ws_name = nm, ws_slug = sl,
               ws_owner_user_id = owner, ws_description = descr, ws_status = WS_ACTIVE, ws_created_at = now,
               ws_updated_at = now\<rparr>
      in andthen (put_ws w) (\<lambda>_. ret w)))))))"

definition ws_get :: "string \<Rightarrow> string \<Rightarrow> string \<Rightarrow> workspace org_prog" where
  "ws_get oid wid tenant =
    andthen (org_get tenant oid) (\<lambda>_.
    andthen (fetch (WorkspaceNotFound wid) (\<lambda>s. dict_get (od_workspaces s) wid)) (\<lambda>w.
    andthen (require (ws_organization_id w = oid \<and> ws_tenant_id w = tenant) (WorkspaceNotFound wid)) (\<lambda>_. ret w)))"

fun ws_set_fields :: "string \<Rightarrow> workspace \<Rightarrow> (string \<times> string) list \<Rightarrow> workspace org_prog" where
  "ws_set_fields oid w [] = ret w"
| "ws_set_fields oid w ((k, v) # rest) =
    andthen (require (k \<in> {''name'', ''description'', ''slug'', ''metadata''})
      (OrgValueError (''Unknown workspace field '' @ k))) (\<lambda>_.
    andthen (gets (ws_by_slug v oid)) (\<lambda>existing.
    andthen (require (\<not> (k = ''slug'' \<and> existing \<noteq> None)) (WorkspaceAlreadyExists v)) (\<lambda>_.
      let w' = (if k = ''name'' then w\<lparr>ws_name := v\<rparr> else if k = ''description'' then w\<lparr>ws_description := v\<rparr>
                else if k = ''slug'' then w\<lparr>ws_slug := v\<rparr> else w)
      in andthen (put_ws w') (\<lambda>_. ws_set_fields oid w' rest))))"

definition ws_update :: "pyfloat \<Rightarrow> string \<Rightarrow> string \<Rightarrow> string \<Rightarrow> (string \<times> string) list \<Rightarrow> workspace org_prog" where
  "ws_update now oid wid tenant changes =
    andthen (ws_get oid wid tenant) (\<lambda>w.
    andthen (ws_set_fields oid w changes) (\<lambda>w'.
      let w'' = w'\<lparr>ws_updated_at := now\<rparr> in andthen (put_ws w'') (\<lambda>_. ret w'')))"

definition ws_delete :: "string \<Rightarrow> string \<Rightarrow> string \<Rightarrow> bool org_prog" where
  "ws_delete oid wid tenant =
    andthen (ws_get oid wid tenant) (\<lambda>_.
    andthen (modify (drop_projects wid)) (\<lambda>_.
    andthen (gets (\<lambda>s. dict_has (od_workspaces s) wid)) (\<lambda>there.
    andthen (modify (\<lambda>s. s\<lparr>od_workspaces := dict_pop wid (od_workspaces s)\<rparr>)) (\<lambda>_. ret there))))"

definition ws_set_status :: "ws_status \<Rightarrow> pyfloat \<Rightarrow> string \<Rightarrow> string \<Rightarrow> string \<Rightarrow> workspace org_prog" where
  "ws_set_status st now oid wid tenant =
    andthen (ws_get oid wid tenant) (\<lambda>w.
      let w' = w\<lparr>ws_status := st, ws_updated_at := now\<rparr> in andthen (put_ws w') (\<lambda>_. ret w'))"

definition ws_clone ::
  "org_config \<Rightarrow> pyfloat \<Rightarrow> string \<Rightarrow> (string \<Rightarrow> string) \<Rightarrow> string \<Rightarrow> string \<Rightarrow> string \<Rightarrow> string \<Rightarrow> bool \<Rightarrow> workspace org_prog" where
  "ws_clone cfg now new_id fresh oid wid tenant nm include_projects =
    andthen (ws_get oid wid tenant) (\<lambda>w.
    andthen (org_get tenant oid) (\<lambda>org.
    andthen (require (og_status org = OS_ACTIVE) (OrgArchived oid)) (\<lambda>_.
    andthen (ws_create cfg now new_id oid (if nm \<noteq> '''' then nm else ws_name w @ '' (copy)'') (ws_owner_user_id w)
      tenant (ws_description w) '''') (\<lambda>c.
    andthen (if include_projects
             then modify (\<lambda>s. s\<lparr>od_projects := fold (\<lambda>p. dict_set (fresh (pj_id p))
                    \<lparr>pj_id = fresh (pj_id p), pj_workspace_id = ws_id c, pj_organization_id = oid,
                     pj_tenant_id = og_tenant_id org, pj_name = pj_name p, pj_description = pj_description p,
                     pj_created_at = now, pj_updated_at = now\<rparr>) (projects_of_ws wid s) (od_projects s)\<rparr>)
             else ret ()) (\<lambda>_. ret c)))))"

definition ws_transfer ::
  "role_permissions \<Rightarrow> pyfloat \<Rightarrow> string \<Rightarrow> string \<Rightarrow> string \<Rightarrow> string \<Rightarrow> principal option \<Rightarrow> workspace org_prog" where
  "ws_transfer rp now oid wid new_owner tenant actor =
    andthen (ws_get oid wid tenant) (\<lambda>w.
    andthen (fetch (MemberNotFound oid new_owner) (member_by_user oid new_owner)) (\<lambda>_.
    andthen (case actor of
        None \<Rightarrow> ret ()
      | Some pr \<Rightarrow> andthen (require_member_permission rp pr oid ''workspace:transfer'' tenant) (\<lambda>_. ret ())) (\<lambda>_.
      let w' = w\<lparr>ws_owner_user_id := new_owner, ws_updated_at := now\<rparr> in andthen (put_ws w') (\<lambda>_. ret w'))))"

section \<open>Projects\<close>

definition pj_scope :: "string \<Rightarrow> string \<Rightarrow> string \<Rightarrow> (organization \<times> workspace) org_prog" where
  "pj_scope oid wid tenant =
    andthen (strict_get_org oid tenant) (\<lambda>org.
    andthen (fetch (WorkspaceNotFound wid) (\<lambda>s. dict_get (od_workspaces s) wid)) (\<lambda>w.
    andthen (require (ws_tenant_id w = tenant \<and> ws_organization_id w = oid) (WorkspaceNotFound wid)) (\<lambda>_.
      ret (org, w))))"

definition pj_create ::
  "org_config \<Rightarrow> pyfloat \<Rightarrow> string \<Rightarrow> string \<Rightarrow> string \<Rightarrow> string \<Rightarrow> string \<Rightarrow> string \<Rightarrow> project org_prog" where
  "pj_create cfg now pid oid wid nm tenant descr =
    andthen (pj_scope oid wid tenant) (\<lambda>(org, w).
    andthen (require (og_status org = OS_ACTIVE) (OrgArchived oid)) (\<lambda>_.
    andthen (require (ws_status w = WS_ACTIVE) (WorkspaceArchived wid)) (\<lambda>_.
    andthen (require (length nm \<le> oc_project_name_max cfg) (OrgValueError ''Project name'')) (\<lambda>_.
    andthen (gets (\<lambda>s. (project_by_name wid nm s, length (projects_of_ws wid s)))) (\<lambda>(existing, n).
    andthen (require (existing = None) (ProjectAlreadyExists nm)) (\<lambda>_.
    andthen (require (n < oc_max_projects cfg) (OrgValueError ''Project limit'')) (\<lambda>_.
      let p = \<lparr>pj_id = pid, pj_workspace_id = wid, pj_organization_id = oid, pj_tenant_id = og_tenant_id org,
               pj_name = nm, pj_description = descr, pj_created_at = now, pj_updated_at = now\<rparr>
      in andthen (put_project p) (\<lambda>_. ret p))))))))"

definition pj_get :: "string \<Rightarrow> string \<Rightarrow> string \<Rightarrow> string \<Rightarrow> project org_prog" where
  "pj_get oid wid pid tenant =
    andthen (pj_scope oid wid tenant) (\<lambda>_.
    andthen (fetch (ProjectNotFound pid) (\<lambda>s. dict_get (od_projects s) pid)) (\<lambda>p.
    andthen (require (pj_organization_id p = oid \<and> pj_workspace_id p = wid) (ProjectNotFound pid)) (\<lambda>_. ret p)))"

fun pj_set_fields :: "project \<Rightarrow> (string \<times> string) list \<Rightarrow> project org_prog" where
  "pj_set_fields p [] = ret p"
| "pj_set_fields p ((k, v) # rest) =
    andthen (require (k \<in> {''name'', ''description'', ''metadata''}) (OrgValueError (''Unknown project field '' @ k))) (\<lambda>_.
      let p' = (if k = ''name'' then p\<lparr>pj_name := v\<rparr> else if k = ''description'' then p\<lparr>pj_description := v\<rparr> else p)
      in andthen (put_project p') (\<lambda>_. pj_set_fields p' rest))"

definition pj_update ::
  "pyfloat \<Rightarrow> string \<Rightarrow> string \<Rightarrow> string \<Rightarrow> string \<Rightarrow> (string \<times> string) list \<Rightarrow> project org_prog" where
  "pj_update now oid wid pid tenant changes =
    andthen (pj_get oid wid pid tenant) (\<lambda>p.
    andthen (pj_set_fields p changes) (\<lambda>p'.
      let p'' = p'\<lparr>pj_updated_at := now\<rparr> in andthen (put_project p'') (\<lambda>_. ret p'')))"

definition pj_delete :: "string \<Rightarrow> string \<Rightarrow> string \<Rightarrow> string \<Rightarrow> bool org_prog" where
  "pj_delete oid wid pid tenant =
    andthen (pj_get oid wid pid tenant) (\<lambda>_.
    andthen (modify (\<lambda>s. s\<lparr>od_projects := dict_pop pid (od_projects s)\<rparr>)) (\<lambda>_. ret True))"

end
