(* ===== verification/Ownership.thy ===== *)
theory Ownership
  imports Organization
begin

text \<open>
  What the operations of \<open>Organization\<close> preserve: every organization has exactly one owner among its
  members and it is the one that the organization names, a user is a member of an organization at
  most once, and no member, workspace, team, project or invitation refers to something that does
  not exist. Each operation is followed step by step with the rules of \<open>Effects\<close>.
\<close>

section \<open>The invariant\<close>

text \<open>\<open>refs f A B\<close>: what the records of \<open>A\<close> refer to by \<open>f\<close> is stored in \<open>B\<close>.\<close>

definition refs :: "('v \<Rightarrow> 'k) \<Rightarrow> ('i \<rightharpoonup> 'v) \<Rightarrow> ('k \<rightharpoonup> 'w) \<Rightarrow> bool" where
  "refs f A B \<longleftrightarrow> (\<forall>i v. A i = Some v \<longrightarrow> B (f v) \<noteq> None)"

lemma refs_put: "refs f A B \<Longrightarrow> B (f v) \<noteq> None \<Longrightarrow> refs f (A(i \<mapsto> v)) B"
  by (simp add: refs_def)

lemma refs_target: "refs f A B \<Longrightarrow> refs f A (B(k \<mapsto> w))"
  by (simp add: refs_def)

lemma refs_less: "refs f A B \<Longrightarrow> (\<And>i v. A' i = Some v \<Longrightarrow> A i = Some v) \<Longrightarrow> refs f A' B"
  unfolding refs_def by blast

lemma refs_cut:
  "refs f A B \<Longrightarrow> (\<And>i v. A' i = Some v \<Longrightarrow> A i = Some v \<and> f v \<noteq> k) \<Longrightarrow> refs f A' (B(k := None))"
  unfolding refs_def by (metis fun_upd_other)

definition once_member :: "(string \<rightharpoonup> org_member) \<Rightarrow> bool" where
  "once_member M \<longleftrightarrow> (\<forall>i j m n. M i = Some m \<longrightarrow> M j = Some n \<longrightarrow>
     mb_organization_id m = mb_organization_id n \<longrightarrow> mb_user_id m = mb_user_id n \<longrightarrow> i = j)"

definition has_owner :: "(string \<rightharpoonup> organization) \<Rightarrow> (string \<rightharpoonup> org_member) \<Rightarrow> bool" where
  "has_owner O' M \<longleftrightarrow> (\<forall>oid org. O' oid = Some org \<longrightarrow>
     (\<exists>i m. M i = Some m \<and> mb_organization_id m = oid \<and> mb_user_id m = og_owner_user_id org \<and> mb_role m = MR_OWNER))"

definition sole_owner :: "(string \<rightharpoonup> organization) \<Rightarrow> (string \<rightharpoonup> org_member) \<Rightarrow> bool" where
  "sole_owner O' M \<longleftrightarrow> (\<forall>i m org. M i = Some m \<longrightarrow> mb_role m = MR_OWNER \<longrightarrow>
     O' (mb_organization_id m) = Some org \<longrightarrow> mb_user_id m = og_owner_user_id org)"

definition project_home :: "(string \<rightharpoonup> project) \<Rightarrow> (string \<rightharpoonup> workspace) \<Rightarrow> bool" where
  "project_home P W \<longleftrightarrow> (\<forall>i p. P i = Some p \<longrightarrow>
     (\<exists>w. W (pj_workspace_id p) = Some w \<and> ws_organization_id w = pj_organization_id p))"

definition no_owner_invited :: "(string \<rightharpoonup> invitation) \<Rightarrow> bool" where
  "no_owner_invited I \<longleftrightarrow> (\<forall>i v. I i = Some v \<longrightarrow> iv_role v \<noteq> MR_OWNER)"

definition tables_filed :: "org_db \<Rightarrow> bool" where
  "tables_filed s \<longleftrightarrow> filed og_id (od_orgs s) \<and> filed mb_id (od_members s) \<and> filed ws_id (od_workspaces s) \<and>
     filed pj_id (od_projects s) \<and> filed tm_id (od_teams s) \<and> filed iv_id (od_invitations s)"

definition member_part :: "(string \<rightharpoonup> organization) \<Rightarrow> (string \<rightharpoonup> org_member) \<Rightarrow> bool" where
  "member_part O' M \<longleftrightarrow> once_member M \<and> has_owner O' M \<and> sole_owner O' M \<and> refs mb_organization_id M O'"

definition link_part :: "org_db \<Rightarrow> bool" where
  "link_part s \<longleftrightarrow> refs ws_organization_id (dict_get (od_workspaces s)) (dict_get (od_orgs s)) \<and>
     refs tm_organization_id (dict_get (od_teams s)) (dict_get (od_orgs s)) \<and>
     refs iv_organization_id (dict_get (od_invitations s)) (dict_get (od_orgs s)) \<and>
     no_owner_invited (dict_get (od_invitations s)) \<and>
     project_home (dict_get (od_projects s)) (dict_get (od_workspaces s))"

definition org_inv :: "org_db \<Rightarrow> bool" where
  "org_inv s \<longleftrightarrow> tables_filed s \<and> member_part (dict_get (od_orgs s)) (dict_get (od_members s)) \<and> link_part s"

lemma org_inv_empty: "org_inv empty_db"
  by (simp add: org_inv_def tables_filed_def member_part_def link_part_def refs_def once_member_def has_owner_def
      sole_owner_def project_home_def no_owner_invited_def empty_db_def)

lemma dict_get_upd: "dict_get (dict_set k v d) = (dict_get d)(k \<mapsto> v)"
  "dict_get (dict_pop k d) = (dict_get d)(k := None)"
  by (rule ext, simp)+

lemmas org_parts = org_inv_def tables_filed_def link_part_def

lemma member_by_user_Some:
  assumes "org_inv s" and "member_by_user oid uid s = Some m"
  shows "dict_get (od_members s) (mb_id m) = Some m" "mb_organization_id m = oid" "mb_user_id m = uid"
  using filed_find [of mb_id "od_members s" "\<lambda>m. mb_organization_id m = oid \<and> mb_user_id m = uid" m] assms
  by (auto simp: member_by_user_def org_parts)

lemma member_by_user_None:
  assumes "org_inv s" and "member_by_user oid uid s = None" and "dict_get (od_members s) i = Some m"
  shows "\<not> (mb_organization_id m = oid \<and> mb_user_id m = uid)"
  using filed_find_None [of mb_id "od_members s" "\<lambda>m. mb_organization_id m = oid \<and> mb_user_id m = uid" i m] assms
  by (auto simp: member_by_user_def org_parts)

lemma invitation_by_token_Some:
  assumes "org_inv s" and "invitation_by_token tok s = Some i"
  shows "dict_get (od_invitations s) (iv_id i) = Some i"
  using filed_find [of iv_id "od_invitations s" "\<lambda>i. iv_token i = tok" i] assms
  by (auto simp: invitation_by_token_def org_parts)

section \<open>Members under single writes\<close>

lemma member_part_org:
  assumes "member_part O' M" and "O' oid = Some org" and "og_owner_user_id org' = og_owner_user_id org"
  shows "member_part (O'(oid \<mapsto> org')) M"
proof -
  have "has_owner (O'(oid \<mapsto> org')) M"
    unfolding has_owner_def
  proof (intro allI impI)
    fix o2 org2
    assume o2: "(O'(oid \<mapsto> org')) o2 = Some org2"
    then obtain org3 where "O' o2 = Some org3" "og_owner_user_id org2 = og_owner_user_id org3"
      using assms(2,3) by (cases "o2 = oid") auto
    with assms(1) show "\<exists>i m. M i = Some m \<and> mb_organization_id m = o2 \<and> mb_user_id m = og_owner_user_id org2 \<and>
        mb_role m = MR_OWNER" by (simp add: member_part_def has_owner_def)
  qed
  moreover have "sole_owner (O'(oid \<mapsto> org')) M" using assms unfolding member_part_def sole_owner_def by auto
  ultimately show ?thesis using assms(1) by (simp add: member_part_def refs_target)
qed

lemma once_member_put:
  assumes "once_member M" and "\<And>j n. M j = Some n \<Longrightarrow> j \<noteq> i \<Longrightarrow>
    \<not> (mb_organization_id n = mb_organization_id m \<and> mb_user_id n = mb_user_id m)"
  shows "once_member (M(i \<mapsto> m))"
  unfolding once_member_def
proof (intro allI impI)
  fix k j a b
  assume "(M(i \<mapsto> m)) k = Some a" "(M(i \<mapsto> m)) j = Some b" and eq: "mb_organization_id a = mb_organization_id b"
    "mb_user_id a = mb_user_id b"
  then consider "k = i" "j = i" | "j \<noteq> i" "a = m" "M j = Some b" | "k \<noteq> i" "b = m" "M k = Some a"
    | "M k = Some a" "M j = Some b" by (cases "k = i"; cases "j = i") auto
  then show "k = j"
  proof cases
    case 2
    with assms(2) [of j b] eq show ?thesis by simp
  next
    case 3
    with assms(2) [of k a] eq show ?thesis by simp
  next
    case 4
    with eq assms(1) show ?thesis unfolding once_member_def by blast
  qed simp
qed

lemma member_part_put:
  assumes "member_part O' M" and "mb_role m \<noteq> MR_OWNER" and "O' (mb_organization_id m) \<noteq> None"
    and "\<And>j n. M j = Some n \<Longrightarrow> j \<noteq> i \<Longrightarrow> \<not> (mb_organization_id n = mb_organization_id m \<and> mb_user_id n = mb_user_id m)"
    and "\<And>n. M i = Some n \<Longrightarrow> mb_role n \<noteq> MR_OWNER"
  shows "member_part O' (M(i \<mapsto> m))"
proof -
  have "has_owner O' (M(i \<mapsto> m))"
    unfolding has_owner_def
  proof (intro allI impI)
    fix oid org
    assume "O' oid = Some org"
    with assms(1) obtain j n where j: "M j = Some n" "mb_organization_id n = oid"
      "mb_user_id n = og_owner_user_id org" "mb_role n = MR_OWNER" unfolding member_part_def has_owner_def by blast
    with assms(5) have "j \<noteq> i" by blast
    with j show "\<exists>j n. (M(i \<mapsto> m)) j = Some n \<and> mb_organization_id n = oid \<and>
        mb_user_id n = og_owner_user_id org \<and> mb_role n = MR_OWNER" by (intro exI [of _ j] exI [of _ n]) simp
  qed
  moreover have "sole_owner O' (M(i \<mapsto> m))" using assms(1,2) unfolding member_part_def sole_owner_def by auto
  moreover have "once_member (M(i \<mapsto> m))" using assms(1,4) by (intro once_member_put) (auto simp: member_part_def)
  ultimately show ?thesis using assms(1,3) by (simp add: member_part_def refs_put)
qed

lemma member_part_remove:
  assumes "member_part O' M" and "M i = Some m" and "mb_role m \<noteq> MR_OWNER"
  shows "member_part O' (M(i := None))"
proof -
  have "has_owner O' (M(i := None))"
    unfolding has_owner_def
  proof (intro allI impI)
    fix oid org
    assume "O' oid = Some org"
    with assms(1) obtain j n where j: "M j = Some n" "mb_organization_id n = oid"
      "mb_user_id n = og_owner_user_id org" "mb_role n = MR_OWNER" unfolding member_part_def has_owner_def by blast
    with assms(2,3) have "j \<noteq> i" by auto
    with j show "\<exists>j n. (M(i := None)) j = Some n \<and> mb_organization_id n = oid \<and>
        mb_user_id n = og_owner_user_id org \<and> mb_role n = MR_OWNER" by (intro exI [of _ j] exI [of _ n]) simp
  qed
  then show ?thesis using assms(1)
    by (auto simp: member_part_def refs_def sole_owner_def once_member_def split: if_splits)
qed

lemma member_part_create:
  assumes "member_part O' M" and "O' oid = None" and "M i = None"
    and "mb_organization_id m = oid" and "mb_user_id m = og_owner_user_id org" and "mb_role m = MR_OWNER"
  shows "member_part (O'(oid \<mapsto> org)) (M(i \<mapsto> m))"
proof -
  have out: "mb_organization_id n \<noteq> oid" if "M j = Some n" for j n
    using assms(1,2) that unfolding member_part_def refs_def by blast
  have "has_owner (O'(oid \<mapsto> org)) (M(i \<mapsto> m))"
    unfolding has_owner_def
  proof (intro allI impI)
    fix o2 org2
    assume o2: "(O'(oid \<mapsto> org)) o2 = Some org2"
    show "\<exists>j n. (M(i \<mapsto> m)) j = Some n \<and> mb_organization_id n = o2 \<and>
        mb_user_id n = og_owner_user_id org2 \<and> mb_role n = MR_OWNER"
    proof (cases "o2 = oid")
      case True
      then show ?thesis using o2 assms(4-6) by (intro exI [of _ i] exI [of _ m]) simp
    next
      case False
      with o2 have "O' o2 = Some org2" by simp
      with assms(1) obtain j n where j: "M j = Some n" "mb_organization_id n = o2"
        "mb_user_id n = og_owner_user_id org2" "mb_role n = MR_OWNER" unfolding member_part_def has_owner_def by blast
      with assms(3) have "j \<noteq> i" by auto
      with j show ?thesis by (intro exI [of _ j] exI [of _ n]) simp
    qed
  qed
  moreover have "sole_owner (O'(oid \<mapsto> org)) (M(i \<mapsto> m))"
    using assms out by (auto simp: member_part_def sole_owner_def)
  moreover have "once_member (M(i \<mapsto> m))"
    using assms(1,4) out by (intro once_member_put) (auto simp: member_part_def)
  ultimately show ?thesis using assms(1,4) by (simp add: member_part_def refs_put refs_target)
qed

lemma member_part_delete:
  assumes "member_part O' M" and "\<And>i m. M' i = Some m \<longleftrightarrow> M i = Some m \<and> mb_organization_id m \<noteq> oid"
  shows "member_part (O'(oid := None)) M'"
proof -
  have "has_owner (O'(oid := None)) M'"
    using assms unfolding member_part_def has_owner_def by (auto split: if_splits) metis
  moreover have "refs mb_organization_id M' (O'(oid := None))"
    using assms by (intro refs_cut [of _ M]) (auto simp: member_part_def)
  moreover have "sole_owner (O'(oid := None)) M'" "once_member M'"
    using assms by (auto simp: member_part_def sole_owner_def once_member_def split: if_splits)
  ultimately show ?thesis by (simp add: member_part_def)
qed

lemma member_part_transfer:
  assumes "member_part O' M" and "O' oid = Some org" and "og_owner_user_id org' = mb_user_id nm"
    and "M i = Some nm" and "mb_organization_id nm = oid"
    and "M j = Some old" and "mb_organization_id old = oid" and "mb_user_id old = og_owner_user_id org"
    and "mb_user_id nm \<noteq> og_owner_user_id org"
  shows "member_part (O'(oid \<mapsto> org')) (M(j \<mapsto> old\<lparr>mb_role := MR_ADMIN\<rparr>, i \<mapsto> nm\<lparr>mb_role := MR_OWNER\<rparr>))"
    (is "member_part ?O ?M")
proof -
  have ij: "i \<noteq> j" using assms(4,6,8,9) by auto
  have part: "once_member M" "has_owner O' M" "sole_owner O' M" "refs mb_organization_id M O'"
    using assms(1) by (simp_all add: member_part_def)
  have low: "mb_role n \<noteq> MR_OWNER" if "M k = Some n" "mb_organization_id n = oid" "k \<noteq> j" for k n
  proof
    assume "mb_role n = MR_OWNER"
    with part(3) that assms(2) have "mb_user_id n = og_owner_user_id org" unfolding sole_owner_def by blast
    with part(1) that assms(6-8) show False unfolding once_member_def by metis
  qed
  have "has_owner ?O ?M"
    unfolding has_owner_def
  proof (intro allI impI)
    fix o2 org2
    assume o2: "?O o2 = Some org2"
    show "\<exists>k n. ?M k = Some n \<and> mb_organization_id n = o2 \<and> mb_user_id n = og_owner_user_id org2 \<and> mb_role n = MR_OWNER"
    proof (cases "o2 = oid")
      case True
      then show ?thesis using o2 assms(3,5) by (intro exI [of _ i] exI [of _ "nm\<lparr>mb_role := MR_OWNER\<rparr>"]) simp
    next
      case False
      with o2 have "O' o2 = Some org2" by simp
      with part(2) obtain k n where k: "M k = Some n" "mb_organization_id n = o2"
        "mb_user_id n = og_owner_user_id org2" "mb_role n = MR_OWNER" unfolding has_owner_def by blast
      with False assms(4-7) have "k \<noteq> i" "k \<noteq> j" by auto
      with k show ?thesis by (intro exI [of _ k] exI [of _ n]) simp
    qed
  qed
  moreover have "sole_owner ?O ?M"
    unfolding sole_owner_def
  proof (intro allI impI)
    fix k n org2
    assume k: "?M k = Some n" "mb_role n = MR_OWNER" "?O (mb_organization_id n) = Some org2"
    show "mb_user_id n = og_owner_user_id org2"
    proof (cases "k = i")
      case True
      then show ?thesis using k assms(3,5) by auto
    next
      case False
      with k(1,2) have "k \<noteq> j" "M k = Some n" by (auto split: if_splits)
      moreover from this k(2) low have "mb_organization_id n \<noteq> oid" by blast
      ultimately show ?thesis using k part(3) unfolding sole_owner_def by simp
    qed
  qed
  moreover have "once_member ?M"
    using part(1) assms(4,6) ij unfolding once_member_def by (auto split: if_splits)
  moreover have "refs mb_organization_id ?M ?O"
    using part(4) assms(2,5,7) by (intro refs_put refs_target) simp_all
  ultimately show ?thesis by (simp add: member_part_def)
qed

section \<open>The whole state under single writes\<close>

lemma org_inv_member:
  assumes "org_inv s" and "member_part (dict_get (od_orgs s)) (dict_get ms)" and "filed mb_id ms"
  shows "org_inv (s\<lparr>od_members := ms\<rparr>)"
  using assms by (simp add: org_parts)

lemma org_inv_put_org:
  assumes "org_inv s" and "dict_get (od_orgs s) oid = Some org" and "og_id org' = oid"
    and "og_owner_user_id org' = og_owner_user_id org"
  shows "org_inv (s\<lparr>od_orgs := dict_set oid org' (od_orgs s)\<rparr>)"
  using assms member_part_org [of "dict_get (od_orgs s)" "dict_get (od_members s)" oid org org']
  by (simp add: org_parts dict_get_upd refs_target filed_set)

lemma org_inv_put_member:
  assumes "org_inv s" and "dict_get (od_orgs s) (mb_organization_id m) \<noteq> None" and "mb_role m \<noteq> MR_OWNER"
    and "\<And>j n. dict_get (od_members s) j = Some n \<Longrightarrow> j \<noteq> mb_id m \<Longrightarrow>
      \<not> (mb_organization_id n = mb_organization_id m \<and> mb_user_id n = mb_user_id m)"
    and "\<And>n. dict_get (od_members s) (mb_id m) = Some n \<Longrightarrow> mb_role n \<noteq> MR_OWNER"
  shows "org_inv (s\<lparr>od_members := dict_set (mb_id m) m (od_members s)\<rparr>)"
proof (rule org_inv_member [OF assms(1)])
  show "member_part (dict_get (od_orgs s)) (dict_get (dict_set (mb_id m) m (od_members s)))"
    unfolding dict_get_upd using assms by (intro member_part_put) (auto simp: org_inv_def)
  show "filed mb_id (dict_set (mb_id m) m (od_members s))" using assms(1) by (auto simp: org_parts)
qed

lemma org_inv_pop_member:
  assumes "org_inv s" and "dict_get (od_members s) i = Some m" and "mb_role m \<noteq> MR_OWNER"
  shows "org_inv (s\<lparr>od_members := dict_pop i (od_members s)\<rparr>)"
proof (rule org_inv_member [OF assms(1)])
  show "member_part (dict_get (od_orgs s)) (dict_get (dict_pop i (od_members s)))"
    unfolding dict_get_upd using assms by (intro member_part_remove) (auto simp: org_inv_def)
  show "filed mb_id (dict_pop i (od_members s))" using assms(1) by (auto simp: org_parts)
qed

lemma org_inv_put_invitation:
  assumes "org_inv s" and "dict_get (od_orgs s) (iv_organization_id i) \<noteq> None" and "iv_role i \<noteq> MR_OWNER"
  shows "org_inv (s\<lparr>od_invitations := dict_set (iv_id i) i (od_invitations s)\<rparr>)"
  using assms by (auto simp: org_parts dict_get_upd no_owner_invited_def intro: refs_put)

lemma org_inv_put_team:
  assumes "org_inv s" and "dict_get (od_orgs s) (tm_organization_id t) \<noteq> None"
  shows "org_inv (s\<lparr>od_teams := dict_set (tm_id t) t (od_teams s)\<rparr>)"
  using assms by (auto simp: org_parts dict_get_upd intro: refs_put)

lemma org_inv_put_project:
  assumes "org_inv s" and "dict_get (od_workspaces s) (pj_workspace_id p) = Some w"
    and "ws_organization_id w = pj_organization_id p"
  shows "org_inv (s\<lparr>od_projects := dict_set (pj_id p) p (od_projects s)\<rparr>)"
  using assms by (auto simp: org_parts dict_get_upd project_home_def)

lemma org_inv_put_ws:
  assumes "org_inv s" and "dict_get (od_orgs s) (ws_organization_id w) \<noteq> None"
    and "\<And>w'. dict_get (od_workspaces s) (ws_id w) = Some w' \<Longrightarrow> ws_organization_id w' = ws_organization_id w"
  shows "org_inv (s\<lparr>od_workspaces := dict_set (ws_id w) w (od_workspaces s)\<rparr>)"
proof -
  have "project_home (dict_get (od_projects s)) ((dict_get (od_workspaces s))(ws_id w \<mapsto> w))"
    using assms(1,3) unfolding org_parts project_home_def by (auto split: if_splits) metis
  then show ?thesis using assms(1,2) by (auto simp: org_parts dict_get_upd intro: refs_put)
qed

lemma org_inv_pop_team: "org_inv s \<Longrightarrow> org_inv (s\<lparr>od_teams := dict_pop i (od_teams s)\<rparr>)"
  by (auto simp: org_parts dict_get_upd split: if_splits elim!: refs_less)

lemma org_inv_pop_project: "org_inv s \<Longrightarrow> org_inv (s\<lparr>od_projects := dict_pop i (od_projects s)\<rparr>)"
  by (auto simp: org_parts dict_get_upd project_home_def)

lemma org_inv_drop_ws:
  assumes "org_inv s"
  shows "org_inv (drop_workspace wid s)"
proof -
  have f: "filed pj_id (od_projects s)" using assms by (simp add: org_parts)
  let ?ps = "fold dict_pop (map pj_id (projects_of_ws wid s)) (od_projects s)"
  have get: "dict_get ?ps k = Some p \<longleftrightarrow> dict_get (od_projects s) k = Some p \<and> pj_workspace_id p \<noteq> wid" for k p
    unfolding projects_of_ws_def filed_drop [OF f] by (auto split: option.splits)
  have "project_home (dict_get ?ps) ((dict_get (od_workspaces s))(wid := None))"
    using assms unfolding org_parts project_home_def get by auto
  moreover have "refs ws_organization_id ((dict_get (od_workspaces s))(wid := None)) (dict_get (od_orgs s))"
    using assms by (auto simp: org_parts split: if_splits elim!: refs_less)
  ultimately show ?thesis
    using assms by (auto simp: org_parts drop_workspace_def drop_projects_def Let_def dict_get_upd)
qed


lemma drop_workspace_sel [simp]:
  "od_orgs (drop_workspace wid s) = od_orgs s" "od_members (drop_workspace wid s) = od_members s"
  "od_teams (drop_workspace wid s) = od_teams s" "od_invitations (drop_workspace wid s) = od_invitations s"
  "od_workspaces (drop_workspace wid s) = dict_pop wid (od_workspaces s)"
  by (simp_all add: drop_workspace_def drop_projects_def Let_def)

lemma fold_drop_workspace:
  "org_inv s \<Longrightarrow> org_inv (fold drop_workspace ids s) \<and>
    od_orgs (fold drop_workspace ids s) = od_orgs s \<and> od_members (fold drop_workspace ids s) = od_members s \<and>
    od_teams (fold drop_workspace ids s) = od_teams s \<and>
    od_invitations (fold drop_workspace ids s) = od_invitations s \<and>
    od_workspaces (fold drop_workspace ids s) = fold dict_pop ids (od_workspaces s)"
  by (induction ids arbitrary: s) (simp_all add: org_inv_drop_ws)

lemma org_inv_delete:
  assumes "org_inv s" and "\<And>k w. dict_get (od_workspaces s) k = Some w \<Longrightarrow> ws_organization_id w \<noteq> oid"
  shows "org_inv (s\<lparr>od_teams := fold dict_pop (map tm_id (teams_of_org oid s)) (od_teams s),
      od_members := od_members (delete_members oid s),
      od_invitations := fold dict_pop (map iv_id (invitations_of_org oid None s)) (od_invitations s),
      od_orgs := dict_pop oid (od_orgs s)\<rparr>)"
proof -
  note filed = assms(1) [unfolded org_parts, THEN conjunct1]
  have ok: "dict_ok (od_members s)" using filed by (simp add: filed_def)
  have teams: "dict_get (fold dict_pop (map tm_id (teams_of_org oid s)) (od_teams s)) k = Some t \<Longrightarrow>
      dict_get (od_teams s) k = Some t \<and> tm_organization_id t \<noteq> oid" for k t
    unfolding teams_of_org_def using filed by (auto simp: filed_drop split: option.splits if_splits)
  have invs: "dict_get (fold dict_pop (map iv_id (invitations_of_org oid None s)) (od_invitations s)) k = Some i \<Longrightarrow>
      dict_get (od_invitations s) k = Some i \<and> iv_organization_id i \<noteq> oid" for k i
    unfolding invitations_of_org_def using filed by (auto simp: filed_drop split: option.splits if_splits)
  have mems: "dict_get (od_members (delete_members oid s)) k = Some m \<longleftrightarrow>
      dict_get (od_members s) k = Some m \<and> mb_organization_id m \<noteq> oid" for k m
  proof -
    have "k \<in> fst ` {p \<in> set (od_members s). mb_organization_id (snd p) = oid} \<longleftrightarrow>
        (\<exists>m. dict_get (od_members s) k = Some m \<and> mb_organization_id m = oid)"
      using dict_get_iff [OF ok] by force
    then show ?thesis by (auto simp: delete_members_def dict_get_fold_pop case_prod_beta)
  qed
  have "filed mb_id (od_members (delete_members oid s))"
    using filed by (auto simp: delete_members_def)
  moreover have "member_part ((dict_get (od_orgs s))(oid := None)) (dict_get (od_members (delete_members oid s)))"
    by (rule member_part_delete [OF _ mems]) (use assms(1) in \<open>simp add: org_inv_def\<close>)
  moreover have "no_owner_invited (dict_get (fold dict_pop (map iv_id (invitations_of_org oid None s)) (od_invitations s)))"
    using assms(1) invs unfolding org_parts no_owner_invited_def by blast
  moreover have "refs ws_organization_id (dict_get (od_workspaces s)) ((dict_get (od_orgs s))(oid := None))"
    "refs tm_organization_id (dict_get (fold dict_pop (map tm_id (teams_of_org oid s)) (od_teams s)))
       ((dict_get (od_orgs s))(oid := None))"
    "refs iv_organization_id (dict_get (fold dict_pop (map iv_id (invitations_of_org oid None s)) (od_invitations s)))
       ((dict_get (od_orgs s))(oid := None))"
  proof -
    have r: "refs ws_organization_id (dict_get (od_workspaces s)) (dict_get (od_orgs s))"
      "refs tm_organization_id (dict_get (od_teams s)) (dict_get (od_orgs s))"
      "refs iv_organization_id (dict_get (od_invitations s)) (dict_get (od_orgs s))"
      using assms(1) by (simp_all add: org_parts)
    show "refs ws_organization_id (dict_get (od_workspaces s)) ((dict_get (od_orgs s))(oid := None))"
      by (rule refs_cut [OF r(1)]) (use assms(2) in blast)
    show "refs tm_organization_id (dict_get (fold dict_pop (map tm_id (teams_of_org oid s)) (od_teams s)))
       ((dict_get (od_orgs s))(oid := None))" by (rule refs_cut [OF r(2)]) (fact teams)
    show "refs iv_organization_id (dict_get (fold dict_pop (map iv_id (invitations_of_org oid None s)) (od_invitations s)))
       ((dict_get (od_orgs s))(oid := None))" by (rule refs_cut [OF r(3)]) (fact invs)
  qed
  ultimately show ?thesis using assms(1) by (auto simp: org_parts dict_get_upd)
qed


lemma org_inv_change_member:
  assumes "org_inv s" and "dict_get (od_members s) (mb_id m) = Some m" and "mb_role m \<noteq> MR_OWNER"
    and "mb_id m' = mb_id m" and "mb_organization_id m' = mb_organization_id m" and "mb_user_id m' = mb_user_id m"
    and "mb_role m' \<noteq> MR_OWNER"
  shows "org_inv (s\<lparr>od_members := dict_set (mb_id m') m' (od_members s)\<rparr>)"
proof (rule org_inv_put_member [OF assms(1) _ assms(7)])
  have part: "once_member (dict_get (od_members s))" "refs mb_organization_id (dict_get (od_members s)) (dict_get (od_orgs s))"
    using assms(1) by (simp_all add: org_inv_def member_part_def)
  show "dict_get (od_orgs s) (mb_organization_id m') \<noteq> None"
    using part(2) assms(2,5) unfolding refs_def by simp
  show "\<not> (mb_organization_id n = mb_organization_id m' \<and> mb_user_id n = mb_user_id m')"
    if "dict_get (od_members s) j = Some n" "j \<noteq> mb_id m'" for j n
    using part(1) that assms(2,4,5,6) unfolding once_member_def by metis
  show "mb_role n \<noteq> MR_OWNER" if "dict_get (od_members s) (mb_id m') = Some n" for n
    using that assms(2,3,4) by simp
qed

section \<open>Every operation keeps the invariant\<close>

lemma check_actor_keeps: "keeps P (check_actor rp oid actor)"
  unfolding check_actor_def by (intro sp_rules) auto

lemma role_value_valid: "validate_member_role (role_value r) = Inr r"
  by (cases r) (simp_all add: validate_member_role_def)

lemma validate_owner: "validate_member_role role = Inr MR_OWNER \<Longrightarrow> role = ''owner''"
  by (simp add: validate_member_role_def split: if_splits)

lemma add_member_keeps:
  assumes "role \<noteq> ''owner''"
  shows "triple (\<lambda>s. org_inv s \<and> dict_get (od_members s) mid = None)
    (add_member rp cfg now mid oid uid tenant role actor) (\<lambda>_. org_inv) (\<lambda>_. org_inv)"
  unfolding add_member_def member_get_org_def put_member_def andthen_norm Let_def
  apply (intro sp_pure [OF check_actor_keeps] sp_rules; (elim conjE exE)?; (assumption)?)
  subgoal for org _ _ r existing n _ _ s
    using assms validate_owner member_by_user_None [of s oid uid]
      org_inv_put_member [of s "\<lparr>mb_id = mid, mb_organization_id = oid, mb_tenant_id = og_tenant_id org, mb_user_id = uid,
               mb_role = r, mb_status = MS_ACTIVE, mb_created_at = now, mb_updated_at = now\<rparr>"]
    by auto
  done

lemma remove_member_keeps: "keeps org_inv (remove_member rp oid uid tenant actor)"
  unfolding remove_member_def member_get_org_def andthen_norm Let_def
  by (intro sp_pure [OF check_actor_keeps] sp_rules; (elim conjE exE)?; (assumption)?)
    (auto dest: member_by_user_Some intro: org_inv_pop_member)

lemma set_role_keeps: "keeps org_inv (set_role rp now oid uid role tenant actor)"
  unfolding set_role_def member_get_org_def put_member_def andthen_norm Let_def
  apply (intro sp_pure [OF check_actor_keeps] sp_rules; (elim conjE exE)?; (assumption)?)
  subgoal for org _ r m _ _ s
    using member_by_user_Some [of s oid uid m]
      org_inv_change_member [of s m "m\<lparr>mb_role := r, mb_updated_at := now\<rparr>"] by auto
  done


lemma org_inv_put_org_id:
  assumes "org_inv s" and "dict_get (od_orgs s) oid = Some org" and "og_id org' = og_id org"
    and "og_owner_user_id org' = og_owner_user_id org"
  shows "org_inv (s\<lparr>od_orgs := dict_set (og_id org) org' (od_orgs s)\<rparr>)"
proof -
  have "og_id org = oid" using assms(1,2) by (auto simp: org_parts dest: filedD)
  with assms show ?thesis using org_inv_put_org [of s oid org org'] by simp
qed

lemma org_archive_keeps: "keeps org_inv (org_archive now tenant oid)" "keeps org_inv (org_restore now tenant oid)"
  unfolding org_archive_def org_restore_def org_get_def put_org_def andthen_norm Let_def
  by (intro sp_rules; (elim conjE exE)?; simp add: org_inv_put_org_id)+

lemma org_set_fields_keeps: "keeps org_inv (org_set_fields tenant oid changes)"
proof (induction changes)
  case (Cons c rest)
  obtain k v where c: "c = (k, v)" by (cases c)
  show ?case unfolding c org_set_fields.simps put_org_def andthen_norm
    by (intro sp_fetch sp_require sp_gets sp_modify triple_pre [OF _ Cons.IH]; (elim conjE exE)?; (assumption)?)
      (simp add: org_inv_put_org_id)
next
  case Nil
  show ?case unfolding org_set_fields.simps by (rule sp_ret)
qed

lemma org_update_keeps: "keeps org_inv (org_update now tenant oid changes)"
  unfolding org_update_def org_get_def put_org_def andthen_norm Let_def
  by (intro sp_fetch sp_require sp_call [OF triple_pre [OF _ org_set_fields_keeps]] sp_modify sp_ret; (elim conjE exE)?;
      simp add: org_inv_put_org_id)

lemma org_delete_keeps: "keeps org_inv (org_delete tenant oid)"
proof (rule tripleI)
  fix s a s'
  assume inv: "org_inv s" and run: "org_delete tenant oid s = (Inr a, s')"
  let ?s = "fold drop_workspace (map ws_id (ws_of_org oid s)) s"
  note f = fold_drop_workspace [OF inv, of "map ws_id (ws_of_org oid s)"]
  have fw: "filed ws_id (od_workspaces s)" using inv by (simp add: org_parts)
  have "ws_organization_id w \<noteq> oid" if "dict_get (od_workspaces ?s) k = Some w" for k w
    using that f filed_drop [OF fw, of ws_created_at "\<lambda>w. ws_organization_id w = oid" k] unfolding ws_of_org_def
    by (auto split: option.splits if_splits)
  from org_inv_delete [OF f [THEN conjunct1] this]
  have "org_inv (?s\<lparr>od_teams := fold dict_pop (map tm_id (teams_of_org oid ?s)) (od_teams ?s),
      od_members := od_members (delete_members oid ?s),
      od_invitations := fold dict_pop (map iv_id (invitations_of_org oid None ?s)) (od_invitations ?s),
      od_orgs := dict_pop oid (od_orgs ?s)\<rparr>)" .
  then show "org_inv s'"
    using run
    by (auto simp: org_delete_def org_get_def fetch_def andthen_def delete_members_def teams_of_org_def
        invitations_of_org_def split: option.splits if_splits)
next
  fix s e s'
  assume "org_inv s" and "org_delete tenant oid s = (Inl e, s')"
  then show "org_inv s'"
    by (auto simp: org_delete_def org_get_def fetch_def andthen_def split: option.splits if_splits)
qed

lemma org_inv_new_org:
  assumes "org_inv s" and "dict_get (od_orgs s) oid = None" and "dict_get (od_members s) mid = None"
    and "og_id org = oid" and "mb_id m = mid" and "mb_organization_id m = oid"
    and "mb_user_id m = og_owner_user_id org" and "mb_role m = MR_OWNER"
  shows "org_inv (s\<lparr>od_orgs := dict_set oid org (od_orgs s), od_members := dict_set mid m (od_members s)\<rparr>)"
  using assms member_part_create [of "dict_get (od_orgs s)" "dict_get (od_members s)" oid mid m org]
  by (auto simp: org_parts dict_get_upd refs_target)

lemma org_create_keeps:
  assumes "0 < oc_max_members cfg"
  shows "triple (\<lambda>s. org_inv s \<and> dict_get (od_orgs s) oid = None \<and> dict_get (od_members s) mid = None)
    (org_create rp cfg now oid mid tenant nm owner descr slug plan) (\<lambda>_. org_inv) (\<lambda>_. org_inv)"
proof -
  have none: "member_by_user oid uid s = None \<and> members_of_org oid s = []"
    if "org_inv s" "dict_get (od_orgs s) oid = None" for s uid
  proof -
    have "mb_organization_id m \<noteq> oid" if mem: "(i, m) \<in> set (od_members s)" for i m
    proof -
      have "dict_ok (od_members s)" using \<open>org_inv s\<close> by (simp add: org_parts filed_def)
      then have "dict_get (od_members s) i = Some m" using mem by (rule dict_ok_getI)
      then have "dict_get (od_orgs s) (mb_organization_id m) \<noteq> None"
        using \<open>org_inv s\<close> unfolding org_inv_def member_part_def refs_def by blast
      with \<open>dict_get (od_orgs s) oid = None\<close> show ?thesis by metis
    qed
    then have "filter (\<lambda>m. mb_organization_id m = oid) (map snd (od_members s)) = []"
      and "\<not> (\<exists>m \<in> set (map snd (od_members s)). mb_organization_id m = oid \<and> mb_user_id m = uid)"
      by (fastforce simp: filter_empty_conv)+
    then show ?thesis unfolding member_by_user_def members_of_org_def find_None_iff by simp
  qed
  have "member_by_user oid uid (s\<lparr>od_orgs := x\<rparr>) = member_by_user oid uid s"
    "members_of_org oid (s\<lparr>od_orgs := x\<rparr>) = members_of_org oid s" for uid s x
    by (simp_all add: member_by_user_def members_of_org_def)
  note frame = this
  have owner: "triple (\<lambda>s'. \<exists>s. (org_inv s \<and> dict_get (od_orgs s) oid = None \<and> dict_get (od_members s) mid = None) \<and>
      s' = s\<lparr>od_orgs := dict_set oid org (od_orgs s)\<rparr>)
      (add_member rp cfg now mid oid owner tenant ''owner'' None) (\<lambda>_. org_inv) (\<lambda>_. org_inv)"
    if "og_id org = oid" "og_tenant_id org = tenant" "og_status org = OS_ACTIVE" "og_owner_user_id org = owner" for org
    unfolding add_member_def member_get_org_def check_actor_def put_member_def andthen_norm Let_def option.case
    by (intro sp_rules; (elim conjE exE)?;
        insert that; auto simp: assert_tenant_def validate_member_role_def frame none assms intro!: org_inv_new_org)
  let ?org = "\<lparr>og_id = oid, og_tenant_id = tenant, og_name = nm,
      og_slug = (if slug \<noteq> '''' then slug else make_slug nm (oc_org_slug_max cfg)), og_owner_user_id = owner,
      og_description = descr, og_plan = plan, og_status = OS_ACTIVE, og_created_at = now, og_updated_at = now\<rparr>"
  show ?thesis
    unfolding org_create_def put_org_def andthen_norm Let_def
    by (intro sp_require sp_gets sp_modify sp_ret sp_call [OF triple_pre [OF _ owner [of ?org]]];
        (elim conjE exE)?; auto)
qed


lemma transfer_keeps: "keeps org_inv (transfer_ownership rp now pr oid new_owner tenant)"
proof -
  have moved: "org_inv (s\<lparr>od_members := dict_set (mb_id nm) (nm\<lparr>mb_role := MR_OWNER\<rparr>)
        (dict_set (mb_id old) (old\<lparr>mb_role := MR_ADMIN\<rparr>) (od_members s)),
      od_orgs := dict_set (og_id org) (org\<lparr>og_owner_user_id := uid, og_updated_at := now\<rparr>) (od_orgs s)\<rparr>)"
    if "org_inv s" "dict_get (od_orgs s) oid = Some org" "member_by_user oid uid s = Some nm"
      "member_by_user oid (og_owner_user_id org) s = Some old" "uid \<noteq> og_owner_user_id org" for s org uid nm old
  proof -
    note nm = member_by_user_Some [OF that(1,3)] and old = member_by_user_Some [OF that(1,4)]
    have id: "og_id org = oid" using that(1,2) by (auto simp: org_parts dest: filedD)
    have "member_part ((dict_get (od_orgs s))(oid \<mapsto> org\<lparr>og_owner_user_id := uid, og_updated_at := now\<rparr>))
        ((dict_get (od_members s))(mb_id old \<mapsto> old\<lparr>mb_role := MR_ADMIN\<rparr>, mb_id nm \<mapsto> nm\<lparr>mb_role := MR_OWNER\<rparr>))"
      using that nm old by (intro member_part_transfer [of _ _ oid org]) (auto simp: org_inv_def)
    then show ?thesis using that(1) id by (simp add: org_parts dict_get_upd refs_target filed_set)
  qed
  have some: "member_by_user oid (og_owner_user_id org) s \<noteq> None"
    if inv: "org_inv s" and org: "dict_get (od_orgs s) oid = Some org" for s org
  proof -
    obtain i m where m: "dict_get (od_members s) i = Some m" "mb_organization_id m = oid" "mb_user_id m = og_owner_user_id org"
      using inv org unfolding org_inv_def member_part_def has_owner_def by blast
    then show ?thesis using member_by_user_None [OF inv _ m(1)] by blast
  qed
  show ?thesis
    unfolding transfer_ownership_def org_get_def put_member_def put_org_def andthen_norm Let_def
    by (intro sp_option sp_ret_then sp_rules; (elim conjE exE)?; (assumption)?) (auto simp: some moved)
qed


lemma invitation_org:
  "org_inv s \<Longrightarrow> dict_get (od_invitations s) k = Some i \<Longrightarrow>
    dict_get (od_orgs s) (iv_organization_id i) \<noteq> None \<and> iv_role i \<noteq> MR_OWNER"
  unfolding org_parts refs_def no_owner_invited_def by blast

lemma invitation_create_keeps: "keeps org_inv (invitation_create cfg now iid tok oid email role tenant by ttl)"
  unfolding invitation_create_def strict_get_org_def put_invitation_def andthen_norm Let_def
  by (intro sp_rules; (elim conjE exE)?; simp)
    (rule org_inv_put_invitation [where i = "\<lparr>iv_id = iid, iv_organization_id = oid, iv_tenant_id = _, iv_email = email,
        iv_role = _, iv_invited_by = by, iv_token = tok, iv_status = IS_PENDING, iv_expires_at = _, iv_created_at = now,
        iv_accepted_at = 0, iv_accepted_by = ''''\<rparr>", simplified]; simp)

lemma put_invitation_again:
  assumes "org_inv s" and "invitation_by_token tok s = Some i" and "iv_id i' = iv_id i"
    and "iv_organization_id i' = iv_organization_id i" and "iv_role i' = iv_role i"
  shows "org_inv (s\<lparr>od_invitations := dict_set (iv_id i) i' (od_invitations s)\<rparr>)"
  using org_inv_put_invitation [of s i'] invitation_org [OF assms(1) invitation_by_token_Some [OF assms(1,2)]] assms
  by simp

lemma invitation_revoke_keeps: "keeps org_inv (invitation_revoke tok tenant)"
  unfolding invitation_revoke_def strict_get_org_def put_invitation_def andthen_norm Let_def
  by (intro sp_rules; (elim conjE exE)?; simp add: put_invitation_again)

lemma invitation_accept_keeps:
  "triple (\<lambda>s. org_inv s \<and> dict_get (od_members s) mid = None)
    (invitation_accept rp cfg now mid tok uid) (\<lambda>_. org_inv) (\<lambda>_. org_inv)"
proof -
  have nonowner: "role_value r \<noteq> ''owner''" if "r \<noteq> MR_OWNER" for r using that by (cases r) simp_all
  have add: "triple (\<lambda>s. iv_role i \<noteq> MR_OWNER \<and> org_inv s \<and> dict_get (od_members s) mid = None)
      (add_member rp cfg now mid (iv_organization_id i) uid (iv_tenant_id i) (role_value (iv_role i)) None)
      (\<lambda>_. org_inv) (\<lambda>_. org_inv)" for i :: invitation
    by (rule triple_pure) (rule add_member_keeps [OF nonowner])
  have again: "org_inv s" if "s = sa\<lparr>od_invitations := dict_set (iv_id i') i' (od_invitations sa)\<rparr>" "org_inv sa"
    "invitation_by_token tok sa = Some i" "iv_id i' = iv_id i" "iv_organization_id i' = iv_organization_id i"
    "iv_role i' = iv_role i" for s sa i i'
    using put_invitation_again [OF that(2-6)] that(1,4) by simp
  have invited: "iv_role i \<noteq> MR_OWNER" if "org_inv sa" "invitation_by_token tok sa = Some i" for sa i
    using invitation_org [OF that(1) invitation_by_token_Some [OF that]] by blast
  show ?thesis
    unfolding invitation_accept_def put_invitation_def andthen_norm Let_def
    apply (intro sp_fetch sp_require sp_gets sp_modify sp_ret sp_throw triple_if sp_call [OF triple_pre [OF _ add]];
        (elim conjE exE)?; (assumption)?)
      apply (erule again; (assumption | simp))
     apply (intro conjI, erule (1) invited, erule again; (assumption | simp))
    apply (erule again; (assumption | simp))
    done
qed

lemma team_org: "org_inv s \<Longrightarrow> dict_get (od_teams s) k = Some t \<Longrightarrow>
    tm_id t = k \<and> dict_get (od_orgs s) (tm_organization_id t) \<noteq> None"
  unfolding org_parts by (auto simp: refs_def dest: filedD)

lemma team_create_keeps: "keeps org_inv (team_create cfg now tid oid nm tenant descr)"
  unfolding team_create_def strict_get_org_def put_team_def andthen_norm Let_def
  by (intro sp_rules; (elim conjE exE)?; simp)
    (rule org_inv_put_team [where t = "\<lparr>tm_id = tid, tm_organization_id = oid, tm_tenant_id = _, tm_name = nm,
        tm_description = descr, tm_created_at = now, tm_updated_at = now\<rparr>", simplified]; simp)

lemma team_set_fields_keeps:
  "triple (\<lambda>s. org_inv s \<and> dict_get (od_orgs s) (tm_organization_id t) \<noteq> None) (team_set_fields t changes)
    (\<lambda>t' s. org_inv s \<and> dict_get (od_orgs s) (tm_organization_id t') \<noteq> None) (\<lambda>_. org_inv)"
proof (induction changes arbitrary: t)
  case Nil
  show ?case unfolding team_set_fields.simps by (rule sp_ret)
next
  case (Cons c rest)
  obtain k v where c: "c = (k, v)" by (cases c)
  show ?case unfolding c team_set_fields.simps put_team_def andthen_norm Let_def
    by (intro sp_require sp_modify triple_pre [OF _ Cons.IH]; (elim conjE exE)?; (assumption)?)
      (auto intro: org_inv_put_team [of _ "t\<lparr>tm_name := v\<rparr>", simplified]
        org_inv_put_team [of _ "t\<lparr>tm_description := v\<rparr>", simplified])
qed

lemma team_update_keeps: "keeps org_inv (team_update now oid tid tenant changes)"
proof -
  have put: "org_inv s \<Longrightarrow> dict_get (od_orgs s) (tm_organization_id t) \<noteq> None \<Longrightarrow>
      org_inv (s\<lparr>od_teams := dict_set (tm_id t) (t\<lparr>tm_updated_at := now\<rparr>) (od_teams s)\<rparr>)" for s t
    using org_inv_put_team [of s "t\<lparr>tm_updated_at := now\<rparr>"] by simp
  show ?thesis
    unfolding team_update_def team_get_def strict_get_org_def put_team_def andthen_norm Let_def
    by (intro sp_fetch sp_require sp_modify sp_ret sp_call [OF triple_pre [OF _ team_set_fields_keeps]];
        (elim conjE exE)?; (assumption)?) (auto simp: put dest: team_org)
qed

lemma team_delete_keeps: "keeps org_inv (team_delete oid tid tenant)"
  unfolding team_delete_def team_get_def strict_get_org_def andthen_norm Let_def
  by (intro sp_rules; (elim conjE exE)?; simp add: org_inv_pop_team)

section \<open>Workspaces and projects, operation by operation\<close>

text \<open>A stored workspace, or a project whose workspace is stored, may be stored again with the same home.\<close>

definition ws_held :: "workspace \<Rightarrow> org_db \<Rightarrow> bool" where
  "ws_held w s \<longleftrightarrow> org_inv s \<and>
     (\<exists>w'. dict_get (od_workspaces s) (ws_id w) = Some w' \<and> ws_organization_id w' = ws_organization_id w)"

definition pj_held :: "project \<Rightarrow> org_db \<Rightarrow> bool" where
  "pj_held p s \<longleftrightarrow> org_inv s \<and>
     (\<exists>w. dict_get (od_workspaces s) (pj_workspace_id p) = Some w \<and> ws_organization_id w = pj_organization_id p)"

lemma ws_held_stored: "org_inv s \<Longrightarrow> dict_get (od_workspaces s) wid = Some w \<Longrightarrow> ws_held w s"
  unfolding ws_held_def by (auto simp: org_parts dest: filedD)

lemma pj_held_stored: "org_inv s \<Longrightarrow> dict_get (od_projects s) pid = Some p \<Longrightarrow> pj_held p s"
  unfolding pj_held_def by (auto simp: org_parts project_home_def)

lemma ws_held_put:
  assumes "ws_held w s" and "ws_id w' = ws_id w" and "ws_organization_id w' = ws_organization_id w"
  shows "ws_held w' (s\<lparr>od_workspaces := dict_set (ws_id w') w' (od_workspaces s)\<rparr>)"
proof -
  obtain w0 where w0: "org_inv s" "dict_get (od_workspaces s) (ws_id w) = Some w0"
    "ws_organization_id w0 = ws_organization_id w" using assms(1) unfolding ws_held_def by blast
  then have "refs ws_organization_id (dict_get (od_workspaces s)) (dict_get (od_orgs s))" by (simp add: org_parts)
  with w0(2) have "dict_get (od_orgs s) (ws_organization_id w0) \<noteq> None" unfolding refs_def by blast
  then have "org_inv (s\<lparr>od_workspaces := dict_set (ws_id w') w' (od_workspaces s)\<rparr>)"
    using w0 assms(2,3) by (intro org_inv_put_ws) simp_all
  then show ?thesis using assms(2,3) by (simp add: ws_held_def)
qed

lemma pj_held_put:
  assumes "pj_held p s" and "pj_id p' = pj_id p" "pj_workspace_id p' = pj_workspace_id p"
    "pj_organization_id p' = pj_organization_id p"
  shows "pj_held p' (s\<lparr>od_projects := dict_set (pj_id p') p' (od_projects s)\<rparr>)"
  using assms org_inv_put_project [of s p'] by (auto simp: pj_held_def)

lemma held_inv: "ws_held w s \<Longrightarrow> org_inv s" "pj_held p s \<Longrightarrow> org_inv s"
  by (simp_all add: ws_held_def pj_held_def)

lemma ws_create_keeps:
  "triple (\<lambda>s. org_inv s \<and> dict_get (od_workspaces s) wid = None)
    (ws_create cfg now wid oid nm owner tenant descr slug)
    (\<lambda>w s. org_inv s \<and> dict_get (od_workspaces s) (ws_id w) = Some w \<and> ws_organization_id w = oid) (\<lambda>_. org_inv)"
proof -
  have put: "org_inv (s\<lparr>od_workspaces := dict_set wid w (od_workspaces s)\<rparr>)"
    if "org_inv s" "dict_get (od_orgs s) oid = Some org" "dict_get (od_workspaces s) wid = None"
      "ws_id w = wid" "ws_organization_id w = oid" for s org w
    using org_inv_put_ws [of s w] that by simp
  show ?thesis
    unfolding ws_create_def org_get_def put_ws_def andthen_norm Let_def
    by (intro sp_rules; (elim conjE exE)?; (assumption)?; hypsubst_thin; simp add: put)
qed

lemma ws_set_fields_keeps: "triple (ws_held w) (ws_set_fields oid w changes) ws_held (\<lambda>_. org_inv)"
proof (induction changes arbitrary: w)
  case Nil
  show ?case unfolding ws_set_fields.simps by (rule sp_ret)
next
  case (Cons c rest)
  obtain k v where c: "c = (k, v)" by (cases c)
  show ?case unfolding c ws_set_fields.simps put_ws_def andthen_norm Let_def
    by (intro sp_require sp_gets sp_modify triple_pre [OF _ Cons.IH]; (elim conjE exE)?; (erule held_inv)?)
      (hypsubst_thin, erule ws_held_put; simp)
qed

lemma ws_update_keeps: "keeps org_inv (ws_update now oid wid tenant changes)"
  unfolding ws_update_def ws_get_def org_get_def put_ws_def andthen_norm Let_def
  by (intro sp_fetch sp_require sp_modify sp_ret sp_call [OF triple_pre [OF _ ws_set_fields_keeps]]; (elim conjE exE)?)
    ((assumption | erule held_inv | erule (1) ws_held_stored | hypsubst_thin, rule held_inv(1), erule ws_held_put; simp)+)

lemma ws_set_status_keeps: "keeps org_inv (ws_set_status st now oid wid tenant)"
  unfolding ws_set_status_def ws_get_def org_get_def put_ws_def andthen_norm Let_def
  by (intro sp_rules; (elim conjE exE)?; (assumption)?)
    (hypsubst_thin, rule held_inv(1), rule ws_held_put, erule (1) ws_held_stored; simp)

lemma ws_delete_keeps: "keeps org_inv (ws_delete oid wid tenant)"
proof -
  have drop: "(drop_projects wid s)\<lparr>od_workspaces := dict_pop wid (od_workspaces (drop_projects wid s))\<rparr> = drop_workspace wid s" for s
    by (simp add: drop_workspace_def drop_projects_def Let_def)
  show ?thesis unfolding ws_delete_def ws_get_def org_get_def andthen_norm
    by (intro sp_rules; (elim conjE exE)?) (auto simp: drop org_inv_drop_ws)
qed

lemma require_member_permission_keeps: "keeps P (require_member_permission rp pr oid perm tenant)"
  unfolding require_member_permission_def member_get_org_def andthen_norm
  by (intro sp_rules; (elim conjE exE)?; assumption)

lemma ws_transfer_keeps: "keeps org_inv (ws_transfer rp now oid wid new_owner tenant actor)"
  unfolding ws_transfer_def ws_get_def org_get_def put_ws_def andthen_norm Let_def
  by (intro sp_fetch sp_require sp_option sp_assoc sp_ret_then sp_pure [OF require_member_permission_keeps] sp_modify sp_ret;
      (elim conjE exE)?; (assumption)?; hypsubst_thin, rule held_inv(1), rule ws_held_put, erule (1) ws_held_stored; simp)


lemma ws_clone_keeps:
  "triple (\<lambda>s. org_inv s \<and> dict_get (od_workspaces s) new_id = None)
    (ws_clone cfg now new_id fresh oid wid tenant nm include_projects) (\<lambda>_. org_inv) (\<lambda>_. org_inv)"
proof -
  have put_fold: "org_inv (s\<lparr>od_projects := fold (\<lambda>p. dict_set (fresh (pj_id p)) (h p)) ps (od_projects s)\<rparr>)"
    if "org_inv s" "dict_get (od_workspaces s) wid' = Some w" "ws_organization_id w = oid"
      "\<And>p. pj_id (h p) = fresh (pj_id p) \<and> pj_workspace_id (h p) = wid' \<and> pj_organization_id (h p) = oid"
    for s wid' w h ps
    using that(1,2)
  proof (induction ps arbitrary: s)
    case (Cons p ps)
    have "org_inv (s\<lparr>od_projects := dict_set (fresh (pj_id p)) (h p) (od_projects s)\<rparr>)"
      using org_inv_put_project [of s "h p" w] Cons.prems that(3,4) by simp
    from Cons.IH [OF this] Cons.prems(2) show ?case by simp
  qed simp
  show ?thesis
    unfolding ws_clone_def ws_get_def org_get_def andthen_norm Let_def
    by (intro sp_fetch sp_require triple_if sp_modify sp_call [OF triple_pre [OF _ ws_create_keeps]] sp_ret;
        (elim conjE exE)?; (assumption)?) (auto intro: put_fold)
qed

lemma pj_create_keeps: "keeps org_inv (pj_create cfg now pid oid wid nm tenant descr)"
proof -
  have put: "org_inv (s\<lparr>od_projects := dict_set pid p (od_projects s)\<rparr>)"
    if "org_inv s" "dict_get (od_workspaces s) wid = Some w" "ws_organization_id w = oid" "pj_id p = pid"
      "pj_workspace_id p = wid" "pj_organization_id p = oid" for s w p
    using org_inv_put_project [of s p w] that by simp
  show ?thesis
    unfolding pj_create_def pj_scope_def strict_get_org_def put_project_def andthen_norm Let_def prod.case
    by (intro sp_rules; (elim conjE exE)?; (assumption)?) (auto intro: put)
qed

lemma pj_set_fields_keeps: "triple (pj_held p) (pj_set_fields p changes) pj_held (\<lambda>_. org_inv)"
proof (induction changes arbitrary: p)
  case Nil
  show ?case unfolding pj_set_fields.simps by (rule sp_ret)
next
  case (Cons c rest)
  obtain k v where c: "c = (k, v)" by (cases c)
  show ?case unfolding c pj_set_fields.simps put_project_def andthen_norm Let_def
    by (intro sp_require sp_modify triple_pre [OF _ Cons.IH]; (elim conjE exE)?; (erule held_inv)?)
      (hypsubst_thin, erule pj_held_put; simp)
qed

lemma pj_update_keeps: "keeps org_inv (pj_update now oid wid pid tenant changes)"
  unfolding pj_update_def pj_get_def pj_scope_def strict_get_org_def put_project_def andthen_norm Let_def
  by (intro sp_fetch sp_require sp_modify sp_ret sp_call [OF triple_pre [OF _ pj_set_fields_keeps]]; (elim conjE exE)?)
    ((assumption | erule held_inv | erule (1) pj_held_stored | hypsubst_thin, rule held_inv(2), erule pj_held_put; simp)+)

lemma pj_delete_keeps: "keeps org_inv (pj_delete oid wid pid tenant)"
  unfolding pj_delete_def pj_get_def pj_scope_def strict_get_org_def andthen_norm Let_def
  by (intro sp_rules; (elim conjE exE)?; simp add: org_inv_pop_project)


section \<open>The life of the organization database\<close>

text \<open>One call of one of the managers. Ids come from \<open>uuid4\<close>, so that a new organization, member or
  workspace has an id that is not in use; the members that the service adds are never added as owners.\<close>

inductive org_step :: "role_permissions \<Rightarrow> org_config \<Rightarrow> org_db \<Rightarrow> org_db \<Rightarrow> bool" for rp cfg where
  step_org_create: "dict_get (od_orgs s) oid = None \<Longrightarrow> dict_get (od_members s) mid = None \<Longrightarrow>
    org_step rp cfg s (final_state (org_create rp cfg now oid mid tenant nm owner descr slug plan) s)"
| step_org_update: "org_step rp cfg s (final_state (org_update now tenant oid changes) s)"
| step_org_archive: "org_step rp cfg s (final_state (org_archive now tenant oid) s)"
| step_org_restore: "org_step rp cfg s (final_state (org_restore now tenant oid) s)"
| step_org_delete: "org_step rp cfg s (final_state (org_delete tenant oid) s)"
| step_transfer: "org_step rp cfg s (final_state (transfer_ownership rp now pr oid new_owner tenant) s)"
| step_add_member: "role \<noteq> ''owner'' \<Longrightarrow> dict_get (od_members s) mid = None \<Longrightarrow>
    org_step rp cfg s (final_state (add_member rp cfg now mid oid uid tenant role actor) s)"
| step_remove_member: "org_step rp cfg s (final_state (remove_member rp oid uid tenant actor) s)"
| step_set_role: "org_step rp cfg s (final_state (set_role rp now oid uid role tenant actor) s)"
| step_invite: "org_step rp cfg s (final_state (invitation_create cfg now iid tok oid email role tenant by ttl) s)"
| step_accept: "dict_get (od_members s) mid = None \<Longrightarrow>
    org_step rp cfg s (final_state (invitation_accept rp cfg now mid tok uid) s)"
| step_revoke: "org_step rp cfg s (final_state (invitation_revoke tok tenant) s)"
| step_team_create: "org_step rp cfg s (final_state (team_create cfg now tid oid nm tenant descr) s)"
| step_team_update: "org_step rp cfg s (final_state (team_update now oid tid tenant changes) s)"
| step_team_delete: "org_step rp cfg s (final_state (team_delete oid tid tenant) s)"
| step_ws_create: "dict_get (od_workspaces s) wid = None \<Longrightarrow>
    org_step rp cfg s (final_state (ws_create cfg now wid oid nm owner tenant descr slug) s)"
| step_ws_update: "org_step rp cfg s (final_state (ws_update now oid wid tenant changes) s)"
| step_ws_delete: "org_step rp cfg s (final_state (ws_delete oid wid tenant) s)"
| step_ws_status: "org_step rp cfg s (final_state (ws_set_status st now oid wid tenant) s)"
| step_ws_clone: "dict_get (od_workspaces s) wid' = None \<Longrightarrow>
    org_step rp cfg s (final_state (ws_clone cfg now wid' fresh oid wid tenant nm include_projects) s)"
| step_ws_transfer: "org_step rp cfg s (final_state (ws_transfer rp now oid wid new_owner tenant actor) s)"
| step_pj_create: "org_step rp cfg s (final_state (pj_create cfg now pid oid wid nm tenant descr) s)"
| step_pj_update: "org_step rp cfg s (final_state (pj_update now oid wid pid tenant changes) s)"
| step_pj_delete: "org_step rp cfg s (final_state (pj_delete oid wid pid tenant) s)"

inductive org_reachable :: "role_permissions \<Rightarrow> org_config \<Rightarrow> org_db \<Rightarrow> bool" for rp cfg where
  org_start: "org_reachable rp cfg empty_db"
| org_next: "org_reachable rp cfg s \<Longrightarrow> org_step rp cfg s s' \<Longrightarrow> org_reachable rp cfg s'"

lemma triple_final: "triple P m (\<lambda>_. I) (\<lambda>_. I) \<Longrightarrow> P s \<Longrightarrow> I (final_state m s)"
  unfolding triple_def final_state_def by (cases "m s") (auto split: sum.splits)

lemma ws_create_keeps_inv:
  "triple (\<lambda>s. org_inv s \<and> dict_get (od_workspaces s) wid = None)
    (ws_create cfg now wid oid nm owner tenant descr slug) (\<lambda>_. org_inv) (\<lambda>_. org_inv)"
  by (rule triple_weaken [OF ws_create_keeps]) auto

lemmas org_keeps = org_update_keeps org_archive_keeps org_delete_keeps transfer_keeps remove_member_keeps set_role_keeps
  invitation_create_keeps invitation_revoke_keeps team_create_keeps team_update_keeps team_delete_keeps ws_update_keeps
  ws_delete_keeps ws_set_status_keeps ws_transfer_keeps pj_create_keeps pj_update_keeps pj_delete_keeps

lemma org_step_inv: "org_step rp cfg s s' \<Longrightarrow> 0 < oc_max_members cfg \<Longrightarrow> org_inv s \<Longrightarrow> org_inv s'"
  by (induction rule: org_step.induct)
    (blast intro: org_keeps [THEN triple_final] triple_final [OF org_create_keeps] triple_final [OF add_member_keeps]
      triple_final [OF invitation_accept_keeps] triple_final [OF ws_create_keeps_inv] triple_final [OF ws_clone_keeps])+

lemma org_reachable_inv: "org_reachable rp cfg s \<Longrightarrow> 0 < oc_max_members cfg \<Longrightarrow> org_inv s"
  by (induction rule: org_reachable.induct) (auto intro: org_inv_empty org_step_inv)


lemma org_members_distinct: "org_inv s \<Longrightarrow> distinct (map mb_user_id (members_of_org oid s))"
proof -
  assume inv: "org_inv s"
  have ok: "filed mb_id (od_members s)" "once_member (dict_get (od_members s))"
    using inv by (simp_all add: org_parts member_part_def)
  let ?ms = "filter (\<lambda>m. mb_organization_id m = oid) (map snd (od_members s))"
  have mem: "dict_get (od_members s) (mb_id m) = Some m" if "m \<in> set (map snd (od_members s))" for m
    using filed_values [OF ok(1)] that by auto
  have "inj_on mb_user_id (set ?ms)"
  proof (rule inj_onI)
    fix m n assume mn: "m \<in> set ?ms" "n \<in> set ?ms" "mb_user_id m = mb_user_id n"
    have get: "dict_get (od_members s) (mb_id m) = Some m" "dict_get (od_members s) (mb_id n) = Some n"
      using mn(1,2) by (intro mem; fastforce)+
    have same: "mb_organization_id m = mb_organization_id n" using mn(1,2) by simp
    have "mb_id m = mb_id n" by (rule ok(2) [unfolded once_member_def, rule_format, OF get same mn(3)])
    then have "dict_get (od_members s) (mb_id n) = Some m" using get(1) by (rule subst)
    with get(2) show "m = n" by simp
  qed
  moreover have "distinct (map snd (od_members s))"
  proof -
    have "map fst (od_members s) = map mb_id (map snd (od_members s))"
      using ok(1) by (auto simp: filed_def) (metis dict_ok_getI)
    moreover have "distinct (map fst (od_members s))" using ok(1) by (simp add: filed_def dict_ok_def)
    ultimately show ?thesis by (metis distinct_map)
  qed
  ultimately show ?thesis by (simp add: members_of_org_def distinct_map)
qed

lemma distinct_single: "distinct xs \<Longrightarrow> set xs = {x} \<Longrightarrow> xs = [x]"
  by (cases xs; cases "tl xs") (auto simp: insert_eq_iff)

lemma org_inv_one_owner:
  assumes inv: "org_inv s" and org: "dict_get (od_orgs s) oid = Some org"
  shows "map mb_user_id (filter (\<lambda>m. mb_role m = MR_OWNER) (members_of_org oid s)) = [og_owner_user_id org]"
proof (rule distinct_single)
  let ?ms = "filter (\<lambda>m. mb_role m = MR_OWNER) (members_of_org oid s)"
  show "distinct (map mb_user_id ?ms)"
    using org_members_distinct [OF inv] by (rule distinct_map_filter)
  have f: "filed mb_id (od_members s)" and p: "has_owner (dict_get (od_orgs s)) (dict_get (od_members s))"
    "sole_owner (dict_get (od_orgs s)) (dict_get (od_members s))"
    using inv by (simp_all add: org_parts member_part_def)
  have set: "m \<in> set ?ms \<longleftrightarrow> mb_organization_id m = oid \<and> mb_role m = MR_OWNER \<and> (\<exists>i. dict_get (od_members s) i = Some m)" for m
    using filed_values [OF f, of m] filedD [OF f, of _ m] by (auto simp: members_of_org_def)
  show "set (map mb_user_id ?ms) = {og_owner_user_id org}"
  proof
    show "set (map mb_user_id ?ms) \<subseteq> {og_owner_user_id org}"
    proof
      fix u assume "u \<in> set (map mb_user_id ?ms)"
      then obtain m where m: "m \<in> set ?ms" "u = mb_user_id m" by auto
      from m(1) obtain i where "dict_get (od_members s) i = Some m" "mb_role m = MR_OWNER" "mb_organization_id m = oid"
        unfolding set by blast
      with p(2) org m(2) show "u \<in> {og_owner_user_id org}" unfolding sole_owner_def by blast
    qed
    show "{og_owner_user_id org} \<subseteq> set (map mb_user_id ?ms)"
      using p(1) org set unfolding has_owner_def set_map by (metis empty_subsetI image_eqI insert_subset)
  qed
qed


section \<open>Properties\<close>

text \<open>An example: an organization is founded, a second user joins by an invitation and takes it over.\<close>

definition example_db :: org_db where
  "example_db =
    final_state (transfer_ownership org_role_permissions 40 \<lparr>pr_user_id = ''u1'', pr_tenant_id = ''t'', pr_roles = [],
        pr_scopes = [], pr_method = ''password'', pr_username = ''ann'', pr_service = False\<rparr> ''o1'' ''u2'' ''t'')
    (final_state (invitation_accept org_role_permissions default_org_config 30 ''m2'' ''tok'' ''u2'')
    (final_state (invitation_create default_org_config 20 ''i1'' ''tok'' ''o1'' ''a@b'' ''member'' ''t'' ''u1'' None)
    (final_state (ws_create default_org_config 15 ''w1'' ''o1'' ''Main'' ''u1'' ''t'' '''' '''')
    (final_state (org_create org_role_permissions default_org_config 10 ''o1'' ''m1'' ''t'' ''Acme Inc'' ''u1'' '''' '''' ''free'')
      empty_db))))"

lemma org_call: "org_reachable rp cfg s \<Longrightarrow> org_step rp cfg s (final_state m s) \<Longrightarrow> org_reachable rp cfg (final_state m s)"
  by (rule org_next)

lemma example_reachable: "org_reachable org_role_permissions default_org_config example_db"
  unfolding example_db_def
  by (intro org_call org_start org_step.intros; code_simp)




text \<open>C20. Nothing is left behind by a deletion: every member, workspace, team and invitation belongs to an
  organization that exists, and every project to a workspace that exists and belongs to the project's
  organization.\<close>

theorem no_orphans:
  assumes "org_reachable rp cfg s" and "0 < oc_max_members cfg"
  shows "(\<forall>m \<in> set (map snd (od_members s)). dict_has (od_orgs s) (mb_organization_id m)) \<and>
    (\<forall>w \<in> set (map snd (od_workspaces s)). dict_has (od_orgs s) (ws_organization_id w)) \<and>
    (\<forall>t \<in> set (map snd (od_teams s)). dict_has (od_orgs s) (tm_organization_id t)) \<and>
    (\<forall>i \<in> set (map snd (od_invitations s)). dict_has (od_orgs s) (iv_organization_id i)) \<and>
    (\<forall>p \<in> set (map snd (od_projects s)).
      \<exists>w. dict_get (od_workspaces s) (pj_workspace_id p) = Some w \<and> ws_organization_id w = pj_organization_id p)"
proof (intro conjI ballI)
  have inv: "org_inv s" by (rule org_reachable_inv [OF assms])
  have ref: "dict_has (od_orgs s) (f v)" if "filed key d" "refs f (dict_get d) (dict_get (od_orgs s))" "v \<in> set (map snd d)"
    for key d and f :: "'v \<Rightarrow> string" and v
    using that filed_values [OF that(1)] unfolding refs_def dict_has_def by blast
  note parts = inv [unfolded org_parts member_part_def]
  show "dict_has (od_orgs s) (mb_organization_id m)" if "m \<in> set (map snd (od_members s))" for m using that
    using parts by (intro ref [of mb_id]) simp_all
  show "dict_has (od_orgs s) (ws_organization_id w)" if "w \<in> set (map snd (od_workspaces s))" for w using that
    using parts by (intro ref [of ws_id]) simp_all
  show "dict_has (od_orgs s) (tm_organization_id t)" if "t \<in> set (map snd (od_teams s))" for t using that
    using parts by (intro ref [of tm_id]) simp_all
  show "dict_has (od_orgs s) (iv_organization_id i)" if "i \<in> set (map snd (od_invitations s))" for i using that
    using parts by (intro ref [of iv_id]) simp_all
  show "\<exists>w. dict_get (od_workspaces s) (pj_workspace_id p) = Some w \<and> ws_organization_id w = pj_organization_id p"
    if "p \<in> set (map snd (od_projects s))" for p
  proof -
    have "dict_get (od_projects s) (pj_id p) = Some p" using filed_values [of pj_id "od_projects s" p] parts that by blast
    then show ?thesis using parts unfolding project_home_def by blast
  qed
qed

theorem no_orphans_witness:
  "dict_has (od_orgs example_db) (ws_organization_id (snd (hd (od_workspaces example_db))))"
proof -
  have "0 < oc_max_members default_org_config" by (simp add: default_org_config_def)
  moreover have "od_workspaces example_db \<noteq> []" by code_simp
  then have "snd (hd (od_workspaces example_db)) \<in> set (map snd (od_workspaces example_db))" by simp
  ultimately show ?thesis using no_orphans [OF example_reachable] by blast
qed


lemma find_filed_set:
  "list_all (\<lambda>(a, b). key b = a) d \<Longrightarrow> find P (map snd d) = Some v \<Longrightarrow> P v' \<Longrightarrow>
    find P (map snd (dict_set (key v) v' d)) = Some v'"
  by (induction d) (auto split: if_splits)

lemma add_member_invitations:
  "triple (\<lambda>s. invitation_by_token tok s = x) (add_member rp cfg now mid oid uid tenant role None)
    (\<lambda>_ s. member_by_user oid uid s \<noteq> None \<and> invitation_by_token tok s = x) (\<lambda>_ _. True)"
proof -
  have found: "\<exists>y. member_by_user oid uid (s\<lparr>od_members := dict_set i m (od_members s)\<rparr>) = Some y"
    if "mb_organization_id m = oid" "mb_user_id m = uid" for s i m
  proof -
    have "m \<in> set (map snd (dict_set i m (od_members s)))"
      using dict_get_in [of "dict_set i m (od_members s)" i m] by force
    then show ?thesis using that by (auto simp: member_by_user_def find_None_iff simp flip: not_None_eq)
  qed
  have frame: "invitation_by_token tok (s\<lparr>od_members := ms\<rparr>) = invitation_by_token tok s" for s ms
    by (simp add: invitation_by_token_def)
  show ?thesis
    unfolding add_member_def member_get_org_def check_actor_def put_member_def andthen_norm Let_def option.case
    by (intro sp_rules; (elim conjE exE)?; (assumption)?) (auto simp: frame intro!: found)
qed




end
