(* ===== verification/Migrations.thy ===== *)
theory Migrations
  imports Effects Decimal "HOL-Library.List_Lexorder" "HOL-Library.Char_ord"
begin

text \<open>
  Schema migrations: \<open>app/migrations/repository.py\<close> and \<open>app/migrations/manager.py\<close>. A migration
  pairs an \<open>up\<close> and a \<open>down\<close> step over a context of any type; the steps are given and may raise.
  The manager applies the pending migrations in the order of their version strings, records each in
  the version store, and reverts them by the order of their numeric keys. The version store is the
  list in memory or the table in SQLite; a table is the list of its rows. The clock and the answers
  of SQLite to \<open>BEGIN IMMEDIATE\<close> are arguments. Loading migration modules from files is left out.
\<close>

section \<open>Migrations and version stores\<close>

datatype mig_error =
    MigrationConflict string
  | MigrationVersion string
  | MigrationLocked
  | MigrationFailure string string

text \<open>A step function: what it raises, if it raises, and the context it leaves behind.\<close>

type_synonym 'c step_fn = "'c \<Rightarrow> string option \<times> 'c"

record 'c migration =
  mg_version :: string
  mg_name :: string
  mg_up :: "'c step_fn option"
  mg_down :: "'c step_fn option"

record applied_migration =
  am_version :: string
  am_name :: string
  am_applied_at :: pyfloat

datatype mig_store = MemoryStore "applied_migration list" | SqliteStore "applied_migration list"

fun store_rows :: "mig_store \<Rightarrow> applied_migration list" where
  "store_rows (MemoryStore rows) = rows"
| "store_rows (SqliteStore rows) = rows"

fun applied_versions :: "mig_store \<Rightarrow> string list" where
  "applied_versions (MemoryStore rows) = map am_version rows"
| "applied_versions (SqliteStore rows) = map am_version (sort_key am_applied_at rows)"

definition is_applied :: "mig_store \<Rightarrow> string \<Rightarrow> bool" where
  "is_applied st v \<longleftrightarrow> v \<in> set (applied_versions st)"

fun store_record :: "applied_migration \<Rightarrow> mig_store \<Rightarrow> mig_error + mig_store" where
  "store_record a (MemoryStore rows) =
     (if is_applied (MemoryStore rows) (am_version a) then Inl (MigrationConflict (am_version a))
      else Inr (MemoryStore (rows @ [a])))"
| "store_record a (SqliteStore rows) =
     (if is_applied (SqliteStore rows) (am_version a) then Inl (MigrationConflict (am_version a))
      else Inr (SqliteStore (rows @ [a])))"

fun store_unrecord :: "string \<Rightarrow> mig_store \<Rightarrow> mig_store" where
  "store_unrecord v (MemoryStore rows) = MemoryStore (filter (\<lambda>m. am_version m \<noteq> v) rows)"
| "store_unrecord v (SqliteStore rows) = SqliteStore (filter (\<lambda>m. am_version m \<noteq> v) rows)"

fun is_sqlite :: "mig_store \<Rightarrow> bool" where
  "is_sqlite (SqliteStore rows) = True"
| "is_sqlite (MemoryStore rows) = False"

section \<open>Version keys\<close>

text \<open>\<open>int(part)\<close> on strings: surrounding white space, one sign, digits with single underscores
  between them.\<close>

definition py_int_of_string :: "string \<Rightarrow> int option" where
  "py_int_of_string s =
    (let t = py_strip s;
         neg = (starts_with ''-'' t);
         body = (if neg \<or> starts_with ''+'' t then tl t else t);
         groups = split_on (CHR ''_'') body
     in if list_all all_digits groups
        then Some (let v = int (digits_val (concat groups)) in if neg then - v else v)
        else None)"

definition version_key :: "string \<Rightarrow> int list" where
  "version_key v = map (\<lambda>p. case py_int_of_string p of Some i \<Rightarrow> i | None \<Rightarrow> 0) (split_on (CHR ''.'') v)"

section \<open>The manager\<close>

datatype direction = Up | Down

record 'c mig_manager =
  mm_migrations :: "(string, 'c migration) dict"
  mm_store :: mig_store
  mm_context :: 'c
  mm_journal :: "(direction \<times> string \<times> bool) list"
  mm_held :: bool

type_synonym ('c, 'a) mig_prog = "('c mig_manager, mig_error, 'a) prog"

definition mig_register :: "'c migration \<Rightarrow> ('c, unit) mig_prog" where
  "mig_register m =
    andthen (gets (\<lambda>s. dict_has (mm_migrations s) (mg_version m))) (\<lambda>dup.
    andthen (require (\<not> dup) (MigrationVersion (mg_version m))) (\<lambda>_.
    andthen (require (mg_version m \<noteq> '''') (MigrationVersion '''')) (\<lambda>_.
      modify (\<lambda>s. s\<lparr>mm_migrations := dict_set (mg_version m) m (mm_migrations s)\<rparr>))))"

fun mig_register_many :: "'c migration list \<Rightarrow> ('c, unit) mig_prog" where
  "mig_register_many [] = ret ()"
| "mig_register_many (m # ms) = andthen (mig_register m) (\<lambda>_. mig_register_many ms)"

text \<open>\<open>migrations()\<close>: in the lexicographic order of the version strings.\<close>

definition ordered_migrations :: "'c mig_manager \<Rightarrow> 'c migration list" where
  "ordered_migrations s = map (\<lambda>v. the (dict_get (mm_migrations s) v)) (sort (map fst (mm_migrations s)))"

definition pending_migrations :: "'c mig_manager \<Rightarrow> 'c migration list" where
  "pending_migrations s = (let applied = set (applied_versions (mm_store s))
    in filter (\<lambda>m. mg_version m \<notin> applied) (ordered_migrations s))"

definition known_applied :: "'c mig_manager \<Rightarrow> string list" where
  "known_applied s = sort_key version_key (filter (dict_has (mm_migrations s)) (applied_versions (mm_store s)))"

text \<open>\<open>ordered[-steps:]\<close> are the last \<open>steps\<close> elements.\<close>

definition plan_rollback :: "int \<Rightarrow> 'c mig_manager \<Rightarrow> 'c migration list" where
  "plan_rollback steps s =
    map (\<lambda>v. the (dict_get (mm_migrations s) v))
      (rev (if 0 < steps then last_n (nat steps) (known_applied s) else []))"

definition plan_downgrade_to :: "string \<Rightarrow> 'c mig_manager \<Rightarrow> 'c migration list" where
  "plan_downgrade_to target s =
    map (\<lambda>v. the (dict_get (mm_migrations s) v))
      (rev (filter (\<lambda>v. version_key target < version_key v) (known_applied s)))"

section \<open>Execution\<close>

fun run_step :: "'c step_fn option \<Rightarrow> 'c \<Rightarrow> string option \<times> 'c" where
  "run_step None c = (None, c)"
| "run_step (Some f) c = f c"

definition call_step :: "string \<Rightarrow> 'c step_fn option \<Rightarrow> ('c, unit) mig_prog" where
  "call_step v f s =
    (case run_step f (mm_context s) of
       (None, c) \<Rightarrow> (Inr (), s\<lparr>mm_context := c\<rparr>)
     | (Some msg, c) \<Rightarrow> (Inl (MigrationFailure v msg), s\<lparr>mm_context := c\<rparr>))"

definition write_journal :: "direction \<Rightarrow> string \<Rightarrow> bool \<Rightarrow> ('c, unit) mig_prog" where
  "write_journal d v dry = modify (\<lambda>s. s\<lparr>mm_journal := mm_journal s @ [(d, v, dry)]\<rparr>)"

definition mig_record :: "applied_migration \<Rightarrow> ('c, unit) mig_prog" where
  "mig_record a = andthen (gets (\<lambda>s. store_record a (mm_store s))) (\<lambda>r.
    andthen (lift_result r) (\<lambda>st. modify (\<lambda>s. s\<lparr>mm_store := st\<rparr>)))"

text \<open>The clock gives the moment at which the migration of a version is recorded.\<close>

definition execute_up :: "(string \<Rightarrow> pyfloat) \<Rightarrow> bool \<Rightarrow> 'c migration \<Rightarrow> ('c, unit) mig_prog" where
  "execute_up clock dry m =
    andthen (if dry then ret () else call_step (mg_version m) (mg_up m)) (\<lambda>_.
    andthen (if dry then ret ()
             else mig_record \<lparr>am_version = mg_version m, am_name = mg_name m, am_applied_at = clock (mg_version m)\<rparr>) (\<lambda>_.
      write_journal Up (mg_version m) dry))"

definition execute_down :: "bool \<Rightarrow> 'c migration \<Rightarrow> ('c, unit) mig_prog" where
  "execute_down dry m =
    andthen (if dry then ret () else call_step (mg_version m) (mg_down m)) (\<lambda>_.
    andthen (if dry then ret () else modify (\<lambda>s. s\<lparr>mm_store := store_unrecord (mg_version m) (mm_store s)\<rparr>)) (\<lambda>_.
      write_journal Down (mg_version m) dry))"

fun each_of :: "('c migration \<Rightarrow> ('c, unit) mig_prog) \<Rightarrow> 'c migration list \<Rightarrow> ('c, 'c migration list) mig_prog" where
  "each_of f [] = ret []"
| "each_of f (m # ms) = andthen (f m) (\<lambda>_. andthen (each_of f ms) (\<lambda>rest. ret (m # rest)))"

text \<open>The loop of \<open>MigrationLock.acquire\<close>: the readings of the clock after the first, each with the
  answer that SQLite would give to \<open>BEGIN IMMEDIATE\<close> at that moment.\<close>

fun acquire_loop :: "bool \<Rightarrow> pyfloat \<Rightarrow> (pyfloat \<times> bool) list \<Rightarrow> bool" where
  "acquire_loop sqlite deadline [] = False"
| "acquire_loop sqlite deadline ((now, free) # later) =
     (now < deadline \<and> (if \<not> sqlite \<or> free then True else acquire_loop sqlite deadline later))"

record mig_env =
  ev_timeout :: pyfloat
  ev_start :: pyfloat
  ev_polls :: "(pyfloat \<times> bool) list"
  ev_clock :: "string \<Rightarrow> pyfloat"

definition lock_acquire :: "mig_env \<Rightarrow> ('c, bool) mig_prog" where
  "lock_acquire ev =
    andthen (gets (\<lambda>s. acquire_loop (is_sqlite (mm_store s)) (ev_start ev + ev_timeout ev) (ev_polls ev))) (\<lambda>got.
    andthen (if got then modify (\<lambda>s. s\<lparr>mm_held := True\<rparr>) else ret ()) (\<lambda>_. ret got))"

definition lock_release :: "('c, unit) mig_prog" where
  "lock_release = modify (\<lambda>s. s\<lparr>mm_held := False\<rparr>)"

text \<open>The frame of \<open>upgrade\<close>, \<open>downgrade_to\<close> and \<open>rollback\<close>: take the lock unless this is a dry
  run, compute the plan, execute it, and give the lock back in any case.\<close>

definition under_lock :: "mig_env \<Rightarrow> bool \<Rightarrow> ('c, 'a) mig_prog \<Rightarrow> ('c, 'a) mig_prog" where
  "under_lock ev dry body =
    (if dry then body
     else andthen (lock_acquire ev) (\<lambda>got.
          andthen (require got MigrationLocked) (\<lambda>_. always body lock_release)))"

definition upgrade :: "mig_env \<Rightarrow> bool \<Rightarrow> ('c, 'c migration list) mig_prog" where
  "upgrade ev dry = under_lock ev dry (andthen (gets pending_migrations) (each_of (execute_up (ev_clock ev) dry)))"

definition downgrade_to :: "mig_env \<Rightarrow> string \<Rightarrow> bool \<Rightarrow> ('c, 'c migration list) mig_prog" where
  "downgrade_to ev target dry =
    under_lock ev dry (andthen (gets (plan_downgrade_to target)) (each_of (execute_down dry)))"

definition rollback :: "mig_env \<Rightarrow> int \<Rightarrow> bool \<Rightarrow> ('c, 'c migration list) mig_prog" where
  "rollback ev steps dry =
    (if steps \<le> 0 then ret []
     else under_lock ev dry (andthen (gets (plan_rollback steps)) (each_of (execute_down dry))))"

section \<open>What a plan does\<close>

text \<open>The reference: the steps run one after the other up to the first that raises. The result is what
  was done, what was raised and the context.\<close>

fun run_plan ::
  "('c migration \<Rightarrow> 'c step_fn option) \<Rightarrow> 'c migration list \<Rightarrow> 'c \<Rightarrow> 'c migration list \<times> (string \<times> string) option \<times> 'c" where
  "run_plan step [] c = ([], None, c)"
| "run_plan step (m # ms) c =
     (case run_step (step m) c of
        (Some msg, c') \<Rightarrow> ([], Some (mg_version m, msg), c')
      | (None, c') \<Rightarrow> (case run_plan step ms c' of (ok, failed, c'') \<Rightarrow> (m # ok, failed, c'')))"

fun add_rows :: "applied_migration list \<Rightarrow> mig_store \<Rightarrow> mig_store" where
  "add_rows as (MemoryStore rows) = MemoryStore (rows @ as)"
| "add_rows as (SqliteStore rows) = SqliteStore (rows @ as)"

definition migration_outcome :: "(string \<times> string) option \<Rightarrow> 'c migration list \<Rightarrow> mig_error + 'c migration list" where
  "migration_outcome failed ms = (case failed of None \<Rightarrow> Inr ms | Some (v, msg) \<Rightarrow> Inl (MigrationFailure v msg))"

definition row_of :: "(string \<Rightarrow> pyfloat) \<Rightarrow> 'c migration \<Rightarrow> applied_migration" where
  "row_of clock m = \<lparr>am_version = mg_version m, am_name = mg_name m, am_applied_at = clock (mg_version m)\<rparr>"

lemma row_of_version [simp]: "am_version (row_of clock m) = mg_version m"
  by (simp add: row_of_def)

lemma run_plan_prefix:
  "run_plan step ms c = (ok, failed, c') \<Longrightarrow>
    \<exists>rest. ms = ok @ rest \<and> (failed = None \<longleftrightarrow> rest = []) \<and>
      (\<forall>v msg. failed = Some (v, msg) \<longrightarrow> v = mg_version (hd rest))"
  by (induction ms arbitrary: c ok) (auto split: prod.splits option.splits)

lemma store_rows_add [simp]: "store_rows (add_rows as st) = store_rows st @ as"
  by (cases st) simp_all

lemma set_applied_versions: "set (applied_versions st) = am_version ` set (store_rows st)"
  by (cases st) auto

lemma is_applied_add: "is_applied (add_rows as st) v \<longleftrightarrow> is_applied st v \<or> v \<in> set (map am_version as)"
  by (auto simp: is_applied_def set_applied_versions)

lemma add_rows_Nil [simp]: "add_rows [] st = st" and add_rows_append [simp]: "add_rows bs (add_rows as st) = add_rows (as @ bs) st"
  by (cases st, simp_all)+

lemma store_record_eq:
  "store_record a st = (if is_applied st (am_version a) then Inl (MigrationConflict (am_version a)) else Inr (add_rows [a] st))"
  by (cases st) simp_all

lemma each_up:
  assumes "distinct (map mg_version ms)" and "\<And>m. m \<in> set ms \<Longrightarrow> \<not> is_applied (mm_store s) (mg_version m)"
    and "run_plan mg_up ms (mm_context s) = (ok, failed, c)"
  shows "each_of (execute_up clock False) ms s =
    (migration_outcome failed ms, s\<lparr>mm_context := c, mm_store := add_rows (map (row_of clock) ok) (mm_store s),
      mm_journal := mm_journal s @ map (\<lambda>m. (Up, mg_version m, False)) ok\<rparr>)"
  using assms
proof (induction ms arbitrary: s ok)
  case Nil
  then show ?case by (simp add: migration_outcome_def)
next
  case (Cons m ms)
  show ?case
  proof (cases "run_step (mg_up m) (mm_context s)")
    case (Pair raised c1)
    show ?thesis
    proof (cases raised)
      case (Some msg)
      with Pair Cons.prems(3) show ?thesis
        by (auto simp: execute_up_def call_step_def migration_outcome_def)
    next
      case None
      obtain ok' where ok: "run_plan mg_up ms c1 = (ok', failed, c)" "ok = m # ok'"
        using Cons.prems(3) Pair None by (auto split: prod.splits)
      let ?s = "s\<lparr>mm_context := c1, mm_store := add_rows [row_of clock m] (mm_store s),
        mm_journal := mm_journal s @ [(Up, mg_version m, False)]\<rparr>"
      have "execute_up clock False m s = (Inr (), ?s)"
        using Pair None Cons.prems(2) [of m]
        by (simp add: execute_up_def call_step_def mig_record_def write_journal_def store_record_eq row_of_def)
      moreover have "\<not> is_applied (mm_store ?s) (mg_version m')" if "m' \<in> set ms" for m'
        using that Cons.prems(1) Cons.prems(2) [of m'] by (auto simp: is_applied_add image_iff)
      ultimately show ?thesis
        using Cons.IH [of ?s ok'] Cons.prems(1) ok by (simp add: migration_outcome_def split: option.splits)
    qed
  qed
qed

lemma each_down:
  assumes "run_plan mg_down ms (mm_context s) = (ok, failed, c)"
  shows "each_of (execute_down False) ms s =
    (migration_outcome failed ms, s\<lparr>mm_context := c, mm_store := fold store_unrecord (map mg_version ok) (mm_store s),
      mm_journal := mm_journal s @ map (\<lambda>m. (Down, mg_version m, False)) ok\<rparr>)"
  using assms
proof (induction ms arbitrary: s ok)
  case Nil
  then show ?case by (simp add: migration_outcome_def)
next
  case (Cons m ms)
  show ?case
  proof (cases "run_step (mg_down m) (mm_context s)")
    case (Pair raised c1)
    show ?thesis
    proof (cases raised)
      case (Some msg)
      with Pair Cons.prems show ?thesis by (auto simp: execute_down_def call_step_def migration_outcome_def)
    next
      case None
      obtain ok' where ok: "run_plan mg_down ms c1 = (ok', failed, c)" "ok = m # ok'"
        using Cons.prems Pair None by (auto split: prod.splits)
      let ?s = "s\<lparr>mm_context := c1, mm_store := store_unrecord (mg_version m) (mm_store s),
        mm_journal := mm_journal s @ [(Down, mg_version m, False)]\<rparr>"
      have "execute_down False m s = (Inr (), ?s)"
        using Pair None by (simp add: execute_down_def call_step_def write_journal_def)
      then show ?thesis using Cons.IH [of ?s ok'] ok by (simp add: migration_outcome_def split: option.splits)
    qed
  qed
qed

text \<open>The lock is free when some poll before the deadline finds it so.\<close>

definition lock_free :: "mig_env \<Rightarrow> 'c mig_manager \<Rightarrow> bool" where
  "lock_free ev s = acquire_loop (is_sqlite (mm_store s)) (ev_start ev + ev_timeout ev) (ev_polls ev)"

lemma under_lock_run:
  "under_lock ev False body s =
    (if lock_free ev s
     then case body (s\<lparr>mm_held := True\<rparr>) of (r, s') \<Rightarrow> (r, s'\<lparr>mm_held := False\<rparr>)
     else (Inl MigrationLocked, s))"
  by (simp add: under_lock_def lock_acquire_def lock_release_def lock_free_def always_def andthen_norm andthen_def
      split: prod.split)


section \<open>Upgrades\<close>

lemma map_versions_of:
  assumes "filed mg_version d" and "set vs \<subseteq> set (map fst d)"
  shows "map mg_version (map (\<lambda>v. the (dict_get d v)) vs) = vs"
proof -
  have "mg_version (the (dict_get d v)) = v" if "v \<in> set vs" for v
  proof -
    have "dict_get d v \<noteq> None" unfolding map_of_eq_None_iff using assms(2) that by auto
    then show ?thesis using filedD [OF assms(1)] by auto
  qed
  then show ?thesis by (simp add: map_idI)
qed

lemma versions_ordered: "filed mg_version (mm_migrations s) \<Longrightarrow> map mg_version (ordered_migrations s) = sort (map fst (mm_migrations s))"
  unfolding ordered_migrations_def by (rule map_versions_of) simp_all

lemma versions_pending:
  "filed mg_version (mm_migrations s) \<Longrightarrow>
    map mg_version (pending_migrations s) = filter (\<lambda>v. \<not> is_applied (mm_store s) v) (sort (map fst (mm_migrations s)))"
  using versions_ordered [of s] by (simp add: pending_migrations_def is_applied_def Let_def filter_map o_def flip: versions_ordered)

lemma pending_fresh: "m \<in> set (pending_migrations s) \<Longrightarrow> \<not> is_applied (mm_store s) (mg_version m)"
  by (simp add: pending_migrations_def is_applied_def Let_def)

lemma pending_stored:
  assumes "filed mg_version (mm_migrations s)" and "m \<in> set (pending_migrations s)"
  shows "dict_get (mm_migrations s) (mg_version m) = Some m"
proof -
  obtain v where v: "v \<in> set (map fst (mm_migrations s))" "m = the (dict_get (mm_migrations s) v)"
    using assms(2) by (auto simp: pending_migrations_def ordered_migrations_def Let_def)
  then have "dict_get (mm_migrations s) v \<noteq> None" by (simp add: map_of_eq_None_iff)
  with v(2) have "dict_get (mm_migrations s) v = Some m" by auto
  then show ?thesis using filedD [OF assms(1)] by auto
qed

lemma pending_distinct: "filed mg_version (mm_migrations s) \<Longrightarrow> distinct (map mg_version (pending_migrations s))"
  by (simp add: versions_pending filed_def dict_ok_def)

lemma pending_held [simp]: "pending_migrations (s\<lparr>mm_held := b\<rparr>) = pending_migrations s"
  by (simp add: pending_migrations_def ordered_migrations_def)

lemma upgrade_run:
  assumes "filed mg_version (mm_migrations s)" and "lock_free ev s"
    and "run_plan mg_up (pending_migrations s) (mm_context s) = (ok, failed, c)"
  shows "upgrade ev False s =
    (migration_outcome failed (pending_migrations s), s\<lparr>mm_context := c, mm_store := add_rows (map (row_of (ev_clock ev)) ok) (mm_store s),
      mm_journal := mm_journal s @ map (\<lambda>m. (Up, mg_version m, False)) ok, mm_held := False\<rparr>)"
proof -
  have "each_of (execute_up (ev_clock ev) False) (pending_migrations s) (s\<lparr>mm_held := True\<rparr>) =
    (migration_outcome failed (pending_migrations s), s\<lparr>mm_held := True, mm_context := c,
      mm_store := add_rows (map (row_of (ev_clock ev)) ok) (mm_store s),
      mm_journal := mm_journal s @ map (\<lambda>m. (Up, mg_version m, False)) ok\<rparr>)"
    using each_up [of "pending_migrations s" "s\<lparr>mm_held := True\<rparr>" ok failed c, OF pending_distinct [OF assms(1)]] pending_fresh [of _ s]
      assms(3) by simp
  then show ?thesis using assms(2) by (simp add: upgrade_def under_lock_run)
qed

lemma upgrade_ok:
  assumes "filed mg_version (mm_migrations s)" and "lock_free ev s" and "upgrade ev False s = (Inr ms, s1)"
  shows "ms = pending_migrations s"
proof -
  obtain ok failed c where plan: "run_plan mg_up (pending_migrations s) (mm_context s) = (ok, failed, c)" by (metis prod_cases3)
  show ?thesis using upgrade_run [OF assms(1,2) plan] assms(3) by (cases failed) (auto simp: migration_outcome_def)
qed

lemma pending_after:
  assumes "pending_migrations s = ok @ rest" and "filed mg_version (mm_migrations s)"
  shows "pending_migrations (s\<lparr>mm_context := c, mm_store := add_rows (map (row_of clock) ok) (mm_store s), mm_journal := j, mm_held := h\<rparr>) = rest"
proof -
  let ?s = "s\<lparr>mm_context := c, mm_store := add_rows (map (row_of clock) ok) (mm_store s), mm_journal := j, mm_held := h\<rparr>"
  have "pending_migrations ?s = filter (\<lambda>m. mg_version m \<notin> mg_version ` set ok) (pending_migrations s)"
    by (auto simp: pending_migrations_def ordered_migrations_def Let_def set_applied_versions image_Un image_image intro!: filter_cong)
  also have "\<dots> = rest"
  proof -
    have d: "distinct (map mg_version (ok @ rest))" using pending_distinct [OF assms(2)] assms(1) by simp
    have "filter (\<lambda>m. mg_version m \<notin> mg_version ` set ok) rest = rest"
      using d by (auto intro!: filter_True)
    then show ?thesis by (simp add: assms(1))
  qed
  finally show ?thesis .
qed



section \<open>Going back\<close>

lemma run_plan_append:
  "run_plan step xs c = (xs, None, c') \<Longrightarrow> run_plan step ys c' = (ys, None, c'') \<Longrightarrow>
    run_plan step (xs @ ys) c = (xs @ ys, None, c'')"
  by (induction xs arbitrary: c) (auto split: prod.splits option.splits)

text \<open>\<open>undone_by_down m\<close>: the down step of a migration takes back what its up step does.\<close>

definition undone_by_down :: "'c migration \<Rightarrow> bool" where
  "undone_by_down m \<longleftrightarrow> (\<forall>c c'. run_step (mg_up m) c = (None, c') \<longrightarrow> run_step (mg_down m) c' = (None, c))"

lemma run_plan_undo:
  "run_plan mg_up ms c = (ms, None, c') \<Longrightarrow> list_all undone_by_down ms \<Longrightarrow> run_plan mg_down (rev ms) c' = (rev ms, None, c)"
proof (induction ms arbitrary: c)
  case (Cons m ms)
  obtain c1 where up: "run_step (mg_up m) c = (None, c1)" "run_plan mg_up ms c1 = (ms, None, c')"
    using Cons.prems(1) by (auto split: prod.splits option.splits)
  have "run_plan mg_down [m] c1 = ([m], None, c)" using up(1) Cons.prems(2) by (simp add: undone_by_down_def)
  with Cons.IH [OF up(2)] Cons.prems(2) show ?case by (simp add: run_plan_append)
qed simp

lemma fold_unrecord:
  "store_rows (fold store_unrecord vs st) = filter (\<lambda>a. am_version a \<notin> set vs) (store_rows st)"
  "is_sqlite (fold store_unrecord vs st) = is_sqlite st"
proof -
  have one: "store_rows (store_unrecord v st) = filter (\<lambda>a. am_version a \<noteq> v) (store_rows st) \<and>
      is_sqlite (store_unrecord v st) = is_sqlite st" for v st
    by (cases st) simp_all
  show "store_rows (fold store_unrecord vs st) = filter (\<lambda>a. am_version a \<notin> set vs) (store_rows st)"
    "is_sqlite (fold store_unrecord vs st) = is_sqlite st"
    by (induction vs arbitrary: st) (simp_all add: one filter_filter conj_commute)
qed

lemma store_eqI: "store_rows st = store_rows st' \<Longrightarrow> is_sqlite st = is_sqlite st' \<Longrightarrow> st = st'"
  by (cases st; cases st') simp_all

lemma is_sqlite_add [simp]: "is_sqlite (add_rows as st) = is_sqlite st"
  by (cases st) simp_all

lemma unrecord_added:
  assumes "\<And>m. m \<in> set ms \<Longrightarrow> \<not> is_applied st (mg_version m)"
  shows "fold store_unrecord (rev (map mg_version ms)) (add_rows (map (row_of clock) ms) st) = st"
proof (rule store_eqI)
  have "filter (\<lambda>a. am_version a \<notin> set (map mg_version ms)) (store_rows st) = store_rows st"
  proof (intro filter_True ballI notI)
    fix a assume a: "a \<in> set (store_rows st)" "am_version a \<in> set (map mg_version ms)"
    then obtain m where "m \<in> set ms" "am_version a = mg_version m" by auto
    with assms [of m] a(1) show False by (auto simp: is_applied_def set_applied_versions image_iff)
  qed
  then show "store_rows (fold store_unrecord (rev (map mg_version ms)) (add_rows (map (row_of clock) ms) st)) = store_rows st"
    by (simp add: fold_unrecord)
qed (simp add: fold_unrecord)

lemma sort_key_split:
  assumes "\<And>x y. x \<in> set zs \<Longrightarrow> y \<in> set zs \<Longrightarrow> P x \<Longrightarrow> \<not> P y \<Longrightarrow> f x < f y"
  shows "sort_key f zs = sort_key f (filter P zs) @ sort_key f (filter (\<lambda>x. \<not> P x) zs)"
proof (rule properties_for_sort_key)
  let ?ys = "sort_key f (filter P zs) @ sort_key f (filter (\<lambda>x. \<not> P x) zs)"
  show "mset ?ys = mset zs" by simp
  show "filter (\<lambda>x. f k = f x) ?ys = filter (\<lambda>x. f k = f x) zs" if "k \<in> set ?ys" for k
  proof -
    have k: "k \<in> set zs" using that by auto
    have "filter (\<lambda>x. f k = f x) zs = (if P k then filter (\<lambda>x. f k = f x) (filter P zs)
        else filter (\<lambda>x. f k = f x) (filter (\<lambda>x. \<not> P x) zs))"
      using assms k by (auto intro!: filter_cong) (metis less_irrefl)+
    moreover have "P k \<Longrightarrow> filter (\<lambda>x. f k = f x) (filter (\<lambda>x. \<not> P x) zs) = []"
      and "\<not> P k \<Longrightarrow> filter (\<lambda>x. f k = f x) (filter P zs) = []"
      using assms k by (auto simp: filter_empty_conv) (metis less_irrefl)+
    ultimately show ?thesis using sort_key_stable [of f "f k"] by (simp add: eq_commute [of "f k"] del: filter_filter)
  qed
  show "sorted (map f ?ys)"
    using assms by (auto simp: sorted_append intro: less_imp_le)
qed


lemma rollback_run:
  assumes "0 < steps" and "lock_free ev s" and "run_plan mg_down (plan_rollback steps s) (mm_context s) = (ok, failed, c)"
  shows "rollback ev steps False s =
    (migration_outcome failed (plan_rollback steps s), s\<lparr>mm_context := c,
      mm_store := fold store_unrecord (map mg_version ok) (mm_store s),
      mm_journal := mm_journal s @ map (\<lambda>m. (Down, mg_version m, False)) ok, mm_held := False\<rparr>)"
proof -
  have "plan_rollback steps (s\<lparr>mm_held := True\<rparr>) = plan_rollback steps s"
    by (simp add: plan_rollback_def known_applied_def)
  then show ?thesis
    using assms each_down [of "plan_rollback steps s" "s\<lparr>mm_held := True\<rparr>" ok failed c]
    by (simp add: rollback_def under_lock_run)
qed

text \<open>The migrations that \<open>newest_last\<close> admits are the newest ones by their numeric keys, and their keys
  grow in the order in which they are applied.\<close>

definition newest_last :: "'c migration list \<Rightarrow> 'c mig_manager \<Rightarrow> bool" where
  "newest_last ms s \<longleftrightarrow> sorted_wrt (<) (map (\<lambda>m. version_key (mg_version m)) ms) \<and>
     list_all (\<lambda>v. list_all (\<lambda>m. version_key v < version_key (mg_version m)) ms) (known_applied s)"

lemma applied_versions_new:
  assumes "\<And>a. a \<in> set as \<Longrightarrow> \<not> is_applied st (am_version a)"
  shows "filter (is_applied st) (applied_versions (add_rows as st)) = applied_versions st"
    and "mset (filter (\<lambda>v. \<not> is_applied st v) (applied_versions (add_rows as st))) = mset (map am_version as)"
proof -
  have in_rows: "is_applied st (am_version a)" if "a \<in> set (store_rows st)" for a
    using that by (simp add: is_applied_def set_applied_versions)
  have old: "filter (\<lambda>a. is_applied st (am_version a)) (store_rows st @ as) = store_rows st"
    using in_rows assms by (simp add: filter_True filter_False)
  have new: "filter (\<lambda>a. \<not> is_applied st (am_version a)) (store_rows st @ as) = as"
    using in_rows assms by (simp add: filter_True filter_False)
  show "filter (is_applied st) (applied_versions (add_rows as st)) = applied_versions st"
    using old by (cases st) (simp_all add: filter_map o_def filter_sort del: filter_append map_append)
  show "mset (filter (\<lambda>v. \<not> is_applied st v) (applied_versions (add_rows as st))) = mset (map am_version as)"
    using new by (cases st) (simp_all add: filter_map o_def filter_sort del: filter_append map_append mset_filter)
qed

lemma known_applied_after:
  assumes ok: "filed mg_version (mm_migrations s)" and new: "newest_last ms s"
    and ms: "ms = pending_migrations s" and s': "mm_store s' = add_rows (map (row_of clock) ms) (mm_store s)"
      "mm_migrations s' = mm_migrations s"
  shows "known_applied s' = known_applied s @ map mg_version ms"
proof -
  let ?known = "dict_has (mm_migrations s)"
  let ?zs = "filter ?known (applied_versions (mm_store s'))"
  let ?P = "is_applied (mm_store s)"
  have fresh: "\<not> ?P (mg_version m)" if "m \<in> set ms" for m using that pending_fresh ms by blast
  have known: "?known (mg_version m)" if "m \<in> set ms" for m
  proof -
    have "mg_version m \<in> set (map mg_version (pending_migrations s))" using that ms by simp
    then have "mg_version m \<in> set (map fst (mm_migrations s))" unfolding versions_pending [OF ok] by simp
    then show ?thesis by (simp add: dict_has_def map_of_eq_None_iff)
  qed
  have zs: "v \<in> set ?zs \<longleftrightarrow> ?known v \<and> (?P v \<or> v \<in> set (map mg_version ms))" for v
    using is_applied_add [of "map (row_of clock) ms" "mm_store s" v] s' by (auto simp: is_applied_def)
  have old: "v \<in> set (known_applied s)" if "?known v" "?P v" for v
    using that by (simp add: known_applied_def is_applied_def)
  have "sort_key version_key ?zs = sort_key version_key (filter ?P ?zs) @ sort_key version_key (filter (\<lambda>v. \<not> ?P v) ?zs)"
  proof (rule sort_key_split)
    fix x y assume "x \<in> set ?zs" "y \<in> set ?zs" "?P x" "\<not> ?P y"
    then have "x \<in> set (known_applied s)" "y \<in> set (map mg_version ms)" using zs old by auto
    then show "version_key x < version_key y" using new by (auto simp: newest_last_def list_all_iff)
  qed
  moreover have "sort_key version_key (filter (\<lambda>v. \<not> ?P v) ?zs) = map mg_version ms"
  proof (rule sort_key_inj_key_eq)
    have "filter (\<lambda>v. \<not> ?P v) ?zs = filter ?known (filter (\<lambda>v. \<not> ?P v) (applied_versions (mm_store s')))"
      by (simp add: conj_commute)
    also have "mset \<dots> = filter_mset ?known (mset (map mg_version ms))"
    proof -
      have "mset (filter (\<lambda>v. \<not> ?P v) (applied_versions (mm_store s'))) = mset (map mg_version ms)"
        unfolding s' by (subst applied_versions_new(2)) (auto simp: fresh o_def)
      then show ?thesis by (simp only: mset_filter)
    qed
    also have "\<dots> = mset (map mg_version ms)"
    proof -
      have "filter ?known (map mg_version ms) = map mg_version ms" using known by (intro filter_True) auto
      then show ?thesis by (metis mset_filter)
    qed
    finally show "mset (filter (\<lambda>v. \<not> ?P v) ?zs) = mset (map mg_version ms)" .
    have lt: "sorted_wrt (<) (map version_key (map mg_version ms))" using new by (simp add: newest_last_def o_def)
    then show "sorted (map version_key (map mg_version ms))" by (rule strict_sorted_imp_sorted)
    have "inj_on version_key (set (map mg_version ms))" using lt strict_sorted_iff distinct_map by blast
    moreover have "set (filter (\<lambda>v. \<not> ?P v) ?zs) \<subseteq> set (map mg_version ms)" using zs by auto
    ultimately show "inj_on version_key (set (filter (\<lambda>v. \<not> ?P v) ?zs))" by (rule inj_on_subset)
  qed
  moreover have "filter ?P ?zs = filter ?known (applied_versions (mm_store s))"
  proof -
    have "filter ?P ?zs = filter ?known (filter ?P (applied_versions (mm_store s')))" by (simp add: conj_commute)
    moreover have "filter ?P (applied_versions (mm_store s')) = applied_versions (mm_store s)"
      unfolding s' by (rule applied_versions_new) (auto simp: fresh)
    ultimately show ?thesis by simp
  qed
  ultimately show ?thesis by (simp add: known_applied_def s')
qed




definition example_manager :: "nat mig_manager" where
  "example_manager = final_state (mig_register_many
    [\<lparr>mg_version = ''002'', mg_name = ''b'', mg_up = Some (\<lambda>c. (None, c + 10)), mg_down = Some (\<lambda>c. (None, c - 10))\<rparr>,
     \<lparr>mg_version = ''001'', mg_name = ''a'', mg_up = Some (\<lambda>c. (None, c + 5)), mg_down = Some (\<lambda>c. (None, c - 5))\<rparr>])
    \<lparr>mm_migrations = [], mm_store = MemoryStore [], mm_context = 0, mm_journal = [], mm_held = False\<rparr>"

definition example_env :: mig_env where
  "example_env = \<lparr>ev_timeout = 30, ev_start = 0, ev_polls = [(0, True)], ev_clock = (\<lambda>_. 0)\<rparr>"

lemma example_manager_ok: "filed mg_version (mm_migrations example_manager)" "lock_free example_env example_manager"
  by (auto simp: example_manager_def example_env_def mig_register_def final_state_def filed_def dict_ok_def lock_free_def
      andthen_def dict_has_def split: if_splits)

lemma example_pending: "map mg_version (pending_migrations example_manager) = [''001'', ''002'']"
  by code_simp


lemma example_undone: "m \<in> set (pending_migrations example_manager) \<Longrightarrow> undone_by_down m"
  using pending_stored [OF example_manager_ok(1), of m]
  by (auto simp: example_manager_def mig_register_def final_state_def andthen_def dict_has_def undone_by_down_def split: if_splits)



section \<open>Downgrades, dry runs, and the order of versions\<close>

lemma downgrade_run:
  assumes "lock_free ev s" and "run_plan mg_down (plan_downgrade_to target s) (mm_context s) = (ok, failed, c)"
  shows "downgrade_to ev target False s =
    (migration_outcome failed (plan_downgrade_to target s), s\<lparr>mm_context := c,
      mm_store := fold store_unrecord (map mg_version ok) (mm_store s),
      mm_journal := mm_journal s @ map (\<lambda>m. (Down, mg_version m, False)) ok, mm_held := False\<rparr>)"
proof -
  have "plan_downgrade_to target (s\<lparr>mm_held := True\<rparr>) = plan_downgrade_to target s"
    by (simp add: plan_downgrade_to_def known_applied_def)
  then show ?thesis
    using assms each_down [of "plan_downgrade_to target s" "s\<lparr>mm_held := True\<rparr>" ok failed c]
    by (simp add: downgrade_to_def under_lock_run)
qed

text \<open>A downgrade without an error leaves exactly the applied versions that are unknown or not above the
  target.\<close>

theorem downgrade_leaves_target:
  assumes "filed mg_version (mm_migrations s)" and "lock_free ev s" and "downgrade_to ev target False s = (Inr ms, s')"
  shows "set (applied_versions (mm_store s')) =
    {v \<in> set (applied_versions (mm_store s)). dict_has (mm_migrations s) v \<longrightarrow> version_key v \<le> version_key target}"
proof -
  obtain ok failed c where plan: "run_plan mg_down (plan_downgrade_to target s) (mm_context s) = (ok, failed, c)"
    by (metis prod_cases3)
  note run = downgrade_run [OF assms(2) plan, unfolded assms(3), simplified prod.inject]
  have "failed = None" using conjunct1 [OF run] by (cases failed; auto simp: migration_outcome_def)
  then have ok: "ok = plan_downgrade_to target s" using run_plan_prefix [OF plan] by auto
  have "map mg_version ok = rev (filter (\<lambda>v. version_key target < version_key v) (known_applied s))"
    unfolding ok plan_downgrade_to_def
    by (rule map_versions_of [OF assms(1)]) (auto simp: known_applied_def dict_has_def map_of_eq_None_iff)
  then have vs: "set (map mg_version ok) =
      {v \<in> set (applied_versions (mm_store s)). dict_has (mm_migrations s) v \<and> version_key target < version_key v}"
    by (auto simp: known_applied_def)
  have "mm_store s' = fold store_unrecord (map mg_version ok) (mm_store s)"
    using arg_cong [OF conjunct2 [OF run], of mm_store] by simp
  then have "set (applied_versions (mm_store s')) = am_version ` {a \<in> set (store_rows (mm_store s)). am_version a \<notin> set (map mg_version ok)}"
    by (simp add: set_applied_versions fold_unrecord)
  also have "\<dots> = set (applied_versions (mm_store s)) - set (map mg_version ok)" unfolding set_applied_versions by blast
  finally have "set (applied_versions (mm_store s')) = set (applied_versions (mm_store s)) - set (map mg_version ok)" .
  then show ?thesis unfolding vs by (intro set_eqI) (simp add: not_less cong: conj_cong)
qed

text \<open>A dry run returns the plan and writes the journal, and nothing else changes.\<close>

lemma each_dry:
  "each_of (execute_up clock True) ms s =
    (Inr ms, s\<lparr>mm_journal := mm_journal s @ map (\<lambda>m. (Up, mg_version m, True)) ms\<rparr>)"
  "each_of (execute_down True) ms s =
    (Inr ms, s\<lparr>mm_journal := mm_journal s @ map (\<lambda>m. (Down, mg_version m, True)) ms\<rparr>)"
  by (induction ms arbitrary: s) (simp_all add: execute_up_def execute_down_def write_journal_def andthen_norm)

theorem dry_run_pure:
  "upgrade ev True s =
    (Inr (pending_migrations s), s\<lparr>mm_journal := mm_journal s @ map (\<lambda>m. (Up, mg_version m, True)) (pending_migrations s)\<rparr>)"
  by (simp add: upgrade_def under_lock_def each_dry)

text \<open>An upgrade goes by the order of the strings and a rollback by the order of the numbers. With the
  versions \<open>9\<close> and \<open>10\<close> an upgrade applies \<open>10\<close> first and \<open>9\<close> last, and a rollback of one step then
  reverts \<open>10\<close>, which is not the most recent one.\<close>

definition two_versions :: "nat mig_manager" where
  "two_versions = final_state (mig_register_many
    [\<lparr>mg_version = ''9'', mg_name = ''a'', mg_up = None, mg_down = None\<rparr>,
     \<lparr>mg_version = ''10'', mg_name = ''b'', mg_up = None, mg_down = None\<rparr>])
    \<lparr>mm_migrations = [], mm_store = MemoryStore [], mm_context = 0, mm_journal = [], mm_held = False\<rparr>"

theorem rollback_not_most_recent:
  "applied_versions (mm_store (final_state (upgrade example_env False) two_versions)) = [''10'', ''9''] \<and>
   applied_versions (mm_store (final_state (rollback example_env 1 False)
     (final_state (upgrade example_env False) two_versions))) = [''9'']"
  by code_simp

end
