(* ===== verification/Routes.thy ===== *)
theory Routes
  imports Effects Decimal "HOL-Library.List_Lexorder" "HOL-Library.Char_ord" "HOL-Library.Product_Lexorder"
begin

text \<open>
  The gateway's routes: \<open>app/gateway/routing.py\<close> with the routes of \<open>app/gateway/models.py\<close>. A route
  pattern is compiled into a regular expression; the model keeps the list of its segments and gives
  \<open>re.match\<close> of that expression a direct definition, with what \<open>re\<close> does about the optional last
  slash, a final newline and group names that it rejects. A handler stands for whatever the gateway
  attaches to a route.
\<close>

section \<open>Patterns\<close>

datatype segment = Lit string | Param string

definition ends_with :: "string \<Rightarrow> string \<Rightarrow> bool" where
  "ends_with p s = starts_with (rev p) (rev s)"

definition compile_chunk :: "string \<Rightarrow> segment" where
  "compile_chunk chunk =
    (if chunk = '''' then Lit ''''
     else if starts_with ''{'' chunk \<and> ends_with ''}'' chunk then Param (butlast (tl chunk))
     else if starts_with '':'' chunk \<and> 1 < length chunk then Param (tl chunk)
     else Lit chunk)"

definition compile_pattern :: "string \<Rightarrow> segment list" where
  "compile_pattern pattern = map compile_chunk (split_on (CHR ''/'') pattern)"

fun param_names :: "segment list \<Rightarrow> string list" where
  "param_names [] = []"
| "param_names (Lit c # ss) = param_names ss"
| "param_names (Param n # ss) = n # param_names ss"

text \<open>\<open>re\<close> rejects group names that are no identifiers and names that occur twice.\<close>

definition ident_start :: "char \<Rightarrow> bool" where
  "ident_start c \<longleftrightarrow> of_char c \<in> {97..122 :: nat} \<or> of_char c \<in> {65..90 :: nat} \<or> c = CHR ''_''"

definition is_identifier :: "string \<Rightarrow> bool" where
  "is_identifier n \<longleftrightarrow> n \<noteq> '''' \<and> ident_start (hd n) \<and> list_all (\<lambda>c. ident_start c \<or> is_digit c) n"

definition regex_ok :: "segment list \<Rightarrow> bool" where
  "regex_ok ss \<longleftrightarrow> distinct (param_names ss) \<and> list_all is_identifier (param_names ss)"

text \<open>The segments of the pattern against the pieces of the path: a group \<open>[^/]+\<close> takes one non-empty
  piece.\<close>

fun match_segs :: "segment list \<Rightarrow> string list \<Rightarrow> (string, string) dict option" where
  "match_segs [] [] = Some []"
| "match_segs (Lit c # ss) (w # ws) = (if w = c then match_segs ss ws else None)"
| "match_segs (Param n # ss) (w # ws) = (if w = '''' then None else map_option ((#) (n, w)) (match_segs ss ws))"
| "match_segs _ _ = None"

text \<open>The expression ends in \<open>/?$\<close>: a last slash may follow, and \<open>$\<close> also matches before a final
  newline. The alternatives are in the order in which \<open>re\<close> finds them.\<close>

definition without_slash :: "string \<Rightarrow> string option" where
  "without_slash p = (if ends_with ''/'' p then Some (butlast p) else None)"

definition match_piece :: "segment list \<Rightarrow> string \<Rightarrow> (string, string) dict option" where
  "match_piece ss p = match_segs ss (split_on (CHR ''/'') p)"

definition match_slash :: "segment list \<Rightarrow> string \<Rightarrow> (string, string) dict option" where
  "match_slash ss p =
    (case match_piece ss p of
       Some d \<Rightarrow> Some d
     | None \<Rightarrow> (case without_slash p of Some q \<Rightarrow> match_piece ss q | None \<Rightarrow> None))"

definition regex_match :: "segment list \<Rightarrow> string \<Rightarrow> (string, string) dict option" where
  "regex_match ss p =
    (case match_slash ss p of
       Some d \<Rightarrow> Some d
     | None \<Rightarrow> (case without_newline p of Some q \<Rightarrow> match_slash ss q | None \<Rightarrow> None))"

section \<open>Versions\<close>

datatype gateway_error =
    RouteNotFound string string
  | MethodNotAllowed string string "string list"
  | VersionNotSupported string "string list"
  | PatternInvalid string
  | RegexError string

record version_config =
  vc_default_version :: string
  vc_supported_versions :: "string list"
  vc_deprecated_versions :: "string list"
  vc_version_header :: string
  vc_allow_header_versioning :: bool
  vc_version_header_priority :: bool

record version_info =
  vi_version :: string
  vi_source :: string
  vi_deprecated :: bool
  vi_sunset :: string

definition strip_version_prefix :: "version_config \<Rightarrow> string \<Rightarrow> string \<times> string" where
  "strip_version_prefix cfg path =
    (let parts = split_on (CHR ''/'') path
     in if length parts < 2 \<or> parts ! 1 = '''' then (path, '''')
        else if parts ! 1 \<in> set (vc_supported_versions cfg)
        then (let rest = join_with ''/'' (drop 2 parts) in (''/'' @ rest, parts ! 1))
        else (path, ''''))"

text \<open>The first media type \<open>application/vnd.\<close> with \<open>+json\<close> gives the version between its last dot and
  the plus sign.\<close>

definition vendor_version :: "string \<Rightarrow> string option" where
  "vendor_version part =
    (let t = py_strip part
     in if starts_with ''application/vnd.'' t \<and> contains_str ''+json'' t
        then Some (hd (split_on (CHR ''+'') (last (split_on (CHR ''.'') t)))) else None)"

definition header_version :: "version_config \<Rightarrow> (string, string) dict \<Rightarrow> string" where
  "header_version cfg headers =
    (if \<not> vc_allow_header_versioning cfg then ''''
     else let v = dict_get_or headers (vc_version_header cfg) ''''
          in if v \<noteq> '''' then v
             else (case List.map_filter vendor_version (split_on (CHR '','') (dict_get_or headers ''Accept'' '''')) of
                     w # _ \<Rightarrow> w | [] \<Rightarrow> v))"

definition sunset_of :: "version_config \<Rightarrow> string \<Rightarrow> string" where
  "sunset_of cfg v =
    (if v \<notin> set (vc_deprecated_versions cfg) then ''''
     else ''sunset-after-'' @ show_nat (length (takeWhile (\<lambda>w. w \<noteq> v) (vc_deprecated_versions cfg)) + 1) @
       ''-deprecation-cycles'')"

definition negotiate ::
  "version_config \<Rightarrow> (string, string) dict \<Rightarrow> string \<Rightarrow> (string, string) dict \<Rightarrow> gateway_error + version_info" where
  "negotiate cfg headers url_version query =
    (let header = (header_version cfg headers, ''header'');
         url = (url_version, ''url'');
         quer = (dict_get_or query ''version'' '''', ''query'');
         order = (if vc_version_header_priority cfg then [header, url, quer] else [url, header, quer])
     in case find (\<lambda>(v, src). v \<noteq> '''') order of
          None \<Rightarrow> (let v = vc_default_version cfg
            in Inr \<lparr>vi_version = v, vi_source = ''default'', vi_deprecated = (v \<in> set (vc_deprecated_versions cfg)),
                   vi_sunset = sunset_of cfg v\<rparr>)
        | Some (v, src) \<Rightarrow>
            if v \<notin> set (vc_supported_versions cfg) then Inl (VersionNotSupported v (vc_supported_versions cfg))
            else Inr \<lparr>vi_version = v, vi_source = src, vi_deprecated = (v \<in> set (vc_deprecated_versions cfg)),
                   vi_sunset = sunset_of cfg v\<rparr>)"

section \<open>The registry\<close>

record 'h gw_route =
  rt_pattern :: string
  rt_handler :: 'h
  rt_methods :: "string list"
  rt_version :: string

definition method_ok :: "'h gw_route \<Rightarrow> string \<Rightarrow> bool" where
  "method_ok r m \<longleftrightarrow> ''ANY'' \<in> set (rt_methods r) \<or> m \<in> set (rt_methods r)"

definition version_ok :: "'h gw_route \<Rightarrow> string \<Rightarrow> bool" where
  "version_ok r v \<longleftrightarrow> v = '''' \<or> rt_version r = v"

definition route_matches :: "'h gw_route \<Rightarrow> string \<Rightarrow> string \<Rightarrow> bool" where
  "route_matches r m v \<longleftrightarrow> method_ok r m \<and> version_ok r v"

record 'h registry =
  rg_routes :: "(string, (string, 'h gw_route) dict) dict"
  rg_compiled :: "(string, segment list) dict"
  rg_revision :: nat

definition empty_registry :: "'h registry" where
  "empty_registry = \<lparr>rg_routes = [], rg_compiled = [], rg_revision = 0\<rparr>"

definition route_register :: "'h gw_route \<Rightarrow> 'h registry \<Rightarrow> gateway_error + 'h registry" where
  "route_register r g =
    (if \<not> starts_with ''/'' (rt_pattern r) then Inl (PatternInvalid (rt_pattern r))
     else let p = rt_pattern r
          in Inr \<lparr>rg_routes = dict_set p (dict_set (rt_version r) r (dict_get_or (rg_routes g) p [])) (rg_routes g),
                 rg_compiled = (if dict_has (rg_compiled g) p then rg_compiled g
                                else dict_set p (compile_pattern p) (rg_compiled g)),
                 rg_revision = rg_revision g + 1\<rparr>)"

definition route_unregister :: "string \<Rightarrow> string \<Rightarrow> 'h registry \<Rightarrow> bool \<times> 'h registry" where
  "route_unregister p v g =
    (case dict_get (rg_routes g) p of
       None \<Rightarrow> (False, g)
     | Some versions \<Rightarrow>
         (let left = (if v \<noteq> '''' then (if dict_has versions v then Some (dict_pop v versions) else None)
                      else if versions = [] then None else Some (butlast versions))
          in case left of
               None \<Rightarrow> (False, g)
             | Some rest \<Rightarrow>
                 (True, \<lparr>rg_routes = (if rest = [] then dict_pop p (rg_routes g) else dict_set p rest (rg_routes g)),
                         rg_compiled = (if rest = [] then dict_pop p (rg_compiled g) else rg_compiled g),
                         rg_revision = rg_revision g + 1\<rparr>)))"

definition route_get :: "version_config \<Rightarrow> string \<Rightarrow> string \<Rightarrow> 'h registry \<Rightarrow> 'h gw_route option" where
  "route_get cfg p v g =
    (case dict_get (rg_routes g) p of
       None \<Rightarrow> None
     | Some versions \<Rightarrow>
         if v \<noteq> '''' then dict_get versions v
         else (case dict_get versions (vc_default_version cfg) of
                 Some r \<Rightarrow> Some r
               | None \<Rightarrow> (case versions of [] \<Rightarrow> None | (_, r) # _ \<Rightarrow> Some r)))"

definition all_routes :: "'h registry \<Rightarrow> 'h gw_route list" where
  "all_routes g = concat (map (\<lambda>(p, versions). map snd versions) (rg_routes g))"

definition route_list :: "string \<Rightarrow> 'h registry \<Rightarrow> 'h gw_route list" where
  "route_list v g = sort_key (\<lambda>r. (rt_pattern r, rt_version r))
    (concat (map (\<lambda>(p, versions). map snd (filter (\<lambda>(w, r). v = '''' \<or> w = v) versions)) (rg_routes g)))"

definition route_reload :: "'h registry \<Rightarrow> 'h registry" where
  "route_reload g = g\<lparr>rg_compiled := fold (\<lambda>(p, _). dict_set p (compile_pattern p)) (rg_routes g) (rg_compiled g),
    rg_revision := rg_revision g + 1\<rparr>"

definition route_clear :: "'h registry \<Rightarrow> 'h registry" where
  "route_clear g = \<lparr>rg_routes = [], rg_compiled = [], rg_revision = rg_revision g + 1\<rparr>"

definition route_count :: "'h registry \<Rightarrow> nat" where
  "route_count g = sum_list (map (\<lambda>(p, versions). length versions) (rg_routes g))"

section \<open>Resolution\<close>

definition versions_for :: "'h registry \<Rightarrow> string \<Rightarrow> 'h gw_route list" where
  "versions_for g p = map snd (dict_get_or (rg_routes g) p [])"

definition static_score :: "string \<Rightarrow> nat" where
  "static_score p = length (filter (\<lambda>c. c \<noteq> '''' \<and> \<not> starts_with ''{'' c \<and> \<not> starts_with '':'' c) (split_on (CHR ''/'') p))"

definition pick_route :: "(string, 'h gw_route) dict \<Rightarrow> string \<Rightarrow> string \<Rightarrow> 'h gw_route option" where
  "pick_route versions m v =
    (if v \<noteq> ''''
     then (case dict_get versions v of
             Some r \<Rightarrow> if route_matches r m v then Some r else None
           | None \<Rightarrow> None)
     else find (\<lambda>r. route_matches r m '''') (sort_key rt_version (map snd versions)))"

text \<open>\<open>re.match\<close> compiles the expression and raises if it is not one.\<close>

definition try_match :: "segment list \<Rightarrow> string \<Rightarrow> gateway_error + (string, string) dict option" where
  "try_match ss path = (if regex_ok ss then Inr (regex_match ss path) else Inl (RegexError path))"

text \<open>The loops over compiled patterns and their routes, on the list of all pairs.\<close>

definition flat_routes :: "'h registry \<Rightarrow> (string \<times> segment list \<times> 'h gw_route) list" where
  "flat_routes g = concat (map (\<lambda>(p, ss). map (\<lambda>r. (p, ss, r)) (versions_for g p)) (rg_compiled g))"

fun collect_matches ::
  "string \<Rightarrow> string \<Rightarrow> string \<Rightarrow> (string \<times> segment list \<times> 'h gw_route) list \<Rightarrow> gateway_error + ('h gw_route \<times> (string, string) dict) list" where
  "collect_matches path m v [] = Inr []"
| "collect_matches path m v ((p, ss, r) # rest) =
     (if p = path \<or> \<not> route_matches r m v then collect_matches path m v rest
      else bind_result (try_match ss path) (\<lambda>found.
           bind_result (collect_matches path m v rest) (\<lambda>more.
             Inr (case found of Some d \<Rightarrow> (r, d) # more | None \<Rightarrow> more))))"

fun has_any_route :: "string \<Rightarrow> string \<Rightarrow> (string \<times> segment list \<times> 'h gw_route) list \<Rightarrow> gateway_error + bool" where
  "has_any_route path v [] = Inr False"
| "has_any_route path v ((p, ss, r) # rest) =
     (if \<not> version_ok r v then has_any_route path v rest
      else bind_result (try_match ss path) (\<lambda>found.
             if found \<noteq> None then Inr True else has_any_route path v rest))"

text \<open>\<open>_allowed_methods\<close>: an \<open>ANY\<close> route ends the search; otherwise the methods of the matching routes.\<close>

fun allowed_methods ::
  "string \<Rightarrow> string \<Rightarrow> (string \<times> segment list \<times> 'h gw_route list) list \<Rightarrow> string list \<Rightarrow> gateway_error + string list" where
  "allowed_methods path v [] acc = Inr (sort (remdups acc))"
| "allowed_methods path v ((p, ss, rs) # rest) acc =
     bind_result (try_match ss path) (\<lambda>found.
       if found = None then allowed_methods path v rest acc
       else let here = filter (\<lambda>r. version_ok r v) rs
            in if list_ex (\<lambda>r. ''ANY'' \<in> set (rt_methods r)) here then Inr [''ANY'']
               else allowed_methods path v rest (acc @ concat (map rt_methods here)))"

definition patterns_of :: "'h registry \<Rightarrow> (string \<times> segment list \<times> 'h gw_route list) list" where
  "patterns_of g = map (\<lambda>(p, versions).
    (p, (case dict_get (rg_compiled g) p of Some ss \<Rightarrow> ss | None \<Rightarrow> compile_pattern p), map snd versions)) (rg_routes g)"

definition resolve ::
  "string \<Rightarrow> string \<Rightarrow> string \<Rightarrow> 'h registry \<Rightarrow> gateway_error + ('h gw_route \<times> (string, string) dict)" where
  "resolve path m v g =
    (case (case dict_get (rg_routes g) path of None \<Rightarrow> None | Some versions \<Rightarrow> pick_route versions m v) of
       Some r \<Rightarrow> Inr (r, [])
     | None \<Rightarrow>
         bind_result (collect_matches path m v (flat_routes g)) (\<lambda>matched.
           if matched = []
           then bind_result (has_any_route path v (flat_routes g)) (\<lambda>any.
                  if any then bind_result (allowed_methods path v (patterns_of g) []) (\<lambda>ms.
                                Inl (MethodNotAllowed path m ms))
                  else Inl (RouteNotFound path m))
           else Inr (hd (sort_key (\<lambda>(r, d). (static_score (rt_pattern r), rt_pattern r, rt_version r)) matched))))"


section \<open>What a match means\<close>

fun fill_seg :: "(string, string) dict \<Rightarrow> segment \<Rightarrow> string" where
  "fill_seg d (Lit c) = c"
| "fill_seg d (Param n) = dict_get_or d n ''''"

definition fill_pattern :: "segment list \<Rightarrow> (string, string) dict \<Rightarrow> string" where
  "fill_pattern ss d = join_with ''/'' (map (fill_seg d) ss)"

lemma fill_seg_other: "n \<notin> set (param_names ss) \<Longrightarrow> map (fill_seg ((n, w) # d)) ss = map (fill_seg d) ss"
  by (induction ss rule: param_names.induct) (auto simp: dict_get_or_def)

lemma match_segs_fill:
  "match_segs ss ws = Some d \<Longrightarrow> distinct (param_names ss) \<Longrightarrow>
    map (fill_seg d) ss = ws \<and> map fst d = param_names ss \<and> list_all (\<lambda>v. v \<noteq> '''') (map snd d)"
proof (induction ss ws arbitrary: d rule: match_segs.induct)
  case (3 n ss w ws)
  then obtain d' where d': "match_segs ss ws = Some d'" "d = (n, w) # d'" "w \<noteq> ''''" by (auto split: if_splits)
  with 3 show ?case by (simp add: fill_seg_other dict_get_or_def)
qed (auto split: if_splits)

lemma fill_match_segs:
  "map fst d = param_names ss \<Longrightarrow> distinct (param_names ss) \<Longrightarrow> list_all (\<lambda>v. v \<noteq> '''') (map snd d) \<Longrightarrow>
    match_segs ss (map (fill_seg d) ss) = Some d"
proof (induction ss arbitrary: d rule: param_names.induct)
  case (3 n ss)
  then obtain w d' where d': "d = (n, w) # d'" "map fst d' = param_names ss" by (cases d) auto
  with 3 show ?case by (simp add: fill_seg_other dict_get_or_def)
qed simp_all

lemma match_piece_join: "match_piece ss p = Some d \<Longrightarrow> distinct (param_names ss) \<Longrightarrow> p = fill_pattern ss d \<and> map fst d = param_names ss"
  using match_segs_fill [of ss "split_on (CHR ''/'') p" d] join_split [of "CHR ''/''" p]
  by (auto simp: match_piece_def fill_pattern_def)

lemma without_slash_Some: "without_slash p = Some q \<longleftrightarrow> p = q @ ''/''"
proof -
  have "ends_with ''/'' p \<longleftrightarrow> p \<noteq> [] \<and> last p = CHR ''/''"
    by (cases p rule: rev_cases) (auto simp: ends_with_def)
  then show ?thesis by (cases p rule: rev_cases) (auto simp: without_slash_def)
qed

lemma match_slash_cases:
  assumes "match_slash ss p = Some d" and "distinct (param_names ss)"
  shows "map fst d = param_names ss \<and> (p = fill_pattern ss d \<or> p = fill_pattern ss d @ ''/'')"
  using assms match_piece_join [of ss _ d]
  by (auto simp: match_slash_def without_slash_Some split: option.splits)

lemma regex_match_cases:
  assumes "regex_match ss p = Some d" and "distinct (param_names ss)"
  shows "map fst d = param_names ss \<and> (\<exists>e \<in> {'''', ''/'', [CHR 0x0A], ''/'' @ [CHR 0x0A]}. p = fill_pattern ss d @ e)"
  using assms match_slash_cases [of ss _ d]
  by (fastforce simp: regex_match_def without_newline_Some split: option.splits)

lemma lit_no_slash:
  assumes "Lit c \<in> set (compile_pattern p)"
  shows "CHR ''/'' \<notin> set c"
proof -
  obtain w where "w \<in> set (split_on (CHR ''/'') p)" "compile_chunk w = Lit c" using assms by (auto simp: compile_pattern_def)
  then show ?thesis using split_on_no_sep [of w "CHR ''/''" p] by (auto simp: compile_chunk_def split: if_splits)
qed

lemma fill_regex_match:
  assumes "regex_ok (compile_pattern p)" and "map fst d = param_names (compile_pattern p)"
    and "list_all (\<lambda>v. v \<noteq> '''' \<and> CHR ''/'' \<notin> set v) (map snd d)"
  shows "regex_match (compile_pattern p) (fill_pattern (compile_pattern p) d) = Some d"
proof -
  let ?ss = "compile_pattern p"
  have piece: "CHR ''/'' \<notin> set w" if w: "w \<in> set (map (fill_seg d) ?ss)" for w
  proof -
    obtain s where s: "s \<in> set ?ss" "w = fill_seg d s" using w by auto
    show ?thesis
    proof (cases s)
      case (Lit c)
      then show ?thesis using s lit_no_slash by simp
    next
      case (Param n)
      then show ?thesis using s assms(3) dict_get_in [of d n]
        by (cases "dict_get d n") (auto simp: dict_get_or_def list_all_iff)
    qed
  qed
  have "map (fill_seg d) ?ss \<noteq> []" by (simp add: compile_pattern_def)
  then have "split_on (CHR ''/'') (fill_pattern ?ss d) = map (fill_seg d) ?ss"
    unfolding fill_pattern_def using piece by (intro split_join) blast+
  moreover have "match_segs ?ss (map (fill_seg d) ?ss) = Some d"
    using assms by (intro fill_match_segs) (auto simp: regex_ok_def list_all_iff)
  ultimately show ?thesis by (simp add: regex_match_def match_slash_def match_piece_def)
qed

text \<open>Matching a path against a route pattern and filling the pattern with parameters undo each other:
  the parameters of a match put back into the pattern give the path, up to a last slash and a final
  newline, and a pattern filled with non-empty values without slashes matches with exactly these values.\<close>

theorem route_params_round_trip:
  assumes "regex_ok (compile_pattern p)"
  shows "(regex_match (compile_pattern p) path = Some d \<longrightarrow>
      map fst d = param_names (compile_pattern p) \<and>
      (\<exists>e \<in> {'''', ''/'', [CHR 0x0A], ''/'' @ [CHR 0x0A]}. path = fill_pattern (compile_pattern p) d @ e)) \<and>
    (map fst d = param_names (compile_pattern p) \<longrightarrow> list_all (\<lambda>v. v \<noteq> '''' \<and> CHR ''/'' \<notin> set v) (map snd d) \<longrightarrow>
      regex_match (compile_pattern p) (fill_pattern (compile_pattern p) d) = Some d)"
  using assms regex_match_cases fill_regex_match by (auto simp: regex_ok_def)

theorem route_params_round_trip_witness:
  "compile_pattern ''/users/{id}/:post'' = [Lit '''', Lit ''users'', Param ''id'', Param ''post''] \<and>
   regex_match (compile_pattern ''/users/{id}/:post'') ''/users/7/a-b'' = Some [(''id'', ''7''), (''post'', ''a-b'')]"
proof -
  let ?d = "[(''id'', ''7''), (''post'', ''a-b'')]"
  have c: "compile_pattern ''/users/{id}/:post'' = [Lit '''', Lit ''users'', Param ''id'', Param ''post'']" by code_simp
  have ok: "regex_ok (compile_pattern ''/users/{id}/:post'')" by code_simp
  have f: "fill_pattern (compile_pattern ''/users/{id}/:post'') ?d = ''/users/7/a-b''" by code_simp
  have "list_all (\<lambda>v. v \<noteq> '''' \<and> CHR ''/'' \<notin> set v) (map snd ?d)" by code_simp
  then have "regex_match (compile_pattern ''/users/{id}/:post'') (fill_pattern (compile_pattern ''/users/{id}/:post'') ?d) = Some ?d"
    using route_params_round_trip [OF ok, of _ ?d] by (simp add: c)
  then show ?thesis unfolding f using c by blast
qed


section \<open>The registry stays well-formed\<close>

text \<open>Every pattern has a compiled form and at least one route; routes are filed under their pattern and
  version.\<close>

definition versions_ok :: "string \<Rightarrow> (string, 'h gw_route) dict \<Rightarrow> bool" where
  "versions_ok p vs \<longleftrightarrow> vs \<noteq> [] \<and> filed rt_version vs \<and> list_all (\<lambda>(v, r). rt_pattern r = p) vs"

definition reg_ok :: "'h registry \<Rightarrow> bool" where
  "reg_ok g \<longleftrightarrow> dict_ok (rg_routes g) \<and> dict_ok (rg_compiled g) \<and>
     (\<forall>p vs. dict_get (rg_routes g) p = Some vs \<longrightarrow> versions_ok p vs) \<and>
     (\<forall>p. dict_get (rg_compiled g) p = map_option (\<lambda>_. compile_pattern p) (dict_get (rg_routes g) p))"

lemma reg_ok_empty: "reg_ok empty_registry"
  by (simp add: reg_ok_def empty_registry_def)


lemma versions_ok_set:
  assumes "vs = [] \<or> versions_ok (rt_pattern r) vs"
  shows "versions_ok (rt_pattern r) (dict_set (rt_version r) r vs)"
proof -
  have "filed rt_version (dict_set (rt_version r) r vs)" using assms by (auto simp: versions_ok_def)
  moreover have "list_all (\<lambda>(v, r'). rt_pattern r' = rt_pattern r) (dict_set (rt_version r) r vs)"
    using assms by (intro list_all_dict_set) (auto simp: versions_ok_def)
  moreover have "dict_set (rt_version r) r vs \<noteq> []" by (cases vs) auto
  ultimately show ?thesis by (simp add: versions_ok_def)
qed

lemma reg_ok_register: "reg_ok g \<Longrightarrow> route_register r g = Inr g' \<Longrightarrow> reg_ok g'"
  using versions_ok_set [of "dict_get_or (rg_routes g) (rt_pattern r) []" r]
  by (cases "dict_get (rg_routes g) (rt_pattern r)")
    (auto simp: reg_ok_def route_register_def Let_def dict_get_or_def dict_has_def split: if_splits)

lemma versions_ok_butlast:
  assumes "versions_ok p vs" and "butlast vs \<noteq> []"
  shows "versions_ok p (butlast vs)"
proof -
  have d: "dict_ok vs" and key: "\<And>v r. dict_get vs v = Some r \<Longrightarrow> rt_version r = v"
    using assms(1) by (auto simp: versions_ok_def filed_def)
  have ok: "dict_ok (butlast vs)" using d by (simp add: dict_ok_def map_butlast distinct_butlast)
  have "filed rt_version (butlast vs)"
    unfolding filed_def using ok key dict_get_in [of "butlast vs"] dict_ok_getI [OF d] in_set_butlastD by metis
  then show ?thesis using assms by (auto simp: versions_ok_def list_all_iff dest: in_set_butlastD)
qed

lemma reg_ok_unregister: "reg_ok g \<Longrightarrow> route_unregister p v g = (b, g') \<Longrightarrow> reg_ok g'"
proof -
  assume ok: "reg_ok g" and run: "route_unregister p v g = (b, g')"
  have pop: "versions_ok p (dict_pop w vs)" if "versions_ok p vs" "dict_pop w vs \<noteq> []" for w vs
    using that by (auto simp: versions_ok_def intro: list_all_dict_pop)
  show ?thesis
  proof (cases "dict_get (rg_routes g) p")
    case None
    then show ?thesis using run ok by (simp add: route_unregister_def)
  next
    case (Some vs)
    then have "versions_ok p vs" using ok by (simp add: reg_ok_def)
    then show ?thesis using run ok Some pop [of vs v] versions_ok_butlast [of p vs]
      by (auto simp: route_unregister_def reg_ok_def Let_def split: if_splits option.splits)
  qed
qed

lemma reg_ok_clear: "reg_ok (route_clear g)"
  by (simp add: reg_ok_def route_clear_def)

lemma fold_compile_get:
  "dict_get (fold (\<lambda>(p, _). dict_set p (compile_pattern p)) rs d) p =
    (if dict_get rs p \<noteq> None then Some (compile_pattern p) else dict_get d p)"
  by (induction rs arbitrary: d) auto

lemma fold_compile_ok: "dict_ok d \<Longrightarrow> dict_ok (fold (\<lambda>(p, _). dict_set p (compile_pattern p)) rs d)"
  by (induction rs arbitrary: d) auto

lemma reg_ok_reload: "reg_ok g \<Longrightarrow> reg_ok (route_reload g)"
  by (auto simp: reg_ok_def route_reload_def fold_compile_get fold_compile_ok)


section \<open>Resolution is right\<close>

lemma all_routes_iff:
  assumes "reg_ok g"
  shows "r \<in> set (all_routes g) \<longleftrightarrow>
    (\<exists>vs. dict_get (rg_routes g) (rt_pattern r) = Some vs \<and> dict_get vs (rt_version r) = Some r)"
proof
  assume "r \<in> set (all_routes g)"
  then obtain p vs v where mem: "(p, vs) \<in> set (rg_routes g)" "(v, r) \<in> set vs" by (auto simp: all_routes_def)
  then have get: "dict_get (rg_routes g) p = Some vs" using assms by (auto simp: reg_ok_def intro: dict_ok_getI)
  then have "versions_ok p vs" using assms by (simp add: reg_ok_def)
  then have "dict_get vs v = Some r" "rt_pattern r = p" "rt_version r = v"
    using mem(2) by (auto simp: versions_ok_def filed_def list_all_iff dict_ok_getI)
  with get show "\<exists>vs. dict_get (rg_routes g) (rt_pattern r) = Some vs \<and> dict_get vs (rt_version r) = Some r" by auto
next
  assume "\<exists>vs. dict_get (rg_routes g) (rt_pattern r) = Some vs \<and> dict_get vs (rt_version r) = Some r"
  then show "r \<in> set (all_routes g)" by (force simp: all_routes_def dest: dict_get_in)
qed

lemma versions_in: "reg_ok g \<Longrightarrow> dict_get (rg_routes g) p = Some vs \<Longrightarrow> r \<in> set (map snd vs) \<Longrightarrow> r \<in> set (all_routes g) \<and> rt_pattern r = p"
proof -
  assume ok: "reg_ok g" and vs: "dict_get (rg_routes g) p = Some vs" and r: "r \<in> set (map snd vs)"
  then have "versions_ok p vs" by (simp add: reg_ok_def)
  then have "dict_get vs (rt_version r) = Some r" "rt_pattern r = p"
    using r filed_values [of rt_version vs r] by (auto simp: versions_ok_def list_all_iff)
  then show ?thesis using vs by (simp add: all_routes_iff [OF ok])
qed

lemma flat_routes_iff:
  assumes "reg_ok g"
  shows "(p, ss, r) \<in> set (flat_routes g) \<longleftrightarrow> r \<in> set (all_routes g) \<and> p = rt_pattern r \<and> ss = compile_pattern p"
proof
  assume "(p, ss, r) \<in> set (flat_routes g)"
  then have c: "(p, ss) \<in> set (rg_compiled g)" "r \<in> set (versions_for g p)" by (auto simp: flat_routes_def)
  have "dict_ok (rg_compiled g)" using assms by (simp add: reg_ok_def)
  then have "dict_get (rg_compiled g) p = Some ss" using c(1) by (rule dict_ok_getI)
  moreover have "dict_get (rg_compiled g) p = map_option (\<lambda>_. compile_pattern p) (dict_get (rg_routes g) p)"
    using assms by (simp add: reg_ok_def)
  ultimately obtain vs where vs: "dict_get (rg_routes g) p = Some vs" "ss = compile_pattern p" by auto
  then have "r \<in> set (map snd vs)" using c(2) by (simp add: versions_for_def dict_get_or_def)
  then show "r \<in> set (all_routes g) \<and> p = rt_pattern r \<and> ss = compile_pattern p"
    using versions_in [OF assms vs(1)] vs(2) by auto
next
  assume r: "r \<in> set (all_routes g) \<and> p = rt_pattern r \<and> ss = compile_pattern p"
  then obtain vs where vs: "dict_get (rg_routes g) p = Some vs" "dict_get vs (rt_version r) = Some r"
    using all_routes_iff [OF assms] by auto
  then have "dict_get (rg_compiled g) p = Some ss" using r assms by (simp add: reg_ok_def)
  moreover have "r \<in> set (versions_for g p)" using vs by (force simp: versions_for_def dict_get_or_def dest: dict_get_in)
  ultimately have "(p, ss) \<in> set (rg_compiled g)" "r \<in> set (versions_for g p)" using dict_get_in by fast+
  then show "(p, ss, r) \<in> set (flat_routes g)" by (auto simp: flat_routes_def)
qed

definition match_entry :: "string \<Rightarrow> string \<Rightarrow> string \<Rightarrow> string \<times> segment list \<times> 'h gw_route \<Rightarrow> ('h gw_route \<times> (string, string) dict) option" where
  "match_entry path m v f = (case f of (p, ss, r) \<Rightarrow>
    if p \<noteq> path \<and> route_matches r m v then map_option (Pair r) (regex_match ss path) else None)"

lemma collect_matches_run:
  "list_all (\<lambda>(p, ss, r). regex_ok ss) fs \<Longrightarrow> collect_matches path m v fs = Inr (List.map_filter (match_entry path m v) fs)"
  by (induction path m v fs rule: collect_matches.induct)
    (auto simp: try_match_def bind_result_def match_entry_def map_filter_simps split: option.split)

lemma has_any_route_run:
  "list_all (\<lambda>(p, ss, r). regex_ok ss) fs \<Longrightarrow>
    has_any_route path v fs = Inr (list_ex (\<lambda>(p, ss, r). version_ok r v \<and> regex_match ss path \<noteq> None) fs)"
  by (induction path v fs rule: has_any_route.induct) (auto simp: try_match_def bind_result_def)

lemma allowed_methods_run:
  "list_all (\<lambda>(p, ss, rs). regex_ok ss) fs \<Longrightarrow> \<exists>ms. allowed_methods path v fs acc = Inr ms"
  by (induction path v fs acc rule: allowed_methods.induct) (auto simp: try_match_def bind_result_def Let_def)


text \<open>A pattern matches itself as a path.\<close>

lemma pattern_matches_itself: "regex_match (compile_pattern p) p \<noteq> None"
proof -
  have "\<exists>d. match_segs (map compile_chunk ws) ws = Some d" for ws
  proof (induction ws)
    case (Cons w ws)
    then obtain d where "match_segs (map compile_chunk ws) ws = Some d" by blast
    moreover have "compile_chunk w = Lit w \<or> w \<noteq> '''' \<and> (\<exists>n. compile_chunk w = Param n)" by (simp add: compile_chunk_def)
    ultimately show ?case by auto
  qed simp
  from this [of "split_on (CHR ''/'') p"] show ?thesis
    by (auto simp: regex_match_def match_slash_def match_piece_def compile_pattern_def)
qed

lemma pick_route_some:
  assumes "pick_route vs m v = Some r"
  shows "r \<in> set (map snd vs) \<and> route_matches r m v"
proof (cases "v = ''''")
  case True
  with assms have f: "find (\<lambda>r. route_matches r m '''') (sort_key rt_version (map snd vs)) = Some r" by (simp add: pick_route_def)
  then have "r \<in> set (sort_key rt_version (map snd vs)) \<and> route_matches r m ''''"
    unfolding find_Some_iff by (metis nth_mem)
  with True show ?thesis by simp
next
  case False
  with assms show ?thesis by (force simp: pick_route_def split: option.splits if_splits dest: dict_get_in)
qed

lemma pick_route_none:
  assumes "pick_route vs m v = None" and "filed rt_version vs" and "r \<in> set (map snd vs)"
  shows "\<not> route_matches r m v"
proof (cases "v = ''''")
  case True
  with assms(1,3) show ?thesis by (auto simp: pick_route_def find_None_iff)
next
  case False
  have "dict_get vs (rt_version r) = Some r" using filed_values [OF assms(2)] assms(3) by blast
  with False assms(1) show ?thesis by (auto simp: pick_route_def route_matches_def version_ok_def split: option.splits)
qed

text \<open>\<open>serves r path\<close>: the pattern of a route admits a path, literally or by its expression.\<close>

definition serves :: "'h gw_route \<Rightarrow> string \<Rightarrow> bool" where
  "serves r path \<longleftrightarrow> regex_match (compile_pattern (rt_pattern r)) path \<noteq> None"

text \<open>C31. Resolution on a well-formed registry whose patterns compile: a route that is found is registered,
  serves the path and accepts the method and the version, and its parameters are those of the match
  (none when the path is the pattern itself); the path is reported as unknown exactly when no
  registered route of the version serves it, and the method as not allowed exactly when some do
  and none of them accepts it.\<close>

theorem resolve_correct:
  assumes "reg_ok g" and "list_all (\<lambda>r. regex_ok (compile_pattern (rt_pattern r))) (all_routes g)"
  shows "case resolve path m v g of
      Inr (r, d) \<Rightarrow> r \<in> set (all_routes g) \<and> route_matches r m v \<and>
        (rt_pattern r = path \<and> d = [] \<or> regex_match (compile_pattern (rt_pattern r)) path = Some d)
    | Inl (RouteNotFound p' m') \<Rightarrow> p' = path \<and> m' = m \<and> \<not> list_ex (\<lambda>r. version_ok r v \<and> serves r path) (all_routes g)
    | Inl (MethodNotAllowed p' m' ms) \<Rightarrow> p' = path \<and> m' = m \<and> list_ex (\<lambda>r. version_ok r v \<and> serves r path) (all_routes g) \<and>
        \<not> list_ex (\<lambda>r. route_matches r m v \<and> serves r path) (all_routes g)
    | _ \<Rightarrow> False"
proof -
  note flat = flat_routes_iff [OF assms(1)]
  have rx: "list_all (\<lambda>(p, ss, r). regex_ok ss) (flat_routes g)"
    using assms(2) flat by (auto simp: list_all_iff)
  let ?xs = "List.map_filter (match_entry path m v) (flat_routes g)"
  have xs: "(r, d) \<in> set ?xs \<longleftrightarrow> r \<in> set (all_routes g) \<and> rt_pattern r \<noteq> path \<and> route_matches r m v \<and>
      regex_match (compile_pattern (rt_pattern r)) path = Some d" for r d
  proof -
    have "(r, d) \<in> set ?xs \<longleftrightarrow> (\<exists>f \<in> set (flat_routes g). match_entry path m v f = Some (r, d))"
      by (auto simp: List.map_filter_def image_iff) (metis option.sel)
    also have "\<dots> \<longleftrightarrow> (\<exists>p ss. (p, ss, r) \<in> set (flat_routes g) \<and> p \<noteq> path \<and> route_matches r m v \<and> regex_match ss path = Some d)"
    proof -
      have "match_entry path m v (p, ss, r') = Some (r, d) \<longleftrightarrow>
          r' = r \<and> p \<noteq> path \<and> route_matches r m v \<and> regex_match ss path = Some d" for p ss r'
        by (auto simp: match_entry_def)
      then show ?thesis by (metis prod_cases3)
    qed
    finally show ?thesis unfolding flat by blast
  qed
  have any: "list_ex (\<lambda>(p, ss, r). version_ok r v \<and> regex_match ss path \<noteq> None) (flat_routes g) \<longleftrightarrow>
      list_ex (\<lambda>r. version_ok r v \<and> serves r path) (all_routes g)"
  proof -
    have "list_ex (\<lambda>(p, ss, r). version_ok r v \<and> regex_match ss path \<noteq> None) (flat_routes g) \<longleftrightarrow>
        (\<exists>p ss r. (p, ss, r) \<in> set (flat_routes g) \<and> version_ok r v \<and> regex_match ss path \<noteq> None)"
      by (simp add: list_ex_iff Bex_def split_paired_Ex)
    then show ?thesis unfolding flat list_ex_iff serves_def by blast
  qed
  have pats: "list_all (\<lambda>(p, ss, rs). regex_ok ss) (patterns_of g)"
  proof -
    have "regex_ok (case dict_get (rg_compiled g) p of Some ss \<Rightarrow> ss | None \<Rightarrow> compile_pattern p)" if "(p, vs) \<in> set (rg_routes g)" for p vs
    proof -
      have get: "dict_get (rg_routes g) p = Some vs" using assms(1) that by (auto simp: reg_ok_def intro: dict_ok_getI)
      then have "versions_ok p vs" "dict_get (rg_compiled g) p = Some (compile_pattern p)" using assms(1) by (simp_all add: reg_ok_def)
      moreover from this(1) have "snd (hd vs) \<in> set (map snd vs)" by (simp add: versions_ok_def)
      then have "snd (hd vs) \<in> set (all_routes g) \<and> rt_pattern (snd (hd vs)) = p" by (rule versions_in [OF assms(1) get])
      then have "regex_ok (compile_pattern p)" using assms(2) by (auto simp: list_all_iff)
      ultimately show ?thesis by simp
    qed
    then show ?thesis by (auto simp: patterns_of_def list_all_iff)
  qed
  show ?thesis
  proof (cases "case dict_get (rg_routes g) path of None \<Rightarrow> None | Some versions \<Rightarrow> pick_route versions m v")
    case (Some r)
    then obtain vs where "dict_get (rg_routes g) path = Some vs" "pick_route vs m v = Some r" by (auto split: option.splits)
    then have "r \<in> set (all_routes g) \<and> route_matches r m v \<and> rt_pattern r = path"
      using pick_route_some versions_in [OF assms(1)] by blast
    then show ?thesis using Some by (simp add: resolve_def)
  next
    case None
    have exact: "\<not> route_matches r m v" if r: "r \<in> set (all_routes g)" "rt_pattern r = path" for r
    proof -
      obtain vs where vs: "dict_get (rg_routes g) path = Some vs" "dict_get vs (rt_version r) = Some r"
        using r all_routes_iff [OF assms(1)] by blast
      have "filed rt_version vs" using assms(1) vs(1) by (simp add: reg_ok_def versions_ok_def)
      moreover have "r \<in> set (map snd vs)" using dict_get_in [OF vs(2)] by force
      moreover have "pick_route vs m v = None" using None vs(1) by simp
      ultimately show ?thesis by (intro pick_route_none)
    qed
    show ?thesis
    proof (cases "?xs = []")
      case False
      obtain r d where rd: "hd (sort_key (\<lambda>(r, d). (static_score (rt_pattern r), rt_pattern r, rt_version r)) ?xs) = (r, d)"
        by (rule prod.exhaust)
      have "(r, d) \<in> set ?xs" unfolding rd [symmetric] by (rule hd_sort_min(1) [OF False])
      then have "r \<in> set (all_routes g) \<and> route_matches r m v \<and> regex_match (compile_pattern (rt_pattern r)) path = Some d"
        unfolding xs by blast
      moreover have "resolve path m v g = Inr (r, d)"
        using None False rd by (simp add: resolve_def collect_matches_run [OF rx] bind_result_def)
      ultimately show ?thesis by simp
    next
      case True
      have none: "\<not> list_ex (\<lambda>r. route_matches r m v \<and> serves r path) (all_routes g)"
      proof
        assume "list_ex (\<lambda>r. route_matches r m v \<and> serves r path) (all_routes g)"
        then obtain r d where "r \<in> set (all_routes g)" "route_matches r m v" "regex_match (compile_pattern (rt_pattern r)) path = Some d"
          by (auto simp: list_ex_iff serves_def)
        with exact xs True show False by fastforce
      qed
      obtain ms where ms: "allowed_methods path v (patterns_of g) [] = Inr ms" using allowed_methods_run [OF pats] by blast
      have "resolve path m v g = (if list_ex (\<lambda>r. version_ok r v \<and> serves r path) (all_routes g)
          then Inl (MethodNotAllowed path m ms) else Inl (RouteNotFound path m))"
        using None True any ms by (simp add: resolve_def collect_matches_run [OF rx] has_any_route_run [OF rx] bind_result_def)
      then show ?thesis using none by simp
    qed
  qed
qed


definition register_all :: "'h gw_route list \<Rightarrow> 'h registry" where
  "register_all rs = fold (\<lambda>r g. case route_register r g of Inr g' \<Rightarrow> g' | Inl _ \<Rightarrow> g) rs empty_registry"

lemma reg_ok_register_all: "reg_ok (register_all rs)"
proof -
  have "reg_ok (fold (\<lambda>r g. case route_register r g of Inr g' \<Rightarrow> g' | Inl _ \<Rightarrow> g) rs g)" if "reg_ok g" for g
    using that by (induction rs arbitrary: g) (auto split: sum.split intro: reg_ok_register)
  then show ?thesis by (simp add: register_all_def reg_ok_empty)
qed

definition example_routes :: "nat registry" where
  "example_routes = register_all
    [\<lparr>rt_pattern = ''/users/me/{doc}'', rt_handler = 1, rt_methods = [''GET''], rt_version = ''v1''\<rparr>,
     \<lparr>rt_pattern = ''/{kind}/{id}/{doc}'', rt_handler = 2, rt_methods = [''GET'', ''PUT''], rt_version = ''v1''\<rparr>]"

theorem resolve_correct_witness:
  "resolve ''/users/me/cv'' ''POST'' '''' example_routes = Inl (MethodNotAllowed ''/users/me/cv'' ''POST'' [''GET'', ''PUT'']) \<and>
   \<not> list_ex (\<lambda>r. route_matches r ''POST'' '''' \<and> serves r ''/users/me/cv'') (all_routes example_routes)"
proof -
  have r: "resolve ''/users/me/cv'' ''POST'' '''' example_routes = Inl (MethodNotAllowed ''/users/me/cv'' ''POST'' [''GET'', ''PUT''])"
    by code_simp
  have "reg_ok example_routes" by (simp add: example_routes_def reg_ok_register_all)
  moreover have "list_all (\<lambda>r. regex_ok (compile_pattern (rt_pattern r))) (all_routes example_routes)" by code_simp
  ultimately show ?thesis using resolve_correct [of example_routes "''/users/me/cv''" "''POST''" "''''"] unfolding r by simp
qed

text \<open>Among several patterns that match, the one with the fewest literal segments wins: the sort is
  ascending, although the method is said to find the best route. The route for \<open>/users/me/{doc}\<close> is
  never used while \<open>/{kind}/{id}/{doc}\<close> is there.\<close>

theorem resolve_prefers_least_specific:
  "map_sum id (\<lambda>(r, d). rt_handler r) (resolve ''/users/me/cv'' ''GET'' '''' example_routes) = Inr 2 \<and>
   static_score ''/{kind}/{id}/{doc}'' < static_score ''/users/me/{doc}''"
  by code_simp

section \<open>Lookups and versions\<close>

text \<open>A registered route is found under its pattern and version, and other entries are unchanged.\<close>

theorem route_get_registered:
  assumes "route_register r g = Inr g'" and "v \<noteq> ''''"
  shows "route_get cfg p v g' = (if p = rt_pattern r \<and> v = rt_version r then Some r else route_get cfg p v g)"
  using assms by (auto simp: route_register_def route_get_def Let_def dict_get_or_def split: if_splits option.splits)

text \<open>A negotiated version is the default or a supported one, and the headers win over the path exactly
  when the configuration says so.\<close>

theorem negotiate_correct:
  "case negotiate cfg headers url query of
     Inr i \<Rightarrow> (vi_source i = ''default'' \<and> vi_version i = vc_default_version cfg \<or> vi_version i \<in> set (vc_supported_versions cfg)) \<and>
       (vi_deprecated i \<longleftrightarrow> vi_version i \<in> set (vc_deprecated_versions cfg)) \<and>
       (header_version cfg headers \<noteq> '''' \<and> url \<noteq> '''' \<longrightarrow>
         vi_version i = (if vc_version_header_priority cfg then header_version cfg headers else url))
   | Inl e \<Rightarrow> \<exists>v. e = VersionNotSupported v (vc_supported_versions cfg) \<and> v \<noteq> '''' \<and> v \<notin> set (vc_supported_versions cfg)"
  unfolding negotiate_def Let_def by (auto split: option.split simp: find_Some_iff)

end
