(* ===== verification/Tasks.thy ===== *)
theory Tasks
  imports Effects Json "HOL-Library.Product_Lexorder"
begin

text \<open>
  Background tasks: \<open>app/tasks/storage.py\<close>, \<open>queue.py\<close>, \<open>worker.py\<close> and \<open>scheduler.py\<close>. The storage
  keeps a task under \<open>task:<id>\<close> and an entry of the queue under \<open>task_queue:<id>\<close> of a key-value
  store without expiry; the model has one table for each prefix. A row that is written again moves
  to the end, as \<open>INSERT OR REPLACE\<close> does. What the orchestrator answers is a parameter; payloads and
  results are JSON values. Ids, the clock and the time-out are arguments.
\<close>

section \<open>Tasks\<close>

datatype task_state = T_QUEUED | T_RUNNING | T_COMPLETED | T_FAILED | T_CANCELLED | T_RETRYING

record task =
  tk_task_id :: string
  tk_type :: string
  tk_payload :: json
  tk_state :: task_state
  tk_priority :: int
  tk_max_retries :: int
  tk_retry_count :: int
  tk_timeout :: int
  tk_session_id :: string
  tk_created_at :: pyfloat
  tk_updated_at :: pyfloat
  tk_started_at :: pyfloat
  tk_completed_at :: pyfloat
  tk_error :: string
  tk_progress :: pyfloat
  tk_result :: json
  tk_timeline :: "(string \<times> pyfloat \<times> string) list"
  tk_graph :: json

record queue_entry =
  qe_type :: string
  qe_priority :: int
  qe_state :: task_state
  qe_created_at :: pyfloat

record task_store =
  ts_tasks :: "(string, task) dict"
  ts_queue :: "(string, queue_entry) dict"

definition put_row :: "'k \<Rightarrow> 'v \<Rightarrow> ('k, 'v) dict \<Rightarrow> ('k, 'v) dict" where
  "put_row k v d = dict_pop k d @ [(k, v)]"

section \<open>The storage\<close>

definition storage_create ::
  "pyfloat \<Rightarrow> string \<Rightarrow> string \<Rightarrow> json \<Rightarrow> int \<Rightarrow> int \<Rightarrow> int \<Rightarrow> string \<Rightarrow> task_store \<Rightarrow> task_store" where
  "storage_create now tid ty payload priority max_retries timeout session s =
    s\<lparr>ts_tasks := put_row tid \<lparr>tk_task_id = tid, tk_type = ty, tk_payload = payload, tk_state = T_QUEUED,
          tk_priority = priority, tk_max_retries = max_retries, tk_retry_count = 0, tk_timeout = timeout,
          tk_session_id = session, tk_created_at = now, tk_updated_at = now, tk_started_at = 0, tk_completed_at = 0,
          tk_error = '''', tk_progress = 0, tk_result = JNull, tk_timeline = [], tk_graph = JNull\<rparr> (ts_tasks s),
      ts_queue := put_row tid \<lparr>qe_type = ty, qe_priority = priority, qe_state = T_QUEUED, qe_created_at = now\<rparr> (ts_queue s)\<rparr>"

definition storage_get :: "string \<Rightarrow> task_store \<Rightarrow> task option" where
  "storage_get tid s = dict_get (ts_tasks s) tid"

text \<open>\<open>update\<close> with a change of the fields, as a function on the task.\<close>

definition storage_update ::
  "pyfloat \<Rightarrow> string \<Rightarrow> (task \<Rightarrow> task) \<Rightarrow> task_store \<Rightarrow> task_store" where
  "storage_update now tid f s =
    (case storage_get tid s of
       None \<Rightarrow> s
     | Some t \<Rightarrow> s\<lparr>ts_tasks := put_row tid ((f t)\<lparr>tk_updated_at := now\<rparr>) (ts_tasks s)\<rparr>)"

definition storage_delete :: "string \<Rightarrow> task_store \<Rightarrow> task_store" where
  "storage_delete tid s = s\<lparr>ts_tasks := dict_pop tid (ts_tasks s), ts_queue := dict_pop tid (ts_queue s)\<rparr>"

definition storage_clear :: "task_store \<Rightarrow> task_store" where
  "storage_clear s = s\<lparr>ts_tasks := [], ts_queue := []\<rparr>"

definition task_order :: "task list \<Rightarrow> task list" where
  "task_order = sort_key (\<lambda>t. (- tk_priority t, tk_created_at t))"

definition list_tasks :: "task_state option \<Rightarrow> string \<Rightarrow> nat \<Rightarrow> nat \<Rightarrow> task_store \<Rightarrow> task list" where
  "list_tasks st ty limit offset s =
    take limit (drop offset (task_order
      (filter (\<lambda>t. (ty = '''' \<or> tk_type t = ty) \<and> (case st of None \<Rightarrow> True | Some x \<Rightarrow> tk_state t = x)) (map snd (ts_tasks s)))))"

definition queued :: "task_store \<Rightarrow> (string \<times> queue_entry) list" where
  "queued s = filter (\<lambda>(k, e). qe_state e = T_QUEUED) (ts_queue s)"

definition dequeue :: "pyfloat \<Rightarrow> task_store \<Rightarrow> task option \<times> task_store" where
  "dequeue now s =
    (case sort_key (\<lambda>(k, e). (- qe_priority e, qe_created_at e)) (queued s) of
       [] \<Rightarrow> (None, s)
     | (tid, e) # _ \<Rightarrow>
         (case storage_get tid s of
            None \<Rightarrow> (None, s)
          | Some t \<Rightarrow>
              (let t' = t\<lparr>tk_state := T_RUNNING, tk_started_at := now\<rparr>;
                   s' = storage_update now tid (\<lambda>u. u\<lparr>tk_state := T_RUNNING, tk_started_at := now\<rparr>) s
               in (Some t', s'\<lparr>ts_queue := put_row tid \<lparr>qe_type = tk_type t, qe_priority = tk_priority t,
                    qe_state = T_RUNNING, qe_created_at = tk_created_at t\<rparr> (ts_queue s')\<rparr>))))"

definition queue_depth :: "task_store \<Rightarrow> task_state \<Rightarrow> nat" where
  "queue_depth s st = length (filter (\<lambda>t. tk_state t = st) (map snd (ts_tasks s)))"

definition add_timeline_event ::
  "pyfloat \<Rightarrow> string \<Rightarrow> string \<times> pyfloat \<times> string \<Rightarrow> task_store \<Rightarrow> task_store" where
  "add_timeline_event now tid ev s = storage_update now tid (\<lambda>t. t\<lparr>tk_timeline := tk_timeline t @ [ev]\<rparr>) s"

definition set_graph :: "pyfloat \<Rightarrow> string \<Rightarrow> json \<Rightarrow> task_store \<Rightarrow> task_store" where
  "set_graph now tid graph s = storage_update now tid (\<lambda>t. t\<lparr>tk_graph := graph\<rparr>) s"

section \<open>The queue\<close>

definition cancel_task :: "pyfloat \<Rightarrow> string \<Rightarrow> task_store \<Rightarrow> bool \<times> task_store" where
  "cancel_task now tid s =
    (case storage_get tid s of
       None \<Rightarrow> (False, s)
     | Some t \<Rightarrow>
         if tk_state t \<in> {T_QUEUED, T_RUNNING}
         then (True, storage_update now tid (\<lambda>t. t\<lparr>tk_state := T_CANCELLED\<rparr>) s) else (False, s))"

definition fail_task :: "pyfloat \<Rightarrow> string \<Rightarrow> string \<Rightarrow> task_store \<Rightarrow> task_store" where
  "fail_task now tid err s =
    (case storage_get tid s of
       None \<Rightarrow> s
     | Some t \<Rightarrow>
         if tk_retry_count t < tk_max_retries t
         then storage_update now tid
                (\<lambda>u. u\<lparr>tk_state := T_RETRYING, tk_retry_count := tk_retry_count t + 1, tk_error := err\<rparr>) s
         else storage_update now tid (\<lambda>u. u\<lparr>tk_state := T_FAILED, tk_completed_at := now, tk_error := err\<rparr>) s)"

definition complete_task :: "pyfloat \<Rightarrow> string \<Rightarrow> json \<Rightarrow> task_store \<Rightarrow> task_store" where
  "complete_task now tid res s =
    storage_update now tid
      (\<lambda>t. t\<lparr>tk_state := T_COMPLETED, tk_completed_at := now, tk_result := res, tk_progress := 1\<rparr>) s"

section \<open>The worker\<close>

text \<open>What becomes of the call of the orchestrator under the time-out of the task.\<close>

datatype answer = Answer json | Raises string | TimesOut

definition execute_task ::
  "(json \<Rightarrow> int \<Rightarrow> answer) \<Rightarrow> pyfloat \<Rightarrow> string \<Rightarrow> task \<Rightarrow> task_store \<Rightarrow> task_store" where
  "execute_task orch now worker t s =
    (let tid = tk_task_id t;
         s1 = add_timeline_event now tid (''task_started'', now, worker) s
     in if tk_type t \<notin> {''orchestrate'', ''chat''} then fail_task now tid (''Unknown task type: '' @ tk_type t) s1
        else (case orch (tk_payload t) (tk_timeout t) of
                Answer r \<Rightarrow> add_timeline_event now tid (''task_completed'', now, worker) (complete_task now tid r s1)
              | Raises msg \<Rightarrow> fail_task now tid msg s1
              | TimesOut \<Rightarrow> fail_task now tid ''Task timed out'' s1))"

text \<open>One turn of the worker's loop; the tasks that it starts run to their end.\<close>

definition worker_turn ::
  "(json \<Rightarrow> int \<Rightarrow> answer) \<Rightarrow> pyfloat \<Rightarrow> string \<Rightarrow> task_store \<Rightarrow> task_store" where
  "worker_turn orch now worker s =
    (case dequeue now s of (None, s') \<Rightarrow> s' | (Some t, s') \<Rightarrow> execute_task orch now worker t s')"

section \<open>The scheduler of periodic tasks\<close>

record periodic_job =
  pd_task_type :: string
  pd_payload :: json
  pd_interval :: pyfloat
  pd_max_runs :: int
  pd_run_count :: int
  pd_last_run :: pyfloat
  pd_enabled :: bool

definition add_periodic_job :: "string \<Rightarrow> string \<Rightarrow> json \<Rightarrow> pyfloat \<Rightarrow> int \<Rightarrow> (string, periodic_job) dict \<Rightarrow> (string, periodic_job) dict" where
  "add_periodic_job jid ty payload interval max_runs jobs =
    dict_set jid \<lparr>pd_task_type = ty, pd_payload = payload, pd_interval = interval, pd_max_runs = max_runs,
      pd_run_count = 0, pd_last_run = 0, pd_enabled = True\<rparr> jobs"

definition remove_periodic_job :: "string \<Rightarrow> (string, periodic_job) dict \<Rightarrow> (string, periodic_job) dict" where
  "remove_periodic_job jid jobs = dict_pop jid jobs"

definition job_due :: "pyfloat \<Rightarrow> periodic_job \<Rightarrow> bool" where
  "job_due now j \<longleftrightarrow> pd_enabled j \<and> \<not> (0 < pd_max_runs j \<and> pd_max_runs j \<le> pd_run_count j) \<and>
     pd_interval j \<le> now - pd_last_run j"

text \<open>One pass of the scheduler's loop: due jobs create a task each, with the ids that are given.\<close>

fun scheduler_pass ::
  "pyfloat \<Rightarrow> (string \<Rightarrow> string) \<Rightarrow> (string, periodic_job) dict \<Rightarrow> task_store
    \<Rightarrow> (string, periodic_job) dict \<times> task_store" where
  "scheduler_pass now fresh [] s = ([], s)"
| "scheduler_pass now fresh ((jid, j) # jobs) s =
     (if job_due now j
      then (case scheduler_pass now fresh jobs
                  (storage_create now (fresh jid) (pd_task_type j) (pd_payload j) 0 3 300 '''' s) of
              (jobs', s') \<Rightarrow> ((jid, j\<lparr>pd_run_count := pd_run_count j + 1, pd_last_run := now\<rparr>) # jobs', s'))
      else (case scheduler_pass now fresh jobs s of (jobs', s') \<Rightarrow> ((jid, j) # jobs', s')))"

section \<open>Choosing the next task\<close>

lemma put_row_get [simp]: "dict_get (put_row k v d) i = (if i = k then Some v else dict_get d i)"
  by (auto simp: put_row_def map_add_def split: option.split)

lemma put_row_ok [simp]: "dict_ok d \<Longrightarrow> dict_ok (put_row k v d)"
  by (auto simp: put_row_def dict_ok_def AList.delete_eq distinct_map_filter)

text \<open>The queue gives out the waiting task with the highest priority and, among those, the oldest; it
  is marked as running and its entry no longer waits.\<close>

theorem dequeue_picks:
  assumes "dequeue now s = (Some t, s')" and "filed tk_task_id (ts_tasks s)" and "dict_ok (ts_queue s)"
  shows "\<exists>e. dict_get (ts_queue s) (tk_task_id t) = Some e \<and> qe_state e = T_QUEUED \<and>
    (\<forall>k e'. dict_get (ts_queue s) k = Some e' \<longrightarrow> qe_state e' = T_QUEUED \<longrightarrow>
      qe_priority e' < qe_priority e \<or> qe_priority e' = qe_priority e \<and> qe_created_at e \<le> qe_created_at e') \<and>
    storage_get (tk_task_id t) s' = Some (t\<lparr>tk_updated_at := now\<rparr>) \<and> tk_state t = T_RUNNING \<and>
    \<not> list_ex (\<lambda>(k, _). k = tk_task_id t) (queued s')"
proof -
  obtain tid e rest where sorted: "sort_key (\<lambda>(k, e). (- qe_priority e, qe_created_at e)) (queued s) = (tid, e) # rest"
    using assms(1) by (auto simp: dequeue_def split: list.splits option.splits)
  obtain t0 where t0: "storage_get tid s = Some t0" "t = t0\<lparr>tk_state := T_RUNNING, tk_started_at := now\<rparr>"
    "s' = s\<lparr>ts_tasks := put_row tid (t0\<lparr>tk_state := T_RUNNING, tk_started_at := now, tk_updated_at := now\<rparr>) (ts_tasks s),
       ts_queue := put_row tid \<lparr>qe_type = tk_type t0, qe_priority = tk_priority t0, qe_state = T_RUNNING,
         qe_created_at = tk_created_at t0\<rparr> (ts_queue s)\<rparr>"
    using assms(1) sorted by (auto simp: dequeue_def storage_update_def Let_def split: option.splits)
  have tid: "tk_task_id t = tid" using t0(1,2) assms(2) by (simp add: storage_get_def filed_def)
  have mem: "(tid, e) \<in> set (queued s)" using sort_key_ConsD(1) [OF sorted] .
  then have e: "dict_get (ts_queue s) tid = Some e" "qe_state e = T_QUEUED"
    using assms(3) by (auto simp: queued_def intro: dict_ok_getI)
  have least: "qe_priority e' < qe_priority e \<or> qe_priority e' = qe_priority e \<and> qe_created_at e \<le> qe_created_at e'"
    if "dict_get (ts_queue s) k = Some e'" "qe_state e' = T_QUEUED" for k e'
  proof -
    have "(k, e') \<in> set (queued s)" using that by (auto simp: queued_def dest: dict_get_in)
    from sort_key_ConsD(2) [OF sorted this] show ?thesis by (auto simp: less_eq_prod_def)
  qed
  have "\<not> list_ex (\<lambda>(k, _). k = tid) (queued s')"
    using t0(3) by (auto simp: queued_def put_row_def list_ex_iff AList.delete_eq)
  then show ?thesis using e least t0 tid by (auto simp: storage_get_def)
qed

section \<open>A task is started at most once\<close>

datatype task_op =
    OCreate pyfloat string string json int int int string
  | OCancel pyfloat string
  | ODelete string
  | ODequeue pyfloat
  | OFail pyfloat string string
  | OComplete pyfloat string json
  | OEvent pyfloat string "string \<times> pyfloat \<times> string"
  | OGraph pyfloat string json
  | OClear

text \<open>The tasks that one call gives out, and the store after it.\<close>

fun task_step :: "task_op \<Rightarrow> task_store \<Rightarrow> string list \<times> task_store" where
  "task_step (OCreate now tid ty payload prio max_retries timeout session) s =
     ([], storage_create now tid ty payload prio max_retries timeout session s)"
| "task_step (OCancel now tid) s = ([], snd (cancel_task now tid s))"
| "task_step (ODelete tid) s = ([], storage_delete tid s)"
| "task_step (ODequeue now) s =
     (case dequeue now s of (None, s') \<Rightarrow> ([], s') | (Some t, s') \<Rightarrow> ([tk_task_id t], s'))"
| "task_step (OFail now tid err) s = ([], fail_task now tid err s)"
| "task_step (OComplete now tid res) s = ([], complete_task now tid res s)"
| "task_step (OEvent now tid ev) s = ([], add_timeline_event now tid ev s)"
| "task_step (OGraph now tid graph) s = ([], set_graph now tid graph s)"
| "task_step OClear s = ([], storage_clear s)"

fun task_run :: "task_op list \<Rightarrow> task_store \<Rightarrow> string list \<times> task_store" where
  "task_run [] s = ([], s)"
| "task_run (op # ops) s =
     (case task_step op s of (xs, s') \<Rightarrow> (case task_run ops s' of (ys, s'') \<Rightarrow> (xs @ ys, s'')))"

fun created_ids :: "task_op list \<Rightarrow> string list" where
  "created_ids [] = []"
| "created_ids (OCreate now tid ty payload prio max_retries timeout session # ops) = tid # created_ids ops"
| "created_ids (_ # ops) = created_ids ops"

definition empty_tasks :: task_store where
  "empty_tasks = \<lparr>ts_tasks = [], ts_queue = []\<rparr>"

text \<open>The ids that still wait, and the ids that the queue knows.\<close>

definition waiting :: "task_store \<Rightarrow> string set" where
  "waiting s = fst ` set (queued s)"

definition tasks_wf :: "task_store \<Rightarrow> bool" where
  "tasks_wf s \<longleftrightarrow> filed tk_task_id (ts_tasks s) \<and> dict_ok (ts_queue s)"

lemma waiting_iff: "dict_ok (ts_queue s) \<Longrightarrow> tid \<in> waiting s \<longleftrightarrow> (\<exists>e. dict_get (ts_queue s) tid = Some e \<and> qe_state e = T_QUEUED)"
  by (force simp: waiting_def queued_def intro: dict_ok_getI dest: dict_get_in)

lemma filed_put_row: "filed key d \<Longrightarrow> key v = k \<Longrightarrow> filed key (put_row k v d)"
  by (auto simp: filed_def)

lemma update_wf:
  assumes "tasks_wf s" and "\<And>t. tk_task_id (f t) = tk_task_id t"
  shows "tasks_wf (storage_update now tid f s)" "ts_queue (storage_update now tid f s) = ts_queue s"
  using assms by (auto simp: tasks_wf_def storage_update_def storage_get_def filed_def split: option.split)


lemma dequeue_run:
  "(dequeue now s = (None, s)) \<or>
   (\<exists>tid e t. (tid, e) \<in> set (queued s) \<and> storage_get tid s = Some t \<and>
     dequeue now s = (Some (t\<lparr>tk_state := T_RUNNING, tk_started_at := now\<rparr>),
       s\<lparr>ts_tasks := put_row tid (t\<lparr>tk_state := T_RUNNING, tk_started_at := now, tk_updated_at := now\<rparr>) (ts_tasks s),
         ts_queue := put_row tid \<lparr>qe_type = tk_type t, qe_priority = tk_priority t, qe_state = T_RUNNING,
           qe_created_at = tk_created_at t\<rparr> (ts_queue s)\<rparr>))"
proof (cases "sort_key (\<lambda>(k, e). (- qe_priority e, qe_created_at e)) (queued s)")
  case Nil
  then show ?thesis by (simp add: dequeue_def)
next
  case (Cons x rest)
  obtain tid e where x: "x = (tid, e)" by (cases x)
  have "(tid, e) \<in> set (queued s)" using sort_key_ConsD(1) [OF Cons] x by simp
  then show ?thesis using Cons x
    by (cases "storage_get tid s") (auto simp: dequeue_def storage_update_def Let_def)
qed

lemma step_wf:
  assumes "tasks_wf s" and "task_step op s = (xs, s')"
  shows "tasks_wf s'" "waiting s' \<subseteq> waiting s \<union> set (created_ids [op])"
    "set xs \<subseteq> waiting s \<and> set xs \<inter> waiting s' = {} \<and> distinct xs"
proof -
  have q: "dict_ok (ts_queue s)" using assms(1) by (simp add: tasks_wf_def)
  have same: "waiting s' = waiting s" if "ts_queue s' = ts_queue s" using that by (simp add: waiting_def queued_def)
  have upd: "tasks_wf (storage_update now tid f s) \<and> ts_queue (storage_update now tid f s) = ts_queue s"
    if "\<And>t. tk_task_id (f t) = tk_task_id t" for now tid f
    using update_wf [OF assms(1) that] by blast
  have "tasks_wf s' \<and> waiting s' \<subseteq> waiting s \<union> set (created_ids [op]) \<and>
    set xs \<subseteq> waiting s \<and> set xs \<inter> waiting s' = {} \<and> distinct xs"
  proof (cases op)
    case (ODequeue now)
    from dequeue_run [of now s] show ?thesis
    proof
      assume "dequeue now s = (None, s)"
      then show ?thesis using assms ODequeue by simp
    next
      assume "\<exists>tid e t. (tid, e) \<in> set (queued s) \<and> storage_get tid s = Some t \<and>
         dequeue now s = (Some (t\<lparr>tk_state := T_RUNNING, tk_started_at := now\<rparr>),
           s\<lparr>ts_tasks := put_row tid (t\<lparr>tk_state := T_RUNNING, tk_started_at := now, tk_updated_at := now\<rparr>) (ts_tasks s),
             ts_queue := put_row tid \<lparr>qe_type = tk_type t, qe_priority = tk_priority t, qe_state = T_RUNNING,
               qe_created_at = tk_created_at t\<rparr> (ts_queue s)\<rparr>)"
      then obtain tid e t where d: "(tid, e) \<in> set (queued s)" "storage_get tid s = Some t" "xs = [tk_task_id t]"
        "s' = s\<lparr>ts_tasks := put_row tid (t\<lparr>tk_state := T_RUNNING, tk_started_at := now, tk_updated_at := now\<rparr>) (ts_tasks s),
             ts_queue := put_row tid \<lparr>qe_type = tk_type t, qe_priority = tk_priority t, qe_state = T_RUNNING,
               qe_created_at = tk_created_at t\<rparr> (ts_queue s)\<rparr>"
        using assms(2) ODequeue by auto
      have tid: "tk_task_id t = tid" using d(2) assms(1) by (simp add: tasks_wf_def storage_get_def filed_def)
      have "tid \<in> waiting s" using d(1) by (force simp: waiting_def)
      moreover have "waiting s' = waiting s - {tid}"
        using q d(4) by (auto simp: waiting_iff split: if_splits)
      moreover have "tasks_wf s'" using assms(1) d(4) tid by (simp add: tasks_wf_def filed_put_row)
      ultimately show ?thesis using d(3) tid by auto
    qed
  next
    case (OCreate now tid ty payload prio max_retries timeout session)
    then have s': "s' = storage_create now tid ty payload prio max_retries timeout session s" "xs = []" using assms(2) by simp_all
    then have "tasks_wf s'" using assms(1) by (simp add: tasks_wf_def storage_create_def filed_put_row)
    moreover have "waiting s' \<subseteq> insert tid (waiting s)"
      using q s' by (auto simp: waiting_iff storage_create_def split: if_splits)
    ultimately show ?thesis using OCreate s' by simp
  next
    case (ODelete tid)
    then show ?thesis using assms q by (auto simp: tasks_wf_def storage_delete_def waiting_iff split: if_splits)
  next
    case OClear
    then show ?thesis using assms by (auto simp: tasks_wf_def storage_clear_def waiting_def queued_def)
  next
    case (OCancel now tid)
    then show ?thesis using assms upd [of "\<lambda>t. t\<lparr>tk_state := T_CANCELLED\<rparr>"] same
      by (auto simp: cancel_task_def split: option.splits if_splits)
  next
    case (OFail now tid err)
    then show ?thesis using assms upd same by (auto simp: fail_task_def split: option.splits if_splits)
  next
    case (OComplete now tid res)
    then show ?thesis using assms upd same by (auto simp: complete_task_def)
  next
    case (OEvent now tid ev)
    then show ?thesis using assms upd same by (auto simp: add_timeline_event_def)
  next
    case (OGraph now tid graph)
    then show ?thesis using assms upd same by (auto simp: set_graph_def)
  qed
  then show "tasks_wf s'" "waiting s' \<subseteq> waiting s \<union> set (created_ids [op])"
    "set xs \<subseteq> waiting s \<and> set xs \<inter> waiting s' = {} \<and> distinct xs" by blast+
qed


lemma created_ids_Cons: "created_ids (op # ops) = created_ids [op] @ created_ids ops"
  by (cases op) simp_all

lemma run_once:
  "tasks_wf s \<Longrightarrow> waiting s \<inter> set (created_ids ops) = {} \<Longrightarrow> distinct (created_ids ops) \<Longrightarrow> task_run ops s = (ys, s') \<Longrightarrow>
    distinct ys \<and> set ys \<subseteq> waiting s \<union> set (created_ids ops)"
proof (induction ops arbitrary: s ys)
  case (Cons op ops)
  obtain xs s1 where step: "task_step op s = (xs, s1)" by (metis prod.exhaust)
  obtain zs where zs: "task_run ops s1 = (zs, s')" "ys = xs @ zs" using Cons.prems(4) step by (auto split: prod.splits)
  note st = step_wf [OF Cons.prems(1) step]
  have disj: "set (created_ids [op]) \<inter> set (created_ids ops) = {}" "distinct (created_ids ops)"
    "waiting s \<inter> set (created_ids ops) = {}"
    using Cons.prems(2,3) unfolding created_ids_Cons [of op ops] by auto
  then have "waiting s1 \<inter> set (created_ids ops) = {}" using st(2) by blast
  with Cons.IH [OF st(1) _ disj(2) zs(1)] have ih: "distinct zs" "set zs \<subseteq> waiting s1 \<union> set (created_ids ops)" by blast+
  then have "set xs \<inter> set zs = {}" using st(3) disj(3) by blast
  moreover have "set ys \<subseteq> waiting s \<union> set (created_ids (op # ops))"
    using ih(2) st(2,3) zs(2) unfolding created_ids_Cons [of op ops] by auto
  ultimately show ?case using ih(1) st(3) zs(2) by simp
qed simp



text \<open>So a task that failed and has retries left is never tried again: it is marked as retrying, and its
  entry in the queue stays as running. A cancelled task, on the other hand, is still given out and
  runs: cancelling changes the task and not its entry.\<close>

theorem retry_never_runs:
  "let (t1, s1) = dequeue 2 (storage_create 1 ''a'' ''chat'' JNull 0 3 300 '''' empty_tasks);
       s2 = fail_task 3 ''a'' ''down'' s1
   in map_option tk_state (storage_get ''a'' s2) = Some T_RETRYING \<and> dequeue 4 s2 = (None, s2)"
  by code_simp

theorem cancelled_task_runs:
  "let s1 = storage_create 1 ''a'' ''chat'' JNull 0 3 300 '''' empty_tasks;
       (ok, s2) = cancel_task 2 ''a'' s1;
       (t, s3) = dequeue 3 s2
   in ok \<and> map_option tk_state (storage_get ''a'' s2) = Some T_CANCELLED \<and> map_option tk_task_id t = Some ''a'' \<and>
     map_option tk_state (storage_get ''a'' s3) = Some T_RUNNING"
  by code_simp

section \<open>Retries, workers, periodic jobs\<close>

text \<open>The retries of a task are counted up to its limit, and only the last failure is final.\<close>

theorem fail_task_counts:
  assumes "storage_get tid s = Some t"
  shows "\<exists>t'. storage_get tid (fail_task now tid err s) = Some t' \<and> tk_error t' = err \<and>
    (if tk_retry_count t < tk_max_retries t
     then tk_state t' = T_RETRYING \<and> tk_retry_count t' = tk_retry_count t + 1 \<and> tk_retry_count t' \<le> tk_max_retries t'
     else tk_state t' = T_FAILED \<and> tk_retry_count t' = tk_retry_count t \<and> tk_completed_at t' = now)"
  using assms by (simp add: fail_task_def storage_update_def storage_get_def)

text \<open>A worker that starts a task leaves it completed with the answer exactly when its type is known and
  the orchestrator answers in time.\<close>

theorem execute_task_outcome:
  assumes "storage_get (tk_task_id t) s = Some t0"
  shows "\<exists>t'. storage_get (tk_task_id t) (execute_task orch now worker t s) = Some t' \<and>
    (tk_state t' = T_COMPLETED \<longleftrightarrow>
      tk_type t \<in> {''orchestrate'', ''chat''} \<and> (\<exists>r. orch (tk_payload t) (tk_timeout t) = Answer r)) \<and>
    (\<forall>r. tk_state t' = T_COMPLETED \<longrightarrow> orch (tk_payload t) (tk_timeout t) = Answer r \<longrightarrow> tk_result t' = r)"
  using assms
  by (auto simp: execute_task_def Let_def add_timeline_event_def fail_task_def complete_task_def storage_update_def
      storage_get_def split: answer.split)

text \<open>A pass of the scheduler runs exactly the due jobs; with a limit on its runs, a job never exceeds it.\<close>

definition runs_ok :: "periodic_job \<Rightarrow> bool" where
  "runs_ok j \<longleftrightarrow> 0 \<le> pd_run_count j \<and> (0 < pd_max_runs j \<longrightarrow> pd_run_count j \<le> pd_max_runs j)"

theorem scheduler_pass_exact:
  "fst (scheduler_pass now fresh jobs s) =
     map (\<lambda>(jid, j). (jid, if job_due now j then j\<lparr>pd_run_count := pd_run_count j + 1, pd_last_run := now\<rparr> else j)) jobs \<and>
   (list_all (runs_ok \<circ> snd) jobs \<longrightarrow> list_all (runs_ok \<circ> snd) (fst (scheduler_pass now fresh jobs s)))"
  by (induction now fresh jobs s rule: scheduler_pass.induct)
    (auto simp: job_due_def runs_ok_def split: prod.splits if_splits)

end
