(* ===== verification/Tenancy.thy ===== *)
theory Tenancy
  imports Effects Json Base64
begin

text \<open>
  Tenants: \<open>app/tenancy/\<close>. The repository and the manager of tenants, their settings, the names that
  keep the data of tenants apart, the strategies that find the tenant of a request, the context
  variable and the middleware. A tenant object that a method changes is the stored one, so that every
  assignment to a field is a write to the repository. Ids, the clock, \<open>json.loads\<close>, \<open>str\<close> of a JSON value
  and the lookup of API keys are arguments. Log lines and metrics are left out; the audit
  events are kept, as far as they are stored.
\<close>

section \<open>Tenants\<close>

datatype tenancy_error =
    TenantNotFound string
  | TenantAlreadyExists string
  | TenantSuspended string
  | TenantDeleted string
  | TenantResolution string
  | TenantContextMissing
  | TenantIsolation string
  | TenantValueError string

datatype tenant_status = TN_PENDING | TN_ACTIVE | TN_SUSPENDED | TN_DELETED

fun status_value :: "tenant_status \<Rightarrow> string" where
  "status_value TN_PENDING = ''pending''"
| "status_value TN_ACTIVE = ''active''"
| "status_value TN_SUSPENDED = ''suspended''"
| "status_value TN_DELETED = ''deleted''"

definition config_sections :: "string list" where
  "config_sections = [''llm'', ''embeddings'', ''reranker'', ''prompts'', ''mcp'']"

record tenant_limits =
  tl_max_requests_per_min :: int
  tl_max_tokens_per_day :: int
  tl_max_storage_bytes :: int
  tl_max_memory_items :: int
  tl_max_kb_documents :: int
  tl_max_seats :: int

definition limits_to_dict :: "tenant_limits \<Rightarrow> (string, int) dict" where
  "limits_to_dict l =
    [(''max_requests_per_min'', tl_max_requests_per_min l), (''max_tokens_per_day'', tl_max_tokens_per_day l),
     (''max_storage_bytes'', tl_max_storage_bytes l), (''max_memory_items'', tl_max_memory_items l),
     (''max_kb_documents'', tl_max_kb_documents l), (''max_seats'', tl_max_seats l)]"

definition limits_from_dict :: "(string, int) dict \<Rightarrow> tenant_limits" where
  "limits_from_dict d =
    \<lparr>tl_max_requests_per_min = dict_get_or d ''max_requests_per_min'' 1000,
     tl_max_tokens_per_day = dict_get_or d ''max_tokens_per_day'' 1000000,
     tl_max_storage_bytes = dict_get_or d ''max_storage_bytes'' 1000000000,
     tl_max_memory_items = dict_get_or d ''max_memory_items'' 10000,
     tl_max_kb_documents = dict_get_or d ''max_kb_documents'' 10000,
     tl_max_seats = dict_get_or d ''max_seats'' 5\<rparr>"

type_synonym settings = "(string, (string, json) dict) dict"

record tenant =
  tn_id :: string
  tn_name :: string
  tn_status :: tenant_status
  tn_plan :: string
  tn_limits :: tenant_limits
  tn_config :: settings
  tn_metadata :: "(string, json) dict"
  tn_created_at :: pyfloat
  tn_updated_at :: pyfloat

definition dict_update :: "('k, 'v) dict \<Rightarrow> ('k, 'v) dict \<Rightarrow> ('k, 'v) dict" where
  "dict_update d new = fold (\<lambda>(k, v). dict_set k v) new d"

definition config_section :: "string \<Rightarrow> tenant \<Rightarrow> (string, json) dict" where
  "config_section section t = dict_get_or (tn_config t) section []"

definition tenant_set_config :: "pyfloat \<Rightarrow> string \<Rightarrow> (string, json) dict \<Rightarrow> tenant \<Rightarrow> tenant" where
  "tenant_set_config now section values t =
    t\<lparr>tn_config := dict_set section (dict_update (config_section section t) values) (tn_config t), tn_updated_at := now\<rparr>"

section \<open>Audit events\<close>

record audit_event =
  ae_timestamp :: pyfloat
  ae_action :: string
  ae_tenant_id :: string
  ae_outcome :: string

record tenancy_config =
  tg_header_name :: string
  tg_jwt_claim :: string
  tg_jwt_issuer_claim :: string
  tg_allowed_issuers :: "string list"
  tg_api_key_header :: string
  tg_subdomain_header :: string
  tg_subdomain_suffix :: string
  tg_custom_domain_map :: "(string, string) dict"
  tg_allow_anonymous :: bool
  tg_anonymous_tenant :: string
  tg_isolation_prefix :: string
  tg_cache_namespace :: string
  tg_enforce_active :: bool
  tg_audit_enabled :: bool

definition default_tenancy_config :: tenancy_config where
  "default_tenancy_config = \<lparr>tg_header_name = ''X-Tenant-ID'', tg_jwt_claim = ''tenant_id'', tg_jwt_issuer_claim = ''iss'',
     tg_allowed_issuers = [''airouter''], tg_api_key_header = ''X-API-Key'', tg_subdomain_header = ''Host'',
     tg_subdomain_suffix = ''.airouter.app'', tg_custom_domain_map = [], tg_allow_anonymous = False,
     tg_anonymous_tenant = ''default'', tg_isolation_prefix = ''tenant'', tg_cache_namespace = ''cache'',
     tg_enforce_active = True, tg_audit_enabled = True\<rparr>"

text \<open>\<open>events[-max:]\<close> with a maximum of zero is the whole list.\<close>

definition audit_record_event :: "tenancy_config \<Rightarrow> nat \<Rightarrow> audit_event \<Rightarrow> audit_event list \<Rightarrow> audit_event list" where
  "audit_record_event cfg max_events e es =
    (if \<not> tg_audit_enabled cfg then es
     else let es' = es @ [e]
          in if max_events < length es' \<and> max_events \<noteq> 0 then last_n max_events es' else es')"

definition audit_list :: "string option \<Rightarrow> nat \<Rightarrow> audit_event list \<Rightarrow> audit_event list" where
  "audit_list tid limit es =
    (let mine = (case tid of None \<Rightarrow> es | Some t \<Rightarrow> filter (\<lambda>e. ae_tenant_id e = t) es)
     in if limit \<noteq> 0 then last_n limit mine else mine)"

section \<open>The manager\<close>

record tenancy =
  ty_tenants :: "(string, tenant) dict"
  ty_events :: "audit_event list"

type_synonym 'a ten_prog = "(tenancy, tenancy_error, 'a) prog"

definition repo_get :: "string \<Rightarrow> tenant ten_prog" where
  "repo_get tid = fetch (TenantNotFound tid) (\<lambda>s. dict_get (ty_tenants s) tid)"

definition repo_put :: "tenant \<Rightarrow> unit ten_prog" where
  "repo_put t = modify (\<lambda>s. s\<lparr>ty_tenants := dict_set (tn_id t) t (ty_tenants s)\<rparr>)"

definition tenant_audit :: "tenancy_config \<Rightarrow> pyfloat \<Rightarrow> string \<Rightarrow> string \<Rightarrow> unit ten_prog" where
  "tenant_audit cfg now action tid = modify (\<lambda>s. s\<lparr>ty_events := audit_record_event cfg 1000
     \<lparr>ae_timestamp = now, ae_action = action, ae_tenant_id = tid, ae_outcome = ''success''\<rparr> (ty_events s)\<rparr>)"

definition guard_sections :: "settings \<Rightarrow> tenancy_error + unit" where
  "guard_sections cfg =
    (case find (\<lambda>(section, _). section \<notin> set config_sections) cfg of
       Some (section, _) \<Rightarrow> Inl (TenantValueError (''Unknown tenant config section '' @ section))
     | None \<Rightarrow> Inr ())"

definition tenant_create ::
  "tenancy_config \<Rightarrow> pyfloat \<Rightarrow> string \<Rightarrow> string \<Rightarrow> string \<Rightarrow> tenant_limits option \<Rightarrow> settings \<Rightarrow> (string, json) dict
    \<Rightarrow> tenant ten_prog" where
  "tenant_create cfg now tid nm plan limits conf meta =
    andthen (lift_result (guard_sections conf)) (\<lambda>_.
      let t = \<lparr>tn_id = tid, tn_name = nm, tn_status = TN_ACTIVE, tn_plan = plan,
               tn_limits = (case limits of Some l \<Rightarrow> l | None \<Rightarrow> limits_from_dict []), tn_config = conf,
               tn_metadata = meta, tn_created_at = now, tn_updated_at = now\<rparr>
      in andthen (gets (\<lambda>s. dict_has (ty_tenants s) tid)) (\<lambda>exists.
         andthen (require (\<not> exists) (TenantAlreadyExists tid)) (\<lambda>_.
         andthen (repo_put t) (\<lambda>_.
         andthen (tenant_audit cfg now ''tenant.created'' tid) (\<lambda>_. ret t)))))"

datatype tenant_change =
    SetName string
  | SetPlan string
  | SetLimits tenant_limits
  | SetLimitsDict "(string, int) dict"
  | SetConfig settings
  | SetMetadata "(string, json) dict"
  | SetStatus tenant_status
  | SetUnknown string

fun apply_change :: "tenant_change \<Rightarrow> tenant \<Rightarrow> tenancy_error + tenant" where
  "apply_change (SetName v) t = Inr (t\<lparr>tn_name := v\<rparr>)"
| "apply_change (SetPlan v) t = Inr (t\<lparr>tn_plan := v\<rparr>)"
| "apply_change (SetLimits v) t = Inr (t\<lparr>tn_limits := v\<rparr>)"
| "apply_change (SetLimitsDict v) t = Inr (t\<lparr>tn_limits := limits_from_dict v\<rparr>)"
| "apply_change (SetConfig v) t = Inr (t\<lparr>tn_config := v\<rparr>)"
| "apply_change (SetMetadata v) t = Inr (t\<lparr>tn_metadata := v\<rparr>)"
| "apply_change (SetStatus v) t = Inr (t\<lparr>tn_status := v\<rparr>)"
| "apply_change (SetUnknown k) t = Inl (TenantValueError (''Unknown tenant field '' @ k))"

fun set_tenant_fields :: "tenant \<Rightarrow> tenant_change list \<Rightarrow> tenant ten_prog" where
  "set_tenant_fields t [] = ret t"
| "set_tenant_fields t (c # cs) =
     andthen (lift_result (apply_change c t)) (\<lambda>t'. andthen (repo_put t') (\<lambda>_. set_tenant_fields t' cs))"

definition get_undeleted :: "string \<Rightarrow> tenant ten_prog" where
  "get_undeleted tid = andthen (repo_get tid) (\<lambda>t.
    andthen (require (tn_status t \<noteq> TN_DELETED) (TenantDeleted tid)) (\<lambda>_. ret t))"

definition tenant_update :: "tenancy_config \<Rightarrow> pyfloat \<Rightarrow> string \<Rightarrow> tenant_change list \<Rightarrow> tenant ten_prog" where
  "tenant_update cfg now tid changes =
    andthen (get_undeleted tid) (\<lambda>t.
    andthen (set_tenant_fields t changes) (\<lambda>t'.
      let t'' = t'\<lparr>tn_updated_at := now\<rparr>
      in andthen (repo_put t'') (\<lambda>_. andthen (tenant_audit cfg now ''tenant.updated'' tid) (\<lambda>_. ret t''))))"

text \<open>\<open>delete\<close>, \<open>suspend\<close> and \<open>activate\<close> differ in the status and the audit action.\<close>

definition tenant_set_status :: "tenancy_config \<Rightarrow> pyfloat \<Rightarrow> tenant_status \<Rightarrow> string \<Rightarrow> string \<Rightarrow> tenant ten_prog" where
  "tenant_set_status cfg now st action tid =
    andthen (get_undeleted tid) (\<lambda>t.
      let t' = t\<lparr>tn_status := st, tn_updated_at := now\<rparr>
      in andthen (repo_put t') (\<lambda>_. andthen (tenant_audit cfg now action tid) (\<lambda>_. ret t')))"

definition tenant_delete :: "tenancy_config \<Rightarrow> pyfloat \<Rightarrow> string \<Rightarrow> bool ten_prog" where
  "tenant_delete cfg now tid = andthen (tenant_set_status cfg now TN_DELETED ''tenant.deleted'' tid) (\<lambda>_. ret True)"

definition tenant_suspend :: "tenancy_config \<Rightarrow> pyfloat \<Rightarrow> string \<Rightarrow> tenant ten_prog" where
  "tenant_suspend cfg now tid = tenant_set_status cfg now TN_SUSPENDED ''tenant.suspended'' tid"

definition tenant_activate :: "tenancy_config \<Rightarrow> pyfloat \<Rightarrow> string \<Rightarrow> tenant ten_prog" where
  "tenant_activate cfg now tid = tenant_set_status cfg now TN_ACTIVE ''tenant.activated'' tid"

definition get_active :: "tenancy_config \<Rightarrow> string \<Rightarrow> tenant ten_prog" where
  "get_active cfg tid = andthen (get_undeleted tid) (\<lambda>t.
    andthen (require (\<not> (tn_status t = TN_SUSPENDED \<and> tg_enforce_active cfg)) (TenantSuspended tid)) (\<lambda>_. ret t))"

definition tenant_list :: "tenant_status option \<Rightarrow> string option \<Rightarrow> bool \<Rightarrow> tenancy \<Rightarrow> tenant list" where
  "tenant_list st plan include_deleted s =
    sort_key tn_created_at (filter (\<lambda>t. (include_deleted \<or> tn_status t \<noteq> TN_DELETED) \<and>
      (case st of None \<Rightarrow> True | Some x \<Rightarrow> tn_status t = x) \<and> (case plan of None \<Rightarrow> True | Some p \<Rightarrow> tn_plan t = p))
      (map snd (ty_tenants s)))"

definition set_config :: "pyfloat \<Rightarrow> string \<Rightarrow> string \<Rightarrow> (string, json) dict \<Rightarrow> tenant ten_prog" where
  "set_config now tid section values =
    andthen (require (section \<in> set config_sections) (TenantValueError (''Unknown tenant config section '' @ section))) (\<lambda>_.
    andthen (repo_get tid) (\<lambda>t.
      let t' = tenant_set_config now section values t in andthen (repo_put t') (\<lambda>_. ret t')))"

section \<open>Effective settings\<close>

definition settings_get :: "settings \<Rightarrow> string \<Rightarrow> string \<Rightarrow> tenancy \<Rightarrow> tenancy_error + (string, json) dict" where
  "settings_get defaults tid section s =
    (if section \<notin> set config_sections then Inl (TenantValueError (''Unknown tenant config section '' @ section))
     else Inr (dict_update (dict_get_or defaults section [])
       (case dict_get (ty_tenants s) tid of None \<Rightarrow> [] | Some t \<Rightarrow> config_section section t)))"

definition settings_set :: "settings \<Rightarrow> pyfloat \<Rightarrow> string \<Rightarrow> string \<Rightarrow> (string, json) dict \<Rightarrow> (string, json) dict ten_prog" where
  "settings_set defaults now tid section values =
    andthen (set_config now tid section values) (\<lambda>_.
    andthen (gets (settings_get defaults tid section)) (\<lambda>r. lift_result r))"

section \<open>Names that keep tenants apart\<close>

definition prefix_for :: "tenancy_config \<Rightarrow> string \<Rightarrow> string \<Rightarrow> string" where
  "prefix_for cfg namespace tid = tg_isolation_prefix cfg @ '':'' @ tid @ '':'' @ namespace"

definition isolation_key :: "tenancy_config \<Rightarrow> string \<Rightarrow> string \<Rightarrow> string" where
  "isolation_key cfg tid key = tg_isolation_prefix cfg @ '':'' @ tid @ '':'' @ key"

definition cache_key :: "tenancy_config \<Rightarrow> string \<Rightarrow> string \<Rightarrow> string" where
  "cache_key cfg tid key = isolation_key cfg tid (tg_cache_namespace cfg @ '':'' @ key)"

text \<open>\<open>metrics_name\<close> and \<open>log_name\<close>, for the namespace that is given.\<close>

definition scoped_name :: "tenancy_config \<Rightarrow> string \<Rightarrow> string \<Rightarrow> string \<Rightarrow> string" where
  "scoped_name cfg namespace tid nm = prefix_for cfg namespace tid @ '':'' @ nm"

definition memory_scope :: "string \<Rightarrow> string \<Rightarrow> string \<Rightarrow> string \<Rightarrow> (string, string) dict" where
  "memory_scope tid wid uid sid =
    [(''tenant_id'', tid)] @ (if wid \<noteq> '''' then [(''workspace_id'', wid)] else []) @
    (if uid \<noteq> '''' then [(''user_id'', uid)] else []) @ (if sid \<noteq> '''' then [(''session_id'', sid)] else [])"

section \<open>The tenant of a request\<close>

record tenant_context =
  tc_tenant_id :: string
  tc_tenant_name :: string
  tc_status :: string
  tc_user_id :: string
  tc_auth_method :: string
  tc_resolved_by :: string
  tc_attributes :: "(string, string) dict"

definition plain_context :: "string \<Rightarrow> string \<Rightarrow> string \<Rightarrow> (string, string) dict \<Rightarrow> tenant_context" where
  "plain_context tid method uid attrs = \<lparr>tc_tenant_id = tid, tc_tenant_name = '''', tc_status = ''active'', tc_user_id = uid,
     tc_auth_method = method, tc_resolved_by = method, tc_attributes = attrs\<rparr>"

definition anonymous_context :: "string \<Rightarrow> tenant_context" where
  "anonymous_context tid = \<lparr>tc_tenant_id = tid, tc_tenant_name = tid, tc_status = ''active'', tc_user_id = '''',
     tc_auth_method = ''anonymous'', tc_resolved_by = ''anonymous'', tc_attributes = []\<rparr>"

definition merged :: "tenant \<Rightarrow> tenant_context \<Rightarrow> tenant_context" where
  "merged t c = c\<lparr>tc_tenant_id := tn_id t, tc_tenant_name := tn_name t, tc_status := status_value (tn_status t)\<rparr>"

record tenant_request =
  tq_headers :: "(string, string) dict"
  tq_jwt_claims :: "(string, json) dict option"
  tq_jwt :: string
  tq_api_key :: string
  tq_host :: string

type_synonym strategy = "tenant_request \<Rightarrow> tenant_context option"

text \<open>\<open>headers.get(name) or headers.get(name.lower())\<close>.\<close>

definition header_or_lower :: "string \<Rightarrow> (string, string) dict \<Rightarrow> string" where
  "header_or_lower nm headers =
    (let v = dict_get_or headers nm '''' in if v \<noteq> '''' then v else dict_get_or headers (py_lower nm) '''')"

definition header_strategy :: "tenancy_config \<Rightarrow> strategy" where
  "header_strategy cfg q =
    (let tid = header_or_lower (tg_header_name cfg) (tq_headers q)
     in if tid = '''' then None else Some (plain_context tid ''header'' '''' []))"

fun json_truthy :: "json \<Rightarrow> bool" where
  "json_truthy JNull = False"
| "json_truthy (JBool b) = b"
| "json_truthy (JNum x) = (x \<noteq> 0)"
| "json_truthy (JStr s) = (s \<noteq> '''')"
| "json_truthy (JList xs) = (xs \<noteq> [])"
| "json_truthy (JObj d) = (d \<noteq> [])"

text \<open>The payload of a token is read without a look at its signature. A token that does not decode
  gives no claims; so does a payload that is not an object.\<close>

definition decode_jwt_claims :: "(string \<Rightarrow> json option) \<Rightarrow> string \<Rightarrow> (string, json) dict option" where
  "decode_jwt_claims loads token =
    (let parts = split_on (CHR ''.'') token
     in if length parts \<noteq> 3 then None
        else case Option.bind (b64url_decode (parts ! 1)) loads of Some (JObj d) \<Rightarrow> Some d | _ \<Rightarrow> None)"

definition issuer_ok :: "tenancy_config \<Rightarrow> (string, json) dict \<Rightarrow> bool" where
  "issuer_ok cfg claims =
    (case dict_get_or claims (tg_jwt_issuer_claim cfg) JNull of
       JNull \<Rightarrow> True
     | JStr i \<Rightarrow> i \<in> set (tg_allowed_issuers cfg)
     | _ \<Rightarrow> False)"

definition jwt_strategy :: "(string \<Rightarrow> json option) \<Rightarrow> (json \<Rightarrow> string) \<Rightarrow> tenancy_config \<Rightarrow> strategy" where
  "jwt_strategy loads str_of cfg q =
    (case (case tq_jwt_claims q of
             Some d \<Rightarrow> Some d
           | None \<Rightarrow> if tq_jwt q \<noteq> '''' then decode_jwt_claims loads (tq_jwt q) else None) of
       None \<Rightarrow> None
     | Some claims \<Rightarrow>
         if claims = [] \<or> \<not> issuer_ok cfg claims then None
         else let tid = dict_get_or claims (tg_jwt_claim cfg) JNull
              in if \<not> json_truthy tid then None
                 else Some (plain_context (str_of tid) ''jwt'' (str_of (dict_get_or claims ''sub'' (JStr ''''))) []))"

text \<open>Without a lookup function the tenant is what stands before the first dot of the key.\<close>

definition api_key_strategy :: "(string \<Rightarrow> string option) option \<Rightarrow> tenancy_config \<Rightarrow> strategy" where
  "api_key_strategy look cfg q =
    (let key = (if tq_api_key q \<noteq> '''' then tq_api_key q else header_or_lower (tg_api_key_header cfg) (tq_headers q))
     in if key = '''' then None
        else case (case look of Some f \<Rightarrow> f key | None \<Rightarrow> Some (hd (split_on (CHR ''.'') key))) of
               None \<Rightarrow> None
             | Some tid \<Rightarrow> if tid = '''' then None else Some (plain_context tid ''api_key'' '''' [(''api_key'', key)]))"

definition py_ends_with :: "string \<Rightarrow> string \<Rightarrow> bool" where
  "py_ends_with p s = starts_with (rev p) (rev s)"

definition subdomain_strategy :: "tenancy_config \<Rightarrow> strategy" where
  "subdomain_strategy cfg q =
    (let host = (if tq_host q \<noteq> '''' then tq_host q else header_or_lower (tg_subdomain_header cfg) (tq_headers q));
         normalized = hd (split_on (CHR '':'') host);
         suffix = tg_subdomain_suffix cfg;
         by_suffix = take (length normalized - length suffix) normalized;
         label = hd (split_on (CHR ''.'') normalized)
     in if suffix \<noteq> '''' \<and> py_ends_with suffix normalized \<and> by_suffix \<noteq> '''' \<and> CHR ''.'' \<notin> set by_suffix
        then Some (plain_context by_suffix ''subdomain'' '''' [(''host'', normalized)])
        else if suffix = '''' \<and> CHR ''.'' \<in> set normalized \<and> label \<noteq> ''''
        then Some (plain_context label ''subdomain'' '''' [(''host'', normalized)])
        else None)"

definition custom_domain_strategy :: "tenancy_config \<Rightarrow> strategy" where
  "custom_domain_strategy cfg q =
    (let host = hd (split_on (CHR '':'') (tq_host q));
         tid = dict_get_or (tg_custom_domain_map cfg) host ''''
     in if host = '''' \<or> tid = '''' then None else Some (plain_context tid ''custom_domain'' '''' [(''host'', host)]))"

definition default_strategies ::
  "(string \<Rightarrow> json option) \<Rightarrow> (json \<Rightarrow> string) \<Rightarrow> tenancy_config \<Rightarrow> strategy list" where
  "default_strategies loads str_of cfg =
    [header_strategy cfg, jwt_strategy loads str_of cfg, api_key_strategy None cfg, subdomain_strategy cfg,
     custom_domain_strategy cfg]"

fun first_context :: "strategy list \<Rightarrow> tenant_request \<Rightarrow> tenant_context option" where
  "first_context [] q = None"
| "first_context (f # fs) q = (case f q of Some c \<Rightarrow> Some c | None \<Rightarrow> first_context fs q)"

definition enrich :: "tenancy_config \<Rightarrow> tenancy option \<Rightarrow> tenant_context \<Rightarrow> tenancy_error + tenant_context" where
  "enrich cfg manager c =
    (case manager of
       None \<Rightarrow> Inr c
     | Some s \<Rightarrow>
         (case dict_get (ty_tenants s) (tc_tenant_id c) of
            None \<Rightarrow> Inl (TenantResolution (tc_tenant_id c))
          | Some t \<Rightarrow>
              if tn_status t = TN_DELETED then Inl (TenantResolution (tc_tenant_id c))
              else if tn_status t = TN_SUSPENDED \<and> tg_enforce_active cfg then Inl (TenantSuspended (tc_tenant_id c))
              else Inr (merged t c)))"

definition tenant_resolve ::
  "tenancy_config \<Rightarrow> tenancy option \<Rightarrow> strategy list \<Rightarrow> string \<Rightarrow> string \<Rightarrow> tenant_request \<Rightarrow> tenancy_error + tenant_context" where
  "tenant_resolve cfg manager strategies explicit uid q =
    (if explicit \<noteq> '''' then enrich cfg manager (plain_context explicit ''explicit'' uid [])
     else case first_context strategies q of
            Some c \<Rightarrow> enrich cfg manager c
          | None \<Rightarrow> if tg_allow_anonymous cfg then enrich cfg manager (anonymous_context (tg_anonymous_tenant cfg))
                    else Inl (TenantResolution ''''))"

section \<open>Isolation, the context variable, the middleware\<close>

definition enforce_tenant :: "tenancy_config \<Rightarrow> tenant_context option \<Rightarrow> tenancy_error + tenant_context" where
  "enforce_tenant cfg c =
    (case c of
       None \<Rightarrow> Inl TenantContextMissing
     | Some c \<Rightarrow>
         if tc_tenant_id c = '''' then Inl TenantContextMissing
         else if tg_enforce_active cfg \<and> tc_status c = ''suspended'' then Inl (TenantSuspended (tc_tenant_id c))
         else if tg_enforce_active cfg \<and> tc_status c = ''deleted'' then Inl (TenantIsolation (tc_tenant_id c))
         else Inr c)"

definition assert_isolated :: "tenant_context option \<Rightarrow> tenant_context option \<Rightarrow> tenancy_error + unit" where
  "assert_isolated c d =
    (case (c, d) of
       (Some c, Some d) \<Rightarrow>
         if tc_tenant_id c \<noteq> '''' \<and> tc_tenant_id d \<noteq> '''' \<and> tc_tenant_id c \<noteq> tc_tenant_id d
         then Inl (TenantIsolation (tc_tenant_id c)) else Inr ()
     | _ \<Rightarrow> Inr ())"

text \<open>The context variable holds an optional context; \<open>set\<close> returns the old value as the token of
  \<open>clear\<close>.\<close>

definition context_require :: "tenant_context option \<Rightarrow> tenancy_error + tenant_context" where
  "context_require var =
    (case var of Some c \<Rightarrow> if tc_tenant_id c = '''' then Inl TenantContextMissing else Inr c
     | None \<Rightarrow> Inl TenantContextMissing)"

definition context_or_anonymous :: "tenancy_config \<Rightarrow> tenant_context option \<Rightarrow> tenant_context" where
  "context_or_anonymous cfg var =
    (case var of Some c \<Rightarrow> if tc_tenant_id c = '''' then anonymous_context (tg_anonymous_tenant cfg) else c
     | None \<Rightarrow> anonymous_context (tg_anonymous_tenant cfg))"

definition with_context :: "tenant_context \<Rightarrow> (tenant_context option \<Rightarrow> 'a \<times> tenant_context option)
    \<Rightarrow> tenant_context option \<Rightarrow> 'a \<times> tenant_context option" where
  "with_context c body var = (fst (body (Some c)), var)"

text \<open>The middleware: the response that it sends itself, or what the application behind it returns when
  it is called with the context.\<close>

datatype 'a served = Refused nat | Served 'a

definition tenant_middleware ::
  "tenancy_config \<Rightarrow> tenancy option \<Rightarrow> strategy list \<Rightarrow> (tenant_context option \<Rightarrow> 'a \<times> tenant_context option)
    \<Rightarrow> (string, string) dict \<Rightarrow> tenant_context option \<Rightarrow> 'a served \<times> tenant_context option" where
  "tenant_middleware cfg manager strategies app headers var =
    (let host = (case dict_get headers ''Host'' of Some h \<Rightarrow> h | None \<Rightarrow> dict_get_or headers ''host'' '''');
         q = \<lparr>tq_headers = headers, tq_jwt_claims = None, tq_jwt = '''', tq_api_key = '''', tq_host = host\<rparr>
     in case bind_result (tenant_resolve cfg manager strategies '''' '''' q) (\<lambda>c. enforce_tenant cfg (Some c)) of
          Inl (TenantSuspended _) \<Rightarrow> (Refused 403, var)
        | Inl (TenantIsolation _) \<Rightarrow> (Refused 403, var)
        | Inl _ \<Rightarrow> (Refused 401, var)
        | Inr c \<Rightarrow> (case with_context c app var of (a, var') \<Rightarrow> (Served a, var')))"


section \<open>Tenants stay apart\<close>

lemma colon_split:
  assumes "CHR '':'' \<notin> set a" and "CHR '':'' \<notin> set b" and "a @ CHR '':'' # x = b @ CHR '':'' # y"
  shows "a = b \<and> x = y"
  using assms
proof (induction a arbitrary: b)
  case (Cons c a)
  then show ?case by (cases b) auto
next
  case Nil
  then show ?case by (cases b) auto
qed

text \<open>Tenants whose ids have no colon never share a name: equal keys, cache keys or scoped names come from
  the same tenant, and equal keys from the same key.\<close>

theorem tenant_names_disjoint:
  assumes "CHR '':'' \<notin> set t1" and "CHR '':'' \<notin> set t2"
  shows "(isolation_key cfg t1 k1 = isolation_key cfg t2 k2 \<longrightarrow> t1 = t2 \<and> k1 = k2) \<and>
    (cache_key cfg t1 k1 = cache_key cfg t2 k2 \<longrightarrow> t1 = t2 \<and> k1 = k2) \<and>
    (prefix_for cfg n1 t1 = prefix_for cfg n2 t2 \<longrightarrow> t1 = t2 \<and> n1 = n2) \<and>
    (scoped_name cfg n1 t1 k1 = scoped_name cfg n2 t2 k2 \<longrightarrow> t1 = t2)"
  using colon_split [OF assms]
  by (auto simp: isolation_key_def cache_key_def prefix_for_def scoped_name_def)

theorem tenant_names_disjoint_witness:
  "isolation_key default_tenancy_config ''acme'' ''doc:1'' = ''tenant:acme:doc:1'' \<and>
   isolation_key default_tenancy_config ''acme'' ''doc:1'' \<noteq> isolation_key default_tenancy_config ''acme-eu'' ''doc:1''"
  using tenant_names_disjoint [of "''acme''" "''acme-eu''" default_tenancy_config "''doc:1''" "''doc:1''"]
  by (simp add: isolation_key_def default_tenancy_config_def)

text \<open>With a colon in an id they do: the keys of the tenant \<open>a:b\<close> are keys of the tenant \<open>a\<close>.\<close>

theorem tenant_names_collide:
  "isolation_key cfg (t @ '':'' @ u) k = isolation_key cfg t (u @ '':'' @ k)"
  by (simp add: isolation_key_def)

section \<open>Deletion is final\<close>

datatype tenant_op =
    TCreate pyfloat string string string "tenant_limits option" settings "(string, json) dict"
  | TUpdate pyfloat string "tenant_change list"
  | TDelete pyfloat string
  | TSuspend pyfloat string
  | TActivate pyfloat string
  | TConfig pyfloat string string "(string, json) dict"

fun tenant_step :: "tenancy_config \<Rightarrow> tenant_op \<Rightarrow> tenancy \<Rightarrow> tenancy" where
  "tenant_step cfg (TCreate now tid nm plan limits conf meta) s =
     final_state (tenant_create cfg now tid nm plan limits conf meta) s"
| "tenant_step cfg (TUpdate now tid changes) s = final_state (tenant_update cfg now tid changes) s"
| "tenant_step cfg (TDelete now tid) s = final_state (tenant_delete cfg now tid) s"
| "tenant_step cfg (TSuspend now tid) s = final_state (tenant_suspend cfg now tid) s"
| "tenant_step cfg (TActivate now tid) s = final_state (tenant_activate cfg now tid) s"
| "tenant_step cfg (TConfig now tid section values) s = final_state (set_config now tid section values) s"

text \<open>\<open>dead tid s\<close>: the repository files tenants under their ids and \<open>tid\<close> is deleted.\<close>

definition dead :: "string \<Rightarrow> tenancy \<Rightarrow> bool" where
  "dead tid s \<longleftrightarrow> filed tn_id (ty_tenants s) \<and> (\<exists>t. dict_get (ty_tenants s) tid = Some t \<and> tn_status t = TN_DELETED)"

lemma dead_put:
  "dead tid s \<Longrightarrow> tn_id t = k \<Longrightarrow> k \<noteq> tid \<or> tn_status t = TN_DELETED \<Longrightarrow>
    dead tid (s\<lparr>ty_tenants := dict_set k t (ty_tenants s)\<rparr>)"
  by (auto simp: dead_def)

lemma dead_events [simp]: "dead tid (s\<lparr>ty_events := es\<rparr>) = dead tid s"
  by (simp add: dead_def)

lemma dead_found: "dead tid s \<Longrightarrow> dict_get (ty_tenants s) k = Some t \<Longrightarrow> tn_id t = k \<and> (tn_status t \<noteq> TN_DELETED \<longrightarrow> k \<noteq> tid)"
  by (auto simp: dead_def filed_def)

lemma apply_change_id: "apply_change c t = Inr t' \<Longrightarrow> tn_id t' = tn_id t"
  by (cases c) auto

lemma set_tenant_fields_dead:
  "triple (\<lambda>s. dead tid s \<and> tn_id t \<noteq> tid) (set_tenant_fields t cs) (\<lambda>t' s. dead tid s \<and> tn_id t' \<noteq> tid) (\<lambda>_. dead tid)"
proof (induction cs arbitrary: t)
  case (Cons c cs)
  show ?case unfolding set_tenant_fields.simps repo_put_def
    by (intro sp_lift sp_modify triple_pre [OF _ Cons.IH]; (elim conjE exE)?; (assumption)?)
      (auto simp: apply_change_id intro: dead_put)
next
  case Nil
  show ?case unfolding set_tenant_fields.simps by (rule sp_ret)
qed

lemma tenant_step_dead:
  assumes "dead tid s"
  shows "dead tid (tenant_step cfg op s)"
proof -
  have status: "keeps (dead tid) (tenant_set_status cfg now st action k)" for now st action k
    unfolding tenant_set_status_def get_undeleted_def repo_get_def repo_put_def tenant_audit_def andthen_norm Let_def
    by (intro sp_rules; (elim conjE exE)?; (assumption)?) (auto dest: dead_found intro!: dead_put)
  have create: "keeps (dead tid) (tenant_create cfg now k nm plan limits conf meta)" for now k nm plan limits conf meta
    unfolding tenant_create_def repo_put_def tenant_audit_def andthen_norm Let_def
    by (intro sp_rules; (elim conjE exE)?; (assumption)?) (auto simp: dead_def dict_has_def)
  have update: "keeps (dead tid) (tenant_update cfg now k cs)" for now k cs
    unfolding tenant_update_def get_undeleted_def repo_get_def repo_put_def tenant_audit_def andthen_norm Let_def
    by (intro sp_fetch sp_require sp_modify sp_ret sp_call [OF triple_pre [OF _ set_tenant_fields_dead]];
        (elim conjE exE)?; (assumption)?) (auto dest: dead_found intro!: dead_put)
  have config: "keeps (dead tid) (set_config now k sec vals)" for now k sec vals
    unfolding set_config_def repo_get_def repo_put_def andthen_norm Let_def
    by (intro sp_rules; (elim conjE exE)?; (assumption)?) (auto simp: tenant_set_config_def dead_def filed_def)
  have delete: "keeps (dead tid) (tenant_delete cfg now k)" for now k
    unfolding tenant_delete_def by (intro sp_call [OF status] sp_ret)
  show ?thesis
    using assms create update delete status config
    by (cases op) (auto simp: tenant_suspend_def tenant_activate_def intro: keepsD)
qed


lemma resolve_Inr:
  assumes "tenant_resolve cfg (Some s) strategies explicit uid q = Inr c"
  shows "\<exists>t tid. dict_get (ty_tenants s) tid = Some t \<and> tc_tenant_id c = tn_id t \<and> tc_status c = status_value (tn_status t) \<and>
    tn_status t \<noteq> TN_DELETED \<and> \<not> (tn_status t = TN_SUSPENDED \<and> tg_enforce_active cfg)"
proof -
  obtain c0 where "enrich cfg (Some s) c0 = Inr c" using assms
    by (auto simp: tenant_resolve_def split: if_splits option.splits)
  then show ?thesis by (auto simp: enrich_def merged_def split: option.splits if_splits)
qed

text \<open>A deleted tenant stays deleted, whatever the manager does afterwards: it cannot be created again,
  activated or changed back, and no request is resolved to it.\<close>

theorem tenant_deletion_final:
  assumes "filed tn_id (ty_tenants s)" and "dict_get (ty_tenants s) tid = Some t" and "tn_status t = TN_DELETED"
    and "s' = fold (tenant_step cfg) ops s"
  shows "(\<exists>t'. dict_get (ty_tenants s') tid = Some t' \<and> tn_status t' = TN_DELETED) \<and>
    (tenant_resolve cfg (Some s') strategies explicit uid q = Inr c \<longrightarrow> tc_tenant_id c \<noteq> tid)"
proof -
  have "dead tid s" using assms by (auto simp: dead_def)
  then have "dead tid s'" unfolding assms(4) by (induction ops arbitrary: s) (auto intro: tenant_step_dead)
  then obtain t' where t': "dict_get (ty_tenants s') tid = Some t'" "tn_status t' = TN_DELETED" "filed tn_id (ty_tenants s')"
    by (auto simp: dead_def)
  have "tc_tenant_id c \<noteq> tid" if res: "tenant_resolve cfg (Some s') strategies explicit uid q = Inr c"
  proof -
    obtain u k where "dict_get (ty_tenants s') k = Some u" "tc_tenant_id c = tn_id u" "tn_status u \<noteq> TN_DELETED"
      using resolve_Inr [OF res] by blast
    with t' show ?thesis using filedD [OF t'(3)] by auto
  qed
  with t' show ?thesis by blast
qed

section \<open>What the middleware lets through\<close>


definition example_tenancy :: tenancy where
  "example_tenancy = fold (tenant_step default_tenancy_config)
     [TCreate 1 ''acme'' ''Acme'' ''free'' None [] [], TCreate 2 ''old'' ''Old'' ''free'' None [] [], TDelete 3 ''old'']
     \<lparr>ty_tenants = [], ty_events = []\<rparr>"


theorem tenant_deletion_final_witness:
  "\<exists>t'. dict_get (ty_tenants (fold (tenant_step default_tenancy_config) [TActivate 4 ''old'', TCreate 5 ''old'' ''New'' ''pro'' None [] []]
     example_tenancy)) ''old'' = Some t' \<and> tn_status t' = TN_DELETED"
proof -
  have d: "map_option tn_status (dict_get (ty_tenants example_tenancy) ''old'') = Some TN_DELETED" by code_simp
  then obtain t where t: "dict_get (ty_tenants example_tenancy) ''old'' = Some t" "tn_status t = TN_DELETED" by auto
  have "filed tn_id (ty_tenants example_tenancy)" unfolding filed_list by code_simp
  from tenant_deletion_final [OF this t refl] show ?thesis by blast
qed


section \<open>Limits, settings, forged tokens\<close>

theorem limits_round_trip: "limits_from_dict (limits_to_dict l) = l"
  by (simp add: limits_from_dict_def limits_to_dict_def dict_get_or_def)

lemma dict_update_get:
  "dict_ok new \<Longrightarrow> dict_get (dict_update d new) k = (case dict_get new k of Some v \<Rightarrow> Some v | None \<Rightarrow> dict_get d k)"
  unfolding dict_update_def dict_ok_def
proof (induction new arbitrary: d)
  case (Cons p new)
  then show ?case by (cases p) (auto simp: map_of_eq_None_iff image_iff split: option.split)
qed simp

lemma dict_update_ok: "dict_ok d \<Longrightarrow> dict_ok (dict_update d new)"
  unfolding dict_update_def by (induction new arbitrary: d) auto

text \<open>The effective setting of a key is what was written last for the tenant, and otherwise what it was.\<close>

theorem settings_read_back:
  assumes "settings_set defaults now tid sec vals s = (Inr d, s')" and "dict_ok vals"
    and "dict_get (ty_tenants s) tid = Some t" and "tn_id t = tid" and "dict_ok (config_section sec t)"
    and "settings_get defaults tid sec s = Inr old"
  shows "dict_get d k = (case dict_get vals k of Some v \<Rightarrow> Some v | None \<Rightarrow> dict_get old k)"
proof -
  let ?new = "dict_update (config_section sec t) vals"
  have sec: "sec \<in> set config_sections" using assms(6) by (auto simp: settings_get_def split: if_splits)
  have "d = dict_update (dict_get_or defaults sec []) ?new"
    using assms(1,3,4) sec
    by (auto simp: settings_set_def set_config_def repo_get_def repo_put_def fetch_def andthen_def Let_def settings_get_def
        tenant_set_config_def config_section_def dict_get_or_def)
  moreover have "old = dict_update (dict_get_or defaults sec []) (config_section sec t)"
    using assms(3,6) sec by (simp add: settings_get_def)
  ultimately show ?thesis
    using assms(2,5) dict_update_ok [OF assms(5), of vals]
    by (simp add: dict_update_get split: option.split)
qed

text \<open>The token strategy does not look at the signature: for every tenant there is a token that resolves to
  it, made without any key.\<close>

theorem forged_token_resolves:
  assumes "\<And>j. loads (dumps j) = Some j" and "str_of (JStr tid) = tid" and "tid \<noteq> ''''" and "tg_jwt_claim cfg \<noteq> tg_jwt_issuer_claim cfg"
  shows "\<exists>token c. jwt_strategy loads str_of cfg
    \<lparr>tq_headers = [], tq_jwt_claims = None, tq_jwt = token, tq_api_key = '''', tq_host = ''''\<rparr> = Some c \<and> tc_tenant_id c = tid"
proof -
  let ?claims = "[(tg_jwt_claim cfg, JStr tid)]"
  let ?body = "b64url_encode (dumps (JObj ?claims))"
  let ?token = "''x.'' @ ?body @ ''.x''"
  have "CHR ''.'' \<notin> set ?body" using b64url_encode_chars by blast
  then have parts: "split_on (CHR ''.'') ?token = [''x'', ?body, ''x'']"
    using split_on_append [of "CHR ''.''" "''x''" "?body @ ''.x''"] split_on_append [of "CHR ''.''" ?body "''x''"] by simp
  have "decode_jwt_claims loads ?token = Some ?claims"
    using parts assms(1) by (simp add: decode_jwt_claims_def b64url_decode_encode)
  moreover have "issuer_ok cfg ?claims" using assms(4) by (simp add: issuer_ok_def dict_get_or_def)
  ultimately show ?thesis
    using assms(2,3) by (intro exI [of _ ?token]) (simp add: jwt_strategy_def plain_context_def dict_get_or_def)
qed

end
