(* ===== verification/Versions.thy ===== *)
theory Versions
  imports Effects Decimal "HOL-Library.List_Lexorder" "HOL-Library.Char_ord" "HOL-Library.Product_Lexorder"
begin

text \<open>
  Version numbers. The first half is the semantic version of the release manager
  (\<open>app/release/version.py\<close>): its parser, its printer, the comparison and the bumps. The grammar of
  the regular expression is written as splits at the first \<open>+\<close> and the first \<open>-\<close>, which no core and
  no core or pre-release can contain. The second half is the looser version of the plugin framework
  (\<open>app/plugins/versioning.py\<close>).
\<close>

section \<open>Semantic versions\<close>

record semver =
  sv_major :: int
  sv_minor :: int
  sv_patch :: int
  sv_prerelease :: string
  sv_build :: string

datatype version_error = VersionError string

text \<open>The constructor with the check of \<open>__post_init__\<close>.\<close>

definition SemanticVersion :: "int \<Rightarrow> int \<Rightarrow> int \<Rightarrow> string \<Rightarrow> string \<Rightarrow> version_error + semver" where
  "SemanticVersion ma mi pa pre bld =
     (if ma < 0 then Inl (VersionError ''major must be a non-negative integer'')
      else if mi < 0 then Inl (VersionError ''minor must be a non-negative integer'')
      else if pa < 0 then Inl (VersionError ''patch must be a non-negative integer'')
      else Inr \<lparr>sv_major = ma, sv_minor = mi, sv_patch = pa, sv_prerelease = pre, sv_build = bld\<rparr>)"

definition ident_char :: "char \<Rightarrow> bool" where
  "ident_char c \<longleftrightarrow> is_digit c \<or> of_char c \<in> {65..90} \<union> {97..122 :: nat} \<or> c = CHR ''-''"

definition build_ident :: "string \<Rightarrow> bool" where
  "build_ident w \<longleftrightarrow> w \<noteq> '''' \<and> list_all ident_char w"

definition pre_ident :: "string \<Rightarrow> bool" where
  "pre_ident w \<longleftrightarrow> build_ident w \<and> (all_digits w \<longrightarrow> canonical_digits w)"

definition pre_ok :: "string \<Rightarrow> bool" where
  "pre_ok s \<longleftrightarrow> list_all pre_ident (split_on (CHR ''.'') s)"

definition build_ok :: "string \<Rightarrow> bool" where
  "build_ok s \<longleftrightarrow> list_all build_ident (split_on (CHR ''.'') s)"

text \<open>The groups of the match: the three numbers, the pre-release and the build.\<close>

definition match_version :: "string \<Rightarrow> (string \<times> string \<times> string \<times> string \<times> string) option" where
  "match_version s =
     (let (l, bld) = partition_at (CHR ''+'') s;
          (core, pre) = partition_at (CHR ''-'') l
      in case split_on (CHR ''.'') core of
           [a, b, c] \<Rightarrow>
             if canonical_digits a \<and> canonical_digits b \<and> canonical_digits c \<and>
                (CHR ''-'' \<in> set l \<longrightarrow> pre_ok pre) \<and> (CHR ''+'' \<in> set s \<longrightarrow> build_ok bld)
             then Some (a, b, c, pre, bld) else None
         | _ \<Rightarrow> None)"

definition sv_parse :: "string \<Rightarrow> version_error + semver" where
  "sv_parse text =
     (case match_version (py_strip text) of
        None \<Rightarrow> Inl (VersionError text)
      | Some (a, b, c, pre, bld) \<Rightarrow>
          SemanticVersion (int (digits_val a)) (int (digits_val b)) (int (digits_val c)) pre bld)"

definition sv_str :: "semver \<Rightarrow> string" where
  "sv_str v =
     show_int (sv_major v) @ ''.'' @ show_int (sv_minor v) @ ''.'' @ show_int (sv_patch v) @
     (if sv_prerelease v \<noteq> '''' then ''-'' @ sv_prerelease v else '''') @
     (if sv_build v \<noteq> '''' then ''+'' @ sv_build v else '''')"

definition is_prerelease :: "semver \<Rightarrow> bool" where
  "is_prerelease v \<longleftrightarrow> sv_prerelease v \<noteq> ''''"

definition is_rc :: "semver \<Rightarrow> bool" where
  "is_rc v \<longleftrightarrow> starts_with ''rc'' (sv_prerelease v)"

definition rc_number :: "semver \<Rightarrow> int" where
  "rc_number v =
     (if \<not> is_rc v then 0
      else let suffix = dropWhile (\<lambda>c. c = CHR ''.'') (drop 2 (sv_prerelease v))
           in if suffix = '''' then 1 else (case int_of_str suffix of Some k \<Rightarrow> k | None \<Rightarrow> 0))"

text \<open>
  The sort key of the pre-release. The parts are the tuples \<open>("num", n)\<close> and \<open>("str", s)\<close>; Python
  compares the tags first, and \<open>"num" < "str"\<close>.
\<close>

datatype pre_part = Num nat | Str string

instantiation pre_part :: linorder
begin

fun less_pre_part :: "pre_part \<Rightarrow> pre_part \<Rightarrow> bool" where
  "less_pre_part (Num m) (Num n) = (m < n)"
| "less_pre_part (Num m) (Str t) = True"
| "less_pre_part (Str s) (Num n) = False"
| "less_pre_part (Str s) (Str t) = (s < t)"

definition less_eq_pre_part :: "pre_part \<Rightarrow> pre_part \<Rightarrow> bool" where
  "less_eq_pre_part a b \<longleftrightarrow> a = b \<or> a < b"

instance
proof
  fix a b c :: pre_part
  show "(a < b) = (a \<le> b \<and> \<not> b \<le> a)" by (cases a; cases b) (auto simp: less_eq_pre_part_def)
  show "a \<le> a" by (simp add: less_eq_pre_part_def)
  show "a \<le> b \<Longrightarrow> b \<le> c \<Longrightarrow> a \<le> c" by (cases a; cases b; cases c) (auto simp: less_eq_pre_part_def)
  show "a \<le> b \<Longrightarrow> b \<le> a \<Longrightarrow> a = b" by (cases a; cases b) (auto simp: less_eq_pre_part_def)
  show "a \<le> b \<or> b \<le> a" by (cases a; cases b) (auto simp: less_eq_pre_part_def)
qed

end

definition pre_part_of :: "string \<Rightarrow> pre_part" where
  "pre_part_of w = (if all_digits w then Num (digits_val w) else Str w)"

definition pre_key :: "semver \<Rightarrow> nat \<times> pre_part list" where
  "pre_key v =
     (if sv_prerelease v = '''' then (1, [])
      else (0, map pre_part_of (split_on (CHR ''.'') (sv_prerelease v))))"

definition base_key :: "semver \<Rightarrow> int \<times> int \<times> int" where
  "base_key v = (sv_major v, sv_minor v, sv_patch v)"

definition sv_compare :: "semver \<Rightarrow> semver \<Rightarrow> int" where
  "sv_compare a b =
     (if base_key a \<noteq> base_key b then (if base_key a < base_key b then - 1 else 1)
      else if pre_key a < pre_key b then - 1 else if pre_key b < pre_key a then 1 else 0)"

definition sv_lt :: "semver \<Rightarrow> semver \<Rightarrow> bool" where
  "sv_lt a b \<longleftrightarrow> sv_compare a b < 0"

definition sv_le :: "semver \<Rightarrow> semver \<Rightarrow> bool" where
  "sv_le a b \<longleftrightarrow> sv_compare a b \<le> 0"

definition sv_eq :: "semver \<Rightarrow> semver \<Rightarrow> bool" where
  "sv_eq a b \<longleftrightarrow> sv_compare a b = 0"

definition bump_major :: "string \<Rightarrow> semver \<Rightarrow> version_error + semver" where
  "bump_major pre v = SemanticVersion (sv_major v + 1) 0 0 pre ''''"

definition bump_minor :: "string \<Rightarrow> semver \<Rightarrow> version_error + semver" where
  "bump_minor pre v = SemanticVersion (sv_major v) (sv_minor v + 1) 0 pre ''''"

definition bump_patch :: "string \<Rightarrow> semver \<Rightarrow> version_error + semver" where
  "bump_patch pre v = SemanticVersion (sv_major v) (sv_minor v) (sv_patch v + 1) pre ''''"

definition as_release :: "semver \<Rightarrow> version_error + semver" where
  "as_release v = SemanticVersion (sv_major v) (sv_minor v) (sv_patch v) '''' ''''"

definition as_rc :: "int \<Rightarrow> semver \<Rightarrow> version_error + semver" where
  "as_rc k v = SemanticVersion (sv_major v) (sv_minor v) (sv_patch v) (''rc.'' @ show_int k) ''''"

definition sv_next :: "string \<Rightarrow> string \<Rightarrow> semver \<Rightarrow> version_error + semver" where
  "sv_next bump pre v =
     (if bump = ''major'' then bump_major pre v
      else if bump = ''minor'' then bump_minor pre v
      else if bump = ''patch'' then bump_patch pre v
      else if bump = ''rc'' then as_rc (rc_number v + 1) v
      else if bump = ''release'' then as_release v
      else Inl (VersionError (''unknown bump type '' @ bump)))"

section \<open>Versions of plugins\<close>

text \<open>
  The pattern of \<open>_SEMVER\<close>: three runs of digits, then optionally a \<open>-\<close> or \<open>+\<close> and a suffix, then
  optionally a newline (which \<open>$\<close> lets pass).
\<close>

definition suffix_char :: "char \<Rightarrow> bool" where
  "suffix_char c \<longleftrightarrow> ident_char c \<or> c = CHR ''.''"

definition semver_line :: "string \<Rightarrow> bool" where
  "semver_line s =
     (let core = takeWhile (\<lambda>c. c \<noteq> CHR ''-'' \<and> c \<noteq> CHR ''+'') s;
          rest = dropWhile (\<lambda>c. c \<noteq> CHR ''-'' \<and> c \<noteq> CHR ''+'') s
      in (case split_on (CHR ''.'') core of
            [a, b, c] \<Rightarrow> all_digits a \<and> all_digits b \<and> all_digits c
          | _ \<Rightarrow> False) \<and>
         (rest = '''' \<or> tl rest \<noteq> '''' \<and> list_all suffix_char (tl rest)))"

definition is_valid_version :: "string \<Rightarrow> bool" where
  "is_valid_version s \<longleftrightarrow>
     semver_line s \<or> (case without_newline s of Some q \<Rightarrow> semver_line q | None \<Rightarrow> False)"

type_synonym plugin_version = "int \<times> int \<times> int \<times> string"

text \<open>\<open>parse_version\<close>; \<open>None\<close> is the \<open>ValueError\<close> it raises.\<close>

definition parse_version :: "string \<Rightarrow> plugin_version option" where
  "parse_version version =
     (if \<not> is_valid_version version then None
      else let (core, rest) = partition_at (CHR ''-'') version;
               suffix = (if CHR ''-'' \<in> set version then rest else snd (partition_at (CHR ''+'') version))
           in case map int_of_str (split_on (CHR ''.'') core) of
                [Some ma, Some mi, Some pa] \<Rightarrow> Some (ma, mi, pa, suffix)
              | _ \<Rightarrow> None)"

definition core3 :: "plugin_version \<Rightarrow> int \<times> int \<times> int" where
  "core3 = (\<lambda>(ma, mi, pa, suffix). (ma, mi, pa))"

definition suffix_of :: "plugin_version \<Rightarrow> string" where
  "suffix_of = (\<lambda>(ma, mi, pa, suffix). suffix)"

definition compare_versions :: "string \<Rightarrow> string \<Rightarrow> int option" where
  "compare_versions a b =
     (case parse_version a of None \<Rightarrow> None | Some pa \<Rightarrow>
       case parse_version b of None \<Rightarrow> None | Some pb \<Rightarrow>
         Some (if core3 pa < core3 pb then - 1
               else if core3 pb < core3 pa then 1
               else if suffix_of pa = suffix_of pb then 0
               else if suffix_of pa \<noteq> '''' then - 1 else 1))"

text \<open>The comparisons of \<open>version_meets\<close> compare the tuples, suffix included.\<close>

definition meets_with :: "(plugin_version \<Rightarrow> plugin_version \<Rightarrow> bool) \<Rightarrow> string \<Rightarrow> string \<Rightarrow> bool option" where
  "meets_with rel v base =
     (case parse_version v of None \<Rightarrow> None | Some t \<Rightarrow>
       case parse_version base of None \<Rightarrow> None | Some b \<Rightarrow> Some (rel t b))"

definition version_meets :: "string \<Rightarrow> string \<Rightarrow> bool option" where
  "version_meets version requirement =
     (let r = py_strip requirement
      in if r = '''' then Some True
         else if starts_with ''^'' r
         then meets_with (\<lambda>t b. \<not> core3 t < core3 b \<and> fst t = fst b) version (tl r)
         else if starts_with ''>='' r then meets_with (\<lambda>t b. b \<le> t) version (drop 2 r)
         else if starts_with ''<='' r then meets_with (\<lambda>t b. t \<le> b) version (drop 2 r)
         else if starts_with ''>'' r then meets_with (\<lambda>t b. b < t) version (tl r)
         else if starts_with ''<'' r then meets_with (\<lambda>t b. t < b) version (tl r)
         else if starts_with ''~'' r
         then meets_with (\<lambda>t b. \<not> core3 t < core3 b \<and> fst t = fst b \<and> fst (snd t) = fst (snd b))
                version (tl r)
         else meets_with (\<lambda>t b. t = b) version r)"

section \<open>Printing and parsing\<close>

definition semver_ok :: "semver \<Rightarrow> bool" where
  "semver_ok v \<longleftrightarrow> 0 \<le> sv_major v \<and> 0 \<le> sv_minor v \<and> 0 \<le> sv_patch v \<and>
     (sv_prerelease v \<noteq> '''' \<longrightarrow> pre_ok (sv_prerelease v)) \<and> (sv_build v \<noteq> '''' \<longrightarrow> build_ok (sv_build v))"

lemma SemanticVersion_Inr:
  "SemanticVersion ma mi pa pre bld = Inr v \<longleftrightarrow>
     0 \<le> ma \<and> 0 \<le> mi \<and> 0 \<le> pa \<and>
     v = \<lparr>sv_major = ma, sv_minor = mi, sv_patch = pa, sv_prerelease = pre, sv_build = bld\<rparr>"
  by (auto simp: SemanticVersion_def)

lemma ident_char_plain:
  "\<not> ident_char (CHR ''+'')" "\<not> ident_char (CHR ''.'')" "is_digit c \<Longrightarrow> ident_char c"
  by (auto simp: ident_char_def is_digit_def)

lemma split_on_char: "c \<in> set s \<Longrightarrow> c \<noteq> d \<Longrightarrow> \<exists>w \<in> set (split_on d s). c \<in> set w"
  by (induction d s rule: split_on.induct) (auto split: list.splits if_splits)

lemma build_ok_chars: "build_ok s \<Longrightarrow> c \<in> set s \<Longrightarrow> ident_char c \<or> c = CHR ''.''"
  using split_on_char [of c s "CHR ''.''"]
  by (fastforce simp: build_ok_def build_ident_def list_all_iff)

lemma pre_ok_build: "pre_ok s \<Longrightarrow> build_ok s"
  by (auto simp: pre_ok_def build_ok_def pre_ident_def list_all_iff)

lemma pre_ok_Nil [simp]: "\<not> pre_ok ''''" "\<not> build_ok ''''"
  by (auto simp: pre_ok_def build_ok_def pre_ident_def build_ident_def)

lemma partition_at_absent [simp]: "c \<notin> set s \<Longrightarrow> partition_at c s = (s, '''')"
proof -
  assume "c \<notin> set s"
  then have "\<forall>d \<in> set s. d \<noteq> c" by auto
  then have "takeWhile (\<lambda>d. d \<noteq> c) s = s" "dropWhile (\<lambda>d. d \<noteq> c) s = []"
    by (simp_all add: dropWhile_eq_Nil_conv)
  then show ?thesis unfolding partition_at_def by (metis list.sel(2))
qed

lemma partition_at_split [simp]: "c \<notin> set u \<Longrightarrow> partition_at c (u @ c # w) = (u, w)"
  unfolding partition_at_def by (induction u) auto

lemma partition_at_eq:
  assumes "partition_at c s = (u, w)"
  shows "c \<notin> set u \<and> (if c \<in> set s then s = u @ c # w else s = u \<and> w = '''')"
proof (cases "c \<in> set s")
  case True
  then obtain x y where "s = x @ c # y" "c \<notin> set x" by (meson split_list_first)
  with assms show ?thesis by auto
next
  case False
  with assms show ?thesis by auto
qed

lemma canonical_no_sep:
  "canonical_digits a \<Longrightarrow> CHR ''.'' \<notin> set a \<and> CHR ''-'' \<notin> set a \<and> CHR ''+'' \<notin> set a"
  by (auto simp: canonical_digits_def all_digits_def list_all_iff is_digit_def)

lemma canonical_show_nat [simp]: "canonical_digits (show_nat n)"
proof (cases "n = 0")
  case True
  have "all_digits ''0''" by (simp add: all_digits_def is_digit_def)
  with True show ?thesis by (simp add: canonical_digits_def show_nat.simps [of 0])
next
  case False
  have "hd (show_nat n) \<noteq> CHR ''0''" using False
  proof (induction n rule: show_nat.induct)
    case (1 n)
    show ?case
    proof (cases "n < 10")
      case True
      have "digit_char n \<noteq> CHR ''0''"
      proof
        assume "digit_char n = CHR ''0''"
        then have "char_digit (digit_char n) = 0" by simp
        with True 1(2) show False by simp
      qed
      with True show ?thesis by (simp add: show_nat.simps [of n])
    next
      case False
      then have "n div 10 \<noteq> 0" by simp
      with 1(1) [OF False] False show ?thesis by (simp add: show_nat.simps [of n])
    qed
  qed
  then show ?thesis by (simp add: canonical_digits_def show_nat_digits)
qed

lemma split_core:
  "split_on (CHR ''.'') s = [a, b, c] \<longleftrightarrow>
     s = a @ ''.'' @ b @ ''.'' @ c \<and> CHR ''.'' \<notin> set a \<and> CHR ''.'' \<notin> set b \<and> CHR ''.'' \<notin> set c"
proof
  assume sp: "split_on (CHR ''.'') s = [a, b, c]"
  then have "CHR ''.'' \<notin> set w" if "w \<in> {a, b, c}" for w
    using split_on_no_sep [of w "CHR ''.''" s] that by auto
  with sp join_split [of "CHR ''.''" s] show "s = a @ ''.'' @ b @ ''.'' @ c \<and> CHR ''.'' \<notin> set a \<and>
      CHR ''.'' \<notin> set b \<and> CHR ''.'' \<notin> set c" by auto
qed (auto simp: split_on_append split_on_no_sep_id)

lemma match_version_Some:
  "match_version s = Some (a, b, c, pre, bld) \<longleftrightarrow>
     canonical_digits a \<and> canonical_digits b \<and> canonical_digits c \<and>
     (pre \<noteq> '''' \<longrightarrow> pre_ok pre) \<and> (bld \<noteq> '''' \<longrightarrow> build_ok bld) \<and>
     s = a @ ''.'' @ b @ ''.'' @ c @ (if pre \<noteq> '''' then ''-'' @ pre else '''') @
         (if bld \<noteq> '''' then ''+'' @ bld else '''')"
  (is "_ \<longleftrightarrow> ?R")
proof
  assume m: "match_version s = Some (a, b, c, pre, bld)"
  obtain l bld' where p: "partition_at (CHR ''+'') s = (l, bld')" by fastforce
  obtain core pre' where q: "partition_at (CHR ''-'') l = (core, pre')" by fastforce
  from m p q have sp: "split_on (CHR ''.'') core = [a, b, c]" and eq: "pre' = pre" "bld' = bld"
    and ok: "canonical_digits a" "canonical_digits b" "canonical_digits c"
      "CHR ''-'' \<in> set l \<longrightarrow> pre_ok pre" "CHR ''+'' \<in> set s \<longrightarrow> build_ok bld"
    by (auto simp: match_version_def split: list.splits if_splits)
  have "core = a @ ''.'' @ b @ ''.'' @ c" using sp by (simp add: split_core)
  moreover have "l = core @ (if pre \<noteq> '''' then ''-'' @ pre else '''')"
    using partition_at_eq [OF q] ok(4) eq by (auto split: if_splits)
  moreover have "s = l @ (if bld \<noteq> '''' then ''+'' @ bld else '''')"
    using partition_at_eq [OF p] ok(5) eq by (auto split: if_splits)
  moreover have "pre \<noteq> '''' \<longrightarrow> pre_ok pre" using partition_at_eq [OF q] ok(4) eq by (auto split: if_splits)
  moreover have "bld \<noteq> '''' \<longrightarrow> build_ok bld" using partition_at_eq [OF p] ok(5) eq by (auto split: if_splits)
  ultimately show ?R using ok by simp
next
  assume R: ?R
  define core where "core = a @ ''.'' @ b @ ''.'' @ c"
  define l where "l = core @ (if pre \<noteq> '''' then ''-'' @ pre else '''')"
  have s: "s = l @ (if bld \<noteq> '''' then ''+'' @ bld else '''')" using R by (simp add: l_def core_def)
  note seps = canonical_no_sep [of a] canonical_no_sep [of b] canonical_no_sep [of c]
  have core: "CHR ''-'' \<notin> set core" "CHR ''+'' \<notin> set core" using R seps by (auto simp: core_def)
  have "CHR ''+'' \<notin> set pre" using R build_ok_chars [OF pre_ok_build, of pre "CHR ''+''"]
    by (cases "pre = ''''") (auto simp: ident_char_plain)
  with core have l: "CHR ''+'' \<notin> set l" by (auto simp: l_def)
  have "partition_at (CHR ''+'') s = (l, bld)" using l by (cases "bld = ''''") (auto simp: s)
  moreover have "partition_at (CHR ''-'') l = (core, pre)" using core by (cases "pre = ''''") (auto simp: l_def)
  moreover have "split_on (CHR ''.'') core = [a, b, c]" using R seps by (auto simp: split_core core_def)
  moreover have "CHR ''-'' \<in> set l \<longrightarrow> pre_ok pre" using R core by (auto simp: l_def)
  moreover have "CHR ''+'' \<in> set s \<longrightarrow> build_ok bld" using R l by (auto simp: s)
  ultimately show "match_version s = Some (a, b, c, pre, bld)" using R by (simp add: match_version_def)
qed

lemma version_parse_iff: "sv_parse t = Inr v \<longleftrightarrow> semver_ok v \<and> py_strip t = sv_str v"
proof
  assume "sv_parse t = Inr v"
  then obtain a b c pre bld where m: "match_version (py_strip t) = Some (a, b, c, pre, bld)"
    and v: "v = \<lparr>sv_major = int (digits_val a), sv_minor = int (digits_val b),
                 sv_patch = int (digits_val c), sv_prerelease = pre, sv_build = bld\<rparr>"
    by (auto simp: sv_parse_def SemanticVersion_Inr split: option.splits)
  from m [unfolded match_version_Some] show "semver_ok v \<and> py_strip t = sv_str v"
    by (auto simp: v semver_ok_def sv_str_def show_int_def show_digits_val)
next
  assume R: "semver_ok v \<and> py_strip t = sv_str v"
  then have "match_version (py_strip t) = Some (show_nat (nat (sv_major v)), show_nat (nat (sv_minor v)),
      show_nat (nat (sv_patch v)), sv_prerelease v, sv_build v)"
    by (auto simp: match_version_Some semver_ok_def sv_str_def show_int_def)
  with R show "sv_parse t = Inr v" by (auto simp: sv_parse_def SemanticVersion_Inr semver_ok_def)
qed

section \<open>Precedence\<close>

lemma less_pair: "(x, u) < (y, v) \<longleftrightarrow> x < y \<or> x = y \<and> u < v" for x y :: "'a :: linorder" and u v :: "'b :: linorder"
  by (auto simp: less_prod_def order.order_iff_strict)

definition sv_key :: "semver \<Rightarrow> (int \<times> int \<times> int) \<times> nat \<times> pre_part list" where
  "sv_key v = (base_key v, pre_key v)"

lemma sv_compare_key:
  "sv_compare a b = (if sv_key a < sv_key b then - 1 else if sv_key b < sv_key a then 1 else 0)"
  by (cases "base_key a" "base_key b" rule: linorder_cases) (auto simp: sv_compare_def sv_key_def less_pair)

lemma sv_less_key: "sv_lt a b \<longleftrightarrow> sv_key a < sv_key b" "sv_le a b \<longleftrightarrow> sv_key a \<le> sv_key b"
  "sv_eq a b \<longleftrightarrow> sv_key a = sv_key b"
  by (auto simp: sv_lt_def sv_le_def sv_eq_def sv_compare_key)

text \<open>
  The precedence of the Semantic Versioning 2.0.0 document (clause 11), written from its text:
  numbers first; a pre-release comes before its release; identifiers from left to right, numeric
  ones numerically and before the others, the others in ASCII order; a longer list of identifiers
  comes after a list that it extends.
\<close>

definition ident_precedes :: "string \<Rightarrow> string \<Rightarrow> bool" where
  "ident_precedes x y \<longleftrightarrow>
     (if all_digits x \<and> all_digits y then digits_val x < digits_val y
      else if all_digits x \<noteq> all_digits y then all_digits x
      else x < y)"

fun idents_precede :: "string list \<Rightarrow> string list \<Rightarrow> bool" where
  "idents_precede xs [] = False"
| "idents_precede [] (y # ys) = True"
| "idents_precede (x # xs) (y # ys) = (ident_precedes x y \<or> x = y \<and> idents_precede xs ys)"

definition precedes :: "semver \<Rightarrow> semver \<Rightarrow> bool" where
  "precedes a b \<longleftrightarrow>
     sv_major a < sv_major b \<or> sv_major a = sv_major b \<and>
    (sv_minor a < sv_minor b \<or> sv_minor a = sv_minor b \<and>
    (sv_patch a < sv_patch b \<or> sv_patch a = sv_patch b \<and>
    (is_prerelease a \<and> \<not> is_prerelease b \<or>
     is_prerelease a \<and> is_prerelease b \<and>
       idents_precede (split_on (CHR ''.'') (sv_prerelease a)) (split_on (CHR ''.'') (sv_prerelease b)))))"

lemma pre_part_of_eq: "pre_ident x \<Longrightarrow> pre_ident y \<Longrightarrow> pre_part_of x = pre_part_of y \<longleftrightarrow> x = y"
  by (metis pre_part.inject pre_part.distinct(1) pre_part_of_def pre_ident_def show_digits_val)

lemma pre_part_of_less: "pre_part_of x < pre_part_of y \<longleftrightarrow> ident_precedes x y"
  by (auto simp: pre_part_of_def ident_precedes_def)

lemma idents_less:
  "list_all pre_ident xs \<Longrightarrow> list_all pre_ident ys \<Longrightarrow>
     map pre_part_of xs < map pre_part_of ys \<longleftrightarrow> idents_precede xs ys"
  by (induction xs ys rule: idents_precede.induct) (auto simp: pre_part_of_less pre_part_of_eq)

lemma pre_key_less:
  assumes "sv_prerelease a \<noteq> '''' \<longrightarrow> pre_ok (sv_prerelease a)" "sv_prerelease b \<noteq> '''' \<longrightarrow> pre_ok (sv_prerelease b)"
  shows "pre_key a < pre_key b \<longleftrightarrow>
    is_prerelease a \<and> \<not> is_prerelease b \<or>
    is_prerelease a \<and> is_prerelease b \<and>
      idents_precede (split_on (CHR ''.'') (sv_prerelease a)) (split_on (CHR ''.'') (sv_prerelease b))"
  using assms by (auto simp: pre_key_def is_prerelease_def pre_ok_def less_pair idents_less)

text \<open>
  C33. The comparison of the release manager is the precedence of Semantic Versioning 2.0.0, on the
  versions its parser accepts.
\<close>

theorem precedence_is_semver:
  assumes "sv_parse s = Inr a" and "sv_parse t = Inr b"
  shows "(sv_lt a b \<longleftrightarrow> precedes a b) \<and> (sv_eq a b \<longleftrightarrow> \<not> precedes a b \<and> \<not> precedes b a)"
proof -
  have ok: "sv_prerelease a \<noteq> '''' \<longrightarrow> pre_ok (sv_prerelease a)" "sv_prerelease b \<noteq> '''' \<longrightarrow> pre_ok (sv_prerelease b)"
    using assms [THEN iffD1 [OF version_parse_iff]] by (auto simp: semver_ok_def)
  have "sv_lt a b \<longleftrightarrow> precedes a b" if "sv_prerelease a \<noteq> '''' \<longrightarrow> pre_ok (sv_prerelease a)"
    "sv_prerelease b \<noteq> '''' \<longrightarrow> pre_ok (sv_prerelease b)" for a b
    using pre_key_less [OF that]
    by (auto simp: sv_less_key sv_key_def less_pair precedes_def base_key_def)
  from this [OF ok] this [OF ok(2,1)] show ?thesis by (auto simp: sv_less_key)
qed

theorem precedence_is_semver_witness:
  "\<exists>a b. sv_parse ''1.0.0-rc.2'' = Inr a \<and> sv_parse ''1.0.0-rc.10'' = Inr b \<and> sv_lt a b \<and> precedes a b"
proof -
  define a where "a = \<lparr>sv_major = 1, sv_minor = 0, sv_patch = 0, sv_prerelease = ''rc.2'', sv_build = ''''\<rparr>"
  define b where "b = \<lparr>sv_major = 1, sv_minor = 0, sv_patch = 0, sv_prerelease = ''rc.10'', sv_build = ''''\<rparr>"
  have [simp]: "show_nat (Suc 0) = ''1''" "show_nat 0 = ''0''" by code_simp+
  have p: "sv_parse ''1.0.0-rc.2'' = Inr a" "sv_parse ''1.0.0-rc.10'' = Inr b"
    by (simp_all add: version_parse_iff a_def b_def semver_ok_def sv_str_def show_int_def
        pre_ok_def pre_ident_def build_ident_def ident_char_def is_digit_def
        all_digits_def canonical_digits_def py_strip_def is_space_def del: One_nat_def)
  have "sv_lt a b"
    by (simp add: sv_less_key sv_key_def a_def b_def base_key_def pre_key_def pre_part_of_def all_digits_def
        is_digit_def digits_val_def char_digit_def less_pair)
  with p precedence_is_semver [OF p] show ?thesis by blast
qed

section \<open>Bumps\<close>


lemma py_strip_id: "(\<And>x. x \<in> set s \<Longrightarrow> \<not> is_space x) \<Longrightarrow> py_strip s = s"
proof -
  assume a: "\<And>x. x \<in> set s \<Longrightarrow> \<not> is_space x"
  have "dropWhile is_space u = u" if "set u \<subseteq> set s" for u using that a by (cases u) auto
  then show ?thesis by (simp add: py_strip_def)
qed

lemma digits_value_fold:
  "s \<noteq> [] \<Longrightarrow> list_all is_digit s \<Longrightarrow>
     digits_value (int acc) s = Some (int (fold (\<lambda>c a. a * 10 + char_digit c) s acc))"
proof (induction "int acc" s arbitrary: acc rule: digits_value.induct)
  case (2 c)
  then show ?case by (simp add: char_digit_def is_digit_def of_nat_of_char)
next
  case (3 c d s)
  have step: "int acc * 10 + of_char c - 48 = int (acc * 10 + char_digit c)"
    using 3(4) by (simp add: char_digit_def is_digit_def of_nat_of_char)
  have "d \<noteq> CHR ''_''" "is_digit c" "list_all is_digit (d # s)" using 3(4) by (auto simp: is_digit_def)
  with 3(2) [OF _ _ step] show ?case by (simp add: step)
qed simp

lemma int_of_str_digits: "all_digits s \<Longrightarrow> int_of_str s = Some (int (digits_val s))"
proof -
  assume s: "all_digits s"
  then obtain c t where ct: "s = c # t" "is_digit c" by (cases s) (auto simp: all_digits_def)
  have sp: "\<not> is_space x" if "is_digit x" for x using that by (auto simp: is_digit_def is_space_def)
  have "\<not> is_space x" if "x \<in> set s" for x using s that sp by (auto simp: all_digits_def list_all_iff)
  then have strip: "py_strip s = s" using py_strip_id by blast
  have "c \<noteq> CHR ''-''" "c \<noteq> CHR ''+''" using ct(2) by (auto simp: is_digit_def)
  with digits_value_fold [of s 0] s strip show ?thesis
    by (simp add: int_of_str_def ct digits_val_def all_digits_def)
qed

lemma show_int_digits: "0 \<le> k \<Longrightarrow> all_digits (show_int k)"
  by (simp add: show_int_def show_nat_digits)

lemma show_int_no_dot: "0 \<le> k \<Longrightarrow> CHR ''.'' \<notin> set (show_int k)"
  using show_int_digits [of k] by (auto simp: all_digits_def list_all_iff is_digit_def)

lemma rc_number_rc: "sv_prerelease v = ''rc.'' @ show_int k \<Longrightarrow> 0 \<le> k \<Longrightarrow> rc_number v = k"
proof -
  assume v: "sv_prerelease v = ''rc.'' @ show_int k" and k: "0 \<le> k"
  have "\<forall>x \<in> set (show_int k). x \<noteq> CHR ''.''" using show_int_no_dot [OF k] by auto
  then have "dropWhile (\<lambda>c. c = CHR ''.'') (show_int k) = show_int k" by (cases "show_int k") auto
  moreover have "show_int k \<noteq> ''''" using show_int_digits [OF k] by (auto simp: all_digits_def)
  moreover have "int_of_str (show_int k) = Some k"
    using int_of_str_digits [OF show_int_digits [OF k]] k by (simp add: show_int_def)
  ultimately show ?thesis by (simp add: rc_number_def is_rc_def v)
qed

lemma pre_key_rc: "sv_prerelease v = ''rc.'' @ show_int k \<Longrightarrow> 0 \<le> k \<Longrightarrow> pre_key v = (0, [Str ''rc'', Num (nat k)])"
proof -
  assume v: "sv_prerelease v = ''rc.'' @ show_int k" and k: "0 \<le> k"
  have "split_on (CHR ''.'') (sv_prerelease v) = [''rc'', show_int k]"
    using split_on_append [of "CHR ''.''" "''rc''" "show_int k"] show_int_no_dot [OF k]
    by (simp add: v split_on_no_sep_id)
  moreover have "\<not> all_digits ''rc''" by (simp add: all_digits_def is_digit_def)
  moreover have "pre_part_of (show_int k) = Num (nat k)"
    using show_int_digits [OF k] k by (simp add: pre_part_of_def show_int_def)
  ultimately show ?thesis by (simp add: pre_key_def v pre_part_of_def)
qed

text \<open>
  Every bump leads to a newer version: a bump of the major, minor or patch number from any version,
  making a release out of a pre-release, and the next candidate after a numbered release candidate.
\<close>

theorem next_increases:
  assumes "sv_parse t = Inr v"
    and "bump \<in> {''major'', ''minor'', ''patch''} \<or> bump = ''release'' \<and> is_prerelease v \<or>
         bump = ''rc'' \<and> sv_prerelease v = ''rc.'' @ show_int k \<and> 0 \<le> k"
  shows "\<exists>w. sv_next bump pre v = Inr w \<and> sv_lt v w"
proof -
  have "0 \<le> sv_major v" "0 \<le> sv_minor v" "0 \<le> sv_patch v" 
    using assms(1) by (auto simp: version_parse_iff semver_ok_def)
  with assms(2) show ?thesis
    by (auto simp: sv_next_def bump_major_def bump_minor_def bump_patch_def as_release_def as_rc_def
        SemanticVersion_def sv_less_key sv_key_def less_pair base_key_def is_prerelease_def
        pre_key_rc [where k = k] pre_key_rc [where k = "k + 1"] rc_number_rc) (simp_all add: pre_key_def)
qed

theorem next_increases_witness:
  "\<exists>v w. sv_parse ''1.0.0-rc.2'' = Inr v \<and> sv_next ''rc'' '''' v = Inr w \<and> sv_lt v w"
proof -
  define v where "v = \<lparr>sv_major = 1, sv_minor = 0, sv_patch = 0, sv_prerelease = ''rc.2'', sv_build = ''''\<rparr>"
  have [simp]: "show_nat (Suc 0) = ''1''" "show_nat 0 = ''0''" "show_nat 2 = ''2''" by code_simp+
  have p: "sv_parse ''1.0.0-rc.2'' = Inr v"
    by (simp add: version_parse_iff v_def semver_ok_def sv_str_def show_int_def
        pre_ok_def pre_ident_def build_ident_def ident_char_def is_digit_def
        all_digits_def canonical_digits_def py_strip_def is_space_def)
  have "sv_prerelease v = ''rc.'' @ show_int 2" by (simp add: v_def show_int_def)
  then have "\<exists>w. sv_next ''rc'' '''' v = Inr w \<and> sv_lt v w" by (intro next_increases [OF p, where k = 2]) simp
  with p show ?thesis by blast
qed

text \<open>A candidate of something that is already released is older than the release.\<close>

lemma rc_of_release_older:
  assumes "\<not> is_prerelease v" "sv_next ''rc'' pre v = Inr w"
  shows "sv_lt w v"
  using assms by (auto simp: sv_next_def as_rc_def SemanticVersion_Inr is_prerelease_def sv_less_key
      sv_key_def less_pair base_key_def pre_key_def)

text \<open>A candidate written without the dot is not followed by a newer one: \<open>rc.6\<close> comes before \<open>rc5\<close>.\<close>

lemma rc_without_dot_older:
  assumes "sv_prerelease v = ''rc5''" "sv_next ''rc'' pre v = Inr w"
  shows "sv_prerelease w = ''rc.6'' \<and> sv_lt w v"
proof -
  have "rc_number v = 5"
    using assms(1) by (simp add: rc_number_def is_rc_def int_of_str_def py_strip_def is_space_def is_digit_def)
  moreover have s6: "show_nat 6 = ''6''" by code_simp
  ultimately have w: "w = \<lparr>sv_major = sv_major v, sv_minor = sv_minor v, sv_patch = sv_patch v,
      sv_prerelease = ''rc.6'', sv_build = ''''\<rparr>"
    using assms(2) by (auto simp: sv_next_def as_rc_def SemanticVersion_Inr show_int_def)
  have "pre_key w < pre_key v"
    by (simp add: pre_key_def w assms(1) pre_part_of_def all_digits_def is_digit_def less_pair)
  then show ?thesis by (simp add: w sv_less_key sv_key_def less_pair base_key_def)
qed

text \<open>Versions that differ in the build only are equal, but do not print alike.\<close>

lemma equal_not_same:
  "sv_eq v (v\<lparr>sv_build := b\<rparr>)"
  "sv_build v = '''' \<Longrightarrow> b \<noteq> '''' \<Longrightarrow> sv_str v \<noteq> sv_str (v\<lparr>sv_build := b\<rparr>)"
  by (simp_all add: sv_less_key sv_key_def base_key_def pre_key_def sv_str_def)

text \<open>
  Printing and parsing versions are inverse to each other: a text parses to a version exactly when,
  without the white space around it, it is what the version prints as and the version is well formed.
\<close>

theorem version_round_trip: "sv_parse t = Inr v \<longleftrightarrow> semver_ok v \<and> py_strip t = sv_str v"
  by (rule version_parse_iff)

section \<open>Plugin versions at work\<close>

lemma digits_value_chars: "digits_value acc s = Some v \<Longrightarrow> c \<in> set s \<Longrightarrow> is_digit c \<or> c = CHR ''_''"
  by (induction acc s rule: digits_value.induct) (auto split: if_splits)

lemma int_of_str_plus:
  assumes "is_digit (hd s)" "s \<noteq> ''''" "CHR ''+'' \<in> set (tl s)"
  shows "int_of_str s = None"
proof (cases "int_of_str s")
  case (Some v)
  obtain c t where s: "s = c # t" using assms(2) by (cases s) auto
  have c: "\<not> is_space c" "c \<noteq> CHR ''-''" "c \<noteq> CHR ''+''"
    using assms(1) s by (auto simp: is_digit_def is_space_def)
  obtain u x where ux: "rev (c # t) = u @ CHR ''+'' # x" "CHR ''+'' \<notin> set u"
    using split_list_first [of "CHR ''+''" "rev (c # t)"] assms(3) s by auto
  have "x \<noteq> ''''" using ux(1) c(3) by (cases x rule: rev_cases) auto
  then obtain y where x: "x = y @ [c]" using ux(1) by (cases x rule: rev_cases) auto
  have "\<exists>z. dropWhile is_space (u @ CHR ''+'' # x) = z @ CHR ''+'' # x"
    by (induction u) (auto simp: is_space_def)
  then obtain z where "dropWhile is_space (rev (c # t)) = z @ CHR ''+'' # y @ [c]" using ux(1) x by auto
  then have strip: "py_strip s = c # rev y @ CHR ''+'' # rev z"
    using c(1) by (simp add: py_strip_def s)
  then have "digits_value 0 (c # rev y @ CHR ''+'' # rev z) = Some v" using Some c by (simp add: int_of_str_def)
  from digits_value_chars [OF this, of "CHR ''+''"] show ?thesis by (simp add: is_digit_def)
qed simp

lemma semver_lineE:
  assumes "semver_line s"
  obtains a b c rest where "s = a @ ''.'' @ b @ ''.'' @ c @ rest" "all_digits a" "all_digits b" "all_digits c"
    "rest = '''' \<or> (\<exists>x r. rest = x # r \<and> (x = CHR ''-'' \<or> x = CHR ''+'') \<and> list_all suffix_char r)"
proof -
  let ?P = "\<lambda>c. c \<noteq> CHR ''-'' \<and> c \<noteq> CHR ''+''"
  have s: "s = takeWhile ?P s @ dropWhile ?P s" by simp
  from assms obtain a b c where sp: "split_on (CHR ''.'') (takeWhile ?P s) = [a, b, c]"
    and ok: "all_digits a" "all_digits b" "all_digits c"
    by (auto simp: semver_line_def Let_def split: list.splits)
  have core: "takeWhile ?P s = a @ ''.'' @ b @ ''.'' @ c" using sp by (simp add: split_core)
  have "dropWhile ?P s = '''' \<or> (\<exists>x r. dropWhile ?P s = x # r \<and> (x = CHR ''-'' \<or> x = CHR ''+'') \<and> list_all suffix_char r)"
  proof (cases "dropWhile ?P s")
    case (Cons x r)
    then have "x = CHR ''-'' \<or> x = CHR ''+''" by (auto simp: dropWhile_eq_Cons_conv)
    with Cons assms show ?thesis by (auto simp: semver_line_def Let_def)
  qed simp
  with that [OF _ ok] s core show thesis by simp
qed

lemma digits_no_sep: "all_digits a \<Longrightarrow> x \<in> set a \<Longrightarrow> x \<noteq> CHR ''.'' \<and> x \<noteq> CHR ''-'' \<and> x \<noteq> CHR ''+''"
  by (auto simp: all_digits_def list_all_iff is_digit_def)

lemma is_valid_versionE:
  assumes "is_valid_version s"
  obtains a b c rest where "s = a @ ''.'' @ b @ ''.'' @ c @ rest" "all_digits a" "all_digits b" "all_digits c"
    "rest \<in> {'''', [CHR 0x0A]} \<or>
     (\<exists>x r. rest = x # r \<and> (x = CHR ''-'' \<or> x = CHR ''+'') \<and> list_all (\<lambda>c. suffix_char c \<or> c = CHR 0x0A) r)"
proof -
  have mono: "list_all suffix_char r \<Longrightarrow> list_all (\<lambda>c. suffix_char c \<or> c = CHR 0x0A) r" for r
    by (auto simp: list_all_iff)
  from assms consider "semver_line s" | q where "s = q @ [CHR 0x0A]" "semver_line q"
    by (auto simp: is_valid_version_def without_newline_Some split: option.splits)
  then show thesis
  proof cases
    case 1
    then obtain a b c rest where "s = a @ ''.'' @ b @ ''.'' @ c @ rest" "all_digits a" "all_digits b" "all_digits c"
      "rest = '''' \<or> (\<exists>x r. rest = x # r \<and> (x = CHR ''-'' \<or> x = CHR ''+'') \<and> list_all suffix_char r)"
      by (rule semver_lineE)
    then show thesis using that [of a b c rest] mono by blast
  next
    case 2
    from 2(2) obtain a b c rest where q: "q = a @ ''.'' @ b @ ''.'' @ c @ rest" "all_digits a" "all_digits b" "all_digits c"
      "rest = '''' \<or> (\<exists>x r. rest = x # r \<and> (x = CHR ''-'' \<or> x = CHR ''+'') \<and> list_all suffix_char r)"
      by (rule semver_lineE)
    have "rest @ [CHR 0x0A] \<in> {'''', [CHR 0x0A]} \<or> (\<exists>x r. rest @ [CHR 0x0A] = x # r \<and>
        (x = CHR ''-'' \<or> x = CHR ''+'') \<and> list_all (\<lambda>c. suffix_char c \<or> c = CHR 0x0A) r)"
      using q(5) mono by auto
    with q 2(1) that [of a b c "rest @ [CHR 0x0A]"] show thesis by simp
  qed
qed

lemma int_of_str_newline: "all_digits c \<Longrightarrow> int_of_str (c @ [CHR 0x0A]) = int_of_str c"
proof -
  assume c: "all_digits c"
  obtain d t where "c = d # t" "\<not> is_space d" using c
    by (cases c) (auto simp: all_digits_def is_digit_def is_space_def)
  then have "py_strip (c @ [CHR 0x0A]) = py_strip c" by (simp add: py_strip_def is_space_def)
  then show ?thesis by (simp add: int_of_str_def)
qed

text \<open>
  The parser of plugin versions raises exactly on the invalid versions and on those with a \<open>+\<close>,
  valid as they are.
\<close>

theorem parse_version_defined:
  "parse_version s \<noteq> None \<longleftrightarrow> is_valid_version s \<and> CHR ''+'' \<notin> set s"
proof (cases "is_valid_version s")
  case True
  from True obtain a b c rest where s: "s = a @ ''.'' @ b @ ''.'' @ c @ rest"
    and ok: "all_digits a" "all_digits b" "all_digits c"
    and rest: "rest \<in> {'''', [CHR 0x0A]} \<or>
     (\<exists>x r. rest = x # r \<and> (x = CHR ''-'' \<or> x = CHR ''+'') \<and> list_all (\<lambda>c. suffix_char c \<or> c = CHR 0x0A) r)"
    by (rule is_valid_versionE)
  note seps = digits_no_sep [OF ok(1)] digits_no_sep [OF ok(2)] digits_no_sep [OF ok(3)]
  have "CHR ''.'' \<notin> set a" "CHR ''.'' \<notin> set b" using seps by blast+
  then have split: "split_on (CHR ''.'') (a @ ''.'' @ b @ ''.'' @ c @ w) = a # b # split_on (CHR ''.'') (c @ w)" for w
    by (simp add: split_on_append)
  note ints = int_of_str_digits [OF ok(1)] int_of_str_digits [OF ok(2)] int_of_str_digits [OF ok(3)]
  show ?thesis
  proof (cases "\<exists>r. rest = CHR ''+'' # r")
    case True
    then obtain r where r: "rest = CHR ''+'' # r" by blast
    define core where "core = fst (partition_at (CHR ''-'') s)"
    have "core = a @ ''.'' @ b @ ''.'' @ c @ CHR ''+'' # takeWhile (\<lambda>d. d \<noteq> CHR ''-'') r"
      using seps by (auto simp: core_def partition_at_def s r takeWhile_append)
    then obtain w where w: "core = a @ ''.'' @ b @ ''.'' @ c @ CHR ''+'' # w" by blast
    obtain w1 ws where ws: "split_on (CHR ''.'') (c @ CHR ''+'' # w) = (c @ CHR ''+'' # w1) # ws"
    proof -
      have "\<exists>w1 ws. split_on (CHR ''.'') (c @ CHR ''+'' # w) = (c @ CHR ''+'' # w1) # ws" using seps(3)
      proof (induction c)
        case Nil
        then show ?case by (cases "split_on (CHR ''.'') w") (simp_all add: split_on_not_Nil)
      qed auto
      then show thesis using that by blast
    qed
    have "int_of_str (c @ CHR ''+'' # w1) = None"
      using ok(3) by (intro int_of_str_plus) (auto simp: all_digits_def hd_append list_all_iff tl_append split: list.splits)
    then have "parse_version s = None"
      using w ws split [of "CHR ''+'' # w"]
      by (cases "partition_at (CHR ''-'') s") (simp add: parse_version_def Let_def core_def split: list.split option.split)
    then show ?thesis by (simp add: s r)
  next
    case False
    have plus: "CHR ''+'' \<notin> set s"
      using seps rest False by (auto simp: s list_all_iff suffix_char_def ident_char_plain dest!: bspec [of _ _ "CHR ''+''"])
    have "\<exists>w. fst (partition_at (CHR ''-'') s) = a @ ''.'' @ b @ ''.'' @ c @ w \<and> w \<in> {'''', [CHR 0x0A]}"
      using rest False seps by (auto simp: partition_at_def s takeWhile_append)
    then obtain w where w: "fst (partition_at (CHR ''-'') s) = a @ ''.'' @ b @ ''.'' @ c @ w" "w \<in> {'''', [CHR 0x0A]}"
      by blast
    have "split_on (CHR ''.'') (c @ w) = [c @ w]" using w(2) seps by (intro split_on_no_sep_id) auto
    moreover have "int_of_str (c @ w) = Some (int (digits_val c))"
      using w(2) ints(3) int_of_str_newline [OF ok(3)] by auto
    ultimately have "parse_version s \<noteq> None"
      using True w(1) split [of w] ints by (cases "partition_at (CHR ''-'') s") (simp add: parse_version_def Let_def)
    with plus True show ?thesis by simp
  qed
qed (simp add: parse_version_def)

text \<open>The order of two versions with different suffixes depends on which is asked first.\<close>

lemma compare_versions_both_ways:
  "compare_versions ''1.0.0-a'' ''1.0.0-b'' = Some (- 1)"
  "compare_versions ''1.0.0-b'' ''1.0.0-a'' = Some (- 1)"
  by code_simp+

text \<open>A release does not meet the requirement to be at least its own pre-release.\<close>

lemma release_below_prerelease:
  "compare_versions ''1.0.0'' ''1.0.0-rc'' = Some 1"
  "version_meets ''1.0.0'' ''>=1.0.0-rc'' = Some False"
  by code_simp+

end
