(* ===== verification/Releases.thy ===== *)
theory Releases
  imports Versions Json
begin

text \<open>
  The release manager (\<open>app/release/manager.py\<close>) with the changelog entries
  (\<open>app/release/changelog.py\<close>) and the signatures (\<open>app/release/signing.py\<close>). The list of artifacts
  of a manifest is shared by reference with the payload that was signed, and \<open>ArtifactManifest.add\<close>
  changes it in place or replaces it, so the lists live in a store and manifests and payloads hold
  addresses. The keyed hash, \<open>json.dumps\<close> of a payload, the files on disk, the current day and the
  publishers are parameters. The history file is not modelled.
\<close>

section \<open>Changelog\<close>

record commit_entry =
  ce_type :: string
  ce_subject :: string
  ce_scope :: string
  ce_breaking :: bool

record release_entry =
  rl_version :: string
  rl_date :: string
  rl_commits :: "commit_entry list"

definition lower_letter :: "char \<Rightarrow> bool" where
  "lower_letter c \<longleftrightarrow> of_char c \<in> {97..122 :: nat}"

text \<open>The pattern \<open>type(scope)!: subject\<close>, from left to right.\<close>

definition match_scope :: "string \<Rightarrow> (string \<times> string) option" where
  "match_scope s =
     (case s of
        c # r \<Rightarrow> if c = CHR ''('' then
                   (let sc = takeWhile (\<lambda>d. d \<noteq> CHR '')'') r; rest = dropWhile (\<lambda>d. d \<noteq> CHR '')'') r
                    in if sc = '''' \<or> rest = '''' then None else Some (sc, tl rest))
                 else Some ('''', s)
      | [] \<Rightarrow> Some ('''', s))"

definition match_subject :: "string \<Rightarrow> string option" where
  "match_subject s =
     (if \<not> starts_with '':'' s then None
      else let r = tl s; subject = dropWhile is_space r
           in if r = '''' \<or> \<not> is_space (hd r) \<or> subject = '''' \<or> CHR 0x0A \<in> set subject then None
              else Some subject)"

definition commit_parse :: "string \<Rightarrow> commit_entry option" where
  "commit_parse line =
     (let s = py_strip line; ty = takeWhile lower_letter s
      in if ty = '''' then None
         else (case match_scope (dropWhile lower_letter s) of
                 None \<Rightarrow> None
               | Some (sc, r) \<Rightarrow>
                   (let breaking = starts_with ''!'' r
                    in case match_subject (if breaking then tl r else r) of
                         None \<Rightarrow> None
                       | Some subject \<Rightarrow>
                           Some \<lparr>ce_type = py_lower ty, ce_subject = py_strip subject, ce_scope = sc,
                                 ce_breaking = breaking\<rparr>)))"

definition section_order :: "(string \<times> string) list" where
  "section_order =
     [(''added'', ''Added''), (''changed'', ''Changed''), (''deprecated'', ''Deprecated''),
      (''removed'', ''Removed''), (''fixed'', ''Fixed''), (''security'', ''Security'')]"

definition type_to_section :: "(string, string) dict" where
  "type_to_section =
     [(''feat'', ''added''), (''feature'', ''added''), (''fix'', ''fixed''), (''bugfix'', ''fixed''),
      (''deprecate'', ''deprecated''), (''remove'', ''removed''), (''security'', ''security''),
      (''cve'', ''security'')]"

definition commit_section :: "commit_entry \<Rightarrow> string" where
  "commit_section c = dict_get_or type_to_section (ce_type c) ''changed''"

definition release_sections :: "release_entry \<Rightarrow> (string, commit_entry list) dict" where
  "release_sections r =
     fold (\<lambda>c d. dict_set (commit_section c) (dict_get_or d (commit_section c) [] @ [c]) d)
       (rl_commits r) (map (\<lambda>(key, label). (key, [])) section_order)"

definition breaking_lines :: "release_entry \<Rightarrow> string list" where
  "breaking_lines r =
     (let brk = filter ce_breaking (rl_commits r)
      in if brk = [] then []
         else '''' # ''### BREAKING CHANGES'' #
              map (\<lambda>c. ''- '' @ ce_subject c @ '' ('' @
                        (if ce_scope c \<noteq> '''' then ce_scope c else ce_type c) @ '')'') brk)"

definition section_lines :: "(string, commit_entry list) dict \<Rightarrow> string \<times> string \<Rightarrow> string list" where
  "section_lines d = (\<lambda>(key, label).
     (let entries = dict_get_or d key []
      in if entries = [] then []
         else '''' # (''### '' @ label) #
              map (\<lambda>c. ''- '' @ (if ce_scope c \<noteq> '''' then ''**'' @ ce_scope c @ '':** '' else '''') @
                        (if ce_breaking c then ''**BREAKING:** '' else '''') @ ce_subject c) entries))"

definition release_markdown :: "release_entry \<Rightarrow> string" where
  "release_markdown r =
     join_with [CHR 0x0A]
       ((''## ['' @ rl_version r @
         ''](https://github.com/salmansaidibrohim267-prog/AI-Router/releases/tag/v'' @ rl_version r @
         '') - '' @ rl_date r)
        # breaking_lines r @ concat (map (section_lines (release_sections r)) section_order) @
        (if rl_commits r = [] then ['''', ''- Initial release.''] else [])) @ [CHR 0x0A]"

definition parse_commits :: "string list \<Rightarrow> commit_entry list" where
  "parse_commits ls = List.map_filter commit_parse ls"

section \<open>The manager\<close>

record artifact =
  ar_name :: string
  ar_path :: string
  ar_digest :: string
  ar_size :: nat

type_synonym list_ref = nat

record manifest =
  mf_version :: string
  mf_artifacts :: list_ref

record rel_signature =
  rs_version :: string
  rs_artifacts :: list_ref
  rs_signature :: string

datatype release_error =
    ReleaseError string
  | ReleaseVersionError version_error
  | VersionNotFoundError string
  | ReleaseLockedError string
  | ChangelogError string
  | PublishError string

text \<open>A publisher takes the version, the paths and the notes.\<close>

type_synonym publisher = "string \<Rightarrow> string list \<Rightarrow> string \<Rightarrow> release_error + json"

record release_env =
  en_mac :: "string \<Rightarrow> string \<Rightarrow> string"
  en_dumps :: "string \<Rightarrow> artifact list \<Rightarrow> string"
  en_file :: "string \<Rightarrow> (string \<times> nat) option"
  en_today :: string
  en_key :: string
  en_project :: string
  en_initial_version :: string
  en_config_publishers :: "string list"
  en_auto_publish :: bool
  en_create_publisher :: "string \<Rightarrow> release_error + publisher"

record release_manager =
  rm_releases :: "release_entry list"
  rm_store :: "artifact list list"
  rm_manifests :: "(string, manifest) dict"
  rm_signatures :: "(string, rel_signature) dict"
  rm_finalised :: "string list"
  rm_publishers :: "(string, publisher) dict"

type_synonym 'a rmprog = "(release_manager, release_error, 'a) prog"

definition vlift :: "version_error + 'a \<Rightarrow> 'a rmprog" where
  "vlift r = lift_result (case r of Inl e \<Rightarrow> Inl (ReleaseVersionError e) | Inr a \<Rightarrow> Inr a)"

fun parse_all :: "string list \<Rightarrow> version_error + semver list" where
  "parse_all [] = Inr []"
| "parse_all (t # ts) = bind_result (sv_parse t) (\<lambda>v. bind_result (parse_all ts) (\<lambda>vs. Inr (v # vs)))"

definition list_releases :: "release_manager \<Rightarrow> string list" where
  "list_releases s = map rl_version (rm_releases s)"

text \<open>\<open>max(versions)\<close> keeps the first of several equal maxima.\<close>

definition max_version :: "semver list \<Rightarrow> semver" where
  "max_version vs = fold (\<lambda>v m. if sv_lt m v then v else m) (tl vs) (hd vs)"

definition latest_version :: "semver option rmprog" where
  "latest_version =
     andthen (gets list_releases) (\<lambda>ts.
     andthen (vlift (parse_all ts)) (\<lambda>vs.
       ret (if vs = [] then None else Some (max_version vs))))"

definition get_release :: "string \<Rightarrow> release_manager \<Rightarrow> release_entry option" where
  "get_release version s = find (\<lambda>r. rl_version r = version) (rm_releases s)"

definition is_finalised :: "string \<Rightarrow> release_manager \<Rightarrow> bool" where
  "is_finalised version s \<longleftrightarrow> version \<in> set (rm_finalised s)"

definition bump_latest :: "string \<Rightarrow> semver \<Rightarrow> version_error + semver" where
  "bump_latest bump latest =
     (if bump = ''rc'' then as_rc (rc_number latest + 1) latest
      else if bump = ''release'' then as_release latest
      else if is_rc latest \<and> 0 < rc_number latest
      then (if bump = ''patch'' then as_rc (rc_number latest + 1) latest else sv_next bump ''rc.1'' latest)
      else sv_next bump '''' latest)"

definition next_version :: "release_env \<Rightarrow> string \<Rightarrow> semver rmprog" where
  "next_version env bump =
     andthen latest_version (\<lambda>l.
       (case l of
          None \<Rightarrow> vlift (sv_parse (en_initial_version env))
        | Some latest \<Rightarrow> vlift (bump_latest bump latest)))"

definition build_entry :: "release_env \<Rightarrow> string \<Rightarrow> commit_entry list \<Rightarrow> string \<Rightarrow> release_entry" where
  "build_entry env version commits date =
     \<lparr>rl_version = version, rl_date = (if date \<noteq> '''' then date else en_today env), rl_commits = commits\<rparr>"

text \<open>
  \<open>list.sort\<close> computes all keys first; when one of them raises, the list keeps its order. The sort
  is stable and compares with \<open>__lt__\<close>, the order of \<open>sv_key\<close>.
\<close>

definition release_key :: "release_entry \<Rightarrow> (int \<times> int \<times> int) \<times> nat \<times> pre_part list" where
  "release_key r = (case sv_parse (rl_version r) of Inr v \<Rightarrow> sv_key v | Inl e \<Rightarrow> ((0, 0, 0), 0, []))"

definition sort_releases :: "unit rmprog" where
  "sort_releases =
     andthen (gets list_releases) (\<lambda>ts.
     andthen (vlift (parse_all ts)) (\<lambda>vs.
       modify (\<lambda>s. s\<lparr>rm_releases := sort_key release_key (rm_releases s)\<rparr>)))"

definition create_release ::
  "release_env \<Rightarrow> string \<Rightarrow> string list \<Rightarrow> string \<Rightarrow> string \<Rightarrow> release_entry rmprog" where
  "create_release env version commit_lines bump date =
     andthen (if version \<noteq> '''' then vlift (sv_parse version) else next_version env bump) (\<lambda>resolved.
     (let version_str = sv_str resolved
      in andthen (gets (get_release version_str)) (\<lambda>old.
         andthen (require (old = None) (ReleaseError (''release '' @ version_str @ '' already exists''))) (\<lambda>_.
         (let entry = build_entry env version_str (parse_commits commit_lines) date
          in andthen (modify (\<lambda>s. s\<lparr>rm_releases := rm_releases s @ [entry]\<rparr>)) (\<lambda>_.
             andthen sort_releases (\<lambda>_.
               ret entry)))))))"

definition or_int :: "int option \<Rightarrow> int \<Rightarrow> int" where
  "or_int k d = (case k of Some j \<Rightarrow> if j \<noteq> 0 then j else d | None \<Rightarrow> d)"

definition create_rc :: "release_env \<Rightarrow> int option \<Rightarrow> string list \<Rightarrow> release_entry rmprog" where
  "create_rc env rc_num commit_lines =
     andthen latest_version (\<lambda>l.
     andthen
       (case l of
          None \<Rightarrow>
            andthen (vlift (sv_parse (en_initial_version env))) (\<lambda>version.
              (case rc_num of
                 Some k \<Rightarrow> vlift (SemanticVersion (sv_major version) (sv_minor version) (sv_patch version)
                             (''rc.'' @ show_int k) '''')
               | None \<Rightarrow> ret version))
        | Some latest \<Rightarrow>
            if \<not> is_rc latest then vlift (as_rc (or_int rc_num 1) latest)
            else vlift (as_rc (or_int rc_num (rc_number latest + 1)) latest))
       (\<lambda>version. create_release env (sv_str version) commit_lines ''patch'' ''''))"

definition promote_to_release :: "release_env \<Rightarrow> string \<Rightarrow> string list \<Rightarrow> release_entry rmprog" where
  "promote_to_release env rc_version commit_lines =
     andthen (vlift (sv_parse rc_version)) (\<lambda>rc.
     andthen (require (is_rc rc) (ReleaseError (rc_version @ '' is not a release candidate''))) (\<lambda>_.
     andthen (vlift (as_release rc)) (\<lambda>release.
       create_release env (sv_str release) commit_lines ''patch'' '''')))"

definition changelog_markdown :: "release_env \<Rightarrow> string rmprog" where
  "changelog_markdown env =
     (let header = ''# Changelog'' @ [CHR 0x0A, CHR 0x0A] @ ''All notable changes to **'' @ en_project env @
                     ''** are documented here.'';
          generate = (\<lambda>rs. join_with [CHR 0x0A] (header # '''' # map release_markdown rs))
      in andthen (gets rm_releases) (\<lambda>rs.
           if rs = []
           then andthen (next_version env ''patch'') (\<lambda>v. ret (generate [build_entry env (sv_str v) [] '''']))
           else ret (generate rs)))"

section \<open>Manifests and signatures\<close>

definition deref :: "release_manager \<Rightarrow> list_ref \<Rightarrow> artifact list" where
  "deref s a = (if a < length (rm_store s) then rm_store s ! a else [])"

definition alloc :: "artifact list \<Rightarrow> list_ref rmprog" where
  "alloc xs s = (Inr (length (rm_store s)), s\<lparr>rm_store := rm_store s @ [xs]\<rparr>)"

definition sign_manifest :: "release_env \<Rightarrow> string \<Rightarrow> rel_signature rmprog" where
  "sign_manifest env version =
     andthen (fetch (ReleaseError (''no manifest for '' @ version)) (\<lambda>s. dict_get (rm_manifests s) version)) (\<lambda>m.
     andthen (gets (\<lambda>s. \<lparr>rs_version = mf_version m, rs_artifacts = mf_artifacts m,
        rs_signature = en_mac env (en_key env) (en_dumps env (mf_version m) (deref s (mf_artifacts m)))\<rparr>)) (\<lambda>sg.
     andthen (modify (\<lambda>s. s\<lparr>rm_signatures := dict_set version sg (rm_signatures s)\<rparr>)) (\<lambda>_.
       ret sg)))"

definition signer_verify :: "release_env \<Rightarrow> release_manager \<Rightarrow> rel_signature \<Rightarrow> bool" where
  "signer_verify env s sg \<longleftrightarrow>
     en_mac env (en_key env) (en_dumps env (rs_version sg) (deref s (rs_artifacts sg))) = rs_signature sg"

definition verify_manifest :: "release_env \<Rightarrow> string \<Rightarrow> release_manager \<Rightarrow> bool" where
  "verify_manifest env version s =
     (case dict_get (rm_signatures s) version of
        None \<Rightarrow> False
      | Some sg \<Rightarrow> dict_get (rm_manifests s) version \<noteq> None \<and> signer_verify env s sg)"

definition manifest_add :: "release_env \<Rightarrow> string \<Rightarrow> string \<Rightarrow> string \<Rightarrow> unit rmprog" where
  "manifest_add env version nm path =
     (let entry = (case en_file env path of
                     Some (digest, sz) \<Rightarrow> \<lparr>ar_name = nm, ar_path = path, ar_digest = digest, ar_size = sz\<rparr>
                   | None \<Rightarrow> \<lparr>ar_name = nm, ar_path = path, ar_digest = '''', ar_size = 0\<rparr>)
      in andthen (fetch (ReleaseError version) (\<lambda>s. dict_get (rm_manifests s) version)) (\<lambda>m.
         andthen (gets (\<lambda>s. deref s (mf_artifacts m))) (\<lambda>arts.
         andthen
           (if \<exists>x \<in> set arts. ar_name x = nm
            then andthen (alloc (filter (\<lambda>x. ar_name x \<noteq> nm) arts)) (\<lambda>a.
                 andthen (modify (\<lambda>s. s\<lparr>rm_manifests :=
                     dict_set version (m\<lparr>mf_artifacts := a\<rparr>) (rm_manifests s)\<rparr>)) (\<lambda>_. ret a))
            else ret (mf_artifacts m)) (\<lambda>a.
         modify (\<lambda>s. s\<lparr>rm_store := (rm_store s)[a := deref s a @ [entry]]\<rparr>)))))"

definition ensure_manifest :: "string \<Rightarrow> unit rmprog" where
  "ensure_manifest version =
     andthen (gets (\<lambda>s. dict_get (rm_manifests s) version)) (\<lambda>m.
       (case m of
          Some _ \<Rightarrow> ret ()
        | None \<Rightarrow> andthen (alloc []) (\<lambda>a.
            modify (\<lambda>s. s\<lparr>rm_manifests :=
              dict_set version \<lparr>mf_version = version, mf_artifacts = a\<rparr> (rm_manifests s)\<rparr>))))"

definition add_artifact :: "release_env \<Rightarrow> string \<Rightarrow> string \<Rightarrow> string \<Rightarrow> unit rmprog" where
  "add_artifact env version nm path =
     andthen (gets (is_finalised version)) (\<lambda>fin.
     andthen (require (\<not> fin) (ReleaseLockedError version)) (\<lambda>_.
     andthen (ensure_manifest version) (\<lambda>_.
       manifest_add env version nm path)))"

fun add_all :: "release_env \<Rightarrow> string \<Rightarrow> (string \<times> string) list \<Rightarrow> unit rmprog" where
  "add_all env version [] = ret ()"
| "add_all env version ((nm, path) # rest) =
     andthen (manifest_add env version nm path) (\<lambda>_. add_all env version rest)"

definition build_artifact_manifest :: "release_env \<Rightarrow> string \<Rightarrow> (string, string) dict \<Rightarrow> unit rmprog" where
  "build_artifact_manifest env version artifacts =
     andthen (gets (is_finalised version)) (\<lambda>fin.
     andthen (require (\<not> fin) (ReleaseLockedError version)) (\<lambda>_.
     andthen (ensure_manifest version) (\<lambda>_.
       add_all env version artifacts)))"

definition register_publisher :: "string \<Rightarrow> publisher \<Rightarrow> unit rmprog" where
  "register_publisher nm p = modify (\<lambda>s. s\<lparr>rm_publishers := dict_set nm p (rm_publishers s)\<rparr>)"

definition artifact_paths :: "string \<Rightarrow> release_manager \<Rightarrow> string list" where
  "artifact_paths version s =
     (case dict_get (rm_manifests s) version of
        None \<Rightarrow> [] | Some m \<Rightarrow> map ar_path (deref s (mf_artifacts m)))"

fun publish_to ::
  "release_env \<Rightarrow> string \<Rightarrow> string \<Rightarrow> string list \<Rightarrow> (string, json) dict \<Rightarrow> (string, json) dict rmprog" where
  "publish_to env version notice [] results = ret results"
| "publish_to env version notice (nm # rest) results =
     andthen (gets (\<lambda>s. dict_get (rm_publishers s) nm)) (\<lambda>known.
     andthen
       (case known of
          Some p \<Rightarrow> ret (Some p)
        | None \<Rightarrow>
            if en_auto_publish env
            then andthen (lift_result (en_create_publisher env nm)) (\<lambda>p.
                 andthen (register_publisher nm p) (\<lambda>_. ret (Some p)))
            else ret None) (\<lambda>pub.
     (case pub of
        None \<Rightarrow> publish_to env version notice rest results
      | Some p \<Rightarrow>
          andthen (gets (artifact_paths version)) (\<lambda>paths.
          andthen (lift_result (p version paths notice)) (\<lambda>res.
            publish_to env version notice rest (dict_set nm res results))))))"

definition publish_release ::
  "release_env \<Rightarrow> string \<Rightarrow> string \<Rightarrow> string list \<Rightarrow> (string, json) dict rmprog" where
  "publish_release env version notice names =
     andthen (gets rm_publishers) (\<lambda>ps.
       publish_to env version notice
         (if names \<noteq> [] then names else if ps \<noteq> [] then map fst ps else en_config_publishers env) [])"

definition finalise :: "string \<Rightarrow> bool rmprog" where
  "finalise version =
     andthen (gets (get_release version)) (\<lambda>r.
     andthen (require (r \<noteq> None) (VersionNotFoundError version)) (\<lambda>_.
     andthen (modify (\<lambda>s. s\<lparr>rm_finalised := List.insert version (rm_finalised s)\<rparr>)) (\<lambda>_.
       ret True)))"

section \<open>The order of the releases\<close>

lemma semver_str_chars:
  assumes "semver_ok v" "c \<in> set (sv_str v)"
  shows "ident_char c \<or> c \<in> {CHR ''.'', CHR ''+''}"
proof -
  have nat: "ident_char c" if "c \<in> set (show_nat n)" for n
    using that show_nat_digits [of n] by (auto simp: all_digits_def list_all_iff ident_char_plain)
  have "ident_char (CHR ''-'')" by (simp add: ident_char_def)
  then show ?thesis using assms nat build_ok_chars [OF pre_ok_build, of "sv_prerelease v" c] build_ok_chars [of "sv_build v" c]
    by (auto simp: sv_str_def show_int_def semver_ok_def split: if_splits)
qed

lemma sv_parse_str [simp]: "semver_ok v \<Longrightarrow> sv_parse (sv_str v) = Inr v"
  using semver_str_chars [of v]
  by (subst version_parse_iff)
    (fastforce intro!: py_strip_id simp: ident_char_def is_digit_def is_space_def)

lemma sv_parse_ok: "sv_parse t = Inr v \<Longrightarrow> semver_ok v"
  by (simp add: version_parse_iff)

lemma pre_ok_rc: "pre_ok (''rc.'' @ show_int k)"
proof -
  have dig: "ident_char c" "c \<noteq> CHR ''.''" if "c \<in> set (show_nat n)" for c n
    using that show_nat_digits [of n] by (auto simp: all_digits_def list_all_iff ident_char_plain is_digit_def)
  have dash: "ident_char (CHR ''-'')" by (simp add: ident_char_def)
  have nodot: "CHR ''.'' \<notin> set (show_int k)" using dig(2) by (auto simp: show_int_def)
  have "split_on (CHR ''.'') (''rc.'' @ show_int k) = [''rc'', show_int k]"
    using split_on_append [of "CHR ''.''" "''rc''" "show_int k"] nodot by (simp add: split_on_no_sep_id)
  moreover have "pre_ident ''rc''"
    by (simp add: pre_ident_def build_ident_def ident_char_def all_digits_def is_digit_def)
  moreover have "build_ident (show_int k)" using dig dash by (auto simp: build_ident_def show_int_def list_all_iff)
  moreover have "all_digits (show_int k) \<longrightarrow> canonical_digits (show_int k)"
    by (auto simp: show_int_def all_digits_def is_digit_def)
  ultimately show ?thesis by (simp add: pre_ok_def pre_ident_def)
qed

lemma as_rc_ok: "semver_ok v \<Longrightarrow> as_rc k v = Inr w \<Longrightarrow> semver_ok w"
  using pre_ok_rc [of k] by (auto simp: as_rc_def SemanticVersion_Inr semver_ok_def)

lemma as_release_ok: "semver_ok v \<Longrightarrow> as_release v = Inr w \<Longrightarrow> semver_ok w"
  by (auto simp: as_release_def SemanticVersion_Inr semver_ok_def)

lemma sv_next_ok: "semver_ok v \<Longrightarrow> pre = '''' \<or> pre_ok pre \<Longrightarrow> sv_next bump pre v = Inr w \<Longrightarrow> semver_ok w"
  using as_rc_ok [of v "rc_number v + 1" w] as_release_ok [of v w]
  by (auto simp: sv_next_def bump_major_def bump_minor_def bump_patch_def SemanticVersion_Inr semver_ok_def
      split: if_splits)

lemma bump_latest_ok: "semver_ok v \<Longrightarrow> bump_latest bump v = Inr w \<Longrightarrow> semver_ok w"
proof -
  have "show_int 1 = ''1''" by code_simp
  then have "pre_ok ''rc.1''" using pre_ok_rc [of 1] by simp
  then show "semver_ok v \<Longrightarrow> bump_latest bump v = Inr w \<Longrightarrow> semver_ok w"
    unfolding bump_latest_def by (metis sv_next_ok as_rc_ok as_release_ok)
qed

definition rel_ok :: "release_manager \<Rightarrow> bool" where
  "rel_ok s \<longleftrightarrow> (\<forall>r \<in> set (rm_releases s). \<exists>v. semver_ok v \<and> rl_version r = sv_str v) \<and>
     distinct (list_releases s) \<and> sorted (map release_key (rm_releases s))"

lemma parse_all_ok:
  "\<forall>r \<in> set rs. \<exists>v. semver_ok v \<and> rl_version r = sv_str v \<Longrightarrow>
     \<exists>vs. parse_all (map rl_version rs) = Inr vs \<and> list_all semver_ok vs \<and> map release_key rs = map sv_key vs"
  by (induction rs) (fastforce simp: release_key_def)+

lemma max_version_in: "vs \<noteq> [] \<Longrightarrow> max_version vs \<in> set vs"
proof -
  have "fold (\<lambda>v m. if sv_lt m v then v else m) xs x \<in> insert x (set xs)" for xs x
    by (induction xs arbitrary: x) auto
  then show "vs \<noteq> [] \<Longrightarrow> max_version vs \<in> set vs" unfolding max_version_def by (cases vs) auto
qed

lemma max_version_ge: "v \<in> set vs \<Longrightarrow> sv_key v \<le> sv_key (max_version vs)"
proof -
  have "sv_key x \<le> sv_key (fold (\<lambda>v m. if sv_lt m v then v else m) xs x) \<and>
      (\<forall>v \<in> set xs. sv_key v \<le> sv_key (fold (\<lambda>v m. if sv_lt m v then v else m) xs x))" for xs x
  proof (induction xs arbitrary: x)
    case (Cons y xs)
    show ?case using Cons [of x] Cons [of y] by (auto simp: sv_less_key)
  qed simp
  then show "v \<in> set vs \<Longrightarrow> sv_key v \<le> sv_key (max_version vs)"
    unfolding max_version_def by (cases vs) auto
qed

lemma vlift_simps [simp]: "vlift (Inl e) = throw (ReleaseVersionError e)" "vlift (Inr a) = ret a"
  by (simp_all add: vlift_def lift_result_cases)

text \<open>What the latest version of a well-formed history is, and that reading it changes nothing.\<close>

lemma latest_version_run:
  assumes "rel_ok s"
  shows "latest_version s = (Inr (if rm_releases s = [] then None
     else Some (max_version (map (projr \<circ> sv_parse \<circ> rl_version) (rm_releases s)))), s)"
proof -
  have ok: "\<forall>r \<in> set (rm_releases s). \<exists>v. semver_ok v \<and> rl_version r = sv_str v" using assms by (simp add: rel_ok_def)
  have "parse_all (map rl_version rs) = Inr (map (projr \<circ> sv_parse \<circ> rl_version) rs)"
    if "\<forall>r \<in> set rs. \<exists>v. semver_ok v \<and> rl_version r = sv_str v" for rs
    using that by (induction rs) (auto simp: comp_def)
  from this [OF ok] show ?thesis by (simp add: latest_version_def andthen_def list_releases_def)
qed

lemma latest_semver_ok:
  assumes "rel_ok s" "latest_version s = (Inr (Some v), s')"
  shows "semver_ok v \<and> s' = s \<and> (\<forall>r \<in> set (rm_releases s). release_key r \<le> sv_key v) \<and>
    (\<exists>r \<in> set (rm_releases s). rl_version r = sv_str v)"
proof -
  let ?p = "\<lambda>r. projr (sv_parse (rl_version r))"
  have ne: "rm_releases s \<noteq> []" and v: "v = max_version (map ?p (rm_releases s))" and s': "s' = s"
    using assms latest_version_run [OF assms(1)] by (auto simp: comp_def split: if_splits)
  have p: "semver_ok (?p r)" "rl_version r = sv_str (?p r)" "release_key r = sv_key (?p r)"
    if "r \<in> set (rm_releases s)" for r
    using assms(1) that by (force simp: rel_ok_def release_key_def)+
  have "v \<in> ?p ` set (rm_releases s)" using max_version_in [of "map ?p (rm_releases s)"] ne v by simp
  moreover have "sv_key (?p r) \<le> sv_key v" if "r \<in> set (rm_releases s)" for r
    using max_version_ge [of "?p r" "map ?p (rm_releases s)"] that v by simp
  ultimately show ?thesis using p s' by auto
qed

lemma next_version_run:
  assumes "rel_ok s"
  shows "\<exists>r. next_version env bump s = (r, s) \<and> (\<forall>v. r = Inr v \<longrightarrow> semver_ok v)"
proof (cases "rm_releases s = []")
  case True
  then have "next_version env bump s = vlift (sv_parse (en_initial_version env)) s"
    using latest_version_run [OF assms] by (simp add: next_version_def)
  then show ?thesis by (cases "sv_parse (en_initial_version env)") (auto dest: sv_parse_ok)
next
  case False
  then obtain l where l: "latest_version s = (Inr (Some l), s)" using latest_version_run [OF assms] by simp
  then have ok: "semver_ok l" using latest_semver_ok [OF assms] by blast
  have "next_version env bump s = vlift (bump_latest bump l) s" by (simp add: next_version_def l)
  then show ?thesis using bump_latest_ok [OF ok] by (cases "bump_latest bump l") auto
qed

lemma resolve_run:
  assumes "rel_ok s"
  shows "\<exists>r. (if version \<noteq> '''' then vlift (sv_parse version) else next_version env bump) s = (r, s) \<and>
    (\<forall>v. r = Inr v \<longrightarrow> semver_ok v)"
  using next_version_run [OF assms, of env bump] by (cases "sv_parse version") (auto dest: sv_parse_ok)

lemma sort_releases_run:
  assumes "\<forall>r \<in> set (rm_releases s). \<exists>v. semver_ok v \<and> rl_version r = sv_str v"
  shows "sort_releases s = (Inr (), s\<lparr>rm_releases := sort_key release_key (rm_releases s)\<rparr>)"
  using parse_all_ok [OF assms] by (auto simp: sort_releases_def list_releases_def andthen_def)

definition with_release :: "release_entry \<Rightarrow> release_manager \<Rightarrow> release_manager" where
  "with_release e s = s\<lparr>rm_releases := sort_key release_key (rm_releases s @ [e])\<rparr>"

lemma find_version_None: "get_release v s = None \<longleftrightarrow> v \<notin> set (list_releases s)"
  by (auto simp: get_release_def list_releases_def find_None_iff)

lemma rel_ok_with:
  assumes "rel_ok s" "semver_ok v" "rl_version e = sv_str v" "get_release (sv_str v) s = None"
  shows "rel_ok (with_release e s)"
proof -
  let ?rs = "sort_key release_key (rm_releases s @ [e])"
  have "mset (map rl_version ?rs) = mset (map rl_version (rm_releases s @ [e]))" by simp
  then have "distinct (map rl_version ?rs)"
    using assms unfolding find_version_None by (metis (no_types, lifting) mset_eq_imp_distinct_iff rel_ok_def list_releases_def
      map_append list.map distinct_append distinct.simps(2) distinct_singleton disjoint_insert(1) inf_bot_right list.set)
  then show ?thesis using assms by (auto simp: rel_ok_def with_release_def list_releases_def)
qed

lemma create_release_run:
  assumes "rel_ok s" "(if version \<noteq> '''' then vlift (sv_parse version) else next_version env bump) s = (Inr v, s)" "semver_ok v"
  shows "create_release env version ls bump date s =
    (if get_release (sv_str v) s = None
     then (Inr (build_entry env (sv_str v) (parse_commits ls) date), with_release (build_entry env (sv_str v) (parse_commits ls) date) s)
     else (Inl (ReleaseError (''release '' @ sv_str v @ '' already exists'')), s))"
proof -
  let ?e = "build_entry env (sv_str v) (parse_commits ls) date"
  let ?s = "s\<lparr>rm_releases := rm_releases s @ [?e]\<rparr>"
  have "\<forall>r \<in> set (rm_releases ?s). \<exists>v. semver_ok v \<and> rl_version r = sv_str v"
    using assms(1,3) by (auto simp: rel_ok_def build_entry_def)
  from sort_releases_run [OF this] have srt: "sort_releases ?s = (Inr (), with_release ?e s)"
    by (simp add: with_release_def)
  show ?thesis using assms(2) srt unfolding create_release_def by (simp add: andthen_def Let_def)
qed

text \<open>A release is created in full or not at all.\<close>

lemma create_release_cases:
  assumes "rel_ok s"
  shows "(\<exists>e. create_release env version ls bump date s = (Inl e, s)) \<or>
    (\<exists>v. semver_ok v \<and> (if version \<noteq> '''' then vlift (sv_parse version) else next_version env bump) s = (Inr v, s) \<and>
       get_release (sv_str v) s = None \<and>
       create_release env version ls bump date s =
         (Inr (build_entry env (sv_str v) (parse_commits ls) date),
          with_release (build_entry env (sv_str v) (parse_commits ls) date) s))"
proof -
  obtain r where r: "(if version \<noteq> '''' then vlift (sv_parse version) else next_version env bump) s = (r, s)"
    and ok: "\<And>v. r = Inr v \<Longrightarrow> semver_ok v" using resolve_run [OF assms] by blast
  show ?thesis
  proof (cases r)
    case (Inl e)
    then show ?thesis using r unfolding create_release_def by (simp del: if_split_asm add: andthen_def)
  next
    case (Inr v)
    show ?thesis using create_release_run [OF assms r [unfolded Inr] ok [OF Inr], of ls date] r Inr ok [OF Inr]
      by (cases "get_release (sv_str v) s = None") auto
  qed
qed

section \<open>The artifacts of a version\<close>

definition artifacts_of :: "release_manager \<Rightarrow> string \<Rightarrow> artifact list option" where
  "artifacts_of s u = map_option (\<lambda>m. deref s (mf_artifacts m)) (dict_get (rm_manifests s) u)"

text \<open>No two manifests share a list.\<close>

definition store_ok :: "release_manager \<Rightarrow> bool" where
  "store_ok s \<longleftrightarrow>
     (\<forall>u m. dict_get (rm_manifests s) u = Some m \<longrightarrow> mf_artifacts m < length (rm_store s) \<and> mf_version m = u) \<and>
     (\<forall>u w m n. dict_get (rm_manifests s) u = Some m \<longrightarrow> dict_get (rm_manifests s) w = Some n \<longrightarrow> u \<noteq> w \<longrightarrow>
        mf_artifacts m \<noteq> mf_artifacts n)"

definition new_artifact :: "release_env \<Rightarrow> string \<Rightarrow> string \<Rightarrow> artifact" where
  "new_artifact env nm path =
     (case en_file env path of
        Some (digest, sz) \<Rightarrow> \<lparr>ar_name = nm, ar_path = path, ar_digest = digest, ar_size = sz\<rparr>
      | None \<Rightarrow> \<lparr>ar_name = nm, ar_path = path, ar_digest = '''', ar_size = 0\<rparr>)"

lemma deref_update:
  "a < length (rm_store s) \<Longrightarrow>
     deref (s\<lparr>rm_store := (rm_store s)[a := xs]\<rparr>) b = (if b = a then xs else deref s b)"
  by (simp add: deref_def)

lemma deref_alloc:
  "b < length (rm_store s) \<Longrightarrow> deref (s\<lparr>rm_store := rm_store s @ [xs]\<rparr>) b = deref s b"
  "deref (s\<lparr>rm_store := rm_store s @ [xs]\<rparr>) (length (rm_store s)) = xs"
  by (simp_all add: deref_def nth_append)

lemma deref_cong [simp]:
  "deref (s\<lparr>rm_manifests := x\<rparr>) a = deref s a" "deref (s\<lparr>rm_signatures := y\<rparr>) a = deref s a"
  "deref (s\<lparr>rm_releases := r\<rparr>) a = deref s a" "deref (s\<lparr>rm_finalised := z\<rparr>) a = deref s a"
  "deref (s\<lparr>rm_publishers := p\<rparr>) a = deref s a"
  by (simp_all add: deref_def)

definition same_rest :: "release_manager \<Rightarrow> release_manager \<Rightarrow> bool" where
  "same_rest s s' \<longleftrightarrow> rm_releases s' = rm_releases s \<and> rm_finalised s' = rm_finalised s \<and>
     rm_signatures s' = rm_signatures s \<and> rm_publishers s' = rm_publishers s"

text \<open>What adding an artifact does: in place when the name is new, on a new list otherwise.\<close>

lemma manifest_add_new:
  assumes "store_ok s" "dict_get (rm_manifests s) version = Some m"
    and "\<forall>x \<in> set (deref s (mf_artifacts m)). ar_name x \<noteq> nm"
  shows "manifest_add env version nm path s =
    (Inr (), s\<lparr>rm_store := (rm_store s)[mf_artifacts m := deref s (mf_artifacts m) @ [new_artifact env nm path]]\<rparr>)"
  using assms by (simp add: manifest_add_def new_artifact_def andthen_def fetch_def)

lemma manifest_add_known:
  assumes "store_ok s" "dict_get (rm_manifests s) version = Some m"
    and "\<exists>x \<in> set (deref s (mf_artifacts m)). ar_name x = nm"
  shows "manifest_add env version nm path s =
    (Inr (), s\<lparr>rm_store := rm_store s @ [filter (\<lambda>x. ar_name x \<noteq> nm) (deref s (mf_artifacts m)) @ [new_artifact env nm path]],
               rm_manifests := dict_set version (m\<lparr>mf_artifacts := length (rm_store s)\<rparr>) (rm_manifests s)\<rparr>)"
  using assms by (simp add: manifest_add_def new_artifact_def andthen_def fetch_def alloc_def deref_def nth_append)

lemma manifest_add_run:
  assumes st: "store_ok s" and m: "dict_get (rm_manifests s) version = Some m"
  shows "\<exists>s'. manifest_add env version nm path s = (Inr (), s') \<and> store_ok s' \<and> same_rest s s' \<and>
    (\<forall>u. artifacts_of s' u = (if u = version
        then Some (filter (\<lambda>x. ar_name x \<noteq> nm) (deref s (mf_artifacts m)) @ [new_artifact env nm path])
        else artifacts_of s u))"
proof (cases "\<exists>x \<in> set (deref s (mf_artifacts m)). ar_name x = nm")
  case True
  note run = manifest_add_known [OF assms True, of env path]
  have bound: "mf_artifacts k < length (rm_store s)" if "dict_get (rm_manifests s) u = Some k" for u k
    using st that unfolding store_ok_def by blast
  have ver: "mf_version m = version" using st m unfolding store_ok_def by blast
  let ?s = "s\<lparr>rm_store := rm_store s @ [filter (\<lambda>x. ar_name x \<noteq> nm) (deref s (mf_artifacts m)) @ [new_artifact env nm path]],
     rm_manifests := dict_set version (m\<lparr>mf_artifacts := length (rm_store s)\<rparr>) (rm_manifests s)\<rparr>"
  have "store_ok ?s"
    using st bound ver unfolding store_ok_def by (auto split: if_splits) (metis less_irrefl less_SucI)+
  moreover have "artifacts_of ?s u = (if u = version
        then Some (filter (\<lambda>x. ar_name x \<noteq> nm) (deref s (mf_artifacts m)) @ [new_artifact env nm path])
        else artifacts_of s u)" for u
    using bound [of u] by (cases "dict_get (rm_manifests s) u") (auto simp: artifacts_of_def deref_alloc)
  moreover have "same_rest s ?s" by (simp add: same_rest_def)
  ultimately show ?thesis using run by blast
next
  case False
  then have new: "\<forall>x \<in> set (deref s (mf_artifacts m)). ar_name x \<noteq> nm" by blast
  note run = manifest_add_new [OF assms new, of env path]
  let ?s = "s\<lparr>rm_store := (rm_store s)[mf_artifacts m := deref s (mf_artifacts m) @ [new_artifact env nm path]]\<rparr>"
  have bound: "mf_artifacts m < length (rm_store s)" using st m unfolding store_ok_def by blast
  have "store_ok ?s" using st unfolding store_ok_def by simp
  moreover have "mf_artifacts k \<noteq> mf_artifacts m" if "dict_get (rm_manifests s) u = Some k" "u \<noteq> version" for u k
    using st m that unfolding store_ok_def by blast
  then have "artifacts_of ?s u = (if u = version
        then Some (filter (\<lambda>x. ar_name x \<noteq> nm) (deref s (mf_artifacts m)) @ [new_artifact env nm path])
        else artifacts_of s u)" for u
    using m new bound
    by (cases "dict_get (rm_manifests s) u") (auto simp: artifacts_of_def deref_update filter_id_conv)
  moreover have "same_rest s ?s" by (simp add: same_rest_def)
  ultimately show ?thesis using run by blast
qed

lemma ensure_manifest_run:
  assumes st: "store_ok s"
  shows "\<exists>s'. ensure_manifest version s = (Inr (), s') \<and> store_ok s' \<and> same_rest s s' \<and>
    (\<exists>m. dict_get (rm_manifests s') version = Some m) \<and>
    (\<forall>u. artifacts_of s' u = (if u = version \<and> artifacts_of s u = None then Some [] else artifacts_of s u))"
proof (cases "dict_get (rm_manifests s) version")
  case None
  let ?s = "s\<lparr>rm_store := rm_store s @ [[]],
     rm_manifests := dict_set version \<lparr>mf_version = version, mf_artifacts = length (rm_store s)\<rparr> (rm_manifests s)\<rparr>"
  have run: "ensure_manifest version s = (Inr (), ?s)"
    using None by (simp add: ensure_manifest_def andthen_def alloc_def)
  have bound: "mf_artifacts k < length (rm_store s)" if "dict_get (rm_manifests s) u = Some k" for u k
    using st that unfolding store_ok_def by blast
  have "store_ok ?s"
    using st bound unfolding store_ok_def by (auto split: if_splits) (metis less_irrefl less_SucI)+
  moreover have "artifacts_of ?s u = (if u = version \<and> artifacts_of s u = None then Some [] else artifacts_of s u)" for u
    using None bound [of u] by (cases "dict_get (rm_manifests s) u") (auto simp: artifacts_of_def deref_alloc)
  moreover have "same_rest s ?s" by (simp add: same_rest_def)
  ultimately show ?thesis using run by fastforce
next
  case (Some m)
  then have "ensure_manifest version s = (Inr (), s)" by (simp add: ensure_manifest_def andthen_def)
  with Some st show ?thesis by (auto simp: same_rest_def artifacts_of_def)
qed

text \<open>The effect on the other versions of a step that adds artifacts to one.\<close>

definition adds_to :: "string \<Rightarrow> release_manager \<Rightarrow> release_manager \<Rightarrow> bool" where
  "adds_to version s s' \<longleftrightarrow> store_ok s' \<and> same_rest s s' \<and>
     (\<forall>u. u \<noteq> version \<longrightarrow> artifacts_of s' u = artifacts_of s u)"

lemma adds_to_trans: "adds_to v s t \<Longrightarrow> adds_to v t u \<Longrightarrow> adds_to v s u"
  by (auto simp: adds_to_def same_rest_def)

lemma add_all_run:
  "store_ok s \<Longrightarrow> dict_get (rm_manifests s) version = Some m \<Longrightarrow>
     \<exists>s'. add_all env version arts s = (Inr (), s') \<and> adds_to version s s'"
proof (induction arts arbitrary: s m)
  case Nil
  then show ?case by (simp add: adds_to_def same_rest_def)
next
  case (Cons p arts)
  obtain nm path where p: "p = (nm, path)" by (cases p)
  obtain s1 where s1: "manifest_add env version nm path s = (Inr (), s1)" "store_ok s1" "same_rest s s1"
    "artifacts_of s1 version \<noteq> None" "\<And>u. u \<noteq> version \<Longrightarrow> artifacts_of s1 u = artifacts_of s u"
    using manifest_add_run [OF Cons.prems, of env nm path] by auto
  then obtain m1 where "dict_get (rm_manifests s1) version = Some m1" by (auto simp: artifacts_of_def)
  from Cons.IH [OF s1(2) this] obtain s2 where s2: "add_all env version arts s1 = (Inr (), s2)" "adds_to version s1 s2"
    by blast
  have "adds_to version s s1" using s1 by (simp add: adds_to_def)
  with s1 s2 p show ?case by (auto intro: adds_to_trans)
qed

lemma build_manifest_run:
  assumes "store_ok s"
  shows "if is_finalised version s
    then build_artifact_manifest env version arts s = (Inl (ReleaseLockedError version), s)
    else \<exists>s'. build_artifact_manifest env version arts s = (Inr (), s') \<and> adds_to version s s'"
proof -
  obtain s1 m where s1: "ensure_manifest version s = (Inr (), s1)" "store_ok s1" "same_rest s s1"
    "dict_get (rm_manifests s1) version = Some m" "\<forall>u. u \<noteq> version \<longrightarrow> artifacts_of s1 u = artifacts_of s u"
    using ensure_manifest_run [OF assms, of version] by auto
  obtain s2 where s2: "add_all env version arts s1 = (Inr (), s2)" "adds_to version s1 s2"
    using add_all_run [OF s1(2,4)] by blast
  have "adds_to version s s1" using s1 by (simp add: adds_to_def)
  then have "adds_to version s s2" using s2(2) by (rule adds_to_trans)
  with s1 s2 show ?thesis by (auto simp: build_artifact_manifest_def andthen_def)
qed

lemma add_artifact_eq: "add_artifact env version nm path = build_artifact_manifest env version [(nm, path)]"
proof -
  have "(\<lambda>_. ret ()) = (ret :: unit \<Rightarrow> unit rmprog)" by (rule ext) simp
  then have "andthen (manifest_add env version nm path) (\<lambda>_. ret ()) = manifest_add env version nm path"
    by (metis andthen_ret)
  then show ?thesis by (simp add: add_artifact_def build_artifact_manifest_def)
qed

section \<open>The manager at work\<close>

datatype rm_op =
    Op_create string "string list" string string
  | Op_rc "int option" "string list"
  | Op_promote string "string list"
  | Op_sign string
  | Op_add string string string
  | Op_build string "(string, string) dict"
  | Op_finalise string
  | Op_publish string string "string list"
  | Op_register string publisher

fun rm_run :: "release_env \<Rightarrow> rm_op \<Rightarrow> unit rmprog" where
  "rm_run env (Op_create v ls b d) = void (create_release env v ls b d)"
| "rm_run env (Op_rc k ls) = void (create_rc env k ls)"
| "rm_run env (Op_promote v ls) = void (promote_to_release env v ls)"
| "rm_run env (Op_sign v) = void (sign_manifest env v)"
| "rm_run env (Op_add v nm path) = add_artifact env v nm path"
| "rm_run env (Op_build v arts) = build_artifact_manifest env v arts"
| "rm_run env (Op_finalise v) = void (finalise v)"
| "rm_run env (Op_publish v n names) = void (publish_release env v n names)"
| "rm_run env (Op_register nm p) = register_publisher nm p"

definition rm_init :: "(string, publisher) dict \<Rightarrow> release_manager" where
  "rm_init ps = \<lparr>rm_releases = [], rm_store = [], rm_manifests = [], rm_signatures = [],
                 rm_finalised = [], rm_publishers = ps\<rparr>"

text \<open>The states a manager gets into, whatever its operations raise.\<close>

definition rm_exec :: "release_env \<Rightarrow> rm_op list \<Rightarrow> release_manager \<Rightarrow> release_manager" where
  "rm_exec env ops s = run_all (map (rm_run env) ops) s"

definition may_add_release :: "release_manager \<Rightarrow> release_manager \<Rightarrow> bool" where
  "may_add_release s s' \<longleftrightarrow> s' = s \<or>
     (\<exists>v e. semver_ok v \<and> rl_version e = sv_str v \<and> get_release (sv_str v) s = None \<and> s' = with_release e s)"

lemma rl_version_build [simp]: "rl_version (build_entry env v cs d) = v"
  by (simp add: build_entry_def)

lemma create_release_final:
  "rel_ok s \<Longrightarrow> may_add_release s (final_state (create_release env version ls bump date) s)"
  unfolding may_add_release_def final_state_def
  by (metis create_release_cases rl_version_build snd_conv)

lemma final_pure_then:
  assumes "m s = (r, s)"
  shows "final_state (andthen m f) s = (case r of Inl _ \<Rightarrow> s | Inr a \<Rightarrow> final_state (f a) s)"
  using assms by (simp add: final_state_def andthen_def split: sum.split)

lemma vlift_pure: "\<exists>r. vlift x s = (r, s)"
  by (cases x) auto

lemma create_rc_final: "rel_ok s \<Longrightarrow> may_add_release s (final_state (create_rc env k ls) s)"
proof -
  assume ok: "rel_ok s"
  obtain l where l: "latest_version s = (Inr l, s)" using latest_version_run [OF ok] by blast
  let ?pick = "\<lambda>l. (case l of
          None \<Rightarrow> andthen (vlift (sv_parse (en_initial_version env))) (\<lambda>version.
              (case k of Some k \<Rightarrow> vlift (SemanticVersion (sv_major version) (sv_minor version) (sv_patch version)
                             (''rc.'' @ show_int k) '''') | None \<Rightarrow> ret version))
        | Some latest \<Rightarrow>
            if \<not> is_rc latest then vlift (as_rc (or_int k 1) latest)
            else vlift (as_rc (or_int k (rc_number latest + 1)) latest))"
  have "\<exists>r. ?pick l s = (r, s)"
    using vlift_pure by (cases "sv_parse (en_initial_version env)") (auto split: option.split)
  then obtain r where r: "?pick l s = (r, s)" by blast
  show ?thesis unfolding create_rc_def
    using create_release_final [OF ok]
    by (simp add: final_pure_then [of latest_version, OF l] final_pure_then [of "?pick l", OF r] may_add_release_def
        split: sum.split)
qed

lemma promote_final: "rel_ok s \<Longrightarrow> may_add_release s (final_state (promote_to_release env v ls) s)"
proof -
  assume ok: "rel_ok s"
  show ?thesis
  proof (cases "sv_parse v")
    case (Inl e)
    then show ?thesis by (simp add: promote_to_release_def may_add_release_def final_state_def andthen_def)
  next
    case (Inr rc)
    then obtain r where r: "vlift (as_release rc) s = (r, s)" using vlift_pure by blast
    have "final_state (promote_to_release env v ls) s =
        (if is_rc rc then (case r of Inl _ \<Rightarrow> s | Inr w \<Rightarrow> final_state (create_release env (sv_str w) ls ''patch'' '''') s)
         else s)"
      using Inr r by (simp add: promote_to_release_def final_state_def andthen_def split: sum.split)
    then show ?thesis using create_release_final [OF ok] by (simp add: may_add_release_def split: sum.split)
  qed
qed

lemma with_release_keeps [simp]:
  "store_ok (with_release e s) = store_ok s" "artifacts_of (with_release e s) = artifacts_of s"
  "is_finalised v (with_release e s) = is_finalised v s"
proof -
  show "artifacts_of (with_release e s) = artifacts_of s"
    by (rule ext) (simp add: artifacts_of_def with_release_def)
qed (simp_all add: store_ok_def with_release_def is_finalised_def)

definition framed :: "release_manager \<Rightarrow> release_manager \<Rightarrow> bool" where
  "framed s s' \<longleftrightarrow> rm_releases s' = rm_releases s \<and> rm_store s' = rm_store s \<and>
     rm_manifests s' = rm_manifests s \<and> set (rm_finalised s) \<subseteq> set (rm_finalised s')"

lemma framed_refl [simp]: "framed s s" by (simp add: framed_def)

lemma keeps_framed: "keeps (framed s) (gets f)" "keeps (framed s) (lift_result r)" "keeps (framed s) (ret a)"
  "keeps (framed s) (register_publisher nm p)"
  by (auto simp: triple_def register_publisher_def framed_def split: sum.split)

lemma publish_to_keeps: "keeps (framed s) (publish_to env version notice names results)"
proof (induction names arbitrary: results)
  case (Cons nm names)
  have known: "keeps (framed s) (case known of Some p \<Rightarrow> ret (Some p) | None \<Rightarrow>
            if en_auto_publish env
            then andthen (lift_result (en_create_publisher env nm)) (\<lambda>p.
                 andthen (register_publisher nm p) (\<lambda>_. ret (Some p)))
            else ret None)" for known
    by (intro triple_option triple_if keeps_framed triple_andthen [OF keeps_framed(2)] triple_andthen [OF keeps_framed(4)])
  have rest: "keeps (framed s) (case pub of None \<Rightarrow> publish_to env version notice names results
      | Some p \<Rightarrow> andthen (gets (artifact_paths version)) (\<lambda>paths.
          andthen (lift_result (p version paths notice)) (\<lambda>res.
            publish_to env version notice names (dict_set nm res results))))" for pub
    by (rule triple_option, rule Cons.IH, (rule triple_andthen, rule keeps_framed)+, rule Cons.IH)
  show ?case unfolding publish_to.simps
    by (rule triple_andthen, rule keeps_framed, rule triple_andthen, rule known, rule rest)
qed (simp add: keeps_framed)

definition rm_ok :: "release_manager \<Rightarrow> bool" where
  "rm_ok s \<longleftrightarrow> rel_ok s \<and> store_ok s"

lemma rm_ok_init: "rm_ok (rm_init ps)"
  by (simp add: rm_ok_def rel_ok_def store_ok_def rm_init_def list_releases_def)

text \<open>One operation keeps the invariant, and the artifacts of a final version.\<close>

definition step_ok :: "release_manager \<Rightarrow> release_manager \<Rightarrow> bool" where
  "step_ok s s' \<longleftrightarrow> rm_ok s' \<and>
     (\<forall>v. is_finalised v s \<longrightarrow> is_finalised v s' \<and> artifacts_of s' v = artifacts_of s v)"

lemma step_ok_release: "rm_ok s \<Longrightarrow> may_add_release s s' \<Longrightarrow> step_ok s s'"
  using rel_ok_with [of s] by (auto simp: step_ok_def rm_ok_def may_add_release_def)

lemma step_ok_frame: "rm_ok s \<Longrightarrow> framed s s' \<Longrightarrow> step_ok s s'"
proof -
  assume ok: "rm_ok s" and fr: "framed s s'"
  have "deref s' = deref s" using fr by (intro ext) (simp add: deref_def framed_def)
  then have "artifacts_of s' = artifacts_of s" using fr by (intro ext) (simp add: artifacts_of_def framed_def)
  moreover have "rm_ok s'" using ok fr by (simp add: rm_ok_def rel_ok_def list_releases_def store_ok_def framed_def)
  ultimately show ?thesis using fr by (auto simp: step_ok_def is_finalised_def framed_def)
qed

lemma step_ok_build: "rm_ok s \<Longrightarrow> step_ok s (final_state (build_artifact_manifest env version arts) s)"
proof -
  assume ok: "rm_ok s"
  then have st: "store_ok s" by (simp add: rm_ok_def)
  show ?thesis
  proof (cases "is_finalised version s")
    case True
    with build_manifest_run [OF st, of version env arts] ok show ?thesis by (simp add: final_state_def step_ok_def)
  next
    case False
    with build_manifest_run [OF st, of version env arts] obtain s' where
      "build_artifact_manifest env version arts s = (Inr (), s')" "adds_to version s s'" by auto
    with ok False show ?thesis
      by (auto simp: final_state_def step_ok_def rm_ok_def adds_to_def same_rest_def rel_ok_def list_releases_def
          is_finalised_def)
  qed
qed

lemma step_ok_run: "rm_ok s \<Longrightarrow> step_ok s (final_state (rm_run env op) s)"
proof (cases op)
  case (Op_publish v n names)
  assume "rm_ok s"
  have "keeps (framed s) (publish_release env v n names)" unfolding publish_release_def
    by (rule triple_andthen, rule keeps_framed, rule publish_to_keeps)
  then have "framed s (final_state (publish_release env v n names) s)" by (rule keepsD) simp
  with \<open>rm_ok s\<close> show ?thesis by (simp add: Op_publish step_ok_frame)
next
  case (Op_sign v)
  assume "rm_ok s"
  have "framed s (final_state (sign_manifest env v) s)"
    by (auto simp: sign_manifest_def final_state_def andthen_def fetch_def framed_def split: option.split)
  with \<open>rm_ok s\<close> show ?thesis by (simp add: Op_sign step_ok_frame)
next
  case (Op_finalise v)
  assume "rm_ok s"
  have "framed s (final_state (finalise v) s)"
    by (auto simp: finalise_def final_state_def andthen_def framed_def split: option.split)
  with \<open>rm_ok s\<close> show ?thesis by (simp add: Op_finalise step_ok_frame)
next
  case (Op_register nm p)
  assume "rm_ok s"
  have "framed s (final_state (register_publisher nm p) s)"
    by (auto simp: register_publisher_def final_state_def framed_def split: option.split)
  with \<open>rm_ok s\<close> show ?thesis by (simp add: Op_register step_ok_frame)
qed (use step_ok_release step_ok_build create_release_final create_rc_final promote_final
      in \<open>auto simp: rm_ok_def add_artifact_eq\<close>)

lemma step_ok_trans: "step_ok s t \<Longrightarrow> step_ok t u \<Longrightarrow> step_ok s u"
  by (simp add: step_ok_def)

lemma step_ok_exec: "rm_ok s \<Longrightarrow> step_ok s (rm_exec env ops s)"
proof (induction ops arbitrary: s)
  case Nil
  then show ?case by (simp add: rm_exec_def run_all_def step_ok_def)
next
  case (Cons op ops)
  let ?t = "final_state (rm_run env op) s"
  have step: "step_ok s ?t" by (rule step_ok_run [OF Cons.prems])
  then have "step_ok ?t (rm_exec env ops ?t)" by (intro Cons.IH) (simp add: step_ok_def)
  then have "step_ok s (rm_exec env ops ?t)" by (rule step_ok_trans [OF step])
  then show ?case by (simp add: rm_exec_def run_all_def)
qed

lemma rm_ok_exec: "rm_ok (rm_exec env ops (rm_init ps))"
  using step_ok_exec [OF rm_ok_init] by (simp add: step_ok_def)

lemma rm_exec_append: "rm_exec env (ops @ ops') s = rm_exec env ops' (rm_exec env ops s)"
  by (simp add: rm_exec_def run_all_def)

lemma rel_ok_order:
  assumes "rel_ok s"
  shows "sorted_wrt (\<lambda>r q. \<exists>a b. sv_parse (rl_version r) = Inr a \<and> sv_parse (rl_version q) = Inr b \<and> \<not> sv_lt b a)
    (rm_releases s)"
proof -
  have "sorted_wrt (\<lambda>r q. release_key r \<le> release_key q) (rm_releases s)"
    using assms by (simp add: rel_ok_def sorted_map)
  then show ?thesis
  proof (rule sorted_wrt_mono_rel [rotated])
    fix r q assume "r \<in> set (rm_releases s)" "q \<in> set (rm_releases s)" and le: "release_key r \<le> release_key q"
    then obtain a b where "semver_ok a" "rl_version r = sv_str a" "semver_ok b" "rl_version q = sv_str b"
      using assms by (meson rel_ok_def)
    with le show "\<exists>a b. sv_parse (rl_version r) = Inr a \<and> sv_parse (rl_version q) = Inr b \<and> \<not> sv_lt b a"
      by (auto simp: release_key_def sv_less_key)
  qed
qed

text \<open>
  Whatever is asked of the manager, in whatever order and with whatever errors: the recorded
  releases all have valid versions, no version is recorded twice, and they stand in the order of
  precedence.
\<close>

theorem releases_in_order:
  "let rs = rm_releases (rm_exec env ops (rm_init ps))
   in distinct (map rl_version rs) \<and>
      sorted_wrt (\<lambda>r q. \<exists>a b. sv_parse (rl_version r) = Inr a \<and> sv_parse (rl_version q) = Inr b \<and> \<not> sv_lt b a) rs"
  using rm_ok_exec [of env ops ps] rel_ok_order by (simp add: Let_def rm_ok_def rel_ok_def list_releases_def)

text \<open>
  C27. A final version is locked: once a version is marked final, no later operation changes its
  artifacts, not even one on another version that shares the store, and the mark is never lost.
\<close>

theorem finalised_locked:
  assumes "is_finalised v (rm_exec env ops (rm_init ps))"
  shows "artifacts_of (rm_exec env (ops @ later) (rm_init ps)) v = artifacts_of (rm_exec env ops (rm_init ps)) v \<and>
    is_finalised v (rm_exec env (ops @ later) (rm_init ps))"
  using step_ok_exec [OF rm_ok_exec [of env ops ps], of env later] assms
  by (simp add: rm_exec_append step_ok_def)

definition demo_release_env :: release_env where
  "demo_release_env = \<lparr>en_mac = (\<lambda>k t. t), en_dumps = (\<lambda>v as. v @ concat (map ar_digest as)),
     en_file = (\<lambda>p. Some (p, 1)), en_today = ''2025-01-01'', en_key = ''k'', en_project = ''p'',
     en_initial_version = ''1.0.0'', en_config_publishers = [], en_auto_publish = False,
     en_create_publisher = (\<lambda>n. Inl (PublishError n))\<rparr>"

lemma demo_semver: "sv_parse ''1.0.0'' = Inr \<lparr>sv_major = 1, sv_minor = 0, sv_patch = 0, sv_prerelease = '''', sv_build = ''''\<rparr>"
proof -
  have [simp]: "show_nat (Suc 0) = ''1''" "show_nat 0 = ''0''" by code_simp+
  show ?thesis by (simp add: version_parse_iff semver_ok_def sv_str_def show_int_def py_strip_def is_space_def)
qed

lemma demo_exec:
  "rm_exec demo_release_env [Op_create ''1.0.0'' [] ''patch'' '''', Op_add ''1.0.0'' ''a'' ''x'', Op_finalise ''1.0.0''] (rm_init [])
   = \<lparr>rm_releases = [\<lparr>rl_version = ''1.0.0'', rl_date = ''2025-01-01'', rl_commits = []\<rparr>],
      rm_store = [[\<lparr>ar_name = ''a'', ar_path = ''x'', ar_digest = ''x'', ar_size = 1\<rparr>]],
      rm_manifests = [(''1.0.0'', \<lparr>mf_version = ''1.0.0'', mf_artifacts = 0\<rparr>)], rm_signatures = [],
      rm_finalised = [''1.0.0''], rm_publishers = []\<rparr>"
proof -
  have str: "sv_str \<lparr>sv_major = 1, sv_minor = 0, sv_patch = 0, sv_prerelease = '''', sv_build = ''''\<rparr> = ''1.0.0''"
    using demo_semver by (simp add: version_parse_iff py_strip_def is_space_def)
  have one: "create_release demo_release_env ''1.0.0'' [] ''patch'' '''' (rm_init []) =
      (Inr \<lparr>rl_version = ''1.0.0'', rl_date = ''2025-01-01'', rl_commits = []\<rparr>,
       (rm_init [])\<lparr>rm_releases := [\<lparr>rl_version = ''1.0.0'', rl_date = ''2025-01-01'', rl_commits = []\<rparr>]\<rparr>)"
    by (simp add: create_release_def demo_semver str andthen_def Let_def get_release_def sort_releases_def list_releases_def
        build_entry_def parse_commits_def map_filter_simps demo_release_env_def rm_init_def)
  have fs: "final_state (create_release demo_release_env ''1.0.0'' [] ''patch'' '''') (rm_init []) =
      (rm_init [])\<lparr>rm_releases := [\<lparr>rl_version = ''1.0.0'', rl_date = ''2025-01-01'', rl_commits = []\<rparr>]\<rparr>"
    by (simp add: final_state_def one)
  have fl: "en_file demo_release_env = (\<lambda>p. Some (p, 1))" by (simp add: demo_release_env_def)
  show ?thesis
    by (simp add: rm_exec_def run_all_def fs)
      (simp add: rm_init_def final_state_def andthen_def Let_def fl
        add_artifact_def is_finalised_def ensure_manifest_def alloc_def manifest_add_def fetch_def deref_def finalise_def
        get_release_def)
qed

theorem finalised_locked_witness:
  "let ops = [Op_create ''1.0.0'' [] ''patch'' '''', Op_add ''1.0.0'' ''a'' ''x'', Op_finalise ''1.0.0''];
       later = [Op_add ''1.0.0'' ''a'' ''y'', Op_add ''2.0.0'' ''a'' ''z'']
   in artifacts_of (rm_exec demo_release_env (ops @ later) (rm_init [])) ''1.0.0'' =
      Some [\<lparr>ar_name = ''a'', ar_path = ''x'', ar_digest = ''x'', ar_size = 1\<rparr>]"
proof -
  let ?ops = "[Op_create ''1.0.0'' [] ''patch'' '''', Op_add ''1.0.0'' ''a'' ''x'', Op_finalise ''1.0.0'']"
  have "is_finalised ''1.0.0'' (rm_exec demo_release_env ?ops (rm_init []))"
    by (simp only: demo_exec) (simp add: is_finalised_def)
  from finalised_locked [OF this, of "[Op_add ''1.0.0'' ''a'' ''y'', Op_add ''2.0.0'' ''a'' ''z'']"]
  show ?thesis unfolding Let_def demo_exec by (simp add: artifacts_of_def deref_def)
qed

section \<open>New releases, signatures and changelog sections\<close>

lemma bump_latest_newer:
  assumes "semver_ok l" "bump \<in> {''major'', ''minor'', ''patch''}" "bump_latest bump l = Inr v"
    and "sv_prerelease l = '''' \<or> sv_prerelease l = ''rc.'' @ show_int k \<and> 0 < k"
  shows "sv_lt l v"
proof -
  have pos: "0 \<le> sv_major l" "0 \<le> sv_minor l" "0 \<le> sv_patch l" using assms(1) by (auto simp: semver_ok_def)
  show ?thesis
  proof (cases "sv_prerelease l = ''''")
    case True
    then have "\<not> is_rc l" by (simp add: is_rc_def)
    then show ?thesis using assms(2,3) pos
      by (auto simp: bump_latest_def sv_next_def bump_major_def bump_minor_def bump_patch_def SemanticVersion_def
          sv_less_key sv_key_def less_pair base_key_def)
  next
    case False
    with assms(4) have l: "sv_prerelease l = ''rc.'' @ show_int k" "0 \<le> k" "0 < k" by auto
    have "is_rc l" "rc_number l = k" using l rc_number_rc [OF l(1,2)] by (simp_all add: is_rc_def)
    then show ?thesis using assms(2,3) pos l
      by (auto simp: bump_latest_def sv_next_def bump_major_def bump_minor_def as_rc_def SemanticVersion_def
          sv_less_key sv_key_def less_pair base_key_def pre_key_rc [where k = k] pre_key_rc [where k = "k + 1"])
  qed
qed

text \<open>
  A release made without giving a version is the newest one: after a stable release or a numbered
  candidate, a major, minor or patch release is put at the end of the history, and every earlier
  release precedes it.
\<close>

theorem default_release_newest:
  assumes "rm_ok s" and "latest_version s = (Inr (Some l), s)"
    and "sv_prerelease l = '''' \<or> sv_prerelease l = ''rc.'' @ show_int k \<and> 0 < k"
    and "bump \<in> {''major'', ''minor'', ''patch''}"
    and "create_release env '''' ls bump date s = (Inr e, s')"
  shows "rm_releases s' = rm_releases s @ [e] \<and> (\<exists>v. sv_parse (rl_version e) = Inr v \<and> sv_lt l v)"
proof -
  have ok: "rel_ok s" using assms(1) by (simp add: rm_ok_def)
  note l = latest_semver_ok [OF ok assms(2)]
  from create_release_cases [OF ok, of env "''''" ls bump date] assms(5) obtain v where
    v: "semver_ok v" "next_version env bump s = (Inr v, s)" and e: "e = build_entry env (sv_str v) (parse_commits ls) date"
    and s': "s' = with_release e s" by auto
  have "bump_latest bump l = Inr v"
    using v(2) assms(2) by (cases "bump_latest bump l") (auto simp: next_version_def)
  then have lt: "sv_lt l v" using bump_latest_newer [of l bump v k] l assms(3,4) by blast
  have key: "release_key e = sv_key v" using v(1) by (simp add: e release_key_def)
  have le: "\<forall>r \<in> set (rm_releases s). release_key r \<le> release_key e"
    using l lt key by (auto simp: sv_less_key intro: order.trans less_imp_le)
  have "sorted (map release_key (rm_releases s @ [e]))" using ok le by (simp add: rel_ok_def sorted_append)
  then have "rm_releases s' = rm_releases s @ [e]" by (simp add: s' with_release_def sort_key_id_if_sorted)
  then show ?thesis using v(1) lt by (simp add: e)
qed

theorem default_release_newest_witness:
  "let s = rm_exec demo_release_env [Op_create ''1.0.0'' [] ''patch'' '''', Op_add ''1.0.0'' ''a'' ''x'', Op_finalise ''1.0.0''] (rm_init [])
   in \<exists>e s'. create_release demo_release_env '''' [] ''minor'' '''' s = (Inr e, s') \<and> rm_releases s' = rm_releases s @ [e]"
proof -
  let ?ops = "[Op_create ''1.0.0'' [] ''patch'' '''', Op_add ''1.0.0'' ''a'' ''x'', Op_finalise ''1.0.0'']"
  define s where "s = rm_exec demo_release_env ?ops (rm_init [])"
  define l where "l = \<lparr>sv_major = 1, sv_minor = 0, sv_patch = 0, sv_prerelease = '''', sv_build = ''''\<rparr>"
  have ok: "rm_ok s" unfolding s_def by (rule rm_ok_exec)
  have rel: "rm_releases s = [\<lparr>rl_version = ''1.0.0'', rl_date = ''2025-01-01'', rl_commits = []\<rparr>]"
    unfolding s_def demo_exec by simp
  have lat: "latest_version s = (Inr (Some l), s)"
    by (simp add: latest_version_def andthen_def list_releases_def rel demo_semver max_version_def l_def)
  define v where "v = \<lparr>sv_major = 1, sv_minor = 1, sv_patch = 0, sv_prerelease = '''', sv_build = ''''\<rparr>"
  have nxt: "next_version demo_release_env ''minor'' s = (Inr v, s)"
    by (simp add: next_version_def lat l_def v_def bump_latest_def is_rc_def sv_next_def bump_minor_def SemanticVersion_def)
  have "semver_ok v" by (simp add: v_def semver_ok_def)
  have "sv_str v \<noteq> ''1.0.0''"
  proof
    assume "sv_str v = ''1.0.0''"
    with \<open>semver_ok v\<close> have "sv_parse ''1.0.0'' = Inr v" by (metis sv_parse_str)
    then show False by (simp add: demo_semver v_def)
  qed
  then have new: "get_release (sv_str v) s = None" by (auto simp: get_release_def rel)
  have rok: "rel_ok s" using ok by (simp add: rm_ok_def)
  have "\<exists>e s'. create_release demo_release_env '''' [] ''minor'' '''' s = (Inr e, s')"
    using create_release_run [OF rok, of "''''" demo_release_env "''minor''" v "[]" "''''"] nxt new \<open>semver_ok v\<close> by simp
  then obtain e s' where run: "create_release demo_release_env '''' [] ''minor'' '''' s = (Inr e, s')" by blast
  have "sv_prerelease l = '''' \<or> sv_prerelease l = ''rc.'' @ show_int 1 \<and> (0 :: int) < 1" by (simp add: l_def)
  from default_release_newest [OF ok lat this _ run] run show ?thesis unfolding s_def [symmetric] Let_def by simp
qed

text \<open>
  A signature covers the list that was signed. Adding an artifact with a new name changes that list
  in place, and the verification compares the signatures of the two lists; an artifact that takes
  the place of another is put on a new list, which the signature knows nothing of, and the
  verification of the version still succeeds.
\<close>

lemma added_artifact_compared:
  assumes "store_ok s" "dict_get (rm_manifests s) v = Some m" "sign_manifest env v s = (Inr sg, s1)"
    and "\<forall>x \<in> set (deref s (mf_artifacts m)). ar_name x \<noteq> nm"
    and "manifest_add env v nm path s1 = (Inr (), s2)"
  shows "verify_manifest env v s2 \<longleftrightarrow>
    en_mac env (en_key env) (en_dumps env v (deref s (mf_artifacts m) @ [new_artifact env nm path])) =
    en_mac env (en_key env) (en_dumps env v (deref s (mf_artifacts m)))"
proof -
  have m: "mf_artifacts m < length (rm_store s)" "mf_version m = v" using assms(1,2) unfolding store_ok_def by blast+
  have s1: "s1 = s\<lparr>rm_signatures := dict_set v sg (rm_signatures s)\<rparr>"
    and sg: "sg = \<lparr>rs_version = v, rs_artifacts = mf_artifacts m,
      rs_signature = en_mac env (en_key env) (en_dumps env v (deref s (mf_artifacts m)))\<rparr>"
    using assms(2,3) m by (auto simp: sign_manifest_def andthen_def fetch_def)
  have st: "store_ok s1" using assms(1) by (simp add: s1 store_ok_def)
  have "manifest_add env v nm path s1 =
      (Inr (), s1\<lparr>rm_store := (rm_store s1)[mf_artifacts m := deref s1 (mf_artifacts m) @ [new_artifact env nm path]]\<rparr>)"
    using assms(2,4) by (intro manifest_add_new [OF st]) (simp_all add: s1)
  with assms(5) have s2: "s2 = s1\<lparr>rm_store := (rm_store s1)[mf_artifacts m := deref s1 (mf_artifacts m) @ [new_artifact env nm path]]\<rparr>"
    by simp
  have "deref s2 (mf_artifacts m) = deref s (mf_artifacts m) @ [new_artifact env nm path]"
    unfolding s2 using m by (simp add: s1 deref_def)
  then show ?thesis using assms(2) by (simp add: verify_manifest_def signer_verify_def s2 s1 sg)
qed

theorem replaced_artifact_verifies:
  assumes "store_ok s" "dict_get (rm_manifests s) v = Some m" "sign_manifest env v s = (Inr sg, s1)"
    and "\<exists>x \<in> set (deref s (mf_artifacts m)). ar_name x = nm"
    and "manifest_add env v nm path s1 = (Inr (), s2)"
  shows "verify_manifest env v s2 \<and> artifacts_of s2 v =
    Some (filter (\<lambda>x. ar_name x \<noteq> nm) (deref s (mf_artifacts m)) @ [new_artifact env nm path])"
proof -
  have m: "mf_artifacts m < length (rm_store s)" "mf_version m = v" using assms(1,2) unfolding store_ok_def by blast+
  have s1: "s1 = s\<lparr>rm_signatures := dict_set v sg (rm_signatures s)\<rparr>"
    and sg: "sg = \<lparr>rs_version = v, rs_artifacts = mf_artifacts m,
      rs_signature = en_mac env (en_key env) (en_dumps env v (deref s (mf_artifacts m)))\<rparr>"
    using assms(2,3) m by (auto simp: sign_manifest_def andthen_def fetch_def)
  have st: "store_ok s1" using assms(1) by (simp add: s1 store_ok_def)
  let ?xs = "filter (\<lambda>x. ar_name x \<noteq> nm) (deref s (mf_artifacts m)) @ [new_artifact env nm path]"
  have "manifest_add env v nm path s1 = (Inr (), s1\<lparr>rm_store := rm_store s1 @ [?xs],
      rm_manifests := dict_set v (m\<lparr>mf_artifacts := length (rm_store s1)\<rparr>) (rm_manifests s1)\<rparr>)"
    using assms(2,4) manifest_add_known [OF st, of v m nm env path] by (simp add: s1)
  with assms(5) have s2: "s2 = s1\<lparr>rm_store := rm_store s1 @ [?xs],
      rm_manifests := dict_set v (m\<lparr>mf_artifacts := length (rm_store s1)\<rparr>) (rm_manifests s1)\<rparr>" by simp
  have "deref s2 (mf_artifacts m) = deref s (mf_artifacts m)" "deref s2 (length (rm_store s)) = ?xs"
    unfolding s2 using m by (simp_all add: s1 deref_def nth_append)
  then show ?thesis by (simp add: verify_manifest_def signer_verify_def artifacts_of_def s2 s1 sg)
qed

lemma commit_section_known: "commit_section c \<in> fst ` set section_order"
  by (auto simp: commit_section_def type_to_section_def section_order_def dict_get_or_def)

text \<open>Every section of a release lists the commits of its kind in their order, and every commit has a section.\<close>

theorem sections_exact:
  "map (dict_get (release_sections r)) (map fst section_order) =
     map (\<lambda>key. Some (filter (\<lambda>c. commit_section c = key) (rl_commits r))) (map fst section_order) \<and>
   list_all (\<lambda>c. commit_section c \<in> fst ` set section_order) (rl_commits r)"
proof -
  let ?f = "\<lambda>c d. dict_set (commit_section c) (dict_get_or d (commit_section c) [] @ [c]) d"
  let ?d = "map (\<lambda>(key, label). (key, [])) section_order :: (string, commit_entry list) dict"
  have base: "dict_get ?d k = (if k \<in> fst ` set section_order then Some [] else None)" for k
    by (auto simp: section_order_def)
  have "dict_get (fold ?f cs ?d) k = Some (filter (\<lambda>c. commit_section c = k) cs)" if "k \<in> fst ` set section_order" for cs k
  proof (induction cs rule: rev_induct)
    case (snoc c cs)
    then show ?case using that by (auto simp: dict_get_or_def)
  qed (use that base in simp)
  then show ?thesis using commit_section_known by (auto simp: release_sections_def list_all_iff section_order_def)
qed

end
