(* ===== verification/Plugins.thy ===== *)
theory Plugins
  imports Versions Json
begin

text \<open>
  The parts of the plugin framework (\<open>app/plugins/\<close>) that the plugin manager is made of: the permission
  store (\<open>permissions.py\<close>), the registry of extensions (\<open>registry.py\<close>), the hook system (\<open>hooks.py\<close>),
  the event bus (\<open>app/event_bus.py\<close>, \<open>events.py\<close>), the validation of manifests (\<open>validation.py\<close>), the
  signatures (\<open>signing.py\<close>) and the catalogue of the marketplace (\<open>marketplace.py\<close>). A manifest is a
  dictionary of JSON values; a listener or handler is known by a number, which stands for the identity
  of the callable, and what it answers is a parameter.
\<close>

section \<open>Permissions\<close>

type_synonym grants = "(string, (string, string set) dict) dict"

definition perm_grant :: "string \<Rightarrow> string \<Rightarrow> string list \<Rightarrow> grants \<Rightarrow> grants" where
  "perm_grant plugin resource actions g =
     (let acts = (if actions = [] then [''*''] else actions);
          bucket = dict_get_or g plugin [];
          old = dict_get_or bucket resource {}
      in dict_set plugin (dict_set resource (old \<union> set acts) bucket) g)"

definition perm_revoke :: "string \<Rightarrow> string option \<Rightarrow> string option \<Rightarrow> grants \<Rightarrow> grants \<times> bool" where
  "perm_revoke plugin resource action g =
     (case dict_get g plugin of
        None \<Rightarrow> (g, False)
      | Some bucket \<Rightarrow>
         (case resource of
            None \<Rightarrow> (dict_pop plugin g, True)
          | Some r \<Rightarrow>
             (case dict_get bucket r of
                None \<Rightarrow> (g, False)
              | Some acts \<Rightarrow>
                 (case action of
                    None \<Rightarrow> (dict_set plugin (dict_pop r bucket) g, True)
                  | Some a \<Rightarrow>
                      (if acts - {a} = {} then (dict_set plugin (dict_pop r bucket) g, True)
                       else (dict_set plugin (dict_set r (acts - {a}) bucket) g, True))))))"

definition perm_check :: "grants \<Rightarrow> string \<Rightarrow> string \<Rightarrow> string \<Rightarrow> bool" where
  "perm_check g plugin resource action =
     (let actions = dict_get_or (dict_get_or g plugin []) resource {}
      in ''*'' \<in> actions \<or> action \<in> actions)"

definition perm_permissions :: "grants \<Rightarrow> string \<Rightarrow> (string \<times> string list) list" where
  "perm_permissions g plugin = map (\<lambda>(r, acts). (r, sorted_list_of_set acts)) (dict_get_or g plugin [])"

text \<open>The entries of a validated manifest: a resource and a list of actions.\<close>

definition str_items :: "json \<Rightarrow> string list" where
  "str_items j = (case j of JList xs \<Rightarrow> List.map_filter (\<lambda>x. case x of JStr s \<Rightarrow> Some s | _ \<Rightarrow> None) xs | _ \<Rightarrow> [])"

definition perm_entry :: "json \<Rightarrow> (string \<times> string list) option" where
  "perm_entry j =
     (case j of
        JObj d \<Rightarrow> (case dict_get d ''resource'' of
                     Some (JStr r) \<Rightarrow> if r = '''' then None
                                       else Some (r, str_items (dict_get_or d ''actions'' JNull))
                   | _ \<Rightarrow> None)
      | _ \<Rightarrow> None)"

definition grant_from_manifest :: "string \<Rightarrow> json list \<Rightarrow> grants \<Rightarrow> grants" where
  "grant_from_manifest plugin ps g =
     fold (\<lambda>j h. case perm_entry j of None \<Rightarrow> h | Some (r, as) \<Rightarrow> perm_grant plugin r as h) ps g"

section \<open>Extensions\<close>

datatype extension_kind =
  EK_TOOL | EK_ROUTE | EK_MCP_PROVIDER | EK_LLM_PROVIDER | EK_EMBEDDING_MODEL | EK_SCHEDULER
| EK_CLI_COMMAND | EK_EVENT_LISTENER

record extension =
  ex_kind :: extension_kind
  ex_name :: string
  ex_handler :: nat
  ex_plugin :: string

type_synonym extensions = "(extension_kind, (string, extension) dict) dict"

datatype plugin_error =
    PluginNotFoundError string
  | PluginAlreadyInstalledError string
  | PluginInstallError string
  | PluginUninstallError string
  | PluginInvalidError string
  | PluginSandboxViolationError string
  | PluginSignatureError string
  | PluginUpgradeError string
  | PluginRollbackError string
  | PluginCompatibilityError string
  | PluginPermissionDeniedError string string string
  | PluginMarketplaceError string
  | PluginRatingError int
  | PluginLifecycleErr string
  | ExtensionAlreadyRegisteredError extension_kind string
  | ExtensionNotFoundError extension_kind string
  | PluginRaised string
  | ValueErrorP string
  | TypeErrorP string
  | KeyErrorP string
  | FileError string

definition check_or_raise :: "grants \<Rightarrow> string \<Rightarrow> string \<Rightarrow> string \<Rightarrow> plugin_error + unit" where
  "check_or_raise g plugin resource action =
     (if \<not> perm_check g plugin resource action then Inl (PluginPermissionDeniedError plugin resource action)
      else Inr ())"

definition ext_register :: "extension \<Rightarrow> extensions \<Rightarrow> plugin_error + extensions" where
  "ext_register e x =
     (let bucket = dict_get_or x (ex_kind e) []
      in if dict_has bucket (ex_name e) then Inl (ExtensionAlreadyRegisteredError (ex_kind e) (ex_name e))
         else Inr (dict_set (ex_kind e) (dict_set (ex_name e) e bucket) x))"

definition ext_unregister :: "extension_kind \<Rightarrow> string \<Rightarrow> extensions \<Rightarrow> extensions \<times> bool" where
  "ext_unregister kind nm x =
     (let bucket = dict_get_or x kind []
      in if \<not> dict_has bucket nm then (x, False)
         else let rest = dict_pop nm bucket
              in (if rest = [] then dict_pop kind x else dict_set kind rest x, True))"

text \<open>\<open>unregister_plugin\<close> empties the buckets in place and drops the empty ones.\<close>

definition ext_unregister_plugin :: "string \<Rightarrow> extensions \<Rightarrow> extensions \<times> nat" where
  "ext_unregister_plugin plugin x =
     (let left = map (\<lambda>(k, b). (k, filter (\<lambda>(n, e). ex_plugin e \<noteq> plugin) b)) x
      in (filter (\<lambda>(k, b). b \<noteq> []) left,
          sum_list (map (\<lambda>(k, b). length (filter (\<lambda>(n, e). ex_plugin e = plugin) b)) x)))"

definition ext_get :: "extension_kind \<Rightarrow> string \<Rightarrow> extensions \<Rightarrow> plugin_error + extension" where
  "ext_get kind nm x =
     (case dict_get (dict_get_or x kind []) nm of
        None \<Rightarrow> Inl (ExtensionNotFoundError kind nm)
      | Some e \<Rightarrow> Inr e)"

definition ext_get_or_none :: "extension_kind \<Rightarrow> string \<Rightarrow> extensions \<Rightarrow> extension option" where
  "ext_get_or_none kind nm x = dict_get (dict_get_or x kind []) nm"

definition ext_list :: "extension_kind option \<Rightarrow> extensions \<Rightarrow> extension list" where
  "ext_list kind x =
     (case kind of
        None \<Rightarrow> concat (map (\<lambda>(k, b). map snd b) x)
      | Some k \<Rightarrow> map snd (dict_get_or x k []))"

definition ext_list_by_plugin :: "string \<Rightarrow> extensions \<Rightarrow> extension list" where
  "ext_list_by_plugin plugin x = filter (\<lambda>e. ex_plugin e = plugin) (concat (map (\<lambda>(k, b). map snd b) x))"

definition ext_count :: "extensions \<Rightarrow> nat" where
  "ext_count x = sum_list (map (\<lambda>(k, b). length b) x)"

definition ext_count_by_kind :: "extensions \<Rightarrow> (extension_kind, nat) dict" where
  "ext_count_by_kind x = map (\<lambda>(k, b). (k, length b)) x"

section \<open>Hooks\<close>

type_synonym hooks = "(string, (string \<times> nat) list) dict"

definition hook_register :: "string \<Rightarrow> nat \<Rightarrow> string \<Rightarrow> hooks \<Rightarrow> hooks" where
  "hook_register hook listener plugin h = dict_set hook (dict_get_or h hook [] @ [(plugin, listener)]) h"

fun remove_first :: "('a \<Rightarrow> bool) \<Rightarrow> 'a list \<Rightarrow> 'a list" where
  "remove_first P [] = []"
| "remove_first P (x # xs) = (if P x then xs else x # remove_first P xs)"

definition hook_unregister :: "string \<Rightarrow> nat \<Rightarrow> hooks \<Rightarrow> hooks \<times> bool" where
  "hook_unregister hook listener h =
     (let ls = dict_get_or h hook []
      in if \<exists>p \<in> set ls. snd p = listener
         then (dict_set hook (remove_first (\<lambda>p. snd p = listener) ls) h, True)
         else (h, False))"

definition hook_unregister_plugin :: "string \<Rightarrow> hooks \<Rightarrow> hooks \<times> nat" where
  "hook_unregister_plugin plugin h =
     (filter (\<lambda>(k, ls). ls \<noteq> []) (map (\<lambda>(k, ls). (k, filter (\<lambda>p. fst p \<noteq> plugin) ls)) h),
      sum_list (map (\<lambda>(k, ls). length ls - length (filter (\<lambda>p. fst p \<noteq> plugin) ls)) h))"

definition hook_listeners :: "hooks \<Rightarrow> string \<Rightarrow> (string \<times> nat) list" where
  "hook_listeners h hook = dict_get_or h hook []"

datatype listener_output =
    Other_output
  | Hook_output bool string "(string, json) dict"
  | Listener_raises string

record plugin_hook_result =
  hr_should_cancel :: bool
  hr_cancel_reason :: string
  hr_payload :: "(string, json) dict"

text \<open>The loop of \<open>dispatch\<close>; \<open>run\<close> is what a listener answers to the arguments.\<close>

fun dispatch_loop ::
  "(nat \<Rightarrow> listener_output) \<Rightarrow> string set option \<Rightarrow> (string \<times> nat) list \<Rightarrow> plugin_hook_result \<Rightarrow> plugin_hook_result" where
  "dispatch_loop run plugins [] result = result"
| "dispatch_loop run plugins ((plugin, listener) # rest) result =
     (if (case plugins of None \<Rightarrow> False | Some ps \<Rightarrow> plugin \<noteq> '''' \<and> plugin \<notin> ps)
      then dispatch_loop run plugins rest result
      else (case run listener of
              Other_output \<Rightarrow> dispatch_loop run plugins rest result
            | Listener_raises msg \<Rightarrow> dispatch_loop run plugins rest result
            | Hook_output cancel reason payload \<Rightarrow>
                (let result1 = result\<lparr>hr_payload := fold (\<lambda>(k, v). dict_set k v) payload (hr_payload result)\<rparr>
                 in if cancel
                    then result1\<lparr>hr_should_cancel := True,
                                 hr_cancel_reason := (if reason \<noteq> '''' then reason
                                   else ''cancelled by '' @ (if plugin \<noteq> '''' then plugin else ''listener''))\<rparr>
                    else dispatch_loop run plugins rest result1)))"

definition hook_dispatch :: "(nat \<Rightarrow> listener_output) \<Rightarrow> string set option \<Rightarrow> string \<Rightarrow> hooks \<Rightarrow> plugin_hook_result" where
  "hook_dispatch run plugins hook h =
     dispatch_loop run plugins (hook_listeners h hook)
       \<lparr>hr_should_cancel = False, hr_cancel_reason = '''', hr_payload = []\<rparr>"

section \<open>Events\<close>

record event_bus =
  eb_subscribers :: "(string, nat list) dict"
  eb_history :: "(string \<times> (string, json) dict) list"
  eb_max_history :: nat

text \<open>The subscribers are a \<open>defaultdict\<close>: looking an event up files an empty list under it.\<close>

definition bus_subscribe :: "string \<Rightarrow> nat \<Rightarrow> event_bus \<Rightarrow> event_bus" where
  "bus_subscribe event handler b =
     (let hs = dict_get_or (eb_subscribers b) event []
      in b\<lparr>eb_subscribers := dict_set event (if handler \<in> set hs then hs else hs @ [handler]) (eb_subscribers b)\<rparr>)"

definition bus_unsubscribe :: "string \<Rightarrow> nat \<Rightarrow> event_bus \<Rightarrow> event_bus" where
  "bus_unsubscribe event handler b =
     (let hs = dict_get_or (eb_subscribers b) event []
      in if handler \<in> set hs
         then b\<lparr>eb_subscribers := dict_set event (remove_first (\<lambda>h. h = handler) hs) (eb_subscribers b)\<rparr>
         else b)"

definition bus_emit ::
  "(nat \<Rightarrow> string + json) \<Rightarrow> string \<Rightarrow> (string, json) dict \<Rightarrow> event_bus \<Rightarrow> event_bus \<times> json list" where
  "bus_emit run event data b =
     (let h = eb_history b @ [(event, data)];
          h' = (if eb_max_history b < length h then tl h else h)
      in (b\<lparr>eb_history := h'\<rparr>,
          List.map_filter (\<lambda>x. case run x of Inr v \<Rightarrow> Some v | Inl _ \<Rightarrow> None)
            (dict_get_or (eb_subscribers b) event [])))"

definition emit_plugin_event ::
  "(nat \<Rightarrow> string + json) \<Rightarrow> string \<Rightarrow> string \<Rightarrow> (string, json) dict \<Rightarrow> event_bus \<Rightarrow> event_bus \<times> json list" where
  "emit_plugin_event run event plugin data b =
     bus_emit run event (if plugin \<noteq> '''' then dict_set ''plugin'' (JStr plugin) data else data) b"

definition bus_get_history :: "nat \<Rightarrow> event_bus \<Rightarrow> (string \<times> (string, json) dict) list" where
  "bus_get_history limit b = (if limit = 0 then eb_history b else last_n limit (eb_history b))"

section \<open>Manifests\<close>

datatype manifest_issue =
    Missing_field string
  | Invalid_name json
  | Invalid_version json
  | Invalid_entry json
  | Permissions_no_list
  | Permission_no_mapping nat
  | Unknown_resource nat json
  | Invalid_actions nat json
  | Signature_no_string

text \<open>\<open>^[a-z0-9][a-z0-9_.-]{0,63}$\<close> and \<open>^[A-Za-z_][A-Za-z0-9_]*$\<close>; the end also matches before a last newline.\<close>

definition to_end :: "(string \<Rightarrow> bool) \<Rightarrow> string \<Rightarrow> bool" where
  "to_end P s \<longleftrightarrow> P s \<or> (case without_newline s of Some q \<Rightarrow> P q | None \<Rightarrow> False)"

definition name_pattern :: "string \<Rightarrow> bool" where
  "name_pattern = to_end (\<lambda>s. s \<noteq> '''' \<and> length s \<le> 64 \<and>
     (is_digit (hd s) \<or> of_char (hd s) \<in> {97..122 :: nat}) \<and>
     list_all (\<lambda>c. is_digit c \<or> of_char c \<in> {97..122 :: nat} \<or> c \<in> {CHR ''_'', CHR ''.'', CHR ''-''}) s)"

definition entry_pattern :: "string \<Rightarrow> bool" where
  "entry_pattern = to_end (\<lambda>s. s \<noteq> '''' \<and> \<not> is_digit (hd s) \<and>
     list_all (\<lambda>c. is_digit c \<or> of_char c \<in> {65..90} \<union> {97..122 :: nat} \<or> c = CHR ''_'') s)"

definition permission_resources :: "string list" where
  "permission_resources = [''filesystem'', ''network'', ''process'', ''event_bus'', ''provider'', ''secrets'']"

definition permission_actions :: "string list" where
  "permission_actions = [''read'', ''write'', ''execute'', ''listen'', ''emit'', ''call'', ''access'']"

fun hashable :: "json \<Rightarrow> bool" where
  "hashable (JList xs) = False"
| "hashable (JObj d) = False"
| "hashable j = True"

definition str_with :: "(string \<Rightarrow> bool) \<Rightarrow> json \<Rightarrow> bool" where
  "str_with P j = (case j of JStr s \<Rightarrow> P s | _ \<Rightarrow> False)"

text \<open>One entry of the permissions; asking a set for an unhashable value raises.\<close>

definition validate_permission :: "nat \<Rightarrow> json \<Rightarrow> plugin_error + manifest_issue list" where
  "validate_permission index permission =
     (case permission of
        JObj d \<Rightarrow>
          (let resource = dict_get_or d ''resource'' JNull;
               actions = dict_get_or d ''actions'' (JList [])
           in if \<not> hashable resource then Inl (TypeErrorP ''unhashable type'')
              else bind_result
                (case actions of
                   JList as \<Rightarrow>
                     if as = [] then Inr [Invalid_actions index actions]
                     else if \<not> list_all hashable as then Inl (TypeErrorP ''unhashable type'')
                     else Inr (if list_all (str_with (\<lambda>a. a \<in> set permission_actions)) as then []
                               else [Invalid_actions index actions])
                 | _ \<Rightarrow> Inr [Invalid_actions index actions])
                (\<lambda>more_issues. Inr ((if str_with (\<lambda>r. r \<in> set permission_resources) resource then []
                         else [Unknown_resource index resource]) @ more_issues)))
      | _ \<Rightarrow> Inr [Permission_no_mapping index])"

fun validate_permissions :: "nat \<Rightarrow> json list \<Rightarrow> plugin_error + manifest_issue list" where
  "validate_permissions index [] = Inr []"
| "validate_permissions index (p # ps) =
     bind_result (validate_permission index p) (\<lambda>a.
       bind_result (validate_permissions (Suc index) ps) (\<lambda>b. Inr (a @ b)))"

definition required_fields :: "string list" where
  "required_fields = [''name'', ''version'', ''entry'']"

definition manifest_validate :: "(string, json) dict \<Rightarrow> plugin_error + manifest_issue list" where
  "manifest_validate spec =
     (let missing = map Missing_field (filter (\<lambda>f. \<not> dict_has spec f) required_fields);
          nm = dict_get_or spec ''name'' (JStr '''');
          version = dict_get_or spec ''version'' (JStr '''');
          entry = dict_get_or spec ''entry'' (JStr '''');
          heads = missing @ (if str_with name_pattern nm then [] else [Invalid_name nm]) @
                  (if str_with is_valid_version version then [] else [Invalid_version version]) @
                  (if str_with entry_pattern entry then [] else [Invalid_entry entry])
      in bind_result
           (case dict_get_or spec ''permissions'' (JList []) of
              JList ps \<Rightarrow> validate_permissions 0 ps
            | _ \<Rightarrow> Inr [Permissions_no_list])
           (\<lambda>perms. Inr (heads @ perms @
              (case dict_get spec ''signature'' of
                 None \<Rightarrow> [] | Some j \<Rightarrow> if str_with (\<lambda>s. True) j then [] else [Signature_no_string]))))"

definition validate_or_raise :: "(string, json) dict \<Rightarrow> plugin_error + unit" where
  "validate_or_raise spec =
     bind_result (manifest_validate spec) (\<lambda>errors.
       if errors \<noteq> [] then Inl (PluginInvalidError ''manifest'') else Inr ())"

text \<open>The truth value of a JSON value.\<close>

fun truthy :: "json \<Rightarrow> bool" where
  "truthy JNull = False"
| "truthy (JBool b) = b"
| "truthy (JNum x) = (x \<noteq> 0)"
| "truthy (JStr s) = (s \<noteq> '''')"
| "truthy (JList xs) = (xs \<noteq> [])"
| "truthy (JObj d) = (d \<noteq> [])"

datatype compat_issue =
    Requires_router string
  | Tags_no_list
  | Marked_deprecated
  | Too_many_extensions nat

record compat_checker =
  cc_router_version :: string
  cc_max_extensions :: nat

text \<open>\<open>"deprecated" in tags\<close>: a member of a list, a part of a string, a key of a mapping.\<close>

definition has_tag :: "string \<Rightarrow> json \<Rightarrow> plugin_error + bool" where
  "has_tag t tags =
     (case tags of
        JList xs \<Rightarrow> Inr (JStr t \<in> set xs)
      | JStr s \<Rightarrow> Inr (contains_str t s)
      | JObj d \<Rightarrow> Inr (dict_has d t)
      | _ \<Rightarrow> Inl (TypeErrorP ''not iterable''))"

definition compat_check :: "compat_checker \<Rightarrow> (string, json) dict \<Rightarrow> nat \<Rightarrow> plugin_error + compat_issue list" where
  "compat_check cc spec extension_count =
     (let requires = dict_get_or spec ''requires_router'' (JStr '''');
          tags = dict_get_or spec ''tags'' (JList [])
      in bind_result
           (if \<not> truthy requires then Inr []
            else (case requires of
                    JStr r \<Rightarrow> (case version_meets (cc_router_version cc) r of
                                 None \<Rightarrow> Inl (ValueErrorP r)
                               | Some ok \<Rightarrow> Inr (if ok then [] else [Requires_router r]))
                  | _ \<Rightarrow> Inl (TypeErrorP ''strip'')))
           (\<lambda>reqs. bind_result (has_tag ''deprecated'' tags) (\<lambda>dep.
              Inr (reqs @ (case tags of JList _ \<Rightarrow> [] | _ \<Rightarrow> [Tags_no_list]) @
                   (if dep then [Marked_deprecated] else []) @
                   (if extension_count \<noteq> 0 \<and> cc_max_extensions cc < extension_count
                    then [Too_many_extensions extension_count] else [])))))"

definition compat_check_or_raise :: "compat_checker \<Rightarrow> (string, json) dict \<Rightarrow> nat \<Rightarrow> plugin_error + unit" where
  "compat_check_or_raise cc spec extension_count =
     bind_result (compat_check cc spec extension_count) (\<lambda>issues.
       if issues \<noteq> [] then Inl (PluginCompatibilityError ''manifest'') else Inr ())"

section \<open>Signatures\<close>

text \<open>The keyed hash (in hexadecimal) and \<open>canonical_json\<close> are parameters.\<close>

record sign_env =
  sn_mac :: "string \<Rightarrow> string \<Rightarrow> string"
  sn_canonical_json :: "(string, json) dict \<Rightarrow> string"

definition unsigned :: "(string, json) dict \<Rightarrow> (string, json) dict" where
  "unsigned payload = dict_pop ''signature'' payload"

definition sign_payload :: "sign_env \<Rightarrow> (string, json) dict \<Rightarrow> string \<Rightarrow> string" where
  "sign_payload se payload secret = sn_mac se secret (sn_canonical_json se (unsigned payload))"

definition verify_payload :: "sign_env \<Rightarrow> (string, json) dict \<Rightarrow> string \<Rightarrow> string \<Rightarrow> bool" where
  "verify_payload se payload digest secret \<longleftrightarrow>
     secret \<noteq> '''' \<and> digest \<noteq> '''' \<and> sn_mac se secret (sn_canonical_json se (unsigned payload)) = digest"

definition verify_or_raise :: "sign_env \<Rightarrow> (string, json) dict \<Rightarrow> string \<Rightarrow> string \<Rightarrow> plugin_error + unit" where
  "verify_or_raise se payload digest secret =
     (if \<not> verify_payload se payload digest secret then Inl (PluginSignatureError ''plugin'') else Inr ())"

section \<open>Sandbox and marketplace\<close>

text \<open>
  A resolved path is the list of its names from the root; \<open>target.relative_to(root)\<close> succeeds when the
  names of \<open>root\<close> are the first names of \<open>target\<close>. \<open>resolve\<close>, which follows links, is a parameter.
\<close>

definition is_path_allowed :: "(string \<Rightarrow> string list) \<Rightarrow> string list \<Rightarrow> string \<Rightarrow> bool" where
  "is_path_allowed rslv allowed_paths path =
     list_ex (\<lambda>allowed. take (length (rslv allowed)) (rslv path) = rslv allowed) allowed_paths"

definition check_path :: "(string \<Rightarrow> string list) \<Rightarrow> string list \<Rightarrow> string \<Rightarrow> plugin_error + unit" where
  "check_path rslv allowed_paths path =
     (if \<not> is_path_allowed rslv allowed_paths path then Inl (PluginSandboxViolationError path) else Inr ())"

definition check_network :: "bool \<Rightarrow> plugin_error + unit" where
  "check_network network_allowed =
     (if \<not> network_allowed then Inl (PluginSandboxViolationError ''network'') else Inr ())"

definition check_process :: "bool \<Rightarrow> plugin_error + unit" where
  "check_process processes_allowed =
     (if \<not> processes_allowed then Inl (PluginSandboxViolationError ''process'') else Inr ())"

definition check_cpu :: "pyfloat \<Rightarrow> plugin_error + unit" where
  "check_cpu cpu_limit = (if cpu_limit \<le> 0 then Inl (PluginSandboxViolationError ''cpu'') else Inr ())"

definition check_memory :: "pyfloat \<Rightarrow> pyfloat \<Rightarrow> plugin_error + unit" where
  "check_memory usage max_memory_mb =
     (if max_memory_mb < usage then Inl (PluginSandboxViolationError ''memory'') else Inr ())"

record rating =
  ra_user :: string
  ra_score :: int
  ra_comment :: string

record market_entry =
  me_id :: string
  me_name :: string
  me_version :: string
  me_description :: string
  me_author :: string
  me_tags :: "string list"
  me_requires_router :: string
  me_entry :: string
  me_plugin_code :: string
  me_manifest :: "(string, json) dict"
  me_signature :: string
  me_downloads :: nat
  me_ratings :: "rating list"

type_synonym marketplace = "(string, market_entry) dict"

definition average_rating :: "market_entry \<Rightarrow> pyfloat" where
  "average_rating e =
     (if me_ratings e = [] then 0
      else py_round 2 (of_int (sum_list (map ra_score (me_ratings e))) / of_nat (length (me_ratings e))))"

definition market_add :: "market_entry \<Rightarrow> marketplace \<Rightarrow> marketplace" where
  "market_add e m = dict_set (me_id e) e m"

definition market_remove :: "string \<Rightarrow> marketplace \<Rightarrow> marketplace \<times> bool" where
  "market_remove entry_id m =
     (if \<not> dict_has m entry_id then (m, False) else (dict_pop entry_id m, True))"

definition market_get :: "string \<Rightarrow> marketplace \<Rightarrow> plugin_error + market_entry" where
  "market_get entry_id m =
     (case dict_get m entry_id of None \<Rightarrow> Inl (PluginMarketplaceError entry_id) | Some e \<Rightarrow> Inr e)"

definition market_search :: "string \<Rightarrow> string \<Rightarrow> nat \<Rightarrow> marketplace \<Rightarrow> market_entry list" where
  "market_search query tag limit m =
     (let q = py_lower (py_strip query)
      in take limit (filter (\<lambda>e.
           (tag = '''' \<or> tag \<in> set (me_tags e)) \<and>
           (q = '''' \<or> contains_str q (py_lower (join_with '' ''
              [me_name e, me_description e, me_author e, join_with '' '' (me_tags e)])))) (map snd m)))"

definition market_by_name :: "string \<Rightarrow> marketplace \<Rightarrow> market_entry list" where
  "market_by_name nm m = filter (\<lambda>e. me_name e = nm) (map snd m)"

text \<open>A descending sort of Python keeps the order of equal keys; its head is the first greatest entry.\<close>

definition market_latest :: "string \<Rightarrow> marketplace \<Rightarrow> plugin_error + market_entry option" where
  "market_latest nm m =
     (let matches = market_by_name nm m
      in if matches = [] then Inr None
         else if \<exists>e \<in> set matches. parse_version (me_version e) = None then Inl (ValueErrorP nm)
         else Inr (Some (hd (rev (sort_key (\<lambda>e. the (parse_version (me_version e))) (rev matches))))))"

definition update_available :: "string \<Rightarrow> string \<Rightarrow> marketplace \<Rightarrow> plugin_error + string option" where
  "update_available nm installed m =
     bind_result (market_latest nm m) (\<lambda>l.
       (case l of
          None \<Rightarrow> Inr None
        | Some e \<Rightarrow> (case compare_versions (me_version e) installed of
                       None \<Rightarrow> Inl (ValueErrorP installed)
                     | Some c \<Rightarrow> Inr (if 0 < c then Some (me_version e) else None))))"

definition manifest_for :: "market_entry \<Rightarrow> (string, json) dict" where
  "manifest_for e =
     fold (\<lambda>(k, v). dict_set k v) (me_manifest e)
       [(''name'', JStr (me_name e)), (''version'', JStr (me_version e)), (''entry'', JStr (me_entry e)),
        (''requires_router'', JStr (me_requires_router e)), (''tags'', JList (map JStr (me_tags e)))]"

definition market_rate :: "string \<Rightarrow> string \<Rightarrow> int \<Rightarrow> string \<Rightarrow> marketplace \<Rightarrow> plugin_error + marketplace" where
  "market_rate entry_id user score comment m =
     (if score < 1 \<or> 5 < score then Inl (PluginRatingError score)
      else bind_result (market_get entry_id m) (\<lambda>e.
        Inr (dict_set entry_id (e\<lparr>me_ratings := filter (\<lambda>r. ra_user r \<noteq> user) (me_ratings e) @
               [\<lparr>ra_user = user, ra_score = score, ra_comment = comment\<rparr>]\<rparr>) m)))"

section \<open>Permissions refine a relation\<close>

text \<open>The store seen as a relation between plugins, resources and actions.\<close>

definition perm_abs :: "grants \<Rightarrow> (string \<times> string \<times> string) set" where
  "perm_abs g = {(p, r, a). a \<in> dict_get_or (dict_get_or g p []) r {}}"

lemma in_perm_abs: "(p, r, a) \<in> perm_abs g \<longleftrightarrow> a \<in> dict_get_or (dict_get_or g p []) r {}"
  by (simp add: perm_abs_def)

lemma perm_abs_grant:
  "perm_abs (perm_grant p r as g) = perm_abs g \<union> {(p, r, a) | a. a \<in> set (if as = [] then [''*''] else as)}"
  by (auto simp: perm_abs_def perm_grant_def Let_def split: if_splits)

lemma perm_abs_revoke:
  "perm_abs (fst (perm_revoke p r a g)) =
     perm_abs g - {(q, r', a'). q = p \<and> (r = None \<or> r = Some r') \<and> (r = None \<or> a = None \<or> a = Some a')}"
  (is "_ = ?R")
proof (cases "dict_get g p")
  case None
  then show ?thesis by (auto simp: perm_revoke_def perm_abs_def dict_get_or_def)
next
  case (Some b)
  then have gp: "dict_get_or g p [] = b" by (simp add: dict_get_or_def)
  show ?thesis
  proof (cases r)
    case None
    have "dict_get_or [] r' ({} :: string set) = {}" for r' :: string by (simp add: dict_get_or_def)
    with None Some show ?thesis by (auto simp: perm_revoke_def perm_abs_def split: if_splits)
  next
    case (Some r')
    note r = this
    show ?thesis
    proof (cases "dict_get b r'")
      case None
      then have "dict_get_or b r' {} = {}" by (simp add: dict_get_or_def)
      with None \<open>dict_get g p = Some b\<close> r gp show ?thesis by (auto simp: perm_revoke_def perm_abs_def)
    next
      case (Some acts)
      then have ba: "dict_get_or b r' {} = acts" by (simp add: dict_get_or_def)
      show ?thesis using Some \<open>dict_get g p = Some b\<close> r gp ba
        by (cases a) (auto simp: perm_revoke_def perm_abs_def split: if_splits)
    qed
  qed
qed

lemma perm_check_abs: "perm_check g p r a \<longleftrightarrow> (p, r, ''*'') \<in> perm_abs g \<or> (p, r, a) \<in> perm_abs g"
  by (simp add: perm_check_def in_perm_abs Let_def)

datatype perm_op =
    Grant string string "string list"
  | Revoke string "string option" "string option"

fun perm_exec :: "perm_op \<Rightarrow> grants \<Rightarrow> grants" where
  "perm_exec (Grant p r as) g = perm_grant p r as g"
| "perm_exec (Revoke p r a) g = fst (perm_revoke p r a g)"

fun perm_spec :: "perm_op \<Rightarrow> (string \<times> string \<times> string) set \<Rightarrow> (string \<times> string \<times> string) set" where
  "perm_spec (Grant p r as) G = G \<union> {(p, r, a) | a. a \<in> set (if as = [] then [''*''] else as)}"
| "perm_spec (Revoke p r a) G =
     G - {(q, r', a'). q = p \<and> (r = None \<or> r = Some r') \<and> (r = None \<or> a = None \<or> a = Some a')}"

text \<open>
  C25. Deny by default: after any sequence of grants and revocations a plugin may do something exactly
  when the relation that the sequence describes has the action itself or the wildcard for the plugin
  and the resource. The nested dictionaries implement that relation.
\<close>

theorem permissions_refine:
  "perm_check (fold perm_exec ops []) p r a \<longleftrightarrow>
     (p, r, ''*'') \<in> fold perm_spec ops {} \<or> (p, r, a) \<in> fold perm_spec ops {}"
proof -
  have step: "perm_abs (perm_exec op g) = perm_spec op (perm_abs g)" for op g
    by (cases op) (simp_all add: perm_abs_grant perm_abs_revoke)
  have "perm_abs (fold perm_exec ops g) = fold perm_spec ops (perm_abs g)" for g
    by (induction ops arbitrary: g) (simp_all add: step)
  moreover have "perm_abs [] = {}" by (auto simp: perm_abs_def dict_get_or_def)
  ultimately show ?thesis by (simp add: perm_check_abs)
qed

text \<open>Revoking one action does not take it away from a plugin that holds the wildcard.\<close>

lemma revoke_under_wildcard:
  "perm_check g p r ''*'' \<Longrightarrow> a \<noteq> ''*'' \<Longrightarrow> perm_check (fst (perm_revoke p (Some r) (Some a) g)) p r a"
  by (auto simp: perm_check_abs perm_abs_revoke)

section \<open>What a manifest can obtain\<close>

lemma validate_permissions_all:
  "validate_permissions k ps = Inr [] \<Longrightarrow> j \<in> set ps \<Longrightarrow> \<exists>i. validate_permission i j = Inr []"
  by (induction ps arbitrary: k) (auto simp: bind_result_eq_Inr)

lemma str_items_strs: "list_all (str_with P) as \<Longrightarrow> map JStr (str_items (JList as)) = as \<and> list_all P (str_items (JList as))"
  unfolding str_items_def by (induction as) (auto simp: str_with_def map_filter_simps split: json.splits)

lemma validate_permission_entry:
  assumes "validate_permission i j = Inr []" "perm_entry j = Some (r, as)"
  shows "r \<in> set permission_resources \<and> as \<noteq> [] \<and> set as \<subseteq> set permission_actions"
proof -
  obtain d where d: "j = JObj d" "dict_get d ''resource'' = Some (JStr r)" "as = str_items (dict_get_or d ''actions'' JNull)"
    using assms(2) by (auto simp: perm_entry_def split: json.splits option.splits if_splits)
  have r: "r \<in> set permission_resources"
    using assms(1) d by (auto simp: validate_permission_def dict_get_or_def str_with_def bind_result_eq_Inr Let_def
        split: if_splits)
  from assms(1) d obtain xs where xs: "dict_get_or d ''actions'' (JList []) = JList xs" "xs \<noteq> []"
    "list_all (str_with (\<lambda>a. a \<in> set permission_actions)) xs"
    by (auto simp: validate_permission_def bind_result_eq_Inr Let_def split: if_splits json.splits)
  then have "dict_get_or d ''actions'' JNull = JList xs" by (auto simp: dict_get_or_def split: option.splits)
  then have "as = str_items (JList xs)" by (simp add: d)
  with str_items_strs [OF xs(3)] xs(2) r show ?thesis by (auto simp: list_all_iff)
qed

definition entry_grants :: "string \<Rightarrow> json \<Rightarrow> (string \<times> string \<times> string) set" where
  "entry_grants p j = (case perm_entry j of None \<Rightarrow> {}
     | Some (r, as) \<Rightarrow> {(p, r, a) | a. a \<in> set (if as = [] then [''*''] else as)})"

lemma perm_abs_manifest:
  "perm_abs (grant_from_manifest p ps g) = perm_abs g \<union> (\<Union>j \<in> set ps. entry_grants p j)"
proof (induction ps arbitrary: g)
  case Nil
  show ?case by (simp add: grant_from_manifest_def)
next
  case (Cons j ps)
  let ?g = "case perm_entry j of None \<Rightarrow> g | Some (r, as) \<Rightarrow> perm_grant p r as g"
  have "perm_abs ?g = perm_abs g \<union> entry_grants p j"
    by (simp add: entry_grants_def perm_abs_grant split: option.split prod.split)
  moreover have "grant_from_manifest p (j # ps) g = grant_from_manifest p ps ?g"
    by (simp add: grant_from_manifest_def)
  ultimately show ?case by (simp only: Cons) auto
qed

definition manifest_permissions :: "(string, json) dict \<Rightarrow> json list" where
  "manifest_permissions spec = (case dict_get_or spec ''permissions'' (JList []) of JList ps \<Rightarrow> ps | _ \<Rightarrow> [])"

lemma validated_permissions:
  assumes "validate_or_raise spec = Inr ()" "j \<in> set (manifest_permissions spec)"
  shows "\<exists>i. validate_permission i j = Inr []"
proof -
  from assms(2) obtain ps where ps: "dict_get_or spec ''permissions'' (JList []) = JList ps" "j \<in> set ps"
    by (cases "dict_get_or spec ''permissions'' (JList [])") (simp_all add: manifest_permissions_def)
  with assms(1) have "validate_permissions 0 ps = Inr []"
    by (auto simp: validate_or_raise_def manifest_validate_def bind_result_eq_Inr Let_def split: if_splits)
  with ps show ?thesis by (intro validate_permissions_all)
qed

text \<open>
  C26. A manifest that passes the validation gives its plugin actions from the fixed list on resources
  from the fixed list and nothing else: in particular never the wildcard, and nothing to other
  plugins.
\<close>

theorem manifest_grants_known:
  assumes "validate_or_raise spec = Inr ()"
    and "perm_check (grant_from_manifest p (manifest_permissions spec) g) q r a" and "\<not> perm_check g q r a"
  shows "q = p \<and> r \<in> set permission_resources \<and> a \<in> set permission_actions"
proof -
  let ?G = "grant_from_manifest p (manifest_permissions spec) g"
  have new: "q = p \<and> r \<in> set permission_resources \<and> b \<in> set permission_actions"
    if "(q, r, b) \<in> perm_abs ?G" "(q, r, b) \<notin> perm_abs g" for b
  proof -
    from that obtain j where j: "j \<in> set (manifest_permissions spec)" "(q, r, b) \<in> entry_grants p j"
      unfolding perm_abs_manifest by auto
    then obtain as where e: "q = p" "perm_entry j = Some (r, as)" "b \<in> set (if as = [] then [''*''] else as)"
      by (auto simp: entry_grants_def split: option.splits)
    obtain i where "validate_permission i j = Inr []" using validated_permissions [OF assms(1) j(1)] by blast
    from validate_permission_entry [OF this e(2)] e show ?thesis by auto
  qed
  have "(q, r, ''*'') \<notin> perm_abs g" "(q, r, a) \<notin> perm_abs g" using assms(3) by (auto simp: perm_check_abs)
  then consider "(q, r, a) \<in> perm_abs ?G" | "(q, r, ''*'') \<in> perm_abs ?G" using assms(2) by (auto simp: perm_check_abs)
  then show ?thesis
  proof cases
    case 2
    then have "''*'' \<in> set permission_actions" using new [of "''*''"] \<open>(q, r, ''*'') \<notin> perm_abs g\<close> by blast
    then show ?thesis by (simp add: permission_actions_def)
  qed (use new [of a] \<open>(q, r, a) \<notin> perm_abs g\<close> in blast)
qed

theorem manifest_grants_known_witness:
  "let spec = [(''name'', JStr ''p''), (''version'', JStr ''1.0.0''), (''entry'', JStr ''create_plugin''),
               (''permissions'', JList [JObj [(''resource'', JStr ''network''), (''actions'', JList [JStr ''read''])]])]
   in validate_or_raise spec = Inr () \<and>
      perm_check (grant_from_manifest ''p'' (manifest_permissions spec) []) ''p'' ''network'' ''read'' \<and>
      ''read'' \<in> set permission_actions"
proof -
  let ?spec = "[(''name'', JStr ''p''), (''version'', JStr ''1.0.0''), (''entry'', JStr ''create_plugin''),
               (''permissions'', JList [JObj [(''resource'', JStr ''network''), (''actions'', JList [JStr ''read''])]])]"
  have v: "is_valid_version ''1.0.0''"
    by (simp add: is_valid_version_def semver_line_def all_digits_def is_digit_def)
  have ok: "validate_or_raise ?spec = Inr ()"
    by (simp add: validate_or_raise_def manifest_validate_def required_fields_def dict_has_def dict_get_or_def str_with_def
        v name_pattern_def entry_pattern_def to_end_def is_digit_def validate_permission_def permission_actions_def
        permission_resources_def)
  have ck: "perm_check (grant_from_manifest ''p'' (manifest_permissions ?spec) []) ''p'' ''network'' ''read''"
    by (simp add: perm_check_def grant_from_manifest_def manifest_permissions_def perm_entry_def dict_get_or_def
        str_items_def map_filter_simps perm_grant_def Let_def)
  have "\<not> perm_check [] ''p'' ''network'' ''read''" by (simp add: perm_check_def dict_get_or_def)
  from manifest_grants_known [OF ok ck this] ok ck show ?thesis by (simp only: Let_def)
qed

section \<open>The registry of extensions\<close>

text \<open>Every bucket is filed by name and holds extensions of its kind only.\<close>

definition bucket_ok :: "extension_kind \<Rightarrow> (string, extension) dict \<Rightarrow> bool" where
  "bucket_ok k b \<longleftrightarrow> dict_ok b \<and> list_all (\<lambda>(n, e). ex_name e = n \<and> ex_kind e = k) b"

definition ext_ok :: "extensions \<Rightarrow> bool" where
  "ext_ok x \<longleftrightarrow> dict_ok x \<and> list_all (\<lambda>(k, b). bucket_ok k b) x"

lemma ext_ok_Nil [simp]: "ext_ok []"
  by (simp add: ext_ok_def)

lemma bucket_ok_Nil [simp]: "bucket_ok k []"
  by (simp add: bucket_ok_def)

lemma ext_okD: "ext_ok x \<Longrightarrow> bucket_ok k (dict_get_or x k [])"
  by (auto simp: ext_ok_def dict_get_or_def list_all_iff dest!: dict_get_in split: option.split)

lemma ext_lookup_register:
  assumes "ext_register e x = Inr x'"
  shows "ext_get_or_none k n x' = (if k = ex_kind e \<and> n = ex_name e then Some e else ext_get_or_none k n x)"
  using assms by (auto simp: ext_register_def ext_get_or_none_def Let_def split: if_splits)

lemma ext_register_ok:
  assumes "ext_ok x" "ext_register e x = Inr x'"
  shows "ext_ok x' \<and> ext_get_or_none (ex_kind e) (ex_name e) x = None"
proof -
  have "bucket_ok (ex_kind e) (dict_set (ex_name e) e (dict_get_or x (ex_kind e) []))"
    using ext_okD [OF assms(1), of "ex_kind e"] by (auto simp: bucket_ok_def intro!: list_all_dict_set)
  then show ?thesis using assms
    by (auto simp: ext_register_def ext_ok_def ext_get_or_none_def dict_has_def Let_def intro!: list_all_dict_set
        split: if_splits)
qed

lemma dict_get_map_vals: "dict_get (map (\<lambda>(k, v). (k, f v)) d) k = map_option f (dict_get d k)"
  by (induction d) auto

lemma dict_ok_map_vals: "dict_ok (map (\<lambda>(k, v). (k, f v)) d) \<longleftrightarrow> dict_ok d"
  by (simp add: dict_ok_def comp_def case_prod_beta)

text \<open>
  Removing a plugin's extensions removes exactly them: the lookup of any other extension is as before,
  nothing of the plugin is listed, and the number reported is the number removed.
\<close>

lemma ext_unregister_plugin_get:
  assumes "ext_ok x"
  shows "ext_get_or_none k n (fst (ext_unregister_plugin p x)) =
    (case ext_get_or_none k n x of Some e \<Rightarrow> if ex_plugin e = p then None else Some e | None \<Rightarrow> None)"
proof -
  let ?f = "filter (\<lambda>(n, e). ex_plugin e \<noteq> p)"
  have dk: "dict_ok (map (\<lambda>(k, b). (k, ?f b)) x)"
    using assms by (simp add: ext_ok_def dict_ok_map_vals)
  have "dict_get_or (filter (\<lambda>(k, b). b \<noteq> []) (map (\<lambda>(k, b). (k, ?f b)) x)) k [] = ?f (dict_get_or x k [])"
    using dk by (auto simp: dict_get_or_def dict_get_filter dict_get_map_vals split: option.split)
  moreover have "dict_ok (dict_get_or x k [])" using ext_okD [OF assms, of k] by (simp add: bucket_ok_def)
  ultimately show ?thesis
    by (auto simp: ext_get_or_none_def ext_unregister_plugin_def Let_def dict_get_filter split: option.split)
qed

lemma ext_unregister_plugin_ok: "ext_ok x \<Longrightarrow> ext_ok (fst (ext_unregister_plugin p x))"
proof -
  assume x: "ext_ok x"
  let ?f = "filter (\<lambda>(n, e). ex_plugin e \<noteq> p)"
  have b: "bucket_ok k (?f b)" if "bucket_ok k b" for k b
    using that by (auto simp: bucket_ok_def list_all_iff)
  have "dict_ok (map (\<lambda>(k, b). (k, ?f b)) x)" using x by (simp add: ext_ok_def dict_ok_map_vals)
  then show ?thesis using x b by (auto simp: ext_ok_def ext_unregister_plugin_def Let_def list_all_iff)
qed

lemma ext_mem:
  assumes "ext_ok x"
  shows "(\<exists>k b n. (k, b) \<in> set x \<and> (n, e) \<in> set b) \<longleftrightarrow> ext_get_or_none (ex_kind e) (ex_name e) x = Some e"
proof
  assume "\<exists>k b n. (k, b) \<in> set x \<and> (n, e) \<in> set b"
  then obtain k b n where kb: "(k, b) \<in> set x" "(n, e) \<in> set b" by blast
  then have "dict_ok b" "ex_name e = n" "ex_kind e = k" "dict_get x k = Some b"
    using assms by (auto simp: ext_ok_def bucket_ok_def list_all_iff intro: dict_ok_getI)
  with kb(2) show "ext_get_or_none (ex_kind e) (ex_name e) x = Some e"
    by (simp add: ext_get_or_none_def dict_get_or_def dict_ok_getI)
next
  assume "ext_get_or_none (ex_kind e) (ex_name e) x = Some e"
  then show "\<exists>k b n. (k, b) \<in> set x \<and> (n, e) \<in> set b"
    by (auto simp: ext_get_or_none_def dict_get_or_def dest!: dict_get_in split: option.splits)
qed

lemma ext_list_by_plugin_mem:
  assumes "ext_ok x"
  shows "e \<in> set (ext_list_by_plugin p x) \<longleftrightarrow> ex_plugin e = p \<and> ext_get_or_none (ex_kind e) (ex_name e) x = Some e"
  unfolding ext_mem [OF assms, symmetric] by (force simp: ext_list_by_plugin_def)

theorem unregister_plugin_exact:
  assumes "ext_ok x"
  shows "ext_list_by_plugin p (fst (ext_unregister_plugin p x)) = [] \<and>
    (\<forall>q. q \<noteq> p \<longrightarrow> set (ext_list_by_plugin q (fst (ext_unregister_plugin p x))) = set (ext_list_by_plugin q x)) \<and>
    snd (ext_unregister_plugin p x) = length (ext_list_by_plugin p x)"
proof -
  let ?x = "fst (ext_unregister_plugin p x)"
  have mem: "e \<in> set (ext_list_by_plugin q ?x) \<longleftrightarrow> e \<in> set (ext_list_by_plugin q x) \<and> q \<noteq> p" for e q
    unfolding ext_list_by_plugin_mem [OF ext_unregister_plugin_ok [OF assms]] ext_list_by_plugin_mem [OF assms]
      ext_unregister_plugin_get [OF assms] by (cases "ext_get_or_none (ex_kind e) (ex_name e) x") auto
  have "set (ext_list_by_plugin p ?x) = {}" by (simp add: set_eq_iff mem)
  moreover have "snd (ext_unregister_plugin p x) = length (ext_list_by_plugin p x)"
  proof -
    have "length (filter (\<lambda>e. ex_plugin e = p) (map snd b)) = length (filter (\<lambda>(n, e). ex_plugin e = p) b)"
      for b :: "(string, extension) dict" by (induction b) auto
    then have "length (ext_list_by_plugin p x) = sum_list (map (\<lambda>(k, b). length (filter (\<lambda>(n, e). ex_plugin e = p) b)) x)"
      unfolding ext_list_by_plugin_def by (induction x) auto
    then show ?thesis by (simp add: ext_unregister_plugin_def Let_def)
  qed
  moreover have "set (ext_list_by_plugin q ?x) = set (ext_list_by_plugin q x)" if "q \<noteq> p" for q
    using that by (simp add: set_eq_iff mem)
  ultimately show ?thesis by simp
qed

section \<open>Hooks, events and the marketplace\<close>

text \<open>The plugins of a dispatch decide which listeners run; a listener that raises is as good as none.\<close>

definition eligible :: "string set option \<Rightarrow> string \<times> nat \<Rightarrow> bool" where
  "eligible plugins p \<longleftrightarrow> (case plugins of None \<Rightarrow> True | Some ps \<Rightarrow> fst p = '''' \<or> fst p \<in> ps)"

lemma dispatch_eligible:
  "dispatch_loop run plugins ls r =
     dispatch_loop run None (filter (\<lambda>p. eligible plugins p \<and> (\<forall>m. run (snd p) \<noteq> Listener_raises m)) ls) r"
  by (induction run plugins ls r rule: dispatch_loop.induct)
    (auto simp: eligible_def Let_def split: option.splits listener_output.splits)

lemma dispatch_not_cancelled:
  "\<not> hr_should_cancel r \<Longrightarrow> (\<forall>p \<in> set ls. \<forall>reason payload. run (snd p) \<noteq> Hook_output True reason payload) \<Longrightarrow>
     \<not> hr_should_cancel (dispatch_loop run plugins ls r)"
proof (induction ls arbitrary: r)
  case (Cons p ls)
  then show ?case by (cases p; cases "run (snd p)") (auto simp: Let_def)
qed simp

lemma history_bounded:
  "length (eb_history b) \<le> eb_max_history b \<Longrightarrow> length (eb_history (fst (bus_emit run event data b))) \<le> eb_max_history b"
  by (auto simp: bus_emit_def Let_def)

definition ratings_ok :: "market_entry \<Rightarrow> bool" where
  "ratings_ok e \<longleftrightarrow> distinct (map ra_user (me_ratings e)) \<and> list_all (\<lambda>r. 1 \<le> ra_score r \<and> ra_score r \<le> 5) (me_ratings e)"

lemma market_rate_ok:
  assumes "market_rate i user score comment m = Inr m'" "dict_get m i = Some e" "ratings_ok e"
  shows "\<exists>e'. dict_get m' i = Some e' \<and> ratings_ok e' \<and> last (me_ratings e') = \<lparr>ra_user = user, ra_score = score, ra_comment = comment\<rparr>"
  using assms by (auto simp: market_rate_def market_get_def ratings_ok_def list_all_iff distinct_map_filter split: if_splits)

text \<open>With ratings from one to five, an average is between one and five.\<close>

lemma average_rating_bounds:
  assumes "ratings_ok e" "me_ratings e \<noteq> []"
  shows "1 \<le> average_rating e \<and> average_rating e \<le> 5"
proof -
  let ?n = "of_nat (length (me_ratings e)) :: pyfloat" and ?s = "of_int (sum_list (map ra_score (me_ratings e))) :: pyfloat"
  have n: "0 < ?n" using assms(2) by simp
  have "int (length rs) \<le> sum_list (map ra_score rs) \<and> sum_list (map ra_score rs) \<le> 5 * int (length rs)"
    if "list_all (\<lambda>r. 1 \<le> ra_score r \<and> ra_score r \<le> 5) rs" for rs :: "rating list"
    using that by (induction rs) auto
  then have "int (length (me_ratings e)) \<le> sum_list (map ra_score (me_ratings e))"
    "sum_list (map ra_score (me_ratings e)) \<le> 5 * int (length (me_ratings e))" using assms(1) by (auto simp: ratings_ok_def)
  then have "?n \<le> ?s" "?s \<le> 5 * ?n" by (metis of_int_le_iff of_int_of_nat_eq of_int_mult of_int_numeral)+
  with n have q: "1 \<le> ?s / ?n" "?s / ?n \<le> 5" by (simp_all add: field_simps)
  have "py_round 2 1 \<le> py_round 2 (?s / ?n)" "py_round 2 (?s / ?n) \<le> py_round 2 5" using q by (intro py_round_mono; simp)+
  moreover have "py_round 2 1 = 1" using py_round_of_int [of 2 1] by simp
  ultimately show ?thesis using assms(2) by (simp add: average_rating_def)
qed

lemma market_latest_greatest:
  assumes "market_latest nm m = Inr (Some e)" "f \<in> set (market_by_name nm m)"
  shows "e \<in> set (market_by_name nm m) \<and> the (parse_version (me_version f)) \<le> the (parse_version (me_version e))"
proof -
  let ?key = "\<lambda>e. the (parse_version (me_version e))"
  let ?ms = "sort_key ?key (rev (market_by_name nm m))"
  have ne: "market_by_name nm m \<noteq> []" and e: "e = last ?ms"
    using assms(1) by (auto simp: market_latest_def Let_def hd_rev split: if_splits)
  have s: "set ?ms = set (market_by_name nm m)" by simp
  have ne2: "?ms \<noteq> []" using ne by (metis set_empty s)
  then have "e \<in> set ?ms" unfolding e by (rule last_in_set)
  moreover have "?key f \<le> ?key e"
  proof -
    have split: "?ms = butlast ?ms @ [e]" using ne2 e by simp
    have "sorted (map ?key (butlast ?ms @ [e]))" using split by (metis sorted_sort_key)
    moreover have "f \<in> set (butlast ?ms @ [e])" using assms(2) s split by metis
    ultimately show ?thesis by (auto simp: sorted_append)
  qed
  ultimately show ?thesis using s by blast
qed

end
