(* ===== verification/PluginManager.thy ===== *)
theory PluginManager
  imports Plugins Lifecycle
begin

text \<open>
  The plugin manager (\<open>app/plugins/manager.py\<close>) over the parts of \<open>Plugins\<close> and the life cycle of
  \<open>Lifecycle\<close>, with the registration surface handed to plugins (\<open>sdk.py\<close>) and the installation from
  the marketplace. What the code of a plugin does when it is imported or when one of its hooks runs is
  a parameter: a list of calls on the SDK and on the hook system, and possibly an exception at the end;
  a call that raises ends the plugin's code. The YAML codec is a parameter, the directories of plugins are
  a dictionary from paths to the two files that matter, and module names, metrics and log lines are
  left out. A plugin's directory is the plugins directory with the name appended; names that are not a
  single path component (the empty name, dots, a slash), which only the later validation refuses, are not
  considered.
\<close>

section \<open>State and parameters\<close>

datatype sdk_call =
    SDK_register extension_kind string nat
  | SDK_unregister extension_kind string
  | SDK_listen string nat string
  | SDK_unlisten string "nat option"
  | CTX_hook string nat

text \<open>The listeners of an SDK: event, handler and the name of the extension.\<close>

type_synonym sdk_listeners = "(string \<times> nat \<times> string) list"

record plugin_dir =
  pf_manifest :: "string option"
  pf_code :: "string option"

record plugin_spec =
  ps_name :: string
  ps_version :: string
  ps_entry :: string
  ps_description :: json
  ps_author :: json
  ps_tags :: json
  ps_requires_router :: json
  ps_permissions :: "json list"
  ps_signature :: string

record plugin_env =
  pv_sign :: sign_env
  pv_checker :: compat_checker
  pv_market_checker :: compat_checker
  pv_yaml_dump :: "(string, json) dict \<Rightarrow> string"
  pv_yaml_load :: "string \<Rightarrow> string + json"
  pv_load :: "string \<Rightarrow> string \<Rightarrow> sdk_call list \<times> string option"
  pv_hook :: "string \<Rightarrow> string \<Rightarrow> sdk_call list \<times> string option"
  pv_handler :: "nat \<Rightarrow> string + json"
  pv_secret :: string
  pv_require_signatures :: bool
  pv_auto_enable :: bool
  pv_max_plugins :: nat
  pv_plugins_dir :: string

record plugin_manager =
  pg_states :: plugin_states
  pg_plugins :: "(string, string) dict"
  pg_specs :: "(string, plugin_spec) dict"
  pg_sdks :: "(string, sdk_listeners) dict"
  pg_dirs :: "(string, string) dict"
  pg_fs :: "(string, plugin_dir) dict"
  pg_perms :: grants
  pg_exts :: extensions
  pg_hooks :: hooks
  pg_bus :: event_bus
  pg_market :: marketplace

record plugin_info =
  pi_name :: string
  pi_version :: string
  pi_status :: plugin_status
  pi_extensions :: "(extension_kind, string list) dict"

type_synonym 'a pgprog = "(plugin_manager, plugin_error, 'a) prog"

section \<open>The SDK\<close>

definition sdk_drop_listener :: "string \<Rightarrow> string \<times> nat \<times> string \<Rightarrow> plugin_manager \<Rightarrow> plugin_manager" where
  "sdk_drop_listener nm l s = (case l of (event, handler, ext) \<Rightarrow>
     s\<lparr>pg_bus := bus_unsubscribe event handler (pg_bus s),
       pg_exts := fst (ext_unregister EK_EVENT_LISTENER ext (pg_exts s))\<rparr>)"

definition sdk_step ::
  "string \<Rightarrow> sdk_call \<Rightarrow> sdk_listeners \<Rightarrow> plugin_manager \<Rightarrow> (plugin_error + sdk_listeners) \<times> plugin_manager" where
  "sdk_step nm c ls s =
     (case c of
        SDK_register kind ext handler \<Rightarrow>
          (case ext_register \<lparr>ex_kind = kind, ex_name = ext, ex_handler = handler, ex_plugin = nm\<rparr> (pg_exts s) of
             Inl e \<Rightarrow> (Inl e, s)
           | Inr x \<Rightarrow> (Inr ls, s\<lparr>pg_exts := x\<rparr>))
      | SDK_unregister kind ext \<Rightarrow> (Inr ls, s\<lparr>pg_exts := fst (ext_unregister kind ext (pg_exts s))\<rparr>)
      | SDK_listen event handler uid \<Rightarrow>
          (let ext = event @ ''#'' @ uid
           in case ext_register \<lparr>ex_kind = EK_EVENT_LISTENER, ex_name = ext, ex_handler = handler, ex_plugin = nm\<rparr>
                     (pg_exts s) of
                Inl e \<Rightarrow> (Inl e, s)
              | Inr x \<Rightarrow> (Inr (ls @ [(event, handler, ext)]),
                          s\<lparr>pg_exts := x, pg_bus := bus_subscribe event handler (pg_bus s)\<rparr>))
      | SDK_unlisten event handler \<Rightarrow>
          (let gone = (\<lambda>(ev, h, ext). ev = event \<and> (handler = None \<or> handler = Some h))
           in (Inr (filter (\<lambda>l. \<not> gone l) ls), fold (sdk_drop_listener nm) (filter gone ls) s))
      | CTX_hook hook listener \<Rightarrow> (Inr ls, s\<lparr>pg_hooks := hook_register hook listener nm (pg_hooks s)\<rparr>))"

text \<open>A run of plugin code: the exception if there is one, and the listeners of its SDK.\<close>

fun run_calls ::
  "string \<Rightarrow> sdk_call list \<Rightarrow> sdk_listeners \<Rightarrow> plugin_manager \<Rightarrow> (plugin_error option \<times> sdk_listeners) \<times> plugin_manager" where
  "run_calls nm [] ls s = ((None, ls), s)"
| "run_calls nm (c # cs) ls s =
     (case sdk_step nm c ls s of
        (Inl e, s') \<Rightarrow> ((Some e, ls), s')
      | (Inr ls', s') \<Rightarrow> run_calls nm cs ls' s')"

definition sdk_cleanup :: "sdk_listeners \<Rightarrow> plugin_manager \<Rightarrow> plugin_manager" where
  "sdk_cleanup ls s =
     s\<lparr>pg_bus := fold (\<lambda>(event, handler, ext). bus_unsubscribe event handler) ls (pg_bus s)\<rparr>"

section \<open>Helpers\<close>

definition emit :: "plugin_env \<Rightarrow> string \<Rightarrow> string \<Rightarrow> unit pgprog" where
  "emit env event nm =
     modify (\<lambda>s. s\<lparr>pg_bus := fst (bus_emit (pv_handler env) event [(''plugin'', JStr nm)] (pg_bus s))\<rparr>)"

definition transition_to :: "string \<Rightarrow> plugin_status \<Rightarrow> unit pgprog" where
  "transition_to nm st s =
     (case lc_transition nm st (pg_states s) of
        Inl e \<Rightarrow> (Inl (PluginLifecycleErr nm), s)
      | Inr t \<Rightarrow> (Inr (), s\<lparr>pg_states := t\<rparr>))"

definition pm_require :: "string \<Rightarrow> unit pgprog" where
  "pm_require nm s = (if dict_has (pg_plugins s) nm then (Inr (), s) else (Inl (PluginNotFoundError nm), s))"

definition pm_info :: "string \<Rightarrow> plugin_info pgprog" where
  "pm_info nm =
     andthen (pm_require nm) (\<lambda>_.
     andthen (fetch (KeyErrorP nm) (\<lambda>s. dict_get (pg_specs s) nm)) (\<lambda>spec.
       gets (\<lambda>s. \<lparr>pi_name = nm, pi_version = ps_version spec, pi_status = lc_state (pg_states s) nm,
         pi_extensions = map (\<lambda>(k, es). (k, map ex_name es)) (group_by ex_kind (ext_list_by_plugin nm (pg_exts s)))\<rparr>)))"

definition mark_failed :: "plugin_env \<Rightarrow> string \<Rightarrow> unit pgprog" where
  "mark_failed env nm =
     andthen (attempt (transition_to nm P_FAILED) (\<lambda>_. ret ())) (\<lambda>_. emit env ''plugin.failed'' nm)"

definition spec_str :: "(string, json) dict \<Rightarrow> string \<Rightarrow> string pgprog" where
  "spec_str spec key =
     (case dict_get spec key of
        None \<Rightarrow> throw (KeyErrorP key)
      | Some (JStr v) \<Rightarrow> ret v
      | Some _ \<Rightarrow> throw (TypeErrorP key))"

definition str_or :: "(string, json) dict \<Rightarrow> string \<Rightarrow> string \<Rightarrow> string" where
  "str_or spec key d = (case dict_get_or spec key (JStr d) of JStr v \<Rightarrow> v | _ \<Rightarrow> d)"

text \<open>The specification kept for an installed plugin; version, entry and signature are validated strings.\<close>

definition spec_of :: "string \<Rightarrow> (string, json) dict \<Rightarrow> plugin_spec" where
  "spec_of nm spec =
     \<lparr>ps_name = nm, ps_version = str_or spec ''version'' '''', ps_entry = str_or spec ''entry'' ''create_plugin'',
      ps_description = dict_get_or spec ''description'' (JStr ''''), ps_author = dict_get_or spec ''author'' (JStr ''''),
      ps_tags = dict_get_or spec ''tags'' (JList []),
      ps_requires_router = dict_get_or spec ''requires_router'' (JStr ''''),
      ps_permissions = manifest_permissions spec, ps_signature = str_or spec ''signature'' ''''\<rparr>"

definition validate_spec :: "plugin_env \<Rightarrow> (string, json) dict \<Rightarrow> unit pgprog" where
  "validate_spec env spec =
     andthen (lift_result (validate_or_raise spec)) (\<lambda>_.
     andthen (gets (\<lambda>s. ext_count (pg_exts s))) (\<lambda>k.
       lift_result (compat_check_or_raise (pv_checker env) spec k)))"

definition verify_spec :: "plugin_env \<Rightarrow> string \<Rightarrow> (string, json) dict \<Rightarrow> plugin_error + unit" where
  "verify_spec env nm spec =
     (let signature = str_or spec ''signature'' ''''
      in if pv_require_signatures env \<and> signature = '''' then Inl (PluginSignatureError nm)
         else if signature \<noteq> '''' \<and> \<not> verify_payload (pv_sign env) spec signature (pv_secret env)
         then Inl (PluginSignatureError nm)
         else Inr ())"

definition read_manifest :: "plugin_env \<Rightarrow> string \<Rightarrow> (string, json) dict pgprog" where
  "read_manifest env dir s =
     (case dict_get (pg_fs s) dir of
        None \<Rightarrow> (Inl (PluginInstallError ''manifest.yaml missing''), s)
      | Some d \<Rightarrow>
         (case pf_manifest d of
            None \<Rightarrow> (Inl (PluginInstallError ''manifest.yaml missing''), s)
          | Some t \<Rightarrow>
             (case pv_yaml_load env t of
                Inl msg \<Rightarrow> (Inl (ValueErrorP msg), s)
              | Inr j \<Rightarrow> if \<not> truthy j then (Inr [], s)
                          else (case j of JObj m \<Rightarrow> (Inr m, s)
                                | _ \<Rightarrow> (Inl (PluginInstallError ''invalid manifest''), s)))))"

definition write_dir :: "string \<Rightarrow> plugin_dir \<Rightarrow> unit pgprog" where
  "write_dir path d = modify (\<lambda>s. s\<lparr>pg_fs := dict_set path d (pg_fs s)\<rparr>)"

definition remove_dir :: "string \<Rightarrow> unit pgprog" where
  "remove_dir path = modify (\<lambda>s. s\<lparr>pg_fs := dict_pop path (pg_fs s)\<rparr>)"

definition dir_of :: "plugin_env \<Rightarrow> string \<Rightarrow> string" where
  "dir_of env nm = pv_plugins_dir env @ ''/'' @ nm"

definition require_absent :: "string \<Rightarrow> plugin_error \<Rightarrow> unit pgprog" where
  "require_absent path e =
     andthen (gets (\<lambda>s. dict_has (pg_fs s) path)) (\<lambda>there. require (\<not> there) e)"

text \<open>\<open>_load_plugin\<close>: run the module of a directory with a new SDK; the plugin object is known by its code.\<close>

definition load_plugin :: "plugin_env \<Rightarrow> string \<Rightarrow> string \<Rightarrow> (string \<times> sdk_listeners) pgprog" where
  "load_plugin env nm dir s =
     (case dict_get (pg_fs s) dir of
        None \<Rightarrow> (Inl (PluginInstallError ''plugin.py missing''), s)
      | Some d \<Rightarrow>
         (case pf_code d of
            None \<Rightarrow> (Inl (PluginInstallError ''plugin.py missing''), s)
          | Some code \<Rightarrow>
             (case pv_load env nm code of (calls, err) \<Rightarrow>
               (case run_calls nm calls [] s of
                  ((Some e, ls), s') \<Rightarrow> (Inl (PluginInstallError ''plugin factory failed''), s')
                | ((None, ls), s') \<Rightarrow>
                    (case err of
                       Some msg \<Rightarrow> (Inl (PluginInstallError msg), s')
                     | None \<Rightarrow> (Inr (code, ls), s'))))))"

definition set_plugin :: "string \<Rightarrow> string \<times> sdk_listeners \<Rightarrow> plugin_manager \<Rightarrow> plugin_manager" where
  "set_plugin nm p s = s\<lparr>pg_plugins := dict_set nm (fst p) (pg_plugins s), pg_sdks := dict_set nm (snd p) (pg_sdks s)\<rparr>"

definition run_code :: "plugin_env \<Rightarrow> string \<Rightarrow> string \<Rightarrow> string \<Rightarrow> sdk_listeners \<Rightarrow> sdk_listeners pgprog" where
  "run_code env nm code hook ls s =
     (case pv_hook env code hook of (calls, err) \<Rightarrow>
       (case run_calls nm calls ls s of
          ((Some e, ls'), s') \<Rightarrow> (Inl e, s'\<lparr>pg_sdks := dict_set nm ls' (pg_sdks s')\<rparr>)
        | ((None, ls'), s') \<Rightarrow>
            (case err of
               Some msg \<Rightarrow> (Inl (PluginRaised msg), s'\<lparr>pg_sdks := dict_set nm ls' (pg_sdks s')\<rparr>)
             | None \<Rightarrow> (Inr ls', s'\<lparr>pg_sdks := dict_set nm ls' (pg_sdks s')\<rparr>))))"

definition run_plugin_hook :: "plugin_env \<Rightarrow> string \<Rightarrow> string \<Rightarrow> unit pgprog" where
  "run_plugin_hook env nm hook =
     andthen (fetch (KeyErrorP nm) (\<lambda>s. dict_get (pg_plugins s) nm)) (\<lambda>code.
     andthen (gets (\<lambda>s. dict_get_or (pg_sdks s) nm [])) (\<lambda>ls.
     andthen (run_code env nm code hook ls) (\<lambda>_. ret ())))"

section \<open>Installation\<close>

definition market_install_entry :: "plugin_env \<Rightarrow> string \<Rightarrow> string pgprog" where
  "market_install_entry env entry_id =
     andthen (gets (\<lambda>s. market_get entry_id (pg_market s))) (\<lambda>r.
     andthen (lift_result r) (\<lambda>e.
     (let path = dir_of env (me_name e); manifest = manifest_for e
      in andthen (require_absent path (PluginMarketplaceError (me_name e))) (\<lambda>_.
         andthen (lift_result (manifest_validate manifest)) (\<lambda>issues.
         andthen (require (issues = []) (PluginMarketplaceError entry_id)) (\<lambda>_.
         andthen (lift_result (compat_check_or_raise (pv_market_checker env) manifest 0)) (\<lambda>_.
         andthen (if me_signature e \<noteq> ''''
                  then require (verify_payload (pv_sign env) manifest (me_signature e) (pv_secret env))
                         (PluginSignatureError (me_name e))
                  else require (\<not> pv_require_signatures env) (PluginSignatureError (me_name e))) (\<lambda>_.
         andthen (write_dir path \<lparr>pf_manifest = Some (pv_yaml_dump env manifest),
                                  pf_code = Some (me_plugin_code e)\<rparr>) (\<lambda>_.
         andthen (modify (\<lambda>s. s\<lparr>pg_market :=
             dict_set entry_id (e\<lparr>me_downloads := me_downloads e + 1\<rparr>) (pg_market s)\<rparr>)) (\<lambda>_.
           ret path)))))))))) "

definition materialize ::
  "plugin_env \<Rightarrow> (string, json) dict option \<Rightarrow> string option \<Rightarrow> string option \<Rightarrow> (string \<times> (string, json) dict) pgprog" where
  "materialize env spec source_dir entry_id =
     (case entry_id of
        Some i \<Rightarrow>
          andthen (market_install_entry env i) (\<lambda>path.
          andthen (read_manifest env path) (\<lambda>m. ret (path, m)))
      | None \<Rightarrow>
         (case source_dir of
            Some src \<Rightarrow>
              andthen (read_manifest env src) (\<lambda>m.
              andthen (spec_str m ''name'') (\<lambda>nm.
              andthen (require_absent (dir_of env nm) (PluginAlreadyInstalledError nm)) (\<lambda>_.
              andthen (fetch (FileError src) (\<lambda>s. dict_get (pg_fs s) src)) (\<lambda>d.
              andthen (write_dir (dir_of env nm) d) (\<lambda>_.
                ret (dir_of env nm, m))))))
          | None \<Rightarrow>
             (case spec of
                None \<Rightarrow> throw (TypeErrorP ''spec'')
              | Some sp \<Rightarrow>
                 andthen (require (dict_has sp ''plugin_code'') (PluginInstallError ''plugin_code'')) (\<lambda>_.
                 andthen (spec_str sp ''name'') (\<lambda>nm.
                 andthen (require_absent (dir_of env nm) (PluginAlreadyInstalledError nm)) (\<lambda>_.
                 andthen (write_dir (dir_of env nm)
                   \<lparr>pf_manifest = Some (pv_yaml_dump env (dict_pop ''plugin_code'' sp)), pf_code = None\<rparr>) (\<lambda>_.
                 andthen (spec_str sp ''plugin_code'') (\<lambda>code.
                 andthen (write_dir (dir_of env nm)
                   \<lparr>pf_manifest = Some (pv_yaml_dump env (dict_pop ''plugin_code'' sp)), pf_code = Some code\<rparr>) (\<lambda>_.
                   ret (dir_of env nm, sp)))))))))) "

text \<open>The body of the \<open>try\<close> of \<open>install\<close>.\<close>

definition install_body :: "plugin_env \<Rightarrow> string \<Rightarrow> string \<Rightarrow> (string, json) dict \<Rightarrow> unit pgprog" where
  "install_body env nm dir spec =
     andthen (transition_to nm P_INSTALLING) (\<lambda>_.
     andthen (validate_spec env spec) (\<lambda>_.
     andthen (transition_to nm P_INSTALLED) (\<lambda>_.
     andthen (transition_to nm P_VERIFYING) (\<lambda>_.
     andthen (lift_result (verify_spec env nm spec)) (\<lambda>_.
     andthen (transition_to nm P_VERIFIED) (\<lambda>_.
     andthen (emit env ''plugin.verified'' nm) (\<lambda>_.
     andthen (load_plugin env nm dir) (\<lambda>p.
     andthen (modify (set_plugin nm p)) (\<lambda>_.
     andthen (modify (\<lambda>s. s\<lparr>pg_dirs := dict_set nm dir (pg_dirs s),
                             pg_specs := dict_set nm (spec_of nm spec) (pg_specs s)\<rparr>)) (\<lambda>_.
     andthen (modify (\<lambda>s. s\<lparr>pg_perms := grant_from_manifest nm (manifest_permissions spec) (pg_perms s)\<rparr>)) (\<lambda>_.
     andthen (run_plugin_hook env nm ''on_install'') (\<lambda>_.
       emit env ''plugin.installed'' nm))))))))))))"

section \<open>Enabling, disabling, reloading\<close>

definition pm_enable :: "plugin_env \<Rightarrow> string \<Rightarrow> plugin_info pgprog" where
  "pm_enable env nm =
     andthen (pm_require nm) (\<lambda>_.
     andthen (gets (\<lambda>s. lc_is_enabled (pg_states s) nm)) (\<lambda>enabled.
       if enabled then pm_info nm
       else
         andthen (transition_to nm P_ENABLING) (\<lambda>_.
         andthen (attempt (run_plugin_hook env nm ''on_enable'') (\<lambda>e. andthen (mark_failed env nm) (\<lambda>_. throw e))) (\<lambda>_.
         andthen (transition_to nm P_ENABLED) (\<lambda>_.
         andthen (emit env ''plugin.enabled'' nm) (\<lambda>_.
           pm_info nm))))))"

definition pm_install ::
  "plugin_env \<Rightarrow> (string, json) dict option \<Rightarrow> string option \<Rightarrow> string option \<Rightarrow> bool option \<Rightarrow> plugin_info pgprog" where
  "pm_install env spec source_dir entry_id auto_enable =
     andthen (require (of_bool (spec \<noteq> None) + of_bool (source_dir \<noteq> None) + of_bool (entry_id \<noteq> None) = (1 :: nat))
       (PluginInstallError ''exactly one of spec, source_dir or entry_id is required'')) (\<lambda>_.
     andthen (materialize env spec source_dir entry_id) (\<lambda>(dir, sp).
     andthen (spec_str sp ''name'') (\<lambda>nm.
     andthen (gets (\<lambda>s. dict_has (pg_plugins s) nm)) (\<lambda>known.
     andthen (require (\<not> known) (PluginAlreadyInstalledError nm)) (\<lambda>_.
     andthen (gets (\<lambda>s. length (pg_plugins s))) (\<lambda>n.
     andthen (require (n < pv_max_plugins env) (PluginInstallError ''plugin limit reached'')) (\<lambda>_.
     andthen (modify (\<lambda>s. s\<lparr>pg_states := lc_initialize nm P_DRAFT (pg_states s)\<rparr>)) (\<lambda>_.
     andthen (attempt (install_body env nm dir sp) (\<lambda>e.
       andthen (mark_failed env nm) (\<lambda>_. andthen (remove_dir dir) (\<lambda>_. throw e)))) (\<lambda>_.
     andthen (if (case auto_enable of None \<Rightarrow> pv_auto_enable env | Some b \<Rightarrow> b)
              then andthen (pm_enable env nm) (\<lambda>_. ret ()) else ret ()) (\<lambda>_.
       pm_info nm))))))))))"

definition pm_disable :: "plugin_env \<Rightarrow> string \<Rightarrow> plugin_info pgprog" where
  "pm_disable env nm =
     andthen (pm_require nm) (\<lambda>_.
     andthen (gets (\<lambda>s. lc_state (pg_states s) nm)) (\<lambda>st.
       if st = P_DISABLED then pm_info nm
       else andthen
         (if st = P_ENABLED
          then andthen (run_plugin_hook env nm ''on_disable'') (\<lambda>_.
               andthen (transition_to nm P_DISABLED) (\<lambda>_.
                 emit env ''plugin.disabled'' nm))
          else if st = P_VERIFIED then transition_to nm P_DISABLED
          else ret ()) (\<lambda>_.
         pm_info nm)))"

text \<open>Reloading, upgrading and rolling back replace the loaded plugin by what its directory holds.\<close>

definition drop_old :: "string \<Rightarrow> unit pgprog" where
  "drop_old nm =
     andthen (fetch (KeyErrorP nm) (\<lambda>s. dict_get (pg_sdks s) nm)) (\<lambda>ls.
     andthen (modify (\<lambda>s. s\<lparr>pg_exts := fst (ext_unregister_plugin nm (pg_exts s))\<rparr>)) (\<lambda>_.
       modify (sdk_cleanup ls)))"

definition replace_plugin :: "plugin_env \<Rightarrow> string \<Rightarrow> string \<Rightarrow> (string, json) dict \<Rightarrow> unit pgprog" where
  "replace_plugin env nm dir spec =
     andthen (drop_old nm) (\<lambda>_.
     andthen (load_plugin env nm dir) (\<lambda>p.
     andthen (modify (set_plugin nm p)) (\<lambda>_.
       modify (\<lambda>s. s\<lparr>pg_perms := grant_from_manifest nm (manifest_permissions spec) (pg_perms s)\<rparr>))))"

definition pm_reload :: "plugin_env \<Rightarrow> string \<Rightarrow> plugin_info pgprog" where
  "pm_reload env nm =
     andthen (pm_require nm) (\<lambda>_.
     andthen (gets (\<lambda>s. lc_state (pg_states s) nm)) (\<lambda>st.
     andthen (require (st \<notin> {P_INSTALLING, P_UPDATING, P_UNINSTALLING, P_FAILED, P_UNINSTALLED})
       (PluginInstallError ''cannot reload'')) (\<lambda>_.
     andthen (fetch (KeyErrorP nm) (\<lambda>s. dict_get (pg_dirs s) nm)) (\<lambda>dir.
     andthen (read_manifest env dir) (\<lambda>spec.
     andthen (validate_spec env spec) (\<lambda>_.
     andthen (replace_plugin env nm dir spec) (\<lambda>_.
     andthen (run_plugin_hook env nm ''on_reload'') (\<lambda>_.
     andthen (emit env ''plugin.reloaded'' nm) (\<lambda>_.
     andthen (if st = P_ENABLED then andthen (pm_enable env nm) (\<lambda>_. ret ()) else ret ()) (\<lambda>_.
       pm_info nm))))))))))"

section \<open>Upgrades\<close>

definition backup_of :: "string \<Rightarrow> string" where
  "backup_of dir = dir @ ''.bak''"

definition replace_files :: "plugin_env \<Rightarrow> string \<Rightarrow> (string, json) dict \<Rightarrow> unit pgprog" where
  "replace_files env dir spec =
     andthen (fetch (FileError dir) (\<lambda>s. dict_get (pg_fs s) dir)) (\<lambda>d.
     andthen (write_dir dir (d\<lparr>pf_manifest := Some (pv_yaml_dump env (dict_pop ''plugin_code'' spec))\<rparr>)) (\<lambda>_.
     andthen (spec_str spec ''plugin_code'') (\<lambda>code.
       write_dir dir (d\<lparr>pf_manifest := Some (pv_yaml_dump env (dict_pop ''plugin_code'' spec)), pf_code := Some code\<rparr>))))"

text \<open>\<open>_rollback\<close> always raises, whether the old plugin could be restored or not.\<close>

definition rollback_plugin :: "plugin_env \<Rightarrow> string \<Rightarrow> string \<Rightarrow> unit pgprog" where
  "rollback_plugin env nm backup_dir =
     andthen (transition_to nm P_ROLLING_BACK) (\<lambda>_.
     andthen (fetch (KeyErrorP nm) (\<lambda>s. dict_get (pg_dirs s) nm)) (\<lambda>dir.
     andthen (attempt
       (andthen (remove_dir dir) (\<lambda>_.
        andthen (fetch (FileError backup_dir) (\<lambda>s. dict_get (pg_fs s) backup_dir)) (\<lambda>d.
        andthen (write_dir dir d) (\<lambda>_.
        andthen (read_manifest env dir) (\<lambda>spec.
        andthen (replace_plugin env nm dir spec) (\<lambda>_.
          transition_to nm P_ROLLED_BACK))))))
       (\<lambda>e. mark_failed env nm)) (\<lambda>_.
       throw (PluginRollbackError nm))))"

definition upgrade_body :: "plugin_env \<Rightarrow> string \<Rightarrow> string \<Rightarrow> (string, json) dict \<Rightarrow> unit pgprog" where
  "upgrade_body env nm dir spec =
     andthen (replace_files env dir spec) (\<lambda>_.
     andthen (replace_plugin env nm dir spec) (\<lambda>_.
     andthen (run_plugin_hook env nm ''on_upgrade'') (\<lambda>_.
       modify (\<lambda>s. s\<lparr>pg_specs := dict_set nm (spec_of nm spec) (pg_specs s)\<rparr>))))"

definition newer_version :: "(string, json) dict \<Rightarrow> plugin_spec \<Rightarrow> plugin_error + unit" where
  "newer_version spec current =
     (case dict_get_or spec ''version'' (JStr '''') of
        JStr v \<Rightarrow> (case compare_versions v (ps_version current) of
                     None \<Rightarrow> Inl (ValueErrorP v)
                   | Some c \<Rightarrow> if c \<le> 0 then Inl (PluginUpgradeError (ps_name current)) else Inr ())
      | _ \<Rightarrow> Inl (TypeErrorP ''version''))"

definition pm_upgrade :: "plugin_env \<Rightarrow> string \<Rightarrow> (string, json) dict \<Rightarrow> plugin_info pgprog" where
  "pm_upgrade env nm spec =
     andthen (pm_require nm) (\<lambda>_.
     andthen (require (dict_has spec ''plugin_code'') (PluginInvalidError nm)) (\<lambda>_.
     andthen (fetch (KeyErrorP nm) (\<lambda>s. dict_get (pg_specs s) nm)) (\<lambda>current.
     andthen (lift_result (newer_version spec current)) (\<lambda>_.
     andthen (validate_spec env spec) (\<lambda>_.
     andthen (lift_result (verify_spec env nm spec)) (\<lambda>_.
     andthen (gets (\<lambda>s. lc_is_enabled (pg_states s) nm)) (\<lambda>was_enabled.
     andthen (fetch (KeyErrorP nm) (\<lambda>s. dict_get (pg_dirs s) nm)) (\<lambda>dir.
     andthen (remove_dir (backup_of dir)) (\<lambda>_.
     andthen (fetch (FileError dir) (\<lambda>s. dict_get (pg_fs s) dir)) (\<lambda>d.
     andthen (write_dir (backup_of dir) d) (\<lambda>_.
     andthen (transition_to nm P_UPDATING) (\<lambda>_.
     andthen (always
       (attempt (upgrade_body env nm dir spec) (\<lambda>e. rollback_plugin env nm (backup_of dir)))
       (remove_dir (backup_of dir))) (\<lambda>_.
     andthen
       (if was_enabled
        then andthen (transition_to nm P_ENABLED) (\<lambda>_. andthen (pm_enable env nm) (\<lambda>_. ret ()))
        else transition_to nm P_DISABLED) (\<lambda>_.
     andthen (emit env ''plugin.upgraded'' nm) (\<lambda>_.
       pm_info nm)))))))))))))))"

section \<open>Uninstallation, queries and hooks\<close>

text \<open>What is left to do once the plugin has shut down.\<close>

definition uninstall_cleanup :: "plugin_env \<Rightarrow> string \<Rightarrow> sdk_listeners \<Rightarrow> unit pgprog" where
  "uninstall_cleanup env nm ls =
     andthen (modify (sdk_cleanup ls)) (\<lambda>_.
     andthen (modify (\<lambda>s. s\<lparr>pg_exts := fst (ext_unregister_plugin nm (pg_exts s)),
                             pg_perms := fst (perm_revoke nm None None (pg_perms s))\<rparr>)) (\<lambda>_.
     andthen (gets (\<lambda>s. dict_get (pg_dirs s) nm)) (\<lambda>dir.
     andthen (modify (\<lambda>s. s\<lparr>pg_dirs := dict_pop nm (pg_dirs s)\<rparr>)) (\<lambda>_.
     andthen (case dir of None \<Rightarrow> ret () | Some d \<Rightarrow> remove_dir d) (\<lambda>_.
     andthen (modify (\<lambda>s. s\<lparr>pg_specs := dict_pop nm (pg_specs s)\<rparr>)) (\<lambda>_.
     andthen (transition_to nm P_UNINSTALLED) (\<lambda>_.
     andthen (modify (\<lambda>s. s\<lparr>pg_states := lc_drop nm (pg_states s)\<rparr>)) (\<lambda>_.
       emit env ''plugin.uninstalled'' nm))))))))"

definition pm_uninstall :: "plugin_env \<Rightarrow> string \<Rightarrow> unit pgprog" where
  "pm_uninstall env nm =
     andthen (pm_require nm) (\<lambda>_.
     andthen (gets (\<lambda>s. lc_is_enabled (pg_states s) nm)) (\<lambda>enabled.
     andthen (if enabled then andthen (pm_disable env nm) (\<lambda>_. ret ()) else ret ()) (\<lambda>_.
     andthen (transition_to nm P_UNINSTALLING) (\<lambda>_.
     andthen (attempt (run_plugin_hook env nm ''on_uninstall'') (\<lambda>e.
       andthen (mark_failed env nm) (\<lambda>_. throw (PluginUninstallError nm)))) (\<lambda>_.
     andthen (gets (\<lambda>s. (dict_get (pg_plugins s) nm, dict_get (pg_sdks s) nm))) (\<lambda>(plugin, sdk).
     andthen (modify (\<lambda>s. s\<lparr>pg_plugins := dict_pop nm (pg_plugins s), pg_sdks := dict_pop nm (pg_sdks s)\<rparr>)) (\<lambda>_.
     andthen
       (case plugin of
          None \<Rightarrow> ret (case sdk of None \<Rightarrow> [] | Some ls \<Rightarrow> ls)
        | Some code \<Rightarrow>
            andthen (always (run_code env nm code ''shutdown'' (case sdk of None \<Rightarrow> [] | Some ls \<Rightarrow> ls))
              (modify (\<lambda>s. s\<lparr>pg_sdks := dict_pop nm (pg_sdks s)\<rparr>))) ret) (\<lambda>ls.
       uninstall_cleanup env nm ls))))))))"

definition pm_names :: "plugin_manager \<Rightarrow> string list" where
  "pm_names s = sort (map fst (pg_plugins s))"

definition pm_dispatch_hook :: "(nat \<Rightarrow> listener_output) \<Rightarrow> string \<Rightarrow> plugin_manager \<Rightarrow> plugin_hook_result" where
  "pm_dispatch_hook run hook s =
     hook_dispatch run (Some (set (filter (lc_is_enabled (pg_states s)) (map fst (pg_plugins s))))) hook (pg_hooks s)"

definition pm_dispatch_hook_sync :: "(nat \<Rightarrow> listener_output) \<Rightarrow> string \<Rightarrow> plugin_manager \<Rightarrow> plugin_hook_result" where
  "pm_dispatch_hook_sync run hook s = hook_dispatch run None hook (pg_hooks s)"

section \<open>What the parts leave alone\<close>

text \<open>Plugin code reaches the extensions, the event bus and the hooks, and nothing else.\<close>

definition code_frame :: "plugin_manager \<Rightarrow> plugin_manager \<Rightarrow> bool" where
  "code_frame s s' \<longleftrightarrow> pg_states s' = pg_states s \<and> pg_plugins s' = pg_plugins s \<and> pg_specs s' = pg_specs s \<and>
     pg_sdks s' = pg_sdks s \<and> pg_dirs s' = pg_dirs s \<and> pg_fs s' = pg_fs s \<and> pg_perms s' = pg_perms s \<and>
     pg_market s' = pg_market s"

lemma code_frame_refl [simp]: "code_frame s s"
  by (simp add: code_frame_def)

lemma code_frame_trans: "code_frame s t \<Longrightarrow> code_frame t u \<Longrightarrow> code_frame s u"
  by (simp add: code_frame_def)

lemma drop_listener_frame: "code_frame s (sdk_drop_listener nm l s)"
  by (simp add: sdk_drop_listener_def code_frame_def split: prod.split)

lemma drop_listeners_frame: "code_frame s (fold (sdk_drop_listener nm) ls s)"
  by (induction ls arbitrary: s) (auto intro: code_frame_trans drop_listener_frame)

lemma sdk_step_frame: "code_frame s (snd (sdk_step nm c ls s))"
  using drop_listeners_frame
  by (cases c) (auto simp: sdk_step_def Let_def code_frame_def split: sum.split)

lemma run_calls_frame: "code_frame s (snd (run_calls nm cs ls s))"
proof (induction cs arbitrary: ls s)
  case (Cons c cs)
  obtain r s1 where r: "sdk_step nm c ls s = (r, s1)" by fastforce
  then have "code_frame s s1" using sdk_step_frame [of s nm c ls] by simp
  then show ?case using Cons.IH code_frame_trans r by (cases r) auto
qed simp

lemma load_plugin_frame: "code_frame s (snd (load_plugin env nm dir s))"
proof -
  have "code_frame s t" if "run_calls nm calls [] s = (r, t)" for calls r t
    using run_calls_frame [of s nm calls "[]"] that by simp
  then show ?thesis
    by (auto simp: load_plugin_def split: option.split prod.split)
qed

lemma run_code_frame: "\<exists>t ls'. snd (run_code env nm code hook ls s) = t\<lparr>pg_sdks := dict_set nm ls' (pg_sdks t)\<rparr> \<and> code_frame s t"
proof -
  obtain calls err where h: "pv_hook env code hook = (calls, err)" by fastforce
  obtain e ls' t where r: "run_calls nm calls ls s = ((e, ls'), t)" by (metis surj_pair)
  have fr: "code_frame s t" using run_calls_frame [of s nm calls ls] r by simp
  show ?thesis
    by (rule exI [of _ t], rule exI [of _ ls'])
      (use fr in \<open>simp add: run_code_def h r split: option.split\<close>)
qed

lemma load_plugin_unchanged [unchanged_rules]:
  "unchanged pg_states (load_plugin env nm dir)" "unchanged pg_plugins (load_plugin env nm dir)"
  "unchanged pg_specs (load_plugin env nm dir)" "unchanged pg_sdks (load_plugin env nm dir)"
  "unchanged pg_dirs (load_plugin env nm dir)" "unchanged pg_fs (load_plugin env nm dir)"
  "unchanged pg_perms (load_plugin env nm dir)" "unchanged pg_market (load_plugin env nm dir)"
  using load_plugin_frame [of _ env nm dir] by (simp_all add: unchanged_def code_frame_def)

lemma run_code_unchanged [unchanged_rules]:
  "unchanged pg_states (run_code env nm code hook ls)" "unchanged pg_plugins (run_code env nm code hook ls)"
  "unchanged pg_specs (run_code env nm code hook ls)" "unchanged pg_dirs (run_code env nm code hook ls)"
  "unchanged pg_fs (run_code env nm code hook ls)" "unchanged pg_perms (run_code env nm code hook ls)"
  "unchanged pg_market (run_code env nm code hook ls)"
proof -
  have "unchanged (\<lambda>s. (pg_states s, pg_plugins s, pg_specs s, pg_dirs s, pg_fs s, pg_perms s, pg_market s))
      (run_code env nm code hook ls)"
    unfolding unchanged_def
  proof
    fix s
    obtain t ls' where "snd (run_code env nm code hook ls s) = t\<lparr>pg_sdks := dict_set nm ls' (pg_sdks t)\<rparr>" "code_frame s t"
      using run_code_frame by blast
    then show "(pg_states (snd (run_code env nm code hook ls s)), pg_plugins (snd (run_code env nm code hook ls s)),
        pg_specs (snd (run_code env nm code hook ls s)), pg_dirs (snd (run_code env nm code hook ls s)),
        pg_fs (snd (run_code env nm code hook ls s)), pg_perms (snd (run_code env nm code hook ls s)),
        pg_market (snd (run_code env nm code hook ls s))) =
        (pg_states s, pg_plugins s, pg_specs s, pg_dirs s, pg_fs s, pg_perms s, pg_market s)"
      by (simp add: code_frame_def)
  qed
  then show "unchanged pg_states (run_code env nm code hook ls)" "unchanged pg_plugins (run_code env nm code hook ls)"
    "unchanged pg_specs (run_code env nm code hook ls)" "unchanged pg_dirs (run_code env nm code hook ls)"
    "unchanged pg_fs (run_code env nm code hook ls)" "unchanged pg_perms (run_code env nm code hook ls)"
    "unchanged pg_market (run_code env nm code hook ls)"
    by (simp_all add: unchanged_def)
qed

lemma transition_to_unchanged [unchanged_rules]:
  "unchanged pg_plugins (transition_to nm st)" "unchanged pg_specs (transition_to nm st)"
  "unchanged pg_sdks (transition_to nm st)" "unchanged pg_dirs (transition_to nm st)"
  "unchanged pg_fs (transition_to nm st)" "unchanged pg_perms (transition_to nm st)"
  "unchanged pg_exts (transition_to nm st)" "unchanged pg_market (transition_to nm st)"
  by (simp_all add: unchanged_def transition_to_def split: sum.split)

lemma emit_unchanged [unchanged_rules]:
  "unchanged pg_states (emit env ev nm)" "unchanged pg_plugins (emit env ev nm)" "unchanged pg_specs (emit env ev nm)"
  "unchanged pg_sdks (emit env ev nm)" "unchanged pg_dirs (emit env ev nm)" "unchanged pg_fs (emit env ev nm)"
  "unchanged pg_perms (emit env ev nm)" "unchanged pg_exts (emit env ev nm)"
  by (simp_all add: unchanged_def emit_def)

lemma read_manifest_unchanged [unchanged_rules]: "unchanged f (read_manifest env dir)"
  by (simp add: unchanged_def read_manifest_def split: option.split sum.split json.split)

lemma pm_require_unchanged [unchanged_rules]: "unchanged f (pm_require nm)"
  by (simp add: unchanged_def pm_require_def)

lemma spec_str_unchanged [unchanged_rules]: "unchanged f (spec_str spec key)"
  by (simp add: spec_str_def split: option.split json.split)

lemma dir_unchanged [unchanged_rules]:
  "unchanged pg_states (write_dir p d)" "unchanged pg_plugins (write_dir p d)" "unchanged pg_specs (write_dir p d)"
  "unchanged pg_dirs (write_dir p d)" "unchanged pg_perms (write_dir p d)" "unchanged pg_exts (write_dir p d)"
  "unchanged pg_states (remove_dir p)" "unchanged pg_plugins (remove_dir p)" "unchanged pg_specs (remove_dir p)"
  "unchanged pg_dirs (remove_dir p)" "unchanged pg_perms (remove_dir p)" "unchanged pg_exts (remove_dir p)"
  by (simp_all add: unchanged_def write_dir_def remove_dir_def)

lemma pm_info_unchanged [unchanged_rules]: "unchanged f (pm_info nm)"
  unfolding pm_info_def by (intro unchanged_rules)

lemma validate_spec_unchanged [unchanged_rules]: "unchanged f (validate_spec env spec)"
  unfolding validate_spec_def by (intro unchanged_rules)

lemma require_absent_unchanged [unchanged_rules]: "unchanged f (require_absent p e)"
  unfolding require_absent_def by (intro unchanged_rules)

lemma mark_failed_unchanged [unchanged_rules]:
  "unchanged pg_plugins (mark_failed env nm)" "unchanged pg_specs (mark_failed env nm)" "unchanged pg_dirs (mark_failed env nm)"
  "unchanged pg_fs (mark_failed env nm)" "unchanged pg_perms (mark_failed env nm)" "unchanged pg_exts (mark_failed env nm)"
  "unchanged pg_sdks (mark_failed env nm)"
  unfolding mark_failed_def by (intro unchanged_rules)+

lemma run_plugin_hook_unchanged [unchanged_rules]:
  "unchanged pg_states (run_plugin_hook env nm hook)" "unchanged pg_plugins (run_plugin_hook env nm hook)"
  "unchanged pg_specs (run_plugin_hook env nm hook)" "unchanged pg_dirs (run_plugin_hook env nm hook)"
  "unchanged pg_fs (run_plugin_hook env nm hook)" "unchanged pg_perms (run_plugin_hook env nm hook)"
  unfolding run_plugin_hook_def by (intro unchanged_rules)+

lemma pm_enable_unchanged [unchanged_rules]:
  "unchanged pg_plugins (pm_enable env nm)" "unchanged pg_specs (pm_enable env nm)" "unchanged pg_dirs (pm_enable env nm)"
  "unchanged pg_fs (pm_enable env nm)" "unchanged pg_perms (pm_enable env nm)"
  unfolding pm_enable_def by (intro unchanged_rules)+

lemma pm_disable_unchanged [unchanged_rules]:
  "unchanged pg_plugins (pm_disable env nm)" "unchanged pg_specs (pm_disable env nm)" "unchanged pg_dirs (pm_disable env nm)"
  "unchanged pg_fs (pm_disable env nm)" "unchanged pg_perms (pm_disable env nm)"
  unfolding pm_disable_def by (intro unchanged_rules)+

lemma set_plugin_unchanged [unchanged_rules]:
  "unchanged pg_states (modify (set_plugin nm p))" "unchanged pg_specs (modify (set_plugin nm p))"
  "unchanged pg_dirs (modify (set_plugin nm p))" "unchanged pg_fs (modify (set_plugin nm p))"
  "unchanged pg_perms (modify (set_plugin nm p))" "unchanged pg_exts (modify (set_plugin nm p))"
  by (simp_all add: unchanged_def set_plugin_def)

lemma modify_perms_unchanged [unchanged_rules]:
  "unchanged pg_states (modify (\<lambda>s. s\<lparr>pg_perms := g s\<rparr>))" "unchanged pg_specs (modify (\<lambda>s. s\<lparr>pg_perms := g s\<rparr>))"
  "unchanged pg_dirs (modify (\<lambda>s. s\<lparr>pg_perms := g s\<rparr>))" "unchanged pg_fs (modify (\<lambda>s. s\<lparr>pg_perms := g s\<rparr>))"
  "unchanged pg_plugins (modify (\<lambda>s. s\<lparr>pg_perms := g s\<rparr>))"
  by (simp_all add: unchanged_def)

lemma drop_old_unchanged [unchanged_rules]:
  "unchanged pg_states (drop_old nm)" "unchanged pg_specs (drop_old nm)" "unchanged pg_dirs (drop_old nm)"
  "unchanged pg_fs (drop_old nm)" "unchanged pg_perms (drop_old nm)" "unchanged pg_plugins (drop_old nm)"
  "unchanged pg_sdks (drop_old nm)"
  unfolding drop_old_def by (intro unchanged_andthen unchanged_basic unchanged_modify; simp add: sdk_cleanup_def)+

lemma replace_plugin_unchanged [unchanged_rules]:
  "unchanged pg_states (replace_plugin env nm dir spec)" "unchanged pg_specs (replace_plugin env nm dir spec)"
  "unchanged pg_dirs (replace_plugin env nm dir spec)" "unchanged pg_fs (replace_plugin env nm dir spec)"
  unfolding replace_plugin_def by (intro unchanged_rules)+

lemma pm_reload_unchanged [unchanged_rules]:
  "unchanged pg_specs (pm_reload env nm)" "unchanged pg_dirs (pm_reload env nm)" "unchanged pg_fs (pm_reload env nm)"
  unfolding pm_reload_def by (intro unchanged_rules)+

section \<open>Only checked manifests\<close>

definition checked_spec :: "plugin_env \<Rightarrow> string \<Rightarrow> plugin_spec \<Rightarrow> bool" where
  "checked_spec env nm sp \<longleftrightarrow>
     (\<exists>spec. sp = spec_of nm spec \<and> validate_or_raise spec = Inr () \<and> verify_spec env nm spec = Inr ())"

definition all_checked :: "plugin_env \<Rightarrow> (string, plugin_spec) dict \<Rightarrow> bool" where
  "all_checked env x \<longleftrightarrow> (\<forall>nm sp. dict_get x nm = Some sp \<longrightarrow> checked_spec env nm sp)"

abbreviation specs_checked :: "plugin_env \<Rightarrow> plugin_manager \<Rightarrow> bool" where
  "specs_checked env s \<equiv> all_checked env (pg_specs s)"

lemma all_checked_set: "all_checked env x \<Longrightarrow> checked_spec env nm sp \<Longrightarrow> all_checked env (dict_set nm sp x)"
  by (simp add: all_checked_def)

lemma all_checked_pop: "all_checked env x \<Longrightarrow> all_checked env (dict_pop nm x)"
  by (simp add: all_checked_def)

lemma keeps_checked: "unchanged pg_specs m \<Longrightarrow> keeps (specs_checked env) m"
  by (rule unchanged_triple)

lemma keeps_lift: "(\<And>a. r = Inr a \<Longrightarrow> keeps I (g a)) \<Longrightarrow> keeps I (andthen (lift_result r) g)"
  by (rule sp_lift) auto

lemma keeps_validate:
  "(validate_or_raise spec = Inr () \<Longrightarrow> keeps I (g ())) \<Longrightarrow> keeps I (andthen (validate_spec env spec) g)"
proof (cases "validate_or_raise spec")
  case (Inr u)
  assume "validate_or_raise spec = Inr () \<Longrightarrow> keeps I (g ())"
  then have "keeps I (g ())" using Inr by simp
  moreover have "keeps I (validate_spec env spec)"
    by (auto simp: triple_def validate_spec_def andthen_def Inr split: sum.split)
  ultimately show ?thesis by (intro keeps_andthen) auto
next
  case (Inl e)
  then show ?thesis by (simp add: triple_def validate_spec_def andthen_def)
qed

lemma install_body_checked: "keeps (specs_checked env) (install_body env nm dir spec)"
proof -
  have set: "keeps (specs_checked env) (modify (\<lambda>s. s\<lparr>pg_dirs := dict_set nm dir (pg_dirs s),
        pg_specs := dict_set nm (spec_of nm spec) (pg_specs s)\<rparr>))"
    if "validate_or_raise spec = Inr ()" "verify_spec env nm spec = Inr ()"
  proof -
    have "checked_spec env nm (spec_of nm spec)" using that by (auto simp: checked_spec_def)
    then show ?thesis by (intro triple_basic) (simp add: all_checked_set)
  qed
  show ?thesis unfolding install_body_def
    by ((rule keeps_validate | rule keeps_lift | rule keeps_andthen, rule keeps_checked, rule unchanged_rules)+,
      rule keeps_andthen, rule set, assumption, simp, rule keeps_checked, intro unchanged_rules)
qed

lemma market_install_unchanged [unchanged_rules]: "unchanged pg_specs (market_install_entry env i)"
  unfolding market_install_entry_def Let_def
  by (intro unchanged_rules unchanged_modify; simp)

lemma materialize_unchanged [unchanged_rules]: "unchanged pg_specs (materialize env spec src i)"
  unfolding materialize_def by (intro unchanged_rules)

lemma replace_files_unchanged [unchanged_rules]:
  "unchanged pg_states (replace_files env dir spec)" "unchanged pg_plugins (replace_files env dir spec)"
  "unchanged pg_specs (replace_files env dir spec)" "unchanged pg_dirs (replace_files env dir spec)"
  "unchanged pg_perms (replace_files env dir spec)"
  unfolding replace_files_def by (intro unchanged_rules)+

lemma rollback_unchanged [unchanged_rules]:
  "unchanged pg_specs (rollback_plugin env nm b)" "unchanged pg_dirs (rollback_plugin env nm b)"
  unfolding rollback_plugin_def by (intro unchanged_rules)+

lemma pm_install_checked: "keeps (specs_checked env) (pm_install env spec src i auto)"
  unfolding pm_install_def
  by (intro keeps_rules install_body_checked; rule keeps_checked; (intro unchanged_rules | rule unchanged_modify, simp))

lemma upgrade_body_checked:
  assumes "validate_or_raise spec = Inr ()" "verify_spec env nm spec = Inr ()"
  shows "keeps (specs_checked env) (upgrade_body env nm dir spec)"
proof -
  have "checked_spec env nm (spec_of nm spec)" using assms by (auto simp: checked_spec_def)
  then have "keeps (specs_checked env) (modify (\<lambda>s. s\<lparr>pg_specs := dict_set nm (spec_of nm spec) (pg_specs s)\<rparr>))"
    by (intro triple_basic) (simp add: all_checked_set)
  then show ?thesis unfolding upgrade_body_def
    by (intro keeps_rules) (rule keeps_checked, intro unchanged_rules)+
qed

definition upgrade_rest :: "plugin_env \<Rightarrow> string \<Rightarrow> (string, json) dict \<Rightarrow> plugin_info pgprog" where
  "upgrade_rest env nm spec =
     andthen (gets (\<lambda>s. lc_is_enabled (pg_states s) nm)) (\<lambda>was_enabled.
     andthen (fetch (KeyErrorP nm) (\<lambda>s. dict_get (pg_dirs s) nm)) (\<lambda>dir.
     andthen (remove_dir (backup_of dir)) (\<lambda>_.
     andthen (fetch (FileError dir) (\<lambda>s. dict_get (pg_fs s) dir)) (\<lambda>d.
     andthen (write_dir (backup_of dir) d) (\<lambda>_.
     andthen (transition_to nm P_UPDATING) (\<lambda>_.
     andthen (always
       (attempt (upgrade_body env nm dir spec) (\<lambda>e. rollback_plugin env nm (backup_of dir)))
       (remove_dir (backup_of dir))) (\<lambda>_.
     andthen
       (if was_enabled
        then andthen (transition_to nm P_ENABLED) (\<lambda>_. andthen (pm_enable env nm) (\<lambda>_. ret ()))
        else transition_to nm P_DISABLED) (\<lambda>_.
     andthen (emit env ''plugin.upgraded'' nm) (\<lambda>_.
       pm_info nm)))))))))"

lemma pm_upgrade_split:
  "pm_upgrade env nm spec =
     andthen (pm_require nm) (\<lambda>_.
     andthen (require (dict_has spec ''plugin_code'') (PluginInvalidError nm)) (\<lambda>_.
     andthen (fetch (KeyErrorP nm) (\<lambda>s. dict_get (pg_specs s) nm)) (\<lambda>current.
     andthen (lift_result (newer_version spec current)) (\<lambda>_.
     andthen (validate_spec env spec) (\<lambda>_.
     andthen (lift_result (verify_spec env nm spec)) (\<lambda>_.
       upgrade_rest env nm spec))))))"
  by (simp add: pm_upgrade_def upgrade_rest_def)

lemma pm_upgrade_checked: "keeps (specs_checked env) (pm_upgrade env nm spec)"
proof -
  have rest: "keeps (specs_checked env) (upgrade_rest env nm spec)"
    if "validate_or_raise spec = Inr ()" "verify_spec env nm spec = Inr ()"
    unfolding upgrade_rest_def
    by (intro keeps_rules upgrade_body_checked [OF that]; rule keeps_checked; intro unchanged_rules)
  show ?thesis unfolding pm_upgrade_split
    by ((rule keeps_validate | rule keeps_lift | rule keeps_andthen, rule keeps_checked, rule unchanged_rules)+,
      rule rest, assumption, simp)
qed

lemma pm_uninstall_checked: "keeps (specs_checked env) (pm_uninstall env nm)"
proof -
  have pop: "keeps (specs_checked env) (modify (\<lambda>s. s\<lparr>pg_specs := dict_pop nm (pg_specs s)\<rparr>))"
    by (intro triple_basic) (simp add: all_checked_pop)
  show ?thesis unfolding pm_uninstall_def uninstall_cleanup_def
    by (intro keeps_rules pop; rule keeps_checked; (intro unchanged_rules | rule unchanged_modify, simp add: sdk_cleanup_def))
qed

section \<open>The manager at work\<close>

datatype pm_op =
    Op_install "(string, json) dict option" "string option" "string option" "bool option"
  | Op_enable string
  | Op_disable string
  | Op_reload string
  | Op_upgrade string "(string, json) dict"
  | Op_uninstall string

fun pm_run :: "plugin_env \<Rightarrow> pm_op \<Rightarrow> unit pgprog" where
  "pm_run env (Op_install spec src i auto) = void (pm_install env spec src i auto)"
| "pm_run env (Op_enable nm) = void (pm_enable env nm)"
| "pm_run env (Op_disable nm) = void (pm_disable env nm)"
| "pm_run env (Op_reload nm) = void (pm_reload env nm)"
| "pm_run env (Op_upgrade nm spec) = void (pm_upgrade env nm spec)"
| "pm_run env (Op_uninstall nm) = pm_uninstall env nm"

text \<open>A new manager: nothing installed, some files and a catalogue.\<close>

definition pm_init :: "(string, plugin_dir) dict \<Rightarrow> marketplace \<Rightarrow> plugin_manager" where
  "pm_init fs market =
     \<lparr>pg_states = [], pg_plugins = [], pg_specs = [], pg_sdks = [], pg_dirs = [], pg_fs = fs, pg_perms = [],
      pg_exts = [], pg_hooks = [], pg_bus = \<lparr>eb_subscribers = [], eb_history = [], eb_max_history = 1000\<rparr>,
      pg_market = market\<rparr>"

definition pm_exec :: "plugin_env \<Rightarrow> pm_op list \<Rightarrow> plugin_manager \<Rightarrow> plugin_manager" where
  "pm_exec env ops s = run_all (map (pm_run env) ops) s"

lemma pm_run_checked: "keeps (specs_checked env) (pm_run env op)"
proof (cases op)
  case (Op_install spec src i auto)
  then show ?thesis by (simp add: keeps_void pm_install_checked)
next
  case (Op_upgrade nm spec)
  then show ?thesis by (simp add: keeps_void pm_upgrade_checked)
next
  case (Op_uninstall nm)
  then show ?thesis by (simp add: pm_uninstall_checked)
qed (auto intro!: keeps_checked unchanged_rules)

text \<open>
  C22. Whatever is installed, enabled, disabled, reloaded, upgraded or uninstalled, with or without errors:
  the specification of every installed plugin comes from a manifest that passed the validation and
  whose signature, if it has one, is the right one; without a signature it was accepted only if none
  is required.
\<close>

theorem installed_manifests_checked:
  assumes "dict_get (pg_specs (pm_exec env ops (pm_init fs market))) nm = Some sp"
  shows "\<exists>spec. sp = spec_of nm spec \<and> validate_or_raise spec = Inr () \<and>
    (if ps_signature sp = '''' then \<not> pv_require_signatures env
     else verify_payload (pv_sign env) spec (ps_signature sp) (pv_secret env))"
proof -
  have "specs_checked env (pm_exec env ops (pm_init fs market))" unfolding pm_exec_def
  proof (rule run_all_keeps)
    fix m assume "m \<in> set (map (pm_run env) ops)"
    then show "keeps (specs_checked env) m" using pm_run_checked by auto
  qed (simp add: pm_init_def all_checked_def)
  with assms have "checked_spec env nm sp" by (simp add: all_checked_def)
  then obtain spec where spec: "sp = spec_of nm spec" "validate_or_raise spec = Inr ()" "verify_spec env nm spec = Inr ()"
    by (auto simp: checked_spec_def)
  moreover have "ps_signature sp = str_or spec ''signature'' ''''" by (simp add: spec(1) spec_of_def)
  ultimately show ?thesis by (auto simp: verify_spec_def Let_def split: if_splits)
qed

lemma uninstall_cleanup_run:
  assumes "uninstall_cleanup env nm ls s = (Inr (), s')" "ext_ok (pg_exts s)"
  shows "pg_plugins s' = pg_plugins s \<and> pg_sdks s' = pg_sdks s \<and> pg_specs s' = dict_pop nm (pg_specs s) \<and>
    pg_dirs s' = dict_pop nm (pg_dirs s) \<and> lc_state (pg_states s') nm = P_DRAFT \<and>
    pg_fs s' = (case dict_get (pg_dirs s) nm of None \<Rightarrow> pg_fs s | Some d \<Rightarrow> dict_pop d (pg_fs s)) \<and>
    pg_perms s' = fst (perm_revoke nm None None (pg_perms s)) \<and> pg_hooks s' = pg_hooks s \<and>
    pg_exts s' = fst (ext_unregister_plugin nm (pg_exts s))"
  using assms(1)
  by (auto simp: uninstall_cleanup_def andthen_def sdk_cleanup_def remove_dir_def transition_to_def emit_def lc_drop_def
      lc_state_def split: option.splits sum.splits)

section \<open>A plugin leaves nothing behind\<close>

lemma dict_get_or_bucket_pop: "bucket_ok k b \<Longrightarrow> bucket_ok k (dict_pop n b)"
  by (auto simp: bucket_ok_def intro: list_all_dict_pop)

lemma ext_unregister_ok: "ext_ok x \<Longrightarrow> ext_ok (fst (ext_unregister k n x))"
  using dict_get_or_bucket_pop [OF ext_okD [of x k]]
  by (auto simp: ext_unregister_def ext_ok_def Let_def intro!: list_all_dict_set list_all_dict_pop)

lemma drop_listeners_ext: "ext_ok (pg_exts s) \<Longrightarrow> ext_ok (pg_exts (fold (sdk_drop_listener nm) ls s))"
  by (induction ls arbitrary: s) (auto simp: sdk_drop_listener_def ext_unregister_ok split: prod.split)

lemma sdk_step_ext: "ext_ok (pg_exts s) \<Longrightarrow> ext_ok (pg_exts (snd (sdk_step nm c ls s)))"
  using drop_listeners_ext [of s nm] ext_register_ok [of "pg_exts s"] ext_unregister_ok [of "pg_exts s"]
  by (cases c) (auto simp: sdk_step_def Let_def split: sum.split)

lemma run_calls_ext: "ext_ok (pg_exts s) \<Longrightarrow> ext_ok (pg_exts (snd (run_calls nm cs ls s)))"
proof (induction cs arbitrary: ls s)
  case (Cons c cs)
  obtain r s1 where r: "sdk_step nm c ls s = (r, s1)" by fastforce
  then have "ext_ok (pg_exts s1)" using sdk_step_ext [OF Cons.prems, of nm c ls] by simp
  then show ?case using Cons.IH r by (cases r) auto
qed simp

abbreviation exts_ok :: "plugin_manager \<Rightarrow> bool" where
  "exts_ok s \<equiv> ext_ok (pg_exts s)"

lemma load_plugin_ext: "keeps exts_ok (load_plugin env nm dir)"
  unfolding keeps_state
proof (intro allI impI)
  fix s assume s: "exts_ok s"
  have "exts_ok t" if "run_calls nm calls [] s = (r, t)" for calls r t
    using run_calls_ext [OF s, of nm calls "[]"] that by simp
  then show "exts_ok (snd (load_plugin env nm dir s))"
    using s by (auto simp: load_plugin_def split: option.split prod.split)
qed

lemma run_code_ext: "keeps exts_ok (run_code env nm code hook ls)"
  unfolding keeps_state
proof (intro allI impI)
  fix s assume s: "exts_ok s"
  have "exts_ok t" if "run_calls nm calls ls s = (r, t)" for calls r t
    using run_calls_ext [OF s, of nm calls ls] that by simp
  then show "exts_ok (snd (run_code env nm code hook ls s))"
    by (auto simp: run_code_def split: option.split prod.split)
qed

lemma keeps_exts: "unchanged pg_exts m \<Longrightarrow> keeps exts_ok m"
  by (rule unchanged_triple)

lemma run_plugin_hook_ext: "keeps exts_ok (run_plugin_hook env nm hook)"
  unfolding run_plugin_hook_def by (intro keeps_rules run_code_ext; rule keeps_exts; intro unchanged_rules)

lemma pm_enable_ext: "keeps exts_ok (pm_enable env nm)"
  unfolding pm_enable_def by (intro keeps_rules run_plugin_hook_ext; rule keeps_exts; intro unchanged_rules)

lemma pm_disable_ext: "keeps exts_ok (pm_disable env nm)"
  unfolding pm_disable_def by (intro keeps_rules run_plugin_hook_ext; rule keeps_exts; intro unchanged_rules)

lemma unregister_ext: "keeps exts_ok (modify (\<lambda>s. s\<lparr>pg_exts := fst (ext_unregister_plugin nm (pg_exts s))\<rparr>))"
  by (simp add: keeps_state ext_unregister_plugin_ok)

lemma replace_plugin_ext: "keeps exts_ok (replace_plugin env nm dir spec)"
  unfolding replace_plugin_def drop_old_def
  by (intro keeps_rules load_plugin_ext unregister_ext; rule keeps_exts;
    (intro unchanged_rules | rule unchanged_modify, simp add: sdk_cleanup_def))

lemma install_body_ext: "keeps exts_ok (install_body env nm dir spec)"
  unfolding install_body_def
  by (intro keeps_rules load_plugin_ext run_plugin_hook_ext; rule keeps_exts; (intro unchanged_rules | rule unchanged_modify, simp))

lemma market_install_ext [unchanged_rules]: "unchanged pg_exts (market_install_entry env i)"
  unfolding market_install_entry_def Let_def by (intro unchanged_rules unchanged_modify; simp)

lemma materialize_ext [unchanged_rules]: "unchanged pg_exts (materialize env spec src i)"
  unfolding materialize_def by (intro unchanged_rules)

lemma pm_install_ext: "keeps exts_ok (pm_install env spec src i auto)"
  unfolding pm_install_def
  by (intro keeps_rules install_body_ext pm_enable_ext; rule keeps_exts; (intro unchanged_rules | rule unchanged_modify, simp))

lemma pm_reload_ext: "keeps exts_ok (pm_reload env nm)"
  unfolding pm_reload_def
  by (intro keeps_rules replace_plugin_ext run_plugin_hook_ext pm_enable_ext; rule keeps_exts; intro unchanged_rules)

lemma replace_files_ext [unchanged_rules]: "unchanged pg_exts (replace_files env dir spec)"
  unfolding replace_files_def by (intro unchanged_rules)

lemma pm_upgrade_ext: "keeps exts_ok (pm_upgrade env nm spec)"
  unfolding pm_upgrade_def upgrade_body_def rollback_plugin_def
  by (intro keeps_rules replace_plugin_ext run_plugin_hook_ext pm_enable_ext; rule keeps_exts;
    (intro unchanged_rules | rule unchanged_modify, simp))

lemma uninstall_cleanup_ext: "keeps exts_ok (uninstall_cleanup env nm ls)"
proof -
  have upd: "keeps exts_ok (modify (\<lambda>s. s\<lparr>pg_exts := fst (ext_unregister_plugin nm (pg_exts s)),
      pg_perms := fst (perm_revoke nm None None (pg_perms s))\<rparr>))"
    by (simp add: keeps_state ext_unregister_plugin_ok)
  show ?thesis unfolding uninstall_cleanup_def
    by (intro keeps_rules upd; rule keeps_exts; (intro unchanged_rules | rule unchanged_modify, simp add: sdk_cleanup_def))
qed

lemma pm_uninstall_ext: "keeps exts_ok (pm_uninstall env nm)"
  unfolding pm_uninstall_def
  by (intro keeps_rules pm_disable_ext run_plugin_hook_ext run_code_ext uninstall_cleanup_ext; rule keeps_exts;
    (intro unchanged_rules | rule unchanged_modify, simp))

lemma exts_ok_exec: "exts_ok (pm_exec env ops (pm_init fs market))"
  unfolding pm_exec_def
proof (rule run_all_keeps)
  fix m assume "m \<in> set (map (pm_run env) ops)"
  then obtain op where m: "m = pm_run env op" by auto
  show "keeps exts_ok m" unfolding m
    by (cases op) (simp_all add: keeps_void pm_install_ext pm_enable_ext pm_disable_ext pm_reload_ext pm_upgrade_ext pm_uninstall_ext)
qed (simp add: pm_init_def)

text \<open>The plugins, specifications, permissions and states of the others.\<close>

lemma unchanged_comp: "unchanged f m \<Longrightarrow> unchanged (\<lambda>s. h (f s)) m"
  by (simp add: unchanged_def)

lemma transition_other [unchanged_rules]: "q \<noteq> nm \<Longrightarrow> unchanged (\<lambda>s. lc_state (pg_states s) q) (transition_to nm st)"
  by (auto simp: unchanged_def transition_to_def lc_transition_def lc_state_def Let_def split: sum.splits if_splits)

definition of_other :: "string \<Rightarrow> plugin_manager \<Rightarrow> string option \<times> plugin_spec option \<times> (string, string set) dict" where
  "of_other q s = (dict_get (pg_plugins s) q, dict_get (pg_specs s) q, dict_get_or (pg_perms s) q [])"

lemma of_other_frame: "unchanged pg_plugins m \<Longrightarrow> unchanged pg_specs m \<Longrightarrow> unchanged pg_perms m \<Longrightarrow> unchanged (of_other q) m"
  by (simp add: unchanged_def of_other_def)

lemma revoke_other: "q \<noteq> nm \<Longrightarrow> dict_get_or (fst (perm_revoke nm None None g)) q [] = dict_get_or g q []"
  by (simp add: perm_revoke_def split: option.split)

lemma revoke_self: "dict_get_or (fst (perm_revoke nm None None g)) nm [] = []"
  by (simp add: perm_revoke_def dict_get_or_def split: option.split)

lemma uninstall_other: "q \<noteq> nm \<Longrightarrow> unchanged (of_other q) (pm_uninstall env nm)"
  unfolding pm_uninstall_def uninstall_cleanup_def
  by (intro unchanged_andthen unchanged_if unchanged_basic unchanged_attempt unchanged_always unchanged_option unchanged_prod;
    (rule of_other_frame; intro unchanged_rules
     | rule unchanged_modify, simp add: of_other_def sdk_cleanup_def revoke_other))

lemma keeps_conj: "keeps I m \<Longrightarrow> keeps J m \<Longrightarrow> keeps (\<lambda>s. I s \<and> J s) m"
  by (simp add: keeps_state)

lemma keeps_pass: "keeps I m \<Longrightarrow> (\<And>a. triple I (g a) Q (\<lambda>_ _. True)) \<Longrightarrow> triple I (andthen m g) Q (\<lambda>_ _. True)"
  by (rule triple_andthen [of I m "\<lambda>_. I"]) (erule triple_weaken, auto)

abbreviation popped :: "string \<Rightarrow> plugin_manager \<Rightarrow> bool" where
  "popped nm s \<equiv> exts_ok s \<and> dict_get (pg_plugins s) nm = None"

lemma cleanup_triple:
  "triple (popped nm) (uninstall_cleanup env nm ls)
     (\<lambda>_ t. dict_get (pg_plugins t) nm = None \<and> dict_get (pg_specs t) nm = None \<and> dict_get (pg_dirs t) nm = None \<and>
        ext_list_by_plugin nm (pg_exts t) = [] \<and> dict_get_or (pg_perms t) nm [] = []) (\<lambda>_ _. True)"
proof (rule tripleI)
  fix s a s' assume pre: "popped nm s" and "uninstall_cleanup env nm ls s = (Inr a, s')"
  then have run: "uninstall_cleanup env nm ls s = (Inr (), s')" by simp
  from pre have ok: "ext_ok (pg_exts s)" by simp
  have "ext_list_by_plugin nm (fst (ext_unregister_plugin nm (pg_exts s))) = []"
    using unregister_plugin_exact [OF ok] by blast
  with uninstall_cleanup_run [OF run ok] pre
  show "dict_get (pg_plugins s') nm = None \<and> dict_get (pg_specs s') nm = None \<and> dict_get (pg_dirs s') nm = None \<and>
        ext_list_by_plugin nm (pg_exts s') = [] \<and> dict_get_or (pg_perms s') nm [] = []"
    by (simp add: revoke_self)
qed simp

lemma uninstall_triple:
  "triple exts_ok (pm_uninstall env nm)
     (\<lambda>_ t. dict_get (pg_plugins t) nm = None \<and> dict_get (pg_specs t) nm = None \<and> dict_get (pg_dirs t) nm = None \<and>
        ext_list_by_plugin nm (pg_exts t) = [] \<and> dict_get_or (pg_perms t) nm [] = []) (\<lambda>_ _. True)"
  (is "triple _ _ ?Q _")
proof -
  have code: "keeps (popped nm) (run_code env nm code ''shutdown'' ls)" for code ls
    by (intro keeps_conj run_code_ext) (rule unchanged_triple, rule unchanged_rules)
  have sdk: "keeps (popped nm) (modify (\<lambda>s. s\<lparr>pg_sdks := dict_pop nm (pg_sdks s)\<rparr>))" by (simp add: keeps_state)
  have shut: "keeps (popped nm)
       (case plugin of
          None \<Rightarrow> ret (case sdk of None \<Rightarrow> [] | Some ls \<Rightarrow> ls)
        | Some code \<Rightarrow>
            andthen (always (run_code env nm code ''shutdown'' (case sdk of None \<Rightarrow> [] | Some ls \<Rightarrow> ls))
              (modify (\<lambda>s. s\<lparr>pg_sdks := dict_pop nm (pg_sdks s)\<rparr>))) ret)" for plugin sdk
    by (intro keeps_rules code sdk; simp add: keeps_state)
  have tail: "triple exts_ok
     (andthen (modify (\<lambda>s. s\<lparr>pg_plugins := dict_pop nm (pg_plugins s), pg_sdks := dict_pop nm (pg_sdks s)\<rparr>)) (\<lambda>_.
      andthen
       (case plugin of
          None \<Rightarrow> ret (case sdk of None \<Rightarrow> [] | Some ls \<Rightarrow> ls)
        | Some code \<Rightarrow>
            andthen (always (run_code env nm code ''shutdown'' (case sdk of None \<Rightarrow> [] | Some ls \<Rightarrow> ls))
              (modify (\<lambda>s. s\<lparr>pg_sdks := dict_pop nm (pg_sdks s)\<rparr>))) ret) (\<lambda>ls.
        uninstall_cleanup env nm ls))) ?Q (\<lambda>_ _. True)" for plugin sdk
    by (rule triple_andthen [where R = "\<lambda>_. popped nm"], simp add: triple_def,
      rule keeps_pass [OF shut], rule cleanup_triple)
  show ?thesis unfolding pm_uninstall_def
    by (intro keeps_pass [where I = exts_ok] triple_prod tail keeps_rules pm_disable_ext run_plugin_hook_ext;
      rule keeps_exts; intro unchanged_rules)
qed


section \<open>A failed upgrade\<close>

text \<open>Programs that do not raise the error of the roll-back themselves.\<close>

definition no_rollback :: "'a pgprog \<Rightarrow> bool" where
  "no_rollback m \<longleftrightarrow> (\<forall>s e t x. m s = (Inl e, t) \<longrightarrow> e \<noteq> PluginRollbackError x)"

lemma no_rollback_basic:
  "no_rollback (ret a)" "no_rollback (gets f)" "no_rollback (modify h)"
  "(\<And>x. e \<noteq> PluginRollbackError x) \<Longrightarrow> no_rollback (throw e)"
  "(\<And>x. e \<noteq> PluginRollbackError x) \<Longrightarrow> no_rollback (require b e)"
  "(\<And>x. e \<noteq> PluginRollbackError x) \<Longrightarrow> no_rollback (fetch e g)"
  "(\<And>x. r \<noteq> Inl (PluginRollbackError x)) \<Longrightarrow> no_rollback (lift_result r)"
  by (auto simp: no_rollback_def fetch_def split: option.splits if_splits)

lemma no_rollback_andthen: "no_rollback m \<Longrightarrow> (\<And>a. no_rollback (g a)) \<Longrightarrow> no_rollback (andthen m g)"
  unfolding no_rollback_def andthen_def by (auto split: sum.splits prod.splits)

lemma no_rollback_if: "no_rollback m \<Longrightarrow> no_rollback n \<Longrightarrow> no_rollback (if b then m else n)"
  by simp

lemma no_rollback_attempt: "(\<And>e. (\<And>x. e \<noteq> PluginRollbackError x) \<Longrightarrow> no_rollback (h e)) \<Longrightarrow> no_rollback m \<Longrightarrow> no_rollback (attempt m h)"
proof -
  assume h: "\<And>e. (\<And>x. e \<noteq> PluginRollbackError x) \<Longrightarrow> no_rollback (h e)" and m: "no_rollback m"
  show ?thesis unfolding no_rollback_def
  proof (intro allI impI)
    fix s e t x assume run: "attempt m h s = (Inl e, t)"
    then obtain e1 t1 where e1: "m s = (Inl e1, t1)" "h e1 t1 = (Inl e, t)"
      by (auto simp: attempt_def split: sum.splits prod.splits)
    then have "e1 \<noteq> PluginRollbackError y" for y using m unfolding no_rollback_def by blast
    then have "no_rollback (h e1)" by (rule h)
    with e1(2) show "e \<noteq> PluginRollbackError x" unfolding no_rollback_def by blast
  qed
qed

lemma no_rollback_parts:
  "no_rollback (transition_to nm st)" "no_rollback (emit env ev nm)" "no_rollback (pm_require nm)"
  "no_rollback (pm_info nm)" "no_rollback (write_dir p d)" "no_rollback (remove_dir p)"
  by (auto simp: no_rollback_def transition_to_def emit_def pm_require_def pm_info_def write_dir_def remove_dir_def
      andthen_def fetch_def split: sum.splits option.splits if_splits prod.splits)

lemma sdk_step_no_rollback: "sdk_step nm c ls s = (Inl e, t) \<Longrightarrow> e \<noteq> PluginRollbackError x"
  by (cases c) (auto simp: sdk_step_def ext_register_def Let_def split: sum.splits if_splits)

lemma run_calls_no_rollback: "run_calls nm cs ls s = ((Some e, ls'), t) \<Longrightarrow> e \<noteq> PluginRollbackError x"
  by (induction cs arbitrary: ls s) (auto dest: sdk_step_no_rollback split: prod.splits sum.splits)

lemma run_code_no_rollback: "no_rollback (run_code env nm code hook ls)"
  by (auto simp: no_rollback_def run_code_def dest: run_calls_no_rollback split: prod.splits option.splits)

lemma run_plugin_hook_no_rollback: "no_rollback (run_plugin_hook env nm hook)"
  unfolding run_plugin_hook_def by (intro no_rollback_andthen no_rollback_basic run_code_no_rollback) simp

lemma mark_failed_no_rollback: "no_rollback (mark_failed env nm)"
  unfolding mark_failed_def by (intro no_rollback_andthen no_rollback_attempt no_rollback_basic no_rollback_parts)

lemma pm_enable_no_rollback: "no_rollback (pm_enable env nm)"
  unfolding pm_enable_def
  by (intro no_rollback_andthen no_rollback_attempt no_rollback_if no_rollback_basic no_rollback_parts run_plugin_hook_no_rollback
      mark_failed_no_rollback) simp_all

lemma validate_permission_no_rollback: "validate_permission i j \<noteq> Inl (PluginRollbackError x)"
  by (auto simp: validate_permission_def bind_result_def Let_def split: json.splits if_splits)

lemma validate_permissions_no_rollback: "validate_permissions i js \<noteq> Inl (PluginRollbackError x)"
  by (induction js arbitrary: i) (auto simp: bind_result_def validate_permission_no_rollback split: sum.splits)

lemma validate_spec_no_rollback: "no_rollback (validate_spec env spec)"
proof -
  have "validate_or_raise spec \<noteq> Inl (PluginRollbackError x)" for x
    by (auto simp: validate_or_raise_def manifest_validate_def Let_def bind_result_def validate_permissions_no_rollback
        split: sum.splits json.splits if_splits)
  moreover have "compat_check_or_raise cc spec k \<noteq> Inl (PluginRollbackError x)" for cc k x
    by (auto simp: compat_check_or_raise_def compat_check_def has_tag_def Let_def bind_result_def
        split: sum.splits json.splits if_splits option.splits)
  ultimately show ?thesis unfolding validate_spec_def by (intro no_rollback_andthen no_rollback_basic) auto
qed

text \<open>
  What holds of the plugin after a failed upgrade: the directory is as before, and the plugin is either
  rolled back, and then its code is the old one, or failed.
\<close>

definition restored :: "string \<Rightarrow> string \<Rightarrow> plugin_dir \<Rightarrow> (string, plugin_spec) dict \<Rightarrow> plugin_manager \<Rightarrow> bool" where
  "restored nm dir d specs s \<longleftrightarrow> pg_specs s = specs \<and> dict_get (pg_fs s) dir = Some d \<and>
     (lc_state (pg_states s) nm = P_FAILED \<or>
      lc_state (pg_states s) nm = P_ROLLED_BACK \<and> dict_get (pg_plugins s) nm = pf_code d)"

lemma load_plugin_code:
  assumes "load_plugin env nm dir s = (Inr (code, ls), t)" "dict_get (pg_fs s) dir = Some d"
  shows "pf_code d = Some code"
  using assms by (auto simp: load_plugin_def split: option.splits prod.splits)

definition backed_up :: "string \<Rightarrow> string \<Rightarrow> plugin_dir \<Rightarrow> (string, plugin_spec) dict \<Rightarrow> plugin_manager \<Rightarrow> bool" where
  "backed_up nm dir d specs s \<longleftrightarrow> pg_specs s = specs \<and> dict_get (pg_dirs s) nm = Some dir \<and>
     dict_get (pg_fs s) (backup_of dir) = Some d"

lemma backup_differs [simp]: "backup_of dir \<noteq> dir" "dir \<noteq> backup_of dir"
  by (simp_all add: backup_of_def)

lemma replace_plugin_code:
  "triple (\<lambda>s. dict_get (pg_fs s) dir = Some d) (replace_plugin env nm dir spec)
     (\<lambda>_ s. dict_get (pg_plugins s) nm = pf_code d) (\<lambda>_ _. True)"
  unfolding replace_plugin_def
proof (rule keeps_pass)
  show "keeps (\<lambda>s. dict_get (pg_fs s) dir = Some d) (drop_old nm)" by (rule unchanged_triple) (rule unchanged_rules)
  have load: "triple (\<lambda>s. dict_get (pg_fs s) dir = Some d) (load_plugin env nm dir) (\<lambda>p _. pf_code d = Some (fst p)) (\<lambda>_ _. True)"
    by (rule tripleI) (auto dest: load_plugin_code)
  show "triple (\<lambda>s. dict_get (pg_fs s) dir = Some d)
     (andthen (load_plugin env nm dir) (\<lambda>p. andthen (modify (set_plugin nm p)) (\<lambda>_.
       modify (\<lambda>s. s\<lparr>pg_perms := grant_from_manifest nm (manifest_permissions spec) (pg_perms s)\<rparr>))))
     (\<lambda>_ s. dict_get (pg_plugins s) nm = pf_code d) (\<lambda>_ _. True)"
    by (rule triple_andthen [OF load]) (auto simp: triple_def andthen_def set_plugin_def)
qed

lemma transition_state: "triple P (transition_to nm st) (\<lambda>_ s. lc_state (pg_states s) nm = st) (\<lambda>_ _. True)"
  by (auto simp: triple_def transition_to_def lc_transition_def lc_state_def Let_def split: sum.splits if_splits)

lemma triple_conj: "triple P m Q E \<Longrightarrow> triple P' m Q' E' \<Longrightarrow> triple (\<lambda>s. P s \<and> P' s) m (\<lambda>a s. Q a s \<and> Q' a s) (\<lambda>e s. E e s \<and> E' e s)"
  unfolding triple_def by (auto split: sum.splits prod.splits)

text \<open>After the state was changed to rolling back, the failure can be recorded.\<close>

lemma mark_failed_state:
  "triple (\<lambda>s. P_FAILED \<in> valid_transitions (lc_state (pg_states s) nm)) (mark_failed env nm)
     (\<lambda>_ s. lc_state (pg_states s) nm = P_FAILED) (\<lambda>_ _. False)"
  by (auto simp: triple_def mark_failed_def attempt_def andthen_def transition_to_def emit_def lc_transition_def
      lc_state_def Let_def)

abbreviation rolling :: "string \<Rightarrow> string \<Rightarrow> plugin_dir \<Rightarrow> (string, plugin_spec) dict \<Rightarrow> plugin_manager \<Rightarrow> bool" where
  "rolling nm dir d specs s \<equiv> pg_specs s = specs \<and> lc_state (pg_states s) nm = P_ROLLING_BACK \<and> dict_get (pg_fs s) dir = Some d"

lemma keeps_rolling:
  "unchanged pg_specs m \<Longrightarrow> unchanged pg_states m \<Longrightarrow> unchanged pg_fs m \<Longrightarrow> keeps (rolling nm dir d specs) m"
  unfolding keeps_state unchanged_def by simp

lemma restore_body:
  "triple (\<lambda>s. backed_up nm dir d specs s \<and> lc_state (pg_states s) nm = P_ROLLING_BACK)
     (andthen (remove_dir dir) (\<lambda>_.
      andthen (fetch (FileError (backup_of dir)) (\<lambda>s. dict_get (pg_fs s) (backup_of dir))) (\<lambda>d.
      andthen (write_dir dir d) (\<lambda>_.
      andthen (read_manifest env dir) (\<lambda>spec.
      andthen (replace_plugin env nm dir spec) (\<lambda>_.
        transition_to nm P_ROLLED_BACK))))))
     (\<lambda>_. restored nm dir d specs) (\<lambda>_. rolling nm dir d specs)"
proof -
  have tr: "triple (\<lambda>s. rolling nm dir d specs s \<and> dict_get (pg_plugins s) nm = pf_code d) (transition_to nm P_ROLLED_BACK)
      (\<lambda>_. restored nm dir d specs) (\<lambda>_. rolling nm dir d specs)"
    by (auto simp: triple_def transition_to_def lc_transition_def lc_state_def restored_def Let_def split: sum.splits)
  have "triple (\<lambda>s. rolling nm dir d specs s \<and> dict_get (pg_fs s) dir = Some d) (replace_plugin env nm dir spec)
      (\<lambda>_ s. rolling nm dir d specs s \<and> dict_get (pg_plugins s) nm = pf_code d) (\<lambda>_ s. rolling nm dir d specs s \<and> True)" for spec
    by (rule triple_conj [OF keeps_rolling replace_plugin_code]) (rule unchanged_rules)+
  then have rep: "triple (rolling nm dir d specs) (replace_plugin env nm dir spec)
      (\<lambda>_ s. rolling nm dir d specs s \<and> dict_get (pg_plugins s) nm = pf_code d) (\<lambda>_. rolling nm dir d specs)" for spec
    by (rule triple_weaken) auto
  have read: "triple (rolling nm dir d specs) (andthen (read_manifest env dir) (\<lambda>spec.
      andthen (replace_plugin env nm dir spec) (\<lambda>_. transition_to nm P_ROLLED_BACK)))
      (\<lambda>_. restored nm dir d specs) (\<lambda>_. rolling nm dir d specs)"
    by (rule triple_andthen [OF keeps_rolling], (rule unchanged_rules)+, rule triple_andthen [OF rep], rule tr)
  show ?thesis
    by (rule triple_andthen [where R = "\<lambda>_ s. backed_up nm dir d specs s \<and> lc_state (pg_states s) nm = P_ROLLING_BACK"],
      simp add: triple_def remove_dir_def backed_up_def,
      rule triple_andthen [where R = "\<lambda>a s. a = d \<and> backed_up nm dir d specs s \<and> lc_state (pg_states s) nm = P_ROLLING_BACK"],
      simp add: triple_def fetch_def backed_up_def, rule triple_pure, hypsubst,
      rule triple_andthen [where R = "\<lambda>_. rolling nm dir d specs"],
      simp add: triple_def write_dir_def backed_up_def, rule read)
qed

lemma rollback_restores:
  "triple (backed_up nm dir d specs) (rollback_plugin env nm (backup_of dir)) (\<lambda>_ _. False)
     (\<lambda>e s. e = PluginRollbackError nm \<longrightarrow> restored nm dir d specs s)"
proof -
  have start: "triple (backed_up nm dir d specs) (transition_to nm P_ROLLING_BACK)
      (\<lambda>_ s. backed_up nm dir d specs s \<and> lc_state (pg_states s) nm = P_ROLLING_BACK)
      (\<lambda>e s. e = PluginRollbackError nm \<longrightarrow> restored nm dir d specs s)"
    by (auto simp: triple_def transition_to_def lc_transition_def lc_state_def backed_up_def Let_def split: sum.splits if_splits)
  have fail: "triple (rolling nm dir d specs) (mark_failed env nm) (\<lambda>_. restored nm dir d specs)
      (\<lambda>e s. e = PluginRollbackError nm \<longrightarrow> restored nm dir d specs s)"
    by (auto simp: triple_def mark_failed_def attempt_def andthen_def transition_to_def emit_def lc_transition_def
      lc_state_def restored_def Let_def)
  show ?thesis unfolding rollback_plugin_def
    by (rule triple_andthen [OF start],
      rule triple_andthen [where R = "\<lambda>a s. a = dir \<and> backed_up nm dir d specs s \<and> lc_state (pg_states s) nm = P_ROLLING_BACK"],
      simp add: triple_def fetch_def backed_up_def, rule triple_pure, hypsubst,
      rule triple_andthen [OF triple_attempt [OF restore_body fail]], rule triple_basic, simp)
qed

lemma nr_pass:
  assumes "no_rollback m" "triple P m R (\<lambda>_ _. True)" "\<And>a. triple (R a) (g a) Q (\<lambda>e s. e = PluginRollbackError nm \<longrightarrow> X s)"
  shows "triple P (andthen m g) Q (\<lambda>e s. e = PluginRollbackError nm \<longrightarrow> X s)"
proof (rule triple_andthen [OF _ assms(3)])
  show "triple P m R (\<lambda>e s. e = PluginRollbackError nm \<longrightarrow> X s)"
    using assms(1,2) unfolding triple_def no_rollback_def by (fastforce split: sum.splits prod.splits)
qed

lemma nr_end: "no_rollback m \<Longrightarrow> triple P m (\<lambda>_ _. True) (\<lambda>e s. e = PluginRollbackError nm \<longrightarrow> X s)"
  unfolding triple_def no_rollback_def by (fastforce split: sum.splits prod.splits)

lemma triple_top: "triple P m (\<lambda>_ _. True) (\<lambda>_ _. True)"
  by (simp add: triple_def split: prod.split sum.split)

lemma upgrade_body_backed:
  "triple (backed_up nm dir d specs) (upgrade_body env nm dir spec) (\<lambda>_ _. True) (\<lambda>_. backed_up nm dir d specs)"
proof -
  have same: "keeps (backed_up nm dir d specs) m" if "unchanged pg_specs m" "unchanged pg_dirs m" "unchanged pg_fs m"
    for m :: "'a pgprog"
    using that unfolding keeps_state unchanged_def backed_up_def by simp
  have wr: "keeps (backed_up nm dir d specs) (write_dir dir x)" for x
    by (simp add: keeps_state write_dir_def backed_up_def)
  have files: "keeps (backed_up nm dir d specs) (replace_files env dir spec)"
    unfolding replace_files_def by (intro keeps_rules wr; rule same; intro unchanged_rules)
  have rep: "keeps (backed_up nm dir d specs) (replace_plugin env nm dir spec)" by (rule same) (rule unchanged_rules)+
  have hook: "keeps (backed_up nm dir d specs) (run_plugin_hook env nm ''on_upgrade'')" by (rule same) (rule unchanged_rules)+
  show ?thesis unfolding upgrade_body_def
    by (rule triple_andthen [OF files], rule triple_andthen [OF rep], rule triple_andthen [OF hook]) (simp add: triple_def)
qed

definition upgrade_undone :: "string \<Rightarrow> string \<Rightarrow> plugin_dir \<Rightarrow> (string, plugin_spec) dict \<Rightarrow> plugin_manager \<Rightarrow> bool" where
  "upgrade_undone nm dir d specs s \<longleftrightarrow> restored nm dir d specs s \<and> dict_get (pg_fs s) (backup_of dir) = None"

lemma always_remove:
  assumes "triple P m (\<lambda>_ _. True) (\<lambda>e s. e = PluginRollbackError nm \<longrightarrow> restored nm dir d specs s)"
  shows "triple P (always m (remove_dir (backup_of dir))) (\<lambda>_ _. True)
    (\<lambda>e s. e = PluginRollbackError nm \<longrightarrow> upgrade_undone nm dir d specs s)"
  using assms unfolding triple_def always_def remove_dir_def
  by (auto simp: upgrade_undone_def restored_def split: sum.splits prod.splits)

text \<open>
  C23. An upgrade that ends in a roll-back leaves the plugin's directory and the recorded specification as
  they were and no backup behind; the plugin is rolled back to its old code, or marked as failed when
  the old code could not be loaded again.
\<close>

theorem failed_upgrade_restores:
  assumes "dict_get (pg_dirs s) nm = Some dir" and "dict_get (pg_fs s) dir = Some d"
    and "pm_upgrade env nm spec s = (Inl (PluginRollbackError nm), s')"
  shows "pg_specs s' = pg_specs s \<and> dict_get (pg_fs s') dir = Some d \<and> dict_get (pg_fs s') (backup_of dir) = None \<and>
    (lc_state (pg_states s') nm = P_FAILED \<or>
     lc_state (pg_states s') nm = P_ROLLED_BACK \<and> dict_get (pg_plugins s') nm = pf_code d)"
proof -
  let ?P = "\<lambda>t. pg_specs t = pg_specs s \<and> dict_get (pg_dirs t) nm = Some dir \<and> dict_get (pg_fs t) dir = Some d"
  let ?U = "upgrade_undone nm dir d (pg_specs s)"
  have same: "triple ?P m (\<lambda>_. ?P) (\<lambda>_ _. True)" if "unchanged pg_specs m" "unchanged pg_dirs m" "unchanged pg_fs m"
    for m :: "'a pgprog"
    by (rule triple_weaken [of ?P m "\<lambda>_. ?P" "\<lambda>_. ?P"]) (use that in \<open>auto simp: keeps_state unchanged_def\<close>)
  have body: "triple (backed_up nm dir d (pg_specs s))
      (always (attempt (upgrade_body env nm dir spec) (\<lambda>e. rollback_plugin env nm (backup_of dir))) (remove_dir (backup_of dir)))
      (\<lambda>_ _. True) (\<lambda>e s. e = PluginRollbackError nm \<longrightarrow> ?U s)"
    by (rule always_remove, rule triple_attempt [OF upgrade_body_backed],
      rule triple_weaken [OF rollback_restores]) auto
  have rest: "triple ?P (upgrade_rest env nm spec) (\<lambda>_ _. True) (\<lambda>e s. e = PluginRollbackError nm \<longrightarrow> ?U s)"
    unfolding upgrade_rest_def
    apply (rule nr_pass [where R = "\<lambda>_. ?P"], rule no_rollback_basic, rule same, (rule unchanged_rules)+)
    apply (rule nr_pass [where R = "\<lambda>a t. a = dir \<and> ?P t"], rule no_rollback_basic, simp, simp add: triple_def fetch_def)
    apply (rule triple_pure, hypsubst)
    apply (rule nr_pass [where R = "\<lambda>_. ?P"], rule no_rollback_parts, simp add: triple_def remove_dir_def)
    apply (rule nr_pass [where R = "\<lambda>a t. a = d \<and> ?P t"], rule no_rollback_basic, simp, simp add: triple_def fetch_def)
    apply (rule triple_pure, hypsubst)
    apply (rule nr_pass [where R = "\<lambda>_. backed_up nm dir d (pg_specs s)"], rule no_rollback_parts,
      simp add: triple_def write_dir_def backed_up_def)
    apply (rule nr_pass [where R = "\<lambda>_. backed_up nm dir d (pg_specs s)"], rule no_rollback_parts,
      rule triple_weaken [of "backed_up nm dir d (pg_specs s)" _ "\<lambda>_. backed_up nm dir d (pg_specs s)" "\<lambda>_. backed_up nm dir d (pg_specs s)"])
       apply (auto simp: keeps_state transition_to_def backed_up_def split: sum.split)[4]
    apply (rule triple_andthen [OF body], rule nr_end)
    by (intro no_rollback_andthen no_rollback_if no_rollback_parts no_rollback_basic pm_enable_no_rollback)
  have nv: "no_rollback (lift_result (newer_version spec c))" "no_rollback (lift_result (verify_spec env nm spec))" for c
    by (auto simp: no_rollback_def newer_version_def verify_spec_def Let_def split: json.splits option.splits if_splits)
  have "triple ?P (pm_upgrade env nm spec) (\<lambda>_ _. True) (\<lambda>e s. e = PluginRollbackError nm \<longrightarrow> ?U s)"
    unfolding pm_upgrade_split
    by (rule nr_pass [where R = "\<lambda>_. ?P"], rule no_rollback_parts, rule same, (rule unchanged_rules)+,
      rule nr_pass [where R = "\<lambda>_. ?P"], rule no_rollback_basic, simp, rule same, (rule unchanged_rules)+,
      rule nr_pass [where R = "\<lambda>_. ?P"], rule no_rollback_basic, simp, rule same, (rule unchanged_rules)+,
      rule nr_pass [where R = "\<lambda>_. ?P"], rule nv, rule same, (rule unchanged_rules)+,
      rule nr_pass [where R = "\<lambda>_. ?P"], rule validate_spec_no_rollback, rule same, (rule unchanged_rules)+,
      rule nr_pass [where R = "\<lambda>_. ?P"], rule nv, rule same, (rule unchanged_rules)+, rule rest)
  from tripleD(2) [OF this, of s, OF _ assms(3)] assms(1,2)
  show ?thesis by (auto simp: upgrade_undone_def restored_def)
qed

section \<open>A run of the manager\<close>

text \<open>A plugin with two versions; the second one refuses to be upgraded to.\<close>

definition demo_manifest :: "string \<Rightarrow> (string, json) dict" where
  "demo_manifest v =
     [(''name'', JStr ''p''), (''version'', JStr v), (''entry'', JStr ''create_plugin''),
      (''permissions'', JList [JObj [(''resource'', JStr ''network''),
         (''actions'', JList (if v = ''1.0.0'' then [JStr ''read''] else [JStr ''read'', JStr ''write'']))]]),
      (''plugin_code'', JStr (''code '' @ v))]"

definition demo_plugin_env :: plugin_env where
  "demo_plugin_env =
     \<lparr>pv_sign = \<lparr>sn_mac = (\<lambda>k t. t), sn_canonical_json = (\<lambda>d. '''')\<rparr>,
      pv_checker = \<lparr>cc_router_version = ''2.0.0'', cc_max_extensions = 500\<rparr>,
      pv_market_checker = \<lparr>cc_router_version = ''2.0.0'', cc_max_extensions = 500\<rparr>,
      pv_yaml_dump = (\<lambda>d. case dict_get_or d ''version'' JNull of JStr v \<Rightarrow> v | _ \<Rightarrow> ''''),
      pv_yaml_load = (\<lambda>v. Inr (JObj (dict_pop ''plugin_code'' (demo_manifest v)))),
      pv_load = (\<lambda>nm code. ([SDK_register EK_TOOL ''t'' 1], None)),
      pv_hook = (\<lambda>code hook. if hook = ''on_upgrade'' then ([], Some ''no'')
                               else if hook = ''on_install'' then ([CTX_hook ''h'' 7], None) else ([], None)),
      pv_handler = (\<lambda>h. Inr JNull), pv_secret = '''', pv_require_signatures = False, pv_auto_enable = True,
      pv_max_plugins = 10, pv_plugins_dir = ''d''\<rparr>"

definition demo_installed :: plugin_manager where
  "demo_installed = pm_exec demo_plugin_env [Op_install (Some (demo_manifest ''1.0.0'')) None None None] (pm_init [] [])"

lemma demo_specs: "map_option ps_version (dict_get (pg_specs demo_installed) ''p'') = Some ''1.0.0''"
  by code_simp

lemma demo_dirs: "dict_get (pg_dirs demo_installed) ''p'' = Some ''d/p''"
  by code_simp

lemma demo_files: "map_option pf_code (dict_get (pg_fs demo_installed) ''d/p'') = Some (Some ''code 1.0.0'')"
  by code_simp

lemma demo_uninstall: "fst (pm_uninstall demo_plugin_env ''p'' demo_installed) = Inr ()"
  by code_simp

text \<open>A smaller world for the upgrade, in which the new code raises as it is loaded.\<close>

definition small_env :: plugin_env where
  "small_env =
     \<lparr>pv_sign = \<lparr>sn_mac = (\<lambda>k t. t), sn_canonical_json = (\<lambda>d. [])\<rparr>,
      pv_checker = \<lparr>cc_router_version = [], cc_max_extensions = 5\<rparr>,
      pv_market_checker = \<lparr>cc_router_version = [], cc_max_extensions = 5\<rparr>,
      pv_yaml_dump = (\<lambda>d. []), pv_yaml_load = (\<lambda>v. Inr (JObj [])),
      pv_load = (\<lambda>nm code. ([], if code = [] then Some [] else None)),
      pv_hook = (\<lambda>code hook. ([], None)),
      pv_handler = (\<lambda>h. Inr JNull), pv_secret = [], pv_require_signatures = False, pv_auto_enable = True,
      pv_max_plugins = 2, pv_plugins_dir = []\<rparr>"

definition small_spec :: "(string, json) dict" where
  "small_spec = [(''name'', JStr ''p''), (''version'', JStr ''2.0.0''), (''entry'', JStr ''f''), (''plugin_code'', JStr [])]"

definition small_state :: plugin_manager where
  "small_state = (pm_init [(''d'', \<lparr>pf_manifest = Some [], pf_code = Some ''c''\<rparr>)] [])
     \<lparr>pg_states := lc_initialize ''p'' P_ENABLED (pg_states (pm_init [] [])),
      pg_plugins := [(''p'', ''c'')], pg_sdks := [(''p'', [])], pg_dirs := [(''p'', ''d'')],
      pg_specs := [(''p'', spec_of ''p'' [(''version'', JStr ''1.0.0'')])]\<rparr>"

lemma small_upgrade:
  "case pm_upgrade small_env ''p'' small_spec small_state of
     (Inl (PluginRollbackError nm), s') \<Rightarrow> nm = ''p'' \<and> lc_state (pg_states s') ''p'' = P_ROLLED_BACK
   | _ \<Rightarrow> False"
  by code_simp

theorem installed_manifests_checked_witness:
  "\<exists>sp spec. dict_get (pg_specs demo_installed) ''p'' = Some sp \<and> ps_version sp = ''1.0.0'' \<and>
     sp = spec_of ''p'' spec \<and> validate_or_raise spec = Inr ()"
proof -
  from demo_specs obtain sp where sp: "dict_get (pg_specs demo_installed) ''p'' = Some sp" "ps_version sp = ''1.0.0''"
    by (cases "dict_get (pg_specs demo_installed) ''p''") simp_all
  from installed_manifests_checked [OF sp(1) [unfolded demo_installed_def]]
  obtain spec where "sp = spec_of ''p'' spec" "validate_or_raise spec = Inr ()" by blast
  with sp show ?thesis by blast
qed


theorem failed_upgrade_restores_witness:
  "\<exists>s'. pm_upgrade small_env ''p'' small_spec small_state = (Inl (PluginRollbackError ''p''), s') \<and>
     pg_specs s' = pg_specs small_state \<and> dict_get (pg_plugins s') ''p'' = Some ''c''"
proof -
  from small_upgrade obtain s' where s': "pm_upgrade small_env ''p'' small_spec small_state = (Inl (PluginRollbackError ''p''), s')"
    "lc_state (pg_states s') ''p'' = P_ROLLED_BACK"
    by (auto split: prod.splits sum.splits plugin_error.splits)
  have dir: "dict_get (pg_dirs small_state) ''p'' = Some ''d''"
    and fs: "dict_get (pg_fs small_state) ''d'' = Some \<lparr>pf_manifest = Some [], pf_code = Some ''c''\<rparr>"
    by (simp_all add: small_state_def pm_init_def)
  from failed_upgrade_restores [OF dir fs s'(1)] s' show ?thesis by simp
qed

end
